(* ===== verification/PersaiPrelude.thy ===== *)
theory PersaiPrelude
  imports Complex_Main
begin

text \<open>
  What every component of the development shares.

  \<^item> The errors the services throw (\<open>js_error\<close>) and the shape of a service
    operation (\<open>('s, 'a) oper\<close>): a function from the state to a result or a thrown
    error, with the state as it is when the call returns or throws. \<open>bindS\<close> is the
    semicolon of an \<open>async\<close> function, \<open>catchS\<close> its \<open>try/catch\<close>,
    \<open>finallyS\<close> its \<open>try/finally\<close> and \<open>transactionS\<close> a Prisma
    interactive transaction, which rolls the state back when the body throws.
  \<^item> The bounded retry loop the repositories wrap around a transaction.
  \<^item> \<open>String.prototype.trim\<close> and the non-empty guard the runtime services repeat.
  \<^item> JavaScript numbers where a guard looks at more than integers (\<open>js_number\<close>).
  \<^item> The simplification sets \<open>oper_simps\<close> (evaluating operations) and
    \<open>guard_simps\<close>.

  Strings are lists of characters; the white space of \<open>trim\<close> is the part of it a
  character list can hold. Instants (\<open>Date\<close>) are milliseconds since the epoch, as
  \<open>int\<close>. Integer-valued JavaScript numbers and BigInts are \<open>int\<close>.
\<close>

named_theorems oper_simps "evaluation of service operations"
named_theorems guard_simps "evaluation of argument guards"

section \<open>Errors\<close>

datatype js_error =
    BadRequestException string
  | NotFoundException string
  | ConflictException string
  | TooManyRequestsException string
  | ServiceUnavailableException string
  | PlainError string
  | RangeError string
  | TypeError string
  | PlanNotFoundForVcoinGrantError string
  | PrismaKnownError string
  | RedisFailure

abbreviation uniqueViolation :: js_error where
  "uniqueViolation \<equiv> PrismaKnownError ''P2002''"

abbreviation recordNotFound :: js_error where
  "recordNotFound \<equiv> PrismaKnownError ''P2025''"

abbreviation serializationFailure :: js_error where
  "serializationFailure \<equiv> PrismaKnownError ''P2034''"

abbreviation abortedTransaction :: js_error where
  "abortedTransaction \<equiv> PrismaKnownError ''P2010''"

section \<open>Service operations\<close>

type_synonym 'a outcome = "js_error + 'a"
type_synonym ('s, 'a) oper = "'s \<Rightarrow> 'a outcome \<times> 's"

definition returnS :: "'a \<Rightarrow> ('s, 'a) oper" where
  "returnS a = (\<lambda>s. (Inr a, s))"

definition throwS :: "js_error \<Rightarrow> ('s, 'a) oper" where
  "throwS e = (\<lambda>s. (Inl e, s))"

definition bindS :: "('s, 'a) oper \<Rightarrow> ('a \<Rightarrow> ('s, 'b) oper) \<Rightarrow> ('s, 'b) oper" where
  "bindS m f = (\<lambda>s. case m s of (Inl e, s') \<Rightarrow> (Inl e, s') | (Inr a, s') \<Rightarrow> f a s')"

definition catchS :: "('s, 'a) oper \<Rightarrow> (js_error \<Rightarrow> ('s, 'a) oper) \<Rightarrow> ('s, 'a) oper" where
  "catchS m h = (\<lambda>s. case m s of (Inl e, s') \<Rightarrow> h e s' | (Inr a, s') \<Rightarrow> (Inr a, s'))"

definition transactionS :: "('s, 'a) oper \<Rightarrow> ('s, 'a) oper" where
  "transactionS m = (\<lambda>s. case m s of (Inl e, _) \<Rightarrow> (Inl e, s) | (Inr a, s') \<Rightarrow> (Inr a, s'))"

text \<open>A guard that throws before anything else happens.\<close>

definition guardS :: "unit outcome \<Rightarrow> ('s, 'a) oper \<Rightarrow> ('s, 'a) oper" where
  "guardS g m = (case g of Inl e \<Rightarrow> throwS e | Inr _ \<Rightarrow> m)"

lemma returnS_apply [simp, oper_simps]: "returnS a s = (Inr a, s)"
  by (simp add: returnS_def)

lemma throwS_apply [simp, oper_simps]: "throwS e s = (Inl e, s)"
  by (simp add: throwS_def)

lemma bindS_Inl [simp]: "m s = (Inl e, s') \<Longrightarrow> bindS m f s = (Inl e, s')"
  by (simp add: bindS_def)

lemma bindS_Inr [simp]: "m s = (Inr a, s') \<Longrightarrow> bindS m f s = f a s'"
  by (simp add: bindS_def)

lemma catchS_Inl [simp]: "m s = (Inl e, s') \<Longrightarrow> catchS m h s = h e s'"
  by (simp add: catchS_def)

lemma catchS_Inr [simp]: "m s = (Inr a, s') \<Longrightarrow> catchS m h s = (Inr a, s')"
  by (simp add: catchS_def)

lemma guardS_Inr [simp, guard_simps]: "guardS (Inr u) m = m"
  by (simp add: guardS_def)

lemma guardS_Inl [simp, guard_simps]: "guardS (Inl e) m = throwS e"
  by (simp add: guardS_def)

lemma bindS_eq_Inr_iff:
  "bindS m f s = (Inr b, t) \<longleftrightarrow> (\<exists>a s'. m s = (Inr a, s') \<and> f a s' = (Inr b, t))"
  by (auto simp: bindS_def split: prod.splits sum.splits)

lemma bindS_eq_Inl_iff:
  "bindS m f s = (Inl e, t) \<longleftrightarrow>
     m s = (Inl e, t) \<or> (\<exists>a s'. m s = (Inr a, s') \<and> f a s' = (Inl e, t))"
  by (auto simp: bindS_def split: prod.splits sum.splits)

lemma guardS_eq_Inr_iff:
  "guardS g m s = (Inr b, t) \<longleftrightarrow> g = Inr () \<and> m s = (Inr b, t)"
  by (cases g) (auto simp: guardS_def)

lemma transactionS_error_restores: "transactionS m s = (Inl e, t) \<Longrightarrow> t = s"
  by (auto simp: transactionS_def split: prod.splits sum.splits)

lemma transactionS_Inr_iff: "transactionS m s = (Inr a, t) \<longleftrightarrow> m s = (Inr a, t)"
  by (auto simp: transactionS_def split: prod.splits sum.splits)

text \<open>A property of the state kept by both halves is kept by the sequence.\<close>

definition preserves :: "('s \<Rightarrow> bool) \<Rightarrow> ('s, 'a) oper \<Rightarrow> bool" where
  "preserves P m \<longleftrightarrow> (\<forall>s. P s \<longrightarrow> P (snd (m s)))"

lemma preservesD: "preserves P m \<Longrightarrow> P s \<Longrightarrow> P (snd (m s))"
  by (simp add: preserves_def)

lemma preserves_result: "preserves P m \<Longrightarrow> m s = (r, t) \<Longrightarrow> P s \<Longrightarrow> P t"
  by (metis preserves_def snd_conv)

lemma preserves_return [intro, simp]: "preserves P (returnS a)"
  by (simp add: preserves_def)

lemma preserves_throw [intro, simp]: "preserves P (throwS e)"
  by (simp add: preserves_def)

lemma preserves_bind [intro]:
  "preserves P m \<Longrightarrow> (\<And>a. preserves P (f a)) \<Longrightarrow> preserves P (bindS m f)"
  by (auto simp: preserves_def bindS_def split: prod.splits sum.splits; metis snd_conv)

lemma preserves_catch [intro]:
  "preserves P m \<Longrightarrow> (\<And>e. preserves P (h e)) \<Longrightarrow> preserves P (catchS m h)"
  by (auto simp: preserves_def catchS_def split: prod.splits sum.splits; metis snd_conv)

lemma preserves_guard [intro]: "preserves P m \<Longrightarrow> preserves P (guardS g m)"
  by (cases g) auto

lemma preserves_transaction [intro]: "preserves P m \<Longrightarrow> preserves P (transactionS m)"
  by (auto simp: preserves_def transactionS_def split: prod.splits sum.splits; metis snd_conv)

lemma preserves_case_option [intro]:
  "preserves P a \<Longrightarrow> (\<And>x. preserves P (b x)) \<Longrightarrow>
     preserves P (case v of None \<Rightarrow> a | Some x \<Rightarrow> b x)"
  by (cases v) auto

lemma preserves_if [intro]:
  "preserves P a \<Longrightarrow> preserves P b \<Longrightarrow> preserves P (if c then a else b)"
  by simp

text \<open>What can happen to a call of an external store: it works, it fails before it took effect,
  or it takes effect and the reply is lost.\<close>

datatype fault = NoFault | FailBefore | FailAfter

section \<open>The bounded retry loop\<close>

text \<open>
  \<open>for (attempt = 0; attempt <= maxRetries; attempt += 1) { try { return await execute(); }
  catch (e) { if (code === "P2034" && attempt < maxRetries) continue; throw e; } }\<close>
  followed by a throw. The database decides which attempt fails to serialize, so the
  executed body is given the number of its attempt.
\<close>

function retryLoop :: "string \<Rightarrow> nat \<Rightarrow> (nat \<Rightarrow> ('s, 'a) oper) \<Rightarrow> nat \<Rightarrow> ('s, 'a) oper" where
  "retryLoop label maxRetries execute attempt s =
     (if attempt \<le> maxRetries
      then (case execute attempt s of
              (Inr a, s') \<Rightarrow> (Inr a, s')
            | (Inl e, s') \<Rightarrow>
                if e = serializationFailure \<and> attempt < maxRetries
                then retryLoop label maxRetries execute (Suc attempt) s'
                else (Inl e, s'))
      else (Inl (PlainError label), s))"
  by pat_completeness auto
termination
  by (relation "measure (\<lambda>(_, maxRetries, _, attempt, _). Suc maxRetries - attempt)") auto

declare retryLoop.simps [simp del]

text \<open>
  When every failed attempt leaves the state alone (it was rolled back), the loop is
  either one successful attempt on the original state or a failure that leaves the state
  alone.
\<close>

lemma retryLoop_result:
  assumes "\<And>k e s'. execute k s = (Inl e, s') \<Longrightarrow> s' = s"
    and "attempt \<le> maxRetries"
  shows "(\<exists>k a s'. k \<le> maxRetries \<and> execute k s = (Inr a, s') \<and>
            retryLoop label maxRetries execute attempt s = (Inr a, s')) \<or>
         (\<exists>k e. k \<le> maxRetries \<and> execute k s = (Inl e, s) \<and>
            (e = serializationFailure \<longrightarrow> k = maxRetries) \<and>
            retryLoop label maxRetries execute attempt s = (Inl e, s))"
  using assms
proof (induction label maxRetries execute attempt s rule: retryLoop.induct)
  case (1 label maxRetries execute attempt s)
  obtain r s' where ex: "execute attempt s = (r, s')" by (cases "execute attempt s")
  show ?case
  proof (cases r)
    case (Inr a)
    with ex 1(3) show ?thesis
      by (subst retryLoop.simps, subst (2) retryLoop.simps) auto
  next
    case (Inl e)
    with ex 1(2) have st: "s' = s" by blast
    show ?thesis
    proof (cases "e = serializationFailure \<and> attempt < maxRetries")
      case True
      have "retryLoop label maxRetries execute attempt s =
            retryLoop label maxRetries execute (Suc attempt) s"
        using True ex Inl st by (subst retryLoop.simps) simp
      with 1(1)[OF 1(3) ex[symmetric] Inl True] 1(2) st True show ?thesis by auto
    next
      case False
      then have "retryLoop label maxRetries execute attempt s = (Inl e, s)"
        using ex Inl st 1(3) by (subst retryLoop.simps) auto
      with False ex Inl st 1(3) show ?thesis by (metis le_neq_implies_less)
    qed
  qed
qed

section \<open>Strings\<close>

definition js_white :: "char \<Rightarrow> bool" where
  "js_white c \<longleftrightarrow> of_char c \<in> {9, 10, 11, 12, 13, 32, 160 :: nat}"

definition js_trim :: "string \<Rightarrow> string" where
  "js_trim s = rev (dropWhile js_white (rev (dropWhile js_white s)))"

lemma js_trim_Nil [simp]: "js_trim [] = []"
  by (simp add: js_trim_def)

lemma js_trim_eq_Nil_iff: "js_trim s = [] \<longleftrightarrow> (\<forall>c \<in> set s. js_white c)"
proof -
  have "js_trim s = [] \<longleftrightarrow> (\<forall>c \<in> set (dropWhile js_white s). js_white c)"
    unfolding js_trim_def rev_is_Nil_conv dropWhile_eq_Nil_conv set_rev ..
  also have "\<dots> \<longleftrightarrow> dropWhile js_white s = []"
    by (metis hd_dropWhile hd_in_set empty_iff list.set(1))
  also have "\<dots> \<longleftrightarrow> (\<forall>c \<in> set s. js_white c)"
    by (rule dropWhile_eq_Nil_conv)
  finally show ?thesis .
qed

text \<open>\<open>String(n)\<close> for an integer.\<close>

fun digitsOf :: "nat \<Rightarrow> string" where
  "digitsOf n = (if n < 10 then [char_of (48 + n)] else digitsOf (n div 10) @ [char_of (48 + n mod 10)])"

declare digitsOf.simps [simp del]

definition showInt :: "int \<Rightarrow> string" where
  "showInt k = (if k < 0 then CHR ''-'' # digitsOf (nat (- k)) else digitsOf (nat k))"

definition quoted :: "string \<Rightarrow> string" where
  "quoted s = [CHR 0x22] @ s @ [CHR 0x22]"

definition startsWith :: "string \<Rightarrow> string \<Rightarrow> bool" where
  "startsWith s p \<longleftrightarrow> take (length p) s = p"

definition assertNonEmpty :: "string \<Rightarrow> string \<Rightarrow> unit outcome" where
  "assertNonEmpty v field =
     (if js_trim v = [] then Inl (BadRequestException (field @ '' must be a non-empty string''))
      else Inr ())"

lemma assertNonEmpty_Inr_iff [guard_simps]: "assertNonEmpty v f = Inr u \<longleftrightarrow> js_trim v \<noteq> []"
  by (simp add: assertNonEmpty_def)

lemma assertNonEmpty_ok [simp]: "js_trim v \<noteq> [] \<Longrightarrow> assertNonEmpty v f = Inr ()"
  by (simp add: assertNonEmpty_def)

section \<open>JavaScript numbers\<close>

text \<open>
  A number is finite (its exact value; the rounding of binary64 arithmetic is not
  modelled), infinite or \<open>NaN\<close>.
\<close>

datatype js_number = Fin rat | PosInf | NegInf | NotANumber

definition isFinite :: "js_number \<Rightarrow> bool" where
  "isFinite x = (case x of Fin _ \<Rightarrow> True | _ \<Rightarrow> False)"

definition isInteger :: "js_number \<Rightarrow> bool" where
  "isInteger x = (case x of Fin r \<Rightarrow> of_int \<lfloor>r\<rfloor> = r | _ \<Rightarrow> False)"

definition js_less :: "js_number \<Rightarrow> js_number \<Rightarrow> bool" where
  "js_less x y = (case (x, y) of
      (Fin a, Fin b) \<Rightarrow> a < b
    | (Fin _, PosInf) \<Rightarrow> True | (NegInf, Fin _) \<Rightarrow> True | (NegInf, PosInf) \<Rightarrow> True
    | _ \<Rightarrow> False)"

definition js_int :: "js_number \<Rightarrow> int" where
  "js_int x = (case x of Fin r \<Rightarrow> \<lfloor>r\<rfloor> | _ \<Rightarrow> 0)"

abbreviation jsInt :: "int \<Rightarrow> js_number" where
  "jsInt k \<equiv> Fin (of_int k)"

lemma isInteger_jsInt [simp]: "isInteger (jsInt k)"
  by (simp add: isInteger_def)

lemma isFinite_simps [simp]:
  "isFinite (Fin r)" "\<not> isFinite PosInf" "\<not> isFinite NegInf" "\<not> isFinite NotANumber"
  by (simp_all add: isFinite_def)

lemma js_int_jsInt [simp]: "js_int (jsInt k) = k"
  by (simp add: js_int_def)

lemma js_number_literals [simp]:
  "isInteger (Fin 0)" "isInteger (Fin 1)" "isInteger (Fin (numeral n))" "isInteger (Fin (- numeral n))"
  "js_int (Fin 0) = 0" "js_int (Fin 1) = 1" "js_int (Fin (numeral n)) = numeral n"
  "js_int (Fin (- numeral n)) = - numeral n"
  by (simp_all add: isInteger_def js_int_def)

lemma js_less_Fin [simp]: "js_less (Fin a) (Fin b) \<longleftrightarrow> a < b"
  by (simp add: js_less_def)

definition js_le :: "js_number \<Rightarrow> js_number \<Rightarrow> bool" where
  "js_le x y \<longleftrightarrow> js_less x y \<or> x = y \<and> x \<noteq> NotANumber"

definition js_max :: "js_number \<Rightarrow> js_number \<Rightarrow> js_number" where
  "js_max x y = (if x = NotANumber \<or> y = NotANumber then NotANumber else if js_less x y then y else x)"

fun js_times :: "js_number \<Rightarrow> js_number \<Rightarrow> js_number" where
  "js_times (Fin a) (Fin b) = Fin (a * b)"
| "js_times (Fin a) PosInf = (if a > 0 then PosInf else if a < 0 then NegInf else NotANumber)"
| "js_times (Fin a) NegInf = (if a > 0 then NegInf else if a < 0 then PosInf else NotANumber)"
| "js_times PosInf (Fin b) = (if b > 0 then PosInf else if b < 0 then NegInf else NotANumber)"
| "js_times NegInf (Fin b) = (if b > 0 then NegInf else if b < 0 then PosInf else NotANumber)"
| "js_times PosInf PosInf = PosInf"
| "js_times NegInf NegInf = PosInf"
| "js_times PosInf NegInf = NegInf"
| "js_times NegInf PosInf = NegInf"
| "js_times _ _ = NotANumber"

definition js_minus :: "js_number \<Rightarrow> js_number \<Rightarrow> js_number" where
  "js_minus x y = (case (x, y) of
      (Fin a, Fin b) \<Rightarrow> Fin (a - b)
    | (PosInf, Fin _) \<Rightarrow> PosInf | (PosInf, NegInf) \<Rightarrow> PosInf | (Fin _, NegInf) \<Rightarrow> PosInf
    | (NegInf, Fin _) \<Rightarrow> NegInf | (NegInf, PosInf) \<Rightarrow> NegInf | (Fin _, PosInf) \<Rightarrow> NegInf
    | _ \<Rightarrow> NotANumber)"

lemma js_max_Fin [simp]: "js_max (Fin a) (Fin b) = Fin (max a b)"
  by (simp add: js_max_def max_def)

lemma js_le_Fin [simp]: "js_le (Fin a) (Fin b) \<longleftrightarrow> a \<le> b"
  by (auto simp: js_le_def)

text \<open>\<open>Math.round\<close> and \<open>BigInt(x)\<close>, which throws on what is not an integer.\<close>

definition js_round :: "js_number \<Rightarrow> js_number" where
  "js_round x = (case x of Fin r \<Rightarrow> Fin (of_int \<lfloor>r + 1 / 2\<rfloor>) | _ \<Rightarrow> x)"

definition toBigInt :: "js_number \<Rightarrow> int outcome" where
  "toBigInt x = (if isInteger x then Inr (js_int x) else Inl (RangeError ''not an integer''))"

definition js_plus :: "js_number \<Rightarrow> js_number \<Rightarrow> js_number" where
  "js_plus x y = js_minus x (js_times (Fin (- 1)) y)"

definition js_over :: "js_number \<Rightarrow> rat \<Rightarrow> js_number" where
  "js_over x c = js_times x (Fin (1 / c))"

section \<open>JSON values\<close>

text \<open>
  What a JSON column or a request body can hold. \<open>JUndefined\<close> is what reading an
  absent property gives; an object is the list of its properties.
\<close>

datatype json =
    JUndefined
  | JNull
  | JBool bool
  | JNum js_number
  | JStr string
  | JArr "json list"
  | JObj "(string \<times> json) list"

text \<open>\<open>o[k]\<close> on a plain object.\<close>

definition jget :: "string \<Rightarrow> (string \<times> json) list \<Rightarrow> json" where
  "jget k obj = (case map_of obj k of None \<Rightarrow> JUndefined | Some v \<Rightarrow> v)"

text \<open>\<open>value !== null && typeof value === "object" && !Array.isArray(value)\<close>\<close>

definition asObject :: "json \<Rightarrow> (string \<times> json) list option" where
  "asObject v = (case v of JObj obj \<Rightarrow> Some obj | _ \<Rightarrow> None)"

lemma asObject_simps [simp]:
  "asObject (JObj obj) = Some obj" "asObject JNull = None" "asObject JUndefined = None"
  "asObject (JNum x) = None" "asObject (JStr t) = None" "asObject (JArr xs) = None"
  "asObject (JBool b) = None"
  by (simp_all add: asObject_def)

lemma jget_Nil [simp]: "jget k [] = JUndefined"
  by (simp add: jget_def)

lemma jget_Cons [simp]: "jget k ((k', v) # obj) = (if k = k' then v else jget k obj)"
  by (simp add: jget_def)

lemma isInteger_isFinite: "isInteger x \<Longrightarrow> isFinite x"
  by (cases x) (simp_all add: isInteger_def)

lemma js_int_ge_one:
  assumes "isInteger x" "js_less (Fin 0) x"
  shows "1 \<le> js_int x"
proof (cases x)
  case (Fin r)
  with assms have r: "of_int \<lfloor>r\<rfloor> = r" "0 < r" by (simp_all add: isInteger_def)
  then have "0 < (of_int \<lfloor>r\<rfloor> :: rat)" by metis
  then have "0 < \<lfloor>r\<rfloor>" by (simp only: of_int_0_less_iff)
  moreover have "js_int x = \<lfloor>r\<rfloor>" using Fin by (simp add: js_int_def)
  ultimately show ?thesis by linarith
qed (use assms in \<open>simp_all add: isInteger_def\<close>)

lemma js_int_nonneg: "js_less (Fin 0) x \<Longrightarrow> 0 \<le> js_int x"
  by (cases x) (auto simp: js_int_def)

end
