(* ===== verification/Admission.thy ===== *)
theory Admission
  imports PersaiPrelude
begin

text \<open>
  Execution admission of the runtime service
  (\<open>apps/runtime/src/modules/turns/runtime-execution-admission.service.ts\<close>): three
  classes of work share \<open>maxConcurrent\<close> slots, some of them reserved per class; what
  cannot start waits in a bounded FIFO queue per class; freed slots go round robin, first
  to the classes below their reservation.

  A queued request is an object with an identity (\<open>rqId\<close>) and a promise, which
  \<open>promises\<close> holds; \<open>settled\<close> in the code is \<open>promises \<noteq> Pending\<close> here.
  \<open>grantLog\<close> is what \<open>resolve\<close> handed out, in order, and \<open>observed\<close> the calls
  of the observability service. The clock and the random token are arguments. What happens
  concurrently (arrivals, timer expiry, the end of admitted work) is the step relation
  \<open>admission_step\<close>; every handler runs to completion between two awaits, so a step is
  one handler.
\<close>

section \<open>Classes, policy\<close>

datatype exec_class = Interactive_light | Interactive_heavy | Background

definition runtimeExecutionClasses :: "exec_class list" where
  "runtimeExecutionClasses = [Interactive_light, Interactive_heavy, Background]"

definition sharedExecutionClassOrder :: "exec_class list" where
  "sharedExecutionClassOrder = [Interactive_light, Interactive_heavy, Background]"

fun className :: "exec_class \<Rightarrow> string" where
  "className Interactive_light = ''interactive_light''"
| "className Interactive_heavy = ''interactive_heavy''"
| "className Background = ''background''"

fun replaceUnderscores :: "string \<Rightarrow> string" where
  "replaceUnderscores [] = []"
| "replaceUnderscores (c # cs) = (if c = CHR ''_'' then CHR '' '' else c) # replaceUnderscores cs"

text \<open>The policy as a caller passes it, before \<open>assertPolicy\<close> has looked at it.\<close>

record raw_admission_policy =
  raw_maxConcurrent :: js_number
  raw_queueTimeoutMs :: js_number
  raw_maxQueuePerClass :: js_number
  raw_reservedSlots :: "exec_class \<Rightarrow> js_number"

record admission_policy =
  maxConcurrent :: int
  queueTimeoutMs :: int
  maxQueuePerClass :: int
  reservedSlots :: "exec_class \<Rightarrow> int"

definition checkPositiveInteger :: "js_number \<Rightarrow> string \<Rightarrow> unit outcome" where
  "checkPositiveInteger x msg =
     (if \<not> isInteger x \<or> js_int x \<le> 0 then Inl (PlainError msg) else Inr ())"

fun sumReserved :: "(exec_class \<Rightarrow> js_number) \<Rightarrow> exec_class list \<Rightarrow> int \<Rightarrow> int outcome" where
  "sumReserved reserved [] acc = Inr acc"
| "sumReserved reserved (c # cs) acc =
     (if \<not> isInteger (reserved c) \<or> js_int (reserved c) < 0
      then Inl (PlainError
             (''Runtime execution admission reserved slot count must be a non-negative integer for ''
              @ quoted (className c) @ ''.''))
      else sumReserved reserved cs (acc + js_int (reserved c)))"

definition assertPolicy :: "raw_admission_policy \<Rightarrow> unit outcome" where
  "assertPolicy p =
     (case checkPositiveInteger (raw_maxConcurrent p)
             ''Runtime execution admission maxConcurrent must be a positive integer.'' of
        Inl e \<Rightarrow> Inl e
      | Inr _ \<Rightarrow>
     (case checkPositiveInteger (raw_queueTimeoutMs p)
             ''Runtime execution admission queueTimeoutMs must be a positive integer.'' of
        Inl e \<Rightarrow> Inl e
      | Inr _ \<Rightarrow>
     (case checkPositiveInteger (raw_maxQueuePerClass p)
             ''Runtime execution admission maxQueuePerClass must be a positive integer.'' of
        Inl e \<Rightarrow> Inl e
      | Inr _ \<Rightarrow>
     (case sumReserved (raw_reservedSlots p) runtimeExecutionClasses 0 of
        Inl e \<Rightarrow> Inl e
      | Inr reservedTotal \<Rightarrow>
          if js_int (raw_maxConcurrent p) < reservedTotal
          then Inl (PlainError
                 (''Runtime execution admission reserved slots ('' @ showInt reservedTotal
                  @ '') exceed maxConcurrent ('' @ showInt (js_int (raw_maxConcurrent p)) @ '').''))
          else Inr ()))))"

definition policyOf :: "raw_admission_policy \<Rightarrow> admission_policy" where
  "policyOf p =
     \<lparr>maxConcurrent = js_int (raw_maxConcurrent p),
      queueTimeoutMs = js_int (raw_queueTimeoutMs p),
      maxQueuePerClass = js_int (raw_maxQueuePerClass p),
      reservedSlots = (\<lambda>c. js_int (raw_reservedSlots p c))\<rparr>"

definition defaultAdmissionPolicy :: raw_admission_policy where
  "defaultAdmissionPolicy =
     \<lparr>raw_maxConcurrent = jsInt 12, raw_queueTimeoutMs = jsInt 12000,
      raw_maxQueuePerClass = jsInt 32,
      raw_reservedSlots = (\<lambda>c. case c of Interactive_light \<Rightarrow> jsInt 2
                                        | Interactive_heavy \<Rightarrow> jsInt 1
                                        | Background \<Rightarrow> jsInt 1)\<rparr>"

section \<open>Which class interactive work belongs to\<close>

datatype usage_rule = UsageRequired | UsageAllowed | UsageForbidden
datatype execution_mode = ModeInline | ModeWorker | ModeSandbox
datatype model_role =
  RoleNormalReply | RolePremiumReply | RoleReasoning | RoleSystemTool | RoleRetrieval | RoleToolWorker

record tool_policy =
  tp_enabled :: bool
  tp_visibleToModel :: bool
  tp_usageRule :: usage_rule
  tp_executionMode :: execution_mode

record interactive_descriptor =
  selectedModelRole :: model_role
  deepModeEnabled :: bool
  attachmentCount :: int
  openMediaJobCount :: int
  visibleToolPolicies :: "tool_policy list"

definition exposesHeavyTool :: "tool_policy \<Rightarrow> bool" where
  "exposesHeavyTool p \<longleftrightarrow>
     tp_enabled p \<and> tp_visibleToModel p \<and> tp_usageRule p = UsageAllowed \<and>
     (tp_executionMode p = ModeWorker \<or> tp_executionMode p = ModeSandbox)"

definition classifyInteractiveExecutionClass :: "interactive_descriptor \<Rightarrow> exec_class" where
  "classifyInteractiveExecutionClass d =
     (let hasHeavyModelRole = (selectedModelRole d = RoleReasoning);
          hasHeavyInput = (deepModeEnabled d \<or> attachmentCount d > 0);
          hasOpenMediaJobs = (openMediaJobCount d > 0);
          exposesHeavyTools = (\<exists>p \<in> set (visibleToolPolicies d). exposesHeavyTool p)
      in if hasHeavyModelRole \<or> hasHeavyInput \<or> hasOpenMediaJobs \<or> exposesHeavyTools
         then Interactive_heavy else Interactive_light)"

section \<open>State\<close>

record admission_grant =
  gr_executionClass :: exec_class
  gr_token :: string

record queued_request =
  rqId :: nat
  rq_executionClass :: exec_class
  rq_enqueuedAtMs :: int
  rq_token :: string

datatype admission_promise = Pending | Resolved admission_grant | Rejected js_error

datatype admission_event =
    ObsQueued exec_class int
  | ObsRejected exec_class
  | ObsTimedOut exec_class int
  | ObsStarted exec_class int
  | ObsFinished exec_class
  | ObsPolicy admission_policy

record admission =
  adPolicy :: admission_policy
  queuedByClass :: "exec_class \<Rightarrow> queued_request list"
  inFlightByClass :: "exec_class \<Rightarrow> int"
  roundRobinCursor :: nat
  promises :: "nat \<Rightarrow> admission_promise"
  nextRequestId :: nat
  grantLog :: "(nat \<times> admission_grant) list"
  observed :: "admission_event list"

definition observe :: "admission_event \<Rightarrow> admission \<Rightarrow> admission" where
  "observe e s = s\<lparr>observed := observed s @ [e]\<rparr>"

definition applyPolicy :: "raw_admission_policy \<Rightarrow> (admission, unit) oper" where
  "applyPolicy p s =
     (case assertPolicy p of
        Inl e \<Rightarrow> (Inl e, s)
      | Inr _ \<Rightarrow> (Inr (), observe (ObsPolicy (policyOf p)) (s\<lparr>adPolicy := policyOf p\<rparr>)))"

definition initialAdmission :: "raw_admission_policy \<Rightarrow> admission" where
  "initialAdmission p =
     \<lparr>adPolicy = policyOf p, queuedByClass = (\<lambda>_. []), inFlightByClass = (\<lambda>_. 0),
      roundRobinCursor = 0, promises = (\<lambda>_. Pending), nextRequestId = 0, grantLog = [],
      observed = []\<rparr>"

text \<open>The constructor: field initialisers with the default policy, then \<open>applyPolicy\<close>.\<close>

definition constructAdmission :: "unit outcome \<times> admission" where
  "constructAdmission = applyPolicy defaultAdmissionPolicy (initialAdmission defaultAdmissionPolicy)"

definition getPolicy :: "admission \<Rightarrow> admission_policy" where
  "getPolicy s = adPolicy s"

definition setPolicyForTest :: "raw_admission_policy \<Rightarrow> (admission, unit) oper" where
  "setPolicyForTest p = applyPolicy p"

section \<open>Slots in use\<close>

definition sumClasses :: "(exec_class \<Rightarrow> int) \<Rightarrow> int" where
  "sumClasses f = sum_list (map f runtimeExecutionClasses)"

definition totalInFlightCount :: "admission \<Rightarrow> int" where
  "totalInFlightCount s = sumClasses (inFlightByClass s)"

definition reservedSlotsInUse :: "admission \<Rightarrow> int" where
  "reservedSlotsInUse s =
     sumClasses (\<lambda>c. min (inFlightByClass s c) (reservedSlots (adPolicy s) c))"

definition sharedSlotsInUse :: "admission \<Rightarrow> int" where
  "sharedSlotsInUse s = totalInFlightCount s - reservedSlotsInUse s"

definition sharedSlotCapacity :: "admission \<Rightarrow> int" where
  "sharedSlotCapacity s = maxConcurrent (adPolicy s) - sumClasses (reservedSlots (adPolicy s))"

definition executionClassesWithQueuedRequests :: "admission \<Rightarrow> exec_class list" where
  "executionClassesWithQueuedRequests s =
     filter (\<lambda>c. queuedByClass s c \<noteq> []) sharedExecutionClassOrder"

section \<open>Choosing the class to serve\<close>

text \<open>The loop of \<open>pickRoundRobinCandidate\<close> over \<open>offset\<close>: the class and the new cursor.\<close>

fun pickFrom :: "exec_class list \<Rightarrow> nat \<Rightarrow> nat list \<Rightarrow> (exec_class \<times> nat) option" where
  "pickFrom candidates startIndex [] = None"
| "pickFrom candidates startIndex (offset # rest) =
     (let classIndex = (startIndex + offset) mod length sharedExecutionClassOrder;
          c = sharedExecutionClassOrder ! classIndex
      in if c \<in> set candidates
         then Some (c, (classIndex + 1) mod length sharedExecutionClassOrder)
         else pickFrom candidates startIndex rest)"

definition pickRoundRobinCandidate ::
  "exec_class list \<Rightarrow> admission \<Rightarrow> exec_class option \<times> admission" where
  "pickRoundRobinCandidate candidates s =
     (if candidates = [] then (None, s)
      else case pickFrom candidates (roundRobinCursor s)
                  [0 ..< length sharedExecutionClassOrder] of
             Some (c, cursor) \<Rightarrow> (Some c, s\<lparr>roundRobinCursor := cursor\<rparr>)
           | None \<Rightarrow> (Some (hd candidates), s))"

definition reservedCandidates :: "admission \<Rightarrow> exec_class list" where
  "reservedCandidates s =
     filter (\<lambda>c. inFlightByClass s c < reservedSlots (adPolicy s) c)
       (executionClassesWithQueuedRequests s)"

definition selectNextDispatchClass :: "admission \<Rightarrow> exec_class option \<times> admission" where
  "selectNextDispatchClass s =
     (if reservedCandidates s \<noteq> [] then pickRoundRobinCandidate (reservedCandidates s) s
      else if sharedSlotsInUse s \<ge> sharedSlotCapacity s then (None, s)
      else if executionClassesWithQueuedRequests s = [] then (None, s)
      else pickRoundRobinCandidate (executionClassesWithQueuedRequests s) s)"

section \<open>Dispatch\<close>

text \<open>
  Termination of the dispatch loop: a class is only selected from the classes with a queued
  request, and its queue loses its head.
\<close>

definition totalQueued :: "admission \<Rightarrow> nat" where
  "totalQueued s = sum_list (map (\<lambda>c. length (queuedByClass s c)) runtimeExecutionClasses)"

lemma pickFrom_Some_candidate: "pickFrom cs k offs = Some (c, j) \<Longrightarrow> c \<in> set cs"
  by (induction offs) (auto simp: Let_def split: if_splits)

lemma pickRoundRobinCandidate_Some:
  "pickRoundRobinCandidate cs s = (Some c, t) \<Longrightarrow>
     c \<in> set cs \<and> (\<exists>k. t = s\<lparr>roundRobinCursor := k\<rparr>)"
  by (auto simp: pickRoundRobinCandidate_def dest: pickFrom_Some_candidate
      split: if_splits option.splits prod.splits intro: exI [of _ "roundRobinCursor s"])

lemma queuedClasses_iff [simp]:
  "c \<in> set (executionClassesWithQueuedRequests s) \<longleftrightarrow> queuedByClass s c \<noteq> []"
  by (cases c) (auto simp: executionClassesWithQueuedRequests_def sharedExecutionClassOrder_def)

lemma reservedCandidates_iff [simp]:
  "c \<in> set (reservedCandidates s) \<longleftrightarrow>
     queuedByClass s c \<noteq> [] \<and> inFlightByClass s c < reservedSlots (adPolicy s) c"
  by (auto simp: reservedCandidates_def)

lemma selectNextDispatchClass_Some:
  "selectNextDispatchClass s = (Some c, t) \<Longrightarrow>
     queuedByClass s c \<noteq> [] \<and> (\<exists>k. t = s\<lparr>roundRobinCursor := k\<rparr>) \<and>
     (inFlightByClass s c < reservedSlots (adPolicy s) c \<or>
      reservedCandidates s = [] \<and> sharedSlotsInUse s < sharedSlotCapacity s)"
  by (auto simp: selectNextDispatchClass_def not_le split: if_splits
      dest!: pickRoundRobinCandidate_Some)

lemma selectNextDispatchClass_None:
  "selectNextDispatchClass s = (None, t) \<Longrightarrow>
     t = s \<and> reservedCandidates s = [] \<and>
     (sharedSlotsInUse s \<ge> sharedSlotCapacity s \<or> executionClassesWithQueuedRequests s = [])"
  by (auto simp: selectNextDispatchClass_def pickRoundRobinCandidate_def
      split: if_splits option.splits prod.splits)

lemma totalQueued_tl_less:
  "queuedByClass s c = r # q \<Longrightarrow> queuedByClass t = (queuedByClass s)(c := q) \<Longrightarrow>
     totalQueued t < totalQueued s"
  by (cases c) (auto simp: totalQueued_def runtimeExecutionClasses_def)

definition isSettled :: "admission \<Rightarrow> queued_request \<Rightarrow> bool" where
  "isSettled s r \<longleftrightarrow> promises s (rqId r) \<noteq> Pending"

definition resolveRequest :: "queued_request \<Rightarrow> admission_grant \<Rightarrow> admission \<Rightarrow> admission" where
  "resolveRequest r g s =
     (if isSettled s r then s
      else s\<lparr>promises := (promises s)(rqId r := Resolved g), grantLog := grantLog s @ [(rqId r, g)]\<rparr>)"

definition rejectRequest :: "queued_request \<Rightarrow> js_error \<Rightarrow> admission \<Rightarrow> admission" where
  "rejectRequest r e s =
     (if isSettled s r then s else s\<lparr>promises := (promises s)(rqId r := Rejected e)\<rparr>)"

text \<open>One admitted request: the counter, the metric, the promise.\<close>

definition startRequest :: "int \<Rightarrow> exec_class \<Rightarrow> queued_request \<Rightarrow> admission \<Rightarrow> admission" where
  "startRequest now c r s =
     resolveRequest r \<lparr>gr_executionClass = c, gr_token = rq_token r\<rparr>
       (observe (ObsStarted c (max 0 (now - rq_enqueuedAtMs r)))
         (s\<lparr>inFlightByClass := (inFlightByClass s)(c := inFlightByClass s c + 1)\<rparr>))"

lemma startRequest_queued [simp]: "queuedByClass (startRequest now c r s) = queuedByClass s"
  by (simp add: startRequest_def resolveRequest_def observe_def)

function dispatchQueuedRequests :: "int \<Rightarrow> admission \<Rightarrow> admission" where
  "dispatchQueuedRequests now s =
     (if totalInFlightCount s < maxConcurrent (adPolicy s)
      then (case selectNextDispatchClass s of
              (None, s1) \<Rightarrow> s1
            | (Some c, s1) \<Rightarrow>
               (case queuedByClass s1 c of
                  [] \<Rightarrow> dispatchQueuedRequests now s1
                | r # rest \<Rightarrow>
                    (let s2 = s1\<lparr>queuedByClass := (queuedByClass s1)(c := rest)\<rparr>
                     in if isSettled s2 r then dispatchQueuedRequests now s2
                        else dispatchQueuedRequests now (startRequest now c r s2))))
      else s)"
  by pat_completeness auto
termination
  by (relation "measure (\<lambda>(_, s). totalQueued s)")
     (auto dest!: selectNextDispatchClass_Some sym [of "(Some _, _)"]
       intro!: totalQueued_tl_less)

declare dispatchQueuedRequests.simps [simp del]

section \<open>The service's operations\<close>

definition queueFullError :: "exec_class \<Rightarrow> js_error" where
  "queueFullError c = ConflictException
     (''Runtime admission queue is full for '' @ replaceUnderscores (className c) @ '' work.'')"

definition waitTimedOutError :: "exec_class \<Rightarrow> js_error" where
  "waitTimedOutError c = ConflictException
     (''Runtime admission wait timed out for '' @ replaceUnderscores (className c) @ '' work.'')"

text \<open>
  \<open>acquire\<close> up to its await: the new request, whose promise the caller awaits and
  whose timer is armed, or the refusal. Its class is one of the three by typing, so the
  code's test for an unknown class has no counterpart.
\<close>

definition acquire :: "exec_class \<Rightarrow> int \<Rightarrow> string \<Rightarrow> (admission, queued_request) oper" where
  "acquire c now token s =
     (if int (length (queuedByClass s c)) \<ge> maxQueuePerClass (adPolicy s)
      then (Inl (queueFullError c), observe (ObsRejected c) s)
      else
        (let r = \<lparr>rqId = nextRequestId s, rq_executionClass = c, rq_enqueuedAtMs = now, rq_token = token\<rparr>;
             s1 = s\<lparr>nextRequestId := Suc (nextRequestId s),
                    queuedByClass := (queuedByClass s)(c := queuedByClass s c @ [r])\<rparr>;
             s2 = observe (ObsQueued c (int (length (queuedByClass s1 c)))) s1
         in (Inr r, dispatchQueuedRequests now s2)))"

definition release :: "admission_grant \<Rightarrow> int \<Rightarrow> admission \<Rightarrow> admission" where
  "release g now s =
     (let c = gr_executionClass g;
          s1 = (if inFlightByClass s c > 0
                then s\<lparr>inFlightByClass := (inFlightByClass s)(c := inFlightByClass s c - 1)\<rparr>
                else s)
      in dispatchQueuedRequests now (observe (ObsFinished c) s1))"

text \<open>\<open>indexOf\<close> compares object identity and \<open>splice\<close> removes that one element.\<close>

fun removeById :: "nat \<Rightarrow> queued_request list \<Rightarrow> queued_request list" where
  "removeById i [] = []"
| "removeById i (r # rs) = (if rqId r = i then rs else r # removeById i rs)"

definition removeQueuedRequest :: "queued_request \<Rightarrow> admission \<Rightarrow> bool \<times> admission" where
  "removeQueuedRequest r s =
     (let c = rq_executionClass r; queue = queuedByClass s c
      in if rqId r \<notin> rqId ` set queue then (False, s)
         else (True, s\<lparr>queuedByClass := (queuedByClass s)(c := removeById (rqId r) queue)\<rparr>))"

text \<open>The timer's callback.\<close>

definition expireRequest :: "queued_request \<Rightarrow> int \<Rightarrow> admission \<Rightarrow> admission" where
  "expireRequest r now s =
     (case removeQueuedRequest r s of
        (False, s1) \<Rightarrow> s1
      | (True, s1) \<Rightarrow>
          rejectRequest r (waitTimedOutError (rq_executionClass r))
            (observe (ObsTimedOut (rq_executionClass r) (now - rq_enqueuedAtMs r)) s1))"

text \<open>
  \<open>runWithAdmission\<close> and \<open>createAdmittedStream\<close>: work that runs inside admitted work
  (the async context holds a grant) takes no slot; other work acquires one first and its
  \<open>finally\<close> releases it.
\<close>

definition enterAdmission ::
  "admission_grant option \<Rightarrow> exec_class \<Rightarrow> int \<Rightarrow> string \<Rightarrow> (admission, queued_request option) oper" where
  "enterAdmission currentGrant c now token s =
     (case currentGrant of
        Some _ \<Rightarrow> (Inr None, s)
      | None \<Rightarrow> (case acquire c now token s of
                  (Inl e, s1) \<Rightarrow> (Inl e, s1)
                | (Inr r, s1) \<Rightarrow> (Inr (Some r), s1)))"

definition leaveAdmission ::
  "admission_grant option \<Rightarrow> admission_grant \<Rightarrow> int \<Rightarrow> admission \<Rightarrow> admission" where
  "leaveAdmission currentGrant g now s =
     (case currentGrant of Some _ \<Rightarrow> s | None \<Rightarrow> release g now s)"

section \<open>Steps and reachable states\<close>

text \<open>
  \<open>held\<close> lists the grants that were handed out and not released yet: the work that
  is running. A handler adds what it resolved (\<open>newGrants\<close>).
\<close>

type_synonym held_grants = "(nat \<times> admission_grant) list"

definition newGrants :: "admission \<Rightarrow> admission \<Rightarrow> held_grants" where
  "newGrants s t = drop (length (grantLog s)) (grantLog t)"

inductive admission_step :: "admission \<times> held_grants \<Rightarrow> admission \<times> held_grants \<Rightarrow> bool" where
  arrive: "acquire c now token s = (res, t) \<Longrightarrow>
     admission_step (s, held) (t, held @ newGrants s t)"
| expire: "admission_step (s, held) (expireRequest r now s, held)"
| finish: "x \<in> set held \<Longrightarrow> release (snd x) now s = t \<Longrightarrow>
     admission_step (s, held) (t, remove1 x held @ newGrants s t)"

inductive admission_reachable :: "raw_admission_policy \<Rightarrow> admission \<times> held_grants \<Rightarrow> bool"
  for p :: raw_admission_policy where
  start: "applyPolicy p (initialAdmission p) = (Inr (), s) \<Longrightarrow> admission_reachable p (s, [])"
| step: "admission_reachable p x \<Longrightarrow> admission_step x y \<Longrightarrow> admission_reachable p y"

section \<open>The invariant\<close>

definition heldOf :: "exec_class \<Rightarrow> held_grants \<Rightarrow> held_grants" where
  "heldOf c held = filter (\<lambda>x. gr_executionClass (snd x) = c) held"

definition policyValid :: "admission_policy \<Rightarrow> bool" where
  "policyValid p \<longleftrightarrow> 0 < maxConcurrent p \<and> 0 < queueTimeoutMs p \<and> 0 < maxQueuePerClass p \<and>
     0 \<le> reservedSlots p Interactive_light \<and> 0 \<le> reservedSlots p Interactive_heavy \<and>
     0 \<le> reservedSlots p Background \<and> sumClasses (reservedSlots p) \<le> maxConcurrent p"

text \<open>The ids granted to a class so far, then the ids it still queues: arrival order.\<close>

definition arrivalOrder :: "exec_class \<Rightarrow> admission \<Rightarrow> nat list" where
  "arrivalOrder c s = map fst (heldOf c (grantLog s)) @ map rqId (queuedByClass s c)"

definition queueOk :: "exec_class \<Rightarrow> admission \<Rightarrow> bool" where
  "queueOk c s \<longleftrightarrow>
     int (length (queuedByClass s c)) \<le> maxQueuePerClass (adPolicy s) \<and>
     (\<forall>r \<in> set (queuedByClass s c).
        rq_executionClass r = c \<and> rqId r < nextRequestId s \<and> promises s (rqId r) = Pending)"

definition slotsOk :: "admission \<Rightarrow> held_grants \<Rightarrow> bool" where
  "slotsOk s held \<longleftrightarrow>
     (\<forall>c. inFlightByClass s c = int (length (heldOf c held))) \<and>
     sharedSlotsInUse s \<le> sharedSlotCapacity s"

definition logOk :: "admission \<Rightarrow> bool" where
  "logOk s \<longleftrightarrow> (\<forall>c. sorted_wrt (<) (arrivalOrder c s)) \<and>
     (\<forall>c d. c \<noteq> d \<longrightarrow> rqId ` set (queuedByClass s c) \<inter> rqId ` set (queuedByClass s d) = {}) \<and>
     (\<forall>x \<in> set (grantLog s). fst x < nextRequestId s \<and> promises s (fst x) = Resolved (snd x)) \<and>
     (\<forall>i \<ge> nextRequestId s. promises s i = Pending)"

definition admissionOk :: "admission \<Rightarrow> held_grants \<Rightarrow> bool" where
  "admissionOk s held \<longleftrightarrow> policyValid (adPolicy s) \<and> (\<forall>c. queueOk c s) \<and> slotsOk s held \<and> logOk s"

text \<open>Nothing more can be dispatched.\<close>

definition quiescent :: "admission \<Rightarrow> bool" where
  "quiescent s \<longleftrightarrow>
     totalInFlightCount s \<ge> maxConcurrent (adPolicy s) \<or>
     (\<forall>c. queuedByClass s c \<noteq> [] \<longrightarrow> inFlightByClass s c \<ge> reservedSlots (adPolicy s) c) \<and>
     (sharedSlotsInUse s \<ge> sharedSlotCapacity s \<or> (\<forall>c. queuedByClass s c = []))"

lemma all_class_iff: "(\<forall>c. P c) \<longleftrightarrow> P Interactive_light \<and> P Interactive_heavy \<and> P Background"
  by (metis exec_class.exhaust)

lemma sumClasses_eq: "sumClasses f = f Interactive_light + f Interactive_heavy + f Background"
  by (simp add: sumClasses_def runtimeExecutionClasses_def)

lemmas slot_defs = totalInFlightCount_def reservedSlotsInUse_def sharedSlotsInUse_def
  sharedSlotCapacity_def sumClasses_eq

lemma assertPolicy_valid: "assertPolicy p = Inr () \<Longrightarrow> policyValid (policyOf p)"
  by (auto simp: assertPolicy_def checkPositiveInteger_def policyOf_def policyValid_def
      sumClasses_eq runtimeExecutionClasses_def not_le not_less split: if_splits sum.splits)

lemma queuedClasses_Nil_iff:
  "executionClassesWithQueuedRequests s = [] \<longleftrightarrow> (\<forall>c. queuedByClass s c = [])"
  by (metis queuedClasses_iff empty_iff list.set(1) last_in_set)

lemma reservedCandidates_Nil_iff:
  "reservedCandidates s = [] \<longleftrightarrow>
     (\<forall>c. queuedByClass s c \<noteq> [] \<longrightarrow> inFlightByClass s c \<ge> reservedSlots (adPolicy s) c)"
  by (auto simp: reservedCandidates_def filter_empty_conv not_less)

lemma quiescent_no_select:
  "selectNextDispatchClass s = (None, t) \<Longrightarrow> quiescent s"
  by (drule selectNextDispatchClass_None)
     (auto simp: quiescent_def queuedClasses_Nil_iff reservedCandidates_Nil_iff)

text \<open>What dispatching keeps: a property every single admission keeps.\<close>

lemma dispatch_keeps:
  assumes "P s"
    and pend: "\<And>s c r. P s \<Longrightarrow> r \<in> set (queuedByClass s c) \<Longrightarrow> promises s (rqId r) = Pending"
    and adm: "\<And>now s c r rest k. P s \<Longrightarrow> totalInFlightCount s < maxConcurrent (adPolicy s) \<Longrightarrow>
       queuedByClass s c = r # rest \<Longrightarrow>
       inFlightByClass s c < reservedSlots (adPolicy s) c \<or> sharedSlotsInUse s < sharedSlotCapacity s \<Longrightarrow>
       P (startRequest now c r
            (s\<lparr>roundRobinCursor := k, queuedByClass := (queuedByClass s)(c := rest)\<rparr>))"
  shows "P (dispatchQueuedRequests now s) \<and> quiescent (dispatchQueuedRequests now s)"
  using assms(1)
proof (induction now s rule: dispatchQueuedRequests.induct)
  case (1 now s)
  show ?case
  proof (cases "totalInFlightCount s < maxConcurrent (adPolicy s)")
    case False
    with 1 show ?thesis by (subst (1 2) dispatchQueuedRequests.simps) (auto simp: quiescent_def)
  next
    case True
    obtain sel s1 where sel: "selectNextDispatchClass s = (sel, s1)" by fastforce
    show ?thesis
    proof (cases sel)
      case None
      with sel have "s1 = s" "quiescent s"
        using selectNextDispatchClass_None quiescent_no_select by auto
      with 1 True sel None show ?thesis by (subst (1 2) dispatchQueuedRequests.simps) simp
    next
      case (Some c)
      from selectNextDispatchClass_Some [OF sel [unfolded Some]] obtain k where
        q: "queuedByClass s c \<noteq> []" and s1: "s1 = s\<lparr>roundRobinCursor := k\<rparr>" and
        slot: "inFlightByClass s c < reservedSlots (adPolicy s) c \<or> sharedSlotsInUse s < sharedSlotCapacity s"
        by auto
      from q obtain r rest where rr: "queuedByClass s c = r # rest" by (cases "queuedByClass s c") auto
      define s2 where "s2 = s1\<lparr>queuedByClass := (queuedByClass s1)(c := rest)\<rparr>"
      have ns: "\<not> isSettled s2 r"
        using pend [OF "1.prems"(1), of r c] rr by (simp add: isSettled_def s2_def s1)
      have "P (startRequest now c r s2)"
        using adm [OF "1.prems"(1) True rr slot, where k = k] by (simp add: s2_def s1)
      moreover have "dispatchQueuedRequests now s = dispatchQueuedRequests now (startRequest now c r s2)"
        by (subst dispatchQueuedRequests.simps) (use True sel Some ns rr s1 in \<open>simp add: s2_def\<close>)
      ultimately show ?thesis
        using "1.IH"(3) [OF True sel [symmetric] Some, of r rest s2] ns rr s1 pend adm
        by (simp add: s2_def)
    qed
  qed
qed

section \<open>Every handler keeps the invariant\<close>

lemma heldOf_append [simp]: "heldOf c (xs @ ys) = heldOf c xs @ heldOf c ys"
  by (simp add: heldOf_def)

lemma startRequest_eq:
  "promises s (rqId r) = Pending \<Longrightarrow> startRequest now c r s =
     s\<lparr>inFlightByClass := (inFlightByClass s)(c := inFlightByClass s c + 1),
       observed := observed s @ [ObsStarted c (max 0 (now - rq_enqueuedAtMs r))],
       promises := (promises s)(rqId r := Resolved \<lparr>gr_executionClass = c, gr_token = rq_token r\<rparr>),
       grantLog := grantLog s @ [(rqId r, \<lparr>gr_executionClass = c, gr_token = rq_token r\<rparr>)]\<rparr>"
  by (simp add: startRequest_def resolveRequest_def observe_def isSettled_def)

lemma sharedSlots_start:
  assumes "inFlightByClass t = (inFlightByClass s)(c := inFlightByClass s c + 1)"
    and "adPolicy t = adPolicy s" and "sharedSlotsInUse s \<le> sharedSlotCapacity s"
    and "inFlightByClass s c < reservedSlots (adPolicy s) c \<or> sharedSlotsInUse s < sharedSlotCapacity s"
  shows "sharedSlotsInUse t \<le> sharedSlotCapacity t"
  using assms by (cases c) (auto simp: slot_defs min_def split: if_splits)

lemma admissionOk_queued:
  "admissionOk s held \<Longrightarrow> r \<in> set (queuedByClass s c) \<Longrightarrow>
     rq_executionClass r = c \<and> rqId r < nextRequestId s \<and> promises s (rqId r) = Pending"
  by (simp add: admissionOk_def queueOk_def)

lemma admissionOk_start:
  fixes k :: nat and now :: int
  assumes ok: "admissionOk s held" and q: "queuedByClass s c = r # rest"
    and slot: "inFlightByClass s c < reservedSlots (adPolicy s) c \<or>
      sharedSlotsInUse s < sharedSlotCapacity s"
  defines "g \<equiv> \<lparr>gr_executionClass = c, gr_token = rq_token r\<rparr>"
  defines "t \<equiv> startRequest now c r
     (s\<lparr>roundRobinCursor := k, queuedByClass := (queuedByClass s)(c := rest)\<rparr>)"
  shows "admissionOk t (held @ [(rqId r, g)]) \<and> grantLog t = grantLog s @ [(rqId r, g)]"
proof -
  have pend: "promises s (rqId r) = Pending" and id: "rqId r < nextRequestId s"
    using admissionOk_queued [OF ok, of r c] q by auto
  have t: "t = s\<lparr>roundRobinCursor := k, queuedByClass := (queuedByClass s)(c := rest),
      inFlightByClass := (inFlightByClass s)(c := inFlightByClass s c + 1),
      observed := observed s @ [ObsStarted c (max 0 (now - rq_enqueuedAtMs r))],
      promises := (promises s)(rqId r := Resolved g), grantLog := grantLog s @ [(rqId r, g)]\<rparr>"
    using pend unfolding t_def g_def by (subst startRequest_eq) simp_all
  have arr: "arrivalOrder d t = arrivalOrder d s" for d
    using q by (auto simp: arrivalOrder_def t g_def heldOf_def)
  have sorted: "sorted_wrt (<) (arrivalOrder d s)" for d
    using ok by (simp add: admissionOk_def logOk_def)
  have disj: "d \<noteq> e \<Longrightarrow> rqId ` set (queuedByClass s d) \<inter> rqId ` set (queuedByClass s e) = {}" for d e
    using ok by (simp add: admissionOk_def logOk_def)
  have fresh: "rqId x \<noteq> rqId r" if "x \<in> set (queuedByClass t d)" for x d
  proof (cases "d = c")
    case True
    with that have "x \<in> set rest" by (simp add: t)
    with sorted [of c] q show ?thesis by (auto simp: arrivalOrder_def sorted_wrt_append)
  next
    case False
    with that have "rqId x \<in> rqId ` set (queuedByClass s d)" by (simp add: t)
    moreover have "rqId r \<in> rqId ` set (queuedByClass s c)" by (simp add: q)
    ultimately show ?thesis using disj [OF False] by (metis IntI empty_iff)
  qed
  have "queueOk d t" for d
  proof -
    have "queueOk d s" using ok by (simp add: admissionOk_def)
    then show ?thesis using fresh [of _ d] q by (auto simp: queueOk_def t split: if_splits)
  qed
  moreover have "slotsOk t (held @ [(rqId r, g)])"
    using ok slot by (auto simp: admissionOk_def slotsOk_def t g_def heldOf_def
        intro!: sharedSlots_start [of _ s c])
  moreover have "logOk t"
    unfolding logOk_def
  proof (intro conjI allI impI ballI)
    show "sorted_wrt (<) (arrivalOrder d t)" for d by (simp add: arr sorted)
    have sub: "rqId ` set (queuedByClass t d) \<subseteq> rqId ` set (queuedByClass s d)" for d
      using q by (auto simp: t)
    show "rqId ` set (queuedByClass t d) \<inter> rqId ` set (queuedByClass t e) = {}" if "d \<noteq> e" for d e
      using disj [OF that] sub [of d] sub [of e] by blast
    fix x assume x: "x \<in> set (grantLog t)"
    have "\<forall>y \<in> set (grantLog s). fst y < nextRequestId s \<and> promises s (fst y) = Resolved (snd y)"
      using ok by (simp add: admissionOk_def logOk_def)
    with x pend id show "fst x < nextRequestId t" and "promises t (fst x) = Resolved (snd x)"
      by (auto simp: t)
  next
    show "promises t i = Pending" if "nextRequestId t \<le> i" for i
      using that ok id by (auto simp: admissionOk_def logOk_def t)
  qed
  moreover have "policyValid (adPolicy t)" using ok by (simp add: admissionOk_def t)
  ultimately show ?thesis by (simp add: admissionOk_def t)
qed

lemma admissionOk_dispatch:
  fixes now :: int
  assumes "admissionOk s held"
  defines "t \<equiv> dispatchQueuedRequests now s"
  shows "admissionOk t (held @ newGrants s t) \<and> quiescent t \<and> (\<exists>gs. grantLog t = grantLog s @ gs)"
proof -
  let ?P = "\<lambda>u. \<exists>gs. grantLog u = grantLog s @ gs \<and> admissionOk u (held @ gs)"
  have "?P t \<and> quiescent t"
    unfolding t_def
  proof (rule dispatch_keeps [where P = ?P])
    show "?P s" using assms by simp
    show "promises u (rqId r) = Pending" if "?P u" "r \<in> set (queuedByClass u c)" for u c r
      using that admissionOk_queued by blast
    show "?P (startRequest now' c r
        (u\<lparr>roundRobinCursor := k, queuedByClass := (queuedByClass u)(c := rest)\<rparr>))"
      if P: "?P u" and q: "queuedByClass u c = r # rest" and
        slot: "inFlightByClass u c < reservedSlots (adPolicy u) c \<or> sharedSlotsInUse u < sharedSlotCapacity u"
      for now' u c r rest k
    proof -
      from P obtain gs where gs: "grantLog u = grantLog s @ gs" "admissionOk u (held @ gs)" by blast
      from admissionOk_start [OF gs(2) q slot, of now' k] gs(1) show ?thesis by auto
    qed
  qed
  then show ?thesis by (auto simp: newGrants_def)
qed

lemma admissionOk_observe [simp]: "admissionOk (observe e s) held = admissionOk s held"
  by (simp add: admissionOk_def queueOk_def slotsOk_def logOk_def arrivalOrder_def observe_def slot_defs)

lemma observe_fields [simp]:
  "grantLog (observe e s) = grantLog s" "queuedByClass (observe e s) = queuedByClass s"
  "quiescent (observe e s) = quiescent s"
  by (simp_all add: observe_def quiescent_def slot_defs)

lemma newGrants_self [simp]: "newGrants s s = []"
  by (simp add: newGrants_def)

lemma newGrants_cong: "grantLog s = grantLog s' \<Longrightarrow> newGrants s t = newGrants s' t"
  by (simp add: newGrants_def)

lemma admissionOk_enqueue:
  assumes ok: "admissionOk s held"
    and len: "int (length (queuedByClass s c)) < maxQueuePerClass (adPolicy s)"
    and r: "rqId r = nextRequestId s" "rq_executionClass r = c"
  shows "admissionOk (s\<lparr>nextRequestId := Suc (nextRequestId s),
           queuedByClass := (queuedByClass s)(c := queuedByClass s c @ [r])\<rparr>) held"
    (is "admissionOk ?t held")
proof -
  have ids: "rqId x < nextRequestId s" if "x \<in> set (queuedByClass s d)" for x d
    using admissionOk_queued [OF ok that] by simp
  have log: "\<forall>x \<in> set (grantLog s). fst x < nextRequestId s"
    and pend: "\<forall>i \<ge> nextRequestId s. promises s i = Pending"
    and disj: "\<And>d e. d \<noteq> e \<Longrightarrow> rqId ` set (queuedByClass s d) \<inter> rqId ` set (queuedByClass s e) = {}"
    and sorted: "\<And>d. sorted_wrt (<) (arrivalOrder d s)"
    using ok by (auto simp: admissionOk_def logOk_def)
  have before: "\<forall>x \<in> set (arrivalOrder d s). x < nextRequestId s" for d
    using ids [of _ d] log by (auto simp: arrivalOrder_def heldOf_def)
  have "arrivalOrder d ?t = (if d = c then arrivalOrder d s @ [nextRequestId s] else arrivalOrder d s)" for d
    using r by (simp add: arrivalOrder_def)
  then have "sorted_wrt (<) (arrivalOrder d ?t)" for d
    using sorted [of d] before [of d] by (cases "d = c") (simp_all add: sorted_wrt_append)
  moreover have "rqId ` set (queuedByClass ?t d) \<inter> rqId ` set (queuedByClass ?t e) = {}" if "d \<noteq> e" for d e
    using disj [OF that] r that by (auto dest!: ids)
  moreover have "queueOk d ?t" for d
    using ok len pend r by (auto simp: admissionOk_def queueOk_def less_Suc_eq)
  ultimately show ?thesis
    using ok log pend by (auto simp: admissionOk_def slotsOk_def logOk_def slot_defs less_Suc_eq)
qed

lemma admissionOk_acquire:
  assumes "admissionOk s held" and "acquire c now token s = (res, t)" and "quiescent s"
  shows "admissionOk t (held @ newGrants s t) \<and> quiescent t"
proof (cases "int (length (queuedByClass s c)) \<ge> maxQueuePerClass (adPolicy s)")
  case True
  with assms have "t = observe (ObsRejected c) s" by (simp add: acquire_def)
  with assms show ?thesis by (simp add: newGrants_def)
next
  case False
  define r where "r = \<lparr>rqId = nextRequestId s, rq_executionClass = c, rq_enqueuedAtMs = now, rq_token = token\<rparr>"
  define s1 where "s1 = s\<lparr>nextRequestId := Suc (nextRequestId s),
                    queuedByClass := (queuedByClass s)(c := queuedByClass s c @ [r])\<rparr>"
  define s2 where "s2 = observe (ObsQueued c (int (length (queuedByClass s1 c)))) s1"
  have t: "t = dispatchQueuedRequests now s2"
    using assms(2) False by (simp add: acquire_def Let_def s2_def s1_def r_def)
  have "admissionOk s2 held"
    using admissionOk_enqueue [OF assms(1), of c r] False by (simp add: s2_def s1_def r_def)
  moreover have "newGrants s2 t = newGrants s t"
    by (rule newGrants_cong) (simp add: s2_def s1_def)
  ultimately show ?thesis using admissionOk_dispatch [of s2 held now] t by simp
qed

lemma sharedSlots_finish:
  assumes "inFlightByClass t = (inFlightByClass s)(c := inFlightByClass s c - 1)"
    and "adPolicy t = adPolicy s" and "sharedSlotsInUse s \<le> sharedSlotCapacity s"
  shows "sharedSlotsInUse t \<le> sharedSlotCapacity t"
  using assms by (cases c) (auto simp: slot_defs min_def split: if_splits)

lemma length_heldOf_remove1:
  "x \<in> set held \<Longrightarrow> int (length (heldOf c (remove1 x held))) =
     int (length (heldOf c held)) - (if gr_executionClass (snd x) = c then 1 else 0)"
  by (induction held) (auto simp: heldOf_def)

lemma admissionOk_release:
  fixes now :: int
  assumes ok: "admissionOk s held" and x: "x \<in> set held"
  defines "t \<equiv> release (snd x) now s"
  shows "admissionOk t (remove1 x held @ newGrants s t) \<and> quiescent t"
proof -
  define c where "c = gr_executionClass (snd x)"
  have pos: "inFlightByClass s c > 0"
    using ok x by (auto simp: admissionOk_def slotsOk_def c_def heldOf_def filter_empty_conv
        intro!: length_pos_if_in_set [of x])
  define s1 where "s1 = s\<lparr>inFlightByClass := (inFlightByClass s)(c := inFlightByClass s c - 1)\<rparr>"
  have "sharedSlotsInUse s1 \<le> sharedSlotCapacity s1"
    using ok by (intro sharedSlots_finish [of s1 s c]) (auto simp: s1_def admissionOk_def slotsOk_def)
  then have "slotsOk s1 (remove1 x held)"
    using ok by (auto simp: slotsOk_def admissionOk_def s1_def c_def length_heldOf_remove1 [OF x])
  then have "admissionOk s1 (remove1 x held)"
    using ok by (auto simp: admissionOk_def queueOk_def logOk_def arrivalOrder_def s1_def)
  then have "admissionOk (observe (ObsFinished c) s1) (remove1 x held)" by simp
  moreover have "t = dispatchQueuedRequests now (observe (ObsFinished c) s1)"
    using pos by (simp add: t_def release_def s1_def c_def Let_def)
  moreover have "newGrants (observe (ObsFinished c) s1) t = newGrants s t"
    by (rule newGrants_cong) (simp add: s1_def)
  ultimately show ?thesis using admissionOk_dispatch [of "observe (ObsFinished c) s1" "remove1 x held" now]
    by simp
qed

lemma set_removeById: "distinct (map rqId q) \<Longrightarrow> set (removeById i q) = {r \<in> set q. rqId r \<noteq> i}"
proof (induction q)
  case (Cons a q)
  then have "rqId a \<notin> rqId ` set q" by simp
  with Cons show ?case by (auto simp: image_iff)
qed simp

lemma sorted_removeById:
  "sorted_wrt (<) (map rqId q) \<Longrightarrow> sorted_wrt (<) (map rqId (removeById i q))"
proof (induction q)
  case (Cons a q)
  have "set (removeById i q) \<subseteq> set q" by (induction q) auto
  with Cons show ?case by auto
qed simp

lemma length_removeById: "length (removeById i q) \<le> length q"
  by (induction q) auto

lemma expireRequest_eq:
  assumes "admissionOk s held" and "rqId r \<in> rqId ` set (queuedByClass s (rq_executionClass r))"
  shows "expireRequest r now s =
    s\<lparr>queuedByClass := (queuedByClass s)(rq_executionClass r :=
         removeById (rqId r) (queuedByClass s (rq_executionClass r))),
      observed := observed s @ [ObsTimedOut (rq_executionClass r) (now - rq_enqueuedAtMs r)],
      promises := (promises s)(rqId r := Rejected (waitTimedOutError (rq_executionClass r)))\<rparr>"
proof -
  have "promises s (rqId r) = Pending" using assms admissionOk_queued by (auto simp: image_iff)
  with assms(2) show ?thesis
    by (simp add: expireRequest_def removeQueuedRequest_def rejectRequest_def isSettled_def
        observe_def Let_def)
qed

lemma admissionOk_expire:
  assumes ok: "admissionOk s held"
  shows "admissionOk (expireRequest r now s) held \<and>
    (quiescent s \<longrightarrow> quiescent (expireRequest r now s)) \<and> grantLog (expireRequest r now s) = grantLog s"
proof (cases "rqId r \<in> rqId ` set (queuedByClass s (rq_executionClass r))")
  case False
  then show ?thesis using ok by (simp add: expireRequest_def removeQueuedRequest_def)
next
  case True
  define c where "c = rq_executionClass r"
  define t where "t = expireRequest r now s"
  note t_eq = expireRequest_eq [OF ok True, of now, folded c_def t_def]
  have log: "\<forall>x \<in> set (grantLog s). fst x < nextRequestId s \<and> promises s (fst x) = Resolved (snd x)"
    and pend: "\<forall>i \<ge> nextRequestId s. promises s i = Pending"
    and disj: "\<And>d e. d \<noteq> e \<Longrightarrow> rqId ` set (queuedByClass s d) \<inter> rqId ` set (queuedByClass s e) = {}"
    and sorted: "\<And>d. sorted_wrt (<) (arrivalOrder d s)"
    using ok by (auto simp: admissionOk_def logOk_def)
  have "rqId r < nextRequestId s" "promises s (rqId r) = Pending"
    using True admissionOk_queued [OF ok] by (auto simp: image_iff)
  note rid = this
  have dist: "distinct (map rqId (queuedByClass s c))"
    using sorted [of c] by (auto simp: arrivalOrder_def sorted_wrt_append strict_sorted_iff)
  have q: "set (queuedByClass t d) = {x \<in> set (queuedByClass s d). rqId x \<noteq> rqId r}" for d
    using disj [of d c] True set_removeById [OF dist, of "rqId r"]
    by (cases "d = c") (auto simp: t_eq c_def)
  have "sorted_wrt (<) (arrivalOrder d t)" for d
    using sorted [of d] q [of d] unfolding arrivalOrder_def sorted_wrt_append
    by (auto simp: t_eq intro!: sorted_removeById)
  moreover have "queueOk d t" for d
  proof -
    have "length (queuedByClass t d) \<le> length (queuedByClass s d)"
      by (simp add: t_eq length_removeById)
    moreover have "queueOk d s" using ok by (simp add: admissionOk_def)
    ultimately show ?thesis unfolding queueOk_def q by (auto simp: t_eq)
  qed
  moreover have "rqId ` set (queuedByClass t d) \<inter> rqId ` set (queuedByClass t e) = {}" if "d \<noteq> e" for d e
    using disj [OF that] by (auto simp: q)
  moreover have "\<forall>x \<in> set (grantLog t). fst x < nextRequestId t \<and> promises t (fst x) = Resolved (snd x)"
    using log rid by (auto simp: t_eq)
  moreover have "\<forall>i \<ge> nextRequestId t. promises t i = Pending"
    using pend rid by (auto simp: t_eq)
  moreover have "slotsOk t held" and "policyValid (adPolicy t)"
    using ok by (auto simp: admissionOk_def slotsOk_def slot_defs t_eq)
  moreover have "queuedByClass t d \<noteq> [] \<Longrightarrow> queuedByClass s d \<noteq> []" for d
    using q [of d] by (metis (lifting) empty_Collect_eq empty_iff list.set(1) set_empty)
  then have "quiescent s \<longrightarrow> quiescent t"
    by (auto simp: quiescent_def slot_defs t_eq)
  ultimately show ?thesis
    unfolding t_def [symmetric] by (simp add: admissionOk_def logOk_def t_eq)
qed

lemma admission_reachable_ok:
  "admission_reachable p x \<Longrightarrow> admissionOk (fst x) (snd x) \<and> quiescent (fst x)"
proof (induction rule: admission_reachable.induct)
  case (start s)
  then have "assertPolicy p = Inr ()" and s: "s = observe (ObsPolicy (policyOf p)) (initialAdmission p)"
    by (auto simp: applyPolicy_def initialAdmission_def split: sum.splits)
  with assertPolicy_valid [of p] have pv: "policyValid (policyOf p)" by simp
  have "sumClasses (reservedSlots (policyOf p)) \<le> maxConcurrent (policyOf p)"
    and "\<forall>c. 0 \<le> reservedSlots (policyOf p) c"
    using pv by (auto simp: policyValid_def all_class_iff)
  then have "slotsOk (initialAdmission p) []"
    by (auto simp: slotsOk_def slot_defs heldOf_def initialAdmission_def)
  then have "admissionOk (initialAdmission p) []"
    using pv by (auto simp: admissionOk_def queueOk_def logOk_def arrivalOrder_def heldOf_def
        initialAdmission_def policyValid_def)
  moreover have "quiescent (initialAdmission p)"
    by (simp add: quiescent_def initialAdmission_def)
  moreover have "s = observe (ObsPolicy (policyOf p)) (initialAdmission p)"
    by (simp add: s initialAdmission_def)
  ultimately show ?case by simp
next
  case (step x y)
  from step.hyps(2) step.IH show ?case
  proof (induction rule: admission_step.induct)
    case (arrive c now token s res t held)
    then show ?case using admissionOk_acquire [of s held c now token res t] by simp
  next
    case (expire s held r now)
    then show ?case using admissionOk_expire [of s held r now] by simp
  next
    case (finish x held now s t)
    then show ?case using admissionOk_release [of s held x now] by simp
  qed
qed

lemma length_heldOf_sum:
  "int (length (heldOf Interactive_light held)) + int (length (heldOf Interactive_heavy held)) +
     int (length (heldOf Background held)) = int (length held)"
proof (induction held)
  case (Cons x held)
  then show ?case by (cases "gr_executionClass (snd x)") (simp_all add: heldOf_def)
qed (simp add: heldOf_def)

section \<open>Properties\<close>

text \<open>C8: Capacity. In every reachable state the work running never exceeds
  \<open>maxConcurrent\<close>, the slots beyond the reservations never exceed the shared capacity,
  the in-flight counter of a class is exactly the number of its unreleased grants, and no
  queue is longer than \<open>maxQueuePerClass\<close>.\<close>

theorem admission_capacity:
  assumes "admission_reachable p (s, held)"
  shows "int (length held) \<le> maxConcurrent (adPolicy s) \<and>
    totalInFlightCount s = int (length held) \<and>
    sharedSlotsInUse s \<le> sharedSlotCapacity s \<and>
    (\<forall>c. inFlightByClass s c = int (length (heldOf c held))) \<and>
    (\<forall>c. int (length (queuedByClass s c)) \<le> maxQueuePerClass (adPolicy s))"
proof -
  have ok: "admissionOk s held" using admission_reachable_ok [OF assms] by simp
  have total: "totalInFlightCount s = int (length held)"
    using ok by (simp add: admissionOk_def slotsOk_def slot_defs length_heldOf_sum)
  have "totalInFlightCount s \<le> maxConcurrent (adPolicy s)"
    using ok by (auto simp: admissionOk_def slotsOk_def slot_defs min_def split: if_splits)
  with ok total show ?thesis by (auto simp: admissionOk_def slotsOk_def queueOk_def)
qed

text \<open>A policy with one shared slot, and a run in which the second request waits.\<close>

definition tinyPolicy :: raw_admission_policy where
  "tinyPolicy = \<lparr>raw_maxConcurrent = jsInt 1, raw_queueTimeoutMs = jsInt 10,
     raw_maxQueuePerClass = jsInt 2, raw_reservedSlots = (\<lambda>_. jsInt 0)\<rparr>"

definition tinyStart :: admission where
  "tinyStart = snd (applyPolicy tinyPolicy (initialAdmission tinyPolicy))"

definition tinyOne :: admission where
  "tinyOne = snd (acquire Background 5 ''a'' tinyStart)"

definition tinyTwo :: admission where
  "tinyTwo = snd (acquire Background 7 ''b'' tinyOne)"

lemmas run_simps = acquire_def dispatchQueuedRequests.simps selectNextDispatchClass_def
  reservedCandidates_def executionClassesWithQueuedRequests_def sharedExecutionClassOrder_def
  pickRoundRobinCandidate_def startRequest_def resolveRequest_def isSettled_def observe_def
  slot_defs Let_def upt_rec

lemma applyPolicy_tiny: "applyPolicy tinyPolicy (initialAdmission tinyPolicy) = (Inr (), tinyStart)"
  by (simp add: tinyStart_def applyPolicy_def assertPolicy_def checkPositiveInteger_def
      tinyPolicy_def runtimeExecutionClasses_def)

lemma tinyStart_eq: "tinyStart = \<lparr>adPolicy = policyOf tinyPolicy, queuedByClass = (\<lambda>_. []),
    inFlightByClass = (\<lambda>_. 0), roundRobinCursor = 0, promises = (\<lambda>_. Pending),
    nextRequestId = 0, grantLog = [], observed = [ObsPolicy (policyOf tinyPolicy)]\<rparr>"
  by (simp add: tinyStart_def applyPolicy_def assertPolicy_def checkPositiveInteger_def
      tinyPolicy_def runtimeExecutionClasses_def initialAdmission_def observe_def)

lemma tinyOne_run:
  "queuedByClass tinyOne = (\<lambda>_. [])" "inFlightByClass tinyOne Background = 1"
  "inFlightByClass tinyOne Interactive_light = 0" "inFlightByClass tinyOne Interactive_heavy = 0"
  "adPolicy tinyOne = policyOf tinyPolicy" "grantLog tinyOne = [(0, \<lparr>gr_executionClass = Background, gr_token = ''a''\<rparr>)]"
  by (simp_all add: tinyOne_def tinyStart_eq run_simps policyOf_def tinyPolicy_def fun_eq_iff)

lemma tinyTwo_queue: "map rqId (queuedByClass tinyTwo Background) = [nextRequestId tinyOne]"
  by (simp add: tinyTwo_def run_simps tinyOne_run policyOf_def tinyPolicy_def)

lemma tiny_reachable:
  "admission_reachable tinyPolicy (tinyOne, newGrants tinyStart tinyOne)"
  "admission_reachable tinyPolicy (tinyTwo, newGrants tinyStart tinyOne @ newGrants tinyOne tinyTwo)"
proof -
  have one: "acquire Background 5 ''a'' tinyStart = (fst (acquire Background 5 ''a'' tinyStart), tinyOne)"
    by (simp add: tinyOne_def)
  have two: "acquire Background 7 ''b'' tinyOne = (fst (acquire Background 7 ''b'' tinyOne), tinyTwo)"
    by (simp add: tinyTwo_def)
  show first: "admission_reachable tinyPolicy (tinyOne, newGrants tinyStart tinyOne)"
    using admission_reachable.step [OF admission_reachable.start [OF applyPolicy_tiny]
        admission_step.arrive [OF one, of "[]"]] by simp
  show "admission_reachable tinyPolicy (tinyTwo, newGrants tinyStart tinyOne @ newGrants tinyOne tinyTwo)"
    by (rule admission_reachable.step [OF first admission_step.arrive [OF two]])
qed

theorem admission_capacity_witness:
  "totalInFlightCount tinyTwo = 1 \<and> totalInFlightCount tinyTwo \<le> maxConcurrent (adPolicy tinyTwo)"
proof -
  have "newGrants tinyStart tinyOne @ newGrants tinyOne tinyTwo = [(0, \<lparr>gr_executionClass = Background, gr_token = ''a''\<rparr>)]"
    by (simp add: newGrants_def tinyStart_eq tinyOne_run tinyTwo_def run_simps policyOf_def tinyPolicy_def)
  then show ?thesis using admission_capacity [OF tiny_reachable(2)] by simp
qed

text \<open>Nobody waits without need. In every reachable state, if a class has a queued
  request then it already runs at least its reserved number of slots and every shared slot is
  in use: reserved floors are honoured and no free slot is left idle.\<close>

theorem admission_waits_only_when_full:
  assumes "admission_reachable p (s, held)" and "queuedByClass s c \<noteq> []"
  shows "reservedSlots (adPolicy s) c \<le> inFlightByClass s c \<and> sharedSlotsInUse s = sharedSlotCapacity s"
proof -
  have ok: "admissionOk s held" and quiet: "quiescent s"
    using admission_reachable_ok [OF assms(1)] by simp_all
  have cap: "sharedSlotsInUse s \<le> sharedSlotCapacity s"
    using ok by (simp add: admissionOk_def slotsOk_def)
  from quiet consider "totalInFlightCount s \<ge> maxConcurrent (adPolicy s)"
    | "inFlightByClass s c \<ge> reservedSlots (adPolicy s) c" "sharedSlotsInUse s \<ge> sharedSlotCapacity s"
    using assms(2) by (auto simp: quiescent_def)
  then show ?thesis
  proof cases
    case 1
    with cap show ?thesis by (cases c) (auto simp: slot_defs min_def split: if_splits)
  next
    case 2
    with cap show ?thesis by simp
  qed
qed

theorem admission_waits_only_when_full_witness:
  "queuedByClass tinyTwo Background \<noteq> [] \<and> sharedSlotsInUse tinyTwo = sharedSlotCapacity tinyTwo"
proof -
  have q: "queuedByClass tinyTwo Background \<noteq> []" using tinyTwo_queue by auto
  show ?thesis using q admission_waits_only_when_full [OF tiny_reachable(2) q] by simp
qed

text \<open>First come, first served within a class. In every reachable state the requests of
  a class that were granted a slot, in the order of their grants, followed by those still
  queued, are in the order of their arrival (request ids are allocated on arrival); timed-out
  requests are the ones missing.\<close>

theorem admission_fifo:
  assumes "admission_reachable p (s, held)"
  shows "sorted_wrt (<) (map fst (heldOf c (grantLog s)) @ map rqId (queuedByClass s c))"
  using admission_reachable_ok [OF assms] by (simp add: admissionOk_def logOk_def arrivalOrder_def)

theorem admission_fifo_witness:
  "sorted_wrt (<) (map fst (heldOf Background (grantLog tinyTwo)) @ map rqId (queuedByClass tinyTwo Background))"
  by (rule admission_fifo [OF tiny_reachable(2)])

fun posOf :: "exec_class \<Rightarrow> nat" where
  "posOf Interactive_light = 0"
| "posOf Interactive_heavy = 1"
| "posOf Background = 2"

text \<open>How many positions of the shared order lie before \<open>c\<close>, from the cursor on.\<close>

definition posDistance :: "exec_class \<Rightarrow> nat \<Rightarrow> nat" where
  "posDistance c k = (posOf c + 2 * k) mod 3"

lemma order_facts:
  "length sharedExecutionClassOrder = 3" "[0 ..< 3] = [0, 1, 2 :: nat]"
  "sharedExecutionClassOrder ! 0 = Interactive_light"
  "sharedExecutionClassOrder ! 1 = Interactive_heavy"
  "sharedExecutionClassOrder ! Suc 0 = Interactive_heavy"
  "sharedExecutionClassOrder ! 2 = Background"
  "sharedExecutionClassOrder ! Suc (Suc 0) = Background"
  by (simp_all add: sharedExecutionClassOrder_def upt_rec)

lemma pickRoundRobin_at:
  assumes "cs \<noteq> []"
  shows "roundRobinCursor s = 0 \<Longrightarrow> pickRoundRobinCandidate cs s =
      (if Interactive_light \<in> set cs then (Some Interactive_light, s\<lparr>roundRobinCursor := 1\<rparr>)
       else if Interactive_heavy \<in> set cs then (Some Interactive_heavy, s\<lparr>roundRobinCursor := 2\<rparr>)
       else if Background \<in> set cs then (Some Background, s\<lparr>roundRobinCursor := 0\<rparr>)
       else (Some (hd cs), s))"
    and "roundRobinCursor s = 1 \<Longrightarrow> pickRoundRobinCandidate cs s =
      (if Interactive_heavy \<in> set cs then (Some Interactive_heavy, s\<lparr>roundRobinCursor := 2\<rparr>)
       else if Background \<in> set cs then (Some Background, s\<lparr>roundRobinCursor := 0\<rparr>)
       else if Interactive_light \<in> set cs then (Some Interactive_light, s\<lparr>roundRobinCursor := 1\<rparr>)
       else (Some (hd cs), s))"
    and "roundRobinCursor s = 2 \<Longrightarrow> pickRoundRobinCandidate cs s =
      (if Background \<in> set cs then (Some Background, s\<lparr>roundRobinCursor := 0\<rparr>)
       else if Interactive_light \<in> set cs then (Some Interactive_light, s\<lparr>roundRobinCursor := 1\<rparr>)
       else if Interactive_heavy \<in> set cs then (Some Interactive_heavy, s\<lparr>roundRobinCursor := 2\<rparr>)
       else (Some (hd cs), s))"
  using assms by (simp_all add: pickRoundRobinCandidate_def order_facts Let_def)

text \<open>Round robin is fair. A class that is a candidate in three consecutive choices of
  the round robin is chosen in one of them, whatever the other candidates are.\<close>

theorem round_robin_within_three:
  assumes "roundRobinCursor s1 < 3"
    and "pickRoundRobinCandidate cs1 s1 = (x1, t1)" "c \<in> set cs1"
    and "roundRobinCursor s2 = roundRobinCursor t1"
    and "pickRoundRobinCandidate cs2 s2 = (x2, t2)" "c \<in> set cs2"
    and "roundRobinCursor s3 = roundRobinCursor t2"
    and "pickRoundRobinCandidate cs3 s3 = (x3, t3)" "c \<in> set cs3"
  shows "Some c \<in> {x1, x2, x3}"
proof -
  have step: "x = Some c \<or> roundRobinCursor t < 3 \<and>
      posDistance c (roundRobinCursor t) < posDistance c (roundRobinCursor s)"
    if "pickRoundRobinCandidate cs s = (x, t)" "c \<in> set cs" "roundRobinCursor s < 3" for cs s x t
  proof -
    have "cs \<noteq> []" using that(2) by auto
    from that(3) consider "roundRobinCursor s = 0" | "roundRobinCursor s = 1" | "roundRobinCursor s = 2"
      by linarith
    then show ?thesis
      using that(1,2) \<open>cs \<noteq> []\<close>
      by cases (cases c; auto simp: pickRoundRobin_at posDistance_def split: if_splits)+
  qed
  have far: "posDistance c k < 3" for k by (simp add: posDistance_def)
  show ?thesis
    using step [OF assms(2,3,1)] step [OF assms(5,6)] step [OF assms(8,9)] assms(4,7)
      far [of "roundRobinCursor s1"]
    by auto
qed

text \<open>The second class is taken once although the first one is always a candidate too.\<close>

theorem round_robin_within_three_witness:
  "fst (pickRoundRobinCandidate [Interactive_light, Interactive_heavy] (tinyStart\<lparr>roundRobinCursor := 0\<rparr>))
     = Some Interactive_light \<and>
   Some Interactive_heavy \<in> {Some Interactive_light, Some Interactive_heavy, Some Background}"
proof -
  let ?cs = "[Interactive_light, Interactive_heavy]"
  let ?s = "\<lambda>k. tinyStart\<lparr>roundRobinCursor := k\<rparr>"
  have a: "pickRoundRobinCandidate ?cs (?s 0) = (Some Interactive_light, ?s 1)"
    and b: "pickRoundRobinCandidate ?cs (?s 1) = (Some Interactive_heavy, ?s 2)"
    and c: "pickRoundRobinCandidate [Interactive_heavy, Background] (?s 2) = (Some Background, ?s 0)"
    by (simp_all add: pickRoundRobin_at)
  have "Some Interactive_heavy \<in> {Some Interactive_light, Some Interactive_heavy, Some Background}"
    by (rule round_robin_within_three [OF _ a _ _ b _ _ c]) simp_all
  with a show ?thesis by simp
qed

end
