(* ===== verification/ToolBudget.thy ===== *)
theory ToolBudget
  imports PersaiPrelude
begin

text \<open>
  The tool budget of a turn (\<open>apps/runtime/src/modules/turns/tool-budget-policy.ts\<close>) and
  the plan setting it is configured from
  (\<open>apps/api/src/modules/workspace-management/application/tool-budgets-policy.ts\<close>).

  A turn may execute tool calls in its first \<open>loopLimit\<close> iterations, and each tool
  with a cap at most that many result units. The policy object is \<open>tool_budget\<close>; its
  mutable part is the counter map. A JavaScript \<open>Map\<close> of overrides is the association
  list of its entries in insertion order. Tool names are taken to be outside
  \<open>Object.prototype\<close>, where the code's table lookup would find an inherited property.
\<close>

section \<open>Modes, tables, overrides\<close>

datatype budget_mode = Mode_normal | Mode_premium | Mode_reasoning

fun toolLoopLimitByMode :: "budget_mode \<Rightarrow> int" where
  "toolLoopLimitByMode Mode_normal = 3"
| "toolLoopLimitByMode Mode_premium = 4"
| "toolLoopLimitByMode Mode_reasoning = 8"

definition toolHardCapPerTurn :: "(string \<times> int) list" where
  "toolHardCapPerTurn =
     [(''web_fetch'', 5), (''web_search'', 3), (''image_generate'', 1), (''image_edit'', 1),
      (''video_generate'', 1), (''tts'', 3), (''browser'', 3), (''exec'', 5), (''shell'', 5),
      (''files'', 10), (''grep'', 10), (''glob'', 10), (''scheduled_action'', 5),
      (''background_task'', 5), (''knowledge_search'', 5), (''knowledge_fetch'', 10),
      (''memory_write'', 10), (''email_send'', 3)]"

datatype exhaustion_reason = Loop_limit | Per_tool_cap

datatype reservation = NotExhausted | Exhausted exhaustion_reason int int

record snapshot_entry =
  se_toolName :: string
  se_perToolCap :: int
  se_perToolUsed :: int

type_synonym loop_limit_overrides = "(budget_mode \<Rightarrow> js_number option) option"
type_synonym cap_overrides = "(string \<times> js_number option) list option"

text \<open>\<open>Number.isFinite(x) && x > 0\<close>\<close>

definition finitePositive :: "js_number \<Rightarrow> bool" where
  "finitePositive x \<longleftrightarrow> isFinite x \<and> js_less (Fin 0) x"

definition resolveLoopLimit :: "budget_mode \<Rightarrow> loop_limit_overrides \<Rightarrow> int" where
  "resolveLoopLimit mode overrides =
     (case Option.bind overrides (\<lambda>m. m mode) of
        Some override \<Rightarrow>
          if finitePositive override then js_int override else toolLoopLimitByMode mode
      | None \<Rightarrow> toolLoopLimitByMode mode)"

definition overrideFor :: "string \<Rightarrow> cap_overrides \<Rightarrow> js_number option" where
  "overrideFor toolName overrides =
     Option.bind overrides (\<lambda>m. case map_of m toolName of Some v \<Rightarrow> v | None \<Rightarrow> None)"

definition resolvePerToolCap :: "string \<Rightarrow> cap_overrides \<Rightarrow> int option" where
  "resolvePerToolCap toolName overrides =
     (case overrideFor toolName overrides of
        Some override \<Rightarrow>
          if finitePositive override then Some (js_int override)
          else map_of toolHardCapPerTurn toolName
      | None \<Rightarrow> map_of toolHardCapPerTurn toolName)"

definition resolveAdvertisedPerTurnCap :: "string \<Rightarrow> cap_overrides \<Rightarrow> int option" where
  "resolveAdvertisedPerTurnCap toolName overrides = resolvePerToolCap toolName overrides"

section \<open>The policy object\<close>

record tool_budget =
  executionMode :: budget_mode
  loopLimitOverrides :: loop_limit_overrides
  perToolCapOverrides :: cap_overrides
  perToolCounts :: "string \<rightharpoonup> int"

definition newToolBudget ::
  "budget_mode \<Rightarrow> loop_limit_overrides \<Rightarrow> cap_overrides \<Rightarrow> tool_budget" where
  "newToolBudget mode loops caps =
     \<lparr>executionMode = mode, loopLimitOverrides = loops, perToolCapOverrides = caps,
      perToolCounts = Map.empty\<rparr>"

definition loopLimit :: "tool_budget \<Rightarrow> int" where
  "loopLimit p = resolveLoopLimit (executionMode p) (loopLimitOverrides p)"

definition executionModeName :: "tool_budget \<Rightarrow> budget_mode" where
  "executionModeName p = executionMode p"

definition perToolCap :: "tool_budget \<Rightarrow> string \<Rightarrow> int option" where
  "perToolCap p toolName = resolvePerToolCap toolName (perToolCapOverrides p)"

definition observedToolCount :: "tool_budget \<Rightarrow> string \<Rightarrow> int" where
  "observedToolCount p toolName =
     (case perToolCounts p toolName of Some n \<Rightarrow> n | None \<Rightarrow> 0)"

definition setToolCount :: "string \<Rightarrow> int \<Rightarrow> tool_budget \<Rightarrow> tool_budget" where
  "setToolCount toolName n p = p\<lparr>perToolCounts := (perToolCounts p)(toolName \<mapsto> n)\<rparr>"

text \<open>The two loops of \<open>getSnapshot\<close>.\<close>

fun snapshotOf :: "tool_budget \<Rightarrow> string list \<Rightarrow> snapshot_entry list" where
  "snapshotOf p [] = []"
| "snapshotOf p (t # ts) =
     (case perToolCap p t of
        Some cap \<Rightarrow>
          \<lparr>se_toolName = t, se_perToolCap = cap, se_perToolUsed = observedToolCount p t\<rparr>
            # snapshotOf p ts
      | None \<Rightarrow> snapshotOf p ts)"

definition getSnapshot :: "tool_budget \<Rightarrow> snapshot_entry list" where
  "getSnapshot p =
     (let entries = snapshotOf p (map fst toolHardCapPerTurn);
          seen = map se_toolName entries
      in entries @
         (case perToolCapOverrides p of
            Some m \<Rightarrow> snapshotOf p (filter (\<lambda>t. t \<notin> set seen) (map fst m))
          | None \<Rightarrow> []))"

definition unitsOf :: "js_number \<Rightarrow> int" where
  "unitsOf requested = (if finitePositive requested then js_int requested else 1)"

definition reserve ::
  "string \<Rightarrow> int \<Rightarrow> js_number \<Rightarrow> tool_budget \<Rightarrow> reservation \<times> tool_budget" where
  "reserve toolName iterationIndex requestedUnits p =
     (let limit = loopLimit p
      in if iterationIndex \<ge> limit then (Exhausted Loop_limit limit (iterationIndex + 1), p)
         else if isFinite requestedUnits \<and> js_int requestedUnits = 0 then (NotExhausted, p)
         else
           (let units = unitsOf requestedUnits;
                seen = observedToolCount p toolName;
                granted = (NotExhausted, setToolCount toolName (seen + units) p)
            in case perToolCap p toolName of
                 Some cap \<Rightarrow>
                   if seen + units > cap then (Exhausted Per_tool_cap cap (seen + units), p)
                   else granted
               | None \<Rightarrow> granted))"

definition refund :: "string \<Rightarrow> js_number \<Rightarrow> tool_budget \<Rightarrow> tool_budget" where
  "refund toolName reservedUnits p =
     setToolCount toolName (max 0 (observedToolCount p toolName - unitsOf reservedUnits)) p"

record exhausted_result =
  xr_toolCode :: string
  xr_action :: string
  xr_reason :: string
  xr_budgetReason :: exhaustion_reason
  xr_limit :: int
  xr_observed :: int
  xr_hint :: string

definition createToolBudgetExhaustedResult ::
  "string \<Rightarrow> exhaustion_reason \<Rightarrow> int \<Rightarrow> int \<Rightarrow> exhausted_result" where
  "createToolBudgetExhaustedResult toolName reason limit seen =
     \<lparr>xr_toolCode = toolName, xr_action = ''skipped'', xr_reason = ''tool_budget_exhausted'',
      xr_budgetReason = reason, xr_limit = limit, xr_observed = seen,
      xr_hint =
        (if reason = Loop_limit
         then ''Tool loop budget reached for this turn; respond honestly with what you already have.''
         else ''Per-tool cap of '' @ showInt limit @ '' reached for '' @ toolName
              @ '' this turn; respond honestly with what you already have.'')\<rparr>"

section \<open>The plan setting\<close>

record plan_tool_budgets =
  ptb_normal :: "js_number option"
  ptb_premium :: "js_number option"
  ptb_reasoning :: "js_number option"

definition createDefaultPlanToolBudgets :: plan_tool_budgets where
  "createDefaultPlanToolBudgets = \<lparr>ptb_normal = None, ptb_premium = None, ptb_reasoning = None\<rparr>"

definition toLooseNullablePositiveInt :: "json \<Rightarrow> js_number option" where
  "toLooseNullablePositiveInt v =
     (case v of
        JNum x \<Rightarrow> if isInteger x \<and> js_less (Fin 0) x then Some x else None
      | _ \<Rightarrow> None)"

definition resolveStoredPlanToolBudgets :: "json \<Rightarrow> plan_tool_budgets" where
  "resolveStoredPlanToolBudgets v =
     (case asObject v of
        None \<Rightarrow> createDefaultPlanToolBudgets
      | Some row \<Rightarrow>
         (case asObject (jget ''loopLimitByMode'' row) of
            None \<Rightarrow> createDefaultPlanToolBudgets
          | Some rawLoop \<Rightarrow>
              \<lparr>ptb_normal = toLooseNullablePositiveInt (jget ''normal'' rawLoop),
               ptb_premium = toLooseNullablePositiveInt (jget ''premium'' rawLoop),
               ptb_reasoning = toLooseNullablePositiveInt (jget ''reasoning'' rawLoop)\<rparr>))"

definition parseNullablePositiveInt :: "json \<Rightarrow> string \<Rightarrow> js_number option outcome" where
  "parseNullablePositiveInt v fieldName =
     (case v of
        JNull \<Rightarrow> Inr None
      | JUndefined \<Rightarrow> Inr None
      | JNum x \<Rightarrow>
          if isInteger x \<and> js_less (Fin 0) x then Inr (Some x)
          else Inl (BadRequestException (fieldName @ '' must be a positive integer or null.''))
      | _ \<Rightarrow> Inl (BadRequestException (fieldName @ '' must be a positive integer or null.'')))"

definition parsePlanToolBudgets :: "json \<Rightarrow> string \<Rightarrow> plan_tool_budgets outcome" where
  "parsePlanToolBudgets v fieldName =
     (if v = JUndefined then Inr createDefaultPlanToolBudgets
      else case asObject v of
        None \<Rightarrow> Inl (BadRequestException (fieldName @ '' must be an object.''))
      | Some row \<Rightarrow>
         (case asObject (jget ''loopLimitByMode'' row) of
            None \<Rightarrow> Inl (BadRequestException (fieldName @ ''.loopLimitByMode must be an object.''))
          | Some rawLoop \<Rightarrow>
             (case parseNullablePositiveInt (jget ''normal'' rawLoop)
                     (fieldName @ ''.loopLimitByMode.normal'') of
                Inl e \<Rightarrow> Inl e
              | Inr n \<Rightarrow>
             (case parseNullablePositiveInt (jget ''premium'' rawLoop)
                     (fieldName @ ''.loopLimitByMode.premium'') of
                Inl e \<Rightarrow> Inl e
              | Inr p \<Rightarrow>
             (case parseNullablePositiveInt (jget ''reasoning'' rawLoop)
                     (fieldName @ ''.loopLimitByMode.reasoning'') of
                Inl e \<Rightarrow> Inl e
              | Inr r \<Rightarrow> Inr \<lparr>ptb_normal = n, ptb_premium = p, ptb_reasoning = r\<rparr>)))))"

definition jnullable :: "js_number option \<Rightarrow> json" where
  "jnullable x = (case x of None \<Rightarrow> JNull | Some n \<Rightarrow> JNum n)"

definition toPlanToolBudgetsDocument :: "plan_tool_budgets \<Rightarrow> json" where
  "toPlanToolBudgetsDocument b =
     JObj [(''schema'', JStr ''persai.toolBudgets.v1''),
           (''loopLimitByMode'',
             JObj [(''normal'', jnullable (ptb_normal b)),
                   (''premium'', jnullable (ptb_premium b)),
                   (''reasoning'', jnullable (ptb_reasoning b))])]"

definition hasAnyToolBudgetOverride :: "plan_tool_budgets \<Rightarrow> bool" where
  "hasAnyToolBudgetOverride b \<longleftrightarrow>
     ptb_normal b \<noteq> None \<or> ptb_premium b \<noteq> None \<or> ptb_reasoning b \<noteq> None"

text \<open>The bundle carries the plan's leaves to the runtime as the override per mode.\<close>

fun leafOf :: "plan_tool_budgets \<Rightarrow> budget_mode \<Rightarrow> js_number option" where
  "leafOf b Mode_normal = ptb_normal b"
| "leafOf b Mode_premium = ptb_premium b"
| "leafOf b Mode_reasoning = ptb_reasoning b"

section \<open>Runs of the policy\<close>

datatype budget_op = Reserve string int js_number | Refund string js_number

definition applyBudgetOp :: "budget_op \<Rightarrow> tool_budget \<Rightarrow> tool_budget" where
  "applyBudgetOp oper p =
     (case oper of
        Reserve t i u \<Rightarrow> snd (reserve t i u p)
      | Refund t u \<Rightarrow> refund t u p)"

fun runBudget :: "budget_op list \<Rightarrow> tool_budget \<Rightarrow> tool_budget" where
  "runBudget [] p = p"
| "runBudget (oper # ops) p = runBudget ops (applyBudgetOp oper p)"

text \<open>What a granted reservation charges, and what a run granted and refunded of a tool.\<close>

definition chargedUnits :: "js_number \<Rightarrow> int" where
  "chargedUnits u = (if isFinite u \<and> js_int u = 0 then 0 else unitsOf u)"

fun grantedUnits :: "string \<Rightarrow> budget_op list \<Rightarrow> tool_budget \<Rightarrow> int" where
  "grantedUnits t [] p = 0"
| "grantedUnits t (oper # ops) p =
     (case oper of
        Reserve t' i u \<Rightarrow> if t' = t \<and> fst (reserve t' i u p) = NotExhausted then chargedUnits u else 0
      | Refund _ _ \<Rightarrow> 0) + grantedUnits t ops (applyBudgetOp oper p)"

fun refundedUnits :: "string \<Rightarrow> budget_op list \<Rightarrow> int" where
  "refundedUnits t [] = 0"
| "refundedUnits t (oper # ops) =
     (case oper of Refund t' u \<Rightarrow> if t' = t then unitsOf u else 0 | Reserve _ _ _ \<Rightarrow> 0)
     + refundedUnits t ops"

lemma unitsOf_nonneg [simp]: "0 \<le> unitsOf u"
  by (auto simp: unitsOf_def finitePositive_def dest: js_int_nonneg)

lemma observed_set [simp]:
  "observedToolCount (setToolCount t n p) t' = (if t' = t then n else observedToolCount p t')"
  by (simp add: setToolCount_def observedToolCount_def)

lemma setToolCount_config [simp]:
  "executionMode (setToolCount t n p) = executionMode p"
  "loopLimitOverrides (setToolCount t n p) = loopLimitOverrides p"
  "perToolCapOverrides (setToolCount t n p) = perToolCapOverrides p"
  by (simp_all add: setToolCount_def)

lemma setToolCount_limits [simp]:
  "perToolCap (setToolCount t n p) = perToolCap p" "loopLimit (setToolCount t n p) = loopLimit p"
  by (simp_all add: perToolCap_def loopLimit_def fun_eq_iff)

lemma observed_new [simp]: "observedToolCount (newToolBudget m l c) t = 0"
  by (simp add: newToolBudget_def observedToolCount_def)

lemma default_caps_positive: "map_of toolHardCapPerTurn t = Some cap \<Longrightarrow> 1 \<le> cap"
  by (auto simp: toolHardCapPerTurn_def split: if_splits)

lemma perToolCap_nonneg: "perToolCap p t = Some cap \<Longrightarrow> 0 \<le> cap"
  by (auto simp: perToolCap_def resolvePerToolCap_def finitePositive_def
      dest: default_caps_positive js_int_nonneg split: option.splits if_splits)

text \<open>One reservation: either nothing changes, or the tool's counter grows by the charge.\<close>

lemma reserve_cases:
  obtains (refused) reason limit seen where "reserve t i u p = (Exhausted reason limit seen, p)"
  | (free) "reserve t i u p = (NotExhausted, p)" "i < loopLimit p" "chargedUnits u = 0"
  | (granted) "reserve t i u p = (NotExhausted, setToolCount t (observedToolCount p t + unitsOf u) p)"
      "i < loopLimit p" "chargedUnits u = unitsOf u"
      "\<And>cap. perToolCap p t = Some cap \<Longrightarrow> observedToolCount p t + unitsOf u \<le> cap"
proof -
  consider "loopLimit p \<le> i" | "i < loopLimit p" "isFinite u \<and> js_int u = 0"
    | "i < loopLimit p" "\<not> (isFinite u \<and> js_int u = 0)" by linarith
  then show thesis
  proof cases
    case 1
    then show thesis by (intro refused) (simp add: reserve_def)
  next
    case 2
    then show thesis by (intro free) (simp_all add: reserve_def chargedUnits_def)
  next
    case 3
    show thesis
    proof (cases "\<exists>cap. perToolCap p t = Some cap \<and> cap < observedToolCount p t + unitsOf u")
      case True
      then obtain cap where "perToolCap p t = Some cap" "cap < observedToolCount p t + unitsOf u" by blast
      with 3 show thesis by (intro refused [of Per_tool_cap cap]) (auto simp: reserve_def Let_def)
    next
      case False
      with 3 show thesis
        by (intro granted) (auto simp: reserve_def Let_def chargedUnits_def split: option.split)
    qed
  qed
qed

lemma applyBudgetOp_config [simp]:
  "perToolCap (applyBudgetOp oper p) = perToolCap p" "loopLimit (applyBudgetOp oper p) = loopLimit p"
proof -
  have "perToolCap (snd (reserve t i u p)) = perToolCap p \<and> loopLimit (snd (reserve t i u p)) = loopLimit p" for t i u
    by (cases t i u p rule: reserve_cases) simp_all
  then show "perToolCap (applyBudgetOp oper p) = perToolCap p" "loopLimit (applyBudgetOp oper p) = loopLimit p"
    by (simp_all add: applyBudgetOp_def refund_def split: budget_op.split)
qed

lemma budget_step:
  assumes "perToolCap p t = Some cap" "0 \<le> observedToolCount p t" "observedToolCount p t \<le> cap"
  shows "0 \<le> observedToolCount (applyBudgetOp oper p) t \<and>
    observedToolCount (applyBudgetOp oper p) t \<le> cap \<and>
    observedToolCount p t + grantedUnits t [oper] p - refundedUnits t [oper]
      \<le> observedToolCount (applyBudgetOp oper p) t"
proof (cases oper)
  case (Reserve t' i u)
  then show ?thesis
    using assms by (cases t' i u p rule: reserve_cases) (auto simp: applyBudgetOp_def)
next
  case (Refund t' u)
  with assms unitsOf_nonneg [of u] show ?thesis by (auto simp: applyBudgetOp_def refund_def simp del: unitsOf_nonneg)
qed

lemma budget_run:
  assumes "perToolCap p t = Some cap" "0 \<le> observedToolCount p t" "observedToolCount p t \<le> cap"
  shows "0 \<le> observedToolCount (runBudget ops p) t \<and>
    observedToolCount (runBudget ops p) t \<le> cap \<and>
    observedToolCount p t + grantedUnits t ops p - refundedUnits t ops
      \<le> observedToolCount (runBudget ops p) t"
  using assms
proof (induction ops arbitrary: p)
  case (Cons oper ops)
  from budget_step [OF Cons.prems, of oper] Cons.IH [of "applyBudgetOp oper p"] Cons.prems(1)
  show ?case by (auto split: budget_op.splits)
qed simp

section \<open>Snapshots\<close>

lemma default_tool_has_cap:
  assumes "t \<in> set (map fst toolHardCapPerTurn)"
  shows "perToolCap p t \<noteq> None"
proof -
  from assms have "map_of toolHardCapPerTurn t \<noteq> None" by (simp add: map_of_eq_None_iff)
  then show ?thesis by (auto simp: perToolCap_def resolvePerToolCap_def split: option.splits)
qed

lemma capped_tool_known:
  "perToolCap p t \<noteq> None \<Longrightarrow>
     t \<in> set (map fst toolHardCapPerTurn) \<or>
     (\<exists>m. perToolCapOverrides p = Some m \<and> t \<in> set (map fst m))"
  by (auto simp: perToolCap_def resolvePerToolCap_def overrideFor_def bind_eq_Some_conv
      split: option.splits if_splits dest!: map_of_SomeD) force+

lemma snapshotOf_tools:
  "map se_toolName (snapshotOf p ts) = filter (\<lambda>t. perToolCap p t \<noteq> None) ts"
  by (induction ts) (auto split: option.split)

lemma snapshotOf_entry:
  "e \<in> set (snapshotOf p ts) \<Longrightarrow>
     perToolCap p (se_toolName e) = Some (se_perToolCap e) \<and>
     se_perToolUsed e = observedToolCount p (se_toolName e)"
  by (induction ts) (auto split: option.splits)

lemma distinct_default_tools: "distinct (map fst toolHardCapPerTurn)"
  by (simp add: toolHardCapPerTurn_def)

lemma snapshot_default_tools:
  "map se_toolName (snapshotOf p (map fst toolHardCapPerTurn)) = map fst toolHardCapPerTurn"
  unfolding snapshotOf_tools by (simp add: filter_id_conv) (use default_tool_has_cap in force)

text \<open>
  A fractional override below one passes the code's positivity test and is rounded down to
  zero. The plan parser lets no such value through; the runtime's own test does.
\<close>

lemma fractional_override_disables_loop:
  "resolveLoopLimit Mode_normal (Some (\<lambda>_. Some (Fin (1 / 2)))) = 0"
  "resolvePerToolCap ''browser'' (Some [(''browser'', Some (Fin (1 / 2)))]) = Some 0"
  by (simp_all add: resolveLoopLimit_def resolvePerToolCap_def overrideFor_def finitePositive_def js_int_def floor_eq_iff)

text \<open>A free reservation of zero units is refunded as one unit.\<close>

lemma refund_of_zero_takes_one:
  assumes "observedToolCount p t = 1" "0 < loopLimit p"
  shows "observedToolCount (refund t (Fin 0) (snd (reserve t 0 (Fin 0) p))) t = 0"
  using assms by (simp add: reserve_def refund_def unitsOf_def finitePositive_def)

section \<open>Properties\<close>

text \<open>The per-tool cap holds over any sequence of reservations and refunds of a turn: the
  counter of a capped tool stays between zero and the cap, and the result units granted to
  it less the units refunded never exceed the cap.\<close>

theorem tool_cap_respected:
  assumes "resolvePerToolCap t caps = Some cap"
  shows "0 \<le> observedToolCount (runBudget ops (newToolBudget mode loops caps)) t \<and>
    observedToolCount (runBudget ops (newToolBudget mode loops caps)) t \<le> cap \<and>
    grantedUnits t ops (newToolBudget mode loops caps) - refundedUnits t ops \<le> cap"
proof -
  have cap: "perToolCap (newToolBudget mode loops caps) t = Some cap"
    using assms by (simp add: perToolCap_def newToolBudget_def)
  then show ?thesis
    using budget_run [OF cap, of ops] perToolCap_nonneg [OF cap] by auto
qed

text \<open>Two images are requested at a cap of one, then one image, refunded and requested again.\<close>

theorem tool_cap_respected_witness:
  "let ops = [Reserve ''image_generate'' 0 (Fin 2), Reserve ''image_generate'' 0 (Fin 1),
              Refund ''image_generate'' (Fin 1), Reserve ''image_generate'' 1 (Fin 1)];
       p = newToolBudget Mode_normal None None
   in observedToolCount (runBudget ops p) ''image_generate'' \<le> 1 \<and>
      grantedUnits ''image_generate'' ops p - refundedUnits ''image_generate'' ops \<le> 1"
  using tool_cap_respected [of "''image_generate''" None 1 "[Reserve ''image_generate'' 0 (Fin 2),
      Reserve ''image_generate'' 0 (Fin 1), Refund ''image_generate'' (Fin 1),
      Reserve ''image_generate'' 1 (Fin 1)]" Mode_normal None]
  by (simp add: resolvePerToolCap_def overrideFor_def toolHardCapPerTurn_def Let_def)

text \<open>A plan setting cannot switch the tool loop off. Whatever JSON is stored for a
  plan, the loop limit the runtime resolves from the lenient reading of it is at least one,
  and the iterations in which some call can be granted are exactly those below the limit.\<close>

theorem stored_budgets_keep_loop_open:
  "let overrides = Some (leafOf (resolveStoredPlanToolBudgets v))
   in 1 \<le> resolveLoopLimit mode overrides \<and>
      {i. \<exists>t u. fst (reserve t i u (newToolBudget mode overrides caps)) = NotExhausted}
        = {..< resolveLoopLimit mode overrides}"
proof -
  have leaf: "leafOf (resolveStoredPlanToolBudgets v) mode = Some x \<Longrightarrow> isInteger x \<and> js_less (Fin 0) x" for x
    by (cases mode)
       (auto simp: resolveStoredPlanToolBudgets_def createDefaultPlanToolBudgets_def
         toLooseNullablePositiveInt_def split: option.splits json.splits if_splits)
  have "1 \<le> resolveLoopLimit mode (Some (leafOf (resolveStoredPlanToolBudgets v)))"
  proof (cases "leafOf (resolveStoredPlanToolBudgets v) mode")
    case None
    then show ?thesis by (cases mode) (simp_all add: resolveLoopLimit_def)
  next
    case (Some x)
    with js_int_ge_one leaf show ?thesis
      by (cases mode) (auto simp: resolveLoopLimit_def)
  qed
  moreover have "(\<exists>t u. fst (reserve t i u p) = NotExhausted) \<longleftrightarrow> i < loopLimit p" for i p
  proof
    assume "\<exists>t u. fst (reserve t i u p) = NotExhausted"
    then obtain t u where "fst (reserve t i u p) = NotExhausted" by blast
    then show "i < loopLimit p" by (cases t i u p rule: reserve_cases) simp_all
  next
    assume "i < loopLimit p"
    then have "fst (reserve t i (Fin 0) p) = NotExhausted" for t by (simp add: reserve_def)
    then show "\<exists>t u. fst (reserve t i u p) = NotExhausted" by blast
  qed
  ultimately show ?thesis by (auto simp: Let_def loopLimit_def newToolBudget_def)
qed

text \<open>The snapshot is complete and exact. It lists every tool that has a cap, each
  once, with its resolved cap and its current count, the override map having one entry per
  key as a JavaScript map has.\<close>

theorem snapshot_complete:
  assumes "\<And>m. perToolCapOverrides p = Some m \<Longrightarrow> distinct (map fst m)"
  shows "distinct (map se_toolName (getSnapshot p)) \<and>
    set (map se_toolName (getSnapshot p)) = {t. perToolCap p t \<noteq> None} \<and>
    (\<forall>e \<in> set (getSnapshot p). perToolCap p (se_toolName e) = Some (se_perToolCap e) \<and>
       se_perToolUsed e = observedToolCount p (se_toolName e))"
proof (cases "perToolCapOverrides p")
  case None
  then have "map se_toolName (getSnapshot p) = map fst toolHardCapPerTurn"
    by (simp add: getSnapshot_def snapshot_default_tools)
  moreover have "{t. perToolCap p t \<noteq> None} = set (map fst toolHardCapPerTurn)"
  proof (rule set_eqI)
    fix t show "t \<in> {t. perToolCap p t \<noteq> None} \<longleftrightarrow> t \<in> set (map fst toolHardCapPerTurn)"
      using capped_tool_known [of p t] default_tool_has_cap [of t p] None by fastforce
  qed
  ultimately show ?thesis
    using None distinct_default_tools by (auto simp: getSnapshot_def dest: snapshotOf_entry)
next
  case (Some m)
  let ?extra = "filter (\<lambda>t. t \<notin> set (map fst toolHardCapPerTurn)) (map fst m)"
  have snap: "getSnapshot p = snapshotOf p (map fst toolHardCapPerTurn) @ snapshotOf p ?extra"
    unfolding getSnapshot_def Let_def Some snapshot_default_tools by simp
  have tools: "map se_toolName (getSnapshot p) =
      map fst toolHardCapPerTurn @ filter (\<lambda>t. perToolCap p t \<noteq> None) ?extra"
    by (simp only: snap map_append snapshot_default_tools snapshotOf_tools [of p ?extra])
  have "{t. perToolCap p t \<noteq> None} = set (map se_toolName (getSnapshot p))"
  proof (rule set_eqI)
    fix t
    have "t \<in> set (map fst m)" if "perToolCap p t \<noteq> None" "t \<notin> set (map fst toolHardCapPerTurn)"
      using capped_tool_known [OF that(1)] that(2) Some by (elim disjE exE) simp_all
    then show "t \<in> {t. perToolCap p t \<noteq> None} \<longleftrightarrow> t \<in> set (map se_toolName (getSnapshot p))"
      unfolding tools using default_tool_has_cap [of t p]
      by (cases "t \<in> set (map fst toolHardCapPerTurn)") (auto simp del: set_map)
  qed
  moreover have "distinct (map se_toolName (getSnapshot p))"
    unfolding tools using assms [OF Some] distinct_default_tools by auto
  moreover have "\<forall>e \<in> set (getSnapshot p). perToolCap p (se_toolName e) = Some (se_perToolCap e) \<and>
       se_perToolUsed e = observedToolCount p (se_toolName e)"
    using Some by (auto simp: getSnapshot_def Let_def dest: snapshotOf_entry)
  ultimately show ?thesis by simp
qed

theorem snapshot_complete_witness:
  "''crm_lookup'' \<in> set (map se_toolName (getSnapshot
     (newToolBudget Mode_normal None (Some [(''tts'', None), (''crm_lookup'', Some (Fin 2))]))))"
  using snapshot_complete [of "newToolBudget Mode_normal None (Some [(''tts'', None), (''crm_lookup'', Some (Fin 2))])"]
  by (auto simp: newToolBudget_def perToolCap_def resolvePerToolCap_def overrideFor_def finitePositive_def)

text \<open>Plan budgets survive storage. What the strict parser accepts for a plan is read
  back unchanged, by the lenient reader and by the strict parser, from the document the plan
  is stored as; and the lenient reader is idempotent on any stored JSON.\<close>

theorem plan_budgets_roundtrip:
  assumes "parsePlanToolBudgets v fieldName = Inr b"
  shows "resolveStoredPlanToolBudgets (toPlanToolBudgetsDocument b) = b \<and>
    parsePlanToolBudgets (toPlanToolBudgetsDocument b) fieldName = Inr b \<and>
    resolveStoredPlanToolBudgets (toPlanToolBudgetsDocument (resolveStoredPlanToolBudgets w))
      = resolveStoredPlanToolBudgets w"
proof -
  let ?good = "\<lambda>x. \<forall>n. x = Some n \<longrightarrow> isInteger n \<and> js_less (Fin 0) n"
  have loose: "?good (toLooseNullablePositiveInt j)" for j
    by (auto simp: toLooseNullablePositiveInt_def split: json.splits if_splits)
  have restored: "?good x \<Longrightarrow> toLooseNullablePositiveInt (jnullable x) = x \<and>
      parseNullablePositiveInt (jnullable x) f = Inr x" for x f
    by (cases x) (auto simp: toLooseNullablePositiveInt_def parseNullablePositiveInt_def jnullable_def)
  have accepted: "parseNullablePositiveInt j f = Inr x \<Longrightarrow> ?good x" for j f x
    by (auto simp: parseNullablePositiveInt_def split: json.splits if_splits)
  have good: "?good (ptb_normal b) \<and> ?good (ptb_premium b) \<and> ?good (ptb_reasoning b)"
    using assms
    by (auto simp: parsePlanToolBudgets_def createDefaultPlanToolBudgets_def
        split: if_splits option.splits sum.splits dest!: accepted)
  have stored: "resolveStoredPlanToolBudgets (toPlanToolBudgetsDocument c) = c"
    and again: "parsePlanToolBudgets (toPlanToolBudgetsDocument c) fieldName = Inr c"
    if "?good (ptb_normal c) \<and> ?good (ptb_premium c) \<and> ?good (ptb_reasoning c)" for c
    using that
    by (simp_all add: resolveStoredPlanToolBudgets_def parsePlanToolBudgets_def
        toPlanToolBudgetsDocument_def restored)
  have "?good (ptb_normal (resolveStoredPlanToolBudgets w)) \<and>
      ?good (ptb_premium (resolveStoredPlanToolBudgets w)) \<and>
      ?good (ptb_reasoning (resolveStoredPlanToolBudgets w))"
    using loose
    by (auto simp: resolveStoredPlanToolBudgets_def createDefaultPlanToolBudgets_def split: option.splits)
  with good stored again show ?thesis by blast
qed

theorem plan_budgets_roundtrip_witness:
  "\<exists>b. parsePlanToolBudgets (JObj [(''loopLimitByMode'', JObj [(''premium'', JNum (Fin 6))])]) ''f'' = Inr b \<and>
     ptb_premium b = Some (Fin 6) \<and> resolveStoredPlanToolBudgets (toPlanToolBudgetsDocument b) = b"
proof -
  have "parsePlanToolBudgets (JObj [(''loopLimitByMode'', JObj [(''premium'', JNum (Fin 6))])]) ''f''
      = Inr \<lparr>ptb_normal = None, ptb_premium = Some (Fin 6), ptb_reasoning = None\<rparr>"
    by (simp add: parsePlanToolBudgets_def parseNullablePositiveInt_def)
  then show ?thesis using plan_budgets_roundtrip by fastforce
qed

end
