(* ===== verification/Keyspace.thy ===== *)
theory Keyspace
  imports PersaiPrelude
begin

text \<open>
  Names of the keys in Redis
  (\<open>apps/runtime/src/modules/runtime-state/runtime-state-keyspace.service.ts\<close>).

  SHA-256 is \<open>node:crypto\<close>'s; it is the parameter \<open>sha\<close>. That two different inputs do
  not collide is the hypothesis \<open>inj sha\<close> where a property needs it.
  \<open>JSON.stringify\<close> of an array of strings is written out, with its escapes: it is what
  makes the hash input unambiguous.
\<close>

section \<open>\<open>JSON.stringify\<close> of a string array\<close>

definition hexDigit :: "nat \<Rightarrow> char" where
  "hexDigit n = (if n < 10 then char_of (48 + n) else char_of (87 + n))"

definition jsonEscape :: "char \<Rightarrow> string" where
  "jsonEscape c =
     (let n = (of_char c :: nat) in
      if n = 34 then [CHR 0x5C, CHR 0x22]
      else if n = 92 then [CHR 0x5C, CHR 0x5C]
      else if n = 8 then [CHR 0x5C, CHR ''b'']
      else if n = 12 then [CHR 0x5C, CHR ''f'']
      else if n = 10 then [CHR 0x5C, CHR ''n'']
      else if n = 13 then [CHR 0x5C, CHR ''r'']
      else if n = 9 then [CHR 0x5C, CHR ''t'']
      else if n < 32 then [CHR 0x5C, CHR ''u'', CHR ''0'', CHR ''0'', hexDigit (n div 16), hexDigit (n mod 16)]
      else [c])"

fun jsonChars :: "string \<Rightarrow> string" where
  "jsonChars [] = [CHR 0x22]"
| "jsonChars (c # cs) = jsonEscape c @ jsonChars cs"

definition jsonString :: "string \<Rightarrow> string" where
  "jsonString s = CHR 0x22 # jsonChars s"

fun jsonItems :: "string list \<Rightarrow> string" where
  "jsonItems [] = []"
| "jsonItems [x] = jsonString x"
| "jsonItems (x # xs) = jsonString x @ CHR '','' # jsonItems xs"

definition jsonStringArray :: "string list \<Rightarrow> string" where
  "jsonStringArray xs = CHR ''['' # jsonItems xs @ [CHR '']'']"

fun joinWith :: "string \<Rightarrow> string list \<Rightarrow> string" where
  "joinWith sep [] = []"
| "joinWith sep [x] = x"
| "joinWith sep (x # xs) = x @ sep @ joinWith sep xs"

section \<open>The service\<close>

record runtime_config =
  RUNTIME_STATE_REDIS_KEY_PREFIX :: string
  RUNTIME_SESSION_LEASE_TTL_SECONDS :: int
  RUNTIME_TURN_RECEIPT_TTL_SECONDS :: int
  RUNTIME_BUNDLE_MARKER_TTL_SECONDS :: int

text \<open>What the schema of the runtime configuration accepts: positive lifetimes.\<close>

definition configOk :: "runtime_config \<Rightarrow> bool" where
  "configOk cfg \<longleftrightarrow> 0 < RUNTIME_SESSION_LEASE_TTL_SECONDS cfg \<and>
     0 < RUNTIME_TURN_RECEIPT_TTL_SECONDS cfg \<and> 0 < RUNTIME_BUNDLE_MARKER_TTL_SECONDS cfg"

record keyspace =
  config :: runtime_config
  sha :: "string \<Rightarrow> string"

record conversation_address =
  ca_assistantId :: string
  ca_workspaceId :: string
  ca_channel :: string
  ca_externalThreadKey :: string
  ca_externalUserKey :: "string option"
  ca_mode :: string

record bundle_ref =
  br_assistantId :: string
  br_workspaceId :: string
  br_bundleId :: string
  br_publishedVersionId :: string
  br_bundleHash :: string
  br_compiledAt :: string

record keyspace_policy =
  kp_redisKeyPrefix :: string
  kp_sessionLeaseTtlSeconds :: int
  kp_turnInFlightTtlSeconds :: int
  kp_turnReceiptTtlSeconds :: int
  kp_bundleMarkerTtlSeconds :: int

definition buildKey :: "keyspace \<Rightarrow> string list \<Rightarrow> string" where
  "buildKey ks segments = joinWith '':'' (RUNTIME_STATE_REDIS_KEY_PREFIX (config ks) # segments)"

definition hashParts :: "keyspace \<Rightarrow> string list \<Rightarrow> string" where
  "hashParts ks parts = sha ks (jsonStringArray parts)"

definition createConversationKey :: "keyspace \<Rightarrow> conversation_address \<Rightarrow> string" where
  "createConversationKey ks a =
     hashParts ks [''conversation'', ca_assistantId a, ca_workspaceId a, ca_channel a,
       ca_externalThreadKey a, (case ca_externalUserKey a of Some u \<Rightarrow> u | None \<Rightarrow> []), ca_mode a]"

definition buildConversationSessionPointerKey :: "keyspace \<Rightarrow> conversation_address \<Rightarrow> string" where
  "buildConversationSessionPointerKey ks a =
     buildKey ks [''conversation'', createConversationKey ks a, ''session'']"

definition buildSessionLeaseKey :: "keyspace \<Rightarrow> string \<Rightarrow> string" where
  "buildSessionLeaseKey ks sessionId = buildKey ks [''session'', sessionId, ''lease'']"

definition buildTurnReceiptKeyFromConversationKey :: "keyspace \<Rightarrow> string \<Rightarrow> string \<Rightarrow> string" where
  "buildTurnReceiptKeyFromConversationKey ks conversationKey idempotencyKey =
     buildKey ks [''turn_receipt'', hashParts ks [''turn_receipt'', conversationKey, idempotencyKey]]"

definition buildTurnReceiptKey :: "keyspace \<Rightarrow> conversation_address \<Rightarrow> string \<Rightarrow> string" where
  "buildTurnReceiptKey ks conv idempotencyKey =
     buildTurnReceiptKeyFromConversationKey ks (createConversationKey ks conv) idempotencyKey"

definition buildTurnInFlightKeyFromConversationKey :: "keyspace \<Rightarrow> string \<Rightarrow> string \<Rightarrow> string" where
  "buildTurnInFlightKeyFromConversationKey ks conversationKey idempotencyKey =
     buildKey ks [''turn_inflight'', hashParts ks [''turn_inflight'', conversationKey, idempotencyKey]]"

definition buildTurnInFlightKey :: "keyspace \<Rightarrow> conversation_address \<Rightarrow> string \<Rightarrow> string" where
  "buildTurnInFlightKey ks conv idempotencyKey =
     buildTurnInFlightKeyFromConversationKey ks (createConversationKey ks conv) idempotencyKey"

definition buildBundleMarkerKey :: "keyspace \<Rightarrow> bundle_ref \<Rightarrow> string" where
  "buildBundleMarkerKey ks b =
     buildKey ks [''bundle_marker'', hashParts ks [''bundle_marker'', br_assistantId b,
       br_workspaceId b, br_publishedVersionId b, br_bundleHash b]]"

definition buildAssistantBundleMarkerSetKey :: "keyspace \<Rightarrow> string \<Rightarrow> string" where
  "buildAssistantBundleMarkerSetKey ks assistantId =
     buildKey ks [''assistant'', assistantId, ''bundle_markers'']"

definition getPolicySnapshot :: "keyspace \<Rightarrow> keyspace_policy" where
  "getPolicySnapshot ks =
     \<lparr>kp_redisKeyPrefix = RUNTIME_STATE_REDIS_KEY_PREFIX (config ks),
      kp_sessionLeaseTtlSeconds = RUNTIME_SESSION_LEASE_TTL_SECONDS (config ks),
      kp_turnInFlightTtlSeconds = RUNTIME_SESSION_LEASE_TTL_SECONDS (config ks),
      kp_turnReceiptTtlSeconds = RUNTIME_TURN_RECEIPT_TTL_SECONDS (config ks),
      kp_bundleMarkerTtlSeconds = RUNTIME_BUNDLE_MARKER_TTL_SECONDS (config ks)\<rparr>"

section \<open>The hash input is unambiguous\<close>

text \<open>An escaped character is read back, whatever follows it.\<close>

definition hexVal :: "char \<Rightarrow> nat" where
  "hexVal h = (if of_char h < (58 :: nat) then of_char h - 48 else of_char h - 87)"

definition shortVal :: "char \<Rightarrow> nat" where
  "shortVal e =
     (if e = CHR ''b'' then 8 else if e = CHR ''f'' then 12 else if e = CHR ''n'' then 10
      else if e = CHR ''r'' then 13 else if e = CHR ''t'' then 9 else of_char e)"

fun unescape :: "string \<Rightarrow> char \<times> string" where
  "unescape (x # e # r) =
     (if x \<noteq> CHR 0x5C then (x, e # r)
      else if e = CHR ''u'' then (char_of (16 * hexVal (r ! 2) + hexVal (r ! 3)), drop 4 r)
      else (char_of (shortVal e), r))"
| "unescape [x] = (x, [])"
| "unescape [] = (CHR ''?'', [])"

lemma hexVal_hexDigit: "n < 16 \<Longrightarrow> hexVal (hexDigit n) = n"
  by (auto simp: hexVal_def hexDigit_def take_bit_eq_mod)

lemma char_of_code: "(of_char c :: nat) = n \<Longrightarrow> char_of n = c"
  by auto

lemma unescape_plain: "x \<noteq> CHR 0x5C \<Longrightarrow> unescape (x # r) = (x, r)"
  by (cases r) simp_all

lemma unescape_escape: "unescape (jsonEscape c @ x) = (c, x)"
proof -
  let ?n = "of_char c :: nat"
  consider "?n \<in> {34, 92, 8, 12, 10, 13, 9}" | "?n \<notin> {34, 92, 8, 12, 10, 13, 9}" "?n < 32"
    | "?n \<notin> {34, 92, 8, 12, 10, 13, 9}" "\<not> ?n < 32" by blast
  then show ?thesis
  proof cases
    case 1
    then show ?thesis
      by (auto simp: jsonEscape_def Let_def shortVal_def char_of_code)
  next
    case 2
    have "?n div 16 < 16" "?n mod 16 < 16" "16 * (?n div 16) + ?n mod 16 = ?n"
      using 2(2) by simp_all
    with 2 show ?thesis
      by (simp add: jsonEscape_def Let_def hexVal_hexDigit)
  next
    case 3
    then have "c \<noteq> CHR 0x5C" by auto
    with 3 show ?thesis by (simp add: jsonEscape_def Let_def unescape_plain)
  qed
qed

lemma jsonEscape_hd: "\<exists>a as. jsonEscape c = a # as \<and> a \<noteq> CHR 0x22"
proof (cases "(of_char c :: nat) = 34")
  case False
  then have "c \<noteq> CHR 0x22" by auto
  then show ?thesis by (simp add: jsonEscape_def Let_def)
qed (simp add: jsonEscape_def)

lemma jsonEscape_prefix_free:
  assumes "jsonEscape c @ x = jsonEscape d @ y"
  shows "c = d \<and> x = y"
proof -
  from assms have "unescape (jsonEscape c @ x) = unescape (jsonEscape d @ y)" by (rule arg_cong)
  then show ?thesis unfolding unescape_escape by simp
qed

lemma jsonChars_prefix_free: "jsonChars s @ x = jsonChars t @ y \<Longrightarrow> s = t \<and> x = y"
proof (induction s arbitrary: t)
  case Nil
  show ?case
  proof (cases t)
    case (Cons d t')
    obtain a as where hd: "jsonEscape d = a # as" "a \<noteq> CHR 0x22" using jsonEscape_hd by blast
    show ?thesis using Nil hd(2) unfolding Cons jsonChars.simps hd(1) append_Cons append_assoc list.inject by blast
  qed (use Nil in simp)
next
  case (Cons c s)
  show ?case
  proof (cases t)
    case Nil
    obtain a as where hd: "jsonEscape c = a # as" "a \<noteq> CHR 0x22" using jsonEscape_hd by blast
    show ?thesis using Cons.prems hd(2) unfolding Nil jsonChars.simps hd(1) append_Cons append_assoc list.inject by blast
  next
    case (Cons d t')
    with Cons.prems have "jsonEscape c @ (jsonChars s @ x) = jsonEscape d @ (jsonChars t' @ y)" by simp
    from jsonEscape_prefix_free [OF this] Cons.IH [of t'] Cons show ?thesis by simp
  qed
qed

lemma jsonString_prefix_free: "jsonString s @ x = jsonString t @ y \<Longrightarrow> s = t \<and> x = y"
  unfolding jsonString_def append_Cons list.inject by (blast dest: jsonChars_prefix_free)

lemma jsonItems_Cons:
  "jsonItems (x # xs) = jsonString x @ (if xs = [] then [] else CHR '','' # jsonItems xs)"
  by (cases xs) simp_all

lemma jsonItems_prefix_free:
  "jsonItems xs @ CHR '']'' # u = jsonItems ys @ CHR '']'' # v \<Longrightarrow> xs = ys"
proof (induction xs arbitrary: ys)
  case Nil
  then show ?case by (cases ys) (auto simp: jsonItems_Cons jsonString_def)
next
  case (Cons x xs)
  show ?case
  proof (cases ys)
    case Nil
    with Cons.prems show ?thesis by (auto simp: jsonItems_Cons jsonString_def)
  next
    case (Cons y ys')
    have "x = y \<and> (if xs = [] then [] else CHR '','' # jsonItems xs) @ CHR '']'' # u
        = (if ys' = [] then [] else CHR '','' # jsonItems ys') @ CHR '']'' # v"
      using Cons.prems unfolding Cons jsonItems_Cons append_assoc by (rule jsonString_prefix_free)
    with Cons.IH [of ys'] Cons show ?thesis by (auto split: if_splits)
  qed
qed

lemma jsonStringArray_inject [simp]: "jsonStringArray xs = jsonStringArray ys \<longleftrightarrow> xs = ys"
  using jsonItems_prefix_free [of xs "[]" ys "[]"] by (auto simp: jsonStringArray_def)

lemma hashParts_inject: "inj (sha ks) \<Longrightarrow> hashParts ks xs = hashParts ks ys \<longleftrightarrow> xs = ys"
  by (simp add: hashParts_def inj_eq)

section \<open>Keys of different kinds or subjects differ\<close>

lemmas key_defs =
  buildConversationSessionPointerKey_def buildSessionLeaseKey_def
  buildTurnReceiptKey_def buildTurnReceiptKeyFromConversationKey_def
  buildTurnInFlightKey_def buildTurnInFlightKeyFromConversationKey_def
  buildBundleMarkerKey_def buildAssistantBundleMarkerSetKey_def buildKey_def

lemma lease_key_inject [simp]: "buildSessionLeaseKey ks s = buildSessionLeaseKey ks t \<longleftrightarrow> s = t"
  by (simp add: key_defs)

lemma bundle_set_key_inject [simp]:
  "buildAssistantBundleMarkerSetKey ks a = buildAssistantBundleMarkerSetKey ks b \<longleftrightarrow> a = b"
  by (simp add: key_defs)

lemma key_kinds_differ [simp]:
  "buildSessionLeaseKey ks s \<noteq> buildTurnInFlightKey ks c i"
  "buildSessionLeaseKey ks s \<noteq> buildTurnReceiptKey ks c i"
  "buildSessionLeaseKey ks s \<noteq> buildConversationSessionPointerKey ks c"
  "buildSessionLeaseKey ks s \<noteq> buildBundleMarkerKey ks b"
  "buildSessionLeaseKey ks s \<noteq> buildAssistantBundleMarkerSetKey ks a"
  "buildTurnInFlightKey ks c i \<noteq> buildTurnReceiptKey ks c' i'"
  "buildTurnInFlightKey ks c i \<noteq> buildConversationSessionPointerKey ks c'"
  "buildTurnInFlightKey ks c i \<noteq> buildBundleMarkerKey ks b"
  "buildTurnInFlightKey ks c i \<noteq> buildAssistantBundleMarkerSetKey ks a"
  "buildTurnReceiptKey ks c i \<noteq> buildConversationSessionPointerKey ks c'"
  "buildTurnReceiptKey ks c i \<noteq> buildBundleMarkerKey ks b"
  "buildTurnReceiptKey ks c i \<noteq> buildAssistantBundleMarkerSetKey ks a"
  "buildConversationSessionPointerKey ks c \<noteq> buildBundleMarkerKey ks b"
  "buildConversationSessionPointerKey ks c \<noteq> buildAssistantBundleMarkerSetKey ks a"
  "buildBundleMarkerKey ks b \<noteq> buildAssistantBundleMarkerSetKey ks a"
  by (simp_all add: key_defs)

lemmas key_kinds_differ_sym [simp] = key_kinds_differ [symmetric]

text \<open>A conversation address up to the identification of no user key with an empty one.\<close>

definition sameConversation :: "conversation_address \<Rightarrow> conversation_address \<Rightarrow> bool" where
  "sameConversation a b \<longleftrightarrow>
     ca_assistantId a = ca_assistantId b \<and> ca_workspaceId a = ca_workspaceId b \<and>
     ca_channel a = ca_channel b \<and> ca_externalThreadKey a = ca_externalThreadKey b \<and>
     (case ca_externalUserKey a of Some u \<Rightarrow> u | None \<Rightarrow> []) =
     (case ca_externalUserKey b of Some u \<Rightarrow> u | None \<Rightarrow> []) \<and> ca_mode a = ca_mode b"

lemma conversation_key_iff:
  "inj (sha ks) \<Longrightarrow> createConversationKey ks a = createConversationKey ks b \<longleftrightarrow> sameConversation a b"
  by (auto simp: createConversationKey_def hashParts_inject sameConversation_def)

lemma inflight_key_iff:
  "inj (sha ks) \<Longrightarrow> buildTurnInFlightKey ks a i = buildTurnInFlightKey ks b j \<longleftrightarrow>
     sameConversation a b \<and> i = j"
  by (auto simp: key_defs hashParts_inject conversation_key_iff)

lemma receipt_key_iff:
  "inj (sha ks) \<Longrightarrow> buildTurnReceiptKey ks a i = buildTurnReceiptKey ks b j \<longleftrightarrow>
     sameConversation a b \<and> i = j"
  by (auto simp: key_defs hashParts_inject conversation_key_iff)

lemma pointer_key_iff:
  "inj (sha ks) \<Longrightarrow> buildConversationSessionPointerKey ks a = buildConversationSessionPointerKey ks b \<longleftrightarrow>
     sameConversation a b"
  by (simp add: key_defs conversation_key_iff)

lemma marker_key_iff:
  "inj (sha ks) \<Longrightarrow> buildBundleMarkerKey ks b = buildBundleMarkerKey ks c \<longleftrightarrow>
     br_assistantId b = br_assistantId c \<and> br_workspaceId b = br_workspaceId c \<and>
     br_publishedVersionId b = br_publishedVersionId c \<and> br_bundleHash b = br_bundleHash c"
  by (auto simp: key_defs hashParts_inject)

section \<open>Properties\<close>

text \<open>Keys identify turns. Unless the hash collides, two turns share the in-flight key (and
  the receipt key) exactly when they have the same conversation, a missing user key counting as
  the empty one, and the same idempotency key, whatever characters the ids contain; and the
  in-flight key of a turn is never its receipt key or the lease key of a session.\<close>

theorem turn_keys_unambiguous:
  assumes "inj (sha ks)"
  shows "(buildTurnInFlightKey ks a i = buildTurnInFlightKey ks b j \<longleftrightarrow> sameConversation a b \<and> i = j) \<and>
    (buildTurnReceiptKey ks a i = buildTurnReceiptKey ks b j \<longleftrightarrow> sameConversation a b \<and> i = j) \<and>
    buildTurnInFlightKey ks a i \<noteq> buildTurnReceiptKey ks b j \<and>
    buildTurnInFlightKey ks a i \<noteq> buildSessionLeaseKey ks s"
  using assms by (simp add: inflight_key_iff receipt_key_iff)

text \<open>With the identity as hash: quotes and separators inside ids do not confuse two turns.\<close>

definition demoKeyspace :: keyspace where
  "demoKeyspace = \<lparr>config = \<lparr>RUNTIME_STATE_REDIS_KEY_PREFIX = ''p'',
     RUNTIME_SESSION_LEASE_TTL_SECONDS = 30, RUNTIME_TURN_RECEIPT_TTL_SECONDS = 86400,
     RUNTIME_BUNDLE_MARKER_TTL_SECONDS = 604800\<rparr>, sha = (\<lambda>x. x)\<rparr>"

definition demoConversation :: conversation_address where
  "demoConversation = \<lparr>ca_assistantId = ''a'', ca_workspaceId = ''w'', ca_channel = ''web'',
     ca_externalThreadKey = ''t'', ca_externalUserKey = None, ca_mode = ''direct''\<rparr>"

theorem turn_keys_unambiguous_witness:
  "buildTurnInFlightKey demoKeyspace demoConversation ''x'' \<noteq>
   buildTurnInFlightKey demoKeyspace (demoConversation\<lparr>ca_assistantId := ''a,w'', ca_workspaceId := []\<rparr>) ''x''"
  using turn_keys_unambiguous [of demoKeyspace demoConversation "''x''"
      "demoConversation\<lparr>ca_assistantId := ''a,w'', ca_workspaceId := []\<rparr>" "''x''"]
  by (simp add: demoKeyspace_def demoConversation_def sameConversation_def inj_on_def)

end
