(* ===== verification/RedisState.thy ===== *)
theory RedisState
  imports Keyspace
begin

text \<open>
  The runtime's coordination state in Redis
  (\<open>apps/runtime/src/modules/runtime-state/infrastructure/coordination/runtime-state-redis.service.ts\<close>).

  Redis is the map \<open>entries\<close> from keys to a value and the instant it expires, read through
  \<open>live\<close>. The commands the service sends are defined as Redis documents them, the two Lua
  scripts line by line. Every command is one \<open>command\<close>: the oracle \<open>faults\<close> decides per
  call whether it fails before it took effect or after it (a lost reply); both reach the caller
  as an exception. \<open>connected\<close> is the cached client promise. Instants are milliseconds.
\<close>

section \<open>Redis\<close>

datatype redis_value = RString string | RSet "string list"

record redis =
  clock :: int
  entries :: "string \<rightharpoonup> redis_value \<times> int option"
  connected :: bool
  callCount :: nat
  faults :: "nat \<Rightarrow> fault"

definition live :: "redis \<Rightarrow> string \<Rightarrow> redis_value option" where
  "live s k =
     (case entries s k of
        Some (v, Some e) \<Rightarrow> if clock s \<le> e then Some v else None
      | Some (v, None) \<Rightarrow> Some v
      | None \<Rightarrow> None)"

definition setEntry :: "string \<Rightarrow> redis_value \<Rightarrow> int option \<Rightarrow> redis \<Rightarrow> redis" where
  "setEntry k v e s = s\<lparr>entries := (entries s)(k \<mapsto> (v, e))\<rparr>"

definition delEntry :: "string \<Rightarrow> redis \<Rightarrow> redis" where
  "delEntry k s = s\<lparr>entries := (entries s)(k := None)\<rparr>"

definition command :: "(redis, 'a) oper \<Rightarrow> (redis, 'a) oper" where
  "command f s =
     (let s1 = s\<lparr>callCount := Suc (callCount s)\<rparr> in
      case faults s (callCount s) of
        NoFault \<Rightarrow> f s1
      | FailBefore \<Rightarrow> (Inl RedisFailure, s1)
      | FailAfter \<Rightarrow> (Inl RedisFailure, snd (f s1)))"

text \<open>Redis refuses a string command on a set and conversely, and a lifetime that is not positive.\<close>

definition cmdGet :: "string \<Rightarrow> (redis, string option) oper" where
  "cmdGet k s =
     (case live s k of
        None \<Rightarrow> (Inr None, s)
      | Some (RString v) \<Rightarrow> (Inr (Some v), s)
      | Some (RSet _) \<Rightarrow> (Inl RedisFailure, s))"

definition cmdSetEx :: "string \<Rightarrow> string \<Rightarrow> int \<Rightarrow> bool \<Rightarrow> (redis, string option) oper" where
  "cmdSetEx k v seconds nx s =
     (if seconds \<le> 0 then (Inl RedisFailure, s)
      else if nx \<and> live s k \<noteq> None then (Inr None, s)
      else (Inr (Some ''OK''), setEntry k (RString v) (Some (clock s + 1000 * seconds)) s))"

definition cmdDel :: "string \<Rightarrow> (redis, int) oper" where
  "cmdDel k s = (Inr (if live s k \<noteq> None then 1 else 0), delEntry k s)"

definition cmdExpire :: "string \<Rightarrow> int \<Rightarrow> (redis, int) oper" where
  "cmdExpire k seconds s =
     (case live s k of
        None \<Rightarrow> (Inr 0, s)
      | Some v \<Rightarrow>
          (Inr 1, if seconds \<le> 0 then delEntry k s
                  else setEntry k v (Some (clock s + 1000 * seconds)) s))"

fun addMembers :: "string list \<Rightarrow> string list \<Rightarrow> string list" where
  "addMembers [] xs = xs"
| "addMembers (m # ms) xs = addMembers ms (if m \<in> set xs then xs else xs @ [m])"

definition expiryOf :: "redis \<Rightarrow> string \<Rightarrow> int option" where
  "expiryOf s k = (case entries s k of Some (_, e) \<Rightarrow> e | None \<Rightarrow> None)"

definition cmdSAdd :: "string \<Rightarrow> string list \<Rightarrow> (redis, int) oper" where
  "cmdSAdd k ms s =
     (case live s k of
        None \<Rightarrow> (Inr (int (length (addMembers ms []))), setEntry k (RSet (addMembers ms [])) None s)
      | Some (RSet xs) \<Rightarrow>
          (Inr (int (length (addMembers ms xs)) - int (length xs)),
           setEntry k (RSet (addMembers ms xs)) (expiryOf s k) s)
      | Some (RString _) \<Rightarrow> (Inl RedisFailure, s))"

definition cmdSMembers :: "string \<Rightarrow> (redis, string list) oper" where
  "cmdSMembers k s =
     (case live s k of
        None \<Rightarrow> (Inr [], s)
      | Some (RSet xs) \<Rightarrow> (Inr xs, s)
      | Some (RString _) \<Rightarrow> (Inl RedisFailure, s))"

text \<open>The two Lua scripts; Redis runs a script without interleaving other commands.\<close>

definition evalRenew :: "string \<Rightarrow> string \<Rightarrow> int \<Rightarrow> (redis, int) oper" where
  "evalRenew leaseKey ownerToken seconds s =
     bindS (cmdGet leaseKey)
       (\<lambda>v. if v = Some ownerToken then cmdExpire leaseKey seconds else returnS 0) s"

definition evalClaim :: "string \<Rightarrow> string \<Rightarrow> string \<Rightarrow> string \<Rightarrow> int \<Rightarrow> (redis, int) oper" where
  "evalClaim leaseKey inFlightKey ownerToken requestId seconds s =
     bindS (cmdGet inFlightKey)
       (\<lambda>v. if v \<noteq> None then returnS 1
            else bindS (cmdSetEx leaseKey ownerToken seconds True)
              (\<lambda>r. if r \<noteq> None
                   then bindS (cmdSetEx inFlightKey requestId seconds False) (\<lambda>_. returnS 2)
                   else returnS 0)) s"

section \<open>The service\<close>

text \<open>\<open>getClient\<close>: connecting is one more call that can fail; a failure is not cached.\<close>

definition getClient :: "(redis, unit) oper" where
  "getClient s =
     (if connected s then (Inr (), s)
      else if faults s (callCount s) = NoFault
      then (Inr (), s\<lparr>connected := True, callCount := Suc (callCount s)\<rparr>)
      else (Inl RedisFailure, s\<lparr>callCount := Suc (callCount s)\<rparr>))"

definition onModuleDestroy :: "(redis, unit) oper" where
  "onModuleDestroy s =
     (if connected s then command (\<lambda>s. (Inr (), s)) s else (Inr (), s))"

definition withClient :: "(redis, 'a) oper \<Rightarrow> (redis, 'a) oper" where
  "withClient m = bindS getClient (\<lambda>_. m)"

definition setConversationSessionPointer ::
  "keyspace \<Rightarrow> conversation_address \<Rightarrow> string \<Rightarrow> (redis, unit) oper" where
  "setConversationSessionPointer ks address sessionId =
     withClient (bindS
       (command (cmdSetEx (buildConversationSessionPointerKey ks address) sessionId
          (RUNTIME_SESSION_LEASE_TTL_SECONDS (config ks)) False)) (\<lambda>_. returnS ()))"

definition getConversationSessionPointer ::
  "keyspace \<Rightarrow> conversation_address \<Rightarrow> (redis, string option) oper" where
  "getConversationSessionPointer ks address =
     withClient (command (cmdGet (buildConversationSessionPointerKey ks address)))"

definition clearConversationSessionPointer ::
  "keyspace \<Rightarrow> conversation_address \<Rightarrow> (redis, unit) oper" where
  "clearConversationSessionPointer ks address =
     withClient (bindS (command (cmdDel (buildConversationSessionPointerKey ks address))) (\<lambda>_. returnS ()))"

definition tryAcquireSessionLease :: "keyspace \<Rightarrow> string \<Rightarrow> string \<Rightarrow> (redis, bool) oper" where
  "tryAcquireSessionLease ks sessionId ownerToken =
     withClient (bindS
       (command (cmdSetEx (buildSessionLeaseKey ks sessionId) ownerToken
          (RUNTIME_SESSION_LEASE_TTL_SECONDS (config ks)) True))
       (\<lambda>r. returnS (r = Some ''OK'')))"

definition renewSessionLease :: "keyspace \<Rightarrow> string \<Rightarrow> string \<Rightarrow> (redis, bool) oper" where
  "renewSessionLease ks sessionId ownerToken =
     withClient (bindS
       (command (evalRenew (buildSessionLeaseKey ks sessionId) ownerToken
          (RUNTIME_SESSION_LEASE_TTL_SECONDS (config ks))))
       (\<lambda>r. returnS (r = 1)))"

definition hasSessionLease :: "keyspace \<Rightarrow> string \<Rightarrow> (redis, bool) oper" where
  "hasSessionLease ks sessionId =
     withClient (bindS (command (cmdGet (buildSessionLeaseKey ks sessionId))) (\<lambda>raw. returnS (raw \<noteq> None)))"

datatype claim_outcome = Claim_acquired | Claim_busy | Claim_in_flight

definition claimAcceptedTurnInFlight ::
  "keyspace \<Rightarrow> string \<Rightarrow> string \<Rightarrow> conversation_address \<Rightarrow> string \<Rightarrow> string \<Rightarrow> (redis, claim_outcome) oper" where
  "claimAcceptedTurnInFlight ks sessionId ownerToken conv idempotencyKey requestId =
     withClient (bindS
       (command (evalClaim (buildSessionLeaseKey ks sessionId) (buildTurnInFlightKey ks conv idempotencyKey)
          ownerToken requestId (RUNTIME_SESSION_LEASE_TTL_SECONDS (config ks))))
       (\<lambda>claimed. returnS
          (if claimed = 2 then Claim_acquired else if claimed = 1 then Claim_in_flight else Claim_busy)))"

text \<open>
  \<open>releaseSessionLease\<close>: a GET and then a DEL, two commands with an await between them.
  \<open>releaseRead\<close> and \<open>releaseDelete\<close> are the two halves.
\<close>

definition releaseRead :: "keyspace \<Rightarrow> string \<Rightarrow> string \<Rightarrow> (redis, bool) oper" where
  "releaseRead ks sessionId ownerToken =
     bindS (command (cmdGet (buildSessionLeaseKey ks sessionId)))
       (\<lambda>currentOwner. returnS (currentOwner = Some ownerToken))"

definition releaseDelete :: "keyspace \<Rightarrow> string \<Rightarrow> (redis, bool) oper" where
  "releaseDelete ks sessionId =
     bindS (command (cmdDel (buildSessionLeaseKey ks sessionId))) (\<lambda>deleted. returnS (deleted > 0))"

definition releaseSessionLease :: "keyspace \<Rightarrow> string \<Rightarrow> string \<Rightarrow> (redis, bool) oper" where
  "releaseSessionLease ks sessionId ownerToken =
     withClient (bindS (releaseRead ks sessionId ownerToken)
       (\<lambda>mine. if mine then releaseDelete ks sessionId else returnS False))"

definition readTurnInFlightMarker ::
  "keyspace \<Rightarrow> conversation_address \<Rightarrow> string \<Rightarrow> (redis, string option) oper" where
  "readTurnInFlightMarker ks conv idempotencyKey =
     withClient (command (cmdGet (buildTurnInFlightKey ks conv idempotencyKey)))"

definition clearTurnInFlightMarker ::
  "keyspace \<Rightarrow> conversation_address \<Rightarrow> string \<Rightarrow> (redis, unit) oper" where
  "clearTurnInFlightMarker ks conv idempotencyKey =
     withClient (bindS (command (cmdDel (buildTurnInFlightKey ks conv idempotencyKey))) (\<lambda>_. returnS ()))"

definition writeTurnReceiptMarker ::
  "keyspace \<Rightarrow> conversation_address \<Rightarrow> string \<Rightarrow> string \<Rightarrow> (redis, unit) oper" where
  "writeTurnReceiptMarker ks conv idempotencyKey requestId =
     withClient (bindS
       (command (cmdSetEx (buildTurnReceiptKey ks conv idempotencyKey) requestId
          (RUNTIME_TURN_RECEIPT_TTL_SECONDS (config ks)) False)) (\<lambda>_. returnS ()))"

definition readTurnReceiptMarker ::
  "keyspace \<Rightarrow> conversation_address \<Rightarrow> string \<Rightarrow> (redis, string option) oper" where
  "readTurnReceiptMarker ks conv idempotencyKey =
     withClient (command (cmdGet (buildTurnReceiptKey ks conv idempotencyKey)))"

section \<open>Bundle markers\<close>

definition encodeAssistantBundleMarkerMember :: "string \<Rightarrow> string \<Rightarrow> string" where
  "encodeAssistantBundleMarkerMember publishedVersionId markerKey =
     publishedVersionId @ CHR ''|'' # markerKey"

text \<open>\<open>indexOf("|")\<close> and the two slices.\<close>

definition decodeAssistantBundleMarkerMember :: "string \<Rightarrow> string \<times> string" where
  "decodeAssistantBundleMarkerMember v =
     (if CHR ''|'' \<notin> set v then ([], v)
      else (takeWhile (\<lambda>c. c \<noteq> CHR ''|'') v, tl (dropWhile (\<lambda>c. c \<noteq> CHR ''|'') v)))"

definition markBundleWarm :: "keyspace \<Rightarrow> bundle_ref \<Rightarrow> (redis, unit) oper" where
  "markBundleWarm ks b =
     (let markerKey = buildBundleMarkerKey ks b;
          setKey = buildAssistantBundleMarkerSetKey ks (br_assistantId b);
          ttl = RUNTIME_BUNDLE_MARKER_TTL_SECONDS (config ks)
      in withClient (bindS (command (cmdSetEx markerKey (br_bundleHash b) ttl False)) (\<lambda>_.
           bindS (command (cmdSAdd setKey
                    [encodeAssistantBundleMarkerMember (br_publishedVersionId b) markerKey])) (\<lambda>_.
           bindS (command (cmdExpire setKey ttl)) (\<lambda>_. returnS ())))))"

definition isBundleWarm :: "keyspace \<Rightarrow> bundle_ref \<Rightarrow> (redis, bool) oper" where
  "isBundleWarm ks b =
     withClient (bindS (command (cmdGet (buildBundleMarkerKey ks b))) (\<lambda>v. returnS (v \<noteq> None)))"

definition shouldInvalidate :: "string option \<Rightarrow> string \<Rightarrow> bool" where
  "shouldInvalidate versionId member =
     (case versionId of
        None \<Rightarrow> True
      | Some v \<Rightarrow> fst (decodeAssistantBundleMarkerMember member) = v)"

text \<open>The loop over the members: the survivors and the number of markers deleted.\<close>

fun invalidateLoop :: "string option \<Rightarrow> string list \<Rightarrow> string list \<Rightarrow> int \<Rightarrow> (redis, string list \<times> int) oper" where
  "invalidateLoop versionId [] survivors n = returnS (survivors, n)"
| "invalidateLoop versionId (m # ms) survivors n =
     (if \<not> shouldInvalidate versionId m then invalidateLoop versionId ms (survivors @ [m]) n
      else bindS (command (cmdDel (snd (decodeAssistantBundleMarkerMember m))))
        (\<lambda>deleted. invalidateLoop versionId ms survivors (if deleted > 0 then n + 1 else n)))"

definition invalidateBundleMarkers :: "keyspace \<Rightarrow> string \<Rightarrow> string option \<Rightarrow> (redis, int) oper" where
  "invalidateBundleMarkers ks assistantId versionId =
     (let setKey = buildAssistantBundleMarkerSetKey ks assistantId in
      withClient (bindS (command (cmdSMembers setKey)) (\<lambda>members.
        if members = [] then returnS 0
        else bindS (invalidateLoop versionId members [] 0) (\<lambda>(survivors, n).
             bindS (command (cmdDel setKey)) (\<lambda>_.
             if survivors = [] then returnS n
             else bindS (command (cmdSAdd setKey survivors)) (\<lambda>_.
                  bindS (command (cmdExpire setKey (RUNTIME_BUNDLE_MARKER_TTL_SECONDS (config ks)))) (\<lambda>_.
                  returnS n)))))))"

section \<open>What a command can do\<close>

lemmas redis_ops = live_def setEntry_def delEntry_def

text \<open>
  \<open>touches m K\<close>: the operation leaves the clock, the fault oracle and every entry whose key
  is not in \<open>K\<close> alone.
\<close>

definition touches :: "(redis, 'a) oper \<Rightarrow> string set \<Rightarrow> bool" where
  "touches m K \<longleftrightarrow> (\<forall>s. clock (snd (m s)) = clock s \<and> faults (snd (m s)) = faults s \<and>
     (\<forall>k. k \<notin> K \<longrightarrow> entries (snd (m s)) k = entries s k))"

lemma touchesD:
  "touches m K \<Longrightarrow> m s = (r, t) \<Longrightarrow> clock t = clock s \<and> faults t = faults s \<and> (\<forall>k. k \<notin> K \<longrightarrow> entries t k = entries s k)"
  by (metis snd_conv touches_def)

lemma touches_mono: "touches m K \<Longrightarrow> K \<subseteq> L \<Longrightarrow> touches m L"
  by (auto simp: touches_def)

lemma touches_return [simp]: "touches (returnS a) K"
  by (simp add: touches_def)

lemma touches_bind [intro]:
  "touches m K \<Longrightarrow> (\<And>a. touches (f a) K) \<Longrightarrow> touches (bindS m f) K"
  by (auto simp: touches_def bindS_def split: prod.splits sum.splits; metis snd_conv)

lemma touches_command [intro]: "touches m K \<Longrightarrow> touches (command m) K"
  by (auto simp: touches_def command_def Let_def split: fault.splits)

lemma touches_client [intro]: "touches m K \<Longrightarrow> touches (withClient m) K"
  unfolding withClient_def by (intro touches_bind) (auto simp: touches_def getClient_def)

lemma touches_if [intro]: "touches a K \<Longrightarrow> touches b K \<Longrightarrow> touches (if c then a else b) K"
  by simp

lemma touches_guard [intro]: "touches m K \<Longrightarrow> touches (guardS g m) K"
  by (cases g) (auto simp: touches_def)

lemma touches_commands [intro]:
  "touches (cmdGet k) K" "touches (cmdSMembers k) K"
  "k \<in> K \<Longrightarrow> touches (cmdSetEx k v n nx) K" "k \<in> K \<Longrightarrow> touches (cmdDel k) K"
  "k \<in> K \<Longrightarrow> touches (cmdExpire k n) K" "k \<in> K \<Longrightarrow> touches (cmdSAdd k ms) K"
  by (auto simp: touches_def cmdGet_def cmdSMembers_def cmdSetEx_def cmdDel_def cmdExpire_def
      cmdSAdd_def setEntry_def delEntry_def split: option.splits redis_value.splits)

text \<open>The keys each service operation can write.\<close>

lemma touches_pointer [simp]:
  "touches (setConversationSessionPointer ks a sid) {buildConversationSessionPointerKey ks a}"
  "touches (clearConversationSessionPointer ks a) {buildConversationSessionPointerKey ks a}"
  "touches (getConversationSessionPointer ks a) {}"
  unfolding setConversationSessionPointer_def clearConversationSessionPointer_def
    getConversationSessionPointer_def
  by (intro touches_client touches_bind touches_command touches_commands touches_return; simp)+

lemma touches_markers [simp]:
  "touches (readTurnInFlightMarker ks c i) {}"
  "touches (clearTurnInFlightMarker ks c i) {buildTurnInFlightKey ks c i}"
  "touches (writeTurnReceiptMarker ks c i rq) {buildTurnReceiptKey ks c i}"
  "touches (readTurnReceiptMarker ks c i) {}"
  "touches (hasSessionLease ks sid) {}"
  "touches (isBundleWarm ks b) {}"
  unfolding readTurnInFlightMarker_def clearTurnInFlightMarker_def writeTurnReceiptMarker_def
    readTurnReceiptMarker_def hasSessionLease_def isBundleWarm_def
  by (intro touches_client touches_bind touches_command touches_commands touches_return; simp)+

lemma touches_nothing: "touches m {} \<Longrightarrow> m s = (r, t) \<Longrightarrow> entries t = entries s \<and> clock t = clock s"
  by (auto dest: touchesD)

section \<open>What the lease operations do\<close>

definition leaseMs :: "keyspace \<Rightarrow> int" where
  "leaseMs ks = 1000 * RUNTIME_SESSION_LEASE_TTL_SECONDS (config ks)"

definition leaseEntry :: "keyspace \<Rightarrow> redis \<Rightarrow> string \<Rightarrow> redis_value \<times> int option" where
  "leaseEntry ks s v = (RString v, Some (clock s + leaseMs ks))"

lemma getClient_effect:
  "getClient s = (r, t) \<Longrightarrow> entries t = entries s \<and> clock t = clock s \<and> faults t = faults s"
  by (auto simp: getClient_def split: if_splits)

lemma withClient_cases:
  assumes "withClient m s = (r, t)"
  obtains s1 where "entries s1 = entries s" "clock s1 = clock s" "faults s1 = faults s" "m s1 = (r, t)"
  | e where "r = Inl e" "entries t = entries s" "clock t = clock s" "faults t = faults s"
  using assms getClient_effect [of s]
  by (auto simp: withClient_def bindS_def split: prod.splits sum.splits)

lemma live_cong: "entries s1 = entries s \<Longrightarrow> clock s1 = clock s \<Longrightarrow> live s1 = live s"
  by (intro ext) (simp add: live_def cong: option.case_cong)

lemma leaseEntry_cong: "clock s1 = clock s \<Longrightarrow> leaseEntry ks s1 = leaseEntry ks s"
  by (simp add: leaseEntry_def fun_eq_iff)

lemma command_cases:
  assumes "command m s = (r, t)"
  obtains s1 where "entries s1 = entries s" "clock s1 = clock s" "faults s1 = faults s" "m s1 = (r, t)"
  | s1 r' where "entries s1 = entries s" "clock s1 = clock s" "faults s1 = faults s"
      "r = Inl RedisFailure" "m s1 = (r', t)"
  | "r = Inl RedisFailure" "entries t = entries s" "clock t = clock s" "faults t = faults s"
proof -
  let ?s1 = "s\<lparr>callCount := Suc (callCount s)\<rparr>"
  have keep: "entries ?s1 = entries s" "clock ?s1 = clock s" "faults ?s1 = faults s" by simp_all
  show thesis
  proof (cases "faults s (callCount s)")
    case NoFault
    then show thesis using assms that(1) [OF keep] by (simp add: command_def Let_def)
  next
    case FailBefore
    then show thesis using assms that(3) by (auto simp: command_def Let_def)
  next
    case FailAfter
    then show thesis
      using assms that(2) [OF keep, of "fst (m ?s1)"] by (auto simp: command_def Let_def prod_eq_iff)
  qed
qed

text \<open>
  A client call around one command: the result comes from the command, or it is a failure
  after which the state is as before or as the command left it.
\<close>

lemma client_command_cases:
  assumes "withClient (bindS (command m) (\<lambda>x. returnS (g x))) s = (r, t)"
  obtains s1 x where "entries s1 = entries s" "clock s1 = clock s" "faults s1 = faults s"
      "m s1 = (Inr x, t)" "r = Inr (g x) \<or> r = Inl RedisFailure"
  | s1 e e' where "entries s1 = entries s" "clock s1 = clock s" "faults s1 = faults s"
      "m s1 = (Inl e, t)" "r = Inl e'"
  | e where "r = Inl e" "entries t = entries s" "clock t = clock s" "faults t = faults s"
proof -
  from assms show thesis
  proof (cases rule: withClient_cases)
    case (1 s1)
    obtain r0 t0 where c: "command m s1 = (r0, t0)" by (cases "command m s1")
    with 1 have r: "t = t0" "r = (case r0 of Inl e \<Rightarrow> Inl e | Inr x \<Rightarrow> Inr (g x))"
      by (auto simp: bindS_def split: sum.splits)
    from c show thesis
    proof (cases rule: command_cases)
      case (1 s2)
      then show thesis
        using that(1) [of s2] that(2) [of s2] r \<open>entries s1 = entries s\<close> \<open>clock s1 = clock s\<close> \<open>faults s1 = faults s\<close>
        by (cases r0) auto
    next
      case (2 s2 r')
      then show thesis
        using that(1) [of s2] that(2) [of s2] r \<open>entries s1 = entries s\<close> \<open>clock s1 = clock s\<close> \<open>faults s1 = faults s\<close>
        by (cases r') auto
    next
      case 3
      then show thesis
        using that(3) r \<open>entries s1 = entries s\<close> \<open>clock s1 = clock s\<close> \<open>faults s1 = faults s\<close> by simp
    qed
  next
    case (2 e)
    with that(3) show thesis by blast
  qed
qed

lemma tryAcquire_effect:
  assumes "tryAcquireSessionLease ks sid w s = (r, t)"
  shows "clock t = clock s \<and>
    (entries t = entries s \<and> r \<noteq> Inr True \<or>
     live s (buildSessionLeaseKey ks sid) = None \<and>
     entries t = (entries s)(buildSessionLeaseKey ks sid \<mapsto> leaseEntry ks s w) \<and> (r = Inr True \<or> isl r))"
  using assms unfolding tryAcquireSessionLease_def
proof (cases rule: client_command_cases)
  case (1 s1 x)
  then show ?thesis
    using live_cong [of s1 s]
    by (auto simp: cmdSetEx_def setEntry_def leaseEntry_def leaseMs_def split: if_splits)
next
  case (2 s1 e e')
  then show ?thesis by (auto simp: cmdSetEx_def split: if_splits)
qed auto

lemma renew_effect:
  assumes "renewSessionLease ks sid w s = (r, t)" "configOk (config ks)"
  shows "clock t = clock s \<and>
    (entries t = entries s \<and> r \<noteq> Inr True \<or>
     live s (buildSessionLeaseKey ks sid) = Some (RString w) \<and>
     entries t = (entries s)(buildSessionLeaseKey ks sid \<mapsto> leaseEntry ks s w) \<and> (r = Inr True \<or> isl r))"
  using assms(1) unfolding renewSessionLease_def
proof (cases rule: client_command_cases)
  case (1 s1 x)
  then show ?thesis
    using live_cong [of s1 s] assms(2)
    by (auto simp: evalRenew_def bindS_def cmdGet_def cmdExpire_def setEntry_def leaseEntry_def leaseMs_def
        configOk_def split: if_splits option.splits redis_value.splits)
next
  case (2 s1 e e')
  then show ?thesis
    by (auto simp: evalRenew_def bindS_def cmdGet_def cmdExpire_def
        split: if_splits option.splits redis_value.splits)
qed auto

lemma claim_effect:
  assumes "claimAcceptedTurnInFlight ks sid w conv i rq s = (r, t)"
  shows "clock t = clock s \<and>
    (entries t = entries s \<and> r \<noteq> Inr Claim_acquired \<or>
     live s (buildSessionLeaseKey ks sid) = None \<and> live s (buildTurnInFlightKey ks conv i) = None \<and>
     entries t = (entries s)(buildSessionLeaseKey ks sid \<mapsto> leaseEntry ks s w,
                             buildTurnInFlightKey ks conv i \<mapsto> leaseEntry ks s rq) \<and>
     (r = Inr Claim_acquired \<or> isl r))"
  using assms unfolding claimAcceptedTurnInFlight_def
proof (cases rule: client_command_cases)
  case (1 s1 x)
  then show ?thesis
    using live_cong [of s1 s]
    by (auto simp: evalClaim_def bindS_def cmdGet_def cmdSetEx_def setEntry_def leaseEntry_def leaseMs_def
        split: if_splits option.splits redis_value.splits)
next
  case (2 s1 e e')
  then show ?thesis
    by (auto simp: evalClaim_def bindS_def cmdGet_def cmdSetEx_def setEntry_def
        split: if_splits option.splits redis_value.splits)
qed auto

lemma release_effect:
  assumes "releaseSessionLease ks sid w s = (r, t)"
  shows "clock t = clock s \<and>
    (entries t = entries s \<or>
     live s (buildSessionLeaseKey ks sid) = Some (RString w) \<and>
     entries t = (entries s)(buildSessionLeaseKey ks sid := None))"
proof -
  have del: "clock t' = clock s' \<and> (entries t' = entries s' \<or>
      entries t' = (entries s')(buildSessionLeaseKey ks sid := None))"
    if "releaseDelete ks sid s' = (r', t')" for s' r' t'
    using that by (auto simp: releaseDelete_def command_def bindS_def cmdDel_def delEntry_def Let_def
        split: fault.splits)
  have read: "clock t' = clock s' \<and> entries t' = entries s' \<and>
      (r' = Inr True \<longrightarrow> live s' (buildSessionLeaseKey ks sid) = Some (RString w))"
    if "releaseRead ks sid w s' = (r', t')" for s' r' t'
    using that by (auto simp: releaseRead_def command_def bindS_def cmdGet_def Let_def live_def
        split: fault.splits option.splits redis_value.splits prod.splits if_splits)
  from assms show ?thesis unfolding releaseSessionLease_def
  proof (cases rule: withClient_cases)
    case (1 s1)
    obtain r1 s2 where rd: "releaseRead ks sid w s1 = (r1, s2)" by (cases "releaseRead ks sid w s1")
    from read [OF rd] 1 live_cong [of s1 s] rd show ?thesis
      by (cases r1) (auto simp: bindS_def split: if_splits dest!: del)
  qed auto
qed

end
