(* ===== verification/LeaseProtocol.thy ===== *)
theory LeaseProtocol
  imports PersaiPrelude
begin

text \<open>
  The lease contract that the Redis session leases and the database scheduler leases share.

  A lease service keeps, per key, the owner token and the instant its lease ends; owners
  acquire, renew and release. \<open>lease_run\<close> is a run of any number of owners over such a
  service: it tracks in \<open>B\<close> what owners may believe, the leases they were told they hold and
  the instant each ends. A renewal that is refused, or whose reply is lost, ends the belief,
  as does a call of release. The locale \<open>lease_protocol\<close> states what the two providers
  promise (\<open>ok\<close> is the provider's own invariant) and derives mutual exclusion and recovery from a crashed owner.
\<close>

definition dropBelief :: "'k \<Rightarrow> 'o \<Rightarrow> ('k \<times> 'o \<times> int) list \<Rightarrow> ('k \<times> 'o \<times> int) list" where
  "dropBelief k owner B = filter (\<lambda>(k', owner', _). \<not> (k' = k \<and> owner' = owner)) B"

lemma dropBelief_iff [simp]:
  "(k', owner', d) \<in> set (dropBelief k owner B) \<longleftrightarrow>
     (k', owner', d) \<in> set B \<and> \<not> (k' = k \<and> owner' = owner)"
  by (auto simp: dropBelief_def)

inductive lease_run ::
  "('s \<Rightarrow> int) \<Rightarrow> ('m \<Rightarrow> int) \<Rightarrow>
   ('m \<Rightarrow> 'k \<Rightarrow> 'o \<Rightarrow> 's \<Rightarrow> bool \<times> 's) \<Rightarrow> ('m \<Rightarrow> 'k \<Rightarrow> 'o \<Rightarrow> 's \<Rightarrow> bool \<times> 's) \<Rightarrow>
   ('k \<Rightarrow> 'o \<Rightarrow> 's \<Rightarrow> bool \<times> 's) \<Rightarrow> ('s \<Rightarrow> 's \<Rightarrow> bool) \<Rightarrow> ('o \<Rightarrow> bool) \<Rightarrow> 's \<Rightarrow>
   's \<times> ('k \<times> 'o \<times> int) list \<Rightarrow> bool"
  for timeOf ttl acquire renew release env okOwner s0
where
  start: "lease_run timeOf ttl acquire renew release env okOwner s0 (s0, [])"
| acquired: "lease_run timeOf ttl acquire renew release env okOwner s0 (s, B) \<Longrightarrow> okOwner w \<Longrightarrow>
    acquire m k w s = (True, t) \<Longrightarrow>
    lease_run timeOf ttl acquire renew release env okOwner s0 (t, (k, w, timeOf s + ttl m) # B)"
| refused: "lease_run timeOf ttl acquire renew release env okOwner s0 (s, B) \<Longrightarrow> okOwner w \<Longrightarrow>
    acquire m k w s = (False, t) \<Longrightarrow>
    lease_run timeOf ttl acquire renew release env okOwner s0 (t, B)"
| renewed: "lease_run timeOf ttl acquire renew release env okOwner s0 (s, B) \<Longrightarrow> okOwner w \<Longrightarrow>
    renew m k w s = (True, t) \<Longrightarrow>
    lease_run timeOf ttl acquire renew release env okOwner s0
      (t, (k, w, timeOf s + ttl m) # dropBelief k w B)"
| lapsed: "lease_run timeOf ttl acquire renew release env okOwner s0 (s, B) \<Longrightarrow> okOwner w \<Longrightarrow>
    renew m k w s = (False, t) \<Longrightarrow>
    lease_run timeOf ttl acquire renew release env okOwner s0 (t, dropBelief k w B)"
| released: "lease_run timeOf ttl acquire renew release env okOwner s0 (s, B) \<Longrightarrow> okOwner w \<Longrightarrow>
    release k w s = (b, t) \<Longrightarrow>
    lease_run timeOf ttl acquire renew release env okOwner s0 (t, dropBelief k w B)"
| other: "lease_run timeOf ttl acquire renew release env okOwner s0 (s, B) \<Longrightarrow> env s t \<Longrightarrow>
    lease_run timeOf ttl acquire renew release env okOwner s0 (t, B)"

locale lease_protocol =
  fixes timeOf :: "'s \<Rightarrow> int"
    and lease :: "'s \<Rightarrow> 'k \<Rightarrow> ('o \<times> int) option"
    and ttl :: "'m \<Rightarrow> int"
    and acquire :: "'m \<Rightarrow> 'k \<Rightarrow> 'o \<Rightarrow> 's \<Rightarrow> bool \<times> 's"
    and renew :: "'m \<Rightarrow> 'k \<Rightarrow> 'o \<Rightarrow> 's \<Rightarrow> bool \<times> 's"
    and release :: "'k \<Rightarrow> 'o \<Rightarrow> 's \<Rightarrow> bool \<times> 's"
    and env :: "'s \<Rightarrow> 's \<Rightarrow> bool"
    and okOwner :: "'o \<Rightarrow> bool"
    and accepts :: "'m \<Rightarrow> 'k \<Rightarrow> 's \<Rightarrow> bool"
    and maxTtl :: int
    and ok :: "'s \<Rightarrow> bool"
  assumes time_acquire: "acquire m k w s = (b, t) \<Longrightarrow> timeOf t = timeOf s"
    and time_renew: "renew m k w s = (b, t) \<Longrightarrow> timeOf t = timeOf s"
    and time_release: "release k w s = (b, t) \<Longrightarrow> timeOf t = timeOf s"
    and acquire_yes: "okOwner w \<Longrightarrow> acquire m k w s = (True, t) \<Longrightarrow>
      (\<forall>v e. lease s k = Some (v, e) \<longrightarrow> e \<le> timeOf s) \<and>
      lease t = (lease s)(k \<mapsto> (w, timeOf s + ttl m))"
    and acquire_no: "okOwner w \<Longrightarrow> acquire m k w s = (False, t) \<Longrightarrow>
      lease t = lease s \<or>
      (\<forall>v e. lease s k = Some (v, e) \<longrightarrow> e \<le> timeOf s) \<and>
      lease t = (lease s)(k \<mapsto> (w, timeOf s + ttl m))"
    and renew_yes: "ok s \<Longrightarrow> okOwner w \<Longrightarrow> renew m k w s = (True, t) \<Longrightarrow>
      (\<forall>v e. lease s k = Some (v, e) \<longrightarrow> v = w) \<and>
      lease t = (lease s)(k \<mapsto> (w, timeOf s + ttl m))"
    and renew_no: "ok s \<Longrightarrow> okOwner w \<Longrightarrow> renew m k w s = (False, t) \<Longrightarrow>
      lease t = lease s \<or>
      (\<forall>v e. lease s k = Some (v, e) \<longrightarrow> v = w) \<and>
      lease t = (lease s)(k \<mapsto> (w, timeOf s + ttl m))"
    and release_own: "ok s \<Longrightarrow> okOwner w \<Longrightarrow> release k w s = (b, t) \<Longrightarrow>
      lease t = lease s \<or>
      (\<forall>v e. lease s k = Some (v, e) \<longrightarrow> v = w) \<and> lease t = (lease s)(k := None)"
    and env_keeps: "env s t \<Longrightarrow> lease t = lease s \<and> timeOf s \<le> timeOf t"
    and acquire_free: "okOwner w \<Longrightarrow> accepts m k s \<Longrightarrow>
      (\<forall>v e. lease s k = Some (v, e) \<longrightarrow> e < timeOf s) \<Longrightarrow> fst (acquire m k w s)"
    and ttl_bound: "ttl m \<le> maxTtl"
    and ok_acquire: "ok s \<Longrightarrow> okOwner w \<Longrightarrow> acquire m k w s = (b, t) \<Longrightarrow> ok t"
    and ok_renew: "ok s \<Longrightarrow> okOwner w \<Longrightarrow> renew m k w s = (b, t) \<Longrightarrow> ok t"
    and ok_release: "ok s \<Longrightarrow> okOwner w \<Longrightarrow> release k w s = (b, t) \<Longrightarrow> ok t"
    and ok_env: "ok s \<Longrightarrow> env s t \<Longrightarrow> ok t"
begin

text \<open>The provider's own invariant holds throughout a run.\<close>

lemma lease_run_ok:
  "lease_run timeOf ttl acquire renew release env okOwner s0 (s, B) \<Longrightarrow> ok s0 \<Longrightarrow> ok s"
  by (induction "(s, B)" arbitrary: s B rule: lease_run.induct) (blast intro: ok_acquire ok_renew ok_release ok_env)+

text \<open>A lease an owner may still believe in is the one the service has, and no shorter.\<close>

definition beliefsBacked :: "'s \<Rightarrow> ('k \<times> 'o \<times> int) list \<Rightarrow> bool" where
  "beliefsBacked s B \<longleftrightarrow>
     (\<forall>k w d. (k, w, d) \<in> set B \<and> timeOf s < d \<longrightarrow> (\<exists>e. lease s k = Some (w, e) \<and> d \<le> e))"

lemma beliefsBackedD:
  "beliefsBacked s B \<Longrightarrow> (k, w, d) \<in> set B \<Longrightarrow> timeOf s < d \<Longrightarrow> \<exists>e. lease s k = Some (w, e) \<and> d \<le> e"
  by (simp add: beliefsBacked_def)

text \<open>Taking a lease over that is free, or that was the same owner's whose older belief is dropped.\<close>

lemma backed_take:
  assumes "beliefsBacked s B" "timeOf t = timeOf s"
    and "lease t = (lease s)(k \<mapsto> (w, timeOf s + ttl m))"
    and "\<forall>v e. lease s k = Some (v, e) \<longrightarrow> e \<le> timeOf s"
  shows "beliefsBacked t ((k, w, timeOf s + ttl m) # B)" "beliefsBacked t B"
  using assms unfolding beliefsBacked_def by fastforce+

lemma backed_own:
  assumes "beliefsBacked s B" "timeOf t = timeOf s"
    and "lease t = (lease s)(k \<mapsto> (w, timeOf s + ttl m))"
    and "\<forall>v e. lease s k = Some (v, e) \<longrightarrow> v = w"
  shows "beliefsBacked t ((k, w, timeOf s + ttl m) # dropBelief k w B)"
    and "beliefsBacked t (dropBelief k w B)"
  using assms unfolding beliefsBacked_def by fastforce+

lemma backed_drop:
  assumes "beliefsBacked s B" "timeOf t = timeOf s"
    and "lease t = (lease s)(k := None)"
    and "\<forall>v e. lease s k = Some (v, e) \<longrightarrow> v = w"
  shows "beliefsBacked t (dropBelief k w B)"
  using assms unfolding beliefsBacked_def by fastforce

lemma backed_same:
  assumes "beliefsBacked s B" "timeOf s \<le> timeOf t" "lease t = lease s"
  shows "beliefsBacked t B" "beliefsBacked t (dropBelief k w B)"
  using assms unfolding beliefsBacked_def by fastforce+

lemma lease_run_backed:
  "lease_run timeOf ttl acquire renew release env okOwner s0 (s, B) \<Longrightarrow> ok s0 \<Longrightarrow> beliefsBacked s B"
proof (induction "(s, B)" arbitrary: s B rule: lease_run.induct)
  case start
  show ?case by (simp add: beliefsBacked_def)
next
  case (acquired s B w m k t)
  note IH = acquired(2) [OF acquired(5)]
  show ?case
    using acquire_yes [OF acquired(3,4)] backed_take(1) [OF IH time_acquire [OF acquired(4)]] by simp
next
  case (refused s B w m k t)
  note IH = refused(2) [OF refused(5)]
  show ?case
    using acquire_no [OF refused(3,4)] time_acquire [OF refused(4)]
      backed_take(2) [OF IH] backed_same(1) [OF IH] by force
next
  case (renewed s B w m k t)
  note IH = renewed(2) [OF renewed(5)] and ok = lease_run_ok [OF renewed(1,5)]
  show ?case
    using renew_yes [OF ok renewed(3,4)] backed_own(1) [OF IH time_renew [OF renewed(4)]] by simp
next
  case (lapsed s B w m k t)
  note IH = lapsed(2) [OF lapsed(5)] and ok = lease_run_ok [OF lapsed(1,5)]
  show ?case
    using renew_no [OF ok lapsed(3,4)] time_renew [OF lapsed(4)]
      backed_own(2) [OF IH] backed_same(2) [OF IH] by force
next
  case (released s B w k b t)
  note IH = released(2) [OF released(5)] and ok = lease_run_ok [OF released(1,5)]
  show ?case
    using release_own [OF ok released(3,4)] time_release [OF released(4)]
      backed_drop [OF IH] backed_same(2) [OF IH] by force
next
  case (other s B t)
  note IH = other(2) [OF other(4)]
  show ?case using env_keeps [OF other(3)] backed_same(1) [OF IH] by simp
qed

lemma mutual_exclusion:
  assumes "lease_run timeOf ttl acquire renew release env okOwner s0 (s, B)"
    and "(k, v, d) \<in> set B" "timeOf s < d" "(k, w, d') \<in> set B" "timeOf s < d'" "ok s0"
  shows "v = w"
  using beliefsBackedD [OF lease_run_backed [OF assms(1,6)] assms(2,3)]
    beliefsBackedD [OF lease_run_backed [OF assms(1,6)] assms(4,5)] by auto

text \<open>No lease outlives the longest lifetime, so a crashed owner blocks nobody for longer.\<close>

definition leasesBounded :: "'s \<Rightarrow> bool" where
  "leasesBounded s \<longleftrightarrow> (\<forall>k v e. lease s k = Some (v, e) \<longrightarrow> e \<le> timeOf s + maxTtl)"

lemma bounded_update:
  "leasesBounded s \<Longrightarrow> timeOf t = timeOf s \<Longrightarrow>
     lease t = lease s \<or> lease t = (lease s)(k \<mapsto> (w, timeOf s + ttl m)) \<or> lease t = (lease s)(k := None) \<Longrightarrow>
     leasesBounded t"
  using ttl_bound [of m] by (elim disjE) (auto simp: leasesBounded_def split: if_splits)

lemma lease_run_bounded:
  "lease_run timeOf ttl acquire renew release env okOwner s0 (s, B) \<Longrightarrow> leasesBounded s0 \<Longrightarrow>
     ok s0 \<Longrightarrow> leasesBounded s"
proof (induction "(s, B)" arbitrary: s B rule: lease_run.induct)
  case (acquired s B w m k t)
  then show ?case
    using acquire_yes [OF acquired(3,4)] bounded_update [OF acquired(2) [OF acquired(5,6)] time_acquire [OF acquired(4)]] by blast
next
  case (refused s B w m k t)
  then show ?case
    using acquire_no [OF refused(3,4)] bounded_update [OF refused(2) [OF refused(5,6)] time_acquire [OF refused(4)]] by blast
next
  case (renewed s B w m k t)
  note ok = lease_run_ok [OF renewed(1,6)]
  from renewed show ?case
    using renew_yes [OF ok renewed(3,4)] bounded_update [OF renewed(2) [OF renewed(5,6)] time_renew [OF renewed(4)]] by blast
next
  case (lapsed s B w m k t)
  note ok = lease_run_ok [OF lapsed(1,6)]
  from lapsed show ?case
    using renew_no [OF ok lapsed(3,4)] bounded_update [OF lapsed(2) [OF lapsed(5,6)] time_renew [OF lapsed(4)]] by blast
next
  case (released s B w k b t)
  note ok = lease_run_ok [OF released(1,6)]
  from released show ?case
    using release_own [OF ok released(3,4)] bounded_update [OF released(2) [OF released(5,6)] time_release [OF released(4)]] by blast
next
  case (other s B t)
  then show ?case using env_keeps [OF other(3)] by (fastforce simp: leasesBounded_def)
qed

lemma crash_recovery:
  assumes "lease_run timeOf ttl acquire renew release env okOwner s0 (s, B)" "leasesBounded s0"
    and "env s t" "timeOf s + maxTtl < timeOf t" "okOwner w" "accepts m k t" "ok s0"
  shows "fst (acquire m k w t)"
proof (rule acquire_free [OF assms(5,6)])
  show "\<forall>v e. lease t k = Some (v, e) \<longrightarrow> e < timeOf t"
    using lease_run_bounded [OF assms(1,2,7)] env_keeps [OF assms(3)] assms(4)
    by (fastforce simp: leasesBounded_def)
qed

end

end
