(* ===== verification/SessionLease.thy ===== *)
theory SessionLease
  imports RedisState LeaseProtocol
begin

text \<open>
  Session leases (\<open>apps/runtime/src/modules/sessions/session-lease.service.ts\<close>) over the
  Redis operations of \<open>RedisState\<close>. \<open>randomUUID()\<close> is the argument \<open>uuid\<close>.

  The service is a provider of the lease contract: the owner of a session is the token under
  its lease key. A claim of an accepted turn is the second way to acquire it.
\<close>

record session_lease =
  sl_sessionId :: string
  sl_ownerToken :: string

datatype claim_result = LeaseAcquired session_lease | LeaseBusy | LeaseInFlight "string option"

definition acquireLease ::
  "keyspace \<Rightarrow> string \<Rightarrow> string \<Rightarrow> string option \<Rightarrow> (redis, session_lease option) oper" where
  "acquireLease ks uuid sessionId ownerToken =
     (let w = (case ownerToken of Some w \<Rightarrow> w | None \<Rightarrow> uuid) in
      guardS (assertNonEmpty sessionId ''sessionId'') (guardS (assertNonEmpty w ''ownerToken'')
        (bindS (tryAcquireSessionLease ks sessionId w) (\<lambda>acq. returnS
          (if \<not> acq then None else Some \<lparr>sl_sessionId = sessionId, sl_ownerToken = w\<rparr>)))))"

definition releaseLease :: "keyspace \<Rightarrow> session_lease \<Rightarrow> (redis, bool) oper" where
  "releaseLease ks l =
     guardS (assertNonEmpty (sl_sessionId l) ''sessionId'')
       (guardS (assertNonEmpty (sl_ownerToken l) ''ownerToken'')
         (releaseSessionLease ks (sl_sessionId l) (sl_ownerToken l)))"

definition renewLease :: "keyspace \<Rightarrow> session_lease \<Rightarrow> (redis, bool) oper" where
  "renewLease ks l =
     guardS (assertNonEmpty (sl_sessionId l) ''sessionId'')
       (guardS (assertNonEmpty (sl_ownerToken l) ''ownerToken'')
         (renewSessionLease ks (sl_sessionId l) (sl_ownerToken l)))"

definition claimLeaseForAcceptedTurn ::
  "keyspace \<Rightarrow> string \<Rightarrow> string \<Rightarrow> conversation_address \<Rightarrow> string \<Rightarrow> string \<Rightarrow> string option \<Rightarrow>
   (redis, claim_result) oper" where
  "claimLeaseForAcceptedTurn ks uuid sessionId conv idempotencyKey requestId ownerToken =
     guardS (assertNonEmpty sessionId ''sessionId'')
       (guardS (assertNonEmpty idempotencyKey ''idempotencyKey'')
       (guardS (assertNonEmpty requestId ''requestId'')
       (let w = (case ownerToken of Some w \<Rightarrow> w | None \<Rightarrow> uuid) in
        guardS (assertNonEmpty w ''ownerToken'')
        (bindS (claimAcceptedTurnInFlight ks sessionId w conv idempotencyKey requestId) (\<lambda>res.
           case res of
             Claim_acquired \<Rightarrow> returnS (LeaseAcquired \<lparr>sl_sessionId = sessionId, sl_ownerToken = w\<rparr>)
           | Claim_in_flight \<Rightarrow>
               bindS (readTurnInFlightMarker ks conv idempotencyKey) (\<lambda>rq. returnS (LeaseInFlight rq))
           | Claim_busy \<Rightarrow> returnS LeaseBusy)))))"

definition clearAcceptedTurnInFlight ::
  "keyspace \<Rightarrow> conversation_address \<Rightarrow> string \<Rightarrow> (redis, unit) oper" where
  "clearAcceptedTurnInFlight ks conv idempotencyKey =
     guardS (assertNonEmpty idempotencyKey ''idempotencyKey'')
       (clearTurnInFlightMarker ks conv idempotencyKey)"

definition readAcceptedTurnInFlight ::
  "keyspace \<Rightarrow> conversation_address \<Rightarrow> string \<Rightarrow> (redis, string option) oper" where
  "readAcceptedTurnInFlight ks conv idempotencyKey =
     guardS (assertNonEmpty idempotencyKey ''idempotencyKey'')
       (readTurnInFlightMarker ks conv idempotencyKey)"

section \<open>The service provides the lease contract\<close>

text \<open>
  The two ways to acquire: plainly, or for an accepted turn (\<open>Some (conversation,
  idempotency key, request id)\<close>). Any thrown error counts as a refusal.
\<close>

type_synonym turn_claim = "(conversation_address \<times> string \<times> string) option"

definition sessionLeaseOf :: "keyspace \<Rightarrow> redis \<Rightarrow> string \<Rightarrow> (string \<times> int) option" where
  "sessionLeaseOf ks s sid =
     (case entries s (buildSessionLeaseKey ks sid) of
        Some (RString w, Some e) \<Rightarrow> Some (w, e)
      | _ \<Rightarrow> None)"

definition acquireSession :: "keyspace \<Rightarrow> turn_claim \<Rightarrow> string \<Rightarrow> string \<Rightarrow> redis \<Rightarrow> bool \<times> redis" where
  "acquireSession ks m sid w s =
     (case m of
        None \<Rightarrow>
          (case acquireLease ks w sid (Some w) s of
             (Inr (Some _), t) \<Rightarrow> (True, t) | (_, t) \<Rightarrow> (False, t))
      | Some (conv, i, rq) \<Rightarrow>
          (case claimLeaseForAcceptedTurn ks w sid conv i rq (Some w) s of
             (Inr (LeaseAcquired _), t) \<Rightarrow> (True, t) | (_, t) \<Rightarrow> (False, t)))"

definition renewSession :: "keyspace \<Rightarrow> turn_claim \<Rightarrow> string \<Rightarrow> string \<Rightarrow> redis \<Rightarrow> bool \<times> redis" where
  "renewSession ks m sid w s =
     (case renewLease ks \<lparr>sl_sessionId = sid, sl_ownerToken = w\<rparr> s of
        (Inr b, t) \<Rightarrow> (b, t) | (Inl _, t) \<Rightarrow> (False, t))"

definition releaseSession :: "keyspace \<Rightarrow> string \<Rightarrow> string \<Rightarrow> redis \<Rightarrow> bool \<times> redis" where
  "releaseSession ks sid w s =
     (case releaseLease ks \<lparr>sl_sessionId = sid, sl_ownerToken = w\<rparr> s of
        (Inr b, t) \<Rightarrow> (b, t) | (Inl _, t) \<Rightarrow> (False, t))"

text \<open>Time passes, and other operations write other keys.\<close>

definition leaseBystander :: "keyspace \<Rightarrow> redis \<Rightarrow> redis \<Rightarrow> bool" where
  "leaseBystander ks s t \<longleftrightarrow> clock s \<le> clock t \<and>
     (\<forall>sid. entries t (buildSessionLeaseKey ks sid) = entries s (buildSessionLeaseKey ks sid))"

definition faultless :: "redis \<Rightarrow> bool" where
  "faultless s \<longleftrightarrow> (\<forall>n. faults s n = NoFault)"

definition leaseCallable :: "keyspace \<Rightarrow> turn_claim \<Rightarrow> string \<Rightarrow> redis \<Rightarrow> bool" where
  "leaseCallable ks m sid s \<longleftrightarrow> m = None \<and> js_trim sid \<noteq> [] \<and> faultless s \<and>
     (\<forall>v. entries s (buildSessionLeaseKey ks sid) = Some v \<longrightarrow> (\<exists>w e. v = (RString w, Some e)))"

text \<open>Callers have a token, and a configuration the schema accepts.\<close>

definition leaseCaller :: "keyspace \<Rightarrow> string \<Rightarrow> bool" where
  "leaseCaller ks w \<longleftrightarrow> js_trim w \<noteq> [] \<and> configOk (config ks)"

lemma bystanderI:
  assumes "touches m K" "m s = (r, t)" "\<forall>sid. buildSessionLeaseKey ks sid \<notin> K"
  shows "leaseBystander ks s t"
  using touchesD [OF assms(1,2)] assms(3) by (simp add: leaseBystander_def)

lemma other_operations_bystanders:
  "setConversationSessionPointer ks a sid s = (ru, t) \<Longrightarrow> leaseBystander ks s t"
  "clearConversationSessionPointer ks a s = (ru, t) \<Longrightarrow> leaseBystander ks s t"
  "clearTurnInFlightMarker ks c i s = (ru, t) \<Longrightarrow> leaseBystander ks s t"
  "writeTurnReceiptMarker ks c i rq s = (ru, t) \<Longrightarrow> leaseBystander ks s t"
  by (auto intro: bystanderI [OF touches_pointer(1)] bystanderI [OF touches_pointer(2)]
      bystanderI [OF touches_markers(2)] bystanderI [OF touches_markers(3)])

lemma sessionLeaseOf_update:
  "entries t = (entries s)(buildSessionLeaseKey ks sid \<mapsto> leaseEntry ks s w) \<Longrightarrow>
     sessionLeaseOf ks t = (sessionLeaseOf ks s)(sid \<mapsto> (w, clock s + leaseMs ks))"
  by (auto simp: sessionLeaseOf_def leaseEntry_def fun_eq_iff)

lemma sessionLeaseOf_claim:
  "entries t = (entries s)(buildSessionLeaseKey ks sid \<mapsto> leaseEntry ks s w,
                           buildTurnInFlightKey ks c i \<mapsto> leaseEntry ks s rq) \<Longrightarrow>
     sessionLeaseOf ks t = (sessionLeaseOf ks s)(sid \<mapsto> (w, clock s + leaseMs ks))"
  by (auto simp: sessionLeaseOf_def leaseEntry_def fun_eq_iff)

lemma sessionLeaseOf_delete:
  "entries t = (entries s)(buildSessionLeaseKey ks sid := None) \<Longrightarrow>
     sessionLeaseOf ks t = (sessionLeaseOf ks s)(sid := None)"
  by (auto simp: sessionLeaseOf_def fun_eq_iff)

lemma sessionLeaseOf_same: "entries t = entries s \<Longrightarrow> sessionLeaseOf ks t = sessionLeaseOf ks s"
  by (simp add: sessionLeaseOf_def fun_eq_iff)

lemma not_live_expired:
  "live s (buildSessionLeaseKey ks sid) = None \<Longrightarrow> sessionLeaseOf ks s sid = Some (v, e) \<Longrightarrow> e < clock s"
  by (auto simp: live_def sessionLeaseOf_def split: option.splits prod.splits redis_value.splits if_splits)

lemma live_owner:
  "live s (buildSessionLeaseKey ks sid) = Some (RString w) \<Longrightarrow> sessionLeaseOf ks s sid = Some (v, e) \<Longrightarrow> v = w"
  by (auto simp: live_def sessionLeaseOf_def split: option.splits prod.splits redis_value.splits if_splits)

text \<open>The laws of the contract, one lemma per operation.\<close>

lemma plain_acquire_law:
  assumes "acquireLease ks u sid (Some w) s = (r, t)"
  shows "clock t = clock s \<and>
    (entries t = entries s \<and> (\<forall>l. r \<noteq> Inr (Some l)) \<or>
     live s (buildSessionLeaseKey ks sid) = None \<and>
     entries t = (entries s)(buildSessionLeaseKey ks sid \<mapsto> leaseEntry ks s w))"
proof -
  obtain r0 t0 where c: "tryAcquireSessionLease ks sid w s = (r0, t0)"
    by (cases "tryAcquireSessionLease ks sid w s")
  show ?thesis
    using assms tryAcquire_effect [OF c] c
    by (auto simp: acquireLease_def guardS_def bindS_def split: sum.splits if_splits)
qed

lemma claim_law:
  assumes "claimLeaseForAcceptedTurn ks u sid c i rq (Some w) s = (r, t)"
  shows "clock t = clock s \<and>
    (entries t = entries s \<and> (\<forall>l. r \<noteq> Inr (LeaseAcquired l)) \<or>
     live s (buildSessionLeaseKey ks sid) = None \<and> live s (buildTurnInFlightKey ks c i) = None \<and>
     entries t = (entries s)(buildSessionLeaseKey ks sid \<mapsto> leaseEntry ks s w,
                             buildTurnInFlightKey ks c i \<mapsto> leaseEntry ks s rq))"
proof -
  obtain r0 t0 where d: "claimAcceptedTurnInFlight ks sid w c i rq s = (r0, t0)"
    by (cases "claimAcceptedTurnInFlight ks sid w c i rq s")
  obtain r1 t1 where e: "readTurnInFlightMarker ks c i t0 = (r1, t1)"
    by (cases "readTurnInFlightMarker ks c i t0")
  have "entries t1 = entries t0 \<and> clock t1 = clock t0"
    using touches_nothing [OF touches_markers(1) e] .
  then show ?thesis
    using assms claim_effect [OF d] d e
    by (auto simp: claimLeaseForAcceptedTurn_def guardS_def bindS_def Let_def
        split: sum.splits if_splits claim_outcome.splits)
qed

lemma acquireSession_law:
  assumes "acquireSession ks m sid w s = (b, t)"
  shows "clock t = clock s \<and>
    (sessionLeaseOf ks t = sessionLeaseOf ks s \<and> \<not> b \<or>
     (\<forall>v e. sessionLeaseOf ks s sid = Some (v, e) \<longrightarrow> e \<le> clock s) \<and>
     sessionLeaseOf ks t = (sessionLeaseOf ks s)(sid \<mapsto> (w, clock s + leaseMs ks)))"
proof (cases m)
  case None
  obtain r0 where c: "acquireLease ks w sid (Some w) s = (r0, t)"
    and b: "b \<longleftrightarrow> (\<exists>l. r0 = Inr (Some l))"
    using assms None by (auto simp: acquireSession_def split: prod.splits sum.splits option.splits)
  from plain_acquire_law [OF c] b show ?thesis
    by (auto dest: sessionLeaseOf_same sessionLeaseOf_update not_live_expired [of s ks sid] less_imp_le)
next
  case (Some y)
  obtain conv i rq where y: "y = (conv, i, rq)" by (cases y)
  obtain r0 where c: "claimLeaseForAcceptedTurn ks w sid conv i rq (Some w) s = (r0, t)"
    and b: "b \<longleftrightarrow> (\<exists>l. r0 = Inr (LeaseAcquired l))"
    using assms Some y by (auto simp: acquireSession_def split: prod.splits sum.splits claim_result.splits)
  from claim_law [OF c] b show ?thesis
    by (auto dest: sessionLeaseOf_same sessionLeaseOf_claim not_live_expired [of s ks sid] less_imp_le)
qed

lemma renewSession_law:
  assumes "renewSession ks m sid w s = (b, t)" "configOk (config ks)"
  shows "clock t = clock s \<and>
    (sessionLeaseOf ks t = sessionLeaseOf ks s \<and> \<not> b \<or>
     (\<forall>v e. sessionLeaseOf ks s sid = Some (v, e) \<longrightarrow> v = w) \<and>
     sessionLeaseOf ks t = (sessionLeaseOf ks s)(sid \<mapsto> (w, clock s + leaseMs ks)))"
proof -
  obtain r0 t0 where c: "renewSessionLease ks sid w s = (r0, t0)" by (cases "renewSessionLease ks sid w s")
  show ?thesis
    using renew_effect [OF c assms(2)] assms(1) c
    by (auto simp: renewSession_def renewLease_def guardS_def split: sum.splits if_splits
        dest: sessionLeaseOf_same sessionLeaseOf_update live_owner [of s ks sid])
qed

lemma renew_time: "renewSession ks m sid w s = (b, t) \<Longrightarrow> clock t = clock s"
proof -
  assume r: "renewSession ks m sid w s = (b, t)"
  have "touches (renewSessionLease ks sid w) {buildSessionLeaseKey ks sid}"
    unfolding renewSessionLease_def
    by (intro touches_client touches_bind touches_command touches_return)
      (auto simp: touches_def evalRenew_def bindS_def cmdGet_def cmdExpire_def setEntry_def delEntry_def
        split: option.splits redis_value.splits)
  then have "clock (snd (renewSessionLease ks sid w s)) = clock s" by (simp add: touches_def)
  then show "clock t = clock s"
    using r by (auto simp: renewSession_def renewLease_def guardS_def split: prod.splits sum.splits)
qed

lemma releaseSession_law:
  assumes "releaseSession ks sid w s = (b, t)"
  shows "clock t = clock s \<and>
    (sessionLeaseOf ks t = sessionLeaseOf ks s \<or>
     (\<forall>v e. sessionLeaseOf ks s sid = Some (v, e) \<longrightarrow> v = w) \<and>
     sessionLeaseOf ks t = (sessionLeaseOf ks s)(sid := None))"
proof -
  obtain r0 t0 where c: "releaseSessionLease ks sid w s = (r0, t0)" by (cases "releaseSessionLease ks sid w s")
  show ?thesis
    using release_effect [OF c] assms(1) c
    by (auto simp: releaseSession_def releaseLease_def guardS_def split: sum.splits if_splits
        dest: sessionLeaseOf_same sessionLeaseOf_delete live_owner [of s ks sid])
qed

lemma acquire_when_free:
  assumes "js_trim w \<noteq> []" "leaseCallable ks m sid s" "0 < RUNTIME_SESSION_LEASE_TTL_SECONDS (config ks)"
    and "\<forall>v e. sessionLeaseOf ks s sid = Some (v, e) \<longrightarrow> e < clock s"
  shows "fst (acquireSession ks m sid w s)"
proof -
  have "live s (buildSessionLeaseKey ks sid) = None"
    using assms(2,4) by (cases "entries s (buildSessionLeaseKey ks sid)")
      (auto simp: live_def sessionLeaseOf_def leaseCallable_def)
  then show ?thesis
    using assms(1-3)
    by (auto simp: acquireSession_def leaseCallable_def faultless_def acquireLease_def
        tryAcquireSessionLease_def withClient_def bindS_def getClient_def command_def cmdSetEx_def live_def Let_def
        split: option.splits)
qed

interpretation session_lease: lease_protocol clock "sessionLeaseOf ks" "\<lambda>_. leaseMs ks"
  "acquireSession ks" "renewSession ks" "releaseSession ks" "leaseBystander ks" "leaseCaller ks"
  "leaseCallable ks" "leaseMs ks" "\<lambda>_. True" for ks
proof (unfold_locales, goal_cases)
  case (1 m k w s b t) then show ?case using acquireSession_law by blast
next
  case (2 m k w s b t)
  then show ?case using renew_time by blast
next
  case (3 k w s b t) then show ?case using releaseSession_law by blast
next
  case (4 w m k s t) then show ?case using acquireSession_law by blast
next
  case (5 w m k s t) then show ?case using acquireSession_law by blast
next
  case (6 w m k s t)
  from 6(2) have "configOk (config ks)" by (simp add: leaseCaller_def)
  from renewSession_law [OF 6(3) this] show ?case by simp
next
  case (7 w m k s t)
  from 7(2) have "configOk (config ks)" by (simp add: leaseCaller_def)
  from renewSession_law [OF 7(3) this] show ?case by simp
next
  case (8 s w k b t) then show ?case using releaseSession_law by blast
next
  case (9 s t) then show ?case by (auto simp: leaseBystander_def sessionLeaseOf_def fun_eq_iff)
next
  case (10 w m k s) then show ?case
    using acquire_when_free by (auto simp: leaseCaller_def configOk_def)
qed simp_all

section \<open>A claimed turn\<close>

lemma claim_default:
  "claimLeaseForAcceptedTurn ks u sid c i rq wo =
   claimLeaseForAcceptedTurn ks u sid c i rq (Some (case wo of Some w \<Rightarrow> w | None \<Rightarrow> u))"
  by (cases wo) (simp_all add: claimLeaseForAcceptedTurn_def)

lemma claim_when_free:
  assumes "faultless s" "entries s = Map.empty" "connected s" "configOk (config ks)"
    and "js_trim sid \<noteq> []" "js_trim i \<noteq> []" "js_trim rq \<noteq> []" "js_trim w \<noteq> []"
  shows "fst (claimLeaseForAcceptedTurn ks u sid c i rq (Some w) s) =
      Inr (LeaseAcquired \<lparr>sl_sessionId = sid, sl_ownerToken = w\<rparr>)"
    and "faultless (snd (claimLeaseForAcceptedTurn ks u sid c i rq (Some w) s))"
  using assms
  by (simp_all add: claimLeaseForAcceptedTurn_def claimAcceptedTurnInFlight_def withClient_def bindS_def
      getClient_def command_def evalClaim_def cmdGet_def cmdSetEx_def setEntry_def live_def
      faultless_def configOk_def Let_def)

lemma claim_in_flight:
  assumes "faultless s" "live s (buildTurnInFlightKey ks c i) = Some (RString rq)"
    and "js_trim sid \<noteq> []" "js_trim i \<noteq> []" "js_trim rq' \<noteq> []" "js_trim w \<noteq> []"
  shows "fst (claimLeaseForAcceptedTurn ks u sid c i rq' (Some w) s) = Inr (LeaseInFlight (Some rq))"
proof -
  have l: "live (s\<lparr>callCount := n\<rparr>) k = live s k" "live (s\<lparr>connected := x, callCount := n\<rparr>) k = live s k" for n k x
    by (simp_all add: live_def cong: option.case_cong)
  show ?thesis
    using assms l
    by (simp add: claimLeaseForAcceptedTurn_def claimAcceptedTurnInFlight_def readTurnInFlightMarker_def
        withClient_def bindS_def getClient_def command_def evalClaim_def cmdGet_def faultless_def Let_def)
qed

section \<open>Properties\<close>


definition demoRedis :: redis where
  "demoRedis = \<lparr>clock = 0, entries = Map.empty, connected = True, callCount = 0, faults = (\<lambda>_. NoFault)\<rparr>"

definition demoHeld :: redis where
  "demoHeld = snd (acquireSession demoKeyspace None ''s'' ''A'' demoRedis)"

definition demoContended :: redis where
  "demoContended = snd (acquireSession demoKeyspace (Some (demoConversation, ''i'', ''r'')) ''s'' ''B'' demoHeld)"

lemmas demo_redis_simps = demoRedis_def demoKeyspace_def acquireSession_def acquireLease_def
  tryAcquireSessionLease_def claimLeaseForAcceptedTurn_def claimAcceptedTurnInFlight_def withClient_def
  bindS_def getClient_def command_def cmdSetEx_def cmdGet_def evalClaim_def live_def setEntry_def Let_def
  assertNonEmpty_def js_trim_def js_white_def buildSessionLeaseKey_def buildKey_def

lemma demo_acquired: "acquireSession demoKeyspace None ''s'' ''A'' demoRedis = (True, demoHeld)"
  unfolding demoHeld_def by (simp add: demo_redis_simps)

lemma demoHeld_eq:
  "demoHeld = demoRedis\<lparr>callCount := 1, entries := [''p:session:s:lease'' \<mapsto> (RString ''A'', Some 30000)]\<rparr>"
  by (simp add: demoHeld_def demo_redis_simps)

lemma demo_refused:
  "acquireSession demoKeyspace (Some (demoConversation, ''i'', ''r'')) ''s'' ''B'' demoHeld = (False, demoContended)"
proof -
  obtain b where r: "acquireSession demoKeyspace (Some (demoConversation, ''i'', ''r'')) ''s'' ''B'' demoHeld
      = (b, demoContended)"
    by (metis demoContended_def prod.collapse)
  have "sessionLeaseOf demoKeyspace demoHeld ''s'' = Some (''A'', 30000)" "clock demoHeld = 0"
    by (simp_all add: demoHeld_eq sessionLeaseOf_def buildSessionLeaseKey_def buildKey_def
        demoKeyspace_def demoRedis_def)
  with acquireSession_law [OF r] r show ?thesis by auto
qed

lemma demo_callers:
  "leaseCaller demoKeyspace ''A''" "leaseCaller demoKeyspace ''B''" "leaseCaller demoKeyspace ''C''"
  by (simp_all add: leaseCaller_def configOk_def demoKeyspace_def js_trim_def js_white_def)

abbreviation demoRun :: "redis \<times> (string \<times> string \<times> int) list \<Rightarrow> bool" where
  "demoRun \<equiv> lease_run clock (\<lambda>_. leaseMs demoKeyspace) (acquireSession demoKeyspace)
     (renewSession demoKeyspace) (releaseSession demoKeyspace) (leaseBystander demoKeyspace)
     (leaseCaller demoKeyspace) demoRedis"

lemma demo_ms [simp]: "leaseMs demoKeyspace = 30000"
  by (simp add: leaseMs_def demoKeyspace_def)

lemma demo_run_held: "demoRun (demoHeld, [(''s'', ''A'', 30000)])"
proof -
  have "demoRun (demoHeld, [(''s'', ''A'', clock demoRedis + leaseMs demoKeyspace)])"
  proof (rule lease_run.acquired [where m = None and s = demoRedis])
    show "demoRun (demoRedis, [])" by (rule lease_run.start)
  qed (rule demo_callers demo_acquired)+
  then show ?thesis by (simp add: demoRedis_def)
qed

lemma demo_run_contended: "demoRun (demoContended, [(''s'', ''A'', 30000)])"
  by (rule lease_run.refused [where m = "Some (demoConversation, ''i'', ''r'')" and s = demoHeld])
    (rule demo_run_held demo_callers demo_refused)+

lemma demoContended_clock: "clock demoContended = 0"
  using acquireSession_law [OF demo_refused] acquireSession_law [OF demo_acquired]
  by (simp add: demoRedis_def)




text \<open>C26: A turn is claimed once. After a claim of a turn succeeded, and as long as its in-flight
  marker is neither cleared nor past its lifetime, no claim of the same turn succeeds, through
  whatever session, request or token, and it changes nothing; when Redis answers, the second
  claimer is told the first one's request id.\<close>

theorem turn_claimed_once:
  assumes "inj (sha ks)" "configOk (config ks)"
    and "claimLeaseForAcceptedTurn ks u sid c i rq wo s = (Inr (LeaseAcquired l), t)"
    and "entries t' (buildTurnInFlightKey ks c i) = entries t (buildTurnInFlightKey ks c i)"
    and "clock t' \<le> clock t + leaseMs ks"
    and "sameConversation c c'"
    and "claimLeaseForAcceptedTurn ks u' sid' c' i rq' (Some w') t' = (res, t'')"
  shows "(\<forall>l'. res \<noteq> Inr (LeaseAcquired l')) \<and> entries t'' = entries t' \<and>
    (faultless t' \<and> js_trim sid' \<noteq> [] \<and> js_trim i \<noteq> [] \<and> js_trim rq' \<noteq> [] \<and> js_trim w' \<noteq> [] \<longrightarrow>
       res = Inr (LeaseInFlight (Some rq)))"
proof -
  let ?k = "buildTurnInFlightKey ks c i"
  have same: "buildTurnInFlightKey ks c' i = ?k"
    using assms(1,6) inflight_key_iff [OF assms(1), of c' i c i] by (auto simp: sameConversation_def)
  have "entries t ?k = Some (leaseEntry ks s rq)" "clock t = clock s"
    using claim_law [OF assms(3) [unfolded claim_default [of ks u sid c i rq wo]]] by auto
  with assms(4,5) have live: "live t' ?k = Some (RString rq)"
    by (simp add: live_def leaseEntry_def)
  have "(\<forall>l'. res \<noteq> Inr (LeaseAcquired l')) \<and> entries t'' = entries t'"
    using claim_law [OF assms(7)] live same by auto
  moreover have "res = Inr (LeaseInFlight (Some rq))"
    if "faultless t'" "js_trim sid' \<noteq> []" "js_trim i \<noteq> []" "js_trim rq' \<noteq> []" "js_trim w' \<noteq> []"
    using claim_in_flight [OF that(1) live [folded same] that(2-5), of u'] assms(7) by simp
  ultimately show ?thesis by blast
qed

text \<open>The same turn is retried with another request id on another session.\<close>

theorem turn_claimed_once_witness:
  "fst (claimLeaseForAcceptedTurn demoKeyspace ''u'' ''s2'' demoConversation ''i'' ''r2'' (Some ''B'')
      (snd (claimLeaseForAcceptedTurn demoKeyspace ''u'' ''s'' demoConversation ''i'' ''r'' (Some ''A'') demoRedis)))
   = Inr (LeaseInFlight (Some ''r''))"
proof -
  let ?first = "claimLeaseForAcceptedTurn demoKeyspace ''u'' ''s'' demoConversation ''i'' ''r'' (Some ''A'') demoRedis"
  let ?lease = "\<lparr>sl_sessionId = ''s'', sl_ownerToken = ''A''\<rparr>"
  have fresh: "faultless demoRedis" "entries demoRedis = Map.empty" "connected demoRedis"
    by (simp_all add: demoRedis_def faultless_def)
  have names: "js_trim ''s'' \<noteq> []" "js_trim ''i'' \<noteq> []" "js_trim ''r'' \<noteq> []" "js_trim ''A'' \<noteq> []"
    by (simp_all add: js_trim_def js_white_def)
  have r: "fst ?first = Inr (LeaseAcquired ?lease)" and f: "faultless (snd ?first)"
    using claim_when_free [OF fresh _ names, of demoKeyspace "''u''" demoConversation]
    by (simp_all add: configOk_def demoKeyspace_def)
  have first: "?first = (Inr (LeaseAcquired ?lease), snd ?first)"
    using r by (metis prod.collapse)
  let ?second = "claimLeaseForAcceptedTurn demoKeyspace ''u'' ''s2'' demoConversation ''i'' ''r2'' (Some ''B'') (snd ?first)"
  have "fst ?second = Inr (LeaseInFlight (Some ''r''))"
    using turn_claimed_once [OF _ _ first refl _ _ prod.collapse [symmetric], of demoConversation "''u''" "''s2''" "''r2''" "''B''"] f
    by (simp add: demoKeyspace_def inj_on_def configOk_def leaseMs_def sameConversation_def js_trim_def js_white_def)
  then show ?thesis .
qed


end
