(* ===== verification/BundleMarkers.thy ===== *)
theory BundleMarkers
  imports RedisState
begin

text \<open>
  Warm-bundle markers: the marker of a bundle, the set that lists the markers of an assistant,
  and the invalidation that walks the set. The operations are in \<open>RedisState\<close>; here is the
  invariant that ties the set to the markers, kept by every run without failures, and what it
  gives: an invalidation reaches every marker it should and no other.
\<close>

lemma decode_encode:
  "CHR ''|'' \<notin> set v \<Longrightarrow> decodeAssistantBundleMarkerMember (encodeAssistantBundleMarkerMember v k) = (v, k)"
proof -
  assume v: "CHR ''|'' \<notin> set v"
  then have "\<forall>c \<in> set v. c \<noteq> CHR ''|''" by auto
  then show ?thesis
    by (simp add: decodeAssistantBundleMarkerMember_def encodeAssistantBundleMarkerMember_def
        takeWhile_append dropWhile_append2 v)
qed

section \<open>Calls that do not fail\<close>

definition noFaults :: "redis \<Rightarrow> bool" where
  "noFaults s \<longleftrightarrow> (\<forall>n. faults s n = NoFault)"

text \<open>Two states that differ only in the call counter and the connection.\<close>

definition sameStore :: "redis \<Rightarrow> redis \<Rightarrow> bool" where
  "sameStore s t \<longleftrightarrow> entries t = entries s \<and> clock t = clock s \<and> faults t = faults s"

lemma command_ok: "noFaults s \<Longrightarrow> command f s = f (s\<lparr>callCount := Suc (callCount s)\<rparr>)"
  by (simp add: command_def noFaults_def Let_def)

lemma withClient_ok:
  assumes "noFaults s"
  obtains s1 where "sameStore s s1" "noFaults s1" "withClient m s = m s1"
proof (cases "connected s")
  case True
  show thesis by (rule that [of s]) (use True assms in \<open>simp_all add: withClient_def bindS_def getClient_def sameStore_def\<close>)
next
  case False
  show thesis
    by (rule that [of "s\<lparr>connected := True, callCount := Suc (callCount s)\<rparr>"])
      (use False assms in \<open>simp_all add: withClient_def bindS_def getClient_def sameStore_def noFaults_def\<close>)
qed

lemma noFaults_update [simp]:
  "noFaults (s\<lparr>callCount := n\<rparr>) = noFaults s" "noFaults (setEntry k v e s) = noFaults s"
  "noFaults (delEntry k s) = noFaults s" "noFaults (s\<lparr>clock := c\<rparr>) = noFaults s"
  by (simp_all add: noFaults_def setEntry_def delEntry_def)

lemma live_update [simp]:
  "live (s\<lparr>callCount := n\<rparr>) = live s"
  "live (setEntry k v (Some e) s) k' = (if k' = k then if clock s \<le> e then Some v else None else live s k')"
  "live (setEntry k v None s) k' = (if k' = k then Some v else live s k')"
  "live (delEntry k s) k' = (if k' = k then None else live s k')"
  by (auto simp: live_def setEntry_def delEntry_def cong: option.case_cong)

lemma live_keep_expiry [simp]:
  "live s k = Some x \<Longrightarrow> live (setEntry k v (expiryOf s k) s) k = Some v"
  by (auto simp: live_def setEntry_def expiryOf_def split: option.splits if_splits)

lemma store_update [simp]:
  "clock (setEntry k v e s) = clock s" "clock (delEntry k s) = clock s"
  "entries (setEntry k v e s) = (entries s)(k \<mapsto> (v, e))"
  "entries (delEntry k s) = (entries s)(k := None)"
  "callCount (setEntry k v e s) = callCount s" "callCount (delEntry k s) = callCount s"
  by (simp_all add: setEntry_def delEntry_def)

definition markerMs :: "keyspace \<Rightarrow> int" where
  "markerMs ks = 1000 * RUNTIME_BUNDLE_MARKER_TTL_SECONDS (config ks)"

definition memberOf :: "keyspace \<Rightarrow> bundle_ref \<Rightarrow> string" where
  "memberOf ks b = encodeAssistantBundleMarkerMember (br_publishedVersionId b) (buildBundleMarkerKey ks b)"

definition liveMembers :: "keyspace \<Rightarrow> redis \<Rightarrow> string \<Rightarrow> string list" where
  "liveMembers ks s a =
     (case live s (buildAssistantBundleMarkerSetKey ks a) of Some (RSet ms) \<Rightarrow> ms | _ \<Rightarrow> [])"

lemma mark_effect:
  assumes "noFaults s" "configOk (config ks)"
    and "\<And>v. live s (buildAssistantBundleMarkerSetKey ks (br_assistantId b)) \<noteq> Some (RString v)"
    and "markBundleWarm ks b s = (r, t)"
  shows "r = Inr () \<and> clock t = clock s \<and> noFaults t \<and>
    entries t = (entries s)(
      buildBundleMarkerKey ks b \<mapsto> (RString (br_bundleHash b), Some (clock s + markerMs ks)),
      buildAssistantBundleMarkerSetKey ks (br_assistantId b) \<mapsto>
        (RSet (addMembers [memberOf ks b] (liveMembers ks s (br_assistantId b))), Some (clock s + markerMs ks)))"
proof -
  let ?sk = "buildAssistantBundleMarkerSetKey ks (br_assistantId b)"
  obtain s1 where s1: "sameStore s s1" "noFaults s1"
    and run: "markBundleWarm ks b s =
      bindS (command (cmdSetEx (buildBundleMarkerKey ks b) (br_bundleHash b) (RUNTIME_BUNDLE_MARKER_TTL_SECONDS (config ks)) False)) (\<lambda>_.
      bindS (command (cmdSAdd ?sk [memberOf ks b])) (\<lambda>_.
      bindS (command (cmdExpire ?sk (RUNTIME_BUNDLE_MARKER_TTL_SECONDS (config ks)))) (\<lambda>_. returnS ()))) s1"
    unfolding markBundleWarm_def Let_def memberOf_def [symmetric] by (rule withClient_ok [OF assms(1)])
  have ttl: "0 < RUNTIME_BUNDLE_MARKER_TTL_SECONDS (config ks)" using assms(2) by (simp add: configOk_def)
  have live1: "live s1 = live s" using s1(1) live_cong [of s1 s] by (simp add: sameStore_def)
  show ?thesis
  proof (cases "live s ?sk")
    case None
    then show ?thesis
      using assms(4) s1 ttl live1 unfolding run sameStore_def
      by (auto simp: bindS_def command_ok cmdSetEx_def cmdSAdd_def cmdExpire_def liveMembers_def markerMs_def)
  next
    case (Some x)
    then obtain ms where "x = RSet ms" using assms(3) by (cases x) auto
    with Some show ?thesis
      using assms(4) s1 ttl live1 unfolding run sameStore_def
      by (auto simp: bindS_def command_ok cmdSetEx_def cmdSAdd_def cmdExpire_def liveMembers_def markerMs_def)
  qed
qed

text \<open>The marker keys an invalidation deletes.\<close>

definition markerKeysIn :: "string option \<Rightarrow> string list \<Rightarrow> string set" where
  "markerKeysIn v ms = (\<lambda>m. snd (decodeAssistantBundleMarkerMember m)) ` set (filter (shouldInvalidate v) ms)"

lemma invalidateLoop_effect:
  assumes "noFaults s"
  shows "\<exists>n' t. invalidateLoop v ms survivors n s =
      (Inr (survivors @ filter (\<lambda>m. \<not> shouldInvalidate v m) ms, n'), t) \<and>
    noFaults t \<and> clock t = clock s \<and>
    entries t = (\<lambda>k. if k \<in> markerKeysIn v ms then None else entries s k)"
  using assms
proof (induction ms arbitrary: survivors n s)
  case Nil
  then show ?case by (simp add: markerKeysIn_def)
next
  case (Cons m ms)
  show ?case
  proof (cases "shouldInvalidate v m")
    case False
    with Cons.IH [OF Cons.prems, of "survivors @ [m]" n] show ?thesis by (simp add: markerKeysIn_def)
  next
    case True
    let ?k = "snd (decodeAssistantBundleMarkerMember m)"
    let ?s1 = "delEntry ?k (s\<lparr>callCount := Suc (callCount s)\<rparr>)"
    have s1: "noFaults ?s1" "clock ?s1 = clock s" "entries ?s1 = (entries s)(?k := None)"
      using Cons.prems by (simp_all add: delEntry_def noFaults_def)
    from Cons.IH [OF s1(1), of survivors "if (if live s ?k \<noteq> None then 1 else 0 :: int) > 0 then n + 1 else n"]
    obtain n' t where t: "invalidateLoop v ms survivors
          (if (if live s ?k \<noteq> None then 1 else 0 :: int) > 0 then n + 1 else n) ?s1 =
        (Inr (survivors @ filter (\<lambda>m. \<not> shouldInvalidate v m) ms, n'), t)"
      "noFaults t" "clock t = clock s" "entries t = (\<lambda>k. if k \<in> markerKeysIn v ms then None else entries ?s1 k)"
      using s1(2) by auto
    have "entries t = (\<lambda>k. if k \<in> markerKeysIn v (m # ms) then None else entries s k)"
      unfolding t(4) s1(3) using True by (auto simp: markerKeysIn_def fun_eq_iff)
    with t True Cons.prems show ?thesis by (simp add: bindS_def command_ok cmdDel_def)
  qed
qed

lemma addMembers_set: "set (addMembers ms xs) = set ms \<union> set xs"
  by (induction ms arbitrary: xs) auto

lemma invalidate_effect:
  assumes "noFaults s" "configOk (config ks)"
    and "\<And>v. live s (buildAssistantBundleMarkerSetKey ks a) \<noteq> Some (RString v)"
    and "invalidateBundleMarkers ks a v s = (r, t)"
  defines "sk \<equiv> buildAssistantBundleMarkerSetKey ks a"
    and "survivors \<equiv> filter (\<lambda>m. \<not> shouldInvalidate v m) (liveMembers ks s a)"
  shows "(\<exists>n. r = Inr n) \<and> clock t = clock s \<and> noFaults t \<and>
    (liveMembers ks s a = [] \<and> entries t = entries s \<or>
     entries t = (\<lambda>k. if k \<in> markerKeysIn v (liveMembers ks s a) then None else entries s k)
       (sk := (if survivors = [] then None
               else Some (RSet (addMembers survivors []), Some (clock s + markerMs ks)))))"
proof -
  let ?T = "RUNTIME_BUNDLE_MARKER_TTL_SECONDS (config ks)"
  obtain s1 where s1: "sameStore s s1" "noFaults s1"
    and run: "invalidateBundleMarkers ks a v s =
      bindS (command (cmdSMembers sk)) (\<lambda>members.
        if members = [] then returnS 0
        else bindS (invalidateLoop v members [] 0) (\<lambda>(sv, n).
             bindS (command (cmdDel sk)) (\<lambda>_.
             if sv = [] then returnS n
             else bindS (command (cmdSAdd sk sv)) (\<lambda>_.
                  bindS (command (cmdExpire sk ?T)) (\<lambda>_. returnS n))))) s1"
    unfolding invalidateBundleMarkers_def Let_def sk_def by (rule withClient_ok [OF assms(1)])
  have ttl: "0 < ?T" using assms(2) by (simp add: configOk_def)
  have live1: "live s1 = live s" using s1(1) live_cong [of s1 s] by (simp add: sameStore_def)
  let ?s2 = "s1\<lparr>callCount := Suc (callCount s1)\<rparr>"
  have members: "command (cmdSMembers sk) s1 = (Inr (liveMembers ks s a), ?s2)"
    using assms(3) live1 s1(2)
    by (auto simp: command_ok cmdSMembers_def liveMembers_def sk_def split: option.splits redis_value.splits)
  show ?thesis
  proof (cases "liveMembers ks s a = []")
    case True
    then show ?thesis
      using assms(4) s1 members unfolding run sameStore_def by (auto simp: bindS_def)
  next
    case False
    obtain n' s3 where s3: "invalidateLoop v (liveMembers ks s a) [] 0 ?s2 = (Inr (survivors, n'), s3)"
      "noFaults s3" "clock s3 = clock s"
      "entries s3 = (\<lambda>k. if k \<in> markerKeysIn v (liveMembers ks s a) then None else entries s k)"
      using invalidateLoop_effect [of ?s2 v "liveMembers ks s a" "[]" 0] s1
      by (auto simp: survivors_def sameStore_def cong: if_cong)
    show ?thesis
      using assms(4) False s3 members ttl unfolding run
      by (auto simp: bindS_def command_ok cmdDel_def cmdSAdd_def cmdExpire_def markerMs_def)
  qed
qed

section \<open>The set of an assistant covers its markers\<close>

definition tracked :: "keyspace \<Rightarrow> redis \<Rightarrow> bundle_ref \<Rightarrow> int \<Rightarrow> bool" where
  "tracked ks s b e \<longleftrightarrow> CHR ''|'' \<notin> set (br_publishedVersionId b) \<and> e \<le> clock s + markerMs ks \<and>
     (\<exists>ms e2. entries s (buildAssistantBundleMarkerSetKey ks (br_assistantId b)) = Some (RSet ms, Some e2) \<and>
        memberOf ks b \<in> set ms \<and> e \<le> e2)"

definition markersOk :: "keyspace \<Rightarrow> redis \<Rightarrow> bool" where
  "markersOk ks s \<longleftrightarrow>
     (\<forall>b x. entries s (buildBundleMarkerKey ks b) = Some x \<longrightarrow>
        (\<exists>h e. x = (RString h, Some e) \<and> (clock s \<le> e \<longrightarrow> tracked ks s b e)))"

definition setsOk :: "keyspace \<Rightarrow> redis \<Rightarrow> bool" where
  "setsOk ks s \<longleftrightarrow>
     (\<forall>a x. entries s (buildAssistantBundleMarkerSetKey ks a) = Some x \<longrightarrow>
        (\<exists>ms e. x = (RSet ms, Some e) \<and>
           (\<forall>m \<in> set ms. \<exists>b. br_assistantId b = a \<and> CHR ''|'' \<notin> set (br_publishedVersionId b) \<and> m = memberOf ks b)))"

lemma setsOk_no_string: "setsOk ks s \<Longrightarrow> live s (buildAssistantBundleMarkerSetKey ks a) \<noteq> Some (RString v)"
  by (fastforce simp: setsOk_def live_def split: option.splits if_splits prod.splits)

lemma setsOk_member:
  assumes "setsOk ks s" "m \<in> set (liveMembers ks s a)"
  obtains b where "br_assistantId b = a" "CHR ''|'' \<notin> set (br_publishedVersionId b)" "m = memberOf ks b"
proof -
  from assms(2) obtain ms e where "entries s (buildAssistantBundleMarkerSetKey ks a) = Some (RSet ms, e)" "m \<in> set ms"
    by (auto simp: liveMembers_def live_def split: option.splits if_splits prod.splits redis_value.splits)
  with assms(1) that show thesis by (fastforce simp: setsOk_def)
qed

lemma shouldInvalidate_member:
  "CHR ''|'' \<notin> set (br_publishedVersionId b) \<Longrightarrow>
     shouldInvalidate v (memberOf ks b) \<longleftrightarrow> (v = None \<or> v = Some (br_publishedVersionId b))"
  by (auto simp: shouldInvalidate_def memberOf_def decode_encode split: option.splits)

lemma markerKeysIn_iff:
  assumes "setsOk ks s"
  shows "k \<in> markerKeysIn v (liveMembers ks s a) \<longleftrightarrow>
    (\<exists>b. memberOf ks b \<in> set (liveMembers ks s a) \<and> br_assistantId b = a \<and>
       CHR ''|'' \<notin> set (br_publishedVersionId b) \<and> k = buildBundleMarkerKey ks b \<and>
       (v = None \<or> v = Some (br_publishedVersionId b)))"
    (is "?l \<longleftrightarrow> ?r")
proof
  assume ?l
  then obtain m where m: "m \<in> set (liveMembers ks s a)" "shouldInvalidate v m"
    "k = snd (decodeAssistantBundleMarkerMember m)"
    by (auto simp: markerKeysIn_def)
  obtain b where b: "br_assistantId b = a" "CHR ''|'' \<notin> set (br_publishedVersionId b)" "m = memberOf ks b"
    by (rule setsOk_member [OF assms m(1)])
  with m shouldInvalidate_member [OF b(2), of v ks] show ?r
    by (auto simp: memberOf_def decode_encode)
next
  assume ?r
  then obtain b where b: "memberOf ks b \<in> set (liveMembers ks s a)" "CHR ''|'' \<notin> set (br_publishedVersionId b)"
    "k = buildBundleMarkerKey ks b" "v = None \<or> v = Some (br_publishedVersionId b)" by blast
  then show ?l
    using shouldInvalidate_member [OF b(2), of v ks]
    by (auto simp: markerKeysIn_def memberOf_def decode_encode image_iff intro!: bexI [of _ "memberOf ks b"])
qed

lemma mark_keeps:
  assumes "noFaults s" "configOk (config ks)" "inj (sha ks)" "markersOk ks s" "setsOk ks s"
    and "CHR ''|'' \<notin> set (br_publishedVersionId b)" "markBundleWarm ks b s = (r, t)"
  shows "noFaults t \<and> markersOk ks t \<and> setsOk ks t"
proof -
  let ?a = "br_assistantId b"
  let ?ms = "addMembers [memberOf ks b] (liveMembers ks s ?a)"
  let ?e = "clock s + markerMs ks"
  have eff: "clock t = clock s" "noFaults t" "entries t = (entries s)(
      buildBundleMarkerKey ks b \<mapsto> (RString (br_bundleHash b), Some ?e),
      buildAssistantBundleMarkerSetKey ks ?a \<mapsto> (RSet ?ms, Some ?e))"
    using mark_effect [OF assms(1,2) setsOk_no_string [OF assms(5)] assms(7)] by simp_all
  have members: "memberOf ks b' \<in> set (liveMembers ks s (br_assistantId b'))" if "tracked ks s b' e" "clock s \<le> e" for b' e
    using that by (auto simp: tracked_def liveMembers_def live_def split: option.split)
  have sets: "setsOk ks t"
    using assms(5) setsOk_member [OF assms(5)] assms(6)
    unfolding setsOk_def eff(3) by (auto simp: addMembers_set) (metis)+
  have "markersOk ks t"
    unfolding markersOk_def
  proof (intro allI impI)
    fix b' x assume x: "entries t (buildBundleMarkerKey ks b') = Some x"
    show "\<exists>h e. x = (RString h, Some e) \<and> (clock t \<le> e \<longrightarrow> tracked ks t b' e)"
    proof (cases "buildBundleMarkerKey ks b' = buildBundleMarkerKey ks b")
      case True
      then have same: "br_assistantId b' = ?a" "br_publishedVersionId b' = br_publishedVersionId b"
        using marker_key_iff [OF assms(3), of b' b] by simp_all
      then have "memberOf ks b' = memberOf ks b" using True by (simp add: memberOf_def)
      then show ?thesis
        using x True same assms(6) eff by (auto simp: tracked_def addMembers_set)
    next
      case False
      then have old: "entries s (buildBundleMarkerKey ks b') = Some x" using x eff(3) by simp
      then obtain h e where he: "x = (RString h, Some e)" "clock s \<le> e \<longrightarrow> tracked ks s b' e"
        using assms(4) unfolding markersOk_def by blast
      moreover have "tracked ks t b' e" if "clock s \<le> e"
        using he(2) that members [of b' e] eff
        by (cases "br_assistantId b' = ?a") (auto simp: tracked_def addMembers_set)
      ultimately show ?thesis using eff(1) by simp
    qed
  qed
  with eff sets show ?thesis by simp
qed

lemma invalidate_keeps:
  assumes "noFaults s" "configOk (config ks)" "inj (sha ks)" "markersOk ks s" "setsOk ks s"
    and "invalidateBundleMarkers ks a v s = (r, t)"
  shows "noFaults t \<and> markersOk ks t \<and> setsOk ks t"
proof -
  let ?sk = "buildAssistantBundleMarkerSetKey ks a"
  let ?surv = "filter (\<lambda>m. \<not> shouldInvalidate v m) (liveMembers ks s a)"
  let ?del = "markerKeysIn v (liveMembers ks s a)"
  have eff: "clock t = clock s" "noFaults t"
      "liveMembers ks s a = [] \<and> entries t = entries s \<or>
       entries t = (\<lambda>k. if k \<in> ?del then None else entries s k)
         (?sk := (if ?surv = [] then None else Some (RSet (addMembers ?surv []), Some (clock s + markerMs ks))))"
    using invalidate_effect [OF assms(1,2) setsOk_no_string [OF assms(5)] assms(6)] by simp_all
  have notset: "buildAssistantBundleMarkerSetKey ks a' \<notin> ?del" for a'
    using markerKeysIn_iff [OF assms(5)] by auto
  from eff(3) show ?thesis
  proof
    assume "liveMembers ks s a = [] \<and> entries t = entries s"
    with eff assms(4,5) show ?thesis by (simp add: markersOk_def setsOk_def tracked_def)
  next
    assume e: "entries t = (\<lambda>k. if k \<in> ?del then None else entries s k)
         (?sk := (if ?surv = [] then None else Some (RSet (addMembers ?surv []), Some (clock s + markerMs ks))))"
    have "setsOk ks t"
      unfolding setsOk_def
    proof (intro allI impI)
      fix a' x assume x: "entries t (buildAssistantBundleMarkerSetKey ks a') = Some x"
      show "\<exists>ms e. x = (RSet ms, Some e) \<and> (\<forall>m \<in> set ms. \<exists>b. br_assistantId b = a' \<and>
          CHR ''|'' \<notin> set (br_publishedVersionId b) \<and> m = memberOf ks b)"
      proof (cases "a' = a")
        case True
        then have "x = (RSet (addMembers ?surv []), Some (clock s + markerMs ks))"
          using x unfolding e by (auto split: if_splits)
        moreover have "\<exists>b. br_assistantId b = a' \<and> CHR ''|'' \<notin> set (br_publishedVersionId b) \<and> m = memberOf ks b"
          if "m \<in> set (addMembers ?surv [])" for m
          using setsOk_member [OF assms(5), of m a] that True by (auto simp: addMembers_set)
        ultimately show ?thesis by blast
      next
        case False
        with x notset have "entries s (buildAssistantBundleMarkerSetKey ks a') = Some x"
          unfolding e by simp
        with assms(5) show ?thesis unfolding setsOk_def by blast
      qed
    qed
    moreover have "markersOk ks t"
      unfolding markersOk_def
    proof (intro allI impI)
      fix b x assume x: "entries t (buildBundleMarkerKey ks b) = Some x"
      then have old: "entries s (buildBundleMarkerKey ks b) = Some x" and kept: "buildBundleMarkerKey ks b \<notin> ?del"
        unfolding e by (auto split: if_splits)
      then obtain h f where hf: "x = (RString h, Some f)" "clock s \<le> f \<longrightarrow> tracked ks s b f"
        using assms(4) unfolding markersOk_def by blast
      have "tracked ks t b f" if "clock s \<le> f"
      proof -
        have tr: "tracked ks s b f" using hf(2) that by simp
        show ?thesis
        proof (cases "br_assistantId b = a")
          case True
          have mem: "memberOf ks b \<in> set (liveMembers ks s a)"
            using tr that True by (auto simp: tracked_def liveMembers_def live_def)
          have nobar: "CHR ''|'' \<notin> set (br_publishedVersionId b)" using tr by (simp add: tracked_def)
          have "\<not> shouldInvalidate v (memberOf ks b)"
            using kept mem nobar True shouldInvalidate_member [OF nobar, of v ks]
            unfolding markerKeysIn_iff [OF assms(5)] by blast
          with mem have "memberOf ks b \<in> set ?surv" by simp
          then show ?thesis
            using tr True eff(1) unfolding tracked_def e by (auto simp: addMembers_set filter_empty_conv)
        next
          case False
          then show ?thesis using tr notset eff(1) unfolding tracked_def e by simp
        qed
      qed
      with hf(1) eff(1) show "\<exists>h f. x = (RString h, Some f) \<and> (clock t \<le> f \<longrightarrow> tracked ks t b f)" by simp
    qed
    ultimately show ?thesis using eff(2) by simp
  qed
qed

section \<open>Runs\<close>

inductive bundle_run :: "keyspace \<Rightarrow> redis \<Rightarrow> redis \<Rightarrow> bool" for ks s0 where
  start: "bundle_run ks s0 s0"
| mark: "bundle_run ks s0 s \<Longrightarrow> CHR ''|'' \<notin> set (br_publishedVersionId b) \<Longrightarrow>
    markBundleWarm ks b s = (r, t) \<Longrightarrow> bundle_run ks s0 t"
| invalidate: "bundle_run ks s0 s \<Longrightarrow> invalidateBundleMarkers ks a v s = (n, t) \<Longrightarrow> bundle_run ks s0 t"
| time: "bundle_run ks s0 s \<Longrightarrow> 0 \<le> d \<Longrightarrow> bundle_run ks s0 (s\<lparr>clock := clock s + d\<rparr>)"

lemma bundle_run_ok:
  assumes "bundle_run ks s0 s" "noFaults s0" "entries s0 = Map.empty" "configOk (config ks)" "inj (sha ks)"
  shows "noFaults s \<and> markersOk ks s \<and> setsOk ks s"
  using assms(1)
proof induction
  case start
  then show ?case using assms(2,3) by (simp add: markersOk_def setsOk_def)
next
  case (mark s b r t)
  then show ?case using mark_keeps assms(4,5) by blast
next
  case (invalidate s a v n t)
  then show ?case using invalidate_keeps assms(4,5) by blast
next
  case (time s d)
  then show ?case by (fastforce simp: markersOk_def setsOk_def tracked_def)
qed

lemma isBundleWarm_live:
  assumes "noFaults s" "markersOk ks s"
  shows "fst (isBundleWarm ks b s) = Inr (live s (buildBundleMarkerKey ks b) \<noteq> None)"
proof -
  obtain s1 where s1: "sameStore s s1" "noFaults s1"
    and run: "isBundleWarm ks b s =
      bindS (command (cmdGet (buildBundleMarkerKey ks b))) (\<lambda>v. returnS (v \<noteq> None)) s1"
    unfolding isBundleWarm_def by (rule withClient_ok [OF assms(1)])
  have live1: "live s1 = live s" using s1(1) live_cong [of s1 s] by (simp add: sameStore_def)
  have "live s (buildBundleMarkerKey ks b) \<noteq> Some (RSet ms)" for ms
    using assms(2) by (fastforce simp: markersOk_def live_def split: option.splits if_splits prod.splits)
  then show ?thesis
    unfolding run using s1(2) live1
    by (cases "live s (buildBundleMarkerKey ks b)"; cases "the (live s (buildBundleMarkerKey ks b))")
      (auto simp: bindS_def command_ok cmdGet_def)
qed

text \<open>An invalidation reaches every marker it should, and no other. After any run of marking
  bundles warm, invalidating and time passing, without failed commands, invalidating an
  assistant's bundles (of one published version, or all) succeeds and leaves exactly the other
  bundles as warm as they were. Hash collisions aside, and version ids without a bar.\<close>

theorem invalidation_exact:
  assumes "bundle_run ks s0 s" "noFaults s0" "entries s0 = Map.empty" "configOk (config ks)" "inj (sha ks)"
    and "invalidateBundleMarkers ks a v s = (r, t)"
  shows "(\<exists>n. r = Inr n) \<and> fst (isBundleWarm ks b t) =
    (if br_assistantId b = a \<and> (v = None \<or> v = Some (br_publishedVersionId b)) then Inr False
     else fst (isBundleWarm ks b s))"
proof -
  let ?k = "buildBundleMarkerKey ks b"
  have ok: "noFaults s" "markersOk ks s" "setsOk ks s"
    using bundle_run_ok [OF assms(1-5)] by simp_all
  have okt: "noFaults t" "markersOk ks t"
    using invalidate_keeps [OF ok(1) assms(4,5) ok(2,3) assms(6)] by simp_all
  have eff: "\<exists>n. r = Inr n" "clock t = clock s"
      "entries t ?k = (if ?k \<in> markerKeysIn v (liveMembers ks s a) then None else entries s ?k)"
    using invalidate_effect [OF ok(1) assms(4) setsOk_no_string [OF ok(3)] assms(6)]
    by (auto simp: markerKeysIn_def)
  have reach: "?k \<in> markerKeysIn v (liveMembers ks s a)"
    if "live s ?k \<noteq> None" "br_assistantId b = a" "v = None \<or> v = Some (br_publishedVersionId b)"
  proof -
    from that(1) obtain x where x: "entries s ?k = Some x" by (auto simp: live_def split: option.splits)
    then obtain h e where he: "x = (RString h, Some e)" "clock s \<le> e \<longrightarrow> tracked ks s b e"
      using ok(2) unfolding markersOk_def by blast
    have live: "clock s \<le> e" using that(1) x he(1) by (auto simp: live_def split: if_splits)
    with he(2) have tr: "tracked ks s b e" by simp
    then have "memberOf ks b \<in> set (liveMembers ks s a)"
      using live that(2) by (auto simp: tracked_def liveMembers_def live_def)
    then show ?thesis
      unfolding markerKeysIn_iff [OF ok(3)] using that(2,3) tr by (auto simp: tracked_def)
  qed
  have only: "br_assistantId b = a \<and> (v = None \<or> v = Some (br_publishedVersionId b))"
    if "?k \<in> markerKeysIn v (liveMembers ks s a)"
    using that unfolding markerKeysIn_iff [OF ok(3)] marker_key_iff [OF assms(5)] by auto
  have "live t ?k = (if br_assistantId b = a \<and> (v = None \<or> v = Some (br_publishedVersionId b)) then None
      else live s ?k)"
  proof (cases "?k \<in> markerKeysIn v (liveMembers ks s a)")
    case True
    then show ?thesis using only [OF True] unfolding live_def eff(2,3) by simp
  next
    case False
    have "live t ?k = live s ?k" using False unfolding live_def eff(2,3) by simp
    with False reach show ?thesis by (cases "live s ?k = None") auto
  qed
  with eff(1) show ?thesis
    unfolding isBundleWarm_live [OF okt] isBundleWarm_live [OF ok(1,2)] by (simp split: if_split_asm; blast)
qed

text \<open>Two versions of an assistant are warm; the older one is invalidated.\<close>

definition demoBundle :: "string \<Rightarrow> bundle_ref" where
  "demoBundle v = \<lparr>br_assistantId = ''a'', br_workspaceId = ''w'', br_bundleId = ''b'',
     br_publishedVersionId = v, br_bundleHash = ''h'', br_compiledAt = []\<rparr>"

definition emptyRedis :: redis where
  "emptyRedis = \<lparr>clock = 0, entries = Map.empty, connected = False, callCount = 0, faults = (\<lambda>_. NoFault)\<rparr>"

theorem invalidation_exact_witness:
  "let s1 = snd (markBundleWarm demoKeyspace (demoBundle ''v1'') emptyRedis);
       s2 = snd (markBundleWarm demoKeyspace (demoBundle ''v2'') s1);
       t = snd (invalidateBundleMarkers demoKeyspace ''a'' (Some ''v1'') s2)
   in fst (isBundleWarm demoKeyspace (demoBundle ''v1'') t) = Inr False"
proof -
  let ?s1 = "snd (markBundleWarm demoKeyspace (demoBundle ''v1'') emptyRedis)"
  let ?s2 = "snd (markBundleWarm demoKeyspace (demoBundle ''v2'') ?s1)"
  have run: "bundle_run demoKeyspace emptyRedis ?s2"
    by (rule bundle_run.mark [where b = "demoBundle ''v2''" and s = ?s1,
          OF bundle_run.mark [where b = "demoBundle ''v1''", OF bundle_run.start _ prod.collapse [symmetric]]
            _ prod.collapse [symmetric]])
      (simp_all add: demoBundle_def)
  have ok: "noFaults emptyRedis" "entries emptyRedis = Map.empty" "configOk (config demoKeyspace)" "inj (sha demoKeyspace)"
    by (simp_all add: emptyRedis_def noFaults_def configOk_def demoKeyspace_def inj_on_def)
  show ?thesis
    using invalidation_exact [OF run ok prod.collapse [symmetric], of "''a''" "Some ''v1''" "demoBundle ''v1''"]
    by (simp add: Let_def demoBundle_def)
qed

end
