(* ===== verification/RuntimeStore.thy ===== *)
theory RuntimeStore
  imports SessionLease
begin

text \<open>
  The runtime's durable state in Postgres
  (\<open>apps/runtime/src/modules/runtime-state/infrastructure/persistence/runtime-state-postgres.service.ts\<close>).

  A table is the list of its rows; a unique column is one the operations check (error P2002),
  a required row that is missing is error P2025, a session that does not exist is P2003 (the
  foreign keys to tables outside the runtime are not modelled). An optional field of an update
  is a \<open>patch\<close>: \<open>Undef\<close> when the property is absent, and then the column keeps its
  value. Every call goes through \<open>dbCall\<close>, whose oracle can fail it before or after its
  transaction committed. Row ids come from the generator \<open>idOf\<close>. The state \<open>runtime\<close> also
  holds Redis, whose clock stamps \<open>updatedAt\<close>; instants replace the ISO strings of summaries.
\<close>

section \<open>Rows\<close>

datatype 'a patch = Undef | Val 'a

fun applyPatch :: "'a patch \<Rightarrow> 'a \<Rightarrow> 'a" where
  "applyPatch Undef old = old"
| "applyPatch (Val v) old = v"

definition orDefault :: "'a patch \<Rightarrow> 'a \<Rightarrow> 'a" where
  "orDefault p d = applyPatch p d"

datatype runtime_tier = Tier_free_shared_restricted | Tier_paid_shared_restricted | Tier_paid_isolated

datatype receipt_status = Rs_accepted | Rs_completed | Rs_interrupted | Rs_failed

record runtime_session =
  rs_id :: string
  rs_assistantId :: string
  rs_workspaceId :: string
  rs_currentPublishedVersionId :: "string option"
  rs_runtimeTier :: runtime_tier
  rs_conversationKey :: string
  rs_channel :: string
  rs_externalThreadKey :: string
  rs_externalUserKey :: "string option"
  rs_mode :: string
  rs_currentBundleHash :: "string option"
  rs_currentTokens :: "int option"
  rs_totalTokensFresh :: bool
  rs_compactionCount :: int
  rs_compactionHintTokens :: "int option"
  rs_microClearActive :: bool
  rs_microClearNextArmPercent :: int
  rs_microClearPendingEval :: bool
  rs_microClearLastArmPercent :: "int option"
  rs_memoryExtractionWatermark :: int
  rs_providerKey :: "string option"
  rs_modelKey :: "string option"
  rs_lastTurnAt :: "int option"
  rs_closedAt :: "int option"
  rs_updatedAt :: int

text \<open>The optional columns of the session inputs.\<close>

record session_fields =
  sf_currentPublishedVersionId :: "string option patch"
  sf_currentBundleHash :: "string option patch"
  sf_currentTokens :: "int option patch"
  sf_totalTokensFresh :: "bool patch"
  sf_compactionCount :: "int patch"
  sf_compactionHintTokens :: "int option patch"
  sf_microClearActive :: "bool patch"
  sf_microClearNextArmPercent :: "int patch"
  sf_microClearPendingEval :: "bool patch"
  sf_microClearLastArmPercent :: "int option patch"
  sf_memoryExtractionWatermark :: "rat patch"
  sf_providerKey :: "string option patch"
  sf_modelKey :: "string option patch"
  sf_lastTurnAt :: "int option patch"
  sf_closedAt :: "int option patch"

definition noFields :: session_fields where
  "noFields = \<lparr>sf_currentPublishedVersionId = Undef, sf_currentBundleHash = Undef,
     sf_currentTokens = Undef, sf_totalTokensFresh = Undef, sf_compactionCount = Undef,
     sf_compactionHintTokens = Undef, sf_microClearActive = Undef,
     sf_microClearNextArmPercent = Undef, sf_microClearPendingEval = Undef,
     sf_microClearLastArmPercent = Undef, sf_memoryExtractionWatermark = Undef,
     sf_providerKey = Undef, sf_modelKey = Undef, sf_lastTurnAt = Undef, sf_closedAt = Undef\<rparr>"

record turn_receipt =
  tr_id :: string
  tr_assistantId :: string
  tr_workspaceId :: string
  tr_runtimeSessionId :: "string option"
  tr_publishedVersionId :: "string option"
  tr_runtimeTier :: runtime_tier
  tr_conversationKey :: string
  tr_channel :: string
  tr_externalThreadKey :: string
  tr_externalUserKey :: "string option"
  tr_mode :: string
  tr_requestId :: string
  tr_idempotencyKey :: string
  tr_bundleHash :: "string option"
  tr_status :: receipt_status
  tr_resultPayload :: "json option"
  tr_errorCode :: "string option"
  tr_errorMessage :: "string option"
  tr_completedAt :: "int option"
  tr_updatedAt :: int

record bundle_state =
  bs_assistantId :: string
  bs_workspaceId :: string
  bs_materializedSpecId :: string
  bs_publishedVersionId :: string
  bs_runtimeTier :: runtime_tier
  bs_bundleHash :: string
  bs_lastWarmedAt :: "int option"
  bs_invalidatedAt :: "int option"

record session_compaction =
  sc_id :: string
  sc_runtimeSessionId :: string
  sc_assistantId :: string
  sc_workspaceId :: string
  sc_requestId :: "string option"
  sc_reason :: "string option"
  sc_instructions :: "string option"
  sc_summaryPayload :: "json option"
  sc_tokensBefore :: "int option"
  sc_tokensAfter :: "int option"
  sc_createdAt :: int

record runtime =
  redisPart :: redis
  sessionTable :: "runtime_session list"
  receiptTable :: "turn_receipt list"
  bundleTable :: "bundle_state list"
  compactionTable :: "session_compaction list"
  nextRow :: nat
  idOf :: "nat \<Rightarrow> string"
  dbCalls :: nat
  dbFaults :: "nat \<Rightarrow> fault"

definition viaRedis :: "(redis, 'a) oper \<Rightarrow> (runtime, 'a) oper" where
  "viaRedis m s = (case m (redisPart s) of (r, x) \<Rightarrow> (r, s\<lparr>redisPart := x\<rparr>))"

definition dbCall :: "(runtime, 'a) oper \<Rightarrow> (runtime, 'a) oper" where
  "dbCall f s =
     (let s1 = s\<lparr>dbCalls := Suc (dbCalls s)\<rparr> in
      case dbFaults s (dbCalls s) of
        NoFault \<Rightarrow> transactionS f s1
      | FailBefore \<Rightarrow> (Inl (PlainError ''database unavailable''), s1)
      | FailAfter \<Rightarrow> (Inl (PlainError ''database unavailable''), snd (transactionS f s1)))"

definition nowOf :: "runtime \<Rightarrow> int" where
  "nowOf s = clock (redisPart s)"

text \<open>\<open>update\<close> of the row with a unique column: P2025 when there is none.\<close>

definition updateRows :: "('r \<Rightarrow> bool) \<Rightarrow> ('r \<Rightarrow> 'r) \<Rightarrow> 'r list \<Rightarrow> 'r list" where
  "updateRows p f rows = map (\<lambda>r. if p r then f r else r) rows"

definition countRows :: "('r \<Rightarrow> bool) \<Rightarrow> 'r list \<Rightarrow> nat" where
  "countRows p rows = length (filter p rows)"

section \<open>JSON input\<close>

definition toNullableJsonInput :: "json \<Rightarrow> json option patch" where
  "toNullableJsonInput v =
     (case v of JUndefined \<Rightarrow> Undef | JNull \<Rightarrow> Val None | _ \<Rightarrow> Val (Some v))"

definition toRequiredNullableJsonInput :: "json \<Rightarrow> json option" where
  "toRequiredNullableJsonInput v = (if v = JNull then None else Some v)"

section \<open>Bundle states\<close>

definition upsertBundleState ::
  "bundle_state \<Rightarrow> int option patch \<Rightarrow> int option patch \<Rightarrow> (runtime, bundle_state) oper" where
  "upsertBundleState input warmed invalidated = dbCall (\<lambda>s.
     (let same = (\<lambda>b. bs_publishedVersionId b = bs_publishedVersionId input);
          upd = (\<lambda>b. b\<lparr>bs_materializedSpecId := bs_materializedSpecId input,
             bs_runtimeTier := bs_runtimeTier input, bs_bundleHash := bs_bundleHash input,
             bs_lastWarmedAt := applyPatch warmed (bs_lastWarmedAt b),
             bs_invalidatedAt := applyPatch invalidated (bs_invalidatedAt b)\<rparr>);
          clash = (\<exists>b \<in> set (bundleTable s). \<not> same b \<and> bs_materializedSpecId b = bs_materializedSpecId input)
      in if clash then (Inl uniqueViolation, s)
         else case find same (bundleTable s) of
           Some b \<Rightarrow> (Inr (upd b), s\<lparr>bundleTable := updateRows same upd (bundleTable s)\<rparr>)
         | None \<Rightarrow>
             (let b = input\<lparr>bs_lastWarmedAt := orDefault warmed None,
                            bs_invalidatedAt := orDefault invalidated None\<rparr>
              in (Inr b, s\<lparr>bundleTable := bundleTable s @ [b]\<rparr>))))"

definition findBundleStateByPublishedVersionId :: "string \<Rightarrow> (runtime, bundle_state option) oper" where
  "findBundleStateByPublishedVersionId v =
     dbCall (\<lambda>s. (Inr (find (\<lambda>b. bs_publishedVersionId b = v) (bundleTable s)), s))"

definition markBundleStateWarmed :: "string \<Rightarrow> int \<Rightarrow> (runtime, bundle_state) oper" where
  "markBundleStateWarmed v warmedAt = dbCall (\<lambda>s.
     (let same = (\<lambda>b. bs_publishedVersionId b = v);
          upd = (\<lambda>b. b\<lparr>bs_lastWarmedAt := Some warmedAt, bs_invalidatedAt := None\<rparr>)
      in case find same (bundleTable s) of
           None \<Rightarrow> (Inl recordNotFound, s)
         | Some b \<Rightarrow> (Inr (upd b), s\<lparr>bundleTable := updateRows same upd (bundleTable s)\<rparr>)))"

text \<open>An empty version id is falsy in the code's test, like an absent one.\<close>

definition invalidateBundleStates :: "string \<Rightarrow> string option \<Rightarrow> int \<Rightarrow> (runtime, nat) oper" where
  "invalidateBundleStates assistantId versionId invalidatedAt = dbCall (\<lambda>s.
     (let hit = (\<lambda>b. bs_assistantId b = assistantId \<and>
             (case versionId of Some v \<Rightarrow> v = [] \<or> bs_publishedVersionId b = v | None \<Rightarrow> True))
      in (Inr (countRows hit (bundleTable s)),
          s\<lparr>bundleTable := updateRows hit (\<lambda>b. b\<lparr>bs_invalidatedAt := Some invalidatedAt\<rparr>) (bundleTable s)\<rparr>)))"

section \<open>Sessions\<close>

definition watermark :: "rat \<Rightarrow> int" where
  "watermark x = max 0 \<lfloor>x\<rfloor>"

definition patchSession :: "session_fields \<Rightarrow> int \<Rightarrow> runtime_session \<Rightarrow> runtime_session" where
  "patchSession f now r =
     r\<lparr>rs_currentPublishedVersionId := applyPatch (sf_currentPublishedVersionId f) (rs_currentPublishedVersionId r),
       rs_currentBundleHash := applyPatch (sf_currentBundleHash f) (rs_currentBundleHash r),
       rs_currentTokens := applyPatch (sf_currentTokens f) (rs_currentTokens r),
       rs_totalTokensFresh := applyPatch (sf_totalTokensFresh f) (rs_totalTokensFresh r),
       rs_compactionCount := applyPatch (sf_compactionCount f) (rs_compactionCount r),
       rs_compactionHintTokens := applyPatch (sf_compactionHintTokens f) (rs_compactionHintTokens r),
       rs_microClearActive := applyPatch (sf_microClearActive f) (rs_microClearActive r),
       rs_microClearNextArmPercent := applyPatch (sf_microClearNextArmPercent f) (rs_microClearNextArmPercent r),
       rs_microClearPendingEval := applyPatch (sf_microClearPendingEval f) (rs_microClearPendingEval r),
       rs_microClearLastArmPercent := applyPatch (sf_microClearLastArmPercent f) (rs_microClearLastArmPercent r),
       rs_memoryExtractionWatermark :=
         (case sf_memoryExtractionWatermark f of Val x \<Rightarrow> watermark x | Undef \<Rightarrow> rs_memoryExtractionWatermark r),
       rs_providerKey := applyPatch (sf_providerKey f) (rs_providerKey r),
       rs_modelKey := applyPatch (sf_modelKey f) (rs_modelKey r),
       rs_lastTurnAt := applyPatch (sf_lastTurnAt f) (rs_lastTurnAt r),
       rs_closedAt := applyPatch (sf_closedAt f) (rs_closedAt r),
       rs_updatedAt := now\<rparr>"

definition newSession ::
  "string \<Rightarrow> string \<Rightarrow> conversation_address \<Rightarrow> runtime_tier \<Rightarrow> session_fields \<Rightarrow> int \<Rightarrow> runtime_session" where
  "newSession rowId conversationKey conv tier f now =
     \<lparr>rs_id = rowId, rs_assistantId = ca_assistantId conv, rs_workspaceId = ca_workspaceId conv,
      rs_currentPublishedVersionId = orDefault (sf_currentPublishedVersionId f) None,
      rs_runtimeTier = tier, rs_conversationKey = conversationKey, rs_channel = ca_channel conv,
      rs_externalThreadKey = ca_externalThreadKey conv, rs_externalUserKey = ca_externalUserKey conv,
      rs_mode = ca_mode conv, rs_currentBundleHash = orDefault (sf_currentBundleHash f) None,
      rs_currentTokens = orDefault (sf_currentTokens f) None,
      rs_totalTokensFresh = orDefault (sf_totalTokensFresh f) True,
      rs_compactionCount = orDefault (sf_compactionCount f) 0,
      rs_compactionHintTokens = orDefault (sf_compactionHintTokens f) None,
      rs_microClearActive = orDefault (sf_microClearActive f) False,
      rs_microClearNextArmPercent = orDefault (sf_microClearNextArmPercent f) 50,
      rs_microClearPendingEval = orDefault (sf_microClearPendingEval f) False,
      rs_microClearLastArmPercent = orDefault (sf_microClearLastArmPercent f) None,
      rs_memoryExtractionWatermark = watermark (orDefault (sf_memoryExtractionWatermark f) 0),
      rs_providerKey = orDefault (sf_providerKey f) None,
      rs_modelKey = orDefault (sf_modelKey f) None,
      rs_lastTurnAt = orDefault (sf_lastTurnAt f) None,
      rs_closedAt = orDefault (sf_closedAt f) None, rs_updatedAt = now\<rparr>"

definition upsertSession ::
  "string \<Rightarrow> conversation_address \<Rightarrow> runtime_tier \<Rightarrow> session_fields \<Rightarrow> (runtime, runtime_session) oper" where
  "upsertSession conversationKey conv tier f = dbCall (\<lambda>s.
     (let same = (\<lambda>r. rs_conversationKey r = conversationKey);
          upd = (\<lambda>r. patchSession f (nowOf s)
             (r\<lparr>rs_runtimeTier := tier, rs_channel := ca_channel conv,
                rs_externalThreadKey := ca_externalThreadKey conv,
                rs_externalUserKey := ca_externalUserKey conv, rs_mode := ca_mode conv\<rparr>))
      in case find same (sessionTable s) of
           Some r \<Rightarrow> (Inr (upd r), s\<lparr>sessionTable := updateRows same upd (sessionTable s)\<rparr>)
         | None \<Rightarrow>
             (let r = newSession (idOf s (nextRow s)) conversationKey conv tier f (nowOf s)
              in (Inr r, s\<lparr>sessionTable := sessionTable s @ [r], nextRow := Suc (nextRow s)\<rparr>))))"

definition findSessionByConversationKey :: "string \<Rightarrow> (runtime, runtime_session option) oper" where
  "findSessionByConversationKey k =
     dbCall (\<lambda>s. (Inr (find (\<lambda>r. rs_conversationKey r = k) (sessionTable s)), s))"

definition findSessionById :: "string \<Rightarrow> (runtime, runtime_session option) oper" where
  "findSessionById i = dbCall (\<lambda>s. (Inr (find (\<lambda>r. rs_id r = i) (sessionTable s)), s))"

text \<open>\<open>orderBy createdAt desc\<close>: among equal instants the row inserted last stands for the greater id.\<close>

fun latestCompaction :: "session_compaction list \<Rightarrow> session_compaction option" where
  "latestCompaction [] = None"
| "latestCompaction (c # cs) =
     (case latestCompaction cs of
        None \<Rightarrow> Some c
      | Some d \<Rightarrow> if sc_createdAt d < sc_createdAt c then Some c else Some d)"

definition findLatestSessionCompaction :: "string \<Rightarrow> (runtime, session_compaction option) oper" where
  "findLatestSessionCompaction sid = dbCall (\<lambda>s.
     (Inr (latestCompaction (filter (\<lambda>c. sc_runtimeSessionId c = sid) (compactionTable s))), s))"

definition updateSession ::
  "string \<Rightarrow> runtime_tier patch \<Rightarrow> session_fields \<Rightarrow> (runtime, runtime_session) oper" where
  "updateSession sessionId tier f = dbCall (\<lambda>s.
     (let same = (\<lambda>r. rs_id r = sessionId);
          upd = (\<lambda>r. patchSession f (nowOf s) (r\<lparr>rs_runtimeTier := applyPatch tier (rs_runtimeTier r)\<rparr>))
      in case find same (sessionTable s) of
           None \<Rightarrow> (Inl recordNotFound, s)
         | Some r \<Rightarrow> (Inr (upd r), s\<lparr>sessionTable := updateRows same upd (sessionTable s)\<rparr>)))"

definition sessionExists :: "runtime \<Rightarrow> string \<Rightarrow> bool" where
  "sessionExists s sid \<longleftrightarrow> (\<exists>r \<in> set (sessionTable s). rs_id r = sid)"

definition appendSessionCompaction ::
  "session_compaction \<Rightarrow> json \<Rightarrow> (runtime, session_compaction) oper" where
  "appendSessionCompaction input summaryPayload = dbCall (\<lambda>s.
     (if \<not> sessionExists s (sc_runtimeSessionId input) then (Inl (PrismaKnownError ''P2003''), s)
      else
        (let c = input\<lparr>sc_id := idOf s (nextRow s), sc_createdAt := nowOf s,
                       sc_summaryPayload := orDefault (toNullableJsonInput summaryPayload) None\<rparr>
         in (Inr c, s\<lparr>compactionTable := compactionTable s @ [c], nextRow := Suc (nextRow s)\<rparr>))))"

section \<open>Turn receipts\<close>

definition createAcceptedTurnReceipt ::
  "string option patch \<Rightarrow> string option patch \<Rightarrow> runtime_tier \<Rightarrow> string \<Rightarrow> conversation_address \<Rightarrow>
   string \<Rightarrow> string \<Rightarrow> string option patch \<Rightarrow> (runtime, turn_receipt) oper" where
  "createAcceptedTurnReceipt sessionId versionId tier conversationKey conv requestId idempotencyKey bundleHash =
   dbCall (\<lambda>s.
     (let rows = receiptTable s;
          missing = (case orDefault sessionId None of Some sid \<Rightarrow> \<not> sessionExists s sid | None \<Rightarrow> False)
      in if \<exists>r \<in> set rows. tr_requestId r = requestId \<or>
              tr_conversationKey r = conversationKey \<and> tr_idempotencyKey r = idempotencyKey
         then (Inl uniqueViolation, s)
         else if missing then (Inl (PrismaKnownError ''P2003''), s)
         else
           (let r = \<lparr>tr_id = idOf s (nextRow s), tr_assistantId = ca_assistantId conv,
                     tr_workspaceId = ca_workspaceId conv, tr_runtimeSessionId = orDefault sessionId None,
                     tr_publishedVersionId = orDefault versionId None, tr_runtimeTier = tier,
                     tr_conversationKey = conversationKey, tr_channel = ca_channel conv,
                     tr_externalThreadKey = ca_externalThreadKey conv,
                     tr_externalUserKey = ca_externalUserKey conv, tr_mode = ca_mode conv,
                     tr_requestId = requestId, tr_idempotencyKey = idempotencyKey,
                     tr_bundleHash = orDefault bundleHash None, tr_status = Rs_accepted,
                     tr_resultPayload = None, tr_errorCode = None, tr_errorMessage = None,
                     tr_completedAt = None, tr_updatedAt = nowOf s\<rparr>
            in (Inr r, s\<lparr>receiptTable := rows @ [r], nextRow := Suc (nextRow s)\<rparr>))))"

definition findReceipt :: "(turn_receipt \<Rightarrow> bool) \<Rightarrow> (runtime, turn_receipt option) oper" where
  "findReceipt p = dbCall (\<lambda>s. (Inr (find p (receiptTable s)), s))"

definition findTurnReceiptByRequestId :: "string \<Rightarrow> (runtime, turn_receipt option) oper" where
  "findTurnReceiptByRequestId requestId = findReceipt (\<lambda>r. tr_requestId r = requestId)"

definition findTurnReceiptByConversationAndIdempotencyKey ::
  "string \<Rightarrow> string \<Rightarrow> (runtime, turn_receipt option) oper" where
  "findTurnReceiptByConversationAndIdempotencyKey ck ik =
     findReceipt (\<lambda>r. tr_conversationKey r = ck \<and> tr_idempotencyKey r = ik)"

text \<open>\<open>update\<close> of the receipt with a request id.\<close>

definition updateReceipt ::
  "string \<Rightarrow> (turn_receipt \<Rightarrow> turn_receipt) \<Rightarrow> (runtime, turn_receipt) oper" where
  "updateReceipt requestId f = dbCall (\<lambda>s.
     (let same = (\<lambda>r. tr_requestId r = requestId); upd = (\<lambda>r. (f r)\<lparr>tr_updatedAt := nowOf s\<rparr>)
      in case find same (receiptTable s) of
           None \<Rightarrow> (Inl recordNotFound, s)
         | Some r \<Rightarrow> (Inr (upd r), s\<lparr>receiptTable := updateRows same upd (receiptTable s)\<rparr>)))"

definition completedRow :: "json \<Rightarrow> int \<Rightarrow> turn_receipt \<Rightarrow> turn_receipt" where
  "completedRow payload completedAt r =
     r\<lparr>tr_status := Rs_completed, tr_resultPayload := toRequiredNullableJsonInput payload,
       tr_errorCode := None, tr_errorMessage := None, tr_completedAt := Some completedAt\<rparr>"

definition interruptedRow :: "json \<Rightarrow> int option \<Rightarrow> turn_receipt \<Rightarrow> turn_receipt" where
  "interruptedRow payload completedAt r =
     r\<lparr>tr_status := Rs_interrupted, tr_resultPayload := toRequiredNullableJsonInput payload,
       tr_errorCode := None, tr_errorMessage := None, tr_completedAt := completedAt\<rparr>"

definition failedRow :: "json \<Rightarrow> string \<Rightarrow> string \<Rightarrow> int \<Rightarrow> turn_receipt \<Rightarrow> turn_receipt" where
  "failedRow payload code message completedAt r =
     r\<lparr>tr_status := Rs_failed,
       tr_resultPayload := applyPatch (toNullableJsonInput payload) (tr_resultPayload r),
       tr_errorCode := Some code, tr_errorMessage := Some message, tr_completedAt := Some completedAt\<rparr>"

definition markTurnReceiptCompleted :: "string \<Rightarrow> json \<Rightarrow> int \<Rightarrow> (runtime, turn_receipt) oper" where
  "markTurnReceiptCompleted requestId payload completedAt =
     updateReceipt requestId (completedRow payload completedAt)"

definition markTurnReceiptInterrupted :: "string \<Rightarrow> json \<Rightarrow> int option \<Rightarrow> (runtime, turn_receipt) oper" where
  "markTurnReceiptInterrupted requestId payload completedAt =
     updateReceipt requestId (interruptedRow payload completedAt)"

definition markTurnReceiptFailed ::
  "string \<Rightarrow> json \<Rightarrow> string \<Rightarrow> string \<Rightarrow> int \<Rightarrow> (runtime, turn_receipt) oper" where
  "markTurnReceiptFailed requestId payload code message completedAt =
     updateReceipt requestId (failedRow payload code message completedAt)"

definition findStaleAcceptedTurnReceiptCandidates :: "int \<Rightarrow> nat \<Rightarrow> (runtime, turn_receipt list) oper" where
  "findStaleAcceptedTurnReceiptCandidates staleBefore limit = dbCall (\<lambda>s.
     (Inr (take limit (sort_key tr_updatedAt
        (filter (\<lambda>r. tr_status r = Rs_accepted \<and> tr_updatedAt r < staleBefore) (receiptTable s)))), s))"

definition reconcileOrphanAcceptedTurnReceipt ::
  "string \<Rightarrow> int \<Rightarrow> string \<Rightarrow> string \<Rightarrow> (runtime, nat) oper" where
  "reconcileOrphanAcceptedTurnReceipt requestId reconciledAt code message = dbCall (\<lambda>s.
     (let hit = (\<lambda>r. tr_requestId r = requestId \<and> tr_status r = Rs_accepted);
          upd = (\<lambda>r. r\<lparr>tr_status := Rs_failed, tr_errorCode := Some code, tr_errorMessage := Some message,
             tr_completedAt := Some reconciledAt, tr_resultPayload := None, tr_updatedAt := nowOf s\<rparr>)
      in (Inr (countRows hit (receiptTable s)),
          s\<lparr>receiptTable := updateRows hit upd (receiptTable s)\<rparr>)))"

definition orphanCode :: string where
  "orphanCode = ''orphan_reconciled''"

definition reclaimOrphanReconciledTurnReceipt ::
  "string \<Rightarrow> string \<Rightarrow> string \<Rightarrow> string option patch \<Rightarrow> string option patch \<Rightarrow> runtime_tier \<Rightarrow>
   string option patch \<Rightarrow> (runtime, nat) oper" where
  "reclaimOrphanReconciledTurnReceipt ck ik requestId sessionId versionId tier bundleHash = dbCall (\<lambda>s.
     (let hit = (\<lambda>r. tr_conversationKey r = ck \<and> tr_idempotencyKey r = ik \<and> tr_errorCode r = Some orphanCode);
          upd = (\<lambda>r. r\<lparr>tr_requestId := requestId, tr_status := Rs_accepted, tr_errorCode := None,
             tr_errorMessage := None, tr_completedAt := None, tr_resultPayload := None,
             tr_runtimeSessionId := applyPatch sessionId (tr_runtimeSessionId r),
             tr_publishedVersionId := applyPatch versionId (tr_publishedVersionId r),
             tr_runtimeTier := tier, tr_bundleHash := applyPatch bundleHash (tr_bundleHash r),
             tr_updatedAt := nowOf s\<rparr>);
          taken = (\<exists>r \<in> set (receiptTable s). \<not> hit r \<and> tr_requestId r = requestId);
          missing = (case orDefault sessionId None of Some sid \<Rightarrow> \<not> sessionExists s sid | None \<Rightarrow> False);
          n = countRows hit (receiptTable s)
      in if n > 0 \<and> taken then (Inl uniqueViolation, s)
         else if n > 0 \<and> missing then (Inl (PrismaKnownError ''P2003''), s)
         else (Inr n, s\<lparr>receiptTable := updateRows hit upd (receiptTable s)\<rparr>)))"

section \<open>Keys stay unique\<close>

definition receiptsOk :: "turn_receipt list \<Rightarrow> bool" where
  "receiptsOk rows \<longleftrightarrow> distinct (map tr_requestId rows) \<and>
     distinct (map (\<lambda>r. (tr_conversationKey r, tr_idempotencyKey r)) rows)"

definition sessionsOk :: "runtime \<Rightarrow> bool" where
  "sessionsOk s \<longleftrightarrow> inj (idOf s) \<and> distinct (map rs_conversationKey (sessionTable s)) \<and>
     distinct (map rs_id (sessionTable s)) \<and> rs_id ` set (sessionTable s) \<subseteq> idOf s ` {..< nextRow s}"

definition storeOk :: "runtime \<Rightarrow> bool" where
  "storeOk s \<longleftrightarrow> receiptsOk (receiptTable s) \<and> sessionsOk s"

lemma storeOk_irrelevant [simp]:
  "storeOk (s\<lparr>redisPart := x\<rparr>) = storeOk s" "storeOk (s\<lparr>dbCalls := n\<rparr>) = storeOk s"
  "storeOk (s\<lparr>bundleTable := b\<rparr>) = storeOk s" "storeOk (s\<lparr>compactionTable := c\<rparr>) = storeOk s"
  by (simp_all add: storeOk_def sessionsOk_def)

lemma preserves_viaRedis [intro, simp]: "preserves storeOk (viaRedis m)"
  by (auto simp: preserves_def viaRedis_def split: prod.splits)

lemma preserves_dbCall:
  "(\<And>s n. P (s\<lparr>dbCalls := n\<rparr>) = P s) \<Longrightarrow> preserves P f \<Longrightarrow> preserves P (dbCall f)"
  using preserves_transaction [of P f]
  by (auto simp: preserves_def dbCall_def Let_def split: fault.splits)

lemma preserves_dbStore: "preserves storeOk f \<Longrightarrow> preserves storeOk (dbCall f)"
  by (rule preserves_dbCall) simp_all

lemma preserves_find [simp]: "preserves P (\<lambda>s. (Inr (g s), s))"
  by (simp add: preserves_def)

lemma map_updateRows: "(\<And>r. p r \<Longrightarrow> k (f r) = k r) \<Longrightarrow> map k (updateRows p f rows) = map k rows"
  by (auto simp: updateRows_def)

lemma set_updateRows: "set (updateRows p f rows) = (\<lambda>r. if p r then f r else r) ` set rows"
  by (simp add: updateRows_def)

lemma updateRows_none: "\<forall>r \<in> set rows. \<not> p r \<Longrightarrow> updateRows p f rows = rows"
  unfolding updateRows_def by (rule map_idI) simp

lemma updateRows_changed: "updateRows p f rows \<noteq> rows \<Longrightarrow> \<exists>r \<in> set rows. p r"
  by (rule ccontr) (simp add: updateRows_none)

lemma updateRows_hit: "x \<in> set rows \<Longrightarrow> p x \<Longrightarrow> f x \<in> set (updateRows p f rows)"
  by (auto simp: set_updateRows)

lemma image_updateRows: "(\<And>r. p r \<Longrightarrow> k (f r) = k r) \<Longrightarrow> k ` set (updateRows p f rows) = k ` set rows"
  by (metis map_updateRows set_map)

lemma filter_unique_key: "distinct (map k xs) \<Longrightarrow> x \<in> set xs \<Longrightarrow> filter (\<lambda>y. k y = k x) xs = [x]"
proof (induction xs)
  case (Cons a xs)
  show ?case
  proof (cases "x = a")
    case True
    with Cons.prems have "filter (\<lambda>y. k y = k x) xs = []" by (auto simp: filter_empty_conv) (metis image_eqI)
    with True show ?thesis by simp
  next
    case False
    with Cons.prems have "x \<in> set xs" by simp
    then have "k a \<noteq> k x" using Cons.prems(1) by auto
    with \<open>x \<in> set xs\<close> Cons show ?thesis by simp
  qed
qed simp

text \<open>A write that replaces the receipt table, one that replaces the session table.\<close>

lemma storeOk_receipts [simp]:
  "storeOk (s\<lparr>receiptTable := rows\<rparr>) \<longleftrightarrow> receiptsOk rows \<and> sessionsOk s"
  "sessionsOk (s\<lparr>receiptTable := rows\<rparr>) \<longleftrightarrow> sessionsOk s"
  "sessionsOk (s\<lparr>dbCalls := n\<rparr>) \<longleftrightarrow> sessionsOk s"
  by (simp_all add: storeOk_def sessionsOk_def)

lemma inj_less_imageD: "inj f \<Longrightarrow> f n \<in> f ` {..< n} \<Longrightarrow> False" for n :: nat
  by (auto dest: injD)

lemma sessionsOk_row [simp]: "sessionsOk s \<Longrightarrow> sessionsOk (s\<lparr>nextRow := Suc (nextRow s)\<rparr>)"
  by (auto simp: sessionsOk_def lessThan_Suc)

lemma receiptsOk_update:
  "(\<And>r. p r \<Longrightarrow> tr_requestId (f r) = tr_requestId r \<and> tr_conversationKey (f r) = tr_conversationKey r \<and>
     tr_idempotencyKey (f r) = tr_idempotencyKey r) \<Longrightarrow> receiptsOk (updateRows p f rows) = receiptsOk rows"
  unfolding receiptsOk_def using map_updateRows [of p tr_requestId f]
    map_updateRows [of p "\<lambda>r. (tr_conversationKey r, tr_idempotencyKey r)" f] by simp

lemma sessionsOk_update:
  assumes "\<And>r. p r \<Longrightarrow> rs_id (f r) = rs_id r \<and> rs_conversationKey (f r) = rs_conversationKey r"
  shows "sessionsOk (s\<lparr>sessionTable := updateRows p f (sessionTable s)\<rparr>) = sessionsOk s"
proof -
  have "map rs_id (updateRows p f (sessionTable s)) = map rs_id (sessionTable s)"
    "map rs_conversationKey (updateRows p f (sessionTable s)) = map rs_conversationKey (sessionTable s)"
    using assms by (simp_all add: map_updateRows)
  moreover from this(1) have "rs_id ` set (updateRows p f (sessionTable s)) = rs_id ` set (sessionTable s)"
    by (metis set_map)
  ultimately show ?thesis by (simp add: sessionsOk_def)
qed

lemma patchSession_key [simp]:
  "rs_id (patchSession f n r) = rs_id r" "rs_conversationKey (patchSession f n r) = rs_conversationKey r"
  "rs_runtimeTier (patchSession f n r) = rs_runtimeTier r"
  "rs_closedAt (patchSession f n r) = applyPatch (sf_closedAt f) (rs_closedAt r)"
  by (simp_all add: patchSession_def)

lemma preserves_upsertSession [intro]: "preserves storeOk (upsertSession ck conv tier f)"
  unfolding upsertSession_def
proof (rule preserves_dbStore)
  show "preserves storeOk (\<lambda>s.
     (let same = (\<lambda>r. rs_conversationKey r = ck);
          upd = (\<lambda>r. patchSession f (nowOf s)
             (r\<lparr>rs_runtimeTier := tier, rs_channel := ca_channel conv,
                rs_externalThreadKey := ca_externalThreadKey conv,
                rs_externalUserKey := ca_externalUserKey conv, rs_mode := ca_mode conv\<rparr>))
      in case find same (sessionTable s) of
           Some r \<Rightarrow> (Inr (upd r), s\<lparr>sessionTable := updateRows same upd (sessionTable s)\<rparr>)
         | None \<Rightarrow>
             (let r = newSession (idOf s (nextRow s)) ck conv tier f (nowOf s)
              in (Inr r, s\<lparr>sessionTable := sessionTable s @ [r], nextRow := Suc (nextRow s)\<rparr>))))"
    unfolding preserves_def
  proof (intro allI impI)
    fix s assume ok: "storeOk s"
    show "storeOk (snd (let same = (\<lambda>r. rs_conversationKey r = ck);
          upd = (\<lambda>r. patchSession f (nowOf s)
             (r\<lparr>rs_runtimeTier := tier, rs_channel := ca_channel conv,
                rs_externalThreadKey := ca_externalThreadKey conv,
                rs_externalUserKey := ca_externalUserKey conv, rs_mode := ca_mode conv\<rparr>))
      in case find same (sessionTable s) of
           Some r \<Rightarrow> (Inr (upd r), s\<lparr>sessionTable := updateRows same upd (sessionTable s)\<rparr>)
         | None \<Rightarrow>
             (let r = newSession (idOf s (nextRow s)) ck conv tier f (nowOf s)
              in (Inr r, s\<lparr>sessionTable := sessionTable s @ [r], nextRow := Suc (nextRow s)\<rparr>))))"
    proof (cases "find (\<lambda>r. rs_conversationKey r = ck) (sessionTable s)")
      case None
      then have "ck \<notin> rs_conversationKey ` set (sessionTable s)" by (auto simp: find_None_iff)
      moreover have "idOf s (nextRow s) \<notin> rs_id ` set (sessionTable s)"
        using ok inj_less_imageD [of "idOf s" "nextRow s"] by (auto simp: storeOk_def sessionsOk_def)
      ultimately show ?thesis
        using None ok by (auto simp: Let_def storeOk_def sessionsOk_def newSession_def lessThan_Suc)
    next
      case (Some r)
      let ?upd = "\<lambda>r. patchSession f (nowOf s) (r\<lparr>rs_runtimeTier := tier, rs_channel := ca_channel conv,
         rs_externalThreadKey := ca_externalThreadKey conv, rs_externalUserKey := ca_externalUserKey conv,
         rs_mode := ca_mode conv\<rparr>)"
      have "sessionsOk (s\<lparr>sessionTable := updateRows (\<lambda>r. rs_conversationKey r = ck) ?upd (sessionTable s)\<rparr>)"
        using ok sessionsOk_update [of "\<lambda>r. rs_conversationKey r = ck" ?upd s] by (simp add: storeOk_def)
      with Some ok show ?thesis by (simp add: Let_def storeOk_def)
    qed
  qed
qed

lemma preserves_updateSession [intro]: "preserves storeOk (updateSession sid tier f)"
  unfolding updateSession_def
proof (rule preserves_dbStore)
  have "sessionsOk (s\<lparr>sessionTable := updateRows (\<lambda>r. rs_id r = sid)
      (\<lambda>r. patchSession f (nowOf s) (r\<lparr>rs_runtimeTier := applyPatch tier (rs_runtimeTier r)\<rparr>)) (sessionTable s)\<rparr>)
    = sessionsOk s" for s
    by (rule sessionsOk_update) simp
  then show "preserves storeOk (\<lambda>s.
     (let same = (\<lambda>r. rs_id r = sid);
          upd = (\<lambda>r. patchSession f (nowOf s) (r\<lparr>rs_runtimeTier := applyPatch tier (rs_runtimeTier r)\<rparr>))
      in case find same (sessionTable s) of
           None \<Rightarrow> (Inl recordNotFound, s)
         | Some r \<Rightarrow> (Inr (upd r), s\<lparr>sessionTable := updateRows same upd (sessionTable s)\<rparr>)))"
    by (auto simp: preserves_def Let_def storeOk_def split: option.splits)
qed

lemma preserves_createReceipt [intro]:
  "preserves storeOk (createAcceptedTurnReceipt sid v tier ck conv rq ik bh)"
  unfolding createAcceptedTurnReceipt_def
  by (rule preserves_dbStore) (auto simp: preserves_def Let_def storeOk_def receiptsOk_def sessionsOk_def lessThan_Suc)

lemma preserves_updateReceipt [intro]:
  assumes "\<And>r. tr_requestId (f r) = tr_requestId r \<and> tr_conversationKey (f r) = tr_conversationKey r \<and>
      tr_idempotencyKey (f r) = tr_idempotencyKey r"
  shows "preserves storeOk (updateReceipt rq f)"
  unfolding updateReceipt_def
  by (rule preserves_dbStore)
    (auto simp: preserves_def Let_def storeOk_def receiptsOk_update assms split: option.splits)

lemma preserves_marks [intro]:
  "preserves storeOk (markTurnReceiptCompleted rq p c)" "preserves storeOk (markTurnReceiptInterrupted rq p d)"
  "preserves storeOk (markTurnReceiptFailed rq p code msg c)"
  unfolding markTurnReceiptCompleted_def markTurnReceiptInterrupted_def markTurnReceiptFailed_def
  by (rule preserves_updateReceipt; simp add: completedRow_def interruptedRow_def failedRow_def)+

lemma preserves_reconcile [intro]: "preserves storeOk (reconcileOrphanAcceptedTurnReceipt rq moment code msg)"
  unfolding reconcileOrphanAcceptedTurnReceipt_def
  by (rule preserves_dbStore) (auto simp: preserves_def Let_def storeOk_def receiptsOk_update)

text \<open>A reclaimed receipt gets the new request id; its key pair has one row, so at most one changes.\<close>

lemma distinct_map_single_update:
  assumes "distinct (map g rows)" "distinct (map k rows)"
    and "\<And>r. p r \<Longrightarrow> g (f r) = y" "\<And>r. p r \<Longrightarrow> k r = x" "\<forall>r \<in> set rows. \<not> p r \<longrightarrow> g r \<noteq> y"
  shows "distinct (map g (updateRows p f rows))"
  using assms
proof (induction rows)
  case (Cons r rows)
  have rest: "distinct (map g (updateRows p f rows))" using Cons by simp
  show ?case
  proof (cases "p r")
    case True
    then have "\<forall>q \<in> set rows. \<not> p q" using Cons.prems(2,4) by force
    then have "updateRows p f rows = rows" by (auto simp: updateRows_def intro: map_idI)
    with True Cons.prems(1,3,5) \<open>\<forall>q \<in> set rows. \<not> p q\<close> rest show ?thesis
      by (auto simp: updateRows_def)
  next
    case False
    have "g (if p q then f q else q) \<noteq> g r" if "q \<in> set rows" for q
    proof (cases "p q")
      case True
      with False Cons.prems(3,5) show ?thesis by force
    next
      case False
      have "g q \<in> g ` set rows" using that by simp
      with False Cons.prems(1) show ?thesis by auto
    qed
    with False rest show ?thesis by (fastforce simp: updateRows_def)
  qed
qed (simp add: updateRows_def)

lemma preserves_reclaim [intro]:
  "preserves storeOk (reclaimOrphanReconciledTurnReceipt ck ik rq sid v tier bh)"
  unfolding reclaimOrphanReconciledTurnReceipt_def
proof (rule preserves_dbStore, unfold preserves_def, intro allI impI)
  fix s assume 2: "storeOk s"
  let ?hit = "\<lambda>r. tr_conversationKey r = ck \<and> tr_idempotencyKey r = ik \<and> tr_errorCode r = Some orphanCode"
  let ?upd = "\<lambda>r. r\<lparr>tr_requestId := rq, tr_status := Rs_accepted, tr_errorCode := None,
      tr_errorMessage := None, tr_completedAt := None, tr_resultPayload := None,
      tr_runtimeSessionId := applyPatch sid (tr_runtimeSessionId r),
      tr_publishedVersionId := applyPatch v (tr_publishedVersionId r),
      tr_runtimeTier := tier, tr_bundleHash := applyPatch bh (tr_bundleHash r), tr_updatedAt := nowOf s\<rparr>"
  let ?rows = "receiptTable s"
  have ok: "distinct (map tr_requestId ?rows)" "distinct (map (\<lambda>r. (tr_conversationKey r, tr_idempotencyKey r)) ?rows)"
    and sok: "sessionsOk s"
    using 2 by (simp_all add: storeOk_def receiptsOk_def)
  have keys: "map (\<lambda>r. (tr_conversationKey r, tr_idempotencyKey r)) (updateRows ?hit ?upd ?rows) =
      map (\<lambda>r. (tr_conversationKey r, tr_idempotencyKey r)) ?rows"
    by (rule map_updateRows) simp
  have "distinct (map tr_requestId (updateRows ?hit ?upd ?rows))"
    if "countRows ?hit ?rows = 0 \<or> (\<forall>r \<in> set ?rows. \<not> ?hit r \<longrightarrow> tr_requestId r \<noteq> rq)"
  proof (cases "countRows ?hit ?rows = 0")
    case True
    then have "updateRows ?hit ?upd ?rows = ?rows"
      by (auto simp: updateRows_def countRows_def filter_empty_conv intro!: map_idI)
    with ok(1) show ?thesis by simp
  next
    case False
    show ?thesis
      by (rule distinct_map_single_update [OF ok, of ?hit ?upd rq "(ck, ik)"]) (use False that in auto)
  qed
  then show "storeOk (snd (let hit = ?hit; upd = ?upd;
      taken = \<exists>r \<in> set ?rows. \<not> hit r \<and> tr_requestId r = rq;
      missing = (case orDefault sid None of Some sid \<Rightarrow> \<not> sessionExists s sid | None \<Rightarrow> False);
      n = countRows hit ?rows
    in if n > 0 \<and> taken then (Inl uniqueViolation, s)
       else if n > 0 \<and> missing then (Inl (PrismaKnownError ''P2003''), s)
       else (Inr n, s\<lparr>receiptTable := updateRows hit upd ?rows\<rparr>)))"
    using 2 ok keys sok by (auto simp: Let_def storeOk_def receiptsOk_def)
qed

end
