(* ===== verification/SessionStore.thy ===== *)
theory SessionStore
  imports RuntimeStore
begin

text \<open>
  Sessions of conversations (\<open>apps/runtime/src/modules/sessions/session-store.service.ts\<close>):
  a session is found through the Redis pointer of its conversation, healed from the Postgres row
  when the pointer is missing or stale, or created. Redis failures are swallowed, as the code's
  empty \<open>catch\<close> blocks do.
\<close>

record session_summary =
  ss_sessionId :: string
  ss_conversation :: conversation_address
  ss_currentTokens :: "int option"
  ss_totalTokensFresh :: bool
  ss_compactionCount :: int
  ss_compactionHintTokens :: "int option"
  ss_microClearActive :: bool
  ss_microClearNextArmPercent :: int
  ss_microClearPendingEval :: bool
  ss_microClearLastArmPercent :: "int option"
  ss_providerKey :: "string option"
  ss_modelKey :: "string option"
  ss_updatedAt :: int

record resolved_session =
  rv_conversationKey :: string
  rv_found :: bool
  rv_session :: "session_summary option"

record ensured_session =
  en_conversationKey :: string
  en_created :: bool
  en_session :: session_summary

definition toSessionSummary :: "runtime_session \<Rightarrow> session_summary" where
  "toSessionSummary r =
     \<lparr>ss_sessionId = rs_id r,
      ss_conversation = \<lparr>ca_assistantId = rs_assistantId r, ca_workspaceId = rs_workspaceId r,
        ca_channel = rs_channel r, ca_externalThreadKey = rs_externalThreadKey r,
        ca_externalUserKey = rs_externalUserKey r, ca_mode = rs_mode r\<rparr>,
      ss_currentTokens = rs_currentTokens r, ss_totalTokensFresh = rs_totalTokensFresh r,
      ss_compactionCount = rs_compactionCount r, ss_compactionHintTokens = rs_compactionHintTokens r,
      ss_microClearActive = rs_microClearActive r,
      ss_microClearNextArmPercent = rs_microClearNextArmPercent r,
      ss_microClearPendingEval = rs_microClearPendingEval r,
      ss_microClearLastArmPercent = rs_microClearLastArmPercent r,
      ss_providerKey = rs_providerKey r, ss_modelKey = rs_modelKey r, ss_updatedAt = rs_updatedAt r\<rparr>"

definition isCompatibleSession :: "runtime_session option \<Rightarrow> runtime_tier \<Rightarrow> bool" where
  "isCompatibleSession session tier =
     (case session of None \<Rightarrow> False | Some r \<Rightarrow> rs_closedAt r = None \<and> rs_runtimeTier r = tier)"

definition hasSessionUpdateFields :: "session_fields \<Rightarrow> bool" where
  "hasSessionUpdateFields f \<longleftrightarrow>
     sf_currentPublishedVersionId f \<noteq> Undef \<or> sf_currentBundleHash f \<noteq> Undef \<or>
     sf_currentTokens f \<noteq> Undef \<or> sf_totalTokensFresh f \<noteq> Undef \<or> sf_compactionCount f \<noteq> Undef \<or>
     sf_compactionHintTokens f \<noteq> Undef \<or> sf_microClearActive f \<noteq> Undef \<or>
     sf_microClearNextArmPercent f \<noteq> Undef \<or> sf_microClearPendingEval f \<noteq> Undef \<or>
     sf_microClearLastArmPercent f \<noteq> Undef \<or> sf_memoryExtractionWatermark f \<noteq> Undef \<or>
     sf_providerKey f \<noteq> Undef \<or> sf_modelKey f \<noteq> Undef \<or> sf_lastTurnAt f \<noteq> Undef \<or>
     sf_closedAt f \<noteq> Undef"

definition tryReadConversationPointer ::
  "keyspace \<Rightarrow> conversation_address \<Rightarrow> (runtime, string option) oper" where
  "tryReadConversationPointer ks conv =
     catchS (viaRedis (getConversationSessionPointer ks conv)) (\<lambda>_. returnS None)"

definition trySetConversationPointer ::
  "keyspace \<Rightarrow> conversation_address \<Rightarrow> string \<Rightarrow> (runtime, unit) oper" where
  "trySetConversationPointer ks conv sessionId =
     catchS (viaRedis (setConversationSessionPointer ks conv sessionId)) (\<lambda>_. returnS ())"

definition tryClearConversationPointer :: "keyspace \<Rightarrow> conversation_address \<Rightarrow> (runtime, unit) oper" where
  "tryClearConversationPointer ks conv =
     catchS (viaRedis (clearConversationSessionPointer ks conv)) (\<lambda>_. returnS ())"

definition resolveFromConversationPointer ::
  "keyspace \<Rightarrow> conversation_address \<Rightarrow> string \<Rightarrow> runtime_tier \<Rightarrow> (runtime, runtime_session option) oper" where
  "resolveFromConversationPointer ks conv conversationKey tier =
     bindS (tryReadConversationPointer ks conv) (\<lambda>pointed.
       case pointed of
         None \<Rightarrow> returnS None
       | Some sid \<Rightarrow> bindS (findSessionById sid) (\<lambda>session.
           case session of
             Some r \<Rightarrow>
               if rs_conversationKey r = conversationKey \<and> isCompatibleSession (Some r) tier
               then bindS (trySetConversationPointer ks conv (rs_id r)) (\<lambda>_. returnS (Some r))
               else bindS (tryClearConversationPointer ks conv) (\<lambda>_. returnS None)
           | None \<Rightarrow> bindS (tryClearConversationPointer ks conv) (\<lambda>_. returnS None)))"

definition resolveSession ::
  "keyspace \<Rightarrow> conversation_address \<Rightarrow> runtime_tier \<Rightarrow> (runtime, resolved_session) oper" where
  "resolveSession ks conv tier =
     (let ck = createConversationKey ks conv in
      bindS (resolveFromConversationPointer ks conv ck tier) (\<lambda>pointerSession.
        case pointerSession of
          Some r \<Rightarrow> returnS \<lparr>rv_conversationKey = ck, rv_found = True, rv_session = Some (toSessionSummary r)\<rparr>
        | None \<Rightarrow> bindS (findSessionByConversationKey ck) (\<lambda>persisted.
            case persisted of
              Some r \<Rightarrow>
                if isCompatibleSession (Some r) tier
                then bindS (trySetConversationPointer ks conv (rs_id r)) (\<lambda>_.
                       returnS \<lparr>rv_conversationKey = ck, rv_found = True, rv_session = Some (toSessionSummary r)\<rparr>)
                else returnS \<lparr>rv_conversationKey = ck, rv_found = False, rv_session = None\<rparr>
            | None \<Rightarrow> returnS \<lparr>rv_conversationKey = ck, rv_found = False, rv_session = None\<rparr>)))"

text \<open>An absent \<open>closedAt\<close> reopens the session.\<close>

definition ensureSession ::
  "keyspace \<Rightarrow> conversation_address \<Rightarrow> runtime_tier \<Rightarrow> session_fields \<Rightarrow> (runtime, ensured_session) oper" where
  "ensureSession ks conv tier f =
     bindS (resolveSession ks conv tier) (\<lambda>resolved.
       case (rv_session resolved, hasSessionUpdateFields f) of
         (Some session, False) \<Rightarrow>
           returnS \<lparr>en_conversationKey = rv_conversationKey resolved, en_created = False, en_session = session\<rparr>
       | _ \<Rightarrow>
           bindS (upsertSession (rv_conversationKey resolved) conv tier
                    (if sf_closedAt f \<noteq> Undef then f else f\<lparr>sf_closedAt := Val None\<rparr>)) (\<lambda>r.
           bindS (trySetConversationPointer ks conv (rs_id r)) (\<lambda>_.
           returnS \<lparr>en_conversationKey = rv_conversationKey resolved,
                    en_created = (rv_session resolved = None), en_session = toSessionSummary r\<rparr>)))"

definition updateSessionSummary :: "string \<Rightarrow> session_fields \<Rightarrow> (runtime, session_summary) oper" where
  "updateSessionSummary sessionId f =
     bindS (updateSession sessionId Undef f) (\<lambda>r. returnS (toSessionSummary r))"

section \<open>What the operations keep\<close>

text \<open>Redis operations leave the database alone and database operations leave Redis alone.\<close>

lemma viaRedis_result:
  "viaRedis m s = (r, t) \<Longrightarrow> \<exists>x. m (redisPart s) = (r, x) \<and> t = s\<lparr>redisPart := x\<rparr>"
  by (auto simp: viaRedis_def split: prod.splits)

definition sameDatabase :: "runtime \<Rightarrow> runtime \<Rightarrow> bool" where
  "sameDatabase s t \<longleftrightarrow> sessionTable t = sessionTable s \<and> receiptTable t = receiptTable s \<and>
     idOf t = idOf s \<and> nextRow t = nextRow s"

lemma sameDatabase_refl [simp]: "sameDatabase s s"
  by (simp add: sameDatabase_def)

lemma sameDatabase_trans: "sameDatabase s t \<Longrightarrow> sameDatabase t u \<Longrightarrow> sameDatabase s u"
  by (simp add: sameDatabase_def)

lemma sameDatabase_storeOk: "sameDatabase s t \<Longrightarrow> storeOk t = storeOk s"
  by (simp add: sameDatabase_def storeOk_def sessionsOk_def)

definition dbPure :: "(runtime, 'a) oper \<Rightarrow> bool" where
  "dbPure m \<longleftrightarrow> (\<forall>s. sameDatabase s (snd (m s)))"

lemma dbPureD: "dbPure m \<Longrightarrow> m s = (r, t) \<Longrightarrow> sameDatabase s t"
  by (metis dbPure_def snd_conv)

lemma dbPure_viaRedis [simp]: "dbPure (viaRedis m)"
  by (auto simp: dbPure_def viaRedis_def sameDatabase_def split: prod.splits)

lemma dbPure_return [simp]: "dbPure (returnS a)" "dbPure (throwS e)"
  by (simp_all add: dbPure_def)

lemma dbPure_bind [intro]: "dbPure m \<Longrightarrow> (\<And>a. dbPure (f a)) \<Longrightarrow> dbPure (bindS m f)"
  by (auto simp: dbPure_def bindS_def split: prod.splits sum.splits)
    (metis sameDatabase_trans snd_conv)+

lemma dbPure_catch [intro]: "dbPure m \<Longrightarrow> (\<And>e. dbPure (h e)) \<Longrightarrow> dbPure (catchS m h)"
  by (auto simp: dbPure_def catchS_def split: prod.splits sum.splits)
    (metis sameDatabase_trans snd_conv)+

lemma dbPure_if [intro]: "dbPure a \<Longrightarrow> dbPure b \<Longrightarrow> dbPure (if c then a else b)"
  by simp

lemma dbPure_option [intro]:
  "dbPure a \<Longrightarrow> (\<And>x. dbPure (b x)) \<Longrightarrow> dbPure (case v of None \<Rightarrow> a | Some x \<Rightarrow> b x)"
  by (cases v) auto

lemma dbPure_guard [intro]: "dbPure m \<Longrightarrow> dbPure (guardS g m)"
  by (cases g) auto

lemma dbPure_read [intro, simp]: "dbPure (dbCall (\<lambda>s. (Inr (g s), s)))"
  by (auto simp: dbPure_def dbCall_def transactionS_def sameDatabase_def Let_def split: fault.splits)

lemma dbPure_finds [simp]:
  "dbPure (findSessionById i)" "dbPure (findSessionByConversationKey k)"
  "dbPure (findTurnReceiptByRequestId rq)"
  "dbPure (findTurnReceiptByConversationAndIdempotencyKey ck ik)"
  "dbPure (findStaleAcceptedTurnReceiptCandidates b n)"
  unfolding findSessionById_def findSessionByConversationKey_def findTurnReceiptByRequestId_def
    findTurnReceiptByConversationAndIdempotencyKey_def findReceipt_def
    findStaleAcceptedTurnReceiptCandidates_def by simp_all

lemma dbPure_pointers [simp]:
  "dbPure (tryReadConversationPointer ks c)" "dbPure (trySetConversationPointer ks c i)"
  "dbPure (tryClearConversationPointer ks c)"
  unfolding tryReadConversationPointer_def trySetConversationPointer_def tryClearConversationPointer_def
  by (intro dbPure_catch; simp)+

lemma dbPure_resolve [simp]:
  "dbPure (resolveFromConversationPointer ks c ck tier)" "dbPure (resolveSession ks c tier)"
proof -
  show p: "dbPure (resolveFromConversationPointer ks c ck tier)" for ck
    unfolding resolveFromConversationPointer_def
    by (intro dbPure_bind dbPure_option dbPure_if; simp)
  show "dbPure (resolveSession ks c tier)"
    unfolding resolveSession_def Let_def by (intro dbPure_bind dbPure_option dbPure_if p; simp)
qed

text \<open>A successful database call committed its transaction.\<close>

lemma dbCall_Inr:
  "dbCall f s = (Inr a, t) \<Longrightarrow> f (s\<lparr>dbCalls := Suc (dbCalls s)\<rparr>) = (Inr a, t)"
  by (auto simp: dbCall_def Let_def transactionS_Inr_iff split: fault.splits)

lemma find_Some_set: "find p xs = Some x \<Longrightarrow> x \<in> set xs \<and> p x"
  by (auto simp: find_Some_iff)

lemma findSessionById_Inr:
  "findSessionById i s = (Inr (Some r), t) \<Longrightarrow> r \<in> set (sessionTable s) \<and> rs_id r = i"
  unfolding findSessionById_def by (auto dest!: dbCall_Inr find_Some_set)

lemma findSessionByConversationKey_Inr:
  "findSessionByConversationKey k s = (Inr (Some r), t) \<Longrightarrow> r \<in> set (sessionTable s) \<and> rs_conversationKey r = k"
  unfolding findSessionByConversationKey_def by (auto dest!: dbCall_Inr find_Some_set)

lemma resolveFromConversationPointer_Inr:
  assumes "resolveFromConversationPointer ks c ck tier s = (Inr (Some r), t)"
  shows "r \<in> set (sessionTable s) \<and> rs_conversationKey r = ck \<and> rs_closedAt r = None \<and> rs_runtimeTier r = tier"
proof -
  obtain sid s1 where p: "tryReadConversationPointer ks c s = (Inr (Some sid), s1)"
    and rest: "bindS (findSessionById sid) (\<lambda>session.
           case session of
             Some r \<Rightarrow>
               if rs_conversationKey r = ck \<and> isCompatibleSession (Some r) tier
               then bindS (trySetConversationPointer ks c (rs_id r)) (\<lambda>_. returnS (Some r))
               else bindS (tryClearConversationPointer ks c) (\<lambda>_. returnS None)
           | None \<Rightarrow> bindS (tryClearConversationPointer ks c) (\<lambda>_. returnS None)) s1 = (Inr (Some r), t)"
    using assms unfolding resolveFromConversationPointer_def
    by (auto simp: bindS_eq_Inr_iff split: option.splits)
  have db: "sessionTable s1 = sessionTable s"
    using dbPureD [OF dbPure_pointers(1) p] by (simp add: sameDatabase_def)
  from rest obtain found s2 where f: "findSessionById sid s1 = (Inr (Some found), s2)"
    and "found = r" "rs_conversationKey r = ck" "isCompatibleSession (Some r) tier"
    by (auto simp: bindS_eq_Inr_iff split: option.splits if_splits)
  with findSessionById_Inr [OF f] db show ?thesis by (simp add: isCompatibleSession_def)
qed

lemma resolveSession_Inr:
  assumes "resolveSession ks c tier s = (Inr v, t)"
  shows "rv_conversationKey v = createConversationKey ks c \<and> rv_found v = (rv_session v \<noteq> None) \<and>
    (\<forall>y. rv_session v = Some y \<longrightarrow> (\<exists>r \<in> set (sessionTable s). y = toSessionSummary r \<and>
       rs_conversationKey r = createConversationKey ks c \<and> rs_closedAt r = None \<and> rs_runtimeTier r = tier))"
proof -
  let ?ck = "createConversationKey ks c"
  obtain p s1 where p: "resolveFromConversationPointer ks c ?ck tier s = (Inr p, s1)"
    using assms unfolding resolveSession_def Let_def by (auto simp: bindS_eq_Inr_iff)
  have db: "sessionTable s1 = sessionTable s"
    using dbPureD [OF dbPure_resolve(1) p] by (simp add: sameDatabase_def)
  show ?thesis
  proof (cases p)
    case (Some r)
    with p have "r \<in> set (sessionTable s) \<and> rs_conversationKey r = ?ck \<and> rs_closedAt r = None \<and> rs_runtimeTier r = tier"
      using resolveFromConversationPointer_Inr by blast
    with assms p Some show ?thesis
      unfolding resolveSession_def Let_def by (auto simp: bindS_eq_Inr_iff)
  next
    case None
    then obtain q s2 where q: "findSessionByConversationKey ?ck s1 = (Inr q, s2)"
      using assms p unfolding resolveSession_def Let_def by (auto simp: bindS_eq_Inr_iff)
    show ?thesis
    proof (cases q)
      case None
      with assms p q \<open>p = None\<close> show ?thesis
        unfolding resolveSession_def Let_def by (auto simp: bindS_eq_Inr_iff)
    next
      case (Some r)
      with q findSessionByConversationKey_Inr db
      have "r \<in> set (sessionTable s)" "rs_conversationKey r = ?ck" by fastforce+
      with assms p q Some \<open>p = None\<close> show ?thesis
        unfolding resolveSession_def Let_def
        by (auto simp: bindS_eq_Inr_iff isCompatibleSession_def split: if_splits)
    qed
  qed
qed

lemma upsertSession_Inr:
  assumes "upsertSession ck conv tier f s = (Inr r, t)"
  shows "r \<in> set (sessionTable t) \<and> rs_conversationKey r = ck \<and> rs_runtimeTier r = tier \<and>
    receiptTable t = receiptTable s \<and> redisPart t = redisPart s \<and>
    rs_closedAt r = (case sf_closedAt f of Val v \<Rightarrow> v
      | Undef \<Rightarrow> (case find (\<lambda>r. rs_conversationKey r = ck) (sessionTable s) of
                    Some old \<Rightarrow> rs_closedAt old | None \<Rightarrow> None)) \<and>
    rs_id ` set (sessionTable s) \<subseteq> rs_id ` set (sessionTable t)"
proof (cases "find (\<lambda>r. rs_conversationKey r = ck) (sessionTable s)")
  case None
  with assms show ?thesis
    unfolding upsertSession_def
    by (cases "sf_closedAt f") (auto dest!: dbCall_Inr simp: Let_def newSession_def orDefault_def)
next
  case (Some old)
  let ?upd = "\<lambda>r. patchSession f (nowOf s) (r\<lparr>rs_runtimeTier := tier, rs_channel := ca_channel conv,
     rs_externalThreadKey := ca_externalThreadKey conv, rs_externalUserKey := ca_externalUserKey conv,
     rs_mode := ca_mode conv\<rparr>)"
  have now: "nowOf (s\<lparr>dbCalls := n\<rparr>) = nowOf s" for n by (simp add: nowOf_def)
  have r: "r = ?upd old" "t = s\<lparr>dbCalls := Suc (dbCalls s),
      sessionTable := updateRows (\<lambda>r. rs_conversationKey r = ck) ?upd (sessionTable s)\<rparr>"
    using assms Some unfolding upsertSession_def by (auto dest!: dbCall_Inr simp: Let_def now)
  moreover have "rs_id ` set (updateRows (\<lambda>r. rs_conversationKey r = ck) ?upd (sessionTable s)) = rs_id ` set (sessionTable s)"
    by (rule image_updateRows) simp
  moreover have "?upd old \<in> set (updateRows (\<lambda>r. rs_conversationKey r = ck) ?upd (sessionTable s))"
    using find_Some_set [OF Some] by (intro updateRows_hit) simp_all
  ultimately show ?thesis
    using find_Some_set [OF Some] Some by (cases "sf_closedAt f") auto
qed

lemma dbCall_Inl_or:
  "dbCall f s = (r, t) \<Longrightarrow> t = s\<lparr>dbCalls := Suc (dbCalls s)\<rparr> \<or> (\<exists>a. f (s\<lparr>dbCalls := Suc (dbCalls s)\<rparr>) = (Inr a, t))"
  by (auto simp: dbCall_def Let_def transactionS_def split: fault.splits prod.splits sum.splits)

lemma ensureSession_Inr:
  assumes "ensureSession ks conv tier f s = (Inr e, t)"
  shows "en_conversationKey e = createConversationKey ks conv \<and> receiptTable t = receiptTable s \<and>
    (\<exists>r \<in> set (sessionTable t). en_session e = toSessionSummary r \<and>
       rs_conversationKey r = createConversationKey ks conv \<and> rs_runtimeTier r = tier \<and>
       (sf_closedAt f = Undef \<longrightarrow> rs_closedAt r = None))"
proof -
  obtain v s1 where v: "resolveSession ks conv tier s = (Inr v, s1)"
    using assms unfolding ensureSession_def by (auto simp: bindS_eq_Inr_iff)
  have db: "sessionTable s1 = sessionTable s" "receiptTable s1 = receiptTable s"
    using dbPureD [OF dbPure_resolve(2) v] by (simp_all add: sameDatabase_def)
  note res = resolveSession_Inr [OF v]
  show ?thesis
  proof (cases "rv_session v \<noteq> None \<and> \<not> hasSessionUpdateFields f")
    case True
    then obtain y where y: "rv_session v = Some y" by blast
    from res y obtain r where "r \<in> set (sessionTable s)" "y = toSessionSummary r"
      "rs_conversationKey r = createConversationKey ks conv" "rs_closedAt r = None" "rs_runtimeTier r = tier" by blast
    with assms v True y db res show ?thesis
      unfolding ensureSession_def by (auto simp: bindS_eq_Inr_iff split: bool.splits)
  next
    case False
    let ?f = "if sf_closedAt f \<noteq> Undef then f else f\<lparr>sf_closedAt := Val None\<rparr>"
    from assms v False obtain r s2 u s3 where
      up: "upsertSession (rv_conversationKey v) conv tier ?f s1 = (Inr r, s2)"
      and pt: "trySetConversationPointer ks conv (rs_id r) s2 = (Inr u, t)"
      and e: "e = \<lparr>en_conversationKey = rv_conversationKey v, en_created = (rv_session v = None),
                   en_session = toSessionSummary r\<rparr>"
      unfolding ensureSession_def by (auto simp: bindS_eq_Inr_iff split: option.splits bool.splits)
    have dbt: "sessionTable t = sessionTable s2" "receiptTable t = receiptTable s2"
      using dbPureD [OF dbPure_pointers(2) pt] by (simp_all add: sameDatabase_def)
    from upsertSession_Inr [OF up] res dbt db e show ?thesis by (auto split: if_splits)
  qed
qed

lemma preserves_ensureSession [intro]: "preserves storeOk (ensureSession ks conv tier f)"
proof -
  have pure: "preserves storeOk m" if "dbPure m" for m :: "(runtime, 'a) oper"
    using that sameDatabase_storeOk unfolding preserves_def dbPure_def by blast
  have pure': "preserves storeOk m" if "dbPure m" for m :: "(runtime, resolved_session) oper"
    using that sameDatabase_storeOk unfolding preserves_def dbPure_def by blast
  have pure'': "preserves storeOk m" if "dbPure m" for m :: "(runtime, unit) oper"
    using that sameDatabase_storeOk unfolding preserves_def dbPure_def by blast
  show ?thesis
    unfolding ensureSession_def
    by (intro preserves_bind pure' dbPure_resolve)
      (auto split: option.split bool.split intro!: preserves_bind preserves_upsertSession pure'')
qed

section \<open>Properties\<close>

text \<open>A conversation has one session and resolution never crosses conversations. Whatever
  the Redis pointer says and whatever Redis calls fail, a successful \<open>ensureSession\<close>
  returns the summary of the stored row of exactly that conversation, with the requested tier,
  open unless the caller closes it; it is the only row of the conversation, the turn receipts
  are untouched, and the uniqueness of the tables' keys is kept.\<close>

theorem ensured_session_is_own:
  assumes "storeOk s" and "ensureSession ks conv tier f s = (Inr e, t)"
  shows "storeOk t \<and> receiptTable t = receiptTable s \<and>
    (\<exists>r. filter (\<lambda>r. rs_conversationKey r = createConversationKey ks conv) (sessionTable t) = [r] \<and>
       en_session e = toSessionSummary r \<and> rs_runtimeTier r = tier \<and>
       (sf_closedAt f = Undef \<longrightarrow> rs_closedAt r = None))"
proof -
  have ok: "storeOk t" using preserves_result [OF preserves_ensureSession assms(2,1)] .
  obtain r where r: "r \<in> set (sessionTable t)" "en_session e = toSessionSummary r"
    "rs_conversationKey r = createConversationKey ks conv" "rs_runtimeTier r = tier"
    "sf_closedAt f = Undef \<longrightarrow> rs_closedAt r = None"
    using ensureSession_Inr [OF assms(2)] by blast
  have "distinct (map rs_conversationKey (sessionTable t))" using ok by (simp add: storeOk_def sessionsOk_def)
  then have "filter (\<lambda>q. rs_conversationKey q = rs_conversationKey r) (sessionTable t) = [r]"
    using r(1) by (rule filter_unique_key)
  with ok r ensureSession_Inr [OF assms(2)] show ?thesis by auto
qed


text \<open>A first turn creates the session of its conversation.\<close>

definition demoRuntime :: runtime where
  "demoRuntime = \<lparr>redisPart = demoRedis, sessionTable = [], receiptTable = [], bundleTable = [],
     compactionTable = [], nextRow = 0, idOf = (\<lambda>n. replicate (Suc n) CHR ''x''), dbCalls = 0,
     dbFaults = (\<lambda>_. NoFault)\<rparr>"

lemma demoRuntime_ok: "storeOk demoRuntime"
  by (auto simp: storeOk_def receiptsOk_def sessionsOk_def demoRuntime_def inj_on_def
      dest: arg_cong [of _ _ length])

definition demoEnsured :: "ensured_session outcome \<times> runtime" where
  "demoEnsured = ensureSession demoKeyspace demoConversation Tier_paid_isolated noFields demoRuntime"

lemmas store_eval = bindS_def catchS_def viaRedis_def dbCall_def transactionS_def withClient_def
  getClient_def command_def cmdGet_def cmdSetEx_def live_def setEntry_def Let_def

lemma demoEnsured_Inr: "\<exists>e. fst demoEnsured = Inr e"
  by (simp add: demoEnsured_def ensureSession_def resolveSession_def resolveFromConversationPointer_def
      tryReadConversationPointer_def getConversationSessionPointer_def findSessionByConversationKey_def
      upsertSession_def trySetConversationPointer_def setConversationSessionPointer_def
      demoRuntime_def demoRedis_def store_eval)

theorem ensured_session_is_own_witness:
  "length (filter (\<lambda>r. rs_conversationKey r = createConversationKey demoKeyspace demoConversation)
     (sessionTable (snd demoEnsured))) = 1"
proof -
  obtain e where "fst demoEnsured = Inr e" using demoEnsured_Inr by blast
  then have "demoEnsured = (Inr e, snd demoEnsured)" by (metis prod.collapse)
  from ensured_session_is_own [OF demoRuntime_ok this [unfolded demoEnsured_def]]
  show ?thesis unfolding demoEnsured_def by auto
qed

end
