(* ===== verification/Idempotency.thy ===== *)
theory Idempotency
  imports SessionStore
begin

text \<open>
  Idempotent acceptance of a turn (\<open>apps/runtime/src/modules/turns/idempotency.service.ts\<close>):
  the receipt row with a conversation key and an idempotency key is the durable record of a turn,
  a Redis marker a shortcut to it. A receipt that lost its owner (\<open>orphan_reconciled\<close>) may be
  reclaimed by a retry, except that of an async continuation (key prefix \<open>async-cont:\<close>).

  \<open>receipt_run\<close> is any interleaving of the store operations that can touch the receipts,
  from any number of processes; it logs acceptances and reconciliations.
\<close>

record claim_input =
  ci_requestId :: string
  ci_idempotencyKey :: string
  ci_runtimeTier :: runtime_tier
  ci_conversation :: conversation_address
  ci_bundle :: bundle_ref
  ci_sessionId :: "string option patch"

record receipt_summary =
  sm_requestId :: string
  sm_sessionId :: "string option"
  sm_publishedVersionId :: "string option"
  sm_status :: receipt_status
  sm_bundleHash :: "string option"
  sm_resultPayload :: "json option"
  sm_errorCode :: "string option"
  sm_errorMessage :: "string option"
  sm_completedAt :: "int option"

record claim_turn_result =
  ct_conversationKey :: string
  ct_replayed :: bool
  ct_receipt :: receipt_summary

definition toReceiptSummary :: "turn_receipt \<Rightarrow> receipt_summary" where
  "toReceiptSummary r =
     \<lparr>sm_requestId = tr_requestId r, sm_sessionId = tr_runtimeSessionId r,
      sm_publishedVersionId = tr_publishedVersionId r, sm_status = tr_status r,
      sm_bundleHash = tr_bundleHash r, sm_resultPayload = tr_resultPayload r,
      sm_errorCode = tr_errorCode r, sm_errorMessage = tr_errorMessage r,
      sm_completedAt = tr_completedAt r\<rparr>"

definition toClaimResult :: "string \<Rightarrow> turn_receipt \<Rightarrow> bool \<Rightarrow> claim_turn_result" where
  "toClaimResult conversationKey r replayed =
     \<lparr>ct_conversationKey = conversationKey, ct_replayed = replayed, ct_receipt = toReceiptSummary r\<rparr>"

definition isOrphanReconciledReceipt :: "turn_receipt \<Rightarrow> bool" where
  "isOrphanReconciledReceipt r \<longleftrightarrow> tr_errorCode r = Some orphanCode"

definition isNonReclaimableAsyncContinuation :: "string \<Rightarrow> bool" where
  "isNonReclaimableAsyncContinuation idempotencyKey \<longleftrightarrow> startsWith idempotencyKey ''async-cont:''"

definition isUniqueConstraintError :: "js_error \<Rightarrow> bool" where
  "isUniqueConstraintError e \<longleftrightarrow> e = uniqueViolation"

definition tryReadReceiptMarker :: "keyspace \<Rightarrow> claim_input \<Rightarrow> (runtime, string option) oper" where
  "tryReadReceiptMarker ks i =
     catchS (viaRedis (readTurnReceiptMarker ks (ci_conversation i) (ci_idempotencyKey i))) (\<lambda>_. returnS None)"

definition tryWriteReceiptMarker :: "keyspace \<Rightarrow> claim_input \<Rightarrow> string \<Rightarrow> (runtime, unit) oper" where
  "tryWriteReceiptMarker ks i requestId =
     catchS (viaRedis (writeTurnReceiptMarker ks (ci_conversation i) (ci_idempotencyKey i) requestId))
       (\<lambda>_. returnS ())"

definition resolveFromMarker :: "keyspace \<Rightarrow> claim_input \<Rightarrow> string \<Rightarrow> (runtime, turn_receipt option) oper" where
  "resolveFromMarker ks i conversationKey =
     bindS (tryReadReceiptMarker ks i) (\<lambda>marker.
       case marker of
         None \<Rightarrow> returnS None
       | Some rq \<Rightarrow> bindS (findTurnReceiptByRequestId rq) (\<lambda>found.
           case found of
             None \<Rightarrow> returnS None
           | Some r \<Rightarrow>
               if tr_conversationKey r \<noteq> conversationKey \<or> tr_idempotencyKey r \<noteq> ci_idempotencyKey i \<or>
                  isOrphanReconciledReceipt r
               then returnS None else returnS (Some r)))"

definition findReplayAcceptedTurn :: "keyspace \<Rightarrow> claim_input \<Rightarrow> (runtime, claim_turn_result option) oper" where
  "findReplayAcceptedTurn ks i =
     guardS (assertNonEmpty (ci_requestId i) ''requestId'')
       (guardS (assertNonEmpty (ci_idempotencyKey i) ''idempotencyKey'')
       (let ck = createConversationKey ks (ci_conversation i) in
        bindS (resolveFromMarker ks i ck) (\<lambda>fromMarker.
          case fromMarker of
            Some r \<Rightarrow> returnS (Some (toClaimResult ck r True))
          | None \<Rightarrow>
              bindS (findTurnReceiptByConversationAndIdempotencyKey ck (ci_idempotencyKey i)) (\<lambda>existing.
                case existing of
                  Some r \<Rightarrow>
                    if \<not> isOrphanReconciledReceipt r \<or> isNonReclaimableAsyncContinuation (ci_idempotencyKey i)
                    then bindS (tryWriteReceiptMarker ks i (tr_requestId r)) (\<lambda>_.
                           returnS (Some (toClaimResult ck r True)))
                    else returnS None
                | None \<Rightarrow> returnS None))))"

text \<open>The \<open>catch\<close> block of \<open>createAcceptedTurn\<close> after a unique violation.\<close>

definition replayOrReclaim :: "keyspace \<Rightarrow> claim_input \<Rightarrow> string \<Rightarrow> js_error \<Rightarrow> (runtime, claim_turn_result) oper" where
  "replayOrReclaim ks i ck e =
     bindS (findTurnReceiptByConversationAndIdempotencyKey ck (ci_idempotencyKey i)) (\<lambda>found.
       case found of
         None \<Rightarrow> throwS e
       | Some replayed \<Rightarrow>
           if isOrphanReconciledReceipt replayed \<and> \<not> isNonReclaimableAsyncContinuation (ci_idempotencyKey i)
           then bindS (reclaimOrphanReconciledTurnReceipt ck (ci_idempotencyKey i) (ci_requestId i)
                        (Val (orDefault (ci_sessionId i) None)) (Val (Some (br_publishedVersionId (ci_bundle i))))
                        (ci_runtimeTier i) (Val (Some (br_bundleHash (ci_bundle i))))) (\<lambda>count.
                if count = 0 then throwS e
                else bindS (findTurnReceiptByRequestId (ci_requestId i)) (\<lambda>again.
                  case again of
                    None \<Rightarrow> throwS e
                  | Some r \<Rightarrow> bindS (tryWriteReceiptMarker ks i (tr_requestId r)) (\<lambda>_.
                      returnS (toClaimResult ck r False))))
           else bindS (tryWriteReceiptMarker ks i (tr_requestId replayed)) (\<lambda>_.
                  returnS (toClaimResult ck replayed True)))"

definition createAcceptedTurn :: "keyspace \<Rightarrow> claim_input \<Rightarrow> (runtime, claim_turn_result) oper" where
  "createAcceptedTurn ks i =
     guardS (assertNonEmpty (ci_requestId i) ''requestId'')
       (guardS (assertNonEmpty (ci_idempotencyKey i) ''idempotencyKey'')
       (let ck = createConversationKey ks (ci_conversation i) in
        catchS
          (bindS (createAcceptedTurnReceipt (ci_sessionId i) (Val (Some (br_publishedVersionId (ci_bundle i))))
                    (ci_runtimeTier i) ck (ci_conversation i) (ci_requestId i) (ci_idempotencyKey i)
                    (Val (Some (br_bundleHash (ci_bundle i))))) (\<lambda>created.
           bindS (tryWriteReceiptMarker ks i (tr_requestId created)) (\<lambda>_.
           returnS (toClaimResult ck created False))))
          (\<lambda>e. if \<not> isUniqueConstraintError e then throwS e else replayOrReclaim ks i ck e)))"

definition claimOrReplayAcceptedTurn :: "keyspace \<Rightarrow> claim_input \<Rightarrow> (runtime, claim_turn_result) oper" where
  "claimOrReplayAcceptedTurn ks i =
     bindS (findReplayAcceptedTurn ks i) (\<lambda>replay.
       case replay of Some r \<Rightarrow> returnS r | None \<Rightarrow> createAcceptedTurn ks i)"

definition inspectExactReceipt ::
  "keyspace \<Rightarrow> string \<Rightarrow> string \<Rightarrow> conversation_address \<Rightarrow> string \<Rightarrow> (runtime, receipt_summary option) oper" where
  "inspectExactReceipt ks requestId idempotencyKey conv sessionId =
     (let ck = createConversationKey ks conv in
      bindS (findTurnReceiptByRequestId requestId) (\<lambda>found.
        case found of
          None \<Rightarrow> returnS None
        | Some r \<Rightarrow>
            if tr_conversationKey r \<noteq> ck \<or> tr_idempotencyKey r \<noteq> idempotencyKey \<or>
               tr_runtimeSessionId r \<noteq> Some sessionId
            then returnS None else returnS (Some (toReceiptSummary r))))"

definition inspectLogicalReceipt ::
  "keyspace \<Rightarrow> string \<Rightarrow> conversation_address \<Rightarrow> (runtime, receipt_summary option) oper" where
  "inspectLogicalReceipt ks idempotencyKey conv =
     bindS (findTurnReceiptByConversationAndIdempotencyKey (createConversationKey ks conv) idempotencyKey)
       (\<lambda>found. returnS (map_option toReceiptSummary found))"

section \<open>Interleavings of the store operations\<close>

datatype receipt_event = Accepted_turn string string | Reconciled_turn string string

text \<open>
  One store operation of some process. A create or a reclaim that changed the table accepted a
  turn, also when its reply was lost; a reconcile that changed it reconciled the receipt of its
  request id. Reclaims are only sent for keys that are not async continuations, and turns fail
  with codes other than the orphan code.
\<close>

inductive receipt_step :: "runtime \<Rightarrow> receipt_event list \<Rightarrow> runtime \<Rightarrow> bool" where
  created: "createAcceptedTurnReceipt sid v tier ck conv rq ik bh s = (r, t) \<Longrightarrow>
    receipt_step s (if receiptTable t = receiptTable s then [] else [Accepted_turn ck ik]) t"
| reclaimed: "\<not> isNonReclaimableAsyncContinuation ik \<Longrightarrow>
    reclaimOrphanReconciledTurnReceipt ck ik rq sid v tier bh s = (n, t) \<Longrightarrow>
    receipt_step s (if receiptTable t = receiptTable s then [] else [Accepted_turn ck ik]) t"
| completed: "markTurnReceiptCompleted rq payload d s = (r, t) \<Longrightarrow> receipt_step s [] t"
| interrupted: "markTurnReceiptInterrupted rq payload d' s = (r, t) \<Longrightarrow> receipt_step s [] t"
| failed: "code \<noteq> orphanCode \<Longrightarrow> markTurnReceiptFailed rq payload code msg d s = (r, t) \<Longrightarrow> receipt_step s [] t"
| reconciled: "reconcileOrphanAcceptedTurnReceipt rq d orphanCode msg s = (n, t) \<Longrightarrow>
    receipt_step s
      (if receiptTable t = receiptTable s then []
       else map (\<lambda>r. Reconciled_turn (tr_conversationKey r) (tr_idempotencyKey r))
              (filter (\<lambda>r. tr_requestId r = rq) (receiptTable s))) t"
| elsewhere: "storeOk t \<Longrightarrow> receiptTable t = receiptTable s \<Longrightarrow> receipt_step s [] t"

inductive receipt_run :: "runtime \<Rightarrow> runtime \<Rightarrow> receipt_event list \<Rightarrow> bool" for s0 where
  start: "receipt_run s0 s0 []"
| step: "receipt_run s0 s es \<Longrightarrow> receipt_step s e t \<Longrightarrow> receipt_run s0 t (es @ e)"

text \<open>One if the turn has a receipt that is not an orphan's, one if it has a receipt at all.\<close>

definition ownedReceipt :: "string \<Rightarrow> string \<Rightarrow> turn_receipt list \<Rightarrow> nat" where
  "ownedReceipt ck ik rows =
     (if \<exists>r \<in> set rows. tr_conversationKey r = ck \<and> tr_idempotencyKey r = ik \<and> \<not> isOrphanReconciledReceipt r
      then 1 else 0)"

definition anyReceipt :: "string \<Rightarrow> string \<Rightarrow> turn_receipt list \<Rightarrow> nat" where
  "anyReceipt ck ik rows =
     (if \<exists>r \<in> set rows. tr_conversationKey r = ck \<and> tr_idempotencyKey r = ik then 1 else 0)"

definition timesAccepted :: "string \<Rightarrow> string \<Rightarrow> receipt_event list \<Rightarrow> nat" where
  "timesAccepted ck ik es = count_list es (Accepted_turn ck ik)"

definition timesReconciled :: "string \<Rightarrow> string \<Rightarrow> receipt_event list \<Rightarrow> nat" where
  "timesReconciled ck ik es = count_list es (Reconciled_turn ck ik)"

text \<open>What a step adds to the acceptances is paid for by the receipt table.\<close>

definition stepPays :: "runtime \<Rightarrow> receipt_event list \<Rightarrow> runtime \<Rightarrow> bool" where
  "stepPays s e t \<longleftrightarrow> storeOk t \<and>
     (\<forall>ck ik. timesAccepted ck ik e + ownedReceipt ck ik (receiptTable s)
                \<le> timesReconciled ck ik e + ownedReceipt ck ik (receiptTable t) \<and>
              (isNonReclaimableAsyncContinuation ik \<longrightarrow>
                 timesAccepted ck ik e + anyReceipt ck ik (receiptTable s) \<le> anyReceipt ck ik (receiptTable t)))"

lemma receiptsOk_same_key:
  "receiptsOk rows \<Longrightarrow> r \<in> set rows \<Longrightarrow> q \<in> set rows \<Longrightarrow>
     tr_conversationKey r = tr_conversationKey q \<Longrightarrow> tr_idempotencyKey r = tr_idempotencyKey q \<Longrightarrow> r = q"
  unfolding receiptsOk_def distinct_map by (auto dest: inj_onD)

lemma receiptsOk_same_request:
  "receiptsOk rows \<Longrightarrow> r \<in> set rows \<Longrightarrow> q \<in> set rows \<Longrightarrow> tr_requestId r = tr_requestId q \<Longrightarrow> r = q"
  unfolding receiptsOk_def distinct_map by (auto dest: inj_onD)

lemma create_table:
  assumes "createAcceptedTurnReceipt sid v tier ck conv rq ik bh s = (r, t)"
  shows "receiptTable t = receiptTable s \<or>
    (\<exists>x. receiptTable t = receiptTable s @ [x] \<and> tr_conversationKey x = ck \<and> tr_idempotencyKey x = ik \<and>
       tr_errorCode x = None \<and> anyReceipt ck ik (receiptTable s) = 0)"
  using dbCall_Inl_or [OF assms [unfolded createAcceptedTurnReceipt_def]]
  by (auto simp: Let_def anyReceipt_def split: if_splits)

lemma owned_le:
  "(\<And>r. r \<in> set rows \<Longrightarrow> tr_conversationKey r = ck \<Longrightarrow> tr_idempotencyKey r = ik \<Longrightarrow> \<not> isOrphanReconciledReceipt r \<Longrightarrow>
      \<exists>q \<in> set rows'. tr_conversationKey q = ck \<and> tr_idempotencyKey q = ik \<and> \<not> isOrphanReconciledReceipt q) \<Longrightarrow>
   ownedReceipt ck ik rows \<le> ownedReceipt ck ik rows'"
  unfolding ownedReceipt_def by auto

lemma ownedI: "q \<in> set rows \<Longrightarrow> tr_conversationKey q = ck \<Longrightarrow> tr_idempotencyKey q = ik \<Longrightarrow>
    \<not> isOrphanReconciledReceipt q \<Longrightarrow> ownedReceipt ck ik rows = 1"
  unfolding ownedReceipt_def by auto

lemma owned_le_one [simp]: "ownedReceipt ck ik rows \<le> 1" "anyReceipt ck ik rows \<le> 1"
  by (simp_all add: ownedReceipt_def anyReceipt_def)

lemma owned_le_any: "ownedReceipt ck ik rows \<le> anyReceipt ck ik rows"
  unfolding ownedReceipt_def anyReceipt_def by auto

lemma any_update:
  assumes "\<And>r. p r \<Longrightarrow> tr_conversationKey (f r) = tr_conversationKey r \<and> tr_idempotencyKey (f r) = tr_idempotencyKey r"
  shows "anyReceipt ck ik (updateRows p f rows) = anyReceipt ck ik rows"
proof -
  have keys: "(\<lambda>r. (tr_conversationKey r, tr_idempotencyKey r)) ` set (updateRows p f rows)
      = (\<lambda>r. (tr_conversationKey r, tr_idempotencyKey r)) ` set rows"
    by (rule image_updateRows) (simp add: assms)
  have mem: "(\<exists>r \<in> set xs. tr_conversationKey r = ck \<and> tr_idempotencyKey r = ik) \<longleftrightarrow>
      (ck, ik) \<in> (\<lambda>r. (tr_conversationKey r, tr_idempotencyKey r)) ` set xs" for xs
    by auto
  show ?thesis by (simp only: anyReceipt_def mem keys)
qed

lemma stepPays_none:
  assumes "storeOk t" "\<And>ck ik. ownedReceipt ck ik (receiptTable s) \<le> ownedReceipt ck ik (receiptTable t)"
    and "\<And>ck ik. anyReceipt ck ik (receiptTable s) \<le> anyReceipt ck ik (receiptTable t)"
  shows "stepPays s [] t"
  using assms by (simp add: stepPays_def timesAccepted_def timesReconciled_def)

lemma create_pays:
  assumes "storeOk s" "createAcceptedTurnReceipt sid v tier ck conv rq ik bh s = (r, t)"
  shows "stepPays s (if receiptTable t = receiptTable s then [] else [Accepted_turn ck ik]) t"
proof -
  have ok: "storeOk t" using preserves_result [OF preserves_createReceipt assms(2,1)] .
  from create_table [OF assms(2)] show ?thesis
  proof (elim disjE exE conjE)
    assume "receiptTable t = receiptTable s"
    with ok show ?thesis by (auto intro: stepPays_none)
  next
    fix x assume x: "receiptTable t = receiptTable s @ [x]" "tr_conversationKey x = ck" "tr_idempotencyKey x = ik"
      "tr_errorCode x = None" "anyReceipt ck ik (receiptTable s) = 0"
    have "ownedReceipt ck ik (receiptTable t) = 1" "anyReceipt ck ik (receiptTable t) = 1"
      using x by (auto simp: ownedReceipt_def anyReceipt_def isOrphanReconciledReceipt_def orphanCode_def)
    moreover have "ownedReceipt ck ik (receiptTable s) = 0"
      using owned_le_any [of ck ik "receiptTable s"] x(5) by simp
    moreover have "ownedReceipt c i (receiptTable s) \<le> ownedReceipt c i (receiptTable t)"
      "anyReceipt c i (receiptTable s) \<le> anyReceipt c i (receiptTable t)" for c i
      using x(1) by (auto simp: ownedReceipt_def anyReceipt_def)
    ultimately show ?thesis
      using ok x(1,5) by (auto simp: stepPays_def timesAccepted_def timesReconciled_def)
  qed
qed

lemma mark_pays:
  assumes "storeOk s" "updateReceipt rq f s = (r, t)"
    and keys: "\<And>r. tr_requestId (f r) = tr_requestId r \<and> tr_conversationKey (f r) = tr_conversationKey r \<and>
      tr_idempotencyKey (f r) = tr_idempotencyKey r \<and> tr_errorCode (f r) \<noteq> Some orphanCode"
  shows "stepPays s [] t"
proof (rule stepPays_none)
  show "storeOk t"
    by (rule preserves_result [OF preserves_updateReceipt assms(2,1)]) (use keys in simp)
  let ?f = "\<lambda>r. (f r)\<lparr>tr_updatedAt := nowOf s\<rparr>"
  have now: "nowOf (s\<lparr>dbCalls := n\<rparr>) = nowOf s" for n by (simp add: nowOf_def)
  have t: "receiptTable t = receiptTable s \<or>
      receiptTable t = updateRows (\<lambda>r. tr_requestId r = rq) ?f (receiptTable s)"
    using dbCall_Inl_or [OF assms(2) [unfolded updateReceipt_def]]
    by (auto simp: Let_def now split: option.splits)
  show "anyReceipt ck ik (receiptTable s) \<le> anyReceipt ck ik (receiptTable t)" for ck ik
    using t any_update [of "\<lambda>r. tr_requestId r = rq" ?f ck ik "receiptTable s"] keys by auto
  show "ownedReceipt ck ik (receiptTable s) \<le> ownedReceipt ck ik (receiptTable t)" for ck ik
  proof (rule owned_le)
    fix x assume x: "x \<in> set (receiptTable s)" "tr_conversationKey x = ck" "tr_idempotencyKey x = ik"
      "\<not> isOrphanReconciledReceipt x"
    from t show "\<exists>q \<in> set (receiptTable t). tr_conversationKey q = ck \<and> tr_idempotencyKey q = ik \<and> \<not> isOrphanReconciledReceipt q"
    proof
      assume "receiptTable t = updateRows (\<lambda>r. tr_requestId r = rq) ?f (receiptTable s)"
      with x keys show ?thesis
        by (intro bexI [of _ "if tr_requestId x = rq then ?f x else x"])
          (auto simp: set_updateRows isOrphanReconciledReceipt_def)
    qed (use x in auto)
  qed
qed

lemma reconcile_pays:
  assumes "storeOk s" "reconcileOrphanAcceptedTurnReceipt rq d orphanCode msg s = (n, t)"
  shows "stepPays s (if receiptTable t = receiptTable s then []
      else map (\<lambda>r. Reconciled_turn (tr_conversationKey r) (tr_idempotencyKey r))
             (filter (\<lambda>r. tr_requestId r = rq) (receiptTable s))) t"
proof -
  have ok: "storeOk t" using preserves_result [OF preserves_reconcile assms(2,1)] .
  let ?hit = "\<lambda>r. tr_requestId r = rq \<and> tr_status r = Rs_accepted"
  let ?upd = "\<lambda>r. r\<lparr>tr_status := Rs_failed, tr_errorCode := Some orphanCode, tr_errorMessage := Some msg,
     tr_completedAt := Some d, tr_resultPayload := None, tr_updatedAt := nowOf s\<rparr>"
  have now: "nowOf (s\<lparr>dbCalls := n\<rparr>) = nowOf s" for n by (simp add: nowOf_def)
  have t: "receiptTable t = receiptTable s \<or> receiptTable t = updateRows ?hit ?upd (receiptTable s)"
    using dbCall_Inl_or [OF assms(2) [unfolded reconcileOrphanAcceptedTurnReceipt_def]] by (auto simp: Let_def now)
  show ?thesis
  proof (cases "receiptTable t = receiptTable s")
    case True
    with ok show ?thesis by (auto intro: stepPays_none)
  next
    case False
    with t have rows: "receiptTable t = updateRows ?hit ?upd (receiptTable s)" by simp
    with False have "updateRows ?hit ?upd (receiptTable s) \<noteq> receiptTable s" by simp
    then obtain x where x: "x \<in> set (receiptTable s)" "tr_requestId x = rq"
      by (auto dest: updateRows_changed)
    have "distinct (map tr_requestId (receiptTable s))" using assms(1) by (simp add: storeOk_def receiptsOk_def)
    from filter_unique_key [OF this x(1)] x(2)
    have one: "filter (\<lambda>r. tr_requestId r = rq) (receiptTable s) = [x]" by simp
    have any: "anyReceipt c i (receiptTable t) = anyReceipt c i (receiptTable s)" for c i
      unfolding rows by (rule any_update) simp
    have owned: "ownedReceipt c i (receiptTable s) \<le> ownedReceipt c i (receiptTable t)"
      if "\<not> (c = tr_conversationKey x \<and> i = tr_idempotencyKey x)" for c i
    proof (rule owned_le)
      fix y assume y: "y \<in> set (receiptTable s)" "tr_conversationKey y = c" "tr_idempotencyKey y = i"
        "\<not> isOrphanReconciledReceipt y"
      then have "tr_requestId y \<noteq> rq"
        using that x receiptsOk_same_request [of "receiptTable s" y x] assms(1) by (auto simp: storeOk_def)
      with y show "\<exists>q \<in> set (receiptTable t). tr_conversationKey q = c \<and> tr_idempotencyKey q = i \<and> \<not> isOrphanReconciledReceipt q"
        unfolding rows by (intro bexI [of _ y]) (auto simp: set_updateRows)
    qed
    show ?thesis
      using ok any owned owned_le_one(1) [of "tr_conversationKey x" "tr_idempotencyKey x" "receiptTable s"] False one
      by (auto simp: stepPays_def timesAccepted_def timesReconciled_def simp del: owned_le_one intro: le_SucI trans_le_add1)
  qed
qed

lemma reclaim_pays:
  assumes "storeOk s" "\<not> isNonReclaimableAsyncContinuation ik"
    and "reclaimOrphanReconciledTurnReceipt ck ik rq sid v tier bh s = (n, t)"
  shows "stepPays s (if receiptTable t = receiptTable s then [] else [Accepted_turn ck ik]) t"
proof -
  have ok: "storeOk t" using preserves_result [OF preserves_reclaim assms(3,1)] .
  let ?hit = "\<lambda>r. tr_conversationKey r = ck \<and> tr_idempotencyKey r = ik \<and> tr_errorCode r = Some orphanCode"
  let ?upd = "\<lambda>r. r\<lparr>tr_requestId := rq, tr_status := Rs_accepted, tr_errorCode := None,
      tr_errorMessage := None, tr_completedAt := None, tr_resultPayload := None,
      tr_runtimeSessionId := applyPatch sid (tr_runtimeSessionId r),
      tr_publishedVersionId := applyPatch v (tr_publishedVersionId r),
      tr_runtimeTier := tier, tr_bundleHash := applyPatch bh (tr_bundleHash r), tr_updatedAt := nowOf s\<rparr>"
  have now: "nowOf (s\<lparr>dbCalls := n\<rparr>) = nowOf s" for n by (simp add: nowOf_def)
  have t: "receiptTable t = receiptTable s \<or> receiptTable t = updateRows ?hit ?upd (receiptTable s)"
    using dbCall_Inl_or [OF assms(3) [unfolded reclaimOrphanReconciledTurnReceipt_def]]
    by (auto simp: Let_def now split: if_splits)
  show ?thesis
  proof (cases "receiptTable t = receiptTable s")
    case True
    with ok show ?thesis by (auto intro: stepPays_none)
  next
    case False
    with t have rows: "receiptTable t = updateRows ?hit ?upd (receiptTable s)" by simp
    with False have "updateRows ?hit ?upd (receiptTable s) \<noteq> receiptTable s" by simp
    then obtain x where x: "x \<in> set (receiptTable s)" "?hit x"
      by (auto dest: updateRows_changed)
    have any: "anyReceipt c i (receiptTable t) = anyReceipt c i (receiptTable s)" for c i
      unfolding rows by (rule any_update) simp
    have before: "ownedReceipt ck ik (receiptTable s) = 0"
      using x receiptsOk_same_key [of "receiptTable s" _ x] assms(1)
      by (auto simp: ownedReceipt_def isOrphanReconciledReceipt_def storeOk_def)
    have after: "ownedReceipt ck ik (receiptTable t) = 1"
      by (rule ownedI [of "?upd x"]) (use x updateRows_hit [of x "receiptTable s" ?hit ?upd] in
        \<open>simp_all add: rows isOrphanReconciledReceipt_def\<close>)
    have owned: "ownedReceipt c i (receiptTable s) \<le> ownedReceipt c i (receiptTable t)" for c i
    proof (rule owned_le)
      fix y assume y: "y \<in> set (receiptTable s)" "tr_conversationKey y = c" "tr_idempotencyKey y = i"
        "\<not> isOrphanReconciledReceipt y"
      then show "\<exists>q \<in> set (receiptTable t). tr_conversationKey q = c \<and> tr_idempotencyKey q = i \<and> \<not> isOrphanReconciledReceipt q"
        unfolding rows by (intro bexI [of _ y]) (auto simp: set_updateRows isOrphanReconciledReceipt_def)
    qed
    show ?thesis
      using ok any owned before after False assms(2)
      by (auto simp: stepPays_def timesAccepted_def timesReconciled_def)
  qed
qed

lemma receipt_step_pays:
  assumes "receipt_step s e t" "storeOk s"
  shows "stepPays s e t"
  using assms
proof cases
  case (created sid v tier ck conv rq ik bh r)
  with create_pays [OF assms(2) created(2)] show ?thesis by simp
next
  case (reclaimed ik ck rq sid v tier bh n)
  with reclaim_pays [OF assms(2) reclaimed(2,3)] show ?thesis by simp
next
  case (completed rq payload d r)
  show ?thesis unfolding completed(1)
    by (rule mark_pays [OF assms(2) completed(2) [unfolded markTurnReceiptCompleted_def]])
      (simp add: completedRow_def orphanCode_def)
next
  case (interrupted rq payload d' r)
  show ?thesis unfolding interrupted(1)
    by (rule mark_pays [OF assms(2) interrupted(2) [unfolded markTurnReceiptInterrupted_def]])
      (simp add: interruptedRow_def orphanCode_def)
next
  case (failed code rq payload msg d r)
  show ?thesis unfolding failed(1)
    by (rule mark_pays [OF assms(2) failed(3) [unfolded markTurnReceiptFailed_def]])
      (use failed(2) in \<open>simp add: failedRow_def\<close>)
next
  case (reconciled rq d msg n)
  with reconcile_pays [OF assms(2) reconciled(2)] show ?thesis by simp
next
  case elsewhere
  then show ?thesis by (auto intro: stepPays_none)
qed

lemma receipt_run_paid:
  assumes "receipt_run s0 s es" "storeOk s0" "receiptTable s0 = []"
  shows "storeOk s \<and>
    timesAccepted ck ik es \<le> timesReconciled ck ik es + ownedReceipt ck ik (receiptTable s) \<and>
    (isNonReclaimableAsyncContinuation ik \<longrightarrow> timesAccepted ck ik es \<le> anyReceipt ck ik (receiptTable s))"
  using assms(1)
proof induction
  case start
  then show ?case using assms(2) by (simp add: timesAccepted_def timesReconciled_def)
next
  case (step s es e t)
  then have pays: "stepPays s e t" using receipt_step_pays by blast
  then have "storeOk t"
    and "timesAccepted ck ik e + ownedReceipt ck ik (receiptTable s)
      \<le> timesReconciled ck ik e + ownedReceipt ck ik (receiptTable t)"
    and "isNonReclaimableAsyncContinuation ik \<longrightarrow>
      timesAccepted ck ik e + anyReceipt ck ik (receiptTable s) \<le> anyReceipt ck ik (receiptTable t)"
    by (simp_all add: stepPays_def)
  moreover have "timesAccepted ck ik (es @ e) = timesAccepted ck ik es + timesAccepted ck ik e"
    "timesReconciled ck ik (es @ e) = timesReconciled ck ik es + timesReconciled ck ik e"
    by (simp_all add: timesAccepted_def timesReconciled_def)
  ultimately show ?case using step.IH by auto
qed

section \<open>The service's answers\<close>

lemma dbPure_markers [simp]:
  "dbPure (tryReadReceiptMarker ks i)" "dbPure (tryWriteReceiptMarker ks i rq)"
  unfolding tryReadReceiptMarker_def tryWriteReceiptMarker_def by (intro dbPure_catch; simp)+

lemma dbPure_findReplay [simp]: "dbPure (findReplayAcceptedTurn ks i)"
proof -
  have "dbPure (resolveFromMarker ks i ck)" for ck
    unfolding resolveFromMarker_def by (intro dbPure_bind dbPure_option dbPure_if; simp)
  then show ?thesis
    unfolding findReplayAcceptedTurn_def Let_def
    by (intro dbPure_guard dbPure_bind dbPure_option dbPure_if; simp)
qed

lemma findReceipt_Inr:
  "findReceipt p s = (Inr x, t) \<Longrightarrow> x = find p (receiptTable s) \<and> receiptTable t = receiptTable s"
  unfolding findReceipt_def by (auto dest!: dbCall_Inr)

lemma createReceipt_Inr:
  assumes "createAcceptedTurnReceipt sid v tier ck conv rq ik bh s = (Inr r, t)"
  shows "receiptTable t = receiptTable s @ [r] \<and> tr_requestId r = rq \<and> tr_conversationKey r = ck \<and>
    tr_idempotencyKey r = ik \<and> tr_status r = Rs_accepted \<and> tr_errorCode r = None \<and>
    tr_runtimeSessionId r = orDefault sid None \<and> anyReceipt ck ik (receiptTable s) = 0"
  using dbCall_Inr [OF assms [unfolded createAcceptedTurnReceipt_def]]
  by (auto simp: Let_def anyReceipt_def split: if_splits)

lemma createReceipt_Inl:
  assumes "createAcceptedTurnReceipt sid v tier ck conv rq ik bh s = (Inl uniqueViolation, t)"
  shows "receiptTable t = receiptTable s"
  using assms unfolding createAcceptedTurnReceipt_def
  by (auto simp: dbCall_def transactionS_def Let_def split: fault.splits prod.splits sum.splits if_splits)

lemma reclaim_Inr:
  assumes "storeOk s" "reclaimOrphanReconciledTurnReceipt ck ik rq sid v tier bh s = (Inr n, t)" "n \<noteq> 0"
  shows "\<exists>r \<in> set (receiptTable t). tr_requestId r = rq \<and> tr_conversationKey r = ck \<and> tr_idempotencyKey r = ik \<and>
      tr_status r = Rs_accepted \<and> tr_errorCode r = None \<and> (\<forall>y. sid = Val y \<longrightarrow> tr_runtimeSessionId r = y)"
    and "ownedReceipt ck ik (receiptTable s) = 0"
proof -
  let ?hit = "\<lambda>r. tr_conversationKey r = ck \<and> tr_idempotencyKey r = ik \<and> tr_errorCode r = Some orphanCode"
  let ?upd = "\<lambda>r. r\<lparr>tr_requestId := rq, tr_status := Rs_accepted, tr_errorCode := None,
      tr_errorMessage := None, tr_completedAt := None, tr_resultPayload := None,
      tr_runtimeSessionId := applyPatch sid (tr_runtimeSessionId r),
      tr_publishedVersionId := applyPatch v (tr_publishedVersionId r),
      tr_runtimeTier := tier, tr_bundleHash := applyPatch bh (tr_bundleHash r), tr_updatedAt := nowOf s\<rparr>"
  have now: "nowOf (s\<lparr>dbCalls := m\<rparr>) = nowOf s" for m by (simp add: nowOf_def)
  have t: "receiptTable t = updateRows ?hit ?upd (receiptTable s)" "n = countRows ?hit (receiptTable s)"
    using dbCall_Inr [OF assms(2) [unfolded reclaimOrphanReconciledTurnReceipt_def]]
    by (auto simp: Let_def now split: if_splits)
  from assms(3) t(2) have "\<exists>x \<in> set (receiptTable s). ?hit x" by (auto simp: countRows_def filter_empty_conv)
  then obtain x where x: "x \<in> set (receiptTable s)" "?hit x" by blast
  from updateRows_hit [of x "receiptTable s" ?hit ?upd] x t(1)
  have "?upd x \<in> set (receiptTable t)" by simp
  then show "\<exists>r \<in> set (receiptTable t). tr_requestId r = rq \<and> tr_conversationKey r = ck \<and> tr_idempotencyKey r = ik \<and>
      tr_status r = Rs_accepted \<and> tr_errorCode r = None \<and> (\<forall>y. sid = Val y \<longrightarrow> tr_runtimeSessionId r = y)"
    by (rule bexI [rotated]) (use x in auto)
  show "ownedReceipt ck ik (receiptTable s) = 0"
    using x receiptsOk_same_key [of "receiptTable s" _ x] assms(1)
    by (auto simp: ownedReceipt_def isOrphanReconciledReceipt_def storeOk_def)
qed

lemma find_receipt_unique:
  assumes "receiptsOk rows" "r \<in> set rows" "find (\<lambda>r. tr_requestId r = rq) rows = Some q" "tr_requestId r = rq"
  shows "q = r"
  using find_Some_set [OF assms(3)] receiptsOk_same_request [OF assms(1) _ assms(2)] assms(4) by simp

text \<open>What \<open>createAcceptedTurn\<close> promises about the tables it leaves.\<close>

definition acceptedFresh :: "keyspace \<Rightarrow> claim_input \<Rightarrow> runtime \<Rightarrow> claim_turn_result \<Rightarrow> runtime \<Rightarrow> bool" where
  "acceptedFresh ks i s c t \<longleftrightarrow>
     ownedReceipt (createConversationKey ks (ci_conversation i)) (ci_idempotencyKey i) (receiptTable s) = 0 \<and>
     (\<exists>r \<in> set (receiptTable t). ct_receipt c = toReceiptSummary r \<and> tr_requestId r = ci_requestId i \<and>
        tr_conversationKey r = createConversationKey ks (ci_conversation i) \<and>
        tr_idempotencyKey r = ci_idempotencyKey i \<and> tr_status r = Rs_accepted \<and> tr_errorCode r = None \<and>
        tr_runtimeSessionId r = orDefault (ci_sessionId i) None)"

definition replayedExisting :: "keyspace \<Rightarrow> claim_input \<Rightarrow> runtime \<Rightarrow> claim_turn_result \<Rightarrow> runtime \<Rightarrow> bool" where
  "replayedExisting ks i s c t \<longleftrightarrow> receiptTable t = receiptTable s \<and>
     (\<exists>r \<in> set (receiptTable s). ct_receipt c = toReceiptSummary r \<and>
        tr_conversationKey r = createConversationKey ks (ci_conversation i) \<and>
        tr_idempotencyKey r = ci_idempotencyKey i \<and>
        (isOrphanReconciledReceipt r \<longrightarrow> isNonReclaimableAsyncContinuation (ci_idempotencyKey i)))"

lemma replayOrReclaim_Inr:
  assumes "storeOk s" and "replayOrReclaim ks i (createConversationKey ks (ci_conversation i)) e s = (Inr c, t)"
  shows "ct_conversationKey c = createConversationKey ks (ci_conversation i) \<and>
    (if ct_replayed c then replayedExisting ks i s c t else acceptedFresh ks i s c t)"
proof -
  let ?ck = "createConversationKey ks (ci_conversation i)"
  let ?ik = "ci_idempotencyKey i"
  obtain x s1 where x: "findTurnReceiptByConversationAndIdempotencyKey ?ck ?ik s = (Inr (Some x), s1)"
    using assms(2) unfolding replayOrReclaim_def by (auto simp: bindS_eq_Inr_iff split: option.splits)
  from findReceipt_Inr [OF x [unfolded findTurnReceiptByConversationAndIdempotencyKey_def]]
  have row: "x \<in> set (receiptTable s)" "tr_conversationKey x = ?ck" "tr_idempotencyKey x = ?ik"
    and s1: "receiptTable s1 = receiptTable s"
    by (auto dest!: sym [of "Some _"] find_Some_set)
  have ok1: "storeOk s1"
    using dbPureD [OF dbPure_finds(4) x] sameDatabase_storeOk assms(1) by blast
  show ?thesis
  proof (cases "isOrphanReconciledReceipt x \<and> \<not> isNonReclaimableAsyncContinuation ?ik")
    case False
    with assms(2) x obtain s2 u where w: "tryWriteReceiptMarker ks i (tr_requestId x) s1 = (Inr u, s2)"
      and c: "c = toClaimResult ?ck x True" "t = s2"
      unfolding replayOrReclaim_def by (auto simp: bindS_eq_Inr_iff split: if_splits)
    have "receiptTable s2 = receiptTable s1"
      using dbPureD [OF dbPure_markers(2) w] by (simp add: sameDatabase_def)
    with row s1 c False show ?thesis by (auto simp: replayedExisting_def toClaimResult_def)
  next
    case True
    with assms(2) x obtain n s2 r s3 s4 u where
      n: "reclaimOrphanReconciledTurnReceipt ?ck ?ik (ci_requestId i) (Val (orDefault (ci_sessionId i) None))
            (Val (Some (br_publishedVersionId (ci_bundle i)))) (ci_runtimeTier i)
            (Val (Some (br_bundleHash (ci_bundle i)))) s1 = (Inr n, s2)" "n \<noteq> 0"
      and r: "findTurnReceiptByRequestId (ci_requestId i) s2 = (Inr (Some r), s3)"
      and w: "tryWriteReceiptMarker ks i (tr_requestId r) s3 = (Inr u, s4)"
      and c: "c = toClaimResult ?ck r False" "t = s4"
      unfolding replayOrReclaim_def by (auto simp: bindS_eq_Inr_iff split: if_splits option.splits)
    from reclaim_Inr(1) [OF ok1 n] obtain q where q: "q \<in> set (receiptTable s2)" "tr_requestId q = ci_requestId i"
      "tr_conversationKey q = ?ck" "tr_idempotencyKey q = ?ik" "tr_status q = Rs_accepted" "tr_errorCode q = None"
      "tr_runtimeSessionId q = orDefault (ci_sessionId i) None" by blast
    have ok2: "storeOk s2" using preserves_result [OF preserves_reclaim n(1) ok1] .
    have "r = q"
      using find_receipt_unique [OF _ q(1) _ q(2)] ok2
        findReceipt_Inr [OF r [unfolded findTurnReceiptByRequestId_def]] by (auto simp: storeOk_def)
    moreover have "receiptTable t = receiptTable s2"
      using dbPureD [OF dbPure_markers(2) w] dbPureD [OF dbPure_finds(3) r] c(2) by (simp add: sameDatabase_def)
    ultimately show ?thesis
      using q c(1) reclaim_Inr(2) [OF ok1 n] s1
      by (auto simp: acceptedFresh_def toClaimResult_def intro!: bexI [of _ q])
  qed
qed

lemma createAcceptedTurn_Inr:
  assumes "storeOk s" "createAcceptedTurn ks i s = (Inr c, t)"
  shows "ct_conversationKey c = createConversationKey ks (ci_conversation i) \<and>
    (if ct_replayed c then replayedExisting ks i s c t else acceptedFresh ks i s c t)"
proof -
  let ?ck = "createConversationKey ks (ci_conversation i)"
  let ?create = "createAcceptedTurnReceipt (ci_sessionId i) (Val (Some (br_publishedVersionId (ci_bundle i))))
                    (ci_runtimeTier i) ?ck (ci_conversation i) (ci_requestId i) (ci_idempotencyKey i)
                    (Val (Some (br_bundleHash (ci_bundle i))))"
  let ?attempt = "bindS ?create (\<lambda>created. bindS (tryWriteReceiptMarker ks i (tr_requestId created)) (\<lambda>_.
           returnS (toClaimResult ?ck created False)))"
  from assms(2) have run: "catchS ?attempt (\<lambda>e. if \<not> isUniqueConstraintError e then throwS e
      else replayOrReclaim ks i ?ck e) s = (Inr c, t)"
    unfolding createAcceptedTurn_def Let_def by (simp add: guardS_eq_Inr_iff)
  have swallowed: "tryWriteReceiptMarker ks i rq s' \<noteq> (Inl e, s'')" for rq e s' s''
    by (auto simp: tryWriteReceiptMarker_def catchS_def split: prod.splits sum.splits)
  show ?thesis
  proof (cases "?create s")
    case (Pair r s1)
    show ?thesis
    proof (cases r)
      case (Inr created)
      obtain u s2 where w: "tryWriteReceiptMarker ks i (tr_requestId created) s1 = (Inr u, s2)"
        by (metis swallowed surj_pair sum.exhaust)
      have c: "c = toClaimResult ?ck created False" "t = s2"
        using run Pair Inr w by (simp_all add: catchS_def bindS_def)
      have "receiptTable t = receiptTable s1"
        using dbPureD [OF dbPure_markers(2) w] c(2) by (simp add: sameDatabase_def)
      moreover note createReceipt_Inr [OF Pair [unfolded Inr]]
      moreover have "ownedReceipt ?ck (ci_idempotencyKey i) (receiptTable s) \<le> anyReceipt ?ck (ci_idempotencyKey i) (receiptTable s)"
        by (rule owned_le_any)
      ultimately show ?thesis
        using c(1) by (auto simp: acceptedFresh_def toClaimResult_def intro!: bexI [of _ created])
    next
      case (Inl e)
      with run Pair have e: "e = uniqueViolation" "replayOrReclaim ks i ?ck e s1 = (Inr c, t)"
        by (auto simp: catchS_def bindS_def isUniqueConstraintError_def split: if_splits)
      have "storeOk s1" using preserves_result [OF preserves_createReceipt Pair assms(1)] .
      from replayOrReclaim_Inr [OF this e(2)] createReceipt_Inl [OF Pair [unfolded Inl e(1)]]
      show ?thesis by (auto simp: acceptedFresh_def replayedExisting_def)
    qed
  qed
qed

section \<open>Properties\<close>


text \<open>A turn is created and its retry under another request id is refused by the table.\<close>

definition demoReceiptOnce :: runtime where
  "demoReceiptOnce = snd (createAcceptedTurnReceipt Undef Undef Tier_paid_isolated ''c'' demoConversation ''r1'' ''k'' Undef demoRuntime)"

definition demoReceiptTwice :: runtime where
  "demoReceiptTwice = snd (createAcceptedTurnReceipt Undef Undef Tier_paid_isolated ''c'' demoConversation ''r2'' ''k'' Undef demoReceiptOnce)"

lemma demo_receipt_run: "receipt_run demoRuntime demoReceiptTwice [Accepted_turn ''c'' ''k'']"
proof -
  have one: "receipt_step demoRuntime [Accepted_turn ''c'' ''k''] demoReceiptOnce"
    using receipt_step.created [where sid = Undef and v = Undef and tier = Tier_paid_isolated and ck = "''c''"
        and conv = demoConversation and rq = "''r1''" and ik = "''k''" and bh = Undef and s = demoRuntime,
        OF prod.collapse [symmetric]]
    by (simp add: demoReceiptOnce_def createAcceptedTurnReceipt_def demoRuntime_def dbCall_def transactionS_def
        Let_def orDefault_def)
  have two: "receipt_step demoReceiptOnce [] demoReceiptTwice"
    using receipt_step.created [where sid = Undef and v = Undef and tier = Tier_paid_isolated and ck = "''c''"
        and conv = demoConversation and rq = "''r2''" and ik = "''k''" and bh = Undef and s = demoReceiptOnce,
        OF prod.collapse [symmetric]]
    by (simp add: demoReceiptTwice_def demoReceiptOnce_def createAcceptedTurnReceipt_def demoRuntime_def dbCall_def
        transactionS_def Let_def orDefault_def)
  show ?thesis
    using receipt_run.step [OF receipt_run.step [OF receipt_run.start one] two] by simp
qed


text \<open>What \<open>createAcceptedTurn\<close> answers is so. A result that is not a replay means that no
  live receipt of the turn existed before and that the table now holds an accepted receipt with
  this request id, session and keys; a replay means the table is unchanged and the summary is that
  of the turn's existing receipt, which is never an orphan that could have been reclaimed.
  Redis and database failures are allowed throughout.\<close>

theorem create_accepted_turn_answers:
  assumes "storeOk s" "createAcceptedTurn ks i s = (Inr c, t)"
  shows "ct_conversationKey c = createConversationKey ks (ci_conversation i) \<and>
    (if ct_replayed c then replayedExisting ks i s c t else acceptedFresh ks i s c t)"
  by (rule createAcceptedTurn_Inr [OF assms])

definition demoClaim :: claim_input where
  "demoClaim = \<lparr>ci_requestId = ''r'', ci_idempotencyKey = ''k'', ci_runtimeTier = Tier_paid_isolated,
     ci_conversation = demoConversation,
     ci_bundle = \<lparr>br_assistantId = ''a'', br_workspaceId = ''w'', br_bundleId = ''b'', br_publishedVersionId = ''v'',
       br_bundleHash = ''h'', br_compiledAt = []\<rparr>, ci_sessionId = Undef\<rparr>"

theorem create_accepted_turn_answers_witness:
  "\<exists>c t. createAcceptedTurn demoKeyspace demoClaim demoRuntime = (Inr c, t) \<and> \<not> ct_replayed c \<and>
     acceptedFresh demoKeyspace demoClaim demoRuntime c t"
proof -
  have "\<exists>c t. createAcceptedTurn demoKeyspace demoClaim demoRuntime = (Inr c, t) \<and> \<not> ct_replayed c"
    by (simp add: createAcceptedTurn_def demoClaim_def assertNonEmpty_def js_trim_def js_white_def
        createAcceptedTurnReceipt_def tryWriteReceiptMarker_def writeTurnReceiptMarker_def toClaimResult_def
        orDefault_def demoRuntime_def demoRedis_def store_eval)
  then obtain c t where c: "createAcceptedTurn demoKeyspace demoClaim demoRuntime = (Inr c, t)" "\<not> ct_replayed c" by blast
  with create_accepted_turn_answers [OF demoRuntime_ok c(1)] show ?thesis by auto
qed

end
