(* ===== verification/TurnAcceptance.thy ===== *)
theory TurnAcceptance
  imports Idempotency
begin

text \<open>
  Acceptance of a turn (\<open>apps/runtime/src/modules/turns/turn-acceptance.service.ts\<close>): ensure the
  session, look for a replay, claim the session lease with the in-flight marker, create the
  receipt. The owner token of the claim is the argument \<open>uuid\<close>. \<open>Promise.allSettled\<close> of the two clean-up calls
  is the two calls with their errors swallowed, one after the other.
\<close>

record turn_request =
  rq_requestId :: string
  rq_idempotencyKey :: string
  rq_runtimeTier :: runtime_tier
  rq_conversation :: conversation_address
  rq_bundle :: bundle_ref

datatype turn_acceptance =
    Turn_accepted string session_summary receipt_summary session_lease
  | Turn_replayed string session_summary receipt_summary
  | Turn_busy string session_summary
  | Turn_in_flight string session_summary "string option"

definition claimInputOf :: "turn_request \<Rightarrow> string \<Rightarrow> claim_input" where
  "claimInputOf i sessionId =
     \<lparr>ci_requestId = rq_requestId i, ci_idempotencyKey = rq_idempotencyKey i,
      ci_runtimeTier = rq_runtimeTier i, ci_conversation = rq_conversation i, ci_bundle = rq_bundle i,
      ci_sessionId = Val (Some sessionId)\<rparr>"

definition clearAcceptedTurnInFlightQuietly :: "keyspace \<Rightarrow> turn_request \<Rightarrow> (runtime, unit) oper" where
  "clearAcceptedTurnInFlightQuietly ks i =
     catchS (viaRedis (clearAcceptedTurnInFlight ks (rq_conversation i) (rq_idempotencyKey i))) (\<lambda>_. returnS ())"

definition releaseLeaseQuietly :: "keyspace \<Rightarrow> session_lease \<Rightarrow> (runtime, unit) oper" where
  "releaseLeaseQuietly ks l = catchS (bindS (viaRedis (releaseLease ks l)) (\<lambda>_. returnS ())) (\<lambda>_. returnS ())"

definition releaseTurnLease :: "keyspace \<Rightarrow> session_lease \<Rightarrow> (runtime, bool) oper" where
  "releaseTurnLease ks l = viaRedis (releaseLease ks l)"

definition sessionFieldsOf :: "turn_request \<Rightarrow> session_fields" where
  "sessionFieldsOf i = noFields\<lparr>sf_currentPublishedVersionId := Val (Some (br_publishedVersionId (rq_bundle i))),
     sf_currentBundleHash := Val (Some (br_bundleHash (rq_bundle i)))\<rparr>"

text \<open>After the lease was claimed: create the receipt, or give everything back.\<close>

definition acceptWithLease ::
  "keyspace \<Rightarrow> turn_request \<Rightarrow> ensured_session \<Rightarrow> session_lease \<Rightarrow> (runtime, turn_acceptance) oper" where
  "acceptWithLease ks i ensured lease =
     bindS
       (catchS (createAcceptedTurn ks (claimInputOf i (ss_sessionId (en_session ensured))))
          (\<lambda>e. bindS (clearAcceptedTurnInFlightQuietly ks i) (\<lambda>_.
               bindS (releaseLeaseQuietly ks lease) (\<lambda>_. throwS e)))) (\<lambda>claimed.
     bindS (clearAcceptedTurnInFlightQuietly ks i) (\<lambda>_.
     if ct_replayed claimed
     then bindS (releaseLeaseQuietly ks lease) (\<lambda>_.
            returnS (Turn_replayed (en_conversationKey ensured) (en_session ensured) (ct_receipt claimed)))
     else returnS (Turn_accepted (en_conversationKey ensured) (en_session ensured) (ct_receipt claimed) lease)))"

definition acceptTurn :: "keyspace \<Rightarrow> string \<Rightarrow> turn_request \<Rightarrow> (runtime, turn_acceptance) oper" where
  "acceptTurn ks uuid i =
     bindS (ensureSession ks (rq_conversation i) (rq_runtimeTier i) (sessionFieldsOf i)) (\<lambda>ensured.
     bindS (findReplayAcceptedTurn ks (claimInputOf i (ss_sessionId (en_session ensured)))) (\<lambda>replay.
       case replay of
         Some c \<Rightarrow> returnS (Turn_replayed (en_conversationKey ensured) (en_session ensured) (ct_receipt c))
       | None \<Rightarrow>
           bindS (viaRedis (claimLeaseForAcceptedTurn ks uuid (ss_sessionId (en_session ensured))
                    (rq_conversation i) (rq_idempotencyKey i) (rq_requestId i) None)) (\<lambda>claim.
             case claim of
               LeaseBusy \<Rightarrow> returnS (Turn_busy (en_conversationKey ensured) (en_session ensured))
             | LeaseInFlight rq \<Rightarrow>
                 returnS (Turn_in_flight (en_conversationKey ensured) (en_session ensured) rq)
             | LeaseAcquired lease \<Rightarrow> acceptWithLease ks i ensured lease)))"

section \<open>Operations that leave the leases alone\<close>

definition keepsLeases :: "keyspace \<Rightarrow> (runtime, 'a) oper \<Rightarrow> bool" where
  "keepsLeases ks m \<longleftrightarrow> (\<forall>s. clock (redisPart (snd (m s))) = clock (redisPart s) \<and>
     faults (redisPart (snd (m s))) = faults (redisPart s) \<and>
     (\<forall>sid. entries (redisPart (snd (m s))) (buildSessionLeaseKey ks sid) =
            entries (redisPart s) (buildSessionLeaseKey ks sid)))"

lemma keepsLeasesD:
  "keepsLeases ks m \<Longrightarrow> m s = (r, t) \<Longrightarrow> clock (redisPart t) = clock (redisPart s) \<and>
     faults (redisPart t) = faults (redisPart s) \<and>
     (\<forall>sid. entries (redisPart t) (buildSessionLeaseKey ks sid) = entries (redisPart s) (buildSessionLeaseKey ks sid))"
  by (metis keepsLeases_def snd_conv)

lemma keepsLeases_return [simp]: "keepsLeases ks (returnS a)" "keepsLeases ks (throwS e)"
  by (simp_all add: keepsLeases_def)

lemma keepsLeases_bind [intro]:
  "keepsLeases ks m \<Longrightarrow> (\<And>a. keepsLeases ks (f a)) \<Longrightarrow> keepsLeases ks (bindS m f)"
  by (auto simp: keepsLeases_def bindS_def split: prod.splits sum.splits) (metis snd_conv)+

lemma keepsLeases_catch [intro]:
  "keepsLeases ks m \<Longrightarrow> (\<And>e. keepsLeases ks (h e)) \<Longrightarrow> keepsLeases ks (catchS m h)"
  by (auto simp: keepsLeases_def catchS_def split: prod.splits sum.splits) (metis snd_conv)+

lemma keepsLeases_if [intro]: "keepsLeases ks a \<Longrightarrow> keepsLeases ks b \<Longrightarrow> keepsLeases ks (if c then a else b)"
  by simp

lemma keepsLeases_option [intro]:
  "keepsLeases ks a \<Longrightarrow> (\<And>x. keepsLeases ks (b x)) \<Longrightarrow> keepsLeases ks (case v of None \<Rightarrow> a | Some x \<Rightarrow> b x)"
  by (cases v) auto

lemma keepsLeases_guard [intro]: "keepsLeases ks m \<Longrightarrow> keepsLeases ks (guardS g m)"
  by (cases g) auto

lemma keepsLeases_redis:
  "touches m K \<Longrightarrow> \<forall>sid. buildSessionLeaseKey ks sid \<notin> K \<Longrightarrow> keepsLeases ks (viaRedis m)"
  by (auto simp: keepsLeases_def viaRedis_def touches_def split: prod.splits) (metis snd_conv)+

lemma keepsLeases_db:
  "(\<And>s. redisPart (snd (f s)) = redisPart s) \<Longrightarrow> keepsLeases ks (dbCall f)"
  by (auto simp: keepsLeases_def dbCall_def transactionS_def Let_def split: fault.splits prod.splits sum.splits)
    (metis (no_types, lifting) runtime.ext_inject runtime.surjective runtime.update_convs(8) snd_conv)+

lemma keepsLeases_store [simp]:
  "keepsLeases ks (findReceipt p)" "keepsLeases ks (createAcceptedTurnReceipt sid v tier ck conv rq ik bh)"
  "keepsLeases ks (reclaimOrphanReconciledTurnReceipt ck ik rq sid v tier bh)"
  unfolding findReceipt_def createAcceptedTurnReceipt_def reclaimOrphanReconciledTurnReceipt_def
  by (intro keepsLeases_db; auto simp: Let_def)+

lemma keepsLeases_quiet [simp]:
  "keepsLeases ks (tryWriteReceiptMarker ks i rq)" "keepsLeases ks (clearAcceptedTurnInFlightQuietly ks j)"
proof -
  show "keepsLeases ks (tryWriteReceiptMarker ks i rq)"
    unfolding tryWriteReceiptMarker_def
    by (intro keepsLeases_catch keepsLeases_redis [OF touches_markers(3)]) auto
  have "touches (clearAcceptedTurnInFlight ks c k) {buildTurnInFlightKey ks c k}" for c k
    unfolding clearAcceptedTurnInFlight_def by (intro touches_guard touches_markers)
  then show "keepsLeases ks (clearAcceptedTurnInFlightQuietly ks j)"
    unfolding clearAcceptedTurnInFlightQuietly_def
    by (intro keepsLeases_catch keepsLeases_redis) auto
qed

lemma keepsLeases_create [simp]: "keepsLeases ks (createAcceptedTurn ks i)"
  unfolding createAcceptedTurn_def replayOrReclaim_def Let_def findTurnReceiptByRequestId_def
    findTurnReceiptByConversationAndIdempotencyKey_def
  by (intro keepsLeases_guard keepsLeases_catch keepsLeases_bind keepsLeases_option keepsLeases_if; simp)

section \<open>What an acceptance guarantees\<close>

lemma preserves_pure: "dbPure m \<Longrightarrow> preserves storeOk m"
  using sameDatabase_storeOk unfolding preserves_def dbPure_def by blast

lemma preserves_createAcceptedTurn [intro]: "preserves storeOk (createAcceptedTurn ks i)"
  unfolding createAcceptedTurn_def replayOrReclaim_def Let_def
  by (intro preserves_guard preserves_catch preserves_bind preserves_case_option preserves_if
      preserves_createReceipt preserves_reclaim preserves_throw preserves_return;
      (rule preserves_pure)?; simp)

lemma findReplay_Inr:
  assumes "findReplayAcceptedTurn ks i s = (Inr (Some c), t)"
  shows "replayedExisting ks i s c t"
proof -
  let ?ck = "createConversationKey ks (ci_conversation i)"
  have t: "receiptTable t = receiptTable s"
    using dbPureD [OF dbPure_findReplay assms] by (simp add: sameDatabase_def)
  obtain m s1 where m: "resolveFromMarker ks i ?ck s = (Inr m, s1)"
    using assms unfolding findReplayAcceptedTurn_def Let_def by (auto simp: guardS_eq_Inr_iff bindS_eq_Inr_iff)
  have pure: "dbPure (resolveFromMarker ks i ck)" for ck
    unfolding resolveFromMarker_def by (intro dbPure_bind dbPure_option dbPure_if; simp)
  have s1: "receiptTable s1 = receiptTable s"
    using dbPureD [OF pure m] by (simp add: sameDatabase_def)
  show ?thesis
  proof (cases m)
    case (Some r)
    from m Some obtain rq s2 s3 where a: "tryReadReceiptMarker ks i s = (Inr (Some rq), s2)"
      and b: "findTurnReceiptByRequestId rq s2 = (Inr (Some r), s3)"
      and r: "tr_conversationKey r = ?ck" "tr_idempotencyKey r = ci_idempotencyKey i" "\<not> isOrphanReconciledReceipt r"
      unfolding resolveFromMarker_def by (auto simp: bindS_eq_Inr_iff split: option.splits if_splits)
    have "receiptTable s2 = receiptTable s"
      using dbPureD [OF dbPure_markers(1) a] by (simp add: sameDatabase_def)
    with findReceipt_Inr [OF b [unfolded findTurnReceiptByRequestId_def]] have "r \<in> set (receiptTable s)"
      by (auto dest!: sym [of "Some _"] find_Some_set)
    moreover have "c = toClaimResult ?ck r True"
      using assms m Some unfolding findReplayAcceptedTurn_def Let_def
      by (auto simp: guardS_eq_Inr_iff bindS_eq_Inr_iff)
    ultimately show ?thesis using r t by (auto simp: replayedExisting_def toClaimResult_def)
  next
    case None
    with assms m obtain r s2 where f: "findTurnReceiptByConversationAndIdempotencyKey ?ck (ci_idempotencyKey i) s1 = (Inr (Some r), s2)"
      and c: "\<not> isOrphanReconciledReceipt r \<or> isNonReclaimableAsyncContinuation (ci_idempotencyKey i)"
        "c = toClaimResult ?ck r True"
      unfolding findReplayAcceptedTurn_def Let_def
      by (auto simp: guardS_eq_Inr_iff bindS_eq_Inr_iff split: option.splits if_splits)
    from findReceipt_Inr [OF f [unfolded findTurnReceiptByConversationAndIdempotencyKey_def]] s1
    have "r \<in> set (receiptTable s)" "tr_conversationKey r = ?ck" "tr_idempotencyKey r = ci_idempotencyKey i"
      by (auto dest!: sym [of "Some _"] find_Some_set)
    with c t show ?thesis by (auto simp: replayedExisting_def toClaimResult_def)
  qed
qed

lemma dbPure_quiet [simp]:
  "dbPure (releaseLeaseQuietly ks l)" "dbPure (clearAcceptedTurnInFlightQuietly ks i)"
  unfolding releaseLeaseQuietly_def clearAcceptedTurnInFlightQuietly_def
  by (intro dbPure_catch dbPure_bind; simp)+

lemma sessionLeaseOf_kept:
  "\<forall>sid. entries x (buildSessionLeaseKey ks sid) = entries y (buildSessionLeaseKey ks sid) \<Longrightarrow>
     sessionLeaseOf ks x = sessionLeaseOf ks y"
  by (simp add: sessionLeaseOf_def fun_eq_iff)

lemma claim_acquired_lease:
  assumes "claimLeaseForAcceptedTurn ks u sid c i rq None s = (Inr (LeaseAcquired l), t)"
  shows "l = \<lparr>sl_sessionId = sid, sl_ownerToken = u\<rparr>"
    and "sessionLeaseOf ks t sid = Some (u, clock s + leaseMs ks)" and "clock t = clock s"
proof -
  have run: "claimLeaseForAcceptedTurn ks u sid c i rq (Some u) s = (Inr (LeaseAcquired l), t)"
    using assms claim_default [of ks u sid c i rq None] by simp
  show "l = \<lparr>sl_sessionId = sid, sl_ownerToken = u\<rparr>"
  proof -
    obtain res s1 where "(case res of
             Claim_acquired \<Rightarrow> returnS (LeaseAcquired \<lparr>sl_sessionId = sid, sl_ownerToken = u\<rparr>)
           | Claim_in_flight \<Rightarrow> bindS (readTurnInFlightMarker ks c i) (\<lambda>rq. returnS (LeaseInFlight rq))
           | Claim_busy \<Rightarrow> returnS LeaseBusy) s1 = (Inr (LeaseAcquired l), t)"
      using run unfolding claimLeaseForAcceptedTurn_def Let_def
      by (auto simp: guardS_eq_Inr_iff bindS_eq_Inr_iff)
    then show ?thesis by (cases res) (auto simp: bindS_eq_Inr_iff)
  qed
  show "sessionLeaseOf ks t sid = Some (u, clock s + leaseMs ks)" "clock t = clock s"
    using claim_law [OF run] sessionLeaseOf_claim [of t s ks sid u c i rq] by auto
qed

text \<open>The states an accepted turn went through.\<close>

lemma acceptTurn_accepted_steps:
  assumes "acceptTurn ks uuid i s = (Inr (Turn_accepted ck session receipt lease), t)"
  obtains ensured s1 s2 s3 claimed s4 u where
    "ensureSession ks (rq_conversation i) (rq_runtimeTier i) (sessionFieldsOf i) s = (Inr ensured, s1)"
    "findReplayAcceptedTurn ks (claimInputOf i (ss_sessionId (en_session ensured))) s1 = (Inr None, s2)"
    "viaRedis (claimLeaseForAcceptedTurn ks uuid (ss_sessionId (en_session ensured))
        (rq_conversation i) (rq_idempotencyKey i) (rq_requestId i) None) s2 = (Inr (LeaseAcquired lease), s3)"
    "createAcceptedTurn ks (claimInputOf i (ss_sessionId (en_session ensured))) s3 = (Inr claimed, s4)"
    "\<not> ct_replayed claimed" "clearAcceptedTurnInFlightQuietly ks i s4 = (Inr u, t)"
    "ck = en_conversationKey ensured" "session = en_session ensured" "receipt = ct_receipt claimed"
proof -
  from assms obtain ensured s1 replay s2 where e:
    "ensureSession ks (rq_conversation i) (rq_runtimeTier i) (sessionFieldsOf i) s = (Inr ensured, s1)"
    "findReplayAcceptedTurn ks (claimInputOf i (ss_sessionId (en_session ensured))) s1 = (Inr replay, s2)"
    unfolding acceptTurn_def bindS_eq_Inr_iff by blast
  with assms have "replay = None"
    by (cases replay) (simp_all add: acceptTurn_def)
  with assms e obtain claim s3 where c:
    "viaRedis (claimLeaseForAcceptedTurn ks uuid (ss_sessionId (en_session ensured))
        (rq_conversation i) (rq_idempotencyKey i) (rq_requestId i) None) s2 = (Inr claim, s3)"
    "(case claim of
        LeaseBusy \<Rightarrow> returnS (Turn_busy (en_conversationKey ensured) (en_session ensured))
      | LeaseInFlight rq \<Rightarrow> returnS (Turn_in_flight (en_conversationKey ensured) (en_session ensured) rq)
      | LeaseAcquired l \<Rightarrow> acceptWithLease ks i ensured l) s3 = (Inr (Turn_accepted ck session receipt lease), t)"
    unfolding acceptTurn_def by (auto simp: bindS_eq_Inr_iff)
  then obtain l where l: "claim = LeaseAcquired l" by (cases claim) simp_all
  from e c \<open>replay = None\<close> have a:
    "ensureSession ks (rq_conversation i) (rq_runtimeTier i) (sessionFieldsOf i) s = (Inr ensured, s1)"
    "findReplayAcceptedTurn ks (claimInputOf i (ss_sessionId (en_session ensured))) s1 = (Inr None, s2)"
    "viaRedis (claimLeaseForAcceptedTurn ks uuid (ss_sessionId (en_session ensured))
        (rq_conversation i) (rq_idempotencyKey i) (rq_requestId i) None) s2 = (Inr (LeaseAcquired l), s3)"
    "acceptWithLease ks i ensured l s3 = (Inr (Turn_accepted ck session receipt lease), t)"
    unfolding l by simp_all
  from a(4) obtain claimed s4 u where b:
    "catchS (createAcceptedTurn ks (claimInputOf i (ss_sessionId (en_session ensured))))
          (\<lambda>e. bindS (clearAcceptedTurnInFlightQuietly ks i) (\<lambda>_.
               bindS (releaseLeaseQuietly ks l) (\<lambda>_. throwS e))) s3 = (Inr claimed, s4)"
    "clearAcceptedTurnInFlightQuietly ks i s4 = (Inr u, t)" "\<not> ct_replayed claimed"
    "ck = en_conversationKey ensured" "session = en_session ensured" "receipt = ct_receipt claimed" "lease = l"
    unfolding acceptWithLease_def by (auto simp: bindS_eq_Inr_iff split: if_splits)
  have "createAcceptedTurn ks (claimInputOf i (ss_sessionId (en_session ensured))) s3 = (Inr claimed, s4)"
    using b(1) by (auto simp: catchS_def bindS_def split: prod.splits sum.splits)
  with a(1-3) b that show thesis by blast
qed

lemma resolve_keeps [simp]: "keepsLeases ks (ensureSession ks c tier f)"
proof -
  have ptr: "keepsLeases ks (tryReadConversationPointer ks c)" "keepsLeases ks (trySetConversationPointer ks c x)"
    "keepsLeases ks (tryClearConversationPointer ks c)" for x
    unfolding tryReadConversationPointer_def trySetConversationPointer_def tryClearConversationPointer_def
    by (intro keepsLeases_catch keepsLeases_redis [OF touches_pointer(1)] keepsLeases_redis [OF touches_pointer(2)]
        keepsLeases_redis [OF touches_pointer(3)]; simp)+
  have finds: "keepsLeases ks (findSessionById x)" "keepsLeases ks (findSessionByConversationKey x)"
    "keepsLeases ks (upsertSession x c tier g)" for x g
    unfolding findSessionById_def findSessionByConversationKey_def upsertSession_def
    by (intro keepsLeases_db; auto simp: Let_def split: option.splits)+
  have "keepsLeases ks (resolveSession ks c tier)"
    unfolding resolveSession_def resolveFromConversationPointer_def Let_def
    by (intro keepsLeases_bind keepsLeases_option keepsLeases_if ptr finds keepsLeases_return)
  then show ?thesis
    unfolding ensureSession_def
    by (intro keepsLeases_bind) (auto split: option.split bool.split intro!: keepsLeases_bind ptr finds)
qed

lemma findReplay_keeps [simp]: "keepsLeases ks (findReplayAcceptedTurn ks i)"
proof -
  have "keepsLeases ks (tryReadReceiptMarker ks i)"
    unfolding tryReadReceiptMarker_def
    by (intro keepsLeases_catch keepsLeases_redis [OF touches_markers(4)]; simp)
  then show ?thesis
    unfolding findReplayAcceptedTurn_def resolveFromMarker_def Let_def findTurnReceiptByRequestId_def
      findTurnReceiptByConversationAndIdempotencyKey_def
    by (intro keepsLeases_guard keepsLeases_bind keepsLeases_option keepsLeases_if; simp)
qed

text \<open>C29: An accepted turn is owned. When \<open>acceptTurn\<close> answers accepted, no live receipt of the
  turn existed, the receipt table holds an accepted receipt with this request id, turn and session,
  the session's lease in Redis belongs to the returned token for a full lifetime, and the tables'
  keys stay unique. Lost Redis and database calls are allowed throughout.\<close>

theorem accepted_turn_is_owned:
  assumes "storeOk s"
    and "acceptTurn ks uuid i s = (Inr (Turn_accepted ck session receipt lease), t)"
  shows "storeOk t \<and> ck = createConversationKey ks (rq_conversation i) \<and>
    lease = \<lparr>sl_sessionId = ss_sessionId session, sl_ownerToken = uuid\<rparr> \<and>
    sessionLeaseOf ks (redisPart t) (ss_sessionId session) = Some (uuid, nowOf t + leaseMs ks) \<and>
    ownedReceipt ck (rq_idempotencyKey i) (receiptTable s) = 0 \<and>
    (\<exists>r \<in> set (receiptTable t). receipt = toReceiptSummary r \<and> tr_requestId r = rq_requestId i \<and>
       tr_conversationKey r = ck \<and> tr_idempotencyKey r = rq_idempotencyKey i \<and>
       tr_status r = Rs_accepted \<and> tr_runtimeSessionId r = Some (ss_sessionId session))"
proof -
  from assms(2) obtain ensured s1 s2 s3 claimed s4 u where
    a: "ensureSession ks (rq_conversation i) (rq_runtimeTier i) (sessionFieldsOf i) s = (Inr ensured, s1)"
    and b: "findReplayAcceptedTurn ks (claimInputOf i (ss_sessionId (en_session ensured))) s1 = (Inr None, s2)"
    and c: "viaRedis (claimLeaseForAcceptedTurn ks uuid (ss_sessionId (en_session ensured))
        (rq_conversation i) (rq_idempotencyKey i) (rq_requestId i) None) s2 = (Inr (LeaseAcquired lease), s3)"
    and d: "createAcceptedTurn ks (claimInputOf i (ss_sessionId (en_session ensured))) s3 = (Inr claimed, s4)"
      "\<not> ct_replayed claimed"
    and e: "clearAcceptedTurnInFlightQuietly ks i s4 = (Inr u, t)"
    and f: "ck = en_conversationKey ensured" "session = en_session ensured" "receipt = ct_receipt claimed"
    by (rule acceptTurn_accepted_steps)
  obtain x where x: "claimLeaseForAcceptedTurn ks uuid (ss_sessionId session)
        (rq_conversation i) (rq_idempotencyKey i) (rq_requestId i) None (redisPart s2) = (Inr (LeaseAcquired lease), x)"
      "s3 = s2\<lparr>redisPart := x\<rparr>"
    using viaRedis_result [OF c] f(2) by auto
  note lease = claim_acquired_lease [OF x(1)]
  have ok1: "storeOk s1" using preserves_result [OF preserves_ensureSession a assms(1)] .
  have ok3: "storeOk s3"
    using ok1 sameDatabase_storeOk [OF dbPureD [OF dbPure_findReplay b]] sameDatabase_storeOk [OF dbPureD [OF dbPure_viaRedis c]]
    by simp
  have ok4: "storeOk s4" using preserves_result [OF preserves_createAcceptedTurn d(1) ok3] .
  have db: "receiptTable s3 = receiptTable s" "receiptTable t = receiptTable s4" "storeOk t"
    using ensureSession_Inr [OF a] dbPureD [OF dbPure_findReplay b] dbPureD [OF dbPure_viaRedis c]
      dbPureD [OF dbPure_quiet(2) e] sameDatabase_storeOk [OF dbPureD [OF dbPure_quiet(2) e]] ok4
    by (simp_all add: sameDatabase_def)
  have kept: "sessionLeaseOf ks (redisPart t) = sessionLeaseOf ks x" "nowOf t = clock x"
    using keepsLeasesD [OF keepsLeases_create d(1)] keepsLeasesD [OF keepsLeases_quiet(2) e] x(2)
    by (auto simp: nowOf_def intro!: sessionLeaseOf_kept)
  have ck: "ck = createConversationKey ks (rq_conversation i)"
    using ensureSession_Inr [OF a] f(1) by simp
  show ?thesis
    using createAcceptedTurn_Inr [OF ok3 d(1)] d(2) db lease kept f ck
    by (auto simp: acceptedFresh_def claimInputOf_def orDefault_def)
qed

definition demoTurn :: turn_request where
  "demoTurn = \<lparr>rq_requestId = ''r'', rq_idempotencyKey = ''k'', rq_runtimeTier = Tier_paid_isolated,
     rq_conversation = demoConversation,
     rq_bundle = \<lparr>br_assistantId = ''a'', br_workspaceId = ''w'', br_bundleId = ''b'', br_publishedVersionId = ''v'',
       br_bundleHash = ''h'', br_compiledAt = []\<rparr>\<rparr>"

lemma demo_ttls [simp]:
  "RUNTIME_SESSION_LEASE_TTL_SECONDS (config demoKeyspace) = 30"
  "RUNTIME_TURN_RECEIPT_TTL_SECONDS (config demoKeyspace) = 86400"
  by (simp_all add: demoKeyspace_def)

lemmas accept_eval = store_eval acceptTurn_def acceptWithLease_def ensureSession_def resolveSession_def
  resolveFromConversationPointer_def tryReadConversationPointer_def getConversationSessionPointer_def
  findSessionByConversationKey_def upsertSession_def trySetConversationPointer_def
  setConversationSessionPointer_def findReplayAcceptedTurn_def resolveFromMarker_def
  tryReadReceiptMarker_def readTurnReceiptMarker_def findTurnReceiptByConversationAndIdempotencyKey_def
  findReceipt_def claimLeaseForAcceptedTurn_def claimAcceptedTurnInFlight_def evalClaim_def
  createAcceptedTurn_def createAcceptedTurnReceipt_def tryWriteReceiptMarker_def writeTurnReceiptMarker_def
  clearAcceptedTurnInFlightQuietly_def clearAcceptedTurnInFlight_def clearTurnInFlightMarker_def cmdDel_def
  delEntry_def toClaimResult_def claimInputOf_def

lemma demo_accepted:
  "\<exists>ck session receipt lease. fst (acceptTurn demoKeyspace ''token'' demoTurn demoRuntime) =
     Inr (Turn_accepted ck session receipt lease)"
  by (simp add: accept_eval demoTurn_def demoRuntime_def demoRedis_def assertNonEmpty_def js_trim_def js_white_def
      hasSessionUpdateFields_def sessionFieldsOf_def noFields_def orDefault_def newSession_def toSessionSummary_def
      sessionExists_def)

theorem accepted_turn_is_owned_witness:
  "\<exists>sid. sessionLeaseOf demoKeyspace (redisPart (snd (acceptTurn demoKeyspace ''token'' demoTurn demoRuntime))) sid
     = Some (''token'', nowOf (snd (acceptTurn demoKeyspace ''token'' demoTurn demoRuntime)) + 30000)"
proof -
  obtain ck session receipt lease where
    "acceptTurn demoKeyspace ''token'' demoTurn demoRuntime =
      (Inr (Turn_accepted ck session receipt lease), snd (acceptTurn demoKeyspace ''token'' demoTurn demoRuntime))"
    using demo_accepted by (metis prod.collapse)
  from accepted_turn_is_owned [OF demoRuntime_ok this] show ?thesis by auto
qed

section \<open>A failed acceptance leaves no lease\<close>

lemma withClient_faultless:
  assumes "faultless s"
  obtains s1 where "entries s1 = entries s" "clock s1 = clock s" "faults s1 = faults s" "withClient m s = m s1"
proof (cases "connected s")
  case True
  show thesis
    by (rule that [of s]) (use True in \<open>simp_all add: withClient_def bindS_def getClient_def\<close>)
next
  case False
  show thesis
    by (rule that [of "s\<lparr>connected := True, callCount := Suc (callCount s)\<rparr>"])
      (use False assms in \<open>simp_all add: withClient_def bindS_def getClient_def faultless_def\<close>)
qed

lemma release_faultless:
  assumes "faultless s" "live s (buildSessionLeaseKey ks sid) = Some (RString w)"
  shows "\<exists>t. releaseSessionLease ks sid w s = (Inr True, t) \<and> entries t = (entries s)(buildSessionLeaseKey ks sid := None) \<and>
    clock t = clock s \<and> faults t = faults s"
proof -
  obtain s1 where s1: "entries s1 = entries s" "clock s1 = clock s" "faults s1 = faults s"
    and run: "releaseSessionLease ks sid w s = bindS (releaseRead ks sid w)
       (\<lambda>mine. if mine then releaseDelete ks sid else returnS False) s1"
    unfolding releaseSessionLease_def by (rule withClient_faultless [OF assms(1)])
  have l: "live (s1\<lparr>callCount := n\<rparr>) = live s" for n
    using s1 by (intro ext) (simp add: live_def cong: option.case_cong)
  show ?thesis
    unfolding run using assms s1 l
    by (simp add: releaseRead_def releaseDelete_def bindS_def command_def cmdGet_def cmdDel_def delEntry_def
        faultless_def Let_def)
qed

lemma claim_faultless_Inl:
  assumes "faultless s" "claimAcceptedTurnInFlight ks sid w c i rq s = (Inl e, t)"
  shows "entries t = entries s"
proof -
  obtain s1 where s1: "entries s1 = entries s" "clock s1 = clock s" "faults s1 = faults s"
    and run: "claimAcceptedTurnInFlight ks sid w c i rq s = bindS
       (command (evalClaim (buildSessionLeaseKey ks sid) (buildTurnInFlightKey ks c i) w rq
          (RUNTIME_SESSION_LEASE_TTL_SECONDS (config ks))))
       (\<lambda>claimed. returnS
          (if claimed = 2 then Claim_acquired else if claimed = 1 then Claim_in_flight else Claim_busy)) s1"
    unfolding claimAcceptedTurnInFlight_def by (rule withClient_faultless [OF assms(1)])
  then show ?thesis
    using assms
    by (auto simp: bindS_def command_def faultless_def evalClaim_def cmdGet_def cmdSetEx_def Let_def
        split: option.splits redis_value.splits if_splits)
qed

lemma claimLease_faultless_Inl:
  assumes "faultless s" "claimLeaseForAcceptedTurn ks u sid c i rq wo s = (Inl e, t)"
  shows "entries t = entries s"
proof -
  obtain r0 t0 where d: "claimAcceptedTurnInFlight ks sid (case wo of Some w \<Rightarrow> w | None \<Rightarrow> u) c i rq s = (r0, t0)"
    by (cases "claimAcceptedTurnInFlight ks sid (case wo of Some w \<Rightarrow> w | None \<Rightarrow> u) c i rq s")
  obtain r1 t1 where r: "readTurnInFlightMarker ks c i t0 = (r1, t1)" by (cases "readTurnInFlightMarker ks c i t0")
  have "entries t1 = entries t0" using touches_nothing [OF touches_markers(1) r] by simp
  then show ?thesis
    using assms(2) claim_faultless_Inl [OF assms(1)] claim_effect [OF d] d r
    unfolding claimLeaseForAcceptedTurn_def guardS_def bindS_def Let_def
    by (auto split: sum.splits if_splits claim_outcome.splits)
qed

text \<open>A quiet call never throws; the guarded release of one's own live lease removes it.\<close>

lemma quiet_Inr: "\<exists>b. clearAcceptedTurnInFlightQuietly ks i s = (Inr (), b)" "\<exists>b. releaseLeaseQuietly ks l s = (Inr (), b)"
  by (auto simp: clearAcceptedTurnInFlightQuietly_def releaseLeaseQuietly_def catchS_def bindS_def
      split: prod.splits sum.splits)

lemma releaseLeaseQuietly_own:
  assumes "faultless (redisPart s)" "live (redisPart s) (buildSessionLeaseKey ks sid) = Some (RString w)"
    and "js_trim sid \<noteq> []" "js_trim w \<noteq> []"
    and "releaseLeaseQuietly ks \<lparr>sl_sessionId = sid, sl_ownerToken = w\<rparr> s = (r, t)"
  shows "entries (redisPart t) = (entries (redisPart s))(buildSessionLeaseKey ks sid := None)"
  using release_faultless [OF assms(1,2)] assms(3-5)
  by (auto simp: releaseLeaseQuietly_def releaseLease_def catchS_def bindS_def viaRedis_def)

lemma claim_acquired_guards:
  assumes "claimLeaseForAcceptedTurn ks u sid c i rq wo s = (Inr (LeaseAcquired l), t)"
  shows "js_trim sid \<noteq> []" "js_trim (sl_ownerToken l) \<noteq> []" "sl_sessionId l = sid"
proof -
  from assms obtain res s1 where g: "js_trim sid \<noteq> []" "js_trim (case wo of Some w \<Rightarrow> w | None \<Rightarrow> u) \<noteq> []"
    and r: "(case res of
             Claim_acquired \<Rightarrow> returnS (LeaseAcquired \<lparr>sl_sessionId = sid, sl_ownerToken = (case wo of Some w \<Rightarrow> w | None \<Rightarrow> u)\<rparr>)
           | Claim_in_flight \<Rightarrow> bindS (readTurnInFlightMarker ks c i) (\<lambda>rq. returnS (LeaseInFlight rq))
           | Claim_busy \<Rightarrow> returnS LeaseBusy) s1 = (Inr (LeaseAcquired l), t)"
    unfolding claimLeaseForAcceptedTurn_def Let_def guardS_eq_Inr_iff bindS_eq_Inr_iff assertNonEmpty_Inr_iff by blast
  from r have "l = \<lparr>sl_sessionId = sid, sl_ownerToken = (case wo of Some w \<Rightarrow> w | None \<Rightarrow> u)\<rparr>"
    by (cases res) (auto simp: bindS_eq_Inr_iff)
  with g show "js_trim sid \<noteq> []" "js_trim (sl_ownerToken l) \<noteq> []" "sl_sessionId l = sid" by simp_all
qed

lemma acceptWithLease_Inl:
  assumes "acceptWithLease ks i ensured l s = (Inl e, t)"
  obtains s1 s2 where "createAcceptedTurn ks (claimInputOf i (ss_sessionId (en_session ensured))) s = (Inl e, s1)"
    "clearAcceptedTurnInFlightQuietly ks i s1 = (Inr (), s2)" "releaseLeaseQuietly ks l s2 = (Inr (), t)"
proof -
  obtain r s1 where c: "createAcceptedTurn ks (claimInputOf i (ss_sessionId (en_session ensured))) s = (r, s1)"
    by (cases "createAcceptedTurn ks (claimInputOf i (ss_sessionId (en_session ensured))) s")
  obtain s2 where q: "clearAcceptedTurnInFlightQuietly ks i s1 = (Inr (), s2)" using quiet_Inr(1) by blast
  obtain s3 where q': "releaseLeaseQuietly ks l s2 = (Inr (), s3)" using quiet_Inr(2) by blast
  show thesis
  proof (cases r)
    case (Inl e')
    with assms c q q' have "e' = e \<and> s3 = t" by (simp add: acceptWithLease_def bindS_def)
    with c q q' Inl that show thesis by simp
  next
    case (Inr claimed)
    with assms c q q' show thesis
      by (cases "ct_replayed claimed") (simp_all add: acceptWithLease_def bindS_def)
  qed
qed

lemma claim_touches: "touches (claimLeaseForAcceptedTurn ks u sid c i rq wo) UNIV"
proof -
  have "touches (evalClaim a b w r n) UNIV" for a b w r n
    unfolding evalClaim_def by (intro touches_bind touches_commands touches_if touches_return) auto
  then have claim: "touches (claimAcceptedTurnInFlight ks sid w c i rq) UNIV" for w
    unfolding claimAcceptedTurnInFlight_def by (intro touches_client touches_bind touches_command touches_return)
  have "touches (readTurnInFlightMarker ks c i) UNIV"
    by (rule touches_mono [OF touches_markers(1)]) simp
  with claim show ?thesis
    unfolding claimLeaseForAcceptedTurn_def Let_def
    by (intro touches_guard touches_bind) (auto split: claim_outcome.split intro: touches_bind)
qed

lemma failed_after_claim:
  assumes "faultless (redisPart s)" "0 < leaseMs ks"
    and "claimLeaseForAcceptedTurn ks u (ss_sessionId (en_session ensured)) c ik rq None (redisPart s) = (Inr (LeaseAcquired l), x)"
    and "acceptWithLease ks i ensured l (s\<lparr>redisPart := x\<rparr>) = (Inl e, t)"
  shows "sessionLeaseOf ks (redisPart t) = (sessionLeaseOf ks (redisPart s))(ss_sessionId (en_session ensured) := None) \<and>
    (\<forall>v y. sessionLeaseOf ks (redisPart s) (ss_sessionId (en_session ensured)) = Some (v, y) \<longrightarrow> y < nowOf s)"
proof -
  let ?sid = "ss_sessionId (en_session ensured)"
  note guards = claim_acquired_guards [OF assms(3)]
  have run: "claimLeaseForAcceptedTurn ks u ?sid c ik rq (Some u) (redisPart s) = (Inr (LeaseAcquired l), x)"
    using assms(3) claim_default [of ks u ?sid c ik rq None] by simp
  have l: "l = \<lparr>sl_sessionId = ?sid, sl_ownerToken = u\<rparr>" by (rule claim_acquired_lease(1) [OF assms(3)])
  from claim_law [OF run] have free: "live (redisPart s) (buildSessionLeaseKey ks ?sid) = None"
    and set: "entries x = (entries (redisPart s))(buildSessionLeaseKey ks ?sid \<mapsto> leaseEntry ks (redisPart s) u,
                             buildTurnInFlightKey ks c ik \<mapsto> leaseEntry ks (redisPart s) rq)"
    and now: "clock x = clock (redisPart s)"
    by auto
  obtain s1 s2 where st: "createAcceptedTurn ks (claimInputOf i ?sid) (s\<lparr>redisPart := x\<rparr>) = (Inl e, s1)"
    "clearAcceptedTurnInFlightQuietly ks i s1 = (Inr (), s2)" "releaseLeaseQuietly ks l s2 = (Inr (), t)"
    using acceptWithLease_Inl [OF assms(4)] by blast
  have f: "faultless x" using touchesD [OF claim_touches run] assms(1) by (simp add: faultless_def)
  note k = keepsLeasesD [OF keepsLeases_create st(1)] keepsLeasesD [OF keepsLeases_quiet(2) st(2)]
  have lease: "entries (redisPart s2) (buildSessionLeaseKey ks ?sid) = Some (leaseEntry ks (redisPart s) u)"
    using k set by simp
  have "live (redisPart s2) (buildSessionLeaseKey ks ?sid) = Some (RString u)"
    using lease k now assms(2) by (simp add: live_def leaseEntry_def)
  moreover have "faultless (redisPart s2)" using f k by (simp add: faultless_def)
  ultimately have del: "entries (redisPart t) = (entries (redisPart s2))(buildSessionLeaseKey ks ?sid := None)"
    using releaseLeaseQuietly_own [of s2 ks ?sid u] guards st(3) l by simp
  have "sessionLeaseOf ks (redisPart s2) = sessionLeaseOf ks x"
    using k by (intro sessionLeaseOf_kept) simp
  with sessionLeaseOf_delete [OF del] sessionLeaseOf_claim [OF set] free show ?thesis
    by (auto simp: nowOf_def dest: not_live_expired)
qed

text \<open>A failed acceptance gives the session back. When Redis answers, whatever the database
  does: if \<open>acceptTurn\<close> throws, every session has the lease it had before the call, or has none
  now and had none that was still running before; in particular no lease is left to the token of
  the failed call.\<close>

theorem failed_acceptance_returns_lease:
  assumes "faultless (redisPart s)" "0 < leaseMs ks"
    and "acceptTurn ks uuid i s = (Inl e, t)"
  shows "sessionLeaseOf ks (redisPart t) sid = sessionLeaseOf ks (redisPart s) sid \<or>
    sessionLeaseOf ks (redisPart t) sid = None \<and>
    (\<forall>v x. sessionLeaseOf ks (redisPart s) sid = Some (v, x) \<longrightarrow> x < nowOf s)"
proof -
  have kept: "sessionLeaseOf ks (redisPart b) = sessionLeaseOf ks (redisPart a) \<and>
      clock (redisPart b) = clock (redisPart a) \<and> faultless (redisPart b) = faultless (redisPart a)"
    if "keepsLeases ks m" "m a = (r, b)" for m :: "(runtime, 'x) oper" and a r b
    using keepsLeasesD [OF that] by (auto simp: faultless_def intro!: sessionLeaseOf_kept)
  obtain r1 s1 where a: "ensureSession ks (rq_conversation i) (rq_runtimeTier i) (sessionFieldsOf i) s = (r1, s1)"
    by (cases "ensureSession ks (rq_conversation i) (rq_runtimeTier i) (sessionFieldsOf i) s")
  note k1 = kept [OF resolve_keeps a]
  show ?thesis
  proof (cases r1)
    case (Inl e1)
    with assms(3) a k1 show ?thesis by (simp add: acceptTurn_def bindS_def)
  next
    case (Inr ensured)
    let ?sid = "ss_sessionId (en_session ensured)"
    obtain r2 s2 where b: "findReplayAcceptedTurn ks (claimInputOf i ?sid) s1 = (r2, s2)"
      by (cases "findReplayAcceptedTurn ks (claimInputOf i ?sid) s1")
    note k2 = kept [OF findReplay_keeps b]
    show ?thesis
    proof (cases "r2 = Inr None")
      case False
      with assms(3) a b Inr k1 k2 show ?thesis
        by (auto simp: acceptTurn_def bindS_def split: sum.splits option.splits)
    next
      case True
      obtain r3 s3 where c: "claimLeaseForAcceptedTurn ks uuid ?sid (rq_conversation i) (rq_idempotencyKey i)
          (rq_requestId i) None (redisPart s2) = (r3, s3)"
        by (cases "claimLeaseForAcceptedTurn ks uuid ?sid (rq_conversation i) (rq_idempotencyKey i)
          (rq_requestId i) None (redisPart s2)")
      have run: "(case r3 of Inl x \<Rightarrow> throwS x | Inr claim \<Rightarrow>
             (case claim of
               LeaseBusy \<Rightarrow> returnS (Turn_busy (en_conversationKey ensured) (en_session ensured))
             | LeaseInFlight rq \<Rightarrow>
                 returnS (Turn_in_flight (en_conversationKey ensured) (en_session ensured) rq)
             | LeaseAcquired lease \<Rightarrow> acceptWithLease ks i ensured lease)) (s2\<lparr>redisPart := s3\<rparr>) = (Inl e, t)"
        using assms(3) a b c Inr True by (cases r3) (simp_all add: acceptTurn_def bindS_def viaRedis_def)
      show ?thesis
      proof (cases r3)
        case (Inl x)
        then have "t = s2\<lparr>redisPart := s3\<rparr>" using run by simp
        moreover have "faultless (redisPart s2)" using k1 k2 assms(1) by simp
        ultimately show ?thesis
          using claimLease_faultless_Inl [OF _ c [unfolded Inl]] k1 k2 sessionLeaseOf_same [of s3 "redisPart s2" ks]
          by simp
      next
        case (Inr claim)
        then obtain l where l: "r3 = Inr (LeaseAcquired l)" and w: "acceptWithLease ks i ensured l (s2\<lparr>redisPart := s3\<rparr>) = (Inl e, t)"
          using run by (cases claim) simp_all
        have "faultless (redisPart s2)" using k1 k2 assms(1) by simp
        from failed_after_claim [OF this assms(2) c [unfolded l] w] k1 k2 show ?thesis
          by (auto simp: nowOf_def)
      qed
    qed
  qed
qed

text \<open>The database commits the receipt and the reply is lost: the lease is given back.\<close>

definition demoFailing :: runtime where
  "demoFailing = demoRuntime\<lparr>dbFaults := \<lambda>n. if n = 3 then FailAfter else NoFault\<rparr>"

lemma demo_failed: "\<exists>e. fst (acceptTurn demoKeyspace ''token'' demoTurn demoFailing) = Inl e"
  by (simp add: accept_eval demoFailing_def demoTurn_def demoRuntime_def demoRedis_def assertNonEmpty_def js_trim_def
      js_white_def hasSessionUpdateFields_def sessionFieldsOf_def noFields_def orDefault_def newSession_def
      toSessionSummary_def sessionExists_def isUniqueConstraintError_def releaseLeaseQuietly_def releaseLease_def
      releaseSessionLease_def releaseRead_def releaseDelete_def)

theorem failed_acceptance_returns_lease_witness:
  "(\<exists>e. fst (acceptTurn demoKeyspace ''token'' demoTurn demoFailing) = Inl e) \<and>
   sessionLeaseOf demoKeyspace (redisPart (snd (acceptTurn demoKeyspace ''token'' demoTurn demoFailing))) ''x'' = None"
proof -
  obtain e where "acceptTurn demoKeyspace ''token'' demoTurn demoFailing =
      (Inl e, snd (acceptTurn demoKeyspace ''token'' demoTurn demoFailing))"
    using demo_failed by (metis prod.collapse)
  from failed_acceptance_returns_lease [OF _ _ this, of "''x''"] demo_failed show ?thesis
    by (auto simp: demoFailing_def demoRuntime_def demoRedis_def faultless_def leaseMs_def sessionLeaseOf_def)
qed

end
