(* ===== verification/Reconciliation.thy ===== *)
theory Reconciliation
  imports TurnAcceptance
begin

text \<open>
  The batch that hands receipts of lost owners back
  (\<open>apps/runtime/src/modules/turns/reconcile-orphan-turn-receipts.service.ts\<close>): an accepted
  receipt that has not changed for the grace period, whose turn has no in-flight marker and whose
  session no lease, is failed with the orphan code. The grace period of the configuration is the
  argument \<open>configuredGraceMs\<close>.
\<close>

record reconcile_result =
  re_candidates :: nat
  re_applied :: nat
  re_skippedFresh :: nat
  re_skippedInFlight :: nat
  re_skippedSessionLease :: nat

definition orphanMessage :: string where
  "orphanMessage = ''Runtime turn receipt was reconciled after losing its active execution owner.''"

definition toConversationAddress :: "turn_receipt \<Rightarrow> conversation_address" where
  "toConversationAddress r =
     \<lparr>ca_assistantId = tr_assistantId r, ca_workspaceId = tr_workspaceId r, ca_channel = tr_channel r,
      ca_externalThreadKey = tr_externalThreadKey r, ca_externalUserKey = tr_externalUserKey r,
      ca_mode = tr_mode r\<rparr>"

text \<open>\<open>candidate.runtimeSessionId !== null && await hasSessionLease(...)\<close>\<close>

definition hasLiveLease :: "keyspace \<Rightarrow> turn_receipt \<Rightarrow> (runtime, bool) oper" where
  "hasLiveLease ks r =
     (case tr_runtimeSessionId r of
        None \<Rightarrow> returnS False
      | Some sid \<Rightarrow> viaRedis (hasSessionLease ks sid))"

fun reconcileLoop ::
  "keyspace \<Rightarrow> int \<Rightarrow> int \<Rightarrow> turn_receipt list \<Rightarrow> reconcile_result \<Rightarrow> (runtime, reconcile_result) oper" where
  "reconcileLoop ks now staleBefore [] res = returnS res"
| "reconcileLoop ks now staleBefore (c # cs) res =
     (if tr_updatedAt c \<ge> staleBefore
      then reconcileLoop ks now staleBefore cs (res\<lparr>re_skippedFresh := Suc (re_skippedFresh res)\<rparr>)
      else
        bindS (viaRedis (readTurnInFlightMarker ks (toConversationAddress c) (tr_idempotencyKey c))) (\<lambda>marker.
          if marker \<noteq> None
          then reconcileLoop ks now staleBefore cs (res\<lparr>re_skippedInFlight := Suc (re_skippedInFlight res)\<rparr>)
          else bindS (hasLiveLease ks c) (\<lambda>leased.
            if leased
            then reconcileLoop ks now staleBefore cs
                   (res\<lparr>re_skippedSessionLease := Suc (re_skippedSessionLease res)\<rparr>)
            else bindS (reconcileOrphanAcceptedTurnReceipt (tr_requestId c) now orphanCode orphanMessage) (\<lambda>count.
              if count = 0 then reconcileLoop ks now staleBefore cs res
              else bindS (viaRedis (clearTurnInFlightMarker ks (toConversationAddress c) (tr_idempotencyKey c)))
                     (\<lambda>_. reconcileLoop ks now staleBefore cs (res\<lparr>re_applied := Suc (re_applied res)\<rparr>))))))"

definition executeBatch ::
  "keyspace \<Rightarrow> int \<Rightarrow> nat \<Rightarrow> int option \<Rightarrow> int option \<Rightarrow> (runtime, reconcile_result) oper" where
  "executeBatch ks configuredGraceMs limit nowOption graceOption s =
     (let now = (case nowOption of Some n \<Rightarrow> n | None \<Rightarrow> nowOf s);
          graceMs = (case graceOption of Some g \<Rightarrow> g | None \<Rightarrow> configuredGraceMs);
          staleBefore = now - graceMs
      in bindS (findStaleAcceptedTurnReceiptCandidates staleBefore limit) (\<lambda>candidates.
           reconcileLoop ks now staleBefore candidates
             \<lparr>re_candidates = length candidates, re_applied = 0, re_skippedFresh = 0,
              re_skippedInFlight = 0, re_skippedSessionLease = 0\<rparr>) s)"

section \<open>Only orphans are reconciled\<close>

text \<open>What the batch may do to a row: nothing, or fail it when its owner is gone.\<close>

definition orphanRow :: "int \<Rightarrow> int \<Rightarrow> turn_receipt \<Rightarrow> turn_receipt" where
  "orphanRow now stamp r =
     r\<lparr>tr_status := Rs_failed, tr_errorCode := Some orphanCode, tr_errorMessage := Some orphanMessage,
       tr_completedAt := Some now, tr_resultPayload := None, tr_updatedAt := stamp\<rparr>"

definition lostOwner :: "keyspace \<Rightarrow> redis \<Rightarrow> int \<Rightarrow> turn_receipt \<Rightarrow> bool" where
  "lostOwner ks x staleBefore r \<longleftrightarrow> tr_status r = Rs_accepted \<and> tr_updatedAt r < staleBefore \<and>
     live x (buildTurnInFlightKey ks (toConversationAddress r) (tr_idempotencyKey r)) = None \<and>
     (case tr_runtimeSessionId r of None \<Rightarrow> True | Some sid \<Rightarrow> live x (buildSessionLeaseKey ks sid) = None)"

definition reconciledRow :: "keyspace \<Rightarrow> redis \<Rightarrow> int \<Rightarrow> int \<Rightarrow> turn_receipt \<Rightarrow> turn_receipt \<Rightarrow> bool" where
  "reconciledRow ks x now staleBefore r r' \<longleftrightarrow>
     r' = r \<or> lostOwner ks x staleBefore r \<and> r' = orphanRow now (clock x) r"

lemma readMarker_None:
  assumes "viaRedis (readTurnInFlightMarker ks c i) s = (r, t)"
  shows "live (redisPart t) = live (redisPart s)" "clock (redisPart t) = clock (redisPart s)"
    "receiptTable t = receiptTable s"
    "r = Inr None \<Longrightarrow> live (redisPart s) (buildTurnInFlightKey ks c i) = None"
proof -
  obtain x where x: "readTurnInFlightMarker ks c i (redisPart s) = (r, x)" "t = s\<lparr>redisPart := x\<rparr>"
    using viaRedis_result [OF assms] by blast
  note same = touches_nothing [OF touches_markers(1) x(1)]
  then show "live (redisPart t) = live (redisPart s)" "clock (redisPart t) = clock (redisPart s)"
    "receiptTable t = receiptTable s"
    using x(2) live_cong [of x "redisPart s"] by simp_all
  assume "r = Inr None"
  with x(1) show "live (redisPart s) (buildTurnInFlightKey ks c i) = None"
    unfolding readTurnInFlightMarker_def
  proof (cases rule: withClient_cases)
    case (1 s1)
    from 1(4) \<open>r = Inr None\<close> show ?thesis
    proof (cases rule: command_cases)
      case (1 s2)
      have "live s2 = live (redisPart s)" using 1 \<open>entries s1 = _\<close> \<open>clock s1 = _\<close> by (intro live_cong) simp_all
      with 1 \<open>r = Inr None\<close> show ?thesis by (auto simp: cmdGet_def split: option.splits redis_value.splits)
    qed simp_all
  qed simp
qed

lemma hasLiveLease_False:
  assumes "hasLiveLease ks c s = (r, t)"
  shows "live (redisPart t) = live (redisPart s)" "clock (redisPart t) = clock (redisPart s)"
    "receiptTable t = receiptTable s"
    "r = Inr False \<Longrightarrow> (case tr_runtimeSessionId c of None \<Rightarrow> True
        | Some sid \<Rightarrow> live (redisPart s) (buildSessionLeaseKey ks sid) = None)"
proof -
  have "live (redisPart t) = live (redisPart s) \<and> clock (redisPart t) = clock (redisPart s) \<and>
    receiptTable t = receiptTable s \<and> (r = Inr False \<longrightarrow> (case tr_runtimeSessionId c of None \<Rightarrow> True
        | Some sid \<Rightarrow> live (redisPart s) (buildSessionLeaseKey ks sid) = None))"
  proof (cases "tr_runtimeSessionId c")
    case None
    with assms show ?thesis by (auto simp: hasLiveLease_def)
  next
    case (Some sid)
    then obtain x where x: "hasSessionLease ks sid (redisPart s) = (r, x)" "t = s\<lparr>redisPart := x\<rparr>"
      using viaRedis_result [of "hasSessionLease ks sid" s r t] assms by (auto simp: hasLiveLease_def)
    note same = touches_nothing [OF touches_markers(5) x(1)]
    have "live (redisPart s) (buildSessionLeaseKey ks sid) = None" if "r = Inr False"
      using x(1) that unfolding hasSessionLease_def
    proof (cases rule: client_command_cases)
      case (1 s1 v)
      have "live s1 = live (redisPart s)" using 1 by (intro live_cong) simp_all
      with 1 that show ?thesis by (auto simp: cmdGet_def split: option.splits redis_value.splits)
    qed simp_all
    with same x(2) Some live_cong [of x "redisPart s"] show ?thesis by simp
  qed
  then show "live (redisPart t) = live (redisPart s)" "clock (redisPart t) = clock (redisPart s)"
    "receiptTable t = receiptTable s"
    "r = Inr False \<Longrightarrow> (case tr_runtimeSessionId c of None \<Rightarrow> True
        | Some sid \<Rightarrow> live (redisPart s) (buildSessionLeaseKey ks sid) = None)"
    by simp_all
qed

lemma reconcileReceipt_rows:
  assumes "reconcileOrphanAcceptedTurnReceipt rq now orphanCode orphanMessage s = (n, t)"
  shows "redisPart t = redisPart s" "receiptTable t = receiptTable s \<or> receiptTable t =
    updateRows (\<lambda>r. tr_requestId r = rq \<and> tr_status r = Rs_accepted) (orphanRow now (nowOf s)) (receiptTable s)"
proof -
  have now: "nowOf (s\<lparr>dbCalls := k\<rparr>) = nowOf s" for k by (simp add: nowOf_def)
  show "redisPart t = redisPart s" "receiptTable t = receiptTable s \<or> receiptTable t =
    updateRows (\<lambda>r. tr_requestId r = rq \<and> tr_status r = Rs_accepted) (orphanRow now (nowOf s)) (receiptTable s)"
    using dbCall_Inl_or [OF assms [unfolded reconcileOrphanAcceptedTurnReceipt_def]]
    by (auto simp: Let_def now orphanRow_def [abs_def])
qed

lemma clearMarker_dead:
  assumes "viaRedis (clearTurnInFlightMarker ks c i) s = (r, t)"
    and "live (redisPart s) (buildTurnInFlightKey ks c i) = None"
  shows "live (redisPart t) = live (redisPart s)" "clock (redisPart t) = clock (redisPart s)"
    "receiptTable t = receiptTable s"
proof -
  obtain x where x: "clearTurnInFlightMarker ks c i (redisPart s) = (r, x)" "t = s\<lparr>redisPart := x\<rparr>"
    using viaRedis_result [OF assms(1)] by blast
  have dead: "live (y\<lparr>entries := (entries y)(buildTurnInFlightKey ks c i := None)\<rparr>) = live (redisPart s)"
    if "entries y = entries (redisPart s)" "clock y = clock (redisPart s)" for y
    using that assms(2) by (intro ext) (simp add: live_def cong: option.case_cong)
  have "live x = live (redisPart s) \<and> clock x = clock (redisPart s)"
    using x(1) unfolding clearTurnInFlightMarker_def
  proof (cases rule: client_command_cases)
    case (1 s1 v)
    with dead [of s1] show ?thesis by (auto simp: cmdDel_def delEntry_def)
  next
    case (2 s1 e e')
    then show ?thesis by (simp add: cmdDel_def)
  next
    case 3
    then show ?thesis by (auto intro: live_cong)
  qed
  with x(2) show "live (redisPart t) = live (redisPart s)" "clock (redisPart t) = clock (redisPart s)"
    "receiptTable t = receiptTable s" by simp_all
qed

lemma reconcile_one:
  assumes "receiptsOk rows" "list_all2 (reconciledRow ks x now sb) rows rows'"
    and "c \<in> set rows" "lostOwner ks x sb c"
  shows "list_all2 (reconciledRow ks x now sb) rows
    (updateRows (\<lambda>r. tr_requestId r = tr_requestId c \<and> tr_status r = Rs_accepted) (orphanRow now (clock x)) rows')"
  unfolding list_all2_conv_all_nth
proof (intro conjI allI impI)
  show "length rows = length (updateRows (\<lambda>r. tr_requestId r = tr_requestId c \<and> tr_status r = Rs_accepted)
      (orphanRow now (clock x)) rows')"
    using assms(2) by (simp add: updateRows_def list_all2_lengthD)
next
  fix j assume j: "j < length rows"
  then have len: "j < length rows'" and rel: "reconciledRow ks x now sb (rows ! j) (rows' ! j)"
    using assms(2) by (auto simp: list_all2_conv_all_nth)
  have at: "updateRows p f rows' ! j = (if p (rows' ! j) then f (rows' ! j) else rows' ! j)" for p f
    using len by (simp add: updateRows_def)
  show "reconciledRow ks x now sb (rows ! j) (updateRows (\<lambda>r. tr_requestId r = tr_requestId c \<and> tr_status r = Rs_accepted)
      (orphanRow now (clock x)) rows' ! j)"
  proof (cases "tr_requestId (rows' ! j) = tr_requestId c \<and> tr_status (rows' ! j) = Rs_accepted")
    case True
    then have same: "rows' ! j = rows ! j" using rel by (auto simp: reconciledRow_def orphanRow_def)
    have "rows ! j = c"
      using receiptsOk_same_request [OF assms(1) nth_mem [OF j] assms(3)] True same by simp
    with True same assms(4) show ?thesis by (simp add: at reconciledRow_def)
  next
    case False
    then have "updateRows (\<lambda>r. tr_requestId r = tr_requestId c \<and> tr_status r = Rs_accepted)
      (orphanRow now (clock x)) rows' ! j = rows' ! j" by (auto simp: at)
    with rel show ?thesis by simp
  qed
qed

definition batchInv :: "keyspace \<Rightarrow> redis \<Rightarrow> int \<Rightarrow> int \<Rightarrow> turn_receipt list \<Rightarrow> runtime \<Rightarrow> bool" where
  "batchInv ks x now sb rows s \<longleftrightarrow> live (redisPart s) = live x \<and> clock (redisPart s) = clock x \<and>
     list_all2 (reconciledRow ks x now sb) rows (receiptTable s)"

lemma reconcileLoop_inv:
  assumes "receiptsOk rows" "set cs \<subseteq> {c \<in> set rows. tr_status c = Rs_accepted}"
    and "batchInv ks x now sb rows s" "reconcileLoop ks now sb cs res s = (r, t)"
  shows "batchInv ks x now sb rows t"
  using assms(2-4)
proof (induction cs arbitrary: res s)
  case Nil
  then show ?case by simp
next
  case (Cons c cs)
  note IH = Cons.IH
  have sub: "set cs \<subseteq> {c \<in> set rows. tr_status c = Rs_accepted}" and c: "c \<in> set rows" "tr_status c = Rs_accepted"
    using Cons.prems(1) by auto
  show ?case
  proof (cases "tr_updatedAt c \<ge> sb")
    case True
    with IH [OF sub Cons.prems(2)] Cons.prems(3) show ?thesis by simp
  next
    case False
    obtain m s1 where m: "viaRedis (readTurnInFlightMarker ks (toConversationAddress c) (tr_idempotencyKey c)) s = (m, s1)"
      by (cases "viaRedis (readTurnInFlightMarker ks (toConversationAddress c) (tr_idempotencyKey c)) s")
    note m' = readMarker_None [OF m]
    have inv1: "batchInv ks x now sb rows s1" using Cons.prems(2) m' by (simp add: batchInv_def)
    show ?thesis
    proof (cases "m = Inr None")
      case no: False
      with IH [OF sub inv1] Cons.prems(3) False m inv1 show ?thesis
        by (cases m) (auto simp: bindS_def)
    next
      case yes: True
      obtain l s2 where l: "hasLiveLease ks c s1 = (l, s2)" by (cases "hasLiveLease ks c s1")
      note l' = hasLiveLease_False [OF l]
      have inv2: "batchInv ks x now sb rows s2" using inv1 l' by (simp add: batchInv_def)
      show ?thesis
      proof (cases "l = Inr False")
        case leased: False
        with IH [OF sub inv2] Cons.prems(3) False m l inv2 yes show ?thesis
          by (cases l) (auto simp: bindS_def)
      next
        case free: True
        have lost: "lostOwner ks x sb c"
          using m'(4) [OF yes] l'(4) [OF free] inv1 Cons.prems(2) False c(2)
          by (auto simp: lostOwner_def batchInv_def split: option.splits)
        obtain n s3 where n: "reconcileOrphanAcceptedTurnReceipt (tr_requestId c) now orphanCode orphanMessage s2 = (n, s3)"
          by (cases "reconcileOrphanAcceptedTurnReceipt (tr_requestId c) now orphanCode orphanMessage s2")
        note n' = reconcileReceipt_rows [OF n]
        have inv3: "batchInv ks x now sb rows s3"
          using n' inv2 reconcile_one [OF assms(1) _ c(1) lost, of now "receiptTable s2"]
          by (auto simp: batchInv_def nowOf_def)
        obtain u s4 where u: "viaRedis (clearTurnInFlightMarker ks (toConversationAddress c) (tr_idempotencyKey c)) s3 = (u, s4)"
          by (cases "viaRedis (clearTurnInFlightMarker ks (toConversationAddress c) (tr_idempotencyKey c)) s3")
        have "live (redisPart s3) (buildTurnInFlightKey ks (toConversationAddress c) (tr_idempotencyKey c)) = None"
          using inv3 lost by (simp add: batchInv_def lostOwner_def)
        note u' = clearMarker_dead [OF u this]
        have inv4: "batchInv ks x now sb rows s4" using inv3 u' by (simp add: batchInv_def)
        show ?thesis
          using IH [OF sub inv3] IH [OF sub inv4] inv3 inv4 Cons.prems(3) False m l n u yes free
          by (cases n; cases u) (auto simp: bindS_def split: if_splits)
      qed
    qed
  qed
qed

text \<open>C15: The batch reconciles only orphans. Whatever fails on the way, after \<open>executeBatch\<close>
  the receipt table has the same rows in the same order, each unchanged or failed with the orphan
  code; and a row was failed only if it was accepted, not updated since the grace period began,
  had no live in-flight marker for its turn, and no live lease on its session.\<close>

theorem reconcile_only_orphans:
  assumes "storeOk s"
    and "executeBatch ks configuredGraceMs limit nowOption graceOption s = (r, t)"
    and "now = (case nowOption of Some n \<Rightarrow> n | None \<Rightarrow> nowOf s)"
    and "staleBefore = now - (case graceOption of Some g \<Rightarrow> g | None \<Rightarrow> configuredGraceMs)"
  shows "list_all2 (reconciledRow ks (redisPart s) now staleBefore) (receiptTable s) (receiptTable t)"
proof -
  obtain c s1 where c: "findStaleAcceptedTurnReceiptCandidates staleBefore limit s = (c, s1)"
    by (cases "findStaleAcceptedTurnReceiptCandidates staleBefore limit s")
  have "receiptTable s1 = receiptTable s" using dbPureD [OF dbPure_finds(5) c] by (simp add: sameDatabase_def)
  moreover have "redisPart s1 = redisPart s"
    using dbCall_Inl_or [OF c [unfolded findStaleAcceptedTurnReceiptCandidates_def]] by auto
  ultimately have inv: "batchInv ks (redisPart s) now staleBefore (receiptTable s) s1"
    by (simp add: batchInv_def list_all2_refl reconciledRow_def)
  have rows: "receiptsOk (receiptTable s)" using assms(1) by (simp add: storeOk_def)
  show ?thesis
  proof (cases c)
    case (Inl e)
    with assms(2-4) c inv show ?thesis by (simp add: executeBatch_def Let_def bindS_def batchInv_def)
  next
    case (Inr cs)
    with c have "cs = take limit (sort_key tr_updatedAt
        (filter (\<lambda>r. tr_status r = Rs_accepted \<and> tr_updatedAt r < staleBefore) (receiptTable s)))"
      unfolding findStaleAcceptedTurnReceiptCandidates_def by (auto dest!: dbCall_Inr)
    then have "set cs \<subseteq> {c \<in> set (receiptTable s). tr_status c = Rs_accepted}"
      by (auto dest!: in_set_takeD)
    from reconcileLoop_inv [OF rows this inv] Inr c assms(2-4) show ?thesis
      by (auto simp: executeBatch_def Let_def bindS_def batchInv_def)
  qed
qed

text \<open>A receipt that has stood for an hour with nobody behind it is handed back.\<close>

definition demoOrphaned :: runtime where
  "demoOrphaned = (snd (createAcceptedTurnReceipt Undef Undef Tier_paid_isolated ''c'' demoConversation ''r1'' ''k''
     Undef demoRuntime))"

theorem reconcile_only_orphans_witness:
  "map tr_status (receiptTable (snd (executeBatch demoKeyspace 60000 10 (Some 3600000) None demoOrphaned))) = [Rs_failed] \<and>
   list_all2 (reconciledRow demoKeyspace (redisPart demoOrphaned) 3600000 3540000) (receiptTable demoOrphaned)
     (receiptTable (snd (executeBatch demoKeyspace 60000 10 (Some 3600000) None demoOrphaned)))"
proof
  show "map tr_status (receiptTable (snd (executeBatch demoKeyspace 60000 10 (Some 3600000) None demoOrphaned))) = [Rs_failed]"
    by (simp add: executeBatch_def demoOrphaned_def createAcceptedTurnReceipt_def orDefault_def nowOf_def
        findStaleAcceptedTurnReceiptCandidates_def readTurnInFlightMarker_def hasLiveLease_def
        reconcileOrphanAcceptedTurnReceipt_def countRows_def updateRows_def clearTurnInFlightMarker_def cmdDel_def
        delEntry_def demoRuntime_def demoRedis_def store_eval)
  have "storeOk demoOrphaned"
    unfolding demoOrphaned_def by (rule preservesD [OF preserves_createReceipt demoRuntime_ok])
  from reconcile_only_orphans [where ks = demoKeyspace and configuredGraceMs = 60000 and limit = 10
      and nowOption = "Some 3600000" and graceOption = None, OF this prod.collapse [symmetric] refl refl]
  show "list_all2 (reconciledRow demoKeyspace (redisPart demoOrphaned) 3600000 3540000) (receiptTable demoOrphaned)
     (receiptTable (snd (executeBatch demoKeyspace 60000 10 (Some 3600000) None demoOrphaned)))"
    by simp
qed

end
