(* ===== verification/MicroClear.thy ===== *)
theory MicroClear
  imports PersaiPrelude
begin

text \<open>
  When old tool results are cleared from a session's history
  (\<open>apps/runtime/src/modules/turns/tool-observation-policy.ts\<close>) and the token pressure this is
  decided on (\<open>session-context-pressure-tokens.ts\<close>).

  Pressure and threshold are JavaScript numbers; the arm is 50 or 75 percent of the compaction
  threshold, or exhausted (the code's 0). \<open>micro_clear_settles\<close> is the purpose of the
  hysteresis: at constant pressure the arm comes to rest.
\<close>

section \<open>The pressure of a turn\<close>

record usage_snapshot =
  us_providerKey :: "string option"
  us_modelKey :: "string option"
  us_inputTokens :: "int option"
  us_totalTokens :: "int option"

record usage_entry =
  ue_stepType :: string
  ue_totalInputTokens :: int

definition resolveSessionContextPressureTokens ::
  "usage_snapshot option \<Rightarrow> usage_entry list option \<Rightarrow> int option" where
  "resolveSessionContextPressureTokens usage accounting =
     (case (case accounting of None \<Rightarrow> None
            | Some entries \<Rightarrow> find (\<lambda>e. ue_stepType e = ''main_turn'') entries) of
        Some mainTurn \<Rightarrow> Some (ue_totalInputTokens mainTurn)
      | None \<Rightarrow>
          (case usage of
             None \<Rightarrow> None
           | Some u \<Rightarrow>
               (case us_inputTokens u of
                  Some n \<Rightarrow> Some n
                | None \<Rightarrow> us_totalTokens u)))"

section \<open>The arm schedule\<close>

definition KEEP_FULL_COUNT :: int where
  "KEEP_FULL_COUNT = 5"

definition HYSTERESIS_RATIO :: rat where
  "HYSTERESIS_RATIO = 5 / 100"

datatype arm_percent = Arm50 | Arm75 | Arm_exhausted

definition armNumber :: "arm_percent \<Rightarrow> int" where
  "armNumber a = (case a of Arm50 \<Rightarrow> 50 | Arm75 \<Rightarrow> 75 | Arm_exhausted \<Rightarrow> 0)"

text \<open>\<open>None\<close> is null or undefined.\<close>

definition normalizeMicroClearArmPercent :: "int option \<Rightarrow> arm_percent" where
  "normalizeMicroClearArmPercent v =
     (if v = Some 75 then Arm75 else if v = Some 0 then Arm_exhausted else Arm50)"

definition microClearArmRatio :: "arm_percent \<Rightarrow> js_number" where
  "microClearArmRatio a =
     (if a = Arm_exhausted then PosInf else Fin (of_int (armNumber a) / 100))"

definition shouldCrossToolObservationMicroClearArm ::
  "int option \<Rightarrow> js_number option \<Rightarrow> bool option \<Rightarrow> js_number \<Rightarrow> bool" where
  "shouldCrossToolObservationMicroClearArm nextArmPercent currentTokens fresh threshold0 =
     (if fresh \<noteq> Some True then False
      else case currentTokens of
        None \<Rightarrow> False
      | Some tokens \<Rightarrow>
          if \<not> isFinite tokens then False
          else
            (let armPercent = normalizeMicroClearArmPercent nextArmPercent;
                 threshold = js_max (jsInt 1) threshold0
             in if armPercent = Arm_exhausted then False
                else js_le (js_times threshold (microClearArmRatio armPercent)) tokens))"

definition shouldApplyToolObservationMicroClear ::
  "bool option \<Rightarrow> int option \<Rightarrow> js_number option \<Rightarrow> bool option \<Rightarrow> js_number \<Rightarrow> bool" where
  "shouldApplyToolObservationMicroClear active nextArmPercent currentTokens fresh threshold =
     (if active = Some True then True
      else shouldCrossToolObservationMicroClearArm nextArmPercent currentTokens fresh threshold)"

definition resolveMicroClearNextArmAfterClear ::
  "int option \<Rightarrow> js_number option \<Rightarrow> bool option \<Rightarrow> js_number \<Rightarrow> arm_percent" where
  "resolveMicroClearNextArmAfterClear lastArmPercent currentTokens fresh threshold0 =
     (let lastArm = normalizeMicroClearArmPercent lastArmPercent in
      if lastArm = Arm_exhausted then Arm_exhausted
      else if fresh \<noteq> Some True then lastArm
      else case currentTokens of
        None \<Rightarrow> lastArm
      | Some tokens \<Rightarrow>
          if \<not> isFinite tokens then lastArm
          else
            (let threshold = js_max (jsInt 1) threshold0;
                 floorRatio = js_minus (microClearArmRatio lastArm) (Fin HYSTERESIS_RATIO);
                 stillAboveHysteresis = js_less (js_times threshold floorRatio) tokens
             in if \<not> stillAboveHysteresis then Arm50
                else if lastArm = Arm50 then Arm75
                else Arm_exhausted))"

datatype observation_tier = Tier_full | Tier_compact | Tier_masked

definition assignMicroClearObservationTier :: "int \<Rightarrow> int \<Rightarrow> bool \<Rightarrow> observation_tier" where
  "assignMicroClearObservationTier index exchangeCount isError =
     (if exchangeCount \<le> 0 \<or> index < 0 \<or> index \<ge> exchangeCount
      then (if isError then Tier_compact else Tier_masked)
      else if exchangeCount - 1 - index < KEEP_FULL_COUNT then Tier_full
      else if isError then Tier_compact else Tier_masked)"

section \<open>The schedule comes to rest\<close>

text \<open>One turn at pressure \<open>p\<close>: if the arm is crossed, it is resolved again after the clear.\<close>

definition armStep :: "int \<Rightarrow> rat \<Rightarrow> arm_percent \<Rightarrow> arm_percent" where
  "armStep p threshold a =
     (if shouldCrossToolObservationMicroClearArm (Some (armNumber a)) (Some (jsInt p)) (Some True) (Fin threshold)
      then resolveMicroClearNextArmAfterClear (Some (armNumber a)) (Some (jsInt p)) (Some True) (Fin threshold)
      else a)"

lemma normalize_armNumber [simp]: "normalizeMicroClearArmPercent (Some (armNumber a)) = a"
  by (cases a) (simp_all add: normalizeMicroClearArmPercent_def armNumber_def)

lemma cross_simps [simp]:
  "shouldCrossToolObservationMicroClearArm (Some (armNumber a)) (Some (jsInt p)) (Some True) (Fin c) \<longleftrightarrow>
     a \<noteq> Arm_exhausted \<and> max 1 c * of_int (armNumber a) \<le> 100 * of_int p"
  by (auto simp: shouldCrossToolObservationMicroClearArm_def microClearArmRatio_def)

lemma resolve_simps [simp]:
  "resolveMicroClearNextArmAfterClear (Some (armNumber a)) (Some (jsInt p)) (Some True) (Fin c) =
     (if a = Arm_exhausted then Arm_exhausted
      else if 100 * of_int p \<le> max 1 c * (of_int (armNumber a) - 5) then Arm50
      else if a = Arm50 then Arm75 else Arm_exhausted)"
  by (auto simp: resolveMicroClearNextArmAfterClear_def microClearArmRatio_def HYSTERESIS_RATIO_def
      js_minus_def field_simps)

lemma armNumber_simps [simp]: "armNumber Arm50 = 50" "armNumber Arm75 = 75" "armNumber Arm_exhausted = 0"
  by (simp_all add: armNumber_def)

text \<open>The two decisions on the arms' numbers.\<close>

lemmas arm_numbers [simp] =
  cross_simps [of Arm50, simplified] cross_simps [of Arm75, simplified] cross_simps [of Arm_exhausted, simplified]

lemma armStep_crossed:
  assumes "max 1 c * of_int (armNumber a) \<le> 100 * of_int p" "a \<noteq> Arm_exhausted"
  shows "armStep p c a = (if a = Arm50 then Arm75 else Arm_exhausted)"
proof -
  have "0 < max 1 c" by simp
  then have "max 1 c * (of_int (armNumber a) - 5) < 100 * of_int p"
    unfolding right_diff_distrib using assms(1) by linarith
  with assms show ?thesis by (auto simp: armStep_def simp del: arm_numbers)
qed

lemma armStep_below: "100 * of_int p < max 1 c * of_int (armNumber a) \<Longrightarrow> armStep p c a = a"
  by (simp add: armStep_def del: arm_numbers)

lemma armStep_exhausted [simp]: "armStep p c Arm_exhausted = Arm_exhausted"
  by (simp add: armStep_def)

text \<open>The hysteresis schedule settles. At constant fresh pressure the arm is left alone after
  at most two crossings, whatever arm it starts from; it rests at an arm the pressure does not
  cross, and exhausted exactly when the pressure is at least 75 percent of the threshold or it was
  exhausted before.\<close>

theorem micro_clear_settles:
  "let rest = armStep p c (armStep p c a) in
     armStep p c rest = rest \<and>
     \<not> shouldCrossToolObservationMicroClearArm (Some (armNumber rest)) (Some (jsInt p)) (Some True) (Fin c) \<and>
     (rest = Arm_exhausted) = (a = Arm_exhausted \<or> max 1 c * 75 \<le> 100 * of_int p)"
proof -
  consider "max 1 c * 75 \<le> 100 * of_int p" | "max 1 c * 50 \<le> 100 * of_int p" "100 * of_int p < max 1 c * 75"
    | "100 * of_int p < max 1 c * 50" by linarith
  then show ?thesis
  proof cases
    case 1
    then have "max 1 c * 50 \<le> 100 * of_int p" by (simp add: max_def split: if_splits)
    with 1 show ?thesis
      by (cases a) (simp_all add: Let_def armStep_crossed del: max_less_iff_conj max.bounded_iff)
  next
    case 2
    then show ?thesis
      by (cases a) (simp_all add: Let_def armStep_crossed armStep_below)
  next
    case 3
    then have "100 * of_int p < max 1 c * 75" by (simp add: max_def split: if_splits)
    with 3 show ?thesis
      by (cases a) (auto simp: Let_def armStep_below)
  qed
qed

text \<open>Clearing keeps the newest results. Of \<open>n\<close> tool results the newest five, or all when
  there are fewer, stay full; an older one is compact if it is an error and masked otherwise.\<close>

theorem newest_results_stay_full:
  "{i. assignMicroClearObservationTier i n isError = Tier_full} = {max 0 (n - 5) ..< n}"
  by (auto simp: assignMicroClearObservationTier_def KEEP_FULL_COUNT_def)

end
