(* ===== verification/TurnFinalization.thy ===== *)
theory TurnFinalization
  imports TurnAcceptance MicroClear
begin

text \<open>
  The end of a turn (\<open>apps/runtime/src/modules/turns/turn-finalization.service.ts\<close>): the receipt
  reaches its final status, the session's summary is updated, and in \<open>finally\<close> the lease is
  released, but only once the receipt was persisted.

  ISO timestamps are instants, \<open>None\<close> one that does not parse. \<open>rt_payload\<close> and
  \<open>ev_payload\<close> are the result and the event as they are serialized into the receipt.
\<close>

record accepted_turn =
  at_conversationKey :: string
  at_session :: session_summary
  at_receipt :: receipt_summary
  at_lease :: session_lease

record turn_result =
  rt_requestId :: string
  rt_sessionId :: string
  rt_respondedAt :: "int option"
  rt_usage :: "usage_snapshot option"
  rt_accounting :: "usage_entry list option"
  rt_payload :: json

record interrupted_event =
  ie_requestId :: string
  ie_sessionId :: string
  ie_respondedAt :: "int option option"
  ie_payload :: json

record failed_event =
  fe_requestId :: string
  fe_sessionId :: "string option"
  fe_code :: string
  fe_message :: string
  fe_payload :: json

record finalized_turn =
  fi_receiptStatus :: receipt_status
  fi_session :: session_summary
  fi_leaseReleased :: bool

definition assertMatchingTurnIdentity :: "string \<Rightarrow> string \<Rightarrow> string \<Rightarrow> string \<Rightarrow> unit outcome" where
  "assertMatchingTurnIdentity expectedRequestId expectedSessionId actualRequestId actualSessionId =
     (if expectedRequestId \<noteq> actualRequestId
      then Inl (BadRequestException ''Turn finalization requestId does not match the accepted receipt'')
      else if expectedSessionId \<noteq> actualSessionId
      then Inl (BadRequestException ''Turn finalization sessionId does not match the accepted session'')
      else Inr ())"

definition assertMatchingFailedTurnIdentity :: "accepted_turn \<Rightarrow> failed_event \<Rightarrow> unit outcome" where
  "assertMatchingFailedTurnIdentity turn ev =
     (if sm_requestId (at_receipt turn) \<noteq> fe_requestId ev
      then Inl (BadRequestException ''Turn failure requestId does not match the accepted receipt'')
      else case fe_sessionId ev of
        Some sid \<Rightarrow>
          if ss_sessionId (at_session turn) \<noteq> sid
          then Inl (BadRequestException ''Turn failure sessionId does not match the accepted session'')
          else Inr ()
      | None \<Rightarrow> Inr ())"

definition parseRequiredIsoTimestamp :: "int option \<Rightarrow> string \<Rightarrow> int outcome" where
  "parseRequiredIsoTimestamp v field =
     (case v of Some d \<Rightarrow> Inr d
      | None \<Rightarrow> Inl (BadRequestException (field @ '' must be a valid ISO timestamp'')))"

text \<open>A pure step that can throw.\<close>

definition liftS :: "'a outcome \<Rightarrow> ('s, 'a) oper" where
  "liftS r = (\<lambda>s. (r, s))"

definition releaseQuietly :: "keyspace \<Rightarrow> accepted_turn \<Rightarrow> (runtime, bool) oper" where
  "releaseQuietly ks turn = catchS (viaRedis (releaseLease ks (at_lease turn))) (\<lambda>_. returnS False)"

text \<open>
  \<open>try { persist; persisted = true; session = rest } finally { if (persisted) leaseReleased =
  await releaseLeaseQuietly(turn) }\<close>.
\<close>

definition persistThenRelease ::
  "keyspace \<Rightarrow> accepted_turn \<Rightarrow> (runtime, turn_receipt) oper \<Rightarrow> (runtime, session_summary) oper \<Rightarrow>
   (runtime, session_summary \<times> bool) oper" where
  "persistThenRelease ks turn persist rest =
     bindS persist (\<lambda>_ s.
       (case rest s of
          (r, s1) \<Rightarrow>
            (case releaseQuietly ks turn s1 of
               (Inl e, s2) \<Rightarrow> (Inl e, s2)
             | (Inr released, s2) \<Rightarrow> (map_sum id (\<lambda>session. (session, released)) r, s2))))"

definition finalizedAs :: "receipt_status \<Rightarrow> (runtime, session_summary \<times> bool) oper \<Rightarrow> (runtime, finalized_turn) oper" where
  "finalizedAs status m = bindS m (\<lambda>(session, released). returnS
     \<lparr>fi_receiptStatus = status, fi_session = session, fi_leaseReleased = released\<rparr>)"

text \<open>The fields a completed micro-clear evaluation writes.\<close>

definition resolveMicroClearArmPatch ::
  "string \<Rightarrow> int option \<Rightarrow> js_number option \<Rightarrow> (runtime, session_fields) oper" where
  "resolveMicroClearArmPatch sessionId pressure threshold =
     bindS (findSessionById sessionId) (\<lambda>persisted.
       case persisted of
         None \<Rightarrow> returnS noFields
       | Some r \<Rightarrow>
           if \<not> rs_microClearPendingEval r then returnS noFields
           else case threshold of
             Some c \<Rightarrow>
               if \<not> isFinite c then returnS (noFields\<lparr>sf_microClearPendingEval := Val False\<rparr>)
               else returnS (noFields\<lparr>
                 sf_microClearNextArmPercent := Val (armNumber (resolveMicroClearNextArmAfterClear
                    (rs_microClearLastArmPercent r) (map_option jsInt pressure) (Some (pressure \<noteq> None)) c)),
                 sf_microClearPendingEval := Val False\<rparr>)
           | None \<Rightarrow> returnS (noFields\<lparr>sf_microClearPendingEval := Val False\<rparr>))"

definition clearPendingMicroClearEval :: "string \<Rightarrow> (runtime, session_fields) oper" where
  "clearPendingMicroClearEval sessionId =
     bindS (findSessionById sessionId) (\<lambda>persisted.
       case persisted of
         None \<Rightarrow> returnS noFields
       | Some r \<Rightarrow>
           if \<not> rs_microClearPendingEval r then returnS noFields
           else returnS (noFields\<lparr>sf_microClearPendingEval := Val False\<rparr>))"

definition withUsage :: "usage_snapshot \<Rightarrow> int option \<Rightarrow> session_fields \<Rightarrow> session_fields" where
  "withUsage u pressure f =
     f\<lparr>sf_currentTokens := Val pressure, sf_totalTokensFresh := Val (pressure \<noteq> None),
       sf_providerKey := Val (us_providerKey u), sf_modelKey := Val (us_modelKey u)\<rparr>"

definition completeAcceptedTurn ::
  "keyspace \<Rightarrow> accepted_turn \<Rightarrow> turn_result \<Rightarrow> js_number option \<Rightarrow> (runtime, finalized_turn) oper" where
  "completeAcceptedTurn ks turn res threshold =
     guardS (assertMatchingTurnIdentity (sm_requestId (at_receipt turn)) (ss_sessionId (at_session turn))
               (rt_requestId res) (rt_sessionId res))
     (bindS (liftS (parseRequiredIsoTimestamp (rt_respondedAt res) ''result.respondedAt'')) (\<lambda>completedAt.
      finalizedAs Rs_completed
        (persistThenRelease ks turn
           (markTurnReceiptCompleted (sm_requestId (at_receipt turn)) (rt_payload res) completedAt)
           (let pressure = resolveSessionContextPressureTokens (rt_usage res) (rt_accounting res) in
            bindS (resolveMicroClearArmPatch (ss_sessionId (at_session turn)) pressure threshold) (\<lambda>patch.
            updateSessionSummary (ss_sessionId (at_session turn))
              ((case rt_usage res of
                  Some u \<Rightarrow> withUsage u pressure patch
                | None \<Rightarrow> patch\<lparr>sf_totalTokensFresh := Val False\<rparr>)\<lparr>sf_lastTurnAt := Val (Some completedAt)\<rparr>))))))"

text \<open>The usage of an interrupted turn: absent (\<open>Undef\<close>), null, or a snapshot.\<close>

definition interruptAcceptedTurn ::
  "keyspace \<Rightarrow> accepted_turn \<Rightarrow> interrupted_event \<Rightarrow> usage_snapshot option patch \<Rightarrow> (runtime, finalized_turn) oper" where
  "interruptAcceptedTurn ks turn ev usage =
     guardS (assertMatchingTurnIdentity (sm_requestId (at_receipt turn)) (ss_sessionId (at_session turn))
               (ie_requestId ev) (ie_sessionId ev))
     (bindS (case ie_respondedAt ev of
               None \<Rightarrow> returnS None
             | Some d \<Rightarrow> liftS (map_sum id Some (parseRequiredIsoTimestamp d ''event.respondedAt''))) (\<lambda>completedAt.
      finalizedAs Rs_interrupted
        (persistThenRelease ks turn
           (markTurnReceiptInterrupted (sm_requestId (at_receipt turn)) (ie_payload ev) completedAt)
           (let pressure = (case usage of Val (Some u) \<Rightarrow> resolveSessionContextPressureTokens (Some u) None | _ \<Rightarrow> None) in
            bindS (clearPendingMicroClearEval (ss_sessionId (at_session turn))) (\<lambda>patch.
            updateSessionSummary (ss_sessionId (at_session turn))
              (let f = (case usage of
                          Undef \<Rightarrow> patch
                        | Val None \<Rightarrow> patch\<lparr>sf_totalTokensFresh := Val False\<rparr>
                        | Val (Some u) \<Rightarrow> withUsage u pressure patch)
               in (case completedAt of None \<Rightarrow> f | Some d \<Rightarrow> f\<lparr>sf_lastTurnAt := Val (Some d)\<rparr>)))))))"

text \<open>What \<open>fail\<close> and \<open>fail minimal\<close> do after the receipt: drop a pending evaluation, if any.\<close>

definition dropPendingEval :: "accepted_turn \<Rightarrow> (runtime, session_summary) oper" where
  "dropPendingEval turn =
     bindS (clearPendingMicroClearEval (ss_sessionId (at_session turn))) (\<lambda>patch.
       if sf_microClearPendingEval patch \<noteq> Undef
       then updateSessionSummary (ss_sessionId (at_session turn)) patch
       else returnS (at_session turn))"

definition failAcceptedTurn ::
  "keyspace \<Rightarrow> accepted_turn \<Rightarrow> failed_event \<Rightarrow> int option \<Rightarrow> (runtime, finalized_turn) oper" where
  "failAcceptedTurn ks turn ev completedAtIso =
     guardS (assertMatchingFailedTurnIdentity turn ev)
     (bindS (liftS (parseRequiredIsoTimestamp completedAtIso ''completedAtIso'')) (\<lambda>completedAt.
      finalizedAs Rs_failed
        (persistThenRelease ks turn
           (markTurnReceiptFailed (sm_requestId (at_receipt turn)) (fe_payload ev) (fe_code ev) (fe_message ev) completedAt)
           (dropPendingEval turn))))"

definition failAcceptedTurnMinimal ::
  "keyspace \<Rightarrow> accepted_turn \<Rightarrow> failed_event \<Rightarrow> int option \<Rightarrow> (runtime, finalized_turn) oper" where
  "failAcceptedTurnMinimal ks turn ev completedAtIso =
     guardS (assertMatchingFailedTurnIdentity turn ev)
     (bindS (liftS (parseRequiredIsoTimestamp completedAtIso ''completedAtIso'')) (\<lambda>completedAt.
      finalizedAs Rs_failed
        (persistThenRelease ks turn
           (markTurnReceiptFailed (sm_requestId (at_receipt turn)) JUndefined (fe_code ev) (fe_message ev) completedAt)
           (dropPendingEval turn))))"

section \<open>The four ends of a turn\<close>

datatype turn_end =
    Complete turn_result "js_number option"
  | Interrupt interrupted_event "usage_snapshot option patch"
  | Fail failed_event "int option"
  | Fail_minimal failed_event "int option"

definition finalize :: "keyspace \<Rightarrow> accepted_turn \<Rightarrow> turn_end \<Rightarrow> (runtime, finalized_turn) oper" where
  "finalize ks turn x =
     (case x of
        Complete res threshold \<Rightarrow> completeAcceptedTurn ks turn res threshold
      | Interrupt ev usage \<Rightarrow> interruptAcceptedTurn ks turn ev usage
      | Fail ev d \<Rightarrow> failAcceptedTurn ks turn ev d
      | Fail_minimal ev d \<Rightarrow> failAcceptedTurnMinimal ks turn ev d)"

text \<open>What each end writes into the receipt.\<close>

definition terminalRow :: "turn_end \<Rightarrow> turn_receipt \<Rightarrow> turn_receipt" where
  "terminalRow x =
     (case x of
        Complete res _ \<Rightarrow> completedRow (rt_payload res) (the (rt_respondedAt res))
      | Interrupt ev _ \<Rightarrow> interruptedRow (ie_payload ev) (case ie_respondedAt ev of None \<Rightarrow> None | Some d \<Rightarrow> d)
      | Fail ev d \<Rightarrow> failedRow (fe_payload ev) (fe_code ev) (fe_message ev) (the d)
      | Fail_minimal ev d \<Rightarrow> failedRow JUndefined (fe_code ev) (fe_message ev) (the d))"

definition endStatus :: "turn_end \<Rightarrow> receipt_status" where
  "endStatus x =
     (case x of Complete _ _ \<Rightarrow> Rs_completed | Interrupt _ _ \<Rightarrow> Rs_interrupted
      | Fail _ _ \<Rightarrow> Rs_failed | Fail_minimal _ _ \<Rightarrow> Rs_failed)"

definition persistedBy :: "accepted_turn \<Rightarrow> turn_end \<Rightarrow> runtime \<Rightarrow> runtime \<Rightarrow> bool" where
  "persistedBy turn x s t \<longleftrightarrow>
     (\<exists>r \<in> set (receiptTable s). tr_requestId r = sm_requestId (at_receipt turn)) \<and>
     receiptTable t = updateRows (\<lambda>r. tr_requestId r = sm_requestId (at_receipt turn))
       (\<lambda>r. (terminalRow x r)\<lparr>tr_updatedAt := nowOf s\<rparr>) (receiptTable s)"

text \<open>The session part changes neither receipts nor Redis.\<close>

definition sessionOnly :: "(runtime, 'a) oper \<Rightarrow> bool" where
  "sessionOnly m \<longleftrightarrow> (\<forall>s. redisPart (snd (m s)) = redisPart s \<and> receiptTable (snd (m s)) = receiptTable s)"

lemma sessionOnlyD: "sessionOnly m \<Longrightarrow> m s = (r, t) \<Longrightarrow> redisPart t = redisPart s \<and> receiptTable t = receiptTable s"
  by (metis sessionOnly_def snd_conv)

lemma sessionOnly_return [simp]: "sessionOnly (returnS a)"
  by (simp add: sessionOnly_def)

lemma sessionOnly_bind [intro]: "sessionOnly m \<Longrightarrow> (\<And>a. sessionOnly (f a)) \<Longrightarrow> sessionOnly (bindS m f)"
  by (auto simp: sessionOnly_def bindS_def split: prod.splits sum.splits) (metis snd_conv)+

lemma sessionOnly_db:
  "(\<And>s. redisPart (snd (f s)) = redisPart s \<and> receiptTable (snd (f s)) = receiptTable s) \<Longrightarrow> sessionOnly (dbCall f)"
  unfolding sessionOnly_def
proof (intro allI)
  fix s assume f: "\<And>s. redisPart (snd (f s)) = redisPart s \<and> receiptTable (snd (f s)) = receiptTable s"
  obtain r t where t: "dbCall f s = (r, t)" by (cases "dbCall f s")
  from dbCall_Inl_or [OF t] f [of "s\<lparr>dbCalls := Suc (dbCalls s)\<rparr>"]
  show "redisPart (snd (dbCall f s)) = redisPart s \<and> receiptTable (snd (dbCall f s)) = receiptTable s"
    unfolding t by auto
qed

lemma sessionOnly_store [simp]: "sessionOnly (findSessionById i)" "sessionOnly (updateSessionSummary i f)"
proof -
  show "sessionOnly (findSessionById i)"
    unfolding findSessionById_def by (rule sessionOnly_db) simp
  have "sessionOnly (updateSession i Undef f)"
    unfolding updateSession_def by (rule sessionOnly_db) (simp add: Let_def split: option.split)
  then show "sessionOnly (updateSessionSummary i f)"
    unfolding updateSessionSummary_def by (intro sessionOnly_bind) simp_all
qed

lemma sessionOnly_patches [simp]:
  "sessionOnly (resolveMicroClearArmPatch i p c)" "sessionOnly (clearPendingMicroClearEval i)"
  "sessionOnly (dropPendingEval turn)"
  unfolding resolveMicroClearArmPatch_def clearPendingMicroClearEval_def dropPendingEval_def
  by (intro sessionOnly_bind; simp split: option.split add: sessionOnly_bind; fail)+

text \<open>Writing the receipt: all of it or nothing, and Redis is not touched.\<close>

lemma updateReceipt_effect:
  assumes "updateReceipt rq f s = (r, t)"
  shows "redisPart t = redisPart s \<and>
    (receiptTable t = receiptTable s \<and> isl r \<or>
     (\<exists>q \<in> set (receiptTable s). tr_requestId q = rq) \<and>
     receiptTable t = updateRows (\<lambda>r. tr_requestId r = rq) (\<lambda>r. (f r)\<lparr>tr_updatedAt := nowOf s\<rparr>) (receiptTable s))"
proof -
  have now: "nowOf (s\<lparr>dbCalls := n\<rparr>) = nowOf s" for n by (simp add: nowOf_def)
  show ?thesis
  proof (cases "find (\<lambda>r. tr_requestId r = rq) (receiptTable s)")
    case None
    with assms show ?thesis
      by (auto simp: updateReceipt_def dbCall_def transactionS_def Let_def split: fault.splits)
  next
    case (Some q)
    then have "\<exists>q \<in> set (receiptTable s). tr_requestId q = rq" by (blast dest: find_Some_set)
    with Some assms show ?thesis
      by (auto simp: updateReceipt_def dbCall_def transactionS_def Let_def now split: fault.splits)
  qed
qed

lemma release_True:
  assumes "releaseSessionLease ks sid w s = (Inr True, t)"
  shows "entries t (buildSessionLeaseKey ks sid) = None"
proof -
  from assms obtain s1 where "releaseDelete ks sid s1 = (Inr True, t)"
    by (auto simp: releaseSessionLease_def withClient_def bindS_eq_Inr_iff split: if_splits)
  then show ?thesis
    by (auto simp: releaseDelete_def bindS_eq_Inr_iff command_def cmdDel_def delEntry_def Let_def split: fault.splits)
qed

lemma releaseQuietly_effect:
  assumes "releaseQuietly ks turn s = (r, t)" and l: "at_lease turn = \<lparr>sl_sessionId = sid, sl_ownerToken = w\<rparr>"
  shows "\<exists>b. r = Inr b \<and> (b \<longrightarrow> sessionLeaseOf ks (redisPart t) sid = None)"
    and "sessionTable t = sessionTable s" "receiptTable t = receiptTable s"
    and "sessionLeaseOf ks (redisPart t) = sessionLeaseOf ks (redisPart s) \<or>
      (\<forall>v e. sessionLeaseOf ks (redisPart s) sid = Some (v, e) \<longrightarrow> v = w) \<and>
      sessionLeaseOf ks (redisPart t) = (sessionLeaseOf ks (redisPart s))(sid := None)"
proof -
  obtain r0 x where rel: "releaseLease ks (at_lease turn) (redisPart s) = (r0, x)"
    by (cases "releaseLease ks (at_lease turn) (redisPart s)")
  then have t: "t = s\<lparr>redisPart := x\<rparr>" "r = (case r0 of Inl _ \<Rightarrow> Inr False | Inr b \<Rightarrow> Inr b)"
    using assms(1) by (auto simp: releaseQuietly_def catchS_def viaRedis_def split: sum.splits)
  show "sessionTable t = sessionTable s" "receiptTable t = receiptTable s" using t by simp_all
  have "releaseSessionLease ks sid w (redisPart s) = (Inr True, x)" if "r0 = Inr True"
    using rel that l by (auto simp: releaseLease_def guardS_eq_Inr_iff)
  from release_True [OF this] t show "\<exists>b. r = Inr b \<and> (b \<longrightarrow> sessionLeaseOf ks (redisPart t) sid = None)"
    by (cases r0) (auto simp: sessionLeaseOf_def split: bool.splits)
  have "releaseSession ks sid w (redisPart s) = (case r0 of Inr b \<Rightarrow> b | Inl _ \<Rightarrow> False, x)"
    using rel l by (simp add: releaseSession_def split: sum.split)
  from releaseSession_law [OF this] t show "sessionLeaseOf ks (redisPart t) = sessionLeaseOf ks (redisPart s) \<or>
      (\<forall>v e. sessionLeaseOf ks (redisPart s) sid = Some (v, e) \<longrightarrow> v = w) \<and>
      sessionLeaseOf ks (redisPart t) = (sessionLeaseOf ks (redisPart s))(sid := None)" by simp
qed

text \<open>The whole bracket.\<close>

lemma persistThenRelease_effect:
  assumes "persistThenRelease ks turn (updateReceipt rq f) rest s = (r, t)" "sessionOnly rest"
    and "at_lease turn = \<lparr>sl_sessionId = sid, sl_ownerToken = w\<rparr>"
  shows "isl r \<and> receiptTable t = receiptTable s \<and> redisPart t = redisPart s \<or>
    (\<exists>q \<in> set (receiptTable s). tr_requestId q = rq) \<and>
    receiptTable t = updateRows (\<lambda>r. tr_requestId r = rq) (\<lambda>r. (f r)\<lparr>tr_updatedAt := nowOf s\<rparr>) (receiptTable s) \<and>
    (sessionLeaseOf ks (redisPart t) = sessionLeaseOf ks (redisPart s) \<or>
      (\<forall>v e. sessionLeaseOf ks (redisPart s) sid = Some (v, e) \<longrightarrow> v = w) \<and>
      sessionLeaseOf ks (redisPart t) = (sessionLeaseOf ks (redisPart s))(sid := None))"
    and "r = Inr (session, released) \<Longrightarrow> \<exists>s0 s1 s2. updateReceipt rq f s = (Inr s0, s1) \<and>
      rest s1 = (Inr session, s2) \<and> sessionTable t = sessionTable s2 \<and>
      (released \<longrightarrow> sessionLeaseOf ks (redisPart t) sid = None)"
proof -
  obtain r0 s1 where p: "updateReceipt rq f s = (r0, s1)" by (cases "updateReceipt rq f s")
  obtain r1 s2 where q: "rest s1 = (r1, s2)" by (cases "rest s1")
  obtain r2 s3 where l: "releaseQuietly ks turn s2 = (r2, s3)" by (cases "releaseQuietly ks turn s2")
  note P = updateReceipt_effect [OF p] and Q = sessionOnlyD [OF assms(2) q] and L = releaseQuietly_effect [OF l assms(3)]
  obtain b where b: "r2 = Inr b" "b \<longrightarrow> sessionLeaseOf ks (redisPart s3) sid = None" using L(1) by blast
  have run: "(r, t) = (case r0 of Inl e \<Rightarrow> (Inl e, s1) | Inr _ \<Rightarrow> (map_sum id (\<lambda>session. (session, b)) r1, s3))"
    using assms(1) p q l b by (simp add: persistThenRelease_def bindS_def split: sum.splits)
  show "isl r \<and> receiptTable t = receiptTable s \<and> redisPart t = redisPart s \<or>
    (\<exists>q \<in> set (receiptTable s). tr_requestId q = rq) \<and>
    receiptTable t = updateRows (\<lambda>r. tr_requestId r = rq) (\<lambda>r. (f r)\<lparr>tr_updatedAt := nowOf s\<rparr>) (receiptTable s) \<and>
    (sessionLeaseOf ks (redisPart t) = sessionLeaseOf ks (redisPart s) \<or>
      (\<forall>v e. sessionLeaseOf ks (redisPart s) sid = Some (v, e) \<longrightarrow> v = w) \<and>
      sessionLeaseOf ks (redisPart t) = (sessionLeaseOf ks (redisPart s))(sid := None))"
    using run P Q L(3,4) by (cases r0) auto
  show "\<exists>s0 s1 s2. updateReceipt rq f s = (Inr s0, s1) \<and>
      rest s1 = (Inr session, s2) \<and> sessionTable t = sessionTable s2 \<and>
      (released \<longrightarrow> sessionLeaseOf ks (redisPart t) sid = None)" if "r = Inr (session, released)"
    using run p q L(2) b that by (cases r0; cases r1) auto
qed

text \<open>The session part of each end.\<close>

definition endSession :: "accepted_turn \<Rightarrow> turn_end \<Rightarrow> (runtime, session_summary) oper" where
  "endSession turn x =
     (let sid = ss_sessionId (at_session turn) in
      case x of
        Complete res c \<Rightarrow>
          (let pressure = resolveSessionContextPressureTokens (rt_usage res) (rt_accounting res) in
           bindS (resolveMicroClearArmPatch sid pressure c) (\<lambda>patch. updateSessionSummary sid
              ((case rt_usage res of
                  Some u \<Rightarrow> withUsage u pressure patch
                | None \<Rightarrow> patch\<lparr>sf_totalTokensFresh := Val False\<rparr>)\<lparr>sf_lastTurnAt := Val (Some (the (rt_respondedAt res)))\<rparr>)))
      | Interrupt ev usage \<Rightarrow>
          (let pressure = (case usage of Val (Some u) \<Rightarrow> resolveSessionContextPressureTokens (Some u) None | _ \<Rightarrow> None) in
           bindS (clearPendingMicroClearEval sid) (\<lambda>patch. updateSessionSummary sid
              (let f = (case usage of
                          Undef \<Rightarrow> patch
                        | Val None \<Rightarrow> patch\<lparr>sf_totalTokensFresh := Val False\<rparr>
                        | Val (Some u) \<Rightarrow> withUsage u pressure patch)
               in (case (case ie_respondedAt ev of None \<Rightarrow> None | Some d \<Rightarrow> d) of
                     None \<Rightarrow> f | Some d \<Rightarrow> f\<lparr>sf_lastTurnAt := Val (Some d)\<rparr>))))
      | _ \<Rightarrow> dropPendingEval turn)"

lemma sessionOnly_endSession: "sessionOnly (endSession turn x)"
  unfolding endSession_def Let_def by (cases x) (auto intro!: sessionOnly_bind)

lemma lift_simps [simp]:
  "bindS (returnS a) f = f a" "bindS (liftS (Inr a)) f = f a" "bindS (liftS (Inl e)) f = throwS e"
  by (simp_all add: fun_eq_iff bindS_def liftS_def)

lemma finalize_shape:
  "finalize ks turn x s =
     finalizedAs (endStatus x) (persistThenRelease ks turn
        (updateReceipt (sm_requestId (at_receipt turn)) (terminalRow x)) (endSession turn x)) s \<or>
   (\<exists>e. finalize ks turn x s = (Inl e, s))"
proof (cases x)
  case (Complete res c)
  then show ?thesis
    by (cases "assertMatchingTurnIdentity (sm_requestId (at_receipt turn)) (ss_sessionId (at_session turn))
               (rt_requestId res) (rt_sessionId res)"; cases "rt_respondedAt res")
      (simp_all add: finalize_def completeAcceptedTurn_def endStatus_def terminalRow_def endSession_def
        parseRequiredIsoTimestamp_def markTurnReceiptCompleted_def Let_def)
next
  case (Interrupt ev usage)
  then show ?thesis
    by (cases "assertMatchingTurnIdentity (sm_requestId (at_receipt turn)) (ss_sessionId (at_session turn))
               (ie_requestId ev) (ie_sessionId ev)"; cases "ie_respondedAt ev"; cases "the (ie_respondedAt ev)")
      (simp_all add: finalize_def interruptAcceptedTurn_def endStatus_def terminalRow_def endSession_def
        parseRequiredIsoTimestamp_def markTurnReceiptInterrupted_def Let_def)
next
  case (Fail ev d)
  then show ?thesis
    by (cases "assertMatchingFailedTurnIdentity turn ev"; cases d)
      (simp_all add: finalize_def failAcceptedTurn_def endStatus_def terminalRow_def endSession_def
        parseRequiredIsoTimestamp_def markTurnReceiptFailed_def Let_def)
next
  case (Fail_minimal ev d)
  then show ?thesis
    by (cases "assertMatchingFailedTurnIdentity turn ev"; cases d)
      (simp_all add: finalize_def failAcceptedTurnMinimal_def endStatus_def terminalRow_def endSession_def
        parseRequiredIsoTimestamp_def markTurnReceiptFailed_def Let_def)
qed

lemma finalizedAs_result:
  "finalizedAs st m s = (r, t) \<Longrightarrow> \<exists>r0. m s = (r0, t) \<and> isl r0 = isl r \<and>
     (\<forall>f. r = Inr f \<longrightarrow> r0 = Inr (fi_session f, fi_leaseReleased f) \<and> fi_receiptStatus f = st)"
  by (cases "m s"; cases "fst (m s)") (auto simp: finalizedAs_def bindS_def)

text \<open>C14: The lease is released only after the receipt. However a turn ends (completed,
  interrupted, failed), whatever fails on the way: either the receipts and all leases are as
  before, or the turn's receipt was there and was given its final row while every other receipt
  stayed, and at most the turn's own lease is gone.\<close>

theorem lease_released_after_receipt:
  assumes "finalize ks turn x s = (r, t)" "at_lease turn = \<lparr>sl_sessionId = sid, sl_ownerToken = w\<rparr>"
  shows "receiptTable t = receiptTable s \<and> sessionLeaseOf ks (redisPart t) = sessionLeaseOf ks (redisPart s) \<and> isl r \<or>
    persistedBy turn x s t \<and>
    (sessionLeaseOf ks (redisPart t) = sessionLeaseOf ks (redisPart s) \<or>
     (\<forall>v e. sessionLeaseOf ks (redisPart s) sid = Some (v, e) \<longrightarrow> v = w) \<and>
     sessionLeaseOf ks (redisPart t) = (sessionLeaseOf ks (redisPart s))(sid := None))"
proof -
  from finalize_shape [of ks turn x s] assms(1) consider "t = s" "isl r"
    | "finalizedAs (endStatus x) (persistThenRelease ks turn
        (updateReceipt (sm_requestId (at_receipt turn)) (terminalRow x)) (endSession turn x)) s = (r, t)"
    by auto
  then show ?thesis
  proof cases
    case 2
    then obtain r0 where p: "persistThenRelease ks turn
        (updateReceipt (sm_requestId (at_receipt turn)) (terminalRow x)) (endSession turn x) s = (r0, t)" "isl r0 = isl r"
      using finalizedAs_result by blast
    from persistThenRelease_effect(1) [OF p(1) sessionOnly_endSession assms(2)] p(2) show ?thesis
      unfolding persistedBy_def by auto
  qed simp
qed

section \<open>A pending evaluation never outlives its turn\<close>

definition evalDropped :: "string \<Rightarrow> runtime_session list \<Rightarrow> bool" where
  "evalDropped sid rows \<longleftrightarrow> (\<forall>q \<in> set rows. rs_id q = sid \<longrightarrow> \<not> rs_microClearPendingEval q)"

definition dropsEval :: "string \<Rightarrow> runtime_session list \<Rightarrow> session_fields \<Rightarrow> bool" where
  "dropsEval sid rows f \<longleftrightarrow> sf_microClearPendingEval f = Val False \<or>
     sf_microClearPendingEval f = Undef \<and> evalDropped sid rows"

lemma find_unique_session:
  assumes "sessionsOk s" "find (\<lambda>r. rs_id r = sid) (sessionTable s) = Some q" "r \<in> set (sessionTable s)" "rs_id r = sid"
  shows "r = q"
  using assms by (auto simp: sessionsOk_def distinct_map dest!: find_Some_set inj_onD)

lemma found_evalDropped:
  assumes "sessionsOk s" "findSessionById sid s = (Inr p, t)"
  shows "sessionTable t = sessionTable s"
    and "(case p of None \<Rightarrow> True | Some q \<Rightarrow> \<not> rs_microClearPendingEval q) \<Longrightarrow> evalDropped sid (sessionTable s)"
proof -
  have p: "p = find (\<lambda>r. rs_id r = sid) (sessionTable s)" and t: "sessionTable t = sessionTable s"
    using dbCall_Inr [OF assms(2) [unfolded findSessionById_def]] by auto
  show "sessionTable t = sessionTable s" by (rule t)
  show "evalDropped sid (sessionTable s)" if "case p of None \<Rightarrow> True | Some q \<Rightarrow> \<not> rs_microClearPendingEval q"
    unfolding evalDropped_def
  proof (intro ballI impI)
    fix r assume r: "r \<in> set (sessionTable s)" "rs_id r = sid"
    then have "find (\<lambda>r. rs_id r = sid) (sessionTable s) \<noteq> None" by (auto simp: find_None_iff)
    then obtain q where q: "p = Some q" using p by blast
    have "r = q" by (rule find_unique_session [OF assms(1) _ r]) (use p q in simp)
    with that q show "\<not> rs_microClearPendingEval r" by simp
  qed
qed

lemma patches_drop:
  assumes "sessionsOk s"
  shows "clearPendingMicroClearEval sid s = (Inr f, t) \<Longrightarrow> sessionTable t = sessionTable s \<and> dropsEval sid (sessionTable s) f"
    and "resolveMicroClearArmPatch sid p c s = (Inr f, t) \<Longrightarrow> sessionTable t = sessionTable s \<and> dropsEval sid (sessionTable s) f"
proof -
  show "sessionTable t = sessionTable s \<and> dropsEval sid (sessionTable s) f"
    if r: "clearPendingMicroClearEval sid s = (Inr f, t)"
  proof -
    obtain q s1 where q: "findSessionById sid s = (Inr q, s1)" using r
      unfolding clearPendingMicroClearEval_def bindS_eq_Inr_iff by blast
    with r found_evalDropped [OF assms q] show ?thesis
      by (cases q) (auto simp: clearPendingMicroClearEval_def dropsEval_def noFields_def split: if_splits)
  qed
  show "sessionTable t = sessionTable s \<and> dropsEval sid (sessionTable s) f"
    if r: "resolveMicroClearArmPatch sid p c s = (Inr f, t)"
  proof -
    obtain q s1 where q: "findSessionById sid s = (Inr q, s1)" using r
      unfolding resolveMicroClearArmPatch_def bindS_eq_Inr_iff by blast
    with r found_evalDropped [OF assms q] show ?thesis
      by (cases q; cases c) (auto simp: resolveMicroClearArmPatch_def dropsEval_def noFields_def split: if_splits)
  qed
qed

lemma patchSession_pending [simp]:
  "rs_microClearPendingEval (patchSession g n r) = applyPatch (sf_microClearPendingEval g) (rs_microClearPendingEval r)"
  by (simp add: patchSession_def)

lemma update_drops:
  assumes "updateSessionSummary sid g s = (Inr y, t)" "dropsEval sid (sessionTable s) f"
    and "sf_microClearPendingEval g = sf_microClearPendingEval f"
  shows "evalDropped sid (sessionTable t)"
proof -
  obtain r where "updateSession sid Undef g s = (Inr r, t)"
    using assms(1) by (auto simp: updateSessionSummary_def bindS_eq_Inr_iff)
  from dbCall_Inr [OF this [unfolded updateSession_def]] obtain n where
    n: "sessionTable t = updateRows (\<lambda>r. rs_id r = sid)
      (\<lambda>r. patchSession g n (r\<lparr>rs_runtimeTier := applyPatch Undef (rs_runtimeTier r)\<rparr>)) (sessionTable s)"
    by (auto simp: Let_def split: option.splits)
  show ?thesis
    unfolding evalDropped_def n set_updateRows
  proof (intro ballI impI)
    fix q assume "q \<in> (\<lambda>r. if rs_id r = sid
          then patchSession g n (r\<lparr>rs_runtimeTier := applyPatch Undef (rs_runtimeTier r)\<rparr>) else r) ` set (sessionTable s)"
      and "rs_id q = sid"
    then obtain r where "r \<in> set (sessionTable s)" "rs_id r = sid"
      "q = patchSession g n (r\<lparr>rs_runtimeTier := applyPatch Undef (rs_runtimeTier r)\<rparr>)"
      by (auto split: if_splits)
    with assms(2,3) show "\<not> rs_microClearPendingEval q"
      by (auto simp: evalDropped_def dropsEval_def)
  qed
qed

lemma dropPendingEval_drops:
  assumes "sessionsOk s" "dropPendingEval turn s = (Inr y, t)"
  shows "evalDropped (ss_sessionId (at_session turn)) (sessionTable t)"
proof -
  let ?sid = "ss_sessionId (at_session turn)"
  obtain f s1 where f: "clearPendingMicroClearEval ?sid s = (Inr f, s1)"
    and u: "(if sf_microClearPendingEval f \<noteq> Undef then updateSessionSummary ?sid f
       else returnS (at_session turn)) s1 = (Inr y, t)"
    using assms(2) unfolding dropPendingEval_def bindS_eq_Inr_iff by blast
  note drops = patches_drop(1) [OF assms(1) f]
  show ?thesis
  proof (cases "sf_microClearPendingEval f \<noteq> Undef")
    case True
    with u have "updateSessionSummary ?sid f s1 = (Inr y, t)" by simp
    from update_drops [OF this _ refl] drops show ?thesis by simp
  next
    case False
    with u drops show ?thesis by (simp add: dropsEval_def)
  qed
qed

lemma endSession_drops:
  assumes "sessionsOk s" "endSession turn x s = (Inr y, t)"
  shows "evalDropped (ss_sessionId (at_session turn)) (sessionTable t)"
proof -
  let ?sid = "ss_sessionId (at_session turn)"
  have updated: ?thesis if "dropsEval ?sid (sessionTable s) f \<and> sessionTable s1 = sessionTable s"
    "updateSessionSummary ?sid g s1 = (Inr y, t)" "sf_microClearPendingEval g = sf_microClearPendingEval f" for f g s1
    using update_drops [OF that(2) _ that(3)] that(1) by simp
  have dropped: ?thesis if "dropPendingEval turn s = (Inr y, t)"
    by (rule dropPendingEval_drops [OF assms(1) that])
  show ?thesis
  proof (cases x)
    case (Complete res c)
    with assms(2) obtain f s1 where f: "resolveMicroClearArmPatch ?sid
          (resolveSessionContextPressureTokens (rt_usage res) (rt_accounting res)) c s = (Inr f, s1)"
      and u: "updateSessionSummary ?sid ((case rt_usage res of
                    Some u \<Rightarrow> withUsage u (resolveSessionContextPressureTokens (rt_usage res) (rt_accounting res)) f
                  | None \<Rightarrow> f\<lparr>sf_totalTokensFresh := Val False\<rparr>)\<lparr>sf_lastTurnAt := Val (Some (the (rt_respondedAt res)))\<rparr>)
          s1 = (Inr y, t)"
      unfolding endSession_def Let_def Complete turn_end.case bindS_eq_Inr_iff by blast
    show ?thesis
      by (rule updated [where f = f, OF _ u]) (use patches_drop(2) [OF assms(1) f] in \<open>auto simp: withUsage_def split: option.split\<close>)
  next
    case (Interrupt ev usage)
    with assms(2) obtain f s1 where f: "clearPendingMicroClearEval ?sid s = (Inr f, s1)"
      and u: "updateSessionSummary ?sid (case (case ie_respondedAt ev of None \<Rightarrow> None | Some d \<Rightarrow> d) of
             None \<Rightarrow> (case usage of Undef \<Rightarrow> f | Val None \<Rightarrow> f\<lparr>sf_totalTokensFresh := Val False\<rparr>
               | Val (Some u) \<Rightarrow> withUsage u (case usage of Val (Some u) \<Rightarrow> resolveSessionContextPressureTokens (Some u) None | _ \<Rightarrow> None) f)
           | Some d \<Rightarrow> (case usage of Undef \<Rightarrow> f | Val None \<Rightarrow> f\<lparr>sf_totalTokensFresh := Val False\<rparr>
               | Val (Some u) \<Rightarrow> withUsage u (case usage of Val (Some u) \<Rightarrow> resolveSessionContextPressureTokens (Some u) None | _ \<Rightarrow> None) f)
               \<lparr>sf_lastTurnAt := Val (Some d)\<rparr>) s1 = (Inr y, t)"
      unfolding endSession_def Let_def Interrupt turn_end.case bindS_eq_Inr_iff by blast
    show ?thesis
      by (rule updated [where f = f, OF _ u])
        (use patches_drop(1) [OF assms(1) f] in \<open>auto simp: withUsage_def split: option.split patch.split\<close>)
  qed (use assms(2) dropped in \<open>simp_all add: endSession_def\<close>)
qed

text \<open>A finished turn is finished everywhere. When any of the four finalizers returns, it
  answers its status, the turn's receipt existed and has its final row (no other receipt changed),
  the session has no pending micro-clear evaluation left, and if it reports the lease released
  there is none.\<close>

theorem finished_turn_is_finished:
  assumes "storeOk s" "finalize ks turn x s = (Inr f, t)"
  shows "fi_receiptStatus f = endStatus x \<and> persistedBy turn x s t \<and>
    evalDropped (ss_sessionId (at_session turn)) (sessionTable t) \<and>
    (fi_leaseReleased f \<longrightarrow> sessionLeaseOf ks (redisPart t) (sl_sessionId (at_lease turn)) = None)"
proof -
  have l: "at_lease turn = \<lparr>sl_sessionId = sl_sessionId (at_lease turn), sl_ownerToken = sl_ownerToken (at_lease turn)\<rparr>"
    by simp
  from finalize_shape [of ks turn x s] assms(2) have "finalizedAs (endStatus x) (persistThenRelease ks turn
        (updateReceipt (sm_requestId (at_receipt turn)) (terminalRow x)) (endSession turn x)) s = (Inr f, t)" by auto
  from finalizedAs_result [OF this] have p: "persistThenRelease ks turn (updateReceipt (sm_requestId (at_receipt turn))
      (terminalRow x)) (endSession turn x) s = (Inr (fi_session f, fi_leaseReleased f), t)" "fi_receiptStatus f = endStatus x"
    by auto
  from persistThenRelease_effect(2) [OF p(1) sessionOnly_endSession l refl] obtain s0 s1 s2 where
    u: "updateReceipt (sm_requestId (at_receipt turn)) (terminalRow x) s = (Inr s0, s1)"
    and e: "endSession turn x s1 = (Inr (fi_session f), s2)" "sessionTable t = sessionTable s2"
    and r: "fi_leaseReleased f \<longrightarrow> sessionLeaseOf ks (redisPart t) (sl_sessionId (at_lease turn)) = None"
    by blast
  have "storeOk s1"
    by (rule preserves_result [OF preserves_updateReceipt u assms(1)])
      (simp add: terminalRow_def completedRow_def interruptedRow_def failedRow_def split: turn_end.split)
  then have "evalDropped (ss_sessionId (at_session turn)) (sessionTable t)"
    using endSession_drops [OF _ e(1)] e(2) by (simp add: storeOk_def)
  moreover have "persistedBy turn x s t"
    using persistThenRelease_effect(1) [OF p(1) sessionOnly_endSession l] by (simp add: persistedBy_def)
  ultimately show ?thesis using p(2) r by simp
qed

section \<open>A turn that ends\<close>

definition demoSession :: runtime where
  "demoSession = demoRuntime\<lparr>
     redisPart := demoRedis\<lparr>entries := [buildSessionLeaseKey demoKeyspace ''x'' \<mapsto> (RString ''token'', Some 30000)]\<rparr>,
     sessionTable := [(newSession ''x'' ''c'' demoConversation Tier_paid_isolated noFields 0)\<lparr>rs_microClearPendingEval := True\<rparr>],
     nextRow := 1\<rparr>"

definition demoOpen :: runtime where
  "demoOpen = snd (createAcceptedTurnReceipt (Val (Some ''x'')) Undef Tier_paid_isolated ''c'' demoConversation ''r''
     ''k'' Undef demoSession)"

lemma demoOpen_ok: "storeOk demoOpen"
proof -
  have "storeOk demoSession"
    by (auto simp: demoSession_def storeOk_def sessionsOk_def receiptsOk_def demoRuntime_def newSession_def inj_on_def
        dest: arg_cong [of _ _ length])
  then show ?thesis unfolding demoOpen_def by (rule preservesD [OF preserves_createReceipt])
qed

definition demoAccepted :: accepted_turn where
  "demoAccepted = \<lparr>at_conversationKey = ''c'',
     at_session = toSessionSummary (hd (sessionTable demoSession)),
     at_receipt = toReceiptSummary (hd (receiptTable demoOpen)),
     at_lease = \<lparr>sl_sessionId = ''x'', sl_ownerToken = ''token''\<rparr>\<rparr>"

definition demoResult :: turn_result where
  "demoResult = \<lparr>rt_requestId = ''r'', rt_sessionId = ''x'', rt_respondedAt = Some 5000,
     rt_usage = Some \<lparr>us_providerKey = None, us_modelKey = None, us_inputTokens = Some 100, us_totalTokens = None\<rparr>,
     rt_accounting = None, rt_payload = JObj []\<rparr>"

definition demoFailure :: failed_event where
  "demoFailure = \<lparr>fe_requestId = ''r'', fe_sessionId = None, fe_code = ''err'', fe_message = ''m'', fe_payload = JNull\<rparr>"

lemmas finalize_eval = store_eval finalize_def completeAcceptedTurn_def failAcceptedTurn_def finalizedAs_def
  persistThenRelease_def liftS_def parseRequiredIsoTimestamp_def assertMatchingTurnIdentity_def
  assertMatchingFailedTurnIdentity_def markTurnReceiptCompleted_def markTurnReceiptFailed_def updateReceipt_def
  resolveMicroClearArmPatch_def dropPendingEval_def clearPendingMicroClearEval_def findSessionById_def
  updateSessionSummary_def updateSession_def releaseQuietly_def releaseLease_def releaseSessionLease_def
  releaseRead_def releaseDelete_def cmdDel_def delEntry_def demoAccepted_def demoOpen_def demoSession_def
  demoResult_def demoFailure_def createAcceptedTurnReceipt_def sessionExists_def newSession_def toReceiptSummary_def
  toSessionSummary_def orDefault_def demoRuntime_def demoRedis_def noFields_def assertNonEmpty_def js_trim_def
  js_white_def

lemma demo_completed:
  "\<exists>f. fst (finalize demoKeyspace demoAccepted (Complete demoResult None) demoOpen) = Inr f \<and> fi_leaseReleased f"
  by (simp add: finalize_eval)

theorem finished_turn_is_finished_witness:
  "evalDropped ''x'' (sessionTable (snd (finalize demoKeyspace demoAccepted (Complete demoResult None) demoOpen))) \<and>
   sessionLeaseOf demoKeyspace (redisPart (snd (finalize demoKeyspace demoAccepted (Complete demoResult None) demoOpen)))
     ''x'' = None"
proof -
  obtain f where f: "finalize demoKeyspace demoAccepted (Complete demoResult None) demoOpen =
      (Inr f, snd (finalize demoKeyspace demoAccepted (Complete demoResult None) demoOpen))" "fi_leaseReleased f"
    using demo_completed by (metis prod.collapse)
  have "ss_sessionId (at_session demoAccepted) = ''x''" "sl_sessionId (at_lease demoAccepted) = ''x''"
    by (simp_all add: demoAccepted_def demoSession_def newSession_def toSessionSummary_def)
  with finished_turn_is_finished [OF demoOpen_ok f(1)] f(2) show ?thesis by simp
qed

theorem lease_released_after_receipt_witness:
  "persistedBy demoAccepted (Fail demoFailure (Some 5000)) demoOpen
     (snd (finalize demoKeyspace demoAccepted (Fail demoFailure (Some 5000)) demoOpen))"
proof -
  have "at_lease demoAccepted = \<lparr>sl_sessionId = ''x'', sl_ownerToken = ''token''\<rparr>" by (simp add: demoAccepted_def)
  from lease_released_after_receipt [OF prod.collapse [symmetric] this, of demoKeyspace "Fail demoFailure (Some 5000)" demoOpen]
  moreover have "\<not> isl (fst (finalize demoKeyspace demoAccepted (Fail demoFailure (Some 5000)) demoOpen))"
    by (simp add: finalize_eval)
  ultimately show ?thesis by blast
qed

end
