(* ===== verification/Database.thy ===== *)
theory Database
  imports PersaiPrelude
begin

text \<open>
  A database of the API service: its data, a clock, and an oracle that decides which call fails.
  \<open>tx f\<close> is one transaction (or one statement, which is its own): \<open>f\<close> gets the
  instant and works on the data; an error rolls back, and a lost reply shows the caller a failure
  although the transaction committed.
\<close>

record 'd database =
  dbNow :: int
  dbData :: 'd
  dbCount :: nat
  dbFault :: "nat \<Rightarrow> fault"

abbreviation unavailable :: js_error where
  "unavailable \<equiv> PlainError ''database unavailable''"

definition tx :: "(int \<Rightarrow> ('d, 'a) oper) \<Rightarrow> ('d database, 'a) oper" where
  "tx f s =
     (let s1 = s\<lparr>dbCount := Suc (dbCount s)\<rparr>; run = transactionS (f (dbNow s)) (dbData s) in
      case dbFault s (dbCount s) of
        NoFault \<Rightarrow> (fst run, s1\<lparr>dbData := snd run\<rparr>)
      | FailBefore \<Rightarrow> (Inl unavailable, s1)
      | FailAfter \<Rightarrow> (Inl unavailable, s1\<lparr>dbData := snd run\<rparr>))"

lemma tx_cases:
  assumes "tx f s = (r, t)"
  obtains (rolled_back) e where "r = Inl e" "dbData t = dbData s" "dbNow t = dbNow s" "dbFault t = dbFault s"
  | (committed) a where "f (dbNow s) (dbData s) = (Inr a, dbData t)" "r = Inr a \<or> r = Inl unavailable"
      "dbNow t = dbNow s" "dbFault t = dbFault s"
  using assms by (auto simp: tx_def transactionS_def Let_def split: fault.splits prod.splits sum.splits)

lemma tx_Inr: "tx f s = (Inr a, t) \<Longrightarrow> f (dbNow s) (dbData s) = (Inr a, dbData t) \<and> dbNow t = dbNow s \<and> dbFault t = dbFault s"
  by (elim tx_cases) auto

lemma tx_frame: "tx f s = (r, t) \<Longrightarrow> dbNow t = dbNow s \<and> dbFault t = dbFault s"
  by (elim tx_cases) auto

text \<open>A call to a database that does not fail.\<close>

definition reliable :: "'d database \<Rightarrow> bool" where
  "reliable s \<longleftrightarrow> (\<forall>n. dbFault s n = NoFault)"

lemma tx_reliable:
  "reliable s \<Longrightarrow> tx f s = (fst (transactionS (f (dbNow s)) (dbData s)),
     s\<lparr>dbCount := Suc (dbCount s), dbData := snd (transactionS (f (dbNow s)) (dbData s))\<rparr>)"
  by (simp add: tx_def reliable_def Let_def)

text \<open>An invariant of the data.\<close>

lemma preserves_tx: "(\<And>n. preserves P (f n)) \<Longrightarrow> preserves (\<lambda>s. P (dbData s)) (tx f)"
  unfolding preserves_def
proof (intro allI impI)
  fix s :: "'a database"
  assume f: "\<And>n. \<forall>d. P d \<longrightarrow> P (snd (f n d))" and s: "P (dbData s)"
  obtain r t where t: "tx f s = (r, t)" by (cases "tx f s")
  from t show "P (dbData (snd (tx f s)))"
  proof (cases rule: tx_cases)
    case (committed a)
    with f [of "dbNow s"] s t show ?thesis by (metis snd_conv)
  qed (use s t in simp)
qed

end
