(* ===== verification/SchedulerLease.thy ===== *)
theory SchedulerLease
  imports Database LeaseProtocol
begin

text \<open>
  The leases of the API's schedulers and of its dynamic locks
  (\<open>apps/api/src/modules/workspace-management/application/scheduler-lease.service.ts\<close>): one row
  per key with the holder, the token and the end of the lease; an empty holder is a free row.
  The token \<open>randomUUID()\<close> is an argument. All instants come from the database's clock: the
  skew between the processes' clocks is not modelled.

  The service is the second provider of the lease contract.
\<close>

definition LEASE_TTL_MS :: int where
  "LEASE_TTL_MS = 90000"

definition SCHEDULER_KEYS :: "string list" where
  "SCHEDULER_KEYS = [''idle_reengagement'', ''idle_memory_extraction'', ''admin_system_daily_report'',
     ''background_task'', ''background_compaction'', ''media_job'', ''document_job'',
     ''workspace_file_micro_description'', ''materialization_rollout'', ''telegram_album_finalizer'',
     ''assistant_file_cleanup_reaper'', ''assistant_file_media_derivative'', ''browser_profile_expiry'',
     ''orphan_web_turn_attempt'', ''assistant_async_job_continuation'']"

record lease_row =
  lr_holderId :: string
  lr_leaseToken :: string
  lr_expiresAt :: int
  lr_lastHeartbeat :: int

type_synonym lease_table = "string \<rightharpoonup> lease_row"

definition selfHolderId :: "int \<Rightarrow> string \<Rightarrow> string" where
  "selfHolderId pid suffix = ''pid:'' @ showInt pid @ CHR '':'' # suffix"

definition freeRow :: "int \<Rightarrow> lease_row" where
  "freeRow now = \<lparr>lr_holderId = [], lr_leaseToken = [], lr_expiresAt = now, lr_lastHeartbeat = now\<rparr>"

text \<open>\<open>INSERT ... ON CONFLICT DO NOTHING\<close>\<close>

definition insertMissing :: "int \<Rightarrow> string list \<Rightarrow> lease_table \<Rightarrow> lease_table" where
  "insertMissing now keys tab = (\<lambda>k. if tab k = None \<and> k \<in> set keys then Some (freeRow now) else tab k)"

definition onModuleInit :: "(lease_table database, unit) oper" where
  "onModuleInit = tx (\<lambda>now tab. (Inr (), insertMissing now SCHEDULER_KEYS tab))"

definition acquireKey :: "string \<Rightarrow> string \<Rightarrow> string \<Rightarrow> int option \<Rightarrow> (lease_table database, string option) oper" where
  "acquireKey holder token key ttlMs = tx (\<lambda>now tab.
     (let expiresAt = now + (case ttlMs of Some d \<Rightarrow> d | None \<Rightarrow> LEASE_TTL_MS) in
      case tab key of
        None \<Rightarrow> (Inr None, tab)
      | Some row \<Rightarrow>
          if lr_expiresAt row < now \<or> lr_holderId row = []
          then (Inr (Some token), tab(key \<mapsto> \<lparr>lr_holderId = holder, lr_leaseToken = token,
                  lr_expiresAt = expiresAt, lr_lastHeartbeat = now\<rparr>))
          else (Inr None, tab)))"

definition acquireLeaseRow :: "string \<Rightarrow> string \<Rightarrow> string \<Rightarrow> (lease_table database, string option) oper" where
  "acquireLeaseRow holder token key = acquireKey holder token key (Some LEASE_TTL_MS)"

definition acquireOrCreate :: "string \<Rightarrow> string \<Rightarrow> string \<Rightarrow> int option \<Rightarrow> (lease_table database, string option) oper" where
  "acquireOrCreate holder token key ttlMs =
     bindS (tx (\<lambda>now tab. (Inr (), insertMissing now [key] tab))) (\<lambda>_.
       acquireKey holder token key (Some (case ttlMs of Some d \<Rightarrow> d | None \<Rightarrow> LEASE_TTL_MS)))"

definition heartbeatKey :: "string \<Rightarrow> string \<Rightarrow> int option \<Rightarrow> (lease_table database, bool) oper" where
  "heartbeatKey key token ttlMs = tx (\<lambda>now tab.
     (let expiresAt = now + (case ttlMs of Some d \<Rightarrow> d | None \<Rightarrow> LEASE_TTL_MS) in
      case tab key of
        None \<Rightarrow> (Inr False, tab)
      | Some row \<Rightarrow>
          if lr_leaseToken row = token
          then (Inr True, tab(key \<mapsto> row\<lparr>lr_expiresAt := expiresAt, lr_lastHeartbeat := now\<rparr>))
          else (Inr False, tab)))"

definition heartbeat :: "string \<Rightarrow> string \<Rightarrow> (lease_table database, bool) oper" where
  "heartbeat key token = heartbeatKey key token (Some LEASE_TTL_MS)"

definition releaseKey :: "string \<Rightarrow> string \<Rightarrow> (lease_table database, unit) oper" where
  "releaseKey key token = tx (\<lambda>now tab.
     (case tab key of
        None \<Rightarrow> (Inr (), tab)
      | Some row \<Rightarrow>
          if lr_leaseToken row = token then (Inr (), tab(key \<mapsto> freeRow now)) else (Inr (), tab)))"

definition releaseLeaseRow :: "string \<Rightarrow> string \<Rightarrow> (lease_table database, unit) oper" where
  "releaseLeaseRow key token = releaseKey key token"

definition getLeaseState :: "string \<Rightarrow> (lease_table database, (string \<times> int) option) oper" where
  "getLeaseState key = tx (\<lambda>now tab. (Inr (map_option (\<lambda>r. (lr_holderId r, lr_expiresAt r)) (tab key)), tab))"

section \<open>The service provides the lease contract\<close>

text \<open>
  Who takes leases: a scheduler job on its fixed key, the catch-up of a chat and the refresh of
  a mailbox token on dynamic keys (\<open>chat-wake-coordinator.service.ts\<close>,
  \<open>mailbox-token-lifecycle.service.ts\<close>). An owner is a process and a token.
\<close>

datatype lease_user = Scheduler_job | Chat_catchup | Mailbox_refresh

definition userTtl :: "lease_user \<Rightarrow> int" where
  "userTtl m = (case m of Scheduler_job \<Rightarrow> LEASE_TTL_MS | Chat_catchup \<Rightarrow> LEASE_TTL_MS | Mailbox_refresh \<Rightarrow> 15000)"

definition rowLease :: "lease_table \<Rightarrow> string \<Rightarrow> (string \<times> int) option" where
  "rowLease tab key =
     (case tab key of
        None \<Rightarrow> None
      | Some row \<Rightarrow> if lr_holderId row = [] then None else Some (lr_leaseToken row, lr_expiresAt row))"

definition acquireBy :: "string \<Rightarrow> lease_user \<Rightarrow> string \<Rightarrow> string \<Rightarrow> lease_table database \<Rightarrow> bool \<times> lease_table database" where
  "acquireBy holder m key token s =
     (case (case m of
              Scheduler_job \<Rightarrow> acquireLeaseRow holder token key s
            | Chat_catchup \<Rightarrow> acquireOrCreate holder token key (Some (userTtl m)) s
            | Mailbox_refresh \<Rightarrow> acquireOrCreate holder token key (Some (userTtl m)) s) of
        (Inr (Some _), t) \<Rightarrow> (True, t) | (_, t) \<Rightarrow> (False, t))"

definition heartbeatBy :: "lease_user \<Rightarrow> string \<Rightarrow> string \<Rightarrow> lease_table database \<Rightarrow> bool \<times> lease_table database" where
  "heartbeatBy m key token s =
     (case heartbeatKey key token (Some (userTtl m)) s of (Inr b, t) \<Rightarrow> (b, t) | (Inl _, t) \<Rightarrow> (False, t))"

definition releaseBy :: "string \<Rightarrow> string \<Rightarrow> lease_table database \<Rightarrow> bool \<times> lease_table database" where
  "releaseBy key token s = (case releaseKey key token s of (Inr _, t) \<Rightarrow> (True, t) | (Inl _, t) \<Rightarrow> (False, t))"

definition leaseRowsKept :: "lease_table database \<Rightarrow> lease_table database \<Rightarrow> bool" where
  "leaseRowsKept s t \<longleftrightarrow> rowLease (dbData t) = rowLease (dbData s) \<and> dbNow s \<le> dbNow t"

definition leaseRowReady :: "lease_user \<Rightarrow> string \<Rightarrow> lease_table database \<Rightarrow> bool" where
  "leaseRowReady m key s \<longleftrightarrow> reliable s \<and> (m = Scheduler_job \<longrightarrow> dbData s key \<noteq> None)"

lemma rowLease_insert [simp]: "rowLease (insertMissing now keys tab) = rowLease tab"
  by (auto simp: rowLease_def insertMissing_def freeRow_def fun_eq_iff)

lemma rowLease_set:
  "holder \<noteq> [] \<Longrightarrow> rowLease (tab(k \<mapsto> \<lparr>lr_holderId = holder, lr_leaseToken = w, lr_expiresAt = e, lr_lastHeartbeat = n\<rparr>)) =
     (rowLease tab)(k \<mapsto> (w, e))"
  by (auto simp: rowLease_def fun_eq_iff)

lemma acquireKey_law:
  assumes "acquireKey holder w k ttl s = (r, t)" "holder \<noteq> []"
  shows "dbNow t = dbNow s \<and>
    (rowLease (dbData t) = rowLease (dbData s) \<and> (\<forall>x. r \<noteq> Inr (Some x)) \<or>
     (\<forall>v e. rowLease (dbData s) k = Some (v, e) \<longrightarrow> e < dbNow s) \<and>
     rowLease (dbData t) = (rowLease (dbData s))(k \<mapsto> (w, dbNow s + (case ttl of Some d \<Rightarrow> d | None \<Rightarrow> LEASE_TTL_MS))))"
  using assms(1) unfolding acquireKey_def
proof (cases rule: tx_cases)
  case (rolled_back e)
  then show ?thesis by simp
next
  case (committed a)
  show ?thesis
  proof (cases "dbData s k")
    case None
    with committed show ?thesis by auto
  next
    case (Some row)
    show ?thesis
    proof (cases "lr_expiresAt row < dbNow s \<or> lr_holderId row = []")
      case True
      then have "dbData t = (dbData s)(k \<mapsto> \<lparr>lr_holderId = holder, lr_leaseToken = w,
          lr_expiresAt = dbNow s + (case ttl of Some d \<Rightarrow> d | None \<Rightarrow> LEASE_TTL_MS), lr_lastHeartbeat = dbNow s\<rparr>)"
        using committed(1) Some by (simp add: Let_def)
      moreover have "\<forall>v e. rowLease (dbData s) k = Some (v, e) \<longrightarrow> e < dbNow s"
        using True Some by (auto simp: rowLease_def)
      ultimately show ?thesis using committed(3) by (simp add: rowLease_set [OF assms(2)])
    next
      case False
      with committed Some show ?thesis by (auto simp: Let_def)
    qed
  qed
qed

lemma acquireOrCreate_law:
  assumes "acquireOrCreate holder w k ttl s = (r, t)" "holder \<noteq> []"
  shows "dbNow t = dbNow s \<and>
    (rowLease (dbData t) = rowLease (dbData s) \<and> (\<forall>x. r \<noteq> Inr (Some x)) \<or>
     (\<forall>v e. rowLease (dbData s) k = Some (v, e) \<longrightarrow> e < dbNow s) \<and>
     rowLease (dbData t) = (rowLease (dbData s))(k \<mapsto> (w, dbNow s + (case ttl of Some d \<Rightarrow> d | None \<Rightarrow> LEASE_TTL_MS))))"
proof -
  obtain r1 s1 where i: "tx (\<lambda>now tab. (Inr (), insertMissing now [k] tab)) s = (r1, s1)"
    by (cases "tx (\<lambda>now tab. (Inr (), insertMissing now [k] tab)) s")
  then have "dbNow s1 = dbNow s \<and> (dbData s1 = dbData s \<or> dbData s1 = insertMissing (dbNow s) [k] (dbData s))"
    by (cases rule: tx_cases) auto
  then have s1: "rowLease (dbData s1) = rowLease (dbData s)" "dbNow s1 = dbNow s" by auto
  show ?thesis
  proof (cases r1)
    case (Inl e)
    with assms(1) i s1 show ?thesis by (auto simp: acquireOrCreate_def bindS_def)
  next
    case (Inr u)
    with assms(1) i have "acquireKey holder w k (Some (case ttl of Some d \<Rightarrow> d | None \<Rightarrow> LEASE_TTL_MS)) s1 = (r, t)"
      by (simp add: acquireOrCreate_def bindS_def)
    from acquireKey_law [OF this assms(2)] s1 show ?thesis by simp
  qed
qed

lemma acquireBy_law:
  assumes "acquireBy holder m k w s = (b, t)" "holder \<noteq> []"
  shows "dbNow t = dbNow s \<and>
    (rowLease (dbData t) = rowLease (dbData s) \<and> \<not> b \<or>
     (\<forall>v e. rowLease (dbData s) k = Some (v, e) \<longrightarrow> e < dbNow s) \<and>
     rowLease (dbData t) = (rowLease (dbData s))(k \<mapsto> (w, dbNow s + userTtl m)))"
proof (cases "m = Scheduler_job")
  case True
  obtain r u where a: "acquireKey holder w k (Some LEASE_TTL_MS) s = (r, u)"
    by (cases "acquireKey holder w k (Some LEASE_TTL_MS) s")
  with assms(1) True have "u = t" "b \<longleftrightarrow> (\<exists>x. r = Inr (Some x))"
    by (auto simp: acquireBy_def acquireLeaseRow_def split: sum.splits option.splits)
  with acquireKey_law [OF a assms(2)] True show ?thesis by (auto simp: userTtl_def)
next
  case False
  obtain r u where a: "acquireOrCreate holder w k (Some (userTtl m)) s = (r, u)"
    by (cases "acquireOrCreate holder w k (Some (userTtl m)) s")
  with assms(1) False have "u = t" "b \<longleftrightarrow> (\<exists>x. r = Inr (Some x))"
    by (auto simp: acquireBy_def split: sum.splits option.splits lease_user.splits)
  with acquireOrCreate_law [OF a assms(2)] show ?thesis by auto
qed

text \<open>A row is free exactly when it has no token.\<close>

definition rowsOk :: "lease_table database \<Rightarrow> bool" where
  "rowsOk s \<longleftrightarrow> (\<forall>k row. dbData s k = Some row \<longrightarrow> (lr_holderId row = [] \<longleftrightarrow> lr_leaseToken row = []))"

lemma rowLease_cases:
  assumes "rowsOk s" "dbData s k = Some row" "lr_leaseToken row = w" "w \<noteq> []"
  shows "rowLease (dbData s) k = Some (w, lr_expiresAt row)" "lr_holderId row \<noteq> []"
  using assms by (auto simp: rowsOk_def rowLease_def)

lemma heartbeatBy_law:
  assumes "heartbeatBy m k w s = (b, t)" "w \<noteq> []" "rowsOk s"
  shows "dbNow t = dbNow s \<and> rowsOk t \<and>
    (rowLease (dbData t) = rowLease (dbData s) \<and> \<not> b \<or>
     (\<forall>v e. rowLease (dbData s) k = Some (v, e) \<longrightarrow> v = w) \<and>
     rowLease (dbData t) = (rowLease (dbData s))(k \<mapsto> (w, dbNow s + userTtl m)))"
proof -
  obtain r where h: "heartbeatKey k w (Some (userTtl m)) s = (r, t)" and b: "b \<Longrightarrow> r = Inr True"
    using assms(1) by (auto simp: heartbeatBy_def split: prod.splits sum.splits)
  from h [unfolded heartbeatKey_def] show ?thesis
  proof (cases rule: tx_cases)
    case (rolled_back e)
    with b assms(3) show ?thesis by (auto simp: rowsOk_def)
  next
    case (committed a)
    show ?thesis
    proof (cases "\<exists>row. dbData s k = Some row \<and> lr_leaseToken row = w")
      case True
      then obtain row where row: "dbData s k = Some row" "lr_leaseToken row = w" by blast
      note l = rowLease_cases [OF assms(3) row assms(2)]
      have t: "dbData t = (dbData s)(k \<mapsto> row\<lparr>lr_expiresAt := dbNow s + userTtl m, lr_lastHeartbeat := dbNow s\<rparr>)"
        using committed(1) row by (simp add: Let_def)
      have "rowLease (dbData t) = (rowLease (dbData s))(k \<mapsto> (w, dbNow s + userTtl m))"
        using l(2) row unfolding t by (simp add: rowLease_def fun_eq_iff)
      moreover have "rowsOk t" using assms(3) row unfolding rowsOk_def t by auto
      ultimately show ?thesis using l(1) committed(3) by simp
    next
      case False
      with committed have "dbData t = dbData s" "a = False" by (auto simp: Let_def split: option.splits)
      with committed b assms(3) show ?thesis by (auto simp: rowsOk_def)
    qed
  qed
qed

lemma releaseBy_law:
  assumes "releaseBy k w s = (b, t)" "w \<noteq> []" "rowsOk s"
  shows "dbNow t = dbNow s \<and> rowsOk t \<and>
    (rowLease (dbData t) = rowLease (dbData s) \<or>
     (\<forall>v e. rowLease (dbData s) k = Some (v, e) \<longrightarrow> v = w) \<and>
     rowLease (dbData t) = (rowLease (dbData s))(k := None))"
proof -
  obtain r where h: "releaseKey k w s = (r, t)"
    using assms(1) by (auto simp: releaseBy_def split: prod.splits sum.splits)
  from h [unfolded releaseKey_def] show ?thesis
  proof (cases rule: tx_cases)
    case (rolled_back e)
    with assms(3) show ?thesis by (auto simp: rowsOk_def)
  next
    case (committed a)
    show ?thesis
    proof (cases "\<exists>row. dbData s k = Some row \<and> lr_leaseToken row = w")
      case True
      then obtain row where row: "dbData s k = Some row" "lr_leaseToken row = w" by blast
      have t: "dbData t = (dbData s)(k \<mapsto> freeRow (dbNow s))"
        using committed(1) row by simp
      have "rowLease (dbData t) = (rowLease (dbData s))(k := None)"
        unfolding t by (simp add: rowLease_def freeRow_def fun_eq_iff)
      moreover have "rowsOk t" using assms(3) unfolding rowsOk_def t by (auto simp: freeRow_def)
      ultimately show ?thesis using rowLease_cases(1) [OF assms(3) row assms(2)] committed(3) by simp
    next
      case False
      with committed have "dbData t = dbData s" by (auto split: option.splits)
      with committed assms(3) show ?thesis by (auto simp: rowsOk_def)
    qed
  qed
qed

lemma rowsOk_tx:
  assumes "tx f s = (r, t)" "rowsOk s"
    and "\<And>now tab. rowsOk (s\<lparr>dbData := tab\<rparr>) \<Longrightarrow> rowsOk (s\<lparr>dbData := snd (f now tab)\<rparr>)"
  shows "rowsOk t"
  using assms(1)
proof (cases rule: tx_cases)
  case (committed a)
  with assms(3) [of "dbData s" "dbNow s"] assms(2) show ?thesis by (simp add: rowsOk_def)
qed (use assms(2) in \<open>simp add: rowsOk_def\<close>)

lemma rowsOk_acquireKey:
  assumes "acquireKey holder w k ttl s = (r, t)" "rowsOk s" "holder \<noteq> []" "w \<noteq> []"
  shows "rowsOk t"
  by (rule rowsOk_tx [OF assms(1) [unfolded acquireKey_def] assms(2)])
    (use assms(3,4) in \<open>auto simp: rowsOk_def Let_def split: option.split\<close>)

lemma rowsOk_acquireBy:
  assumes "acquireBy holder m k w s = (b, t)" "rowsOk s" "holder \<noteq> []" "w \<noteq> []"
  shows "rowsOk t"
proof -
  have create: "rowsOk t" if "acquireOrCreate holder w k ttl s = (r, t)" for r ttl
  proof -
    obtain r1 s1 where i: "tx (\<lambda>now tab. (Inr (), insertMissing now [k] tab)) s = (r1, s1)"
      by (cases "tx (\<lambda>now tab. (Inr (), insertMissing now [k] tab)) s")
    have s1: "rowsOk s1"
      by (rule rowsOk_tx [OF i assms(2)]) (auto simp: rowsOk_def insertMissing_def freeRow_def)
    with that i show ?thesis
      by (cases r1) (auto simp: acquireOrCreate_def bindS_def dest: rowsOk_acquireKey [OF _ _ assms(3,4)])
  qed
  show ?thesis
    using assms(1) create rowsOk_acquireKey [OF _ assms(2-4)]
    by (auto simp: acquireBy_def acquireLeaseRow_def split: lease_user.splits prod.splits sum.splits option.splits)
qed

lemma acquireBy_free:
  assumes "leaseRowReady m k s" "\<forall>v e. rowLease (dbData s) k = Some (v, e) \<longrightarrow> e < dbNow s"
  shows "fst (acquireBy holder m k w s)"
proof -
  have free: "fst (acquireKey holder w k ttl t) = Inr (Some w)"
    if "reliable t" "dbData t k \<noteq> None" "\<forall>v e. rowLease (dbData t) k = Some (v, e) \<longrightarrow> e < dbNow t" for t ttl
    using that by (auto simp: acquireKey_def tx_reliable transactionS_def rowLease_def Let_def)
  show ?thesis
  proof (cases "m = Scheduler_job")
    case True
    with assms free [of s "Some LEASE_TTL_MS"] show ?thesis
      by (cases "acquireKey holder w k (Some LEASE_TTL_MS) s")
        (simp add: acquireBy_def acquireLeaseRow_def leaseRowReady_def)
  next
    case False
    have r: "reliable s" using assms(1) by (simp add: leaseRowReady_def)
    let ?t = "s\<lparr>dbCount := Suc (dbCount s), dbData := insertMissing (dbNow s) [k] (dbData s)\<rparr>"
    have "acquireOrCreate holder w k (Some (userTtl m)) s = acquireKey holder w k (Some (userTtl m)) ?t"
      using r by (simp add: acquireOrCreate_def tx_reliable bindS_def transactionS_def)
    moreover have "fst (acquireKey holder w k (Some (userTtl m)) ?t) = Inr (Some w)"
    proof (rule free)
      show "\<forall>v e. rowLease (dbData ?t) k = Some (v, e) \<longrightarrow> e < dbNow ?t" using assms(2) by simp
    qed (use r in \<open>simp_all add: reliable_def insertMissing_def\<close>)
    ultimately show ?thesis using False
      by (cases "acquireKey holder w k (Some (userTtl m)) ?t"; cases m) (simp_all add: acquireBy_def)
  qed
qed

definition schedulerEnv :: "lease_table database \<Rightarrow> lease_table database \<Rightarrow> bool" where
  "schedulerEnv s t \<longleftrightarrow> leaseRowsKept s t \<and> (rowsOk s \<longrightarrow> rowsOk t)"

interpretation scheduler_lease: lease_protocol dbNow "\<lambda>s. rowLease (dbData s)" userTtl
  "acquireBy (selfHolderId pid suffix)" heartbeatBy releaseBy schedulerEnv "\<lambda>w. w \<noteq> []" leaseRowReady LEASE_TTL_MS rowsOk
  for pid suffix
proof (unfold_locales, goal_cases)
  case (1 m k w s b t) then show ?case using acquireBy_law by (simp add: selfHolderId_def)
next
  case (2 m k w s b t) then show ?case
    by (auto simp: heartbeatBy_def heartbeatKey_def split: prod.splits sum.splits dest: tx_frame)
next
  case (3 k w s b t) then show ?case
    by (auto simp: releaseBy_def releaseKey_def split: prod.splits sum.splits dest: tx_frame)
next
  case (4 w m k s t) then show ?case using acquireBy_law [OF 4(2)] by (auto simp: selfHolderId_def less_imp_le)
next
  case (5 w m k s t) then show ?case using acquireBy_law [OF 5(2)] by (auto simp: selfHolderId_def less_imp_le)
next
  case (6 s w m k t) then show ?case using heartbeatBy_law [OF 6(3,2,1)] by auto
next
  case (7 s w m k t) then show ?case using heartbeatBy_law [OF 7(3,2,1)] by auto
next
  case (8 s w k b t) then show ?case using releaseBy_law [OF 8(3,2,1)] by blast
next
  case (9 s t) then show ?case by (simp add: schedulerEnv_def leaseRowsKept_def)
next
  case (10 w m k s) then show ?case using acquireBy_free by blast
next
  case (11 m) then show ?case by (simp add: userTtl_def LEASE_TTL_MS_def split: lease_user.split)
next
  case (12 s w m k b t) then show ?case using rowsOk_acquireBy by (simp add: selfHolderId_def)
next
  case (13 s w m k b t) then show ?case using heartbeatBy_law [OF 13(3,2,1)] by blast
next
  case (14 s w k b t) then show ?case using releaseBy_law [OF 14(3,2,1)] by blast
next
  case (15 s t) then show ?case by (simp add: schedulerEnv_def)
qed

section \<open>Properties\<close>

text \<open>C16: One scheduler at a time. In any run of processes that acquire, heartbeat and release
  scheduler and dynamic leases, with lost calls and replies and time passing, no two tokens can
  at the same time be believed, from the service's answers, to hold the unexpired lease of a key.\<close>

theorem scheduler_lease_exclusive:
  assumes "lease_run dbNow userTtl (acquireBy (selfHolderId pid suffix)) heartbeatBy releaseBy schedulerEnv
      (\<lambda>w. w \<noteq> []) s0 (s, B)"
    and "rowsOk s0"
    and "(k, v, d) \<in> set B" "dbNow s < d" "(k, w, d') \<in> set B" "dbNow s < d'"
  shows "v = w"
  by (rule scheduler_lease.mutual_exclusion [OF assms(1,3-6,2)])

text \<open>A dead scheduler blocks nobody for longer than the lease. After any run that started with
  no lease beyond its lifetime, once more than 90 seconds passed without a call, any token can
  acquire the key when the database answers (a fixed key needs its row to exist).\<close>

theorem scheduler_lease_recovers:
  assumes "lease_run dbNow userTtl (acquireBy (selfHolderId pid suffix)) heartbeatBy releaseBy schedulerEnv
      (\<lambda>w. w \<noteq> []) s0 (s, B)"
    and "rowsOk s0" "rowLease (dbData s0) = Map.empty"
    and "schedulerEnv s t" "dbNow s + LEASE_TTL_MS < dbNow t" "w \<noteq> []" "leaseRowReady m k t"
  shows "fst (acquireBy (selfHolderId pid suffix) m k w t)"
  by (rule scheduler_lease.crash_recovery [OF assms(1) _ assms(4-7,2)])
    (simp add: scheduler_lease.leasesBounded_def assms(3))

definition demoSchedulers :: "lease_table database" where
  "demoSchedulers = snd (onModuleInit \<lparr>dbNow = 0, dbData = Map.empty, dbCount = 0, dbFault = \<lambda>_. NoFault\<rparr>)"

definition demoLeased :: "lease_table database" where
  "demoLeased = snd (acquireBy (selfHolderId 1 ''u'') Scheduler_job ''media_job'' ''A'' demoSchedulers)"

definition demoRefused :: "lease_table database" where
  "demoRefused = snd (acquireBy (selfHolderId 1 ''u'') Chat_catchup ''media_job'' ''B'' demoLeased)"

lemmas scheduler_eval = demoSchedulers_def demoLeased_def demoRefused_def onModuleInit_def acquireBy_def
  acquireLeaseRow_def acquireOrCreate_def acquireKey_def tx_def transactionS_def insertMissing_def SCHEDULER_KEYS_def
  freeRow_def Let_def bindS_def selfHolderId_def userTtl_def LEASE_TTL_MS_def

lemma demo_schedulers_run:
  "lease_run dbNow userTtl (acquireBy (selfHolderId 1 ''u'')) heartbeatBy releaseBy schedulerEnv
     (\<lambda>w. w \<noteq> []) demoSchedulers (demoRefused, [(''media_job'', ''A'', 90000)])"
proof -
  have now: "dbNow demoSchedulers = 0" by (simp add: scheduler_eval)
  have a: "acquireBy (selfHolderId 1 ''u'') Scheduler_job ''media_job'' ''A'' demoSchedulers = (True, demoLeased)"
    by (simp add: scheduler_eval)
  have b: "acquireBy (selfHolderId 1 ''u'') Chat_catchup ''media_job'' ''B'' demoLeased = (False, demoRefused)"
    by (simp add: scheduler_eval)
  have "lease_run dbNow userTtl (acquireBy (selfHolderId 1 ''u'')) heartbeatBy releaseBy schedulerEnv
     (\<lambda>w. w \<noteq> []) demoSchedulers (demoLeased, [(''media_job'', ''A'', dbNow demoSchedulers + userTtl Scheduler_job)])"
  proof (rule lease_run.acquired [where m = Scheduler_job and s = demoSchedulers])
    show "lease_run dbNow userTtl (acquireBy (selfHolderId 1 ''u'')) heartbeatBy releaseBy schedulerEnv
     (\<lambda>w. w \<noteq> []) demoSchedulers (demoSchedulers, [])" by (rule lease_run.start)
  qed (simp_all add: a)
  then have one: "lease_run dbNow userTtl (acquireBy (selfHolderId 1 ''u'')) heartbeatBy releaseBy schedulerEnv
     (\<lambda>w. w \<noteq> []) demoSchedulers (demoLeased, [(''media_job'', ''A'', 90000)])"
    using now by (simp add: userTtl_def LEASE_TTL_MS_def)
  show ?thesis
  proof (rule lease_run.refused [where m = Chat_catchup and s = demoLeased and k = "''media_job''" and w = "''B''"])
    show "acquireBy (selfHolderId 1 ''u'') Chat_catchup ''media_job'' ''B'' demoLeased = (False, demoRefused)" by (rule b)
  qed (rule one, simp)
qed

lemma demo_schedulers_ok: "rowsOk demoSchedulers" "rowLease (dbData demoSchedulers) = Map.empty" "dbNow demoRefused = 0"
  by (auto simp: rowsOk_def rowLease_def scheduler_eval fun_eq_iff)

theorem scheduler_lease_exclusive_witness:
  "{w. \<exists>d. (''media_job'', w, d) \<in> set [(''media_job'', ''A'', 90000)] \<and> dbNow demoRefused < d} = {''A''}"
  using scheduler_lease_exclusive [OF demo_schedulers_run demo_schedulers_ok(1), of "''media_job''" "''A''" 90000 _ 90000]
    demo_schedulers_ok(3) by auto

theorem scheduler_lease_recovers_witness:
  "fst (acquireBy (selfHolderId 1 ''u'') Scheduler_job ''media_job'' ''C'' (demoRefused\<lparr>dbNow := 90001\<rparr>))"
proof (rule scheduler_lease_recovers [OF demo_schedulers_run demo_schedulers_ok(1,2)])
  show "leaseRowReady Scheduler_job ''media_job'' (demoRefused\<lparr>dbNow := 90001\<rparr>)"
    by (simp add: leaseRowReady_def reliable_def scheduler_eval)
qed (simp_all add: schedulerEnv_def leaseRowsKept_def rowsOk_def demo_schedulers_ok(3) LEASE_TTL_MS_def)

end
