(* ===== verification/QuotaStore.thy ===== *)
theory QuotaStore
  imports Database
begin

text \<open>
  The tables behind the workspace quotas
  (\<open>apps/api/src/modules/workspace-management/infrastructure/persistence/
  prisma-workspace-quota-accounting.repository.ts\<close> and its interface
  \<open>domain/workspace-quota-accounting.repository.ts\<close>) and the two retry loops around its
  transactions.

  A table with a unique key is a map from the key. BigInts and integer columns are \<open>int\<close>;
  the 32-bit and 64-bit column limits, beyond which Postgres refuses a write, are not modelled.
  Transactions are serializable or lock the row they change, so each is one step; \<open>conflicts k\<close>
  says that the database refuses attempt \<open>k\<close> to serialize (error P2034), \<open>raced k\<close> that
  another transaction inserted the row between the lock query and the insert of attempt \<open>k\<close>.
\<close>

datatype monthly_tool = Image_generate | Image_edit | Video_generate | Document

definition toolCodeString :: "monthly_tool \<Rightarrow> string" where
  "toolCodeString c = (case c of
     Image_generate \<Rightarrow> ''image_generate'' | Image_edit \<Rightarrow> ''image_edit''
   | Video_generate \<Rightarrow> ''video_generate'' | Document \<Rightarrow> ''document'')"

record monthly_row =
  mr_workspaceId :: string
  mr_toolCode :: string
  mr_periodStartedAt :: int
  mr_periodEndsAt :: int
  mr_reservedUnits :: int
  mr_settledUnits :: int
  mr_releasedUnits :: int
  mr_reconciliationRequiredUnits :: int
  mr_limitUnits :: "int option"
  mr_lastComputedAt :: int

record monthly_counter =
  mc_workspaceId :: string
  mc_toolCode :: monthly_tool
  mc_periodStartedAt :: int
  mc_periodEndsAt :: int
  mc_reservedUnits :: int
  mc_settledUnits :: int
  mc_releasedUnits :: int
  mc_reconciliationRequiredUnits :: int
  mc_limitUnits :: "int option"
  mc_lastComputedAt :: int

record token_counter =
  tc_workspaceId :: string
  tc_periodStartedAt :: int
  tc_periodEndsAt :: int
  tc_usedCredits :: int
  tc_limitCredits :: "int option"
  tc_lastComputedAt :: int

record quota_limits =
  ql_tokenBudgetLimit :: "int option"
  ql_toolClassUnitsLimit :: "int option"
  ql_activeWebChatsLimit :: "int option"
  ql_mediaStorageBytesLimit :: "int option"
  ql_knowledgeStorageBytesLimit :: "int option"
  ql_workspaceStorageBytesLimit :: "int option"
  ql_sharedStorageBytesLimit :: "int option"

record quota_state =
  qs_id :: string
  qs_workspaceId :: string
  qs_tokenBudgetUsed :: int
  qs_tokenBudgetLimit :: "int option"
  qs_toolClassUnitsUsed :: int
  qs_toolClassUnitsLimit :: "int option"
  qs_activeWebChatsCurrent :: int
  qs_activeWebChatsLimit :: "int option"
  qs_mediaStorageBytesUsed :: int
  qs_mediaStorageBytesLimit :: "int option"
  qs_knowledgeStorageBytesUsed :: int
  qs_knowledgeStorageBytesLimit :: "int option"
  qs_lastComputedAt :: int

datatype quota_dimension = Token_budget | Tool_class | Active_web_chats | Media_storage | Knowledge_storage

record usage_event =
  ue_workspaceId :: string
  ue_assistantId :: "string option"
  ue_userId :: "string option"
  ue_dimension :: quota_dimension
  ue_delta :: int
  ue_currentValue :: "int option"
  ue_source :: string
  ue_metadata :: "json option"
  ue_limitValue :: "int option"

record quota_data =
  monthlyTable :: "string \<times> string \<times> int \<times> int \<rightharpoonup> monthly_row"
  periodTable :: "string \<times> int \<times> int \<rightharpoonup> token_counter"
  stateTable :: "string \<rightharpoonup> quota_state"
  usageEvents :: "usage_event list"
  stateIdOf :: "string \<Rightarrow> string"

section \<open>Retrying a transaction\<close>

definition attemptTx :: "bool \<Rightarrow> (int \<Rightarrow> ('d, 'a) oper) \<Rightarrow> ('d database, 'a) oper" where
  "attemptTx conflict f = (if conflict then throwS serializationFailure else tx f)"

definition withSerializableRetry ::
  "(nat \<Rightarrow> bool) \<Rightarrow> string \<Rightarrow> (int \<Rightarrow> ('d, 'a) oper) \<Rightarrow> ('d database, 'a) oper" where
  "withSerializableRetry conflicts label f =
     retryLoop (''Failed to '' @ label @ '' after serialization retries.'') 3 (\<lambda>k. attemptTx (conflicts k) f) 0"

definition withTransactionRetry ::
  "(nat \<Rightarrow> bool) \<Rightarrow> string \<Rightarrow> (nat \<Rightarrow> int \<Rightarrow> ('d, 'a) oper) \<Rightarrow> ('d database, 'a) oper" where
  "withTransactionRetry conflicts label f =
     retryLoop (''Failed to '' @ label @ '' after transaction retries.'') 5 (\<lambda>k. attemptTx (conflicts k) (f k)) 0"

text \<open>
  Whatever happens, at most one attempt changes the data, and then by the whole transaction run
  on the original data.
\<close>

definition retried :: "(nat \<Rightarrow> int \<Rightarrow> ('d, 'a) oper) \<Rightarrow> 'd database \<Rightarrow> 'a outcome \<Rightarrow> 'd database \<Rightarrow> bool" where
  "retried f s r t \<longleftrightarrow> dbNow t = dbNow s \<and> dbFault t = dbFault s \<and>
     (isl r \<and> dbData t = dbData s \<or>
      (\<exists>k a. f k (dbNow s) (dbData s) = (Inr a, dbData t) \<and> (r = Inr a \<or> r = Inl unavailable)))"

lemma retried_effect:
  assumes "retried f s r t" "\<And>k a d'. f k (dbNow s) (dbData s) = (Inr a, d') \<Longrightarrow> P d'"
  shows "isl r \<and> dbData t = dbData s \<or> P (dbData t)"
  using assms by (auto simp: retried_def)

lemma attempt_retried:
  assumes "attemptTx c (f k) s = (r, t)"
  shows "retried f s r t" and "r = Inl serializationFailure \<Longrightarrow> dbData t = dbData s"
proof -
  have "retried f s r t \<and> (r = Inl serializationFailure \<longrightarrow> dbData t = dbData s)"
  proof (cases c)
    case True
    with assms show ?thesis by (auto simp: attemptTx_def retried_def)
  next
    case False
    with assms have "tx (f k) s = (r, t)" by (simp add: attemptTx_def)
    then show ?thesis by (cases rule: tx_cases) (auto simp: retried_def)
  qed
  then show "retried f s r t" "r = Inl serializationFailure \<Longrightarrow> dbData t = dbData s" by blast+
qed

lemma retried_step: "retried f s1 r t \<Longrightarrow> dbData s1 = dbData s \<Longrightarrow> dbNow s1 = dbNow s \<Longrightarrow> dbFault s1 = dbFault s \<Longrightarrow>
    retried f s r t"
  by (simp add: retried_def)

lemma retryLoop_retried:
  "retryLoop label n (\<lambda>k. attemptTx (c k) (f k)) k s = (r, t) \<Longrightarrow> k \<le> n \<Longrightarrow> retried f s r t"
proof (induction label n "\<lambda>k. attemptTx (c k) (f k)" k s rule: retryLoop.induct)
  case (1 label n k s)
  obtain r1 s1 where a: "attemptTx (c k) (f k) s = (r1, s1)" by (cases "attemptTx (c k) (f k) s")
  note A = attempt_retried [where f = f and k = k, OF a]
  show ?case
  proof (cases "r1 = Inl serializationFailure \<and> k < n")
    case True
    have "retryLoop label n (\<lambda>k. attemptTx (c k) (f k)) (Suc k) s1 = (r, t)"
      using 1(2,3) a True by (subst (asm) retryLoop.simps) simp
    with 1(1) [OF 1(3) a [symmetric]] True have "retried f s1 r t" by simp
    moreover have "dbData s1 = dbData s" using A(2) True by simp
    moreover have "dbNow s1 = dbNow s" "dbFault s1 = dbFault s" using A(1) by (simp_all add: retried_def)
    ultimately show ?thesis by (rule retried_step)
  next
    case False
    then have "(r, t) = (r1, s1)" using 1(2,3) a by (subst (asm) retryLoop.simps) (auto split: sum.splits)
    with A(1) show ?thesis by simp
  qed
qed

lemma serializable_retried:
  "withSerializableRetry c label f s = (r, t) \<Longrightarrow> retried (\<lambda>_. f) s r t"
  unfolding withSerializableRetry_def using retryLoop_retried [where f = "\<lambda>_. f" and c = c and k = 0 and n = 3] by blast

lemma transaction_retried:
  "withTransactionRetry c label f s = (r, t) \<Longrightarrow> retried f s r t"
  unfolding withTransactionRetry_def using retryLoop_retried [where f = f and c = c and k = 0 and n = 5] by blast

text \<open>Enough attempts: with a reliable database the first attempt that serializes answers.\<close>

lemma retryLoop_first:
  assumes "reliable s" "k \<le> j" "j \<le> n" "\<not> c j" "\<forall>i. k \<le> i \<and> i < j \<longrightarrow> c i" "f j (dbNow s) (dbData s) = (Inr a, d)"
  shows "\<exists>m. retryLoop label n (\<lambda>k. attemptTx (c k) (f k)) k s = (Inr a, s\<lparr>dbCount := m, dbData := d\<rparr>)"
  using assms
proof (induction "j - k" arbitrary: k)
  case 0
  then show ?case
    by (subst retryLoop.simps) (auto simp: attemptTx_def tx_reliable transactionS_def intro: exI [of _ "Suc (dbCount s)"])
next
  case (Suc x)
  then have "k < j" by simp
  then have "retryLoop label n (\<lambda>k. attemptTx (c k) (f k)) k s =
      retryLoop label n (\<lambda>k. attemptTx (c k) (f k)) (Suc k) s"
    using Suc.prems by (subst retryLoop.simps) (simp add: attemptTx_def)
  with Suc.hyps(1) [of "Suc k"] Suc.hyps(2) Suc.prems \<open>k < j\<close> show ?case by simp
qed

definition quietly :: "('s, 'a) oper \<Rightarrow> ('s, unit) oper" where
  "quietly m = bindS m (\<lambda>_. returnS ())"

lemma quietly_result: "quietly m s = (r, t) \<Longrightarrow> \<exists>r0. m s = (r0, t) \<and> isl r0 = isl r"
  by (auto simp: quietly_def bindS_def split: prod.splits sum.splits)

text \<open>A database with empty tables.\<close>

definition emptyQuota :: quota_data where
  "emptyQuota = \<lparr>monthlyTable = Map.empty, periodTable = Map.empty, stateTable = Map.empty, usageEvents = [],
     stateIdOf = id\<rparr>"

definition emptyQuotaDb :: "quota_data database" where
  "emptyQuotaDb = \<lparr>dbNow = 0, dbData = emptyQuota, dbCount = 0, dbFault = (\<lambda>_. NoFault)\<rparr>"

end
