(* ===== verification/MonthlyQuota.thy ===== *)
theory MonthlyQuota
  imports QuotaStore
begin

text \<open>
  The monthly unit counters of the tools that are paid per use
  (\<open>prisma-workspace-quota-accounting.repository.ts\<close>): reserve before the work, then settle,
  release or mark for reconciliation; or consume on success only. \<open>settle\<close> may run inside a
  caller's transaction (\<open>settleInTx\<close>).

  The abstract counter (\<open>units\<close>) has the four amounts of one key; every operation refines a
  step on it.
\<close>

record monthly_input =
  mi_workspaceId :: string
  mi_toolCode :: monthly_tool
  mi_periodStartedAt :: int
  mi_periodEndsAt :: int
  mi_units :: int
  mi_limitUnits :: "int option"

record reserve_result =
  rr_allowed :: bool
  rr_currentUsedUnits :: int
  rr_limitUnits :: "int option"
  rr_counter :: monthly_counter

type_synonym monthly_key = "string \<times> string \<times> int \<times> int"

definition monthlyKey :: "monthly_input \<Rightarrow> monthly_key" where
  "monthlyKey i = (mi_workspaceId i, toolCodeString (mi_toolCode i), mi_periodStartedAt i, mi_periodEndsAt i)"

definition toMonthlyMediaQuotaToolCode :: "string \<Rightarrow> monthly_tool outcome" where
  "toMonthlyMediaQuotaToolCode c =
     (if c = ''image_generate'' then Inr Image_generate
      else if c = ''image_edit'' then Inr Image_edit
      else if c = ''video_generate'' then Inr Video_generate
      else if c = ''document'' then Inr Document
      else Inl (PlainError (''Unexpected monthly media quota tool code '' @ quoted c @ ''.'')))"

definition mapMonthlyMediaQuotaCounter :: "monthly_row \<Rightarrow> monthly_counter outcome" where
  "mapMonthlyMediaQuotaCounter r =
     map_sum id (\<lambda>c. \<lparr>mc_workspaceId = mr_workspaceId r, mc_toolCode = c,
        mc_periodStartedAt = mr_periodStartedAt r, mc_periodEndsAt = mr_periodEndsAt r,
        mc_reservedUnits = mr_reservedUnits r, mc_settledUnits = mr_settledUnits r,
        mc_releasedUnits = mr_releasedUnits r,
        mc_reconciliationRequiredUnits = mr_reconciliationRequiredUnits r,
        mc_limitUnits = mr_limitUnits r, mc_lastComputedAt = mr_lastComputedAt r\<rparr>)
       (toMonthlyMediaQuotaToolCode (mr_toolCode r))"

definition answerCounter :: "monthly_row \<Rightarrow> (quota_data, monthly_counter) oper" where
  "answerCounter r = (\<lambda>d. (mapMonthlyMediaQuotaCounter r, d))"

definition findMonthlyMediaQuotaCounter :: "monthly_input \<Rightarrow> (quota_data database, monthly_counter option) oper" where
  "findMonthlyMediaQuotaCounter i = tx (\<lambda>now d.
     (case monthlyTable d (monthlyKey i) of
        None \<Rightarrow> (Inr None, d)
      | Some r \<Rightarrow> (map_sum id Some (mapMonthlyMediaQuotaCounter r), d)))"

definition newMonthlyRow :: "monthly_input \<Rightarrow> int \<Rightarrow> monthly_row" where
  "newMonthlyRow i now =
     \<lparr>mr_workspaceId = mi_workspaceId i, mr_toolCode = toolCodeString (mi_toolCode i),
      mr_periodStartedAt = mi_periodStartedAt i, mr_periodEndsAt = mi_periodEndsAt i,
      mr_reservedUnits = 0, mr_settledUnits = 0, mr_releasedUnits = 0,
      mr_reconciliationRequiredUnits = 0, mr_limitUnits = mi_limitUnits i, mr_lastComputedAt = now\<rparr>"

definition upsertMonthlyMediaQuotaCounter :: "monthly_input \<Rightarrow> int \<Rightarrow> (quota_data, monthly_row) oper" where
  "upsertMonthlyMediaQuotaCounter i now d =
     (let r = (case monthlyTable d (monthlyKey i) of
                 Some r \<Rightarrow> r\<lparr>mr_limitUnits := mi_limitUnits i, mr_lastComputedAt := now\<rparr>
               | None \<Rightarrow> newMonthlyRow i now)
      in (Inr r, d\<lparr>monthlyTable := (monthlyTable d)(monthlyKey i \<mapsto> r)\<rparr>))"

text \<open>\<open>update({ where: { id: counter.id }, data: ... })\<close>\<close>

definition updateMonthlyRow ::
  "monthly_input \<Rightarrow> int \<Rightarrow> (monthly_row \<Rightarrow> monthly_row) \<Rightarrow> (quota_data, monthly_row) oper" where
  "updateMonthlyRow i now f d =
     (case monthlyTable d (monthlyKey i) of
        None \<Rightarrow> (Inl recordNotFound, d)
      | Some r0 \<Rightarrow>
          (let r = (f r0)\<lparr>mr_limitUnits := mi_limitUnits i, mr_lastComputedAt := now\<rparr>
           in (Inr r, d\<lparr>monthlyTable := (monthlyTable d)(monthlyKey i \<mapsto> r)\<rparr>)))"

definition reserveBody :: "monthly_input \<Rightarrow> int \<Rightarrow> (quota_data, reserve_result) oper" where
  "reserveBody i now =
     bindS (upsertMonthlyMediaQuotaCounter i now) (\<lambda>counter.
       let currentUsedUnits = mr_reservedUnits counter + mr_settledUnits counter;
           allowed = (case mi_limitUnits i of None \<Rightarrow> True | Some l \<Rightarrow> currentUsedUnits + mi_units i \<le> l)
       in if \<not> allowed
          then bindS (answerCounter counter) (\<lambda>c. returnS
                 \<lparr>rr_allowed = False, rr_currentUsedUnits = currentUsedUnits,
                  rr_limitUnits = mi_limitUnits i, rr_counter = c\<rparr>)
          else bindS (updateMonthlyRow i now (\<lambda>r. r\<lparr>mr_reservedUnits := mr_reservedUnits r + mi_units i\<rparr>)) (\<lambda>updated.
               bindS (answerCounter updated) (\<lambda>c. returnS
                 \<lparr>rr_allowed = True, rr_currentUsedUnits = currentUsedUnits + mi_units i,
                  rr_limitUnits = mi_limitUnits i, rr_counter = c\<rparr>)))"

definition reserveMonthlyMediaQuota ::
  "(nat \<Rightarrow> bool) \<Rightarrow> monthly_input \<Rightarrow> (quota_data database, reserve_result) oper" where
  "reserveMonthlyMediaQuota conflicts i =
     withSerializableRetry conflicts ''reserve monthly media quota'' (reserveBody i)"

text \<open>The body of \<open>mutateMonthlyMediaQuota\<close>; \<open>dataForUnits\<close> gets the units it may move.\<close>

definition mutateBody ::
  "monthly_input \<Rightarrow> (int \<Rightarrow> monthly_row \<Rightarrow> monthly_row) \<Rightarrow> int \<Rightarrow> (quota_data, monthly_counter) oper" where
  "mutateBody i dataForUnits now =
     bindS (upsertMonthlyMediaQuotaCounter i now) (\<lambda>counter.
       let units = min (mi_units i) (mr_reservedUnits counter)
       in if units \<le> 0 then answerCounter counter
          else bindS (updateMonthlyRow i now (dataForUnits units)) answerCounter)"

definition mutateMonthlyMediaQuota ::
  "(nat \<Rightarrow> bool) \<Rightarrow> monthly_input \<Rightarrow> (int \<Rightarrow> monthly_row \<Rightarrow> monthly_row) \<Rightarrow> (quota_data database, monthly_counter) oper" where
  "mutateMonthlyMediaQuota conflicts i dataForUnits =
     withSerializableRetry conflicts ''mutate monthly media quota'' (mutateBody i dataForUnits)"

definition settleData :: "int \<Rightarrow> monthly_row \<Rightarrow> monthly_row" where
  "settleData units r =
     r\<lparr>mr_reservedUnits := mr_reservedUnits r - units, mr_settledUnits := mr_settledUnits r + units\<rparr>"

definition releaseData :: "int \<Rightarrow> monthly_row \<Rightarrow> monthly_row" where
  "releaseData units r =
     r\<lparr>mr_reservedUnits := mr_reservedUnits r - units, mr_releasedUnits := mr_releasedUnits r + units\<rparr>"

definition reconciliationData :: "int \<Rightarrow> monthly_row \<Rightarrow> monthly_row" where
  "reconciliationData units r =
     r\<lparr>mr_reservedUnits := mr_reservedUnits r - units,
       mr_reconciliationRequiredUnits := mr_reconciliationRequiredUnits r + units\<rparr>"

definition settleMonthlyMediaQuota ::
  "(nat \<Rightarrow> bool) \<Rightarrow> monthly_input \<Rightarrow> (quota_data database, monthly_counter) oper" where
  "settleMonthlyMediaQuota conflicts i = mutateMonthlyMediaQuota conflicts i settleData"

definition settleInTx :: "monthly_input \<Rightarrow> int \<Rightarrow> (quota_data, monthly_counter) oper" where
  "settleInTx i = mutateBody i settleData"

definition releaseMonthlyMediaQuota ::
  "(nat \<Rightarrow> bool) \<Rightarrow> monthly_input \<Rightarrow> (quota_data database, monthly_counter) oper" where
  "releaseMonthlyMediaQuota conflicts i = mutateMonthlyMediaQuota conflicts i releaseData"

definition markMonthlyMediaQuotaReconciliationRequired ::
  "(nat \<Rightarrow> bool) \<Rightarrow> monthly_input \<Rightarrow> (quota_data database, monthly_counter) oper" where
  "markMonthlyMediaQuotaReconciliationRequired conflicts i = mutateMonthlyMediaQuota conflicts i reconciliationData"

definition consumeBody :: "monthly_input \<Rightarrow> int \<Rightarrow> (quota_data, monthly_counter) oper" where
  "consumeBody i now =
     bindS (upsertMonthlyMediaQuotaCounter i now) (\<lambda>counter.
     bindS (updateMonthlyRow i now (\<lambda>r. r\<lparr>mr_settledUnits := mr_settledUnits r + mi_units i\<rparr>)) answerCounter)"

definition consumeMonthlyToolQuotaSuccessOnly ::
  "(nat \<Rightarrow> bool) \<Rightarrow> monthly_input \<Rightarrow> (quota_data database, monthly_counter) oper" where
  "consumeMonthlyToolQuotaSuccessOnly conflicts i =
     withSerializableRetry conflicts ''consume monthly tool quota success-only'' (consumeBody i)"

section \<open>The abstract counter\<close>

record units =
  un_reserved :: int
  un_settled :: int
  un_released :: int
  un_reconciliation :: int

definition noUnits :: units where
  "noUnits = \<lparr>un_reserved = 0, un_settled = 0, un_released = 0, un_reconciliation = 0\<rparr>"

definition rowUnits :: "monthly_row \<Rightarrow> units" where
  "rowUnits r = \<lparr>un_reserved = mr_reservedUnits r, un_settled = mr_settledUnits r,
     un_released = mr_releasedUnits r, un_reconciliation = mr_reconciliationRequiredUnits r\<rparr>"

definition unitsAt :: "monthly_key \<Rightarrow> quota_data \<Rightarrow> units" where
  "unitsAt k d = (case monthlyTable d k of None \<Rightarrow> noUnits | Some r \<Rightarrow> rowUnits r)"

datatype monthly_op = Reserve | Settle | Release | Mark_reconciliation | Consume

definition fits :: "int option \<Rightarrow> int \<Rightarrow> units \<Rightarrow> bool" where
  "fits limit n u = (case limit of None \<Rightarrow> True | Some l \<Rightarrow> un_reserved u + un_settled u + n \<le> l)"

text \<open>What an operation for \<open>n\<close> units means: reserve if it fits, move no more than is reserved.\<close>

definition unitStep :: "monthly_op \<Rightarrow> int option \<Rightarrow> int \<Rightarrow> units \<Rightarrow> units" where
  "unitStep op limit n u =
     (let m = max 0 (min n (un_reserved u)) in
      case op of
        Reserve \<Rightarrow> if fits limit n u then u\<lparr>un_reserved := un_reserved u + n\<rparr> else u
      | Settle \<Rightarrow> u\<lparr>un_reserved := un_reserved u - m, un_settled := un_settled u + m\<rparr>
      | Release \<Rightarrow> u\<lparr>un_reserved := un_reserved u - m, un_released := un_released u + m\<rparr>
      | Mark_reconciliation \<Rightarrow>
          u\<lparr>un_reserved := un_reserved u - m, un_reconciliation := un_reconciliation u + m\<rparr>
      | Consume \<Rightarrow> u\<lparr>un_settled := un_settled u + n\<rparr>)"

definition monthlyOp :: "monthly_op \<Rightarrow> (nat \<Rightarrow> bool) \<Rightarrow> monthly_input \<Rightarrow> (quota_data database, unit) oper" where
  "monthlyOp op c i =
     (case op of
        Reserve \<Rightarrow> quietly (reserveMonthlyMediaQuota c i)
      | Settle \<Rightarrow> quietly (settleMonthlyMediaQuota c i)
      | Release \<Rightarrow> quietly (releaseMonthlyMediaQuota c i)
      | Mark_reconciliation \<Rightarrow> quietly (markMonthlyMediaQuotaReconciliationRequired c i)
      | Consume \<Rightarrow> quietly (consumeMonthlyToolQuotaSuccessOnly c i))"

definition onlyUnits :: "monthly_key \<Rightarrow> units \<Rightarrow> quota_data \<Rightarrow> quota_data \<Rightarrow> bool" where
  "onlyUnits k u d d' \<longleftrightarrow> (\<forall>k'. unitsAt k' d' = (if k' = k then u else unitsAt k' d)) \<and>
     periodTable d' = periodTable d \<and> stateTable d' = stateTable d \<and> usageEvents d' = usageEvents d"

lemma onlyUnits_own: "onlyUnits k u d d' \<Longrightarrow> unitsAt k d' = u"
  unfolding onlyUnits_def by (metis (full_types))

lemma onlyUnits_other: "onlyUnits k u d d' \<Longrightarrow> k' \<noteq> k \<Longrightarrow> unitsAt k' d' = unitsAt k' d"
  unfolding onlyUnits_def by (metis (full_types))

lemma unitsAt_upd: "unitsAt k (d\<lparr>monthlyTable := (monthlyTable d)(k0 \<mapsto> r)\<rparr>) = (if k = k0 then rowUnits r else unitsAt k d)"
  by (simp add: unitsAt_def)

lemma upsert_units:
  "upsertMonthlyMediaQuotaCounter i now d = (Inr r, d') \<Longrightarrow>
     rowUnits r = unitsAt (monthlyKey i) d \<and> monthlyTable d' (monthlyKey i) = Some r \<and>
     d' = d\<lparr>monthlyTable := (monthlyTable d)(monthlyKey i \<mapsto> r)\<rparr>"
  by (auto simp: upsertMonthlyMediaQuotaCounter_def Let_def unitsAt_def rowUnits_def newMonthlyRow_def noUnits_def
      split: option.splits)

lemma update_units:
  "updateMonthlyRow i now f d = (Inr r, d') \<Longrightarrow> monthlyTable d (monthlyKey i) = Some r0 \<Longrightarrow>
     r = (f r0)\<lparr>mr_limitUnits := mi_limitUnits i, mr_lastComputedAt := now\<rparr> \<and>
     d' = d\<lparr>monthlyTable := (monthlyTable d)(monthlyKey i \<mapsto> r)\<rparr>"
  by (auto simp: updateMonthlyRow_def Let_def)

lemma rowUnits_stamp [simp]: "rowUnits (r\<lparr>mr_limitUnits := l, mr_lastComputedAt := n\<rparr>) = rowUnits r"
  by (simp add: rowUnits_def)

lemma rowUnits_fields:
  "mr_reservedUnits r = un_reserved (rowUnits r)" "mr_settledUnits r = un_settled (rowUnits r)"
  by (simp_all add: rowUnits_def)

lemma onlyUnits_upsert:
  "upsertMonthlyMediaQuotaCounter i now d = (Inr r, d') \<Longrightarrow> onlyUnits (monthlyKey i) (unitsAt (monthlyKey i) d) d d'"
  by (drule upsert_units) (auto simp: onlyUnits_def unitsAt_upd)

lemma onlyUnits_update:
  assumes "upsertMonthlyMediaQuotaCounter i now d = (Inr r, d1)" "updateMonthlyRow i now f d1 = (Inr r', d')"
  shows "onlyUnits (monthlyKey i) (rowUnits (f r)) d d'"
proof -
  note u = upsert_units [OF assms(1)]
  then have "monthlyTable d1 (monthlyKey i) = Some r" by simp
  from update_units [OF assms(2) this] u show ?thesis
    by (auto simp: onlyUnits_def unitsAt_upd)
qed

text \<open>The three bodies.\<close>

lemma reserveBody_step:
  assumes "reserveBody i now d = (Inr res, d')"
  shows "onlyUnits (monthlyKey i) (unitStep Reserve (mi_limitUnits i) (mi_units i) (unitsAt (monthlyKey i) d)) d d'"
    and "rr_allowed res = fits (mi_limitUnits i) (mi_units i) (unitsAt (monthlyKey i) d)"
proof -
  let ?u = "unitsAt (monthlyKey i) d"
  obtain r d1 where up: "upsertMonthlyMediaQuotaCounter i now d = (Inr r, d1)"
    using assms unfolding reserveBody_def bindS_eq_Inr_iff by blast
  have u: "rowUnits r = ?u" using upsert_units [OF up] by simp
  have fit: "(case mi_limitUnits i of None \<Rightarrow> True | Some l \<Rightarrow> mr_reservedUnits r + mr_settledUnits r + mi_units i \<le> l)
      = fits (mi_limitUnits i) (mi_units i) ?u"
    unfolding fits_def u [symmetric] rowUnits_fields ..
  have "onlyUnits (monthlyKey i) (unitStep Reserve (mi_limitUnits i) (mi_units i) ?u) d d' \<and>
    rr_allowed res = fits (mi_limitUnits i) (mi_units i) ?u"
  proof (cases "fits (mi_limitUnits i) (mi_units i) ?u")
    case True
    with assms up fit obtain r' d2 where w:
      "updateMonthlyRow i now (\<lambda>r. r\<lparr>mr_reservedUnits := mr_reservedUnits r + mi_units i\<rparr>) d1 = (Inr r', d2)"
      "d' = d2" "rr_allowed res"
      unfolding reserveBody_def by (auto simp: bindS_eq_Inr_iff Let_def answerCounter_def)
    have "rowUnits (r\<lparr>mr_reservedUnits := mr_reservedUnits r + mi_units i\<rparr>) =
        unitStep Reserve (mi_limitUnits i) (mi_units i) ?u"
      using True unfolding u [symmetric] by (simp add: unitStep_def rowUnits_def)
    with onlyUnits_update [OF up w(1)] w(2,3) True show ?thesis by simp
  next
    case False
    with assms up fit have "d' = d1" "\<not> rr_allowed res"
      unfolding reserveBody_def by (auto simp: bindS_eq_Inr_iff Let_def answerCounter_def)
    with onlyUnits_upsert [OF up] False show ?thesis by (simp add: unitStep_def)
  qed
  then show "onlyUnits (monthlyKey i) (unitStep Reserve (mi_limitUnits i) (mi_units i) ?u) d d'"
    "rr_allowed res = fits (mi_limitUnits i) (mi_units i) ?u" by simp_all
qed

lemma mutateBody_step:
  assumes "mutateBody i f now d = (Inr c, d')"
    and "\<And>m r. m = max 0 (min (mi_units i) (mr_reservedUnits r)) \<Longrightarrow> rowUnits (f m r) = step (rowUnits r)"
    and "\<And>u. min (mi_units i) (un_reserved u) \<le> 0 \<Longrightarrow> step u = u"
  shows "onlyUnits (monthlyKey i) (step (unitsAt (monthlyKey i) d)) d d'"
proof -
  obtain r d1 where up: "upsertMonthlyMediaQuotaCounter i now d = (Inr r, d1)"
    using assms(1) unfolding mutateBody_def bindS_eq_Inr_iff by blast
  have u: "rowUnits r = unitsAt (monthlyKey i) d" using upsert_units [OF up] by simp
  let ?m = "min (mi_units i) (mr_reservedUnits r)"
  show ?thesis
  proof (cases "?m \<le> 0")
    case True
    with assms(1) up have "d' = d1" unfolding mutateBody_def by (auto simp: bindS_eq_Inr_iff Let_def answerCounter_def)
    moreover have "step (rowUnits r) = rowUnits r" using True by (intro assms(3)) (simp add: rowUnits_def)
    ultimately show ?thesis using onlyUnits_upsert [OF up] u by simp
  next
    case False
    with assms(1) up obtain r' where "updateMonthlyRow i now (f ?m) d1 = (Inr r', d')"
      unfolding mutateBody_def by (auto simp: bindS_eq_Inr_iff Let_def answerCounter_def)
    from onlyUnits_update [OF up this] assms(2) [of ?m r] False u show ?thesis by simp
  qed
qed

lemma consumeBody_step:
  assumes "consumeBody i now d = (Inr c, d')"
  shows "onlyUnits (monthlyKey i) (unitStep Consume (mi_limitUnits i) (mi_units i) (unitsAt (monthlyKey i) d)) d d'"
proof -
  obtain r d1 r' where up: "upsertMonthlyMediaQuotaCounter i now d = (Inr r, d1)"
    and w: "updateMonthlyRow i now (\<lambda>r. r\<lparr>mr_settledUnits := mr_settledUnits r + mi_units i\<rparr>) d1 = (Inr r', d')"
    using assms unfolding consumeBody_def by (auto simp: bindS_eq_Inr_iff answerCounter_def)
  have u: "rowUnits r = unitsAt (monthlyKey i) d" using upsert_units [OF up] by simp
  have "rowUnits (r\<lparr>mr_settledUnits := mr_settledUnits r + mi_units i\<rparr>) =
      unitStep Consume (mi_limitUnits i) (mi_units i) (unitsAt (monthlyKey i) d)"
    unfolding u [symmetric] by (simp add: unitStep_def rowUnits_def Let_def)
  with onlyUnits_update [OF up w] show ?thesis by simp
qed

lemma retried_only:
  assumes "retried (\<lambda>_. f) s r t" "\<And>a d'. f (dbNow s) (dbData s) = (Inr a, d') \<Longrightarrow> P d'"
  shows "isl r \<and> dbData t = dbData s \<or> P (dbData t)"
  using assms by (auto simp: retried_def)

lemma mutate_step:
  assumes "quietly (mutateMonthlyMediaQuota c i f) s = (r, t)"
    and "\<And>m q. m = max 0 (min (mi_units i) (mr_reservedUnits q)) \<Longrightarrow>
      rowUnits (f m q) = unitStep op (mi_limitUnits i) (mi_units i) (rowUnits q)"
    and "op \<in> {Settle, Release, Mark_reconciliation}"
  shows "isl r \<and> dbData t = dbData s \<or>
    onlyUnits (monthlyKey i) (unitStep op (mi_limitUnits i) (mi_units i) (unitsAt (monthlyKey i) (dbData s)))
      (dbData s) (dbData t)"
proof -
  obtain r0 where m: "mutateMonthlyMediaQuota c i f s = (r0, t)" "isl r0 = isl r"
    using quietly_result [OF assms(1)] by blast
  have idle: "unitStep op (mi_limitUnits i) (mi_units i) u = u" if "min (mi_units i) (un_reserved u) \<le> 0" for u
  proof -
    have "max 0 (min (mi_units i) (un_reserved u)) = 0" using that by simp
    with assms(3) show ?thesis by (auto simp: unitStep_def)
  qed
  have "isl r0 \<and> dbData t = dbData s \<or>
    onlyUnits (monthlyKey i) (unitStep op (mi_limitUnits i) (mi_units i) (unitsAt (monthlyKey i) (dbData s)))
      (dbData s) (dbData t)"
  proof (rule retried_only [OF serializable_retried [OF m(1) [unfolded mutateMonthlyMediaQuota_def]]])
    fix a d' assume "mutateBody i f (dbNow s) (dbData s) = (Inr a, d')"
    then show "onlyUnits (monthlyKey i) (unitStep op (mi_limitUnits i) (mi_units i) (unitsAt (monthlyKey i) (dbData s)))
      (dbData s) d'"
      by (rule mutateBody_step [where step = "unitStep op (mi_limitUnits i) (mi_units i)", OF _ assms(2) idle])
  qed
  with m(2) show ?thesis by simp
qed

lemma monthly_step:
  assumes "monthlyOp op c i s = (r, t)"
  shows "isl r \<and> dbData t = dbData s \<or>
    onlyUnits (monthlyKey i) (unitStep op (mi_limitUnits i) (mi_units i) (unitsAt (monthlyKey i) (dbData s)))
      (dbData s) (dbData t)"
proof (cases op)
  case Reserve
  with assms obtain r0 where "reserveMonthlyMediaQuota c i s = (r0, t)" "isl r0 = isl r"
    using quietly_result by (fastforce simp: monthlyOp_def)
  with retried_only [OF serializable_retried, of c _ "reserveBody i" s r0 t] reserveBody_step(1) Reserve show ?thesis
    unfolding reserveMonthlyMediaQuota_def by metis
next
  case Consume
  with assms obtain r0 where m: "consumeMonthlyToolQuotaSuccessOnly c i s = (r0, t)" "isl r0 = isl r"
    using quietly_result by (fastforce simp: monthlyOp_def)
  with retried_only [OF serializable_retried, of c _ "consumeBody i" s r0 t] consumeBody_step Consume show ?thesis
    unfolding consumeMonthlyToolQuotaSuccessOnly_def by metis
next
  case Settle
  from assms have "quietly (mutateMonthlyMediaQuota c i settleData) s = (r, t)"
    by (simp add: Settle monthlyOp_def settleMonthlyMediaQuota_def)
  then show ?thesis by (rule mutate_step) (simp_all add: Settle settleData_def unitStep_def rowUnits_def Let_def)
next
  case Release
  from assms have "quietly (mutateMonthlyMediaQuota c i releaseData) s = (r, t)"
    by (simp add: Release monthlyOp_def releaseMonthlyMediaQuota_def)
  then show ?thesis by (rule mutate_step) (simp_all add: Release releaseData_def unitStep_def rowUnits_def Let_def)
next
  case Mark_reconciliation
  from assms have "quietly (mutateMonthlyMediaQuota c i reconciliationData) s = (r, t)"
    by (simp add: Mark_reconciliation monthlyOp_def markMonthlyMediaQuotaReconciliationRequired_def)
  then show ?thesis
    by (rule mutate_step) (simp_all add: Mark_reconciliation reconciliationData_def unitStep_def rowUnits_def Let_def)
qed

text \<open>C10: The monthly counters refine the abstract counter. Every operation, with any conflicts,
  retries, failures and lost replies, either fails and leaves the data alone, or does exactly one
  abstract step on its own counter: no other counter, and no other table, changes.\<close>

theorem monthly_counter_refines:
  assumes "monthlyOp op c i s = (r, t)"
  shows "isl r \<and> dbData t = dbData s \<or>
    onlyUnits (monthlyKey i) (unitStep op (mi_limitUnits i) (mi_units i) (unitsAt (monthlyKey i) (dbData s)))
      (dbData s) (dbData t)"
  by (rule monthly_step [OF assms])

section \<open>The cap\<close>

definition demoUnits :: "int \<Rightarrow> monthly_input" where
  "demoUnits n = \<lparr>mi_workspaceId = ''w'', mi_toolCode = Image_generate, mi_periodStartedAt = 0,
     mi_periodEndsAt = 9, mi_units = n, mi_limitUnits = Some 5\<rparr>"

text \<open>The first reservation conflicts once and is answered by the second attempt.\<close>

definition demoReserved :: "quota_data database" where
  "demoReserved = snd (monthlyOp Reserve (\<lambda>k. k = 0) (demoUnits 3) emptyQuotaDb)"

lemmas monthly_eval = monthlyOp_def quietly_def reserveMonthlyMediaQuota_def withSerializableRetry_def
  retryLoop.simps attemptTx_def tx_def transactionS_def reserveBody_def bindS_def
  upsertMonthlyMediaQuotaCounter_def updateMonthlyRow_def answerCounter_def mapMonthlyMediaQuotaCounter_def
  toMonthlyMediaQuotaToolCode_def toolCodeString_def monthlyKey_def newMonthlyRow_def Let_def
  emptyQuotaDb_def emptyQuota_def demoUnits_def

lemma demo_reserved: "monthlyOp Reserve (\<lambda>k. k = 0) (demoUnits 3) emptyQuotaDb = (Inr (), demoReserved)"
  unfolding demoReserved_def by (simp add: monthly_eval)

theorem monthly_counter_refines_witness:
  "unitsAt (monthlyKey (demoUnits 3)) (dbData demoReserved) = noUnits\<lparr>un_reserved := 3\<rparr>"
proof -
  have u: "unitsAt (monthlyKey (demoUnits 3)) (dbData emptyQuotaDb) = noUnits"
    by (simp add: unitsAt_def emptyQuotaDb_def emptyQuota_def)
  from monthly_counter_refines [OF demo_reserved]
  have "unitsAt (monthlyKey (demoUnits 3)) (dbData demoReserved) =
      unitStep Reserve (mi_limitUnits (demoUnits 3)) (mi_units (demoUnits 3)) noUnits"
    unfolding u by (auto dest: onlyUnits_own)
  then show ?thesis by (simp add: unitStep_def fits_def noUnits_def demoUnits_def)
qed

text \<open>
  Any interleaving of operations, of any processes, in which the key's limit is \<open>L\<close> and its
  units are not consumed without a reservation.
\<close>

inductive capped_run :: "monthly_key \<Rightarrow> int \<Rightarrow> quota_data database \<Rightarrow> quota_data database \<Rightarrow> bool" for k L s0 where
  start: "capped_run k L s0 s0"
| operation: "capped_run k L s0 s \<Longrightarrow> monthlyOp op c i s = (r, t) \<Longrightarrow>
    monthlyKey i = k \<longrightarrow> mi_limitUnits i = Some L \<and> op \<noteq> Consume \<and> 0 \<le> mi_units i \<Longrightarrow> capped_run k L s0 t"
| elsewhere: "capped_run k L s0 s \<Longrightarrow> monthlyTable (dbData t) = monthlyTable (dbData s) \<Longrightarrow> capped_run k L s0 t"

definition withinCap :: "int \<Rightarrow> units \<Rightarrow> bool" where
  "withinCap L u \<longleftrightarrow> 0 \<le> un_reserved u \<and> 0 \<le> un_settled u \<and> 0 \<le> un_released u \<and> 0 \<le> un_reconciliation u \<and>
     un_reserved u + un_settled u \<le> L"

lemma withinCap_step:
  "withinCap L u \<Longrightarrow> 0 \<le> n \<Longrightarrow> op \<noteq> Consume \<Longrightarrow> withinCap L (unitStep op (Some L) n u)"
  by (cases op) (auto simp: withinCap_def unitStep_def fits_def Let_def)

text \<open>C17: Reserved and settled units never exceed the limit. In every interleaving of reserve,
  settle, release and reconciliation calls of any processes for a counter with limit \<open>L\<close>, with
  conflicts, retries, failures and lost replies, no amount is ever negative and reserved plus
  settled units stay within \<open>L\<close>.\<close>

theorem monthly_cap_respected:
  assumes "capped_run k L s0 s" "unitsAt k (dbData s0) = noUnits" "0 \<le> L"
  shows "withinCap L (unitsAt k (dbData s))"
  using assms(1)
proof induction
  case start
  with assms(2,3) show ?case by (simp add: withinCap_def noUnits_def)
next
  case (operation s op c i r t)
  from monthly_step [OF operation(2)] show ?case
  proof
    assume "isl r \<and> dbData t = dbData s"
    with operation.IH show ?thesis by simp
  next
    assume only: "onlyUnits (monthlyKey i) (unitStep op (mi_limitUnits i) (mi_units i) (unitsAt (monthlyKey i) (dbData s)))
      (dbData s) (dbData t)"
    show ?thesis
    proof (cases "monthlyKey i = k")
      case True
      with only operation withinCap_step [OF operation.IH, of "mi_units i" op] show ?thesis
        by (auto dest: onlyUnits_own)
    next
      case False
      with onlyUnits_other [OF only, of k] operation.IH show ?thesis by simp
    qed
  qed
next
  case (elsewhere s t)
  then show ?case by (simp add: unitsAt_def)
qed

lemma demo_capped_run:
  "capped_run (monthlyKey (demoUnits 3)) 5 emptyQuotaDb (snd (monthlyOp Reserve (\<lambda>_. False) (demoUnits 3) demoReserved))"
proof (rule capped_run.operation [where i = "demoUnits 3"])
  show "capped_run (monthlyKey (demoUnits 3)) 5 emptyQuotaDb demoReserved"
    by (rule capped_run.operation [OF capped_run.start demo_reserved]) (simp add: demoUnits_def)
  show "monthlyOp Reserve (\<lambda>_. False) (demoUnits 3) demoReserved =
    (fst (monthlyOp Reserve (\<lambda>_. False) (demoUnits 3) demoReserved), snd (monthlyOp Reserve (\<lambda>_. False) (demoUnits 3) demoReserved))"
    by simp
qed (simp add: demoUnits_def)

theorem monthly_cap_respected_witness:
  "withinCap 5 (unitsAt (monthlyKey (demoUnits 3))
     (dbData (snd (monthlyOp Reserve (\<lambda>_. False) (demoUnits 3) demoReserved))))"
  by (rule monthly_cap_respected [OF demo_capped_run]) (simp_all add: unitsAt_def emptyQuotaDb_def emptyQuota_def)

section \<open>A reservation that can be answered is\<close>

text \<open>Rows carry the tool code of their key.\<close>

definition rowsNamed :: "quota_data \<Rightarrow> bool" where
  "rowsNamed d \<longleftrightarrow> (\<forall>k r. monthlyTable d k = Some r \<longrightarrow> mr_toolCode r = fst (snd k))"

lemma tool_code_roundtrip [simp]: "toMonthlyMediaQuotaToolCode (toolCodeString c) = Inr c"
  by (cases c) (simp_all add: toMonthlyMediaQuotaToolCode_def toolCodeString_def)

lemma reserveBody_total:
  assumes "rowsNamed d"
  shows "\<exists>res d'. reserveBody i now d = (Inr res, d')"
proof -
  obtain r d1 where up: "upsertMonthlyMediaQuotaCounter i now d = (Inr r, d1)"
    by (simp add: upsertMonthlyMediaQuotaCounter_def Let_def)
  then have code: "mr_toolCode r = toolCodeString (mi_toolCode i)"
    using assms by (auto simp: upsertMonthlyMediaQuotaCounter_def Let_def newMonthlyRow_def rowsNamed_def monthlyKey_def
        split: option.splits)
  then show ?thesis
    using upsert_units [OF up] up
    by (auto simp: reserveBody_def bindS_def answerCounter_def mapMonthlyMediaQuotaCounter_def updateMonthlyRow_def Let_def)
qed

text \<open>C31: Up to three conflicts are retried away. When the database answers and one of the four
  attempts serializes, \<open>reserveMonthlyMediaQuota\<close> returns, and it allows the units exactly
  when they fit under the limit next to the reserved and settled ones.\<close>

theorem reserve_answers:
  assumes "reliable s" "rowsNamed (dbData s)" "k \<le> 3" "\<not> conflicts k" "\<forall>j < k. conflicts j"
  shows "\<exists>res t. reserveMonthlyMediaQuota conflicts i s = (Inr res, t) \<and>
    rr_allowed res = fits (mi_limitUnits i) (mi_units i) (unitsAt (monthlyKey i) (dbData s))"
proof -
  obtain res d where b: "reserveBody i (dbNow s) (dbData s) = (Inr res, d)"
    using reserveBody_total [OF assms(2)] by blast
  from retryLoop_first [where f = "\<lambda>_. reserveBody i" and k = 0 and c = conflicts and n = 3, OF assms(1) _ assms(3,4) _ b]
  obtain t where "reserveMonthlyMediaQuota conflicts i s = (Inr res, t)"
    unfolding reserveMonthlyMediaQuota_def withSerializableRetry_def using assms(5) by auto
  with reserveBody_step(2) [OF b] show ?thesis by blast
qed

theorem reserve_answers_witness:
  "\<exists>res t. reserveMonthlyMediaQuota (\<lambda>k. k < 3) (demoUnits 6) emptyQuotaDb = (Inr res, t) \<and> \<not> rr_allowed res"
proof -
  have "\<not> fits (mi_limitUnits (demoUnits 6)) (mi_units (demoUnits 6)) (unitsAt (monthlyKey (demoUnits 6)) (dbData emptyQuotaDb))"
    by (simp add: fits_def demoUnits_def unitsAt_def emptyQuotaDb_def emptyQuota_def noUnits_def)
  then show ?thesis
    using reserve_answers [of emptyQuotaDb 3 "\<lambda>k. k < 3" "demoUnits 6"]
    by (auto simp: reliable_def rowsNamed_def emptyQuotaDb_def emptyQuota_def)
qed

end
