(* ===== verification/UsageCounter.thy ===== *)
theory UsageCounter
  imports PersaiPrelude
begin

text \<open>
  The contract of a capped usage counter: spending is cut down to what is left under the limit,
  a refund never takes back more than was spent. \<open>spend\<close> and \<open>refund\<close> are the transitions
  any process can make, whatever it is answered. The locale derives that in every run the usage
  of every key stays between zero and its limit.
\<close>

inductive usage_run ::
  "('k \<Rightarrow> int \<Rightarrow> int option \<Rightarrow> 's \<Rightarrow> 's \<Rightarrow> bool) \<Rightarrow> ('k \<Rightarrow> int \<Rightarrow> 's \<Rightarrow> 's \<Rightarrow> bool) \<Rightarrow> ('s \<Rightarrow> 's \<Rightarrow> bool) \<Rightarrow>
   ('k \<Rightarrow> int option) \<Rightarrow> 's \<Rightarrow> 's \<Rightarrow> bool"
  for spend refund env L s0 where
  start: "usage_run spend refund env L s0 s0"
| spent: "usage_run spend refund env L s0 s \<Longrightarrow> spend k n (L k) s t \<Longrightarrow> 0 \<le> n \<Longrightarrow> usage_run spend refund env L s0 t"
| refunded: "usage_run spend refund env L s0 s \<Longrightarrow> refund k n s t \<Longrightarrow> usage_run spend refund env L s0 t"
| elsewhere: "usage_run spend refund env L s0 s \<Longrightarrow> env s t \<Longrightarrow> usage_run spend refund env L s0 t"

locale usage_counter =
  fixes used :: "'s \<Rightarrow> 'k \<Rightarrow> int"
    and spend :: "'k \<Rightarrow> int \<Rightarrow> int option \<Rightarrow> 's \<Rightarrow> 's \<Rightarrow> bool"
    and refund :: "'k \<Rightarrow> int \<Rightarrow> 's \<Rightarrow> 's \<Rightarrow> bool"
    and env :: "'s \<Rightarrow> 's \<Rightarrow> bool"
  assumes spend_law: "spend k n limit s t \<Longrightarrow> 0 \<le> n \<Longrightarrow>
      \<exists>g. 0 \<le> g \<and> g \<le> n \<and> used t = (used s)(k := used s k + g) \<and>
        (\<forall>c. limit = Some c \<longrightarrow> g = 0 \<or> used s k + g \<le> c)"
    and refund_law: "refund k n s t \<Longrightarrow> 0 \<le> used s k \<Longrightarrow>
      \<exists>g. 0 \<le> g \<and> g \<le> used s k \<and> g \<le> max 0 n \<and> used t = (used s)(k := used s k - g)"
    and env_law: "env s t \<Longrightarrow> used t = used s"
begin

definition inBounds :: "('k \<Rightarrow> int option) \<Rightarrow> 's \<Rightarrow> bool" where
  "inBounds L s \<longleftrightarrow> (\<forall>k. 0 \<le> used s k \<and> (\<forall>c. L k = Some c \<longrightarrow> used s k \<le> c))"

lemma inBounds_spend:
  assumes "inBounds L s" "spend k n (L k) s t" "0 \<le> n"
  shows "inBounds L t"
proof -
  from spend_law [OF assms(2,3)] obtain g where g: "0 \<le> g" "used t = (used s)(k := used s k + g)"
    "\<forall>c. L k = Some c \<longrightarrow> g = 0 \<or> used s k + g \<le> c" by blast
  show ?thesis
    unfolding inBounds_def g(2)
  proof
    fix k'
    from assms(1) have w: "0 \<le> used s k'" "\<forall>c. L k' = Some c \<longrightarrow> used s k' \<le> c" by (auto simp: inBounds_def)
    then show "0 \<le> ((used s)(k := used s k + g)) k' \<and> (\<forall>c. L k' = Some c \<longrightarrow> ((used s)(k := used s k + g)) k' \<le> c)"
      using g(1,3) by auto
  qed
qed

lemma inBounds_refund:
  assumes "inBounds L s" "refund k n s t"
  shows "inBounds L t"
proof -
  have "0 \<le> used s k" using assms(1) by (simp add: inBounds_def)
  from refund_law [OF assms(2) this] obtain g where g: "0 \<le> g" "g \<le> used s k" "used t = (used s)(k := used s k - g)" by blast
  show ?thesis
    unfolding inBounds_def g(3)
  proof
    fix k'
    from assms(1) have w: "0 \<le> used s k'" "\<forall>c. L k' = Some c \<longrightarrow> used s k' \<le> c" by (auto simp: inBounds_def)
    then show "0 \<le> ((used s)(k := used s k - g)) k' \<and> (\<forall>c. L k' = Some c \<longrightarrow> ((used s)(k := used s k - g)) k' \<le> c)"
      using g(1,2) by force
  qed
qed

lemma usage_bounded: "usage_run spend refund env L s0 s \<Longrightarrow> inBounds L s0 \<Longrightarrow> inBounds L s"
proof (induction rule: usage_run.induct)
  case (elsewhere s t)
  then show ?case by (simp add: inBounds_def env_law)
qed (auto intro: inBounds_spend inBounds_refund)

end

end
