(* ===== verification/UsageQuota.thy ===== *)
theory UsageQuota
  imports QuotaStore UsageCounter
begin

text \<open>
  The usage state of a workspace and the ledger of usage events
  (\<open>prisma-workspace-quota-accounting.repository.ts\<close>): token budget per period, media and
  knowledge storage, and the two plain writes. Instants stand for the ISO strings in an event's
  metadata, and \<open>Number(delta)\<close> is exact.

  Storage and token budget are providers of the capped counter contract.
\<close>

record usage_input =
  ui_workspaceId :: string
  ui_assistantId :: "string option"
  ui_userId :: "string option"
  ui_delta :: int
  ui_source :: string
  ui_metadata :: "(string \<times> json) list option"
  ui_limits :: quota_limits

record apply_result =
  ap_state :: quota_state
  ap_appliedDelta :: int
  ap_capped :: bool

record token_result =
  tr_state :: quota_state
  tr_counter :: token_counter
  tr_appliedDelta :: int
  tr_capped :: bool

record release_result =
  re_state :: quota_state
  re_releasedDelta :: int

definition resolveLimitValueForDimension :: "quota_dimension \<Rightarrow> quota_limits \<Rightarrow> int option" where
  "resolveLimitValueForDimension dm l =
     (case dm of
        Token_budget \<Rightarrow> ql_tokenBudgetLimit l
      | Tool_class \<Rightarrow> ql_toolClassUnitsLimit l
      | Media_storage \<Rightarrow> ql_mediaStorageBytesLimit l
      | Knowledge_storage \<Rightarrow> ql_knowledgeStorageBytesLimit l
      | Active_web_chats \<Rightarrow> ql_activeWebChatsLimit l)"

definition toLimitUpdateInput :: "quota_limits \<Rightarrow> quota_state \<Rightarrow> quota_state" where
  "toLimitUpdateInput l st =
     st\<lparr>qs_tokenBudgetLimit := ql_tokenBudgetLimit l, qs_toolClassUnitsLimit := ql_toolClassUnitsLimit l,
        qs_activeWebChatsLimit := ql_activeWebChatsLimit l,
        qs_mediaStorageBytesLimit := ql_mediaStorageBytesLimit l,
        qs_knowledgeStorageBytesLimit := ql_knowledgeStorageBytesLimit l\<rparr>"

text \<open>A new row: the column defaults and \<open>toLimitCreateInput\<close>.\<close>

definition newQuotaState :: "string \<Rightarrow> string \<Rightarrow> quota_limits \<Rightarrow> int \<Rightarrow> quota_state" where
  "newQuotaState rowId workspaceId l now =
     \<lparr>qs_id = rowId, qs_workspaceId = workspaceId,
      qs_tokenBudgetUsed = 0, qs_tokenBudgetLimit = ql_tokenBudgetLimit l,
      qs_toolClassUnitsUsed = 0, qs_toolClassUnitsLimit = ql_toolClassUnitsLimit l,
      qs_activeWebChatsCurrent = 0, qs_activeWebChatsLimit = ql_activeWebChatsLimit l,
      qs_mediaStorageBytesUsed = 0, qs_mediaStorageBytesLimit = ql_mediaStorageBytesLimit l,
      qs_knowledgeStorageBytesUsed = 0, qs_knowledgeStorageBytesLimit = ql_knowledgeStorageBytesLimit l,
      qs_lastComputedAt = now\<rparr>"

definition addUsage :: "quota_dimension \<Rightarrow> int \<Rightarrow> quota_state \<Rightarrow> quota_state" where
  "addUsage dm delta st =
     (case dm of
        Token_budget \<Rightarrow> st\<lparr>qs_tokenBudgetUsed := qs_tokenBudgetUsed st + delta\<rparr>
      | Tool_class \<Rightarrow> st\<lparr>qs_toolClassUnitsUsed := qs_toolClassUnitsUsed st + delta\<rparr>
      | Media_storage \<Rightarrow> st\<lparr>qs_mediaStorageBytesUsed := qs_mediaStorageBytesUsed st + delta\<rparr>
      | Knowledge_storage \<Rightarrow> st\<lparr>qs_knowledgeStorageBytesUsed := qs_knowledgeStorageBytesUsed st + delta\<rparr>
      | Active_web_chats \<Rightarrow> st)"

definition appendEvent :: "usage_event \<Rightarrow> quota_data \<Rightarrow> quota_data" where
  "appendEvent e d = d\<lparr>usageEvents := usageEvents d @ [e]\<rparr>"

definition eventFor :: "usage_input \<Rightarrow> quota_dimension \<Rightarrow> int \<Rightarrow> json option \<Rightarrow> usage_event" where
  "eventFor i dm delta meta =
     \<lparr>ue_workspaceId = ui_workspaceId i, ue_assistantId = ui_assistantId i, ue_userId = ui_userId i,
      ue_dimension = dm, ue_delta = delta, ue_currentValue = None, ue_source = ui_source i,
      ue_metadata = meta, ue_limitValue = resolveLimitValueForDimension dm (ui_limits i)\<rparr>"

definition putState :: "quota_state \<Rightarrow> quota_data \<Rightarrow> quota_data" where
  "putState st d = d\<lparr>stateTable := (stateTable d)(qs_workspaceId st \<mapsto> st)\<rparr>"

definition findByWorkspaceId :: "string \<Rightarrow> (quota_data database, quota_state option) oper" where
  "findByWorkspaceId w = tx (\<lambda>now d. (Inr (stateTable d w), d))"

definition findTokenBudgetPeriodCounter ::
  "string \<Rightarrow> int \<Rightarrow> int \<Rightarrow> (quota_data database, token_counter option) oper" where
  "findTokenBudgetPeriodCounter w startedAt endsAt = tx (\<lambda>now d. (Inr (periodTable d (w, startedAt, endsAt)), d))"

text \<open>
  \<open>lockOrCreate...\<close>: the row, or a new one. When another transaction inserted it first, the
  insert fails with P2002; the lock query in the \<open>catch\<close> block then runs in a transaction that
  Postgres has aborted and throws.
\<close>

definition lockQuotaStateRow :: "bool \<Rightarrow> string \<Rightarrow> (quota_data, quota_state option) oper" where
  "lockQuotaStateRow aborted w d = (if aborted then (Inl abortedTransaction, d) else (Inr (stateTable d w), d))"

definition lockOrCreateQuotaStateRow :: "bool \<Rightarrow> string \<Rightarrow> quota_limits \<Rightarrow> int \<Rightarrow> (quota_data, quota_state) oper" where
  "lockOrCreateQuotaStateRow raced w l now =
     bindS (lockQuotaStateRow False w) (\<lambda>existing.
       case existing of
         Some st \<Rightarrow> returnS st
       | None \<Rightarrow>
           catchS
             (\<lambda>d. if raced then (Inl uniqueViolation, d)
                  else (let st = newQuotaState (stateIdOf d w) w l now in (Inr st, putState st d)))
             (\<lambda>e. if e = uniqueViolation
                  then bindS (lockQuotaStateRow True w) (\<lambda>raced.
                         case raced of Some st \<Rightarrow> returnS st | None \<Rightarrow> throwS e)
                  else throwS e))"

definition lockTokenBudgetPeriodCounterRow ::
  "bool \<Rightarrow> string \<Rightarrow> int \<Rightarrow> int \<Rightarrow> (quota_data, token_counter option) oper" where
  "lockTokenBudgetPeriodCounterRow aborted w startedAt endsAt d =
     (if aborted then (Inl abortedTransaction, d) else (Inr (periodTable d (w, startedAt, endsAt)), d))"

definition lockOrCreateTokenBudgetPeriodCounterRow ::
  "bool \<Rightarrow> usage_input \<Rightarrow> int \<Rightarrow> int \<Rightarrow> int \<Rightarrow> (quota_data, token_counter) oper" where
  "lockOrCreateTokenBudgetPeriodCounterRow raced i startedAt endsAt now =
     bindS (lockTokenBudgetPeriodCounterRow False (ui_workspaceId i) startedAt endsAt) (\<lambda>existing.
       case existing of
         Some c \<Rightarrow> returnS c
       | None \<Rightarrow>
           catchS
             (\<lambda>d. if raced then (Inl uniqueViolation, d)
                  else (let c = \<lparr>tc_workspaceId = ui_workspaceId i, tc_periodStartedAt = startedAt,
                                 tc_periodEndsAt = endsAt, tc_usedCredits = 0,
                                 tc_limitCredits = ql_tokenBudgetLimit (ui_limits i), tc_lastComputedAt = now\<rparr>
                        in (Inr c, d\<lparr>periodTable := (periodTable d)((ui_workspaceId i, startedAt, endsAt) \<mapsto> c)\<rparr>)))
             (\<lambda>e. if e = uniqueViolation
                  then bindS (lockTokenBudgetPeriodCounterRow True (ui_workspaceId i) startedAt endsAt) (\<lambda>raced.
                         case raced of Some c \<Rightarrow> returnS c | None \<Rightarrow> throwS e)
                  else throwS e))"

text \<open>The delta cut down to what remains under the limit.\<close>

definition appliedDeltaOf :: "int option \<Rightarrow> int \<Rightarrow> int \<Rightarrow> int" where
  "appliedDeltaOf limit used delta =
     (let remaining = map_option (\<lambda>l. l - used) limit;
          normalizedRemaining = map_option (\<lambda>r. if r > 0 then r else 0) remaining
      in case normalizedRemaining of
           None \<Rightarrow> delta
         | Some r \<Rightarrow> if delta < r then delta else r)"

definition releasedDeltaOf :: "int \<Rightarrow> int \<Rightarrow> int" where
  "releasedDeltaOf used delta = (if delta \<le> 0 then 0 else if delta < used then delta else used)"

text \<open>\<open>update({ where: { workspaceId } })\<close>\<close>

definition updateState :: "string \<Rightarrow> (quota_state \<Rightarrow> quota_state) \<Rightarrow> (quota_data, quota_state) oper" where
  "updateState w f d =
     (case stateTable d w of
        None \<Rightarrow> (Inl recordNotFound, d)
      | Some st \<Rightarrow> (Inr (f st), d\<lparr>stateTable := (stateTable d)(w \<mapsto> f st)\<rparr>))"

definition emit :: "usage_event \<Rightarrow> (quota_data, unit) oper" where
  "emit e d = (Inr (), appendEvent e d)"

definition metadataOf :: "usage_input \<Rightarrow> json option" where
  "metadataOf i = map_option JObj (ui_metadata i)"

definition updatePeriod :: "string \<times> int \<times> int \<Rightarrow> (token_counter \<Rightarrow> token_counter) \<Rightarrow> (quota_data, token_counter) oper" where
  "updatePeriod k f d =
     (case periodTable d k of
        None \<Rightarrow> (Inl recordNotFound, d)
      | Some c \<Rightarrow> (Inr (f c), d\<lparr>periodTable := (periodTable d)(k \<mapsto> f c)\<rparr>))"

text \<open>\<open>{ ...(input.metadata ?? {}), periodStartedAt, periodEndsAt }\<close>\<close>

definition periodMetadata :: "usage_input \<Rightarrow> int \<Rightarrow> int \<Rightarrow> json" where
  "periodMetadata i startedAt endsAt =
     JObj (filter (\<lambda>(k, _). k \<noteq> ''periodStartedAt'' \<and> k \<noteq> ''periodEndsAt'')
             (case ui_metadata i of Some m \<Rightarrow> m | None \<Rightarrow> []) @
           [(''periodStartedAt'', JNum (jsInt startedAt)), (''periodEndsAt'', JNum (jsInt endsAt))])"

section \<open>The operations\<close>

definition incrementUsage :: "usage_input \<Rightarrow> quota_dimension \<Rightarrow> (quota_data database, quota_state) oper" where
  "incrementUsage i dm =
     tx (\<lambda>now d.
       let w = ui_workspaceId i;
           st = (case stateTable d w of
                   Some st \<Rightarrow> (toLimitUpdateInput (ui_limits i) (addUsage dm (ui_delta i) st))\<lparr>qs_lastComputedAt := now\<rparr>
                 | None \<Rightarrow> addUsage dm (ui_delta i) (newQuotaState (stateIdOf d w) w (ui_limits i) now))
       in (Inr st, appendEvent (eventFor i dm (ui_delta i) (metadataOf i))
                     (d\<lparr>stateTable := (stateTable d)(w \<mapsto> st)\<rparr>)))"

definition refreshActiveWebChatsUsage :: "usage_input \<Rightarrow> int \<Rightarrow> (quota_data database, quota_state) oper" where
  "refreshActiveWebChatsUsage i current =
     tx (\<lambda>now d.
       let w = ui_workspaceId i;
           st = (case stateTable d w of
                   Some st \<Rightarrow> (toLimitUpdateInput (ui_limits i) (st\<lparr>qs_activeWebChatsCurrent := current\<rparr>))\<lparr>qs_lastComputedAt := now\<rparr>
                 | None \<Rightarrow> (newQuotaState (stateIdOf d w) w (ui_limits i) now)\<lparr>qs_activeWebChatsCurrent := current\<rparr>)
       in (Inr st, appendEvent ((eventFor i Active_web_chats 0 None)\<lparr>ue_currentValue := Some current\<rparr>)
                     (d\<lparr>stateTable := (stateTable d)(w \<mapsto> st)\<rparr>)))"

text \<open>Races are per row: the period counter's and the workspace state's.\<close>

definition applyTokenBudgetUsageTx ::
  "bool \<times> bool \<Rightarrow> usage_input \<Rightarrow> int \<Rightarrow> int \<Rightarrow> int \<Rightarrow> (quota_data, token_result) oper" where
  "applyTokenBudgetUsageTx raced i startedAt endsAt now =
     bindS (lockOrCreateTokenBudgetPeriodCounterRow (fst raced) i startedAt endsAt now) (\<lambda>existingCounter.
     let appliedDelta = appliedDeltaOf (ql_tokenBudgetLimit (ui_limits i)) (tc_usedCredits existingCounter) (ui_delta i) in
     bindS (updatePeriod (ui_workspaceId i, startedAt, endsAt)
              (\<lambda>c. c\<lparr>tc_usedCredits := tc_usedCredits c + appliedDelta,
                     tc_limitCredits := ql_tokenBudgetLimit (ui_limits i), tc_lastComputedAt := now\<rparr>)) (\<lambda>nextCounter.
     bindS (lockOrCreateQuotaStateRow (snd raced) (ui_workspaceId i) (ui_limits i) now) (\<lambda>_.
     bindS (updateState (ui_workspaceId i)
              (\<lambda>st. (toLimitUpdateInput (ui_limits i) (st\<lparr>qs_tokenBudgetUsed := tc_usedCredits nextCounter\<rparr>))
                      \<lparr>qs_lastComputedAt := now\<rparr>)) (\<lambda>nextState.
     bindS (emit (eventFor i Token_budget appliedDelta (Some (periodMetadata i startedAt endsAt)))) (\<lambda>_.
     returnS \<lparr>tr_state = nextState, tr_counter = nextCounter, tr_appliedDelta = appliedDelta,
              tr_capped = (appliedDelta < ui_delta i)\<rparr>)))))"

definition applyMediaStorageUsageTx :: "bool \<Rightarrow> usage_input \<Rightarrow> int \<Rightarrow> (quota_data, apply_result) oper" where
  "applyMediaStorageUsageTx raced i now =
     bindS (lockOrCreateQuotaStateRow raced (ui_workspaceId i) (ui_limits i) now) (\<lambda>existing.
     let appliedDelta = appliedDeltaOf (ql_mediaStorageBytesLimit (ui_limits i)) (qs_mediaStorageBytesUsed existing) (ui_delta i) in
     bindS (updateState (ui_workspaceId i)
              (\<lambda>st. (toLimitUpdateInput (ui_limits i) (addUsage Media_storage appliedDelta st))\<lparr>qs_lastComputedAt := now\<rparr>)) (\<lambda>nextState.
     bindS (emit (eventFor i Media_storage appliedDelta (metadataOf i))) (\<lambda>_.
     returnS \<lparr>ap_state = nextState, ap_appliedDelta = appliedDelta, ap_capped = (appliedDelta < ui_delta i)\<rparr>)))"

definition applyKnowledgeStorageUsageTx :: "bool \<Rightarrow> usage_input \<Rightarrow> int \<Rightarrow> (quota_data, apply_result) oper" where
  "applyKnowledgeStorageUsageTx raced i now =
     bindS (lockOrCreateQuotaStateRow raced (ui_workspaceId i) (ui_limits i) now) (\<lambda>existing.
     let appliedDelta = appliedDeltaOf (ql_knowledgeStorageBytesLimit (ui_limits i)) (qs_knowledgeStorageBytesUsed existing) (ui_delta i) in
     bindS (updateState (ui_workspaceId i)
              (\<lambda>st. (toLimitUpdateInput (ui_limits i) (addUsage Knowledge_storage appliedDelta st))\<lparr>qs_lastComputedAt := now\<rparr>)) (\<lambda>nextState.
     bindS (emit (eventFor i Knowledge_storage appliedDelta (metadataOf i))) (\<lambda>_.
     returnS \<lparr>ap_state = nextState, ap_appliedDelta = appliedDelta, ap_capped = (appliedDelta < ui_delta i)\<rparr>)))"

definition releaseMediaStorageUsageTx :: "bool \<Rightarrow> usage_input \<Rightarrow> int \<Rightarrow> (quota_data, release_result) oper" where
  "releaseMediaStorageUsageTx raced i now =
     bindS (lockOrCreateQuotaStateRow raced (ui_workspaceId i) (ui_limits i) now) (\<lambda>existing.
     let releasedDelta = releasedDeltaOf (qs_mediaStorageBytesUsed existing) (ui_delta i) in
     bindS (updateState (ui_workspaceId i)
              (\<lambda>st. (toLimitUpdateInput (ui_limits i) (addUsage Media_storage (- releasedDelta) st))\<lparr>qs_lastComputedAt := now\<rparr>)) (\<lambda>nextState.
     bindS (emit (eventFor i Media_storage (- releasedDelta) (metadataOf i))) (\<lambda>_.
     returnS \<lparr>re_state = nextState, re_releasedDelta = releasedDelta\<rparr>)))"

definition releaseKnowledgeStorageUsageTx :: "bool \<Rightarrow> usage_input \<Rightarrow> int \<Rightarrow> (quota_data, release_result) oper" where
  "releaseKnowledgeStorageUsageTx raced i now =
     bindS (lockOrCreateQuotaStateRow raced (ui_workspaceId i) (ui_limits i) now) (\<lambda>existing.
     let releasedDelta = releasedDeltaOf (qs_knowledgeStorageBytesUsed existing) (ui_delta i) in
     bindS (updateState (ui_workspaceId i)
              (\<lambda>st. (toLimitUpdateInput (ui_limits i) (addUsage Knowledge_storage (- releasedDelta) st))\<lparr>qs_lastComputedAt := now\<rparr>)) (\<lambda>nextState.
     bindS (emit (eventFor i Knowledge_storage (- releasedDelta) (metadataOf i))) (\<lambda>_.
     returnS \<lparr>re_state = nextState, re_releasedDelta = releasedDelta\<rparr>)))"

text \<open>The public operations; attempt \<open>k\<close> may conflict or be raced.\<close>

definition applyTokenBudgetUsage ::
  "(nat \<Rightarrow> bool) \<Rightarrow> (nat \<Rightarrow> bool \<times> bool) \<Rightarrow> usage_input \<Rightarrow> int \<Rightarrow> int \<Rightarrow> (quota_data database, token_result) oper" where
  "applyTokenBudgetUsage conflicts raced i startedAt endsAt =
     withTransactionRetry conflicts ''apply token budget usage'' (\<lambda>k. applyTokenBudgetUsageTx (raced k) i startedAt endsAt)"

definition applyMediaStorageUsage ::
  "(nat \<Rightarrow> bool) \<Rightarrow> (nat \<Rightarrow> bool) \<Rightarrow> usage_input \<Rightarrow> (quota_data database, apply_result) oper" where
  "applyMediaStorageUsage conflicts raced i =
     withTransactionRetry conflicts ''apply media storage usage'' (\<lambda>k. applyMediaStorageUsageTx (raced k) i)"

definition applyKnowledgeStorageUsage ::
  "(nat \<Rightarrow> bool) \<Rightarrow> (nat \<Rightarrow> bool) \<Rightarrow> usage_input \<Rightarrow> (quota_data database, apply_result) oper" where
  "applyKnowledgeStorageUsage conflicts raced i =
     withTransactionRetry conflicts ''apply knowledge storage usage'' (\<lambda>k. applyKnowledgeStorageUsageTx (raced k) i)"

definition releaseMediaStorageUsage ::
  "(nat \<Rightarrow> bool) \<Rightarrow> (nat \<Rightarrow> bool) \<Rightarrow> usage_input \<Rightarrow> (quota_data database, release_result) oper" where
  "releaseMediaStorageUsage conflicts raced i =
     withTransactionRetry conflicts ''release media storage usage'' (\<lambda>k. releaseMediaStorageUsageTx (raced k) i)"

definition releaseKnowledgeStorageUsage ::
  "(nat \<Rightarrow> bool) \<Rightarrow> (nat \<Rightarrow> bool) \<Rightarrow> usage_input \<Rightarrow> (quota_data database, release_result) oper" where
  "releaseKnowledgeStorageUsage conflicts raced i =
     withTransactionRetry conflicts ''release knowledge storage usage'' (\<lambda>k. releaseKnowledgeStorageUsageTx (raced k) i)"

section \<open>What the operations do to the usage and to the ledger\<close>

fun usedOf :: "quota_dimension \<Rightarrow> quota_state \<Rightarrow> int" where
  "usedOf Token_budget st = qs_tokenBudgetUsed st"
| "usedOf Tool_class st = qs_toolClassUnitsUsed st"
| "usedOf Active_web_chats st = qs_activeWebChatsCurrent st"
| "usedOf Media_storage st = qs_mediaStorageBytesUsed st"
| "usedOf Knowledge_storage st = qs_knowledgeStorageBytesUsed st"

definition usedAt :: "quota_dimension \<Rightarrow> quota_data \<Rightarrow> string \<Rightarrow> int" where
  "usedAt dm d w = (case stateTable d w of None \<Rightarrow> 0 | Some st \<Rightarrow> usedOf dm st)"

definition creditsAt :: "quota_data \<Rightarrow> string \<times> int \<times> int \<Rightarrow> int" where
  "creditsAt d k = (case periodTable d k of None \<Rightarrow> 0 | Some c \<Rightarrow> tc_usedCredits c)"

definition ledger :: "quota_dimension \<Rightarrow> quota_data \<Rightarrow> string \<Rightarrow> int" where
  "ledger dm d w =
     sum_list (map ue_delta (filter (\<lambda>e. ue_workspaceId e = w \<and> ue_dimension e = dm) (usageEvents d)))"

text \<open>The dimensions whose usage only changes together with an event.\<close>

definition summed :: "quota_dimension set" where
  "summed = {Tool_class, Media_storage, Knowledge_storage}"

text \<open>\<open>booked w dm g d d'\<close>: the usage of \<open>w\<close> in \<open>dm\<close> grew by \<open>g\<close>, one event says so, and no
  other usage, period counter or monthly counter changed.\<close>

definition booked :: "string \<Rightarrow> quota_dimension \<Rightarrow> int \<Rightarrow> quota_data \<Rightarrow> quota_data \<Rightarrow> bool" where
  "booked w dm g d d' \<longleftrightarrow>
     (\<exists>e. usageEvents d' = usageEvents d @ [e] \<and> ue_workspaceId e = w \<and> ue_dimension e = dm \<and> ue_delta e = g) \<and>
     usedAt dm d' = (usedAt dm d)(w := usedAt dm d w + g) \<and>
     (\<forall>b \<in> summed. b \<noteq> dm \<longrightarrow> usedAt b d' = usedAt b d) \<and>
     periodTable d' = periodTable d \<and> monthlyTable d' = monthlyTable d"

lemma usedOf_simps [simp]:
  "usedOf b (toLimitUpdateInput l st) = usedOf b st"
  "usedOf b (st\<lparr>qs_lastComputedAt := t\<rparr>) = usedOf b st"
  "usedOf b (newQuotaState r w l t) = 0"
  "qs_workspaceId (newQuotaState r w l t) = w"
  "b \<noteq> Token_budget \<Longrightarrow> usedOf b (st\<lparr>qs_tokenBudgetUsed := n\<rparr>) = usedOf b st"
  "b \<noteq> Active_web_chats \<Longrightarrow> usedOf b (st\<lparr>qs_activeWebChatsCurrent := n\<rparr>) = usedOf b st"
  by (cases b; simp add: toLimitUpdateInput_def newQuotaState_def)+

lemma usedOf_addUsage [simp]:
  "usedOf b (addUsage dm g st) = (if b = dm \<and> dm \<noteq> Active_web_chats then usedOf b st + g else usedOf b st)"
  by (cases b; cases dm) (simp_all add: addUsage_def)

lemma ledger_append:
  "usageEvents d' = usageEvents d @ [e] \<Longrightarrow>
     ledger dm d' w = ledger dm d w + (if ue_workspaceId e = w \<and> ue_dimension e = dm then ue_delta e else 0)"
  by (simp add: ledger_def)

lemma lockOrCreate_row:
  assumes "lockOrCreateQuotaStateRow raced w l now d = (Inr st, d1)"
  shows "stateTable d1 w = Some st" "usedOf b st = usedAt b d w" "usedAt b d1 = usedAt b d"
    "usageEvents d1 = usageEvents d" "periodTable d1 = periodTable d" "monthlyTable d1 = monthlyTable d"
  using assms
  by (auto simp: lockOrCreateQuotaStateRow_def bindS_def catchS_def lockQuotaStateRow_def 
      putState_def usedAt_def Let_def fun_eq_iff split: option.splits if_splits)

lemma updateState_row:
  assumes "updateState w f d = (Inr st, d1)"
  shows "\<exists>st0. stateTable d w = Some st0 \<and> st = f st0 \<and> d1 = d\<lparr>stateTable := (stateTable d)(w \<mapsto> f st0)\<rparr>"
  using assms by (auto simp: updateState_def split: option.splits)

text \<open>The shape shared by the four storage transactions.\<close>

definition chargeTx ::
  "quota_dimension \<Rightarrow> (int \<Rightarrow> int) \<Rightarrow> (int \<Rightarrow> quota_state \<Rightarrow> 'a) \<Rightarrow> bool \<Rightarrow> usage_input \<Rightarrow> int \<Rightarrow> (quota_data, 'a) oper" where
  "chargeTx dm g answer raced i now =
     bindS (lockOrCreateQuotaStateRow raced (ui_workspaceId i) (ui_limits i) now) (\<lambda>existing.
     bindS (updateState (ui_workspaceId i)
              (\<lambda>st. (toLimitUpdateInput (ui_limits i) (addUsage dm (g (usedOf dm existing)) st))\<lparr>qs_lastComputedAt := now\<rparr>))
       (\<lambda>nextState. bindS (emit (eventFor i dm (g (usedOf dm existing)) (metadataOf i)))
          (\<lambda>_. returnS (answer (g (usedOf dm existing)) nextState))))"

lemma applyMedia_charge:
  "applyMediaStorageUsageTx raced i =
     chargeTx Media_storage (\<lambda>u. appliedDeltaOf (ql_mediaStorageBytesLimit (ui_limits i)) u (ui_delta i))
       (\<lambda>g st. \<lparr>ap_state = st, ap_appliedDelta = g, ap_capped = (g < ui_delta i)\<rparr>) raced i"
  by (simp add: fun_eq_iff applyMediaStorageUsageTx_def chargeTx_def Let_def)

lemma applyKnowledge_charge:
  "applyKnowledgeStorageUsageTx raced i =
     chargeTx Knowledge_storage (\<lambda>u. appliedDeltaOf (ql_knowledgeStorageBytesLimit (ui_limits i)) u (ui_delta i))
       (\<lambda>g st. \<lparr>ap_state = st, ap_appliedDelta = g, ap_capped = (g < ui_delta i)\<rparr>) raced i"
  by (simp add: fun_eq_iff applyKnowledgeStorageUsageTx_def chargeTx_def Let_def)

lemma releaseMedia_charge:
  "releaseMediaStorageUsageTx raced i =
     chargeTx Media_storage (\<lambda>u. - releasedDeltaOf u (ui_delta i))
       (\<lambda>g st. \<lparr>re_state = st, re_releasedDelta = - g\<rparr>) raced i"
  by (simp add: fun_eq_iff releaseMediaStorageUsageTx_def chargeTx_def Let_def)

lemma releaseKnowledge_charge:
  "releaseKnowledgeStorageUsageTx raced i =
     chargeTx Knowledge_storage (\<lambda>u. - releasedDeltaOf u (ui_delta i))
       (\<lambda>g st. \<lparr>re_state = st, re_releasedDelta = - g\<rparr>) raced i"
  by (simp add: fun_eq_iff releaseKnowledgeStorageUsageTx_def chargeTx_def Let_def)

lemmas charge_simps = applyMedia_charge applyKnowledge_charge releaseMedia_charge releaseKnowledge_charge

lemma chargeTx_booked:
  assumes "chargeTx dm g answer raced i now d = (Inr a, d')" "dm \<noteq> Active_web_chats"
  shows "booked (ui_workspaceId i) dm (g (usedAt dm d (ui_workspaceId i))) d d'"
proof -
  let ?w = "ui_workspaceId i" and ?g = "g (usedAt dm d (ui_workspaceId i))"
  obtain st d1 where lock: "lockOrCreateQuotaStateRow raced ?w (ui_limits i) now d = (Inr st, d1)"
    using assms(1) unfolding chargeTx_def bindS_eq_Inr_iff by blast
  note L = lockOrCreate_row [OF lock]
  from assms(1) obtain st2 d2 where
    upd: "updateState ?w (\<lambda>st. (toLimitUpdateInput (ui_limits i) (addUsage dm ?g st))\<lparr>qs_lastComputedAt := now\<rparr>) d1 = (Inr st2, d2)"
    and d': "d' = appendEvent (eventFor i dm ?g (metadataOf i)) d2"
    unfolding chargeTx_def bindS_eq_Inr_iff lock by (auto simp: L(2) emit_def)
  from updateState_row [OF upd] L(1) have d2: "d2 = d1\<lparr>stateTable := (stateTable d1)(?w \<mapsto>
      (toLimitUpdateInput (ui_limits i) (addUsage dm ?g st))\<lparr>qs_lastComputedAt := now\<rparr>)\<rparr>" by auto
  have u: "usedAt b d' = (usedAt b d1)(?w := usedOf b (addUsage dm ?g st))" for b
    by (auto simp: usedAt_def d' d2 appendEvent_def fun_eq_iff)
  have ev: "usageEvents d' = usageEvents d @ [eventFor i dm ?g (metadataOf i)]"
    by (simp add: d' d2 appendEvent_def L(4))
  have "usedAt dm d' = (usedAt dm d)(?w := usedAt dm d ?w + ?g)" using assms(2) by (simp add: u L(2,3))
  moreover have "usedAt b d' = usedAt b d" if "b \<noteq> dm" for b using that by (simp add: u L(2,3))
  moreover have "periodTable d' = periodTable d" "monthlyTable d' = monthlyTable d"
    by (simp_all add: d' d2 appendEvent_def L(5,6))
  ultimately show ?thesis using ev by (auto simp: booked_def eventFor_def)
qed

lemma lockOrCreate_period:
  assumes "lockOrCreateTokenBudgetPeriodCounterRow raced i a b now d = (Inr c, d1)"
  shows "periodTable d1 (ui_workspaceId i, a, b) = Some c" "tc_usedCredits c = creditsAt d (ui_workspaceId i, a, b)"
    "creditsAt d1 = creditsAt d" "usageEvents d1 = usageEvents d" "stateTable d1 = stateTable d"
    "monthlyTable d1 = monthlyTable d"
proof -
  have "periodTable d1 (ui_workspaceId i, a, b) = Some c \<and> tc_usedCredits c = creditsAt d (ui_workspaceId i, a, b) \<and>
    (\<forall>k. creditsAt d1 k = creditsAt d k) \<and> usageEvents d1 = usageEvents d \<and> stateTable d1 = stateTable d \<and>
    monthlyTable d1 = monthlyTable d"
    using assms
    by (auto simp: lockOrCreateTokenBudgetPeriodCounterRow_def bindS_def catchS_def
        lockTokenBudgetPeriodCounterRow_def  creditsAt_def Let_def split: option.splits if_splits)
  then show "periodTable d1 (ui_workspaceId i, a, b) = Some c" "tc_usedCredits c = creditsAt d (ui_workspaceId i, a, b)"
    "creditsAt d1 = creditsAt d" "usageEvents d1 = usageEvents d" "stateTable d1 = stateTable d"
    "monthlyTable d1 = monthlyTable d"
    by (simp_all add: fun_eq_iff)
qed

lemma updatePeriod_row:
  assumes "updatePeriod k f d = (Inr c, d1)"
  shows "\<exists>c0. periodTable d k = Some c0 \<and> c = f c0 \<and> d1 = d\<lparr>periodTable := (periodTable d)(k \<mapsto> f c0)\<rparr>"
  using assms by (auto simp: updatePeriod_def split: option.splits)

text \<open>\<open>spentTokens w a b g d d'\<close>: the period counter grew by \<open>g\<close>, the workspace state shows its
  value, one event says \<open>g\<close>; no other counter or usage changed.\<close>

definition spentTokens :: "string \<Rightarrow> int \<Rightarrow> int \<Rightarrow> int \<Rightarrow> quota_data \<Rightarrow> quota_data \<Rightarrow> bool" where
  "spentTokens w a b g d d' \<longleftrightarrow>
     (\<exists>e. usageEvents d' = usageEvents d @ [e] \<and> ue_workspaceId e = w \<and> ue_dimension e = Token_budget \<and> ue_delta e = g) \<and>
     creditsAt d' = (creditsAt d)((w, a, b) := creditsAt d (w, a, b) + g) \<and>
     usedAt Token_budget d' = (usedAt Token_budget d)(w := creditsAt d (w, a, b) + g) \<and>
     (\<forall>dm \<in> summed. usedAt dm d' = usedAt dm d) \<and> monthlyTable d' = monthlyTable d"

lemma applyToken_spent:
  assumes "applyTokenBudgetUsageTx raced i a b now d = (Inr res, d')"
  defines "g \<equiv> appliedDeltaOf (ql_tokenBudgetLimit (ui_limits i)) (creditsAt d (ui_workspaceId i, a, b)) (ui_delta i)"
  shows "spentTokens (ui_workspaceId i) a b g d d'"
    and "tr_appliedDelta res = g" and "tr_capped res = (g < ui_delta i)"
    and "periodTable d' (ui_workspaceId i, a, b) = Some (tr_counter res)"
    and "stateTable d' (ui_workspaceId i) = Some (tr_state res)"
proof -
  let ?w = "ui_workspaceId i" and ?k = "(ui_workspaceId i, a, b)"
  obtain c d1 where lock: "lockOrCreateTokenBudgetPeriodCounterRow (fst raced) i a b now d = (Inr c, d1)"
    using assms(1) unfolding applyTokenBudgetUsageTx_def bindS_eq_Inr_iff by blast
  note C = lockOrCreate_period [OF lock]
  have gc: "appliedDeltaOf (ql_tokenBudgetLimit (ui_limits i)) (tc_usedCredits c) (ui_delta i) = g"
    by (simp add: g_def C(2))
  let ?f = "\<lambda>c. c\<lparr>tc_usedCredits := tc_usedCredits c + g, tc_limitCredits := ql_tokenBudgetLimit (ui_limits i),
      tc_lastComputedAt := now\<rparr>"
  from assms(1) obtain c2 d2 st d3 where
    up: "updatePeriod ?k ?f d1 = (Inr c2, d2)" and
    ls: "lockOrCreateQuotaStateRow (snd raced) ?w (ui_limits i) now d2 = (Inr st, d3)"
    unfolding applyTokenBudgetUsageTx_def bindS_eq_Inr_iff lock Let_def by (auto simp: gc)
  let ?h = "\<lambda>st. (toLimitUpdateInput (ui_limits i) (st\<lparr>qs_tokenBudgetUsed := tc_usedCredits c2\<rparr>))\<lparr>qs_lastComputedAt := now\<rparr>"
  from assms(1) obtain st2 d4 where
    us: "updateState ?w ?h d3 = (Inr st2, d4)" and
    d': "d' = appendEvent (eventFor i Token_budget g (Some (periodMetadata i a b))) d4" and
    res: "res = \<lparr>tr_state = st2, tr_counter = c2, tr_appliedDelta = g, tr_capped = (g < ui_delta i)\<rparr>"
    unfolding applyTokenBudgetUsageTx_def bindS_eq_Inr_iff lock Let_def
    by (auto simp: gc up ls emit_def)
  note S = lockOrCreate_row [OF ls]
  from updatePeriod_row [OF up] C(1) have d2: "c2 = ?f c" "d2 = d1\<lparr>periodTable := (periodTable d1)(?k \<mapsto> ?f c)\<rparr>" by auto
  from updateState_row [OF us] S(1) have d4: "st2 = ?h st" "d4 = d3\<lparr>stateTable := (stateTable d3)(?w \<mapsto> ?h st)\<rparr>" by auto
  have ev: "usageEvents d' = usageEvents d @ [eventFor i Token_budget g (Some (periodMetadata i a b))]"
    by (simp add: d' d4 appendEvent_def S(4) d2 C(4))
  have pt: "periodTable d' = (periodTable d1)(?k \<mapsto> ?f c)" by (simp add: d' d4 appendEvent_def S(5) d2)
  have used2: "usedAt dm d2 = usedAt dm d" for dm by (simp add: usedAt_def d2 C(5) fun_eq_iff)
  have st': "stateTable d' = (stateTable d3)(?w \<mapsto> ?h st)" by (simp add: d' d4 appendEvent_def)
  have used: "usedAt dm d' = (usedAt dm d3)(?w := usedOf dm (?h st))" for dm
    by (auto simp: usedAt_def st' fun_eq_iff)
  have "creditsAt d' = (creditsAt d1)(?k := tc_usedCredits c + g)" by (auto simp: creditsAt_def pt fun_eq_iff)
  then have cr: "creditsAt d' = (creditsAt d)(?k := creditsAt d ?k + g)" by (simp add: C(2,3))
  have tk: "usedAt Token_budget d' = (usedAt Token_budget d)(?w := creditsAt d ?k + g)"
    by (simp add: used S(3) used2 d2(1) C(2) toLimitUpdateInput_def)
  have other: "usedAt dm d' = usedAt dm d" if "dm \<in> summed" for dm
  proof -
    have "dm \<noteq> Token_budget" using that by (auto simp: summed_def)
    then have "usedOf dm (?h st) = usedAt dm d ?w" using S(2) [of dm] by (simp add: used2)
    then show ?thesis by (simp add: used S(3) used2)
  qed
  have "monthlyTable d' = monthlyTable d" by (simp add: d' d4 appendEvent_def S(6) d2 C(6))
  then show "spentTokens ?w a b g d d'"
    using ev cr tk other by (auto simp: spentTokens_def eventFor_def)
  show "tr_appliedDelta res = g" "tr_capped res = (g < ui_delta i)" by (simp_all add: res)
  show "periodTable d' ?k = Some (tr_counter res)" by (simp add: pt res d2(1))
  show "stateTable d' ?w = Some (tr_state res)" by (simp add: st' res d4(1))
qed

lemma increment_booked:
  assumes "incrementUsage i dm s = (r, t)" "dm \<noteq> Active_web_chats"
  shows "isl r \<and> dbData t = dbData s \<or> booked (ui_workspaceId i) dm (ui_delta i) (dbData s) (dbData t)"
  using assms(1) unfolding incrementUsage_def
proof (cases rule: tx_cases)
  case (committed a)
  then have "dbData t = appendEvent (eventFor i dm (ui_delta i) (metadataOf i))
      ((dbData s)\<lparr>stateTable := (stateTable (dbData s))(ui_workspaceId i \<mapsto> a)\<rparr>)"
    and a: "\<And>b. usedOf b a = (if b = dm then usedAt b (dbData s) (ui_workspaceId i) + ui_delta i
                    else usedAt b (dbData s) (ui_workspaceId i))"
    using assms(2) by (auto simp: Let_def usedAt_def split: option.splits)
  then show ?thesis
    by (auto simp: booked_def appendEvent_def eventFor_def usedAt_def fun_eq_iff split: option.splits)
qed simp

lemma upsertChats_frame:
  assumes "dm \<in> summed" "\<And>b. b \<noteq> Active_web_chats \<Longrightarrow> usedOf b a = usedAt b d w"
    "d' = appendEvent e (d\<lparr>stateTable := (stateTable d)(w \<mapsto> a)\<rparr>)" "ue_dimension e = Active_web_chats"
  shows "usedAt dm d' = usedAt dm d" "ledger dm d' = ledger dm d" "periodTable d' = periodTable d" "monthlyTable d' = monthlyTable d"
  using assms by (auto simp: usedAt_def fun_eq_iff appendEvent_def ledger_def summed_def)

lemma refresh_frame:
  assumes "refreshActiveWebChatsUsage i n s = (r, t)" "dm \<in> summed"
  shows "usedAt dm (dbData t) = usedAt dm (dbData s) \<and> ledger dm (dbData t) = ledger dm (dbData s) \<and>
    periodTable (dbData t) = periodTable (dbData s) \<and> monthlyTable (dbData t) = monthlyTable (dbData s)"
  using assms(1) unfolding refreshActiveWebChatsUsage_def
proof (cases rule: tx_cases)
  case (committed a)
  then have d: "dbData t = appendEvent ((eventFor i Active_web_chats 0 None)\<lparr>ue_currentValue := Some n\<rparr>)
      ((dbData s)\<lparr>stateTable := (stateTable (dbData s))(ui_workspaceId i \<mapsto> a)\<rparr>)"
    and a: "\<And>b. b \<noteq> Active_web_chats \<Longrightarrow> usedOf b a = usedAt b (dbData s) (ui_workspaceId i)"
    by (auto simp: Let_def usedAt_def split: option.splits)
  from upsertChats_frame [OF assms(2) a d] show ?thesis by (simp add: eventFor_def)
qed simp

lemma increment_chats_frame:
  assumes "incrementUsage i Active_web_chats s = (r, t)" "dm \<in> summed"
  shows "usedAt dm (dbData t) = usedAt dm (dbData s) \<and> ledger dm (dbData t) = ledger dm (dbData s) \<and>
    periodTable (dbData t) = periodTable (dbData s) \<and> monthlyTable (dbData t) = monthlyTable (dbData s)"
  using assms(1) unfolding incrementUsage_def
proof (cases rule: tx_cases)
  case (committed a)
  then have d: "dbData t = appendEvent (eventFor i Active_web_chats (ui_delta i) (metadataOf i))
      ((dbData s)\<lparr>stateTable := (stateTable (dbData s))(ui_workspaceId i \<mapsto> a)\<rparr>)"
    and a: "\<And>b. b \<noteq> Active_web_chats \<Longrightarrow> usedOf b a = usedAt b (dbData s) (ui_workspaceId i)"
    by (auto simp: Let_def usedAt_def split: option.splits)
  from upsertChats_frame [OF assms(2) a d] show ?thesis by (simp add: eventFor_def)
qed simp

section \<open>The ledger\<close>

datatype usage_op =
    Increment quota_dimension
  | Refresh_chats int
  | Apply_tokens int int
  | Apply_media
  | Apply_knowledge
  | Release_media
  | Release_knowledge

definition usageOp ::
  "usage_op \<Rightarrow> (nat \<Rightarrow> bool) \<Rightarrow> (nat \<Rightarrow> bool \<times> bool) \<Rightarrow> usage_input \<Rightarrow> (quota_data database, unit) oper" where
  "usageOp op c raced i =
     (case op of
        Increment dm \<Rightarrow> quietly (incrementUsage i dm)
      | Refresh_chats n \<Rightarrow> quietly (refreshActiveWebChatsUsage i n)
      | Apply_tokens a b \<Rightarrow> quietly (applyTokenBudgetUsage c raced i a b)
      | Apply_media \<Rightarrow> quietly (applyMediaStorageUsage c (fst \<circ> raced) i)
      | Apply_knowledge \<Rightarrow> quietly (applyKnowledgeStorageUsage c (fst \<circ> raced) i)
      | Release_media \<Rightarrow> quietly (releaseMediaStorageUsage c (fst \<circ> raced) i)
      | Release_knowledge \<Rightarrow> quietly (releaseKnowledgeStorageUsage c (fst \<circ> raced) i))"

text \<open>What an operation books: the dimension and the amount, from the usage before it.\<close>

fun bookedBy :: "usage_op \<Rightarrow> usage_input \<Rightarrow> quota_data \<Rightarrow> (quota_dimension \<times> int) option" where
  "bookedBy (Increment dm) i d = (if dm = Active_web_chats then None else Some (dm, ui_delta i))"
| "bookedBy (Refresh_chats n) i d = None"
| "bookedBy (Apply_tokens a b) i d = None"
| "bookedBy Apply_media i d = Some (Media_storage,
     appliedDeltaOf (ql_mediaStorageBytesLimit (ui_limits i)) (usedAt Media_storage d (ui_workspaceId i)) (ui_delta i))"
| "bookedBy Apply_knowledge i d = Some (Knowledge_storage,
     appliedDeltaOf (ql_knowledgeStorageBytesLimit (ui_limits i)) (usedAt Knowledge_storage d (ui_workspaceId i)) (ui_delta i))"
| "bookedBy Release_media i d = Some (Media_storage,
     - releasedDeltaOf (usedAt Media_storage d (ui_workspaceId i)) (ui_delta i))"
| "bookedBy Release_knowledge i d = Some (Knowledge_storage,
     - releasedDeltaOf (usedAt Knowledge_storage d (ui_workspaceId i)) (ui_delta i))"

lemma charge_retried:
  assumes "withTransactionRetry c label (\<lambda>k. chargeTx dm g answer (raced k) i) s = (r, t)" "dm \<noteq> Active_web_chats"
  shows "isl r \<and> dbData t = dbData s \<or>
    booked (ui_workspaceId i) dm (g (usedAt dm (dbData s) (ui_workspaceId i))) (dbData s) (dbData t)"
  by (rule retried_effect [OF transaction_retried [OF assms(1)]]) (rule chargeTx_booked [OF _ assms(2)])

lemma usage_books:
  assumes "usageOp op c raced i s = (r, t)" "bookedBy op i (dbData s) = Some (dm, g)"
  shows "isl r \<and> dbData t = dbData s \<or> booked (ui_workspaceId i) dm g (dbData s) (dbData t)"
proof -
  have q: "isl r0 \<and> dbData t = dbData s \<or> B \<Longrightarrow> isl r0 = isl r \<Longrightarrow> isl r \<and> dbData t = dbData s \<or> B" for r0 :: "js_error + 'z" and B
    by auto
  show ?thesis
  proof (cases op)
    case (Increment b)
    with assms obtain r0 where "incrementUsage i dm s = (r0, t)" "isl r0 = isl r" "b = dm" "g = ui_delta i" "dm \<noteq> Active_web_chats"
      using quietly_result by (fastforce simp: usageOp_def split: if_splits)
    with increment_booked show ?thesis by metis
  next
    case Apply_media
    with assms obtain r0 where m: "applyMediaStorageUsage c (fst \<circ> raced) i s = (r0, t)" "isl r0 = isl r"
      using quietly_result by (fastforce simp: usageOp_def)
    from charge_retried [OF m(1) [unfolded applyMediaStorageUsage_def charge_simps]] m(2) Apply_media assms(2)
    show ?thesis by simp
  next
    case Apply_knowledge
    with assms obtain r0 where m: "applyKnowledgeStorageUsage c (fst \<circ> raced) i s = (r0, t)" "isl r0 = isl r"
      using quietly_result by (fastforce simp: usageOp_def)
    from charge_retried [OF m(1) [unfolded applyKnowledgeStorageUsage_def charge_simps]] m(2) Apply_knowledge assms(2)
    show ?thesis by simp
  next
    case Release_media
    with assms obtain r0 where m: "releaseMediaStorageUsage c (fst \<circ> raced) i s = (r0, t)" "isl r0 = isl r"
      using quietly_result by (fastforce simp: usageOp_def)
    from charge_retried [OF m(1) [unfolded releaseMediaStorageUsage_def charge_simps]] m(2) Release_media assms(2)
    show ?thesis by simp
  next
    case Release_knowledge
    with assms obtain r0 where m: "releaseKnowledgeStorageUsage c (fst \<circ> raced) i s = (r0, t)" "isl r0 = isl r"
      using quietly_result by (fastforce simp: usageOp_def)
    from charge_retried [OF m(1) [unfolded releaseKnowledgeStorageUsage_def charge_simps]] m(2) Release_knowledge assms(2)
    show ?thesis by simp
  qed (use assms in simp_all)
qed

lemma tokens_spent:
  assumes "usageOp (Apply_tokens a b) c raced i s = (r, t)"
  shows "isl r \<and> dbData t = dbData s \<or>
    spentTokens (ui_workspaceId i) a b
      (appliedDeltaOf (ql_tokenBudgetLimit (ui_limits i)) (creditsAt (dbData s) (ui_workspaceId i, a, b)) (ui_delta i))
      (dbData s) (dbData t)"
proof -
  from assms obtain r0 where m: "applyTokenBudgetUsage c raced i a b s = (r0, t)" "isl r0 = isl r"
    using quietly_result by (fastforce simp: usageOp_def)
  let ?g = "appliedDeltaOf (ql_tokenBudgetLimit (ui_limits i)) (creditsAt (dbData s) (ui_workspaceId i, a, b)) (ui_delta i)"
  have "isl r0 \<and> dbData t = dbData s \<or> spentTokens (ui_workspaceId i) a b ?g (dbData s) (dbData t)"
    by (rule retried_effect [OF transaction_retried [OF m(1) [unfolded applyTokenBudgetUsage_def]]])
      (rule applyToken_spent(1))
  with m(2) show ?thesis by simp
qed

lemma chats_frame:
  assumes "usageOp op c raced i s = (r, t)" "op = Refresh_chats n \<or> op = Increment Active_web_chats" "dm \<in> summed"
  shows "usedAt dm (dbData t) = usedAt dm (dbData s) \<and> ledger dm (dbData t) = ledger dm (dbData s) \<and>
    periodTable (dbData t) = periodTable (dbData s) \<and> monthlyTable (dbData t) = monthlyTable (dbData s)"
proof -
  from assms(1,2) obtain r0 where "refreshActiveWebChatsUsage i n s = (r0, t) \<or>
      (\<exists>q. incrementUsage i Active_web_chats s = (q, t))"
    using quietly_result by (fastforce simp: usageOp_def)
  with refresh_frame increment_chats_frame assms(3) show ?thesis by metis
qed

lemma booked_ledger:
  assumes "booked w b g d d'" "dm \<in> summed" "usedAt dm d = ledger dm d"
  shows "usedAt dm d' = ledger dm d'"
proof -
  from assms(1) obtain e where e: "usageEvents d' = usageEvents d @ [e]" "ue_workspaceId e = w" "ue_dimension e = b" "ue_delta e = g"
    by (auto simp: booked_def)
  show ?thesis
  proof (cases "dm = b")
    case True
    with assms(1,3) show ?thesis by (auto simp: booked_def fun_eq_iff ledger_append [OF e(1)] e)
  next
    case False
    with assms show ?thesis by (auto simp: booked_def fun_eq_iff ledger_append [OF e(1)] e)
  qed
qed

lemma spent_ledger:
  assumes "spentTokens w a b g d d'" "dm \<in> summed" "usedAt dm d = ledger dm d"
  shows "usedAt dm d' = ledger dm d'"
proof -
  from assms(1) obtain e where e: "usageEvents d' = usageEvents d @ [e]" "ue_dimension e = Token_budget"
    by (auto simp: spentTokens_def)
  have "dm \<noteq> Token_budget" using assms(2) by (auto simp: summed_def)
  with assms e show ?thesis by (auto simp: spentTokens_def fun_eq_iff ledger_append [OF e(1)])
qed

lemma usage_ledger:
  assumes "usageOp op c raced i s = (r, t)" "dm \<in> summed" "usedAt dm (dbData s) = ledger dm (dbData s)"
  shows "usedAt dm (dbData t) = ledger dm (dbData t)"
proof (cases "bookedBy op i (dbData s)")
  case (Some p)
  then obtain b g where "bookedBy op i (dbData s) = Some (b, g)" by (cases p) auto
  from usage_books [OF assms(1) this] assms(2,3) booked_ledger show ?thesis by metis
next
  case None
  then consider n where "op = Refresh_chats n" | "op = Increment Active_web_chats" | a b where "op = Apply_tokens a b"
    by (cases op) (auto split: if_splits)
  then show ?thesis
  proof cases
    case (3 a b)
    from tokens_spent [OF assms(1) [unfolded 3]] assms(2,3) spent_ledger show ?thesis by metis
  qed (use chats_frame [OF assms(1) _ assms(2)] assms(3) in metis)+
qed

text \<open>Any history of the workspaces' usage, next to the monthly counters and the clock.\<close>

inductive usage_history :: "quota_data database \<Rightarrow> quota_data database \<Rightarrow> bool" for s0 where
  start: "usage_history s0 s0"
| operation: "usage_history s0 s \<Longrightarrow> usageOp op c raced i s = (r, t) \<Longrightarrow> usage_history s0 t"
| elsewhere: "usage_history s0 s \<Longrightarrow> stateTable (dbData t) = stateTable (dbData s) \<Longrightarrow>
    usageEvents (dbData t) = usageEvents (dbData s) \<Longrightarrow> usage_history s0 t"

text \<open>C19: The ledger explains the usage. Over any history of usage operations, with conflicts,
  races, retries, failures and lost replies, the media bytes, knowledge bytes and tool-class units
  of every workspace are exactly the sum of the deltas of its usage events: nothing is booked
  without an event, and no retry books twice.\<close>

theorem usage_is_ledger_sum:
  assumes "usage_history s0 s" "dbData s0 = emptyQuota" "dm \<in> summed"
  shows "usedAt dm (dbData s) w = ledger dm (dbData s) w"
proof -
  have "usedAt dm (dbData s) = ledger dm (dbData s)"
    using assms(1)
  proof induction
    case start
    show ?case using assms(2) by (simp add: fun_eq_iff usedAt_def ledger_def emptyQuota_def)
  next
    case (operation s op c raced i r t)
    then show ?case by (intro usage_ledger [OF operation(2) assms(3)])
  next
    case (elsewhere s t)
    then show ?case by (simp add: usedAt_def ledger_def fun_eq_iff)
  qed
  then show ?thesis by simp
qed

definition demoLimits :: quota_limits where
  "demoLimits = \<lparr>ql_tokenBudgetLimit = Some 100, ql_toolClassUnitsLimit = None, ql_activeWebChatsLimit = Some 3,
     ql_mediaStorageBytesLimit = Some 50, ql_knowledgeStorageBytesLimit = None,
     ql_workspaceStorageBytesLimit = None, ql_sharedStorageBytesLimit = None\<rparr>"

definition demoUsage :: "int \<Rightarrow> usage_input" where
  "demoUsage n = \<lparr>ui_workspaceId = ''w'', ui_assistantId = None, ui_userId = None, ui_delta = n,
     ui_source = ''turn'', ui_metadata = None, ui_limits = demoLimits\<rparr>"

abbreviation demoMedia :: "quota_data database" where
  "demoMedia \<equiv> snd (usageOp Apply_media (\<lambda>k. k = 0) (\<lambda>_. (False, False)) (demoUsage 70) emptyQuotaDb)"

lemmas usage_eval = usageOp_def quietly_def withTransactionRetry_def retryLoop.simps attemptTx_def tx_def transactionS_def
  bindS_def catchS_def lockOrCreateQuotaStateRow_def lockQuotaStateRow_def putState_def updateState_def emit_def
  appendEvent_def eventFor_def newQuotaState_def toLimitUpdateInput_def addUsage_def metadataOf_def Let_def
  resolveLimitValueForDimension_def appliedDeltaOf_def emptyQuotaDb_def emptyQuota_def demoUsage_def demoLimits_def

theorem usage_is_ledger_sum_witness:
  "usedAt Media_storage (dbData demoMedia) ''w'' = ledger Media_storage (dbData demoMedia) ''w'' \<and>
   usedAt Media_storage (dbData demoMedia) ''w'' = 50"
proof
  have "usage_history emptyQuotaDb demoMedia" by (rule usage_history.operation [OF usage_history.start prod.collapse [symmetric]])
  then show "usedAt Media_storage (dbData demoMedia) ''w'' = ledger Media_storage (dbData demoMedia) ''w''"
    by (rule usage_is_ledger_sum) (simp_all add: emptyQuotaDb_def summed_def)
  show "usedAt Media_storage (dbData demoMedia) ''w'' = 50"
    by (simp add: usage_eval applyMediaStorageUsage_def applyMediaStorageUsageTx_def usedAt_def)
qed

section \<open>The limits\<close>

datatype usage_key = MediaBytes string | KnowledgeBytes string | PeriodCredits string int int

fun amountAt :: "quota_data \<Rightarrow> usage_key \<Rightarrow> int" where
  "amountAt d (MediaBytes w) = usedAt Media_storage d w"
| "amountAt d (KnowledgeBytes w) = usedAt Knowledge_storage d w"
| "amountAt d (PeriodCredits w a b) = creditsAt d (w, a, b)"

fun limitOf :: "usage_key \<Rightarrow> usage_input \<Rightarrow> int option" where
  "limitOf (MediaBytes w) i = ql_mediaStorageBytesLimit (ui_limits i)"
| "limitOf (KnowledgeBytes w) i = ql_knowledgeStorageBytesLimit (ui_limits i)"
| "limitOf (PeriodCredits w a b) i = ql_tokenBudgetLimit (ui_limits i)"

fun workspaceOf :: "usage_key \<Rightarrow> string" where
  "workspaceOf (MediaBytes w) = w"
| "workspaceOf (KnowledgeBytes w) = w"
| "workspaceOf (PeriodCredits w a b) = w"

fun spendOp :: "usage_key \<Rightarrow> usage_op" where
  "spendOp (MediaBytes w) = Apply_media"
| "spendOp (KnowledgeBytes w) = Apply_knowledge"
| "spendOp (PeriodCredits w a b) = Apply_tokens a b"

fun refundOp :: "usage_key \<Rightarrow> usage_op option" where
  "refundOp (MediaBytes w) = Some Release_media"
| "refundOp (KnowledgeBytes w) = Some Release_knowledge"
| "refundOp (PeriodCredits w a b) = None"

definition usageSpend :: "usage_key \<Rightarrow> int \<Rightarrow> int option \<Rightarrow> quota_data database \<Rightarrow> quota_data database \<Rightarrow> bool" where
  "usageSpend k n limit s t \<longleftrightarrow>
     (\<exists>c raced i r. usageOp (spendOp k) c raced i s = (r, t) \<and> ui_workspaceId i = workspaceOf k \<and>
        ui_delta i = n \<and> limitOf k i = limit)"

definition usageRefund :: "usage_key \<Rightarrow> int \<Rightarrow> quota_data database \<Rightarrow> quota_data database \<Rightarrow> bool" where
  "usageRefund k n s t \<longleftrightarrow>
     (\<exists>op c raced i r. refundOp k = Some op \<and> usageOp op c raced i s = (r, t) \<and>
        ui_workspaceId i = workspaceOf k \<and> ui_delta i = n)"

text \<open>Everything else: chats, monthly counters, the clock, and usage of other dimensions.\<close>

definition usageEnv :: "quota_data database \<Rightarrow> quota_data database \<Rightarrow> bool" where
  "usageEnv s t \<longleftrightarrow>
     (\<exists>op c raced i r n. usageOp op c raced i s = (r, t) \<and>
        op \<in> {Refresh_chats n, Increment Active_web_chats, Increment Tool_class, Increment Token_budget}) \<or>
     (stateTable (dbData t) = stateTable (dbData s) \<and> periodTable (dbData t) = periodTable (dbData s))"

lemma appliedDelta_bounds:
  "0 \<le> n \<Longrightarrow> 0 \<le> appliedDeltaOf limit u n \<and> appliedDeltaOf limit u n \<le> n \<and>
     (\<forall>c. limit = Some c \<longrightarrow> appliedDeltaOf limit u n = 0 \<or> u + appliedDeltaOf limit u n \<le> c)"
  by (auto simp: appliedDeltaOf_def Let_def split: option.splits)

lemma releasedDelta_bounds:
  "0 \<le> u \<Longrightarrow> 0 \<le> releasedDeltaOf u n \<and> releasedDeltaOf u n \<le> u \<and> releasedDeltaOf u n \<le> max 0 n"
  by (auto simp: releasedDeltaOf_def)

lemma booked_amount:
  assumes "booked w dm g d d'"
  shows "amountAt d' k = amountAt d k +
    (if k = MediaBytes w \<and> dm = Media_storage \<or> k = KnowledgeBytes w \<and> dm = Knowledge_storage then g else 0)"
  using assms by (cases k; cases "dm = Media_storage"; cases "dm = Knowledge_storage")
    (auto simp: booked_def summed_def creditsAt_def fun_eq_iff)

lemma spent_amount:
  assumes "spentTokens w a b g d d'"
  shows "amountAt d' k = amountAt d k + (if k = PeriodCredits w a b then g else 0)"
  using assms by (cases k) (auto simp: spentTokens_def summed_def)

lemma booked_media: "booked w Media_storage g d d' \<Longrightarrow>
    amountAt d' = (amountAt d)(MediaBytes w := usedAt Media_storage d w + g)"
  by (rule ext) (simp add: booked_amount [of w Media_storage] del: amountAt.simps, simp)

lemma booked_knowledge: "booked w Knowledge_storage g d d' \<Longrightarrow>
    amountAt d' = (amountAt d)(KnowledgeBytes w := usedAt Knowledge_storage d w + g)"
  by (rule ext) (simp add: booked_amount [of w Knowledge_storage] del: amountAt.simps, simp)

lemma spent_credits: "spentTokens w a b g d d' \<Longrightarrow>
    amountAt d' = (amountAt d)(PeriodCredits w a b := creditsAt d (w, a, b) + g)"
  by (rule ext) (simp add: spent_amount del: amountAt.simps, simp)

lemma spend_amount:
  assumes "usageOp (spendOp k) c raced i s = (r, t)" "ui_workspaceId i = workspaceOf k"
  shows "amountAt (dbData t) = amountAt (dbData s) \<or>
    amountAt (dbData t) = (amountAt (dbData s))
      (k := amountAt (dbData s) k + appliedDeltaOf (limitOf k i) (amountAt (dbData s) k) (ui_delta i))"
proof (cases k)
  case (PeriodCredits w a b)
  from tokens_spent [OF assms(1) [unfolded PeriodCredits spendOp.simps]] assms(2) PeriodCredits show ?thesis
    by (auto dest: spent_credits)
next
  case (MediaBytes w)
  from usage_books [OF assms(1)] assms(2) MediaBytes show ?thesis by (auto dest: booked_media)
next
  case (KnowledgeBytes w)
  from usage_books [OF assms(1)] assms(2) KnowledgeBytes show ?thesis by (auto dest: booked_knowledge)
qed

lemma refund_amount:
  assumes "refundOp k = Some op" "usageOp op c raced i s = (r, t)" "ui_workspaceId i = workspaceOf k"
  shows "amountAt (dbData t) = amountAt (dbData s) \<or>
    amountAt (dbData t) = (amountAt (dbData s))
      (k := amountAt (dbData s) k - releasedDeltaOf (amountAt (dbData s) k) (ui_delta i))"
proof (cases k)
  case (MediaBytes w)
  with assms(1) have "op = Release_media" by simp
  with usage_books [OF assms(2)] assms(3) MediaBytes show ?thesis by (auto dest: booked_media)
next
  case (KnowledgeBytes w)
  with assms(1) have "op = Release_knowledge" by simp
  with usage_books [OF assms(2)] assms(3) KnowledgeBytes show ?thesis by (auto dest: booked_knowledge)
qed (use assms in simp)

lemma env_amount: "usageEnv s t \<Longrightarrow> amountAt (dbData t) = amountAt (dbData s)"
proof
  fix k assume "usageEnv s t"
  then consider op c raced i r n where "usageOp op c raced i s = (r, t)" "op = Refresh_chats n \<or> op = Increment Active_web_chats"
    | op c raced i r dm where "usageOp op c raced i s = (r, t)" "op = Increment dm" "dm = Tool_class \<or> dm = Token_budget"
    | "stateTable (dbData t) = stateTable (dbData s)" "periodTable (dbData t) = periodTable (dbData s)"
    unfolding usageEnv_def by blast
  then show "amountAt (dbData t) k = amountAt (dbData s) k"
  proof cases
    case 1
    note f = chats_frame [OF 1]
    have "usedAt Media_storage (dbData t) = usedAt Media_storage (dbData s)"
      "usedAt Knowledge_storage (dbData t) = usedAt Knowledge_storage (dbData s)"
      "periodTable (dbData t) = periodTable (dbData s)"
      using f [of Media_storage] f [of Knowledge_storage] by (simp_all add: summed_def)
    then show ?thesis by (cases k) (simp_all add: creditsAt_def)
  next
    case (2 op c raced i r dm)
    then have "bookedBy op i (dbData s) = Some (dm, ui_delta i)" by auto
    from usage_books [OF 2(1) this] 2(3) show ?thesis by (auto simp: booked_amount)
  next
    case 3
    then show ?thesis by (cases k) (simp_all add: usedAt_def creditsAt_def)
  qed
qed

interpretation storage_counter: usage_counter "\<lambda>s. amountAt (dbData s)" usageSpend usageRefund usageEnv
proof
  fix k n limit s t
  assume "usageSpend k n limit s t" "0 \<le> n"
  then show "\<exists>g\<ge>0. g \<le> n \<and> amountAt (dbData t) = (amountAt (dbData s))(k := amountAt (dbData s) k + g) \<and>
      (\<forall>c. limit = Some c \<longrightarrow> g = 0 \<or> amountAt (dbData s) k + g \<le> c)"
    unfolding usageSpend_def using spend_amount appliedDelta_bounds
    by (metis add_0_right fun_upd_triv order_refl)
next
  fix k n s t
  assume "usageRefund k n s t" "0 \<le> amountAt (dbData s) k"
  then show "\<exists>g\<ge>0. g \<le> amountAt (dbData s) k \<and> g \<le> max 0 n \<and>
      amountAt (dbData t) = (amountAt (dbData s))(k := amountAt (dbData s) k - g)"
    unfolding usageRefund_def using refund_amount releasedDelta_bounds
    by (metis diff_0_right fun_upd_triv max.cobounded1 order_refl)
next
  fix s t
  show "usageEnv s t \<Longrightarrow> amountAt (dbData t) = amountAt (dbData s)" by (rule env_amount)
qed


abbreviation demoLimitFor :: "usage_key \<Rightarrow> int option" where
  "demoLimitFor \<equiv> (\<lambda>k. limitOf k (demoUsage 0))"


text \<open>The token budget is applied exactly once and exactly up to the limit. When
  \<open>applyTokenBudgetUsage\<close> returns, whichever attempts conflicted, the period's credits grew by the
  smaller of the delta and what was left under the limit, the answer and the workspace state show
  the new amount, \<open>capped\<close> says whether something was cut off, one event records the amount, and
  storage, other periods and the monthly counters are untouched.\<close>

theorem token_budget_applied:
  assumes "applyTokenBudgetUsage conflicts raced i a b s = (Inr res, t)" "0 \<le> ui_delta i"
  defines "used \<equiv> creditsAt (dbData s) (ui_workspaceId i, a, b)"
  defines "g \<equiv> (case ql_tokenBudgetLimit (ui_limits i) of None \<Rightarrow> ui_delta i | Some l \<Rightarrow> min (ui_delta i) (max 0 (l - used)))"
  shows "tr_appliedDelta res = g \<and> (tr_capped res \<longleftrightarrow> g < ui_delta i) \<and>
    tc_usedCredits (tr_counter res) = used + g \<and> qs_tokenBudgetUsed (tr_state res) = used + g \<and>
    spentTokens (ui_workspaceId i) a b g (dbData s) (dbData t)"
proof -
  obtain k where b: "applyTokenBudgetUsageTx (raced k) i a b (dbNow s) (dbData s) = (Inr res, dbData t)"
    using transaction_retried [OF assms(1) [unfolded applyTokenBudgetUsage_def]] by (auto simp: retried_def)
  have g: "appliedDeltaOf (ql_tokenBudgetLimit (ui_limits i)) (creditsAt (dbData s) (ui_workspaceId i, a, b)) (ui_delta i) = g"
    using assms(2) by (auto simp: g_def used_def appliedDeltaOf_def Let_def split: option.splits)
  note A = applyToken_spent [OF b, unfolded g]
  have "creditsAt (dbData t) (ui_workspaceId i, a, b) = used + g"
    "usedAt Token_budget (dbData t) (ui_workspaceId i) = used + g"
    using A(1) by (simp_all add: spentTokens_def used_def)
  with A show ?thesis by (simp add: creditsAt_def usedAt_def)
qed

lemma demo_tokens:
  "\<exists>res t. applyTokenBudgetUsage (\<lambda>k. k < 2) (\<lambda>_. (False, False)) (demoUsage 120) 0 9 emptyQuotaDb = (Inr res, t)"
  by (simp add: usage_eval applyTokenBudgetUsage_def applyTokenBudgetUsageTx_def updatePeriod_def
      lockOrCreateTokenBudgetPeriodCounterRow_def lockTokenBudgetPeriodCounterRow_def)

theorem token_budget_applied_witness:
  "\<exists>res t. applyTokenBudgetUsage (\<lambda>k. k < 2) (\<lambda>_. (False, False)) (demoUsage 120) 0 9 emptyQuotaDb = (Inr res, t) \<and>
     tr_appliedDelta res = 100 \<and> tr_capped res"
proof -
  obtain res t where r: "applyTokenBudgetUsage (\<lambda>k. k < 2) (\<lambda>_. (False, False)) (demoUsage 120) 0 9 emptyQuotaDb = (Inr res, t)"
    using demo_tokens by blast
  have "creditsAt (dbData emptyQuotaDb) (ui_workspaceId (demoUsage 120), 0, 9) = 0"
    by (simp add: creditsAt_def emptyQuotaDb_def emptyQuota_def)
  with token_budget_applied [OF r] r show ?thesis by (simp add: demoUsage_def demoLimits_def)
qed

section \<open>The race for the first row\<close>

text \<open>Losing the race for a workspace's first row is an error. When another transaction inserts
  the row between the lock query and the insert, the fallback query runs in the aborted
  transaction, so the apply operations throw that error on the first serialized attempt, change
  nothing and do not retry, although the row now exists.\<close>

theorem raced_first_write_fails:
  assumes "reliable s" "stateTable (dbData s) (ui_workspaceId i) = None" "\<not> conflicts 0" "raced 0"
  shows "fst (applyMediaStorageUsage conflicts raced i s) = Inl abortedTransaction \<and>
    dbData (snd (applyMediaStorageUsage conflicts raced i s)) = dbData s \<and>
    fst (applyKnowledgeStorageUsage conflicts raced i s) = Inl abortedTransaction \<and>
    dbData (snd (applyKnowledgeStorageUsage conflicts raced i s)) = dbData s"
proof -
  have body: "chargeTx dm g answer (raced 0) i now (dbData s) = (Inl abortedTransaction, dbData s)"
    for dm g and answer :: "int \<Rightarrow> quota_state \<Rightarrow> apply_result" and now
    using assms(2,4) by (simp add: chargeTx_def lockOrCreateQuotaStateRow_def lockQuotaStateRow_def bindS_def catchS_def
        )
  have "retryLoop label 5 (\<lambda>k. attemptTx (conflicts k) (\<lambda>now. chargeTx dm g answer (raced k) i now)) 0 s =
      (Inl abortedTransaction, s\<lparr>dbCount := Suc (dbCount s)\<rparr>)"
    for label dm g and answer :: "int \<Rightarrow> quota_state \<Rightarrow> apply_result"
    using assms(1,3)
    by (subst retryLoop.simps) (simp add: attemptTx_def tx_reliable transactionS_def body )
  then show ?thesis
    unfolding applyMediaStorageUsage_def applyKnowledgeStorageUsage_def withTransactionRetry_def charge_simps
    by simp
qed

theorem raced_first_write_fails_witness:
  "fst (applyMediaStorageUsage (\<lambda>_. False) (\<lambda>_. True) (demoUsage 70) emptyQuotaDb) = Inl abortedTransaction"
  using raced_first_write_fails [of emptyQuotaDb "demoUsage 70" "\<lambda>_. False" "\<lambda>_. True"]
  by (simp add: reliable_def emptyQuotaDb_def emptyQuota_def)

end
