(* ===== verification/PgTransaction.thy ===== *)
theory PgTransaction
  imports Database
begin

text \<open>
  A Prisma interactive transaction on Postgres whose body catches errors. A statement that violates
  a constraint aborts the transaction: later statements fail, and the commit at its end rolls
  back. \<open>reports\<close> says whether the client turns that rollback into an error; Postgres itself
  answers the commit without one. The body may also use the service's own connection
  (\<open>outside\<close>), which sees the committed data and whose writes stay.

  A transaction is one step: the interleaving of two transactions, which their isolation level
  leaves possible, is not modelled.
\<close>

record 'd txn =
  committed :: 'd
  working :: 'd
  aborted :: bool

abbreviation commitRolledBack :: js_error where
  "commitRolledBack \<equiv> PlainError ''transaction rolled back at commit''"

definition beginTxn :: "'d \<Rightarrow> 'd txn" where
  "beginTxn d = \<lparr>committed = d, working = d, aborted = False\<rparr>"

text \<open>A statement of the transaction. A missing row is an error of the client, not of the database.\<close>

definition stmt :: "('d, 'a) oper \<Rightarrow> ('d txn, 'a) oper" where
  "stmt f x =
     (if aborted x then (Inl abortedTransaction, x)
      else case f (working x) of
             (Inr a, w) \<Rightarrow> (Inr a, x\<lparr>working := w\<rparr>)
           | (Inl e, _) \<Rightarrow> (Inl e, if e = recordNotFound then x else x\<lparr>aborted := True\<rparr>))"

definition outside :: "('d, 'a) oper \<Rightarrow> ('d txn, 'a) oper" where
  "outside f x =
     (let (r, c) = transactionS f (committed x) in
      (r, x\<lparr>committed := c, working := snd (transactionS f (working x))\<rparr>))"

definition endTxn :: "bool \<Rightarrow> 'a outcome \<times> 'd txn \<Rightarrow> 'a outcome \<times> 'd" where
  "endTxn reports run =
     (let (r, x) = run in
      case r of
        Inl e \<Rightarrow> (Inl e, committed x)
      | Inr a \<Rightarrow> if aborted x then (if reports then Inl commitRolledBack else Inr a, committed x)
                else (Inr a, working x))"

text \<open>\<open>prisma.$transaction(async (tx) => ...)\<close> as one call of the database.\<close>

definition pgTx :: "bool \<Rightarrow> (int \<Rightarrow> ('d txn, 'a) oper) \<Rightarrow> ('d database, 'a) oper" where
  "pgTx reports f s =
     (let s1 = s\<lparr>dbCount := Suc (dbCount s)\<rparr>; run = endTxn reports (f (dbNow s) (beginTxn (dbData s))) in
      case dbFault s (dbCount s) of
        NoFault \<Rightarrow> (fst run, s1\<lparr>dbData := snd run\<rparr>)
      | FailBefore \<Rightarrow> (Inl unavailable, s1)
      | FailAfter \<Rightarrow> (Inl unavailable, s1\<lparr>dbData := snd run\<rparr>))"

section \<open>What a transaction leaves\<close>

lemma endTxn_cases:
  assumes "endTxn reports (r, x) = (r', d)"
  obtains (rolled_back) "d = committed x" "isl r \<or> aborted x" "isl r \<longrightarrow> isl r'"
  | (committed) a where "r = Inr a" "r' = Inr a" "d = working x" "\<not> aborted x"
  using assms by (auto simp: endTxn_def split: sum.splits if_splits)

lemma pgTx_cases:
  assumes "pgTx reports f s = (r, t)"
  obtains (unreached) "r = Inl unavailable" "dbData t = dbData s" "dbNow t = dbNow s" "dbFault t = dbFault s"
  | (rolled_back) r0 x where "f (dbNow s) (beginTxn (dbData s)) = (r0, x)" "dbData t = committed x"
      "isl r0 \<or> aborted x" "dbNow t = dbNow s" "dbFault t = dbFault s" "isl r0 \<longrightarrow> isl r"
  | (committed) a x where "f (dbNow s) (beginTxn (dbData s)) = (Inr a, x)" "dbData t = working x" "\<not> aborted x"
      "r = Inr a \<or> r = Inl unavailable" "dbNow t = dbNow s" "dbFault t = dbFault s"
proof -
  obtain r0 x where f: "f (dbNow s) (beginTxn (dbData s)) = (r0, x)"
    by (cases "f (dbNow s) (beginTxn (dbData s))")
  obtain r' d where e: "endTxn reports (r0, x) = (r', d)" by (cases "endTxn reports (r0, x)")
  have t: "dbNow t = dbNow s" "dbFault t = dbFault s"
    using assms by (auto simp: pgTx_def Let_def split: fault.splits)
  consider "r = Inl unavailable" "dbData t = dbData s" | "dbData t = d" "r = r' \<or> r = Inl unavailable"
    using assms f e by (auto simp: pgTx_def Let_def split: fault.splits)
  then show thesis
  proof cases
    case 1
    with t show ?thesis by (intro unreached)
  next
    case 2
    from e show ?thesis
    proof (cases rule: endTxn_cases)
      case rolled_back
      with 2 t f show ?thesis by (intro that(2)) auto
    next
      case (committed a)
      with 2 t f show ?thesis by (intro that(3)) auto
    qed
  qed
qed

lemma stmt_cases:
  assumes "stmt f x = (r, y)"
  obtains (refused) "isl r" "working y = working x" "committed y = committed x" "aborted x \<longrightarrow> aborted y"
  | (done_) a where "\<not> aborted x" "f (working x) = (Inr a, working y)" "r = Inr a"
      "committed y = committed x" "aborted y = aborted x"
  using assms by (auto simp: stmt_def split: if_splits prod.splits sum.splits)

section \<open>Reasoning about a transaction body\<close>

text \<open>
  \<open>framed g m\<close>: \<open>m\<close> keeps what \<open>g\<close> sees of the committed data and never revives an aborted
  transaction. \<open>wlp m Q d\<close>: when \<open>m\<close>, started in a live transaction on \<open>d\<close>, returns \<open>a\<close> in a live
  one, \<open>Q a\<close> holds of the working data. Errors need nothing, because they roll back.
\<close>

named_theorems framed_intro "operations that keep the committed data"
named_theorems wlp_intro "weakest liberal preconditions of transaction bodies"

definition framed :: "('d \<Rightarrow> 'c) \<Rightarrow> ('d txn, 'a) oper \<Rightarrow> bool" where
  "framed g m \<longleftrightarrow> (\<forall>x r y. m x = (r, y) \<longrightarrow> g (committed y) = g (committed x) \<and> (aborted x \<longrightarrow> aborted y))"

lemma framedD: "framed g m \<Longrightarrow> m x = (r, y) \<Longrightarrow> g (committed y) = g (committed x) \<and> (aborted x \<longrightarrow> aborted y)"
  by (simp add: framed_def)

lemma framed_basic [framed_intro]: "framed g (returnS a)" "framed g (throwS e)"
  by (simp_all add: framed_def)

lemma framed_stmt [framed_intro]: "framed g (stmt f)"
  by (auto simp: framed_def stmt_def split: prod.splits sum.splits)

lemma framed_outside [framed_intro]:
  "(\<And>d a d'. f d = (Inr a, d') \<Longrightarrow> g d' = g d) \<Longrightarrow> framed g (outside f)"
  by (auto simp: framed_def outside_def Let_def transactionS_def split: prod.splits sum.splits)

lemma framed_bind [framed_intro]: "framed g m \<Longrightarrow> (\<And>a. framed g (f a)) \<Longrightarrow> framed g (bindS m f)"
  by (auto simp: framed_def bindS_def split: prod.splits sum.splits; metis)

lemma framed_catch [framed_intro]: "framed g m \<Longrightarrow> (\<And>e. framed g (h e)) \<Longrightarrow> framed g (catchS m h)"
  by (auto simp: framed_def catchS_def split: prod.splits sum.splits; metis)

lemma framed_if [framed_intro]: "(c \<Longrightarrow> framed g m) \<Longrightarrow> (\<not> c \<Longrightarrow> framed g n) \<Longrightarrow> framed g (if c then m else n)"
  by simp

lemma framed_option [framed_intro]:
  "framed g m \<Longrightarrow> (\<And>x. framed g (n x)) \<Longrightarrow> framed g (case v of None \<Rightarrow> m | Some x \<Rightarrow> n x)"
  by (cases v) auto

lemma framed_let [framed_intro]: "framed g (f v) \<Longrightarrow> framed g (let x = v in f x)"
  by simp

lemma framed_prod [framed_intro]: "(\<And>a b. framed g (f a b)) \<Longrightarrow> framed g (case p of (a, b) \<Rightarrow> f a b)"
  by (cases p) simp

definition wlp :: "('d txn, 'a) oper \<Rightarrow> ('a \<Rightarrow> 'd \<Rightarrow> bool) \<Rightarrow> 'd \<Rightarrow> bool" where
  "wlp m Q d \<longleftrightarrow>
     (\<forall>x a y. working x = d \<longrightarrow> \<not> aborted x \<longrightarrow> m x = (Inr a, y) \<longrightarrow> \<not> aborted y \<longrightarrow> Q a (working y))"

lemma wlpD: "wlp m Q (working x) \<Longrightarrow> \<not> aborted x \<Longrightarrow> m x = (Inr a, y) \<Longrightarrow> \<not> aborted y \<Longrightarrow> Q a (working y)"
  unfolding wlp_def by blast

lemma wlp_weaken: "wlp m Q d \<Longrightarrow> (\<And>a d'. Q a d' \<Longrightarrow> R a d') \<Longrightarrow> wlp m R d"
  unfolding wlp_def by blast

lemma wlp_basic [wlp_intro]: "Q a d \<Longrightarrow> wlp (returnS a) Q d" "wlp (throwS e) Q d"
  by (simp_all add: wlp_def)

lemma wlp_bind:
  assumes "wlp m (\<lambda>a. wlp (f a) Q) d" "\<And>a. framed g (f a)"
  shows "wlp (bindS m f) Q d"
  unfolding wlp_def
proof (intro allI impI)
  fix x a y
  assume x: "working x = d" "\<not> aborted x" "bindS m f x = (Inr a, y)" "\<not> aborted y"
  then obtain b z where z: "m x = (Inr b, z)" "f b z = (Inr a, y)" by (auto simp: bindS_eq_Inr_iff)
  with assms(2) x(4) have "\<not> aborted z" using framedD by metis
  with wlpD [of m _ x] assms(1) x z show "Q a (working y)" using wlpD by metis
qed

lemma wlp_stmt [wlp_intro]: "(\<And>a d'. f d = (Inr a, d') \<Longrightarrow> Q a d') \<Longrightarrow> wlp (stmt f) Q d"
  by (auto simp: wlp_def stmt_def split: prod.splits sum.splits)

text \<open>A read outside the transaction tells nothing about the working data.\<close>

lemma wlp_read: "(\<And>a. Q a d) \<Longrightarrow> (\<And>d. snd (f d) = d) \<Longrightarrow> wlp (outside f) Q d"
  by (auto simp: wlp_def outside_def Let_def transactionS_def split: prod.splits sum.splits)
    (metis snd_conv)+

lemma wlp_if [wlp_intro]: "(c \<Longrightarrow> wlp m Q d) \<Longrightarrow> (\<not> c \<Longrightarrow> wlp n Q d) \<Longrightarrow> wlp (if c then m else n) Q d"
  by simp

lemma wlp_option [wlp_intro]:
  "(v = None \<Longrightarrow> wlp m Q d) \<Longrightarrow> (\<And>x. v = Some x \<Longrightarrow> wlp (n x) Q d) \<Longrightarrow>
     wlp (case v of None \<Rightarrow> m | Some x \<Rightarrow> n x) Q d"
  by (cases v) auto

lemma wlp_let [wlp_intro]: "(\<And>x. x = v \<Longrightarrow> wlp (f x) Q d) \<Longrightarrow> wlp (let x = v in f x) Q d"
  by simp

lemma wlp_prod [wlp_intro]: "(\<And>a b. p = (a, b) \<Longrightarrow> wlp (f a b) Q d) \<Longrightarrow> wlp (case p of (a, b) \<Rightarrow> f a b) Q d"
  by (cases p) simp

text \<open>What a transaction did: nothing \<open>g\<close> sees, or its whole body.\<close>

lemma pgTx_wlp:
  assumes "pgTx reports f s = (r, t)" "framed g (f (dbNow s))" "wlp (f (dbNow s)) Q (dbData s)"
  shows "g (dbData t) = g (dbData s) \<or> (\<exists>a. Q a (dbData t) \<and> (r = Inr a \<or> r = Inl unavailable))"
    and "dbNow t = dbNow s"
proof -
  have "(g (dbData t) = g (dbData s) \<or> (\<exists>a. Q a (dbData t) \<and> (r = Inr a \<or> r = Inl unavailable))) \<and> dbNow t = dbNow s"
    using assms(1)
  proof (cases rule: pgTx_cases)
    case (rolled_back r0 x)
    from framedD [OF assms(2) rolled_back(1)] rolled_back show ?thesis by (simp add: beginTxn_def)
  next
    case (committed a x)
    have "Q a (working x)"
    proof -
      have "\<not> aborted (beginTxn (dbData s))" "working (beginTxn (dbData s)) = dbData s" by (simp_all add: beginTxn_def)
      with assms(3) committed(1,3) show ?thesis unfolding wlp_def by blast
    qed
    with committed show ?thesis by auto
  qed simp
  then show "g (dbData t) = g (dbData s) \<or> (\<exists>a. Q a (dbData t) \<and> (r = Inr a \<or> r = Inl unavailable))"
    "dbNow t = dbNow s" by blast+
qed

end
