(* ===== verification/JsDate.thy ===== *)
theory JsDate
  imports PersaiPrelude
begin

text \<open>
  \<open>Date.prototype.toISOString\<close> for instants from 1970 on, the part of the language's calendar
  the services use to build keys and metadata. Year and month are computed as the language
  definition does (\<open>DayFromYear\<close>, \<open>YearFromTime\<close>, \<open>MonthFromTime\<close>). The library shows that the
  string determines the instant, on which keys made from dates depend.
\<close>

abbreviation msPerDay :: int where
  "msPerDay \<equiv> 86400000"

definition dayFromYear :: "int \<Rightarrow> int" where
  "dayFromYear y = 365 * (y - 1970) + (y - 1969) div 4 - (y - 1901) div 100 + (y - 1601) div 400"

text \<open>The largest year that has begun by day \<open>d\<close>, searched downwards.\<close>

fun yearDown :: "nat \<Rightarrow> int \<Rightarrow> int \<Rightarrow> int" where
  "yearDown 0 y d = y"
| "yearDown (Suc n) y d = (if dayFromYear y \<le> d then y else yearDown n (y - 1) d)"

definition yearFromDay :: "int \<Rightarrow> int" where
  "yearFromDay d = yearDown (nat (d div 365)) (1970 + d div 365) d"

definition leapDay :: "int \<Rightarrow> int" where
  "leapDay y = dayFromYear (y + 1) - dayFromYear y - 365"

definition monthStarts :: "int \<Rightarrow> int list" where
  "monthStarts l = [0, 31, 59 + l, 90 + l, 120 + l, 151 + l, 181 + l, 212 + l, 243 + l, 273 + l, 304 + l, 334 + l]"

definition monthOf :: "int \<Rightarrow> int \<Rightarrow> nat" where
  "monthOf l dayInYear = length (filter (\<lambda>s. s \<le> dayInYear) (monthStarts l))"

definition dateOf :: "int \<Rightarrow> int \<Rightarrow> int" where
  "dateOf l dayInYear = dayInYear - monthStarts l ! (monthOf l dayInYear - 1) + 1"

fun padDigits :: "nat \<Rightarrow> nat \<Rightarrow> string" where
  "padDigits 0 n = []"
| "padDigits (Suc k) n = padDigits k (n div 10) @ [char_of (48 + n mod 10)]"

definition isoYear :: "int \<Rightarrow> string" where
  "isoYear y = (if y \<le> 9999 then padDigits 4 (nat y) else CHR ''+'' # padDigits 6 (nat y))"

definition toISOString :: "int \<Rightarrow> string" where
  "toISOString t =
     (let day = t div msPerDay; ms = t mod msPerDay; y = yearFromDay day; l = leapDay y; dwy = day - dayFromYear y in
      isoYear y @ ''-'' @ padDigits 2 (monthOf l dwy) @ ''-'' @ padDigits 2 (nat (dateOf l dwy)) @ ''T'' @
      padDigits 2 (nat (ms div 3600000)) @ '':'' @ padDigits 2 (nat (ms div 60000 mod 60)) @ '':'' @
      padDigits 2 (nat (ms div 1000 mod 60)) @ ''.'' @ padDigits 3 (nat (ms mod 1000)) @ ''Z'')"

section \<open>The calendar is inverted\<close>

lemma yearDown_begun: "dayFromYear (y - int n) \<le> d \<Longrightarrow> dayFromYear (yearDown n y d) \<le> d"
proof (induction n arbitrary: y)
  case (Suc n)
  have "y - int (Suc n) = (y - 1) - int n" by simp
  with Suc show ?case by (simp only: yearDown.simps split: if_split) simp
qed simp

lemma yearDown_last: "d < dayFromYear (y + 1) \<Longrightarrow> d < dayFromYear (yearDown n y d + 1)"
  by (induction n arbitrary: y) auto

lemma dayFromYear_from: "1970 \<le> y \<Longrightarrow> 365 * (y - 1970) \<le> dayFromYear y"
proof -
  assume y: "1970 \<le> y"
  have a: "y - 1972 \<le> 4 * ((y - 1969) div 4)" "0 \<le> (y - 1969) div 4" using y by presburger+
  have b: "100 * ((y - 1901) div 100) \<le> y - 1901" by presburger
  have c: "0 \<le> (y - 1601) div 400" using y by simp
  have "(y - 1901) div 100 \<le> (y - 1969) div 4"
    using a b y by (cases "y \<le> 2000") linarith+
  with c show ?thesis by (simp add: dayFromYear_def)
qed

lemma div_step: "0 < m \<Longrightarrow> (x + 1) div m = x div m + (if m dvd x + 1 then 1 else 0)" for m x :: int
proof -
  assume m: "0 < m"
  let ?r = "x mod m" and ?q = "x div m"
  have x: "x + 1 = ?q * m + (?r + 1)" using div_mult_mod_eq [of x m] by linarith
  have r: "0 \<le> ?r" "?r < m" using m by simp_all
  have d: "m dvd x + 1 \<longleftrightarrow> m dvd ?r + 1" by (simp add: dvd_eq_mod_eq_0 mod_simps)
  show ?thesis
  proof (cases "?r + 1 = m")
    case True
    then have "x + 1 = (?q + 1) * m" using x by (simp add: algebra_simps)
    then show ?thesis using m by simp
  next
    case False
    with r have lt: "0 < ?r + 1" "?r + 1 < m" by linarith+
    then have "\<not> m dvd x + 1" unfolding d using zdvd_not_zless by blast
    moreover have "(x + 1) div m = ?q" using x lt by (metis div_mult_self3 div_pos_pos_trivial add.commute add_0_right less_imp_le m order_less_irrefl mult.commute)
    ultimately show ?thesis by simp
  qed
qed

lemma leapDay_cases: "0 \<le> leapDay y \<and> leapDay y \<le> 1"
proof -
  have s: "(y + 1 - 1969) div 4 = (y - 1969) div 4 + (if 4 dvd y - 1968 then 1 else 0)"
    "(y + 1 - 1901) div 100 = (y - 1901) div 100 + (if 100 dvd y - 1900 then 1 else 0)"
    "(y + 1 - 1601) div 400 = (y - 1601) div 400 + (if 400 dvd y - 1600 then 1 else 0)"
    using div_step [of 4 "y - 1969"] div_step [of 100 "y - 1901"] div_step [of 400 "y - 1601"]
    by (simp_all add: algebra_simps)
  have "400 dvd y - 1600 \<Longrightarrow> 100 dvd y - 1900"
  proof (elim dvdE)
    fix k assume "y - 1600 = 400 * k"
    then have "y - 1900 = 100 * (4 * k - 3)" by simp
    then show "100 dvd y - 1900" by (rule dvdI)
  qed
  moreover have "100 dvd y - 1900 \<Longrightarrow> 4 dvd y - 1968"
  proof (elim dvdE)
    fix k assume "y - 1900 = 100 * k"
    then have "y - 1968 = 4 * (25 * k - 17)" by simp
    then show "4 dvd y - 1968" by (rule dvdI)
  qed
  ultimately show ?thesis unfolding leapDay_def dayFromYear_def s by (auto simp: algebra_simps)
qed

lemma dayFromYear_before: "y \<le> 0 \<Longrightarrow> dayFromYear y \<le> 0"
proof -
  assume y: "y \<le> 0"
  define a b c where abc: "a = (y - 1969) div 4" "b = (y - 1901) div 100" "c = (y - 1601) div 400"
  have "a \<le> 0" "c \<le> 0" using y by (simp_all add: abc)
  moreover have "y - 1901 < 100 * b + 100"
  proof -
    have "(y - 1901) mod 100 < 100" by simp
    then show ?thesis using mult_div_mod_eq [of 100 "y - 1901"] unfolding abc by (metis add_strict_left_mono)
  qed
  then have "- b \<le> 21 - y" using y by linarith
  moreover have "364 * y \<le> 0" using y by simp
  ultimately have "365 * (y - 1970) + a - b + c \<le> 0" by (simp add: right_diff_distrib)
  then show ?thesis by (simp add: dayFromYear_def abc)
qed

lemma day_in_year:
  assumes "0 \<le> d"
  shows "0 \<le> d - dayFromYear (yearFromDay d)" "d - dayFromYear (yearFromDay d) \<le> 365" "0 \<le> yearFromDay d"
proof -
  let ?q = "d div 365"
  have q: "0 \<le> ?q" using assms by simp
  have "dayFromYear (1970 + ?q - int (nat ?q)) \<le> d" using q assms by (simp add: dayFromYear_def)
  then have lo: "dayFromYear (yearFromDay d) \<le> d" unfolding yearFromDay_def by (rule yearDown_begun)
  have "d < 365 * (?q + 1)" by presburger
  also have "\<dots> \<le> dayFromYear (1970 + ?q + 1)" using dayFromYear_from [of "1970 + ?q + 1"] q by simp
  finally have up: "d < dayFromYear (yearFromDay d + 1)" unfolding yearFromDay_def by (rule yearDown_last)
  show "0 \<le> yearFromDay d"
    using up assms dayFromYear_before [of "yearFromDay d + 1"] by linarith
  from up have up: "d < dayFromYear (yearFromDay d + 1)" .
  moreover have "dayFromYear (yearFromDay d + 1) \<le> dayFromYear (yearFromDay d) + 366"
    using leapDay_cases [of "yearFromDay d"] by (simp add: leapDay_def)
  ultimately show "d - dayFromYear (yearFromDay d) \<le> 365" by simp
  show "0 \<le> d - dayFromYear (yearFromDay d)" using lo by simp
qed

lemma month_bounds:
  assumes "0 \<le> l" "l \<le> 1" "0 \<le> dwy" "dwy \<le> 365"
  shows "1 \<le> monthOf l dwy" "monthOf l dwy \<le> 12" "1 \<le> dateOf l dwy" "dateOf l dwy \<le> 32"
  using assms by (auto simp: monthOf_def dateOf_def monthStarts_def)

lemma padDigits_length [simp]: "length (padDigits k n) = k"
  by (induction k arbitrary: n) auto

lemma digit_inject: "char_of (48 + a mod 10 :: nat) = (char_of (48 + b mod 10 :: nat) :: char) \<Longrightarrow> a mod 10 = b mod 10"
proof -
  assume "char_of (48 + a mod 10 :: nat) = (char_of (48 + b mod 10 :: nat) :: char)"
  then have "(48 + a mod 10) mod 256 = (48 + b mod 10) mod (256 :: nat)" using of_char_of by metis
  moreover have "48 + a mod 10 < 256" "48 + b mod 10 < 256" by presburger+
  ultimately show ?thesis by simp
qed

lemma padDigits_inject: "padDigits k a = padDigits k b \<Longrightarrow> a < 10 ^ k \<Longrightarrow> b < 10 ^ k \<Longrightarrow> a = b"
proof (induction k arbitrary: a b)
  case (Suc k)
  then have "padDigits k (a div 10) = padDigits k (b div 10)" and d: "a mod 10 = b mod 10"
    using digit_inject by auto
  then have "a div 10 = b div 10" using Suc by auto
  with d show ?case by (metis div_mult_mod_eq)
qed simp

lemma padDigits_eq: "padDigits k a @ x = padDigits k b @ y \<Longrightarrow> a < 10 ^ k \<Longrightarrow> b < 10 ^ k \<Longrightarrow> a = b \<and> x = y"
  using padDigits_inject by (auto simp: append_eq_append_conv)

lemma padDigits_fields:
  assumes "padDigits 4 y @ ''-'' @ padDigits 2 m @ ''-'' @ padDigits 2 d @ ''T'' @ padDigits 2 h @ '':'' @
      padDigits 2 n @ '':'' @ padDigits 2 s @ ''.'' @ padDigits 3 f @ ''Z'' =
    padDigits 4 y' @ ''-'' @ padDigits 2 m' @ ''-'' @ padDigits 2 d' @ ''T'' @ padDigits 2 h' @ '':'' @
      padDigits 2 n' @ '':'' @ padDigits 2 s' @ ''.'' @ padDigits 3 f' @ ''Z''"
    "y < 10000" "y' < 10000" "m < 100" "m' < 100" "d < 100" "d' < 100" "h < 100" "h' < 100" "n < 100" "n' < 100"
    "s < 100" "s' < 100" "f < 1000" "f' < 1000"
  shows "y = y' \<and> m = m' \<and> d = d' \<and> h = h' \<and> n = n' \<and> s = s' \<and> f = f'"
proof -
  have "padDigits 4 y = padDigits 4 y' \<and> padDigits 2 m = padDigits 2 m' \<and> padDigits 2 d = padDigits 2 d' \<and>
    padDigits 2 h = padDigits 2 h' \<and> padDigits 2 n = padDigits 2 n' \<and> padDigits 2 s = padDigits 2 s' \<and>
    padDigits 3 f = padDigits 3 f'"
    using assms(1) by (simp add: append_eq_append_conv)
  with assms(2-) show ?thesis
    using padDigits_inject [of 4 y y'] padDigits_inject [of 2 m m'] padDigits_inject [of 2 d d']
      padDigits_inject [of 2 h h'] padDigits_inject [of 2 n n'] padDigits_inject [of 2 s s'] padDigits_inject [of 3 f f']
    by simp
qed

lemma nat_mod_small: "0 < m \<Longrightarrow> m \<le> int k \<Longrightarrow> nat (x mod m) < k"
  using pos_mod_bound [of m x] pos_mod_sign [of m x] by linarith

lemma nat_div_small: "x < (c :: int) \<Longrightarrow> 0 < m \<Longrightarrow> 0 < k \<Longrightarrow> c \<le> m * int k \<Longrightarrow> nat (x div m) < k"
proof -
  assume a: "x < c" "0 < m" "0 < k" "c \<le> m * int k"
  then have "x < int k * m" by (simp add: mult.commute)
  moreover have "x div m * m \<le> x" using div_mult_mod_eq [of x m] pos_mod_sign [OF a(2), of x] by linarith
  ultimately have "x div m * m < int k * m" by linarith
  then have "x div m < int k" using a(2) by simp
  with a(3) show ?thesis by linarith
qed

lemma ms_fields:
  fixes a b :: int
  assumes "a div 3600000 = b div 3600000" "a div 60000 mod 60 = b div 60000 mod 60"
    "a div 1000 mod 60 = b div 1000 mod 60" "a mod 1000 = b mod 1000"
  shows "a = b"
proof -
  have h: "x div 3600000 = x div 60000 div 60" "x div 60000 = x div 1000 div 60" for x :: int
    by (simp_all add: zdiv_zmult2_eq [symmetric])
  have "a div 60000 = b div 60000"
    using assms(1,2) unfolding h(1) by (metis div_mult_mod_eq)
  then have "a div 1000 = b div 1000"
    using assms(3) unfolding h(2) by (metis div_mult_mod_eq)
  with assms(4) show ?thesis by (metis div_mult_mod_eq)
qed

text \<open>Instants from 1970 to 9999 are determined by their string.\<close>

lemma toISOString_inject:
  assumes "toISOString s = toISOString t" "0 \<le> s" "0 \<le> t"
    "yearFromDay (s div msPerDay) \<le> 9999" "yearFromDay (t div msPerDay) \<le> 9999"
  shows "s = t"
proof -
  let ?y = "\<lambda>u. yearFromDay (u div msPerDay)"
  let ?w = "\<lambda>u. u div msPerDay - dayFromYear (?y u)"
  let ?m = "\<lambda>u. monthOf (leapDay (?y u)) (?w u)" and ?d = "\<lambda>u. dateOf (leapDay (?y u)) (?w u)"
  have day: "0 \<le> ?y u \<and> 1 \<le> ?m u \<and> ?m u \<le> 12 \<and> 1 \<le> ?d u \<and> ?d u \<le> 32" if "0 \<le> u" for u
  proof -
    have "0 \<le> u div msPerDay" using that by simp
    note D = day_in_year [OF this]
    note L = leapDay_cases [of "?y u"]
    show ?thesis using month_bounds [OF conjunct1 [OF L] conjunct2 [OF L] D(1,2)] D(3) by blast
  qed
  have ms: "0 \<le> u mod msPerDay" "u mod msPerDay < msPerDay" for u by simp_all
  have small: "nat (u mod msPerDay div 3600000) < 100" "nat (u mod msPerDay div 60000 mod 60) < 100"
    "nat (u mod msPerDay div 1000 mod 60) < 100" "nat (u mod msPerDay mod 1000) < 1000" for u
    using nat_div_small [OF ms(2) [of u], of 3600000 100] nat_mod_small [of 60 100] nat_mod_small [of 1000 1000] by simp_all
  have eq: "nat (?y s) = nat (?y t) \<and> ?m s = ?m t \<and> nat (?d s) = nat (?d t) \<and>
      nat (s mod msPerDay div 3600000) = nat (t mod msPerDay div 3600000) \<and>
      nat (s mod msPerDay div 60000 mod 60) = nat (t mod msPerDay div 60000 mod 60) \<and>
      nat (s mod msPerDay div 1000 mod 60) = nat (t mod msPerDay div 1000 mod 60) \<and>
      nat (s mod msPerDay mod 1000) = nat (t mod msPerDay mod 1000)"
  proof (rule padDigits_fields [OF _ _ _ _ _ _ _ small(1) small(1) small(2) small(2) small(3) small(3) small(4) small(4)])
    have iso: "toISOString u = padDigits 4 (nat (?y u)) @ ''-'' @ padDigits 2 (?m u) @ ''-'' @ padDigits 2 (nat (?d u)) @ ''T'' @
        padDigits 2 (nat (u mod msPerDay div 3600000)) @ '':'' @ padDigits 2 (nat (u mod msPerDay div 60000 mod 60)) @ '':'' @
        padDigits 2 (nat (u mod msPerDay div 1000 mod 60)) @ ''.'' @ padDigits 3 (nat (u mod msPerDay mod 1000)) @ ''Z''"
      if "?y u \<le> 9999" for u
      unfolding toISOString_def isoYear_def Let_def if_P [OF that] by (rule refl)
    show "padDigits 4 (nat (?y s)) @ ''-'' @ padDigits 2 (?m s) @ ''-'' @ padDigits 2 (nat (?d s)) @ ''T'' @
        padDigits 2 (nat (s mod msPerDay div 3600000)) @ '':'' @ padDigits 2 (nat (s mod msPerDay div 60000 mod 60)) @ '':'' @
        padDigits 2 (nat (s mod msPerDay div 1000 mod 60)) @ ''.'' @ padDigits 3 (nat (s mod msPerDay mod 1000)) @ ''Z'' =
      padDigits 4 (nat (?y t)) @ ''-'' @ padDigits 2 (?m t) @ ''-'' @ padDigits 2 (nat (?d t)) @ ''T'' @
        padDigits 2 (nat (t mod msPerDay div 3600000)) @ '':'' @ padDigits 2 (nat (t mod msPerDay div 60000 mod 60)) @ '':'' @
        padDigits 2 (nat (t mod msPerDay div 1000 mod 60)) @ ''.'' @ padDigits 3 (nat (t mod msPerDay mod 1000)) @ ''Z''"
      using assms(1) unfolding iso [OF assms(4)] iso [OF assms(5)] .
    show "nat (?y s) < 10000" "nat (?y t) < 10000" using assms(4,5) by linarith+
    show "?m s < 100" "?m t < 100" using day [OF assms(2)] day [OF assms(3)] by linarith+
    show "nat (?d s) < 100" "nat (?d t) < 100" using day [OF assms(2)] day [OF assms(3)] by linarith+
  qed
  then have y: "?y s = ?y t" and m: "?m s = ?m t" and d: "?d s = ?d t"
    using day [OF assms(2)] day [OF assms(3)] by (meson eq_nat_nat_iff order_trans zero_le_one)+
  have "?w s = ?w t" using m d unfolding dateOf_def y by simp
  with y have "s div msPerDay = t div msPerDay" by simp
  moreover have "s mod msPerDay = t mod msPerDay"
  proof (rule ms_fields)
    have n: "nat a = nat b \<Longrightarrow> 0 \<le> a \<Longrightarrow> 0 \<le> b \<Longrightarrow> a = b" for a b by simp
    have d: "0 \<le> u mod msPerDay div 3600000" for u using ms(1) [of u] by (simp only: pos_imp_zdiv_nonneg_iff)
    show "s mod msPerDay div 3600000 = t mod msPerDay div 3600000" using eq n d by blast
    show "s mod msPerDay div 60000 mod 60 = t mod msPerDay div 60000 mod 60"
      by (rule n) (use eq in blast, rule pos_mod_sign, simp, rule pos_mod_sign, simp)
    show "s mod msPerDay div 1000 mod 60 = t mod msPerDay div 1000 mod 60"
      by (rule n) (use eq in blast, rule pos_mod_sign, simp, rule pos_mod_sign, simp)
    show "s mod msPerDay mod 1000 = t mod msPerDay mod 1000"
      by (rule n) (use eq in blast, rule pos_mod_sign, simp, rule pos_mod_sign, simp)
  qed
  ultimately show ?thesis by (metis div_mult_mod_eq)
qed

end
