(* ===== verification/BillingStore.thy ===== *)
theory BillingStore
  imports PgTransaction JsDate
begin

text \<open>
  The tables behind subscriptions, lifecycle events, Vcoin wallets and package purchases
  (\<open>apps/api/prisma/schema.prisma\<close>), and the plan catalog the billing services read.

  A table with a unique key is a map from the key, an append-only one a list. Rows keep the
  columns the modelled services use. \<open>eventIdOf\<close> gives the id of a lifecycle event,
  \<open>subscriptionIdOf\<close> that of a new subscription row. \<open>rolloutLog\<close> and \<open>emittedIds\<close> record the
  calls to the rollout and notification services, whose inside is not modelled; the
  assistants a workspace marks dirty are one instant per workspace.
\<close>

datatype subscription_status =
    Trialing | Active | Grace_period | Past_due | Paused | Canceled | Expired | Expired_fallback

definition statusString :: "subscription_status \<Rightarrow> string" where
  "statusString st = (case st of
      Trialing \<Rightarrow> ''trialing'' | Active \<Rightarrow> ''active'' | Grace_period \<Rightarrow> ''grace_period''
    | Past_due \<Rightarrow> ''past_due'' | Paused \<Rightarrow> ''paused'' | Canceled \<Rightarrow> ''canceled''
    | Expired \<Rightarrow> ''expired'' | Expired_fallback \<Rightarrow> ''expired_fallback'')"

record subscription =
  sub_id :: string
  sub_workspaceId :: string
  sub_planCode :: string
  sub_status :: subscription_status
  sub_trialStartedAt :: "int option"
  sub_trialEndsAt :: "int option"
  sub_graceStartedAt :: "int option"
  sub_graceEndsAt :: "int option"
  sub_currentPeriodStartedAt :: "int option"
  sub_currentPeriodEndsAt :: "int option"
  sub_cancelAtPeriodEnd :: bool
  sub_billingProvider :: "string option"
  sub_providerCustomerRef :: "string option"
  sub_providerSubscriptionRef :: "string option"
  sub_providerRecurringDescriptor :: "string option"
  sub_metadata :: json

datatype event_source = System | Admin | Provider | Manual

record lifecycle_event =
  le_id :: string
  le_workspaceId :: string
  le_userId :: "string option"
  le_subscriptionId :: string
  le_eventCode :: string
  le_previousStatus :: "subscription_status option"
  le_nextStatus :: subscription_status
  le_previousPlanCode :: "string option"
  le_nextPlanCode :: string
  le_previousPeriodStartedAt :: "int option"
  le_previousPeriodEndsAt :: "int option"
  le_nextPeriodStartedAt :: "int option"
  le_nextPeriodEndsAt :: "int option"
  le_source :: event_source
  le_relatedPaymentIntentRef :: "string option"
  le_relatedProviderEventRef :: "string option"
  le_metadata :: json

record billing_plan =
  pl_status :: string
  pl_displayName :: string
  pl_billingProviderHints :: json

record wallet =
  wa_workspaceId :: string
  wa_balanceVc :: int
  wa_updatedAt :: int

datatype vcoin_kind =
    Monthly_grant | Package_purchase | Package_refund | Manual_kind | Persona_creation | Voice_clone_creation

record vcoin_event =
  ve_workspaceId :: string
  ve_kind :: vcoin_kind
  ve_amountVc :: int
  ve_referenceKey :: string
  ve_planCode :: "string option"

record package_item =
  pk_catalogItemId :: string
  pk_packageType :: string
  pk_units :: int
  pk_amountMinor :: int

text \<open>\<open>pi_packageItems\<close> is \<open>metadata.packageItems\<close>, \<open>None\<close> when it is not an array.\<close>

record payment_intent =
  pi_targetPlanCode :: string
  pi_currency :: string
  pi_packageItems :: "package_item list option"

record package_grant =
  pg_workspaceId :: string
  pg_packageCatalogItemId :: string
  pg_toolCode :: string
  pg_grantedUnits :: int
  pg_amountMinorSnapshot :: int
  pg_currencySnapshot :: string
  pg_paymentIntentId :: string
  pg_periodStartedAt :: int
  pg_periodEndsAt :: int
  pg_status :: string

record rollout_request =
  rr_actorUserId :: "string option"
  rr_workspaceId :: string
  rr_targetGeneration :: int
  rr_scopeMetadata :: "(string \<times> json) list"

record billing_data =
  subscriptionTable :: "string \<rightharpoonup> subscription"
  lifecycleLog :: "lifecycle_event list"
  planTable :: "string \<rightharpoonup> billing_plan"
  walletTable :: "string \<rightharpoonup> wallet"
  vcoinLog :: "vcoin_event list"
  intentTable :: "string \<rightharpoonup> payment_intent"
  packageGrants :: "string \<times> string \<rightharpoonup> package_grant"
  configDirtyAt :: "string \<rightharpoonup> int"
  configGeneration :: int
  rolloutLog :: "rollout_request list"
  emittedIds :: "string list"
  eventIdOf :: "nat \<Rightarrow> string"
  subscriptionIdOf :: "string \<Rightarrow> string"

type_synonym billing_txn = "billing_data txn"

section \<open>The plan lifecycle policy\<close>

definition toNullableString :: "json \<Rightarrow> string option" where
  "toNullableString v =
     (case v of JStr s \<Rightarrow> (let trimmed = js_trim s in if trimmed = [] then None else Some trimmed) | _ \<Rightarrow> None)"

record lifecycle_policy =
  lp_trialFallbackPlanCode :: "string option"
  lp_paidFallbackPlanCode :: "string option"

definition createPlanLifecyclePolicyDocument :: "string option \<Rightarrow> string option \<Rightarrow> lifecycle_policy" where
  "createPlanLifecyclePolicyDocument trial paid =
     \<lparr>lp_trialFallbackPlanCode = trial, lp_paidFallbackPlanCode = paid\<rparr>"

text \<open>\<open>o?.k\<close>\<close>

definition jgetIn :: "string \<Rightarrow> (string \<times> json) list option \<Rightarrow> json" where
  "jgetIn k obj = (case obj of None \<Rightarrow> JUndefined | Some ps \<Rightarrow> jget k ps)"

definition resolveStoredPlanLifecyclePolicy :: "json \<Rightarrow> lifecycle_policy" where
  "resolveStoredPlanLifecyclePolicy hints =
     (let policy = asObject (jgetIn ''lifecyclePolicy'' (asObject hints)) in
      createPlanLifecyclePolicyDocument
        (toNullableString (jgetIn ''trialFallbackPlanCode'' policy))
        (toNullableString (jgetIn ''paidFallbackPlanCode'' policy)))"

section \<open>Reads and writes\<close>

definition findSubscription :: "string \<Rightarrow> (billing_data, subscription option) oper" where
  "findSubscription w d = (Inr (subscriptionTable d w), d)"

text \<open>\<open>update({ where: { workspaceId }, data })\<close>\<close>

definition updateSubscription ::
  "string \<Rightarrow> (subscription \<Rightarrow> subscription) \<Rightarrow> (billing_data, subscription) oper" where
  "updateSubscription w f d =
     (case subscriptionTable d w of
        None \<Rightarrow> (Inl recordNotFound, d)
      | Some st \<Rightarrow> (Inr (f st), d\<lparr>subscriptionTable := (subscriptionTable d)(w \<mapsto> f st)\<rparr>))"

definition createSubscription :: "subscription \<Rightarrow> (billing_data, subscription) oper" where
  "createSubscription st d =
     (case subscriptionTable d (sub_workspaceId st) of
        Some _ \<Rightarrow> (Inl uniqueViolation, d)
      | None \<Rightarrow> (Inr st, d\<lparr>subscriptionTable := (subscriptionTable d)(sub_workspaceId st \<mapsto> st)\<rparr>))"

definition findPlan :: "string \<Rightarrow> (billing_data, billing_plan option) oper" where
  "findPlan code d = (Inr (planTable d code), d)"

end
