(* ===== verification/ModelPricing.thy ===== *)
theory ModelPricing
  imports PersaiPrelude
begin

text \<open>
  What a provider call costs: the cost calculation of the model cost ledger
  (\<open>record-model-cost-ledger.service.ts\<close>) and the pure functions of the Vcoin currency
  (\<open>application/vcoin\<close>). Prices and durations are JavaScript numbers with exact arithmetic,
  amounts in micros and Vcoin are integers. Error messages are without their interpolated values.
  \<open>typeof\<close> tests that the types make true are left out; a dimension value stands for its
  \<open>String(value)\<close>, \<open>None\<close> for null.
\<close>

record token_pricing =
  inputPer1M :: js_number
  cacheCreationInputPer1M :: "js_number option"
  cachedInputPer1M :: js_number
  outputPer1M :: js_number

text \<open>The billing mode of a catalog row with its price metadata.\<close>

datatype price_metadata =
    Token_metered_price token_pricing
  | Time_metered_price string js_number
  | Text_chars_metered_price js_number
  | Fixed_operation_price js_number
  | Tiered_operation_price "(string option \<times> js_number) list"

record model_profile =
  mp_capabilities :: "string list"
  mp_active :: bool
  mp_price :: price_metadata

record token_metering =
  tm_inputTokens :: "js_number option"
  tm_cacheCreationInputTokens :: "js_number option"
  tm_cachedInputTokens :: "js_number option"
  tm_outputTokens :: "js_number option"

datatype metering =
    Token_metered token_metering
  | Time_metered js_number
  | Text_chars_metered js_number
  | Operation_metered js_number "(string \<times> string option) list option"

section \<open>The model cost ledger\<close>

definition asNonNegativeInteger :: "js_number option \<Rightarrow> int" where
  "asNonNegativeInteger v =
     (case v of Some x \<Rightarrow> if isInteger x \<and> js_less (Fin 0) x then js_int x else 0 | None \<Rightarrow> 0)"

definition resolveCacheCreationInputPricePer1M :: "token_pricing \<Rightarrow> js_number" where
  "resolveCacheCreationInputPricePer1M p =
     (case cacheCreationInputPer1M p of
        Some x \<Rightarrow> if isFinite x \<and> js_le (Fin 0) x then x else Fin 0
      | None \<Rightarrow> Fin 0)"

text \<open>\<open>BigInt(Math.max(0, Math.round(x)))\<close>\<close>

definition roundedMicros :: "js_number \<Rightarrow> int outcome" where
  "roundedMicros x = toBigInt (js_max (Fin 0) (js_round x))"

definition calculateTokenMeteredCostMicros :: "token_metering \<Rightarrow> token_pricing \<Rightarrow> int outcome" where
  "calculateTokenMeteredCostMicros m p =
     roundedMicros
       (js_plus (js_plus (js_plus
          (js_times (jsInt (asNonNegativeInteger (tm_inputTokens m))) (inputPer1M p))
          (js_times (jsInt (asNonNegativeInteger (tm_cacheCreationInputTokens m))) (resolveCacheCreationInputPricePer1M p)))
          (js_times (jsInt (asNonNegativeInteger (tm_cachedInputTokens m))) (cachedInputPer1M p)))
          (js_times (jsInt (asNonNegativeInteger (tm_outputTokens m))) (outputPer1M p)))"

datatype price_convention = Model_catalog_plain_usd | Tool_path_usd_micros

definition MICROS_PER_USD :: int where
  "MICROS_PER_USD = 1000000"

definition calculateTimeMeteredCostMicros :: "js_number \<Rightarrow> string \<Rightarrow> js_number \<Rightarrow> price_convention \<Rightarrow> int outcome" where
  "calculateTimeMeteredCostMicros durationSeconds unit pricePerUnit convention =
     (let billableUnits = (if unit = ''minute'' then js_over durationSeconds 60 else durationSeconds);
          usdScale = (if convention = Model_catalog_plain_usd then MICROS_PER_USD else 1)
      in roundedMicros (js_times (js_times billableUnits pricePerUnit) (jsInt usdScale)))"

definition calculateTextCharsMeteredCostMicros :: "js_number \<Rightarrow> js_number \<Rightarrow> int outcome" where
  "calculateTextCharsMeteredCostMicros textChars pricePer1MChars = roundedMicros (js_times textChars pricePer1MChars)"

definition calculateFixedOperationCostMicros :: "js_number \<Rightarrow> js_number \<Rightarrow> int outcome" where
  "calculateFixedOperationCostMicros operationCount pricePerOperation =
     roundedMicros (js_times operationCount pricePerOperation)"

fun matchingTier :: "(string option \<times> js_number) list \<Rightarrow> (string \<times> string option) list \<Rightarrow> js_number option" where
  "matchingTier [] dims = None"
| "matchingTier ((matchValue, price) # tiers) dims =
     (case matchValue of
        None \<Rightarrow> matchingTier tiers dims
      | Some v \<Rightarrow> if \<exists>x \<in> set dims. snd x = Some v then Some price else matchingTier tiers dims)"

definition resolveTieredOperationPrice ::
  "(string option \<times> js_number) list \<Rightarrow> (string \<times> string option) list option \<Rightarrow> js_number option" where
  "resolveTieredOperationPrice tiers dimensions =
     (if tiers = [] then None
      else case (case dimensions of Some dims \<Rightarrow> matchingTier tiers dims | None \<Rightarrow> None) of
             Some price \<Rightarrow> Some price
           | None \<Rightarrow> Some (snd (hd tiers)))"

definition calculateBillingFactsCostMicros ::
  "metering \<Rightarrow> model_profile \<Rightarrow> price_convention option \<Rightarrow> int option outcome" where
  "calculateBillingFactsCostMicros m profile convention =
     (let timeMeteredConvention = (case convention of Some c \<Rightarrow> c | None \<Rightarrow> Tool_path_usd_micros) in
      case (m, mp_price profile) of
        (Token_metered facts, Token_metered_price p) \<Rightarrow> map_sum id Some (calculateTokenMeteredCostMicros facts p)
      | (Time_metered seconds, Time_metered_price unit p) \<Rightarrow>
          map_sum id Some (calculateTimeMeteredCostMicros seconds unit p timeMeteredConvention)
      | (Text_chars_metered chars, Text_chars_metered_price p) \<Rightarrow>
          map_sum id Some (calculateTextCharsMeteredCostMicros chars p)
      | (Operation_metered n dims, Fixed_operation_price p) \<Rightarrow>
          map_sum id Some (calculateFixedOperationCostMicros n p)
      | (Operation_metered n dims, Tiered_operation_price tiers) \<Rightarrow>
          (case resolveTieredOperationPrice tiers dims of
             None \<Rightarrow> Inr None
           | Some unitPrice \<Rightarrow> map_sum id Some (roundedMicros (js_times n unitPrice)))
      | _ \<Rightarrow> Inr None)"

section \<open>Vcoin\<close>

definition ONE_USD_IN_MICROS :: int where
  "ONE_USD_IN_MICROS = 1000000"

definition positiveInteger :: "js_number \<Rightarrow> bool" where
  "positiveInteger x \<longleftrightarrow> isInteger x \<and> js_less (Fin 0) x"

definition convertUsdMicrosToVcoin :: "int \<Rightarrow> js_number \<Rightarrow> int outcome" where
  "convertUsdMicrosToVcoin micros rate =
     (if micros < 0 then Inl (RangeError ''convertUsdMicrosToVcoin: micros must be non-negative'')
      else if \<not> positiveInteger rate
      then Inl (RangeError ''convertUsdMicrosToVcoin: rate must be a positive integer'')
      else if micros = 0 then Inr 0
      else (let HALF = ONE_USD_IN_MICROS div 2; numerator = micros * js_int rate
            in Inr ((numerator + HALF) div ONE_USD_IN_MICROS)))"

definition computeVideoVcoinCost :: "metering \<Rightarrow> model_profile \<Rightarrow> js_number \<Rightarrow> (int \<times> int) outcome" where
  "computeVideoVcoinCost m profile vcoinExchangeRate =
     (if \<not> positiveInteger vcoinExchangeRate
      then Inl (RangeError ''computeVideoVcoinCost: vcoinExchangeRate must be a positive integer'')
      else case m of
        Time_metered durationSeconds \<Rightarrow>
          if \<not> isFinite durationSeconds \<or> js_le durationSeconds (Fin 0)
          then Inl (RangeError ''computeVideoVcoinCost: billingFacts.metering.durationSeconds must be > 0'')
          else (case mp_price profile of
            Time_metered_price unit pricePerUnit \<Rightarrow>
              (let billableUnits = (if unit = ''minute'' then js_over durationSeconds 60 else durationSeconds) in
               case roundedMicros (js_times (js_times billableUnits pricePerUnit) (jsInt 1000000)) of
                 Inl e \<Rightarrow> Inl e
               | Inr usdMicros \<Rightarrow>
                   if usdMicros = 0 then Inr (0, usdMicros)
                   else (let numerator = usdMicros * js_int vcoinExchangeRate;
                             vcCost = (numerator + ONE_USD_IN_MICROS - 1) div ONE_USD_IN_MICROS
                         in Inr (vcCost, usdMicros)))
          | _ \<Rightarrow> Inl (PlainError ''computeVideoVcoinCost: catalog profile billingMode must be time_metered''))
      | _ \<Rightarrow> Inl (PlainError ''computeVideoVcoinCost: billingFacts.metering.meteringKind must be time_metered''))"

definition parseVideoVcoinMonthlyGrant :: "json \<Rightarrow> int" where
  "parseVideoVcoinMonthlyGrant v =
     (case v of JNum x \<Rightarrow> if isInteger x \<and> js_le (Fin 0) x then js_int x else 0 | _ \<Rightarrow> 0)"

subsection \<open>The cost of a typical video\<close>

definition TYPICAL_VIDEO_SECONDS :: int where
  "TYPICAL_VIDEO_SECONDS = 5"

definition computeAvgVideoUsdPerSecond :: "model_profile list list \<Rightarrow> js_number option" where
  "computeAvgVideoUsdPerSecond catalogs =
     (let samples = List.map_filter (\<lambda>profile.
            if mp_active profile \<and> ''video'' \<in> set (mp_capabilities profile)
            then (case mp_price profile of
                    Time_metered_price unit pricePerUnit \<Rightarrow>
                      Some (if unit = ''minute'' then js_over pricePerUnit 60 else pricePerUnit)
                  | _ \<Rightarrow> None)
            else None) (concat catalogs)
      in if samples = [] then None
         else Some (js_over (foldl js_plus (Fin 0) samples) (of_nat (length samples))))"

text \<open>BigInt division truncates.\<close>

definition bigDiv :: "int \<Rightarrow> int \<Rightarrow> int" where
  "bigDiv a b = sgn a * sgn b * (\<bar>a\<bar> div \<bar>b\<bar>)"

definition computeTypicalCostVc :: "js_number \<Rightarrow> js_number \<Rightarrow> js_number \<Rightarrow> int outcome" where
  "computeTypicalCostVc seconds avgUsdPerSecond vcoinExchangeRate =
     (case roundedMicros (js_times (js_times seconds avgUsdPerSecond) (jsInt 1000000)) of
        Inl e \<Rightarrow> Inl e
      | Inr usdMicros \<Rightarrow>
          if usdMicros = 0 then Inr 0
          else (case toBigInt (js_round vcoinExchangeRate) of
                  Inl e \<Rightarrow> Inl e
                | Inr rate \<Rightarrow> Inr (bigDiv (usdMicros * rate + ONE_USD_IN_MICROS - 1) ONE_USD_IN_MICROS)))"

record typical_cost =
  ty_typicalSeconds :: "js_number option"
  ty_typicalCostVc :: "int option"
  ty_fromPlatformFallback :: bool

text \<open>\<open>avgSecondsResult\<close> is what the database answers for the mean duration.\<close>

definition resolveTypicalVideoVcoinCost ::
  "js_number option \<Rightarrow> model_profile list list \<Rightarrow> js_number \<Rightarrow> typical_cost outcome" where
  "resolveTypicalVideoVcoinCost avgSecondsResult catalogs vcoinExchangeRate =
     (case computeAvgVideoUsdPerSecond catalogs of
        None \<Rightarrow> Inr \<lparr>ty_typicalSeconds = None, ty_typicalCostVc = None, ty_fromPlatformFallback = False\<rparr>
      | Some avgUsdPerSecond \<Rightarrow>
          (let hasHistory = (case avgSecondsResult of Some x \<Rightarrow> isFinite x \<and> js_less (Fin 0) x | None \<Rightarrow> False);
               typicalSeconds = (if hasHistory then the avgSecondsResult else jsInt TYPICAL_VIDEO_SECONDS)
           in case computeTypicalCostVc typicalSeconds avgUsdPerSecond vcoinExchangeRate of
                Inl e \<Rightarrow> Inl e
              | Inr cost \<Rightarrow> Inr \<lparr>ty_typicalSeconds = (if hasHistory then Some typicalSeconds else None),
                                ty_typicalCostVc = Some cost, ty_fromPlatformFallback = \<not> hasHistory\<rparr>))"

section \<open>The two roundings\<close>

lemma ceilDiv_eq: "(n + ONE_USD_IN_MICROS - 1) div ONE_USD_IN_MICROS = \<lceil>of_int n / (1000000 :: rat)\<rceil>"
proof -
  have "\<lceil>of_int n / (of_int 1000000 :: rat)\<rceil> = - ((- n) div 1000000)" by (rule ceiling_divide_eq_div)
  moreover have "(- n) div 1000000 = - ((n + 999999) div 1000000)"
  proof (rule int_div_pos_eq)
    let ?q = "(n + 999999) div 1000000" and ?r = "(n + 999999) mod 1000000"
    have e: "n + 999999 = 1000000 * ?q + ?r" by (simp only: mult_div_mod_eq)
    show "- n = 1000000 * (- ?q) + (999999 - ?r)" using e by linarith
    have "?r < 1000000" by simp
    then show "0 \<le> 999999 - ?r" by linarith
    have "0 \<le> ?r" by simp
    then show "999999 - ?r < 1000000" by linarith
  qed
  ultimately show ?thesis by (simp add: ONE_USD_IN_MICROS_def)
qed

lemma roundedMicros_nonneg: "roundedMicros x = Inr n \<Longrightarrow> 0 \<le> n"
  by (cases x) (auto simp: roundedMicros_def toBigInt_def js_round_def js_max_def isInteger_def js_int_def
      js_less_def split: if_splits)

lemma cost_micros:
  assumes "computeVideoVcoinCost m profile rate = Inr (vc, micros)"
  obtains seconds unit price where "m = Time_metered seconds" "mp_price profile = Time_metered_price unit price"
    "calculateTimeMeteredCostMicros seconds unit price Model_catalog_plain_usd = Inr micros"
    "positiveInteger rate" "vc = (if micros = 0 then 0 else (micros * js_int rate + ONE_USD_IN_MICROS - 1) div ONE_USD_IN_MICROS)"
  using assms unfolding computeVideoVcoinCost_def calculateTimeMeteredCostMicros_def Let_def MICROS_PER_USD_def
  by (auto split: if_splits metering.splits price_metadata.splits sum.splits)

text \<open>A video is charged the exact ceiling of its ledger cost. When \<open>computeVideoVcoinCost\<close> answers,
  its USD micros are the amount the cost ledger computes for the same facts and catalog row, and
  the Vcoin charged is the least integer not below micros times rate per dollar.\<close>

theorem video_cost_is_ceiling:
  assumes "computeVideoVcoinCost m profile rate = Inr (vc, micros)"
  shows "calculateBillingFactsCostMicros m profile (Some Model_catalog_plain_usd) = Inr (Some micros) \<and>
    vc = \<lceil>of_int (micros * js_int rate) / (1000000 :: rat)\<rceil> \<and> 0 \<le> micros \<and> 0 \<le> vc"
  using assms
proof (rule cost_micros)
  fix seconds unit price
  assume *: "m = Time_metered seconds" "mp_price profile = Time_metered_price unit price"
    "calculateTimeMeteredCostMicros seconds unit price Model_catalog_plain_usd = Inr micros" "positiveInteger rate"
    "vc = (if micros = 0 then 0 else (micros * js_int rate + ONE_USD_IN_MICROS - 1) div ONE_USD_IN_MICROS)"
  have n: "0 \<le> micros"
    using *(3) roundedMicros_nonneg by (auto simp: calculateTimeMeteredCostMicros_def Let_def split: if_splits)
  have r: "1 \<le> js_int rate" using *(4) js_int_ge_one by (simp add: positiveInteger_def)
  have vc: "vc = \<lceil>of_int (micros * js_int rate) / (1000000 :: rat)\<rceil>"
    using *(5) by (simp add: ceilDiv_eq del: of_int_mult)
  moreover have "0 \<le> (of_int (micros * js_int rate) / (1000000 :: rat))" using n r by simp
  then have "0 \<le> vc" unfolding vc by linarith
  ultimately show ?thesis using * n by (simp add: calculateBillingFactsCostMicros_def)
qed

definition demoVideoProfile :: model_profile where
  "demoVideoProfile = \<lparr>mp_capabilities = [''video''], mp_active = True,
     mp_price = Time_metered_price ''second'' (Fin (14 / 100))\<rparr>"

lemma demo_floor: "\<lfloor>1400001 / 2 :: rat\<rfloor> = 700000"
  by (simp add: floor_eq_iff)

lemma demo_video_cost: "computeVideoVcoinCost (Time_metered (Fin 5)) demoVideoProfile (Fin 20) = Inr (14, 700000)"
  by (simp add: computeVideoVcoinCost_def demoVideoProfile_def positiveInteger_def roundedMicros_def js_round_def
      toBigInt_def ONE_USD_IN_MICROS_def Let_def demo_floor)

theorem video_cost_is_ceiling_witness:
  "\<lceil>of_int (700000 * 20) / (1000000 :: rat)\<rceil> = 14 \<and>
   calculateBillingFactsCostMicros (Time_metered (Fin 5)) demoVideoProfile (Some Model_catalog_plain_usd) = Inr (Some 700000)"
  using video_cost_is_ceiling [OF demo_video_cost] by simp

text \<open>The general conversion rounds to the nearest Vcoin, half up; the charge is never below it and at
  most one Vcoin above.\<close>

lemma conversion_rounds_half_up:
  assumes "convertUsdMicrosToVcoin micros rate = Inr c"
  shows "(2 * c - 1) * 1000000 \<le> 2 * (micros * js_int rate) \<and> 2 * (micros * js_int rate) < (2 * c + 1) * 1000000"
proof -
  have "c = (micros * js_int rate + 500000) div 1000000"
    using assms by (auto simp: convertUsdMicrosToVcoin_def ONE_USD_IN_MICROS_def Let_def split: if_splits)
  moreover have "1000000 * (x div 1000000) \<le> x \<and> x < 1000000 * (x div 1000000) + 1000000" for x :: int
    using mult_div_mod_eq [of 1000000 x] pos_mod_bound [of 1000000 x] pos_mod_sign [of 1000000 x] by linarith
  ultimately have "1000000 * c \<le> micros * js_int rate + 500000" "micros * js_int rate + 500000 < 1000000 * c + 1000000"
    by blast+
  then show ?thesis by (simp add: algebra_simps)
qed

lemma charge_within_one_of_conversion:
  assumes "computeVideoVcoinCost m profile rate = Inr (vc, micros)"
  shows "\<exists>c. convertUsdMicrosToVcoin micros rate = Inr c \<and> c \<le> vc \<and> vc \<le> c + 1"
  using assms
proof (rule cost_micros)
  fix seconds unit price
  assume *: "calculateTimeMeteredCostMicros seconds unit price Model_catalog_plain_usd = Inr micros" "positiveInteger rate"
    "vc = (if micros = 0 then 0 else (micros * js_int rate + ONE_USD_IN_MICROS - 1) div ONE_USD_IN_MICROS)"
  have n: "0 \<le> micros"
    using *(1) roundedMicros_nonneg by (auto simp: calculateTimeMeteredCostMicros_def Let_def split: if_splits)
  let ?n = "micros * js_int rate"
  have mono: "x \<le> y \<Longrightarrow> x div 1000000 \<le> y div 1000000" for x y :: int by (rule zdiv_mono1) simp_all
  have "(?n + 500000) div 1000000 \<le> (?n + 999999) div 1000000" by (rule mono) linarith
  moreover have "(?n + 999999) div 1000000 \<le> (?n + 500000 + 1000000) div 1000000" by (rule mono) linarith
  then have "(?n + 999999) div 1000000 \<le> (?n + 500000) div 1000000 + 1" by (simp only: div_add_self2 zero_neq_numeral [symmetric] not_False_eq_True)
  ultimately show ?thesis using * n by (auto simp: convertUsdMicrosToVcoin_def ONE_USD_IN_MICROS_def Let_def)
qed

end
