(* ===== verification/VcoinWallet.thy ===== *)
theory VcoinWallet
  imports BillingStore ModelPricing
begin

text \<open>
  The Vcoin wallet of a workspace and its ledger (\<open>prisma-workspace-vcoin-balance.repository.ts\<close>,
  \<open>prisma-workspace-vcoin-ledger-event.repository.ts\<close>), the monthly grant
  (\<open>vcoin/grant-monthly-vcoin.service.ts\<close>), package purchases and their reversal
  (\<open>manage-media-package-purchase.service.ts\<close>) and the charge for a delivered video
  (\<open>media/media-delivery.service.ts\<close>). \<open>raced\<close> says that another transaction inserts the wallet row
  between the read and the insert; the same race of the autocommitting \<open>getOrCreate\<close> ends in
  reading the other's row, as if it had been there before.
\<close>

section \<open>The repositories\<close>

record balance_change =
  bc_previousBalanceVc :: int
  bc_balanceVc :: int
  bc_at :: int

definition findWallet :: "string \<Rightarrow> (billing_data, wallet option) oper" where
  "findWallet w d = (Inr (walletTable d w), d)"

definition createWallet :: "bool \<Rightarrow> string \<Rightarrow> int \<Rightarrow> (billing_data, wallet) oper" where
  "createWallet raced w now d =
     (if raced \<or> walletTable d w \<noteq> None then (Inl uniqueViolation, d)
      else (let row = \<lparr>wa_workspaceId = w, wa_balanceVc = 0, wa_updatedAt = now\<rparr>
            in (Inr row, d\<lparr>walletTable := (walletTable d)(w \<mapsto> row)\<rparr>)))"

definition addToBalance :: "string \<Rightarrow> int \<Rightarrow> int \<Rightarrow> (billing_data, wallet) oper" where
  "addToBalance w n now d =
     (case walletTable d w of
        None \<Rightarrow> (Inl recordNotFound, d)
      | Some row \<Rightarrow>
          (let row' = row\<lparr>wa_balanceVc := wa_balanceVc row + n, wa_updatedAt := now\<rparr>
           in (Inr row', d\<lparr>walletTable := (walletTable d)(w \<mapsto> row')\<rparr>)))"

definition getOrCreate :: "string \<Rightarrow> int \<Rightarrow> (billing_txn, wallet) oper" where
  "getOrCreate w now =
     bindS (outside (findWallet w)) (\<lambda>existing.
       case existing of
         Some row \<Rightarrow> returnS row
       | None \<Rightarrow>
           catchS (outside (createWallet False w now))
             (\<lambda>e. if e = uniqueViolation
                  then bindS (outside (findWallet w)) (\<lambda>found.
                         case found of Some row \<Rightarrow> returnS row | None \<Rightarrow> throwS e)
                  else throwS e))"

definition ensureRow :: "bool \<Rightarrow> string \<Rightarrow> int \<Rightarrow> (billing_txn, wallet) oper" where
  "ensureRow raced w now =
     bindS (stmt (findWallet w)) (\<lambda>existing.
       case existing of
         Some row \<Rightarrow> returnS row
       | None \<Rightarrow>
           catchS (stmt (createWallet raced w now))
             (\<lambda>e. if e = uniqueViolation
                  then bindS (stmt (findWallet w)) (\<lambda>found.
                         case found of Some row \<Rightarrow> returnS row | None \<Rightarrow> throwS e)
                  else throwS e))"

text \<open>Both are always given a transaction.\<close>

definition debit :: "bool \<Rightarrow> string \<Rightarrow> js_number \<Rightarrow> int \<Rightarrow> (billing_txn, balance_change) oper" where
  "debit raced w amountVc now =
     (if \<not> isInteger amountVc
      then throwS (RangeError ''WorkspaceVcoinBalanceRepository.debit: amountVc must be an integer'')
      else if js_less amountVc (Fin 0)
      then throwS (RangeError ''WorkspaceVcoinBalanceRepository.debit: amountVc must be non-negative'')
      else bindS (ensureRow raced w now) (\<lambda>ensured.
        if js_int amountVc = 0
        then returnS \<lparr>bc_previousBalanceVc = wa_balanceVc ensured, bc_balanceVc = wa_balanceVc ensured,
                       bc_at = wa_updatedAt ensured\<rparr>
        else bindS (stmt (addToBalance w (- js_int amountVc) now)) (\<lambda>updated.
          returnS \<lparr>bc_previousBalanceVc = wa_balanceVc ensured, bc_balanceVc = wa_balanceVc updated,
                    bc_at = wa_updatedAt updated\<rparr>)))"

definition credit :: "bool \<Rightarrow> string \<Rightarrow> js_number \<Rightarrow> vcoin_kind \<Rightarrow> int \<Rightarrow> (billing_txn, balance_change) oper" where
  "credit raced w amountVc kind now =
     (if \<not> isInteger amountVc
      then throwS (RangeError ''WorkspaceVcoinBalanceRepository.credit: amountVc must be an integer'')
      else if js_less amountVc (Fin 0)
      then throwS (RangeError ''WorkspaceVcoinBalanceRepository.credit: amountVc must be non-negative'')
      else if kind \<notin> {Monthly_grant, Package_purchase, Manual_kind}
      then throwS (RangeError ''WorkspaceVcoinBalanceRepository.credit: unknown kind'')
      else bindS (ensureRow raced w now) (\<lambda>ensured.
        if js_int amountVc = 0
        then returnS \<lparr>bc_previousBalanceVc = wa_balanceVc ensured, bc_balanceVc = wa_balanceVc ensured,
                       bc_at = wa_updatedAt ensured\<rparr>
        else bindS (stmt (addToBalance w (js_int amountVc) now)) (\<lambda>updated.
          returnS \<lparr>bc_previousBalanceVc = wa_balanceVc ensured, bc_balanceVc = wa_balanceVc updated,
                    bc_at = wa_updatedAt updated\<rparr>)))"

definition eventKey :: "vcoin_event \<Rightarrow> string \<times> vcoin_kind \<times> string" where
  "eventKey e = (ve_workspaceId e, ve_kind e, ve_referenceKey e)"

definition insertVcoinEvent :: "vcoin_event \<Rightarrow> (billing_data, unit) oper" where
  "insertVcoinEvent e d =
     (if eventKey e \<in> eventKey ` set (vcoinLog d) then (Inl uniqueViolation, d)
      else (Inr (), d\<lparr>vcoinLog := vcoinLog d @ [e]\<rparr>))"

text \<open>The result is \<open>recorded\<close>.\<close>

definition recordEvent :: "vcoin_event \<Rightarrow> (billing_txn, bool) oper" where
  "recordEvent e =
     catchS (bindS (stmt (insertVcoinEvent e)) (\<lambda>_. returnS True))
       (\<lambda>err. if err = uniqueViolation then returnS False else throwS err)"

section \<open>The monthly grant\<close>

record grant_result =
  gr_creditedVc :: int
  gr_alreadyGranted :: bool
  gr_balanceVc :: int

definition creditPeriod :: "bool \<Rightarrow> string \<Rightarrow> string \<Rightarrow> int \<Rightarrow> int \<Rightarrow> (billing_txn, grant_result) oper" where
  "creditPeriod raced w planCode periodStartedAt now =
     bindS (stmt (findPlan planCode)) (\<lambda>plan.
       case plan of
         None \<Rightarrow> throwS (PlanNotFoundForVcoinGrantError planCode)
       | Some p \<Rightarrow>
           (let grant = parseVideoVcoinMonthlyGrant
                  (jgetIn ''videoVcoinMonthlyGrant'' (asObject (pl_billingProviderHints p))) in
            if grant = 0
            then bindS (getOrCreate w now) (\<lambda>walletRow.
              returnS \<lparr>gr_creditedVc = 0, gr_alreadyGranted = False, gr_balanceVc = wa_balanceVc walletRow\<rparr>)
            else bindS (recordEvent \<lparr>ve_workspaceId = w, ve_kind = Monthly_grant, ve_amountVc = grant,
                          ve_referenceKey = toISOString periodStartedAt, ve_planCode = Some planCode\<rparr>) (\<lambda>recorded.
              if \<not> recorded
              then bindS (getOrCreate w now) (\<lambda>walletRow.
                returnS \<lparr>gr_creditedVc = 0, gr_alreadyGranted = True, gr_balanceVc = wa_balanceVc walletRow\<rparr>)
              else bindS (credit raced w (jsInt grant) Monthly_grant now) (\<lambda>creditResult.
                returnS \<lparr>gr_creditedVc = grant, gr_alreadyGranted = False,
                          gr_balanceVc = bc_balanceVc creditResult\<rparr>))))"

section \<open>Package purchases\<close>

definition PACKAGE_INTENT_PLAN_SENTINEL :: string where
  "PACKAGE_INTENT_PLAN_SENTINEL = ''__media_package__''"

definition findIntent :: "string \<Rightarrow> (billing_data, payment_intent option) oper" where
  "findIntent i d = (Inr (intentTable d i), d)"

definition isVideoItem :: "package_item \<Rightarrow> bool" where
  "isVideoItem item \<longleftrightarrow> pk_packageType item = ''video_generate''"

definition unitsTotal :: "package_item list \<Rightarrow> int" where
  "unitsTotal items = foldl (\<lambda>sum item. sum + pk_units item) 0 items"

definition upsertGrant ::
  "string \<Rightarrow> string \<Rightarrow> string \<Rightarrow> int \<times> int \<Rightarrow> package_item \<Rightarrow> (billing_data, unit) oper" where
  "upsertGrant paymentIntentId w currency period item d =
     (let key = (paymentIntentId, pk_catalogItemId item) in
      case packageGrants d key of
        Some _ \<Rightarrow> (Inr (), d)
      | None \<Rightarrow>
          (Inr (), d\<lparr>packageGrants := (packageGrants d)(key \<mapsto>
             \<lparr>pg_workspaceId = w, pg_packageCatalogItemId = pk_catalogItemId item,
              pg_toolCode = pk_packageType item, pg_grantedUnits = pk_units item,
              pg_amountMinorSnapshot = pk_amountMinor item, pg_currencySnapshot = currency,
              pg_paymentIntentId = paymentIntentId, pg_periodStartedAt = fst period,
              pg_periodEndsAt = snd period, pg_status = ''active''\<rparr>)\<rparr>))"

fun upsertGrants ::
  "string \<Rightarrow> string \<Rightarrow> string \<Rightarrow> int \<times> int \<Rightarrow> package_item list \<Rightarrow> (billing_txn, unit) oper" where
  "upsertGrants i w currency period [] = returnS ()"
| "upsertGrants i w currency period (item # items) =
     bindS (stmt (upsertGrant i w currency period item)) (\<lambda>_. upsertGrants i w currency period items)"

text \<open>The body of the fulfillment transaction.\<close>

definition fulfillTx ::
  "bool \<Rightarrow> string \<Rightarrow> string \<Rightarrow> string \<Rightarrow> int \<times> int \<Rightarrow> package_item list \<Rightarrow> int \<Rightarrow> (billing_txn, unit) oper" where
  "fulfillTx raced paymentIntentId w currency period items now =
     (let videoVcCreditTotal = unitsTotal (filter isVideoItem items);
          nonVideoItems = filter (\<lambda>item. \<not> isVideoItem item) items in
      bindS
        (if videoVcCreditTotal > 0
         then bindS (recordEvent \<lparr>ve_workspaceId = w, ve_kind = Package_purchase, ve_amountVc = videoVcCreditTotal,
                       ve_referenceKey = paymentIntentId, ve_planCode = None\<rparr>) (\<lambda>recorded.
           if recorded
           then bindS (credit raced w (jsInt videoVcCreditTotal) Package_purchase now) (\<lambda>_. returnS ())
           else returnS ())
         else returnS ())
        (\<lambda>_. upsertGrants paymentIntentId w currency period nonVideoItems))"

text \<open>\<open>period\<close> is the answer of the subscription and quota period services, or their error.\<close>

definition fulfillPackagePaymentIntent ::
  "bool \<Rightarrow> bool \<Rightarrow> (int \<times> int) outcome \<Rightarrow> string \<Rightarrow> string \<Rightarrow> (billing_data database, unit) oper" where
  "fulfillPackagePaymentIntent reports raced period paymentIntentId w =
     bindS (tx (\<lambda>_. findIntent paymentIntentId)) (\<lambda>found.
       case found of
         None \<Rightarrow> throwS (NotFoundException ''Payment intent not found.'')
       | Some intent \<Rightarrow>
           if pi_targetPlanCode intent \<noteq> PACKAGE_INTENT_PLAN_SENTINEL
           then throwS (BadRequestException ''This payment intent is not a media package purchase.'')
           else (case pi_packageItems intent of
             None \<Rightarrow> throwS (BadRequestException ''Payment intent has no package items in metadata.'')
           | Some items \<Rightarrow>
               if items = []
               then throwS (BadRequestException ''Payment intent has no package items in metadata.'')
               else (case (if filter (\<lambda>item. \<not> isVideoItem item) items = [] then Inr (0, 0) else period) of
                 Inl e \<Rightarrow> throwS e
               | Inr p \<Rightarrow> pgTx reports (fulfillTx raced paymentIntentId w (pi_currency intent) p items))))"

definition reverseTx :: "bool \<Rightarrow> string \<Rightarrow> string \<Rightarrow> int \<Rightarrow> int \<Rightarrow> (billing_txn, unit) oper" where
  "reverseTx raced paymentIntentId w videoVcDebitTotal now =
     bindS (recordEvent \<lparr>ve_workspaceId = w, ve_kind = Package_refund, ve_amountVc = - videoVcDebitTotal,
              ve_referenceKey = paymentIntentId, ve_planCode = None\<rparr>) (\<lambda>recorded.
       if \<not> recorded then returnS ()
       else bindS (debit raced w (jsInt videoVcDebitTotal) now) (\<lambda>_. returnS ()))"

definition reversePackagePaymentIntent ::
  "bool \<Rightarrow> bool \<Rightarrow> string \<Rightarrow> string \<Rightarrow> (billing_data database, unit) oper" where
  "reversePackagePaymentIntent reports raced paymentIntentId w =
     bindS (tx (\<lambda>_. findIntent paymentIntentId)) (\<lambda>found.
       case found of
         None \<Rightarrow> throwS (NotFoundException ''Payment intent not found.'')
       | Some intent \<Rightarrow>
           (case pi_packageItems intent of
             None \<Rightarrow> throwS (BadRequestException ''Payment intent has no package items in metadata.'')
           | Some items \<Rightarrow>
               if items = []
               then throwS (BadRequestException ''Payment intent has no package items in metadata.'')
               else (let videoVcDebitTotal = unitsTotal (filter isVideoItem items) in
                 if videoVcDebitTotal = 0 then returnS ()
                 else pgTx reports (reverseTx raced paymentIntentId w videoVcDebitTotal))))"

section \<open>The charge for a delivered video\<close>

text \<open>\<open>facts\<close> are the artifact's billing facts, \<open>profile\<close> the catalog row found for them.\<close>

definition settleVideoGenerateWithVcoinDebit ::
  "bool \<Rightarrow> bool \<Rightarrow> bool \<Rightarrow> metering option \<Rightarrow> model_profile option \<Rightarrow> js_number \<Rightarrow> string \<Rightarrow>
   (billing_data database, unit) oper" where
  "settleVideoGenerateWithVcoinDebit reports raced hasAssistant facts profile vcoinExchangeRate w =
     (if \<not> hasAssistant then returnS ()
      else case facts of
        None \<Rightarrow> throwS (PlainError ''video_generate settle requires billingFacts'')
      | Some m \<Rightarrow>
          (case profile of
             None \<Rightarrow> throwS (PlainError ''video_generate settle: no catalog row'')
           | Some p \<Rightarrow>
               (case computeVideoVcoinCost m p vcoinExchangeRate of
                  Inl e \<Rightarrow> throwS e
                | Inr (vcCost, usdMicros) \<Rightarrow>
                    bindS (pgTx reports (debit raced w (jsInt vcCost))) (\<lambda>_. returnS ()))))"

end
