(* ===== verification/SubscriptionLifecycle.thy ===== *)
theory SubscriptionLifecycle
  imports VcoinWallet
begin

text \<open>
  The subscription state machine
  (\<open>manage-workspace-subscription-lifecycle.service.ts\<close>): trial, paid, grace and fallback, with
  cancellation, pending plan changes and the event log. Each operation is one transaction
  followed by the calls that mark assistants dirty, queue a rollout and emit notifications.

  \<open>settings\<close> is what the settings service answers, \<open>parseDate\<close> is \<open>new Date(s).getTime()\<close>,
  \<open>None\<close> for an invalid date; operations given a date string take its parsed value. The clock
  does not move within one transaction. A merged metadata object lists the patch last.
\<close>

section \<open>Metadata and pending plan changes\<close>

datatype change_kind = Free | Downgrade
datatype billing_period = Month | Year

record pending_change =
  pc_targetPlanCode :: string
  pc_targetPlanDisplayName :: string
  pc_amountMinor :: "js_number option"
  pc_currency :: "string option"
  pc_billingPeriod :: "billing_period option"
  pc_effectiveAt :: string
  pc_nextChargeAt :: "string option"
  pc_changeKind :: change_kind

definition mergeMetadata :: "json \<Rightarrow> (string \<times> json) list \<Rightarrow> json" where
  "mergeMetadata current patch =
     (let base = (case asObject current of Some obj \<Rightarrow> obj | None \<Rightarrow> [])
      in JObj (filter (\<lambda>(k, _). k \<notin> fst ` set patch) base @ patch))"

definition jstring :: "json \<Rightarrow> string option" where
  "jstring v = (case v of JStr s \<Rightarrow> Some s | _ \<Rightarrow> None)"

definition jnumber :: "json \<Rightarrow> js_number option" where
  "jnumber v = (case v of JNum x \<Rightarrow> Some x | _ \<Rightarrow> None)"

definition readPendingPlanChange :: "json \<Rightarrow> pending_change option" where
  "readPendingPlanChange value =
     (case asObject (jgetIn ''pendingPlanChange'' (asObject value)) of
        None \<Rightarrow> None
      | Some row \<Rightarrow>
          (case (jget ''targetPlanCode'' row, jget ''targetPlanDisplayName'' row, jget ''effectiveAt'' row) of
             (JStr code, JStr name, JStr effectiveAt) \<Rightarrow>
               if jget ''changeKind'' row \<noteq> JStr ''free'' \<and> jget ''changeKind'' row \<noteq> JStr ''downgrade'' then None
               else Some \<lparr>pc_targetPlanCode = code, pc_targetPlanDisplayName = name,
                          pc_amountMinor = jnumber (jget ''amountMinor'' row),
                          pc_currency = jstring (jget ''currency'' row),
                          pc_billingPeriod = (if jget ''billingPeriod'' row = JStr ''month'' then Some Month
                            else if jget ''billingPeriod'' row = JStr ''year'' then Some Year else None),
                          pc_effectiveAt = effectiveAt, pc_nextChargeAt = jstring (jget ''nextChargeAt'' row),
                          pc_changeKind = (if jget ''changeKind'' row = JStr ''free'' then Free else Downgrade)\<rparr>
           | _ \<Rightarrow> None))"

text \<open>A pending change as the JSON value it is stored as.\<close>

definition pendingJson :: "pending_change \<Rightarrow> json" where
  "pendingJson p =
     JObj [(''targetPlanCode'', JStr (pc_targetPlanCode p)),
           (''targetPlanDisplayName'', JStr (pc_targetPlanDisplayName p)),
           (''amountMinor'', case pc_amountMinor p of Some x \<Rightarrow> JNum x | None \<Rightarrow> JNull),
           (''currency'', case pc_currency p of Some s \<Rightarrow> JStr s | None \<Rightarrow> JNull),
           (''billingPeriod'', case pc_billingPeriod p of Some Month \<Rightarrow> JStr ''month'' | Some Year \<Rightarrow> JStr ''year'' | None \<Rightarrow> JNull),
           (''effectiveAt'', JStr (pc_effectiveAt p)),
           (''nextChargeAt'', case pc_nextChargeAt p of Some s \<Rightarrow> JStr s | None \<Rightarrow> JNull),
           (''changeKind'', JStr (case pc_changeKind p of Free \<Rightarrow> ''free'' | Downgrade \<Rightarrow> ''downgrade''))]"

definition samePendingPlanChange :: "pending_change \<Rightarrow> pending_change \<Rightarrow> bool" where
  "samePendingPlanChange current nxt \<longleftrightarrow>
     pc_targetPlanCode current = pc_targetPlanCode nxt \<and>
     pc_targetPlanDisplayName current = pc_targetPlanDisplayName nxt \<and>
     pc_amountMinor current = pc_amountMinor nxt \<and> pc_amountMinor current \<noteq> Some NotANumber \<and>
     pc_currency current = pc_currency nxt \<and> pc_billingPeriod current = pc_billingPeriod nxt \<and>
     pc_effectiveAt current = pc_effectiveAt nxt \<and> pc_nextChargeAt current = pc_nextChargeAt nxt \<and>
     pc_changeKind current = pc_changeKind nxt"

definition shouldClearPendingPlanChangeAfterPaidTransition ::
  "(string \<Rightarrow> int option) \<Rightarrow> pending_change option \<Rightarrow> string \<Rightarrow> string \<Rightarrow> int \<Rightarrow> bool" where
  "shouldClearPendingPlanChangeAfterPaidTransition parseDate pending currentPlanCode nextPlanCode nextPeriodStartedAt =
     (case pending of
        None \<Rightarrow> False
      | Some p \<Rightarrow>
          if pc_targetPlanCode p = nextPlanCode \<or> currentPlanCode \<noteq> nextPlanCode then True
          else (case parseDate (pc_effectiveAt p) of
                  None \<Rightarrow> True
                | Some effectiveAt \<Rightarrow> effectiveAt \<le> nextPeriodStartedAt))"

section \<open>The event log and the calls after a transaction\<close>

record event_refs =
  er_relatedPaymentIntentRef :: "string option"
  er_relatedProviderEventRef :: "string option"
  er_metadata :: "(string \<times> json) list option"

record lifecycle_input =
  li_workspaceId :: string
  li_userId :: "string option"
  li_source :: event_source
  li_refs :: "event_refs option"

record lifecycle_settings =
  ls_gracePeriodDays :: int
  ls_globalFallbackPlanCode :: "string option"

definition lifecycleEvent ::
  "lifecycle_input \<Rightarrow> string \<Rightarrow> subscription option \<Rightarrow> subscription \<Rightarrow> string \<Rightarrow> lifecycle_event" where
  "lifecycleEvent i code previous nxt eid =
     \<lparr>le_id = eid, le_workspaceId = li_workspaceId i, le_userId = li_userId i,
      le_subscriptionId = sub_id nxt, le_eventCode = code,
      le_previousStatus = map_option sub_status previous, le_nextStatus = sub_status nxt,
      le_previousPlanCode = map_option sub_planCode previous, le_nextPlanCode = sub_planCode nxt,
      le_previousPeriodStartedAt = Option.bind previous sub_currentPeriodStartedAt,
      le_previousPeriodEndsAt = Option.bind previous sub_currentPeriodEndsAt,
      le_nextPeriodStartedAt = sub_currentPeriodStartedAt nxt,
      le_nextPeriodEndsAt = sub_currentPeriodEndsAt nxt,
      le_source = li_source i,
      le_relatedPaymentIntentRef = Option.bind (li_refs i) er_relatedPaymentIntentRef,
      le_relatedProviderEventRef = Option.bind (li_refs i) er_relatedProviderEventRef,
      le_metadata = JObj (case Option.bind (li_refs i) er_metadata of Some m \<Rightarrow> m | None \<Rightarrow> [])\<rparr>"

definition insertLifecycleEvent :: "(string \<Rightarrow> lifecycle_event) \<Rightarrow> (billing_data, string) oper" where
  "insertLifecycleEvent mk d =
     (let eid = eventIdOf d (length (lifecycleLog d))
      in (Inr eid, d\<lparr>lifecycleLog := lifecycleLog d @ [mk eid]\<rparr>))"

definition appendLifecycleEvent ::
  "lifecycle_input \<Rightarrow> string \<Rightarrow> subscription option \<Rightarrow> subscription \<Rightarrow> (billing_txn, string) oper" where
  "appendLifecycleEvent i code previous nxt =
     stmt (insertLifecycleEvent (lifecycleEvent i code previous nxt))"

definition markWorkspaceAssistantsConfigDirty :: "string \<Rightarrow> (billing_data database, unit) oper" where
  "markWorkspaceAssistantsConfigDirty w =
     tx (\<lambda>now d. (Inr (), d\<lparr>configDirtyAt := (configDirtyAt d)(w \<mapsto> now)\<rparr>))"

text \<open>\<open>{ reason, ...scopeMetadata }\<close>: a \<open>reason\<close> among the scope metadata wins.\<close>

definition queueBillingLifecycleRollout ::
  "string \<Rightarrow> string option \<Rightarrow> string \<Rightarrow> (string \<times> json) list \<Rightarrow> (billing_data database, unit) oper" where
  "queueBillingLifecycleRollout w actor reason scope =
     bindS (tx (\<lambda>_ d. (Inr (configGeneration d + 1), d\<lparr>configGeneration := configGeneration d + 1\<rparr>))) (\<lambda>targetGeneration.
     tx (\<lambda>_ d. (Inr (), d\<lparr>rolloutLog := rolloutLog d @ [
       \<lparr>rr_actorUserId = actor, rr_workspaceId = w, rr_targetGeneration = targetGeneration,
        rr_scopeMetadata = (if ''reason'' \<in> fst ` set scope then [] else [(''reason'', JStr reason)]) @ scope\<rparr>]\<rparr>)))"

fun emitForLifecycleEventIds :: "string list \<Rightarrow> (billing_data database, unit) oper" where
  "emitForLifecycleEventIds [] = returnS ()"
| "emitForLifecycleEventIds (eid # ids) =
     bindS (tx (\<lambda>_ d. (Inr (), if eid \<in> le_id ` set (lifecycleLog d) then d\<lparr>emittedIds := emittedIds d @ [eid]\<rparr> else d)))
       (\<lambda>_. emitForLifecycleEventIds ids)"

definition afterLifecycle ::
  "lifecycle_input \<Rightarrow> string \<Rightarrow> (string \<times> json) list \<Rightarrow> string list \<Rightarrow> (billing_data database, unit) oper" where
  "afterLifecycle i reason scope ids =
     bindS (markWorkspaceAssistantsConfigDirty (li_workspaceId i)) (\<lambda>_.
     bindS (queueBillingLifecycleRollout (li_workspaceId i) (li_userId i) reason scope) (\<lambda>_.
     emitForLifecycleEventIds ids))"

section \<open>Guards and lookups\<close>

definition requireWorkspaceSubscription :: "string \<Rightarrow> (billing_txn, subscription) oper" where
  "requireWorkspaceSubscription w =
     bindS (stmt (findSubscription w)) (\<lambda>found.
       case found of None \<Rightarrow> throwS (NotFoundException ''Workspace subscription not found.'') | Some st \<Rightarrow> returnS st)"

definition planIsActive :: "billing_plan option \<Rightarrow> bool" where
  "planIsActive plan = (case plan of Some p \<Rightarrow> pl_status p = ''active'' | None \<Rightarrow> False)"

text \<open>The plan catalog is read outside the transaction.\<close>

definition assertPaidPlanIsActive :: "string \<Rightarrow> (billing_txn, unit) oper" where
  "assertPaidPlanIsActive code =
     bindS (outside (findPlan code)) (\<lambda>plan.
       if planIsActive plan then returnS ()
       else throwS (BadRequestException ''paidPlanCode must reference an active plan.''))"

definition resolvePaidFallbackPlanCode :: "string \<Rightarrow> string option \<Rightarrow> (billing_txn, string) oper" where
  "resolvePaidFallbackPlanCode paidPlanCode globalFallbackPlanCode =
     bindS (outside (findPlan paidPlanCode)) (\<lambda>paidPlan.
       let planFallbackCode = Option.bind paidPlan
             (\<lambda>p. lp_paidFallbackPlanCode (resolveStoredPlanLifecyclePolicy (pl_billingProviderHints p)));
           code = (case planFallbackCode of Some c \<Rightarrow> Some c | None \<Rightarrow> globalFallbackPlanCode)
       in case code of
            None \<Rightarrow> throwS (BadRequestException ''Billing lifecycle fallback plan is not configured.'')
          | Some c \<Rightarrow> bindS (outside (findPlan c)) (\<lambda>plan.
              if planIsActive plan then returnS c
              else throwS (BadRequestException ''Billing lifecycle fallback plan must be active.'')))"

definition resolveTrialFallbackPlanCode :: "string \<Rightarrow> (billing_txn, string) oper" where
  "resolveTrialFallbackPlanCode trialPlanCode =
     bindS (outside (findPlan trialPlanCode)) (\<lambda>trialPlan.
       case Option.bind trialPlan
              (\<lambda>p. lp_trialFallbackPlanCode (resolveStoredPlanLifecyclePolicy (pl_billingProviderHints p))) of
         None \<Rightarrow> throwS (BadRequestException ''Trial fallback plan is not configured.'')
       | Some c \<Rightarrow> bindS (outside (findPlan c)) (\<lambda>plan.
           if planIsActive plan then returnS c
           else throwS (BadRequestException ''Trial fallback plan must be active.'')))"

definition parseActivePaidPeriod :: "int option \<Rightarrow> int option \<Rightarrow> (int \<times> int) outcome" where
  "parseActivePaidPeriod startedAt endsAt =
     (case (startedAt, endsAt) of
        (Some a, Some b) \<Rightarrow>
          if b \<le> a then Inl (BadRequestException ''Recovery period end must be after period start.'')
          else Inr (a, b)
      | _ \<Rightarrow> Inl (BadRequestException ''Recovery period dates must be valid ISO datetimes.''))"

text \<open>\<open>fallbackProviderResetData\<close>\<close>

definition resetProvider :: "subscription \<Rightarrow> subscription" where
  "resetProvider st = st\<lparr>sub_billingProvider := None, sub_providerCustomerRef := None, sub_providerSubscriptionRef := None\<rparr>"

abbreviation schemaEntry :: "string \<times> json" where
  "schemaEntry \<equiv> (''schema'', JStr ''persai.subscriptionLifecycle.v1'')"

definition jiso :: "int \<Rightarrow> json" where
  "jiso t = JStr (toISOString t)"

definition jisoOpt :: "int option \<Rightarrow> json" where
  "jisoOpt t = (case t of Some u \<Rightarrow> jiso u | None \<Rightarrow> JNull)"

definition msPerGrace :: "lifecycle_settings \<Rightarrow> int" where
  "msPerGrace settings = ls_gracePeriodDays settings * 86400000"

definition withSettings ::
  "lifecycle_settings outcome \<Rightarrow> (lifecycle_settings \<Rightarrow> ('s, 'a) oper) \<Rightarrow> ('s, 'a) oper" where
  "withSettings settings f = (case settings of Inl e \<Rightarrow> throwS e | Inr st \<Rightarrow> f st)"

definition withEvents ::
  "lifecycle_input \<Rightarrow> string list \<Rightarrow> subscription \<Rightarrow> subscription \<Rightarrow> (billing_txn, string list) oper" where
  "withEvents i codes previous nxt =
     foldr (\<lambda>code rest. bindS (appendLifecycleEvent i code (Some previous) nxt) (\<lambda>eid.
              bindS rest (\<lambda>ids. returnS (eid # ids)))) codes (returnS [])"

text \<open>The update of the row and the events it causes.\<close>

definition updateWithEvents ::
  "lifecycle_input \<Rightarrow> subscription \<Rightarrow> (subscription \<Rightarrow> subscription) \<Rightarrow> string list \<Rightarrow> (billing_txn, string list) oper" where
  "updateWithEvents i current f codes =
     bindS (stmt (updateSubscription (li_workspaceId i) f)) (\<lambda>updated. withEvents i codes current updated)"

section \<open>Trial and grace\<close>

definition startPaidGrace ::
  "bool \<Rightarrow> lifecycle_settings outcome \<Rightarrow> lifecycle_input \<Rightarrow> string option \<Rightarrow> (billing_data database, unit) oper" where
  "startPaidGrace reports settings i paidPlanCodeOverride =
     withSettings settings (\<lambda>cfg.
     bindS (pgTx reports (\<lambda>now.
       let graceEndsAt = now + msPerGrace cfg in
       bindS (requireWorkspaceSubscription (li_workspaceId i)) (\<lambda>current.
       if sub_status current \<noteq> Active \<and> sub_status current \<noteq> Past_due
       then throwS (BadRequestException ''Paid renewal failure can only start grace from paid state.'')
       else let paidPlanCode = (case paidPlanCodeOverride of
                  Some o' \<Rightarrow> if js_trim o' \<noteq> [] then js_trim o' else sub_planCode current
                | None \<Rightarrow> sub_planCode current) in
         bindS (if paidPlanCode \<noteq> sub_planCode current then assertPaidPlanIsActive paidPlanCode else returnS ()) (\<lambda>_.
         updateWithEvents i current (\<lambda>st. st\<lparr>
                  sub_planCode := paidPlanCode, sub_status := Grace_period,
                  sub_graceStartedAt := Some now, sub_graceEndsAt := Some graceEndsAt,
                  sub_metadata := mergeMetadata (sub_metadata current)
                    [schemaEntry, (''lifecycleState'', JStr ''grace_period''),
                     (''lifecycleReason'', JStr ''paid_renewal_failed''),
                     (''paidPlanCode'', JStr paidPlanCode), (''previousPaidPlanCode'', JStr (sub_planCode current)),
                     (''graceStartedAt'', jiso now), (''graceEndsAt'', jiso graceEndsAt)]\<rparr>)
           [''renewal_failed'', ''grace_started'']))))
     (afterLifecycle i ''renewal_failed'' [(''reason'', JStr ''renewal_failed'')]))"

definition extendTrial ::
  "bool \<Rightarrow> lifecycle_input \<Rightarrow> int option \<Rightarrow> (billing_data database, unit) oper" where
  "extendTrial reports i newTrialEndsAt =
     (case newTrialEndsAt of
        None \<Rightarrow> throwS (BadRequestException ''newTrialEndsAt must be a valid ISO datetime.'')
      | Some nextTrialEndsAt \<Rightarrow>
     bindS (pgTx reports (\<lambda>now.
       bindS (requireWorkspaceSubscription (li_workspaceId i)) (\<lambda>current.
       if sub_status current \<noteq> Trialing
       then throwS (BadRequestException ''Trial can only be extended while the workspace is trialing.'')
       else (case sub_trialEndsAt current of
          None \<Rightarrow> throwS (BadRequestException ''Trial extension requires an existing trial end date.'')
        | Some trialEndsAt \<Rightarrow>
            if nextTrialEndsAt \<le> trialEndsAt
            then throwS (BadRequestException ''Extended trial end must be after the current trial end.'')
            else
         updateWithEvents i current (\<lambda>st. st\<lparr>
                  sub_trialEndsAt := Some nextTrialEndsAt, sub_currentPeriodEndsAt := Some nextTrialEndsAt,
                  sub_metadata := mergeMetadata (sub_metadata current)
                    [schemaEntry, (''lifecycleState'', JStr ''trialing''),
                     (''lifecycleReason'', JStr ''admin_trial_extended''),
                     (''trialExtendedAt'', jiso now), (''trialEndsAt'', jiso nextTrialEndsAt)]\<rparr>)
           [''trial_extended'']))))
     (afterLifecycle i ''billing_lifecycle'' [(''reason'', JStr ''trial_extended'')]))"

definition grantGrace ::
  "bool \<Rightarrow> lifecycle_settings outcome \<Rightarrow> lifecycle_input \<Rightarrow> (billing_data database, unit) oper" where
  "grantGrace reports settings i =
     withSettings settings (\<lambda>cfg.
     bindS (pgTx reports (\<lambda>now.
       let graceEndsAt = now + msPerGrace cfg in
       bindS (requireWorkspaceSubscription (li_workspaceId i)) (\<lambda>current.
       if sub_status current \<noteq> Active \<and> sub_status current \<noteq> Past_due
       then throwS (BadRequestException ''Grace can only be granted when the workspace is in an active paid state.'')
       else
         updateWithEvents i current (\<lambda>st. st\<lparr>
                  sub_status := Grace_period, sub_graceStartedAt := Some now, sub_graceEndsAt := Some graceEndsAt,
                  sub_metadata := mergeMetadata (sub_metadata current)
                    [schemaEntry, (''lifecycleState'', JStr ''grace_period''),
                     (''lifecycleReason'', JStr ''admin_grace_granted''),
                     (''paidPlanCode'', JStr (sub_planCode current)),
                     (''graceStartedAt'', jiso now), (''graceEndsAt'', jiso graceEndsAt)]\<rparr>)
           [''grace_started''])))
     (afterLifecycle i ''billing_lifecycle'' [(''reason'', JStr ''grace_started'')]))"

definition extendGrace ::
  "bool \<Rightarrow> lifecycle_settings outcome \<Rightarrow> lifecycle_input \<Rightarrow> (billing_data database, unit) oper" where
  "extendGrace reports settings i =
     withSettings settings (\<lambda>cfg.
     bindS (pgTx reports (\<lambda>now.
       bindS (requireWorkspaceSubscription (li_workspaceId i)) (\<lambda>current.
       if sub_status current \<noteq> Grace_period
       then throwS (BadRequestException ''Grace can only be extended while the workspace is in grace.'')
       else (case sub_graceEndsAt current of
          None \<Rightarrow> throwS (BadRequestException ''Grace extension requires an existing grace end date.'')
        | Some graceEndsAt \<Rightarrow>
            let base = (if graceEndsAt > now then graceEndsAt else now);
                nextGraceEndsAt = base + msPerGrace cfg in
         updateWithEvents i current (\<lambda>st. st\<lparr>
                  sub_graceEndsAt := Some nextGraceEndsAt,
                  sub_metadata := mergeMetadata (sub_metadata current)
                    [schemaEntry, (''lifecycleState'', JStr ''grace_period''),
                     (''lifecycleReason'', JStr ''admin_grace_extended''),
                     (''paidPlanCode'', JStr (sub_planCode current)),
                     (''graceStartedAt'', jisoOpt (sub_graceStartedAt current)),
                     (''graceEndsAt'', jiso nextGraceEndsAt)]\<rparr>)
           [''grace_extended'']))))
     (afterLifecycle i ''billing_lifecycle'' [(''reason'', JStr ''grace_extended'')]))"

text \<open>\<open>asOf\<close> is the optional instant of the input.\<close>

definition expireGrace ::
  "bool \<Rightarrow> lifecycle_settings outcome \<Rightarrow> lifecycle_input \<Rightarrow> int option \<Rightarrow> (billing_data database, unit) oper" where
  "expireGrace reports settings i asOf =
     withSettings settings (\<lambda>cfg.
     bindS (pgTx reports (\<lambda>clock.
       let now = (case asOf of Some t \<Rightarrow> t | None \<Rightarrow> clock) in
       bindS (requireWorkspaceSubscription (li_workspaceId i)) (\<lambda>current.
       if sub_status current \<noteq> Grace_period then returnS []
       else if (case sub_graceEndsAt current of None \<Rightarrow> True | Some e \<Rightarrow> e > now) then returnS []
       else
         bindS (resolvePaidFallbackPlanCode (sub_planCode current) (ls_globalFallbackPlanCode cfg)) (\<lambda>fallbackPlanCode.
         updateWithEvents i current (\<lambda>st. (resetProvider st)\<lparr>
                  sub_planCode := fallbackPlanCode, sub_status := Expired_fallback,
                  sub_graceStartedAt := sub_graceStartedAt current, sub_graceEndsAt := sub_graceEndsAt current,
                  sub_currentPeriodStartedAt := Some now, sub_currentPeriodEndsAt := None,
                  sub_cancelAtPeriodEnd := False,
                  sub_metadata := mergeMetadata (sub_metadata current)
                    [schemaEntry, (''lifecycleState'', JStr ''expired_fallback''),
                     (''lifecycleReason'', JStr ''grace_expired_without_payment''),
                     (''previousPaidPlanCode'', JStr (sub_planCode current)),
                     (''fallbackPlanCode'', JStr fallbackPlanCode),
                     (''graceStartedAt'', jisoOpt (sub_graceStartedAt current)),
                     (''graceEndsAt'', jisoOpt (sub_graceEndsAt current))]\<rparr>)
           [''grace_expired'', ''fallback_applied'']))))
     (afterLifecycle i ''billing_lifecycle'' [(''reason'', JStr ''grace_expired'')]))"

section \<open>Payment\<close>

record payment_input =
  py_paidPlanCode :: string
  py_currentPeriodStartedAt :: "int option"
  py_currentPeriodEndsAt :: "int option"
  py_billingProvider :: "string option"
  py_providerCustomerRef :: "string option"
  py_providerSubscriptionRef :: "string option"

text \<open>\<open>x ?? y\<close>\<close>

definition orElse :: "'a option \<Rightarrow> 'a option \<Rightarrow> 'a option" where
  "orElse x y = (case x of Some _ \<Rightarrow> x | None \<Rightarrow> y)"

definition paidMetadata :: "string \<Rightarrow> string \<Rightarrow> int \<Rightarrow> int \<Rightarrow> int \<Rightarrow> (string \<times> json) list" where
  "paidMetadata lifecycleReason paidPlanCode periodStartedAt periodEndsAt transitionedAt =
     [schemaEntry, (''lifecycleState'', JStr ''active_paid''), (''lifecycleReason'', JStr lifecycleReason),
      (''paidPlanCode'', JStr paidPlanCode), (''currentPeriodStartedAt'', jiso periodStartedAt),
      (''currentPeriodEndsAt'', jiso periodEndsAt), (''transitionedAt'', jiso transitionedAt)]"

text \<open>The row of the rollover, created or updated.\<close>

definition writePaidRow ::
  "(string \<Rightarrow> int option) \<Rightarrow> string \<Rightarrow> payment_input \<Rightarrow> int \<times> int \<Rightarrow> string \<Rightarrow> int \<Rightarrow> subscription option \<Rightarrow>
   (billing_txn, subscription) oper" where
  "writePaidRow parseDate w p period lifecycleReason now found =
     (let plan = py_paidPlanCode p; (periodStartedAt, periodEndsAt) = period in
      case found of
           None \<Rightarrow>
             stmt (\<lambda>d. createSubscription
               \<lparr>sub_id = subscriptionIdOf d w, sub_workspaceId = w, sub_planCode = plan, sub_status = Active,
                sub_trialStartedAt = None, sub_trialEndsAt = None, sub_graceStartedAt = None, sub_graceEndsAt = None,
                sub_currentPeriodStartedAt = Some periodStartedAt, sub_currentPeriodEndsAt = Some periodEndsAt,
                sub_cancelAtPeriodEnd = False, sub_billingProvider = py_billingProvider p,
                sub_providerCustomerRef = py_providerCustomerRef p,
                sub_providerSubscriptionRef = py_providerSubscriptionRef p,
                sub_providerRecurringDescriptor = None,
                sub_metadata = JObj (paidMetadata lifecycleReason plan periodStartedAt periodEndsAt now)\<rparr> d)
         | Some current \<Rightarrow>
             stmt (updateSubscription w (\<lambda>st. st\<lparr>
               sub_planCode := plan, sub_status := Active,
               sub_trialStartedAt := None, sub_trialEndsAt := None, sub_graceStartedAt := None, sub_graceEndsAt := None,
               sub_currentPeriodStartedAt := Some periodStartedAt, sub_currentPeriodEndsAt := Some periodEndsAt,
               sub_cancelAtPeriodEnd := False,
               sub_billingProvider := orElse (py_billingProvider p) (sub_billingProvider current),
               sub_providerCustomerRef := orElse (py_providerCustomerRef p) (sub_providerCustomerRef current),
               sub_providerSubscriptionRef := orElse (py_providerSubscriptionRef p) (sub_providerSubscriptionRef current),
               sub_metadata := mergeMetadata (sub_metadata current)
                 (paidMetadata lifecycleReason plan periodStartedAt periodEndsAt now @
                  (if shouldClearPendingPlanChangeAfterPaidTransition parseDate (readPendingPlanChange (sub_metadata current))
                        (sub_planCode current) plan periodStartedAt
                   then [(''pendingPlanChange'', JNull)] else []))\<rparr>)))"

text \<open>The body of the rollover transaction.\<close>

definition activePaidTx ::
  "(string \<Rightarrow> int option) \<Rightarrow> bool \<Rightarrow> lifecycle_input \<Rightarrow> payment_input \<Rightarrow> int \<times> int \<Rightarrow> string \<Rightarrow> string \<Rightarrow> int \<Rightarrow>
   (billing_txn, string list) oper" where
  "activePaidTx parseDate raced i p period eventCode lifecycleReason now =
     bindS (stmt (findSubscription (li_workspaceId i))) (\<lambda>found.
     bindS (writePaidRow parseDate (li_workspaceId i) p period lifecycleReason now found) (\<lambda>updated.
     bindS (appendLifecycleEvent i eventCode found updated) (\<lambda>eid.
     bindS (creditPeriod raced (li_workspaceId i) (py_paidPlanCode p) (fst period) now) (\<lambda>_. returnS [eid]))))"

definition applyActivePaidTransition ::
  "(string \<Rightarrow> int option) \<Rightarrow> bool \<Rightarrow> bool \<Rightarrow> lifecycle_input \<Rightarrow> payment_input \<Rightarrow> string \<Rightarrow> string \<Rightarrow>
   (billing_data database, unit) oper" where
  "applyActivePaidTransition parseDate reports raced i p eventCode lifecycleReason =
     bindS (tx (\<lambda>_. findPlan (py_paidPlanCode p))) (\<lambda>plan.
     if \<not> planIsActive plan
     then throwS (BadRequestException ''paidPlanCode must reference an active plan.'')
     else (case parseActivePaidPeriod (py_currentPeriodStartedAt p) (py_currentPeriodEndsAt p) of
       Inl e \<Rightarrow> throwS e
     | Inr period \<Rightarrow>
         bindS (pgTx reports (activePaidTx parseDate raced i p period eventCode lifecycleReason))
           (afterLifecycle i eventCode
              [(''reason'', JStr lifecycleReason), (''paidPlanCode'', JStr (py_paidPlanCode p)),
               (''billingProvider'', case py_billingProvider p of Some b \<Rightarrow> JStr b | None \<Rightarrow> JNull),
               (''providerSubscriptionRef'', case py_providerSubscriptionRef p of Some b \<Rightarrow> JStr b | None \<Rightarrow> JNull)])))"

definition recoverPayment ::
  "(string \<Rightarrow> int option) \<Rightarrow> bool \<Rightarrow> bool \<Rightarrow> lifecycle_input \<Rightarrow> payment_input \<Rightarrow> (billing_data database, unit) oper" where
  "recoverPayment parseDate reports raced i p =
     applyActivePaidTransition parseDate reports raced i p ''payment_recovered'' ''payment_recovered''"

datatype activation = Payment_activated | Renewal_succeeded

definition activationCode :: "activation \<Rightarrow> string" where
  "activationCode a = (case a of Payment_activated \<Rightarrow> ''payment_activated'' | Renewal_succeeded \<Rightarrow> ''renewal_succeeded'')"

definition activatePaidSubscription ::
  "(string \<Rightarrow> int option) \<Rightarrow> bool \<Rightarrow> bool \<Rightarrow> lifecycle_input \<Rightarrow> payment_input \<Rightarrow> activation \<Rightarrow> activation \<Rightarrow>
   (billing_data database, unit) oper" where
  "activatePaidSubscription parseDate reports raced i p eventCode lifecycleReason =
     applyActivePaidTransition parseDate reports raced i p (activationCode eventCode) (activationCode lifecycleReason)"

section \<open>Cancellation, renewal and plan changes\<close>

text \<open>Operations that may find nothing to do skip the later calls.\<close>

definition unlessEmpty ::
  "(string list \<Rightarrow> (billing_data database, unit) oper) \<Rightarrow> string list \<Rightarrow> (billing_data database, unit) oper" where
  "unlessEmpty f ids = (if ids = [] then returnS () else f ids)"

definition schedulePaidCancellationAtPeriodEnd :: "bool \<Rightarrow> lifecycle_input \<Rightarrow> (billing_data database, unit) oper" where
  "schedulePaidCancellationAtPeriodEnd reports i =
     bindS (pgTx reports (\<lambda>now.
       bindS (requireWorkspaceSubscription (li_workspaceId i)) (\<lambda>current.
       if sub_status current \<notin> {Active, Grace_period, Past_due}
       then throwS (BadRequestException ''Auto-renew can only be disabled for a paid subscription state.'')
       else if sub_cancelAtPeriodEnd current then returnS []
       else
         updateWithEvents i current (\<lambda>st. st\<lparr>
                  sub_cancelAtPeriodEnd := True,
                  sub_metadata := mergeMetadata (sub_metadata current)
                    [schemaEntry, (''lifecycleState'', JStr (statusString (sub_status current))),
                     (''lifecycleReason'', JStr ''auto_renew_disabled''), (''cancelAtPeriodEnd'', JBool True),
                     (''autoRenewDisabledAt'', jiso now)]\<rparr>)
           [''auto_renew_disabled''])))
     (unlessEmpty (afterLifecycle i ''billing_lifecycle'' [(''reason'', JStr ''auto_renew_disabled'')]))"

definition clearPending :: "subscription \<Rightarrow> (string \<times> json) list" where
  "clearPending current =
     (if readPendingPlanChange (sub_metadata current) \<noteq> None then [(''pendingPlanChange'', JNull)] else [])"

definition jopt :: "string option \<Rightarrow> json" where
  "jopt v = (case v of Some s \<Rightarrow> JStr s | None \<Rightarrow> JNull)"

definition resumePaidAutoRenew ::
  "bool \<Rightarrow> lifecycle_input \<Rightarrow> string option \<Rightarrow> string option \<Rightarrow> string option \<Rightarrow> (billing_data database, unit) oper" where
  "resumePaidAutoRenew reports i provider customerRef subscriptionRef =
     bindS (pgTx reports (\<lambda>now.
       bindS (requireWorkspaceSubscription (li_workspaceId i)) (\<lambda>current.
       if sub_status current \<notin> {Active, Grace_period, Past_due, Canceled}
       then throwS (BadRequestException ''Auto-renew can only be resumed for a paid subscription.'')
       else if \<not> sub_cancelAtPeriodEnd current then returnS []
       else
         updateWithEvents i current (\<lambda>st. st\<lparr>
                  sub_cancelAtPeriodEnd := False,
                  sub_billingProvider := orElse provider (sub_billingProvider current),
                  sub_providerCustomerRef := orElse customerRef (sub_providerCustomerRef current),
                  sub_providerSubscriptionRef := orElse subscriptionRef (sub_providerSubscriptionRef current),
                  sub_metadata := mergeMetadata (sub_metadata current)
                    ([schemaEntry, (''lifecycleState'', JStr (statusString (sub_status current))),
                      (''lifecycleReason'', JStr ''subscription_resumed''), (''cancelAtPeriodEnd'', JBool False),
                      (''autoRenewResumedAt'', jiso now)] @ clearPending current)\<rparr>)
           [''subscription_resumed''])))
     (unlessEmpty (afterLifecycle i ''billing_lifecycle''
        [(''reason'', JStr ''subscription_resumed''), (''billingProvider'', jopt provider),
         (''providerSubscriptionRef'', jopt subscriptionRef)]))"

definition enablePaidAutoRenew ::
  "bool \<Rightarrow> lifecycle_input \<Rightarrow> string option \<Rightarrow> string option \<Rightarrow> string \<Rightarrow> (billing_data database, unit) oper" where
  "enablePaidAutoRenew reports i provider customerRef subscriptionRef =
     bindS (pgTx reports (\<lambda>now.
       bindS (requireWorkspaceSubscription (li_workspaceId i)) (\<lambda>current.
       if sub_status current \<notin> {Active, Grace_period, Past_due, Canceled}
       then throwS (BadRequestException ''Auto-renew can only be enabled for a paid subscription.'')
       else if \<not> sub_cancelAtPeriodEnd current \<and> sub_billingProvider current = provider \<and>
               sub_providerCustomerRef current = customerRef \<and> sub_providerSubscriptionRef current = Some subscriptionRef
       then returnS []
       else
         updateWithEvents i current (\<lambda>st. st\<lparr>
                  sub_cancelAtPeriodEnd := False, sub_billingProvider := provider,
                  sub_providerCustomerRef := customerRef, sub_providerSubscriptionRef := Some subscriptionRef,
                  sub_metadata := mergeMetadata (sub_metadata current)
                    ([schemaEntry, (''lifecycleState'', JStr (statusString (sub_status current))),
                      (''lifecycleReason'', JStr ''auto_renew_enabled''), (''cancelAtPeriodEnd'', JBool False),
                      (''autoRenewEnabledAt'', jiso now)] @ clearPending current)\<rparr>)
           [''auto_renew_enabled''])))
     (unlessEmpty (afterLifecycle i ''billing_lifecycle''
        [(''reason'', JStr ''auto_renew_enabled''), (''billingProvider'', jopt provider),
         (''providerSubscriptionRef'', JStr subscriptionRef)]))"

text \<open>The scheduled change is also put into the event's metadata.\<close>

definition withPendingRef :: "pending_change \<Rightarrow> lifecycle_input \<Rightarrow> lifecycle_input" where
  "withPendingRef change i =
     (let refs = (case li_refs i of Some r \<Rightarrow> r | None \<Rightarrow>
            \<lparr>er_relatedPaymentIntentRef = None, er_relatedProviderEventRef = None, er_metadata = None\<rparr>);
          meta = (case er_metadata refs of Some m \<Rightarrow> m | None \<Rightarrow> [])
      in i\<lparr>li_refs := Some (refs\<lparr>er_metadata := Some (filter (\<lambda>(k, _). k \<noteq> ''pendingPlanChange'') meta @
              [(''pendingPlanChange'', pendingJson change)])\<rparr>)\<rparr>)"

definition schedulePlanChangeAtPeriodEnd ::
  "bool \<Rightarrow> lifecycle_input \<Rightarrow> pending_change \<Rightarrow> (billing_data database, unit) oper" where
  "schedulePlanChangeAtPeriodEnd reports i change =
     pgTx reports (\<lambda>now.
       bindS (requireWorkspaceSubscription (li_workspaceId i)) (\<lambda>current.
       if (case readPendingPlanChange (sub_metadata current) of
             Some existing \<Rightarrow> samePendingPlanChange existing change | None \<Rightarrow> False)
       then returnS ()
       else
         bindS (updateWithEvents (withPendingRef change i) current (\<lambda>st. st\<lparr>
                  sub_metadata := mergeMetadata (sub_metadata current)
                    [schemaEntry, (''pendingPlanChange'', pendingJson change)]\<rparr>) [''plan_change_scheduled''])
           (\<lambda>_. returnS ())))"

definition clearScheduledPlanChange :: "bool \<Rightarrow> lifecycle_input \<Rightarrow> (billing_data database, unit) oper" where
  "clearScheduledPlanChange reports i =
     pgTx reports (\<lambda>now.
       bindS (requireWorkspaceSubscription (li_workspaceId i)) (\<lambda>current.
       if readPendingPlanChange (sub_metadata current) = None then returnS ()
       else
         bindS (stmt (updateSubscription (li_workspaceId i) (\<lambda>st. st\<lparr>
                  sub_metadata := mergeMetadata (sub_metadata current)
                    [schemaEntry, (''pendingPlanChange'', JNull)]\<rparr>))) (\<lambda>_. returnS ())))"

section \<open>Fallback\<close>

definition applyCancelledPaidPeriodEndFallback ::
  "bool \<Rightarrow> lifecycle_settings outcome \<Rightarrow> lifecycle_input \<Rightarrow> int option \<Rightarrow> (billing_data database, unit) oper" where
  "applyCancelledPaidPeriodEndFallback reports settings i asOf =
     withSettings settings (\<lambda>cfg.
     bindS (pgTx reports (\<lambda>clock.
       let now = (case asOf of Some t \<Rightarrow> t | None \<Rightarrow> clock) in
       bindS (requireWorkspaceSubscription (li_workspaceId i)) (\<lambda>current.
       if \<not> sub_cancelAtPeriodEnd current then returnS []
       else (case sub_currentPeriodEndsAt current of
         None \<Rightarrow> returnS []
       | Some periodEnd \<Rightarrow>
           if periodEnd > now then returnS []
           else let scheduledFreeChange = (case readPendingPlanChange (sub_metadata current) of
                      Some c \<Rightarrow> if pc_changeKind c = Free then Some c else None | None \<Rightarrow> None) in
         bindS (case scheduledFreeChange of
                  Some c \<Rightarrow> returnS (pc_targetPlanCode c)
                | None \<Rightarrow> resolvePaidFallbackPlanCode (sub_planCode current) (ls_globalFallbackPlanCode cfg)) (\<lambda>fallbackPlanCode.
         updateWithEvents i current (\<lambda>st. (resetProvider st)\<lparr>
                  sub_planCode := fallbackPlanCode, sub_status := Expired_fallback, sub_cancelAtPeriodEnd := False,
                  sub_graceStartedAt := None, sub_graceEndsAt := None,
                  sub_currentPeriodStartedAt := Some now, sub_currentPeriodEndsAt := None,
                  sub_metadata := mergeMetadata (sub_metadata current)
                    [schemaEntry, (''lifecycleState'', JStr ''expired_fallback''),
                     (''lifecycleReason'', JStr (if scheduledFreeChange \<noteq> None then ''scheduled_free_change_applied''
                                                else ''canceled_paid_period_ended'')),
                     (''previousPaidPlanCode'', JStr (sub_planCode current)),
                     (''fallbackPlanCode'', JStr fallbackPlanCode), (''paidPeriodEndedAt'', jiso periodEnd),
                     (''pendingPlanChange'', JNull)]\<rparr>)
           [''subscription_canceled'', ''fallback_applied''])))))
     (unlessEmpty (afterLifecycle i ''billing_lifecycle'' [(''reason'', JStr ''canceled_paid_period_ended'')])))"

definition applyImmediatePaidFallback ::
  "bool \<Rightarrow> lifecycle_settings outcome \<Rightarrow> lifecycle_input \<Rightarrow> int option \<Rightarrow> (billing_data database, unit) oper" where
  "applyImmediatePaidFallback reports settings i asOf =
     withSettings settings (\<lambda>cfg.
     bindS (pgTx reports (\<lambda>clock.
       let now = (case asOf of Some t \<Rightarrow> t | None \<Rightarrow> clock) in
       bindS (requireWorkspaceSubscription (li_workspaceId i)) (\<lambda>current.
         bindS (resolvePaidFallbackPlanCode (sub_planCode current) (ls_globalFallbackPlanCode cfg)) (\<lambda>fallbackPlanCode.
         updateWithEvents i current (\<lambda>st. (resetProvider st)\<lparr>
                  sub_planCode := fallbackPlanCode, sub_status := Expired_fallback,
                  sub_graceStartedAt := sub_graceStartedAt current, sub_graceEndsAt := sub_graceEndsAt current,
                  sub_currentPeriodStartedAt := Some now, sub_currentPeriodEndsAt := None,
                  sub_cancelAtPeriodEnd := False,
                  sub_metadata := mergeMetadata (sub_metadata current)
                    [schemaEntry, (''lifecycleState'', JStr ''expired_fallback''),
                     (''lifecycleReason'', JStr ''payment_reversed''),
                     (''previousPaidPlanCode'', JStr (sub_planCode current)),
                     (''fallbackPlanCode'', JStr fallbackPlanCode), (''reversedAt'', jiso now),
                     (''pendingPlanChange'', JNull)]\<rparr>)
           [''payment_reversed'', ''fallback_applied'']))))
     (afterLifecycle i ''billing_lifecycle'' [(''reason'', JStr ''payment_reversed'')]))"

definition applyFallbackNow ::
  "bool \<Rightarrow> lifecycle_settings outcome \<Rightarrow> lifecycle_input \<Rightarrow> int option \<Rightarrow> (billing_data database, unit) oper" where
  "applyFallbackNow reports settings i asOf =
     withSettings settings (\<lambda>cfg.
     bindS (pgTx reports (\<lambda>clock.
       let now = (case asOf of Some t \<Rightarrow> t | None \<Rightarrow> clock) in
       bindS (requireWorkspaceSubscription (li_workspaceId i)) (\<lambda>current.
       if sub_status current = Expired_fallback
       then throwS (BadRequestException ''Workspace is already on the fallback plan.'')
       else let trialing = sub_status current = Trialing in
         bindS (if trialing then resolveTrialFallbackPlanCode (sub_planCode current)
                else resolvePaidFallbackPlanCode (sub_planCode current) (ls_globalFallbackPlanCode cfg)) (\<lambda>fallbackPlanCode.
         updateWithEvents i current (\<lambda>st. (resetProvider st)\<lparr>
                  sub_planCode := fallbackPlanCode, sub_status := Expired_fallback,
                  sub_currentPeriodStartedAt := Some now, sub_currentPeriodEndsAt := None,
                  sub_cancelAtPeriodEnd := False,
                  sub_metadata := mergeMetadata (sub_metadata current)
                    [schemaEntry, (''lifecycleState'', JStr ''expired_fallback''),
                     (''lifecycleReason'', JStr (if trialing then ''admin_trial_fallback_now'' else ''admin_paid_fallback_now'')),
                     (''fallbackPlanCode'', JStr fallbackPlanCode),
                     (''previousPaidPlanCode'', if trialing then JNull else JStr (sub_planCode current)),
                     (''trialPlanCode'', if trialing then JStr (sub_planCode current) else JNull),
                     (''appliedAt'', jiso now), (''pendingPlanChange'', JNull)]\<rparr>)
           [''fallback_applied'']))))
     (afterLifecycle i ''billing_lifecycle'' [(''reason'', JStr ''fallback_applied_now'')]))"

definition recordBillingReminder :: "bool \<Rightarrow> lifecycle_input \<Rightarrow> (billing_data database, unit) oper" where
  "recordBillingReminder reports i =
     bindS (pgTx reports (\<lambda>now.
       bindS (requireWorkspaceSubscription (li_workspaceId i)) (\<lambda>current.
       withEvents i [''billing_reminder_requested''] current current)))
     emitForLifecycleEventIds"

end
