(* ===== verification/BillingInvariants.thy ===== *)
theory BillingInvariants
  imports SubscriptionLifecycle
begin

text \<open>
  What billing keeps, over any history of lifecycle operations, package purchases, reversals and
  video charges, with failing and lost calls, lost races and rollbacks the client may or may not
  report: the subscription moves along the edges of its state machine, its row stays consistent,
  the event log explains it, and the wallet is the sum of the Vcoin ledger less the charges.

  \<open>core\<close> is the part of the data these statements are about. Every operation is shown to either
  leave it alone or make one \<open>billing_step\<close>.
\<close>

definition balanceOf :: "billing_data \<Rightarrow> string \<Rightarrow> int" where
  "balanceOf d w = (case walletTable d w of None \<Rightarrow> 0 | Some row \<Rightarrow> wa_balanceVc row)"

definition core :: "billing_data \<Rightarrow> (string \<rightharpoonup> subscription) \<times> lifecycle_event list \<times> vcoin_event list \<times> (string \<Rightarrow> int)" where
  "core d = (subscriptionTable d, lifecycleLog d, vcoinLog d, balanceOf d)"

text \<open>The state machine of a subscription.\<close>

definition edge :: "subscription_status \<Rightarrow> subscription_status \<Rightarrow> bool" where
  "edge a b \<longleftrightarrow> b = a \<or> b = Active \<or> b = Expired_fallback \<or> (b = Grace_period \<and> a \<in> {Active, Past_due})"

text \<open>A consistent row: fallback is detached from the provider, grace has its dates.\<close>

definition subOk :: "string \<Rightarrow> subscription \<Rightarrow> bool" where
  "subOk w st \<longleftrightarrow> sub_workspaceId st = w \<and>
     (sub_status st = Expired_fallback \<longrightarrow>
        sub_billingProvider st = None \<and> sub_providerCustomerRef st = None \<and> sub_providerSubscriptionRef st = None \<and>
        \<not> sub_cancelAtPeriodEnd st \<and> sub_currentPeriodEndsAt st = None) \<and>
     (sub_status st = Grace_period \<longrightarrow> sub_graceStartedAt st \<noteq> None \<and> sub_graceEndsAt st \<noteq> None)"

definition okStep :: "string \<Rightarrow> subscription option \<Rightarrow> subscription \<Rightarrow> bool" where
  "okStep w previous nxt \<longleftrightarrow>
     (case previous of
        None \<Rightarrow> sub_status nxt = Active \<and> subOk w nxt
      | Some cur \<Rightarrow> edge (sub_status cur) (sub_status nxt) \<and> (subOk w cur \<longrightarrow> subOk w nxt) \<and> sub_id nxt = sub_id cur)"

definition view :: "subscription \<Rightarrow> subscription_status \<times> string \<times> int option \<times> int option" where
  "view st = (sub_status st, sub_planCode st, sub_currentPeriodStartedAt st, sub_currentPeriodEndsAt st)"

definition nextView :: "lifecycle_event \<Rightarrow> subscription_status \<times> string \<times> int option \<times> int option" where
  "nextView e = (le_nextStatus e, le_nextPlanCode e, le_nextPeriodStartedAt e, le_nextPeriodEndsAt e)"

definition explains :: "string \<Rightarrow> subscription option \<Rightarrow> subscription \<Rightarrow> lifecycle_event \<Rightarrow> bool" where
  "explains w previous nxt e \<longleftrightarrow> le_workspaceId e = w \<and> le_subscriptionId e = sub_id nxt \<and>
     le_previousStatus e = map_option sub_status previous \<and> nextView e = view nxt"

definition ledgerStep :: "string \<Rightarrow> billing_data \<Rightarrow> billing_data \<Rightarrow> bool" where
  "ledgerStep w d d' \<longleftrightarrow>
     vcoinLog d' = vcoinLog d \<and> balanceOf d' = balanceOf d \<or>
     (\<exists>e. ve_workspaceId e = w \<and> eventKey e \<notin> eventKey ` set (vcoinLog d) \<and> vcoinLog d' = vcoinLog d @ [e] \<and>
        balanceOf d' = (balanceOf d)(w := balanceOf d w + ve_amountVc e))"

definition subStep :: "string \<Rightarrow> billing_data \<Rightarrow> billing_data \<Rightarrow> bool" where
  "subStep w d d' \<longleftrightarrow>
     subscriptionTable d' = subscriptionTable d \<and> lifecycleLog d' = lifecycleLog d \<or>
     (\<exists>nxt evs. okStep w (subscriptionTable d w) nxt \<and> subscriptionTable d' = (subscriptionTable d)(w \<mapsto> nxt) \<and>
        lifecycleLog d' = lifecycleLog d @ evs \<and> (\<forall>e \<in> set evs. explains w (subscriptionTable d w) nxt e) \<and>
        (evs = [] \<longrightarrow> map_option view (subscriptionTable d w) = Some (view nxt)))"

definition billing_step :: "string \<Rightarrow> billing_data \<Rightarrow> billing_data \<Rightarrow> bool" where
  "billing_step w d d' \<longleftrightarrow> subStep w d d' \<and> ledgerStep w d d'"

lemma billing_step_core: "billing_step w d d' \<Longrightarrow> core e = core d' \<Longrightarrow> billing_step w d e"
  by (auto simp: billing_step_def subStep_def ledgerStep_def core_def)

lemma billing_step_same: "core d' = core d \<Longrightarrow> billing_step w d d'"
  by (auto simp: billing_step_def subStep_def ledgerStep_def core_def)

section \<open>Lookups and repositories\<close>

lemma snd_reads [simp]: "snd (findPlan c d) = d" "snd (findWallet w d) = d" "snd (findSubscription w d) = d"
  by (simp_all add: findPlan_def findWallet_def findSubscription_def)

lemma framed_read [framed_intro]: "(\<And>d. snd (f d) = d) \<Longrightarrow> framed g (outside f)"
  by (rule framed_outside) (metis snd_conv)

lemma framed_createWallet [framed_intro]: "framed core (outside (createWallet raced w now))"
proof (rule framed_outside)
  fix d a d'
  assume "createWallet raced w now d = (Inr a, d')"
  then show "core d' = core d"
    by (auto simp: createWallet_def core_def balanceOf_def fun_eq_iff Let_def split: if_splits)
qed

lemma framed_wallets [framed_intro]:
  "framed core (getOrCreate w now)" "framed g (ensureRow raced w now)"
  "framed g (debit raced w n now)" "framed g (credit raced w n k now)" "framed g (recordEvent e)"
  unfolding getOrCreate_def ensureRow_def debit_def credit_def recordEvent_def
  by (intro framed_intro; simp)+

lemma framed_creditPeriod [framed_intro]: "framed core (creditPeriod raced w plan p now)"
  unfolding creditPeriod_def by (intro framed_intro)

lemma framed_lookups [framed_intro]:
  "framed g (requireWorkspaceSubscription w)" "framed g (assertPaidPlanIsActive c)"
  "framed g (resolvePaidFallbackPlanCode c glob)" "framed g (resolveTrialFallbackPlanCode c)"
  "framed g (appendLifecycleEvent i code p n)"
  unfolding requireWorkspaceSubscription_def assertPaidPlanIsActive_def resolvePaidFallbackPlanCode_def
    resolveTrialFallbackPlanCode_def appendLifecycleEvent_def
  by (intro framed_intro; simp)+

lemma framed_withEvents [framed_intro]: "framed g (withEvents i codes p n)"
proof (induction codes)
  case Nil
  show ?case by (simp only: withEvents_def foldr.simps id_apply) (rule framed_intro)
next
  case (Cons code codes)
  then show ?case
    by (simp only: withEvents_def foldr.simps comp_apply) (intro framed_intro)
qed

lemma framed_update [framed_intro]: "framed g (updateWithEvents i cur f codes)"
  unfolding updateWithEvents_def by (intro framed_intro)

lemma wlp_require [wlp_intro]:
  "(\<And>cur. subscriptionTable d w = Some cur \<Longrightarrow> Q cur d) \<Longrightarrow> wlp (requireWorkspaceSubscription w) Q d"
  unfolding requireWorkspaceSubscription_def
  by (rule wlp_bind [where g = id]) (auto simp: findSubscription_def intro!: wlp_intro framed_intro)

lemma wlp_plans [wlp_intro]:
  "Q () d \<Longrightarrow> wlp (assertPaidPlanIsActive c) Q d"
  unfolding assertPaidPlanIsActive_def
  by (rule wlp_bind [where g = id]) (auto intro!: wlp_intro wlp_read framed_intro)

lemma wlp_fallback [wlp_intro]:
  "(\<And>c. Q c d) \<Longrightarrow> wlp (resolvePaidFallbackPlanCode p glob) Q d"
  "(\<And>c. Q c d) \<Longrightarrow> wlp (resolveTrialFallbackPlanCode p) Q d"
  unfolding resolvePaidFallbackPlanCode_def resolveTrialFallbackPlanCode_def Let_def
  by ((rule wlp_bind [where g = id])?; auto intro!: wlp_intro wlp_read wlp_bind [where g = id] framed_intro
      split: option.splits)+

lemma wlp_append [wlp_intro]:
  assumes "\<And>eid. Q eid (d\<lparr>lifecycleLog := lifecycleLog d @ [lifecycleEvent i code p n eid]\<rparr>)"
  shows "wlp (appendLifecycleEvent i code p n) Q d"
  unfolding appendLifecycleEvent_def
  by (rule wlp_stmt) (use assms in \<open>auto simp: insertLifecycleEvent_def Let_def\<close>)

lemma wlp_withEvents:
  assumes "\<And>ids evs. length evs = length codes \<Longrightarrow>
      \<forall>e \<in> set evs. \<exists>code eid. e = lifecycleEvent i code (Some p) n eid \<Longrightarrow>
      Q ids (d\<lparr>lifecycleLog := lifecycleLog d @ evs\<rparr>)"
  shows "wlp (withEvents i codes p n) Q d"
  using assms
proof (induction codes arbitrary: d Q)
  case Nil
  then show ?case by (simp only: withEvents_def foldr.simps id_apply) (rule wlp_intro, use Nil [of "[]"] in simp)
next
  case (Cons code codes)
  have tail: "wlp (withEvents i codes p n) (\<lambda>ids. wlp (returnS (eid # ids)) Q)
      (d\<lparr>lifecycleLog := lifecycleLog d @ [lifecycleEvent i code (Some p) n eid]\<rparr>)" for eid
  proof (rule Cons.IH)
    fix ids evs
    assume e: "length evs = length codes" "\<forall>e \<in> set evs. \<exists>code eid. e = lifecycleEvent i code (Some p) n eid"
    let ?evs = "lifecycleEvent i code (Some p) n eid # evs"
    have "Q (eid # ids) (d\<lparr>lifecycleLog := lifecycleLog d @ ?evs\<rparr>)"
      by (rule Cons.prems) (use e in auto)
    then show "wlp (returnS (eid # ids)) Q
       (d\<lparr>lifecycleLog := lifecycleLog d @ [lifecycleEvent i code (Some p) n eid]\<rparr>
        \<lparr>lifecycleLog := lifecycleLog (d\<lparr>lifecycleLog := lifecycleLog d @ [lifecycleEvent i code (Some p) n eid]\<rparr>) @ evs\<rparr>)"
      by (intro wlp_basic) simp
  qed
  have "wlp (bindS (appendLifecycleEvent i code (Some p) n) (\<lambda>eid. bindS (withEvents i codes p n) (\<lambda>ids. returnS (eid # ids)))) Q d"
    by (rule wlp_bind [where g = id]; intro wlp_append framed_intro wlp_bind [where g = id]; rule tail)
  then show ?case by (simp add: withEvents_def)
qed

lemma lifecycleEvent_explains: "le_nextStatus (lifecycleEvent i c p n e) = sub_status n"
  "explains (li_workspaceId i) p n (lifecycleEvent i c p n e)"
  by (simp_all add: lifecycleEvent_def explains_def nextView_def view_def)

lemma wlp_events_step:
  assumes "subscriptionTable d (li_workspaceId i) = Some cur" "codes \<noteq> []" "okStep (li_workspaceId i) (Some cur) nxt"
    "\<And>ids d'. billing_step (li_workspaceId i) d d' \<Longrightarrow> Q ids d'"
  shows "wlp (withEvents i codes cur nxt) Q (d\<lparr>subscriptionTable := (subscriptionTable d)(li_workspaceId i \<mapsto> nxt)\<rparr>)"
proof (rule wlp_withEvents)
  fix ids evs
  assume e: "length evs = length codes" "\<forall>e \<in> set evs. \<exists>code eid. e = lifecycleEvent i code (Some cur) nxt eid"
  then have "evs \<noteq> []" using assms(2) by auto
  moreover have "\<forall>e \<in> set evs. explains (li_workspaceId i) (Some cur) nxt e"
    using e(2) lifecycleEvent_explains(2) by metis
  ultimately show "Q ids (d\<lparr>subscriptionTable := (subscriptionTable d)(li_workspaceId i \<mapsto> nxt)\<rparr>
      \<lparr>lifecycleLog := lifecycleLog (d\<lparr>subscriptionTable := (subscriptionTable d)(li_workspaceId i \<mapsto> nxt)\<rparr>) @ evs\<rparr>)"
    using assms(1,3)
    by (intro assms(4)) (auto simp: billing_step_def subStep_def ledgerStep_def balanceOf_def fun_eq_iff)
qed

lemma wlp_transition:
  assumes "subscriptionTable d (li_workspaceId i) = Some cur" "codes \<noteq> []"
    "okStep (li_workspaceId i) (Some cur) (f cur)"
    "\<And>ids d'. billing_step (li_workspaceId i) d d' \<Longrightarrow> Q ids d'"
  shows "wlp (updateWithEvents i cur f codes) Q d"
  unfolding updateWithEvents_def
proof (rule wlp_bind [where g = id], rule wlp_stmt)
  fix nxt d1
  assume "updateSubscription (li_workspaceId i) f d = (Inr nxt, d1)"
  with assms(1) have "nxt = f cur" "d1 = d\<lparr>subscriptionTable := (subscriptionTable d)(li_workspaceId i \<mapsto> f cur)\<rparr>"
    by (auto simp: updateSubscription_def)
  then show "wlp (withEvents i codes cur nxt) Q d1" using wlp_events_step [OF assms] by simp
qed (rule framed_intro)

lemma wlp_reminder:
  assumes "subscriptionTable d (li_workspaceId i) = Some cur" "codes \<noteq> []"
    "\<And>ids d'. billing_step (li_workspaceId i) d d' \<Longrightarrow> Q ids d'"
  shows "wlp (withEvents i codes cur cur) Q d"
proof -
  have "okStep (li_workspaceId i) (Some cur) cur" by (simp add: okStep_def edge_def)
  from wlp_events_step [OF assms(1,2) this assms(3)] show ?thesis
    using assms(1) by (simp add: map_upd_triv)
qed

section \<open>The lifecycle operations\<close>

lemma core_simps [simp]:
  "core (d\<lparr>configDirtyAt := a\<rparr>) = core d" "core (d\<lparr>configGeneration := n\<rparr>) = core d"
  "core (d\<lparr>rolloutLog := l\<rparr>) = core d" "core (d\<lparr>emittedIds := ids\<rparr>) = core d"
  by (simp_all add: core_def balanceOf_def fun_eq_iff)

lemma tx_core:
  assumes "tx f s = (r, t)" "\<And>now d. core (snd (f now d)) = core d"
  shows "core (dbData t) = core (dbData s)"
  using assms(1)
proof (cases rule: tx_cases)
  case (committed a)
  with assms(2) [of "dbNow s" "dbData s"] show ?thesis by simp
qed simp

lemma bind_core:
  assumes "bindS m f s = (r, t)" "\<And>s r t. m s = (r, t) \<Longrightarrow> core (dbData t) = core (dbData s)"
    "\<And>a s r t. f a s = (r, t) \<Longrightarrow> core (dbData t) = core (dbData s)"
  shows "core (dbData t) = core (dbData s)"
  using assms(1) unfolding bindS_def
  by (auto split: prod.splits sum.splits dest!: assms(2,3))

lemma emit_core: "emitForLifecycleEventIds ids s = (r, t) \<Longrightarrow> core (dbData t) = core (dbData s)"
proof (induction ids arbitrary: s r t)
  case (Cons a ids)
  from Cons.prems show ?case
    unfolding emitForLifecycleEventIds.simps by (elim bind_core tx_core) (simp, erule Cons.IH)
qed simp

lemma after_core: "afterLifecycle i reason scope ids s = (r, t) \<Longrightarrow> core (dbData t) = core (dbData s)"
  unfolding afterLifecycle_def markWorkspaceAssistantsConfigDirty_def queueBillingLifecycleRollout_def
  by (erule bind_core, erule tx_core, simp, erule bind_core, erule bind_core, erule tx_core, simp, erule tx_core, simp,
      erule emit_core)

lemma unlessEmpty_core:
  "unlessEmpty (afterLifecycle i reason scope) ids s = (r, t) \<Longrightarrow> core (dbData t) = core (dbData s)"
  by (auto simp: unlessEmpty_def after_core split: if_splits)

lemma pgTx_step:
  assumes "pgTx reports f s = (r, t)" "framed core (f (dbNow s))"
    "wlp (f (dbNow s)) (\<lambda>_. billing_step w (dbData s)) (dbData s)"
  shows "billing_step w (dbData s) (dbData t)"
  using pgTx_wlp(1) [OF assms] by (auto intro: billing_step_same)

lemma lifecycle_op:
  assumes "bindS (pgTx reports f) g s = (r, t)" "framed core (f (dbNow s))"
    "wlp (f (dbNow s)) (\<lambda>_. billing_step w (dbData s)) (dbData s)"
    "\<And>ids s r t. g ids s = (r, t) \<Longrightarrow> core (dbData t) = core (dbData s)"
  shows "billing_step w (dbData s) (dbData t)"
proof -
  obtain r1 s1 where p: "pgTx reports f s = (r1, s1)" by (cases "pgTx reports f s")
  note step = pgTx_step [OF p assms(2,3)]
  from assms(1) p consider "s1 = t" | a where "g a s1 = (r, t)" by (auto simp: bindS_def split: sum.splits)
  then show ?thesis
  proof cases
    case 2
    from billing_step_core [OF step assms(4) [OF 2]] show ?thesis .
  qed (use step in simp)
qed

lemma withSettings_step:
  assumes "withSettings settings f s = (r, t)" "\<And>cfg. f cfg s = (r, t) \<Longrightarrow> billing_step w (dbData s) (dbData t)"
  shows "billing_step w (dbData s) (dbData t)"
  using assms by (auto simp: withSettings_def billing_step_same split: sum.splits)

lemma option_step:
  assumes "(case v of None \<Rightarrow> throwS e | Some x \<Rightarrow> f x) s = (r, t)"
    "\<And>x. f x s = (r, t) \<Longrightarrow> billing_step w (dbData s) (dbData t)"
  shows "billing_step w (dbData s) (dbData t)"
  using assms by (cases v) (simp_all add: billing_step_same)

lemmas step_elim = withSettings_step option_step lifecycle_op after_core unlessEmpty_core emit_core pgTx_step

lemmas step_intro = framed_intro wlp_intro wlp_bind [where g = id] wlp_transition wlp_reminder

lemmas step_simps = okStep_def edge_def subOk_def resetProvider_def billing_step_same

lemma withPendingRef_workspace [simp]: "li_workspaceId (withPendingRef change i) = li_workspaceId i"
  by (simp add: withPendingRef_def Let_def)

lemma clear_step:
  "updateSubscription w (sub_metadata_update m) d = (Inr a, d') \<Longrightarrow> billing_step w d d'"
  by (auto simp: updateSubscription_def billing_step_def subStep_def ledgerStep_def step_simps view_def balanceOf_def
      fun_eq_iff split: option.splits intro!: exI [of _ "[]"])

lemma startPaidGrace_step:
  "startPaidGrace reports settings i override s = (r, t) \<Longrightarrow> billing_step (li_workspaceId i) (dbData s) (dbData t)"
  unfolding startPaidGrace_def
  by (elim step_elim; intro step_intro; auto simp: step_simps)

lemma extendTrial_step:
  "extendTrial reports i newEnd s = (r, t) \<Longrightarrow> billing_step (li_workspaceId i) (dbData s) (dbData t)"
  unfolding extendTrial_def
  by (elim step_elim; intro step_intro; auto simp: step_simps)

lemma grantGrace_step:
  "grantGrace reports settings i s = (r, t) \<Longrightarrow> billing_step (li_workspaceId i) (dbData s) (dbData t)"
  unfolding grantGrace_def
  by (elim step_elim; intro step_intro; auto simp: step_simps)

lemma extendGrace_step:
  "extendGrace reports settings i s = (r, t) \<Longrightarrow> billing_step (li_workspaceId i) (dbData s) (dbData t)"
  unfolding extendGrace_def
  by (elim step_elim; intro step_intro; auto simp: step_simps)

lemma expireGrace_step:
  "expireGrace reports settings i asOf s = (r, t) \<Longrightarrow> billing_step (li_workspaceId i) (dbData s) (dbData t)"
  unfolding expireGrace_def
  by (elim step_elim; intro step_intro; auto simp: step_simps)

lemma schedulePaidCancellation_step:
  "schedulePaidCancellationAtPeriodEnd reports i s = (r, t) \<Longrightarrow> billing_step (li_workspaceId i) (dbData s) (dbData t)"
  unfolding schedulePaidCancellationAtPeriodEnd_def
  by (elim step_elim; intro step_intro; auto simp: step_simps)

lemma resumePaidAutoRenew_step:
  "resumePaidAutoRenew reports i pr cr sr s = (r, t) \<Longrightarrow> billing_step (li_workspaceId i) (dbData s) (dbData t)"
  unfolding resumePaidAutoRenew_def
  by (elim step_elim; intro step_intro; auto simp: step_simps)

lemma enablePaidAutoRenew_step:
  "enablePaidAutoRenew reports i pr cr ref s = (r, t) \<Longrightarrow> billing_step (li_workspaceId i) (dbData s) (dbData t)"
  unfolding enablePaidAutoRenew_def
  by (elim step_elim; intro step_intro; auto simp: step_simps)

lemma schedulePlanChange_step:
  "schedulePlanChangeAtPeriodEnd reports i change s = (r, t) \<Longrightarrow> billing_step (li_workspaceId i) (dbData s) (dbData t)"
  unfolding schedulePlanChangeAtPeriodEnd_def
  by (elim step_elim; intro step_intro; auto simp: step_simps)

lemma clearScheduledPlanChange_step:
  "clearScheduledPlanChange reports i s = (r, t) \<Longrightarrow> billing_step (li_workspaceId i) (dbData s) (dbData t)"
  unfolding clearScheduledPlanChange_def
  by (elim step_elim; intro step_intro; auto simp: step_simps clear_step)

lemma applyCancelled_step:
  "applyCancelledPaidPeriodEndFallback reports settings i asOf s = (r, t) \<Longrightarrow> billing_step (li_workspaceId i) (dbData s) (dbData t)"
  unfolding applyCancelledPaidPeriodEndFallback_def
  by (elim step_elim; intro step_intro; auto simp: step_simps)

lemma applyImmediate_step:
  "applyImmediatePaidFallback reports settings i asOf s = (r, t) \<Longrightarrow> billing_step (li_workspaceId i) (dbData s) (dbData t)"
  unfolding applyImmediatePaidFallback_def
  by (elim step_elim; intro step_intro; auto simp: step_simps)

lemma applyFallbackNow_step:
  "applyFallbackNow reports settings i asOf s = (r, t) \<Longrightarrow> billing_step (li_workspaceId i) (dbData s) (dbData t)"
  unfolding applyFallbackNow_def
  by (elim step_elim; intro step_intro; auto simp: step_simps)

lemma recordBillingReminder_step:
  "recordBillingReminder reports i s = (r, t) \<Longrightarrow> billing_step (li_workspaceId i) (dbData s) (dbData t)"
  unfolding recordBillingReminder_def
  by (elim step_elim; intro step_intro; auto simp: step_simps)

section \<open>Wallet and ledger\<close>

lemma wlp_recordEvent:
  assumes "eventKey e \<notin> eventKey ` set (vcoinLog d) \<Longrightarrow> Q True (d\<lparr>vcoinLog := vcoinLog d @ [e]\<rparr>)"
  shows "wlp (recordEvent e) Q d"
  using assms
  by (auto simp: wlp_def recordEvent_def catchS_def bindS_def stmt_def insertVcoinEvent_def returnS_def throwS_def)

lemma wlp_ensureRow:
  assumes "\<And>row wt. wt w = Some row \<Longrightarrow> wa_balanceVc row = balanceOf d w \<Longrightarrow>
      balanceOf (d\<lparr>walletTable := wt\<rparr>) = balanceOf d \<Longrightarrow> Q row (d\<lparr>walletTable := wt\<rparr>)"
  shows "wlp (ensureRow raced w now) Q d"
proof (cases "walletTable d w")
  case None
  then have "Q \<lparr>wa_workspaceId = w, wa_balanceVc = 0, wa_updatedAt = now\<rparr> (d\<lparr>walletTable := (walletTable d)
      (w \<mapsto> \<lparr>wa_workspaceId = w, wa_balanceVc = 0, wa_updatedAt = now\<rparr>)\<rparr>)"
    by (intro assms) (auto simp: balanceOf_def fun_eq_iff)
  with None show ?thesis
    by (auto simp: wlp_def ensureRow_def catchS_def bindS_def stmt_def findWallet_def createWallet_def Let_def
        returnS_def throwS_def split: if_splits)
next
  case (Some row)
  then have "Q row (d\<lparr>walletTable := walletTable d\<rparr>)" by (intro assms) (auto simp: balanceOf_def fun_eq_iff)
  with Some show ?thesis
    by (auto simp: wlp_def ensureRow_def bindS_def stmt_def findWallet_def returnS_def)
qed

lemma wlp_addToBalance:
  assumes "walletTable d w = Some row"
    "\<And>row' wt. balanceOf (d\<lparr>walletTable := wt\<rparr>) = (balanceOf d)(w := balanceOf d w + n) \<Longrightarrow> Q row' (d\<lparr>walletTable := wt\<rparr>)"
  shows "wlp (stmt (addToBalance w n now)) Q d"
  by (rule wlp_stmt) (use assms in \<open>auto simp: addToBalance_def Let_def balanceOf_def fun_eq_iff intro!: assms(2)\<close>)

definition movedBy :: "string \<Rightarrow> int \<Rightarrow> billing_data \<Rightarrow> billing_data \<Rightarrow> bool" where
  "movedBy w n d d' \<longleftrightarrow> (\<exists>wt. d' = d\<lparr>walletTable := wt\<rparr>) \<and> balanceOf d' = (balanceOf d)(w := balanceOf d w + n)"

lemma wlp_move:
  assumes "z \<longleftrightarrow> n = 0" "\<And>c d'. movedBy w n d d' \<Longrightarrow> Q c d'"
  shows "wlp (bindS (ensureRow raced w now) (\<lambda>ensured. if z then returnS (u ensured)
      else bindS (stmt (addToBalance w n now)) (\<lambda>updated. returnS (v ensured updated)))) Q d"
proof (rule wlp_bind [where g = id], rule wlp_ensureRow)
  fix row wt
  assume e: "wt w = Some row" "balanceOf (d\<lparr>walletTable := wt\<rparr>) = balanceOf d"
  show "wlp (if z then returnS (u row) else bindS (stmt (addToBalance w n now)) (\<lambda>updated. returnS (v row updated)))
      Q (d\<lparr>walletTable := wt\<rparr>)"
  proof (intro wlp_if wlp_basic assms(2))
    assume z
    with e assms(1) show "movedBy w n d (d\<lparr>walletTable := wt\<rparr>)" by (auto simp: movedBy_def)
  next
    show "wlp (bindS (stmt (addToBalance w n now)) (\<lambda>updated. returnS (v row updated))) Q (d\<lparr>walletTable := wt\<rparr>)"
    proof (rule wlp_bind [where g = id], rule wlp_addToBalance)
      fix row' wt'
      assume "balanceOf (d\<lparr>walletTable := wt, walletTable := wt'\<rparr>) =
         (balanceOf (d\<lparr>walletTable := wt\<rparr>))(w := balanceOf (d\<lparr>walletTable := wt\<rparr>) w + n)"
      with e have "movedBy w n d (d\<lparr>walletTable := wt, walletTable := wt'\<rparr>)" by (auto simp: movedBy_def)
      then show "wlp (returnS (v row row')) Q (d\<lparr>walletTable := wt, walletTable := wt'\<rparr>)" by (intro wlp_basic assms(2))
    qed (use e in simp, intro framed_intro)
  qed
qed (intro framed_intro)

lemma integer_amount: "isInteger n \<Longrightarrow> \<not> js_less n (Fin 0) \<Longrightarrow> 0 \<le> js_int n"
  by (cases n) (auto simp: js_int_def isInteger_def)

lemma wlp_credit:
  assumes "\<And>c d'. 0 \<le> js_int n \<Longrightarrow> movedBy w (js_int n) d d' \<Longrightarrow> Q c d'"
  shows "wlp (credit raced w n k now) Q d"
  unfolding credit_def by (intro wlp_intro) (rule wlp_move; simp add: assms integer_amount)

lemma wlp_debit:
  assumes "\<And>c d'. 0 \<le> js_int n \<Longrightarrow> movedBy w (- js_int n) d d' \<Longrightarrow> Q c d'"
  shows "wlp (debit raced w n now) Q d"
  unfolding debit_def by (intro wlp_intro) (rule wlp_move; simp add: assms integer_amount)

lemma createWallet_core: "createWallet raced w now d = (Inr a, d') \<Longrightarrow> core d' = core d"
  by (auto simp: createWallet_def core_def balanceOf_def fun_eq_iff Let_def split: if_splits)

lemma createWallet_core_snd: "core (snd (transactionS (createWallet raced w now) d)) = core d"
  by (auto simp: transactionS_def split: prod.splits sum.splits dest: createWallet_core)

lemma wlp_getOrCreate:
  assumes "\<And>row d'. core d' = core d \<Longrightarrow> Q row d'"
  shows "wlp (getOrCreate w now) Q d"
  unfolding wlp_def
proof (intro allI impI)
  fix x a y
  assume x: "working x = d" "getOrCreate w now x = (Inr a, y)"
  have reads: "outside (findWallet w) z = (Inr (walletTable (committed z) w), z)" for z :: billing_txn
    by (simp add: outside_def transactionS_def findWallet_def)
  have "core (working y) = core d"
  proof (cases "walletTable (committed x) w")
    case None
    obtain r z where c: "outside (createWallet False w now) x = (r, z)" by (cases "outside (createWallet False w now) x")
    then have z: "core (working z) = core d"
      using x(1) createWallet_core_snd [of False w now d] by (auto simp: outside_def Let_def split: prod.splits)
    with x(2) None c show ?thesis
      by (auto simp: getOrCreate_def catchS_def bindS_def reads returnS_def throwS_def split: sum.splits if_splits option.splits)
  qed (use x in \<open>simp add: getOrCreate_def bindS_def reads returnS_def\<close>)
  then show "Q a (working y)" by (rule assms)
qed

text \<open>An amount entered once into the ledger and moved in the wallet.\<close>

definition ledgerOnly :: "string \<Rightarrow> billing_data \<Rightarrow> billing_data \<Rightarrow> bool" where
  "ledgerOnly w d d' \<longleftrightarrow> subscriptionTable d' = subscriptionTable d \<and> lifecycleLog d' = lifecycleLog d \<and> ledgerStep w d d'"

lemma ledgerOnly_core: "core d' = core d \<Longrightarrow> ledgerOnly w d d'"
  by (auto simp: ledgerOnly_def core_def ledgerStep_def)

lemma ledgerOnly_entry:
  assumes "movedBy w n (d\<lparr>vcoinLog := vcoinLog d @ [e]\<rparr>) d'" "eventKey e \<notin> eventKey ` set (vcoinLog d)"
    "ve_workspaceId e = w" "ve_amountVc e = n"
  shows "ledgerOnly w d d'"
  using assms by (auto simp: ledgerOnly_def movedBy_def ledgerStep_def balanceOf_def fun_eq_iff)

lemma ledgerOnly_step: "ledgerOnly w d d' \<Longrightarrow> billing_step w d d'"
  by (simp add: ledgerOnly_def billing_step_def subStep_def)

lemma wlp_creditPeriod:
  assumes "\<And>r d'. ledgerOnly w d d' \<Longrightarrow> Q r d'"
  shows "wlp (creditPeriod raced w plan p now) Q d"
  unfolding creditPeriod_def
  by (intro wlp_intro wlp_bind [where g = core] wlp_recordEvent wlp_getOrCreate wlp_credit framed_intro)
    (auto simp: findPlan_def intro!: assms intro: ledgerOnly_core ledgerOnly_entry)

section \<open>Payment\<close>

lemma billing_step_compose:
  assumes "ledgerOnly w d1 d2" "subStep w d d1" "vcoinLog d1 = vcoinLog d" "balanceOf d1 = balanceOf d"
  shows "billing_step w d d2"
  using assms by (auto simp: ledgerOnly_def billing_step_def subStep_def ledgerStep_def)

lemma activePaid_subStep:
  assumes "okStep w (subscriptionTable d w) nxt" "explains w (subscriptionTable d w) nxt e"
    "d1 = d\<lparr>subscriptionTable := (subscriptionTable d)(w \<mapsto> nxt), lifecycleLog := lifecycleLog d @ [e]\<rparr>"
  shows "subStep w d d1" "vcoinLog d1 = vcoinLog d" "balanceOf d1 = balanceOf d"
  using assms by (auto simp: subStep_def balanceOf_def fun_eq_iff intro!: exI [of _ nxt] exI [of _ "[e]"])

lemma framed_writePaidRow [framed_intro]: "framed g (writePaidRow parseDate w p period reason now found)"
  unfolding writePaidRow_def by (intro framed_intro)

lemma activePaid_step:
  "wlp (activePaidTx parseDate raced i p period ec reason now) (\<lambda>_. billing_step (li_workspaceId i) d) d"
  "framed core (activePaidTx parseDate raced i p period ec reason now)"
proof -
  have tail: "wlp (bindS (appendLifecycleEvent i ec previous nxt)
       (\<lambda>eid. bindS (creditPeriod raced (li_workspaceId i) plan start now) (\<lambda>_. returnS [eid])))
      (\<lambda>_. billing_step (li_workspaceId i) d) (d\<lparr>subscriptionTable := (subscriptionTable d)(li_workspaceId i \<mapsto> nxt)\<rparr>)"
    if "okStep (li_workspaceId i) (subscriptionTable d (li_workspaceId i)) nxt"
      "previous = subscriptionTable d (li_workspaceId i)" for previous nxt plan start
    by (intro wlp_bind [where g = core] wlp_append wlp_creditPeriod wlp_basic framed_intro)
      (use that in \<open>auto elim!: billing_step_compose intro!: activePaid_subStep lifecycleEvent_explains\<close>)
  show "framed core (activePaidTx parseDate raced i p period ec reason now)"
    unfolding activePaidTx_def by (intro framed_intro)
  show "wlp (activePaidTx parseDate raced i p period ec reason now) (\<lambda>_. billing_step (li_workspaceId i) d) d"
    unfolding activePaidTx_def
    by (rule wlp_bind [where g = core], rule wlp_stmt, rule wlp_bind [where g = core],
        unfold writePaidRow_def, intro wlp_let wlp_prod, rule wlp_option)
      (auto simp: findSubscription_def createSubscription_def updateSubscription_def step_simps
        split: option.splits intro!: wlp_stmt tail framed_intro)
qed

lemma read_step:
  assumes "bindS (tx (\<lambda>_. f)) g s = (r, t)" "\<And>d. snd (f d) = d"
    "\<And>a s1. dbData s1 = dbData s \<Longrightarrow> g a s1 = (r, t) \<Longrightarrow> billing_step w (dbData s) (dbData t)"
  shows "billing_step w (dbData s) (dbData t)"
proof -
  obtain r1 s1 where f: "tx (\<lambda>_. f) s = (r1, s1)" by (cases "tx (\<lambda>_. f) s")
  then have same: "dbData s1 = dbData s"
  proof (cases rule: tx_cases)
    case (committed a)
    with assms(2) [of "dbData s"] show ?thesis by (metis snd_conv)
  qed simp
  from assms(1) f consider "t = s1" | a where "g a s1 = (r, t)" by (auto simp: bindS_def split: sum.splits)
  then show ?thesis
    by cases (use same assms(3) [OF same] in \<open>auto simp: billing_step_same\<close>)
qed

lemma applyActivePaid_step:
  "applyActivePaidTransition parseDate reports raced i p ec reason s = (r, t) \<Longrightarrow>
     billing_step (li_workspaceId i) (dbData s) (dbData t)"
  unfolding applyActivePaidTransition_def
proof (elim read_step)
  fix plan s1
  assume s1: "dbData s1 = dbData s"
    and run: "(if \<not> planIsActive plan
     then throwS (BadRequestException ''paidPlanCode must reference an active plan.'')
     else (case parseActivePaidPeriod (py_currentPeriodStartedAt p) (py_currentPeriodEndsAt p) of
       Inl e \<Rightarrow> throwS e
     | Inr period \<Rightarrow>
         bindS (pgTx reports (activePaidTx parseDate raced i p period ec reason))
           (afterLifecycle i ec
              [(''reason'', JStr reason), (''paidPlanCode'', JStr (py_paidPlanCode p)),
               (''billingProvider'', case py_billingProvider p of Some b \<Rightarrow> JStr b | None \<Rightarrow> JNull),
               (''providerSubscriptionRef'', case py_providerSubscriptionRef p of Some b \<Rightarrow> JStr b | None \<Rightarrow> JNull)]))) s1 = (r, t)"
  have "billing_step (li_workspaceId i) (dbData s1) (dbData t)"
    using run activePaid_step
    by (auto simp: throwS_def billing_step_same split: if_splits sum.splits elim!: lifecycle_op after_core)
  with s1 show "billing_step (li_workspaceId i) (dbData s) (dbData t)" by simp
qed (simp add: findPlan_def)

section \<open>Packages and charges\<close>

lemma framed_upsertGrants [framed_intro]: "framed g (upsertGrants i w cur period items)"
proof (induction items)
  case (Cons item items)
  then show ?case unfolding upsertGrants.simps by (intro framed_intro)
qed (unfold upsertGrants.simps, rule framed_intro)

lemma wlp_upsertGrants:
  "(\<And>d'. core d' = core d \<Longrightarrow> Q () d') \<Longrightarrow> wlp (upsertGrants i w cur period items) Q d"
proof (induction items arbitrary: d Q)
  case (Cons item items)
  have same: "core d1 = core d" if "upsertGrant i w cur period item d = (Inr a, d1)" for a d1
    using that by (auto simp: upsertGrant_def Let_def core_def balanceOf_def fun_eq_iff split: option.splits)
  show ?case
    unfolding upsertGrants.simps
    by (intro wlp_bind [where g = id] wlp_stmt Cons.IH Cons.prems framed_intro) (auto dest: same)
qed (simp add: wlp_basic)

lemma fulfill_ledger:
  "wlp (fulfillTx raced pid w cur period items now) (\<lambda>_. ledgerOnly w d) d"
  "framed core (fulfillTx raced pid w cur period items now)"
proof -
  show "framed core (fulfillTx raced pid w cur period items now)"
    unfolding fulfillTx_def by (intro framed_intro)
  have core: "ledgerOnly w d d2" if "ledgerOnly w d d1" "core d2 = core d1" for d1 d2
    using that by (auto simp: ledgerOnly_def core_def ledgerStep_def)
  show "wlp (fulfillTx raced pid w cur period items now) (\<lambda>_. ledgerOnly w d) d"
    unfolding fulfillTx_def
    by (intro wlp_intro wlp_bind [where g = core] wlp_recordEvent wlp_credit wlp_upsertGrants framed_intro)
      (auto intro: core [OF ledgerOnly_entry] ledgerOnly_core)
qed

lemma reverse_ledger:
  "wlp (reverseTx raced pid w n now) (\<lambda>_. ledgerOnly w d) d"
  "framed core (reverseTx raced pid w n now)"
proof -
  show "framed core (reverseTx raced pid w n now)"
    unfolding reverseTx_def by (intro framed_intro)
  show "wlp (reverseTx raced pid w n now) (\<lambda>_. ledgerOnly w d) d"
    unfolding reverseTx_def
    by (intro wlp_intro wlp_bind [where g = core] wlp_recordEvent wlp_debit framed_intro)
      (auto intro: ledgerOnly_core ledgerOnly_entry)
qed

lemma package_call:
  assumes "pgTx reports f s = (r, t)" "\<And>now d. wlp (f now) (\<lambda>_. ledgerOnly w d) d" "\<And>now. framed core (f now)"
  shows "billing_step w (dbData s) (dbData t)"
  by (rule pgTx_step [OF assms(1,3) wlp_weaken [OF assms(2)]]) (rule ledgerOnly_step)

lemma fulfill_step:
  "fulfillPackagePaymentIntent reports raced period pid w s = (r, t) \<Longrightarrow> billing_step w (dbData s) (dbData t)"
  unfolding fulfillPackagePaymentIntent_def
  by (elim read_step)
    (auto simp: findIntent_def throwS_def billing_step_same split: option.splits if_splits sum.splits
      dest!: package_call [OF _ fulfill_ledger])

lemma reverse_step:
  "reversePackagePaymentIntent reports raced pid w s = (r, t) \<Longrightarrow> billing_step w (dbData s) (dbData t)"
  unfolding reversePackagePaymentIntent_def
  by (elim read_step)
    (auto simp: findIntent_def throwS_def returnS_def billing_step_same Let_def split: option.splits if_splits
      dest!: package_call [OF _ reverse_ledger])

section \<open>A sample database\<close>

definition samplePlan :: billing_plan where
  "samplePlan = \<lparr>pl_status = ''active'', pl_displayName = ''Pro'', pl_billingProviderHints = JObj [(''videoVcoinMonthlyGrant'', JNum (Fin 100))]\<rparr>"

definition sampleIntent :: payment_intent where
  "sampleIntent = \<lparr>pi_targetPlanCode = PACKAGE_INTENT_PLAN_SENTINEL, pi_currency = ''RUB'',
     pi_packageItems = Some [\<lparr>pk_catalogItemId = ''v50'', pk_packageType = ''video_generate'', pk_units = 50, pk_amountMinor = 900\<rparr>]\<rparr>"

definition sampleRow :: subscription where
  "sampleRow = \<lparr>sub_id = ''sub-1'', sub_workspaceId = ''ws'', sub_planCode = ''basic'', sub_status = Active,
     sub_trialStartedAt = None, sub_trialEndsAt = None, sub_graceStartedAt = None, sub_graceEndsAt = None,
     sub_currentPeriodStartedAt = Some 0, sub_currentPeriodEndsAt = Some 2592000000, sub_cancelAtPeriodEnd = False,
     sub_billingProvider = None, sub_providerCustomerRef = None, sub_providerSubscriptionRef = None,
     sub_providerRecurringDescriptor = None, sub_metadata = JObj []\<rparr>"

definition sampleData :: billing_data where
  "sampleData = \<lparr>subscriptionTable = [''ws'' \<mapsto> sampleRow], lifecycleLog = [], planTable = [''pro'' \<mapsto> samplePlan],
     walletTable = (\<lambda>_. None), vcoinLog = [], intentTable = [''pay-1'' \<mapsto> sampleIntent], packageGrants = (\<lambda>_. None),
     configDirtyAt = (\<lambda>_. None), configGeneration = 1, rolloutLog = [], emittedIds = [],
     eventIdOf = (\<lambda>n. replicate (Suc n) CHR ''e''), subscriptionIdOf = (\<lambda>w. w)\<rparr>"

definition sampleDb :: "billing_data database" where
  "sampleDb = \<lparr>dbNow = 2592000000, dbData = sampleData, dbCount = 0, dbFault = (\<lambda>_. NoFault)\<rparr>"

definition sampleInput :: lifecycle_input where
  "sampleInput = \<lparr>li_workspaceId = ''ws'', li_userId = None, li_source = Provider, li_refs = None\<rparr>"

definition samplePayment :: payment_input where
  "samplePayment = \<lparr>py_paidPlanCode = ''pro'', py_currentPeriodStartedAt = Some 2592000000,
     py_currentPeriodEndsAt = Some 5184000000, py_billingProvider = None, py_providerCustomerRef = None,
     py_providerSubscriptionRef = None\<rparr>"

lemmas sample_defs = sampleDb_def sampleData_def sampleInput_def samplePayment_def samplePlan_def sampleRow_def sampleIntent_def

end
