(* ===== verification/BillingHistory.thy ===== *)
theory BillingHistory
  imports BillingInvariants
begin

text \<open>
  Histories of billing calls: any sequence of the lifecycle operations, package purchases and
  reversals, video charges and pauses, on a database that may refuse calls or lose answers.
  \<open>answered\<close> adds up the charges a caller was told of, \<open>attempted\<close> those it asked for; a charge
  whose answer was lost lies between.
\<close>

datatype billing_call =
    Start_paid_grace bool "lifecycle_settings outcome" lifecycle_input "string option"
  | Extend_trial bool lifecycle_input "int option"
  | Grant_grace bool "lifecycle_settings outcome" lifecycle_input
  | Extend_grace bool "lifecycle_settings outcome" lifecycle_input
  | Expire_grace bool "lifecycle_settings outcome" lifecycle_input "int option"
  | Recover_payment "string \<Rightarrow> int option" bool bool lifecycle_input payment_input
  | Activate_paid "string \<Rightarrow> int option" bool bool lifecycle_input payment_input activation activation
  | Schedule_cancellation bool lifecycle_input
  | Resume_auto_renew bool lifecycle_input "string option" "string option" "string option"
  | Enable_auto_renew bool lifecycle_input "string option" "string option" string
  | Schedule_plan_change bool lifecycle_input pending_change
  | Clear_plan_change bool lifecycle_input
  | Cancelled_fallback bool "lifecycle_settings outcome" lifecycle_input "int option"
  | Immediate_fallback bool "lifecycle_settings outcome" lifecycle_input "int option"
  | Fallback_now bool "lifecycle_settings outcome" lifecycle_input "int option"
  | Billing_reminder bool lifecycle_input
  | Fulfill_package bool bool "(int \<times> int) outcome" string string
  | Reverse_package bool bool string string
  | Settle_video bool bool bool "metering option" "model_profile option" js_number string
  | Elapse nat

fun performCall :: "billing_call \<Rightarrow> (billing_data database, unit) oper" where
  "performCall (Start_paid_grace rp st i plan) = startPaidGrace rp st i plan"
| "performCall (Extend_trial rp i newEnd) = extendTrial rp i newEnd"
| "performCall (Grant_grace rp st i) = grantGrace rp st i"
| "performCall (Extend_grace rp st i) = extendGrace rp st i"
| "performCall (Expire_grace rp st i asOf) = expireGrace rp st i asOf"
| "performCall (Recover_payment pd rp raced i p) = recoverPayment pd rp raced i p"
| "performCall (Activate_paid pd rp raced i p code reason) = activatePaidSubscription pd rp raced i p code reason"
| "performCall (Schedule_cancellation rp i) = schedulePaidCancellationAtPeriodEnd rp i"
| "performCall (Resume_auto_renew rp i pr cr sr) = resumePaidAutoRenew rp i pr cr sr"
| "performCall (Enable_auto_renew rp i pr cr sr) = enablePaidAutoRenew rp i pr cr sr"
| "performCall (Schedule_plan_change rp i change) = schedulePlanChangeAtPeriodEnd rp i change"
| "performCall (Clear_plan_change rp i) = clearScheduledPlanChange rp i"
| "performCall (Cancelled_fallback rp st i asOf) = applyCancelledPaidPeriodEndFallback rp st i asOf"
| "performCall (Immediate_fallback rp st i asOf) = applyImmediatePaidFallback rp st i asOf"
| "performCall (Fallback_now rp st i asOf) = applyFallbackNow rp st i asOf"
| "performCall (Billing_reminder rp i) = recordBillingReminder rp i"
| "performCall (Fulfill_package rp raced period pid w) = fulfillPackagePaymentIntent rp raced period pid w"
| "performCall (Reverse_package rp raced pid w) = reversePackagePaymentIntent rp raced pid w"
| "performCall (Settle_video rp raced has facts profile rate w) =
     settleVideoGenerateWithVcoinDebit rp raced has facts profile rate w"
| "performCall (Elapse n) = (\<lambda>s. (Inr (), s\<lparr>dbNow := dbNow s + int n\<rparr>))"

fun workspaceOf :: "billing_call \<Rightarrow> string" where
  "workspaceOf (Start_paid_grace rp st i plan) = li_workspaceId i"
| "workspaceOf (Extend_trial rp i newEnd) = li_workspaceId i"
| "workspaceOf (Grant_grace rp st i) = li_workspaceId i"
| "workspaceOf (Extend_grace rp st i) = li_workspaceId i"
| "workspaceOf (Expire_grace rp st i asOf) = li_workspaceId i"
| "workspaceOf (Recover_payment pd rp raced i p) = li_workspaceId i"
| "workspaceOf (Activate_paid pd rp raced i p code reason) = li_workspaceId i"
| "workspaceOf (Schedule_cancellation rp i) = li_workspaceId i"
| "workspaceOf (Resume_auto_renew rp i pr cr sr) = li_workspaceId i"
| "workspaceOf (Enable_auto_renew rp i pr cr sr) = li_workspaceId i"
| "workspaceOf (Schedule_plan_change rp i change) = li_workspaceId i"
| "workspaceOf (Clear_plan_change rp i) = li_workspaceId i"
| "workspaceOf (Cancelled_fallback rp st i asOf) = li_workspaceId i"
| "workspaceOf (Immediate_fallback rp st i asOf) = li_workspaceId i"
| "workspaceOf (Fallback_now rp st i asOf) = li_workspaceId i"
| "workspaceOf (Billing_reminder rp i) = li_workspaceId i"
| "workspaceOf (Fulfill_package rp raced period pid w) = w"
| "workspaceOf (Reverse_package rp raced pid w) = w"
| "workspaceOf (Settle_video rp raced has facts profile rate w) = w"
| "workspaceOf (Elapse n) = []"

fun chargeOf :: "billing_call \<Rightarrow> int" where
  "chargeOf (Settle_video rp raced True (Some m) (Some p) rate w) =
     (case computeVideoVcoinCost m p rate of Inr (vcCost, _) \<Rightarrow> max 0 vcCost | Inl _ \<Rightarrow> 0)"
| "chargeOf _ = 0"

definition chargeFor :: "string \<Rightarrow> billing_call \<Rightarrow> int" where
  "chargeFor w c = (if workspaceOf c = w then chargeOf c else 0)"

primrec runCalls :: "billing_call list \<Rightarrow> billing_data database \<Rightarrow> billing_data database" where
  "runCalls [] s = s"
| "runCalls (c # cs) s = runCalls cs (snd (performCall c s))"

primrec answered :: "string \<Rightarrow> billing_call list \<Rightarrow> billing_data database \<Rightarrow> int" where
  "answered w [] s = 0"
| "answered w (c # cs) s =
     (if isl (fst (performCall c s)) then 0 else chargeFor w c) + answered w cs (snd (performCall c s))"

definition attempted :: "string \<Rightarrow> billing_call list \<Rightarrow> int" where
  "attempted w cs = sum_list (map (chargeFor w) cs)"

definition ledgerSum :: "string \<Rightarrow> billing_data \<Rightarrow> int" where
  "ledgerSum w d = sum_list (map ve_amountVc (filter (\<lambda>e. ve_workspaceId e = w) (vcoinLog d)))"

section \<open>One call\<close>

lemma debit_live:
  assumes "debit raced w n now (beginTxn d) = (Inr a, y)"
  shows "\<not> aborted y"
  using assms
  by (auto simp: debit_def ensureRow_def bindS_def catchS_def stmt_def beginTxn_def throwS_def returnS_def findWallet_def
      split: if_splits sum.splits option.splits prod.splits)

definition charged :: "string \<Rightarrow> int \<Rightarrow> billing_data \<Rightarrow> billing_data \<Rightarrow> bool" where
  "charged w c d d' \<longleftrightarrow> subscriptionTable d' = subscriptionTable d \<and> lifecycleLog d' = lifecycleLog d \<and>
     vcoinLog d' = vcoinLog d \<and> balanceOf d' = (balanceOf d)(w := balanceOf d w - c)"

lemma charged_zero: "charged w 0 d d'" if "core d' = core d"
  using that by (simp add: charged_def core_def)

lemma debit_charges:
  assumes "pgTx reports (debit raced w n) s = (r, t)"
  obtains "core (dbData t) = core (dbData s)" "isl r"
  | "charged w (js_int n) (dbData s) (dbData t)" "0 \<le> js_int n"
  using assms
proof (cases rule: pgTx_cases)
  case (rolled_back r0 x)
  have "framed core (debit raced w n (dbNow s))" by (rule framed_wallets)
  from framedD [OF this rolled_back(1)] rolled_back(2) have same: "core (dbData t) = core (dbData s)"
    by (simp add: beginTxn_def)
  have "isl r0" using rolled_back(1,3) debit_live by (cases r0) auto
  with rolled_back(6) same that(1) show thesis by simp
next
  case (committed a x)
  have "wlp (debit raced w n (dbNow s)) (\<lambda>_ d. 0 \<le> js_int n \<and> movedBy w (- js_int n) (dbData s) d)
     (working (beginTxn (dbData s)))"
    by (rule wlp_debit) (simp add: beginTxn_def)
  from wlpD [OF this _ committed(1)] committed(2,3) have "0 \<le> js_int n" "movedBy w (- js_int n) (dbData s) (dbData t)"
    by (simp_all add: beginTxn_def)
  then show thesis by (intro that(2)) (auto simp: movedBy_def charged_def)
qed (use that(1) in simp)

lemma settle_charges:
  assumes "settleVideoGenerateWithVcoinDebit reports raced has facts profile rate w s = (r, t)"
    "c = chargeOf (Settle_video reports raced has facts profile rate w)"
  obtains "core (dbData t) = core (dbData s)" "isl r \<or> c = 0" | "charged w c (dbData s) (dbData t)"
proof (cases "has \<and> facts \<noteq> None \<and> profile \<noteq> None")
  case False
  with assms have "t = s" "isl r \<or> c = 0"
    by (auto simp: settleVideoGenerateWithVcoinDebit_def throwS_def returnS_def split: if_splits option.splits)
  then show thesis by (intro that(1)) simp_all
next
  case True
  then obtain m p where mp: "has" "facts = Some m" "profile = Some p" by auto
  show thesis
  proof (cases "computeVideoVcoinCost m p rate")
    case (Inl e)
    with mp assms(1) show thesis
      by (intro that(1)) (auto simp: settleVideoGenerateWithVcoinDebit_def throwS_def)
  next
    case (Inr q)
    obtain r1 where r1: "pgTx reports (debit raced w (jsInt (fst q))) s = (r1, t)" "isl r = isl r1"
      using assms(1) mp Inr
      by (auto simp: settleVideoGenerateWithVcoinDebit_def bindS_def returnS_def split: prod.splits sum.splits)
    have c: "c = max 0 (fst q)" using assms(2) mp Inr by (simp split: prod.splits)
    from r1(1) show thesis
      by (cases rule: debit_charges) (use that r1(2) c in \<open>auto simp: max_def split: if_splits\<close>)
  qed
qed

text \<open>What one call does, all workspaces considered.\<close>

lemma call_cases:
  assumes "performCall c s = (r, t)"
  obtains (step) "billing_step (workspaceOf c) (dbData s) (dbData t)" "chargeOf c = 0"
  | (failed) "core (dbData t) = core (dbData s)" "isl r"
  | (charged) "charged (workspaceOf c) (chargeOf c) (dbData s) (dbData t)"
proof (cases "\<exists>rp raced has facts profile rate w. c = Settle_video rp raced has facts profile rate w")
  case True
  then obtain rp raced has facts profile rate w where c: "c = Settle_video rp raced has facts profile rate w" by blast
  with assms have "settleVideoGenerateWithVcoinDebit rp raced has facts profile rate w s = (r, t)" by simp
  then show thesis
    by (cases rule: settle_charges [OF _ refl]) (use that c in \<open>auto intro: billing_step_same\<close>)
next
  case False
  then have "billing_step (workspaceOf c) (dbData s) (dbData t) \<and> chargeOf c = 0"
    using assms
    by (cases c) (auto simp: recoverPayment_def activatePaidSubscription_def billing_step_same
        intro: startPaidGrace_step extendTrial_step grantGrace_step extendGrace_step expireGrace_step
          applyActivePaid_step schedulePaidCancellation_step resumePaidAutoRenew_step enablePaidAutoRenew_step
          schedulePlanChange_step clearScheduledPlanChange_step applyCancelled_step applyImmediate_step
          applyFallbackNow_step recordBillingReminder_step fulfill_step reverse_step)
  then show thesis using step by blast
qed

section \<open>The wallet is the ledger less the charges\<close>

definition spent :: "string \<Rightarrow> billing_data \<Rightarrow> int" where
  "spent w d = ledgerSum w d - balanceOf d w"

definition keysDistinct :: "billing_data \<Rightarrow> bool" where
  "keysDistinct d \<longleftrightarrow> distinct (map eventKey (vcoinLog d))"

lemma spent_billing_step: "billing_step v d d' \<Longrightarrow> spent w d' = spent w d"
  by (auto simp: billing_step_def ledgerStep_def spent_def ledgerSum_def)

lemma spent_charged: "charged v c d d' \<Longrightarrow> spent w d' = spent w d + (if v = w then c else 0)"
  by (auto simp: charged_def spent_def ledgerSum_def)

lemma spent_core: "core d' = core d \<Longrightarrow> spent w d' = spent w d"
  by (simp add: core_def spent_def ledgerSum_def)

lemma keysDistinct_step: "billing_step v d d' \<Longrightarrow> keysDistinct d \<Longrightarrow> keysDistinct d'"
  by (auto simp: billing_step_def ledgerStep_def keysDistinct_def)

lemma chargeOf_nonneg: "0 \<le> chargeOf c"
  by (cases c rule: chargeOf.cases) (auto split: sum.splits)

lemma keysDistinct_same: "vcoinLog d' = vcoinLog d \<Longrightarrow> keysDistinct d' = keysDistinct d"
  by (simp add: keysDistinct_def)

lemma call_spends:
  assumes "performCall c s = (r, t)"
  shows "spent w (dbData s) + (if isl r then 0 else chargeFor w c) \<le> spent w (dbData t) \<and>
    spent w (dbData t) \<le> spent w (dbData s) + chargeFor w c \<and>
    (keysDistinct (dbData s) \<longrightarrow> keysDistinct (dbData t))"
  using assms
proof (cases rule: call_cases)
  case step
  with spent_billing_step [OF step(1), of w] keysDistinct_step [OF step(1)] show ?thesis by (simp add: chargeFor_def)
next
  case failed
  then have "vcoinLog (dbData t) = vcoinLog (dbData s)" by (simp add: core_def)
  with failed show ?thesis
    using chargeOf_nonneg [of c] spent_core [OF failed(1), of w] keysDistinct_same [of "dbData t" "dbData s"] by (simp add: chargeFor_def)
next
  case charged
  then have "vcoinLog (dbData t) = vcoinLog (dbData s)" by (simp add: charged_def)
  with spent_charged [OF charged, of w] show ?thesis
    using chargeOf_nonneg [of c] keysDistinct_same [of "dbData t" "dbData s"] by (simp add: chargeFor_def)
qed

lemma run_spends:
  assumes "keysDistinct (dbData s)"
  shows "keysDistinct (dbData (runCalls cs s)) \<and>
    spent w (dbData s) + answered w cs s \<le> spent w (dbData (runCalls cs s)) \<and>
    spent w (dbData (runCalls cs s)) \<le> spent w (dbData s) + attempted w cs"
  using assms
proof (induction cs arbitrary: s)
  case (Cons c cs)
  obtain r t where c: "performCall c s = (r, t)" by (cases "performCall c s")
  from call_spends [OF c, of w] Cons.prems have "keysDistinct (dbData t)" by simp
  from call_spends [OF c, of w] Cons.IH [OF this] show ?case
    by (simp add: c attempted_def)
qed (simp add: attempted_def)

text \<open>C4: In every history of billing calls that starts without wallets, whatever fails, rolls back
  or loses its answer, no ledger entry is recorded twice (so a period is granted at most once, a
  package credited and reversed at most once), and the balance of a wallet is the sum of its
  ledger less the video charges: a charge whose caller got an answer was made once, one whose
  answer was lost at most once.\<close>

theorem wallet_is_ledger:
  assumes "vcoinLog (dbData s) = []" "walletTable (dbData s) = (\<lambda>_. None)"
  shows "distinct (map eventKey (vcoinLog (dbData (runCalls cs s)))) \<and>
    ledgerSum w (dbData (runCalls cs s)) - attempted w cs \<le> balanceOf (dbData (runCalls cs s)) w \<and>
    balanceOf (dbData (runCalls cs s)) w \<le> ledgerSum w (dbData (runCalls cs s)) - answered w cs s"
proof -
  have "keysDistinct (dbData s)" "spent w (dbData s) = 0"
    using assms by (simp_all add: keysDistinct_def spent_def ledgerSum_def balanceOf_def)
  with run_spends [of s cs w] show ?thesis by (auto simp: keysDistinct_def spent_def)
qed

definition sampleCalls :: "billing_call list" where
  "sampleCalls = [Fulfill_package False False (Inr (0, 1)) ''pay-1'' ''ws'',
     Settle_video False False True (Some (Time_metered (Fin 5))) (Some demoVideoProfile) (Fin 20) ''ws'']"

theorem wallet_is_ledger_witness:
  "ledgerSum ''ws'' (dbData (runCalls sampleCalls sampleDb)) - 14 \<le> balanceOf (dbData (runCalls sampleCalls sampleDb)) ''ws''"
proof -
  have "attempted ''ws'' sampleCalls = 14"
    by (simp add: attempted_def sampleCalls_def chargeFor_def demo_video_cost)
  with wallet_is_ledger [of sampleDb sampleCalls "''ws''"] show ?thesis by (simp add: sample_defs)
qed

section \<open>Subscriptions\<close>

lemma call_subStep:
  assumes "performCall c s = (r, t)"
  shows "subStep (workspaceOf c) (dbData s) (dbData t)"
  using assms
  by (cases rule: call_cases) (auto simp: billing_step_def subStep_def core_def charged_def)

text \<open>C20: No call removes a subscription row, gives it another id or touches another workspace's row, and
  the status only moves along the state machine: into Active, into the fallback, or from Active and
  Past_due into grace. In particular nothing leads into Trialing, Past_due, Paused, Canceled or
  Expired, and the fallback is left only by a payment.\<close>

theorem subscription_moves_along_edges:
  assumes "subscriptionTable (dbData s) w = Some st" "performCall c s = (r, t)"
  shows "\<exists>st'. subscriptionTable (dbData t) w = Some st' \<and> sub_id st' = sub_id st \<and>
    (workspaceOf c \<noteq> w \<longrightarrow> st' = st) \<and> edge (sub_status st) (sub_status st')"
  using call_subStep [OF assms(2)] assms(1)
  by (auto simp: subStep_def okStep_def edge_def)

theorem subscription_moves_along_edges_witness:
  "\<exists>st'. subscriptionTable (dbData (snd (performCall (Schedule_cancellation False sampleInput) sampleDb))) ''ws'' = Some st' \<and>
     edge Active (sub_status st')"
proof -
  have "subscriptionTable (dbData sampleDb) ''ws'' = Some sampleRow" "sub_status sampleRow = Active"
    by (simp_all add: sample_defs)
  with subscription_moves_along_edges [of sampleDb "''ws''" sampleRow, OF _ surjective_pairing] show ?thesis by metis
qed

definition eventsOf :: "string \<Rightarrow> billing_data \<Rightarrow> lifecycle_event list" where
  "eventsOf w d = filter (\<lambda>e. le_workspaceId e = w) (lifecycleLog d)"

definition rowsOk :: "billing_data \<Rightarrow> bool" where
  "rowsOk d \<longleftrightarrow> (\<forall>w st. subscriptionTable d w = Some st \<longrightarrow> subOk w st)"

text \<open>The last event of a workspace shows its row, and a row without events is the one of \<open>d0\<close>.\<close>

definition logExplains :: "billing_data \<Rightarrow> billing_data \<Rightarrow> bool" where
  "logExplains d0 d \<longleftrightarrow>
     (\<forall>w. if eventsOf w d = [] then map_option view (subscriptionTable d w) = map_option view (subscriptionTable d0 w)
          else (\<exists>st. subscriptionTable d w = Some st \<and> nextView (last (eventsOf w d)) = view st \<and>
                  le_subscriptionId (last (eventsOf w d)) = sub_id st))"

definition logEdges :: "billing_data \<Rightarrow> bool" where
  "logEdges d \<longleftrightarrow> (\<forall>e \<in> set (lifecycleLog d).
     case le_previousStatus e of None \<Rightarrow> le_nextStatus e = Active | Some a \<Rightarrow> edge a (le_nextStatus e))"

lemma subStep_rowsOk: "subStep w d d' \<Longrightarrow> rowsOk d \<Longrightarrow> rowsOk d'"
  by (auto simp: subStep_def rowsOk_def okStep_def split: option.splits if_splits)

lemma explains_edge:
  "explains w previous nxt e \<Longrightarrow> okStep w previous nxt \<Longrightarrow>
     (case le_previousStatus e of None \<Rightarrow> le_nextStatus e = Active | Some a \<Rightarrow> edge a (le_nextStatus e))"
  by (cases previous) (auto simp: explains_def okStep_def nextView_def view_def)

lemma subStep_logEdges: "subStep w d d' \<Longrightarrow> logEdges d \<Longrightarrow> logEdges d'"
  unfolding subStep_def logEdges_def by (auto dest: explains_edge)

lemma subStep_logExplains:
  assumes "subStep w d d'" "logExplains d0 d"
  shows "logExplains d0 d'"
proof (cases "subscriptionTable d' = subscriptionTable d \<and> lifecycleLog d' = lifecycleLog d")
  case True
  then have "eventsOf v d' = eventsOf v d" for v by (simp add: eventsOf_def)
  with True assms(2) show ?thesis by (simp add: logExplains_def)
next
  case False
  with assms(1) obtain nxt evs where n: "okStep w (subscriptionTable d w) nxt"
    "subscriptionTable d' = (subscriptionTable d)(w \<mapsto> nxt)" "lifecycleLog d' = lifecycleLog d @ evs"
    "\<forall>e \<in> set evs. explains w (subscriptionTable d w) nxt e"
    "evs = [] \<longrightarrow> map_option view (subscriptionTable d w) = Some (view nxt)"
    unfolding subStep_def by auto
  have others: "eventsOf v d' = eventsOf v d" if "v \<noteq> w" for v
    using that n(3,4) by (auto simp: eventsOf_def explains_def filter_empty_conv)
  have own: "eventsOf w d' = eventsOf w d @ evs"
    using n(3,4) by (auto simp: eventsOf_def explains_def intro: filter_True)
  show ?thesis
    unfolding logExplains_def
  proof (intro allI)
    fix v
    note old = assms(2) [unfolded logExplains_def, rule_format, of v]
    show "if eventsOf v d' = [] then map_option view (subscriptionTable d' v) = map_option view (subscriptionTable d0 v)
      else (\<exists>st. subscriptionTable d' v = Some st \<and> nextView (last (eventsOf v d')) = view st \<and>
        le_subscriptionId (last (eventsOf v d')) = sub_id st)"
    proof (cases "v = w \<and> evs \<noteq> []")
      case True
      then have "explains w (subscriptionTable d w) nxt (last evs)" using n(4) by simp
      with True own n(2) show ?thesis by (simp add: explains_def)
    next
      case False
      with old n(1,2,5) own others show ?thesis
        by (cases "v = w") (auto simp: okStep_def split: option.splits if_splits)
    qed
  qed
qed

lemma run_subscriptions:
  assumes "rowsOk (dbData s)" "logEdges (dbData s)" "logExplains d0 (dbData s)"
  shows "rowsOk (dbData (runCalls cs s)) \<and> logEdges (dbData (runCalls cs s)) \<and> logExplains d0 (dbData (runCalls cs s))"
  using assms
proof (induction cs arbitrary: s)
  case (Cons c cs)
  obtain r t where c: "performCall c s = (r, t)" by (cases "performCall c s")
  note step = call_subStep [OF c]
  from Cons.IH [OF subStep_rowsOk [OF step Cons.prems(1)] subStep_logEdges [OF step Cons.prems(2)]
      subStep_logExplains [OF step Cons.prems(3)]] show ?case by (simp add: c)
qed simp



end
