(* ===== verification/BillingEffects.thy ===== *)
theory BillingEffects
  imports BillingInvariants
begin

text \<open>
  What billing calls do when the database answers: a payment moves the subscription and grants the
  period's Vcoins, a payment for a period already granted is rolled back by its own ledger entry,
  and a reversed package leaves the wallet as it was.
\<close>

section \<open>Live transactions\<close>

lemma stmt_live: "\<not> aborted x \<Longrightarrow> f (working x) = (Inr a, d) \<Longrightarrow> stmt f x = (Inr a, x\<lparr>working := d\<rparr>)"
  by (simp add: stmt_def)

lemma ensureRow_live:
  assumes "\<not> aborted x"
  shows "\<exists>row wt. ensureRow False w now x = (Inr row, x\<lparr>working := (working x)\<lparr>walletTable := wt\<rparr>\<rparr>) \<and>
    wt w = Some row \<and> wa_balanceVc row = balanceOf (working x) w \<and>
    balanceOf ((working x)\<lparr>walletTable := wt\<rparr>) = balanceOf (working x)"
proof (cases "walletTable (working x) w")
  case None
  let ?row = "\<lparr>wa_workspaceId = w, wa_balanceVc = 0, wa_updatedAt = now\<rparr>"
  show ?thesis
    by (rule exI [of _ ?row], rule exI [of _ "(walletTable (working x))(w \<mapsto> ?row)"])
      (use assms None in \<open>auto simp: ensureRow_def bindS_def catchS_def stmt_def findWallet_def createWallet_def Let_def
        balanceOf_def fun_eq_iff\<close>)
next
  case (Some row)
  then show ?thesis
    by (intro exI [of _ row] exI [of _ "walletTable (working x)"])
      (use assms in \<open>auto simp: ensureRow_def bindS_def stmt_def findWallet_def balanceOf_def returnS_def fun_eq_iff\<close>)
qed

lemma move_live:
  assumes "\<not> aborted x" "z \<longleftrightarrow> n = 0"
  shows "\<exists>c wt. bindS (ensureRow False w now) (\<lambda>ensured. if z then returnS (u ensured)
      else bindS (stmt (addToBalance w n now)) (\<lambda>updated. returnS (v ensured updated))) x =
      (Inr c, x\<lparr>working := (working x)\<lparr>walletTable := wt\<rparr>\<rparr>) \<and>
    balanceOf ((working x)\<lparr>walletTable := wt\<rparr>) = (balanceOf (working x))(w := balanceOf (working x) w + n)"
proof -
  obtain row wt where e: "ensureRow False w now x = (Inr row, x\<lparr>working := (working x)\<lparr>walletTable := wt\<rparr>\<rparr>)"
    "wt w = Some row" "wa_balanceVc row = balanceOf (working x) w"
    "balanceOf ((working x)\<lparr>walletTable := wt\<rparr>) = balanceOf (working x)"
    using ensureRow_live [OF assms(1)] by blast
  show ?thesis
  proof (cases z)
    case True
    with assms(2) e(4) show ?thesis by (simp add: bindS_def e(1) returnS_def) (rule exI [of _ wt], simp)
  next
    case False
    let ?row = "row\<lparr>wa_balanceVc := wa_balanceVc row + n, wa_updatedAt := now\<rparr>"
    have "balanceOf ((working x)\<lparr>walletTable := wt(w \<mapsto> ?row)\<rparr>) = (balanceOf (working x))(w := balanceOf (working x) w + n)"
      using e(3,4) by (auto simp: balanceOf_def fun_eq_iff)
    with False e(2) assms(1) show ?thesis
      by (simp add: bindS_def e(1) stmt_def addToBalance_def Let_def returnS_def)
        (rule exI [of _ "wt(w \<mapsto> ?row)"], simp)
  qed
qed

lemma jsInt_amount: "isInteger (jsInt n)" "js_less (jsInt n) (Fin 0) \<longleftrightarrow> n < 0"
  by (simp_all add: isInteger_def)

lemma credit_runs:
  assumes "\<not> aborted x" "0 \<le> n" "k \<in> {Monthly_grant, Package_purchase, Manual_kind}"
  shows "\<exists>c wt. credit False w (jsInt n) k now x = (Inr c, x\<lparr>working := (working x)\<lparr>walletTable := wt\<rparr>\<rparr>) \<and>
    balanceOf ((working x)\<lparr>walletTable := wt\<rparr>) = (balanceOf (working x))(w := balanceOf (working x) w + n)"
  unfolding credit_def using assms(2,3) by (simp only: jsInt_amount js_int_jsInt) (simp add: move_live [OF assms(1)])

lemma debit_runs:
  assumes "\<not> aborted x" "0 \<le> n"
  shows "\<exists>c wt. debit False w (jsInt n) now x = (Inr c, x\<lparr>working := (working x)\<lparr>walletTable := wt\<rparr>\<rparr>) \<and>
    balanceOf ((working x)\<lparr>walletTable := wt\<rparr>) = (balanceOf (working x))(w := balanceOf (working x) w - n)"
  unfolding debit_def using assms(2) move_live [OF assms(1), of "n = 0" "- n" w now]
  by (simp only: jsInt_amount js_int_jsInt) simp

section \<open>The monthly grant\<close>

definition grantOf :: "billing_plan \<Rightarrow> int" where
  "grantOf p = parseVideoVcoinMonthlyGrant (jgetIn ''videoVcoinMonthlyGrant'' (asObject (pl_billingProviderHints p)))"

lemma grantOf_nonneg: "0 \<le> grantOf p"
  by (auto simp: grantOf_def parseVideoVcoinMonthlyGrant_def js_le_def js_int_nonneg split: json.splits)

definition grantEvent :: "string \<Rightarrow> string \<Rightarrow> int \<Rightarrow> int \<Rightarrow> vcoin_event" where
  "grantEvent w plan grant start = \<lparr>ve_workspaceId = w, ve_kind = Monthly_grant, ve_amountVc = grant,
     ve_referenceKey = toISOString start, ve_planCode = Some plan\<rparr>"

lemma recordEvent_runs:
  "\<not> aborted x \<Longrightarrow> eventKey e \<notin> eventKey ` set (vcoinLog (working x)) \<Longrightarrow>
     recordEvent e x = (Inr True, x\<lparr>working := (working x)\<lparr>vcoinLog := vcoinLog (working x) @ [e]\<rparr>\<rparr>)"
  "\<not> aborted x \<Longrightarrow> eventKey e \<in> eventKey ` set (vcoinLog (working x)) \<Longrightarrow>
     recordEvent e x = (Inr False, x\<lparr>aborted := True\<rparr>)"
  by (auto simp: recordEvent_def catchS_def bindS_def stmt_def insertVcoinEvent_def returnS_def)

lemma getOrCreate_runs:
  "\<exists>row y. getOrCreate w now x = (Inr row, y) \<and> aborted y = aborted x \<and> core (committed y) = core (committed x) \<and>
     (\<exists>wt. committed y = (committed x)\<lparr>walletTable := wt\<rparr>) \<and> (\<exists>wt. working y = (working x)\<lparr>walletTable := wt\<rparr>) \<and> core (working y) = core (working x)"
proof -
  have reads: "outside (findWallet w) z = (Inr (walletTable (committed z) w), z)" for z :: billing_txn
    by (simp add: outside_def transactionS_def findWallet_def)
  show ?thesis
  proof (cases "walletTable (committed x) w")
    case None
    obtain a c where c: "createWallet False w now (committed x) = (Inr a, c)"
      using None by (simp add: createWallet_def Let_def)
    let ?d = "snd (transactionS (createWallet False w now) (working x))"
    have d: "\<exists>wt. ?d = (working x)\<lparr>walletTable := wt\<rparr>"
      by (auto simp: transactionS_def createWallet_def Let_def intro: exI [of _ "walletTable (working x)"])
    have "outside (createWallet False w now) x = (Inr a, x\<lparr>committed := c, working := ?d\<rparr>)"
      using c by (simp add: outside_def transactionS_def)
    then have "getOrCreate w now x = (Inr a, x\<lparr>committed := c, working := ?d\<rparr>)"
      by (simp add: getOrCreate_def catchS_def bindS_def reads None)
    moreover have "\<exists>wt. c = (committed x)\<lparr>walletTable := wt\<rparr>"
      using c by (auto simp: createWallet_def Let_def split: if_splits)
    ultimately show ?thesis using d createWallet_core [OF c] createWallet_core_snd [of False w now "working x"] by simp
  next
    case (Some row)
    then have "getOrCreate w now x = (Inr row, x)" by (simp add: getOrCreate_def bindS_def reads returnS_def)
    then show ?thesis
      by (intro exI [of _ row] exI [of _ x])
        (auto intro: exI [of _ "walletTable (working x)"] exI [of _ "walletTable (committed x)"])
  qed
qed

lemma creditPeriod_granted:
  assumes "\<not> aborted x" "planTable (working x) plan = Some p"
    "eventKey (grantEvent w plan (grantOf p) start) \<notin> eventKey ` set (vcoinLog (working x))"
  shows "\<exists>r y wt. creditPeriod False w plan start now x = (Inr r, y) \<and> \<not> aborted y \<and>
    gr_creditedVc r = grantOf p \<and> \<not> gr_alreadyGranted r \<and>
    working y = (working x)\<lparr>vcoinLog := vcoinLog (working x) @
      (if grantOf p = 0 then [] else [grantEvent w plan (grantOf p) start]), walletTable := wt\<rparr> \<and>
    balanceOf (working y) = (balanceOf (working x))(w := balanceOf (working x) w + grantOf p)"
proof (cases "grantOf p = 0")
  case True
  obtain row y wt where g: "getOrCreate w now x = (Inr row, y)" "aborted y = aborted x"
    "working y = (working x)\<lparr>walletTable := wt\<rparr>" "core (working y) = core (working x)"
    using getOrCreate_runs by blast
  with True assms(1,2) show ?thesis
    by (simp add: creditPeriod_def bindS_def stmt_def findPlan_def grantOf_def [symmetric] returnS_def core_def)
      (rule exI [of _ wt], simp)
next
  case False
  let ?e = "grantEvent w plan (grantOf p) start"
  let ?x = "x\<lparr>working := (working x)\<lparr>vcoinLog := vcoinLog (working x) @ [?e]\<rparr>\<rparr>"
  note rec = recordEvent_runs(1) [OF assms(1,3)]
  obtain c wt where c: "credit False w (jsInt (grantOf p)) Monthly_grant now ?x =
      (Inr c, ?x\<lparr>working := (working ?x)\<lparr>walletTable := wt\<rparr>\<rparr>)"
    "balanceOf ((working ?x)\<lparr>walletTable := wt\<rparr>) = (balanceOf (working ?x))(w := balanceOf (working ?x) w + grantOf p)"
    using credit_runs [of ?x "grantOf p" Monthly_grant w now] grantOf_nonneg assms(1) by auto
  have b: "balanceOf (working ?x) = balanceOf (working x)" by (simp add: balanceOf_def fun_eq_iff)
  have "creditPeriod False w plan start now x =
     bindS (recordEvent ?e) (\<lambda>recorded. if \<not> recorded
       then bindS (getOrCreate w now) (\<lambda>walletRow.
         returnS \<lparr>gr_creditedVc = 0, gr_alreadyGranted = True, gr_balanceVc = wa_balanceVc walletRow\<rparr>)
       else bindS (credit False w (jsInt (grantOf p)) Monthly_grant now) (\<lambda>creditResult.
         returnS \<lparr>gr_creditedVc = grantOf p, gr_alreadyGranted = False, gr_balanceVc = bc_balanceVc creditResult\<rparr>)) x"
    using False assms(1,2)
    by (simp add: creditPeriod_def bindS_def stmt_def findPlan_def grantOf_def [symmetric] grantEvent_def Let_def)
  then have "creditPeriod False w plan start now x =
     (Inr \<lparr>gr_creditedVc = grantOf p, gr_alreadyGranted = False, gr_balanceVc = bc_balanceVc c\<rparr>,
      ?x\<lparr>working := (working ?x)\<lparr>walletTable := wt\<rparr>\<rparr>)"
    by (simp add: bindS_def rec c(1) returnS_def)
  with False c(2) b assms(1) show ?thesis by simp (rule exI [of _ wt], simp)
qed

lemma creditPeriod_repeated:
  assumes "\<not> aborted x" "planTable (working x) plan = Some p" "grantOf p \<noteq> 0"
    "eventKey (grantEvent w plan (grantOf p) start) \<in> eventKey ` set (vcoinLog (working x))"
  shows "\<exists>r y. creditPeriod raced w plan start now x = (Inr r, y) \<and> aborted y \<and> gr_alreadyGranted r \<and>
    core (committed y) = core (committed x) \<and> rolloutLog (committed y) = rolloutLog (committed x)"
proof -
  obtain row y where g: "getOrCreate w now (x\<lparr>aborted := True\<rparr>) = (Inr row, y)" "aborted y"
    "core (committed y) = core (committed x)" "rolloutLog (committed y) = rolloutLog (committed x)"
    using getOrCreate_runs [of w now "x\<lparr>aborted := True\<rparr>"] by auto
  note rec = recordEvent_runs(2) [OF assms(1,4)]
  have "creditPeriod raced w plan start now x =
     (Inr \<lparr>gr_creditedVc = 0, gr_alreadyGranted = True, gr_balanceVc = wa_balanceVc row\<rparr>, y)"
    using assms(1-3) rec g(1)
    by (simp add: creditPeriod_def bindS_def stmt_def findPlan_def grantOf_def [symmetric] grantEvent_def Let_def returnS_def)
  with g(2-4) show ?thesis by simp
qed

text \<open>The row a payment leaves.\<close>

definition paidRow :: "payment_input \<Rightarrow> int \<times> int \<Rightarrow> subscription \<Rightarrow> bool" where
  "paidRow p period st \<longleftrightarrow> sub_status st = Active \<and> sub_planCode st = py_paidPlanCode p \<and>
     sub_currentPeriodStartedAt st = Some (fst period) \<and> sub_currentPeriodEndsAt st = Some (snd period) \<and>
     \<not> sub_cancelAtPeriodEnd st \<and> sub_trialEndsAt st = None \<and> sub_graceEndsAt st = None"

lemma writePaidRow_runs:
  "\<exists>nxt. paidRow p period nxt \<and> writePaidRow parseDate w p period reason now (subscriptionTable d w) (beginTxn d) =
     (Inr nxt, (beginTxn d)\<lparr>working := d\<lparr>subscriptionTable := (subscriptionTable d)(w \<mapsto> nxt)\<rparr>\<rparr>)"
proof -
  obtain a b where period: "period = (a, b)" by (cases period)
  show ?thesis
    by (cases "subscriptionTable d w")
      (simp_all add: period writePaidRow_def Let_def stmt_def beginTxn_def createSubscription_def updateSubscription_def paidRow_def)
qed

lemma activePaid_row:
  fixes d :: billing_data
  obtains nxt eid where "paidRow p period nxt"
    "activePaidTx parseDate raced i p period ec reason now (beginTxn d) =
      bindS (creditPeriod raced (li_workspaceId i) (py_paidPlanCode p) (fst period) now) (\<lambda>_. returnS [eid])
        \<lparr>committed = d, working = d\<lparr>subscriptionTable := (subscriptionTable d)(li_workspaceId i \<mapsto> nxt),
           lifecycleLog := lifecycleLog d @ [lifecycleEvent i ec (subscriptionTable d (li_workspaceId i)) nxt eid]\<rparr>,
         aborted = False\<rparr>"
proof -
  from writePaidRow_runs obtain nxt where n: "paidRow p period nxt"
    "writePaidRow parseDate (li_workspaceId i) p period reason now (subscriptionTable d (li_workspaceId i)) (beginTxn d) =
     (Inr nxt, (beginTxn d)\<lparr>working := d\<lparr>subscriptionTable := (subscriptionTable d)(li_workspaceId i \<mapsto> nxt)\<rparr>\<rparr>)"
    by blast
  have "stmt (findSubscription (li_workspaceId i)) (beginTxn d) =
      (Inr (subscriptionTable d (li_workspaceId i)), beginTxn d)"
    by (simp add: stmt_def beginTxn_def findSubscription_def)
  with n show thesis
    by (intro that [OF n(1), of "eventIdOf d (length (lifecycleLog d))"])
      (simp add: activePaidTx_def bindS_def appendLifecycleEvent_def insertLifecycleEvent_def Let_def stmt_def beginTxn_def)
qed

section \<open>After the transaction\<close>

lemma emit_runs:
  "reliable s \<Longrightarrow> \<exists>t. emitForLifecycleEventIds ids s = (Inr (), t) \<and> core (dbData t) = core (dbData s) \<and>
     rolloutLog (dbData t) = rolloutLog (dbData s) \<and> configDirtyAt (dbData t) = configDirtyAt (dbData s)"
proof (induction ids arbitrary: s)
  case (Cons a ids)
  obtain t where t: "tx (\<lambda>_ d. (Inr (), if a \<in> le_id ` set (lifecycleLog d) then d\<lparr>emittedIds := emittedIds d @ [a]\<rparr> else d)) s
      = (Inr (), t)" "reliable t" "core (dbData t) = core (dbData s)" "rolloutLog (dbData t) = rolloutLog (dbData s)"
      "configDirtyAt (dbData t) = configDirtyAt (dbData s)"
    using Cons.prems by (auto simp: tx_reliable transactionS_def reliable_def)
  from Cons.IH [OF t(2)] t(3-5) show ?case by (auto simp: bindS_def t(1))
qed simp

lemma afterLifecycle_runs:
  assumes "reliable s"
  shows "\<exists>t. afterLifecycle i reason scope ids s = (Inr (), t) \<and> core (dbData t) = core (dbData s) \<and>
     length (rolloutLog (dbData t)) = Suc (length (rolloutLog (dbData s))) \<and>
     configDirtyAt (dbData t) (li_workspaceId i) = Some (dbNow s)"
proof -
  obtain t where t: "bindS (markWorkspaceAssistantsConfigDirty (li_workspaceId i))
      (\<lambda>_. queueBillingLifecycleRollout (li_workspaceId i) (li_userId i) reason scope) s = (Inr (), t)"
    "reliable t" "core (dbData t) = core (dbData s)"
    "length (rolloutLog (dbData t)) = Suc (length (rolloutLog (dbData s)))"
    "configDirtyAt (dbData t) (li_workspaceId i) = Some (dbNow s)"
    using assms by (simp add: markWorkspaceAssistantsConfigDirty_def queueBillingLifecycleRollout_def bindS_def
        tx_reliable transactionS_def reliable_def)
  from emit_runs [OF t(2), of ids] obtain u where u: "emitForLifecycleEventIds ids t = (Inr (), u)"
    "core (dbData u) = core (dbData t)" "rolloutLog (dbData u) = rolloutLog (dbData t)"
    "configDirtyAt (dbData u) = configDirtyAt (dbData t)" by blast
  have "afterLifecycle i reason scope ids s = emitForLifecycleEventIds ids t"
    using t(1) by (simp add: afterLifecycle_def bindS_def split: prod.splits sum.splits)
  with t(3-5) u show ?thesis by simp
qed

lemma pgTx_reliable:
  assumes "reliable s" "f (dbNow s) (beginTxn (dbData s)) = (r, x)" "endTxn reports (r, x) = (r', d)"
  shows "pgTx reports f s = (r', s\<lparr>dbCount := Suc (dbCount s), dbData := d\<rparr>)"
  using assms by (simp add: pgTx_def reliable_def Let_def)

text \<open>The checks before the transaction.\<close>

definition payable :: "payment_input \<Rightarrow> int \<times> int \<Rightarrow> billing_plan \<Rightarrow> billing_data \<Rightarrow> bool" where
  "payable p period plan d \<longleftrightarrow> planTable d (py_paidPlanCode p) = Some plan \<and> pl_status plan = ''active'' \<and>
     py_currentPeriodStartedAt p = Some (fst period) \<and> py_currentPeriodEndsAt p = Some (snd period) \<and>
     fst period < snd period"

lemma applyActivePaid_checks:
  assumes "reliable s" "payable p period plan (dbData s)"
  shows "applyActivePaidTransition parseDate reports raced i p ec reason s =
     bindS (pgTx reports (activePaidTx parseDate raced i p period ec reason))
       (afterLifecycle i ec
          [(''reason'', JStr reason), (''paidPlanCode'', JStr (py_paidPlanCode p)),
           (''billingProvider'', case py_billingProvider p of Some b \<Rightarrow> JStr b | None \<Rightarrow> JNull),
           (''providerSubscriptionRef'', case py_providerSubscriptionRef p of Some b \<Rightarrow> JStr b | None \<Rightarrow> JNull)])
       (s\<lparr>dbCount := Suc (dbCount s)\<rparr>)"
  using assms by (simp add: applyActivePaidTransition_def bindS_def tx_reliable transactionS_def findPlan_def planIsActive_def
      parseActivePaidPeriod_def payable_def)

lemma applyActivePaid_after:
  assumes "reliable s" "payable p period plan (dbData s)"
    "pgTx reports (activePaidTx parseDate raced i p period ec reason) (s\<lparr>dbCount := Suc (dbCount s)\<rparr>) =
      (Inr ids, s\<lparr>dbCount := n, dbData := d\<rparr>)"
  obtains t where "applyActivePaidTransition parseDate reports raced i p ec reason s = (Inr (), t)"
    "core (dbData t) = core d" "length (rolloutLog (dbData t)) = Suc (length (rolloutLog d))"
    "configDirtyAt (dbData t) (li_workspaceId i) = Some (dbNow s)"
proof -
  obtain scope where c: "applyActivePaidTransition parseDate reports raced i p ec reason s =
     bindS (pgTx reports (activePaidTx parseDate raced i p period ec reason)) (afterLifecycle i ec scope)
       (s\<lparr>dbCount := Suc (dbCount s)\<rparr>)"
    by (rule that [OF applyActivePaid_checks [OF assms(1,2)]])
  have "reliable (s\<lparr>dbCount := n, dbData := d\<rparr>)" using assms(1) by (simp add: reliable_def)
  from afterLifecycle_runs [OF this, of i ec scope ids] obtain t where t:
    "afterLifecycle i ec scope ids (s\<lparr>dbCount := n, dbData := d\<rparr>) = (Inr (), t)"
    "core (dbData t) = core d" "length (rolloutLog (dbData t)) = Suc (length (rolloutLog d))"
    "configDirtyAt (dbData t) (li_workspaceId i) = Some (dbNow s)" by auto
  have "applyActivePaidTransition parseDate reports raced i p ec reason s = (Inr (), t)"
    unfolding c bindS_def assms(3) by (simp add: t(1))
  then show thesis using t(2-4) by (rule that)
qed

section \<open>A payment, and the same payment again\<close>

text \<open>On an answering database a payment for an active plan whose period was not granted yet returns
  normally and does all of this at once: the subscription row is created or moved to Active with
  plan and period, one lifecycle event explains the move, the ledger gets the period's entry, the
  wallet grows by the plan's monthly grant and no other wallet changes, the assistants are marked
  dirty and one rollout is queued.\<close>

theorem payment_grants_period:
  assumes "reliable s" "payable p period plan (dbData s)"
    "eventKey (grantEvent (li_workspaceId i) (py_paidPlanCode p) (grantOf plan) (fst period)) \<notin>
       eventKey ` set (vcoinLog (dbData s))"
  shows "\<exists>t st e. applyActivePaidTransition parseDate reports False i p ec reason s = (Inr (), t) \<and>
    subscriptionTable (dbData t) = (subscriptionTable (dbData s))(li_workspaceId i \<mapsto> st) \<and> paidRow p period st \<and>
    lifecycleLog (dbData t) = lifecycleLog (dbData s) @ [e] \<and> le_eventCode e = ec \<and>
    explains (li_workspaceId i) (subscriptionTable (dbData s) (li_workspaceId i)) st e \<and>
    vcoinLog (dbData t) = vcoinLog (dbData s) @ (if grantOf plan = 0 then []
      else [grantEvent (li_workspaceId i) (py_paidPlanCode p) (grantOf plan) (fst period)]) \<and>
    balanceOf (dbData t) = (balanceOf (dbData s))
      (li_workspaceId i := balanceOf (dbData s) (li_workspaceId i) + grantOf plan) \<and>
    length (rolloutLog (dbData t)) = Suc (length (rolloutLog (dbData s))) \<and>
    configDirtyAt (dbData t) (li_workspaceId i) = Some (dbNow s)"
proof -
  let ?w = "li_workspaceId i"
  obtain nxt eid where row: "paidRow p period nxt"
    "activePaidTx parseDate False i p period ec reason (dbNow s) (beginTxn (dbData s)) =
      bindS (creditPeriod False ?w (py_paidPlanCode p) (fst period) (dbNow s)) (\<lambda>_. returnS [eid])
        \<lparr>committed = dbData s, working = (dbData s)\<lparr>subscriptionTable := (subscriptionTable (dbData s))(?w \<mapsto> nxt),
           lifecycleLog := lifecycleLog (dbData s) @ [lifecycleEvent i ec (subscriptionTable (dbData s) ?w) nxt eid]\<rparr>,
         aborted = False\<rparr>"
    by (rule activePaid_row)
  let ?x = "\<lparr>committed = dbData s, working = (dbData s)\<lparr>subscriptionTable := (subscriptionTable (dbData s))(?w \<mapsto> nxt),
     lifecycleLog := lifecycleLog (dbData s) @ [lifecycleEvent i ec (subscriptionTable (dbData s) ?w) nxt eid]\<rparr>,
     aborted = False\<rparr>"
  obtain r y wt where credit: "creditPeriod False ?w (py_paidPlanCode p) (fst period) (dbNow s) ?x = (Inr r, y)" "\<not> aborted y"
    "working y = (working ?x)\<lparr>vcoinLog := vcoinLog (working ?x) @ (if grantOf plan = 0 then []
       else [grantEvent ?w (py_paidPlanCode p) (grantOf plan) (fst period)]), walletTable := wt\<rparr>"
    "balanceOf (working y) = (balanceOf (working ?x))(?w := balanceOf (working ?x) ?w + grantOf plan)"
    using creditPeriod_granted [of ?x "py_paidPlanCode p" plan ?w "fst period" "dbNow s"] assms(2,3)
    by (auto simp: payable_def)
  have b: "balanceOf (working ?x) = balanceOf (dbData s)" by (simp add: balanceOf_def fun_eq_iff)
  let ?s = "s\<lparr>dbCount := Suc (dbCount s)\<rparr>"
  let ?s1 = "?s\<lparr>dbCount := Suc (dbCount ?s), dbData := working y\<rparr>"
  have tx: "pgTx reports (activePaidTx parseDate False i p period ec reason) ?s = (Inr [eid], ?s1)"
  proof (rule pgTx_reliable)
    show "activePaidTx parseDate False i p period ec reason (dbNow ?s) (beginTxn (dbData ?s)) = (Inr [eid], y)"
      using row(2) credit(1) by (simp add: bindS_def returnS_def)
  qed (use assms(1) credit(2) in \<open>simp_all add: reliable_def endTxn_def\<close>)
  from tx have "pgTx reports (activePaidTx parseDate False i p period ec reason) ?s =
     (Inr [eid], s\<lparr>dbCount := Suc (Suc (dbCount s)), dbData := working y\<rparr>)" by simp
  then obtain t where t: "applyActivePaidTransition parseDate reports False i p ec reason s = (Inr (), t)"
    "core (dbData t) = core (working y)" "length (rolloutLog (dbData t)) = Suc (length (rolloutLog (working y)))"
    "configDirtyAt (dbData t) ?w = Some (dbNow s)"
    by (rule applyActivePaid_after [OF assms(1,2)])
  with row(1) credit(3,4) b show ?thesis
    by (intro exI [of _ t] exI [of _ nxt] exI [of _ "lifecycleEvent i ec (subscriptionTable (dbData s) ?w) nxt eid"])
      (simp add: core_def lifecycleEvent_explains, simp add: lifecycleEvent_def)
qed

lemma samplePlan_grant: "grantOf samplePlan = 100"
  by (simp add: grantOf_def samplePlan_def jgetIn_def jget_def parseVideoVcoinMonthlyGrant_def isInteger_def js_le_def js_int_def)

lemma sample_payable: "reliable sampleDb" "payable samplePayment (2592000000, 5184000000) samplePlan sampleData"
  by (simp_all add: reliable_def payable_def sample_defs)

theorem payment_grants_period_witness:
  "\<exists>t. applyActivePaidTransition (\<lambda>_. None) False False sampleInput samplePayment ''renewal_succeeded'' ''renewal_succeeded''
     sampleDb = (Inr (), t) \<and> balanceOf (dbData t) ''ws'' = 100"
proof -
  have "dbData sampleDb = sampleData" "li_workspaceId sampleInput = ''ws''" "vcoinLog sampleData = []"
    "balanceOf sampleData ''ws'' = 0"
    by (simp_all add: sample_defs balanceOf_def)
  then show ?thesis
    using payment_grants_period [OF sample_payable(1), of samplePayment "(2592000000, 5184000000)" samplePlan sampleInput
        "\<lambda>_. None" False "''renewal_succeeded''" "''renewal_succeeded''"] sample_payable(2)
    by (auto simp: samplePlan_grant)
qed

text \<open>C39: A second payment for a period that was already granted does nothing, and may say it worked. Its
  ledger entry violates the unique key, the repository catches that and answers that the period
  was granted, but Postgres has aborted the transaction, so the commit rolls back the new
  subscription row and the lifecycle event as well. If the client does not report the rollback,
  the call returns normally, marks the assistants dirty and queues a rollout of a change that
  never happened.\<close>

theorem repeated_payment_is_rolled_back:
  assumes "reliable s" "payable p period plan (dbData s)" "grantOf plan \<noteq> 0"
    "eventKey (grantEvent (li_workspaceId i) (py_paidPlanCode p) (grantOf plan) (fst period)) \<in>
       eventKey ` set (vcoinLog (dbData s))"
  shows "\<exists>t. applyActivePaidTransition parseDate reports raced i p ec reason s =
      (if reports then Inl commitRolledBack else Inr (), t) \<and> core (dbData t) = core (dbData s) \<and>
    (\<not> reports \<longrightarrow> length (rolloutLog (dbData t)) = Suc (length (rolloutLog (dbData s))) \<and>
       configDirtyAt (dbData t) (li_workspaceId i) = Some (dbNow s))"
proof -
  let ?w = "li_workspaceId i"
  obtain nxt eid where row: "activePaidTx parseDate raced i p period ec reason (dbNow s) (beginTxn (dbData s)) =
      bindS (creditPeriod raced ?w (py_paidPlanCode p) (fst period) (dbNow s)) (\<lambda>_. returnS [eid])
        \<lparr>committed = dbData s, working = (dbData s)\<lparr>subscriptionTable := (subscriptionTable (dbData s))(?w \<mapsto> nxt),
           lifecycleLog := lifecycleLog (dbData s) @ [lifecycleEvent i ec (subscriptionTable (dbData s) ?w) nxt eid]\<rparr>,
         aborted = False\<rparr>"
    by (rule activePaid_row)
  let ?x = "\<lparr>committed = dbData s, working = (dbData s)\<lparr>subscriptionTable := (subscriptionTable (dbData s))(?w \<mapsto> nxt),
     lifecycleLog := lifecycleLog (dbData s) @ [lifecycleEvent i ec (subscriptionTable (dbData s) ?w) nxt eid]\<rparr>,
     aborted = False\<rparr>"
  obtain r y where credit: "creditPeriod raced ?w (py_paidPlanCode p) (fst period) (dbNow s) ?x = (Inr r, y)" "aborted y"
    "core (committed y) = core (dbData s)" "rolloutLog (committed y) = rolloutLog (dbData s)"
    using creditPeriod_repeated [of ?x "py_paidPlanCode p" plan ?w "fst period" raced "dbNow s"] assms(2-4)
    by (auto simp: payable_def)
  let ?s = "s\<lparr>dbCount := Suc (dbCount s)\<rparr>"
  have body: "activePaidTx parseDate raced i p period ec reason (dbNow ?s) (beginTxn (dbData ?s)) = (Inr [eid], y)"
    using row credit(1) by (simp add: bindS_def returnS_def)
  have s: "reliable ?s" using assms(1) by (simp add: reliable_def)
  have run: "pgTx reports (activePaidTx parseDate raced i p period ec reason) ?s =
     (if reports then Inl commitRolledBack else Inr [eid],
      s\<lparr>dbCount := Suc (Suc (dbCount s)), dbData := committed y\<rparr>)"
    using pgTx_reliable [where f = "activePaidTx parseDate raced i p period ec reason", OF s body, of reports]
      credit(2) by (simp add: endTxn_def)
  show ?thesis
  proof (cases reports)
    case True
    with run credit(3) show ?thesis
      by (simp add: applyActivePaid_checks [OF assms(1,2)] bindS_def)
  next
    case False
    with run have "pgTx reports (activePaidTx parseDate raced i p period ec reason) ?s =
      (Inr [eid], s\<lparr>dbCount := Suc (Suc (dbCount s)), dbData := committed y\<rparr>)" by simp
    then obtain t where "applyActivePaidTransition parseDate reports raced i p ec reason s = (Inr (), t)"
      "core (dbData t) = core (committed y)" "length (rolloutLog (dbData t)) = Suc (length (rolloutLog (committed y)))"
      "configDirtyAt (dbData t) ?w = Some (dbNow s)"
      by (rule applyActivePaid_after [OF assms(1,2)])
    with False credit(3,4) show ?thesis by simp
  qed
qed

definition grantedDb :: "billing_data database" where
  "grantedDb = sampleDb\<lparr>dbData := sampleData\<lparr>vcoinLog := [grantEvent ''ws'' ''pro'' 100 2592000000]\<rparr>\<rparr>"

theorem repeated_payment_is_rolled_back_witness:
  "\<exists>t. applyActivePaidTransition (\<lambda>_. None) False False sampleInput samplePayment ''renewal_succeeded'' ''renewal_succeeded''
     grantedDb = (Inr (), t) \<and> core (dbData t) = core (dbData grantedDb) \<and>
     length (rolloutLog (dbData t)) = Suc (length (rolloutLog (dbData grantedDb)))"
proof -
  have "reliable grantedDb" "payable samplePayment (2592000000, 5184000000) samplePlan (dbData grantedDb)"
    using sample_payable by (simp_all add: grantedDb_def reliable_def payable_def)
  from repeated_payment_is_rolled_back [OF this, of sampleInput "\<lambda>_. None" False False "''renewal_succeeded''" "''renewal_succeeded''"]
  show ?thesis by (simp add: samplePlan_grant) (auto simp: grantedDb_def sampleInput_def samplePayment_def)
qed

section \<open>A package bought and returned\<close>

definition purchaseEvent :: "string \<Rightarrow> string \<Rightarrow> int \<Rightarrow> vcoin_event" where
  "purchaseEvent w pid n = \<lparr>ve_workspaceId = w, ve_kind = Package_purchase, ve_amountVc = n,
     ve_referenceKey = pid, ve_planCode = None\<rparr>"

definition refundEvent :: "string \<Rightarrow> string \<Rightarrow> int \<Rightarrow> vcoin_event" where
  "refundEvent w pid n = \<lparr>ve_workspaceId = w, ve_kind = Package_refund, ve_amountVc = - n,
     ve_referenceKey = pid, ve_planCode = None\<rparr>"

lemma upsertGrants_runs:
  "\<not> aborted x \<Longrightarrow> \<exists>pg. upsertGrants i w cur period items x =
     (Inr (), x\<lparr>working := (working x)\<lparr>packageGrants := pg\<rparr>\<rparr>) \<and>
     (\<forall>item \<in> set items. pg (i, pk_catalogItemId item) \<noteq> None) \<and> dom (packageGrants (working x)) \<subseteq> dom pg"
proof (induction items arbitrary: x)
  case Nil
  show ?case by (rule exI [of _ "packageGrants (working x)"]) (simp add: returnS_def)
next
  case (Cons item items)
  obtain pg where pg: "upsertGrant i w cur period item (working x) = (Inr (), (working x)\<lparr>packageGrants := pg\<rparr>)"
    "pg (i, pk_catalogItemId item) \<noteq> None" "dom (packageGrants (working x)) \<subseteq> dom pg"
    by (rule that [of "packageGrants (snd (upsertGrant i w cur period item (working x)))"])
      (auto simp: upsertGrant_def Let_def split: option.splits)
  let ?x = "x\<lparr>working := (working x)\<lparr>packageGrants := pg\<rparr>\<rparr>"
  from Cons.IH [of ?x] Cons.prems obtain pg' where pg': "upsertGrants i w cur period items ?x =
      (Inr (), ?x\<lparr>working := (working ?x)\<lparr>packageGrants := pg'\<rparr>\<rparr>)"
    "\<forall>item \<in> set items. pg' (i, pk_catalogItemId item) \<noteq> None" "dom pg \<subseteq> dom pg'" by auto
  have "upsertGrants i w cur period (item # items) x = (Inr (), x\<lparr>working := (working x)\<lparr>packageGrants := pg'\<rparr>\<rparr>)"
    using pg(1) pg'(1) Cons.prems by (simp add: bindS_def stmt_def)
  moreover have "dom (packageGrants (working x)) \<subseteq> dom pg'" using pg(3) pg'(3) by (rule subset_trans)
  moreover have "pg' (i, pk_catalogItemId item) \<noteq> None" using pg(2) pg'(3) by (meson domIff subsetD)
  ultimately show ?case using pg'(2) by (intro exI [of _ pg']) (simp only: list.set ball_simps, simp)
qed

lemma fulfillTx_runs:
  assumes "\<not> aborted x" "unitsTotal (filter isVideoItem items) = n" "0 < n"
    "eventKey (purchaseEvent w pid n) \<notin> eventKey ` set (vcoinLog (working x))"
  shows "\<exists>wt pg. fulfillTx False pid w cur period items now x = (Inr (), x\<lparr>working := (working x)
      \<lparr>vcoinLog := vcoinLog (working x) @ [purchaseEvent w pid n], walletTable := wt, packageGrants := pg\<rparr>\<rparr>) \<and>
    balanceOf ((working x)\<lparr>walletTable := wt\<rparr>) = (balanceOf (working x))(w := balanceOf (working x) w + n) \<and>
    (\<forall>item \<in> set items. \<not> isVideoItem item \<longrightarrow> pg (pid, pk_catalogItemId item) \<noteq> None)"
proof -
  let ?x = "x\<lparr>working := (working x)\<lparr>vcoinLog := vcoinLog (working x) @ [purchaseEvent w pid n]\<rparr>\<rparr>"
  have b: "balanceOf (working ?x) = balanceOf (working x)" "balanceOf ((working ?x)\<lparr>walletTable := wt\<rparr>) =
     balanceOf ((working x)\<lparr>walletTable := wt\<rparr>)" for wt by (simp_all add: balanceOf_def fun_eq_iff)
  obtain c wt where c: "credit False w (jsInt n) Package_purchase now ?x =
      (Inr c, ?x\<lparr>working := (working ?x)\<lparr>walletTable := wt\<rparr>\<rparr>)"
    "balanceOf ((working x)\<lparr>walletTable := wt\<rparr>) = (balanceOf (working x))(w := balanceOf (working x) w + n)"
    using credit_runs [of ?x n Package_purchase w now] assms(1,3) unfolding b by auto
  let ?y = "?x\<lparr>working := (working ?x)\<lparr>walletTable := wt\<rparr>\<rparr>"
  obtain pg where pg: "upsertGrants pid w cur period (filter (\<lambda>item. \<not> isVideoItem item) items) ?y =
      (Inr (), ?y\<lparr>working := (working ?y)\<lparr>packageGrants := pg\<rparr>\<rparr>)"
    "\<forall>item \<in> set items. \<not> isVideoItem item \<longrightarrow> pg (pid, pk_catalogItemId item) \<noteq> None"
    using upsertGrants_runs [of ?y pid w cur period "filter (\<lambda>item. \<not> isVideoItem item) items"] assms(1) by auto
  have "fulfillTx False pid w cur period items now x = (Inr (), ?y\<lparr>working := (working ?y)\<lparr>packageGrants := pg\<rparr>\<rparr>)"
    using assms(2,3) recordEvent_runs(1) [OF assms(1,4)] c(1) pg(1)
    by (simp add: fulfillTx_def Let_def bindS_def purchaseEvent_def [symmetric] returnS_def)
  with c(2) pg(2) show ?thesis by (intro exI [of _ wt] exI [of _ pg]) simp
qed

lemma reverseTx_runs:
  assumes "\<not> aborted x" "0 < n" "eventKey (refundEvent w pid n) \<notin> eventKey ` set (vcoinLog (working x))"
  shows "\<exists>wt. reverseTx False pid w n now x = (Inr (), x\<lparr>working := (working x)
      \<lparr>vcoinLog := vcoinLog (working x) @ [refundEvent w pid n], walletTable := wt\<rparr>\<rparr>) \<and>
    balanceOf ((working x)\<lparr>walletTable := wt\<rparr>) = (balanceOf (working x))(w := balanceOf (working x) w - n)"
proof -
  let ?x = "x\<lparr>working := (working x)\<lparr>vcoinLog := vcoinLog (working x) @ [refundEvent w pid n]\<rparr>\<rparr>"
  have b: "balanceOf (working ?x) = balanceOf (working x)" "balanceOf ((working ?x)\<lparr>walletTable := wt\<rparr>) =
     balanceOf ((working x)\<lparr>walletTable := wt\<rparr>)" for wt by (simp_all add: balanceOf_def fun_eq_iff)
  obtain c wt where c: "debit False w (jsInt n) now ?x = (Inr c, ?x\<lparr>working := (working ?x)\<lparr>walletTable := wt\<rparr>\<rparr>)"
    "balanceOf ((working x)\<lparr>walletTable := wt\<rparr>) = (balanceOf (working x))(w := balanceOf (working x) w - n)"
    using debit_runs [of ?x n w now] assms(1,2) unfolding b by auto
  have "reverseTx False pid w n now x = (Inr (), ?x\<lparr>working := (working ?x)\<lparr>walletTable := wt\<rparr>\<rparr>)"
    using recordEvent_runs(1) [OF assms(1,3)] c(1)
    by (simp add: reverseTx_def bindS_def refundEvent_def [symmetric] returnS_def)
  with c(2) show ?thesis by (intro exI [of _ wt]) simp
qed

definition videoPackage :: "string \<Rightarrow> int \<Rightarrow> package_item list \<Rightarrow> billing_data \<Rightarrow> bool" where
  "videoPackage pid n items d \<longleftrightarrow> unitsTotal (filter isVideoItem items) = n \<and> 0 < n \<and>
     (\<exists>intent. intentTable d pid = Some intent \<and> pi_targetPlanCode intent = PACKAGE_INTENT_PLAN_SENTINEL \<and>
        pi_packageItems intent = Some items)"

text \<open>C33: On an answering database a package that is bought and then returned leaves the wallet as it was:
  the purchase adds the video units to it and records them in the ledger, the return takes them
  off again and records the negative amount, no other wallet and no subscription changes. The
  grants for the other items of the package exist after the purchase and survive the return.\<close>

theorem package_return_restores_wallet:
  assumes "reliable s" "videoPackage pid n items (dbData s)"
    "eventKey (purchaseEvent w pid n) \<notin> eventKey ` set (vcoinLog (dbData s))"
    "eventKey (refundEvent w pid n) \<notin> eventKey ` set (vcoinLog (dbData s))"
  shows "\<exists>t u. fulfillPackagePaymentIntent reports False (Inr period) pid w s = (Inr (), t) \<and>
    balanceOf (dbData t) = (balanceOf (dbData s))(w := balanceOf (dbData s) w + n) \<and>
    reversePackagePaymentIntent reports False pid w t = (Inr (), u) \<and>
    balanceOf (dbData u) = balanceOf (dbData s) \<and> subscriptionTable (dbData u) = subscriptionTable (dbData s) \<and>
    vcoinLog (dbData u) = vcoinLog (dbData s) @ [purchaseEvent w pid n, refundEvent w pid n] \<and>
    packageGrants (dbData u) = packageGrants (dbData t) \<and>
    (\<forall>item \<in> set items. \<not> isVideoItem item \<longrightarrow> packageGrants (dbData t) (pid, pk_catalogItemId item) \<noteq> None)"
proof -
  obtain intent where intent: "intentTable (dbData s) pid = Some intent"
    "pi_targetPlanCode intent = PACKAGE_INTENT_PLAN_SENTINEL" "pi_packageItems intent = Some items"
    and n: "unitsTotal (filter isVideoItem items) = n" "0 < n"
    using assms(2) by (auto simp: videoPackage_def)
  then have items: "items \<noteq> []" by (auto simp: unitsTotal_def)
  let ?p = "if filter (\<lambda>item. \<not> isVideoItem item) items = [] then (0, 0) else period"
  have live: "\<not> aborted (beginTxn d)" "working (beginTxn d) = d" for d :: billing_data by (simp_all add: beginTxn_def)
  obtain wt pg where f: "fulfillTx False pid w (pi_currency intent) ?p items (dbNow s) (beginTxn (dbData s)) =
      (Inr (), (beginTxn (dbData s))\<lparr>working := (dbData s)\<lparr>vcoinLog := vcoinLog (dbData s) @ [purchaseEvent w pid n],
         walletTable := wt, packageGrants := pg\<rparr>\<rparr>)"
    "balanceOf ((dbData s)\<lparr>walletTable := wt\<rparr>) = (balanceOf (dbData s))(w := balanceOf (dbData s) w + n)"
    "\<forall>item \<in> set items. \<not> isVideoItem item \<longrightarrow> pg (pid, pk_catalogItemId item) \<noteq> None"
    using fulfillTx_runs [OF live(1) n, of w pid "dbData s" "pi_currency intent" ?p "dbNow s"] assms(3)
    unfolding live(2) by blast
  let ?d = "(dbData s)\<lparr>vcoinLog := vcoinLog (dbData s) @ [purchaseEvent w pid n], walletTable := wt, packageGrants := pg\<rparr>"
  let ?t = "s\<lparr>dbCount := Suc (Suc (dbCount s)), dbData := ?d\<rparr>"
  have t: "fulfillPackagePaymentIntent reports False (Inr period) pid w s = (Inr (), ?t)"
    using assms(1) intent items f(1)
    by (cases "filter (\<lambda>item. \<not> isVideoItem item) items = []")
      (simp_all add: fulfillPackagePaymentIntent_def bindS_def tx_reliable transactionS_def findIntent_def pgTx_def
        reliable_def endTxn_def Let_def beginTxn_def)
  have bt: "balanceOf ?d = (balanceOf (dbData s))(w := balanceOf (dbData s) w + n)"
    using f(2) by (simp add: balanceOf_def fun_eq_iff)
  have "eventKey (refundEvent w pid n) \<notin> eventKey ` set (vcoinLog ?d)"
    using assms(4) by (simp add: eventKey_def refundEvent_def purchaseEvent_def)
  then obtain wt' where r: "reverseTx False pid w n (dbNow s) (beginTxn ?d) =
      (Inr (), (beginTxn ?d)\<lparr>working := ?d\<lparr>vcoinLog := vcoinLog ?d @ [refundEvent w pid n], walletTable := wt'\<rparr>\<rparr>)"
    "balanceOf (?d\<lparr>walletTable := wt'\<rparr>) = (balanceOf ?d)(w := balanceOf ?d w - n)"
    using reverseTx_runs [OF live(1) n(2), of w pid ?d "dbNow s"] unfolding live(2) by blast
  let ?e = "?d\<lparr>vcoinLog := vcoinLog ?d @ [refundEvent w pid n], walletTable := wt'\<rparr>"
  let ?u = "?t\<lparr>dbCount := Suc (Suc (dbCount ?t)), dbData := ?e\<rparr>"
  have "reliable ?t" using assms(1) by (simp add: reliable_def)
  then have u: "reversePackagePaymentIntent reports False pid w ?t = (Inr (), ?u)"
    using intent items n r(1)
    by (simp add: reversePackagePaymentIntent_def bindS_def tx_reliable transactionS_def findIntent_def pgTx_def
        reliable_def endTxn_def Let_def beginTxn_def)
  have "balanceOf ?e = balanceOf (?d\<lparr>walletTable := wt'\<rparr>)" by (simp add: balanceOf_def fun_eq_iff)
  then have "balanceOf ?e = balanceOf (dbData s)" using r(2) bt by (simp add: fun_eq_iff)
  with t u bt f(3) show ?thesis by (intro exI [of _ ?t] exI [of _ ?u]) simp
qed

theorem package_return_restores_wallet_witness:
  "\<exists>t u. fulfillPackagePaymentIntent False False (Inr (0, 1)) ''pay-1'' ''ws'' sampleDb = (Inr (), t) \<and>
     reversePackagePaymentIntent False False ''pay-1'' ''ws'' t = (Inr (), u) \<and> balanceOf (dbData u) = balanceOf sampleData"
proof -
  have "reliable sampleDb" "dbData sampleDb = sampleData"
    "videoPackage ''pay-1'' 50 [\<lparr>pk_catalogItemId = ''v50'', pk_packageType = ''video_generate'', pk_units = 50, pk_amountMinor = 900\<rparr>]
       (dbData sampleDb)"
    by (simp_all add: reliable_def videoPackage_def unitsTotal_def isVideoItem_def sample_defs)
  with package_return_restores_wallet [OF this(1,3), of "''ws''" False "(0, 1)"] show ?thesis
    by (auto simp: sample_defs)
qed

end
