(* ===== verification/CadenceWatchdog.thy ===== *)
theory CadenceWatchdog
  imports PersaiPrelude
begin

text \<open>
  The watchdog over a model stream (\<open>cadence-watchdog.ts\<close>): it reports a stall when the stream falls
  silent or its text deltas arrive too slowly on average.

  The closure's variables are the record \<open>watchdog\<close>; \<open>timerAt\<close> is the pending timer, by the instant
  it is due. Each call of the interface is an event with the clock's reading; the event \<open>Timer\<close> is the
  event loop running a due timer, which happens at its instant or later. \<open>onStall\<close> is a caller's
  function whose errors are swallowed; \<open>stalls\<close> lists its calls. Milliseconds are integers.
\<close>

record watchdog_options =
  wo_silentMs :: int
  wo_avgWindow :: int
  wo_avgThresholdMs :: int
  wo_avgMinSamples :: int
  wo_warmupDeltas :: "int option"
  wo_silentEnabled :: "bool option"
  wo_slowAvgEnabled :: "bool option"

datatype stall_reason = Silent | Slow_avg

record stall_report =
  sr_reason :: stall_reason
  sr_silentMs :: "int option"
  sr_rollingAvgMs :: "int option"
  sr_rollingWindow :: "int option"
  sr_observedGaps :: int

record watchdog =
  lastDeltaAtMs :: "int option"
  timerAt :: "int option"
  stallFired :: bool
  disposed :: bool
  observedDeltaCount :: int
  inflightToolCount :: int
  slowAvgDisabledByTool :: bool
  recentGapsMs :: "int list"
  stalls :: "(int \<times> stall_report) list"

definition newWatchdog :: watchdog where
  "newWatchdog = \<lparr>lastDeltaAtMs = None, timerAt = None, stallFired = False, disposed = False, observedDeltaCount = 0,
     inflightToolCount = 0, slowAvgDisabledByTool = False, recentGapsMs = [], stalls = []\<rparr>"

definition warmup :: "watchdog_options \<Rightarrow> int" where
  "warmup o' = max 0 (case wo_warmupDeltas o' of None \<Rightarrow> 0 | Some n \<Rightarrow> n)"

definition clearSilentTimer :: "watchdog \<Rightarrow> watchdog" where
  "clearSilentTimer s = s\<lparr>timerAt := None\<rparr>"

definition startSilentTimer :: "watchdog_options \<Rightarrow> int \<Rightarrow> watchdog \<Rightarrow> watchdog" where
  "startSilentTimer o' now s =
     (let s1 = clearSilentTimer s in
      if disposed s1 \<or> stallFired s1 then s1
      else if wo_silentEnabled o' = Some False then s1
      else if inflightToolCount s1 > 0 then s1
      else s1\<lparr>timerAt := Some (now + wo_silentMs o')\<rparr>)"

definition triggerStall :: "int \<Rightarrow> stall_report \<Rightarrow> watchdog \<Rightarrow> watchdog" where
  "triggerStall now report s =
     (if stallFired s \<or> disposed s then s
      else (clearSilentTimer (s\<lparr>stallFired := True\<rparr>))\<lparr>stalls := stalls s @ [(now, report)]\<rparr>)"

text \<open>The callback of the timer.\<close>

definition silentTimerFires :: "watchdog_options \<Rightarrow> int \<Rightarrow> watchdog \<Rightarrow> watchdog" where
  "silentTimerFires o' now s =
     (case timerAt s of
        None \<Rightarrow> s
      | Some due \<Rightarrow>
          if now < due then s
          else triggerStall now \<lparr>sr_reason = Silent, sr_silentMs = Some (wo_silentMs o'), sr_rollingAvgMs = None,
                 sr_rollingWindow = None, sr_observedGaps = int (length (recentGapsMs s))\<rparr> (s\<lparr>timerAt := None\<rparr>))"

text \<open>
  The rolling average is over a threshold when the sum of the gaps is; the average of no gaps is
  not a number and over nothing.
\<close>

definition average :: "int list \<Rightarrow> rat" where
  "average gaps = of_int (sum_list gaps) / of_nat (length gaps)"

definition slowGaps :: "watchdog_options \<Rightarrow> int list \<Rightarrow> bool" where
  "slowGaps o' gaps \<longleftrightarrow> int (length gaps) \<ge> wo_avgMinSamples o' \<and> gaps \<noteq> [] \<and>
     average gaps > of_int (wo_avgThresholdMs o')"

definition pushGap :: "watchdog_options \<Rightarrow> int \<Rightarrow> int list \<Rightarrow> int list" where
  "pushGap o' gap gaps =
     (let gaps1 = gaps @ [gap] in if int (length gaps1) > wo_avgWindow o' then tl gaps1 else gaps1)"

definition recordDelta :: "watchdog_options \<Rightarrow> int \<Rightarrow> watchdog \<Rightarrow> watchdog" where
  "recordDelta o' ts s =
     (if disposed s \<or> stallFired s then s
      else
        (let s1 = (case lastDeltaAtMs s of
               None \<Rightarrow> s
             | Some t0 \<Rightarrow>
                 (let s2 = s\<lparr>observedDeltaCount := observedDeltaCount s + 1\<rparr> in
                  if wo_slowAvgEnabled o' \<noteq> Some False \<and> \<not> slowAvgDisabledByTool s2 \<and> observedDeltaCount s2 > warmup o'
                  then (let s3 = s2\<lparr>recentGapsMs := pushGap o' (ts - t0) (recentGapsMs s2)\<rparr> in
                        if slowGaps o' (recentGapsMs s3)
                        then triggerStall ts \<lparr>sr_reason = Slow_avg, sr_silentMs = None,
                               sr_rollingAvgMs = Some \<lfloor>average (recentGapsMs s3) + 1 / 2\<rfloor>,
                               sr_rollingWindow = Some (int (length (recentGapsMs s3))),
                               sr_observedGaps = int (length (recentGapsMs s3))\<rparr> s3
                        else s3)
                  else s2))
         in if stallFired s1 then s1 else startSilentTimer o' ts (s1\<lparr>lastDeltaAtMs := Some ts\<rparr>)))"

definition recordActivity :: "watchdog_options \<Rightarrow> int \<Rightarrow> watchdog \<Rightarrow> watchdog" where
  "recordActivity o' ts s =
     (if disposed s \<or> stallFired s then s else startSilentTimer o' ts (s\<lparr>lastDeltaAtMs := Some ts\<rparr>))"

definition recordToolStarted :: "int \<Rightarrow> watchdog \<Rightarrow> watchdog" where
  "recordToolStarted ts s =
     (if disposed s \<or> stallFired s then s
      else clearSilentTimer (s\<lparr>inflightToolCount := inflightToolCount s + 1, slowAvgDisabledByTool := True,
             lastDeltaAtMs := Some ts\<rparr>))"

definition recordToolFinished :: "int \<Rightarrow> watchdog \<Rightarrow> watchdog" where
  "recordToolFinished ts s =
     (if disposed s \<or> stallFired s then s
      else s\<lparr>inflightToolCount := (if inflightToolCount s > 0 then inflightToolCount s - 1 else inflightToolCount s),
             lastDeltaAtMs := Some ts\<rparr>)"

definition disposeWatchdog :: "watchdog \<Rightarrow> watchdog" where
  "disposeWatchdog s = clearSilentTimer (s\<lparr>disposed := True\<rparr>)"

datatype watchdog_event = Arm | Delta | Activity | Tool_started | Tool_finished | Dispose | Timer

fun watchdogStep :: "watchdog_options \<Rightarrow> int \<times> watchdog_event \<Rightarrow> watchdog \<Rightarrow> watchdog" where
  "watchdogStep o' (ts, Arm) s = s"
| "watchdogStep o' (ts, Delta) s = recordDelta o' ts s"
| "watchdogStep o' (ts, Activity) s = recordActivity o' ts s"
| "watchdogStep o' (ts, Tool_started) s = recordToolStarted ts s"
| "watchdogStep o' (ts, Tool_finished) s = recordToolFinished ts s"
| "watchdogStep o' (ts, Dispose) s = disposeWatchdog s"
| "watchdogStep o' (ts, Timer) s = silentTimerFires o' ts s"

definition watchdogRun :: "watchdog_options \<Rightarrow> (int \<times> watchdog_event) list \<Rightarrow> watchdog" where
  "watchdogRun o' events = fold (watchdogStep o') events newWatchdog"

definition DEFAULT_CADENCE_THRESHOLDS :: watchdog_options where
  "DEFAULT_CADENCE_THRESHOLDS = \<lparr>wo_silentMs = 8000, wo_avgWindow = 20, wo_avgThresholdMs = 200, wo_avgMinSamples = 20,
     wo_warmupDeltas = Some 20, wo_silentEnabled = None, wo_slowAvgEnabled = None\<rparr>"

section \<open>What a stall means\<close>

text \<open>The tools running after some events; a finish without a start counts nothing.\<close>

definition toolsRunning :: "(int \<times> watchdog_event) list \<Rightarrow> int" where
  "toolsRunning events = fold (\<lambda>(_, e) n. if e = Tool_started then n + 1 else if e = Tool_finished \<and> n > 0 then n - 1 else n)
     events 0"

lemma watchdogRun_snoc: "watchdogRun o' (events @ [x]) = watchdogStep o' x (watchdogRun o' events)"
  by (simp add: watchdogRun_def)

lemma toolsRunning_snoc: "toolsRunning (events @ [(ts, e)]) =
    (if e = Tool_started then toolsRunning events + 1
     else if e = Tool_finished \<and> toolsRunning events > 0 then toolsRunning events - 1 else toolsRunning events)"
  by (simp add: toolsRunning_def)

text \<open>
  \<open>quietSince\<close>: the stream has been quiet since a delta or another activity at \<open>t0\<close>, with no tool
  running and nothing seen since but unmatched tool ends.
\<close>

definition quietSince :: "(int \<times> watchdog_event) list \<Rightarrow> int \<Rightarrow> bool" where
  "quietSince events t0 \<longleftrightarrow> (\<exists>before e rest. events = before @ [(t0, e)] @ rest \<and> e \<in> {Delta, Activity} \<and>
     snd ` set rest \<subseteq> {Arm, Timer, Tool_finished} \<and> toolsRunning before = 0)"

definition watchdogInv :: "watchdog_options \<Rightarrow> (int \<times> watchdog_event) list \<Rightarrow> watchdog \<Rightarrow> bool" where
  "watchdogInv o' events s \<longleftrightarrow>
     (\<not> stallFired s \<and> \<not> disposed s \<longrightarrow>
        inflightToolCount s = toolsRunning events \<and> (slowAvgDisabledByTool s \<longleftrightarrow> Tool_started \<in> snd ` set events)) \<and>
     (case timerAt s of None \<Rightarrow> True | Some due \<Rightarrow> \<not> stallFired s \<and> \<not> disposed s \<and>
        (\<exists>t0. due = t0 + wo_silentMs o' \<and> quietSince events t0)) \<and>
     (stalls s = [] \<longleftrightarrow> \<not> stallFired s) \<and> length (stalls s) \<le> 1"

lemma toolsRunning_nonneg: "0 \<le> toolsRunning events"
proof (induction events rule: rev_induct)
  case (snoc x events)
  then show ?case by (cases x) (auto simp: toolsRunning_snoc)
qed (simp add: toolsRunning_def)

lemma quietSince_start: "e \<in> {Delta, Activity} \<Longrightarrow> toolsRunning events = 0 \<Longrightarrow> quietSince (events @ [(ts, e)]) ts"
  unfolding quietSince_def by (intro exI [of _ events] exI [of _ e] exI [of _ "[]"]) simp

lemma quietSince_more: "quietSince events t0 \<Longrightarrow> e \<in> {Arm, Timer, Tool_finished} \<Longrightarrow> quietSince (events @ [(ts, e)]) t0"
  unfolding quietSince_def
proof (elim exE conjE)
  fix bef k rest
  assume "events = bef @ [(t0, k)] @ rest" "k \<in> {Delta, Activity}" "snd ` set rest \<subseteq> {Arm, Timer, Tool_finished}"
    "toolsRunning bef = 0" "e \<in> {Arm, Timer, Tool_finished}"
  then show "\<exists>bef k rest. events @ [(ts, e)] = bef @ [(t0, k)] @ rest \<and> k \<in> {Delta, Activity} \<and>
      snd ` set rest \<subseteq> {Arm, Timer, Tool_finished} \<and> toolsRunning bef = 0"
    by (intro exI [of _ bef] exI [of _ k] exI [of _ "rest @ [(ts, e)]"]) auto
qed

lemmas watchdog_defs = startSilentTimer_def clearSilentTimer_def triggerStall_def recordActivity_def
  recordToolStarted_def recordToolFinished_def disposeWatchdog_def silentTimerFires_def

lemma recordDelta_cases:
  assumes "\<not> disposed s" "\<not> stallFired s"
  obtains (slow) t0 gaps n where "recordDelta o' ts s = triggerStall ts \<lparr>sr_reason = Slow_avg, sr_silentMs = None,
        sr_rollingAvgMs = Some \<lfloor>average gaps + 1 / 2\<rfloor>, sr_rollingWindow = Some (int (length gaps)),
        sr_observedGaps = int (length gaps)\<rparr> (s\<lparr>observedDeltaCount := n, recentGapsMs := gaps\<rparr>)"
      "slowGaps o' gaps" "wo_slowAvgEnabled o' \<noteq> Some False" "\<not> slowAvgDisabledByTool s"
      "lastDeltaAtMs s = Some t0" "gaps = pushGap o' (ts - t0) (recentGapsMs s)" "observedDeltaCount s + 1 > warmup o'"
  | (live) gaps n where "recordDelta o' ts s =
        startSilentTimer o' ts (s\<lparr>observedDeltaCount := n, recentGapsMs := gaps, lastDeltaAtMs := Some ts\<rparr>)"
proof (cases "lastDeltaAtMs s")
  case None
  then show thesis using live [of "recentGapsMs s" "observedDeltaCount s"] assms by (simp add: recordDelta_def)
next
  case (Some t0)
  let ?n = "observedDeltaCount s + 1"
  let ?counts = "wo_slowAvgEnabled o' \<noteq> Some False \<and> \<not> slowAvgDisabledByTool s \<and> ?n > warmup o'"
  let ?gaps = "pushGap o' (ts - t0) (recentGapsMs s)"
  consider "?counts" "slowGaps o' ?gaps" | "?counts" "\<not> slowGaps o' ?gaps" | "\<not> ?counts" by blast
  then show thesis
  proof cases
    case 1
    then show thesis using slow [of ?gaps ?n t0] assms Some by (simp add: recordDelta_def Let_def triggerStall_def clearSilentTimer_def)
  next
    case 2
    then show thesis using live [of ?gaps ?n] assms Some by (simp add: recordDelta_def Let_def)
  next
    case 3
    then show thesis using live [of "recentGapsMs s" ?n] assms Some by (auto simp add: recordDelta_def Let_def)
  qed
qed

lemma watchdogInv_step:
  assumes "watchdogInv o' events s"
  shows "watchdogInv o' (events @ [(ts, e)]) (watchdogStep o' (ts, e) s)"
proof (cases "e = Delta \<and> \<not> disposed s \<and> \<not> stallFired s")
  case True
  then have e: "e = Delta" and live: "\<not> disposed s" "\<not> stallFired s" by simp_all
  from assms live have n: "inflightToolCount s = toolsRunning events"
    "slowAvgDisabledByTool s \<longleftrightarrow> Tool_started \<in> snd ` set events" "stalls s = []"
    by (auto simp: watchdogInv_def)
  show ?thesis
    using live
  proof (cases rule: recordDelta_cases [where o' = o' and ts = ts])
    case (slow t0 gaps n)
    with live e n(3) show ?thesis by (simp add: watchdogInv_def triggerStall_def clearSilentTimer_def)
  next
    case (live gaps n')
    with True n show ?thesis
      using quietSince_start [of Delta events ts] toolsRunning_nonneg [of events]
      by (auto simp: watchdogInv_def startSilentTimer_def clearSilentTimer_def toolsRunning_snoc Let_def)
  qed
next
  case False
  then show ?thesis
    using assms quietSince_start [of Activity events ts] toolsRunning_nonneg [of events]
    by (cases e) (auto simp: watchdogInv_def watchdog_defs recordDelta_def toolsRunning_snoc Let_def
        intro: quietSince_more split: option.splits)
qed

lemma watchdogInv_run: "watchdogInv o' events (watchdogRun o' events)"
proof (induction events rule: rev_induct)
  case Nil
  show ?case by (simp add: watchdogInv_def watchdogRun_def newWatchdog_def toolsRunning_def)
next
  case (snoc x events)
  then show ?case by (cases x) (simp add: watchdogRun_snoc watchdogInv_step)
qed

section \<open>The rolling window\<close>

text \<open>
  The gaps a reader of the stream would measure: from each text delta back to whatever the runtime
  showed before it. The watchdog's window is the end of that list, past the warmup.
\<close>

fun measureGap :: "int \<times> watchdog_event \<Rightarrow> int option \<times> int list \<Rightarrow> int option \<times> int list" where
  "measureGap (ts, e) (anchor, gaps) =
     (if e = Delta then (Some ts, case anchor of None \<Rightarrow> gaps | Some t0 \<Rightarrow> gaps @ [ts - t0])
      else if e \<in> {Activity, Tool_started, Tool_finished} then (Some ts, gaps)
      else (anchor, gaps))"

definition measured :: "(int \<times> watchdog_event) list \<Rightarrow> int option \<times> int list" where
  "measured events = fold measureGap events (None, [])"

definition lastN :: "int \<Rightarrow> 'a list \<Rightarrow> 'a list" where
  "lastN n xs = drop (length xs - nat n) xs"

definition windowOf :: "watchdog_options \<Rightarrow> (int \<times> watchdog_event) list \<Rightarrow> int list" where
  "windowOf o' events = lastN (wo_avgWindow o') (drop (nat (warmup o')) (snd (measured events)))"

lemma measured_snoc: "measured (events @ [x]) = measureGap x (measured events)"
  by (simp add: measured_def)

lemma pushGap_lastN: "pushGap o' g (lastN (wo_avgWindow o') xs) = lastN (wo_avgWindow o') (xs @ [g])"
proof (cases "length xs < nat (wo_avgWindow o')")
  case True
  then have "\<not> wo_avgWindow o' < 1 + int (length xs)" by linarith
  with True show ?thesis by (simp add: pushGap_def lastN_def Let_def)
next
  case False
  then have l: "length (lastN (wo_avgWindow o') xs) = nat (wo_avgWindow o')" by (simp add: lastN_def)
  then have "int (length (lastN (wo_avgWindow o') xs @ [g])) > wo_avgWindow o'" by simp
  then have "pushGap o' g (lastN (wo_avgWindow o') xs) = tl (lastN (wo_avgWindow o') xs @ [g])" by (simp add: pushGap_def)
  also have "\<dots> = drop (Suc (length xs - nat (wo_avgWindow o'))) (xs @ [g])"
    using False
    by (cases "nat (wo_avgWindow o')") (simp_all add: lastN_def drop_Suc tl_drop [symmetric] tl_append split: list.splits)
  also have "\<dots> = lastN (wo_avgWindow o') (xs @ [g])"
    using False by (simp add: lastN_def Suc_diff_le)
  finally show ?thesis .
qed

definition windowInv :: "watchdog_options \<Rightarrow> (int \<times> watchdog_event) list \<Rightarrow> watchdog \<Rightarrow> bool" where
  "windowInv o' events s \<longleftrightarrow>
     (wo_slowAvgEnabled o' \<noteq> Some False \<longrightarrow> \<not> stallFired s \<longrightarrow> \<not> disposed s \<longrightarrow> Tool_started \<notin> snd ` set events \<longrightarrow>
        lastDeltaAtMs s = fst (measured events) \<and> observedDeltaCount s = int (length (snd (measured events))) \<and>
        recentGapsMs s = windowOf o' events)"

lemma drop_warmup_snoc:
  "drop (nat (warmup o')) (gaps @ [g]) =
     (if int (length gaps) + 1 > warmup o' then drop (nat (warmup o')) gaps @ [g] else drop (nat (warmup o')) gaps)"
  by auto

lemma windowInv_step:
  assumes "windowInv o' events s" "watchdogInv o' events s"
  shows "windowInv o' (events @ [(ts, e)]) (watchdogStep o' (ts, e) s)"
proof (cases "wo_slowAvgEnabled o' \<noteq> Some False \<and> \<not> stallFired s \<and> \<not> disposed s \<and> Tool_started \<notin> snd ` set (events @ [(ts, e)])")
  case True
  with assms have s: "lastDeltaAtMs s = fst (measured events)" "observedDeltaCount s = int (length (snd (measured events)))"
    "recentGapsMs s = windowOf o' events" "\<not> slowAvgDisabledByTool s"
    by (auto simp: windowInv_def watchdogInv_def)
  obtain anchor gaps where m: "measured events = (anchor, gaps)" by (cases "measured events")
  show ?thesis
  proof (cases "e = Delta")
    case e: True
    show ?thesis
    proof (cases anchor)
      case None
      with True s e m show ?thesis
        by (simp add: windowInv_def recordDelta_def startSilentTimer_def clearSilentTimer_def Let_def measured_snoc windowOf_def)
    next
      case (Some t0)
      with True s e m show ?thesis
        by (simp add: windowInv_def recordDelta_def startSilentTimer_def clearSilentTimer_def triggerStall_def Let_def
            measured_snoc windowOf_def drop_warmup_snoc pushGap_lastN)
    qed
  next
    case False
    with True s m show ?thesis
      by (cases e) (auto simp: windowInv_def watchdog_defs Let_def measured_snoc windowOf_def split: option.splits)
  qed
next
  case False
  have "stallFired s \<or> disposed s \<Longrightarrow> stallFired (watchdogStep o' (ts, e) s) \<or> disposed (watchdogStep o' (ts, e) s)"
    by (cases e) (auto simp: watchdog_defs recordDelta_def split: option.splits)
  with False show ?thesis by (auto simp: windowInv_def)
qed

lemma windowInv_run: "windowInv o' events (watchdogRun o' events)"
proof (induction events rule: rev_induct)
  case Nil
  show ?case by (simp add: windowInv_def watchdogRun_def newWatchdog_def measured_def windowOf_def lastN_def)
next
  case (snoc x events)
  then show ?case by (cases x) (simp add: watchdogRun_snoc windowInv_step watchdogInv_run)
qed

section \<open>Stalls\<close>

text \<open>C35: In any run of the watchdog, with any clock readings and any timer delays, at most one stall is
  reported, and it is justified at that moment. A silent stall: the last thing the stream showed was
  a delta or another activity, at least \<open>silentMs\<close> earlier, and no tool was running. A slow stall: no
  tool ever started, and the average of the newest gaps between a text delta and what preceded it,
  the warmup left out, at least \<open>avgMinSamples\<close> and at most \<open>avgWindow\<close> many, is over the threshold.\<close>

theorem stall_is_justified:
  assumes "stalls (watchdogRun o' events) = []" "(t, r) \<in> set (stalls (watchdogRun o' (events @ [(ts, e)])))"
  shows "stalls (watchdogRun o' (events @ [(ts, e)])) = [(ts, r)] \<and>
    (case sr_reason r of
       Silent \<Rightarrow> e = Timer \<and> (\<exists>t0. quietSince events t0 \<and> t0 + wo_silentMs o' \<le> ts)
     | Slow_avg \<Rightarrow> e = Delta \<and> Tool_started \<notin> snd ` set events \<and>
         slowGaps o' (windowOf o' (events @ [(ts, Delta)])) \<and>
         sr_observedGaps r = int (length (windowOf o' (events @ [(ts, Delta)]))))"
proof -
  let ?s = "watchdogRun o' events"
  have step: "watchdogRun o' (events @ [(ts, e)]) = watchdogStep o' (ts, e) ?s" by (rule watchdogRun_snoc)
  have inv: "watchdogInv o' events ?s" and win: "windowInv o' events ?s" by (rule watchdogInv_run windowInv_run)+
  have live: "\<not> stallFired ?s" using assms(1) inv by (auto simp: watchdogInv_def)
  show ?thesis
  proof (cases e)
    case Timer
    with step assms live inv show ?thesis
      by (auto simp: silentTimerFires_def triggerStall_def clearSilentTimer_def watchdogInv_def split: option.splits if_splits)
  next
    case Delta
    have nd: "\<not> disposed ?s" using assms step Delta by (auto simp: recordDelta_def split: if_splits)
    from assms(2) step Delta have new: "(t, r) \<in> set (stalls (recordDelta o' ts ?s))" by simp
    from nd live show ?thesis
    proof (cases rule: recordDelta_cases [where o' = o' and ts = ts])
      case (slow t0 gaps n)
      have tool: "Tool_started \<notin> snd ` set events" using inv live nd slow(4) by (auto simp: watchdogInv_def)
      with win live nd slow(3) have "fst (measured events) = lastDeltaAtMs ?s"
        "observedDeltaCount ?s = int (length (snd (measured events)))" "recentGapsMs ?s = windowOf o' events"
        by (simp_all add: windowInv_def)
      with slow(5-7) have "windowOf o' (events @ [(ts, Delta)]) = gaps"
        by (cases "measured events") (simp add: windowOf_def measured_snoc drop_warmup_snoc pushGap_lastN)
      with tool slow(1,2) new assms(1) live nd step Delta show ?thesis
        by (auto simp: triggerStall_def clearSilentTimer_def)
    next
      case (live gaps n)
      with new assms(1) show ?thesis
        by (simp add: startSilentTimer_def clearSilentTimer_def Let_def split: if_splits)
    qed
  qed (use assms step in \<open>auto simp: watchdog_defs Let_def split: if_splits\<close>)
qed

theorem stall_is_justified_witness:
  "\<exists>t0. quietSince [(0, Activity)] t0 \<and> t0 + 8000 \<le> 9000"
proof -
  let ?o = DEFAULT_CADENCE_THRESHOLDS
  have "stalls (watchdogRun ?o [(0, Activity)]) = []"
    by (simp add: watchdogRun_def newWatchdog_def watchdog_defs DEFAULT_CADENCE_THRESHOLDS_def Let_def)
  moreover have "(9000, \<lparr>sr_reason = Silent, sr_silentMs = Some 8000, sr_rollingAvgMs = None, sr_rollingWindow = None,
      sr_observedGaps = 0\<rparr>) \<in> set (stalls (watchdogRun ?o ([(0, Activity)] @ [(9000, Timer)])))"
    by (simp add: watchdogRun_def newWatchdog_def watchdog_defs DEFAULT_CADENCE_THRESHOLDS_def Let_def)
  ultimately show ?thesis
    using stall_is_justified [of ?o "[(0, Activity)]"] by (fastforce simp: DEFAULT_CADENCE_THRESHOLDS_def)
qed

text \<open>
  The end of the last tool does not start the timer again, as the comment at the start of the timer
  says it does: after a tool only the next delta or activity guards the stream.
\<close>

lemma tool_finished_leaves_timer: "timerAt (recordToolFinished ts s) = timerAt s"
  by (simp add: recordToolFinished_def)

end
