(* ===== verification/WindowLimit.thy ===== *)
theory WindowLimit
  imports PersaiPrelude
begin

text \<open>
  The contract of a fixed-window rate limit. \<open>view s k\<close> is the start and the count of the window
  stored for key \<open>k\<close>; a call \<open>call c a ok s t\<close> at instant \<open>a\<close> concerns the key \<open>key c\<close>
  (or none) and either opens a window with count one or counts one more in the stored window; a
  served call (\<open>ok\<close>) leaves a count below \<open>cap\<close>. The locale derives that, whatever calls are
  made, fewer than \<open>2 * cap\<close> calls of a key are served in any interval of the window's length.
\<close>

inductive window_run ::
  "('c \<Rightarrow> int \<Rightarrow> bool \<Rightarrow> 's \<Rightarrow> 's \<Rightarrow> bool) \<Rightarrow> 's \<Rightarrow> int \<Rightarrow> ('c \<times> int) list \<Rightarrow> 's \<Rightarrow> int \<Rightarrow> bool"
  for call s0 t0 where
  start: "window_run call s0 t0 [] s0 t0"
| called: "window_run call s0 t0 served s latest \<Longrightarrow> latest < a \<Longrightarrow> call c a ok s t \<Longrightarrow>
    window_run call s0 t0 (if ok then (c, a) # served else served) t a"

definition servedWithin :: "('c \<Rightarrow> 'k option) \<Rightarrow> 'k \<Rightarrow> int \<Rightarrow> int \<Rightarrow> ('c \<times> int) list \<Rightarrow> nat" where
  "servedWithin key k x W served = length (filter (\<lambda>(c, a). key c = Some k \<and> x < a \<and> a \<le> x + W) served)"

text \<open>Slots of a window: a served call is a window start and a count; starts are \<open>W\<close> apart.\<close>

definition slots_ok :: "int \<Rightarrow> int \<Rightarrow> (int \<times> int \<times> int) list \<Rightarrow> bool" where
  "slots_ok W cap es \<longleftrightarrow> distinct (map snd es) \<and>
     (\<forall>(a, w, c) \<in> set es. w \<le> a \<and> a \<le> w + W \<and> 1 \<le> c \<and> c < cap) \<and>
     (\<forall>(a, w, c) \<in> set es. \<forall>(a', w', c') \<in> set es. w = w' \<or> w + W \<le> w' \<or> w' + W \<le> w)"

lemma slots_range: "slots_ok W cap es \<Longrightarrow> (a, w, c) \<in> set es \<Longrightarrow> w \<le> a \<and> a \<le> w + W \<and> 1 \<le> c \<and> c < cap"
  by (auto simp: slots_ok_def)

lemma slots_apart:
  "slots_ok W cap es \<Longrightarrow> (a, w, c) \<in> set es \<Longrightarrow> (a', w', c') \<in> set es \<Longrightarrow> w = w' \<or> w + W \<le> w' \<or> w' + W \<le> w"
  unfolding slots_ok_def by (elim conjE) (drule (1) bspec; simp; drule (1) bspec; simp)

lemma slots_bound:
  assumes "slots_ok W cap es" "0 < cap"
  shows "length (filter (\<lambda>(a, w, c). x < a \<and> a \<le> x + W) es) \<le> 2 * nat (cap - 1)"
proof -
  let ?F = "filter (\<lambda>(a, w, c). x < a \<and> a \<le> x + W) es"
  let ?g = "\<lambda>(w :: int, c :: int). (x < w, c)"
  have d: "distinct (map snd ?F)" using assms(1) distinct_map_filter by (auto simp: slots_ok_def)
  have mem: "\<exists>a. (a, p) \<in> set es \<and> x < a \<and> a \<le> x + W" if "p \<in> snd ` set ?F" for p
    using that by (cases p) auto
  have rng: "x - W < w \<and> w \<le> x + W \<and> 1 \<le> c \<and> c < cap" if "(w, c) \<in> snd ` set ?F" for w c
  proof -
    from mem [OF that] obtain a where a: "(a, w, c) \<in> set es" "x < a" "a \<le> x + W" by blast
    with slots_range [OF assms(1) a(1)] show ?thesis by simp
  qed
  have apart: "w = w' \<or> w + W \<le> w' \<or> w' + W \<le> w" if "(w, c) \<in> snd ` set ?F" "(w', c') \<in> snd ` set ?F" for w c w' c'
    using mem [OF that(1)] mem [OF that(2)] slots_apart [OF assms(1)] by blast
  have inj: "inj_on ?g (snd ` set ?F)"
  proof (rule inj_onI)
    fix p q assume p: "p \<in> snd ` set ?F" and q: "q \<in> snd ` set ?F" and e: "?g p = ?g q"
    obtain w c w' c' where pq: "p = (w, c)" "q = (w', c')" by (cases p, cases q)
    from rng [of w c] rng [of w' c'] apart [of w c w' c'] p q e show "p = q" unfolding pq by auto
  qed
  have "?g p \<in> UNIV \<times> {1..<cap}" if "p \<in> snd ` set ?F" for p
    using rng [of "fst p" "snd p"] that by (simp add: case_prod_unfold del: set_filter image_iff)
  then have "?g ` (snd ` set ?F) \<subseteq> UNIV \<times> {1..<cap}" by (rule image_subsetI)
  then have "card (?g ` (snd ` set ?F)) \<le> card ((UNIV :: bool set) \<times> {1..<cap})"
    by (rule card_mono [rotated]) simp
  also have "\<dots> = 2 * nat (cap - 1)" by (simp add: card_cartesian_product)
  finally have "card (snd ` set ?F) \<le> 2 * nat (cap - 1)" using inj by (simp add: card_image)
  moreover have "card (snd ` set ?F) = length ?F" using distinct_card [OF d] by simp
  ultimately show ?thesis by simp
qed

locale window_limit =
  fixes W :: int and cap :: int
    and safe :: "'s \<Rightarrow> bool"
    and view :: "'s \<Rightarrow> 'k \<Rightarrow> (int \<times> int) option"
    and key :: "'c \<Rightarrow> 'k option"
    and call :: "'c \<Rightarrow> int \<Rightarrow> bool \<Rightarrow> 's \<Rightarrow> 's \<Rightarrow> bool"
  assumes cap_pos: "0 < cap"
    and safe_law: "call c a ok s t \<Longrightarrow> safe s \<Longrightarrow> safe t"
    and other_law: "call c a ok s t \<Longrightarrow> safe s \<Longrightarrow> key c \<noteq> Some k \<Longrightarrow> view t k = view s k"
    and count_law: "call c a ok s t \<Longrightarrow> safe s \<Longrightarrow> key c = Some k \<Longrightarrow> \<forall>w n. view s k = Some (w, n) \<longrightarrow> w < a \<Longrightarrow>
      \<not> ok \<and> view t k = view s k \<or>
      (\<exists>w n. view t k = Some (w, n) \<and> (ok \<longrightarrow> n < cap) \<and>
        (w = a \<and> n = 1 \<and> (\<forall>w' n'. view s k = Some (w', n') \<longrightarrow> w' + W \<le> a) \<or>
         view s k = Some (w, n - 1) \<and> a \<le> w + W))"
    and W_pos: "0 < W"
begin

text \<open>The served calls of a key with their slots, and how they relate to the stored window.\<close>

definition tracked :: "'k \<Rightarrow> ('c \<times> int) list \<Rightarrow> 's \<Rightarrow> int \<Rightarrow> (int \<times> int \<times> int) list \<Rightarrow> bool" where
  "tracked k served s latest es \<longleftrightarrow> safe s \<and> slots_ok W cap es \<and>
     map fst es = map snd (filter (\<lambda>(c, a). key c = Some k) served) \<and>
     (\<forall>w n. view s k = Some (w, n) \<longrightarrow> w \<le> latest \<and> 0 \<le> n) \<and>
     (\<forall>(a, w, c) \<in> set es. \<exists>w' n. view s k = Some (w', n) \<and> (w = w' \<and> c \<le> n \<or> w + W \<le> w'))"

lemma tracked_start:
  "safe s \<Longrightarrow> (\<And>w n. view s k = Some (w, n) \<Longrightarrow> w \<le> t0 \<and> 0 \<le> n) \<Longrightarrow> tracked k [] s t0 []"
  by (simp add: tracked_def slots_ok_def)

lemma tracked_other:
  assumes "tracked k served s latest es" "latest < a" "call c a ok s t" "key c \<noteq> Some k"
  shows "tracked k (if ok then (c, a) # served else served) t a es"
proof -
  have "safe s" using assms(1) by (simp add: tracked_def)
  with assms(3,4) have "view t k = view s k" "safe t" using other_law safe_law by blast+
  then show ?thesis using assms(1,2,4) by (force simp: tracked_def)
qed

lemma tracked_call:
  assumes T: "tracked k served s latest es" and a: "latest < a" and c: "call c a ok s t" and k: "key c = Some k"
  shows "\<exists>es. tracked k (if ok then (c, a) # served else served) t a es"
proof -
  from T have s: "safe s" and E: "slots_ok W cap es" and M: "map fst es = map snd (filter (\<lambda>(c, a). key c = Some k) served)"
    and V: "\<And>w n. view s k = Some (w, n) \<Longrightarrow> w \<le> latest \<and> 0 \<le> n"
    and R: "\<And>x w m. (x, w, m) \<in> set es \<Longrightarrow> \<exists>w' n. view s k = Some (w', n) \<and> (w = w' \<and> m \<le> n \<or> w + W \<le> w')"
    by (auto simp: tracked_def)
  have t: "safe t" using safe_law c s by blast
  have fresh: "\<forall>w n. view s k = Some (w, n) \<longrightarrow> w < a" using V a by fastforce
  from count_law [OF c s k fresh] consider "\<not> ok" "view t k = view s k"
    | w n where "view t k = Some (w, n)" "ok \<Longrightarrow> n < cap" "w = a" "n = 1"
        "\<And>w' n'. view s k = Some (w', n') \<Longrightarrow> w' + W \<le> a"
    | w n where "view t k = Some (w, n)" "ok \<Longrightarrow> n < cap" "view s k = Some (w, n - 1)" "a \<le> w + W"
    by blast
  then show ?thesis
  proof cases
    case 1
    then have "tracked k served t a es" using T a t by (force simp: tracked_def)
    with 1 show ?thesis by auto
  next
    case 2
    have old: "w' + W \<le> a" if "(x, w', m) \<in> set es" for x w' m using R [OF that] 2(5) W_pos by fastforce
    have new: "\<forall>(x, w', m) \<in> set es. (\<exists>w'' n'. view t k = Some (w'', n') \<and> (w' = w'' \<and> m \<le> n' \<or> w' + W \<le> w''))"
      using old 2 by auto
    show ?thesis
    proof (cases ok)
      case False
      then have "tracked k served t a es" using 2 t E M new by (auto simp: tracked_def)
      with False show ?thesis by auto
    next
      case True
      have "(w, n) \<notin> snd ` set es"
      proof
        assume "(w, n) \<in> snd ` set es"
        then obtain x where x: "(x, w, n) \<in> set es" by auto
        from R [OF this] obtain w' n' where "view s k = Some (w', n')" "w \<le> w'" using W_pos by fastforce
        with fresh 2(3) show False by fastforce
      qed
      then have "slots_ok W cap ((a, w, n) # es)" using E 2 True old W_pos by (auto simp: slots_ok_def)
      then have "tracked k ((c, a) # served) t a ((a, w, n) # es)" using 2 t M new k by (auto simp: tracked_def)
      with True show ?thesis by auto
    qed
  next
    case 3
    have wl: "w \<le> latest" "0 \<le> n - 1" using V [OF 3(3)] by simp_all
    have old: "w' = w \<and> m \<le> n - 1 \<or> w' + W \<le> w" if "(x, w', m) \<in> set es" for x w' m using R [OF that] 3(3) by auto
    have new: "\<forall>(x, w', m) \<in> set es. (\<exists>w'' n'. view t k = Some (w'', n') \<and> (w' = w'' \<and> m \<le> n' \<or> w' + W \<le> w''))"
      using old 3(1) by force
    show ?thesis
    proof (cases ok)
      case False
      then have "tracked k served t a es" using 3 t E M new wl a by (auto simp: tracked_def)
      with False show ?thesis by auto
    next
      case True
      have "(w, n) \<notin> snd ` set es" using old W_pos by fastforce
      then have "slots_ok W cap ((a, w, n) # es)" using E 3 True old wl a by (fastforce simp: slots_ok_def)
      then have "tracked k ((c, a) # served) t a ((a, w, n) # es)" using 3 t M new k wl a by (auto simp: tracked_def)
      with True show ?thesis by auto
    qed
  qed
qed

lemma run_tracked:
  assumes "window_run call s0 t0 served s latest" "safe s0" "\<And>w n. view s0 k = Some (w, n) \<Longrightarrow> w \<le> t0 \<and> 0 \<le> n"
  shows "\<exists>es. tracked k served s latest es"
  using assms
proof (induction rule: window_run.induct)
  case start
  then show ?case using tracked_start by blast
next
  case (called served s latest a c ok t)
  then obtain es where "tracked k served s latest es" by blast
  with called.hyps show ?case using tracked_other tracked_call by (cases "key c = Some k") blast+
qed

lemma served_bounded:
  assumes "window_run call s0 t0 served s latest" "safe s0" "\<And>w n. view s0 k = Some (w, n) \<Longrightarrow> w \<le> t0 \<and> 0 \<le> n"
  shows "int (servedWithin key k x W served) \<le> 2 * (cap - 1)"
proof -
  from run_tracked [OF assms] obtain es where T: "tracked k served s latest es" by blast
  then have M: "map fst es = map snd (filter (\<lambda>(c, a). key c = Some k) served)" by (simp add: tracked_def)
  have "servedWithin key k x W served =
      length (filter (\<lambda>a. x < a \<and> a \<le> x + W) (map snd (filter (\<lambda>(c, a). key c = Some k) served)))"
    by (simp add: servedWithin_def filter_map comp_def case_prod_unfold)
  also have "\<dots> = length (filter (\<lambda>a. x < a \<and> a \<le> x + W) (map fst es))" by (simp only: M)
  also have "\<dots> = length (filter (\<lambda>(a, w, c). x < a \<and> a \<le> x + W) es)"
    by (simp add: filter_map comp_def case_prod_unfold)
  finally show ?thesis using slots_bound [of W cap es x] T cap_pos by (simp add: tracked_def)
qed

end

end
