(* ===== verification/AbuseGuard.thy ===== *)
theory AbuseGuard
  imports QuotaStore WindowLimit
begin

text \<open>
  Rate limits for inbound chat requests (\<open>enforce-abuse-rate-limit.service.ts\<close>,
  \<open>prisma-assistant-abuse-guard.repository.ts\<close>): a window per peer, per user and per assistant, with
  slowdown, temporary block and an administrator's override.

  A user row and an assistant row have the same columns; the three tables are maps from their
  unique keys. \<open>raced\<close> says which row another transaction inserts between the lock query and the
  insert, \<open>conflicts\<close> which attempt fails to serialize. The service's clock is the database's.
\<close>

datatype abuse_surface = Web_chat | Telegram | Whatsapp | Max

record guard_row =
  ga_windowStartedAt :: int
  ga_requestCount :: int
  ga_slowedUntil :: "int option"
  ga_blockedUntil :: "int option"
  ga_blockReason :: "string option"
  ga_adminOverrideUntil :: "int option"
  ga_lastSeenAt :: int

record peer_row =
  pe_windowStartedAt :: int
  pe_requestCount :: int
  pe_adminOverrideUntil :: "int option"
  pe_lastSeenAt :: int

record abuse_data =
  userStates :: "string \<times> string \<times> abuse_surface \<rightharpoonup> guard_row"
  assistantStates :: "string \<times> abuse_surface \<rightharpoonup> guard_row"
  peerStates :: "string \<times> abuse_surface \<times> string \<rightharpoonup> peer_row"

record abuse_config =
  ABUSE_USER_SLOWDOWN_REQUESTS_PER_MINUTE :: int
  ABUSE_USER_BLOCK_REQUESTS_PER_MINUTE :: int
  ABUSE_ASSISTANT_SLOWDOWN_REQUESTS_PER_MINUTE :: int
  ABUSE_ASSISTANT_BLOCK_REQUESTS_PER_MINUTE :: int
  ABUSE_PEER_SLOWDOWN_REQUESTS_PER_MINUTE :: int
  ABUSE_PEER_BLOCK_REQUESTS_PER_MINUTE :: int
  ABUSE_SLOWDOWN_SECONDS :: int
  ABUSE_TEMP_BLOCK_SECONDS :: int

definition WINDOW_MS :: int where
  "WINDOW_MS = 60000"

record abuse_attempt =
  aa_assistantId :: string
  aa_userId :: string
  aa_surface :: abuse_surface
  aa_attemptedAt :: int

record abuse_decision =
  ad_blockedUntil :: "int option"
  ad_slowedUntil :: "int option"
  ad_reason :: "string option"

record abuse_result =
  ar_finalBlockedUntil :: "int option"
  ar_finalSlowedUntil :: "int option"
  ar_finalReason :: "string option"

fun maxDate :: "int option \<Rightarrow> int option \<Rightarrow> int option" where
  "maxDate None b = b"
| "maxDate a None = a"
| "maxDate (Some a) (Some b) = (if a \<ge> b then Some a else Some b)"

definition LEGACY_QUOTA_PRESSURE_BLOCK_REASONS :: "string set" where
  "LEGACY_QUOTA_PRESSURE_BLOCK_REASONS = {''quota_pressure_temporary_block'', ''quota_pressure_slowdown''}"

definition clearLegacyQuotaPressureDecision :: "guard_row \<Rightarrow> abuse_decision" where
  "clearLegacyQuotaPressureDecision row =
     (let reason = (case ga_blockReason row of Some r \<Rightarrow> r | None \<Rightarrow> []) in
      if reason \<in> LEGACY_QUOTA_PRESSURE_BLOCK_REASONS
      then \<lparr>ad_blockedUntil = None, ad_slowedUntil = None, ad_reason = None\<rparr>
      else \<lparr>ad_blockedUntil = ga_blockedUntil row, ad_slowedUntil = ga_slowedUntil row, ad_reason = ga_blockReason row\<rparr>)"

definition inFuture :: "int option \<Rightarrow> int \<Rightarrow> bool" where
  "inFuture v now \<longleftrightarrow> (case v of Some t \<Rightarrow> t > now | None \<Rightarrow> False)"

section \<open>One layer of the decision\<close>

definition layerWindow :: "int \<Rightarrow> guard_row \<Rightarrow> int" where
  "layerWindow attemptedAt row =
     (if attemptedAt - ga_windowStartedAt row > WINDOW_MS then attemptedAt else ga_windowStartedAt row)"

definition layerCount :: "int \<Rightarrow> guard_row \<Rightarrow> int" where
  "layerCount attemptedAt row =
     (if layerWindow attemptedAt row = attemptedAt then 1 else ga_requestCount row + 1)"

definition layerDecision ::
  "string \<Rightarrow> string \<Rightarrow> int \<Rightarrow> int \<Rightarrow> abuse_config \<Rightarrow> int \<Rightarrow> guard_row \<Rightarrow> abuse_decision" where
  "layerDecision blockReason slowReason blockAt slowAt cfg attemptedAt row =
     (if inFuture (ga_adminOverrideUntil row) attemptedAt then clearLegacyQuotaPressureDecision row
      else if layerCount attemptedAt row \<ge> blockAt
      then \<lparr>ad_blockedUntil = Some (attemptedAt + ABUSE_TEMP_BLOCK_SECONDS cfg * 1000), ad_slowedUntil = None,
             ad_reason = Some blockReason\<rparr>
      else if layerCount attemptedAt row \<ge> slowAt
      then \<lparr>ad_blockedUntil = None, ad_slowedUntil = Some (attemptedAt + ABUSE_SLOWDOWN_SECONDS cfg * 1000),
             ad_reason = Some slowReason\<rparr>
      else clearLegacyQuotaPressureDecision row)"

definition userDecision :: "abuse_config \<Rightarrow> int \<Rightarrow> guard_row \<Rightarrow> abuse_decision" where
  "userDecision cfg = layerDecision ''user_request_rate_limit_blocked'' ''user_request_rate_limit_slowdown''
     (ABUSE_USER_BLOCK_REQUESTS_PER_MINUTE cfg) (ABUSE_USER_SLOWDOWN_REQUESTS_PER_MINUTE cfg) cfg"

definition assistantDecision :: "abuse_config \<Rightarrow> int \<Rightarrow> guard_row \<Rightarrow> abuse_decision" where
  "assistantDecision cfg = layerDecision ''assistant_request_rate_limit_blocked'' ''assistant_request_rate_limit_slowdown''
     (ABUSE_ASSISTANT_BLOCK_REQUESTS_PER_MINUTE cfg) (ABUSE_ASSISTANT_SLOWDOWN_REQUESTS_PER_MINUTE cfg) cfg"

section \<open>The repository\<close>

definition bootstrapRow :: "int \<Rightarrow> guard_row" where
  "bootstrapRow attemptedAt = \<lparr>ga_windowStartedAt = attemptedAt - WINDOW_MS - 1, ga_requestCount = 0, ga_slowedUntil = None,
     ga_blockedUntil = None, ga_blockReason = None, ga_adminOverrideUntil = None, ga_lastSeenAt = attemptedAt\<rparr>"

definition userKey :: "abuse_attempt \<Rightarrow> string \<times> string \<times> abuse_surface" where
  "userKey i = (aa_assistantId i, aa_userId i, aa_surface i)"

definition assistantKey :: "abuse_attempt \<Rightarrow> string \<times> abuse_surface" where
  "assistantKey i = (aa_assistantId i, aa_surface i)"

text \<open>The lock queries; \<open>aborted\<close> says that a statement of the transaction failed before.\<close>

definition lockUserStateRow :: "bool \<Rightarrow> abuse_attempt \<Rightarrow> (abuse_data, guard_row option) oper" where
  "lockUserStateRow aborted i d = (if aborted then (Inl abortedTransaction, d) else (Inr (userStates d (userKey i)), d))"

definition lockAssistantStateRow :: "bool \<Rightarrow> abuse_attempt \<Rightarrow> (abuse_data, guard_row option) oper" where
  "lockAssistantStateRow aborted i d =
     (if aborted then (Inl abortedTransaction, d) else (Inr (assistantStates d (assistantKey i)), d))"

definition lockOrCreateUserStateRow :: "bool \<Rightarrow> abuse_attempt \<Rightarrow> (abuse_data, guard_row) oper" where
  "lockOrCreateUserStateRow raced i =
     bindS (lockUserStateRow False i) (\<lambda>existing.
       case existing of
         Some row \<Rightarrow> returnS row
       | None \<Rightarrow>
           catchS
             (\<lambda>d. if raced then (Inl uniqueViolation, d)
                  else (let row = bootstrapRow (aa_attemptedAt i)
                        in (Inr row, d\<lparr>userStates := (userStates d)(userKey i \<mapsto> row)\<rparr>)))
             (\<lambda>e. if e = uniqueViolation
                  then bindS (lockUserStateRow True i) (\<lambda>raced.
                         case raced of Some row \<Rightarrow> returnS row | None \<Rightarrow> throwS e)
                  else throwS e))"

definition lockOrCreateAssistantStateRow :: "bool \<Rightarrow> abuse_attempt \<Rightarrow> (abuse_data, guard_row) oper" where
  "lockOrCreateAssistantStateRow raced i =
     bindS (lockAssistantStateRow False i) (\<lambda>existing.
       case existing of
         Some row \<Rightarrow> returnS row
       | None \<Rightarrow>
           catchS
             (\<lambda>d. if raced then (Inl uniqueViolation, d)
                  else (let row = bootstrapRow (aa_attemptedAt i)
                        in (Inr row, d\<lparr>assistantStates := (assistantStates d)(assistantKey i \<mapsto> row)\<rparr>)))
             (\<lambda>e. if e = uniqueViolation
                  then bindS (lockAssistantStateRow True i) (\<lambda>raced.
                         case raced of Some row \<Rightarrow> returnS row | None \<Rightarrow> throwS e)
                  else throwS e))"

text \<open>The row a decision leaves.\<close>

definition decidedRow :: "int \<Rightarrow> abuse_result \<Rightarrow> guard_row \<Rightarrow> guard_row" where
  "decidedRow attemptedAt res row =
     \<lparr>ga_windowStartedAt = layerWindow attemptedAt row, ga_requestCount = layerCount attemptedAt row,
      ga_slowedUntil = ar_finalSlowedUntil res, ga_blockedUntil = ar_finalBlockedUntil res,
      ga_blockReason = ar_finalReason res,
      ga_adminOverrideUntil = (if inFuture (ga_adminOverrideUntil row) attemptedAt then ga_adminOverrideUntil row else None),
      ga_lastSeenAt = attemptedAt\<rparr>"

definition combineDecisions :: "abuse_decision \<Rightarrow> abuse_decision \<Rightarrow> abuse_result" where
  "combineDecisions user assistant =
     \<lparr>ar_finalBlockedUntil = maxDate (ad_blockedUntil user) (ad_blockedUntil assistant),
      ar_finalSlowedUntil = maxDate (ad_slowedUntil user) (ad_slowedUntil assistant),
      ar_finalReason = (case ad_reason assistant of Some r \<Rightarrow> Some r | None \<Rightarrow> ad_reason user)\<rparr>"

definition registerDistributedAttemptTx ::
  "abuse_config \<Rightarrow> bool \<times> bool \<Rightarrow> abuse_attempt \<Rightarrow> (abuse_data, abuse_result) oper" where
  "registerDistributedAttemptTx cfg raced i =
     bindS (lockOrCreateUserStateRow (fst raced) i) (\<lambda>userState.
     bindS (lockOrCreateAssistantStateRow (snd raced) i) (\<lambda>assistantState d.
       (let res = combineDecisions (userDecision cfg (aa_attemptedAt i) userState)
                    (assistantDecision cfg (aa_attemptedAt i) assistantState)
        in (Inr res, d\<lparr>userStates := (userStates d)(userKey i \<mapsto> decidedRow (aa_attemptedAt i) res userState),
                       assistantStates := (assistantStates d)(assistantKey i \<mapsto>
                         decidedRow (aa_attemptedAt i) res assistantState)\<rparr>))))"

definition registerDistributedAttempt ::
  "(nat \<Rightarrow> bool) \<Rightarrow> (nat \<Rightarrow> bool \<times> bool) \<Rightarrow> abuse_config \<Rightarrow> abuse_attempt \<Rightarrow> (abuse_data database, abuse_result) oper" where
  "registerDistributedAttempt conflicts raced cfg i =
     withTransactionRetry conflicts ''register distributed abuse attempt''
       (\<lambda>k _. registerDistributedAttemptTx cfg (raced k) i)"

definition registerPeerAttempt ::
  "string \<Rightarrow> abuse_surface \<Rightarrow> string \<Rightarrow> int \<Rightarrow> int \<Rightarrow> (abuse_data database, peer_row) oper" where
  "registerPeerAttempt assistantId surface peerKey attemptedAt windowStartedAfter =
     tx (\<lambda>_ d.
       (let key = (assistantId, surface, peerKey);
            row = (case peerStates d key of
               None \<Rightarrow> \<lparr>pe_windowStartedAt = attemptedAt, pe_requestCount = 1, pe_adminOverrideUntil = None,
                        pe_lastSeenAt = attemptedAt\<rparr>
             | Some old \<Rightarrow> old\<lparr>
                 pe_windowStartedAt := (if pe_windowStartedAt old \<le> windowStartedAfter then attemptedAt else pe_windowStartedAt old),
                 pe_requestCount := (if pe_windowStartedAt old \<le> windowStartedAfter then 1 else pe_requestCount old + 1),
                 pe_lastSeenAt := attemptedAt\<rparr>)
        in (Inr row, d\<lparr>peerStates := (peerStates d)(key \<mapsto> row)\<rparr>)))"

definition unblockedRow :: "int \<Rightarrow> int \<Rightarrow> guard_row" where
  "unblockedRow now until = \<lparr>ga_windowStartedAt = now, ga_requestCount = 0, ga_slowedUntil = None, ga_blockedUntil = None,
     ga_blockReason = None, ga_adminOverrideUntil = Some until, ga_lastSeenAt = now\<rparr>"

text \<open>Two calls; the first is one statement over all matching rows. The counts answered for the audit log are left out.\<close>

definition applyAdminUnblock ::
  "string \<Rightarrow> string option \<Rightarrow> abuse_surface \<Rightarrow> int \<Rightarrow> (abuse_data database, unit) oper" where
  "applyAdminUnblock assistantId userId surface until =
     bindS (tx (\<lambda>now d. (Inr (), d\<lparr>userStates := (\<lambda>(a, u, sf).
        if a = assistantId \<and> sf = surface \<and> (userId = None \<or> userId = Some u)
        then map_option (\<lambda>_. unblockedRow now until) (userStates d (a, u, sf)) else userStates d (a, u, sf))\<rparr>))) (\<lambda>_.
     tx (\<lambda>now d. (Inr (), d\<lparr>assistantStates := (assistantStates d)((assistantId, surface) \<mapsto> unblockedRow now until)\<rparr>)))"

definition applyPeerAdminUnblock ::
  "string \<Rightarrow> abuse_surface \<Rightarrow> int \<Rightarrow> (abuse_data database, unit) oper" where
  "applyPeerAdminUnblock assistantId surface until =
     tx (\<lambda>now d. (Inr (), d\<lparr>peerStates := (\<lambda>(a, sf, p).
       if a = assistantId \<and> sf = surface
       then map_option (\<lambda>row. row\<lparr>pe_requestCount := 0, pe_windowStartedAt := now, pe_adminOverrideUntil := Some until,
              pe_lastSeenAt := now\<rparr>) (peerStates d (a, sf, p))
       else peerStates d (a, sf, p))\<rparr>))"

definition findUserState ::
  "string \<Rightarrow> string \<Rightarrow> abuse_surface \<Rightarrow> (abuse_data database, guard_row option) oper" where
  "findUserState assistantId userId surface = tx (\<lambda>_ d. (Inr (userStates d (assistantId, userId, surface)), d))"

definition findAssistantState :: "string \<Rightarrow> abuse_surface \<Rightarrow> (abuse_data database, guard_row option) oper" where
  "findAssistantState assistantId surface = tx (\<lambda>_ d. (Inr (assistantStates d (assistantId, surface)), d))"

definition upsertUserState ::
  "string \<Rightarrow> string \<Rightarrow> abuse_surface \<Rightarrow> guard_row \<Rightarrow> (abuse_data database, guard_row) oper" where
  "upsertUserState assistantId userId surface row =
     tx (\<lambda>_ d. (Inr row, d\<lparr>userStates := (userStates d)((assistantId, userId, surface) \<mapsto> row)\<rparr>))"

definition upsertAssistantState ::
  "string \<Rightarrow> abuse_surface \<Rightarrow> guard_row \<Rightarrow> (abuse_data database, guard_row) oper" where
  "upsertAssistantState assistantId surface row =
     tx (\<lambda>_ d. (Inr row, d\<lparr>assistantStates := (assistantStates d)((assistantId, surface) \<mapsto> row)\<rparr>))"

section \<open>The service\<close>

definition enforcePeerLimit ::
  "abuse_config \<Rightarrow> string \<Rightarrow> abuse_surface \<Rightarrow> string \<Rightarrow> int \<Rightarrow> (abuse_data database, unit) oper" where
  "enforcePeerLimit cfg assistantId surface peerKey now =
     bindS (registerPeerAttempt assistantId surface peerKey now (now - WINDOW_MS)) (\<lambda>peerState.
       if inFuture (pe_adminOverrideUntil peerState) now then returnS ()
       else if pe_requestCount peerState \<ge> ABUSE_PEER_BLOCK_REQUESTS_PER_MINUTE cfg
       then throwS (TooManyRequestsException ''Requests temporarily blocked for this peer due to rate-limit protection.'')
       else if pe_requestCount peerState \<ge> ABUSE_PEER_SLOWDOWN_REQUESTS_PER_MINUTE cfg
       then throwS (TooManyRequestsException ''Requests temporarily slowed for this peer due to rate-limit protection.'')
       else returnS ())"

text \<open>An absent and an empty peer key are the same.\<close>

definition enforceAndRegisterAttempt ::
  "(nat \<Rightarrow> bool) \<Rightarrow> (nat \<Rightarrow> bool \<times> bool) \<Rightarrow> abuse_config \<Rightarrow> string \<Rightarrow> string \<Rightarrow> abuse_surface \<Rightarrow> string \<Rightarrow>
   (abuse_data database, unit) oper" where
  "enforceAndRegisterAttempt conflicts raced cfg assistantId userId surface peerKey s =
     (let now = dbNow s in
      bindS (if peerKey = [] then returnS () else enforcePeerLimit cfg assistantId surface peerKey now) (\<lambda>_.
      bindS (registerDistributedAttempt conflicts raced cfg
               \<lparr>aa_assistantId = assistantId, aa_userId = userId, aa_surface = surface, aa_attemptedAt = now\<rparr>) (\<lambda>registered.
        if inFuture (ar_finalBlockedUntil registered) now
        then throwS (TooManyRequestsException ''Requests temporarily blocked due to abuse/rate-limit protection.'')
        else if inFuture (ar_finalSlowedUntil registered) now
        then throwS (TooManyRequestsException ''Requests temporarily slowed due to abuse/rate-limit protection.'')
        else returnS ())) s)"

section \<open>What an attempt leaves\<close>

definition userRow :: "abuse_attempt \<Rightarrow> abuse_data \<Rightarrow> guard_row" where
  "userRow i d = (case userStates d (userKey i) of Some row \<Rightarrow> row | None \<Rightarrow> bootstrapRow (aa_attemptedAt i))"

definition assistantRow :: "abuse_attempt \<Rightarrow> abuse_data \<Rightarrow> guard_row" where
  "assistantRow i d = (case assistantStates d (assistantKey i) of Some row \<Rightarrow> row | None \<Rightarrow> bootstrapRow (aa_attemptedAt i))"

definition registration :: "abuse_config \<Rightarrow> abuse_attempt \<Rightarrow> abuse_data \<Rightarrow> abuse_result" where
  "registration cfg i d = combineDecisions (userDecision cfg (aa_attemptedAt i) (userRow i d))
     (assistantDecision cfg (aa_attemptedAt i) (assistantRow i d))"

definition registered :: "abuse_config \<Rightarrow> abuse_attempt \<Rightarrow> abuse_data \<Rightarrow> abuse_data" where
  "registered cfg i d =
     d\<lparr>userStates := (userStates d)(userKey i \<mapsto> decidedRow (aa_attemptedAt i) (registration cfg i d) (userRow i d)),
       assistantStates := (assistantStates d)(assistantKey i \<mapsto>
         decidedRow (aa_attemptedAt i) (registration cfg i d) (assistantRow i d))\<rparr>"

lemma lockOrCreateUser_result:
  "lockOrCreateUserStateRow raced i d = (Inr row, d') \<Longrightarrow>
     row = userRow i d \<and> d' = d\<lparr>userStates := (userStates d)(userKey i \<mapsto> row)\<rparr>"
  by (auto simp: lockOrCreateUserStateRow_def lockUserStateRow_def userRow_def bindS_def catchS_def returnS_def throwS_def
        Let_def map_upd_triv split: option.splits if_splits prod.splits sum.splits)

lemma lockOrCreateAssistant_result:
  "lockOrCreateAssistantStateRow raced i d = (Inr row, d') \<Longrightarrow>
     row = assistantRow i d \<and> d' = d\<lparr>assistantStates := (assistantStates d)(assistantKey i \<mapsto> row)\<rparr>"
  by (auto simp: lockOrCreateAssistantStateRow_def lockAssistantStateRow_def assistantRow_def bindS_def catchS_def returnS_def
        throwS_def Let_def map_upd_triv split: option.splits if_splits prod.splits sum.splits)

lemma registerTx_result:
  assumes "registerDistributedAttemptTx cfg raced i d = (Inr res, d')"
  shows "res = registration cfg i d \<and> d' = registered cfg i d"
proof -
  from assms obtain u d1 v d2 where 1: "lockOrCreateUserStateRow (fst raced) i d = (Inr u, d1)"
    and 2: "lockOrCreateAssistantStateRow (snd raced) i d1 = (Inr v, d2)"
    and 3: "res = combineDecisions (userDecision cfg (aa_attemptedAt i) u) (assistantDecision cfg (aa_attemptedAt i) v)"
    "d' = d2\<lparr>userStates := (userStates d2)(userKey i \<mapsto> decidedRow (aa_attemptedAt i) res u),
       assistantStates := (assistantStates d2)(assistantKey i \<mapsto> decidedRow (aa_attemptedAt i) res v)\<rparr>"
    by (auto simp: registerDistributedAttemptTx_def bindS_def Let_def split: prod.splits sum.splits)
  from lockOrCreateUser_result [OF 1] lockOrCreateAssistant_result [OF 2] have
    "u = userRow i d" "v = assistantRow i d" "d2 = d\<lparr>userStates := (userStates d)(userKey i \<mapsto> u),
       assistantStates := (assistantStates d)(assistantKey i \<mapsto> v)\<rparr>"
    by (auto simp: assistantRow_def)
  with 3 show ?thesis by (simp add: registration_def registered_def)
qed

lemma distributed_effect:
  assumes "registerDistributedAttempt conflicts raced cfg i s = (r, t)"
  obtains (refused) "isl r" "dbData t = dbData s" "dbNow t = dbNow s"
  | (registered) "dbData t = registered cfg i (dbData s)" "dbNow t = dbNow s"
      "r = Inr (registration cfg i (dbData s)) \<or> isl r"
proof -
  from transaction_retried [OF assms [unfolded registerDistributedAttempt_def]]
  have "dbNow t = dbNow s" and "isl r \<and> dbData t = dbData s \<or>
      (\<exists>k a. registerDistributedAttemptTx cfg (raced k) i (dbData s) = (Inr a, dbData t) \<and> (r = Inr a \<or> r = Inl unavailable))"
    by (auto simp: retried_def)
  then show thesis using that registerTx_result by fastforce
qed

text \<open>The decision of a layer refuses an attempt whose count reaches the slowdown threshold.\<close>

definition refused :: "abuse_result \<Rightarrow> int \<Rightarrow> bool" where
  "refused res now \<longleftrightarrow> inFuture (ar_finalBlockedUntil res) now \<or> inFuture (ar_finalSlowedUntil res) now"

definition validConfig :: "abuse_config \<Rightarrow> bool" where
  "validConfig cfg \<longleftrightarrow> 0 < ABUSE_USER_SLOWDOWN_REQUESTS_PER_MINUTE cfg \<and> 0 < ABUSE_USER_BLOCK_REQUESTS_PER_MINUTE cfg \<and>
     0 < ABUSE_ASSISTANT_SLOWDOWN_REQUESTS_PER_MINUTE cfg \<and> 0 < ABUSE_ASSISTANT_BLOCK_REQUESTS_PER_MINUTE cfg \<and>
     0 < ABUSE_PEER_SLOWDOWN_REQUESTS_PER_MINUTE cfg \<and> 0 < ABUSE_PEER_BLOCK_REQUESTS_PER_MINUTE cfg \<and>
     0 < ABUSE_SLOWDOWN_SECONDS cfg \<and> 0 < ABUSE_TEMP_BLOCK_SECONDS cfg"

lemma inFuture_maxDate: "inFuture (maxDate a b) now \<longleftrightarrow> inFuture a now \<or> inFuture b now"
  by (induction a b rule: maxDate.induct) (auto simp: inFuture_def split: option.splits)

lemma refused_combine:
  "refused (combineDecisions u v) now \<longleftrightarrow>
     inFuture (ad_blockedUntil u) now \<or> inFuture (ad_slowedUntil u) now \<or>
     inFuture (ad_blockedUntil v) now \<or> inFuture (ad_slowedUntil v) now"
  by (auto simp: refused_def combineDecisions_def inFuture_maxDate)

lemma layer_refuses:
  assumes "validConfig cfg" "ga_adminOverrideUntil row = None" "slowAt \<le> layerCount now row"
  shows "inFuture (ad_blockedUntil (layerDecision b sl blockAt slowAt cfg now row)) now \<or>
    inFuture (ad_slowedUntil (layerDecision b sl blockAt slowAt cfg now row)) now"
  using assms by (auto simp: layerDecision_def inFuture_def validConfig_def)

lemma attempt_result:
  assumes "enforceAndRegisterAttempt conflicts raced cfg ai ui sf pk s = (r, t)"
  obtains (peer_refused) "isl r" "pk \<noteq> []" "enforcePeerLimit cfg ai sf pk (dbNow s) s = (r, t)"
  | (passed) s1 r1 where "if pk = [] then s1 = s else enforcePeerLimit cfg ai sf pk (dbNow s) s = (Inr (), s1)"
      "registerDistributedAttempt conflicts raced cfg
         \<lparr>aa_assistantId = ai, aa_userId = ui, aa_surface = sf, aa_attemptedAt = dbNow s\<rparr> s1 = (r1, t)"
      "isl r1 \<Longrightarrow> isl r" "\<And>res. r1 = Inr res \<Longrightarrow> isl r \<longleftrightarrow> refused res (dbNow s)"
  using assms
  by (cases "pk = []")
    (auto simp: enforceAndRegisterAttempt_def Let_def bindS_def returnS_def throwS_def refused_def
      split: prod.splits sum.splits if_splits)

definition peerRow :: "string \<times> abuse_surface \<times> string \<Rightarrow> int \<Rightarrow> abuse_data \<Rightarrow> peer_row" where
  "peerRow key now d = (case peerStates d key of
     None \<Rightarrow> \<lparr>pe_windowStartedAt = now, pe_requestCount = 1, pe_adminOverrideUntil = None, pe_lastSeenAt = now\<rparr>
   | Some old \<Rightarrow> old\<lparr>
       pe_windowStartedAt := (if pe_windowStartedAt old \<le> now - WINDOW_MS then now else pe_windowStartedAt old),
       pe_requestCount := (if pe_windowStartedAt old \<le> now - WINDOW_MS then 1 else pe_requestCount old + 1),
       pe_lastSeenAt := now\<rparr>)"

lemma registerPeerAttempt_row:
  "registerPeerAttempt ai sf pk now (now - WINDOW_MS) = tx (\<lambda>_ d. (Inr (peerRow (ai, sf, pk) now d),
     d\<lparr>peerStates := (peerStates d)((ai, sf, pk) \<mapsto> peerRow (ai, sf, pk) now d)\<rparr>))"
  by (simp add: registerPeerAttempt_def peerRow_def Let_def)

lemma peer_effect:
  assumes "enforcePeerLimit cfg ai sf pk now s = (r, t)"
  obtains (failed) "isl r" "dbData t = dbData s" "dbNow t = dbNow s"
  | (counted) "dbNow t = dbNow s"
      "dbData t = (dbData s)\<lparr>peerStates := (peerStates (dbData s))((ai, sf, pk) \<mapsto> peerRow (ai, sf, pk) now (dbData s))\<rparr>"
      "isl r \<or> inFuture (pe_adminOverrideUntil (peerRow (ai, sf, pk) now (dbData s))) now \<or>
         pe_requestCount (peerRow (ai, sf, pk) now (dbData s)) < ABUSE_PEER_SLOWDOWN_REQUESTS_PER_MINUTE cfg"
proof -
  let ?row = "peerRow (ai, sf, pk) now (dbData s)"
  from assms obtain r1 s1 where 1: "registerPeerAttempt ai sf pk now (now - WINDOW_MS) s = (r1, s1)"
    and 2: "case r1 of Inl e \<Rightarrow> r = Inl e \<and> t = s1
      | Inr row \<Rightarrow> t = s1 \<and> (isl r \<or> inFuture (pe_adminOverrideUntil row) now \<or>
          pe_requestCount row < ABUSE_PEER_SLOWDOWN_REQUESTS_PER_MINUTE cfg)"
    by (auto simp: enforcePeerLimit_def bindS_def returnS_def throwS_def split: prod.splits sum.splits if_splits)
  from 1 show thesis unfolding registerPeerAttempt_row
  proof (cases rule: tx_cases)
    case rolled_back
    then show ?thesis using 2 that(1) by simp
  next
    case (committed row)
    then have "row = ?row \<and> dbData s1 = (dbData s)\<lparr>peerStates := (peerStates (dbData s))((ai, sf, pk) \<mapsto> ?row)\<rparr>"
      by auto
    with committed 2 that(2) show ?thesis by (auto split: sum.splits)
  qed
qed

section \<open>How many attempts are served\<close>

record inbound_request =
  ir_assistantId :: string
  ir_userId :: string
  ir_surface :: abuse_surface
  ir_peerKey :: string

text \<open>Any inbound request at instant \<open>a\<close>, with any failures, races and retries; \<open>ok\<close>: it was let through.\<close>

inductive abuseCall ::
  "abuse_config \<Rightarrow> inbound_request \<Rightarrow> int \<Rightarrow> bool \<Rightarrow> abuse_data database \<Rightarrow> abuse_data database \<Rightarrow> bool" for cfg where
  attempt: "validConfig cfg \<Longrightarrow>
    enforceAndRegisterAttempt conflicts raced cfg (ir_assistantId c) (ir_userId c) (ir_surface c) (ir_peerKey c)
      (s\<lparr>dbNow := a\<rparr>) = (r, t) \<Longrightarrow> ok = (\<not> isl r) \<Longrightarrow> abuseCall cfg c a ok s t"

inductive_cases abuseCallE: "abuseCall cfg c a ok s t"

definition unoverridden :: "abuse_data database \<Rightarrow> bool" where
  "unoverridden s \<longleftrightarrow> (\<forall>row \<in> ran (userStates (dbData s)). ga_adminOverrideUntil row = None) \<and>
     (\<forall>row \<in> ran (assistantStates (dbData s)). ga_adminOverrideUntil row = None) \<and>
     (\<forall>row \<in> ran (peerStates (dbData s)). pe_adminOverrideUntil row = None)"

definition guardWindow :: "guard_row \<Rightarrow> int \<times> int" where
  "guardWindow row = (ga_windowStartedAt row, ga_requestCount row)"

definition userWindow :: "abuse_data database \<Rightarrow> string \<times> string \<times> abuse_surface \<Rightarrow> (int \<times> int) option" where
  "userWindow s k = map_option guardWindow (userStates (dbData s) k)"

definition assistantWindow :: "abuse_data database \<Rightarrow> string \<times> abuse_surface \<Rightarrow> (int \<times> int) option" where
  "assistantWindow s k = map_option guardWindow (assistantStates (dbData s) k)"

definition peerWindow :: "abuse_data database \<Rightarrow> string \<times> abuse_surface \<times> string \<Rightarrow> (int \<times> int) option" where
  "peerWindow s k = map_option (\<lambda>row. (pe_windowStartedAt row, pe_requestCount row)) (peerStates (dbData s) k)"

definition requestUser :: "inbound_request \<Rightarrow> (string \<times> string \<times> abuse_surface) option" where
  "requestUser c = Some (ir_assistantId c, ir_userId c, ir_surface c)"

definition requestAssistant :: "inbound_request \<Rightarrow> (string \<times> abuse_surface) option" where
  "requestAssistant c = Some (ir_assistantId c, ir_surface c)"

definition requestPeer :: "inbound_request \<Rightarrow> (string \<times> abuse_surface \<times> string) option" where
  "requestPeer c = (if ir_peerKey c = [] then None else Some (ir_assistantId c, ir_surface c, ir_peerKey c))"

text \<open>The effect of one request on the three tables.\<close>

definition attemptOf :: "inbound_request \<Rightarrow> int \<Rightarrow> abuse_attempt" where
  "attemptOf c a = \<lparr>aa_assistantId = ir_assistantId c, aa_userId = ir_userId c, aa_surface = ir_surface c, aa_attemptedAt = a\<rparr>"

lemma peerRow_override:
  assumes "unoverridden s"
  shows "\<not> inFuture (pe_adminOverrideUntil (peerRow k a (dbData s))) n"
proof (cases "peerStates (dbData s) k")
  case None
  then show ?thesis by (simp add: peerRow_def inFuture_def)
next
  case (Some row)
  then have "row \<in> ran (peerStates (dbData s))" by (rule ranI)
  with assms have "pe_adminOverrideUntil row = None" by (simp add: unoverridden_def)
  with Some show ?thesis by (simp add: peerRow_def inFuture_def)
qed

lemma abuseCall_effect:
  assumes "abuseCall cfg c a ok s t" "unoverridden s"
  shows "(peerStates (dbData t) = peerStates (dbData s) \<and> (ok \<longrightarrow> requestPeer c = None) \<or>
      (\<exists>k. requestPeer c = Some k \<and> peerStates (dbData t) = (peerStates (dbData s))(k \<mapsto> peerRow k a (dbData s)) \<and>
        (ok \<longrightarrow> pe_requestCount (peerRow k a (dbData s)) < ABUSE_PEER_SLOWDOWN_REQUESTS_PER_MINUTE cfg))) \<and>
    (userStates (dbData t) = userStates (dbData s) \<and> assistantStates (dbData t) = assistantStates (dbData s) \<and> \<not> ok \<or>
     userStates (dbData t) = userStates (registered cfg (attemptOf c a) (dbData s)) \<and>
     assistantStates (dbData t) = assistantStates (registered cfg (attemptOf c a) (dbData s)) \<and>
     (ok \<longrightarrow> \<not> refused (registration cfg (attemptOf c a) (dbData s)) a))"
proof -
  from assms(1) obtain conflicts raced r where
    e: "enforceAndRegisterAttempt conflicts raced cfg (ir_assistantId c) (ir_userId c) (ir_surface c) (ir_peerKey c)
      (s\<lparr>dbNow := a\<rparr>) = (r, t)" and ok: "ok = (\<not> isl r)" by (elim abuseCallE) blast
  from e show ?thesis
  proof (cases rule: attempt_result)
    case peer_refused
    from peer_refused(3) show ?thesis by (cases rule: peer_effect) (use peer_refused ok in \<open>auto simp: requestPeer_def\<close>)
  next
    case (passed s1 r1)
    let ?k = "(ir_assistantId c, ir_surface c, ir_peerKey c)"
    have p: "userStates (dbData s1) = userStates (dbData s) \<and> assistantStates (dbData s1) = assistantStates (dbData s) \<and>
      (peerStates (dbData s1) = peerStates (dbData s) \<and> requestPeer c = None \<or>
       requestPeer c = Some ?k \<and> peerStates (dbData s1) = (peerStates (dbData s))(?k \<mapsto> peerRow ?k a (dbData s)) \<and>
       pe_requestCount (peerRow ?k a (dbData s)) < ABUSE_PEER_SLOWDOWN_REQUESTS_PER_MINUTE cfg)"
    proof (cases "ir_peerKey c = []")
      case True
      with passed(1) show ?thesis by (simp add: requestPeer_def)
    next
      case False
      with passed(1) have "enforcePeerLimit cfg (ir_assistantId c) (ir_surface c) (ir_peerKey c) a (s\<lparr>dbNow := a\<rparr>) = (Inr (), s1)"
        by simp
      then show ?thesis
        by (cases rule: peer_effect) (use False peerRow_override [OF assms(2)] in \<open>auto simp: requestPeer_def\<close>)
    qed
    have same: "registered cfg (attemptOf c a) (dbData s1) = registered cfg (attemptOf c a) (dbData s) \<lparr>peerStates := peerStates (dbData s1)\<rparr>"
      "registration cfg (attemptOf c a) (dbData s1) = registration cfg (attemptOf c a) (dbData s)"
      using p by (simp_all add: registered_def registration_def userRow_def assistantRow_def)
    from passed(2) show ?thesis
    proof (cases rule: distributed_effect)
      case refused
      then show ?thesis using p ok passed(3) by auto
    next
      case registered
      then have "dbData t = registered cfg (attemptOf c a) (dbData s1)"
        "r1 = Inr (registration cfg (attemptOf c a) (dbData s1)) \<or> isl r1" by (simp_all add: attemptOf_def)
      with p same ok passed(3,4) show ?thesis by (auto simp: registered_def)
    qed
  qed
qed

lemma ran_stored: "\<forall>x \<in> ran m. P x \<Longrightarrow> P b \<Longrightarrow> P (case m k of Some x \<Rightarrow> x | None \<Rightarrow> b)"
  by (cases "m k") (auto intro: ranI)

lemma row_override:
  assumes "unoverridden s"
  shows "ga_adminOverrideUntil (userRow i (dbData s)) = None" "ga_adminOverrideUntil (assistantRow i (dbData s)) = None"
  unfolding userRow_def assistantRow_def
  by (rule ran_stored [where P = "\<lambda>row. ga_adminOverrideUntil row = None"];
      use assms in \<open>simp add: unoverridden_def bootstrapRow_def\<close>)+

lemma decidedRow_override: "ga_adminOverrideUntil row = None \<Longrightarrow> ga_adminOverrideUntil (decidedRow a res row) = None"
  by (simp add: decidedRow_def)

lemma ran_upd: "(\<forall>x \<in> ran m. P x) \<Longrightarrow> P v \<Longrightarrow> \<forall>x \<in> ran (m(k \<mapsto> v)). P x"
  by (auto simp: ran_def)

lemma abuseCall_unoverridden:
  assumes c: "abuseCall cfg c a ok s t" and s: "unoverridden s"
  shows "unoverridden t"
proof -
  note E = abuseCall_effect [OF c s]
  have p: "pe_adminOverrideUntil (peerRow k a (dbData s)) = None" for k
  proof (cases "peerStates (dbData s) k")
    case (Some row)
    then have "row \<in> ran (peerStates (dbData s))" by (rule ranI)
    with s Some show ?thesis by (simp add: unoverridden_def peerRow_def)
  qed (simp add: peerRow_def)
  have "\<forall>row \<in> ran (peerStates (dbData t)). pe_adminOverrideUntil row = None"
  proof -
    from E consider "peerStates (dbData t) = peerStates (dbData s)"
      | k where "peerStates (dbData t) = (peerStates (dbData s))(k \<mapsto> peerRow k a (dbData s))" by blast
    then show ?thesis
    proof cases
      case 1
      with s show ?thesis by (simp add: unoverridden_def)
    next
      case 2
      show ?thesis unfolding 2 by (rule ran_upd) (use s p in \<open>simp_all add: unoverridden_def\<close>)
    qed
  qed
  moreover have "(\<forall>row \<in> ran (userStates (dbData t)). ga_adminOverrideUntil row = None) \<and>
      (\<forall>row \<in> ran (assistantStates (dbData t)). ga_adminOverrideUntil row = None)"
  proof -
    from E consider "userStates (dbData t) = userStates (dbData s)" "assistantStates (dbData t) = assistantStates (dbData s)"
      | "userStates (dbData t) = userStates (registered cfg (attemptOf c a) (dbData s))"
        "assistantStates (dbData t) = assistantStates (registered cfg (attemptOf c a) (dbData s))" by blast
    then show ?thesis
    proof cases
      case 1
      with s show ?thesis by (simp add: unoverridden_def)
    next
      case 2
      have u: "\<forall>row \<in> ran ((userStates (dbData s))(key \<mapsto> decidedRow n res (userRow i (dbData s)))). ga_adminOverrideUntil row = None"
        for key n res i by (rule ran_upd) (use s in \<open>simp_all add: unoverridden_def decidedRow_override row_override [OF s]\<close>)
      have v: "\<forall>row \<in> ran ((assistantStates (dbData s))(key \<mapsto> decidedRow n res (assistantRow i (dbData s)))). ga_adminOverrideUntil row = None"
        for key n res i by (rule ran_upd) (use s in \<open>simp_all add: unoverridden_def decidedRow_override row_override [OF s]\<close>)
      show ?thesis unfolding 2 registered_def using u v by simp
    qed
  qed
  ultimately show ?thesis by (simp add: unoverridden_def)
qed

text \<open>One layer counts as the contract asks.\<close>

lemma layer_counts:
  assumes "case m of Some row \<Rightarrow> ga_windowStartedAt row < a | None \<Rightarrow> True"
  shows "let row = (case m of Some row \<Rightarrow> row | None \<Rightarrow> bootstrapRow a); w = layerWindow a row; n = layerCount a row in
     w = a \<and> n = 1 \<and> (\<forall>w' n'. map_option guardWindow m = Some (w', n') \<longrightarrow> w' + WINDOW_MS \<le> a) \<or>
     map_option guardWindow m = Some (w, n - 1) \<and> a \<le> w + WINDOW_MS"
  using assms
  by (auto simp: layerWindow_def layerCount_def bootstrapRow_def WINDOW_MS_def guardWindow_def Let_def split: option.splits)

lemma userWindow_fresh:
  "\<forall>w n. map_option guardWindow m = Some (w, n) \<longrightarrow> w < a \<Longrightarrow>
     case m of Some row \<Rightarrow> ga_windowStartedAt row < a | None \<Rightarrow> True"
  by (cases m) (simp_all add: guardWindow_def)

lemma not_refused_counts:
  assumes "validConfig cfg" "unoverridden s" "\<not> refused (registration cfg i (dbData s)) (aa_attemptedAt i)"
  shows "layerCount (aa_attemptedAt i) (userRow i (dbData s)) < ABUSE_USER_SLOWDOWN_REQUESTS_PER_MINUTE cfg"
    and "layerCount (aa_attemptedAt i) (assistantRow i (dbData s)) < ABUSE_ASSISTANT_SLOWDOWN_REQUESTS_PER_MINUTE cfg"
  using assms(3) layer_refuses [OF assms(1) row_override(1) [OF assms(2)]] layer_refuses [OF assms(1) row_override(2) [OF assms(2)]]
  unfolding registration_def refused_combine userDecision_def assistantDecision_def by (meson not_less)+

lemma guardWindow_decided: "guardWindow (decidedRow a res row) = (layerWindow a row, layerCount a row)"
  by (simp add: guardWindow_def decidedRow_def)

lemma attemptOf_keys [simp]:
  "userKey (attemptOf c a) = (ir_assistantId c, ir_userId c, ir_surface c)"
  "assistantKey (attemptOf c a) = (ir_assistantId c, ir_surface c)" "aa_attemptedAt (attemptOf c a) = a"
  by (simp_all add: attemptOf_def userKey_def assistantKey_def)

lemma attemptOf_rows:
  "userRow (attemptOf c a) d = (case userStates d (userKey (attemptOf c a)) of Some row \<Rightarrow> row | None \<Rightarrow> bootstrapRow a)"
  "assistantRow (attemptOf c a) d =
     (case assistantStates d (assistantKey (attemptOf c a)) of Some row \<Rightarrow> row | None \<Rightarrow> bootstrapRow a)"
  unfolding userRow_def assistantRow_def attemptOf_keys(3) by (rule refl)+

lemma user_counts:
  assumes c: "abuseCall cfg c a ok s t" and s: "unoverridden s" and k: "requestUser c = Some k"
    and f: "\<forall>w n. userWindow s k = Some (w, n) \<longrightarrow> w < a"
  shows "\<not> ok \<and> userWindow t k = userWindow s k \<or>
    (\<exists>w n. userWindow t k = Some (w, n) \<and> (ok \<longrightarrow> n < max 1 (ABUSE_USER_SLOWDOWN_REQUESTS_PER_MINUTE cfg)) \<and>
      (w = a \<and> n = 1 \<and> (\<forall>w' n'. userWindow s k = Some (w', n') \<longrightarrow> w' + WINDOW_MS \<le> a) \<or>
       userWindow s k = Some (w, n - 1) \<and> a \<le> w + WINDOW_MS))"
proof -
  have v: "validConfig cfg" using c by (elim abuseCallE)
  from abuseCall_effect [OF c s] consider "userStates (dbData t) = userStates (dbData s)" "\<not> ok"
    | "userStates (dbData t) = userStates (registered cfg (attemptOf c a) (dbData s))"
      "ok \<Longrightarrow> \<not> refused (registration cfg (attemptOf c a) (dbData s)) a" by blast
  then show ?thesis
  proof cases
    case 1
    then show ?thesis by (simp add: userWindow_def)
  next
    case 2
    let ?row = "userRow (attemptOf c a) (dbData s)"
    have kk: "k = userKey (attemptOf c a)" using k by (simp add: requestUser_def)
    have t: "userWindow t k = Some (layerWindow a ?row, layerCount a ?row)"
      using 2(1) kk by (simp add: userWindow_def registered_def guardWindow_decided)
    moreover have "ok \<longrightarrow> layerCount a ?row < max 1 (ABUSE_USER_SLOWDOWN_REQUESTS_PER_MINUTE cfg)"
      using not_refused_counts(1) [OF v s, of "attemptOf c a"] 2(2) by auto
    moreover have "layerWindow a ?row = a \<and> layerCount a ?row = 1 \<and> (\<forall>w' n'. userWindow s k = Some (w', n') \<longrightarrow> w' + WINDOW_MS \<le> a) \<or>
       userWindow s k = Some (layerWindow a ?row, layerCount a ?row - 1) \<and> a \<le> layerWindow a ?row + WINDOW_MS"
      using layer_counts [OF userWindow_fresh, of "userStates (dbData s) k" a] f
      unfolding Let_def attemptOf_rows kk userWindow_def by blast
    ultimately show ?thesis by blast
  qed
qed

lemma assistant_counts:
  assumes c: "abuseCall cfg c a ok s t" and s: "unoverridden s" and k: "requestAssistant c = Some k"
    and f: "\<forall>w n. assistantWindow s k = Some (w, n) \<longrightarrow> w < a"
  shows "\<not> ok \<and> assistantWindow t k = assistantWindow s k \<or>
    (\<exists>w n. assistantWindow t k = Some (w, n) \<and> (ok \<longrightarrow> n < max 1 (ABUSE_ASSISTANT_SLOWDOWN_REQUESTS_PER_MINUTE cfg)) \<and>
      (w = a \<and> n = 1 \<and> (\<forall>w' n'. assistantWindow s k = Some (w', n') \<longrightarrow> w' + WINDOW_MS \<le> a) \<or>
       assistantWindow s k = Some (w, n - 1) \<and> a \<le> w + WINDOW_MS))"
proof -
  have v: "validConfig cfg" using c by (elim abuseCallE)
  from abuseCall_effect [OF c s] consider "assistantStates (dbData t) = assistantStates (dbData s)" "\<not> ok"
    | "assistantStates (dbData t) = assistantStates (registered cfg (attemptOf c a) (dbData s))"
      "ok \<Longrightarrow> \<not> refused (registration cfg (attemptOf c a) (dbData s)) a" by blast
  then show ?thesis
  proof cases
    case 1
    then show ?thesis by (simp add: assistantWindow_def)
  next
    case 2
    let ?row = "assistantRow (attemptOf c a) (dbData s)"
    have kk: "k = assistantKey (attemptOf c a)" using k by (simp add: requestAssistant_def)
    have t: "assistantWindow t k = Some (layerWindow a ?row, layerCount a ?row)"
      using 2(1) kk by (simp add: assistantWindow_def registered_def guardWindow_decided)
    moreover have "ok \<longrightarrow> layerCount a ?row < max 1 (ABUSE_ASSISTANT_SLOWDOWN_REQUESTS_PER_MINUTE cfg)"
      using not_refused_counts(2) [OF v s, of "attemptOf c a"] 2(2) by auto
    moreover have "layerWindow a ?row = a \<and> layerCount a ?row = 1 \<and> (\<forall>w' n'. assistantWindow s k = Some (w', n') \<longrightarrow> w' + WINDOW_MS \<le> a) \<or>
       assistantWindow s k = Some (layerWindow a ?row, layerCount a ?row - 1) \<and> a \<le> layerWindow a ?row + WINDOW_MS"
      using layer_counts [OF userWindow_fresh, of "assistantStates (dbData s) k" a] f
      unfolding Let_def attemptOf_rows kk assistantWindow_def by blast
    ultimately show ?thesis by blast
  qed
qed

lemma peer_counts:
  assumes c: "abuseCall cfg c a ok s t" and s: "unoverridden s" and k: "requestPeer c = Some k"
    and f: "\<forall>w n. peerWindow s k = Some (w, n) \<longrightarrow> w < a"
  shows "\<not> ok \<and> peerWindow t k = peerWindow s k \<or>
    (\<exists>w n. peerWindow t k = Some (w, n) \<and> (ok \<longrightarrow> n < max 1 (ABUSE_PEER_SLOWDOWN_REQUESTS_PER_MINUTE cfg)) \<and>
      (w = a \<and> n = 1 \<and> (\<forall>w' n'. peerWindow s k = Some (w', n') \<longrightarrow> w' + WINDOW_MS \<le> a) \<or>
       peerWindow s k = Some (w, n - 1) \<and> a \<le> w + WINDOW_MS))"
proof -
  from abuseCall_effect [OF c s] k consider "peerStates (dbData t) = peerStates (dbData s)" "\<not> ok"
    | "peerStates (dbData t) = (peerStates (dbData s))(k \<mapsto> peerRow k a (dbData s))"
      "ok \<longrightarrow> pe_requestCount (peerRow k a (dbData s)) < ABUSE_PEER_SLOWDOWN_REQUESTS_PER_MINUTE cfg" by auto
  then show ?thesis
  proof cases
    case 1
    then show ?thesis by (simp add: peerWindow_def)
  next
    case 2
    then show ?thesis using f
      by (cases "peerStates (dbData s) k") (auto simp: peerWindow_def peerRow_def WINDOW_MS_def)
  qed
qed

interpretation user_limit: window_limit WINDOW_MS "max 1 (ABUSE_USER_SLOWDOWN_REQUESTS_PER_MINUTE cfg)" unoverridden userWindow
  requestUser "abuseCall cfg" for cfg
proof unfold_locales
  fix c a ok s t and k :: "string \<times> string \<times> abuse_surface"
  assume c: "abuseCall cfg c a ok s t" and s: "unoverridden s"
  then show "unoverridden t" by (rule abuseCall_unoverridden)
  show "requestUser c \<noteq> Some k \<Longrightarrow> userWindow t k = userWindow s k"
    using abuseCall_effect [OF c s] by (auto simp: userWindow_def requestUser_def registered_def)
  show "requestUser c = Some k \<Longrightarrow> \<forall>w n. userWindow s k = Some (w, n) \<longrightarrow> w < a \<Longrightarrow> \<not> ok \<and> userWindow t k = userWindow s k \<or>
    (\<exists>w n. userWindow t k = Some (w, n) \<and> (ok \<longrightarrow> n < max 1 (ABUSE_USER_SLOWDOWN_REQUESTS_PER_MINUTE cfg)) \<and>
      (w = a \<and> n = 1 \<and> (\<forall>w' n'. userWindow s k = Some (w', n') \<longrightarrow> w' + WINDOW_MS \<le> a) \<or>
       userWindow s k = Some (w, n - 1) \<and> a \<le> w + WINDOW_MS))" by (rule user_counts [OF c s])
qed (simp_all add: WINDOW_MS_def)

interpretation assistant_limit: window_limit WINDOW_MS "max 1 (ABUSE_ASSISTANT_SLOWDOWN_REQUESTS_PER_MINUTE cfg)" unoverridden
  assistantWindow requestAssistant "abuseCall cfg" for cfg
proof unfold_locales
  fix c a ok s t and k :: "string \<times> abuse_surface"
  assume c: "abuseCall cfg c a ok s t" and s: "unoverridden s"
  then show "unoverridden t" by (rule abuseCall_unoverridden)
  show "requestAssistant c \<noteq> Some k \<Longrightarrow> assistantWindow t k = assistantWindow s k"
    using abuseCall_effect [OF c s] by (auto simp: assistantWindow_def requestAssistant_def registered_def)
  show "requestAssistant c = Some k \<Longrightarrow> \<forall>w n. assistantWindow s k = Some (w, n) \<longrightarrow> w < a \<Longrightarrow>
    \<not> ok \<and> assistantWindow t k = assistantWindow s k \<or>
    (\<exists>w n. assistantWindow t k = Some (w, n) \<and> (ok \<longrightarrow> n < max 1 (ABUSE_ASSISTANT_SLOWDOWN_REQUESTS_PER_MINUTE cfg)) \<and>
      (w = a \<and> n = 1 \<and> (\<forall>w' n'. assistantWindow s k = Some (w', n') \<longrightarrow> w' + WINDOW_MS \<le> a) \<or>
       assistantWindow s k = Some (w, n - 1) \<and> a \<le> w + WINDOW_MS))" by (rule assistant_counts [OF c s])
qed (simp_all add: WINDOW_MS_def)

interpretation peer_limit: window_limit WINDOW_MS "max 1 (ABUSE_PEER_SLOWDOWN_REQUESTS_PER_MINUTE cfg)" unoverridden peerWindow
  requestPeer "abuseCall cfg" for cfg
proof unfold_locales
  fix c a ok s t and k :: "string \<times> abuse_surface \<times> string"
  assume c: "abuseCall cfg c a ok s t" and s: "unoverridden s"
  then show "unoverridden t" by (rule abuseCall_unoverridden)
  show "requestPeer c \<noteq> Some k \<Longrightarrow> peerWindow t k = peerWindow s k"
    using abuseCall_effect [OF c s] by (auto simp: peerWindow_def)
  show "requestPeer c = Some k \<Longrightarrow> \<forall>w n. peerWindow s k = Some (w, n) \<longrightarrow> w < a \<Longrightarrow> \<not> ok \<and> peerWindow t k = peerWindow s k \<or>
    (\<exists>w n. peerWindow t k = Some (w, n) \<and> (ok \<longrightarrow> n < max 1 (ABUSE_PEER_SLOWDOWN_REQUESTS_PER_MINUTE cfg)) \<and>
      (w = a \<and> n = 1 \<and> (\<forall>w' n'. peerWindow s k = Some (w', n') \<longrightarrow> w' + WINDOW_MS \<le> a) \<or>
       peerWindow s k = Some (w, n - 1) \<and> a \<le> w + WINDOW_MS))" by (rule peer_counts [OF c s])
qed (simp_all add: WINDOW_MS_def)


definition defaultAbuseConfig :: abuse_config where
  "defaultAbuseConfig = \<lparr>ABUSE_USER_SLOWDOWN_REQUESTS_PER_MINUTE = 8, ABUSE_USER_BLOCK_REQUESTS_PER_MINUTE = 20,
     ABUSE_ASSISTANT_SLOWDOWN_REQUESTS_PER_MINUTE = 40, ABUSE_ASSISTANT_BLOCK_REQUESTS_PER_MINUTE = 120,
     ABUSE_PEER_SLOWDOWN_REQUESTS_PER_MINUTE = 5, ABUSE_PEER_BLOCK_REQUESTS_PER_MINUTE = 12,
     ABUSE_SLOWDOWN_SECONDS = 15, ABUSE_TEMP_BLOCK_SECONDS = 300\<rparr>"

definition emptyAbuseDb :: "abuse_data database" where
  "emptyAbuseDb = \<lparr>dbNow = 0, dbData = \<lparr>userStates = Map.empty, assistantStates = Map.empty, peerStates = Map.empty\<rparr>,
     dbCount = 0, dbFault = (\<lambda>_. NoFault)\<rparr>"

definition sampleRequest :: inbound_request where
  "sampleRequest = \<lparr>ir_assistantId = ''a1'', ir_userId = ''u1'', ir_surface = Telegram, ir_peerKey = ''p1''\<rparr>"

definition sampleAttempt :: "int \<Rightarrow> abuse_data database \<Rightarrow> unit outcome \<times> abuse_data database" where
  "sampleAttempt a s = enforceAndRegisterAttempt (\<lambda>_. False) (\<lambda>_. (False, False)) defaultAbuseConfig
     (ir_assistantId sampleRequest) (ir_userId sampleRequest) (ir_surface sampleRequest) (ir_peerKey sampleRequest)
     (s\<lparr>dbNow := a\<rparr>)"

lemmas abuse_eval = enforceAndRegisterAttempt_def enforcePeerLimit_def registerPeerAttempt_def registerDistributedAttempt_def
  withTransactionRetry_def attemptTx_def tx_def transactionS_def registerDistributedAttemptTx_def lockOrCreateUserStateRow_def
  lockOrCreateAssistantStateRow_def lockUserStateRow_def lockAssistantStateRow_def bindS_def catchS_def returnS_def throwS_def
  inFuture_def bootstrapRow_def decidedRow_def combineDecisions_def userDecision_def assistantDecision_def layerDecision_def
  layerCount_def layerWindow_def WINDOW_MS_def clearLegacyQuotaPressureDecision_def LEGACY_QUOTA_PRESSURE_BLOCK_REASONS_def
  userKey_def assistantKey_def retryLoop.simps

lemma sample_attempt:
  "\<exists>t. sampleAttempt 1000 emptyAbuseDb = (Inr (), t)"
  by (simp add: sampleAttempt_def sampleRequest_def emptyAbuseDb_def defaultAbuseConfig_def abuse_eval Let_def)

lemma sample_run:
  "\<exists>s. window_run (abuseCall defaultAbuseConfig) emptyAbuseDb 0 [(sampleRequest, 1000)] s 1000"
proof -
  from sample_attempt obtain t where t: "sampleAttempt 1000 emptyAbuseDb = (Inr (), t)" by blast
  have "abuseCall defaultAbuseConfig sampleRequest 1000 True emptyAbuseDb t"
    by (rule abuseCall.attempt [OF _ t [unfolded sampleAttempt_def]]) (simp_all add: validConfig_def defaultAbuseConfig_def)
  then have "window_run (abuseCall defaultAbuseConfig) emptyAbuseDb 0 (if True then [(sampleRequest, 1000)] else []) t 1000"
    by (rule window_run.called [where s = emptyAbuseDb and latest = 0, rotated 2]) (simp_all add: window_run.start)
  then show ?thesis by auto
qed


section \<open>A temporary block lasts\<close>

text \<open>
  The final decision of both layers is stored in the row of each, so each row repeats the longest block known; an
  attempt that only slows one layer down keeps the block of the other.
\<close>

definition blockedPair :: "int \<Rightarrow> guard_row \<Rightarrow> guard_row \<Rightarrow> bool" where
  "blockedPair B u v \<longleftrightarrow> guardWindow u = guardWindow v \<and>
     (\<forall>row \<in> {u, v}. (\<exists>b. ga_blockedUntil row = Some b \<and> B \<le> b) \<and>
       (\<forall>r. ga_blockReason row = Some r \<longrightarrow> r \<notin> LEGACY_QUOTA_PRESSURE_BLOCK_REASONS))"

lemma maxDate_covers:
  assumes "\<exists>b. x = Some b \<and> B \<le> b \<or> y = Some b \<and> B \<le> b"
  shows "\<exists>b. maxDate x y = Some b \<and> B \<le> b"
  using assms by (induction x y rule: maxDate.induct) auto

lemma nonlegacy_baseline:
  assumes "\<forall>r. ga_blockReason row = Some r \<longrightarrow> r \<notin> LEGACY_QUOTA_PRESSURE_BLOCK_REASONS"
  shows "clearLegacyQuotaPressureDecision row =
    \<lparr>ad_blockedUntil = ga_blockedUntil row, ad_slowedUntil = ga_slowedUntil row, ad_reason = ga_blockReason row\<rparr>"
  using assms by (cases "ga_blockReason row")
    (simp_all add: clearLegacyQuotaPressureDecision_def LEGACY_QUOTA_PRESSURE_BLOCK_REASONS_def)

lemma layer_reason:
  assumes "\<forall>r. ga_blockReason row = Some r \<longrightarrow> r \<notin> LEGACY_QUOTA_PRESSURE_BLOCK_REASONS"
    and "b \<notin> LEGACY_QUOTA_PRESSURE_BLOCK_REASONS" "sl \<notin> LEGACY_QUOTA_PRESSURE_BLOCK_REASONS"
  shows "\<forall>r. ad_reason (layerDecision b sl blockAt slowAt cfg now row) = Some r \<longrightarrow> r \<notin> LEGACY_QUOTA_PRESSURE_BLOCK_REASONS"
  using assms by (simp add: layerDecision_def nonlegacy_baseline)

lemma layer_blocks:
  assumes "ga_adminOverrideUntil row = None" "B \<le> now + ABUSE_TEMP_BLOCK_SECONDS cfg * 1000"
    and "\<exists>b. ga_blockedUntil row = Some b \<and> B \<le> b"
    and "\<forall>r. ga_blockReason row = Some r \<longrightarrow> r \<notin> LEGACY_QUOTA_PRESSURE_BLOCK_REASONS"
    and "blockAt \<le> layerCount now row \<or> layerCount now row < slowAt"
  shows "\<exists>b. ad_blockedUntil (layerDecision br sr blockAt slowAt cfg now row) = Some b \<and> B \<le> b"
  using assms by (auto simp: layerDecision_def inFuture_def nonlegacy_baseline)

lemma same_window_counts: "guardWindow u = guardWindow v \<Longrightarrow> layerCount a u = layerCount a v \<and> layerWindow a u = layerWindow a v"
  by (simp add: guardWindow_def layerCount_def layerWindow_def)

lemma pair_step:
  fixes cfg a u v
  defines "res \<equiv> combineDecisions (userDecision cfg a u) (assistantDecision cfg a v)"
  assumes p: "blockedPair B u v" and o: "ga_adminOverrideUntil u = None" "ga_adminOverrideUntil v = None"
    and a: "B \<le> a + ABUSE_TEMP_BLOCK_SECONDS cfg * 1000"
    and c: "ABUSE_USER_BLOCK_REQUESTS_PER_MINUTE cfg \<le> ABUSE_ASSISTANT_SLOWDOWN_REQUESTS_PER_MINUTE cfg"
  shows "blockedPair B (decidedRow a res u) (decidedRow a res v) \<and> (a < B \<longrightarrow> refused res a)"
proof -
  from p have w: "guardWindow u = guardWindow v" and
    bu: "\<exists>b. ga_blockedUntil u = Some b \<and> B \<le> b" and bv: "\<exists>b. ga_blockedUntil v = Some b \<and> B \<le> b" and
    ru: "\<forall>r. ga_blockReason u = Some r \<longrightarrow> r \<notin> LEGACY_QUOTA_PRESSURE_BLOCK_REASONS" and
    rv: "\<forall>r. ga_blockReason v = Some r \<longrightarrow> r \<notin> LEGACY_QUOTA_PRESSURE_BLOCK_REASONS"
    by (auto simp: blockedPair_def)
  note same = same_window_counts [OF w, of a]
  have "(\<exists>b. ad_blockedUntil (userDecision cfg a u) = Some b \<and> B \<le> b) \<or>
      (\<exists>b. ad_blockedUntil (assistantDecision cfg a v) = Some b \<and> B \<le> b)"
  proof (cases "ABUSE_USER_BLOCK_REQUESTS_PER_MINUTE cfg \<le> layerCount a u")
    case True
    with layer_blocks [OF o(1) a bu ru] show ?thesis unfolding userDecision_def by blast
  next
    case False
    with c same have "layerCount a v < ABUSE_ASSISTANT_SLOWDOWN_REQUESTS_PER_MINUTE cfg" by linarith
    with layer_blocks [OF o(2) a bv rv] show ?thesis unfolding assistantDecision_def by blast
  qed
  then have b: "\<exists>b. ar_finalBlockedUntil res = Some b \<and> B \<le> b"
    unfolding res_def combineDecisions_def using maxDate_covers by fastforce
  have "\<forall>r. ad_reason (userDecision cfg a u) = Some r \<longrightarrow> r \<notin> LEGACY_QUOTA_PRESSURE_BLOCK_REASONS"
    unfolding userDecision_def by (rule layer_reason [OF ru]) (simp_all add: LEGACY_QUOTA_PRESSURE_BLOCK_REASONS_def)
  moreover have "\<forall>r. ad_reason (assistantDecision cfg a v) = Some r \<longrightarrow> r \<notin> LEGACY_QUOTA_PRESSURE_BLOCK_REASONS"
    unfolding assistantDecision_def by (rule layer_reason [OF rv]) (simp_all add: LEGACY_QUOTA_PRESSURE_BLOCK_REASONS_def)
  ultimately have "\<forall>r. ar_finalReason res = Some r \<longrightarrow> r \<notin> LEGACY_QUOTA_PRESSURE_BLOCK_REASONS"
    by (simp add: res_def combineDecisions_def split: option.splits)
  with b same show ?thesis
    by (auto simp: blockedPair_def guardWindow_decided refused_def inFuture_def) (auto simp: decidedRow_def)
qed

text \<open>The service passes the assistant's own user: each assistant has one.\<close>

definition ownCall ::
  "(string \<Rightarrow> string) \<Rightarrow> abuse_config \<Rightarrow> inbound_request \<Rightarrow> int \<Rightarrow> bool \<Rightarrow> abuse_data database \<Rightarrow> abuse_data database \<Rightarrow> bool" where
  "ownCall owner cfg c a ok s t \<longleftrightarrow> abuseCall cfg c a ok s t \<and> ir_userId c = owner (ir_assistantId c)"

definition blockedBoth :: "(string \<Rightarrow> string) \<Rightarrow> string \<Rightarrow> abuse_surface \<Rightarrow> int \<Rightarrow> abuse_data \<Rightarrow> bool" where
  "blockedBoth owner ai sf B d \<longleftrightarrow> (\<exists>u v. userStates d (ai, owner ai, sf) = Some u \<and>
     assistantStates d (ai, sf) = Some v \<and> blockedPair B u v)"

lemma blocked_step:
  assumes c: "ownCall owner cfg c a ok s t" and s: "unoverridden s" and b: "blockedBoth owner ai sf B (dbData s)"
    and a: "B \<le> a + ABUSE_TEMP_BLOCK_SECONDS cfg * 1000"
    and cfg: "ABUSE_USER_BLOCK_REQUESTS_PER_MINUTE cfg \<le> ABUSE_ASSISTANT_SLOWDOWN_REQUESTS_PER_MINUTE cfg"
  shows "blockedBoth owner ai sf B (dbData t) \<and> (ok \<and> ir_assistantId c = ai \<and> ir_surface c = sf \<longrightarrow> B \<le> a)"
proof -
  let ?i = "attemptOf c a"
  from b obtain u v where u: "userStates (dbData s) (ai, owner ai, sf) = Some u"
    and v: "assistantStates (dbData s) (ai, sf) = Some v" and p: "blockedPair B u v" by (auto simp: blockedBoth_def)
  have c': "abuseCall cfg c a ok s t" and own: "ir_userId c = owner (ir_assistantId c)" using c by (simp_all add: ownCall_def)
  from abuseCall_effect [OF c' s] consider
      "userStates (dbData t) = userStates (dbData s)" "assistantStates (dbData t) = assistantStates (dbData s)" "\<not> ok"
    | "userStates (dbData t) = userStates (registered cfg ?i (dbData s))"
      "assistantStates (dbData t) = assistantStates (registered cfg ?i (dbData s))"
      "ok \<longrightarrow> \<not> refused (registration cfg ?i (dbData s)) a" by blast
  then show ?thesis
  proof cases
    case 1
    with b show ?thesis by (simp add: blockedBoth_def)
  next
    case 2
    show ?thesis
    proof (cases "ir_assistantId c = ai \<and> ir_surface c = sf")
      case False
      with 2 u v p show ?thesis by (auto simp: blockedBoth_def registered_def)
    next
      case True
      let ?res = "combineDecisions (userDecision cfg a u) (assistantDecision cfg a v)"
      have rows: "userRow ?i (dbData s) = u" "assistantRow ?i (dbData s) = v"
        using True own u v by (simp_all add: userRow_def assistantRow_def)
      have o: "ga_adminOverrideUntil u = None" "ga_adminOverrideUntil v = None" using row_override [OF s, of ?i] rows by simp_all
      have res: "registration cfg ?i (dbData s) = ?res" by (simp add: registration_def rows)
      have "userStates (dbData t) (ai, owner ai, sf) = Some (decidedRow a ?res u)"
        "assistantStates (dbData t) (ai, sf) = Some (decidedRow a ?res v)"
        using 2(1,2) True own rows res by (simp_all add: registered_def)
      moreover have "\<not> ok \<or> \<not> refused ?res a" using 2(3) res by simp
      ultimately show ?thesis using pair_step [OF p o a cfg] by (auto simp: blockedBoth_def not_less)
    qed
  qed
qed

text \<open>A temporary block lasts. When the rows of an assistant and of its user carry a block until \<open>B\<close>, no later
  request for this assistant and surface is let through before \<open>B\<close>, however many requests are made meanwhile,
  although a request that only reaches a slowdown threshold replaces its own layer's block by a slowdown; this
  needs the user's block threshold not to exceed the assistant's slowdown threshold, as by default.\<close>

theorem temporary_block_lasts:
  assumes "window_run (ownCall owner cfg) s0 t0 served s latest" "unoverridden s0"
    and "blockedBoth owner ai sf B (dbData s0)" "B \<le> t0 + ABUSE_TEMP_BLOCK_SECONDS cfg * 1000"
    and "ABUSE_USER_BLOCK_REQUESTS_PER_MINUTE cfg \<le> ABUSE_ASSISTANT_SLOWDOWN_REQUESTS_PER_MINUTE cfg"
    and "(c, a) \<in> set served" "ir_assistantId c = ai" "ir_surface c = sf"
  shows "B \<le> a"
proof -
  have "t0 \<le> latest \<and> unoverridden s \<and> blockedBoth owner ai sf B (dbData s) \<and>
      (\<forall>(c, a) \<in> set served. ir_assistantId c = ai \<and> ir_surface c = sf \<longrightarrow> B \<le> a)"
    using assms(1)
  proof (induction rule: window_run.induct)
    case start
    with assms(2,3) show ?case by simp
  next
    case (called served s latest a c ok t)
    then have "B \<le> a + ABUSE_TEMP_BLOCK_SECONDS cfg * 1000" using assms(4) by linarith
    with called blocked_step [OF called.hyps(3) _ _ this assms(5), of ai sf] abuseCall_unoverridden [of cfg c a ok s t]
    show ?case by (auto simp: ownCall_def)
  qed
  with assms(6,7,8) show ?thesis by auto
qed

definition blockedRow :: guard_row where
  "blockedRow = \<lparr>ga_windowStartedAt = 0, ga_requestCount = 20, ga_slowedUntil = None, ga_blockedUntil = Some 300000,
     ga_blockReason = Some ''user_request_rate_limit_blocked'', ga_adminOverrideUntil = None, ga_lastSeenAt = 0\<rparr>"

definition blockedDb :: "abuse_data database" where
  "blockedDb = emptyAbuseDb\<lparr>dbData := \<lparr>userStates = [(''a1'', ''u1'', Telegram) \<mapsto> blockedRow],
     assistantStates = [(''a1'', Telegram) \<mapsto> blockedRow], peerStates = Map.empty\<rparr>\<rparr>"

lemma sample_late_attempt:
  "\<exists>t. sampleAttempt 300001 blockedDb = (Inr (), t)"
  by (simp add: sampleAttempt_def sampleRequest_def emptyAbuseDb_def blockedDb_def blockedRow_def defaultAbuseConfig_def
      abuse_eval Let_def)

theorem temporary_block_lasts_witness:
  "\<exists>s. window_run (ownCall (\<lambda>_. ''u1'') defaultAbuseConfig) blockedDb 0 [(sampleRequest, 300001)] s 300001 \<and> (300000 :: int) \<le> 300001"
proof -
  from sample_late_attempt obtain t where t: "sampleAttempt 300001 blockedDb = (Inr (), t)" by blast
  have "abuseCall defaultAbuseConfig sampleRequest 300001 True blockedDb t"
    by (rule abuseCall.attempt [OF _ t [unfolded sampleAttempt_def]]) (simp_all add: validConfig_def defaultAbuseConfig_def)
  then have "ownCall (\<lambda>_. ''u1'') defaultAbuseConfig sampleRequest 300001 True blockedDb t"
    by (simp add: ownCall_def sampleRequest_def)
  then have "window_run (ownCall (\<lambda>_. ''u1'') defaultAbuseConfig) blockedDb 0
      (if True then [(sampleRequest, 300001)] else []) t 300001"
    by (rule window_run.called [where s = blockedDb and latest = 0, rotated 2]) (simp_all add: window_run.start)
  then have run: "window_run (ownCall (\<lambda>_. ''u1'') defaultAbuseConfig) blockedDb 0 [(sampleRequest, 300001)] t 300001" by simp
  have "(300000 :: int) \<le> 300001"
    by (rule temporary_block_lasts [OF run, of "''a1''" Telegram 300000 sampleRequest])
      (simp_all add: unoverridden_def blockedDb_def emptyAbuseDb_def blockedBoth_def blockedPair_def blockedRow_def
        LEGACY_QUOTA_PRESSURE_BLOCK_REASONS_def defaultAbuseConfig_def sampleRequest_def ran_def)
  with run show ?thesis by blast
qed

text \<open>
  The window's first instant is the exception to counting: every attempt at the instant a window starts is counted
  as the first, which is why a run above asks for increasing instants.
\<close>

lemma burst_not_counted: "ga_windowStartedAt row = a \<Longrightarrow> layerCount a row = 1"
  by (simp add: layerCount_def layerWindow_def WINDOW_MS_def)

end
