(* ===== verification/BillingEvents.thy ===== *)
theory BillingEvents
  imports BillingHistory
begin

text \<open>
  Billing events from the payment provider, an administrator or a manual action
  (\<open>apply-workspace-subscription-billing-event.service.ts\<close>): each is stored once per source and
  reference, then applied to the subscription by one lifecycle operation, ignored, or marked
  failed.

  \<open>billing_service\<close> adds the table of billing events to the billing database; a statement on it is
  a call of the same database. What the call depends on is in \<open>billing_env\<close>: the date parser, the
  settings, the outcome of a commit after an aborted transaction (\<open>reports\<close>), a lost race of the
  wallet's insert, and the provider's answer to \<open>updateManagedSubscription\<close>. \<open>bs_managedLog\<close>
  records the calls to the provider. Calls are one after the other.
\<close>

datatype billing_event_code =
    Ev_payment_activated | Ev_renewal_succeeded | Ev_renewal_failed | Ev_payment_recovered | Ev_payment_reversed
  | Ev_subscription_cancel_scheduled | Ev_subscription_resumed | Ev_auto_renew_enabled

record billing_event_input =
  bi_workspaceId :: string
  bi_userId :: "string option"
  bi_source :: event_source
  bi_eventCode :: billing_event_code
  bi_eventRef :: "string option"
  bi_paymentIntentRef :: "string option"
  bi_billingProvider :: "string option"
  bi_providerCustomerRef :: "string option"
  bi_providerSubscriptionRef :: "string option"
  bi_paidPlanCode :: "string option"
  bi_currentPeriodStartedAt :: "string option"
  bi_currentPeriodEndsAt :: "string option"
  bi_metadata :: "(string \<times> json) list option"

datatype apply_status = Apply_pending | Apply_applied | Apply_ignored | Apply_failed

record billing_event =
  be_id :: string
  be_workspaceId :: string
  be_userId :: "string option"
  be_subscriptionId :: "string option"
  be_source :: event_source
  be_eventCode :: billing_event_code
  be_eventRef :: "string option"
  be_paymentIntentRef :: "string option"
  be_billingProvider :: "string option"
  be_providerCustomerRef :: "string option"
  be_providerSubscriptionRef :: "string option"
  be_planCode :: "string option"
  be_currentPeriodStartedAt :: "int option"
  be_currentPeriodEndsAt :: "int option"
  be_metadata :: json
  be_applyStatus :: apply_status
  be_appliedAt :: "int option"
  be_failedAt :: "int option"
  be_lastErrorCode :: "string option"
  be_lastErrorMessage :: "string option"

datatype charge_interval = Every_day | Every_week | Every_month

record managed_update =
  mu_providerSubscriptionRef :: string
  mu_amountMinor :: js_number
  mu_currency :: string
  mu_startDate :: string
  mu_interval :: charge_interval
  mu_period :: js_number
  mu_maxPeriods :: "js_number option"

record billing_service =
  bs_db :: "billing_data database"
  bs_events :: "billing_event list"
  bs_eventIdOf :: "nat \<Rightarrow> string"
  bs_managedLog :: "(managed_update \<times> string option) list"

record billing_env =
  en_parseDate :: "string \<Rightarrow> int option"
  en_reports :: bool
  en_raced :: bool
  en_settings :: "lifecycle_settings outcome"
  en_managed :: "managed_update \<Rightarrow> string option \<Rightarrow> string outcome"

datatype apply_answer = Answer_applied | Answer_duplicate | Answer_ignored

section \<open>Statements\<close>

definition billingOp :: "(billing_data database, 'a) oper \<Rightarrow> (billing_service, 'a) oper" where
  "billingOp m s = (let (r, b) = m (bs_db s) in (r, s\<lparr>bs_db := b\<rparr>))"

definition eventStmt :: "(int \<Rightarrow> (billing_event list, 'a) oper) \<Rightarrow> (billing_service, 'a) oper" where
  "eventStmt f s =
     (let (r, e) = tx f \<lparr>dbNow = dbNow (bs_db s), dbData = bs_events s, dbCount = dbCount (bs_db s), dbFault = dbFault (bs_db s)\<rparr>
      in (r, s\<lparr>bs_events := dbData e, bs_db := (bs_db s)\<lparr>dbCount := dbCount e\<rparr>\<rparr>))"

definition findEvent :: "event_source \<Rightarrow> string \<Rightarrow> (billing_event list, billing_event option) oper" where
  "findEvent src ref evs = (Inr (find (\<lambda>e. be_source e = src \<and> be_eventRef e = Some ref) evs), evs)"

text \<open>The primary key and the unique index on source and reference, in which NULLs differ.\<close>

definition insertEvent :: "billing_event \<Rightarrow> (billing_event list, billing_event) oper" where
  "insertEvent e evs =
     (if be_id e \<in> be_id ` set evs \<or>
         (be_eventRef e \<noteq> None \<and> (\<exists>x \<in> set evs. be_source x = be_source e \<and> be_eventRef x = be_eventRef e))
      then (Inl uniqueViolation, evs) else (Inr e, evs @ [e]))"

definition updateEvent :: "string \<Rightarrow> (billing_event \<Rightarrow> billing_event) \<Rightarrow> (billing_event list, unit) oper" where
  "updateEvent eid f evs =
     (if eid \<in> be_id ` set evs then (Inr (), map (\<lambda>e. if be_id e = eid then f e else e) evs)
      else (Inl recordNotFound, evs))"

section \<open>Reading the input\<close>

definition normalizeOptionalString :: "string option \<Rightarrow> string option" where
  "normalizeOptionalString v =
     (case v of None \<Rightarrow> None | Some s \<Rightarrow> (let trimmed = js_trim s in if trimmed = [] then None else Some trimmed))"

definition requireString :: "string option \<Rightarrow> string \<Rightarrow> string outcome" where
  "requireString v field =
     (case normalizeOptionalString v of
        None \<Rightarrow> Inl (BadRequestException (field @ '' is required for this billing event.''))
      | Some s \<Rightarrow> Inr s)"

text \<open>\<open>undefined\<close>, a date, or an invalid date.\<close>

definition toOptionalDate :: "(string \<Rightarrow> int option) \<Rightarrow> string option \<Rightarrow> int option option" where
  "toOptionalDate parseDate v = map_option parseDate (normalizeOptionalString v)"

definition sameIso :: "int option \<Rightarrow> string option \<Rightarrow> bool" where
  "sameIso current nxt \<longleftrightarrow> map_option toISOString current = normalizeOptionalString nxt"

definition metadataValue :: "(string \<times> json) list option \<Rightarrow> json" where
  "metadataValue m = (case m of None \<Rightarrow> JNull | Some obj \<Rightarrow> JObj obj)"

text \<open>A non-blank string, as it is.\<close>

definition nonBlank :: "json \<Rightarrow> string option" where
  "nonBlank v = (case v of JStr s \<Rightarrow> (if js_trim s \<noteq> [] then Some s else None) | _ \<Rightarrow> None)"

definition readManagedSubscriptionUpdate :: "(string \<times> json) list option \<Rightarrow> managed_update option" where
  "readManagedSubscriptionUpdate metadata =
     (case asObject (jgetIn ''managedRecurringSubscriptionUpdate'' metadata) of
        None \<Rightarrow> None
      | Some row \<Rightarrow>
          (case (jget ''providerSubscriptionRef'' row, jget ''amountMinor'' row, jget ''currency'' row,
                 jget ''startDate'' row, jget ''period'' row) of
             (JStr ref, JNum amount, JStr currency, JStr start, JNum period) \<Rightarrow>
               let mk = (\<lambda>interval. Some \<lparr>mu_providerSubscriptionRef = ref, mu_amountMinor = amount, mu_currency = currency,
                     mu_startDate = start, mu_interval = interval, mu_period = period,
                     mu_maxPeriods = jnumber (jget ''maxPeriods'' row)\<rparr>) in
               if jget ''interval'' row = JStr ''Day'' then mk Every_day
               else if jget ''interval'' row = JStr ''Week'' then mk Every_week
               else if jget ''interval'' row = JStr ''Month'' then mk Every_month
               else None
           | _ \<Rightarrow> None))"

definition readManagedSubscriptionUpdateAppliedAt :: "json \<Rightarrow> string option" where
  "readManagedSubscriptionUpdateAppliedAt v =
     nonBlank (jgetIn ''managedRecurringSubscriptionUpdateAppliedAt'' (asObject v))"

definition readManagedSubscriptionUpdateProviderRef :: "json \<Rightarrow> string option" where
  "readManagedSubscriptionUpdateProviderRef v = nonBlank (jgetIn ''managedRecurringSubscriptionRef'' (asObject v))"

definition readScheduledPaidPlanCode :: "(string \<times> json) list option \<Rightarrow> string option" where
  "readScheduledPaidPlanCode metadata = map_option js_trim (nonBlank (jgetIn ''scheduledPaidPlanCode'' metadata))"

definition hasConflictingProviderRefs :: "subscription \<Rightarrow> billing_event_input \<Rightarrow> bool" where
  "hasConflictingProviderRefs current i \<longleftrightarrow>
     bi_source i = Provider \<and>
     ((case (normalizeOptionalString (bi_providerCustomerRef i), sub_providerCustomerRef current) of
         (Some nextRef, Some currentRef) \<Rightarrow> nextRef \<noteq> currentRef
       | _ \<Rightarrow> False) \<or>
      (case (normalizeOptionalString (bi_providerSubscriptionRef i), sub_providerSubscriptionRef current) of
         (Some nextRef, Some currentRef) \<Rightarrow>
           nextRef \<noteq> currentRef \<and>
           readManagedSubscriptionUpdateProviderRef (metadataValue (bi_metadata i)) \<noteq> Some nextRef
       | _ \<Rightarrow> False))"

text \<open>\<open>(input.x ?? current.x) === current.x\<close>\<close>

definition agrees :: "'a option \<Rightarrow> 'a option \<Rightarrow> bool" where
  "agrees x current \<longleftrightarrow> orElse x current = current"

definition shouldIgnore :: "subscription \<Rightarrow> billing_event_input \<Rightarrow> bool" where
  "shouldIgnore current i \<longleftrightarrow>
     hasConflictingProviderRefs current i \<or>
     (let sameRefs = agrees (bi_billingProvider i) (sub_billingProvider current) \<and>
            agrees (bi_providerCustomerRef i) (sub_providerCustomerRef current) \<and>
            agrees (bi_providerSubscriptionRef i) (sub_providerSubscriptionRef current);
          samePayment = sub_status current = Active \<and>
            (case bi_paidPlanCode i of None \<Rightarrow> True | Some c \<Rightarrow> sub_planCode current = c) \<and>
            sameIso (sub_currentPeriodStartedAt current) (bi_currentPeriodStartedAt i) \<and>
            sameIso (sub_currentPeriodEndsAt current) (bi_currentPeriodEndsAt i) \<and> sameRefs
      in case bi_eventCode i of
           Ev_renewal_failed \<Rightarrow> sub_status current = Grace_period \<or> sub_status current = Expired_fallback
         | Ev_payment_recovered \<Rightarrow> samePayment
         | Ev_payment_activated \<Rightarrow> samePayment
         | Ev_renewal_succeeded \<Rightarrow> samePayment
         | Ev_subscription_cancel_scheduled \<Rightarrow> sub_cancelAtPeriodEnd current
         | Ev_subscription_resumed \<Rightarrow> \<not> sub_cancelAtPeriodEnd current
         | Ev_auto_renew_enabled \<Rightarrow>
             \<not> sub_cancelAtPeriodEnd current \<and> sub_providerSubscriptionRef current \<noteq> None \<and> sameRefs
         | Ev_payment_reversed \<Rightarrow> sub_status current = Expired_fallback)"

definition resolveErrorCode :: "js_error \<Rightarrow> string" where
  "resolveErrorCode e =
     (case e of
        NotFoundException _ \<Rightarrow> ''workspace_subscription_not_found''
      | BadRequestException _ \<Rightarrow> ''billing_event_invalid''
      | _ \<Rightarrow> ''billing_event_apply_failed'')"

text \<open>\<open>error.message\<close>; messages of the database client and of Redis are not modelled.\<close>

fun errorMessage :: "js_error \<Rightarrow> string" where
  "errorMessage (BadRequestException m) = m"
| "errorMessage (NotFoundException m) = m"
| "errorMessage (ConflictException m) = m"
| "errorMessage (TooManyRequestsException m) = m"
| "errorMessage (ServiceUnavailableException m) = m"
| "errorMessage (PlainError m) = m"
| "errorMessage (RangeError m) = m"
| "errorMessage (TypeError m) = m"
| "errorMessage (PlanNotFoundForVcoinGrantError m) = m"
| "errorMessage (PrismaKnownError code) = code"
| "errorMessage RedisFailure = []"

section \<open>Applying an event\<close>

definition subscriptionMetadata :: "string \<Rightarrow> billing_event_input \<Rightarrow> (string \<times> json) list" where
  "subscriptionMetadata billingEventId i =
     (let given = (case bi_metadata i of Some m \<Rightarrow> m | None \<Rightarrow> []) in
      (if ''workspaceSubscriptionBillingEventId'' \<in> fst ` set given then []
       else [(''workspaceSubscriptionBillingEventId'', JStr billingEventId)]) @ given)"

definition lifecycleInput :: "string \<Rightarrow> billing_event_input \<Rightarrow> lifecycle_input" where
  "lifecycleInput billingEventId i =
     \<lparr>li_workspaceId = bi_workspaceId i, li_userId = bi_userId i, li_source = bi_source i,
      li_refs = Some \<lparr>er_relatedPaymentIntentRef = bi_paymentIntentRef i,
        er_relatedProviderEventRef = (if bi_source i = Provider then map_option js_trim (bi_eventRef i) else None),
        er_metadata = Some (subscriptionMetadata billingEventId i)\<rparr>\<rparr>"

definition toBillingEventCreateInput ::
  "billing_env \<Rightarrow> billing_event_input \<Rightarrow> string option \<Rightarrow> string \<Rightarrow> billing_event outcome" where
  "toBillingEventCreateInput env i subscriptionId eid =
     (let startedAt = toOptionalDate (en_parseDate env) (bi_currentPeriodStartedAt i);
          endsAt = toOptionalDate (en_parseDate env) (bi_currentPeriodEndsAt i) in
      if startedAt = Some None \<or> endsAt = Some None then Inl (PlainError ''Provided Date object is invalid.'')
      else Inr \<lparr>be_id = eid, be_workspaceId = bi_workspaceId i, be_userId = bi_userId i,
        be_subscriptionId = subscriptionId, be_source = bi_source i, be_eventCode = bi_eventCode i,
        be_eventRef = normalizeOptionalString (bi_eventRef i),
        be_paymentIntentRef = normalizeOptionalString (bi_paymentIntentRef i),
        be_billingProvider = normalizeOptionalString (bi_billingProvider i),
        be_providerCustomerRef = normalizeOptionalString (bi_providerCustomerRef i),
        be_providerSubscriptionRef = normalizeOptionalString (bi_providerSubscriptionRef i),
        be_planCode = normalizeOptionalString (bi_paidPlanCode i),
        be_currentPeriodStartedAt = Option.bind startedAt id, be_currentPeriodEndsAt = Option.bind endsAt id,
        be_metadata = JObj (case bi_metadata i of Some m \<Rightarrow> m | None \<Rightarrow> []),
        be_applyStatus = Apply_pending, be_appliedAt = None, be_failedAt = None,
        be_lastErrorCode = None, be_lastErrorMessage = None\<rparr>)"

definition createBillingEvent ::
  "billing_env \<Rightarrow> billing_event_input \<Rightarrow> string option \<Rightarrow> (billing_service, billing_event) oper" where
  "createBillingEvent env i subscriptionId s =
     (case toBillingEventCreateInput env i subscriptionId (bs_eventIdOf s (length (bs_events s))) of
        Inl e \<Rightarrow> (Inl e, s)
      | Inr row \<Rightarrow> eventStmt (\<lambda>_. insertEvent row) s)"

text \<open>\<open>billingProviderPort.updateManagedSubscription\<close>\<close>

definition currentTime :: "(billing_service, int) oper" where
  "currentTime s = (Inr (dbNow (bs_db s)), s)"

definition updateManagedSubscription ::
  "billing_env \<Rightarrow> managed_update \<Rightarrow> string option \<Rightarrow> (billing_service, string) oper" where
  "updateManagedSubscription env update description s =
     (en_managed env update description, s\<lparr>bs_managedLog := bs_managedLog s @ [(update, description)]\<rparr>)"

definition planDescription :: "string option \<Rightarrow> (billing_service, string option) oper" where
  "planDescription planCode =
     (case planCode of
        None \<Rightarrow> returnS None
      | Some code \<Rightarrow> bindS (billingOp (tx (\<lambda>_. findPlan code))) (\<lambda>planRow.
          returnS (case planRow of
             Some p \<Rightarrow> if js_trim (pl_displayName p) \<noteq> [] then Some (''PersAI '' @ js_trim (pl_displayName p)) else None
           | None \<Rightarrow> None)))"

definition applyManagedSubscriptionUpdateIfNeeded ::
  "billing_env \<Rightarrow> billing_event \<Rightarrow> billing_event_input \<Rightarrow> (billing_service, billing_event_input) oper" where
  "applyManagedSubscriptionUpdateIfNeeded env billingEvent i =
     (case readManagedSubscriptionUpdate (bi_metadata i) of
        None \<Rightarrow> returnS i
      | Some update \<Rightarrow>
          let persistedRef = readManagedSubscriptionUpdateProviderRef (be_metadata billingEvent) in
          (case readManagedSubscriptionUpdateAppliedAt (be_metadata billingEvent) of
             Some appliedAt \<Rightarrow>
               returnS (i\<lparr>bi_providerSubscriptionRef := orElse persistedRef (bi_providerSubscriptionRef i),
                 bi_metadata := asObject (mergeMetadata (metadataValue (bi_metadata i))
                   ((case persistedRef of Some ref \<Rightarrow> [(''managedRecurringSubscriptionRef'', JStr ref)] | None \<Rightarrow> []) @
                    [(''managedRecurringSubscriptionUpdateAppliedAt'', JStr appliedAt)]))\<rparr>)
           | None \<Rightarrow>
               bindS (planDescription (normalizeOptionalString (bi_paidPlanCode i))) (\<lambda>description.
               bindS (updateManagedSubscription env update description) (\<lambda>providerSubscriptionRef.
               bindS currentTime (\<lambda>appliedAt.
                 let patch = [(''managedRecurringSubscriptionUpdateAppliedAt'', JStr (toISOString appliedAt)),
                       (''managedRecurringSubscriptionRef'', JStr providerSubscriptionRef)] in
                 bindS (eventStmt (\<lambda>_. updateEvent (be_id billingEvent)
                   (\<lambda>e. e\<lparr>be_metadata := mergeMetadata (be_metadata billingEvent) patch\<rparr>))) (\<lambda>_.
                 bindS (case description of
                          None \<Rightarrow> returnS ()
                        | Some d \<Rightarrow> bindS (billingOp (tx (\<lambda>_. updateSubscription (bi_workspaceId i)
                              (\<lambda>st. st\<lparr>sub_providerRecurringDescriptor := Some d\<rparr>)))) (\<lambda>_. returnS ())) (\<lambda>_.
                 returnS (i\<lparr>bi_providerSubscriptionRef := Some providerSubscriptionRef,
                   bi_metadata := asObject (mergeMetadata (metadataValue (bi_metadata i)) patch)\<rparr>))))))))"

text \<open>The arguments of the payment operations.\<close>

definition paymentInput ::
  "billing_env \<Rightarrow> subscription option \<Rightarrow> billing_event_input \<Rightarrow> payment_input outcome" where
  "paymentInput env current i =
     (case requireString (bi_paidPlanCode i) ''paidPlanCode'' of
        Inl e \<Rightarrow> Inl e
      | Inr plan \<Rightarrow>
     (case requireString (bi_currentPeriodStartedAt i) ''currentPeriodStartedAt'' of
        Inl e \<Rightarrow> Inl e
      | Inr startedAt \<Rightarrow>
     (case requireString (bi_currentPeriodEndsAt i) ''currentPeriodEndsAt'' of
        Inl e \<Rightarrow> Inl e
      | Inr endsAt \<Rightarrow>
          Inr \<lparr>py_paidPlanCode = plan, py_currentPeriodStartedAt = en_parseDate env startedAt,
               py_currentPeriodEndsAt = en_parseDate env endsAt,
               py_billingProvider = orElse (bi_billingProvider i) (Option.bind current sub_billingProvider),
               py_providerCustomerRef = orElse (bi_providerCustomerRef i) (Option.bind current sub_providerCustomerRef),
               py_providerSubscriptionRef =
                 orElse (bi_providerSubscriptionRef i) (Option.bind current sub_providerSubscriptionRef)\<rparr>)))"

definition assertCurrentSubscriptionExists ::
  "subscription option \<Rightarrow> (subscription \<Rightarrow> (billing_data database, unit) oper) \<Rightarrow> (billing_data database, unit) oper" where
  "assertCurrentSubscriptionExists current f =
     (case current of None \<Rightarrow> throwS (NotFoundException ''Workspace subscription not found.'') | Some st \<Rightarrow> f st)"

definition applyToLifecycle ::
  "billing_env \<Rightarrow> subscription option \<Rightarrow> billing_event_input \<Rightarrow> string \<Rightarrow> (billing_data database, unit) oper" where
  "applyToLifecycle env current i billingEventId =
     (let li = lifecycleInput billingEventId i;
          payment = (\<lambda>f. case paymentInput env current i of Inl e \<Rightarrow> throwS e | Inr p \<Rightarrow> f p);
          provider = (\<lambda>st. orElse (bi_billingProvider i) (sub_billingProvider st));
          customerRef = (\<lambda>st. orElse (bi_providerCustomerRef i) (sub_providerCustomerRef st));
          subscriptionRef = (\<lambda>st. orElse (bi_providerSubscriptionRef i) (sub_providerSubscriptionRef st))
      in case bi_eventCode i of
           Ev_renewal_failed \<Rightarrow> assertCurrentSubscriptionExists current (\<lambda>_.
             startPaidGrace (en_reports env) (en_settings env) li (readScheduledPaidPlanCode (bi_metadata i)))
         | Ev_payment_recovered \<Rightarrow> payment (\<lambda>p. recoverPayment (en_parseDate env) (en_reports env) (en_raced env) li p)
         | Ev_payment_activated \<Rightarrow> payment (\<lambda>p.
             activatePaidSubscription (en_parseDate env) (en_reports env) (en_raced env) li p Payment_activated Payment_activated)
         | Ev_renewal_succeeded \<Rightarrow> payment (\<lambda>p.
             activatePaidSubscription (en_parseDate env) (en_reports env) (en_raced env) li p Renewal_succeeded Renewal_succeeded)
         | Ev_payment_reversed \<Rightarrow> assertCurrentSubscriptionExists current (\<lambda>_.
             applyImmediatePaidFallback (en_reports env) (en_settings env) li None)
         | Ev_subscription_cancel_scheduled \<Rightarrow> assertCurrentSubscriptionExists current (\<lambda>_.
             schedulePaidCancellationAtPeriodEnd (en_reports env) li)
         | Ev_subscription_resumed \<Rightarrow> assertCurrentSubscriptionExists current (\<lambda>st.
             resumePaidAutoRenew (en_reports env) li (provider st) (customerRef st) (subscriptionRef st))
         | Ev_auto_renew_enabled \<Rightarrow> assertCurrentSubscriptionExists current (\<lambda>st.
             case requireString (subscriptionRef st) ''providerSubscriptionRef'' of
               Inl e \<Rightarrow> throwS e
             | Inr ref \<Rightarrow> enablePaidAutoRenew (en_reports env) li (provider st) (customerRef st) ref))"

text \<open>Marking the row; \<open>now\<close> is the instant of the statement.\<close>

definition markIgnored :: "string \<Rightarrow> (billing_service, unit) oper" where
  "markIgnored eid = eventStmt (\<lambda>now. updateEvent eid (\<lambda>e. e\<lparr>be_applyStatus := Apply_ignored, be_appliedAt := Some now,
     be_failedAt := None, be_lastErrorCode := None, be_lastErrorMessage := None\<rparr>))"

definition markApplied :: "string \<Rightarrow> string option \<Rightarrow> (billing_service, unit) oper" where
  "markApplied eid subscriptionId = eventStmt (\<lambda>now. updateEvent eid (\<lambda>e. e\<lparr>be_subscriptionId := subscriptionId,
     be_applyStatus := Apply_applied, be_appliedAt := Some now,
     be_failedAt := None, be_lastErrorCode := None, be_lastErrorMessage := None\<rparr>))"

definition markFailed :: "string \<Rightarrow> js_error \<Rightarrow> (billing_service, unit) oper" where
  "markFailed eid err = eventStmt (\<lambda>now. updateEvent eid (\<lambda>e. e\<lparr>be_applyStatus := Apply_failed, be_failedAt := Some now,
     be_lastErrorCode := Some (resolveErrorCode err), be_lastErrorMessage := Some (errorMessage err)\<rparr>))"

definition applyStored ::
  "billing_env \<Rightarrow> billing_event_input \<Rightarrow> subscription option \<Rightarrow> billing_event \<Rightarrow> (billing_service, apply_answer \<times> string) oper" where
  "applyStored env i current billingEvent =
     (let eid = be_id billingEvent in
      catchS
        (if (case current of Some st \<Rightarrow> shouldIgnore st i | None \<Rightarrow> False)
         then bindS (markIgnored eid) (\<lambda>_. returnS (Answer_ignored, eid))
         else bindS (applyManagedSubscriptionUpdateIfNeeded env billingEvent i) (\<lambda>li.
              bindS (billingOp (applyToLifecycle env current li eid)) (\<lambda>_.
              bindS (billingOp (tx (\<lambda>_. findSubscription (bi_workspaceId i)))) (\<lambda>applied.
              bindS (markApplied eid (orElse (map_option sub_id applied) (map_option sub_id current))) (\<lambda>_.
              returnS (Answer_applied, eid))))))
        (\<lambda>err. bindS (markFailed eid err) (\<lambda>_. throwS err)))"

definition apply_event ::
  "billing_env \<Rightarrow> billing_event_input \<Rightarrow> (billing_service, apply_answer \<times> string) oper" where
  "apply_event env i =
     bindS (case normalizeOptionalString (bi_eventRef i) of
              None \<Rightarrow> returnS None
            | Some ref \<Rightarrow> eventStmt (\<lambda>_. findEvent (bi_source i) ref)) (\<lambda>existing.
       case existing of
         Some e \<Rightarrow>
           if be_applyStatus e = Apply_applied then returnS (Answer_duplicate, be_id e)
           else bindS (billingOp (tx (\<lambda>_. findSubscription (bi_workspaceId i)))) (\<lambda>current. applyStored env i current e)
       | None \<Rightarrow>
           bindS (billingOp (tx (\<lambda>_. findSubscription (bi_workspaceId i)))) (\<lambda>current.
           bindS (createBillingEvent env i (map_option sub_id current)) (applyStored env i current)))"

section \<open>The table of events\<close>

definition sameRef :: "billing_event \<Rightarrow> billing_event \<Rightarrow> bool" where
  "sameRef x y \<longleftrightarrow> be_eventRef x \<noteq> None \<and> be_source x = be_source y \<and> be_eventRef x = be_eventRef y"

definition eventsOk :: "billing_event list \<Rightarrow> bool" where
  "eventsOk evs \<longleftrightarrow> distinct (map be_id evs) \<and>
     (\<forall>x \<in> set evs. \<forall>y \<in> set evs. sameRef x y \<longrightarrow> x = y)"

text \<open>Only the row with the given id changes, and its key stays.\<close>

definition keepsKey :: "(billing_event \<Rightarrow> billing_event) \<Rightarrow> bool" where
  "keepsKey g \<longleftrightarrow> (\<forall>e. be_id (g e) = be_id e \<and> be_source (g e) = be_source e \<and> be_eventRef (g e) = be_eventRef e)"

definition atRow :: "string \<Rightarrow> (billing_event \<Rightarrow> billing_event) \<Rightarrow> billing_event \<Rightarrow> billing_event" where
  "atRow eid g e = (if be_id e = eid then g e else e)"

definition rowStep :: "string \<Rightarrow> billing_event list \<Rightarrow> billing_event list \<Rightarrow> bool" where
  "rowStep eid evs evs' \<longleftrightarrow> (\<exists>g. keepsKey g \<and> evs' = map (atRow eid g) evs)"

lemma rowStep_refl [simp]: "rowStep eid evs evs"
  unfolding rowStep_def by (intro exI [of _ id]) (auto simp: keepsKey_def atRow_def map_idI)

lemma rowStep_update: "rowStep eid evs evs' \<Longrightarrow> keepsKey f \<Longrightarrow> rowStep eid evs (map (atRow eid f) evs')"
  unfolding rowStep_def by (elim exE conjE, rule_tac x = "f \<circ> g" in exI) (auto simp: keepsKey_def atRow_def)

lemma atRow_key:
  "keepsKey g \<Longrightarrow> be_id (atRow eid g e) = be_id e \<and> be_source (atRow eid g e) = be_source e \<and> be_eventRef (atRow eid g e) = be_eventRef e"
  by (simp add: atRow_def keepsKey_def)

lemma rowStep_eventsOk:
  assumes "rowStep eid evs evs'" "eventsOk evs"
  shows "eventsOk evs'"
proof -
  from assms(1) obtain g where g: "keepsKey g" "evs' = map (atRow eid g) evs" by (auto simp: rowStep_def)
  have "map be_id evs' = map be_id evs" using atRow_key [OF g(1)] by (simp add: g(2))
  moreover have "\<forall>x \<in> set evs'. \<forall>y \<in> set evs'. sameRef x y \<longrightarrow> x = y"
  proof (intro ballI impI)
    fix x y assume m: "x \<in> set evs'" "y \<in> set evs'" and e: "sameRef x y"
    from m g(2) obtain x0 y0 where x0: "x0 \<in> set evs" "y0 \<in> set evs" "x = atRow eid g x0" "y = atRow eid g y0" by auto
    from e have "sameRef x0 y0" unfolding x0(3,4) by (auto simp: sameRef_def atRow_key [OF g(1)])
    with x0(1,2) assms(2) have "x0 = y0" by (simp add: eventsOk_def)
    with x0 show "x = y" by simp
  qed
  ultimately show ?thesis using assms(2) by (simp add: eventsOk_def)
qed

lemma rowStep_others: "rowStep eid evs evs' \<Longrightarrow> e \<in> set evs \<Longrightarrow> be_id e \<noteq> eid \<Longrightarrow> e \<in> set evs'"
  by (auto simp: rowStep_def atRow_def)

lemma insertEvent_eventsOk:
  assumes "eventsOk evs" "insertEvent e evs = (Inr x, evs')"
  shows "eventsOk evs' \<and> x = e \<and> evs' = evs @ [e]"
proof -
  from assms(2) have n: "be_id e \<notin> be_id ` set evs" "x = e" "evs' = evs @ [e]"
    and u: "\<And>y. y \<in> set evs \<Longrightarrow> \<not> sameRef y e \<and> \<not> sameRef e y"
    by (auto simp: insertEvent_def sameRef_def split: if_splits)
  have "distinct (map be_id evs')" using n assms(1) by (simp add: eventsOk_def)
  moreover have "\<forall>x \<in> set evs'. \<forall>y \<in> set evs'. sameRef x y \<longrightarrow> x = y"
    using u assms(1) unfolding n(3) eventsOk_def by auto
  ultimately show ?thesis using n by (simp add: eventsOk_def)
qed

text \<open>Statements on the table.\<close>

lemma eventStmt_cases:
  assumes "eventStmt f s = (r, t)"
  obtains (failed) e where "r = Inl e" "bs_events t = bs_events s"
      "dbData (bs_db t) = dbData (bs_db s)" "bs_managedLog t = bs_managedLog s" "dbFault (bs_db t) = dbFault (bs_db s)"
  | (stored) a where "f (dbNow (bs_db s)) (bs_events s) = (Inr a, bs_events t)" "r = Inr a \<or> r = Inl unavailable"
      "dbData (bs_db t) = dbData (bs_db s)" "bs_managedLog t = bs_managedLog s" "dbFault (bs_db t) = dbFault (bs_db s)"
proof -
  let ?e = "\<lparr>dbNow = dbNow (bs_db s), dbData = bs_events s, dbCount = dbCount (bs_db s), dbFault = dbFault (bs_db s)\<rparr>"
  obtain u where u: "tx f ?e = (r, u)" and t: "t = s\<lparr>bs_events := dbData u, bs_db := (bs_db s)\<lparr>dbCount := dbCount u\<rparr>\<rparr>"
    using assms by (cases "tx f ?e") (simp add: eventStmt_def)
  from u show thesis by (cases rule: tx_cases) (use t that in auto)
qed

lemma eventStmt_reliable:
  assumes "reliable (bs_db s)" "f (dbNow (bs_db s)) (bs_events s) = (Inr a, evs)"
  shows "eventStmt f s = (Inr a, s\<lparr>bs_events := evs, bs_db := (bs_db s)\<lparr>dbCount := Suc (dbCount (bs_db s))\<rparr>\<rparr>)"
proof -
  have "reliable \<lparr>dbNow = dbNow (bs_db s), dbData = bs_events s, dbCount = dbCount (bs_db s), dbFault = dbFault (bs_db s)\<rparr>"
    using assms(1) by (simp add: reliable_def)
  from tx_reliable [OF this, of f] assms(2) show ?thesis by (simp add: eventStmt_def transactionS_def)
qed

lemma markApplied_Inr:
  assumes "markApplied eid sid s = (Inr u, t)"
  shows "\<exists>e \<in> set (bs_events t). be_id e = eid \<and> be_applyStatus e = Apply_applied"
  using assms unfolding markApplied_def
proof (cases rule: eventStmt_cases)
  case (stored a)
  then obtain e where e: "e \<in> set (bs_events s)" "be_id e = eid"
    and t: "bs_events t = map (\<lambda>e. if be_id e = eid then e\<lparr>be_subscriptionId := sid, be_applyStatus := Apply_applied,
      be_appliedAt := Some (dbNow (bs_db s)), be_failedAt := None, be_lastErrorCode := None, be_lastErrorMessage := None\<rparr> else e)
      (bs_events s)"
    by (auto simp: updateEvent_def split: if_splits)
  show ?thesis unfolding t set_map by (rule bexI [OF _ imageI [OF e(1)]]) (simp add: e(2))
qed simp

lemma updateEvent_rowStep:
  "rowStep eid evs0 evs \<Longrightarrow> keepsKey f \<Longrightarrow> rowStep eid evs0 (snd (updateEvent eid f evs))"
  using rowStep_update [of eid evs0 evs f] by (simp add: updateEvent_def atRow_def [abs_def])

lemma preserves_event_update:
  assumes "\<And>now. keepsKey (f now)"
  shows "preserves (\<lambda>s. rowStep eid evs0 (bs_events s)) (eventStmt (\<lambda>now. updateEvent eid (f now)))"
  unfolding preserves_def
proof (intro allI impI)
  fix s :: billing_service assume s: "rowStep eid evs0 (bs_events s)"
  obtain r t where t: "eventStmt (\<lambda>now. updateEvent eid (f now)) s = (r, t)" by (cases "eventStmt (\<lambda>now. updateEvent eid (f now)) s")
  from t have "rowStep eid evs0 (bs_events t)"
  proof (cases rule: eventStmt_cases)
    case (stored a)
    with updateEvent_rowStep [OF s assms, of "dbNow (bs_db s)"] show ?thesis by simp
  qed (use s in simp)
  with t show "rowStep eid evs0 (bs_events (snd (eventStmt (\<lambda>now. updateEvent eid (f now)) s)))" by simp
qed

lemma preserves_billingOp_events: "preserves (\<lambda>s. P (bs_events s)) (billingOp m)"
  by (simp add: preserves_def billingOp_def split: prod.splits)

lemma keepsKey_marks:
  "keepsKey (\<lambda>e. e\<lparr>be_applyStatus := x, be_appliedAt := a, be_failedAt := b, be_lastErrorCode := c, be_lastErrorMessage := d\<rparr>)"
  "keepsKey (\<lambda>e. e\<lparr>be_subscriptionId := i, be_applyStatus := x, be_appliedAt := a, be_failedAt := b, be_lastErrorCode := c,
     be_lastErrorMessage := d\<rparr>)"
  "keepsKey (\<lambda>e. e\<lparr>be_applyStatus := x, be_failedAt := b, be_lastErrorCode := c, be_lastErrorMessage := d\<rparr>)"
  "keepsKey (\<lambda>e. e\<lparr>be_metadata := m\<rparr>)"
  by (simp_all add: keepsKey_def)

lemma marks_rowStep:
  "preserves (\<lambda>s. rowStep eid evs0 (bs_events s)) (markIgnored eid)"
  "preserves (\<lambda>s. rowStep eid evs0 (bs_events s)) (markApplied eid sid)"
  "preserves (\<lambda>s. rowStep eid evs0 (bs_events s)) (markFailed eid err)"
  unfolding markIgnored_def markApplied_def markFailed_def by (rule preserves_event_update, rule keepsKey_marks)+

lemma preserves_managedCall: "preserves (\<lambda>s. P (bs_events s)) (updateManagedSubscription env update description)"
  by (simp add: preserves_def updateManagedSubscription_def)

lemma preserves_currentTime: "preserves P currentTime"
  by (simp add: preserves_def currentTime_def)

lemma preserves_planDescription: "preserves (\<lambda>s. P (bs_events s)) (planDescription code)"
  unfolding planDescription_def by (cases code) (auto intro: preserves_billingOp_events)

lemma managed_rowStep:
  "preserves (\<lambda>s. rowStep (be_id e) evs0 (bs_events s)) (applyManagedSubscriptionUpdateIfNeeded env e i)"
proof (cases "readManagedSubscriptionUpdate (bi_metadata i)")
  case (Some update)
  show ?thesis
    unfolding applyManagedSubscriptionUpdateIfNeeded_def Some option.case Let_def
    by (intro preserves_case_option preserves_return preserves_bind preserves_planDescription preserves_managedCall
        preserves_currentTime preserves_event_update keepsKey_marks preserves_billingOp_events)
qed (simp add: applyManagedSubscriptionUpdateIfNeeded_def)

lemma applyStored_rowStep:
  "preserves (\<lambda>s. rowStep (be_id e) evs0 (bs_events s)) (applyStored env i current e)"
  unfolding applyStored_def Let_def
  by (intro preserves_catch preserves_if preserves_return preserves_throw preserves_bind managed_rowStep marks_rowStep
      preserves_billingOp_events)

lemma rowStep_key:
  assumes "rowStep eid evs evs'" "y \<in> set evs'"
  shows "\<exists>x \<in> set evs. be_id y = be_id x \<and> be_source y = be_source x \<and> be_eventRef y = be_eventRef x"
proof -
  from assms obtain g x where "keepsKey g" "x \<in> set evs" "y = atRow eid g x" by (auto simp: rowStep_def)
  then show ?thesis using atRow_key by blast
qed

lemma catch_rethrow: "catchS m (\<lambda>e. bindS (f e) (\<lambda>_. throwS e)) s = (Inr a, t) \<Longrightarrow> m s = (Inr a, t)"
  by (auto simp: catchS_def bindS_def throwS_def split: prod.splits sum.splits)

lemma applyStored_Inr:
  assumes "applyStored env i current e s = (Inr (a, x), t)"
  shows "x = be_id e \<and> (a = Answer_ignored \<and> markIgnored (be_id e) s = (Inr (), t) \<or>
    a = Answer_applied \<and> (\<exists>sid s1. markApplied (be_id e) sid s1 = (Inr (), t)))"
  using catch_rethrow [OF assms [unfolded applyStored_def Let_def]]
  by (simp split: if_splits add: bindS_eq_Inr_iff) blast+

lemma applyStored_applied:
  assumes "applyStored env i current e s = (Inr (a, x), t)" "a = Answer_applied"
  shows "x = be_id e \<and> (\<exists>row \<in> set (bs_events t). be_id row = x \<and> be_applyStatus row = Apply_applied)"
  using applyStored_Inr [OF assms(1)] assms(2) markApplied_Inr by auto

definition holdsRef :: "billing_event_input \<Rightarrow> billing_event \<Rightarrow> bool" where
  "holdsRef i e \<longleftrightarrow> be_source e = bi_source i \<and> be_eventRef e = normalizeOptionalString (bi_eventRef i)"

definition sameBilling :: "billing_service \<Rightarrow> billing_service \<Rightarrow> bool" where
  "sameBilling s t \<longleftrightarrow> dbData (bs_db t) = dbData (bs_db s) \<and> bs_managedLog t = bs_managedLog s \<and>
     dbFault (bs_db t) = dbFault (bs_db s)"

lemma sameBilling_reliable: "sameBilling s t \<Longrightarrow> reliable (bs_db t) = reliable (bs_db s)"
  by (simp add: sameBilling_def reliable_def)

lemma readSubscription:
  assumes "billingOp (tx (\<lambda>_. findSubscription w)) s = (r, t)"
  shows "bs_events t = bs_events s \<and> sameBilling s t \<and> (isl r \<or> r = Inr (subscriptionTable (dbData (bs_db s)) w))"
proof -
  obtain b where b: "tx (\<lambda>_. findSubscription w) (bs_db s) = (r, b)" "t = s\<lparr>bs_db := b\<rparr>"
    using assms by (auto simp: billingOp_def split: prod.splits)
  from b(1) show ?thesis by (cases rule: tx_cases) (use b(2) in \<open>auto simp: findSubscription_def sameBilling_def\<close>)
qed

lemma find_SomeD: "find P xs = Some x \<Longrightarrow> x \<in> set xs \<and> P x"
  by (induction xs) (auto split: if_splits)

lemma lookupEvent:
  assumes "(case normalizeOptionalString (bi_eventRef i) of
              None \<Rightarrow> returnS None | Some ref \<Rightarrow> eventStmt (\<lambda>_. findEvent (bi_source i) ref)) s = (r, t)"
  shows "bs_events t = bs_events s \<and> sameBilling s t \<and> (isl r \<or> r = Inr None \<or>
    (\<exists>row. r = Inr (Some row) \<and> row \<in> set (bs_events s) \<and> holdsRef i row \<and> normalizeOptionalString (bi_eventRef i) \<noteq> None))"
proof (cases "normalizeOptionalString (bi_eventRef i)")
  case (Some ref)
  with assms have "eventStmt (\<lambda>_. findEvent (bi_source i) ref) s = (r, t)" by simp
  then show ?thesis
  proof (cases rule: eventStmt_cases)
    case (stored a)
    show ?thesis
    proof (cases a)
      case None
      with stored show ?thesis by (auto simp: findEvent_def sameBilling_def)
    next
      case (Some row)
      with stored(1) have "find (\<lambda>e. be_source e = bi_source i \<and> be_eventRef e = Some ref) (bs_events s) = Some row"
        unfolding findEvent_def prod.inject sum.inject by blast
      then have "row \<in> set (bs_events s) \<and> holdsRef i row"
        using \<open>normalizeOptionalString (bi_eventRef i) = Some ref\<close> by (auto simp: holdsRef_def dest: find_SomeD)
      moreover have "bs_events t = bs_events s" using stored(1) by (simp add: findEvent_def)
      ultimately show ?thesis using stored Some \<open>normalizeOptionalString (bi_eventRef i) = Some ref\<close> by (auto simp: sameBilling_def)
    qed
  qed (auto simp: sameBilling_def)
qed (use assms in \<open>simp add: sameBilling_def\<close>)

lemma createBillingEvent_result:
  assumes "createBillingEvent env i sid s = (r, t)"
  shows "sameBilling s t \<and> (isl r \<and> bs_events t = bs_events s \<or>
    (\<exists>row. insertEvent row (bs_events s) = (Inr row, bs_events t) \<and> holdsRef i row \<and> be_applyStatus row = Apply_pending \<and>
       (r = Inr row \<or> isl r \<and> \<not> reliable (bs_db s))))"
proof (cases "toBillingEventCreateInput env i sid (bs_eventIdOf s (length (bs_events s)))")
  case (Inl e)
  with assms have "t = s" "r = Inl e" by (simp_all add: createBillingEvent_def)
  then show ?thesis by (simp add: sameBilling_def)
next
  case (Inr row)
  then have row: "holdsRef i row" "be_applyStatus row = Apply_pending"
    by (auto simp: toBillingEventCreateInput_def Let_def holdsRef_def split: if_splits)
  from assms Inr have "eventStmt (\<lambda>_. insertEvent row) s = (r, t)" by (simp add: createBillingEvent_def)
  then show ?thesis
  proof (cases rule: eventStmt_cases)
    case (stored a)
    then have "a = row" by (simp add: insertEvent_def split: if_splits)
    moreover have "r = Inr row" if "reliable (bs_db s)"
      using eventStmt_reliable [of s "\<lambda>_. insertEvent row", OF that stored(1)] \<open>eventStmt (\<lambda>_. insertEvent row) s = (r, t)\<close>
        \<open>a = row\<close> by simp
    ultimately show ?thesis using stored row by (auto simp: sameBilling_def)
  qed (auto simp: sameBilling_def)
qed

text \<open>What \<open>apply_event\<close> does before it works on a stored event.\<close>

lemma apply_event_cases:
  assumes "apply_event env i s = (r, t)"
  obtains (no_event) "isl r" "bs_events t = bs_events s" "sameBilling s t"
  | (lost_insert) row where "isl r" "insertEvent row (bs_events s) = (Inr row, bs_events t)" "holdsRef i row"
      "be_applyStatus row = Apply_pending" "sameBilling s t" "\<not> reliable (bs_db s)"
  | (duplicate) row where "r = Inr (Answer_duplicate, be_id row)" "row \<in> set (bs_events s)" "holdsRef i row"
      "be_applyStatus row = Apply_applied" "bs_events t = bs_events s" "sameBilling s t"
  | (stored) row s1 where "applyStored env i (subscriptionTable (dbData (bs_db s)) (bi_workspaceId i)) row s1 = (r, t)"
      "sameBilling s s1" "holdsRef i row"
      "row \<in> set (bs_events s) \<and> bs_events s1 = bs_events s \<and> be_applyStatus row \<noteq> Apply_applied \<and>
         normalizeOptionalString (bi_eventRef i) \<noteq> None \<or>
       insertEvent row (bs_events s) = (Inr row, bs_events s1) \<and> be_applyStatus row = Apply_pending"
proof -
  let ?sub = "subscriptionTable (dbData (bs_db s)) (bi_workspaceId i)"
  let ?look = "case normalizeOptionalString (bi_eventRef i) of
              None \<Rightarrow> returnS None | Some ref \<Rightarrow> eventStmt (\<lambda>_. findEvent (bi_source i) ref)"
  obtain r1 s1 where 1: "?look s = (r1, s1)" by (cases "?look s")
  obtain r2 s2 where 2: "billingOp (tx (\<lambda>_. findSubscription (bi_workspaceId i))) s1 = (r2, s2)"
    by (cases "billingOp (tx (\<lambda>_. findSubscription (bi_workspaceId i))) s1")
  note L = lookupEvent [OF 1] and R = readSubscription [OF 2]
  have same: "bs_events s2 = bs_events s" "sameBilling s s1" "sameBilling s s2" "isl r2 \<or> r2 = Inr ?sub"
    using L R by (auto simp: sameBilling_def)
  from L consider (a) "isl r1" | (b) "r1 = Inr None"
    | (c) row where "r1 = Inr (Some row)" "row \<in> set (bs_events s)" "holdsRef i row" "normalizeOptionalString (bi_eventRef i) \<noteq> None"
    by blast
  then show thesis
  proof cases
    case a
    with assms 1 L that(1) show thesis by (cases r1) (auto simp: apply_event_def bindS_def)
  next
    case c
    show thesis
    proof (cases "be_applyStatus row = Apply_applied")
      case True
      with assms 1 c have "r = Inr (Answer_duplicate, be_id row)" "t = s1" by (simp_all add: apply_event_def bindS_def)
      with c True L that(3) show thesis by blast
    next
      case False
      show thesis
      proof (cases r2)
        case (Inl e)
        with assms 1 2 c False have "isl r" "t = s2" by (auto simp: apply_event_def bindS_def)
        with same that(1) show thesis by simp
      next
        case (Inr current)
        with assms 1 2 c False have "applyStored env i current row s2 = (r, t)" by (simp add: apply_event_def bindS_def)
        with same Inr c False that(4) [of row s2] show thesis by simp
      qed
    qed
  next
    case b
    show thesis
    proof (cases r2)
      case (Inl e)
      with assms 1 2 b have "isl r" "t = s2" by (auto simp: apply_event_def bindS_def)
      with same that(1) show thesis by simp
    next
      case (Inr current)
      then have cur: "current = ?sub" using same(4) by simp
      obtain r3 s3 where 3: "createBillingEvent env i (map_option sub_id current) s2 = (r3, s3)"
        by (cases "createBillingEvent env i (map_option sub_id current) s2")
      note C = createBillingEvent_result [OF 3]
      have s3: "sameBilling s s3" using C same(3) by (simp add: sameBilling_def)
      show thesis
      proof (cases r3)
        case (Inl e)
        with assms 1 2 3 b Inr have "isl r" "t = s3" by (auto simp: apply_event_def bindS_def)
        with C Inl s3 same(1) that(1,2) sameBilling_reliable [OF same(3)] show thesis by auto
      next
        case (Inr row)
        with assms 1 2 3 b \<open>r2 = Inr current\<close> have "applyStored env i current row s3 = (r, t)"
          by (simp add: apply_event_def bindS_def)
        with C s3 same(1) Inr cur that(4) [of row s3] show thesis by auto
      qed
    qed
  qed
qed

section \<open>An event is applied once\<close>

lemma apply_event_table:
  assumes "apply_event env i s = (r, t)" "eventsOk (bs_events s)"
  shows "eventsOk (bs_events t)"
    and "e \<in> set (bs_events s) \<Longrightarrow> be_applyStatus e = Apply_applied \<Longrightarrow> e \<in> set (bs_events t)"
    and "r = Inr (Answer_applied, x) \<Longrightarrow>
      (\<exists>row \<in> set (bs_events t). holdsRef i row \<and> be_applyStatus row = Apply_applied) \<and>
      (\<forall>row \<in> set (bs_events s). normalizeOptionalString (bi_eventRef i) \<noteq> None \<longrightarrow> holdsRef i row \<longrightarrow>
         be_applyStatus row \<noteq> Apply_applied)"
proof -
  have "eventsOk (bs_events t) \<and>
    (e \<in> set (bs_events s) \<longrightarrow> be_applyStatus e = Apply_applied \<longrightarrow> e \<in> set (bs_events t)) \<and>
    (r = Inr (Answer_applied, x) \<longrightarrow>
      (\<exists>row \<in> set (bs_events t). holdsRef i row \<and> be_applyStatus row = Apply_applied) \<and>
      (\<forall>row \<in> set (bs_events s). normalizeOptionalString (bi_eventRef i) \<noteq> None \<longrightarrow> holdsRef i row \<longrightarrow>
         be_applyStatus row \<noteq> Apply_applied))"
    using assms(1)
  proof (cases rule: apply_event_cases)
    case no_event
    with assms(2) show ?thesis by auto
  next
    case (lost_insert row)
    with insertEvent_eventsOk [OF assms(2) lost_insert(2)] show ?thesis by auto
  next
    case (duplicate row)
    with assms(2) show ?thesis by auto
  next
    case (stored row s1)
    let ?id = "be_id row"
    have ok1: "eventsOk (bs_events s1)" "row \<in> set (bs_events s1)" and sub: "set (bs_events s) \<subseteq> set (bs_events s1)"
      using stored(4) assms(2) insertEvent_eventsOk [OF assms(2), of row row "bs_events s1"] by auto
    have step: "rowStep ?id (bs_events s1) (bs_events t)"
      using preserves_result [OF applyStored_rowStep [of row "bs_events s1" env i] stored(1)] by simp
    have old: "y \<in> set (bs_events s1) \<Longrightarrow> be_id y = ?id \<Longrightarrow> y = row" for y
      using ok1 by (auto simp: eventsOk_def dest: inj_onD [OF distinct_map [THEN iffD1, THEN conjunct2]])
    have "be_applyStatus row \<noteq> Apply_applied" using stored(4) by auto
    then have keep: "e \<in> set (bs_events t)" if "e \<in> set (bs_events s)" "be_applyStatus e = Apply_applied"
      using that sub old rowStep_others [OF step, of e] by blast
    have applied: "(\<exists>y \<in> set (bs_events t). holdsRef i y \<and> be_applyStatus y = Apply_applied) \<and>
      (\<forall>y \<in> set (bs_events s). normalizeOptionalString (bi_eventRef i) \<noteq> None \<longrightarrow> holdsRef i y \<longrightarrow> be_applyStatus y \<noteq> Apply_applied)"
      if r: "r = Inr (Answer_applied, x)"
    proof
      from applyStored_applied [OF stored(1) [unfolded r] refl] obtain y where
        y: "y \<in> set (bs_events t)" "be_id y = ?id" "be_applyStatus y = Apply_applied" by blast
      from rowStep_key [OF step y(1)] y(2) old have "be_source y = be_source row \<and> be_eventRef y = be_eventRef row" by auto
      with y stored(3) show "\<exists>y \<in> set (bs_events t). holdsRef i y \<and> be_applyStatus y = Apply_applied"
        by (auto simp: holdsRef_def)
      show "\<forall>y \<in> set (bs_events s). normalizeOptionalString (bi_eventRef i) \<noteq> None \<longrightarrow> holdsRef i y \<longrightarrow> be_applyStatus y \<noteq> Apply_applied"
      proof (intro ballI impI)
        fix y assume y: "y \<in> set (bs_events s)" "normalizeOptionalString (bi_eventRef i) \<noteq> None" "holdsRef i y"
        then have "sameRef y row" using stored(3) by (auto simp: holdsRef_def sameRef_def)
        with ok1 y sub have "y = row" unfolding eventsOk_def by blast
        with \<open>be_applyStatus row \<noteq> Apply_applied\<close> show "be_applyStatus y \<noteq> Apply_applied" by simp
      qed
    qed
    show ?thesis using rowStep_eventsOk [OF step ok1(1)] keep applied by blast
  qed
  then show "eventsOk (bs_events t)"
    and "e \<in> set (bs_events s) \<Longrightarrow> be_applyStatus e = Apply_applied \<Longrightarrow> e \<in> set (bs_events t)"
    and "r = Inr (Answer_applied, x) \<Longrightarrow>
      (\<exists>row \<in> set (bs_events t). holdsRef i row \<and> be_applyStatus row = Apply_applied) \<and>
      (\<forall>row \<in> set (bs_events s). normalizeOptionalString (bi_eventRef i) \<noteq> None \<longrightarrow> holdsRef i row \<longrightarrow>
         be_applyStatus row \<noteq> Apply_applied)" by blast+
qed

type_synonym event_call = "billing_env \<times> billing_event_input"

primrec runEvents :: "event_call list \<Rightarrow> billing_service \<Rightarrow> billing_service" where
  "runEvents [] s = s"
| "runEvents (c # cs) s = runEvents cs (snd (apply_event (fst c) (snd c) s))"

definition answersApplied :: "apply_answer \<times> string \<Rightarrow> bool" where
  "answersApplied a \<longleftrightarrow> fst a = Answer_applied"

primrec appliedAnswers :: "event_source \<Rightarrow> string \<Rightarrow> event_call list \<Rightarrow> billing_service \<Rightarrow> nat" where
  "appliedAnswers src ref [] s = 0"
| "appliedAnswers src ref (c # cs) s =
     (case apply_event (fst c) (snd c) s of (r, t) \<Rightarrow>
        (if bi_source (snd c) = src \<and> normalizeOptionalString (bi_eventRef (snd c)) = Some ref \<and>
            (case r of Inr a \<Rightarrow> answersApplied a | Inl _ \<Rightarrow> False) then 1 else 0) + appliedAnswers src ref cs t)"

lemma runEvents_append: "runEvents (cs @ ds) s = runEvents ds (runEvents cs s)"
  by (induction cs arbitrary: s) simp_all

lemma runEvents_table:
  "eventsOk (bs_events s) \<Longrightarrow> eventsOk (bs_events (runEvents cs s)) \<and>
     (\<forall>e \<in> set (bs_events s). be_applyStatus e = Apply_applied \<longrightarrow> e \<in> set (bs_events (runEvents cs s)))"
proof (induction cs arbitrary: s)
  case (Cons c cs)
  obtain r t where "apply_event (fst c) (snd c) s = (r, t)" by (cases "apply_event (fst c) (snd c) s")
  with Cons.IH [of t] apply_event_table [OF this Cons.prems] show ?case by auto
qed simp

lemma appliedAnswers_bound:
  "eventsOk (bs_events s) \<Longrightarrow> appliedAnswers src ref cs s \<le>
     (if \<exists>e \<in> set (bs_events s). be_source e = src \<and> be_eventRef e = Some ref \<and> be_applyStatus e = Apply_applied then 0 else 1)"
proof (induction cs arbitrary: s)
  case (Cons c cs)
  let ?held = "\<lambda>s. \<exists>e \<in> set (bs_events s). be_source e = src \<and> be_eventRef e = Some ref \<and> be_applyStatus e = Apply_applied"
  obtain r t where c: "apply_event (fst c) (snd c) s = (r, t)" by (cases "apply_event (fst c) (snd c) s")
  note T = apply_event_table [OF c Cons.prems]
  have up: "?held s \<Longrightarrow> ?held t" using T(2) by blast
  have rest: "appliedAnswers src ref cs t \<le> (if ?held t then 0 else 1)" by (rule Cons.IH [OF T(1)])
  show ?case
  proof (cases "bi_source (snd c) = src \<and> normalizeOptionalString (bi_eventRef (snd c)) = Some ref \<and>
      (case r of Inr a \<Rightarrow> answersApplied a | Inl _ \<Rightarrow> False)")
    case False
    then have "appliedAnswers src ref (c # cs) s = appliedAnswers src ref cs t" by (simp add: c)
    with rest up show ?thesis by (auto split: if_splits)
  next
    case True
    then obtain x where "r = Inr (Answer_applied, x)" by (auto simp: answersApplied_def split: sum.splits)
    from T(3) [OF this] True have "?held t" "\<not> ?held s" by (auto simp: holdsRef_def)
    with rest True show ?thesis by (simp add: c)
  qed
qed simp


definition sampleEnv :: billing_env where
  "sampleEnv = \<lparr>en_parseDate = (\<lambda>_. Some 0), en_reports = False, en_raced = False,
     en_settings = Inr \<lparr>ls_gracePeriodDays = 7, ls_globalFallbackPlanCode = None\<rparr>, en_managed = (\<lambda>_ _. Inr ''sub'')\<rparr>"

definition sampleEvent :: billing_event_input where
  "sampleEvent = \<lparr>bi_workspaceId = ''ws'', bi_userId = None, bi_source = Provider,
     bi_eventCode = Ev_subscription_cancel_scheduled, bi_eventRef = Some ''evt-1'', bi_paymentIntentRef = None,
     bi_billingProvider = None, bi_providerCustomerRef = None, bi_providerSubscriptionRef = None, bi_paidPlanCode = None,
     bi_currentPeriodStartedAt = None, bi_currentPeriodEndsAt = None, bi_metadata = None\<rparr>"

definition sampleService :: billing_service where
  "sampleService = \<lparr>bs_db = sampleDb, bs_events = [], bs_eventIdOf = (\<lambda>n. replicate n CHR ''x''), bs_managedLog = []\<rparr>"

lemma sample_applied: "appliedAnswers Provider ''evt-1'' [(sampleEnv, sampleEvent)] sampleService = 1"
  by code_simp


section \<open>Events keep the books\<close>

text \<open>Every change of the billing data is a step of one lifecycle operation on the event's workspace, or leaves the
  subscription table, the event log and the wallets as they are up to the charge description.\<close>

inductive billing_steps :: "string \<Rightarrow> billing_data \<Rightarrow> billing_data \<Rightarrow> bool" for w where
  none: "billing_steps w d d"
| more: "billing_steps w d d' \<Longrightarrow> billing_step w d' e \<Longrightarrow> billing_steps w d e"

lemma applyToLifecycle_step:
  assumes "applyToLifecycle env current i eid s = (r, t)"
  shows "billing_step (bi_workspaceId i) (dbData s) (dbData t)"
proof -
  have w: "li_workspaceId (lifecycleInput eid i) = bi_workspaceId i" by (simp add: lifecycleInput_def)
  show ?thesis
    using assms w
    by (cases "bi_eventCode i")
      (auto simp: applyToLifecycle_def Let_def assertCurrentSubscriptionExists_def throwS_def recoverPayment_def
        activatePaidSubscription_def billing_step_same split: option.splits sum.splits
        dest: startPaidGrace_step applyActivePaid_step schedulePaidCancellation_step resumePaidAutoRenew_step
          enablePaidAutoRenew_step applyImmediate_step)
qed

definition stepsFrom :: "string \<Rightarrow> billing_data \<Rightarrow> billing_service \<Rightarrow> bool" where
  "stepsFrom w d0 s \<longleftrightarrow> billing_steps w d0 (dbData (bs_db s))"

lemma stepsFrom_eventStmt: "preserves (stepsFrom w d0) (eventStmt f)"
  unfolding preserves_def
proof (intro allI impI)
  fix s assume s: "stepsFrom w d0 s"
  obtain r t where t: "eventStmt f s = (r, t)" by (cases "eventStmt f s")
  then have "dbData (bs_db t) = dbData (bs_db s)" by (cases rule: eventStmt_cases) simp_all
  with s t show "stepsFrom w d0 (snd (eventStmt f s))" by (simp add: stepsFrom_def)
qed

lemma stepsFrom_billingOp:
  assumes "\<And>s r t. m s = (r, t) \<Longrightarrow> billing_step w (dbData s) (dbData t)"
  shows "preserves (stepsFrom w d0) (billingOp m)"
  unfolding preserves_def
proof (intro allI impI)
  fix s assume s: "stepsFrom w d0 s"
  obtain r b where m: "m (bs_db s) = (r, b)" by (cases "m (bs_db s)")
  with s assms [OF m] show "stepsFrom w d0 (snd (billingOp m s))"
    by (auto simp: stepsFrom_def billingOp_def intro: billing_steps.more)
qed

lemma stepsFrom_read:
  assumes "\<And>n d. snd (f n d) = d"
  shows "preserves (stepsFrom w d0) (billingOp (tx f))"
proof (rule stepsFrom_billingOp)
  fix s r t assume "tx f s = (r, t)"
  then show "billing_step w (dbData s) (dbData t)"
  proof (cases rule: tx_cases)
    case (committed a)
    with assms [of "dbNow s" "dbData s"] show ?thesis by (simp add: billing_step_same)
  qed (simp add: billing_step_same)
qed

lemma descriptor_step:
  "updateSubscription w (\<lambda>st. st\<lparr>sub_providerRecurringDescriptor := v\<rparr>) d = (Inr a, d') \<Longrightarrow> billing_step w d d'"
  by (auto simp: updateSubscription_def billing_step_def subStep_def ledgerStep_def step_simps view_def balanceOf_def
      fun_eq_iff split: option.splits intro!: exI [of _ "[]"])

lemma stepsFrom_descriptor:
  "preserves (stepsFrom w d0) (billingOp (tx (\<lambda>_. updateSubscription w (\<lambda>st. st\<lparr>sub_providerRecurringDescriptor := v\<rparr>))))"
proof (rule stepsFrom_billingOp)
  fix s r t assume "tx (\<lambda>_. updateSubscription w (\<lambda>st. st\<lparr>sub_providerRecurringDescriptor := v\<rparr>)) s = (r, t)"
  then show "billing_step w (dbData s) (dbData t)"
    by (cases rule: tx_cases) (auto simp: billing_step_same dest: descriptor_step)
qed

lemma stepsFrom_planDescription: "preserves (stepsFrom w d0) (planDescription code)"
  unfolding planDescription_def
  by (cases code) (auto intro!: preserves_bind stepsFrom_read simp: findPlan_def)

lemma stepsFrom_managed:
  "preserves (stepsFrom (bi_workspaceId i) d0) (applyManagedSubscriptionUpdateIfNeeded env e i)"
proof (cases "readManagedSubscriptionUpdate (bi_metadata i)")
  case (Some update)
  have "preserves (stepsFrom (bi_workspaceId i) d0) (updateManagedSubscription env update d)" for d
    by (simp add: preserves_def updateManagedSubscription_def stepsFrom_def)
  then show ?thesis
    unfolding applyManagedSubscriptionUpdateIfNeeded_def Some option.case Let_def
    by (intro preserves_case_option preserves_return preserves_bind stepsFrom_planDescription
        preserves_currentTime stepsFrom_eventStmt stepsFrom_descriptor)
qed (simp add: applyManagedSubscriptionUpdateIfNeeded_def)

lemma managed_workspace:
  assumes "applyManagedSubscriptionUpdateIfNeeded env e i s = (Inr li, t)"
  shows "bi_workspaceId li = bi_workspaceId i"
  using assms unfolding applyManagedSubscriptionUpdateIfNeeded_def Let_def
  by (auto simp: bindS_eq_Inr_iff split: option.splits)

lemma preserves_bind_result:
  assumes "preserves P m" "\<And>s a t. m s = (Inr a, t) \<Longrightarrow> preserves P (f a)"
  shows "preserves P (bindS m f)"
  unfolding preserves_def
proof (intro allI impI)
  fix s assume s: "P s"
  obtain r t where m: "m s = (r, t)" by (cases "m s")
  with assms(1) s have t: "P t" by (metis preserves_result)
  show "P (snd (bindS m f s))"
  proof (cases r)
    case (Inr a)
    with m have "m s = (Inr a, t)" by simp
    with assms(2) [OF this] t Inr m show ?thesis by (simp add: preserves_def)
  qed (simp add: m t bindS_def)
qed

lemma stepsFrom_marks:
  "preserves (stepsFrom w d0) (markIgnored eid)" "preserves (stepsFrom w d0) (markApplied eid sid)"
  "preserves (stepsFrom w d0) (markFailed eid err)"
  unfolding markIgnored_def markApplied_def markFailed_def by (rule stepsFrom_eventStmt)+

lemma stepsFrom_applyStored:
  "preserves (stepsFrom (bi_workspaceId i) d0) (applyStored env i current e)"
proof -
  let ?P = "stepsFrom (bi_workspaceId i) d0"
  let ?run = "\<lambda>li. bindS (billingOp (applyToLifecycle env current li (be_id e))) (\<lambda>_.
      bindS (billingOp (tx (\<lambda>_. findSubscription (bi_workspaceId i)))) (\<lambda>applied.
      bindS (markApplied (be_id e) (orElse (map_option sub_id applied) (map_option sub_id current))) (\<lambda>_.
      returnS (Answer_applied, be_id e))))"
  have "preserves ?P (?run li)" if "bi_workspaceId li = bi_workspaceId i" for li
  proof -
    have "preserves ?P (billingOp (applyToLifecycle env current li (be_id e)))"
      by (rule stepsFrom_billingOp) (use applyToLifecycle_step that in metis)
    then show ?thesis
      by (intro preserves_bind preserves_return stepsFrom_marks stepsFrom_read) (simp_all add: findSubscription_def)
  qed
  then have "preserves ?P (bindS (applyManagedSubscriptionUpdateIfNeeded env e i) ?run)"
    by (intro preserves_bind_result [OF stepsFrom_managed]) (use managed_workspace in blast)
  then show ?thesis
    unfolding applyStored_def Let_def
    by (intro preserves_catch preserves_if preserves_bind [OF stepsFrom_marks(1)] preserves_bind [OF stepsFrom_marks(3)]
        preserves_return preserves_throw)
qed

lemma apply_event_steps:
  assumes "apply_event env i s = (r, t)"
  shows "billing_steps (bi_workspaceId i) (dbData (bs_db s)) (dbData (bs_db t))"
  using assms
proof (cases rule: apply_event_cases)
  case (stored row s1)
  have "stepsFrom (bi_workspaceId i) (dbData (bs_db s)) s1"
    using stored(2) by (simp add: stepsFrom_def sameBilling_def billing_steps.none)
  with preserves_result [OF stepsFrom_applyStored stored(1)] show ?thesis by (simp add: stepsFrom_def)
qed (simp_all add: sameBilling_def billing_steps.none)

definition booksKept :: "billing_data \<Rightarrow> billing_data \<Rightarrow> bool" where
  "booksKept d0 d \<longleftrightarrow> rowsOk d \<and> logEdges d \<and> logExplains d0 d \<and> keysDistinct d \<and> (\<forall>w. balanceOf d w = ledgerSum w d)"

lemma booksKept_steps: "billing_steps w d d' \<Longrightarrow> booksKept d0 d \<Longrightarrow> booksKept d0 d'"
proof (induction rule: billing_steps.induct)
  case (more d d' e)
  then have s: "subStep w d' e" and k: "booksKept d0 d'" by (simp_all add: billing_step_def)
  have "spent v e = spent v d'" for v by (rule spent_billing_step [OF more.hyps(2)])
  with k subStep_rowsOk [OF s] subStep_logEdges [OF s] subStep_logExplains [OF s] keysDistinct_step [OF more.hyps(2)]
  show ?case by (simp add: booksKept_def spent_def)
qed



section \<open>A payment that is already settled\<close>

lemma eventStmt_sameBilling: "eventStmt f s = (r, t) \<Longrightarrow> sameBilling s t"
  by (erule eventStmt_cases) (simp_all add: sameBilling_def)

lemma ignoring_stores_only:
  assumes "applyStored env i current e s = (r, t)" "current = Some st" "shouldIgnore st i"
  shows "sameBilling s t \<and> (\<forall>x. r \<noteq> Inr (Answer_applied, x))"
proof -
  obtain r1 s1 where 1: "markIgnored (be_id e) s = (r1, s1)" by (cases "markIgnored (be_id e) s")
  have s1: "sameBilling s s1" using 1 unfolding markIgnored_def by (rule eventStmt_sameBilling)
  show ?thesis
  proof (cases r1)
    case (Inr u)
    with assms 1 have "r = Inr (Answer_ignored, be_id e)" "t = s1"
      by (simp_all add: applyStored_def Let_def catchS_def bindS_def)
    with s1 show ?thesis by simp
  next
    case (Inl err)
    obtain r2 s2 where 2: "markFailed (be_id e) err s1 = (r2, s2)" by (cases "markFailed (be_id e) err s1")
    have "sameBilling s1 s2" using 2 unfolding markFailed_def by (rule eventStmt_sameBilling)
    moreover from assms 1 2 Inl have "isl r" "t = s2"
      by (auto simp: applyStored_def Let_def catchS_def bindS_def split: sum.splits)
    ultimately show ?thesis using s1 by (auto simp: sameBilling_def)
  qed
qed

text \<open>Redelivering a payment that the subscription row already shows (status Active, the paid plan, the period in
  ISO form, no other provider references) changes nothing but the table of events: subscription, ledger,
  wallet, event log, dirty marks and rollouts stay, the provider is not called, and the answer is not
  \<open>applied\<close>. This holds also for the retry of an event that failed after the payment had been stored.\<close>

theorem settled_payment_is_ignored:
  assumes "apply_event env i s = (r, t)" "subscriptionTable (dbData (bs_db s)) (bi_workspaceId i) = Some st"
    and "bi_eventCode i \<in> {Ev_payment_activated, Ev_renewal_succeeded, Ev_payment_recovered}"
    and "sub_status st = Active" "bi_paidPlanCode i = Some (sub_planCode st)"
    and "sub_currentPeriodStartedAt st = Some a" "normalizeOptionalString (bi_currentPeriodStartedAt i) = Some (toISOString a)"
    and "sub_currentPeriodEndsAt st = Some b" "normalizeOptionalString (bi_currentPeriodEndsAt i) = Some (toISOString b)"
    and "bi_billingProvider i \<in> {None, sub_billingProvider st}"
    and "bi_providerCustomerRef i \<in> {None, sub_providerCustomerRef st}"
    and "bi_providerSubscriptionRef i \<in> {None, sub_providerSubscriptionRef st}"
  shows "dbData (bs_db t) = dbData (bs_db s) \<and> bs_managedLog t = bs_managedLog s \<and> (\<forall>x. r \<noteq> Inr (Answer_applied, x))"
proof -
  have "agrees (bi_billingProvider i) (sub_billingProvider st)" "agrees (bi_providerCustomerRef i) (sub_providerCustomerRef st)"
    "agrees (bi_providerSubscriptionRef i) (sub_providerSubscriptionRef st)"
    using assms(10-12) by (auto simp: agrees_def orElse_def split: option.splits)
  then have ign: "shouldIgnore st i" using assms(3-9) by (auto simp: shouldIgnore_def Let_def sameIso_def)
  from assms(1) show ?thesis
  proof (cases rule: apply_event_cases)
    case (stored row s1)
    with assms(2) ignoring_stores_only [OF stored(1) assms(2) ign] show ?thesis by (auto simp: sameBilling_def)
  qed (auto simp: sameBilling_def)
qed

definition settledPayment :: billing_event_input where
  "settledPayment = sampleEvent\<lparr>bi_eventCode := Ev_renewal_succeeded, bi_paidPlanCode := Some ''basic'',
     bi_currentPeriodStartedAt := Some ''1970-01-01T00:00:00.000Z'', bi_currentPeriodEndsAt := Some ''1970-01-31T00:00:00.000Z''\<rparr>"

lemma settled_dates:
  "normalizeOptionalString (Some ''1970-01-01T00:00:00.000Z'') = Some (toISOString 0)"
  "normalizeOptionalString (Some ''1970-01-31T00:00:00.000Z'') = Some (toISOString 2592000000)"
  by code_simp+

theorem settled_payment_is_ignored_witness:
  "dbData (bs_db (snd (apply_event sampleEnv settledPayment sampleService))) = dbData (bs_db sampleService)"
proof -
  obtain r t where a: "apply_event sampleEnv settledPayment sampleService = (r, t)"
    by (cases "apply_event sampleEnv settledPayment sampleService")
  have "dbData (bs_db t) = dbData (bs_db sampleService) \<and> bs_managedLog t = bs_managedLog sampleService \<and>
      (\<forall>x. r \<noteq> Inr (Answer_applied, x))"
    by (rule settled_payment_is_ignored [OF a, where a = 0 and b = 2592000000 and
        st = sampleRow])
      (simp_all add: settledPayment_def sampleEvent_def sampleService_def sample_defs settled_dates)
  with a show ?thesis by simp
qed

section \<open>A failure is recorded\<close>

definition faultsAre :: "(nat \<Rightarrow> fault) \<Rightarrow> billing_data database \<Rightarrow> bool" where
  "faultsAre F s \<longleftrightarrow> dbFault s = F"

lemma faultsAre_tx: "preserves (faultsAre F) (tx f)"
  unfolding preserves_def faultsAre_def by (metis prod.collapse tx_frame)

lemma faultsAre_pgTx: "preserves (faultsAre F) (pgTx reports f)"
  by (auto simp: preserves_def faultsAre_def pgTx_def Let_def split: fault.splits)

lemma faultsAre_emit: "preserves (faultsAre F) (emitForLifecycleEventIds ids)"
  by (induction ids; unfold emitForLifecycleEventIds.simps; intro preserves_bind preserves_return faultsAre_tx)

lemma preserves_case_throw:
  "(\<And>p. preserves P (f p)) \<Longrightarrow> preserves P (case v of Inl e \<Rightarrow> throwS e | Inr p \<Rightarrow> f p)"
  by (cases v) simp_all

lemma faultsAre_after: "preserves (faultsAre F) (afterLifecycle i reason scope ids)"
  unfolding afterLifecycle_def markWorkspaceAssistantsConfigDirty_def queueBillingLifecycleRollout_def
  by (intro preserves_bind faultsAre_tx faultsAre_emit)

lemma faultsAre_unlessEmpty: "(\<And>ids. preserves (faultsAre F) (f ids)) \<Longrightarrow> preserves (faultsAre F) (unlessEmpty f ids)"
  by (simp add: unlessEmpty_def)

lemma faultsAre_withSettings: "(\<And>x. preserves (faultsAre F) (f x)) \<Longrightarrow> preserves (faultsAre F) (withSettings settings f)"
  by (simp add: withSettings_def split: sum.splits)

lemma faultsAre_activePaid: "preserves (faultsAre F) (applyActivePaidTransition pd reports raced i p code reason)"
  unfolding applyActivePaidTransition_def
  by (intro preserves_bind preserves_if preserves_throw preserves_case_throw faultsAre_tx faultsAre_pgTx faultsAre_after)

lemma faultsAre_assert:
  "(\<And>st. preserves (faultsAre F) (f st)) \<Longrightarrow> preserves (faultsAre F) (assertCurrentSubscriptionExists current f)"
  by (simp add: assertCurrentSubscriptionExists_def split: option.splits)

lemma faultsAre_lifecycle: "preserves (faultsAre F) (applyToLifecycle env current i eid)"
  unfolding applyToLifecycle_def Let_def
  by (cases "bi_eventCode i"; simp only: billing_event_code.case; intro faultsAre_assert preserves_case_throw;
      unfold startPaidGrace_def recoverPayment_def activatePaidSubscription_def applyImmediatePaidFallback_def
        schedulePaidCancellationAtPeriodEnd_def resumePaidAutoRenew_def enablePaidAutoRenew_def;
      intro faultsAre_activePaid faultsAre_withSettings preserves_bind faultsAre_pgTx faultsAre_after faultsAre_unlessEmpty)

definition serviceFaults :: "(nat \<Rightarrow> fault) \<Rightarrow> billing_service \<Rightarrow> bool" where
  "serviceFaults F s \<longleftrightarrow> dbFault (bs_db s) = F"

lemma serviceFaults_eventStmt: "preserves (serviceFaults F) (eventStmt f)"
  by (simp add: preserves_def serviceFaults_def eventStmt_def split: prod.splits)

lemma serviceFaults_billingOp: "preserves (faultsAre F) m \<Longrightarrow> preserves (serviceFaults F) (billingOp m)"
  unfolding preserves_def serviceFaults_def faultsAre_def billingOp_def by (simp add: split_beta)

lemma serviceFaults_managed: "preserves (serviceFaults F) (applyManagedSubscriptionUpdateIfNeeded env e i)"
proof (cases "readManagedSubscriptionUpdate (bi_metadata i)")
  case (Some update)
  have "preserves (serviceFaults F) (updateManagedSubscription env update d)" for d
    by (simp add: preserves_def updateManagedSubscription_def serviceFaults_def)
  moreover have "preserves (serviceFaults F) (planDescription code)" for code
    unfolding planDescription_def
    by (cases code) (simp, simp only: option.case, intro preserves_bind preserves_return serviceFaults_billingOp faultsAre_tx)
  ultimately show ?thesis
    unfolding applyManagedSubscriptionUpdateIfNeeded_def Some option.case Let_def
    by (intro preserves_case_option preserves_return preserves_bind preserves_currentTime serviceFaults_eventStmt
        serviceFaults_billingOp faultsAre_tx)
qed (simp add: applyManagedSubscriptionUpdateIfNeeded_def)

lemma markFailed_reliable:
  assumes "markFailed eid err s = (r, t)" "reliable (bs_db s)" "eid \<in> be_id ` set (bs_events s)"
  shows "r = Inr () \<and> (\<exists>row \<in> set (bs_events t). be_id row = eid \<and> be_applyStatus row = Apply_failed \<and>
    be_lastErrorCode row = Some (resolveErrorCode err) \<and> be_lastErrorMessage row = Some (errorMessage err))"
proof -
  from assms(3) obtain e where e: "e \<in> set (bs_events s)" "be_id e = eid" by auto
  let ?f = "\<lambda>now e. e\<lparr>be_applyStatus := Apply_failed, be_failedAt := Some now, be_lastErrorCode := Some (resolveErrorCode err),
        be_lastErrorMessage := Some (errorMessage err)\<rparr>"
  have "updateEvent eid (?f (dbNow (bs_db s))) (bs_events s) =
      (Inr (), map (\<lambda>e. if be_id e = eid then ?f (dbNow (bs_db s)) e else e) (bs_events s))"
    using assms(3) by (simp add: updateEvent_def)
  from eventStmt_reliable [of s "\<lambda>now. updateEvent eid (?f now)", OF assms(2) this] assms(1) have "r = Inr ()"
    and t: "bs_events t = map (\<lambda>e. if be_id e = eid then ?f (dbNow (bs_db s)) e else e) (bs_events s)"
    unfolding markFailed_def by auto
  moreover have "\<exists>row \<in> set (bs_events t). be_id row = eid \<and> be_applyStatus row = Apply_failed \<and>
      be_lastErrorCode row = Some (resolveErrorCode err) \<and> be_lastErrorMessage row = Some (errorMessage err)"
    unfolding t set_map by (rule bexI [OF _ imageI [OF e(1)]]) (simp add: e(2))
  ultimately show ?thesis by simp
qed

lemma rowStep_ids: "rowStep eid evs evs' \<Longrightarrow> be_id ` set evs' = be_id ` set evs"
  by (auto simp: rowStep_def atRow_key image_image)

lemma applyStored_failure:
  assumes "applyStored env i current e s = (Inl err, t)" "reliable (bs_db s)" "e \<in> set (bs_events s)"
  shows "\<exists>row \<in> set (bs_events t). be_id row = be_id e \<and> be_applyStatus row = Apply_failed \<and>
    be_lastErrorCode row = Some (resolveErrorCode err) \<and> be_lastErrorMessage row = Some (errorMessage err)"
proof -
  let ?P = "\<lambda>s'. rowStep (be_id e) (bs_events s) (bs_events s')" and ?F = "serviceFaults (dbFault (bs_db s))"
  let ?body = "if (case current of Some st \<Rightarrow> shouldIgnore st i | None \<Rightarrow> False)
         then bindS (markIgnored (be_id e)) (\<lambda>_. returnS (Answer_ignored, be_id e))
         else bindS (applyManagedSubscriptionUpdateIfNeeded env e i) (\<lambda>li.
              bindS (billingOp (applyToLifecycle env current li (be_id e))) (\<lambda>_.
              bindS (billingOp (tx (\<lambda>_. findSubscription (bi_workspaceId i)))) (\<lambda>applied.
              bindS (markApplied (be_id e) (orElse (map_option sub_id applied) (map_option sub_id current))) (\<lambda>_.
              returnS (Answer_applied, be_id e)))))"
  obtain r1 s1 where b: "?body s = (r1, s1)" by (cases "?body s")
  have "preserves ?P ?body"
    by (intro preserves_if preserves_return preserves_bind managed_rowStep marks_rowStep preserves_billingOp_events)
  from preserves_result [OF this b] have p: "?P s1" by simp
  have "preserves ?F ?body"
    unfolding markIgnored_def markApplied_def
    by (intro preserves_if preserves_return preserves_bind serviceFaults_managed serviceFaults_eventStmt
        serviceFaults_billingOp faultsAre_lifecycle faultsAre_tx)
  from preserves_result [OF this b] have "reliable (bs_db s1)" using assms(2) by (simp add: serviceFaults_def reliable_def)
  moreover have "be_id e \<in> be_id ` set (bs_events s1)" using rowStep_ids [OF p] assms(3) by simp
  moreover obtain r2 s2 where "r1 = Inl r2" using b assms(1)
    by (cases r1) (auto simp: applyStored_def Let_def catchS_def)
  moreover obtain r3 where m: "markFailed (be_id e) r2 s1 = (r3, t)" "r3 = Inr () \<longrightarrow> err = r2"
    using b assms(1) \<open>r1 = Inl r2\<close>
    by (cases "markFailed (be_id e) r2 s1")
      (auto simp: applyStored_def Let_def catchS_def bindS_def split: sum.splits)
  ultimately show ?thesis using markFailed_reliable [OF m(1)] m(2) by blast
qed

text \<open>No failure is lost: with a reliable database, an event that is answered with an error either could not be
  stored (a reference taken, a date that does not parse) and changed nothing, or its row is marked failed with
  the code and the message of that error, ready to be delivered again.\<close>

theorem failed_event_is_recorded:
  assumes "apply_event env i s = (Inl err, t)" "reliable (bs_db s)" "eventsOk (bs_events s)"
  shows "bs_events t = bs_events s \<and> dbData (bs_db t) = dbData (bs_db s) \<and> bs_managedLog t = bs_managedLog s \<or>
    (\<exists>row \<in> set (bs_events t). holdsRef i row \<and> be_applyStatus row = Apply_failed \<and>
      be_lastErrorCode row = Some (resolveErrorCode err) \<and> be_lastErrorMessage row = Some (errorMessage err))"
  using assms(1)
proof (cases rule: apply_event_cases)
  case (stored row s1)
  have row: "row \<in> set (bs_events s1)" "eventsOk (bs_events s1)"
    using stored(4) assms(3) insertEvent_eventsOk [OF assms(3), of row row "bs_events s1"] by auto
  have "reliable (bs_db s1)" using sameBilling_reliable [OF stored(2)] assms(2) by simp
  from applyStored_failure [OF stored(1) this row(1)] obtain y where
    y: "y \<in> set (bs_events t)" "be_id y = be_id row" "be_applyStatus y = Apply_failed"
      "be_lastErrorCode y = Some (resolveErrorCode err)" "be_lastErrorMessage y = Some (errorMessage err)" by blast
  have step: "rowStep (be_id row) (bs_events s1) (bs_events t)"
    using preserves_result [OF applyStored_rowStep [of row "bs_events s1" env i] stored(1)] by simp
  from rowStep_key [OF step y(1)] obtain x where x: "x \<in> set (bs_events s1)" "be_id x = be_id row" "be_source y = be_source x"
    "be_eventRef y = be_eventRef x" using y(2) by auto
  with row have "x = row" by (auto simp: eventsOk_def dest: inj_onD [OF distinct_map [THEN iffD1, THEN conjunct2]])
  with x y stored(3) show ?thesis by (auto simp: holdsRef_def)
qed (use assms(2) in \<open>auto simp: sameBilling_def\<close>)

definition orphanService :: billing_service where
  "orphanService = sampleService\<lparr>bs_db := sampleDb\<lparr>dbData := sampleData\<lparr>subscriptionTable := Map.empty\<rparr>\<rparr>\<rparr>"

lemma orphan_fails: "isl (fst (apply_event sampleEnv sampleEvent orphanService))"
  by code_simp

theorem failed_event_is_recorded_witness:
  "\<exists>err t. apply_event sampleEnv sampleEvent orphanService = (Inl err, t) \<and>
     (bs_events t = [] \<or> (\<exists>row \<in> set (bs_events t). be_applyStatus row = Apply_failed \<and>
        be_lastErrorCode row = Some (resolveErrorCode err)))"
proof -
  from orphan_fails obtain err t where a: "apply_event sampleEnv sampleEvent orphanService = (Inl err, t)"
    by (cases "apply_event sampleEnv sampleEvent orphanService") (auto simp: isl_def)
  have "reliable (bs_db orphanService)" "eventsOk (bs_events orphanService)" "bs_events orphanService = []"
    by (simp_all add: orphanService_def sampleService_def sample_defs reliable_def eventsOk_def)
  with failed_event_is_recorded [OF a] a show ?thesis by auto
qed

end
