(* ===== verification/AsyncJobStore.thy ===== *)
theory AsyncJobStore
  imports Database
begin

text \<open>
  The tables behind asynchronous jobs of a chat (\<open>apps/api/prisma/schema.prisma\<close>): the handle that says
  who tells the user about a job and whether a follow-up turn is due, the jobs themselves, chats, messages and
  runtime sessions, and the readings of a job's state the handle service shares
  (\<open>assistant-async-job-handle-state.service.ts\<close>).

  Tables are lists of rows in the order of insertion. Ids, tokens and wave ids are given by the caller; a row keeps
  the columns the service reads or writes. Job rows are written by the services that run the jobs, which are not
  modelled: they may change between any two transactions.
\<close>

datatype handle_kind = Media_job | Document_job | Sandbox_job

datatype handle_state =
    H_none | H_subscribed | H_ready | H_claimed | H_dispatched | H_completed | H_failed | H_cancelled

datatype narration_owner = Current_turn | Continuation | Legacy

datatype chat_surface = Web | Telegram_chat

record async_handle =
  ah_id :: string
  ah_jobRef :: string
  ah_kind :: handle_kind
  ah_canonicalJobId :: string
  ah_assistantId :: string
  ah_workspaceId :: string
  ah_userId :: string
  ah_chatId :: string
  ah_channel :: chat_surface
  ah_threadKey :: "string option"
  ah_sourceClientTurnId :: "string option"
  ah_sourceUserMessageId :: "string option"
  ah_runtimeSessionId :: "string option"
  ah_state :: handle_state
  ah_terminalSnapshotJson :: "json option"
  ah_narrationOwner :: "narration_owner option"
  ah_narrationDecision :: "string option"
  ah_sourceFinalizedAt :: "int option"
  ah_narrationDecisionAt :: "int option"
  ah_terminalObservedAt :: "int option"
  ah_continuationDepth :: int
  ah_continuationClientTurnId :: "string option"
  ah_claimToken :: "string option"
  ah_claimedAt :: "int option"
  ah_claimExpiresAt :: "int option"
  ah_readyAt :: "int option"
  ah_catchUpOrdinal :: "int option"
  ah_catchUpWaveTotal :: "int option"
  ah_catchUpWaveId :: "string option"
  ah_dispatchedAt :: "int option"
  ah_dispatchReceiptRequestId :: "string option"
  ah_continuationAssistantMessageId :: "string option"
  ah_artifactsAttemptedAt :: "int option"
  ah_artifactsDeliveredAt :: "int option"
  ah_artifactsResult :: "string option"
  ah_artifactsError :: "string option"
  ah_externalAttemptedAt :: "int option"
  ah_externalResult :: "string option"
  ah_externalError :: "string option"
  ah_completedAt :: "int option"
  ah_failedAt :: "int option"
  ah_cancelledAt :: "int option"
  ah_retryCount :: int
  ah_maxRetries :: int
  ah_nextRetryAt :: "int option"
  ah_lastErrorCode :: "string option"
  ah_lastErrorMessage :: "string option"
  ah_createdAt :: int
  ah_updatedAt :: int

datatype sandbox_status = S_queued | S_running | S_detached | S_completed | S_failed | S_blocked | S_cancelled

record sandbox_job =
  sj_id :: string
  sj_assistantId :: string
  sj_workspaceId :: string
  sj_runtimeRequestId :: "string option"
  sj_runtimeSessionId :: "string option"
  sj_toolCode :: string
  sj_status :: sandbox_status
  sj_resultPayload :: json
  sj_startedAt :: "int option"

datatype media_status =
    M_queued | M_running | M_completion_pending | M_delivered | M_failed | M_canceled | M_expired

record media_job =
  mj_id :: string
  mj_chatId :: string
  mj_status :: media_status
  mj_lastErrorCode :: "string option"
  mj_deliveredAt :: "int option"
  mj_completionAssistantMessageId :: "string option"

datatype document_status =
    D_queued | D_running | D_provider_processing | D_fetching_output | D_ready_for_delivery | D_delivered
  | D_failed | D_expired | D_canceled

record document_job =
  dj_id :: string
  dj_chatId :: string
  dj_status :: document_status
  dj_lastErrorCode :: "string option"
  dj_deliveredAt :: "int option"
  dj_providerStatusJson :: json

record chat_row =
  ch_id :: string
  ch_assistantId :: string
  ch_workspaceId :: string
  ch_userId :: string
  ch_surface :: chat_surface
  ch_surfaceThreadKey :: string
  ch_lastUserTurnStartedAt :: "int option"
  ch_lastUserTurnTerminalAt :: "int option"
  ch_catchUpAdmissionFence :: int
  ch_catchUpLastScannedAt :: "int option"

datatype message_author = Author_user | Author_assistant

record chat_message =
  cm_id :: string
  cm_chatId :: string
  cm_assistantId :: string
  cm_author :: message_author
  cm_content :: string
  cm_metadata :: json

record session_row =
  se_id :: string
  se_assistantId :: string
  se_workspaceId :: string
  se_channel :: chat_surface
  se_externalThreadKey :: string
  se_closedAt :: "int option"

text \<open>\<open>attachmentsOf\<close>: the ids of the messages that have an attachment.\<close>

record async_data =
  handleTable :: "async_handle list"
  sandboxJobs :: "sandbox_job list"
  mediaJobs :: "media_job list"
  documentJobs :: "document_job list"
  chatTable :: "chat_row list"
  messageTable :: "chat_message list"
  attachmentsOf :: "string list"
  sessionTable :: "session_row list"

section \<open>Rows\<close>

definition findHandle :: "(async_handle \<Rightarrow> bool) \<Rightarrow> async_data \<Rightarrow> async_handle option" where
  "findHandle p d = find p (handleTable d)"

definition sandboxJob :: "string \<Rightarrow> async_data \<Rightarrow> sandbox_job option" where
  "sandboxJob i d = find (\<lambda>j. sj_id j = i) (sandboxJobs d)"

definition mediaJob :: "string \<Rightarrow> async_data \<Rightarrow> media_job option" where
  "mediaJob i d = find (\<lambda>j. mj_id j = i) (mediaJobs d)"

definition documentJob :: "string \<Rightarrow> async_data \<Rightarrow> document_job option" where
  "documentJob i d = find (\<lambda>j. dj_id j = i) (documentJobs d)"

definition chatMessage :: "string \<Rightarrow> async_data \<Rightarrow> chat_message option" where
  "chatMessage i d = find (\<lambda>m. cm_id m = i) (messageTable d)"

definition chatRow :: "string \<Rightarrow> async_data \<Rightarrow> chat_row option" where
  "chatRow i d = find (\<lambda>c. ch_id c = i) (chatTable d)"

text \<open>\<open>updateMany({ where, data })\<close> with the number of rows; the client also writes \<open>updatedAt\<close>.\<close>

definition updateHandles ::
  "int \<Rightarrow> (async_handle \<Rightarrow> bool) \<Rightarrow> (async_handle \<Rightarrow> async_handle) \<Rightarrow> async_data \<Rightarrow> async_data" where
  "updateHandles now p f d =
     d\<lparr>handleTable := map (\<lambda>h. if p h then (f h)\<lparr>ah_updatedAt := now\<rparr> else h) (handleTable d)\<rparr>"

definition countHandles :: "(async_handle \<Rightarrow> bool) \<Rightarrow> async_data \<Rightarrow> nat" where
  "countHandles p d = length (filter p (handleTable d))"

section \<open>The state of a job\<close>

datatype terminal_status = T_completed | T_failed | T_cancelled

definition terminalString :: "terminal_status \<Rightarrow> string" where
  "terminalString st = (case st of T_completed \<Rightarrow> ''completed'' | T_failed \<Rightarrow> ''failed'' | T_cancelled \<Rightarrow> ''cancelled'')"

record sandbox_result =
  sr_toolCode :: string
  sr_exitCode :: "js_number option"
  sr_stdout :: "string option"
  sr_stderr :: "string option"
  sr_paths :: "string list"

text \<open>\<open>ct_status = None\<close> is \<open>"pending"\<close>.\<close>

record canonical_truth =
  ct_status :: "terminal_status option"
  ct_errorCode :: "string option"
  ct_message :: string
  ct_sandboxResult :: "sandbox_result option"

definition jgetObject :: "string \<Rightarrow> (string \<times> json) list option \<Rightarrow> json" where
  "jgetObject k obj = (case obj of None \<Rightarrow> JUndefined | Some ps \<Rightarrow> jget k ps)"

definition textOf :: "json \<Rightarrow> string option" where
  "textOf v = (case v of JStr s \<Rightarrow> (if js_trim s \<noteq> [] then Some (js_trim s) else None) | _ \<Rightarrow> None)"

definition boundedText :: "json \<Rightarrow> string option" where
  "boundedText v = (case v of JStr s \<Rightarrow> Some (take 16384 s) | _ \<Rightarrow> None)"

definition boundedPaths :: "json \<Rightarrow> string list" where
  "boundedPaths v =
     (case v of
        JArr entries \<Rightarrow> take 64 (List.map_filter (\<lambda>entry. case jgetObject ''storagePath'' (asObject entry) of
                                        JStr s \<Rightarrow> Some s | _ \<Rightarrow> None) entries)
      | _ \<Rightarrow> [])"

definition sandboxOpen :: "sandbox_status \<Rightarrow> bool" where
  "sandboxOpen st \<longleftrightarrow> st \<in> {S_queued, S_running, S_detached}"

definition readSandbox :: "string option \<Rightarrow> sandbox_job \<Rightarrow> canonical_truth option" where
  "readSandbox runtimeSessionId job =
     (if (sj_toolCode job \<noteq> ''shell'' \<and> sj_toolCode job \<noteq> ''exec'') \<or> sj_runtimeSessionId job = None \<or>
         sj_runtimeSessionId job \<noteq> runtimeSessionId
      then None
      else if sandboxOpen (sj_status job)
      then Some \<lparr>ct_status = None, ct_errorCode = None, ct_message = ''Sandbox job is still running.'', ct_sandboxResult = None\<rparr>
      else
        let payload = asObject (sj_resultPayload job);
            st = (case sj_status job of S_completed \<Rightarrow> T_completed | S_cancelled \<Rightarrow> T_cancelled | _ \<Rightarrow> T_failed)
        in Some \<lparr>ct_status = Some st, ct_errorCode = textOf (jgetObject ''reason'' payload),
             ct_message = (case st of T_completed \<Rightarrow> ''Sandbox job completed.''
                | T_cancelled \<Rightarrow> ''Sandbox job was cancelled.'' | T_failed \<Rightarrow> ''Sandbox job failed.''),
             ct_sandboxResult = Some \<lparr>sr_toolCode = sj_toolCode job,
               sr_exitCode = (case jgetObject ''exitCode'' payload of JNum x \<Rightarrow> Some x | _ \<Rightarrow> None),
               sr_stdout = boundedText (jgetObject ''stdout'' payload),
               sr_stderr = boundedText (jgetObject ''stderr'' payload),
               sr_paths = boundedPaths (jgetObject ''producedFiles'' payload)\<rparr>\<rparr>)"

definition jobFailed :: "string option \<Rightarrow> canonical_truth" where
  "jobFailed code = \<lparr>ct_status = Some T_failed, ct_errorCode = code, ct_message = ''Job failed.'', ct_sandboxResult = None\<rparr>"

definition jobCancelled :: canonical_truth where
  "jobCancelled = \<lparr>ct_status = Some T_cancelled, ct_errorCode = None, ct_message = ''Job was cancelled.'', ct_sandboxResult = None\<rparr>"

definition jobDelivered :: canonical_truth where
  "jobDelivered =
     \<lparr>ct_status = Some T_completed, ct_errorCode = None, ct_message = ''Job completed and was delivered.'', ct_sandboxResult = None\<rparr>"

definition jobPending :: canonical_truth where
  "jobPending = \<lparr>ct_status = None, ct_errorCode = None, ct_message = [], ct_sandboxResult = None\<rparr>"

definition readCanonical ::
  "handle_kind \<Rightarrow> string \<Rightarrow> string option \<Rightarrow> async_data \<Rightarrow> canonical_truth option" where
  "readCanonical kind canonicalJobId runtimeSessionId d =
     (case kind of
        Sandbox_job \<Rightarrow>
          (case sandboxJob canonicalJobId d of None \<Rightarrow> None | Some job \<Rightarrow> readSandbox runtimeSessionId job)
      | Media_job \<Rightarrow>
          (case mediaJob canonicalJobId d of
             None \<Rightarrow> None
           | Some job \<Rightarrow>
               if mj_status job = M_failed \<or> mj_status job = M_expired then Some (jobFailed (mj_lastErrorCode job))
               else if mj_status job = M_canceled then Some jobCancelled
               else if mj_status job = M_delivered \<or> mj_deliveredAt job \<noteq> None \<or>
                       (case mj_completionAssistantMessageId job of
                          None \<Rightarrow> False | Some m \<Rightarrow> m \<in> set (attachmentsOf d))
               then Some jobDelivered
               else Some jobPending)
      | Document_job \<Rightarrow>
          (case documentJob canonicalJobId d of
             None \<Rightarrow> None
           | Some job \<Rightarrow>
               if dj_status job = D_failed \<or> dj_status job = D_expired then Some (jobFailed (dj_lastErrorCode job))
               else if dj_status job = D_canceled then Some jobCancelled
               else if dj_status job = D_delivered \<or> dj_deliveredAt job \<noteq> None then Some jobDelivered
               else Some jobPending))"

text \<open>The terminal facts as the JSON value they are stored as.\<close>

definition jOptString :: "string option \<Rightarrow> json" where
  "jOptString v = (case v of None \<Rightarrow> JNull | Some s \<Rightarrow> JStr s)"

definition terminalJson :: "canonical_truth \<Rightarrow> json" where
  "terminalJson t = JObj
     [(''status'', case ct_status t of None \<Rightarrow> JStr ''pending'' | Some st \<Rightarrow> JStr (terminalString st)),
      (''errorCode'', jOptString (ct_errorCode t)), (''message'', JStr (ct_message t)),
      (''sandboxResult'', case ct_sandboxResult t of None \<Rightarrow> JNull | Some r \<Rightarrow> JObj
         [(''toolCode'', JStr (sr_toolCode r)), (''exitCode'', case sr_exitCode r of None \<Rightarrow> JNull | Some x \<Rightarrow> JNum x),
          (''stdout'', jOptString (sr_stdout r)), (''stderr'', jOptString (sr_stderr r)),
          (''paths'', JArr (map JStr (sr_paths r)))])]"

section \<open>Active jobs of a chat\<close>

definition MAX_ACTIVE_BACKGROUND_JOBS_PER_CHAT :: nat where
  "MAX_ACTIVE_BACKGROUND_JOBS_PER_CHAT = 8"

definition activeMedia :: "string \<Rightarrow> async_data \<Rightarrow> media_job list" where
  "activeMedia chatId d = filter (\<lambda>m. mj_chatId m = chatId \<and>
     (mj_status m \<in> {M_queued, M_running} \<or>
      (mj_status m = M_completion_pending \<and> mj_deliveredAt m = None \<and>
       (case mj_completionAssistantMessageId m of None \<Rightarrow> True | Some i \<Rightarrow> i \<notin> set (attachmentsOf d))))) (mediaJobs d)"

definition activeDocuments :: "string \<Rightarrow> async_data \<Rightarrow> document_job list" where
  "activeDocuments chatId d = filter (\<lambda>j. dj_chatId j = chatId \<and>
     dj_status j \<in> {D_queued, D_running, D_provider_processing, D_fetching_output, D_ready_for_delivery}) (documentJobs d)"

definition activeSandboxes :: "string \<Rightarrow> string option \<Rightarrow> async_data \<Rightarrow> sandbox_job list" where
  "activeSandboxes chatId exclude d = filter (\<lambda>s. sandboxOpen (sj_status s) \<and>
     (sj_toolCode s = ''shell'' \<or> sj_toolCode s = ''exec'') \<and> exclude \<noteq> Some (sj_id s) \<and>
     ((\<exists>h \<in> set (handleTable d). ah_kind h = Sandbox_job \<and> ah_canonicalJobId h = sj_id s \<and> ah_chatId h = chatId) \<or>
      (\<exists>rs \<in> set (sessionTable d). \<exists>c \<in> set (chatTable d). ch_id c = chatId \<and> ch_assistantId c = se_assistantId rs \<and>
         ch_workspaceId c = se_workspaceId rs \<and> ch_surface c = se_channel rs \<and>
         ch_surfaceThreadKey c = se_externalThreadKey rs \<and>
         sj_runtimeSessionId s = Some (se_id rs) \<and> se_closedAt rs = None))) (sandboxJobs d)"

definition activeBackgroundJobs :: "string \<Rightarrow> string option \<Rightarrow> async_data \<Rightarrow> nat" where
  "activeBackgroundJobs chatId exclude d =
     length (activeMedia chatId d) + length (activeDocuments chatId d) + length (activeSandboxes chatId exclude d)"

text \<open>A blank exclusion is none; the message's counts are left out.\<close>

definition assertActiveBackgroundJobCap :: "string \<Rightarrow> string option \<Rightarrow> async_data \<Rightarrow> unit outcome" where
  "assertActiveBackgroundJobCap chatId excludeSandboxJobId d =
     (let exclude = (case excludeSandboxJobId of None \<Rightarrow> None | Some s \<Rightarrow> if js_trim s = [] then None else Some (js_trim s)) in
      if activeBackgroundJobs chatId exclude d \<ge> MAX_ACTIVE_BACKGROUND_JOBS_PER_CHAT
      then Inl (ConflictException ''background_job_concurrency_limit'') else Inr ())"

end
