(* ===== verification/AsyncJobHandles.thy ===== *)
theory AsyncJobHandles
  imports AsyncJobStore
begin

text \<open>
  Handles of asynchronous jobs (\<open>assistant-async-job-handle-state.service.ts\<close>): who narrates a finished
  job (the turn that started it or a follow-up turn), the claim of a ready handle by a follow-up, retries, delivery
  attempts and the message of a permanent failure.

  Every method is one transaction or one statement and thus one step; the rows a transaction decides on are locked
  by it (\<open>FOR UPDATE\<close>), the rest of the table may be read without a lock, which is not modelled.
  \<open>sha\<close> is the hash of the follow-up's turn id, \<open>pick\<close> says which of several rows a
  query without an order returns, ids and tokens made by the database or by \<open>randomUUID\<close> are arguments.
\<close>

type_synonym 'a async_step = "int \<Rightarrow> (async_data, 'a) oper"

definition MAX_ASYNC_CONTINUATION_DEPTH :: int where
  "MAX_ASYNC_CONTINUATION_DEPTH = 4"

definition ASYNC_CONTINUATION_MAX_RETRIES :: int where
  "ASYNC_CONTINUATION_MAX_RETRIES = 8"

definition ASYNC_CONTINUATION_PERMANENT_FAILURE_TEXT :: string where
  "ASYNC_CONTINUATION_PERMANENT_FAILURE_TEXT = ''I couldn't complete the follow-up update for this job.''"

definition continuationClientTurnId :: "(string \<Rightarrow> string) \<Rightarrow> string \<Rightarrow> string" where
  "continuationClientTurnId sha i = ''async-cont:'' @ take 40 (sha i)"

definition pickRow :: "nat \<Rightarrow> 'a list \<Rightarrow> 'a option" where
  "pickRow n xs = (if xs = [] then None else Some (xs ! (n mod length xs)))"

section \<open>Locks\<close>

record job_scope =
  js_jobRef :: string
  js_assistantId :: string
  js_workspaceId :: string
  js_chatId :: string
  js_channel :: chat_surface
  js_threadKey :: string

definition lockOwned :: "job_scope \<Rightarrow> async_data \<Rightarrow> async_handle option" where
  "lockOwned i d = findHandle (\<lambda>h.
     ah_jobRef h = js_jobRef i \<and> ah_assistantId h = js_assistantId i \<and> ah_workspaceId h = js_workspaceId i \<and>
     ah_chatId h = js_chatId i \<and> ah_channel h = js_channel i \<and> ah_threadKey h = Some (js_threadKey i) \<and>
     (\<exists>c \<in> set (chatTable d). ch_id c = ah_chatId h \<and> ch_userId c = ah_userId h \<and>
        ch_assistantId c = ah_assistantId h \<and> ch_workspaceId c = ah_workspaceId h \<and>
        ch_surface c = ah_channel h \<and> Some (ch_surfaceThreadKey c) = ah_threadKey h)) d"

definition lockCanonical :: "handle_kind \<Rightarrow> string \<Rightarrow> async_data \<Rightarrow> async_handle option" where
  "lockCanonical kind canonicalJobId d = findHandle (\<lambda>h. ah_kind h = kind \<and> ah_canonicalJobId h = canonicalJobId) d"

definition lockById :: "string \<Rightarrow> async_data \<Rightarrow> async_handle option" where
  "lockById i d = findHandle (\<lambda>h. ah_id h = i) d"

section \<open>Updates of a handle\<close>

definition terminalStateData :: "terminal_status \<Rightarrow> int \<Rightarrow> async_handle \<Rightarrow> async_handle" where
  "terminalStateData st now h =
     (case st of
        T_completed \<Rightarrow> h\<lparr>ah_state := H_completed, ah_completedAt := Some now\<rparr>
      | T_cancelled \<Rightarrow> h\<lparr>ah_state := H_cancelled, ah_cancelledAt := Some now\<rparr>
      | T_failed \<Rightarrow> h\<lparr>ah_state := H_failed, ah_failedAt := Some now\<rparr>)"

definition readyData :: "int \<Rightarrow> async_handle \<Rightarrow> async_handle" where
  "readyData now h = h\<lparr>ah_state := H_ready, ah_readyAt := Some now, ah_nextRetryAt := Some now, ah_terminalObservedAt := Some now\<rparr>"

definition currentTurnInline :: "int \<Rightarrow> async_handle \<Rightarrow> async_handle" where
  "currentTurnInline now h = h\<lparr>ah_narrationOwner := Some Current_turn, ah_narrationDecision := Some ''current_turn_inline'',
     ah_narrationDecisionAt := Some now\<rparr>"

definition notifySubscribed :: "int \<Rightarrow> string \<Rightarrow> async_handle \<Rightarrow> async_handle" where
  "notifySubscribed now turnId h = h\<lparr>ah_narrationOwner := Some Continuation, ah_narrationDecision := Some ''notify_subscribed'',
     ah_narrationDecisionAt := Some now, ah_continuationClientTurnId := Some turnId,
     ah_maxRetries := ASYNC_CONTINUATION_MAX_RETRIES\<rparr>"

definition depthExhausted :: "int \<Rightarrow> async_handle \<Rightarrow> async_handle" where
  "depthExhausted now h = h\<lparr>ah_narrationOwner := Some Continuation,
     ah_narrationDecision := Some ''continuation_depth_exhausted'', ah_narrationDecisionAt := Some now,
     ah_state := H_failed, ah_failedAt := Some now, ah_lastErrorCode := Some ''continuation_depth_exhausted'',
     ah_lastErrorMessage := Some ''The unattended continuation depth limit was reached.''\<rparr>"

definition updateRow :: "int \<Rightarrow> string \<Rightarrow> (async_handle \<Rightarrow> async_handle) \<Rightarrow> async_data \<Rightarrow> async_data" where
  "updateRow now i f d = updateHandles now (\<lambda>h. ah_id h = i) f d"

section \<open>The catch-up queue\<close>

definition waveMembers :: "string \<Rightarrow> string \<Rightarrow> async_data \<Rightarrow> async_handle list" where
  "waveMembers chatId waveId d = filter (\<lambda>h. ah_chatId h = chatId \<and> ah_catchUpWaveId h = Some waveId) (handleTable d)"

fun maxOrdinal :: "int option list \<Rightarrow> int" where
  "maxOrdinal [] = 0"
| "maxOrdinal (None # xs) = maxOrdinal xs"
| "maxOrdinal (Some n # xs) = max n (maxOrdinal xs)"

definition openWave :: "nat \<Rightarrow> string \<Rightarrow> string \<Rightarrow> async_handle \<Rightarrow> async_data \<Rightarrow> string" where
  "openWave pick uuid chatId self d =
     (case Option.bind (pickRow pick (filter (\<lambda>h. ah_chatId h = chatId \<and>
             ah_sourceUserMessageId h = ah_sourceUserMessageId self \<and> ah_state h \<in> {H_ready, H_claimed, H_dispatched} \<and>
             ah_catchUpWaveId h \<noteq> None \<and> ah_id h \<noteq> ah_id self) (handleTable d))) ah_catchUpWaveId of
        Some w \<Rightarrow> w | None \<Rightarrow> uuid)"

definition enterWave :: "int \<Rightarrow> string \<Rightarrow> string \<Rightarrow> string \<Rightarrow> int \<Rightarrow> async_data \<Rightarrow> async_data" where
  "enterWave now handleId chatId waveId ordinal d =
     updateRow now handleId (\<lambda>h. h\<lparr>ah_catchUpOrdinal := Some ordinal, ah_catchUpWaveTotal := Some ordinal,
         ah_catchUpWaveId := Some waveId\<rparr>)
       (updateHandles now (\<lambda>h. ah_chatId h = chatId \<and> ah_catchUpWaveId h = Some waveId)
         (\<lambda>h. h\<lparr>ah_catchUpWaveTotal := Some ordinal\<rparr>) d)"

definition stampCatchUpQueueMarkersInTx ::
  "nat \<Rightarrow> string \<Rightarrow> int \<Rightarrow> string \<Rightarrow> string \<Rightarrow> async_data \<Rightarrow> async_data" where
  "stampCatchUpQueueMarkersInTx pick uuid now handleId chatId d =
     (case lockById handleId d of
        None \<Rightarrow> d
      | Some self \<Rightarrow>
          if ah_catchUpOrdinal self \<noteq> None then d
          else
            let waveId = openWave pick uuid chatId self d
            in enterWave now handleId chatId waveId (maxOrdinal (map ah_catchUpOrdinal (waveMembers chatId waveId d)) + 1) d)"

section \<open>Observing and subscribing\<close>

definition finalizeTerminalHandleInTx ::
  "nat \<Rightarrow> string \<Rightarrow> int \<Rightarrow> async_handle \<Rightarrow> terminal_status \<Rightarrow> json \<Rightarrow> async_data \<Rightarrow> async_data" where
  "finalizeTerminalHandleInTx pick uuid now row st snapshot d =
     (let continuationReady = ah_narrationOwner row = Some Continuation \<and> ah_narrationDecision row = Some ''notify_subscribed'' in
      if ah_state row \<noteq> H_none \<and> \<not> (ah_state row = H_subscribed \<and> continuationReady) then d
      else
        let d1 = updateRow now (ah_id row) (\<lambda>h.
              (if continuationReady then readyData now h else (terminalStateData st now h)\<lparr>ah_terminalObservedAt := Some now\<rparr>)
                \<lparr>ah_terminalSnapshotJson := Some snapshot\<rparr>) d
        in if continuationReady then stampCatchUpQueueMarkersInTx pick uuid now (ah_id row) (ah_chatId row) d1 else d1)"

datatype observe_outcome =
    Observe_pending handle_kind
  | Claimed_current_turn handle_kind canonical_truth
  | Observe_already_owned narration_owner handle_kind canonical_truth
  | Observe_not_found

definition observeTx :: "nat \<Rightarrow> string \<Rightarrow> job_scope \<Rightarrow> observe_outcome async_step" where
  "observeTx pick uuid i now d =
     (case lockOwned i d of
        None \<Rightarrow> (Inr Observe_not_found, d)
      | Some row \<Rightarrow>
          (case readCanonical (ah_kind row) (ah_canonicalJobId row) (ah_runtimeSessionId row) d of
             None \<Rightarrow> (Inr Observe_not_found, d)
           | Some truth \<Rightarrow>
               (case ct_status truth of
                  None \<Rightarrow> (Inr (Observe_pending (ah_kind row)), d)
                | Some st \<Rightarrow>
                    (case ah_narrationOwner row of
                       Some owner \<Rightarrow>
                         (Inr (Observe_already_owned owner (ah_kind row) truth),
                          finalizeTerminalHandleInTx pick uuid now row st (terminalJson truth) d)
                     | None \<Rightarrow>
                         (Inr (Claimed_current_turn (ah_kind row) truth),
                          updateRow now (ah_id row) (\<lambda>h. terminalStateData st now (currentTurnInline now h)
                            \<lparr>ah_terminalObservedAt := Some now, ah_terminalSnapshotJson := Some (terminalJson truth)\<rparr>) d)))))"

datatype subscribe_outcome =
    Subscribed_to string bool
  | Terminal_inline handle_kind canonical_truth
  | Depth_exhausted
  | Subscribe_already_owned narration_owner
  | Subscribe_not_found

definition subscribeTx :: "(string \<Rightarrow> string) \<Rightarrow> job_scope \<Rightarrow> subscribe_outcome async_step" where
  "subscribeTx sha i now d =
     (case lockOwned i d of
        None \<Rightarrow> (Inr Subscribe_not_found, d)
      | Some row \<Rightarrow>
          (case readCanonical (ah_kind row) (ah_canonicalJobId row) (ah_runtimeSessionId row) d of
             None \<Rightarrow> (Inr Subscribe_not_found, d)
           | Some truth \<Rightarrow>
               let turnId = (case ah_continuationClientTurnId row of Some t \<Rightarrow> t | None \<Rightarrow> continuationClientTurnId sha (ah_id row)) in
               if ah_narrationDecision row = Some ''continuation_depth_exhausted'' \<or>
                  (ah_state row = H_failed \<and> ah_lastErrorCode row = Some ''continuation_depth_exhausted'')
               then (Inr Depth_exhausted, d)
               else if ah_narrationOwner row = Some Continuation \<and> ah_narrationDecision row = Some ''notify_subscribed''
               then (Inr (Subscribed_to turnId True), d)
               else if ah_narrationOwner row = Some Legacy
               then if ah_continuationDepth row \<ge> MAX_ASYNC_CONTINUATION_DEPTH
                    then (Inr Depth_exhausted, updateRow now (ah_id row) (depthExhausted now) d)
                    else (Inr (Subscribed_to turnId False),
                          updateRow now (ah_id row) (\<lambda>h. (notifySubscribed now turnId h)
                            \<lparr>ah_state := (if ah_state row \<in> {H_none, H_subscribed} then H_subscribed else ah_state h)\<rparr>) d)
               else (case ah_narrationOwner row of
                  Some owner \<Rightarrow> (Inr (Subscribe_already_owned owner), d)
                | None \<Rightarrow>
                    (case ct_status truth of
                       Some st \<Rightarrow>
                         (Inr (Terminal_inline (ah_kind row) truth),
                          updateRow now (ah_id row) (\<lambda>h. terminalStateData st now (currentTurnInline now h)
                            \<lparr>ah_terminalObservedAt := Some now, ah_terminalSnapshotJson := Some (terminalJson truth)\<rparr>) d)
                     | None \<Rightarrow>
                         if ah_continuationDepth row \<ge> MAX_ASYNC_CONTINUATION_DEPTH
                         then (Inr Depth_exhausted, updateRow now (ah_id row) (depthExhausted now) d)
                         else let fresh = continuationClientTurnId sha (ah_id row) in
                           (Inr (Subscribed_to fresh False),
                            updateRow now (ah_id row) (\<lambda>h. (notifySubscribed now fresh h)\<lparr>ah_state := H_subscribed\<rparr>) d)))))"

section \<open>The end of the source turn\<close>

datatype turn_outcome = Turn_persisted | Turn_failed | Turn_stopped

record finalize_input =
  fi_assistantId :: string
  fi_chatId :: string
  fi_sourceClientTurnId :: string
  fi_outcome :: turn_outcome
  fi_assistantMessageId :: "string option"

record finalize_result =
  fr_finalized :: nat
  fr_autoSubscribed :: nat
  fr_currentTurnPreserved :: nat
  fr_currentTurnReleased :: nat

definition ofSourceTurn :: "finalize_input \<Rightarrow> async_handle \<Rightarrow> bool" where
  "ofSourceTurn i h \<longleftrightarrow> ah_assistantId h = fi_assistantId i \<and> ah_chatId h = fi_chatId i \<and>
     ah_sourceClientTurnId h = Some (fi_sourceClientTurnId i)"

definition isTerminalState :: "handle_state \<Rightarrow> bool" where
  "isTerminalState st \<longleftrightarrow> st \<in> {H_completed, H_failed, H_cancelled}"

text \<open>One row of the loop; the counters are subscribed, released and kept inline.\<close>

definition finalizedData :: "(string \<Rightarrow> string) \<Rightarrow> int \<Rightarrow> finalize_input \<Rightarrow> async_handle \<Rightarrow> async_handle \<Rightarrow> async_handle" where
  "finalizedData sha now i row h =
     (let h1 = notifySubscribed now (case ah_continuationClientTurnId row of Some t \<Rightarrow> t
                 | None \<Rightarrow> continuationClientTurnId sha (ah_id row)) h;
          h2 = (if ah_terminalSnapshotJson row \<noteq> None \<and> isTerminalState (ah_state row) then readyData now h1
                else if ah_state row \<in> {H_none, H_subscribed} then h1\<lparr>ah_state := H_subscribed\<rparr> else h1)
      in if ah_narrationOwner row = Some Current_turn
         then h2\<lparr>ah_lastErrorCode := Some (if fi_outcome i = Turn_stopped then ''current_turn_stopped_before_persistence''
                                          else ''current_turn_failed_before_persistence''),
                 ah_lastErrorMessage := Some ''Current-turn narration was released; continuation owns the wake.''\<rparr>
         else h2)"

definition finalizeRow ::
  "(string \<Rightarrow> string) \<Rightarrow> nat \<Rightarrow> string \<Rightarrow> int \<Rightarrow> finalize_input \<Rightarrow> async_handle \<Rightarrow>
   (nat \<times> nat \<times> nat) \<times> async_data \<Rightarrow> (nat \<times> nat \<times> nat) \<times> async_data" where
  "finalizeRow sha pick uuid now i row acc =
     (let ((subscribed, released, inline), d) = acc;
          wasCurrentTurn = ah_narrationOwner row = Some Current_turn;
          terminalBefore = ah_terminalSnapshotJson row \<noteq> None \<and> isTerminalState (ah_state row);
          released' = (if wasCurrentTurn then released + 1 else released) in
      if wasCurrentTurn \<and> ah_narrationDecision row = Some ''current_turn_inline'' \<and> terminalBefore
      then ((subscribed, released, inline + 1), d)
      else if ah_continuationDepth row \<ge> MAX_ASYNC_CONTINUATION_DEPTH
      then ((subscribed, released', inline), updateRow now (ah_id row) (depthExhausted now) d)
      else
        let d1 = updateRow now (ah_id row) (finalizedData sha now i row) d
        in ((subscribed + 1, released', inline),
            if terminalBefore then stampCatchUpQueueMarkersInTx pick uuid now (ah_id row) (fi_chatId i) d1 else d1))"

fun finalizeRows ::
  "(string \<Rightarrow> string) \<Rightarrow> nat \<Rightarrow> (nat \<Rightarrow> string) \<Rightarrow> int \<Rightarrow> finalize_input \<Rightarrow> nat \<Rightarrow> async_handle list \<Rightarrow>
   (nat \<times> nat \<times> nat) \<times> async_data \<Rightarrow> (nat \<times> nat \<times> nat) \<times> async_data" where
  "finalizeRows sha pick uuid now i k [] acc = acc"
| "finalizeRows sha pick uuid now i k (row # rows) acc =
     finalizeRows sha pick uuid now i (Suc k) rows (finalizeRow sha pick (uuid k) now i row acc)"

definition provenOutput :: "finalize_input \<Rightarrow> async_data \<Rightarrow> unit outcome" where
  "provenOutput i d =
     (if fi_outcome i \<noteq> Turn_persisted then Inr ()
      else (case fi_assistantMessageId i of
              None \<Rightarrow> Inl (PlainError ''Persisted source-turn finalization requires assistantMessageId.'')
            | Some m \<Rightarrow>
                if (\<exists>c \<in> set (messageTable d). cm_id c = m \<and> cm_chatId c = fi_chatId i \<and>
                      cm_assistantId c = fi_assistantId i \<and> cm_author c = Author_assistant)
                then Inr ()
                else Inl (PlainError ''Persisted source-turn assistant output could not be proven.'')))"

definition unfinalizedBy :: "finalize_input \<Rightarrow> async_handle \<Rightarrow> bool" where
  "unfinalizedBy i h \<longleftrightarrow> ofSourceTurn i h \<and> ah_sourceFinalizedAt h = None"

definition toSubscribe :: "finalize_input \<Rightarrow> async_data \<Rightarrow> async_handle list" where
  "toSubscribe i d = filter (\<lambda>h. ofSourceTurn i h \<and> (ah_narrationOwner h = None \<or>
     (fi_outcome i \<noteq> Turn_persisted \<and> ah_narrationOwner h = Some Current_turn))) (handleTable d)"

definition finalizeSourceTurn ::
  "(string \<Rightarrow> string) \<Rightarrow> nat \<Rightarrow> (nat \<Rightarrow> string) \<Rightarrow> finalize_input \<Rightarrow> finalize_result async_step" where
  "finalizeSourceTurn sha pick uuid i now d =
     (case provenOutput i d of
        Inl e \<Rightarrow> (Inl e, d)
      | Inr _ \<Rightarrow>
          let d1 = updateHandles now (unfinalizedBy i) (\<lambda>h. h\<lparr>ah_sourceFinalizedAt := Some now\<rparr>) d;
              ((subscribed, released, inline), d2) = finalizeRows sha pick uuid now i 0 (toSubscribe i d1) ((0, 0, 0), d1)
          in (Inr \<lparr>fr_finalized = countHandles (unfinalizedBy i) d, fr_autoSubscribed = subscribed,
                fr_currentTurnPreserved = (if fi_outcome i \<noteq> Turn_persisted then inline
                   else countHandles (\<lambda>h. ofSourceTurn i h \<and> ah_narrationOwner h = Some Current_turn) d2),
                fr_currentTurnReleased = released\<rparr>, d2))"

section \<open>The end of the job\<close>

datatype delivery_decision = Legacy_frame | Skip_legacy_frame

definition prepareDelivery :: "handle_kind \<Rightarrow> string \<Rightarrow> delivery_decision async_step" where
  "prepareDelivery kind canonicalJobId now d =
     (Inr (case lockCanonical kind canonicalJobId d of None \<Rightarrow> Legacy_frame | Some _ \<Rightarrow> Skip_legacy_frame), d)"

datatype open_turn_claim = Newly_claimed | Already_current_turn_inline | Claim_denied

definition claimOpenTurnLivePresent :: "handle_kind \<Rightarrow> string \<Rightarrow> open_turn_claim async_step" where
  "claimOpenTurnLivePresent kind canonicalJobId now d =
     (case lockCanonical kind canonicalJobId d of
        None \<Rightarrow> (Inr Claim_denied, d)
      | Some row \<Rightarrow>
          if ah_narrationOwner row = Some Current_turn \<and> ah_narrationDecision row = Some ''current_turn_inline''
          then (Inr Already_current_turn_inline, d)
          else if ah_narrationOwner row \<noteq> None then (Inr Claim_denied, d)
          else (Inr Newly_claimed, updateRow now (ah_id row) (currentTurnInline now) d))"

definition isOpenTurnLivePresentClaimAllowed :: "open_turn_claim \<Rightarrow> bool" where
  "isOpenTurnLivePresentClaimAllowed outcome \<longleftrightarrow> outcome = Newly_claimed \<or> outcome = Already_current_turn_inline"

definition needsContinuationHeal :: "async_handle \<Rightarrow> bool" where
  "needsContinuationHeal row \<longleftrightarrow>
     ah_narrationOwner row = Some Legacy \<or>
     (ah_narrationOwner row = None \<and> ah_sourceFinalizedAt row \<noteq> None) \<or>
     (ah_narrationOwner row = Some Continuation \<and> ah_narrationDecision row \<noteq> Some ''notify_subscribed'' \<and>
      ah_narrationDecision row \<noteq> Some ''continuation_depth_exhausted'')"

definition completionReady :: "async_handle \<Rightarrow> bool" where
  "completionReady row \<longleftrightarrow>
     ah_state row \<noteq> H_failed \<and> ah_narrationDecision row \<noteq> Some ''continuation_depth_exhausted'' \<and>
     (ah_narrationOwner row = Some Continuation \<or> needsContinuationHeal row) \<and>
     (ah_narrationDecision row = Some ''notify_subscribed'' \<or> needsContinuationHeal row)"

definition completionData ::
  "(string \<Rightarrow> string) \<Rightarrow> int \<Rightarrow> async_handle \<Rightarrow> terminal_status \<Rightarrow> json \<Rightarrow> async_handle \<Rightarrow> async_handle" where
  "completionData sha now row st snapshot h =
     (let turnId = (case ah_continuationClientTurnId row of Some t \<Rightarrow> t | None \<Rightarrow> continuationClientTurnId sha (ah_id row));
          h1 = (if needsContinuationHeal row \<and> ah_narrationDecision row \<noteq> Some ''continuation_depth_exhausted''
                then notifySubscribed now turnId h else h);
          h2 = (if completionReady row then readyData now h1 else terminalStateData st now h1)
      in h2\<lparr>ah_terminalSnapshotJson := Some snapshot\<rparr>)"

definition recordCanonicalCompletion ::
  "(string \<Rightarrow> string) \<Rightarrow> nat \<Rightarrow> string \<Rightarrow> handle_kind \<Rightarrow> string \<Rightarrow> terminal_status \<Rightarrow> json \<Rightarrow>
   (delivery_decision \<times> handle_state) async_step" where
  "recordCanonicalCompletion sha pick uuid kind canonicalJobId st snapshot now d =
     (let stateOf = (\<lambda>st. case st of T_completed \<Rightarrow> H_completed | T_cancelled \<Rightarrow> H_cancelled | T_failed \<Rightarrow> H_failed) in
      case lockCanonical kind canonicalJobId d of
        None \<Rightarrow> (Inr (Legacy_frame, stateOf st), d)
      | Some row \<Rightarrow>
          let d1 = updateRow now (ah_id row) (completionData sha now row st snapshot) d
          in (Inr (Skip_legacy_frame, if completionReady row then H_ready else stateOf st),
              if completionReady row then stampCatchUpQueueMarkersInTx pick uuid now (ah_id row) (ah_chatId row) d1 else d1))"

section \<open>Claims\<close>

text \<open>\<open>uuid <= uuid\<close> on the lower-case text form.\<close>

fun stringLe :: "string \<Rightarrow> string \<Rightarrow> bool" where
  "stringLe [] ys = True"
| "stringLe (x # xs) [] = False"
| "stringLe (x # xs) (y # ys) = ((of_char x :: nat) < of_char y \<or> (x = y \<and> stringLe xs ys))"

text \<open>\<open>ORDER BY ready_at ASC NULLS LAST, updated_at ASC, id ASC\<close>\<close>

definition queuedBefore :: "async_handle \<Rightarrow> async_handle \<Rightarrow> bool" where
  "queuedBefore a b \<longleftrightarrow>
     (let rest = ah_updatedAt a < ah_updatedAt b \<or> (ah_updatedAt a = ah_updatedAt b \<and> stringLe (ah_id a) (ah_id b)) in
      case (ah_readyAt a, ah_readyAt b) of
        (Some x, Some y) \<Rightarrow> x < y \<or> (x = y \<and> rest)
      | (Some _, None) \<Rightarrow> True
      | (None, Some _) \<Rightarrow> False
      | (None, None) \<Rightarrow> rest)"

fun firstQueued :: "async_handle list \<Rightarrow> async_handle option" where
  "firstQueued [] = None"
| "firstQueued (h # hs) =
     (case firstQueued hs of None \<Rightarrow> Some h | Some b \<Rightarrow> if queuedBefore h b then Some h else Some b)"

definition claimable :: "int \<Rightarrow> string \<Rightarrow> async_handle \<Rightarrow> bool" where
  "claimable now chatId h \<longleftrightarrow>
     ah_state h = H_ready \<and> ah_chatId h = chatId \<and> ah_sourceFinalizedAt h \<noteq> None \<and>
     (case ah_nextRetryAt h of None \<Rightarrow> True | Some t \<Rightarrow> t \<le> now) \<and> ah_retryCount h < ah_maxRetries h"

text \<open>\<open>locked\<close>: the rows other transactions hold, which SKIP LOCKED leaves out.\<close>

definition claimReadyHeadForChat ::
  "(string \<Rightarrow> bool) \<Rightarrow> string \<Rightarrow> string \<Rightarrow> int \<Rightarrow> (string \<times> string) option async_step" where
  "claimReadyHeadForChat locked claimToken chatId claimTtlMs now d =
     (case firstQueued (filter (\<lambda>h. claimable now chatId h \<and> \<not> locked (ah_id h)) (handleTable d)) of
        None \<Rightarrow> (Inr None, d)
      | Some row \<Rightarrow>
          (Inr (Some (ah_id row, claimToken)),
           updateRow now (ah_id row) (\<lambda>h. h\<lparr>ah_state := H_claimed, ah_claimToken := Some claimToken, ah_claimedAt := Some now,
             ah_claimExpiresAt := Some (now + claimTtlMs)\<rparr>) d))"

text \<open>\<open>updateMany\<close> on a unique row: the count is one or zero.\<close>

definition updateClaim ::
  "int \<Rightarrow> (async_handle \<Rightarrow> bool) \<Rightarrow> (async_handle \<Rightarrow> async_handle) \<Rightarrow> async_data \<Rightarrow> bool outcome \<times> async_data" where
  "updateClaim now p f d = (Inr (countHandles p d = 1), updateHandles now p f d)"

definition holdsClaim :: "string \<Rightarrow> string \<Rightarrow> handle_state set \<Rightarrow> async_handle \<Rightarrow> bool" where
  "holdsClaim i claimToken states h \<longleftrightarrow> ah_id h = i \<and> ah_state h \<in> states \<and> ah_claimToken h = Some claimToken"

definition releaseClaimToReady ::
  "string \<Rightarrow> string \<Rightarrow> int \<Rightarrow> string option \<Rightarrow> string option \<Rightarrow> bool async_step" where
  "releaseClaimToReady i claimToken retryAt errorCode errorMessage now d =
     updateClaim now (holdsClaim i claimToken {H_claimed}) (\<lambda>h. h\<lparr>ah_state := H_ready, ah_claimToken := None,
       ah_claimedAt := None, ah_claimExpiresAt := None, ah_dispatchedAt := None, ah_dispatchReceiptRequestId := None,
       ah_nextRetryAt := Some retryAt,
       ah_lastErrorCode := Some (case errorCode of Some c \<Rightarrow> c | None \<Rightarrow> ''continuation_busy''),
       ah_lastErrorMessage := Some (case errorMessage of Some m \<Rightarrow> m | None \<Rightarrow>
         ''Runtime rejected the continuation before acceptance because the session was busy.'')\<rparr>) d"

definition markDispatched :: "string \<Rightarrow> string \<Rightarrow> string \<Rightarrow> int \<Rightarrow> bool async_step" where
  "markDispatched i claimToken receiptRequestId dispatchExpiresAt now d =
     updateClaim now (holdsClaim i claimToken {H_claimed}) (\<lambda>h. h\<lparr>ah_state := H_dispatched, ah_dispatchedAt := Some now,
       ah_dispatchReceiptRequestId := Some receiptRequestId, ah_claimExpiresAt := Some dispatchExpiresAt\<rparr>) d"

definition completeClaim :: "string \<Rightarrow> string \<Rightarrow> bool async_step" where
  "completeClaim i claimToken now d =
     updateClaim now (holdsClaim i claimToken {H_claimed, H_dispatched}) (\<lambda>h. h\<lparr>ah_state := H_completed,
       ah_completedAt := Some now, ah_claimToken := None, ah_claimExpiresAt := None, ah_nextRetryAt := None,
       ah_lastErrorCode := None, ah_lastErrorMessage := None\<rparr>) d"

datatype delivery_part = Artifacts | External
datatype attempt_answer = Attempt_claimed | Already_attempted | Attempt_lost

definition attemptedAt :: "delivery_part \<Rightarrow> async_handle \<Rightarrow> int option" where
  "attemptedAt part h = (case part of Artifacts \<Rightarrow> ah_artifactsAttemptedAt h | External \<Rightarrow> ah_externalAttemptedAt h)"

definition claimDeliveryAttempt :: "string \<Rightarrow> string \<Rightarrow> delivery_part \<Rightarrow> attempt_answer async_step" where
  "claimDeliveryAttempt i claimToken part now d =
     (case findHandle (holdsClaim i claimToken {H_dispatched}) d of
        None \<Rightarrow> (Inr Attempt_lost, d)
      | Some target \<Rightarrow>
          if attemptedAt part target \<noteq> None then (Inr Already_attempted, d)
          else (Inr Attempt_claimed, updateRow now i (\<lambda>h. case part of
                  Artifacts \<Rightarrow> h\<lparr>ah_artifactsAttemptedAt := Some now, ah_artifactsResult := Some ''attempting''\<rparr>
                | External \<Rightarrow> h\<lparr>ah_externalAttemptedAt := Some now, ah_externalResult := Some ''attempting''\<rparr>) d))"

datatype attempt_result = Attempt_delivered | Attempt_failed | Attempt_ambiguous | Attempt_not_needed

definition attemptString :: "attempt_result \<Rightarrow> string" where
  "attemptString r = (case r of Attempt_delivered \<Rightarrow> ''delivered'' | Attempt_failed \<Rightarrow> ''failed''
     | Attempt_ambiguous \<Rightarrow> ''ambiguous'' | Attempt_not_needed \<Rightarrow> ''not_needed'')"

definition recordDeliveryAttemptResult ::
  "string \<Rightarrow> string \<Rightarrow> delivery_part \<Rightarrow> attempt_result \<Rightarrow> string option \<Rightarrow> bool async_step" where
  "recordDeliveryAttemptResult i claimToken part result err now d =
     updateClaim now (holdsClaim i claimToken {H_dispatched}) (\<lambda>h. case part of
         Artifacts \<Rightarrow> h\<lparr>ah_artifactsResult := Some (attemptString result), ah_artifactsError := map_option (take 1000) err,
           ah_artifactsDeliveredAt := (if result = Attempt_delivered \<or> result = Attempt_not_needed then Some now
                                       else ah_artifactsDeliveredAt h)\<rparr>
       | External \<Rightarrow> h\<lparr>ah_externalResult := Some (attemptString result), ah_externalError := map_option (take 1000) err\<rparr>) d"

section \<open>Failures\<close>

definition jobDeliveredAlready :: "handle_kind \<Rightarrow> string \<Rightarrow> async_data \<Rightarrow> bool" where
  "jobDeliveredAlready kind canonicalJobId d \<longleftrightarrow>
     (case kind of
        Media_job \<Rightarrow> (case mediaJob canonicalJobId d of None \<Rightarrow> False
          | Some j \<Rightarrow> mj_status j = M_delivered \<or> mj_deliveredAt j \<noteq> None)
      | Document_job \<Rightarrow> (case documentJob canonicalJobId d of None \<Rightarrow> False
          | Some j \<Rightarrow> dj_status j = D_delivered \<or> dj_deliveredAt j \<noteq> None)
      | Sandbox_job \<Rightarrow> False)"

definition shouldSuppressPermanentFailureMessage :: "async_handle \<Rightarrow> async_data \<Rightarrow> bool" where
  "shouldSuppressPermanentFailureMessage row d \<longleftrightarrow>
     jobDeliveredAlready (ah_kind row) (ah_canonicalJobId row) d \<or>
     (ah_sourceUserMessageId row \<noteq> None \<and>
      countHandles (\<lambda>h. ah_chatId h = ah_chatId row \<and> ah_id h \<noteq> ah_id row \<and>
        ah_sourceUserMessageId h = ah_sourceUserMessageId row \<and>
        ah_state h \<in> {H_subscribed, H_ready, H_claimed, H_dispatched}) d > 0)"

definition permanentFailureMessage :: "string \<Rightarrow> async_handle \<Rightarrow> chat_message" where
  "permanentFailureMessage mid row =
     \<lparr>cm_id = mid, cm_chatId = ah_chatId row, cm_assistantId = ah_assistantId row, cm_author = Author_assistant,
      cm_content = ASYNC_CONTINUATION_PERMANENT_FAILURE_TEXT,
      cm_metadata = JObj ((case ah_continuationClientTurnId row of None \<Rightarrow> []
          | Some t \<Rightarrow> [(''asyncContinuationClientTurnId'', JStr t)]) @
        [(''asyncContinuationPermanentFailure'', JBool True)])\<rparr>"

definition persistPermanentFailureMessage :: "string \<Rightarrow> async_handle \<Rightarrow> async_data \<Rightarrow> string option \<times> async_data" where
  "persistPermanentFailureMessage mid row d =
     (case ah_continuationAssistantMessageId row of
        Some m \<Rightarrow> (Some m, d)
      | None \<Rightarrow>
          if shouldSuppressPermanentFailureMessage row d then (None, d)
          else (Some mid, d\<lparr>messageTable := messageTable d @ [permanentFailureMessage mid row]\<rparr>))"

text \<open>The delivery message of a settled job, \<open>None\<close> when the job is not visibly delivered.\<close>

definition deliveryMessageId :: "async_handle \<Rightarrow> async_data \<Rightarrow> string option" where
  "deliveryMessageId row d =
     (if \<not> jobDeliveredAlready (ah_kind row) (ah_canonicalJobId row) d then None
      else
        let found = (case ah_kind row of
              Media_job \<Rightarrow> Option.bind (mediaJob (ah_canonicalJobId row) d) mj_completionAssistantMessageId
            | Document_job \<Rightarrow> Option.bind (documentJob (ah_canonicalJobId row) d) (\<lambda>j.
                (case jgetObject ''completionAssistantMessageId'' (asObject (dj_providerStatusJson j)) of JStr m \<Rightarrow> Some m | _ \<Rightarrow> None))
            | Sandbox_job \<Rightarrow> None)
        in (case found of Some m \<Rightarrow> Some m | None \<Rightarrow> ah_continuationAssistantMessageId row))"

definition settleDeliveredLocked ::
  "int \<Rightarrow> async_handle \<Rightarrow> string option \<Rightarrow> bool \<Rightarrow> async_data \<Rightarrow> (string \<times> string \<times> string option) option \<times> async_data" where
  "settleDeliveredLocked now row requireClaimToken allowFailedHeal d =
     (if ah_state row = H_completed \<and> ah_continuationAssistantMessageId row \<noteq> None
      then (map_option (\<lambda>m. (m, ah_chatId row, ah_sourceUserMessageId row)) (ah_continuationAssistantMessageId row), d)
      else if \<not> (ah_state row \<in> {H_claimed, H_dispatched} \<and>
                  (requireClaimToken = None \<or> ah_claimToken row = requireClaimToken)) \<and>
              \<not> (allowFailedHeal \<and> ah_state row = H_failed)
      then (None, d)
      else (case deliveryMessageId row d of
              None \<Rightarrow> (None, d)
            | Some m \<Rightarrow>
                (case chatMessage m d of
                   None \<Rightarrow> (None, d)
                 | Some existing \<Rightarrow>
                     if cm_chatId existing \<noteq> ah_chatId row \<or> cm_assistantId existing \<noteq> ah_assistantId row then (None, d)
                     else (Some (m, ah_chatId row, ah_sourceUserMessageId row),
                           updateRow now (ah_id row) (\<lambda>h. h\<lparr>ah_state := H_completed, ah_completedAt := Some now,
                             ah_failedAt := None, ah_claimToken := None, ah_claimExpiresAt := None, ah_nextRetryAt := None,
                             ah_lastErrorCode := None, ah_lastErrorMessage := None,
                             ah_continuationAssistantMessageId := Some m\<rparr>) d))))"

datatype requeue_answer = Requeued | Requeue_exhausted | Requeue_ambiguous | Requeue_lost

text \<open>\<open>proof\<close>: the dispatched turn left no receipt, no lease and no output.\<close>

definition requeueClaim ::
  "string \<Rightarrow> string \<Rightarrow> string \<Rightarrow> int \<Rightarrow> string \<Rightarrow> string \<Rightarrow> (bool \<times> bool \<times> bool) option \<Rightarrow> requeue_answer async_step" where
  "requeueClaim mid i claimToken retryAt errorCode errorMessage dispatchedProof now d =
     (case lockById i d of
        None \<Rightarrow> (Inr Requeue_lost, d)
      | Some row \<Rightarrow>
          if ah_claimToken row \<noteq> Some claimToken then (Inr Requeue_lost, d)
          else if ah_state row = H_dispatched \<and> dispatchedProof \<noteq> Some (True, True, True) then (Inr Requeue_ambiguous, d)
          else if ah_state row \<noteq> H_dispatched \<and> ah_state row \<noteq> H_claimed then (Inr Requeue_lost, d)
          else
            let retryCount = ah_retryCount row + 1 in
            if retryCount \<ge> ah_maxRetries row
            then (let (messageId, d1) = persistPermanentFailureMessage mid row d in
                  (Inr Requeue_exhausted, updateRow now i (\<lambda>h. h\<lparr>ah_state := H_failed, ah_failedAt := Some now,
                     ah_retryCount := retryCount, ah_claimToken := None, ah_claimExpiresAt := None, ah_nextRetryAt := None,
                     ah_lastErrorCode := Some ''continuation_retry_exhausted'', ah_lastErrorMessage := Some errorMessage,
                     ah_continuationAssistantMessageId := messageId\<rparr>) d1))
            else (Inr Requeued, updateRow now i (\<lambda>h. h\<lparr>ah_state := H_ready, ah_retryCount := retryCount,
                     ah_claimToken := None, ah_claimedAt := None, ah_claimExpiresAt := None, ah_nextRetryAt := Some retryAt,
                     ah_lastErrorCode := Some errorCode, ah_lastErrorMessage := Some errorMessage\<rparr>) d))"

text \<open>The answer: whether the failure was applied, and the message to show for it with its row.\<close>

definition failClaim ::
  "string \<Rightarrow> string \<Rightarrow> string \<Rightarrow> string \<Rightarrow> string \<Rightarrow> (bool \<times> (string \<times> string) option) async_step" where
  "failClaim mid i claimToken errorCode errorMessage now d =
     (case lockById i d of
        None \<Rightarrow> (Inr (False, None), d)
      | Some row \<Rightarrow>
          if ah_state row = H_failed
          then (case settleDeliveredLocked now row None True d of
                  (Some _, d1) \<Rightarrow> (Inr (True, None), d1)
                | (None, d1) \<Rightarrow> (Inr (True, map_option (\<lambda>m. (ah_id row, m)) (ah_continuationAssistantMessageId row)), d1))
          else if ah_claimToken row \<noteq> Some claimToken \<or> ah_state row \<notin> {H_claimed, H_dispatched} then (Inr (False, None), d)
          else (case settleDeliveredLocked now row (Some claimToken) False d of
                  (Some _, d1) \<Rightarrow> (Inr (True, None), d1)
                | (None, d1) \<Rightarrow>
                    (let (messageId, d2) = persistPermanentFailureMessage mid row d1 in
                     (Inr (True, map_option (\<lambda>m. (ah_id row, m)) messageId),
                      updateRow now i (\<lambda>h. h\<lparr>ah_state := H_failed, ah_failedAt := Some now, ah_claimToken := None,
                        ah_claimExpiresAt := None, ah_nextRetryAt := None, ah_lastErrorCode := Some errorCode,
                        ah_lastErrorMessage := Some errorMessage, ah_continuationAssistantMessageId := messageId\<rparr>) d2))))"

definition getPermanentFailureObservation :: "string \<Rightarrow> (string \<times> string) option async_step" where
  "getPermanentFailureObservation i now d =
     (Inr (case lockById i d of
             None \<Rightarrow> None
           | Some row \<Rightarrow> if ah_state row \<noteq> H_failed then None
               else map_option (\<lambda>m. (ah_id row, m)) (ah_continuationAssistantMessageId row)), d)"

definition settleDeliveredCatchUpFailure ::
  "string \<Rightarrow> string \<Rightarrow> (string \<times> string \<times> string option) option async_step" where
  "settleDeliveredCatchUpFailure i claimToken now d =
     (case lockById i d of
        None \<Rightarrow> (Inr None, d)
      | Some row \<Rightarrow> (let (r, d1) = settleDeliveredLocked now row (Some claimToken) True d in (Inr r, d1)))"

definition settleDeliveredCatchUpFailureByClientTurnId ::
  "string \<Rightarrow> (string \<times> string \<times> string option) option async_step" where
  "settleDeliveredCatchUpFailureByClientTurnId turnId now d =
     (let trimmed = js_trim turnId in
      if take 11 trimmed \<noteq> ''async-cont:'' then (Inr None, d)
      else (case findHandle (\<lambda>h. ah_continuationClientTurnId h = Some trimmed) d of
              None \<Rightarrow> (Inr None, d)
            | Some row \<Rightarrow> (let (r, d1) = settleDeliveredLocked now row None True d in (Inr r, d1))))"

definition claimFailedHandleExternalNotice :: "string \<Rightarrow> bool async_step" where
  "claimFailedHandleExternalNotice i now d =
     updateClaim now (\<lambda>h. ah_id h = i \<and> ah_state h = H_failed \<and> ah_channel h = Telegram_chat \<and>
         ah_externalAttemptedAt h = None \<and> ah_continuationAssistantMessageId h \<noteq> None)
       (\<lambda>h. h\<lparr>ah_externalAttemptedAt := Some now, ah_externalResult := Some ''attempting''\<rparr>) d"

definition recordFailedHandleExternalNoticeResult :: "string \<Rightarrow> attempt_result \<Rightarrow> string option \<Rightarrow> bool async_step" where
  "recordFailedHandleExternalNoticeResult i result err now d =
     updateClaim now (\<lambda>h. ah_id h = i \<and> ah_state h = H_failed \<and> ah_externalResult h = Some ''attempting'')
       (\<lambda>h. h\<lparr>ah_externalResult := Some (attemptString result), ah_externalError := map_option (take 1000) err\<rparr>) d"

section \<open>Registration, refreshing and lists\<close>

record register_input =
  ri_canonicalJobId :: string
  ri_scope :: job_scope
  ri_sourceClientTurnId :: string
  ri_sourceUserMessageId :: string
  ri_runtimeRequestId :: string
  ri_runtimeSessionId :: string
  ri_toolCode :: string

text \<open>A new row: the columns without a default are given, the others have their default.\<close>

definition newHandle ::
  "string \<Rightarrow> string \<Rightarrow> handle_kind \<Rightarrow> string \<Rightarrow> string \<Rightarrow> string \<Rightarrow> string \<Rightarrow> string \<Rightarrow> chat_surface \<Rightarrow> int \<Rightarrow> async_handle" where
  "newHandle hid jobRef kind canonicalJobId assistantId workspaceId userId chatId channel now =
     \<lparr>ah_id = hid, ah_jobRef = jobRef, ah_kind = kind, ah_canonicalJobId = canonicalJobId, ah_assistantId = assistantId,
      ah_workspaceId = workspaceId, ah_userId = userId, ah_chatId = chatId, ah_channel = channel, ah_threadKey = None,
      ah_sourceClientTurnId = None, ah_sourceUserMessageId = None, ah_runtimeSessionId = None,
      ah_state = H_none, ah_terminalSnapshotJson = None,
      ah_narrationOwner = None, ah_narrationDecision = None, ah_sourceFinalizedAt = None, ah_narrationDecisionAt = None,
      ah_terminalObservedAt = None, ah_continuationDepth = 0, ah_continuationClientTurnId = None, ah_claimToken = None,
      ah_claimedAt = None, ah_claimExpiresAt = None, ah_readyAt = None, ah_catchUpOrdinal = None,
      ah_catchUpWaveTotal = None, ah_catchUpWaveId = None, ah_dispatchedAt = None, ah_dispatchReceiptRequestId = None,
      ah_continuationAssistantMessageId = None, ah_artifactsAttemptedAt = None, ah_artifactsDeliveredAt = None,
      ah_artifactsResult = None, ah_artifactsError = None, ah_externalAttemptedAt = None, ah_externalResult = None,
      ah_externalError = None, ah_completedAt = None, ah_failedAt = None, ah_cancelledAt = None, ah_retryCount = 0,
      ah_maxRetries = 8, ah_nextRetryAt = None, ah_lastErrorCode = None, ah_lastErrorMessage = None,
      ah_createdAt = now, ah_updatedAt = now\<rparr>"

text \<open>The row of a new sandbox handle; \<open>js_jobRef\<close> is the random reference.\<close>

definition sandboxHandle :: "string \<Rightarrow> int \<Rightarrow> register_input \<Rightarrow> string \<Rightarrow> async_handle" where
  "sandboxHandle hid now i userId =
     (newHandle hid (''jr1.sandbox.'' @ js_jobRef (ri_scope i)) Sandbox_job (ri_canonicalJobId i)
        (js_assistantId (ri_scope i)) (js_workspaceId (ri_scope i)) userId (js_chatId (ri_scope i)) (js_channel (ri_scope i)) now)
      \<lparr>ah_threadKey := Some (js_threadKey (ri_scope i)), ah_sourceClientTurnId := Some (ri_sourceClientTurnId i),
       ah_sourceUserMessageId := Some (ri_sourceUserMessageId i), ah_runtimeSessionId := Some (ri_runtimeSessionId i)\<rparr>"

text \<open>The unique keys of the table: id, job reference, job, and the follow-up's turn id.\<close>

definition insertHandle :: "async_handle \<Rightarrow> async_data \<Rightarrow> async_data option" where
  "insertHandle h d =
     (if (\<exists>x \<in> set (handleTable d). ah_id x = ah_id h \<or> ah_jobRef x = ah_jobRef h \<or>
            (ah_kind x = ah_kind h \<and> ah_canonicalJobId x = ah_canonicalJobId h) \<or>
            (ah_continuationClientTurnId h \<noteq> None \<and> ah_continuationClientTurnId x = ah_continuationClientTurnId h))
      then None else Some (d\<lparr>handleTable := handleTable d @ [h]\<rparr>))"

text \<open>
  The trigger that mints the handle of a new media or document job (\<open>mint_assistant_async_job_handle\<close>): a job
  started by a follow-up turn is one level deeper than the job that turn followed up.
\<close>

record mint_input =
  mi_kind :: handle_kind
  mi_jobId :: string
  mi_assistantId :: string
  mi_workspaceId :: string
  mi_userId :: string
  mi_chatId :: string
  mi_surface :: chat_surface
  mi_sourceClientTurnId :: "string option"
  mi_sourceUserMessageId :: "string option"

definition inheritedDepth :: "string option \<Rightarrow> async_data \<Rightarrow> int" where
  "inheritedDepth sourceTurn d =
     (case sourceTurn of
        None \<Rightarrow> 0
      | Some t \<Rightarrow> (case findHandle (\<lambda>h. ah_continuationClientTurnId h = Some t) d of
                    None \<Rightarrow> 0 | Some p \<Rightarrow> min (ah_continuationDepth p + 1) 4))"

definition mintedHandle :: "string \<Rightarrow> string \<Rightarrow> mint_input \<Rightarrow> int \<Rightarrow> async_data \<Rightarrow> async_handle" where
  "mintedHandle hid random i now d =
     (let sourceTurn = (case mi_sourceClientTurnId i of Some t \<Rightarrow> Some t | None \<Rightarrow> mi_sourceUserMessageId i) in
      (newHandle hid ((case mi_kind i of Media_job \<Rightarrow> ''jr1.media.'' | _ \<Rightarrow> ''jr1.document.'') @ random) (mi_kind i) (mi_jobId i)
        (mi_assistantId i) (mi_workspaceId i) (mi_userId i) (mi_chatId i) (mi_surface i) now)
      \<lparr>ah_threadKey := map_option ch_surfaceThreadKey (chatRow (mi_chatId i) d), ah_sourceClientTurnId := sourceTurn,
       ah_sourceUserMessageId := mi_sourceUserMessageId i, ah_continuationDepth := inheritedDepth sourceTurn d\<rparr>)"

definition mintHandle :: "string \<Rightarrow> string \<Rightarrow> mint_input \<Rightarrow> unit async_step" where
  "mintHandle hid random i now d =
     (if lockCanonical (mi_kind i) (mi_jobId i) d \<noteq> None then (Inr (), d)
      else (case insertHandle (mintedHandle hid random i now d) d of
              None \<Rightarrow> (Inl uniqueViolation, d)
            | Some d1 \<Rightarrow> (Inr (), d1)))"

definition registerSandboxJob :: "string \<Rightarrow> register_input \<Rightarrow> string option async_step" where
  "registerSandboxJob hid i now d =
     (let sc = ri_scope i;
          chat = find (\<lambda>c. ch_id c = js_chatId sc \<and> ch_assistantId c = js_assistantId sc \<and>
             ch_workspaceId c = js_workspaceId sc \<and> ch_surface c = js_channel sc \<and>
             ch_surfaceThreadKey c = js_threadKey sc) (chatTable d);
          job = find (\<lambda>j. sj_id j = ri_canonicalJobId i \<and> sj_assistantId j = js_assistantId sc \<and>
             sj_workspaceId j = js_workspaceId sc \<and> sj_runtimeRequestId j = Some (ri_runtimeRequestId i) \<and>
             sj_runtimeSessionId j = Some (ri_runtimeSessionId i) \<and> sj_toolCode j = ri_toolCode i \<and>
             sj_status j = S_detached) (sandboxJobs d);
          sourceMessage = find (\<lambda>m. cm_id m = ri_sourceUserMessageId i \<and> cm_chatId m = js_chatId sc \<and>
             cm_assistantId m = js_assistantId sc \<and> cm_author m = Author_user) (messageTable d);
          runtimeSession = find (\<lambda>r. se_id r = ri_runtimeSessionId i \<and> se_assistantId r = js_assistantId sc \<and>
             se_workspaceId r = js_workspaceId sc \<and> se_channel r = js_channel sc \<and>
             se_externalThreadKey r = js_threadKey sc \<and> se_closedAt r = None) (sessionTable d)
      in case chat of
           None \<Rightarrow> (Inr None, d)
         | Some c \<Rightarrow>
             if job = None \<or> sourceMessage = None \<or> runtimeSession = None \<or> ri_sourceClientTurnId i = [] then (Inr None, d)
             else (case lockCanonical Sandbox_job (ri_canonicalJobId i) d of
                 Some existing \<Rightarrow> (Inr (Some (ah_jobRef existing)), d)
               | None \<Rightarrow>
                   (case assertActiveBackgroundJobCap (js_chatId sc) (Some (ri_canonicalJobId i)) d of
                      Inl e \<Rightarrow> (Inl e, d)
                    | Inr _ \<Rightarrow>
                        (let h = sandboxHandle hid now i (ch_userId c) in
                         case insertHandle h d of
                           None \<Rightarrow> (Inl uniqueViolation, d)
                         | Some d1 \<Rightarrow> (Inr (Some (ah_jobRef h)), d1)))))"

text \<open>
  \<open>inspect\<close> is the sandbox control plane: \<open>None\<close> when it is not configured, else what looking at an open job writes
  into its row.
\<close>

type_synonym inspector = "(sandbox_job \<Rightarrow> sandbox_status \<times> json) option"

definition inspectJob :: "(sandbox_job \<Rightarrow> sandbox_status \<times> json) \<Rightarrow> string \<Rightarrow> async_data \<Rightarrow> async_data" where
  "inspectJob look i d = d\<lparr>sandboxJobs := map (\<lambda>j. if sj_id j = i
     then j\<lparr>sj_status := fst (look j), sj_resultPayload := snd (look j)\<rparr> else j) (sandboxJobs d)\<rparr>"

definition refreshSandboxJobs :: "inspector \<Rightarrow> string list \<Rightarrow> (async_data database, unit) oper" where
  "refreshSandboxJobs inspect canonicalJobIds =
     (case inspect of
        None \<Rightarrow> returnS ()
      | Some look \<Rightarrow>
          if canonicalJobIds = [] then returnS ()
          else bindS (tx (\<lambda>_ d. (Inr (map sj_id (filter (\<lambda>j. sj_id j \<in> set canonicalJobIds \<and> sandboxOpen (sj_status j))
                  (sandboxJobs d))), d))) (\<lambda>opened s.
               (Inr (), s\<lparr>dbData := fold (inspectJob look) opened (dbData s)\<rparr>)))"

definition refreshOwnedSandboxJob :: "inspector \<Rightarrow> job_scope \<Rightarrow> (async_data database, unit) oper" where
  "refreshOwnedSandboxJob inspect i =
     (if inspect = None then returnS ()
      else bindS (tx (\<lambda>_ d. (Inr (findHandle (\<lambda>h. ah_jobRef h = js_jobRef i \<and> ah_assistantId h = js_assistantId i \<and>
               ah_workspaceId h = js_workspaceId i \<and> ah_chatId h = js_chatId i \<and> ah_channel h = js_channel i \<and>
               ah_threadKey h = Some (js_threadKey i) \<and> ah_kind h = Sandbox_job) d), d))) (\<lambda>handle.
        case handle of None \<Rightarrow> returnS () | Some h \<Rightarrow> refreshSandboxJobs inspect [ah_canonicalJobId h]))"

definition observeForCurrentTurn ::
  "inspector \<Rightarrow> nat \<Rightarrow> string \<Rightarrow> job_scope \<Rightarrow> (async_data database, observe_outcome) oper" where
  "observeForCurrentTurn inspect pick uuid i =
     bindS (refreshOwnedSandboxJob inspect i) (\<lambda>_. tx (observeTx pick uuid i))"

definition subscribePending ::
  "inspector \<Rightarrow> (string \<Rightarrow> string) \<Rightarrow> job_scope \<Rightarrow> (async_data database, subscribe_outcome) oper" where
  "subscribePending inspect sha i = bindS (refreshOwnedSandboxJob inspect i) (\<lambda>_. tx (subscribeTx sha i))"

definition openHandleState :: "handle_state \<Rightarrow> bool" where
  "openHandleState st \<longleftrightarrow> st \<in> {H_none, H_subscribed, H_ready, H_claimed, H_dispatched}"

text \<open>\<open>orderBy: [{ createdAt: "asc" }, { id: "asc" }]\<close>\<close>

fun insertByAge :: "async_handle \<Rightarrow> async_handle list \<Rightarrow> async_handle list" where
  "insertByAge h [] = [h]"
| "insertByAge h (x # xs) =
     (if ah_createdAt h < ah_createdAt x \<or> (ah_createdAt h = ah_createdAt x \<and> stringLe (ah_id h) (ah_id x))
      then h # x # xs else x # insertByAge h xs)"

definition byAge :: "async_handle list \<Rightarrow> async_handle list" where
  "byAge hs = foldr insertByAge hs []"

definition isCurrentlyOpen :: "async_data \<Rightarrow> async_handle \<Rightarrow> bool" where
  "isCurrentlyOpen d h \<longleftrightarrow>
     (case ah_kind h of
        Sandbox_job \<Rightarrow> (\<exists>j \<in> set (sandboxJobs d). sj_id j = ah_canonicalJobId h \<and> sandboxOpen (sj_status j))
      | Media_job \<Rightarrow> (\<exists>j \<in> set (mediaJobs d). mj_id j = ah_canonicalJobId h \<and>
          mj_status j \<in> {M_queued, M_running, M_completion_pending} \<and> mj_deliveredAt j = None \<and>
          (case mj_completionAssistantMessageId j of None \<Rightarrow> True | Some m \<Rightarrow> m \<notin> set (attachmentsOf d)))
      | Document_job \<Rightarrow> (\<exists>j \<in> set (documentJobs d). dj_id j = ah_canonicalJobId h \<and>
          dj_status j \<in> {D_queued, D_running, D_provider_processing, D_fetching_output, D_ready_for_delivery} \<and>
          dj_deliveredAt j = None))"

definition snapshotRows :: "job_scope \<Rightarrow> string \<Rightarrow> async_data \<Rightarrow> async_handle list" where
  "snapshotRows i sourceClientTurnId d = take 96 (byAge (filter (\<lambda>h.
     ah_assistantId h = js_assistantId i \<and> ah_workspaceId h = js_workspaceId i \<and> ah_chatId h = js_chatId i \<and>
     ah_channel h = js_channel i \<and> ah_threadKey h = Some (js_threadKey i) \<and>
     (\<exists>c \<in> set (chatTable d). ch_id c = ah_chatId h \<and> ch_assistantId c = js_assistantId i \<and>
        ch_workspaceId c = js_workspaceId i \<and> ch_surface c = js_channel i \<and> ch_surfaceThreadKey c = js_threadKey i) \<and>
     (ah_sourceClientTurnId h = Some sourceClientTurnId \<or> openHandleState (ah_state h))) (handleTable d)))"

text \<open>The lookups of open jobs are one statement per kind; here they see one state.\<close>

definition listOwnedSnapshotJobRefs ::
  "inspector \<Rightarrow> job_scope \<Rightarrow> string \<Rightarrow> (async_data database, bool \<times> string list) oper" where
  "listOwnedSnapshotJobRefs inspect i sourceClientTurnId =
     bindS (tx (\<lambda>_ d. (Inr (snapshotRows i sourceClientTurnId d), d))) (\<lambda>rows.
     bindS (refreshSandboxJobs inspect (map ah_canonicalJobId (filter (\<lambda>h. ah_kind h = Sandbox_job) rows))) (\<lambda>_.
     tx (\<lambda>_ d.
       (let filtered = filter (\<lambda>h. ah_sourceClientTurnId h = Some sourceClientTurnId \<or> isCurrentlyOpen d h) rows
        in (Inr (length filtered > 32, map ah_jobRef (take 32 filtered)), d)))))"

record sandbox_job_view =
  sv_jobRef :: string
  sv_toolCode :: string
  sv_status :: sandbox_status
  sv_notifyState :: handle_state
  sv_createdAt :: int
  sv_startedAt :: "int option"
  sv_updatedAt :: int
  sv_continuationClientTurnId :: "string option"

definition toWebNotifyState :: "handle_state \<Rightarrow> handle_state" where
  "toWebNotifyState st = (if st \<in> {H_subscribed, H_ready, H_claimed, H_dispatched, H_failed, H_cancelled} then st else H_none)"

definition sandboxView :: "async_data \<Rightarrow> async_handle \<Rightarrow> sandbox_job_view option" where
  "sandboxView d h =
     (case sandboxJob (ah_canonicalJobId h) d of
        None \<Rightarrow> None
      | Some job \<Rightarrow>
          if (sj_toolCode job \<noteq> ''shell'' \<and> sj_toolCode job \<noteq> ''exec'') \<or> \<not> sandboxOpen (sj_status job) then None
          else Some \<lparr>sv_jobRef = ah_jobRef h, sv_toolCode = sj_toolCode job, sv_status = sj_status job,
            sv_notifyState = toWebNotifyState (ah_state h), sv_createdAt = ah_createdAt h, sv_startedAt = sj_startedAt job,
            sv_updatedAt = ah_updatedAt h,
            sv_continuationClientTurnId = (if ah_state h \<in> {H_subscribed, H_ready, H_claimed, H_dispatched}
              then ah_continuationClientTurnId h else None)\<rparr>)"

definition listOpenSandboxJobsForWebChat ::
  "inspector \<Rightarrow> string \<Rightarrow> string \<Rightarrow> (async_data database, sandbox_job_view list) oper" where
  "listOpenSandboxJobsForWebChat inspect assistantId chatId =
     bindS (tx (\<lambda>_ d. (Inr (take 8 (byAge (filter (\<lambda>h. ah_assistantId h = assistantId \<and> ah_chatId h = chatId \<and>
         ah_kind h = Sandbox_job \<and> openHandleState (ah_state h)) (handleTable d)))), d))) (\<lambda>rows.
     bindS (refreshSandboxJobs inspect (map ah_canonicalJobId rows)) (\<lambda>_.
     tx (\<lambda>_ d. (Inr (List.map_filter (sandboxView d) rows), d))))"

lemma firstQueued_in: "firstQueued hs = Some h \<Longrightarrow> h \<in> set hs"
  by (induction hs arbitrary: h) (auto split: option.splits if_splits)

end
