(* ===== verification/AsyncJobMachine.thy ===== *)
theory AsyncJobMachine
  imports AsyncJobHandles
begin

text \<open>
  The state machine the handle service implements: the columns of a handle that decide who tells the user about a
  job, the moves between their values, and what every path of moves keeps.
\<close>

record handle_view =
  hv_state :: handle_state
  hv_owner :: "narration_owner option"
  hv_decision :: "string option"
  hv_token :: "string option"
  hv_retries :: int
  hv_maxRetries :: int
  hv_depth :: int
  hv_snapshot :: bool
  hv_finalized :: bool
  hv_artifacts :: "int option"
  hv_external :: "int option"

definition handleView :: "async_handle \<Rightarrow> handle_view" where
  "handleView h =
     \<lparr>hv_state = ah_state h, hv_owner = ah_narrationOwner h, hv_decision = ah_narrationDecision h,
      hv_token = ah_claimToken h, hv_retries = ah_retryCount h, hv_maxRetries = ah_maxRetries h,
      hv_depth = ah_continuationDepth h, hv_snapshot = (ah_terminalSnapshotJson h \<noteq> None),
      hv_finalized = (ah_sourceFinalizedAt h \<noteq> None), hv_artifacts = ah_artifactsAttemptedAt h,
      hv_external = ah_externalAttemptedAt h\<rparr>"

lemma view_sel:
  "hv_state (handleView h) = ah_state h" "hv_owner (handleView h) = ah_narrationOwner h"
  "hv_decision (handleView h) = ah_narrationDecision h" "hv_token (handleView h) = ah_claimToken h"
  "hv_retries (handleView h) = ah_retryCount h" "hv_maxRetries (handleView h) = ah_maxRetries h"
  "hv_depth (handleView h) = ah_continuationDepth h" "hv_snapshot (handleView h) = (ah_terminalSnapshotJson h \<noteq> None)"
  "hv_finalized (handleView h) = (ah_sourceFinalizedAt h \<noteq> None)" "hv_artifacts (handleView h) = ah_artifactsAttemptedAt h"
  "hv_external (handleView h) = ah_externalAttemptedAt h"
  by (simp_all add: handleView_def)

definition followUp :: "handle_view \<Rightarrow> bool" where
  "followUp v \<longleftrightarrow> hv_owner v = Some Continuation \<and> hv_decision v = Some ''notify_subscribed''"

definition presented :: "handle_view \<Rightarrow> bool" where
  "presented v \<longleftrightarrow> hv_owner v = Some Current_turn \<and> hv_decision v = Some ''current_turn_inline'' \<and> hv_snapshot v \<and>
     isTerminalState (hv_state v)"

definition stateOfTerminal :: "terminal_status \<Rightarrow> handle_state" where
  "stateOfTerminal st = (case st of T_completed \<Rightarrow> H_completed | T_failed \<Rightarrow> H_failed | T_cancelled \<Rightarrow> H_cancelled)"

text \<open>
  Some moves are for some operations only: adopting a row of the older schema, the end of the source turn, and the
  release of a row the source turn had taken.
\<close>

datatype special_move = Adopt_move | Finalize_move | Release_move

definition unowned :: "special_move set \<Rightarrow> handle_view \<Rightarrow> bool" where
  "unowned heal v \<longleftrightarrow> hv_owner v \<noteq> Some Continuation \<and> (hv_owner v = Some Current_turn \<longrightarrow> Release_move \<in> heal) \<and> \<not> presented v"

inductive view_move :: "special_move set \<Rightarrow> handle_view \<Rightarrow> handle_view \<Rightarrow> bool" for heal where
  snapshot: "view_move heal v (v\<lparr>hv_snapshot := True\<rparr>)"
| finalized: "Finalize_move \<in> heal \<Longrightarrow> view_move heal v (v\<lparr>hv_finalized := True\<rparr>)"
| present: "hv_owner v = None \<Longrightarrow>
    view_move heal v (v\<lparr>hv_owner := Some Current_turn, hv_decision := Some ''current_turn_inline''\<rparr>)"
| finish: "\<not> followUp v \<or> hv_state v = H_failed \<Longrightarrow> view_move heal v (v\<lparr>hv_state := stateOfTerminal st\<rparr>)"
| notify: "unowned heal v \<Longrightarrow> hv_depth v < MAX_ASYNC_CONTINUATION_DEPTH \<Longrightarrow>
    view_move heal v (v\<lparr>hv_owner := Some Continuation, hv_decision := Some ''notify_subscribed'', hv_maxRetries := 8\<rparr>)"
| adopt: "Adopt_move \<in> heal \<Longrightarrow> hv_owner v \<noteq> Some Current_turn \<Longrightarrow>
    view_move heal v (v\<lparr>hv_owner := Some Continuation, hv_decision := Some ''notify_subscribed'', hv_maxRetries := 8\<rparr>)"
| exhaust: "unowned heal v \<Longrightarrow> hv_depth v \<ge> MAX_ASYNC_CONTINUATION_DEPTH \<Longrightarrow>
    view_move heal v (v\<lparr>hv_owner := Some Continuation, hv_decision := Some ''continuation_depth_exhausted'',
      hv_state := H_failed\<rparr>)"
| wait: "followUp v \<Longrightarrow> hv_state v \<notin> {H_ready, H_claimed, H_dispatched} \<Longrightarrow> view_move heal v (v\<lparr>hv_state := H_subscribed\<rparr>)"
| wake: "followUp v \<Longrightarrow> view_move heal v (v\<lparr>hv_state := H_ready\<rparr>)"
| claim: "hv_state v = H_ready \<Longrightarrow> hv_finalized v \<Longrightarrow> hv_retries v < hv_maxRetries v \<Longrightarrow>
    view_move heal v (v\<lparr>hv_state := H_claimed, hv_token := Some t\<rparr>)"
| release: "hv_state v = H_claimed \<Longrightarrow> view_move heal v (v\<lparr>hv_state := H_ready, hv_token := None\<rparr>)"
| dispatch: "hv_state v = H_claimed \<Longrightarrow> view_move heal v (v\<lparr>hv_state := H_dispatched\<rparr>)"
| complete: "hv_state v \<in> {H_claimed, H_dispatched, H_failed} \<Longrightarrow>
    view_move heal v (v\<lparr>hv_state := H_completed, hv_token := None\<rparr>)"
| requeue: "hv_state v \<in> {H_claimed, H_dispatched} \<Longrightarrow> hv_retries v + 1 < hv_maxRetries v \<Longrightarrow>
    view_move heal v (v\<lparr>hv_state := H_ready, hv_token := None, hv_retries := hv_retries v + 1\<rparr>)"
| exhausted: "hv_state v \<in> {H_claimed, H_dispatched} \<Longrightarrow> hv_retries v + 1 \<ge> hv_maxRetries v \<Longrightarrow>
    view_move heal v (v\<lparr>hv_state := H_failed, hv_token := None, hv_retries := hv_retries v + 1\<rparr>)"
| fail: "hv_state v \<in> {H_claimed, H_dispatched} \<Longrightarrow> view_move heal v (v\<lparr>hv_state := H_failed, hv_token := None\<rparr>)"
| attempt_artifacts: "hv_state v = H_dispatched \<Longrightarrow> hv_artifacts v = None \<Longrightarrow>
    view_move heal v (v\<lparr>hv_artifacts := Some t\<rparr>)"
| attempt_external: "hv_state v \<in> {H_dispatched, H_failed} \<Longrightarrow> hv_external v = None \<Longrightarrow>
    view_move heal v (v\<lparr>hv_external := Some t\<rparr>)"

abbreviation view_moves :: "special_move set \<Rightarrow> handle_view \<Rightarrow> handle_view \<Rightarrow> bool" where
  "view_moves heal \<equiv> (view_move heal)\<^sup>*\<^sup>*"

section \<open>What moves keep\<close>

definition initialView :: "int \<Rightarrow> handle_view" where
  "initialView depth = \<lparr>hv_state = H_none, hv_owner = None, hv_decision = None, hv_token = None, hv_retries = 0,
     hv_maxRetries = 8, hv_depth = depth, hv_snapshot = False, hv_finalized = False, hv_artifacts = None, hv_external = None\<rparr>"

definition viewOk :: "handle_view \<Rightarrow> bool" where
  "viewOk v \<longleftrightarrow>
     (hv_state v \<in> {H_subscribed, H_ready, H_claimed, H_dispatched} \<longrightarrow> followUp v) \<and>
     (hv_state v \<in> {H_claimed, H_dispatched} \<longrightarrow> hv_token v \<noteq> None \<and> hv_finalized v \<and> hv_retries v < 8) \<and>
     0 \<le> hv_retries v \<and> hv_retries v \<le> 8 \<and> hv_maxRetries v = 8 \<and>
     0 \<le> hv_depth v \<and> hv_depth v \<le> MAX_ASYNC_CONTINUATION_DEPTH \<and>
     (followUp v \<longrightarrow> hv_depth v < MAX_ASYNC_CONTINUATION_DEPTH)"

lemma viewOkD:
  "viewOk v \<Longrightarrow> hv_state v \<in> {H_subscribed, H_ready, H_claimed, H_dispatched} \<Longrightarrow> followUp v"
  "viewOk v \<Longrightarrow> hv_state v \<in> {H_claimed, H_dispatched} \<Longrightarrow> hv_token v \<noteq> None \<and> hv_finalized v \<and> hv_retries v < 8"
  "viewOk v \<Longrightarrow> 0 \<le> hv_retries v \<and> hv_retries v \<le> 8 \<and> hv_maxRetries v = 8"
  "viewOk v \<Longrightarrow> 0 \<le> hv_depth v \<and> hv_depth v \<le> MAX_ASYNC_CONTINUATION_DEPTH"
  "viewOk v \<Longrightarrow> followUp v \<Longrightarrow> hv_depth v < MAX_ASYNC_CONTINUATION_DEPTH"
  unfolding viewOk_def by blast+

text \<open>What no move takes back.\<close>

definition movedOn :: "handle_view \<Rightarrow> handle_view \<Rightarrow> bool" where
  "movedOn v w \<longleftrightarrow>
     hv_depth w = hv_depth v \<and> hv_retries v \<le> hv_retries w \<and>
     (hv_finalized v \<longrightarrow> hv_finalized w) \<and> (hv_snapshot v \<longrightarrow> hv_snapshot w) \<and>
     (hv_artifacts v \<noteq> None \<longrightarrow> hv_artifacts w = hv_artifacts v) \<and>
     (hv_external v \<noteq> None \<longrightarrow> hv_external w = hv_external v) \<and>
     (hv_owner v \<noteq> None \<longrightarrow> hv_owner w \<noteq> None) \<and>
     (hv_owner v = Some Continuation \<longrightarrow> hv_owner w = Some Continuation) \<and>
     (presented v \<longrightarrow> presented w)"

lemma viewOk_initial: "0 \<le> n \<Longrightarrow> n \<le> MAX_ASYNC_CONTINUATION_DEPTH \<Longrightarrow> viewOk (initialView n)"
  by (simp add: viewOk_def initialView_def followUp_def)

lemma followUp_frame [simp]:
  "followUp (v\<lparr>hv_state := s\<rparr>) = followUp v" "followUp (v\<lparr>hv_token := t\<rparr>) = followUp v"
  "followUp (v\<lparr>hv_retries := n\<rparr>) = followUp v" "followUp (v\<lparr>hv_snapshot := b\<rparr>) = followUp v"
  "followUp (v\<lparr>hv_finalized := b\<rparr>) = followUp v" "followUp (v\<lparr>hv_artifacts := a\<rparr>) = followUp v"
  "followUp (v\<lparr>hv_external := a\<rparr>) = followUp v" "followUp (v\<lparr>hv_maxRetries := n\<rparr>) = followUp v"
  by (simp_all add: followUp_def)

lemma followUp_owner [simp]:
  "followUp (v\<lparr>hv_owner := Some Continuation, hv_decision := Some ''notify_subscribed''\<rparr>)"
  "\<not> followUp (v\<lparr>hv_owner := Some Current_turn, hv_decision := c\<rparr>)"
  "\<not> followUp (v\<lparr>hv_owner := w, hv_decision := Some ''continuation_depth_exhausted''\<rparr>)"
  by (simp_all add: followUp_def)

lemma followUp_ownerD: "followUp v \<Longrightarrow> hv_owner v = Some Continuation"
  by (simp add: followUp_def)

lemma stateOfTerminal_closed [simp]:
  "stateOfTerminal st \<noteq> H_subscribed" "stateOfTerminal st \<noteq> H_ready" "stateOfTerminal st \<noteq> H_claimed"
  "stateOfTerminal st \<noteq> H_dispatched" "isTerminalState (stateOfTerminal st)"
  by (cases st; simp add: stateOfTerminal_def isTerminalState_def)+

lemma viewOk_frame [simp]:
  "viewOk (v\<lparr>hv_snapshot := b\<rparr>) = viewOk v" "viewOk (v\<lparr>hv_artifacts := a\<rparr>) = viewOk v"
  "viewOk (v\<lparr>hv_external := a\<rparr>) = viewOk v"
  by (simp_all add: viewOk_def)

lemma viewOk_closed: "viewOk v \<Longrightarrow> viewOk (v\<lparr>hv_state := stateOfTerminal st\<rparr>)"
  by (simp add: viewOk_def)

lemma viewOk_move: "view_move heal v w \<Longrightarrow> Adopt_move \<notin> heal \<Longrightarrow> viewOk v \<Longrightarrow> viewOk w"
proof (induction rule: view_move.induct)
  case (present v)
  then show ?case using followUp_ownerD [of v] by (auto simp: viewOk_def)
next
  case (notify v)
  then show ?case using followUp_ownerD [of v] by (auto simp: viewOk_def unowned_def)
next
  case (exhaust v)
  then show ?case by (auto simp: viewOk_def)
next
  case (finish v st)
  then show ?case by (simp add: viewOk_closed)
next
  case (attempt_artifacts v t)
  then show ?case by simp
next
  case (attempt_external v t)
  then show ?case by simp
qed (simp_all add: viewOk_def)

lemma movedOn_refl [simp]: "movedOn v v"
  by (simp add: movedOn_def)

lemma movedOn_trans: "movedOn u v \<Longrightarrow> movedOn v w \<Longrightarrow> movedOn u w"
  unfolding movedOn_def by force

lemma movedOn_move: "view_move heal v w \<Longrightarrow> movedOn v w"
  by (induction rule: view_move.induct)
    (auto simp: movedOn_def presented_def followUp_def unowned_def isTerminalState_def stateOfTerminal_def split: terminal_status.splits)

lemma viewOk_moves: "view_moves heal v w \<Longrightarrow> Adopt_move \<notin> heal \<Longrightarrow> viewOk v \<Longrightarrow> viewOk w"
  by (induction rule: rtranclp_induct) (auto intro: viewOk_move)

lemma movedOn_moves: "view_moves heal v w \<Longrightarrow> movedOn v w"
  by (induction rule: rtranclp_induct) (auto intro: movedOn_move movedOn_trans)

text \<open>No row needs adoption: the owners the current schema does not know never come up again.\<close>

definition current :: "handle_view \<Rightarrow> bool" where
  "current v \<longleftrightarrow> hv_owner v \<noteq> Some Legacy \<and> (hv_owner v = None \<longrightarrow> \<not> hv_finalized v) \<and>
     (hv_owner v = Some Continuation \<longrightarrow> hv_decision v \<in> {Some ''notify_subscribed'', Some ''continuation_depth_exhausted''})"

lemma current_initial: "current (initialView n)"
  by (simp add: current_def initialView_def)

lemma current_move: "view_move heal v w \<Longrightarrow> Adopt_move \<notin> heal \<Longrightarrow> Finalize_move \<notin> heal \<Longrightarrow> current v \<Longrightarrow> current w"
  by (induction rule: view_move.induct) (simp_all add: current_def)

lemma finalized_move: "view_move heal v w \<Longrightarrow> Finalize_move \<notin> heal \<Longrightarrow> hv_finalized w = hv_finalized v"
  by (induction rule: view_move.induct) simp_all

lemma finalized_moves: "view_moves heal v w \<Longrightarrow> Finalize_move \<notin> heal \<Longrightarrow> hv_finalized w = hv_finalized v"
  by (induction rule: rtranclp_induct) (auto dest: finalized_move)

text \<open>The part of it that also the end of the source turn keeps.\<close>

definition knownOwner :: "handle_view \<Rightarrow> bool" where
  "knownOwner v \<longleftrightarrow> hv_owner v \<noteq> Some Legacy \<and>
     (hv_owner v = Some Continuation \<longrightarrow> hv_decision v \<in> {Some ''notify_subscribed'', Some ''continuation_depth_exhausted''})"

lemma current_known: "current v \<longleftrightarrow> knownOwner v \<and> (hv_owner v = None \<longrightarrow> \<not> hv_finalized v)"
  by (auto simp: current_def knownOwner_def)

lemma knownOwner_initial: "knownOwner (initialView n)"
  by (simp add: knownOwner_def initialView_def)

lemma knownOwner_move: "view_move heal v w \<Longrightarrow> Adopt_move \<notin> heal \<Longrightarrow> knownOwner v \<Longrightarrow> knownOwner w"
  by (induction rule: view_move.induct) (simp_all add: knownOwner_def)

end
