(* ===== verification/AsyncJobRefinement.thy ===== *)
theory AsyncJobRefinement
  imports AsyncJobMachine
begin

text \<open>
  Every operation of the handle service refines the state machine of \<open>AsyncJobMachine\<close>: on the table it only moves
  rows along paths of moves, numbers a row in a wave of its chat, or appends a new row.
\<close>

definition fixedCols ::
  "async_handle \<Rightarrow> string \<times> string \<times> handle_kind \<times> string \<times> string \<times> string \<times> string option \<times> string option" where
  "fixedCols h = (ah_id h, ah_jobRef h, ah_kind h, ah_canonicalJobId h, ah_assistantId h, ah_chatId h, ah_sourceClientTurnId h,
     ah_sourceUserMessageId h)"

definition waveCols :: "async_handle \<Rightarrow> int option \<times> int option \<times> string option" where
  "waveCols h = (ah_catchUpOrdinal h, ah_catchUpWaveTotal h, ah_catchUpWaveId h)"

definition advance :: "special_move set \<Rightarrow> async_handle \<Rightarrow> async_handle \<Rightarrow> bool" where
  "advance heal h h' \<longleftrightarrow> fixedCols h' = fixedCols h \<and> waveCols h' = waveCols h \<and> view_moves heal (handleView h) (handleView h')"

definition distinctIds :: "async_data \<Rightarrow> bool" where
  "distinctIds d \<longleftrightarrow> distinct (map ah_id (handleTable d))"

definition newRow :: "async_handle \<Rightarrow> bool" where
  "newRow h \<longleftrightarrow> (\<exists>n. 0 \<le> n \<and> n \<le> MAX_ASYNC_CONTINUATION_DEPTH \<and> handleView h = initialView n) \<and> waveCols h = (None, None, None)"

inductive handles_move :: "special_move set \<Rightarrow> async_data \<Rightarrow> async_data \<Rightarrow> bool" for heal where
  stay: "handleTable d' = handleTable d \<Longrightarrow> handles_move heal d d'"
| advance: "handles_move heal d d1 \<Longrightarrow> list_all2 (advance heal) (handleTable d1) (handleTable d2) \<Longrightarrow> handles_move heal d d2"
| stamp: "handles_move heal d d1 \<Longrightarrow> \<forall>h \<in> set (handleTable d1). ah_catchUpWaveId h \<noteq> Some uuid \<Longrightarrow>
    row \<in> set (handleTable d1) \<Longrightarrow> handles_move heal d (stampCatchUpQueueMarkersInTx pick uuid now (ah_id row) (ah_chatId row) d1)"
| insert: "handles_move heal d d1 \<Longrightarrow> insertHandle h d1 = Some d2 \<Longrightarrow> newRow h \<Longrightarrow> handles_move heal d d2"

section \<open>Rows\<close>

lemma advance_refl [simp]: "advance heal h h"
  by (simp add: advance_def)

lemma advance_trans: "advance heal h h1 \<Longrightarrow> advance heal h1 h2 \<Longrightarrow> advance heal h h2"
  by (auto simp: advance_def)

lemma advance_cols:
  "fixedCols h' = fixedCols h \<Longrightarrow> waveCols h' = waveCols h \<Longrightarrow> handleView h' = handleView h \<Longrightarrow> advance heal h h'"
  by (simp add: advance_def)

lemma advance_move:
  "fixedCols h' = fixedCols h \<Longrightarrow> waveCols h' = waveCols h \<Longrightarrow> view_move heal (handleView h) (handleView h') \<Longrightarrow> advance heal h h'"
  by (auto simp: advance_def)

lemma view_move_eq: "view_move heal v w \<Longrightarrow> w = u \<Longrightarrow> view_move heal v u"
  by simp

lemma advance_snapshot: "advance heal h (h\<lparr>ah_terminalSnapshotJson := Some s\<rparr>)"
  by (rule advance_move, simp add: fixedCols_def, simp add: waveCols_def,
      rule view_move_eq [OF view_move.snapshot]) (simp add: handleView_def)

lemma advance_finalized: "Finalize_move \<in> heal \<Longrightarrow> advance heal h (h\<lparr>ah_sourceFinalizedAt := Some t\<rparr>)"
  by (rule advance_move, simp add: fixedCols_def, simp add: waveCols_def,
      rule view_move_eq [OF view_move.finalized]) (simp_all add: handleView_def)

lemma advance_present: "ah_narrationOwner h = None \<Longrightarrow> advance heal h (currentTurnInline now h)"
  by (rule advance_move, simp add: fixedCols_def currentTurnInline_def, simp add: waveCols_def currentTurnInline_def,
      rule view_move_eq [OF view_move.present]) (simp_all add: handleView_def currentTurnInline_def)

lemma advance_finish:
  assumes "\<not> followUp (handleView h) \<or> ah_state h = H_failed"
  shows "advance heal h (terminalStateData st now h)"
proof (rule advance_move)
  have "handleView (terminalStateData st now h) = (handleView h)\<lparr>hv_state := stateOfTerminal st\<rparr>"
    by (cases st) (simp_all add: handleView_def terminalStateData_def stateOfTerminal_def)
  moreover have "\<not> followUp (handleView h) \<or> hv_state (handleView h) = H_failed"
    using assms by (simp add: handleView_def)
  ultimately show "view_move heal (handleView h) (handleView (terminalStateData st now h))"
    by (simp add: view_move.finish)
qed (cases st; simp add: fixedCols_def waveCols_def terminalStateData_def)+

lemma advance_notify:
  "unowned heal (handleView h) \<Longrightarrow> ah_continuationDepth h < MAX_ASYNC_CONTINUATION_DEPTH \<Longrightarrow>
   advance heal h (notifySubscribed now t h)"
  by (rule advance_move, simp add: fixedCols_def notifySubscribed_def, simp add: waveCols_def notifySubscribed_def,
      rule view_move_eq [OF view_move.notify]) (simp_all add: handleView_def notifySubscribed_def ASYNC_CONTINUATION_MAX_RETRIES_def)

lemma advance_adopt:
  "Adopt_move \<in> heal \<Longrightarrow> ah_narrationOwner h \<noteq> Some Current_turn \<Longrightarrow> advance heal h (notifySubscribed now t h)"
  by (rule advance_move, simp add: fixedCols_def notifySubscribed_def, simp add: waveCols_def notifySubscribed_def,
      rule view_move_eq [OF view_move.adopt]) (simp_all add: handleView_def notifySubscribed_def ASYNC_CONTINUATION_MAX_RETRIES_def)

lemma advance_exhaust:
  "unowned heal (handleView h) \<Longrightarrow> ah_continuationDepth h \<ge> MAX_ASYNC_CONTINUATION_DEPTH \<Longrightarrow>
   advance heal h (depthExhausted now h)"
  by (rule advance_move, simp add: fixedCols_def depthExhausted_def, simp add: waveCols_def depthExhausted_def,
      rule view_move_eq [OF view_move.exhaust]) (simp_all add: handleView_def depthExhausted_def)

lemma advance_wait:
  "followUp (handleView h) \<Longrightarrow> ah_state h \<notin> {H_ready, H_claimed, H_dispatched} \<Longrightarrow> advance heal h (h\<lparr>ah_state := H_subscribed\<rparr>)"
  by (rule advance_move, simp add: fixedCols_def, simp add: waveCols_def,
      rule view_move_eq [OF view_move.wait]) (simp_all add: handleView_def)

lemma advance_wake: "followUp (handleView h) \<Longrightarrow> advance heal h (readyData now h)"
  by (rule advance_move, simp add: fixedCols_def readyData_def, simp add: waveCols_def readyData_def,
      rule view_move_eq [OF view_move.wake]) (simp_all add: handleView_def readyData_def)

lemma followUp_notify [simp]: "followUp (handleView (notifySubscribed now t h))"
  by (simp add: followUp_def handleView_def notifySubscribed_def)

section \<open>Tables\<close>

lemma handles_move_trans: "handles_move heal d1 d2 \<Longrightarrow> handles_move heal d d1 \<Longrightarrow> handles_move heal d d2"
proof (induction rule: handles_move.induct)
  case (stay d' d0)
  have "list_all2 (advance heal) (handleTable d0) (handleTable d')"
    by (simp add: stay list_all2_same)
  with stay(2) show ?case by (rule handles_move.advance)
qed (auto intro: handles_move.intros)

lemma advance_all: "list_all2 (advance heal) (handleTable d) (handleTable d') \<Longrightarrow> handles_move heal d d'"
  by (rule handles_move.advance [OF handles_move.stay [OF refl]])

lemma advance_update:
  assumes "\<And>h. h \<in> set (handleTable d) \<Longrightarrow> p h \<Longrightarrow> advance heal h ((f h)\<lparr>ah_updatedAt := now\<rparr>)"
    and "handleTable d0 = handleTable d"
  shows "handles_move heal d (updateHandles now p f d0)"
  using assms by (intro advance_all) (auto simp: updateHandles_def list.rel_map list_all2_same)

lemma rows_by_id: "distinctIds d \<Longrightarrow> h \<in> set (handleTable d) \<Longrightarrow> row \<in> set (handleTable d) \<Longrightarrow> ah_id h = ah_id row \<Longrightarrow> h = row"
  unfolding distinctIds_def by (meson distinct_map inj_onD)

lemma advance_row:
  assumes "distinctIds d" "row \<in> set (handleTable d)" "handleTable d0 = handleTable d" "i = ah_id row"
    and "advance heal row (f row)"
  shows "handles_move heal d (updateRow now i f d0)"
  unfolding updateRow_def
proof (rule advance_update)
  fix h assume h: "h \<in> set (handleTable d)" "ah_id h = i"
  with assms have "h = row" by (auto intro: rows_by_id)
  moreover have "advance heal (f row) ((f row)\<lparr>ah_updatedAt := now\<rparr>)"
    by (rule advance_cols) (simp_all add: fixedCols_def waveCols_def handleView_def)
  ultimately show "advance heal h ((f h)\<lparr>ah_updatedAt := now\<rparr>)"
    using assms(5) advance_trans by blast
qed (rule assms)

lemma findHandleD: "findHandle p d = Some h \<Longrightarrow> h \<in> set (handleTable d) \<and> p h"
  by (auto simp: findHandle_def find_Some_iff)

lemma lockedRow:
  "lockOwned i d = Some h \<Longrightarrow> h \<in> set (handleTable d)"
  "lockCanonical k j d = Some h \<Longrightarrow> h \<in> set (handleTable d)"
  "lockById n d = Some h \<Longrightarrow> h \<in> set (handleTable d) \<and> ah_id h = n"
  by (auto simp: lockOwned_def lockCanonical_def lockById_def dest: findHandleD)

end
