(* ===== verification/AsyncJobOperations.thy ===== *)
theory AsyncJobOperations
  imports AsyncJobRefinement
begin

text \<open>
  The refinement of the machine, operation by operation. \<open>freshWave\<close>: the uuid a new wave gets names none yet.
\<close>

definition freshWave :: "string \<Rightarrow> async_data \<Rightarrow> bool" where
  "freshWave uuid d \<longleftrightarrow> (\<forall>h \<in> set (handleTable d). ah_catchUpWaveId h \<noteq> Some uuid)"

definition noAdoption :: "async_data \<Rightarrow> bool" where
  "noAdoption d \<longleftrightarrow> (\<forall>h \<in> set (handleTable d). \<not> needsContinuationHeal h)"

named_theorems op_defs "definitions of the operations on handles"

section \<open>Stamps\<close>

definition enterRow :: "int \<Rightarrow> string \<Rightarrow> string \<Rightarrow> string \<Rightarrow> int \<Rightarrow> async_handle \<Rightarrow> async_handle" where
  "enterRow now handleId chatId waveId ordinal h =
     (let h1 = (if ah_chatId h = chatId \<and> ah_catchUpWaveId h = Some waveId
                then h\<lparr>ah_catchUpWaveTotal := Some ordinal, ah_updatedAt := now\<rparr> else h) in
      if ah_id h = handleId
      then h1\<lparr>ah_catchUpOrdinal := Some ordinal, ah_catchUpWaveTotal := Some ordinal, ah_catchUpWaveId := Some waveId,
             ah_updatedAt := now\<rparr> else h1)"

lemma enterWave_rows: "handleTable (enterWave now i c w n d) = map (enterRow now i c w n) (handleTable d)"
  by (auto simp: enterWave_def updateRow_def updateHandles_def enterRow_def Let_def)

lemma enterRow_keeps [simp]:
  "fixedCols (enterRow now i c w n h) = fixedCols h" "handleView (enterRow now i c w n h) = handleView h"
  by (simp_all add: enterRow_def Let_def fixedCols_def handleView_def)

lemma openWave_cases:
  "openWave pick uuid c self d = uuid \<or> (\<exists>x \<in> set (handleTable d). ah_catchUpWaveId x = Some (openWave pick uuid c self d))"
proof -
  have chosen: "\<And>ys. set ys \<subseteq> set (handleTable d) \<Longrightarrow> (case Option.bind (pickRow pick ys) ah_catchUpWaveId of Some w \<Rightarrow> w | None \<Rightarrow> uuid) = uuid \<or>
    (\<exists>x \<in> set (handleTable d). ah_catchUpWaveId x =
       Some (case Option.bind (pickRow pick ys) ah_catchUpWaveId of Some w \<Rightarrow> w | None \<Rightarrow> uuid))"
  proof (goal_cases)
    case (1 ys)
    show ?case
    proof (cases ys)
      case (Cons y zs)
      then have "ys ! (pick mod length ys) \<in> set (handleTable d)"
        using 1 by (auto intro!: subsetD [OF 1] nth_mem)
      with Cons show ?thesis by (auto simp: pickRow_def split: option.splits)
    qed (simp add: pickRow_def)
  qed
  show ?thesis unfolding openWave_def by (rule chosen) auto
qed

lemma stamp_rows:
  obtains g where "handleTable (stampCatchUpQueueMarkersInTx pick uuid now i c d) = map g (handleTable d)"
    and "\<And>h. fixedCols (g h) = fixedCols h" and "\<And>h. handleView (g h) = handleView h"
    and "\<And>h w. h \<in> set (handleTable d) \<Longrightarrow> ah_catchUpWaveId (g h) = Some w \<Longrightarrow>
           w = uuid \<or> (\<exists>x \<in> set (handleTable d). ah_catchUpWaveId x = Some w)"
proof -
  have unchanged: "stampCatchUpQueueMarkersInTx pick uuid now i c d = d \<Longrightarrow> thesis"
    by (rule that [of "\<lambda>h. h"]) auto
  show thesis
  proof (cases "lockById i d")
    case (Some self)
    show thesis
    proof (cases "ah_catchUpOrdinal self")
      case None
      let ?w = "openWave pick uuid c self d"
      obtain n where n: "stampCatchUpQueueMarkersInTx pick uuid now i c d = enterWave now i c ?w n d"
        using Some None by (simp add: stampCatchUpQueueMarkersInTx_def Let_def)
      have wave: "ah_catchUpWaveId (enterRow now i c ?w n h) \<in> {ah_catchUpWaveId h, Some ?w}" for h
        by (simp add: enterRow_def Let_def)
      show thesis
      proof (rule that)
        show "handleTable (stampCatchUpQueueMarkersInTx pick uuid now i c d) = map (enterRow now i c ?w n) (handleTable d)"
          by (simp add: n enterWave_rows)
      next
        fix h w assume "h \<in> set (handleTable d)" "ah_catchUpWaveId (enterRow now i c ?w n h) = Some w"
        then show "w = uuid \<or> (\<exists>x \<in> set (handleTable d). ah_catchUpWaveId x = Some w)"
          using wave [of h] openWave_cases [of pick uuid c self d] by auto
      qed simp_all
    qed (use Some unchanged in \<open>simp add: stampCatchUpQueueMarkersInTx_def\<close>)
  qed (use unchanged in \<open>simp add: stampCatchUpQueueMarkersInTx_def\<close>)
qed

lemma stamp_distinctIds [simp]: "distinctIds (stampCatchUpQueueMarkersInTx pick uuid now i c d) = distinctIds d"
proof -
  obtain g where g: "handleTable (stampCatchUpQueueMarkersInTx pick uuid now i c d) = map g (handleTable d)"
    "\<And>h. fixedCols (g h) = fixedCols h" by (rule stamp_rows) blast
  then have "\<And>h. ah_id (g h) = ah_id h" by (simp add: fixedCols_def)
  with g(1) show ?thesis by (simp add: distinctIds_def o_def)
qed

lemma advance_ids: "list_all2 (advance heal) xs ys \<Longrightarrow> map ah_id ys = map ah_id xs"
  by (induction rule: list_all2_induct) (auto simp: advance_def fixedCols_def)

lemma handles_move_distinctIds: "handles_move heal d d' \<Longrightarrow> distinctIds d \<Longrightarrow> distinctIds d'"
proof (induction rule: handles_move.induct)
  case (insert d d1 h d2)
  then have "handleTable d2 = handleTable d1 @ [h]" "ah_id h \<notin> ah_id ` set (handleTable d1)"
    by (auto simp: insertHandle_def split: if_splits)
  with insert show ?case by (simp add: distinctIds_def)
next
  case (advance d d1 d2)
  then show ?case by (simp add: distinctIds_def advance_ids)
next
  case (stay d' d)
  then show ?case by (simp add: distinctIds_def)
qed simp

lemma updateRow_ids:
  "(\<And>h. ah_id (f h) = ah_id h) \<Longrightarrow> map ah_id (handleTable (updateRow now i f d)) = map ah_id (handleTable d)"
  by (simp add: updateRow_def updateHandles_def o_def)

section \<open>The end of a job seen by the source turn\<close>

text \<open>An update followed by the stamp of the same row.\<close>

lemma advance_stamped:
  assumes "distinctIds d" "row \<in> set (handleTable d)" "advance heal row (f row)" "freshWave uuid d"
    and "c = ah_chatId row"
  shows "handles_move heal d (stampCatchUpQueueMarkersInTx pick uuid now (ah_id row) c (updateRow now (ah_id row) f d))"
proof -
  let ?d1 = "updateRow now (ah_id row) f d" and ?row = "(f row)\<lparr>ah_updatedAt := now\<rparr>"
  have d1: "handleTable ?d1 = map (\<lambda>h. if h = row then ?row else h) (handleTable d)"
    using assms(1,2) rows_by_id by (auto simp: updateRow_def updateHandles_def)
  from assms(3) have row: "ah_id ?row = ah_id row" "ah_chatId ?row = ah_chatId row" "ah_catchUpWaveId ?row = ah_catchUpWaveId row"
    by (simp_all add: advance_def fixedCols_def waveCols_def)
  have "?row \<in> set (handleTable ?d1)" using assms(2) by (auto simp: d1)
  moreover have "\<forall>h \<in> set (handleTable ?d1). ah_catchUpWaveId h \<noteq> Some uuid"
    using assms(2,4) row(3) by (auto simp: d1 freshWave_def)
  moreover from assms(3) have "handles_move heal d ?d1" by (rule advance_row [OF assms(1,2) refl refl])
  ultimately have "handles_move heal d (stampCatchUpQueueMarkersInTx pick uuid now (ah_id ?row) (ah_chatId ?row) ?d1)"
    by (intro handles_move.stamp)
  then show ?thesis unfolding row(1,2) assms(5) .
qed

lemma move_finalizeTerminal:
  assumes "distinctIds d" "row \<in> set (handleTable d)" "freshWave uuid d"
  shows "handles_move heal d (finalizeTerminalHandleInTx pick uuid now row st snap d)"
proof (cases "followUp (handleView row)")
  case True
  have "advance heal row ((readyData now row)\<lparr>ah_terminalSnapshotJson := Some snap\<rparr>)"
    using advance_trans [OF advance_wake [OF True] advance_snapshot] .
  then have "handles_move heal d (stampCatchUpQueueMarkersInTx pick uuid now (ah_id row) (ah_chatId row)
      (updateRow now (ah_id row) (\<lambda>h. (readyData now h)\<lparr>ah_terminalSnapshotJson := Some snap\<rparr>) d))"
    by (rule advance_stamped [OF assms(1,2) _ assms(3) refl])
  with True show ?thesis
    by (simp add: finalizeTerminalHandleInTx_def followUp_def handleView_def Let_def handles_move.stay)
next
  case False
  let ?h = "(terminalStateData st now row)\<lparr>ah_terminalObservedAt := Some now, ah_terminalSnapshotJson := Some snap\<rparr>"
  have "advance heal row (terminalStateData st now row)" using False by (intro advance_finish) simp
  moreover have "advance heal (terminalStateData st now row) ?h"
    by (rule advance_trans [OF advance_snapshot [of _ _ snap] advance_cols])
      (simp_all add: fixedCols_def waveCols_def handleView_def)
  ultimately have "advance heal row ?h" by (rule advance_trans)
  then have "handles_move heal d (updateRow now (ah_id row) (\<lambda>h. (terminalStateData st now h)
      \<lparr>ah_terminalObservedAt := Some now, ah_terminalSnapshotJson := Some snap\<rparr>) d)"
    by (rule advance_row [OF assms(1,2) refl refl])
  with False show ?thesis
    by (auto simp: finalizeTerminalHandleInTx_def followUp_def handleView_def Let_def handles_move.stay)
qed

lemma advance_presented:
  assumes "ah_narrationOwner row = None"
  shows "advance heal row (terminalStateData st now (currentTurnInline now row)
           \<lparr>ah_terminalObservedAt := Some now, ah_terminalSnapshotJson := Some snap\<rparr>)"
proof -
  let ?h = "currentTurnInline now row"
  have "advance heal row ?h" by (rule advance_present [OF assms])
  moreover have "advance heal ?h (terminalStateData st now ?h)"
    by (rule advance_finish) (simp add: followUp_def handleView_def currentTurnInline_def)
  moreover have "advance heal (terminalStateData st now ?h)
      (terminalStateData st now ?h\<lparr>ah_terminalObservedAt := Some now, ah_terminalSnapshotJson := Some snap\<rparr>)"
    by (rule advance_trans [OF advance_snapshot [of _ _ snap] advance_cols])
      (simp_all add: fixedCols_def waveCols_def handleView_def)
  ultimately show ?thesis by (blast intro: advance_trans)
qed

lemma move_observe:
  "distinctIds d \<Longrightarrow> freshWave uuid d \<Longrightarrow> handles_move heal d (snd (observeTx pick uuid i now d))"
  by (auto simp: observeTx_def handles_move.stay split: option.splits
      intro: move_finalizeTerminal lockedRow advance_row [OF _ _ refl refl] advance_presented)

section \<open>Subscriptions\<close>

text \<open>A row a follow-up waits for, holds or runs is marked as the follow-up's.\<close>

definition followUpRows :: "async_data \<Rightarrow> bool" where
  "followUpRows d \<longleftrightarrow> (\<forall>h \<in> set (handleTable d).
     ah_state h \<in> {H_subscribed, H_ready, H_claimed, H_dispatched} \<longrightarrow> followUp (handleView h))"

lemma unownedI:
  "ah_narrationOwner h \<noteq> Some Current_turn \<Longrightarrow> ah_narrationOwner h \<noteq> Some Continuation \<Longrightarrow> unowned heal (handleView h)"
  by (simp add: unowned_def presented_def handleView_def)

lemma advance_subscribe:
  assumes "unowned heal (handleView row)"
    and "ah_continuationDepth row < MAX_ASYNC_CONTINUATION_DEPTH" "ah_state row \<notin> {H_ready, H_claimed, H_dispatched}"
  shows "advance heal row ((notifySubscribed now t row)\<lparr>ah_state := H_subscribed\<rparr>)"
proof -
  have "advance heal row (notifySubscribed now t row)"
    using assms by (intro advance_notify)
  moreover have "advance heal (notifySubscribed now t row) ((notifySubscribed now t row)\<lparr>ah_state := H_subscribed\<rparr>)"
    using assms(3) by (intro advance_wait followUp_notify) (simp add: notifySubscribed_def)
  ultimately show ?thesis by (rule advance_trans)
qed

lemma followUpRows_state:
  "followUpRows d \<Longrightarrow> h \<in> set (handleTable d) \<Longrightarrow> ah_narrationOwner h \<noteq> Some Continuation \<Longrightarrow>
   ah_state h \<notin> {H_subscribed, H_ready, H_claimed, H_dispatched}"
  unfolding followUpRows_def followUp_def handleView_def by auto

lemma move_depth_exhausted:
  assumes "distinctIds d" "row \<in> set (handleTable d)"
    and "unowned heal (handleView row)"
    and "MAX_ASYNC_CONTINUATION_DEPTH \<le> ah_continuationDepth row"
  shows "handles_move heal d (updateRow now (ah_id row) (depthExhausted now) d)"
  using assms by (intro advance_row [OF _ _ refl refl] advance_exhaust)

lemma move_subscribed:
  assumes "distinctIds d" "row \<in> set (handleTable d)"
    and "unowned heal (handleView row)"
    and "\<not> MAX_ASYNC_CONTINUATION_DEPTH \<le> ah_continuationDepth row" "ah_state row \<notin> {H_ready, H_claimed, H_dispatched}"
  shows "handles_move heal d (updateRow now (ah_id row) (\<lambda>h. (notifySubscribed now t h)\<lparr>ah_state := H_subscribed\<rparr>) d)"
  using assms by (intro advance_row [OF _ _ refl refl] advance_subscribe) auto

lemma move_legacy_subscribed:
  assumes "distinctIds d" "row \<in> set (handleTable d)"
    and "ah_narrationOwner row = Some Legacy" "\<not> MAX_ASYNC_CONTINUATION_DEPTH \<le> ah_continuationDepth row"
  shows "handles_move heal d (updateRow now (ah_id row) (\<lambda>h. (notifySubscribed now t h)
           \<lparr>ah_state := (if ah_state row \<in> {H_none, H_subscribed} then H_subscribed else ah_state h)\<rparr>) d)"
proof (rule advance_row [OF assms(1,2) refl refl])
  have owner: "unowned heal (handleView row)"
    using assms(3) by (simp add: unownedI)
  show "advance heal row ((notifySubscribed now t row)
      \<lparr>ah_state := (if ah_state row \<in> {H_none, H_subscribed} then H_subscribed else ah_state row)\<rparr>)"
  proof (cases "ah_state row \<in> {H_none, H_subscribed}")
    case True
    then show ?thesis using advance_subscribe [OF owner] assms(4) by auto
  next
    case False
    have "advance heal row (notifySubscribed now t row)" using owner assms(4) by (intro advance_notify) auto
    moreover have "(notifySubscribed now t row)\<lparr>ah_state := ah_state row\<rparr> = notifySubscribed now t row"
      by (simp add: notifySubscribed_def)
    ultimately show ?thesis unfolding if_not_P [OF False] by (simp only:)
  qed
qed

lemma move_presented:
  assumes "distinctIds d" "row \<in> set (handleTable d)" "ah_narrationOwner row = None"
  shows "handles_move heal d (updateRow now (ah_id row) (\<lambda>h. terminalStateData st now (currentTurnInline now h)
           \<lparr>ah_terminalObservedAt := Some now, ah_terminalSnapshotJson := Some snap\<rparr>) d)"
  using assms(3) by (intro advance_row [OF assms(1,2) refl refl] advance_presented)

lemma move_subscribe:
  assumes d: "distinctIds d" and rows: "followUpRows d"
  shows "handles_move heal d (snd (subscribeTx sha i now d))"
proof (cases "lockOwned i d")
  case (Some row)
  note row = lockedRow(1) [OF Some]
  show ?thesis
  proof (cases "readCanonical (ah_kind row) (ah_canonicalJobId row) (ah_runtimeSessionId row) d")
    case (Some truth)
    show ?thesis
    proof (cases "ah_narrationOwner row")
      case None
      then have free: "unowned heal (handleView row)" and other: "ah_narrationOwner row \<noteq> Some Continuation"
        by (simp_all add: unownedI)
      then show ?thesis
        using \<open>lockOwned i d = Some row\<close> Some None d row move_presented [OF d row None]
          move_depth_exhausted [OF d row free] move_subscribed [OF d row free] followUpRows_state [OF rows row other]
        by (simp add: subscribeTx_def Let_def handles_move.stay split: option.split)
    next
      case (Some owner)
      then have free: "owner = Legacy \<Longrightarrow> unowned heal (handleView row)"
        by (simp add: unownedI)
      then show ?thesis
        using \<open>lockOwned i d = Some row\<close> \<open>readCanonical _ _ _ _ = Some truth\<close> Some d row
          move_depth_exhausted [OF d row free] move_legacy_subscribed [OF d row]
        by (cases owner) (simp_all add: subscribeTx_def Let_def handles_move.stay)
    qed
  qed (simp add: subscribeTx_def \<open>lockOwned i d = Some row\<close> handles_move.stay)
qed (simp add: subscribeTx_def handles_move.stay)

section \<open>The end of the source turn\<close>

lemma finalizeRow_data:
  "snd (finalizeRow sha pick uuid now i row (acc, d)) =
     (if presented (handleView row) then d
      else if ah_continuationDepth row \<ge> MAX_ASYNC_CONTINUATION_DEPTH then updateRow now (ah_id row) (depthExhausted now) d
      else (if ah_terminalSnapshotJson row \<noteq> None \<and> isTerminalState (ah_state row)
            then stampCatchUpQueueMarkersInTx pick uuid now (ah_id row) (fi_chatId i)
                   (updateRow now (ah_id row) (finalizedData sha now i row) d)
            else updateRow now (ah_id row) (finalizedData sha now i row) d))"
  by (cases acc) (simp add: finalizeRow_def presented_def handleView_def Let_def del: not_None_eq)

text \<open>\<open>sameRow\<close>: the row read before is still there but for its place in a wave.\<close>

definition sameRow :: "async_handle \<Rightarrow> async_handle \<Rightarrow> bool" where
  "sameRow row h \<longleftrightarrow> ah_id h = ah_id row \<and> ah_chatId h = ah_chatId row \<and> handleView h = handleView row"

lemma advance_finalizedData:
  assumes same: "sameRow row h" and free: "unowned heal (handleView row)"
    and depth: "ah_continuationDepth row < MAX_ASYNC_CONTINUATION_DEPTH"
  shows "advance heal h (finalizedData sha now i row h)"
proof -
  define t where "t = (case ah_continuationClientTurnId row of Some t \<Rightarrow> t | None \<Rightarrow> continuationClientTurnId sha (ah_id row))"
  define h1 where "h1 = notifySubscribed now t h"
  define h2 where "h2 = (if ah_terminalSnapshotJson row \<noteq> None \<and> isTerminalState (ah_state row) then readyData now h1
                else if ah_state row \<in> {H_none, H_subscribed} then h1\<lparr>ah_state := H_subscribed\<rparr> else h1)"
  from same have cols: "ah_narrationOwner h = ah_narrationOwner row" "ah_continuationDepth h = ah_continuationDepth row"
    "ah_state h = ah_state row" "handleView h = handleView row"
    by (simp_all add: sameRow_def handleView_def)
  have h1: "advance heal h h1" using free depth cols by (simp add: h1_def advance_notify)
  have follow: "followUp (handleView h1)" and state: "ah_state h1 = ah_state row"
    using cols by (simp_all add: h1_def) (simp add: notifySubscribed_def)
  have "advance heal h1 h2"
    using advance_wake [OF follow] advance_wait [OF follow] state by (auto simp: h2_def)
  moreover have "advance heal h2 (finalizedData sha now i row h)"
    unfolding finalizedData_def Let_def t_def [symmetric] h1_def [symmetric] h2_def [symmetric]
    by (simp add: advance_cols fixedCols_def waveCols_def handleView_def)
  ultimately show ?thesis using h1 by (blast intro: advance_trans)
qed

lemma finalizedData_cols:
  "fixedCols (finalizedData sha now i row h) = fixedCols h" "waveCols (finalizedData sha now i row h) = waveCols h"
  "ah_narrationOwner (finalizedData sha now i row h) = Some Continuation"
  by (simp_all add: finalizedData_def Let_def notifySubscribed_def readyData_def fixedCols_def waveCols_def)

lemma depthExhausted_cols:
  "fixedCols (depthExhausted now h) = fixedCols h" "waveCols (depthExhausted now h) = waveCols h"
  "ah_narrationOwner (depthExhausted now h) = Some Continuation"
  by (simp_all add: depthExhausted_def fixedCols_def waveCols_def)

text \<open>What one round of the loop does to the rows.\<close>

lemma updateRow_rows: "handleTable (updateRow now i f d) = map (\<lambda>h. if ah_id h = i then (f h)\<lparr>ah_updatedAt := now\<rparr> else h) (handleTable d)"
  by (simp add: updateRow_def updateHandles_def)

lemma fixedCols_updated [simp]: "fixedCols (h\<lparr>ah_updatedAt := now\<rparr>) = fixedCols h"
  and waveCols_updated [simp]: "waveCols (h\<lparr>ah_updatedAt := now\<rparr>) = waveCols h"
  and handleView_updated [simp]: "handleView (h\<lparr>ah_updatedAt := now\<rparr>) = handleView h"
  by (simp_all add: fixedCols_def waveCols_def handleView_def)

lemma waveCols_wave: "waveCols h = waveCols x \<Longrightarrow> ah_catchUpWaveId h = ah_catchUpWaveId x"
  by (simp add: waveCols_def)

text \<open>\<open>roundOf uuid i own d d'\<close>: rows keep their identity, only row \<open>i\<close> moves, a new wave is \<open>uuid\<close>.\<close>

definition roundOf :: "string \<Rightarrow> string \<Rightarrow> bool \<Rightarrow> async_data \<Rightarrow> async_data \<Rightarrow> bool" where
  "roundOf uuid i own d d' \<longleftrightarrow> (\<exists>g. handleTable d' = map g (handleTable d) \<and>
     (\<forall>h \<in> set (handleTable d). fixedCols (g h) = fixedCols h \<and> (ah_id h \<noteq> i \<longrightarrow> handleView (g h) = handleView h) \<and>
        (ah_id h = i \<and> own \<longrightarrow> ah_narrationOwner (g h) = Some Continuation) \<and>
        (\<forall>w. ah_catchUpWaveId (g h) = Some w \<longrightarrow> w = uuid \<or> (\<exists>x \<in> set (handleTable d). ah_catchUpWaveId x = Some w))))"

lemma roundOf_update:
  assumes "\<And>h. fixedCols (f h) = fixedCols h" "\<And>h. waveCols (f h) = waveCols h" "\<And>h. ah_narrationOwner (f h) = Some Continuation"
  shows "roundOf uuid i own d (updateRow now i f d)"
  unfolding roundOf_def
proof (rule exI [where x = "\<lambda>h. if ah_id h = i then (f h)\<lparr>ah_updatedAt := now\<rparr> else h"], intro conjI ballI)
  fix h assume h: "h \<in> set (handleTable d)"
  let ?g = "if ah_id h = i then (f h)\<lparr>ah_updatedAt := now\<rparr> else h"
  have "ah_catchUpWaveId ?g = ah_catchUpWaveId h"
    by (rule waveCols_wave) (simp add: assms(2))
  with h show "\<forall>w. ah_catchUpWaveId ?g = Some w \<longrightarrow> w = uuid \<or> (\<exists>x \<in> set (handleTable d). ah_catchUpWaveId x = Some w)"
    by auto
qed (simp_all add: updateRow_rows assms)

lemma roundOf_stamp:
  assumes "roundOf uuid i own d d1"
  shows "roundOf uuid i own d (stampCatchUpQueueMarkersInTx pick uuid now j c d1)"
proof -
  from assms obtain g where g: "handleTable d1 = map g (handleTable d)"
    and row: "\<And>h. h \<in> set (handleTable d) \<Longrightarrow> fixedCols (g h) = fixedCols h"
      "\<And>h. h \<in> set (handleTable d) \<Longrightarrow> ah_id h \<noteq> i \<Longrightarrow> handleView (g h) = handleView h"
      "\<And>h. h \<in> set (handleTable d) \<Longrightarrow> ah_id h = i \<Longrightarrow> own \<Longrightarrow> ah_narrationOwner (g h) = Some Continuation"
      "\<And>h w. h \<in> set (handleTable d) \<Longrightarrow> ah_catchUpWaveId (g h) = Some w \<Longrightarrow>
         w = uuid \<or> (\<exists>x \<in> set (handleTable d). ah_catchUpWaveId x = Some w)"
    unfolding roundOf_def by blast
  obtain f where f: "handleTable (stampCatchUpQueueMarkersInTx pick uuid now j c d1) = map f (handleTable d1)"
    "\<And>h. fixedCols (f h) = fixedCols h" "\<And>h. handleView (f h) = handleView h"
    "\<And>h w. h \<in> set (handleTable d1) \<Longrightarrow> ah_catchUpWaveId (f h) = Some w \<Longrightarrow>
       w = uuid \<or> (\<exists>x \<in> set (handleTable d1). ah_catchUpWaveId x = Some w)"
    by (rule stamp_rows) blast
  have owner: "ah_narrationOwner (f h) = ah_narrationOwner h" for h
    using f(3) [of h] by (simp add: handleView_def)
  show ?thesis
    unfolding roundOf_def
  proof (rule exI [where x = "\<lambda>h. f (g h)"], intro conjI ballI allI impI)
    show "handleTable (stampCatchUpQueueMarkersInTx pick uuid now j c d1) = map (\<lambda>h. f (g h)) (handleTable d)"
      by (simp add: f(1) g o_def)
  next
    fix h w assume h: "h \<in> set (handleTable d)" "ah_catchUpWaveId (f (g h)) = Some w"
    then have "w = uuid \<or> (\<exists>x \<in> set (handleTable d1). ah_catchUpWaveId x = Some w)"
      by (intro f(4) [of "g h"]) (simp_all add: g)
    then show "w = uuid \<or> (\<exists>x \<in> set (handleTable d). ah_catchUpWaveId x = Some w)"
      using row(4) by (auto simp: g)
  qed (use row f owner in auto)
qed

lemma finalizeRow_round:
  "roundOf uuid (ah_id row) (\<not> presented (handleView row)) d (snd (finalizeRow sha pick uuid now i row (acc, d)))"
proof -
  have "roundOf uuid (ah_id row) (\<not> presented (handleView row)) d d" if "presented (handleView row)"
    using that unfolding roundOf_def by (intro exI [of _ "\<lambda>h. h"]) auto
  moreover have "roundOf uuid (ah_id row) own d (updateRow now (ah_id row) (finalizedData sha now i row) d)"
      "roundOf uuid (ah_id row) own d (updateRow now (ah_id row) (depthExhausted now) d)" for own
    by (intro roundOf_update finalizedData_cols depthExhausted_cols)+
  ultimately show ?thesis
    by (simp add: finalizeRow_data roundOf_stamp)
qed

lemma move_finalizeRow:
  assumes d: "distinctIds d" and h: "h \<in> set (handleTable d)" "sameRow row h"
    and row: "ah_chatId row = fi_chatId i" "ah_narrationOwner row \<noteq> Some Continuation" and fresh: "freshWave uuid d"
    and heal: "Release_move \<in> heal"
  shows "handles_move heal d (snd (finalizeRow sha pick uuid now i row (acc, d)))"
proof (cases "presented (handleView row)")
  case False
  from h(2) have same: "ah_id row = ah_id h" "fi_chatId i = ah_chatId h" "unowned heal (handleView h)"
    "handleView row = handleView h" "ah_continuationDepth row = ah_continuationDepth h"
    using row False heal by (simp_all add: sameRow_def unowned_def view_sel) (metis view_sel)+
  show ?thesis
  proof (cases "ah_continuationDepth row \<ge> MAX_ASYNC_CONTINUATION_DEPTH")
    case True
    then show ?thesis
      using move_depth_exhausted [OF d h(1) same(3)] False same by (simp add: finalizeRow_data)
  next
    case shallow: False
    have "advance heal h (finalizedData sha now i row h)"
      using shallow by (intro advance_finalizedData [OF h(2)]) (simp_all add: same)
    then have "handles_move heal d (updateRow now (ah_id h) (finalizedData sha now i row) d)"
        "handles_move heal d (stampCatchUpQueueMarkersInTx pick uuid now (ah_id h) (fi_chatId i)
           (updateRow now (ah_id h) (finalizedData sha now i row) d))"
      by (rule advance_row [OF d h(1) refl refl], rule advance_stamped [OF d h(1) _ fresh same(2)])
    with False shallow same show ?thesis by (simp add: finalizeRow_data)
  qed
qed (simp add: finalizeRow_data handles_move.stay)

lemma roundOfD:
  assumes "roundOf uuid i own d d'"
  obtains g where "handleTable d' = map g (handleTable d)"
    and "\<And>h. h \<in> set (handleTable d) \<Longrightarrow> fixedCols (g h) = fixedCols h"
    and "\<And>h. h \<in> set (handleTable d) \<Longrightarrow> ah_id h \<noteq> i \<Longrightarrow> handleView (g h) = handleView h"
    and "\<And>h. h \<in> set (handleTable d) \<Longrightarrow> ah_id h = i \<Longrightarrow> own \<Longrightarrow> ah_narrationOwner (g h) = Some Continuation"
    and "\<And>h w. h \<in> set (handleTable d) \<Longrightarrow> ah_catchUpWaveId (g h) = Some w \<Longrightarrow>
           w = uuid \<or> (\<exists>x \<in> set (handleTable d). ah_catchUpWaveId x = Some w)"
  using assms unfolding roundOf_def by blast

lemma roundOf_same:
  assumes "roundOf uuid i own d d'" "h \<in> set (handleTable d)" "sameRow row h" "ah_id row \<noteq> i"
  shows "\<exists>h' \<in> set (handleTable d'). sameRow row h'"
proof -
  obtain g where g: "handleTable d' = map g (handleTable d)" "fixedCols (g h) = fixedCols h"
      "ah_id h \<noteq> i \<Longrightarrow> handleView (g h) = handleView h"
    using roundOfD [OF assms(1)] assms(2) by metis
  from assms(3,4) g(3) have "handleView (g h) = handleView h" by (simp add: sameRow_def)
  with assms(3) g(2) have "sameRow row (g h)" by (simp add: sameRow_def fixedCols_def)
  with g(1) assms(2) show ?thesis by auto
qed

lemma roundOf_fresh:
  assumes "roundOf uuid i own d d'" "freshWave u d" "u \<noteq> uuid"
  shows "freshWave u d'"
  unfolding freshWave_def
proof
  obtain g where g: "handleTable d' = map g (handleTable d)"
      "\<And>h w. h \<in> set (handleTable d) \<Longrightarrow> ah_catchUpWaveId (g h) = Some w \<Longrightarrow>
         w = uuid \<or> (\<exists>x \<in> set (handleTable d). ah_catchUpWaveId x = Some w)"
    by (rule roundOfD [OF assms(1)]) blast
  fix h' assume "h' \<in> set (handleTable d')"
  then obtain h where "h \<in> set (handleTable d)" "h' = g h" by (auto simp: g(1))
  with g(2) [of h u] assms(2,3) show "ah_catchUpWaveId h' \<noteq> Some u" by (auto simp: freshWave_def)
qed

lemma roundOf_own:
  assumes "roundOf uuid i True d d'" "h \<in> set (handleTable d)" "ah_id h = i"
  shows "\<exists>h' \<in> set (handleTable d'). ah_id h' = i \<and> ah_narrationOwner h' = Some Continuation"
proof -
  obtain g where g: "handleTable d' = map g (handleTable d)" "fixedCols (g h) = fixedCols h"
      "ah_narrationOwner (g h) = Some Continuation"
    using roundOfD [OF assms(1)] assms(2,3) by metis
  from g(2) assms(3) have "ah_id (g h) = i" by (simp add: fixedCols_def)
  with g(1,3) assms(2) show ?thesis by auto
qed

text \<open>The rows the loop gets are rows of the table, of one chat, not yet the follow-up's.\<close>

definition loopRows :: "finalize_input \<Rightarrow> async_handle list \<Rightarrow> async_data \<Rightarrow> bool" where
  "loopRows i rows d \<longleftrightarrow> distinct (map ah_id rows) \<and>
     (\<forall>row \<in> set rows. ah_chatId row = fi_chatId i \<and> ah_narrationOwner row \<noteq> Some Continuation \<and>
        (\<exists>h \<in> set (handleTable d). sameRow row h))"

lemma loopRows_step:
  assumes "loopRows i (row # rows) d" "roundOf uuid (ah_id row) own d d'"
  shows "loopRows i rows d'"
  unfolding loopRows_def
proof (intro conjI ballI)
  fix r assume r: "r \<in> set rows"
  with assms(1) obtain h where "h \<in> set (handleTable d)" "sameRow r h"
    by (auto simp: loopRows_def)
  moreover have "ah_id row \<notin> ah_id ` set rows" using assms(1) by (simp add: loopRows_def)
  then have "ah_id r \<noteq> ah_id row" using r by (metis imageI)
  ultimately show "\<exists>h \<in> set (handleTable d'). sameRow r h"
    by (rule roundOf_same [OF assms(2)])
qed (use assms(1) in \<open>auto simp: loopRows_def\<close>)

lemma move_finalizeRows:
  "Release_move \<in> heal \<Longrightarrow> distinctIds d \<Longrightarrow> loopRows i rows d \<Longrightarrow> inj uuid \<Longrightarrow> \<forall>j \<ge> k. freshWave (uuid j) d \<Longrightarrow>
   handles_move heal d (snd (finalizeRows sha pick uuid now i k rows (acc, d)))"
proof (induction rows arbitrary: d k acc)
  case Nil
  then show ?case by (simp add: handles_move.stay)
next
  case (Cons row rows)
  obtain acc1 d1 where step: "finalizeRow sha pick (uuid k) now i row (acc, d) = (acc1, d1)"
    by (cases "finalizeRow sha pick (uuid k) now i row (acc, d)")
  from finalizeRow_round [of "uuid k" row d sha pick now i acc]
  have round: "roundOf (uuid k) (ah_id row) (\<not> presented (handleView row)) d d1" by (simp add: step)
  from Cons.prems(3) obtain h where h: "h \<in> set (handleTable d)" "sameRow row h"
    "ah_chatId row = fi_chatId i" "ah_narrationOwner row \<noteq> Some Continuation"
    by (auto simp: loopRows_def)
  have first: "handles_move heal d d1"
    using move_finalizeRow [OF Cons.prems(2) h _ Cons.prems(1), of "uuid k"] Cons.prems(5) step by (metis order_refl snd_conv)
  have "\<forall>j \<ge> Suc k. freshWave (uuid j) d1"
  proof (intro allI impI)
    fix j assume "j \<ge> Suc k"
    with Cons.prems(4) have "uuid j \<noteq> uuid k" by (auto dest: injD)
    with Cons.prems(5) \<open>j \<ge> Suc k\<close> show "freshWave (uuid j) d1" by (intro roundOf_fresh [OF round]) auto
  qed
  then have "handles_move heal d1 (snd (finalizeRows sha pick uuid now i (Suc k) rows (acc1, d1)))"
    using Cons.prems by (intro Cons.IH handles_move_distinctIds [OF first] loopRows_step [OF _ round])
  then show ?case using first by (simp add: step handles_move_trans)
qed

text \<open>The loop keeps the rows, and gives every row it does not find presented to the follow-up.\<close>

lemma roundOf_ids: "roundOf uuid i own d d' \<Longrightarrow> map ah_id (handleTable d') = map ah_id (handleTable d)"
  by (erule roundOfD) (simp add: fixedCols_def)

lemma finalizeRows_ids:
  "map ah_id (handleTable (snd (finalizeRows sha pick uuid now i k rows (acc, d)))) = map ah_id (handleTable d)"
proof (induction rows arbitrary: k acc d)
  case (Cons row rows)
  obtain acc1 d1 where step: "finalizeRow sha pick (uuid k) now i row (acc, d) = (acc1, d1)"
    by (cases "finalizeRow sha pick (uuid k) now i row (acc, d)")
  from roundOf_ids [OF finalizeRow_round [of "uuid k" row d sha pick now i acc]] Cons.IH [of "Suc k" acc1 d1]
  show ?case by (simp add: step)
qed simp

lemma roundOf_keeps:
  assumes "roundOf uuid j own d d'" "i \<noteq> j"
    and "\<exists>h \<in> set (handleTable d). ah_id h = i \<and> ah_narrationOwner h = w"
  shows "\<exists>h \<in> set (handleTable d'). ah_id h = i \<and> ah_narrationOwner h = w"
proof -
  obtain h where h: "h \<in> set (handleTable d)" "ah_id h = i" "ah_narrationOwner h = w" using assms(3) by blast
  then obtain h' where "h' \<in> set (handleTable d')" "sameRow h h'"
    using roundOf_same [OF assms(1), of h h] assms(2) by (auto simp: sameRow_def)
  with h show ?thesis by (auto simp: sameRow_def handleView_def intro!: bexI [of _ h'])
qed

lemma finalizeRows_keeps:
  "i0 \<notin> ah_id ` set rows \<Longrightarrow> \<exists>h \<in> set (handleTable d). ah_id h = i0 \<and> ah_narrationOwner h = w \<Longrightarrow>
   \<exists>h \<in> set (handleTable (snd (finalizeRows sha pick uuid now i k rows (acc, d)))). ah_id h = i0 \<and> ah_narrationOwner h = w"
proof (induction rows arbitrary: k acc d)
  case (Cons row rows)
  obtain acc1 d1 where step: "finalizeRow sha pick (uuid k) now i row (acc, d) = (acc1, d1)"
    by (cases "finalizeRow sha pick (uuid k) now i row (acc, d)")
  have "\<exists>h \<in> set (handleTable d1). ah_id h = i0 \<and> ah_narrationOwner h = w"
    using roundOf_keeps [OF finalizeRow_round [of "uuid k" row d sha pick now i acc] _ Cons.prems(2)] Cons.prems(1) by (simp add: step)
  then show ?case using Cons by (simp add: step)
qed simp

lemma finalizeRows_owned:
  "loopRows i rows d \<Longrightarrow> row \<in> set rows \<Longrightarrow> \<not> presented (handleView row) \<Longrightarrow>
   \<exists>h \<in> set (handleTable (snd (finalizeRows sha pick uuid now i k rows (acc, d)))).
     ah_id h = ah_id row \<and> ah_narrationOwner h = Some Continuation"
proof (induction rows arbitrary: k acc d)
  case (Cons first rows)
  obtain acc1 d1 where step: "finalizeRow sha pick (uuid k) now i first (acc, d) = (acc1, d1)"
    by (cases "finalizeRow sha pick (uuid k) now i first (acc, d)")
  then have round: "roundOf (uuid k) (ah_id first) (\<not> presented (handleView first)) d d1"
    using finalizeRow_round [of "uuid k" first d sha pick now i acc] by simp
  show ?case
  proof (cases "row = first")
    case True
    from Cons.prems(1) obtain h where h: "h \<in> set (handleTable d)" "ah_id h = ah_id first"
      by (auto simp: loopRows_def sameRow_def)
    have "roundOf (uuid k) (ah_id first) True d d1" using round Cons.prems(3) True by simp
    from roundOf_own [OF this h] True
    have "\<exists>h \<in> set (handleTable d1). ah_id h = ah_id row \<and> ah_narrationOwner h = Some Continuation" by simp
    moreover have "ah_id row \<notin> ah_id ` set rows" using Cons.prems(1) True by (simp add: loopRows_def)
    ultimately show ?thesis using finalizeRows_keeps by (simp add: step)
  next
    case False
    then show ?thesis
      using Cons.IH [OF loopRows_step [OF Cons.prems(1) round]] Cons.prems(2,3) by (simp add: step)
  qed
qed simp

lemma freshWave_set: "freshWave u d \<longleftrightarrow> Some u \<notin> set (map ah_catchUpWaveId (handleTable d))"
  unfolding freshWave_def set_map image_iff by metis

lemma freshWave_update:
  assumes "\<And>h. ah_catchUpWaveId (f h) = ah_catchUpWaveId h"
  shows "freshWave u (updateHandles now p f d) = freshWave u d"
proof -
  have "map ah_catchUpWaveId (handleTable (updateHandles now p f d)) = map ah_catchUpWaveId (handleTable d)"
    by (simp add: updateHandles_def assms)
  then show ?thesis by (simp only: freshWave_set)
qed

lemma finalizedAt_rows:
  "Finalize_move \<in> heal \<Longrightarrow> handles_move heal d (updateHandles now p (\<lambda>h. h\<lparr>ah_sourceFinalizedAt := Some t\<rparr>) d)"
  by (rule advance_update [OF _ refl])
    (rule advance_trans [OF advance_finalized advance_cols]; simp add: fixedCols_def waveCols_def handleView_def)

lemma loopRows_toSubscribe:
  assumes d: "distinctIds d"
  shows "loopRows i (toSubscribe i d) d"
proof -
  have "distinct (map ah_id (toSubscribe i d))"
    using d by (simp add: toSubscribe_def distinctIds_def distinct_map_filter)
  moreover have "ah_chatId row = fi_chatId i" "ah_narrationOwner row \<noteq> Some Continuation" "row \<in> set (handleTable d)"
    if "row \<in> set (toSubscribe i d)" for row
    using that by (auto simp: toSubscribe_def ofSourceTurn_def)
  moreover have "sameRow row row" for row by (simp add: sameRow_def)
  ultimately show ?thesis unfolding loopRows_def by blast
qed

lemma move_finalizeSourceTurn:
  assumes d: "distinctIds d" and uuid: "inj uuid" "\<forall>j. freshWave (uuid j) d" and heal: "Finalize_move \<in> heal" "Release_move \<in> heal"
  shows "handles_move heal d (snd (finalizeSourceTurn sha pick uuid i now d))"
proof (cases "provenOutput i d")
  case (Inr u)
  define d1 where "d1 = updateHandles now (unfinalizedBy i) (\<lambda>h. h\<lparr>ah_sourceFinalizedAt := Some now\<rparr>) d"
  have first: "handles_move heal d d1" unfolding d1_def by (rule finalizedAt_rows [OF heal(1)])
  then have d1: "distinctIds d1" using d by (rule handles_move_distinctIds)
  have fresh: "\<forall>j \<ge> 0. freshWave (uuid j) d1"
    using uuid(2) by (simp add: d1_def freshWave_update)
  from loopRows_toSubscribe [OF d1]
  have "handles_move heal d (snd (finalizeRows sha pick uuid now i 0 (toSubscribe i d1) ((0, 0, 0), d1)))"
    using move_finalizeRows [OF heal(2) d1 _ uuid(1) fresh] first by (blast intro: handles_move_trans)
  with Inr show ?thesis by (simp add: finalizeSourceTurn_def Let_def d1_def case_prod_unfold)
qed (simp add: finalizeSourceTurn_def handles_move.stay)

section \<open>The end of the job\<close>

lemma move_prepareDelivery: "handles_move heal d (snd (prepareDelivery k j now d))"
  by (simp add: prepareDelivery_def handles_move.stay)

lemma move_claimOpenTurn:
  "distinctIds d \<Longrightarrow> handles_move heal d (snd (claimOpenTurnLivePresent k j now d))"
  by (auto simp: claimOpenTurnLivePresent_def handles_move.stay split: option.splits
      intro: advance_row [OF _ lockedRow(2) refl refl] advance_present)

lemma advance_completion:
  assumes heal: "needsContinuationHeal row \<Longrightarrow> Adopt_move \<in> heal"
  shows "advance heal row (completionData sha now row st snap row)"
proof -
  define t where "t = (case ah_continuationClientTurnId row of Some t \<Rightarrow> t | None \<Rightarrow> continuationClientTurnId sha (ah_id row))"
  define h1 where "h1 = (if needsContinuationHeal row \<and> ah_narrationDecision row \<noteq> Some ''continuation_depth_exhausted''
                  then notifySubscribed now t row else row)"
  define h2 where "h2 = (if completionReady row then readyData now h1 else terminalStateData st now h1)"
  have "advance heal row h1"
    using heal by (auto simp: h1_def needsContinuationHeal_def intro: advance_adopt)
  moreover have "advance heal h1 h2"
  proof (cases "completionReady row")
    case True
    then have "followUp (handleView h1)"
      by (auto simp: completionReady_def h1_def) (auto simp: followUp_def handleView_def needsContinuationHeal_def)
    with True show ?thesis by (simp add: h2_def advance_wake)
  next
    case False
    have "\<not> followUp (handleView h1) \<or> ah_state h1 = H_failed"
      using False by (auto simp: completionReady_def h1_def notifySubscribed_def)
        (auto simp: followUp_def handleView_def)
    with False show ?thesis by (simp add: h2_def advance_finish)
  qed
  moreover have "completionData sha now row st snap row = h2\<lparr>ah_terminalSnapshotJson := Some snap\<rparr>"
    unfolding completionData_def Let_def t_def [symmetric] h1_def [symmetric] h2_def [symmetric] ..
  ultimately show ?thesis by (metis advance_trans advance_snapshot)
qed

lemma move_recordCanonicalCompletion:
  assumes d: "distinctIds d" and fresh: "freshWave uuid d" and heal: "Adopt_move \<notin> heal \<Longrightarrow> noAdoption d"
  shows "handles_move heal d (snd (recordCanonicalCompletion sha pick uuid k j st snap now d))"
proof (cases "lockCanonical k j d")
  case (Some row)
  note row = lockedRow(2) [OF Some]
  have "advance heal row (completionData sha now row st snap row)"
    using heal row by (intro advance_completion) (auto simp: noAdoption_def)
  then have "handles_move heal d (updateRow now (ah_id row) (completionData sha now row st snap) d)"
      "handles_move heal d (stampCatchUpQueueMarkersInTx pick uuid now (ah_id row) (ah_chatId row)
         (updateRow now (ah_id row) (completionData sha now row st snap) d))"
    by (rule advance_row [OF d row refl refl], rule advance_stamped [OF d row _ fresh refl])
  with Some show ?thesis by (simp add: recordCanonicalCompletion_def Let_def)
qed (simp add: recordCanonicalCompletion_def handles_move.stay)

section \<open>Claims\<close>

lemma advance_by:
  "view_move heal (handleView h) w \<Longrightarrow> w = handleView h' \<Longrightarrow> fixedCols h' = fixedCols h \<Longrightarrow> waveCols h' = waveCols h \<Longrightarrow>
   advance heal h h'"
  by (simp add: advance_move)

lemma move_updateClaim:
  assumes "\<And>h. h \<in> set (handleTable d) \<Longrightarrow> p h \<Longrightarrow> advance heal h (f h)"
  shows "handles_move heal d (snd (updateClaim now p f d))"
  unfolding updateClaim_def snd_conv
proof (rule advance_update [OF _ refl])
  fix h assume "h \<in> set (handleTable d)" "p h"
  from assms [OF this] show "advance heal h ((f h)\<lparr>ah_updatedAt := now\<rparr>)"
    by (rule advance_trans) (simp add: advance_cols)
qed

lemma move_claimReadyHead:
  assumes "distinctIds d"
  shows "handles_move heal d (snd (claimReadyHeadForChat locked token c ttl now d))"
proof (cases "firstQueued (filter (\<lambda>h. claimable now c h \<and> \<not> locked (ah_id h)) (handleTable d))")
  case (Some row)
  then have row: "row \<in> set (handleTable d)" "claimable now c row" by (auto dest: firstQueued_in)
  have "advance heal row (row\<lparr>ah_state := H_claimed, ah_claimToken := Some token, ah_claimedAt := Some now,
      ah_claimExpiresAt := Some (now + ttl)\<rparr>)"
    using row(2) by (intro advance_by [OF view_move.claim [where t = token]])
      (simp_all add: claimable_def handleView_def fixedCols_def waveCols_def)
  then have "handles_move heal d (updateRow now (ah_id row) (\<lambda>h. h\<lparr>ah_state := H_claimed, ah_claimToken := Some token,
      ah_claimedAt := Some now, ah_claimExpiresAt := Some (now + ttl)\<rparr>) d)"
    by (rule advance_row [OF assms row(1) refl refl])
  with Some show ?thesis by (simp add: claimReadyHeadForChat_def)
qed (simp add: claimReadyHeadForChat_def handles_move.stay)

lemma move_releaseClaim: "handles_move heal d (snd (releaseClaimToReady i token retryAt code msg now d))"
  unfolding releaseClaimToReady_def
  by (rule move_updateClaim, rule advance_by [OF view_move.release])
    (simp_all add: holdsClaim_def handleView_def fixedCols_def waveCols_def)

lemma move_markDispatched: "handles_move heal d (snd (markDispatched i token receipt expires now d))"
  unfolding markDispatched_def
  by (rule move_updateClaim, rule advance_by [OF view_move.dispatch])
    (simp_all add: holdsClaim_def handleView_def fixedCols_def waveCols_def)

lemma move_completeClaim: "handles_move heal d (snd (completeClaim i token now d))"
  unfolding completeClaim_def
  by (rule move_updateClaim, rule advance_by [OF view_move.complete])
    (auto simp: holdsClaim_def handleView_def fixedCols_def waveCols_def)

lemma move_claimDeliveryAttempt:
  assumes "distinctIds d"
  shows "handles_move heal d (snd (claimDeliveryAttempt i token part now d))"
proof (cases "findHandle (holdsClaim i token {H_dispatched}) d")
  case (Some row)
  then have row: "row \<in> set (handleTable d)" "ah_id row = i" "ah_state row = H_dispatched"
    by (auto dest!: findHandleD simp: holdsClaim_def)
  have "attemptedAt part row = None \<Longrightarrow> advance heal row (case part of
        Artifacts \<Rightarrow> row\<lparr>ah_artifactsAttemptedAt := Some now, ah_artifactsResult := Some ''attempting''\<rparr>
      | External \<Rightarrow> row\<lparr>ah_externalAttemptedAt := Some now, ah_externalResult := Some ''attempting''\<rparr>)"
    using row(3)
    by (cases part; simp add: attemptedAt_def)
      (rule advance_by [OF view_move.attempt_artifacts [where t = now]], simp_all add: handleView_def fixedCols_def waveCols_def,
       rule advance_by [OF view_move.attempt_external [where t = now]], simp_all add: handleView_def fixedCols_def waveCols_def)
  then have "attemptedAt part row = None \<Longrightarrow> handles_move heal d (updateRow now i (\<lambda>row. case part of
        Artifacts \<Rightarrow> row\<lparr>ah_artifactsAttemptedAt := Some now, ah_artifactsResult := Some ''attempting''\<rparr>
      | External \<Rightarrow> row\<lparr>ah_externalAttemptedAt := Some now, ah_externalResult := Some ''attempting''\<rparr>) d)"
    using row(2) by (intro advance_row [OF assms row(1) refl]) auto
  with Some show ?thesis by (simp add: claimDeliveryAttempt_def handles_move.stay)
qed (simp add: claimDeliveryAttempt_def handles_move.stay)

lemma move_recordDeliveryAttempt: "handles_move heal d (snd (recordDeliveryAttemptResult i token part res err now d))"
  unfolding recordDeliveryAttemptResult_def
  by (rule move_updateClaim, rule advance_cols; cases part)
    (simp_all add: handleView_def fixedCols_def waveCols_def)

lemma move_externalNotice: "handles_move heal d (snd (claimFailedHandleExternalNotice i now d))"
  unfolding claimFailedHandleExternalNotice_def
  by (rule move_updateClaim, rule advance_by [OF view_move.attempt_external [where t = now]])
    (simp_all add: handleView_def fixedCols_def waveCols_def)

lemma move_externalNoticeResult: "handles_move heal d (snd (recordFailedHandleExternalNoticeResult i res err now d))"
  unfolding recordFailedHandleExternalNoticeResult_def
  by (rule move_updateClaim, rule advance_cols) (simp_all add: handleView_def fixedCols_def waveCols_def)

section \<open>Failures\<close>

lemma persistMessage_rows: "handleTable (snd (persistPermanentFailureMessage mid row d)) = handleTable d"
  by (simp add: persistPermanentFailureMessage_def split: option.split)

definition settledData :: "int \<Rightarrow> string \<Rightarrow> async_handle \<Rightarrow> async_handle" where
  "settledData now m h = h\<lparr>ah_state := H_completed, ah_completedAt := Some now, ah_failedAt := None, ah_claimToken := None,
     ah_claimExpiresAt := None, ah_nextRetryAt := None, ah_lastErrorCode := None, ah_lastErrorMessage := None,
     ah_continuationAssistantMessageId := Some m\<rparr>"

lemma settleDelivered_cases:
  assumes "settleDeliveredLocked now row token healFailed d = (r, d')"
  obtains "d' = d"
  | m where "d' = updateRow now (ah_id row) (settledData now m) d" "ah_state row \<in> {H_claimed, H_dispatched, H_failed}" "r \<noteq> None"
proof -
  have "d' = d \<or> (\<exists>m. d' = updateRow now (ah_id row) (settledData now m) d \<and>
      ah_state row \<in> {H_claimed, H_dispatched, H_failed} \<and> r \<noteq> None)"
    using assms unfolding settleDeliveredLocked_def settledData_def
    by (auto split: if_splits option.splits)
  then show thesis using that by blast
qed

lemma advance_settled:
  "ah_state row \<in> {H_claimed, H_dispatched, H_failed} \<Longrightarrow> advance heal row (settledData now m row)"
  by (rule advance_by [OF view_move.complete]) (simp_all add: settledData_def handleView_def fixedCols_def waveCols_def)

lemma move_settleDelivered:
  assumes "distinctIds d" "row \<in> set (handleTable d)"
  shows "handles_move heal d (snd (settleDeliveredLocked now row token healFailed d))"
proof -
  obtain r d' where e: "settleDeliveredLocked now row token healFailed d = (r, d')"
    by (cases "settleDeliveredLocked now row token healFailed d")
  then show ?thesis
  proof (cases rule: settleDelivered_cases)
    case (2 m)
    then show ?thesis using assms e by (auto intro!: advance_row [OF assms refl refl] advance_settled)
  qed (simp add: e handles_move.stay)
qed

lemma move_requeueClaim:
  assumes "distinctIds d"
  shows "handles_move heal d (snd (requeueClaim mid i token at' code msg evidence now d))"
proof (cases "lockById i d")
  case (Some row)
  note row = lockedRow(3) [OF Some]
  obtain m d1 where m: "persistPermanentFailureMessage mid row d = (m, d1)"
    by (cases "persistPermanentFailureMessage mid row d")
  then have d1: "handleTable d1 = handleTable d" using persistMessage_rows [of mid row d] by simp
  have failed: "handles_move heal d (updateRow now i (\<lambda>h. h\<lparr>ah_state := H_failed, ah_failedAt := Some now,
         ah_retryCount := ah_retryCount row + 1, ah_claimToken := None, ah_claimExpiresAt := None, ah_nextRetryAt := None,
         ah_lastErrorCode := Some ''continuation_retry_exhausted'', ah_lastErrorMessage := Some msg,
         ah_continuationAssistantMessageId := m\<rparr>) d1)"
    if "ah_state row \<in> {H_claimed, H_dispatched}" "ah_retryCount row + 1 \<ge> ah_maxRetries row"
    using that row by (intro advance_row [OF assms _ d1] advance_by [OF view_move.exhausted])
      (simp_all add: handleView_def fixedCols_def waveCols_def)
  have requeued: "handles_move heal d (updateRow now i (\<lambda>h. h\<lparr>ah_state := H_ready, ah_retryCount := ah_retryCount row + 1,
         ah_claimToken := None, ah_claimedAt := None, ah_claimExpiresAt := None, ah_nextRetryAt := Some at',
         ah_lastErrorCode := Some code, ah_lastErrorMessage := Some msg\<rparr>) d)"
    if "ah_state row \<in> {H_claimed, H_dispatched}" "\<not> ah_retryCount row + 1 \<ge> ah_maxRetries row"
    using that row by (intro advance_row [OF assms _ refl] advance_by [OF view_move.requeue])
      (simp_all add: handleView_def fixedCols_def waveCols_def)
  show ?thesis
    using Some m failed requeued by (simp add: requeueClaim_def Let_def handles_move.stay)
qed (simp add: requeueClaim_def handles_move.stay)

lemma move_failClaim:
  assumes "distinctIds d"
  shows "handles_move heal d (snd (failClaim mid i token code msg now d))"
proof (cases "lockById i d")
  case (Some row)
  note row = lockedRow(3) [OF Some]
  have settle: "settleDeliveredLocked now row token' healFailed d = (r, d1) \<Longrightarrow> handles_move heal d d1" for token' healFailed r d1
    using move_settleDelivered [OF assms, of row heal now token' healFailed] row by simp
  have unsettled: "settleDeliveredLocked now row token' healFailed d = (None, d1) \<Longrightarrow> d1 = d" for token' healFailed d1
    by (erule settleDelivered_cases) auto
  obtain m d2 where m: "persistPermanentFailureMessage mid row d = (m, d2)"
    by (cases "persistPermanentFailureMessage mid row d")
  then have d2: "handleTable d2 = handleTable d" using persistMessage_rows [of mid row d] by simp
  have failed: "handles_move heal d (updateRow now i (\<lambda>h. h\<lparr>ah_state := H_failed, ah_failedAt := Some now, ah_claimToken := None,
         ah_claimExpiresAt := None, ah_nextRetryAt := None, ah_lastErrorCode := Some code,
         ah_lastErrorMessage := Some msg, ah_continuationAssistantMessageId := m\<rparr>) d2)"
    if "ah_state row \<in> {H_claimed, H_dispatched}"
    using that row by (intro advance_row [OF assms _ d2] advance_by [OF view_move.fail])
      (simp_all add: handleView_def fixedCols_def waveCols_def)
  obtain r1 s1 r2 s2 where s: "settleDeliveredLocked now row None True d = (r1, s1)"
      "settleDeliveredLocked now row (Some token) False d = (r2, s2)"
    by (meson surj_pair)
  have moves: "handles_move heal d s1" "handles_move heal d s2" "r2 = None \<Longrightarrow> s2 = d"
    using settle [OF s(1)] settle [OF s(2)] unsettled s(2) by auto
  show ?thesis
    using Some m failed moves s
    by (cases r1; cases r2) (simp_all add: failClaim_def handles_move.stay)
qed (simp add: failClaim_def handles_move.stay)

lemma move_getObservation: "handles_move heal d (snd (getPermanentFailureObservation i now d))"
  by (simp add: getPermanentFailureObservation_def handles_move.stay)

lemma move_settleCatchUp:
  "distinctIds d \<Longrightarrow> handles_move heal d (snd (settleDeliveredCatchUpFailure i token now d))"
  using move_settleDelivered [of d _ heal now "Some token" True]
  by (auto simp: settleDeliveredCatchUpFailure_def Let_def handles_move.stay case_prod_unfold dest: lockedRow split: option.split)

lemma move_settleByTurn:
  "distinctIds d \<Longrightarrow> handles_move heal d (snd (settleDeliveredCatchUpFailureByClientTurnId t now d))"
  using move_settleDelivered [of d _ heal now None True]
  by (auto simp: settleDeliveredCatchUpFailureByClientTurnId_def Let_def handles_move.stay case_prod_unfold
      dest: findHandleD split: option.split)

section \<open>New handles\<close>

lemma insertHandle_fresh: "newRow h \<Longrightarrow> insertHandle h d = Some d1 \<Longrightarrow> handles_move heal d d1"
  by (rule handles_move.insert [OF handles_move.stay [OF refl]])

lemma newRow_sandbox: "newRow (sandboxHandle hid now i u)"
  unfolding newRow_def
  by (intro conjI exI [of _ 0])
    (simp_all add: sandboxHandle_def newHandle_def handleView_def initialView_def waveCols_def MAX_ASYNC_CONTINUATION_DEPTH_def)

lemma move_registerSandboxJob: "handles_move heal d (snd (registerSandboxJob hid i now d))"
  by (auto simp: registerSandboxJob_def Let_def handles_move.stay split: option.split sum.split
      intro: insertHandle_fresh newRow_sandbox)

text \<open>Depths of the rows stay within the limit.\<close>

definition depthsOk :: "async_data \<Rightarrow> bool" where
  "depthsOk d \<longleftrightarrow> (\<forall>h \<in> set (handleTable d). 0 \<le> ah_continuationDepth h)"

lemma inheritedDepth_bounds:
  assumes "depthsOk d"
  shows "0 \<le> inheritedDepth t d" "inheritedDepth t d \<le> MAX_ASYNC_CONTINUATION_DEPTH"
proof -
  have "0 \<le> ah_continuationDepth p" if "findHandle q d = Some p" for p q
    using assms findHandleD [OF that] by (simp add: depthsOk_def)
  then show "0 \<le> inheritedDepth t d" "inheritedDepth t d \<le> MAX_ASYNC_CONTINUATION_DEPTH"
    by (auto simp: inheritedDepth_def MAX_ASYNC_CONTINUATION_DEPTH_def split: option.split)
qed

lemma newRow_minted:
  assumes "depthsOk d"
  shows "newRow (mintedHandle hid ref i now d)"
  unfolding newRow_def
proof (intro conjI exI)
  let ?n = "inheritedDepth (case mi_sourceClientTurnId i of Some t \<Rightarrow> Some t | None \<Rightarrow> mi_sourceUserMessageId i) d"
  show "0 \<le> ?n" "?n \<le> MAX_ASYNC_CONTINUATION_DEPTH" using inheritedDepth_bounds [OF assms] .
  show "handleView (mintedHandle hid ref i now d) = initialView ?n"
    "waveCols (mintedHandle hid ref i now d) = (None, None, None)"
    by (simp_all add: mintedHandle_def Let_def newHandle_def handleView_def initialView_def waveCols_def)
qed

lemma move_mintHandle: "depthsOk d \<Longrightarrow> handles_move heal d (snd (mintHandle hid ref i now d))"
  by (auto simp: mintHandle_def handles_move.stay split: option.split intro: insertHandle_fresh newRow_minted)

end
