(* ===== verification/AsyncJobWaves.thy ===== *)
theory AsyncJobWaves
  imports AsyncJobOperations "HOL-Library.Multiset"
begin

text \<open>
  What every sequence of row moves keeps of the whole table: an invariant of views holds for all rows, and the rows of
  a wave are numbered without gaps.
\<close>

section \<open>Where a row comes from\<close>

lemma handles_move_rows:
  assumes "handles_move heal d d'"
    and "\<And>v w. view_move heal v w \<Longrightarrow> P v \<Longrightarrow> P w"
    and "\<And>n. 0 \<le> n \<Longrightarrow> n \<le> MAX_ASYNC_CONTINUATION_DEPTH \<Longrightarrow> P (initialView n)"
    and "\<forall>h \<in> set (handleTable d). P (handleView h)"
  shows "\<forall>h \<in> set (handleTable d'). P (handleView h)"
  using assms(1,4)
proof (induction rule: handles_move.induct)
  case (advance d d1 d2)
  have moves: "view_moves heal v w \<Longrightarrow> P v \<Longrightarrow> P w" for v w
    by (induction rule: rtranclp_induct) (auto intro: assms(2))
  show ?case
  proof
    fix h2 assume "h2 \<in> set (handleTable d2)"
    with advance.hyps(2) obtain h1 where "h1 \<in> set (handleTable d1)" "advance heal h1 h2"
      by (metis list_all2_conv_all_nth in_set_conv_nth)
    then show "P (handleView h2)" using advance.IH advance.prems moves by (auto simp: advance_def)
  qed
next
  case (stamp d d1 uuid row pick now)
  obtain g where "handleTable (stampCatchUpQueueMarkersInTx pick uuid now (ah_id row) (ah_chatId row) d1) = map g (handleTable d1)"
      "\<And>h. handleView (g h) = handleView h"
    by (rule stamp_rows) blast
  with stamp show ?case by auto
next
  case (insert d d1 h d2)
  then show ?case using assms(3) by (auto simp: insertHandle_def newRow_def split: if_splits)
qed simp

text \<open>A row that was there before and its later self.\<close>

lemma handles_move_later:
  "handles_move heal d d' \<Longrightarrow> h \<in> set (handleTable d) \<Longrightarrow>
   \<exists>h' \<in> set (handleTable d'). fixedCols h' = fixedCols h \<and> view_moves heal (handleView h) (handleView h')"
proof (induction rule: handles_move.induct)
  case (advance d d1 d2)
  then obtain h1 where h1: "h1 \<in> set (handleTable d1)" "fixedCols h1 = fixedCols h" "view_moves heal (handleView h) (handleView h1)"
    by blast
  with advance.hyps(2) obtain h2 where "h2 \<in> set (handleTable d2)" "advance heal h1 h2"
    by (metis list_all2_conv_all_nth in_set_conv_nth)
  with h1 show ?case by (auto simp: advance_def intro!: bexI [of _ h2])
next
  case (stamp d d1 uuid row pick now)
  obtain g where g: "handleTable (stampCatchUpQueueMarkersInTx pick uuid now (ah_id row) (ah_chatId row) d1) = map g (handleTable d1)"
      "\<And>h. fixedCols (g h) = fixedCols h" "\<And>h. handleView (g h) = handleView h"
    by (rule stamp_rows) blast
  from stamp obtain h1 where "h1 \<in> set (handleTable d1)" "fixedCols h1 = fixedCols h" "view_moves heal (handleView h) (handleView h1)"
    by blast
  with g show ?case by (auto intro!: bexI [of _ h1])
next
  case (insert d d1 h0 d2)
  then show ?case by (auto simp: insertHandle_def split: if_splits)
qed auto

lemma handles_move_row:
  assumes "handles_move heal d d'" "distinctIds d" "h \<in> set (handleTable d)" "h' \<in> set (handleTable d')" "ah_id h' = ah_id h"
  shows "fixedCols h' = fixedCols h" "view_moves heal (handleView h) (handleView h')"
proof -
  obtain x where x: "x \<in> set (handleTable d')" "fixedCols x = fixedCols h" "view_moves heal (handleView h) (handleView x)"
    using handles_move_later [OF assms(1,3)] by blast
  then have "ah_id h' = ah_id x" using assms(5) by (simp add: fixedCols_def)
  then have "h' = x" by (rule rows_by_id [OF handles_move_distinctIds [OF assms(1,2)] assms(4) x(1)])
  with x show "fixedCols h' = fixedCols h" "view_moves heal (handleView h) (handleView h')" by simp_all
qed

section \<open>Waves\<close>

definition ordinals :: "async_handle list \<Rightarrow> int option multiset" where
  "ordinals ms = mset (map ah_catchUpOrdinal ms)"

definition numbered :: "async_handle list \<Rightarrow> bool" where
  "numbered ms \<longleftrightarrow> ordinals ms = mset (map Some [1..int (length ms)]) \<and>
     (\<forall>h \<in> set ms. ah_catchUpWaveTotal h = Some (int (length ms)))"

definition oneMessage :: "async_handle list \<Rightarrow> bool" where
  "oneMessage ms \<longleftrightarrow> (\<forall>h \<in> set ms. \<forall>x \<in> set ms. ah_sourceUserMessageId h = ah_sourceUserMessageId x)"

lemma oneMessageD:
  "oneMessage ms \<Longrightarrow> h \<in> set ms \<Longrightarrow> x \<in> set ms \<Longrightarrow> ah_sourceUserMessageId h = ah_sourceUserMessageId x"
  unfolding oneMessage_def by blast

definition wavesOk :: "async_data \<Rightarrow> bool" where
  "wavesOk d \<longleftrightarrow> (\<forall>c w. numbered (waveMembers c w d) \<and> oneMessage (waveMembers c w d)) \<and>
     (\<forall>h \<in> set (handleTable d). ah_catchUpOrdinal h = None \<longleftrightarrow> ah_catchUpWaveId h = None)"

text \<open>All of it is about these columns.\<close>

definition waveRow :: "async_handle \<Rightarrow> string \<times> string option \<times> int option \<times> int option \<times> string option" where
  "waveRow h = (ah_chatId h, ah_sourceUserMessageId h, waveCols h)"

lemma waveMembers_rows:
  assumes "map waveRow hs' = map waveRow hs"
  shows "map waveRow (filter (\<lambda>h. ah_chatId h = c \<and> ah_catchUpWaveId h = Some w) hs') =
         map waveRow (filter (\<lambda>h. ah_chatId h = c \<and> ah_catchUpWaveId h = Some w) hs)"
proof -
  have "map waveRow (filter (\<lambda>h. ah_chatId h = c \<and> ah_catchUpWaveId h = Some w) xs) =
      filter (\<lambda>(c', m, n, t, w'). c' = c \<and> w' = Some w) (map waveRow xs)" for xs
    by (induction xs) (simp_all add: waveRow_def waveCols_def)
  then show ?thesis by (simp only: assms)
qed

lemma numbered_rows: "map waveRow xs = map waveRow ys \<Longrightarrow> numbered xs = numbered ys \<and> oneMessage xs = oneMessage ys"
proof -
  assume eq: "map waveRow xs = map waveRow ys"
  have "map ah_catchUpOrdinal zs = map (\<lambda>(c, m, n, t, w). n) (map waveRow zs)"
      "map ah_catchUpWaveTotal zs = map (\<lambda>(c, m, n, t, w). t) (map waveRow zs)"
      "map ah_sourceUserMessageId zs = map (\<lambda>(c, m, n, t, w). m) (map waveRow zs)" for zs
    by (simp_all add: waveRow_def waveCols_def)
  then have cols: "map ah_catchUpOrdinal xs = map ah_catchUpOrdinal ys"
      "map ah_catchUpWaveTotal xs = map ah_catchUpWaveTotal ys" "map ah_sourceUserMessageId xs = map ah_sourceUserMessageId ys"
    by (simp_all only: eq)
  have len: "length xs = length ys" using eq by (rule map_eq_imp_length_eq)
  have all: "(\<forall>h \<in> set zs. ah_catchUpWaveTotal h = t) \<longleftrightarrow> (\<forall>x \<in> set (map ah_catchUpWaveTotal zs). x = t)"
      "oneMessage zs \<longleftrightarrow> (\<forall>x \<in> set (map ah_sourceUserMessageId zs). \<forall>y \<in> set (map ah_sourceUserMessageId zs). x = y)" for zs t
    by (auto simp: oneMessage_def)
  show ?thesis by (simp only: numbered_def ordinals_def all cols len)
qed

lemma wavesOk_rows: 
  assumes "map waveRow (handleTable d') = map waveRow (handleTable d)"
  shows "wavesOk d' = wavesOk d"
proof -
  have "map waveRow (waveMembers c w d') = map waveRow (waveMembers c w d)" for c w
    unfolding waveMembers_def by (rule waveMembers_rows [OF assms])
  then have "numbered (waveMembers c w d') = numbered (waveMembers c w d) \<and> oneMessage (waveMembers c w d') = oneMessage (waveMembers c w d)" for c w
    by (rule numbered_rows)
  moreover have "(\<forall>h \<in> set hs. ah_catchUpOrdinal h = None \<longleftrightarrow> ah_catchUpWaveId h = None) \<longleftrightarrow>
      (\<forall>(c, m, n, t, w) \<in> set (map waveRow hs). n = None \<longleftrightarrow> w = None)" for hs
    by (simp add: waveRow_def waveCols_def)
  ultimately show ?thesis by (simp only: wavesOk_def assms)
qed

section \<open>Joining a wave\<close>

lemma maxOrdinal_ge: "Some k \<in> set xs \<Longrightarrow> k \<le> maxOrdinal xs"
  by (induction xs rule: maxOrdinal.induct) auto

lemma maxOrdinal_le: "0 \<le> n \<Longrightarrow> (\<And>k. Some k \<in> set xs \<Longrightarrow> k \<le> n) \<Longrightarrow> maxOrdinal xs \<le> n"
  by (induction xs rule: maxOrdinal.induct) auto

lemma maxOrdinal_numbered:
  assumes "numbered ms"
  shows "maxOrdinal (map ah_catchUpOrdinal ms) = int (length ms)"
proof -
  have "mset (map ah_catchUpOrdinal ms) = mset (map Some [1..int (length ms)])"
    using assms by (simp add: numbered_def ordinals_def)
  then have "set (map ah_catchUpOrdinal ms) = set (map Some [1..int (length ms)])" by (rule mset_eq_setD)
  then have set: "Some k \<in> set (map ah_catchUpOrdinal ms) \<longleftrightarrow> 1 \<le> k \<and> k \<le> int (length ms)" for k by auto
  show ?thesis
  proof (rule antisym)
    show "maxOrdinal (map ah_catchUpOrdinal ms) \<le> int (length ms)" by (rule maxOrdinal_le) (use set in auto)
    show "int (length ms) \<le> maxOrdinal (map ah_catchUpOrdinal ms)"
    proof (cases ms)
      case Cons
      then have "Some (int (length ms)) \<in> set (map ah_catchUpOrdinal ms)" unfolding set by simp
      then show ?thesis by (rule maxOrdinal_ge)
    qed simp
  qed
qed

lemma filter_map_same:
  "(\<And>h. h \<in> set hs \<Longrightarrow> (if P h then f h = h else \<not> P (f h))) \<Longrightarrow> filter P (map f hs) = filter P hs"
proof (induction hs)
  case (Cons a hs)
  then have "filter P (map f hs) = filter P hs" "if P a then f a = a else \<not> P (f a)" by simp_all
  then show ?case by (cases "P a") simp_all
qed simp

lemma filter_map_stable:
  "(\<And>h. h \<in> set hs \<Longrightarrow> P (f h) = P h) \<Longrightarrow> filter P (map f hs) = map f (filter P hs)"
  by (induction hs) simp_all

lemma numbered_join:
  assumes ms: "numbered (xs @ ys)" and n: "n = int (length (xs @ ys)) + 1"
    and ord: "\<And>h. h \<in> set (xs @ ys) \<Longrightarrow> ah_catchUpOrdinal (f h) = ah_catchUpOrdinal h"
    and total: "\<And>h. h \<in> set (xs @ ys) \<Longrightarrow> ah_catchUpWaveTotal (f h) = Some n"
    and row: "ah_catchUpOrdinal r = Some n" "ah_catchUpWaveTotal r = Some n"
  shows "numbered (map f xs @ r # map f ys)"
proof -
  have "map ah_catchUpOrdinal (map f xs) = map ah_catchUpOrdinal xs" "map ah_catchUpOrdinal (map f ys) = map ah_catchUpOrdinal ys"
    using ord by simp_all
  then have "ordinals (map f xs @ r # map f ys) = add_mset (Some n) (ordinals (xs @ ys))"
    by (simp add: ordinals_def row del: map_map)
  also have "ordinals (xs @ ys) = mset (map Some [1..n - 1])" using ms n by (simp add: numbered_def)
  also have "add_mset (Some n) (mset (map Some [1..n - 1])) = mset (map Some ([1..n - 1] @ [n]))" by simp
  also have "[1..n - 1] @ [n] = [1..n]" using upto_rec2 [of 1 n] n by simp
  finally have "ordinals (map f xs @ r # map f ys) = mset (map Some [1..n])" .
  moreover have "n = int (length (map f xs @ r # map f ys))" using n by simp
  moreover have "\<forall>h \<in> set (map f xs @ r # map f ys). ah_catchUpWaveTotal h = Some n" using total row(2) by auto
  ultimately show ?thesis unfolding numbered_def by (simp only:)
qed

lemma wavesOk_enter:
  assumes ok: "wavesOk d" and ids: "distinctIds d" and row: "row \<in> set (handleTable d)" "ah_catchUpWaveId row = None"
    and c: "c = ah_chatId row" and n: "n = int (length (waveMembers c w d)) + 1"
    and message: "\<And>h. h \<in> set (waveMembers c w d) \<Longrightarrow> ah_sourceUserMessageId h = ah_sourceUserMessageId row"
  shows "wavesOk (enterWave now (ah_id row) c w n d)"
proof -
  define E where "E = enterRow now (ah_id row) c w n"
  define P where "P = (\<lambda>h :: async_handle. ah_chatId h = c \<and> ah_catchUpWaveId h = Some w)"
  obtain ys zs where split: "handleTable d = ys @ row # zs" using split_list [OF row(1)] by blast
  have other: "ah_id h \<noteq> ah_id row" if "h \<in> set (ys @ zs)" for h
  proof -
    have "ah_id row \<notin> ah_id ` set (ys @ zs)" using ids by (auto simp: distinctIds_def split)
    then show ?thesis using that by (metis imageI)
  qed
  have E: "ah_chatId (E h) = ah_chatId h" "ah_sourceUserMessageId (E h) = ah_sourceUserMessageId h" for h :: async_handle
    using enterRow_keeps(1) [of now "ah_id row" c w n h] by (simp_all add: E_def fixedCols_def)
  have E_other: "E h = (if P h then h\<lparr>ah_catchUpWaveTotal := Some n, ah_updatedAt := now\<rparr> else h)" if "h \<in> set (ys @ zs)" for h
    using other [OF that] by (simp add: E_def enterRow_def P_def)
  have E_row: "ah_catchUpOrdinal (E row) = Some n" "ah_catchUpWaveTotal (E row) = Some n" "ah_catchUpWaveId (E row) = Some w"
    by (simp_all add: E_def enterRow_def Let_def)
  have table: "handleTable (enterWave now (ah_id row) c w n d) = map E ys @ E row # map E zs"
    by (simp add: enterWave_rows E_def split)
  have old: "waveMembers c w d = filter P ys @ filter P zs"
    by (simp add: waveMembers_def split row(2) P_def)
  have P_E: "P (E h) = P h" if "h \<in> set (ys @ zs)" for h using E_other [OF that] by (simp add: P_def)
  have members: "waveMembers c w (enterWave now (ah_id row) c w n d) = map E (filter P ys) @ E row # map E (filter P zs)"
    using P_E E_row(3) by (simp add: waveMembers_def table P_def [symmetric] filter_map_stable) (simp add: P_def E c)
  have mine: "numbered (waveMembers c w (enterWave now (ah_id row) c w n d))"
    unfolding members
  proof (rule numbered_join)
    show "numbered (filter P ys @ filter P zs)" using ok by (simp add: wavesOk_def flip: old)
    show "n = int (length (filter P ys @ filter P zs)) + 1" using n by (simp only: old)
  next
    fix h assume "h \<in> set (filter P ys @ filter P zs)"
    then show "ah_catchUpOrdinal (E h) = ah_catchUpOrdinal h" "ah_catchUpWaveTotal (E h) = Some n"
      using E_other [of h] by auto
  qed (rule E_row)+
  have "\<forall>h \<in> set (waveMembers c w (enterWave now (ah_id row) c w n d)). ah_sourceUserMessageId h = ah_sourceUserMessageId row"
    using message unfolding members old by (auto simp: E)
  then have one: "oneMessage (waveMembers c w (enterWave now (ah_id row) c w n d))" by (simp add: oneMessage_def)
  have others: "waveMembers c' w' (enterWave now (ah_id row) c w n d) = waveMembers c' w' d" if "(c', w') \<noteq> (c, w)" for c' w'
  proof -
    let ?P = "\<lambda>h. ah_chatId h = c' \<and> ah_catchUpWaveId h = Some w'"
    have same: "filter ?P (map E xs) = filter ?P xs" if "set xs \<subseteq> set (ys @ zs)" for xs
    proof (rule filter_map_same)
      fix h assume "h \<in> set xs"
      with \<open>set xs \<subseteq> set (ys @ zs)\<close> have E_h: "E h = (if P h then h\<lparr>ah_catchUpWaveTotal := Some n, ah_updatedAt := now\<rparr> else h)"
        by (intro E_other) blast
      show "if ?P h then E h = h else \<not> ?P (E h)"
      proof (cases "P h")
        case True
        with \<open>(c', w') \<noteq> (c, w)\<close> show ?thesis unfolding E_h by (auto simp: P_def)
      qed (simp add: E_h)
    qed
    have "\<not> ?P (E row)" using that E_row(3) by (auto simp: E c)
    then show ?thesis by (simp add: waveMembers_def table split row(2) same)
  qed
  have none: "ah_catchUpOrdinal h = None \<longleftrightarrow> ah_catchUpWaveId h = None" if "h \<in> set (ys @ zs)" for h
    using ok that by (auto simp: wavesOk_def split)
  have "\<forall>h \<in> set (handleTable (enterWave now (ah_id row) c w n d)). ah_catchUpOrdinal h = None \<longleftrightarrow> ah_catchUpWaveId h = None"
    unfolding table using none E_row E_other by (simp add: ball_Un)
  then show ?thesis
    using ok mine one others unfolding wavesOk_def by (metis prod.inject)
qed

lemma openWave_members:
  "openWave pick uuid c self d = uuid \<or>
   (\<exists>x \<in> set (waveMembers c (openWave pick uuid c self d) d). ah_sourceUserMessageId x = ah_sourceUserMessageId self)"
proof -
  define hs where "hs = filter (\<lambda>h. ah_chatId h = c \<and> ah_sourceUserMessageId h = ah_sourceUserMessageId self \<and>
      ah_state h \<in> {H_ready, H_claimed, H_dispatched} \<and> ah_catchUpWaveId h \<noteq> None \<and> ah_id h \<noteq> ah_id self) (handleTable d)"
  have w: "openWave pick uuid c self d = (case Option.bind (pickRow pick hs) ah_catchUpWaveId of Some w \<Rightarrow> w | None \<Rightarrow> uuid)"
    unfolding openWave_def hs_def ..
  show ?thesis
  proof (cases "hs = []")
    case False
    define x where "x = hs ! (pick mod length hs)"
    have "x \<in> set hs" unfolding x_def using False by (intro nth_mem) simp
    then have x: "x \<in> set (handleTable d)" "ah_chatId x = c" "ah_sourceUserMessageId x = ah_sourceUserMessageId self"
        "ah_catchUpWaveId x \<noteq> None" by (simp_all add: hs_def)
    then obtain v where v: "ah_catchUpWaveId x = Some v" by blast
    then have "openWave pick uuid c self d = v" using False by (simp add: w pickRow_def flip: x_def)
    with x v show ?thesis by (auto simp: waveMembers_def)
  qed (simp add: w pickRow_def)
qed

lemma lockById_row: "distinctIds d \<Longrightarrow> row \<in> set (handleTable d) \<Longrightarrow> lockById (ah_id row) d = Some row"
proof -
  assume d: "distinctIds d" and row: "row \<in> set (handleTable d)"
  then obtain r where r: "lockById (ah_id row) d = Some r"
    by (cases "lockById (ah_id row) d") (auto simp: lockById_def findHandle_def find_None_iff)
  from lockedRow(3) [OF r] have "r = row" by (auto intro: rows_by_id [OF d _ row])
  with r show ?thesis by simp
qed

lemma wavesOk_stamp:
  assumes ok: "wavesOk d" and ids: "distinctIds d" and row: "row \<in> set (handleTable d)"
    and fresh: "\<forall>h \<in> set (handleTable d). ah_catchUpWaveId h \<noteq> Some uuid"
  shows "wavesOk (stampCatchUpQueueMarkersInTx pick uuid now (ah_id row) (ah_chatId row) d)"
proof (cases "ah_catchUpOrdinal row")
  case None
  define w where "w = openWave pick uuid (ah_chatId row) row d"
  let ?ms = "waveMembers (ah_chatId row) w d"
  have wave: "numbered ?ms" "oneMessage ?ms" using ok by (simp_all add: wavesOk_def)
  have message: "ah_sourceUserMessageId h = ah_sourceUserMessageId row" if "h \<in> set ?ms" for h
  proof -
    have "h \<in> set (handleTable d)" "ah_catchUpWaveId h = Some w" using that by (simp_all add: waveMembers_def)
    then have "w \<noteq> uuid" using bspec [OF fresh] by metis
    with openWave_members [of pick uuid "ah_chatId row" row d]
    obtain x where x: "x \<in> set ?ms" "ah_sourceUserMessageId x = ah_sourceUserMessageId row" unfolding w_def by blast
    with oneMessageD [OF wave(2) that x(1)] show ?thesis by simp
  qed
  have "ah_catchUpWaveId row = None" using ok row None by (auto simp: wavesOk_def)
  then have "wavesOk (enterWave now (ah_id row) (ah_chatId row) w (int (length ?ms) + 1) d)"
    by (rule wavesOk_enter [OF ok ids row _ refl refl]) (rule message)
  then show ?thesis
    by (simp add: stampCatchUpQueueMarkersInTx_def lockById_row [OF ids row] None Let_def maxOrdinal_numbered [OF wave(1)] flip: w_def)
qed (simp add: stampCatchUpQueueMarkersInTx_def lockById_row [OF ids row] ok)

lemma waveRow_advance: "advance heal h h' \<Longrightarrow> waveRow h' = waveRow h"
  by (simp add: advance_def waveRow_def fixedCols_def)

lemma wavesOk_move: "handles_move heal d d' \<Longrightarrow> distinctIds d \<Longrightarrow> wavesOk d \<Longrightarrow> wavesOk d'"
proof (induction rule: handles_move.induct)
  case (stay d' d)
  then show ?case using wavesOk_rows [of d' d] by simp
next
  case (advance d d1 d2)
  have "map waveRow (handleTable d2) = map waveRow (handleTable d1)"
    using advance.hyps(2) by (induction rule: list_all2_induct) (simp_all add: waveRow_advance)
  then have "wavesOk d2 = wavesOk d1" by (rule wavesOk_rows)
  with advance show ?case by simp
next
  case (stamp d d1 uuid row pick now)
  show ?case
    by (rule wavesOk_stamp [OF stamp.IH [OF stamp.prems] handles_move_distinctIds [OF stamp.hyps(1) stamp.prems(1)]
        stamp.hyps(3,2)])
next
  case (insert d d1 h d2)
  then have table: "handleTable d2 = handleTable d1 @ [h]" by (auto simp: insertHandle_def split: if_splits)
  have none: "ah_catchUpOrdinal h = None" "ah_catchUpWaveId h = None" using insert.hyps(3) by (simp_all add: newRow_def waveCols_def)
  then have "waveMembers c w d2 = waveMembers c w d1" for c w by (simp add: waveMembers_def table)
  with insert none show ?case by (simp add: wavesOk_def table)
qed

end
