(* ===== verification/AsyncJobHistory.thy ===== *)
theory AsyncJobHistory
  imports AsyncJobWaves
begin

text \<open>
  Histories of the handle table: any calls of the handle service in any order, at any instants, and between them
  whatever other services do to jobs, messages and chats and to the columns of a handle they own.
\<close>

datatype async_call =
    Observe_call nat string job_scope
  | Subscribe_call job_scope
  | Finalize_call nat "nat \<Rightarrow> string" finalize_input
  | Prepare_call handle_kind string
  | Present_call handle_kind string
  | Completion_call nat string handle_kind string terminal_status json
  | Claim_head_call "string \<Rightarrow> bool" string string int
  | Release_call string string int "string option" "string option"
  | Dispatch_call string string string int
  | Complete_call string string
  | Attempt_call string string delivery_part
  | Attempt_result_call string string delivery_part attempt_result "string option"
  | Requeue_call string string string int string string "(bool \<times> bool \<times> bool) option"
  | Fail_call string string string string string
  | Observation_call string
  | Settle_call string string
  | Settle_turn_call string
  | Notice_call string
  | Notice_result_call string attempt_result "string option"
  | Register_call string register_input
  | Mint_call string string mint_input

datatype async_answer =
    Attempt_answered attempt_answer
  | Notice_answered bool
  | Requeue_answered requeue_answer
  | Head_answered "(string \<times> string) option"
  | Other_answer

definition answering :: "('a \<Rightarrow> async_answer) \<Rightarrow> 'a outcome \<times> async_data \<Rightarrow> async_answer \<times> async_data" where
  "answering f r = (case fst r of Inl _ \<Rightarrow> Other_answer | Inr a \<Rightarrow> f a, snd r)"

abbreviation otherwise :: "'a outcome \<times> async_data \<Rightarrow> async_answer \<times> async_data" where
  "otherwise \<equiv> answering (\<lambda>_. Other_answer)"

definition asyncCall :: "(string \<Rightarrow> string) \<Rightarrow> async_call \<Rightarrow> int \<Rightarrow> async_data \<Rightarrow> async_answer \<times> async_data" where
  "asyncCall sha call now d =
     (case call of
        Observe_call pick uuid i \<Rightarrow> otherwise (observeTx pick uuid i now d)
      | Subscribe_call i \<Rightarrow> otherwise (subscribeTx sha i now d)
      | Finalize_call pick uuid i \<Rightarrow> otherwise (finalizeSourceTurn sha pick uuid i now d)
      | Prepare_call k j \<Rightarrow> otherwise (prepareDelivery k j now d)
      | Present_call k j \<Rightarrow> otherwise (claimOpenTurnLivePresent k j now d)
      | Completion_call pick uuid k j st snapshot \<Rightarrow> otherwise (recordCanonicalCompletion sha pick uuid k j st snapshot now d)
      | Claim_head_call locked token c ttl \<Rightarrow> answering Head_answered (claimReadyHeadForChat locked token c ttl now d)
      | Release_call i token retryAt code msg \<Rightarrow> otherwise (releaseClaimToReady i token retryAt code msg now d)
      | Dispatch_call i token receipt expires \<Rightarrow> otherwise (markDispatched i token receipt expires now d)
      | Complete_call i token \<Rightarrow> otherwise (completeClaim i token now d)
      | Attempt_call i token part \<Rightarrow> answering Attempt_answered (claimDeliveryAttempt i token part now d)
      | Attempt_result_call i token part result err \<Rightarrow> otherwise (recordDeliveryAttemptResult i token part result err now d)
      | Requeue_call mid i token retryAt code msg evidence \<Rightarrow>
          answering Requeue_answered (requeueClaim mid i token retryAt code msg evidence now d)
      | Fail_call mid i token code msg \<Rightarrow> otherwise (failClaim mid i token code msg now d)
      | Observation_call i \<Rightarrow> otherwise (getPermanentFailureObservation i now d)
      | Settle_call i token \<Rightarrow> otherwise (settleDeliveredCatchUpFailure i token now d)
      | Settle_turn_call t \<Rightarrow> otherwise (settleDeliveredCatchUpFailureByClientTurnId t now d)
      | Notice_call i \<Rightarrow> answering Notice_answered (claimFailedHandleExternalNotice i now d)
      | Notice_result_call i result err \<Rightarrow> otherwise (recordFailedHandleExternalNoticeResult i result err now d)
      | Register_call hid i \<Rightarrow> otherwise (registerSandboxJob hid i now d)
      | Mint_call hid random i \<Rightarrow> otherwise (mintHandle hid random i now d))"

text \<open>The uuids a call may use for new waves name no wave yet.\<close>

definition freshCall :: "async_call \<Rightarrow> async_data \<Rightarrow> bool" where
  "freshCall call d \<longleftrightarrow>
     (case call of
        Observe_call pick uuid i \<Rightarrow> freshWave uuid d
      | Finalize_call pick uuid i \<Rightarrow> inj uuid \<and> (\<forall>j. freshWave (uuid j) d)
      | Completion_call pick uuid k j st snapshot \<Rightarrow> freshWave uuid d
      | _ \<Rightarrow> True)"

definition endsSourceTurn :: "async_call \<Rightarrow> bool" where
  "endsSourceTurn call \<longleftrightarrow> (case call of Finalize_call pick uuid i \<Rightarrow> True | _ \<Rightarrow> False)"

definition allowedMoves :: "async_call \<Rightarrow> special_move set" where
  "allowedMoves call = (if endsSourceTurn call then {Finalize_move, Release_move} else {})"

definition otherWrites :: "async_data \<Rightarrow> async_data \<Rightarrow> bool" where
  "otherWrites d d' \<longleftrightarrow> map (\<lambda>h. (fixedCols h, waveCols h, handleView h)) (handleTable d') =
     map (\<lambda>h. (fixedCols h, waveCols h, handleView h)) (handleTable d)"

inductive async_history :: "(string \<Rightarrow> string) \<Rightarrow> (async_call \<times> async_answer) list \<Rightarrow> async_data \<Rightarrow> bool" for sha where
  start: "handleTable d = [] \<Longrightarrow> async_history sha [] d"
| call: "async_history sha es d \<Longrightarrow> freshCall c d \<Longrightarrow> asyncCall sha c now d = (r, d') \<Longrightarrow> async_history sha ((c, r) # es) d'"
| others: "async_history sha es d \<Longrightarrow> otherWrites d d' \<Longrightarrow> async_history sha es d'"

section \<open>Calls are moves\<close>

definition asyncOk :: "async_data \<Rightarrow> bool" where
  "asyncOk d \<longleftrightarrow> distinctIds d \<and> wavesOk d \<and> (\<forall>h \<in> set (handleTable d). viewOk (handleView h)) \<and>
     (\<forall>h \<in> set (handleTable d). current (handleView h))"

lemma current_noHeal: "current (handleView h) \<Longrightarrow> \<not> needsContinuationHeal h"
  by (auto simp: current_def needsContinuationHeal_def handleView_def)

lemma asyncOk_guards:
  assumes "asyncOk d"
  shows "distinctIds d" "followUpRows d" "noAdoption d" "depthsOk d"
proof -
  have row: "viewOk (handleView h)" "current (handleView h)" if "h \<in> set (handleTable d)" for h
    using assms that by (auto simp: asyncOk_def)
  show "distinctIds d" using assms by (simp add: asyncOk_def)
  show "followUpRows d"
    unfolding followUpRows_def
  proof (intro ballI impI)
    fix h assume "h \<in> set (handleTable d)" "ah_state h \<in> {H_subscribed, H_ready, H_claimed, H_dispatched}"
    then show "followUp (handleView h)" using row(1) by (intro viewOkD(1)) (simp_all add: view_sel)
  qed
  show "noAdoption d" using row(2) current_noHeal by (simp add: noAdoption_def)
  show "depthsOk d"
    unfolding depthsOk_def
  proof
    fix h assume "h \<in> set (handleTable d)"
    from viewOkD(4) [OF row(1) [OF this]] show "0 \<le> ah_continuationDepth h" by (simp add: view_sel)
  qed
qed

lemma snd_answering [simp]: "snd (answering f r) = snd r"
  by (simp add: answering_def)

lemma call_moves:
  assumes "asyncOk d" "freshCall c d"
  shows "handles_move (allowedMoves c) d (snd (asyncCall sha c now d))"
proof -
  note guards = asyncOk_guards [OF assms(1)]
  show ?thesis
    using assms(2)
    by (cases c)
      (simp_all add: asyncCall_def freshCall_def allowedMoves_def endsSourceTurn_def guards move_observe move_subscribe
        move_finalizeSourceTurn move_prepareDelivery move_claimOpenTurn move_recordCanonicalCompletion move_claimReadyHead
        move_releaseClaim move_markDispatched move_completeClaim move_claimDeliveryAttempt move_recordDeliveryAttempt
        move_requeueClaim move_failClaim move_getObservation move_settleCatchUp move_settleByTurn move_externalNotice
        move_externalNoticeResult move_registerSandboxJob move_mintHandle)
qed

section \<open>The end of a source turn\<close>

lemma updated_rows:
  "handleTable (updateHandles now p f d) = map (\<lambda>h. if p h then (f h)\<lparr>ah_updatedAt := now\<rparr> else h) (handleTable d)"
  by (simp add: updateHandles_def)

text \<open>What a successful call leaves of a row: rows it finds unowned or releases are the follow-up's.\<close>

definition endedRow :: "finalize_input \<Rightarrow> async_handle \<Rightarrow> async_handle \<Rightarrow> bool" where
  "endedRow i h h' \<longleftrightarrow> fixedCols h' = fixedCols h \<and> view_moves {Finalize_move, Release_move} (handleView h) (handleView h') \<and>
     (ah_sourceFinalizedAt h' \<noteq> None) = (ofSourceTurn i h \<or> ah_sourceFinalizedAt h \<noteq> None) \<and>
     (ofSourceTurn i h \<and> ah_narrationOwner h = None \<longrightarrow> ah_narrationOwner h' = Some Continuation) \<and>
     (ofSourceTurn i h \<and> fi_outcome i \<noteq> Turn_persisted \<and> ah_narrationOwner h = Some Current_turn \<and>
        \<not> presented (handleView h) \<longrightarrow> ah_narrationOwner h' = Some Continuation)"

lemma finalizeSourceTurn_rows:
  assumes ok: "distinctIds d" and uuid: "inj uuid" "\<forall>j. freshWave (uuid j) d"
    and success: "finalizeSourceTurn sha pick uuid i now d = (Inr r, d')"
    and h': "h' \<in> set (handleTable d')"
  shows "\<exists>h \<in> set (handleTable d). endedRow i h h'"
proof -
  let ?f = "\<lambda>h. if unfinalizedBy i h then (h\<lparr>ah_sourceFinalizedAt := Some now\<rparr>)\<lparr>ah_updatedAt := now\<rparr> else h"
  define d1 where "d1 = updateHandles now (unfinalizedBy i) (\<lambda>h. h\<lparr>ah_sourceFinalizedAt := Some now\<rparr>) d"
  have table: "handleTable d1 = map ?f (handleTable d)" unfolding d1_def by (rule updated_rows)
  have d': "d' = snd (finalizeRows sha pick uuid now i 0 (toSubscribe i d1) ((0, 0, 0), d1))"
    using success by (simp add: finalizeSourceTurn_def d1_def case_prod_unfold Let_def split: sum.splits)
  have first: "handles_move {Finalize_move, Release_move} d d1" unfolding d1_def by (rule finalizedAt_rows) simp
  then have ids: "distinctIds d1" using ok by (rule handles_move_distinctIds)
  have fresh: "\<forall>j \<ge> 0. freshWave (uuid j) d1" using uuid(2) by (simp add: d1_def freshWave_update)
  have loop: "Release_move \<in> heal \<Longrightarrow> handles_move heal d1 d'" for heal
    unfolding d' by (rule move_finalizeRows [OF _ ids loopRows_toSubscribe [OF ids] uuid(1) fresh])
  have "map ah_id (handleTable d') = map ah_id (handleTable d1)" unfolding d' by (rule finalizeRows_ids)
  then have "ah_id h' \<in> ah_id ` set (handleTable d1)" using h' by (metis image_eqI list.set_map)
  then obtain h1 where h1: "h1 \<in> set (handleTable d1)" "ah_id h' = ah_id h1" by blast
  note loop1 = loop [of "{Release_move}", simplified] and loop2 = loop [of "{Finalize_move, Release_move}", simplified]
  note moved = handles_move_row [OF loop2 ids h1(1) h' h1(2)]
  from h1(1) obtain h where h: "h \<in> set (handleTable d)" "h1 = ?f h" by (auto simp: table)
  have same: "fixedCols h1 = fixedCols h" "ah_narrationOwner h1 = ah_narrationOwner h" "ofSourceTurn i h1 = ofSourceTurn i h"
    "presented (handleView h1) = presented (handleView h)"
    by (simp_all add: h(2) fixedCols_def ofSourceTurn_def presented_def view_sel)
  have finalized: "(ah_sourceFinalizedAt h' \<noteq> None) = (ah_sourceFinalizedAt h1 \<noteq> None)"
    using finalized_moves [OF handles_move_row(2) [OF loop1 ids h1(1) h' h1(2)]] by (simp add: view_sel)
  have owned: "ah_narrationOwner h' = Some Continuation" if row: "h1 \<in> set (toSubscribe i d1)" "\<not> presented (handleView h1)"
  proof -
    obtain x where "x \<in> set (handleTable d')" "ah_id x = ah_id h1" "ah_narrationOwner x = Some Continuation"
      using finalizeRows_owned [OF loopRows_toSubscribe [OF ids] row] unfolding d' by blast
    moreover from this(1,2) have "x = h'" using h1(2) h' by (intro rows_by_id [OF handles_move_distinctIds [OF loop1 ids]]) simp_all
    ultimately show ?thesis by simp
  qed
  have "view_moves {Finalize_move, Release_move} (handleView h) (handleView h1)"
    using handles_move_row(2) [OF first ok h(1) h1(1)] same(1) by (simp add: fixedCols_def)
  then have "view_moves {Finalize_move, Release_move} (handleView h) (handleView h')" using moved(2) by (rule rtranclp_trans)
  moreover have "(ah_sourceFinalizedAt h' \<noteq> None) = (ofSourceTurn i h \<or> ah_sourceFinalizedAt h \<noteq> None)"
    unfolding finalized by (cases "ofSourceTurn i h") (simp_all add: h(2) unfinalizedBy_def)
  moreover have "ah_narrationOwner h' = Some Continuation" if "ofSourceTurn i h" "ah_narrationOwner h = None"
  proof (rule owned)
    show "h1 \<in> set (toSubscribe i d1)" using h1(1) same that by (simp add: toSubscribe_def)
    show "\<not> presented (handleView h1)" using same that by (simp add: presented_def view_sel)
  qed
  moreover have "ah_narrationOwner h' = Some Continuation"
    if "ofSourceTurn i h" "fi_outcome i \<noteq> Turn_persisted" "ah_narrationOwner h = Some Current_turn" "\<not> presented (handleView h)"
  proof (rule owned)
    show "h1 \<in> set (toSubscribe i d1)" using h1(1) same that by (simp add: toSubscribe_def)
    show "\<not> presented (handleView h1)" using same that by simp
  qed
  ultimately have "endedRow i h h'"
    unfolding endedRow_def using moved(1) same(1) by metis
  with h(1) show ?thesis by blast
qed

section \<open>Histories\<close>

lemma finalize_failed: "finalizeSourceTurn sha pick uuid i now d = (Inl e, d') \<Longrightarrow> d' = d"
  by (auto simp: finalizeSourceTurn_def case_prod_unfold Let_def split: sum.splits)

lemma current_finalize:
  assumes ok: "asyncOk d" and uuid: "inj uuid" "\<forall>j. freshWave (uuid j) d"
  shows "\<forall>h \<in> set (handleTable (snd (finalizeSourceTurn sha pick uuid i now d))). current (handleView h)"
proof
  fix h' assume h': "h' \<in> set (handleTable (snd (finalizeSourceTurn sha pick uuid i now d)))"
  obtain r d' where e: "finalizeSourceTurn sha pick uuid i now d = (r, d')"
    by (cases "finalizeSourceTurn sha pick uuid i now d")
  show "current (handleView h')"
  proof (cases r)
    case (Inl x)
    from finalize_failed [of sha pick uuid i now d x d'] e Inl h' have "h' \<in> set (handleTable d)" by simp
    with ok show ?thesis by (simp add: asyncOk_def)
  next
    case (Inr a)
    note guards = asyncOk_guards [OF ok]
    from e h' Inr have success: "finalizeSourceTurn sha pick uuid i now d = (Inr a, d')" "h' \<in> set (handleTable d')"
      by simp_all
    obtain h where h: "h \<in> set (handleTable d)" and row: "endedRow i h h'"
      using finalizeSourceTurn_rows [OF guards(1) uuid success] by blast
    then have moves: "view_moves {Finalize_move, Release_move} (handleView h) (handleView h')" by (simp add: endedRow_def)
    have cur: "current (handleView h)" using ok h by (simp add: asyncOk_def)
    have "knownOwner (handleView h')"
      using moves cur by (induction rule: rtranclp_induct) (auto simp: current_known intro: knownOwner_move)
    moreover have "hv_owner (handleView h') = None \<Longrightarrow> hv_owner (handleView h) = None"
      using movedOn_moves [OF moves] by (auto simp: movedOn_def)
    then have "\<not> hv_finalized (handleView h')" if "hv_owner (handleView h') = None"
      using that cur row unfolding current_known view_sel endedRow_def by (metis option.distinct(1))
    ultimately show ?thesis by (simp add: current_known)
  qed
qed

lemma asyncOk_call:
  assumes ok: "asyncOk d" and fresh: "freshCall c d"
  shows "asyncOk (snd (asyncCall sha c now d))"
proof -
  let ?d' = "snd (asyncCall sha c now d)"
  note moves = call_moves [OF ok fresh, of sha now] and guards = asyncOk_guards [OF ok]
  have "distinctIds ?d'" using moves guards(1) by (rule handles_move_distinctIds)
  moreover have "wavesOk ?d'" using wavesOk_move [OF moves guards(1)] ok by (simp add: asyncOk_def)
  moreover have "Adopt_move \<notin> allowedMoves c" by (simp add: allowedMoves_def)
  then have "\<forall>h \<in> set (handleTable ?d'). viewOk (handleView h)"
    using handles_move_rows [OF moves, of viewOk] viewOk_move viewOk_initial ok by (simp add: asyncOk_def)
  moreover have "\<forall>h \<in> set (handleTable ?d'). current (handleView h)"
  proof (cases "endsSourceTurn c")
    case True
    then obtain pick uuid i where c: "c = Finalize_call pick uuid i" by (cases c) (simp_all add: endsSourceTurn_def)
    then have "inj uuid" "\<forall>j. freshWave (uuid j) d" using fresh by (simp_all add: freshCall_def)
    from current_finalize [OF ok this] show ?thesis by (simp add: c asyncCall_def)
  next
    case False
    then have "allowedMoves c = {}" by (simp add: allowedMoves_def)
    then show ?thesis
      using handles_move_rows [OF moves, of current] current_move current_initial ok by (simp add: asyncOk_def)
  qed
  ultimately show ?thesis by (simp add: asyncOk_def)
qed

lemma otherWrites_moves: "otherWrites d d' \<Longrightarrow> handles_move heal d d'"
proof (rule advance_all)
  assume "otherWrites d d'"
  then have eq: "map (\<lambda>h. (fixedCols h, waveCols h, handleView h)) (handleTable d) =
      map (\<lambda>h. (fixedCols h, waveCols h, handleView h)) (handleTable d')" by (simp add: otherWrites_def)
  then have len: "length (handleTable d) = length (handleTable d')" by (rule map_eq_imp_length_eq)
  show "list_all2 (advance heal) (handleTable d) (handleTable d')"
  proof (rule list_all2_all_nthI [OF len])
    fix n assume n: "n < length (handleTable d)"
    have "map (\<lambda>h. (fixedCols h, waveCols h, handleView h)) (handleTable d) ! n =
        map (\<lambda>h. (fixedCols h, waveCols h, handleView h)) (handleTable d') ! n" by (simp only: eq)
    then show "advance heal (handleTable d ! n) (handleTable d' ! n)"
      using n len by (simp add: advance_cols)
  qed
qed

lemma asyncOk_others:
  assumes "otherWrites d d'" "asyncOk d"
  shows "asyncOk d'"
proof -
  note moves = otherWrites_moves [OF assms(1), of "{}"] and guards = asyncOk_guards [OF assms(2)]
  have "\<forall>h \<in> set (handleTable d'). viewOk (handleView h)"
    using handles_move_rows [OF moves, of viewOk] viewOk_move viewOk_initial assms(2) by (simp add: asyncOk_def)
  moreover have "\<forall>h \<in> set (handleTable d'). current (handleView h)"
    using handles_move_rows [OF moves, of current] current_move current_initial assms(2) by (simp add: asyncOk_def)
  ultimately show ?thesis
    using handles_move_distinctIds [OF moves guards(1)] wavesOk_move [OF moves guards(1)] assms(2) by (simp add: asyncOk_def)
qed

lemma asyncOk_start: "handleTable d = [] \<Longrightarrow> asyncOk d"
  by (simp add: asyncOk_def distinctIds_def wavesOk_def waveMembers_def numbered_def ordinals_def oneMessage_def)

lemma asyncOk_history: "async_history sha es d \<Longrightarrow> asyncOk d"
proof (induction rule: async_history.induct)
  case (call es d c now r d')
  then show ?case using asyncOk_call [of d c sha now] by simp
qed (auto intro: asyncOk_start asyncOk_others)

end
