(* ===== verification/AsyncJobProperties.thy ===== *)
theory AsyncJobProperties
  imports AsyncJobHistory
begin

text \<open>
  What the handle service promises in every history: who narrates a job, in which order follow-ups come, how often a
  result is delivered, and where the promise breaks.
\<close>

section \<open>Rows over a call\<close>

lemma history_call_moves:
  "async_history sha es d \<Longrightarrow> freshCall c d \<Longrightarrow> asyncCall sha c now d = (r, d') \<Longrightarrow> handles_move (allowedMoves c) d d'"
  using call_moves [of d c sha now] asyncOk_history by fastforce

lemma history_rows:
  assumes "async_history sha es d" "h \<in> set (handleTable d)"
  shows "viewOk (handleView h)" "current (handleView h)"
  using asyncOk_history [OF assms(1)] assms(2) by (auto simp: asyncOk_def)

lemma history_distinctIds: "async_history sha es d \<Longrightarrow> distinctIds d"
  using asyncOk_history asyncOk_guards(1) by blast

text \<open>The owner of a row changes once from nobody; a released row is the only later change.\<close>

definition ownerEdge :: "bool \<Rightarrow> handle_view \<Rightarrow> handle_view \<Rightarrow> bool" where
  "ownerEdge release v w \<longleftrightarrow> hv_owner w = hv_owner v \<or> hv_owner v = None \<or>
     (release \<and> hv_owner v = Some Current_turn \<and> hv_owner w = Some Continuation)"

lemma ownerEdge_move:
  "view_move heal v w \<Longrightarrow> Adopt_move \<notin> heal \<Longrightarrow> hv_owner v \<noteq> Some Legacy \<Longrightarrow>
   ownerEdge (Release_move \<in> heal) v w \<and> hv_owner w \<noteq> Some Legacy"
  by (induction rule: view_move.induct) (auto simp: ownerEdge_def unowned_def, (metis narration_owner.exhaust)+)

lemma ownerEdge_trans:
  "ownerEdge b u v \<Longrightarrow> ownerEdge b v w \<Longrightarrow> hv_owner u \<noteq> None \<longrightarrow> hv_owner v \<noteq> None \<Longrightarrow> ownerEdge b u w"
  by (auto simp: ownerEdge_def)

lemma ownerEdge_moves:
  "view_moves heal v w \<Longrightarrow> Adopt_move \<notin> heal \<Longrightarrow> hv_owner v \<noteq> Some Legacy \<Longrightarrow>
   ownerEdge (Release_move \<in> heal) v w \<and> hv_owner w \<noteq> Some Legacy"
proof (induction rule: rtranclp_induct)
  case (step x y)
  then have x: "ownerEdge (Release_move \<in> heal) v x" "hv_owner x \<noteq> Some Legacy" by simp_all
  have "hv_owner v \<noteq> None \<longrightarrow> hv_owner x \<noteq> None"
    using movedOn_moves [OF step.hyps(1)] by (simp add: movedOn_def)
  with x ownerEdge_move [OF step.hyps(2) step.prems(1) x(2)] show ?case
    by (blast intro: ownerEdge_trans)
qed (simp add: ownerEdge_def)

lemma allowed_special [simp]:
  "Adopt_move \<notin> allowedMoves c" "(Release_move \<in> allowedMoves c) = endsSourceTurn c"
  "(Finalize_move \<in> allowedMoves c) = endsSourceTurn c"
  by (simp_all add: allowedMoves_def)

section \<open>Counting answers\<close>

definition countAnswers :: "(async_call \<times> async_answer \<Rightarrow> bool) \<Rightarrow> (async_call \<times> async_answer) list \<Rightarrow> nat" where
  "countAnswers p es = length (filter p es)"

lemma countAnswers_simps [simp]:
  "countAnswers p [] = 0" "countAnswers p (e # es) = (if p e then 1 else 0) + countAnswers p es"
  by (simp_all add: countAnswers_def)

text \<open>The answers that let the caller deliver a part of a handle's result.\<close>

fun deliveryGranted :: "string \<Rightarrow> delivery_part \<Rightarrow> async_call \<times> async_answer \<Rightarrow> bool" where
  "deliveryGranted i part (Attempt_call j token p, Attempt_answered a) = (j = i \<and> p = part \<and> a = Attempt_claimed)"
| "deliveryGranted i part (Notice_call j, Notice_answered b) = (j = i \<and> part = External \<and> b)"
| "deliveryGranted i part e = False"

fun requeuedAnswer :: "string \<Rightarrow> async_call \<times> async_answer \<Rightarrow> bool" where
  "requeuedAnswer i (Requeue_call mid j token retryAt code msg evidence, Requeue_answered a) = (j = i \<and> a = Requeued)"
| "requeuedAnswer i e = False"

definition attempted :: "delivery_part \<Rightarrow> handle_view \<Rightarrow> int option" where
  "attempted part v = (case part of Artifacts \<Rightarrow> hv_artifacts v | External \<Rightarrow> hv_external v)"

lemma deliveryGranted_cases:
  assumes "deliveryGranted i part (c, r)"
  obtains token where "c = Attempt_call i token part" "r = Attempt_answered Attempt_claimed"
  | "c = Notice_call i" "r = Notice_answered True" "part = External"
  using assms by (cases "(i, part, c, r)" rule: deliveryGranted.cases) auto

lemma requeuedAnswer_cases:
  assumes "requeuedAnswer i (c, r)"
  obtains mid token retryAt code msg evidence where "c = Requeue_call mid i token retryAt code msg evidence" "r = Requeue_answered Requeued"
  using assms by (cases "(i, c, r)" rule: requeuedAnswer.cases) auto

lemma granted_attempt:
  assumes "claimDeliveryAttempt i token part now d = (Inr Attempt_claimed, d')" "distinctIds d"
  shows "\<exists>h \<in> set (handleTable d). ah_id h = i \<and> attempted part (handleView h) = None"
    and "\<exists>h \<in> set (handleTable d'). ah_id h = i \<and> attempted part (handleView h) \<noteq> None"
proof -
  obtain h where h: "h \<in> set (handleTable d)" "ah_id h = i" "attemptedAt part h = None"
    and d': "d' = updateRow now i (\<lambda>h. case part of
                  Artifacts \<Rightarrow> h\<lparr>ah_artifactsAttemptedAt := Some now, ah_artifactsResult := Some ''attempting''\<rparr>
                | External \<Rightarrow> h\<lparr>ah_externalAttemptedAt := Some now, ah_externalResult := Some ''attempting''\<rparr>) d"
    using assms(1) by (auto simp: claimDeliveryAttempt_def holdsClaim_def split: option.splits if_splits dest!: findHandleD)
  have "attempted part (handleView h) = None" using h(3) by (cases part) (simp_all add: attempted_def attemptedAt_def view_sel)
  with h show "\<exists>h \<in> set (handleTable d). ah_id h = i \<and> attempted part (handleView h) = None" by blast
  define h' where "h' = (case part of
      Artifacts \<Rightarrow> h\<lparr>ah_artifactsAttemptedAt := Some now, ah_artifactsResult := Some ''attempting''\<rparr>
    | External \<Rightarrow> h\<lparr>ah_externalAttemptedAt := Some now, ah_externalResult := Some ''attempting''\<rparr>)\<lparr>ah_updatedAt := now\<rparr>"
  have "h' \<in> set (handleTable d')" unfolding d' updateRow_rows h'_def using h(1,2) by (auto simp: image_iff intro!: bexI [of _ h])
  moreover have "ah_id h' = i" "attempted part (handleView h') \<noteq> None"
    using h(2) by (cases part; simp add: h'_def attempted_def view_sel)+
  ultimately show "\<exists>h \<in> set (handleTable d'). ah_id h = i \<and> attempted part (handleView h) \<noteq> None" by blast
qed

lemma updateClaim_true:
  assumes "updateClaim now p f d = (Inr True, d')"
  obtains h where "h \<in> set (handleTable d)" "p h" "(f h)\<lparr>ah_updatedAt := now\<rparr> \<in> set (handleTable d')"
proof -
  have "length (filter p (handleTable d)) = 1" using assms by (simp add: updateClaim_def countHandles_def)
  then have "filter p (handleTable d) \<noteq> []" by auto
  then obtain h where h: "h \<in> set (handleTable d)" "p h" by (auto simp: filter_empty_conv)
  moreover have "(f h)\<lparr>ah_updatedAt := now\<rparr> \<in> set (handleTable d')"
    using assms h by (auto simp: updateClaim_def updated_rows intro!: image_eqI [of _ _ h])
  ultimately show thesis by (rule that)
qed

lemma granted_notice:
  assumes "claimFailedHandleExternalNotice i now d = (Inr True, d')"
  shows "\<exists>h \<in> set (handleTable d). ah_id h = i \<and> attempted External (handleView h) = None"
    and "\<exists>h \<in> set (handleTable d'). ah_id h = i \<and> attempted External (handleView h) \<noteq> None"
proof -
  from assms obtain h where h: "h \<in> set (handleTable d)" "ah_id h = i" "ah_externalAttemptedAt h = None"
      "(h\<lparr>ah_externalAttemptedAt := Some now, ah_externalResult := Some ''attempting''\<rparr>)\<lparr>ah_updatedAt := now\<rparr> \<in> set (handleTable d')"
    unfolding claimFailedHandleExternalNotice_def by (rule updateClaim_true) auto
  then show "\<exists>h \<in> set (handleTable d). ah_id h = i \<and> attempted External (handleView h) = None"
    by (auto simp: attempted_def view_sel)
  show "\<exists>h \<in> set (handleTable d'). ah_id h = i \<and> attempted External (handleView h) \<noteq> None"
    using h(2) by (intro bexI [OF _ h(4)]) (simp add: attempted_def view_sel)
qed

lemma requeued_retries:
  assumes "requeueClaim mid i token retryAt code msg evidence now d = (Inr Requeued, d')" "distinctIds d"
  shows "\<exists>h \<in> set (handleTable d). \<exists>h' \<in> set (handleTable d'). ah_id h = i \<and> ah_id h' = i \<and>
           ah_retryCount h' = ah_retryCount h + 1 \<and> ah_retryCount h + 1 < ah_maxRetries h"
proof -
  obtain row where row: "lockById i d = Some row"
    using assms(1) by (cases "lockById i d") (auto simp: requeueClaim_def)
  have small: "ah_retryCount row + 1 < ah_maxRetries row"
    and d': "d' = updateRow now i (\<lambda>h. h\<lparr>ah_state := H_ready, ah_retryCount := ah_retryCount row + 1,
                     ah_claimToken := None, ah_claimedAt := None, ah_claimExpiresAt := None, ah_nextRetryAt := Some retryAt,
                     ah_lastErrorCode := Some code, ah_lastErrorMessage := Some msg\<rparr>) d"
    using assms(1) row by (simp_all add: requeueClaim_def Let_def case_prod_unfold split: if_splits)
  note r = lockedRow(3) [OF row]
  let ?h = "(row\<lparr>ah_state := H_ready, ah_retryCount := ah_retryCount row + 1,
                     ah_claimToken := None, ah_claimedAt := None, ah_claimExpiresAt := None, ah_nextRetryAt := Some retryAt,
                     ah_lastErrorCode := Some code, ah_lastErrorMessage := Some msg\<rparr>)\<lparr>ah_updatedAt := now\<rparr>"
  have "?h \<in> set (handleTable d')" unfolding d' updateRow_rows using r by (auto intro!: image_eqI [of _ _ row])
  moreover have "ah_id ?h = i" "ah_retryCount ?h = ah_retryCount row + 1" using r by simp_all
  ultimately show ?thesis using r small by blast
qed

text \<open>Over a call and over the writes of others, a row of a handle stays and only moves on.\<close>

lemma row_stays:
  assumes "handles_move heal d d'" "\<exists>h \<in> set (handleTable d). ah_id h = i \<and> Q (handleView h)"
    and "\<And>v w. movedOn v w \<Longrightarrow> Q v \<Longrightarrow> Q w"
  shows "\<exists>h \<in> set (handleTable d'). ah_id h = i \<and> Q (handleView h)"
proof -
  obtain h where h: "h \<in> set (handleTable d)" "ah_id h = i" "Q (handleView h)" using assms(2) by blast
  from handles_move_later [OF assms(1) h(1)] obtain h' where "h' \<in> set (handleTable d')" "fixedCols h' = fixedCols h"
      "view_moves heal (handleView h) (handleView h')" by blast
  moreover from this(2) have "ah_id h' = ah_id h" by (simp add: fixedCols_def)
  ultimately show ?thesis using h(2,3) assms(3) movedOn_moves by metis
qed

lemma attempted_moves: "movedOn v w \<Longrightarrow> attempted part v \<noteq> None \<Longrightarrow> attempted part w \<noteq> None"
  by (cases part) (auto simp: movedOn_def attempted_def)

lemma asyncCall_answers:
  "asyncCall sha (Attempt_call i token part) now d = (Attempt_answered a, d') \<Longrightarrow> claimDeliveryAttempt i token part now d = (Inr a, d')"
  "asyncCall sha (Notice_call i) now d = (Notice_answered b, d') \<Longrightarrow> claimFailedHandleExternalNotice i now d = (Inr b, d')"
  "asyncCall sha (Requeue_call mid i token retryAt code msg evidence) now d = (Requeue_answered q, d') \<Longrightarrow>
     requeueClaim mid i token retryAt code msg evidence now d = (Inr q, d')"
  by (auto simp: asyncCall_def answering_def prod_eq_iff split: sum.splits)

lemma granted_call:
  assumes "asyncCall sha c now d = (r, d')" "deliveryGranted i part (c, r)" "distinctIds d"
  shows "\<exists>h \<in> set (handleTable d). ah_id h = i \<and> attempted part (handleView h) = None"
    and "\<exists>h \<in> set (handleTable d'). ah_id h = i \<and> attempted part (handleView h) \<noteq> None"
proof -
  from assms(2) have "(\<exists>h \<in> set (handleTable d). ah_id h = i \<and> attempted part (handleView h) = None) \<and>
      (\<exists>h \<in> set (handleTable d'). ah_id h = i \<and> attempted part (handleView h) \<noteq> None)"
  proof (cases rule: deliveryGranted_cases)
    case (1 token)
    with assms(1) have "claimDeliveryAttempt i token part now d = (Inr Attempt_claimed, d')" by (simp add: asyncCall_answers)
    from granted_attempt [OF this assms(3)] show ?thesis by blast
  next
    case 2
    with assms(1) have "claimFailedHandleExternalNotice i now d = (Inr True, d')" by (simp add: asyncCall_answers)
    from granted_notice [OF this] 2(3) show ?thesis by blast
  qed
  then show "\<exists>h \<in> set (handleTable d). ah_id h = i \<and> attempted part (handleView h) = None"
    "\<exists>h \<in> set (handleTable d'). ah_id h = i \<and> attempted part (handleView h) \<noteq> None" by blast+
qed

lemma granted_count:
  "async_history sha es d \<Longrightarrow> countAnswers (deliveryGranted i part) es = 0 \<or>
     (countAnswers (deliveryGranted i part) es = 1 \<and>
      (\<exists>h \<in> set (handleTable d). ah_id h = i \<and> attempted part (handleView h) \<noteq> None))"
proof (induction rule: async_history.induct)
  case (call es d c now r d')
  note moves = history_call_moves [OF call.hyps] and ids = history_distinctIds [OF call.hyps(1)]
  show ?case
  proof (cases "deliveryGranted i part (c, r)")
    case True
    note granted = granted_call [OF call.hyps(3) True ids]
    have "\<not> (\<exists>h \<in> set (handleTable d). ah_id h = i \<and> attempted part (handleView h) \<noteq> None)"
      using granted(1) rows_by_id [OF ids] by metis
    with call.IH have "countAnswers (deliveryGranted i part) es = 0" by blast
    with granted(2) True show ?thesis by simp
  next
    case False
    have "\<exists>h \<in> set (handleTable d). ah_id h = i \<and> attempted part (handleView h) \<noteq> None \<Longrightarrow>
        \<exists>h \<in> set (handleTable d'). ah_id h = i \<and> attempted part (handleView h) \<noteq> None"
      by (rule row_stays [OF moves, where Q = "\<lambda>v. attempted part v \<noteq> None"]) (auto dest: attempted_moves)
    moreover have "countAnswers (deliveryGranted i part) ((c, r) # es) = countAnswers (deliveryGranted i part) es"
      using False by simp
    ultimately show ?thesis using call.IH by presburger
  qed
next
  case (others es d d')
  from others.IH row_stays [OF otherWrites_moves [OF others.hyps(2)], of i "\<lambda>v. attempted part v \<noteq> None"] attempted_moves
  show ?case by blast
qed simp

lemma requeued_count:
  "async_history sha es d \<Longrightarrow> countAnswers (requeuedAnswer i) es = 0 \<or>
     (countAnswers (requeuedAnswer i) es \<le> 7 \<and>
      (\<exists>h \<in> set (handleTable d). ah_id h = i \<and> int (countAnswers (requeuedAnswer i) es) \<le> hv_retries (handleView h)))"
proof (induction rule: async_history.induct)
  case (call es d c now r d')
  note moves = history_call_moves [OF call.hyps] and ids = history_distinctIds [OF call.hyps(1)]
  let ?n = "countAnswers (requeuedAnswer i) es"
  show ?case
  proof (cases "requeuedAnswer i (c, r)")
    case True
    then obtain mid token retryAt code msg evidence
      where "requeueClaim mid i token retryAt code msg evidence now d = (Inr Requeued, d')"
      using call.hyps(3) by (auto elim!: requeuedAnswer_cases dest: asyncCall_answers(3))
    from requeued_retries [OF this ids] obtain h h' where h: "h \<in> set (handleTable d)" "h' \<in> set (handleTable d')"
        "ah_id h = i" "ah_id h' = i" "ah_retryCount h' = ah_retryCount h + 1" "ah_retryCount h + 1 < ah_maxRetries h"
      by blast
    have bounds: "0 \<le> ah_retryCount h" "ah_maxRetries h = 8"
      using viewOkD(3) [OF history_rows(1) [OF call.hyps(1) h(1)]] by (simp_all add: view_sel)
    have "int ?n \<le> ah_retryCount h"
    proof (cases "?n = 0")
      case False
      with call.IH obtain x where x: "x \<in> set (handleTable d)" "ah_id x = i" "int ?n \<le> hv_retries (handleView x)" by blast
      then have "x = h" using h(1,3) by (intro rows_by_id [OF ids]) simp_all
      with x(3) show ?thesis by (simp add: view_sel)
    qed (use bounds in simp)
    with True h bounds show ?thesis by (auto simp: view_sel intro!: bexI [of _ h'])
  next
    case False
    have "\<exists>h \<in> set (handleTable d). ah_id h = i \<and> int ?n \<le> hv_retries (handleView h) \<Longrightarrow>
        \<exists>h \<in> set (handleTable d'). ah_id h = i \<and> int ?n \<le> hv_retries (handleView h)"
      by (rule row_stays [OF moves, where Q = "\<lambda>v. int ?n \<le> hv_retries v"]) (auto simp: movedOn_def)
    moreover have "countAnswers (requeuedAnswer i) ((c, r) # es) = ?n" using False by simp
    ultimately show ?thesis using call.IH by presburger
  qed
next
  case (others es d d')
  let ?n = "countAnswers (requeuedAnswer i) es"
  have "\<exists>h \<in> set (handleTable d). ah_id h = i \<and> int ?n \<le> hv_retries (handleView h) \<Longrightarrow>
      \<exists>h \<in> set (handleTable d'). ah_id h = i \<and> int ?n \<le> hv_retries (handleView h)"
    by (rule row_stays [OF otherWrites_moves [OF others.hyps(2)], where Q = "\<lambda>v. int ?n \<le> hv_retries v"]) (auto simp: movedOn_def)
  with others.IH show ?case by blast
qed simp

section \<open>A late completion\<close>

lemma stamp_cases:
  "stampCatchUpQueueMarkersInTx pick uuid now i c d = d \<or>
   (\<exists>w n. stampCatchUpQueueMarkersInTx pick uuid now i c d = enterWave now i c w n d)"
proof (cases "lockById i d")
  case (Some self)
  then show ?thesis by (cases "ah_catchUpOrdinal self") (auto simp: stampCatchUpQueueMarkersInTx_def Let_def)
qed (simp add: stampCatchUpQueueMarkersInTx_def)

lemma stamp_row:
  assumes "h \<in> set (handleTable d)"
  shows "\<exists>n t w u. h\<lparr>ah_catchUpOrdinal := n, ah_catchUpWaveTotal := t, ah_catchUpWaveId := w, ah_updatedAt := u\<rparr> \<in>
     set (handleTable (stampCatchUpQueueMarkersInTx pick uuid now i c d))"
proof -
  have same: "h = h\<lparr>ah_catchUpOrdinal := ah_catchUpOrdinal h, ah_catchUpWaveTotal := ah_catchUpWaveTotal h,
      ah_catchUpWaveId := ah_catchUpWaveId h, ah_updatedAt := ah_updatedAt h\<rparr>" by simp
  have entered: "\<exists>a t v u. enterRow now i c w n h =
      h\<lparr>ah_catchUpOrdinal := a, ah_catchUpWaveTotal := t, ah_catchUpWaveId := v, ah_updatedAt := u\<rparr>" for w n
  proof -
    let ?e = "enterRow now i c w n h"
    have "?e = h\<lparr>ah_catchUpOrdinal := ah_catchUpOrdinal ?e, ah_catchUpWaveTotal := ah_catchUpWaveTotal ?e,
        ah_catchUpWaveId := ah_catchUpWaveId ?e, ah_updatedAt := ah_updatedAt ?e\<rparr>"
      by (simp add: enterRow_def Let_def)
    then show ?thesis by blast
  qed
  consider "stampCatchUpQueueMarkersInTx pick uuid now i c d = d"
    | w n where "stampCatchUpQueueMarkersInTx pick uuid now i c d = enterWave now i c w n d"
    using stamp_cases by blast
  then show ?thesis
  proof cases
    case 1
    with assms same show ?thesis by metis
  next
    case (2 w n)
    from entered [of w n] obtain a t v u where e: "enterRow now i c w n h =
      h\<lparr>ah_catchUpOrdinal := a, ah_catchUpWaveTotal := t, ah_catchUpWaveId := v, ah_updatedAt := u\<rparr>" by blast
    have "enterRow now i c w n h \<in> set (handleTable (enterWave now i c w n d))" using assms by (simp add: enterWave_rows)
    then show ?thesis unfolding 2 e by blast
  qed
qed

lemma updateClaim_none: "(\<And>h. h \<in> set (handleTable d) \<Longrightarrow> \<not> p h) \<Longrightarrow> fst (updateClaim now p f d) = Inr False"
  by (simp add: updateClaim_def countHandles_def)

text \<open>The reopened row, before it is numbered.\<close>

lemma reopened_row:
  assumes "completionReady row" "\<not> needsContinuationHeal row"
  shows "completionData sha now row st snap row = (readyData now row)\<lparr>ah_terminalSnapshotJson := Some snap\<rparr>"
  using assms by (simp add: completionData_def)

lemma completion_reopens:
  assumes history: "async_history sha es d" and row: "lockCanonical k j d = Some row" "ah_state row \<in> {H_claimed, H_dispatched}"
    and late: "recordCanonicalCompletion sha pick uuid k j st snap now d = (r, d')"
  shows "r = Inr (Skip_legacy_frame, H_ready)"
    and "\<exists>h \<in> set (handleTable d'). ah_id h = ah_id row \<and> claimable now (ah_chatId row) h \<and> ah_claimToken h = ah_claimToken row"
proof -
  note member = lockedRow(2) [OF row(1)] and ids = history_distinctIds [OF history]
  note view = history_rows [OF history member]
  have follow: "followUp (handleView row)" using row(2) by (intro viewOkD(1) [OF view(1)]) (auto simp: view_sel)
  have held: "ah_sourceFinalizedAt row \<noteq> None" "ah_retryCount row < ah_maxRetries row"
    using viewOkD(2,3) [OF view(1)] row(2) by (auto simp: view_sel)
  have noheal: "\<not> needsContinuationHeal row" by (rule current_noHeal [OF view(2)])
  have ready: "completionReady row" using follow row(2) by (auto simp: completionReady_def followUp_def view_sel)
  let ?d1 = "updateRow now (ah_id row) (completionData sha now row st snap) d"
  from late row(1) ready have r: "r = Inr (Skip_legacy_frame, H_ready)"
    and d': "d' = stampCatchUpQueueMarkersInTx pick uuid now (ah_id row) (ah_chatId row) ?d1"
    by (simp_all add: recordCanonicalCompletion_def Let_def)
  show "r = Inr (Skip_legacy_frame, H_ready)" by (rule r)
  let ?h = "(readyData now row)\<lparr>ah_terminalSnapshotJson := Some snap, ah_updatedAt := now\<rparr>"
  have "(completionData sha now row st snap row)\<lparr>ah_updatedAt := now\<rparr> \<in> set (handleTable ?d1)"
    unfolding updateRow_rows using member by (auto intro!: image_eqI [of _ _ row])
  then have "?h \<in> set (handleTable ?d1)" by (simp add: reopened_row [OF ready noheal])
  then obtain n t w u where h: "?h\<lparr>ah_catchUpOrdinal := n, ah_catchUpWaveTotal := t, ah_catchUpWaveId := w, ah_updatedAt := u\<rparr>
      \<in> set (handleTable d')"
    unfolding d' using stamp_row by blast
  show "\<exists>h \<in> set (handleTable d'). ah_id h = ah_id row \<and> claimable now (ah_chatId row) h \<and> ah_claimToken h = ah_claimToken row"
    using held by (intro bexI [OF _ h]) (simp add: claimable_def readyData_def)
qed

section \<open>Example histories\<close>

text \<open>Calls in a row, the latest first.\<close>

fun historyOf :: "(string \<Rightarrow> string) \<Rightarrow> (int \<times> async_call) list \<Rightarrow> async_data \<Rightarrow> (async_call \<times> async_answer) list \<times> async_data" where
  "historyOf sha [] d = ([], d)"
| "historyOf sha ((now, c) # cs) d =
     (let (es, d1) = historyOf sha cs d; (r, d2) = asyncCall sha c now d1 in ((c, r) # es, d2))"

fun freshCalls :: "(string \<Rightarrow> string) \<Rightarrow> (int \<times> async_call) list \<Rightarrow> async_data \<Rightarrow> bool" where
  "freshCalls sha [] d = True"
| "freshCalls sha ((now, c) # cs) d = (freshCall c (snd (historyOf sha cs d)) \<and> freshCalls sha cs d)"

lemma historyOf_history:
  "handleTable d = [] \<Longrightarrow> freshCalls sha cs d \<Longrightarrow> async_history sha (fst (historyOf sha cs d)) (snd (historyOf sha cs d))"
proof (induction cs)
  case Nil
  then show ?case by (simp add: async_history.start)
next
  case (Cons x cs)
  obtain now c where x: "x = (now, c)" by (cases x)
  from Cons have "async_history sha ((c, fst (asyncCall sha c now (snd (historyOf sha cs d)))) # fst (historyOf sha cs d))
      (snd (asyncCall sha c now (snd (historyOf sha cs d))))"
    by (intro async_history.call [OF Cons.IH]) (simp_all add: x)
  then show ?case by (simp add: x case_prod_unfold Let_def)
qed

definition exampleData :: async_data where
  "exampleData = \<lparr>handleTable = [], sandboxJobs = [], mediaJobs = [], documentJobs = [], chatTable = [], messageTable = [],
     attachmentsOf = [], sessionTable = []\<rparr>"

definition exampleMint :: mint_input where
  "exampleMint = \<lparr>mi_kind = Media_job, mi_jobId = ''j'', mi_assistantId = ''a'', mi_workspaceId = ''w'', mi_userId = ''u'',
     mi_chatId = ''c'', mi_surface = Web, mi_sourceClientTurnId = Some ''t'', mi_sourceUserMessageId = Some ''m''\<rparr>"

definition exampleEnd :: finalize_input where
  "exampleEnd = \<lparr>fi_assistantId = ''a'', fi_chatId = ''c'', fi_sourceClientTurnId = ''t'', fi_outcome = Turn_stopped,
     fi_assistantMessageId = None\<rparr>"

definition exampleUuid :: "nat \<Rightarrow> string" where
  "exampleUuid n = replicate n CHR ''x''"

text \<open>A job is started, its turn is stopped, the job ends, a follow-up claims the handle, is sent and delivers.\<close>

definition exampleCalls :: "(int \<times> async_call) list" where
  "exampleCalls =
     [(6, Attempt_call ''h'' ''k'' Artifacts), (5, Dispatch_call ''h'' ''k'' ''r'' 99),
      (4, Claim_head_call (\<lambda>_. False) ''k'' ''c'' 60),
      (3, Completion_call 0 ''wave'' Media_job ''j'' T_completed JNull),
      (2, Finalize_call 0 exampleUuid exampleEnd), (1, Mint_call ''h'' ''ref'' exampleMint)]"

abbreviation exampleAt :: "nat \<Rightarrow> (async_call \<times> async_answer) list \<times> async_data" where
  "exampleAt n \<equiv> historyOf (\<lambda>s. s) (drop (6 - n) exampleCalls) exampleData"

lemma example_waves:
  "map ah_catchUpWaveId (handleTable (snd (exampleAt 1))) = [None]" "map ah_catchUpWaveId (handleTable (snd (exampleAt 2))) = [None]"
  by code_simp+

lemma freshWave_none: "map ah_catchUpWaveId (handleTable d) = [None] \<Longrightarrow> freshWave u d"
  by (simp add: freshWave_set)

lemma exampleUuid_inj: "inj exampleUuid"
  unfolding exampleUuid_def by (rule injI) (metis length_replicate)

lemma example_drop:
  "drop 5 exampleCalls = [(1, Mint_call ''h'' ''ref'' exampleMint)]"
  "drop 4 exampleCalls = (2, Finalize_call 0 exampleUuid exampleEnd) # drop 5 exampleCalls"
  "drop 3 exampleCalls = (3, Completion_call 0 ''wave'' Media_job ''j'' T_completed JNull) # drop 4 exampleCalls"
  "drop 2 exampleCalls = (4, Claim_head_call (\<lambda>_. False) ''k'' ''c'' 60) # drop 3 exampleCalls"
  "drop 1 exampleCalls = (5, Dispatch_call ''h'' ''k'' ''r'' 99) # drop 2 exampleCalls"
  "drop 0 exampleCalls = (6, Attempt_call ''h'' ''k'' Artifacts) # drop 1 exampleCalls"
  by (simp_all add: exampleCalls_def)

lemma example_fresh:
  "freshCall (Finalize_call 0 exampleUuid exampleEnd) (snd (exampleAt 1))"
  "freshCall (Completion_call 0 ''wave'' Media_job ''j'' T_completed JNull) (snd (exampleAt 2))"
  using example_waves by (simp_all add: freshCall_def exampleUuid_inj freshWave_none)

lemma example_freshCalls:
  "freshCalls (\<lambda>s. s) (drop 5 exampleCalls) exampleData" "freshCalls (\<lambda>s. s) (drop 4 exampleCalls) exampleData"
  "freshCalls (\<lambda>s. s) (drop 3 exampleCalls) exampleData" "freshCalls (\<lambda>s. s) (drop 2 exampleCalls) exampleData"
  "freshCalls (\<lambda>s. s) (drop 1 exampleCalls) exampleData" "freshCalls (\<lambda>s. s) (drop 0 exampleCalls) exampleData"
proof -
  show 1: "freshCalls (\<lambda>s. s) (drop 5 exampleCalls) exampleData" unfolding example_drop by (simp add: freshCall_def)
  then show 2: "freshCalls (\<lambda>s. s) (drop 4 exampleCalls) exampleData"
    unfolding example_drop(2) using example_fresh(1) by simp
  then show 3: "freshCalls (\<lambda>s. s) (drop 3 exampleCalls) exampleData"
    unfolding example_drop(3) using example_fresh(2) by simp
  then show 4: "freshCalls (\<lambda>s. s) (drop 2 exampleCalls) exampleData"
    unfolding example_drop(4) by (simp add: freshCall_def)
  then show 5: "freshCalls (\<lambda>s. s) (drop 1 exampleCalls) exampleData"
    unfolding example_drop(5) by (simp add: freshCall_def)
  then show "freshCalls (\<lambda>s. s) (drop 0 exampleCalls) exampleData"
    unfolding example_drop(6) by (simp add: freshCall_def)
qed

lemma example_history:
  "async_history (\<lambda>s. s) (fst (exampleAt 1)) (snd (exampleAt 1))" "async_history (\<lambda>s. s) (fst (exampleAt 4)) (snd (exampleAt 4))"
  "async_history (\<lambda>s. s) (fst (exampleAt 6)) (snd (exampleAt 6))"
  using example_freshCalls by (intro historyOf_history; simp add: exampleData_def)+

section \<open>The properties\<close>

text \<open>C5: The handle service refines its state machine. In every history, a call that gets fresh ids for new waves
  moves every row along a path of moves of the machine, gives rows places in a wave and appends new rows, and does
  nothing else to the table; only the end of a source turn may mark rows finalized or release rows its turn had taken,
  and no call adopts rows.\<close>

theorem service_refines_machine:
  assumes "async_history sha es d" "freshCall c d" "asyncCall sha c now d = (r, d')"
  shows "handles_move (if endsSourceTurn c then {Finalize_move, Release_move} else {}) d d'"
  using history_call_moves [OF assms] by (simp add: allowedMoves_def)

lemma service_refines_machine_witness:
  "handles_move (if endsSourceTurn (snd (exampleCalls ! 4)) then {Finalize_move, Release_move} else {})
     (snd (exampleAt 1)) (snd (asyncCall (\<lambda>s. s) (snd (exampleCalls ! 4)) 2 (snd (exampleAt 1))))"
  by (rule service_refines_machine [OF example_history(1) _ prod.collapse [symmetric]])
    (use example_fresh(1) in \<open>simp add: exampleCalls_def\<close>)

text \<open>C23: Who tells the user about a job. Over a call the owner of a row's narration stays, or the row had none, or the
  call ends the source turn and the row goes from the turn to a follow-up; a row presented inline in its turn and
  terminal stays presented, and a follow-up keeps what it has.\<close>

theorem narration_owner_settles:
  assumes "async_history sha es d" "freshCall c d" "asyncCall sha c now d = (r, d')"
    and "h \<in> set (handleTable d)" "h' \<in> set (handleTable d')" "ah_id h' = ah_id h"
  shows "(ah_narrationOwner h' = ah_narrationOwner h \<or> ah_narrationOwner h = None \<or>
      (endsSourceTurn c \<and> ah_narrationOwner h = Some Current_turn \<and> ah_narrationOwner h' = Some Continuation)) \<and>
     (presented (handleView h) \<longrightarrow> presented (handleView h'))"
proof
  note moves = handles_move_row(2) [OF history_call_moves [OF assms(1,2,3)] history_distinctIds [OF assms(1)] assms(4,5,6)]
  have "ownerEdge (endsSourceTurn c) (handleView h) (handleView h')"
    using ownerEdge_moves [OF moves] history_rows(2) [OF assms(1,4)] by (simp add: current_def)
  then show "ah_narrationOwner h' = ah_narrationOwner h \<or> ah_narrationOwner h = None \<or>
      (endsSourceTurn c \<and> ah_narrationOwner h = Some Current_turn \<and> ah_narrationOwner h' = Some Continuation)"
    by (simp add: ownerEdge_def view_sel)
  show "presented (handleView h) \<longrightarrow> presented (handleView h')"
    using movedOn_moves [OF moves] by (simp add: movedOn_def)
qed

lemma narration_owner_settles_witness:
  "(ah_narrationOwner (handleTable (snd (exampleAt 2)) ! 0) = ah_narrationOwner (handleTable (snd (exampleAt 1)) ! 0) \<or>
    ah_narrationOwner (handleTable (snd (exampleAt 1)) ! 0) = None \<or>
    (endsSourceTurn (Finalize_call 0 exampleUuid exampleEnd) \<and>
     ah_narrationOwner (handleTable (snd (exampleAt 1)) ! 0) = Some Current_turn \<and>
     ah_narrationOwner (handleTable (snd (exampleAt 2)) ! 0) = Some Continuation))"
proof -
  have call: "asyncCall (\<lambda>s. s) (Finalize_call 0 exampleUuid exampleEnd) 2 (snd (exampleAt 1)) =
      (fst (asyncCall (\<lambda>s. s) (Finalize_call 0 exampleUuid exampleEnd) 2 (snd (exampleAt 1))), snd (exampleAt 2))"
    by (simp add: example_drop case_prod_unfold Let_def)
  have size: "0 < length (handleTable (snd (exampleAt 1)))" "0 < length (handleTable (snd (exampleAt 2)))" by code_simp+
  have ids: "ah_id (handleTable (snd (exampleAt 2)) ! 0) = ah_id (handleTable (snd (exampleAt 1)) ! 0)" by code_simp
  show ?thesis
    by (rule conjunct1 [OF narration_owner_settles
      [OF example_history(1) example_fresh(1) call nth_mem [OF size(1)] nth_mem [OF size(2)] ids]])
qed



text \<open>C7: Deliveries happen at most once. In every history at most one answer lets a caller deliver a given part of a
  handle's result: one artifacts attempt, and one external attempt or failure notice.\<close>

theorem delivery_granted_once:
  assumes "async_history sha es d"
  shows "countAnswers (deliveryGranted i part) es \<le> 1"
  using granted_count [OF assms, of i part] by auto

lemma delivery_granted_once_witness:
  "countAnswers (deliveryGranted ''h'' Artifacts) (fst (exampleAt 6)) = 1 \<and>
   countAnswers (deliveryGranted ''h'' Artifacts) (fst (exampleAt 6)) \<le> 1"
proof
  show "countAnswers (deliveryGranted ''h'' Artifacts) (fst (exampleAt 6)) = 1" by code_simp
qed (rule delivery_granted_once [OF example_history(3)])

text \<open>C24: Follow-ups of a wave are numbered without gaps. In every history the rows of a wave of a chat have the
  ordinals 1 to n, each once, every one of them shows the total n, and all are about the same message of the user.\<close>

theorem catch_up_waves_numbered:
  assumes "async_history sha es d"
  shows "mset (map ah_catchUpOrdinal (waveMembers c w d)) = mset (map Some [1..int (length (waveMembers c w d))]) \<and>
    (\<forall>h \<in> set (waveMembers c w d). ah_catchUpWaveTotal h = Some (int (length (waveMembers c w d))) \<and>
       (\<forall>x \<in> set (waveMembers c w d). ah_sourceUserMessageId h = ah_sourceUserMessageId x))"
proof -
  have wave: "numbered (waveMembers c w d)" "oneMessage (waveMembers c w d)"
    using asyncOk_history [OF assms] by (simp_all add: asyncOk_def wavesOk_def)
  then show ?thesis unfolding numbered_def ordinals_def oneMessage_def by blast
qed

lemma catch_up_waves_numbered_witness:
  "length (waveMembers ''c'' ''wave'' (snd (exampleAt 6))) = 1 \<and>
   mset (map ah_catchUpOrdinal (waveMembers ''c'' ''wave'' (snd (exampleAt 6)))) =
     mset (map Some [1..int (length (waveMembers ''c'' ''wave'' (snd (exampleAt 6))))])"
proof
  show "length (waveMembers ''c'' ''wave'' (snd (exampleAt 6))) = 1" by code_simp
qed (rule conjunct1 [OF catch_up_waves_numbered [OF example_history(3)]])

text \<open>C25: A finished source turn leaves no job without a narrator. After a successful end of a turn in any history every
  handle of the turn is marked finalized and has an owner; when the turn failed or was stopped the owner is the
  follow-up, unless the job had been presented inline in the turn and is terminal.\<close>

theorem ended_turn_leaves_no_orphan:
  assumes "async_history sha es d" "inj uuid" "\<forall>j. freshWave (uuid j) d"
    and "finalizeSourceTurn sha pick uuid i now d = (Inr r, d')" "h \<in> set (handleTable d')" "ofSourceTurn i h"
  shows "ah_sourceFinalizedAt h \<noteq> None \<and> ah_narrationOwner h \<noteq> None \<and>
     (fi_outcome i \<noteq> Turn_persisted \<longrightarrow> ah_narrationOwner h = Some Continuation \<or> presented (handleView h))"
proof -
  obtain g where g: "g \<in> set (handleTable d)" and row: "endedRow i g h"
    using finalizeSourceTurn_rows [OF history_distinctIds [OF assms(1)] assms(2,3,4,5)] by blast
  have moves: "view_moves {Finalize_move, Release_move} (handleView g) (handleView h)" using row by (simp add: endedRow_def)
  have turn: "ofSourceTurn i g" using row assms(6) by (simp add: endedRow_def ofSourceTurn_def fixedCols_def)
  note moved = movedOn_moves [OF moves, unfolded movedOn_def view_sel]
  have legacy: "ah_narrationOwner g \<noteq> Some Legacy"
    using history_rows(2) [OF assms(1) g] by (simp add: current_def view_sel)
  have finalized: "ah_sourceFinalizedAt h \<noteq> None" using row turn by (simp add: endedRow_def)
  show ?thesis
  proof (cases "ah_narrationOwner g")
    case None
    then show ?thesis using row turn finalized by (simp add: endedRow_def)
  next
    case (Some w)
    then have owned: "ah_narrationOwner h \<noteq> None" using moved by simp
    show ?thesis
    proof (cases w)
      case Current_turn
      then show ?thesis
        using Some row turn finalized owned moved unfolding endedRow_def by metis
    next
      case Continuation
      then show ?thesis using Some finalized owned moved by simp
    next
      case Legacy
      then show ?thesis using Some legacy by simp
    qed
  qed
qed

lemma ended_turn_leaves_no_orphan_witness:
  "ah_sourceFinalizedAt (handleTable (snd (exampleAt 2)) ! 0) \<noteq> None \<and> ah_narrationOwner (handleTable (snd (exampleAt 2)) ! 0) \<noteq> None \<and>
     (ah_narrationOwner (handleTable (snd (exampleAt 2)) ! 0) = Some Continuation \<or>
        presented (handleView (handleTable (snd (exampleAt 2)) ! 0)))"
proof -
  let ?d = "snd (exampleAt 1)" and ?e = "snd (exampleAt 2)"
  have "fst (finalizeSourceTurn (\<lambda>s. s) 0 exampleUuid exampleEnd 2 ?d) = Inr (fr_row)"
    if "fr_row = \<lparr>fr_finalized = 1, fr_autoSubscribed = 1, fr_currentTurnPreserved = 0, fr_currentTurnReleased = 0\<rparr>" for fr_row
    unfolding that by code_simp
  then have call: "finalizeSourceTurn (\<lambda>s. s) 0 exampleUuid exampleEnd 2 ?d =
      (Inr \<lparr>fr_finalized = 1, fr_autoSubscribed = 1, fr_currentTurnPreserved = 0, fr_currentTurnReleased = 0\<rparr>, ?e)"
    by (simp add: example_drop(2) asyncCall_def answering_def case_prod_unfold Let_def prod_eq_iff)
  have size: "0 < length (handleTable ?e)" by code_simp
  have turn: "ofSourceTurn exampleEnd (handleTable ?e ! 0)" by code_simp
  have fresh: "inj exampleUuid" "\<forall>j. freshWave (exampleUuid j) ?d"
    using example_waves(1) by (simp_all add: exampleUuid_inj freshWave_none)
  have stopped: "fi_outcome exampleEnd \<noteq> Turn_persisted" by (simp add: exampleEnd_def)
  from ended_turn_leaves_no_orphan [OF example_history(1) fresh call nth_mem [OF size] turn] stopped
  show ?thesis by blast
qed

text \<open>C36: A late completion takes a handle from the worker that runs it. When the end of the job is recorded while a
  follow-up holds the row, the row is ready and can be claimed at once, its old token still in it, and from then on the
  worker's own calls with that token are answered as lost.\<close>

theorem late_completion_reopens_handle:
  assumes "async_history sha es d" "lockCanonical k j d = Some row" "ah_state row \<in> {H_claimed, H_dispatched}"
    and "recordCanonicalCompletion sha pick uuid k j st snapshot now d = (r, d')" "freshWave uuid d" "ah_claimToken row = Some t"
  shows "r = Inr (Skip_legacy_frame, H_ready) \<and>
    (\<exists>h \<in> set (handleTable d'). ah_id h = ah_id row \<and> claimable now (ah_chatId row) h \<and> ah_claimToken h = Some t) \<and>
    fst (markDispatched (ah_id row) t receipt expires now d') = Inr False \<and>
    fst (completeClaim (ah_id row) t now d') = Inr False"
proof -
  note reopened = completion_reopens [OF assms(1,2,3,4)]
  then obtain h where h: "h \<in> set (handleTable d')" "ah_id h = ah_id row" "claimable now (ah_chatId row) h" "ah_claimToken h = Some t"
    using assms(6) by auto
  have call: "asyncCall sha (Completion_call pick uuid k j st snapshot) now d = (Other_answer, d')"
    using assms(4) by (simp add: asyncCall_def answering_def split: sum.split)
  have "freshCall (Completion_call pick uuid k j st snapshot) d"
    using assms(5) by (simp add: freshCall_def)
  from handles_move_distinctIds [OF history_call_moves [OF assms(1) this call] history_distinctIds [OF assms(1)]]
  have "distinctIds d'" .
  then have lost: "\<not> holdsClaim (ah_id row) t {H_claimed} x" "\<not> holdsClaim (ah_id row) t {H_claimed, H_dispatched} x"
    if "x \<in> set (handleTable d')" for x
    using rows_by_id [OF _ that h(1)] h(2,3) by (auto simp: holdsClaim_def claimable_def)
  have "fst (markDispatched (ah_id row) t receipt expires now d') = Inr False" "fst (completeClaim (ah_id row) t now d') = Inr False"
    unfolding markDispatched_def completeClaim_def using lost by (intro updateClaim_none; blast)+
  with reopened h show ?thesis by blast
qed

lemma late_completion_reopens_handle_witness:
  "fst (recordCanonicalCompletion (\<lambda>s. s) 0 ''other'' Media_job ''j'' T_completed JNull 5 (snd (exampleAt 4))) =
     Inr (Skip_legacy_frame, H_ready) \<and>
   fst (completeClaim ''h'' ''k'' 5 (snd (recordCanonicalCompletion (\<lambda>s. s) 0 ''other'' Media_job ''j'' T_completed JNull 5
     (snd (exampleAt 4))))) = Inr False"
proof -
  let ?d = "snd (exampleAt 4)"
  let ?row = "handleTable ?d ! 0"
  have row: "lockCanonical Media_job ''j'' ?d = Some ?row" by code_simp
  have state: "ah_state ?row \<in> {H_claimed, H_dispatched}" by code_simp
  have token: "ah_claimToken ?row = Some ''k''" by code_simp
  have ident: "ah_id ?row = ''h''" by code_simp
  have waves: "map ah_catchUpWaveId (handleTable ?d) = [Some ''wave'']" by code_simp
  have fresh: "freshWave ''other'' ?d" unfolding freshWave_set waves by simp
  from late_completion_reopens_handle [OF example_history(2) row state prod.collapse [symmetric] fresh token] ident
  show ?thesis by simp
qed

text \<open>A job of the sandbox starts at depth 0, also when a follow-up turn started it: registration gives the row no depth.\<close>

lemma sandbox_depth_restarts:
  assumes "registerSandboxJob hid i now d = (r, d')" "h \<in> set (handleTable d')" "h \<notin> set (handleTable d)"
  shows "ah_kind h = Sandbox_job \<and> ah_sourceClientTurnId h = Some (ri_sourceClientTurnId i) \<and> ah_continuationDepth h = 0"
  using assms
  by (auto simp: registerSandboxJob_def Let_def insertHandle_def sandboxHandle_def newHandle_def
      split: option.splits if_splits sum.splits)

end
