(* ===== verification/ChatWake.thy ===== *)
theory ChatWake
  imports SchedulerLease RuntimeStore AsyncJobHandles
    "HOL-Library.Product_Lexorder" "HOL-Library.List_Lexorder" "HOL-Library.Char_ord"
begin

text \<open>
  When a follow-up of a chat may run (\<open>chat-wake-coordinator.service.ts\<close>): not while a turn of the user is
  open, not within two seconds of its end, one at a time per chat, oldest ready handle first, and the chats that
  were looked at longest ago first.

  The service works on tables of other components: the scheduler leases, the handles of asynchronous jobs, the
  runtime's turn receipts, and on chats and web turn attempts. \<open>wk_others\<close> says what happens between
  two statements: turns of users start and end (with the same statements as here), time passes, other services write
  their tables; chats are neither created nor deleted. \<open>wk_log\<close> lists the starts and ends, the latest first.
  \<open>new Date()\<close> and \<open>NOW()\<close> are the same clock, in milliseconds; a token is \<open>we_uuid n\<close>, where \<open>n\<close> counts
  database calls. Tests that a Prisma delegate has a method, which the client's type makes true, are left out.
\<close>

section \<open>State and interference\<close>

definition CATCHUP_LOCK_PREFIX :: string where
  "CATCHUP_LOCK_PREFIX = ''async-catchup:''"

definition CATCHUP_IDLE_PAUSE_MS :: int where
  "CATCHUP_IDLE_PAUSE_MS = 2000"

definition CATCHUP_CANDIDATE_PAGE_SIZE :: nat where
  "CATCHUP_CANDIDATE_PAGE_SIZE = 32"

definition CATCHUP_CANDIDATE_SCAN_CAP :: nat where
  "CATCHUP_CANDIDATE_SCAN_CAP = 256"

record catch_up_claim =
  cu_id :: string
  cu_claimToken :: string
  cu_chatId :: string
  cu_lockToken :: string

datatype catch_up_gate = Gate_allowed | Gate_user_turn_active | Gate_idle_pause

record catch_up_candidate =
  cc_chatId :: string
  cc_assistantId :: string
  cc_userId :: string
  cc_surfaceThreadKey :: "string option"

record scanned_candidate = catch_up_candidate +
  sc_readyAt :: "int option"
  sc_scanAt :: "int option"
  sc_headId :: string

record web_attempt =
  wa_assistantId :: string
  wa_userId :: string
  wa_surfaceThreadKey :: string
  wa_surfaceClient :: "string option"
  wa_status :: string
  wa_chatId :: "string option"

record wake_data =
  wd_leases :: lease_table
  wd_async :: async_data
  wd_attempts :: "web_attempt list"
  wd_receipts :: "turn_receipt list"

datatype user_mark = Started string | Ended string

datatype other_event =
    Turn_starts string
  | Turn_ends string bool
  | Time_passes nat
  | Others_write "wake_data \<Rightarrow> wake_data"

record wake_state =
  wk_db :: "wake_data database"
  wk_others :: "nat \<Rightarrow> other_event list"
  wk_log :: "(int \<times> user_mark) list"

record wake_env =
  we_holder :: string
  we_uuid :: "nat \<Rightarrow> string"
  we_locked :: "nat \<Rightarrow> string \<Rightarrow> bool"

text \<open>\<open>assistantChat.update\<close>: the row must exist.\<close>

definition chatUpdate :: "string \<Rightarrow> (chat_row \<Rightarrow> chat_row) \<Rightarrow> (wake_data, unit) oper" where
  "chatUpdate chatId f w =
     (if chatRow chatId (wd_async w) = None then (Inl recordNotFound, w)
      else (Inr (), w\<lparr>wd_async := (wd_async w)\<lparr>chatTable :=
             map (\<lambda>c. if ch_id c = chatId then f c else c) (chatTable (wd_async w))\<rparr>\<rparr>))"

definition startStamp :: "string \<Rightarrow> int \<Rightarrow> (wake_data, unit) oper" where
  "startStamp chatId stamp = chatUpdate chatId (\<lambda>c. c\<lparr>ch_lastUserTurnStartedAt := Some stamp\<rparr>)"

definition terminalStamp :: "string \<Rightarrow> int \<Rightarrow> (wake_data, unit) oper" where
  "terminalStamp chatId stamp = chatUpdate chatId (\<lambda>c. c\<lparr>ch_lastUserTurnTerminalAt := Some stamp\<rparr>)"

text \<open>
  What others do. A turn starts when its stamp is written; the stamp of an end may fail to be written, as the code
  swallows that error.
\<close>

fun other_step :: "other_event \<Rightarrow> wake_state \<Rightarrow> wake_state" where
  "other_step (Turn_starts c) s =
     (let db = wk_db s in
      case startStamp c (dbNow db) (dbData db) of
        (Inl _, _) \<Rightarrow> s
      | (Inr _, w) \<Rightarrow> s\<lparr>wk_db := db\<lparr>dbData := w\<rparr>, wk_log := (dbNow db, Started c) # wk_log s\<rparr>)"
| "other_step (Turn_ends c written) s =
     (let db = wk_db s in
      s\<lparr>wk_db := db\<lparr>dbData := (if written then snd (terminalStamp c (dbNow db) (dbData db)) else dbData db)\<rparr>,
        wk_log := (dbNow db, Ended c) # wk_log s\<rparr>)"
| "other_step (Time_passes n) s = s\<lparr>wk_db := (wk_db s)\<lparr>dbNow := dbNow (wk_db s) + int n\<rparr>\<rparr>"
| "other_step (Others_write f) s =
     (let db = wk_db s; w = f (dbData db)
      in s\<lparr>wk_db := db\<lparr>dbData := w\<lparr>wd_async := (wd_async w)\<lparr>chatTable := chatTable (wd_async (dbData db))\<rparr>\<rparr>\<rparr>\<rparr>)"

definition othersRun :: "wake_state \<Rightarrow> wake_state" where
  "othersRun s = fold other_step (wk_others s (dbCount (wk_db s))) s"

text \<open>A statement or transaction of this service, after what the others did since the last one.\<close>

definition stmt :: "(int \<Rightarrow> (wake_data, 'a) oper) \<Rightarrow> (wake_state, 'a) oper" where
  "stmt f s = (let s1 = othersRun s; (r, db) = tx f (wk_db s1) in (r, s1\<lparr>wk_db := db\<rparr>))"

text \<open>A call of the lease service on its table of the same database; it gets the count for its token.\<close>

definition leaseCall :: "(nat \<Rightarrow> (lease_table database, 'a) oper) \<Rightarrow> (wake_state, 'a) oper" where
  "leaseCall m s =
     (let s1 = othersRun s; db = wk_db s1;
          (r, ldb) = m (dbCount db) \<lparr>dbNow = dbNow db, dbData = wd_leases (dbData db), dbCount = dbCount db, dbFault = dbFault db\<rparr>
      in (r, s1\<lparr>wk_db := db\<lparr>dbData := (dbData db)\<lparr>wd_leases := dbData ldb\<rparr>, dbCount := dbCount ldb\<rparr>\<rparr>))"

section \<open>Turns of the user\<close>

definition nowOfCall :: "wake_state \<Rightarrow> int" where
  "nowOfCall s = dbNow (wk_db s)"

definition catchUpLockKey :: "string \<Rightarrow> string" where
  "catchUpLockKey chatId = CATCHUP_LOCK_PREFIX @ chatId"

definition admitUserTurn :: "string \<Rightarrow> int \<Rightarrow> (wake_state, unit) oper" where
  "admitUserTurn chatId stamp =
     (if chatId = [] then throwS (PlainError ''USER_TURN admission requires assistant_chats persistence.'')
      else stmt (\<lambda>_. startStamp chatId stamp))"

definition abandonUserTurnAdmission :: "string \<Rightarrow> int \<Rightarrow> (wake_state, unit) oper" where
  "abandonUserTurnAdmission chatId stamp =
     (if chatId = [] then throwS (PlainError ''USER_TURN admission close requires assistant_chats persistence.'')
      else stmt (\<lambda>_. terminalStamp chatId stamp))"

definition recordUserTurnTerminal :: "string \<Rightarrow> int \<Rightarrow> (wake_state, unit) oper" where
  "recordUserTurnTerminal chatId stamp =
     (if chatId = [] then returnS () else catchS (stmt (\<lambda>_. terminalStamp chatId stamp)) (\<lambda>_. returnS ()))"

section \<open>The gate\<close>

definition turnOpen :: "chat_row \<Rightarrow> bool" where
  "turnOpen c =
     (case ch_lastUserTurnStartedAt c of
        None \<Rightarrow> False
      | Some startedAt \<Rightarrow> (case ch_lastUserTurnTerminalAt c of None \<Rightarrow> True | Some terminalAt \<Rightarrow> startedAt > terminalAt))"

definition isDurableUserTurnOpen :: "string \<Rightarrow> (wake_state, bool) oper" where
  "isDurableUserTurnOpen chatId = stmt (\<lambda>_ w.
     (Inr (case chatRow chatId (wd_async w) of None \<Rightarrow> False | Some c \<Rightarrow> turnOpen c), w))"

definition isWebUserTurnActive :: "catch_up_candidate \<Rightarrow> (wake_state, bool) oper" where
  "isWebUserTurnActive i = stmt (\<lambda>_ w.
     (Inr (\<exists>a \<in> set (wd_attempts w). wa_assistantId a = cc_assistantId i \<and> wa_userId a = cc_userId i \<and>
        wa_status a \<in> {''accepted'', ''running''} \<and> wa_surfaceClient a \<noteq> Some ''async_continuation'' \<and>
        (wa_chatId a = Some (cc_chatId i) \<or>
         (case cc_surfaceThreadKey i of None \<Rightarrow> False | Some k \<Rightarrow> k \<noteq> [] \<and> wa_surfaceThreadKey a = k))), w))"

definition isTelegramUserTurnActive :: "catch_up_candidate \<Rightarrow> (wake_state, bool) oper" where
  "isTelegramUserTurnActive i =
     (case cc_surfaceThreadKey i of
        None \<Rightarrow> returnS False
      | Some k \<Rightarrow>
          if k = [] then returnS False
          else stmt (\<lambda>_ w. (Inr (\<exists>r \<in> set (wd_receipts w). tr_assistantId r = cc_assistantId i \<and>
                 tr_channel r = ''telegram'' \<and> tr_externalThreadKey r = k \<and> tr_status r = Rs_accepted \<and>
                 take 11 (tr_idempotencyKey r) \<noteq> ''async-cont:''), w)))"

definition isUserTurnActive :: "catch_up_candidate \<Rightarrow> (wake_state, bool) oper" where
  "isUserTurnActive i =
     bindS (isDurableUserTurnOpen (cc_chatId i)) (\<lambda>isOpen.
       if isOpen then returnS True
       else bindS (isWebUserTurnActive i) (\<lambda>web. if web then returnS True else isTelegramUserTurnActive i))"

definition isIdlePauseActive :: "string \<Rightarrow> int \<Rightarrow> (wake_state, bool) oper" where
  "isIdlePauseActive chatId now = stmt (\<lambda>_ w.
     (Inr (case chatRow chatId (wd_async w) of
             None \<Rightarrow> False
           | Some c \<Rightarrow> (case ch_lastUserTurnTerminalAt c of
                None \<Rightarrow> False | Some terminalAt \<Rightarrow> now < terminalAt + CATCHUP_IDLE_PAUSE_MS)), w))"

definition evaluateCatchUpGate :: "catch_up_candidate \<Rightarrow> (wake_state, catch_up_gate) oper" where
  "evaluateCatchUpGate i =
     bindS (isUserTurnActive i) (\<lambda>active.
       if active then returnS Gate_user_turn_active
       else bindS (\<lambda>s. isIdlePauseActive (cc_chatId i) (nowOfCall s) s) (\<lambda>idle.
              returnS (if idle then Gate_idle_pause else Gate_allowed)))"

definition casHolds :: "int \<Rightarrow> chat_row \<Rightarrow> bool" where
  "casHolds now c \<longleftrightarrow>
     (case ch_lastUserTurnStartedAt c of
        None \<Rightarrow> True
      | Some startedAt \<Rightarrow> (case ch_lastUserTurnTerminalAt c of None \<Rightarrow> False | Some terminalAt \<Rightarrow> startedAt \<le> terminalAt)) \<and>
     (case ch_lastUserTurnTerminalAt c of None \<Rightarrow> True | Some terminalAt \<Rightarrow> terminalAt \<le> now - CATCHUP_IDLE_PAUSE_MS)"

definition fenceUpdate :: "string \<Rightarrow> int \<Rightarrow> (wake_data, bool) oper" where
  "fenceUpdate chatId now w =
     (case chatRow chatId (wd_async w) of
        None \<Rightarrow> (Inr False, w)
      | Some c \<Rightarrow>
          if casHolds now c
          then (Inr True, snd (chatUpdate chatId (\<lambda>c. c\<lparr>ch_catchUpAdmissionFence := ch_catchUpAdmissionFence c + 1\<rparr>) w))
          else (Inr False, w))"

definition admitCatchUpAtBoundary :: "catch_up_candidate \<Rightarrow> (wake_state, catch_up_gate) oper" where
  "admitCatchUpAtBoundary i =
     bindS (evaluateCatchUpGate i) (\<lambda>gate.
       if gate \<noteq> Gate_allowed then returnS gate
       else bindS (stmt (fenceUpdate (cc_chatId i))) (\<lambda>updated.
              returnS (if updated then Gate_allowed else Gate_user_turn_active)))"

section \<open>Scanning chats page by page\<close>

text \<open>
  The order of the scan: chats never scanned first, then those scanned longest ago; of these the longest ready one
  first, without an instant last; then the ids.
\<close>

datatype scan_key = Scan_key (sk_scanAt: "int option") (sk_readyAt: "int option") (sk_chatId: string) (sk_headId: string)

definition scanTuple :: "scan_key \<Rightarrow> (bool \<times> int) \<times> (bool \<times> int) \<times> string \<times> string" where
  "scanTuple k =
     ((case sk_scanAt k of None \<Rightarrow> (False, 0) | Some t \<Rightarrow> (True, t)),
      (case sk_readyAt k of None \<Rightarrow> (True, 0) | Some t \<Rightarrow> (False, t)), sk_chatId k, sk_headId k)"

lemma scanTuple_inject [simp]: "scanTuple k = scanTuple l \<longleftrightarrow> k = l"
  by (cases k; cases l) (auto simp: scanTuple_def split: option.splits)

instantiation scan_key :: linorder
begin

definition less_eq_scan_key :: "scan_key \<Rightarrow> scan_key \<Rightarrow> bool" where
  "less_eq_scan_key k l \<longleftrightarrow> scanTuple k \<le> scanTuple l"

definition less_scan_key :: "scan_key \<Rightarrow> scan_key \<Rightarrow> bool" where
  "less_scan_key k l \<longleftrightarrow> scanTuple k < scanTuple l"

instance
  by standard (auto simp: less_eq_scan_key_def less_scan_key_def less_le_not_le intro: antisym)

end

definition scanKey :: "scanned_candidate \<Rightarrow> scan_key" where
  "scanKey x = Scan_key (sc_scanAt x) (sc_readyAt x) (cc_chatId x) (sc_headId x)"

definition scannedOf :: "chat_row \<Rightarrow> async_handle \<Rightarrow> scanned_candidate" where
  "scannedOf c h =
     \<lparr>cc_chatId = ah_chatId h, cc_assistantId = ah_assistantId h, cc_userId = ah_userId h,
      cc_surfaceThreadKey = ah_threadKey h, sc_readyAt = ah_readyAt h, sc_scanAt = ch_catchUpLastScannedAt c,
      sc_headId = ah_id h\<rparr>"

text \<open>\<open>DISTINCT ON (chat_id)\<close>: per chat the first claimable handle in the order of the queue.\<close>

definition eligibleChats :: "int \<Rightarrow> wake_data \<Rightarrow> scanned_candidate list" where
  "eligibleChats now w =
     List.map_filter (\<lambda>c. map_option (scannedOf c) (firstQueued (filter (claimable now (ch_id c)) (handleTable (wd_async w)))))
       (chatTable (wd_async w))"

definition candidatePage :: "scan_key option \<Rightarrow> nat \<Rightarrow> int \<Rightarrow> (wake_data, scanned_candidate list) oper" where
  "candidatePage cursor pageSize now w =
     (Inr (take pageSize (sort_key scanKey
        (filter (\<lambda>x. case cursor of None \<Rightarrow> True | Some k \<Rightarrow> k < scanKey x) (eligibleChats now w)))), w)"

definition addCandidates :: "scanned_candidate list \<Rightarrow> catch_up_candidate list \<Rightarrow> catch_up_candidate list" where
  "addCandidates page candidates =
     fold (\<lambda>x cs. if cc_chatId x \<in> cc_chatId ` set cs then cs else cs @ [catch_up_candidate.truncate x]) page candidates"

function (sequential) scanPages ::
  "nat \<Rightarrow> nat \<Rightarrow> scan_key option \<Rightarrow> catch_up_candidate list \<Rightarrow> (wake_state, catch_up_candidate list) oper" where
  "scanPages scanCap scanned cursor candidates =
     (if scanned < scanCap
      then
        let pageSize = min CATCHUP_CANDIDATE_PAGE_SIZE (scanCap - scanned)
        in bindS (stmt (candidatePage cursor pageSize)) (\<lambda>page.
             if page = [] then returnS candidates
             else
               let candidates' = addCandidates page candidates
               in if length page < pageSize then returnS candidates'
                  else scanPages scanCap (scanned + length page) (Some (scanKey (last page))) candidates')
      else returnS candidates)"
  by pat_completeness auto
termination
  by (relation "measure (\<lambda>(scanCap, scanned, _). scanCap - scanned)") (auto simp: length_greater_0_conv [symmetric] simp del: length_greater_0_conv)

declare scanPages.simps [simp del]

definition scanCapOf :: "int \<Rightarrow> nat" where
  "scanCapOf limit = max CATCHUP_CANDIDATE_PAGE_SIZE (min CATCHUP_CANDIDATE_SCAN_CAP (nat (max 1 limit) * 8))"

definition listCatchUpEligibleChats :: "int \<Rightarrow> (wake_state, catch_up_candidate list) oper" where
  "listCatchUpEligibleChats limit = scanPages (scanCapOf limit) 0 None []"

section \<open>Claiming\<close>

definition recordCatchUpScan :: "string \<Rightarrow> int \<Rightarrow> (wake_state, unit) oper" where
  "recordCatchUpScan chatId stamp = stmt (\<lambda>_. chatUpdate chatId (\<lambda>c. c\<lparr>ch_catchUpLastScannedAt := Some stamp\<rparr>))"

definition acquireCatchUpLock :: "wake_env \<Rightarrow> string \<Rightarrow> (wake_state, string option) oper" where
  "acquireCatchUpLock env chatId =
     leaseCall (\<lambda>n. acquireOrCreate (we_holder env) (we_uuid env n) (catchUpLockKey chatId) (Some LEASE_TTL_MS))"

definition heartbeatCatchUp :: "string \<Rightarrow> string \<Rightarrow> (wake_state, bool) oper" where
  "heartbeatCatchUp chatId lockToken = leaseCall (\<lambda>_. heartbeatKey (catchUpLockKey chatId) lockToken (Some LEASE_TTL_MS))"

definition releaseCatchUp :: "string \<Rightarrow> string \<Rightarrow> (wake_state, unit) oper" where
  "releaseCatchUp chatId lockToken = leaseCall (\<lambda>_. releaseKey (catchUpLockKey chatId) lockToken)"

definition claimHead :: "wake_env \<Rightarrow> string \<Rightarrow> int \<Rightarrow> (wake_state, (string \<times> string) option) oper" where
  "claimHead env chatId claimTtlMs s =
     (let n = dbCount (wk_db s) in
      stmt (\<lambda>now w. case claimReadyHeadForChat (we_locked env n) (we_uuid env n) chatId claimTtlMs now (wd_async w) of
              (r, d) \<Rightarrow> (r, w\<lparr>wd_async := d\<rparr>)) s)"

text \<open>The body of the loop; \<open>None\<close> is its \<open>continue\<close>.\<close>

definition claimCandidate :: "wake_env \<Rightarrow> int \<Rightarrow> catch_up_candidate \<Rightarrow> (wake_state, catch_up_claim option) oper" where
  "claimCandidate env claimTtlMs candidate =
     bindS (\<lambda>s. recordCatchUpScan (cc_chatId candidate) (nowOfCall s) s) (\<lambda>_.
     bindS (evaluateCatchUpGate candidate) (\<lambda>preGate.
       if preGate \<noteq> Gate_allowed then returnS None
       else bindS (acquireCatchUpLock env (cc_chatId candidate)) (\<lambda>lock.
         case lock of
           None \<Rightarrow> returnS None
         | Some lockToken \<Rightarrow>
             bindS (evaluateCatchUpGate candidate) (\<lambda>postLockGate.
               if postLockGate \<noteq> Gate_allowed
               then bindS (releaseCatchUp (cc_chatId candidate) lockToken) (\<lambda>_. returnS None)
               else bindS (claimHead env (cc_chatId candidate) claimTtlMs) (\<lambda>head.
                 case head of
                   None \<Rightarrow> bindS (releaseCatchUp (cc_chatId candidate) lockToken) (\<lambda>_. returnS None)
                 | Some (i, token) \<Rightarrow> returnS (Some
                     \<lparr>cu_id = i, cu_claimToken = token, cu_chatId = cc_chatId candidate, cu_lockToken = lockToken\<rparr>))))))"

fun claimLoop ::
  "wake_env \<Rightarrow> nat \<Rightarrow> int \<Rightarrow> catch_up_candidate list \<Rightarrow> catch_up_claim list \<Rightarrow> (wake_state, catch_up_claim list) oper" where
  "claimLoop env limit claimTtlMs [] claimed = returnS claimed"
| "claimLoop env limit claimTtlMs (candidate # candidates) claimed =
     (if limit \<le> length claimed then returnS claimed
      else bindS (claimCandidate env claimTtlMs candidate) (\<lambda>claim.
             claimLoop env limit claimTtlMs candidates (case claim of None \<Rightarrow> claimed | Some c \<Rightarrow> claimed @ [c])))"

definition claimReadyCatchUps :: "wake_env \<Rightarrow> int \<Rightarrow> int \<Rightarrow> (wake_state, catch_up_claim list) oper" where
  "claimReadyCatchUps env limit claimTtlMs =
     bindS (listCatchUpEligibleChats limit) (\<lambda>candidates. claimLoop env (nat (max 1 limit)) claimTtlMs candidates [])"

end
