(* ===== verification/ChatWakeProperties.thy ===== *)
theory ChatWakeProperties
  imports ChatWake
begin

text \<open>
  What the chat wake coordinator promises: the pages of a scan are the head of one ordered list; a follow-up is
  admitted only after the user's turn ended and two seconds passed, whatever happens between the statements, unless turns of the
  user overlap; and a batch of claims ends with the lock and the handle of every claim in its hands and no other lock.
\<close>

section \<open>Statements\<close>

abbreviation wakeData :: "wake_state \<Rightarrow> wake_data" where
  "wakeData s \<equiv> dbData (wk_db s)"

abbreviation wakeNow :: "wake_state \<Rightarrow> int" where
  "wakeNow s \<equiv> dbNow (wk_db s)"

definition quiet :: "wake_state \<Rightarrow> bool" where
  "quiet s \<longleftrightarrow> reliable (wk_db s) \<and> (\<forall>n \<ge> dbCount (wk_db s). wk_others s n = [])"

lemma othersRun_quiet: "quiet s \<Longrightarrow> othersRun s = s"
  by (simp add: quiet_def othersRun_def)

text \<open>A query of an undisturbed service reads the data as they are.\<close>

lemma stmt_read:
  assumes "quiet s" "g (wakeNow s) (wakeData s) = v"
  shows "\<exists>t. stmt (\<lambda>now w. (Inr (g now w), w)) s = (Inr v, t) \<and> quiet t \<and> wakeData t = wakeData s \<and> wakeNow t = wakeNow s"
proof (intro exI conjI)
  let ?t = "s\<lparr>wk_db := (wk_db s)\<lparr>dbCount := Suc (dbCount (wk_db s)), dbData := wakeData s\<rparr>\<rparr>"
  show "stmt (\<lambda>now w. (Inr (g now w), w)) s = (Inr v, ?t)"
    using assms by (simp add: stmt_def othersRun_quiet quiet_def tx_reliable transactionS_def)
  show "quiet ?t" using assms(1) by (simp add: quiet_def reliable_def)
qed simp_all

section \<open>An example\<close>

definition wakeChat :: "string \<Rightarrow> int option \<Rightarrow> chat_row" where
  "wakeChat c scanAt = \<lparr>ch_id = c, ch_assistantId = ''a'', ch_workspaceId = ''w'', ch_userId = ''u'', ch_surface = Web,
     ch_surfaceThreadKey = ''k'', ch_lastUserTurnStartedAt = None, ch_lastUserTurnTerminalAt = None,
     ch_catchUpAdmissionFence = 0, ch_catchUpLastScannedAt = scanAt\<rparr>"

definition wakeHandle :: "string \<Rightarrow> string \<Rightarrow> async_handle" where
  "wakeHandle h c = (newHandle h h Media_job h ''a'' ''w'' ''u'' c Web 0)
     \<lparr>ah_state := H_ready, ah_threadKey := Some ''k'', ah_sourceFinalizedAt := Some 1, ah_readyAt := Some 2\<rparr>"

text \<open>Two chats with a ready handle, of which \<open>d\<close> was scanned before.\<close>

definition wakeExample :: "(nat \<Rightarrow> other_event list) \<Rightarrow> wake_state" where
  "wakeExample others =
     \<lparr>wk_db = \<lparr>dbNow = 10,
        dbData = \<lparr>wd_leases = (\<lambda>_. None),
          wd_async = \<lparr>handleTable = [wakeHandle ''g'' ''d'', wakeHandle ''h'' ''c''], sandboxJobs = [], mediaJobs = [], documentJobs = [],
             chatTable = [wakeChat ''d'' (Some 5), wakeChat ''c'' None], messageTable = [], attachmentsOf = [], sessionTable = []\<rparr>,
          wd_attempts = [], wd_receipts = []\<rparr>,
        dbCount = 0, dbFault = (\<lambda>_. NoFault)\<rparr>,
      wk_others = others, wk_log = []\<rparr>"

definition wakeEnv :: wake_env where
  "wakeEnv = \<lparr>we_holder = ''p'', we_uuid = (\<lambda>n. replicate (Suc n) CHR ''t''), we_locked = (\<lambda>_ _. False)\<rparr>"

definition wakeCandidate :: catch_up_candidate where
  "wakeCandidate = \<lparr>cc_chatId = ''c'', cc_assistantId = ''a'', cc_userId = ''u'', cc_surfaceThreadKey = Some ''k''\<rparr>"

lemma wakeExample_sel [simp]:
  "wk_others (wakeExample others) = others" "wk_log (wakeExample others) = []" "dbCount (wk_db (wakeExample others)) = 0"
  "dbFault (wk_db (wakeExample others)) = (\<lambda>_. NoFault)" "wakeNow (wakeExample others) = 10"
  "map ch_id (chatTable (wd_async (wakeData (wakeExample others)))) = [''d'', ''c'']"
  "map ah_id (handleTable (wd_async (wakeData (wakeExample others)))) = [''g'', ''h'']"
  "chatRow ''c'' (wd_async (wakeData (wakeExample others))) = Some (wakeChat ''c'' None)"
  "wd_attempts (wakeData (wakeExample others)) = []" "wd_receipts (wakeData (wakeExample others)) = []"
  by (simp_all add: wakeExample_def wakeChat_def wakeHandle_def newHandle_def chatRow_def)

lemma wakeExample_quiet: "quiet (wakeExample (\<lambda>_. []))"
  by (simp add: quiet_def reliable_def)

section \<open>Pages\<close>

lemma filter_after:
  fixes f :: "'a \<Rightarrow> 'b :: linorder"
  assumes "sorted (map f xs)" "distinct (map f xs)" "n < length xs"
  shows "filter (\<lambda>x. f (xs ! n) < f x) xs = drop (Suc n) xs"
proof -
  have strict: "f (xs ! i) < f (xs ! j)" if "i < j" "j < length xs" for i j
    using sorted_wrt_nth_less [of "(<)" "map f xs" i j] assms(1,2) that by (simp add: strict_sorted_iff)
  have before: "filter (\<lambda>x. f (xs ! n) < f x) (take (Suc n) xs) = []"
    unfolding filter_empty_conv
  proof
    fix x assume "x \<in> set (take (Suc n) xs)"
    then obtain i where i: "i < Suc n" "x = xs ! i" by (auto simp: in_set_conv_nth)
    then show "\<not> f (xs ! n) < f x"
      using strict [of i n] assms(3) by (cases "i = n") (auto dest: order_less_asym)
  qed
  have after: "filter (\<lambda>x. f (xs ! n) < f x) (drop (Suc n) xs) = drop (Suc n) xs"
    unfolding filter_id_conv
  proof
    fix x assume "x \<in> set (drop (Suc n) xs)"
    then obtain i where "i < length xs - Suc n" "x = xs ! (Suc n + i)" by (auto simp: in_set_conv_nth)
    then show "f (xs ! n) < f x" using strict [of n "Suc n + i"] by simp
  qed
  have "filter (\<lambda>x. f (xs ! n) < f x) xs =
      filter (\<lambda>x. f (xs ! n) < f x) (take (Suc n) xs) @ filter (\<lambda>x. f (xs ! n) < f x) (drop (Suc n) xs)"
    by (simp flip: filter_append)
  then show ?thesis by (simp add: before after)
qed

lemma eligible_chat_ids:
  assumes "distinct (map ch_id cs)"
  shows "distinct (map cc_chatId (List.map_filter (\<lambda>c. map_option (scannedOf c)
      (firstQueued (filter (claimable now (ch_id c)) hs))) cs)) \<and>
    cc_chatId ` set (List.map_filter (\<lambda>c. map_option (scannedOf c) (firstQueued (filter (claimable now (ch_id c)) hs))) cs)
      \<subseteq> ch_id ` set cs"
  using assms
proof (induction cs)
  case (Cons c cs)
  have "cc_chatId (scannedOf c h) = ch_id c" if "firstQueued (filter (claimable now (ch_id c)) hs) = Some h" for h
    using firstQueued_in [OF that] by (simp add: scannedOf_def claimable_def)
  with Cons show ?case by (cases "firstQueued (filter (claimable now (ch_id c)) hs)") (auto simp: List.map_filter_simps)
qed (simp add: List.map_filter_simps)

definition inScanOrder :: "int \<Rightarrow> wake_data \<Rightarrow> scanned_candidate list" where
  "inScanOrder now w = sort_key scanKey (eligibleChats now w)"

lemma inScanOrder_keys:
  assumes "distinct (map ch_id (chatTable (wd_async w)))"
  shows "sorted (map scanKey (inScanOrder now w))" "distinct (map scanKey (inScanOrder now w))"
    "distinct (map cc_chatId (inScanOrder now w))"
proof -
  show "sorted (map scanKey (inScanOrder now w))" by (simp add: inScanOrder_def)
  have ids: "distinct (map cc_chatId (eligibleChats now w))"
    using eligible_chat_ids [OF assms] by (simp add: eligibleChats_def)
  then show chats: "distinct (map cc_chatId (inScanOrder now w))"
    by (simp add: inScanOrder_def distinct_map inj_on_def)
  have "inj_on scanKey (set (inScanOrder now w))"
    using chats by (auto simp: distinct_map inj_on_def scanKey_def)
  then show "distinct (map scanKey (inScanOrder now w))" using chats by (simp add: distinct_map)
qed

definition cursorAfter :: "nat \<Rightarrow> scanned_candidate list \<Rightarrow> scan_key option" where
  "cursorAfter k xs = (if k = 0 then None else Some (scanKey (xs ! (k - 1))))"

lemma page_is_slice:
  assumes "distinct (map ch_id (chatTable (wd_async w)))" "k \<le> length (inScanOrder now w)"
  shows "candidatePage (cursorAfter k (inScanOrder now w)) n now w = (Inr (take n (drop k (inScanOrder now w))), w)"
proof (cases k)
  case 0
  then show ?thesis by (simp add: candidatePage_def cursorAfter_def inScanOrder_def)
next
  case (Suc m)
  have "sort_key scanKey (filter (\<lambda>x. scanKey (inScanOrder now w ! m) < scanKey x) (eligibleChats now w)) =
      filter (\<lambda>x. scanKey (inScanOrder now w ! m) < scanKey x) (inScanOrder now w)"
    by (simp add: inScanOrder_def filter_sort)
  also have "\<dots> = drop k (inScanOrder now w)"
    using filter_after [OF inScanOrder_keys(1,2) [OF assms(1)], of m] assms(2) Suc by simp
  finally show ?thesis using Suc by (simp add: candidatePage_def cursorAfter_def)
qed

lemma addCandidates_new:
  assumes "distinct (map cc_chatId page)" "cc_chatId ` set page \<inter> cc_chatId ` set cs = {}"
  shows "addCandidates page cs = cs @ map catch_up_candidate.truncate page"
  using assms
proof (induction page arbitrary: cs)
  case (Cons x page)
  have trunc: "cc_chatId (catch_up_candidate.truncate x) = cc_chatId x" by (simp add: catch_up_candidate.truncate_def)
  have "addCandidates (x # page) cs = addCandidates page (cs @ [catch_up_candidate.truncate x])"
    using Cons.prems by (auto simp: addCandidates_def)
  also have "\<dots> = cs @ map catch_up_candidate.truncate (x # page)"
    using Cons.prems by (subst Cons.IH) (auto simp: trunc)
  finally show ?case .
qed (simp add: addCandidates_def)

lemma truncate_chat [simp]: "cc_chatId (catch_up_candidate.truncate x) = cc_chatId x"
  by (simp add: catch_up_candidate.truncate_def)

lemma scanPages_page:
  assumes "k < scanCap"
  shows "scanPages scanCap k cursor cs = bindS (stmt (candidatePage cursor (min CATCHUP_CANDIDATE_PAGE_SIZE (scanCap - k)))) (\<lambda>page.
    if page = [] then returnS cs
    else if length page < min CATCHUP_CANDIDATE_PAGE_SIZE (scanCap - k) then returnS (addCandidates page cs)
    else scanPages scanCap (k + length page) (Some (scanKey (last page))) (addCandidates page cs))"
  using assms by (subst scanPages.simps) (simp only: if_True Let_def)

lemma last_slice: "0 < n \<Longrightarrow> k + n \<le> length xs \<Longrightarrow> last (take n (drop k xs)) = xs ! (k + n - 1)"
proof (subst last_conv_nth)
  assume size: "0 < n" "k + n \<le> length xs"
  then have "length (take n (drop k xs)) = n" by simp
  then show "take n (drop k xs) ! (length (take n (drop k xs)) - 1) = xs ! (k + n - 1)" using size by simp
qed auto

lemma scanPages_from:
  assumes "quiet s" "distinct (map ch_id (chatTable (wd_async (wakeData s))))"
    and "xs = inScanOrder (wakeNow s) (wakeData s)" "k \<le> length xs" "k \<le> scanCap"
  shows "fst (scanPages scanCap k (cursorAfter k xs) (map catch_up_candidate.truncate (take k xs)) s) =
    Inr (map catch_up_candidate.truncate (take scanCap xs))"
  using assms
proof (induction "scanCap - k" arbitrary: k s rule: less_induct)
  case less
  let ?n = "min CATCHUP_CANDIDATE_PAGE_SIZE (scanCap - k)"
  let ?page = "take ?n (drop k xs)"
  show ?case
  proof (cases "k < scanCap")
    case True
    have "candidatePage (cursorAfter k xs) ?n (wakeNow s) (wakeData s) = (Inr ?page, wakeData s)"
      using page_is_slice [OF less.prems(2,4) [unfolded less.prems(3)], of ?n] less.prems(3) by simp
    then have "\<exists>t. stmt (candidatePage (cursorAfter k xs) ?n) s = (Inr ?page, t) \<and> quiet t \<and> wakeData t = wakeData s \<and> wakeNow t = wakeNow s"
      unfolding candidatePage_def by (intro stmt_read [OF less.prems(1)]) simp
    then obtain t where t: "stmt (candidatePage (cursorAfter k xs) ?n) s = (Inr ?page, t)" "quiet t" "wakeData t = wakeData s"
        "wakeNow t = wakeNow s" by blast
    have dist: "distinct (map cc_chatId xs)" using inScanOrder_keys(3) [OF less.prems(2)] less.prems(3) by simp
    have split: "take (k + length ?page) xs = take k xs @ ?page"
      by (metis append_eq_conv_conj append_take_drop_id length_append length_take less.prems(4) min.absorb2 take_add)
    have added: "addCandidates ?page (map catch_up_candidate.truncate (take k xs)) =
        map catch_up_candidate.truncate (take (k + length ?page) xs)"
    proof -
      have "distinct (map cc_chatId (take k xs @ drop k xs))" using dist by (simp only: append_take_drop_id)
      then have apart: "distinct (map cc_chatId (drop k xs))"
          "cc_chatId ` set (take k xs) \<inter> cc_chatId ` set (drop k xs) = {}"
        by (simp_all only: map_append distinct_append set_map)
      have page: "distinct (map cc_chatId ?page)" using apart(1) by (simp only: take_map [symmetric] distinct_take)
      have "cc_chatId ` set ?page \<subseteq> cc_chatId ` set (drop k xs)" using set_take_subset by (rule image_mono)
      moreover have "cc_chatId ` set (map catch_up_candidate.truncate (take k xs)) = cc_chatId ` set (take k xs)"
        by (simp add: image_image)
      ultimately have "cc_chatId ` set ?page \<inter> cc_chatId ` set (map catch_up_candidate.truncate (take k xs)) = {}"
        using apart(2) by blast
      then show ?thesis using addCandidates_new [OF page] split by simp
    qed
    let ?k = "k + length ?page"
    have bind: "bindS (stmt (candidatePage (cursorAfter k xs) ?n)) F s = F ?page t" for F :: "_ \<Rightarrow> (wake_state, catch_up_candidate list) oper"
      by (rule bindS_Inr) (rule t(1))
    have unfold: "scanPages scanCap k (cursorAfter k xs) (map catch_up_candidate.truncate (take k xs)) s =
      (if ?page = [] then (Inr (map catch_up_candidate.truncate (take k xs)), t)
       else if length ?page < ?n then (Inr (map catch_up_candidate.truncate (take ?k xs)), t)
       else scanPages scanCap ?k (Some (scanKey (last ?page))) (map catch_up_candidate.truncate (take ?k xs)) t)"
      unfolding scanPages_page [OF True] by (cases "?page = []"; cases "length ?page < ?n")
        (simp_all only: if_True if_False bind added returnS_apply simp_thms)
    have size: "length ?page = min ?n (length xs - k)" "?n \<le> scanCap - k" by simp_all
    have positive: "0 < ?n" using True by (simp add: CATCHUP_CANDIDATE_PAGE_SIZE_def)
    show ?thesis
    proof (cases "length ?page < ?n")
      case short: True
      then have "length ?page = length xs - k" using size(1) by linarith
      then have "length xs \<le> ?k" "?k \<le> scanCap" using short size(2) less.prems(4) True by linarith+
      then have whole: "take ?k xs = take scanCap xs" by simp
      show ?thesis
      proof (cases "?page = []")
        case True
        then have "take k xs = take scanCap xs" using whole by (simp only: list.size add_0_right)
        then show ?thesis using unfold True by (simp only: if_True simp_thms fst_conv)
      next
        case False
        then show ?thesis using unfold whole short by (simp only: if_True if_False fst_conv)
      qed
    next
      case False
      then have full: "length ?page = ?n" "?k \<le> length xs" using size(1) less.prems(4) by linarith+
      then have nonempty: "?page \<noteq> []" using positive by auto
      have "last ?page = xs ! (?k - 1)"
        using last_slice [OF positive, of k xs] full by simp
      then have cursor: "Some (scanKey (last ?page)) = cursorAfter ?k xs" using nonempty by (simp add: cursorAfter_def)
      have "fst (scanPages scanCap ?k (cursorAfter ?k xs) (map catch_up_candidate.truncate (take ?k xs)) t) =
          Inr (map catch_up_candidate.truncate (take scanCap xs))"
      proof (rule less.hyps)
        show "scanCap - ?k < scanCap - k" using full(1) positive True by linarith
        show "?k \<le> scanCap" using full(1) size(2) True by linarith
      qed (use t(2,3,4) less.prems full(2) in simp_all)
      then show ?thesis using unfold False nonempty by (simp only: cursor if_False)
    qed
  next
    case False
    then show ?thesis using less.prems(5) by (simp add: scanPages.simps)
  qed
qed

text \<open>C32: A scan is the head of one list. When the database answers and nobody interferes, the pages together are the
  chats with a claimable handle in the order of the scan, never scanned ones first, up to the cap of the scan.\<close>

theorem scan_is_head_of_order:
  assumes "quiet s" "distinct (map ch_id (chatTable (wd_async (wakeData s))))"
  shows "fst (listCatchUpEligibleChats limit s) = Inr (map catch_up_candidate.truncate
    (take (scanCapOf limit) (sort_key scanKey (eligibleChats (wakeNow s) (wakeData s)))))"
  using scanPages_from [OF assms refl, of 0 "scanCapOf limit"]
  by (simp add: listCatchUpEligibleChats_def cursorAfter_def inScanOrder_def)

lemma scan_is_head_of_order_witness:
  "map cc_chatId (take (scanCapOf 1) (sort_key scanKey (eligibleChats 10 (wakeData (wakeExample (\<lambda>_. [])))))) = [''c'', ''d''] \<and>
   fst (listCatchUpEligibleChats 1 (wakeExample (\<lambda>_. []))) = Inr (map catch_up_candidate.truncate
     (take (scanCapOf 1) (sort_key scanKey (eligibleChats 10 (wakeData (wakeExample (\<lambda>_. [])))))))"
proof
  show "map cc_chatId (take (scanCapOf 1) (sort_key scanKey (eligibleChats 10 (wakeData (wakeExample (\<lambda>_. [])))))) = [''c'', ''d'']"
    by code_simp
  show "fst (listCatchUpEligibleChats 1 (wakeExample (\<lambda>_. []))) = Inr (map catch_up_candidate.truncate
     (take (scanCapOf 1) (sort_key scanKey (eligibleChats 10 (wakeData (wakeExample (\<lambda>_. [])))))))"
    using scan_is_head_of_order [OF wakeExample_quiet, of 1] by simp
qed

section \<open>The stamps show the turns\<close>

definition stampsOf :: "wake_data \<Rightarrow> string \<Rightarrow> (int option \<times> int option) option" where
  "stampsOf w c = map_option (\<lambda>r. (ch_lastUserTurnStartedAt r, ch_lastUserTurnTerminalAt r)) (chatRow c (wd_async w))"

fun markChat :: "user_mark \<Rightarrow> string" where
  "markChat (Started c) = c"
| "markChat (Ended c) = c"

definition lastMark :: "string \<Rightarrow> (int \<times> user_mark) list \<Rightarrow> (int \<times> user_mark) option" where
  "lastMark c = find (\<lambda>m. markChat (snd m) = c)"

text \<open>The turns of every chat come one after the other, a later one at least a millisecond later.\<close>

fun serialTurns :: "(int \<times> user_mark) list \<Rightarrow> bool" where
  "serialTurns [] = True"
| "serialTurns ((n, Started c) # ms) =
     (serialTurns ms \<and> (case lastMark c ms of None \<Rightarrow> True | Some (e, Ended _) \<Rightarrow> e < n | Some (e, Started _) \<Rightarrow> False))"
| "serialTurns ((n, Ended c) # ms) =
     (serialTurns ms \<and> (case lastMark c ms of Some (e, Started _) \<Rightarrow> True | _ \<Rightarrow> False))"

definition openShown :: "int \<Rightarrow> int option \<Rightarrow> int option \<Rightarrow> bool" where
  "openShown now st te \<longleftrightarrow> (\<exists>a. st = Some a \<and> a \<le> now \<and> (\<forall>e. te = Some e \<longrightarrow> e < a))"

definition shown :: "int \<Rightarrow> (int \<times> user_mark) option \<Rightarrow> int option \<Rightarrow> int option \<Rightarrow> bool" where
  "shown now m st te =
     (case m of
        None \<Rightarrow> (\<forall>e. te = Some e \<longrightarrow> e < now)
      | Some (a, Started _) \<Rightarrow> openShown now st te
      | Some (e, Ended _) \<Rightarrow> e \<le> now \<and> (te = Some e \<or> openShown now st te))"

definition stampsShow :: "wake_state \<Rightarrow> bool" where
  "stampsShow s \<longleftrightarrow> (serialTurns (wk_log s) \<longrightarrow>
     (\<forall>c st te. stampsOf (wakeData s) c = Some (st, te) \<longrightarrow> shown (wakeNow s) (lastMark c (wk_log s)) st te))"

lemma shown_later: "shown n m st te \<Longrightarrow> n \<le> n' \<Longrightarrow> shown n' m st te"
  by (fastforce simp: shown_def openShown_def split: option.splits user_mark.splits)

lemma chatRow_update:
  assumes "\<And>r. ch_id (f r) = ch_id r" "chatUpdate c f w = (Inr u, w')"
  shows "chatRow c' (wd_async w') = (if c' = c then map_option f (chatRow c (wd_async w)) else chatRow c' (wd_async w))"
proof -
  have "find (\<lambda>r. ch_id r = c') (map (\<lambda>r. if ch_id r = c then f r else r) rs) =
      (if c' = c then map_option f (find (\<lambda>r. ch_id r = c) rs) else find (\<lambda>r. ch_id r = c') rs)" for rs
    by (induction rs) (auto simp: assms(1))
  then show ?thesis using assms(2) by (auto simp: chatUpdate_def chatRow_def split: if_splits)
qed

lemma stamps_started:
  "startStamp c n w = (Inr u, w') \<Longrightarrow> stampsOf w' c' =
     (if c' = c then map_option (\<lambda>(_, te). (Some n, te)) (stampsOf w c) else stampsOf w c')"
  unfolding startStamp_def by (drule chatRow_update [rotated, of _ _ _ _ _ c']) (auto simp: stampsOf_def option.map_comp comp_def)

lemma stamps_ended:
  "snd (terminalStamp c n w) = w' \<Longrightarrow> stampsOf w' c' =
     (if c' = c then map_option (\<lambda>(st, _). (st, Some n)) (stampsOf w c) else stampsOf w c')"
proof -
  assume w: "snd (terminalStamp c n w) = w'"
  show ?thesis
  proof (cases "chatRow c (wd_async w)")
    case None
    with w have "w' = w" by (simp add: terminalStamp_def chatUpdate_def)
    then show ?thesis using None by (simp add: stampsOf_def)
  next
    case (Some r)
    then have "terminalStamp c n w = (Inr (), w')" using w by (simp add: terminalStamp_def chatUpdate_def)
    then show ?thesis unfolding terminalStamp_def
      by (drule_tac chatRow_update [rotated, of _ _ _ _ _ c']) (auto simp: stampsOf_def option.map_comp comp_def)
  qed
qed

lemma lastMark_Cons: "lastMark c ((n, m) # ms) = (if markChat m = c then Some (n, m) else lastMark c ms)"
  by (simp add: lastMark_def)

text \<open>Whatever the others do, the stamps keep showing the turns.\<close>

lemma stampsShow_started:
  assumes "stampsShow s" "startStamp c (wakeNow s) (wakeData s) = (Inr u, w)"
  shows "stampsShow (s\<lparr>wk_db := (wk_db s)\<lparr>dbData := w\<rparr>, wk_log := (wakeNow s, Started c) # wk_log s\<rparr>)"
  unfolding stampsShow_def
proof (intro impI allI)
  fix c' st te
  assume serial: "serialTurns (wk_log (s\<lparr>wk_db := (wk_db s)\<lparr>dbData := w\<rparr>, wk_log := (wakeNow s, Started c) # wk_log s\<rparr>))"
    and st: "stampsOf (wakeData (s\<lparr>wk_db := (wk_db s)\<lparr>dbData := w\<rparr>, wk_log := (wakeNow s, Started c) # wk_log s\<rparr>)) c' = Some (st, te)"
  have before: "shown (wakeNow s) (lastMark d (wk_log s)) a e" if "stampsOf (wakeData s) d = Some (a, e)" for d a e
    using assms(1) serial that by (simp add: stampsShow_def)
  show "shown (wakeNow (s\<lparr>wk_db := (wk_db s)\<lparr>dbData := w\<rparr>, wk_log := (wakeNow s, Started c) # wk_log s\<rparr>))
      (lastMark c' (wk_log (s\<lparr>wk_db := (wk_db s)\<lparr>dbData := w\<rparr>, wk_log := (wakeNow s, Started c) # wk_log s\<rparr>))) st te"
  proof (cases "c' = c")
    case False
    then have "stampsOf (wakeData s) c' = Some (st, te)" using st stamps_started [OF assms(2), of c'] by simp
    from before [OF this] show ?thesis using False by (simp add: lastMark_Cons)
  next
    case True
    then obtain a where a: "stampsOf (wakeData s) c = Some (a, te)" "st = Some (wakeNow s)"
      using st stamps_started [OF assms(2), of c] by (auto simp: map_option_case split: option.splits)
    have "e < wakeNow s" if "te = Some e" for e
      using before [OF a(1)] serial that
      by (auto simp: shown_def openShown_def split: option.splits user_mark.splits)
    then show ?thesis using True a(2) by (simp add: lastMark_Cons shown_def openShown_def)
  qed
qed

lemma stampsShow_ended:
  assumes "stampsShow s" "w = (if written then snd (terminalStamp c (wakeNow s) (wakeData s)) else wakeData s)"
  shows "stampsShow (s\<lparr>wk_db := (wk_db s)\<lparr>dbData := w\<rparr>, wk_log := (wakeNow s, Ended c) # wk_log s\<rparr>)"
  unfolding stampsShow_def
proof (intro impI allI)
  let ?t = "s\<lparr>wk_db := (wk_db s)\<lparr>dbData := w\<rparr>, wk_log := (wakeNow s, Ended c) # wk_log s\<rparr>"
  fix c' st te
  assume serial: "serialTurns (wk_log ?t)" and st: "stampsOf (wakeData ?t) c' = Some (st, te)"
  have before: "shown (wakeNow s) (lastMark d (wk_log s)) a e" if "stampsOf (wakeData s) d = Some (a, e)" for d a e
    using assms(1) serial that by (simp add: stampsShow_def)
  show "shown (wakeNow ?t) (lastMark c' (wk_log ?t)) st te"
  proof (cases "c' = c")
    case False
    then have "stampsOf (wakeData s) c' = Some (st, te)"
      using st stamps_ended [OF refl, of c "wakeNow s" "wakeData s" c'] assms(2) by (simp split: if_splits)
    from before [OF this] show ?thesis using False by (simp add: lastMark_Cons)
  next
    case True
    show ?thesis
    proof (cases written)
      case True
      then have "te = Some (wakeNow s)"
        using st \<open>c' = c\<close> stamps_ended [OF refl, of c "wakeNow s" "wakeData s" c] assms(2)
        by (auto simp: map_option_case split: option.splits)
      then show ?thesis using \<open>c' = c\<close> by (simp add: lastMark_Cons shown_def)
    next
      case False
      then have old: "stampsOf (wakeData s) c = Some (st, te)" using st assms(2) \<open>c' = c\<close> by simp
      obtain a d where "lastMark c (wk_log s) = Some (a, Started d)"
        using serial by (auto split: option.splits user_mark.splits)
      with before [OF old] have "openShown (wakeNow s) st te" by (simp add: shown_def)
      then show ?thesis using \<open>c' = c\<close> by (simp add: lastMark_Cons shown_def)
    qed
  qed
qed

lemma stampsShow_same:
  assumes "stampsShow s" "stampsOf (wakeData t) = stampsOf (wakeData s)" "wakeNow s \<le> wakeNow t" "wk_log t = wk_log s"
  shows "stampsShow t"
  using assms by (auto simp: stampsShow_def intro: shown_later)

lemma stampsShow_table:
  assumes "stampsShow s" "chatTable (wd_async (wakeData t)) = chatTable (wd_async (wakeData s))" "wakeNow s \<le> wakeNow t"
    "wk_log t = wk_log s"
  shows "stampsShow t"
  using assms by (auto simp: stampsOf_def chatRow_def fun_eq_iff intro: stampsShow_same)

lemma stampsShow_other: "stampsShow s \<Longrightarrow> stampsShow (other_step e s)"
proof (cases e)
  case (Turn_starts c)
  assume s: "stampsShow s"
  obtain r w where w: "startStamp c (wakeNow s) (wakeData s) = (r, w)" by fastforce
  show ?thesis
  proof (cases r)
    case (Inl x)
    then show ?thesis using s w Turn_starts by (simp add: Let_def)
  next
    case (Inr u)
    then show ?thesis using stampsShow_started [OF s] w Turn_starts by (simp add: Let_def)
  qed
next
  case (Turn_ends c written)
  assume "stampsShow s"
  from stampsShow_ended [OF this refl] show ?thesis using Turn_ends by (simp add: Let_def)
qed (auto simp: Let_def elim: stampsShow_table)

lemma stampsShow_others: "stampsShow s \<Longrightarrow> stampsShow (othersRun s)"
proof -
  have "stampsShow s \<Longrightarrow> stampsShow (fold other_step es s)" for es
    by (induction es arbitrary: s) (auto intro: stampsShow_other)
  then show "stampsShow s \<Longrightarrow> stampsShow (othersRun s)" by (simp add: othersRun_def)
qed

text \<open>The coordinator's own statements leave the stamps alone.\<close>

definition stampsKept :: "(int \<Rightarrow> (wake_data, 'a) oper) \<Rightarrow> bool" where
  "stampsKept f \<longleftrightarrow> (\<forall>n w. stampsOf (snd (f n w)) = stampsOf w)"

lemma stmt_result:
  assumes "stmt f s = (r, t)"
  shows "wakeNow t = wakeNow (othersRun s)" "wk_log t = wk_log (othersRun s)" "wk_others t = wk_others (othersRun s)"
    "(\<exists>a. r = Inr a \<and> f (wakeNow t) (wakeData (othersRun s)) = (Inr a, wakeData t)) \<or>
     ((\<exists>e. r = Inl e) \<and> (wakeData t = wakeData (othersRun s) \<or>
       (\<exists>a. f (wakeNow t) (wakeData (othersRun s)) = (Inr a, wakeData t))))"
proof -
  obtain db where db: "tx f (wk_db (othersRun s)) = (r, db)" "t = (othersRun s)\<lparr>wk_db := db\<rparr>"
    using assms by (auto simp: stmt_def Let_def split: prod.splits)
  show "wk_log t = wk_log (othersRun s)" "wk_others t = wk_others (othersRun s)" using db(2) by simp_all
  show "wakeNow t = wakeNow (othersRun s)" using tx_frame [OF db(1)] db(2) by simp
  from db(1) show "(\<exists>a. r = Inr a \<and> f (wakeNow t) (wakeData (othersRun s)) = (Inr a, wakeData t)) \<or>
     ((\<exists>e. r = Inl e) \<and> (wakeData t = wakeData (othersRun s) \<or>
       (\<exists>a. f (wakeNow t) (wakeData (othersRun s)) = (Inr a, wakeData t))))"
  proof (cases rule: tx_cases)
    case (rolled_back e)
    then show ?thesis using db(2) by simp
  next
    case (committed a)
    then show ?thesis using db(2) by auto
  qed
qed

lemma stampsShow_stmt:
  assumes "stampsKept f"
  shows "preserves stampsShow (stmt f)"
  unfolding preserves_def
proof (intro allI impI)
  fix s assume s: "stampsShow s"
  obtain r t where t: "stmt f s = (r, t)" by fastforce
  note res = stmt_result [OF t]
  have "stampsOf (wakeData t) = stampsOf (wakeData (othersRun s))"
    using res(4) assms by (auto simp: stampsKept_def) (metis snd_conv)+
  with stampsShow_others [OF s] show "stampsShow (snd (stmt f s))"
    using stampsShow_same [of "othersRun s" t] res(1,2) t by simp
qed

lemma stampsShow_lease: "preserves stampsShow (leaseCall m)"
  unfolding preserves_def
proof (intro allI impI)
  fix s assume "stampsShow s"
  from stampsShow_others [OF this] show "stampsShow (snd (leaseCall m s))"
    by (auto simp: leaseCall_def Let_def split: prod.split elim: stampsShow_table)
qed

lemma stampsKept_table:
  "(\<And>n w. chatTable (wd_async (snd (f n w))) = chatTable (wd_async w)) \<Longrightarrow> stampsKept f"
  by (simp add: stampsKept_def stampsOf_def chatRow_def fun_eq_iff)

lemma stampsKept_update:
  assumes "\<And>r. ch_id (f r) = ch_id r \<and> ch_lastUserTurnStartedAt (f r) = ch_lastUserTurnStartedAt r \<and>
      ch_lastUserTurnTerminalAt (f r) = ch_lastUserTurnTerminalAt r"
  shows "stampsOf (snd (chatUpdate c f w)) = stampsOf w"
proof (cases "chatRow c (wd_async w)")
  case (Some r)
  then have "chatUpdate c f w = (Inr (), snd (chatUpdate c f w))" by (simp add: chatUpdate_def)
  from chatRow_update [OF _ this] show ?thesis
    using assms Some by (auto simp: stampsOf_def fun_eq_iff option.map_comp comp_def)
qed (simp add: chatUpdate_def)

lemma preserves_reading: "(\<And>a. preserves P (m a)) \<Longrightarrow> preserves P (\<lambda>s. m (g s) s)"
  by (simp add: preserves_def)

lemmas stampsShow_query = stampsShow_stmt [OF stampsKept_table]

lemma stampsShow_idle: "preserves stampsShow (\<lambda>s. isIdlePauseActive c (nowOfCall s) s)"
  by (rule preserves_reading) (simp add: isIdlePauseActive_def stampsShow_query)

lemma stampsShow_active: "preserves stampsShow (isUserTurnActive i)"
proof -
  have "preserves stampsShow (isTelegramUserTurnActive i)"
    unfolding isTelegramUserTurnActive_def
    by (intro preserves_case_option preserves_if preserves_return stampsShow_query) simp
  then show ?thesis
    unfolding isUserTurnActive_def isDurableUserTurnOpen_def isWebUserTurnActive_def
    by (intro preserves_bind preserves_if preserves_return stampsShow_query) simp_all
qed

lemma stampsShow_gate: "preserves stampsShow (evaluateCatchUpGate i)"
  unfolding evaluateCatchUpGate_def
  by (intro preserves_bind preserves_if preserves_return stampsShow_active stampsShow_idle)

lemma fenceUpdate_stamps: "stampsKept (fenceUpdate c)"
  using stampsKept_update [of "\<lambda>c. c\<lparr>ch_catchUpAdmissionFence := ch_catchUpAdmissionFence c + 1\<rparr>" c]
  by (simp add: stampsKept_def fenceUpdate_def split: option.split)

lemma stampsShow_admit: "preserves stampsShow (admitCatchUpAtBoundary i)"
  unfolding admitCatchUpAtBoundary_def
  by (intro preserves_bind preserves_if preserves_return stampsShow_gate stampsShow_stmt fenceUpdate_stamps)

lemma stampsShow_scan: "preserves stampsShow (\<lambda>s. recordCatchUpScan c (nowOfCall s) s)"
  unfolding recordCatchUpScan_def
  by (rule preserves_reading, rule stampsShow_stmt) (simp add: stampsKept_def stampsKept_update)

lemma stampsShow_claimHead: "preserves stampsShow (claimHead env c ttl)"
  unfolding claimHead_def Let_def
  by (rule preserves_reading, rule stampsShow_query)
    (simp add: claimReadyHeadForChat_def updateRow_def updateHandles_def split: prod.split option.split)

lemma stampsShow_pages: "preserves stampsShow (scanPages scanCap k cursor cs)"
proof (induction scanCap k cursor cs rule: scanPages.induct)
  case (1 scanCap k cursor cs)
  let ?n = "min CATCHUP_CANDIDATE_PAGE_SIZE (scanCap - k)"
  show ?case
  proof (cases "k < scanCap")
    case True
    have page: "preserves stampsShow (stmt (candidatePage cursor ?n))"
      by (rule stampsShow_query) (simp add: candidatePage_def)
    have rest: "preserves stampsShow (if page = [] then returnS cs else if length page < ?n then returnS (addCandidates page cs)
        else scanPages scanCap (k + length page) (Some (scanKey (last page))) (addCandidates page cs))" for page
      using 1 [OF True refl _ refl] by simp
    show ?thesis
      unfolding scanPages_page [OF True] by (rule preserves_bind [OF page rest])
  next
    case False
    then show ?thesis by (simp add: scanPages.simps)
  qed
qed

lemma stampsShow_candidate: "preserves stampsShow (claimCandidate env ttl c)"
  unfolding claimCandidate_def acquireCatchUpLock_def releaseCatchUp_def case_prod_unfold
  by (intro preserves_if preserves_return preserves_bind preserves_case_option stampsShow_scan
      stampsShow_gate stampsShow_lease stampsShow_claimHead)

lemma stampsShow_loop: "preserves stampsShow (claimLoop env limit ttl cs claimed)"
  by (induction cs arbitrary: claimed) (simp_all add: preserves_bind preserves_if stampsShow_candidate)

section \<open>Histories of the coordinator\<close>

datatype wake_call =
    Admit_catch_up catch_up_candidate
  | Claim_catch_ups wake_env int int
  | Heartbeat_catch_up string string
  | Release_catch_up string string

fun wakeCall :: "wake_call \<Rightarrow> wake_state \<Rightarrow> wake_state" where
  "wakeCall (Admit_catch_up i) s = snd (admitCatchUpAtBoundary i s)"
| "wakeCall (Claim_catch_ups env limit ttl) s = snd (claimReadyCatchUps env limit ttl s)"
| "wakeCall (Heartbeat_catch_up c token) s = snd (heartbeatCatchUp c token s)"
| "wakeCall (Release_catch_up c token) s = snd (releaseCatchUp c token s)"

definition wakeStart :: "wake_state \<Rightarrow> bool" where
  "wakeStart s \<longleftrightarrow> wk_log s = [] \<and> (\<forall>c st e. stampsOf (wakeData s) c = Some (st, Some e) \<longrightarrow> e < wakeNow s)"

inductive wake_history :: "wake_state \<Rightarrow> bool" where
  start: "wakeStart s \<Longrightarrow> wake_history s"
| call: "wake_history s \<Longrightarrow> wake_history (wakeCall c s)"

lemma stampsShow_history: "wake_history s \<Longrightarrow> stampsShow s"
proof (induction rule: wake_history.induct)
  case (start s)
  then show ?case by (auto simp: wakeStart_def stampsShow_def shown_def lastMark_def)
next
  case (call s c)
  then show ?case
  proof (cases c)
    case (Claim_catch_ups env limit ttl)
    have "preserves stampsShow (claimReadyCatchUps env limit ttl)"
      unfolding claimReadyCatchUps_def listCatchUpEligibleChats_def
      by (intro preserves_bind stampsShow_pages stampsShow_loop)
    then show ?thesis using call Claim_catch_ups by (simp add: preserves_def)
  qed (use stampsShow_admit stampsShow_lease in \<open>auto simp: preserves_def heartbeatCatchUp_def releaseCatchUp_def\<close>)
qed

definition turnIsOver :: "string \<Rightarrow> wake_state \<Rightarrow> bool" where
  "turnIsOver c s \<longleftrightarrow>
     (case lastMark c (wk_log s) of
        None \<Rightarrow> True
      | Some (n, Started _) \<Rightarrow> False
      | Some (n, Ended _) \<Rightarrow> n + CATCHUP_IDLE_PAUSE_MS \<le> wakeNow s)"

text \<open>C3: Follow-ups wait for the user. In every history of the coordinator, with turns of users starting and ending and
  other services writing between any two of its statements and statements failing, an admitted follow-up finds
  no turn of the chat open and the last one ended at least two seconds ago, provided the turns of each chat come one
  after the other.\<close>

theorem catch_up_waits_for_user:
  assumes "wake_history s" "admitCatchUpAtBoundary i s = (Inr Gate_allowed, t)" "serialTurns (wk_log t)"
  shows "turnIsOver (cc_chatId i) t"
proof -
  have shows_t: "stampsShow t" using preserves_result [OF stampsShow_admit assms(2) stampsShow_history [OF assms(1)]] .
  obtain s1 where "stmt (fenceUpdate (cc_chatId i)) s1 = (Inr True, t)"
    using assms(2) by (auto simp: admitCatchUpAtBoundary_def bindS_eq_Inr_iff split: if_splits)
  note cas = stmt_result [OF this]
  let ?w = "wakeData (othersRun s1)"
  obtain r where r: "chatRow (cc_chatId i) (wd_async ?w) = Some r" "casHolds (wakeNow t) r"
    using cas(4) by (auto simp: fenceUpdate_def split: option.splits if_splits)
  have "stampsOf (wakeData t) = stampsOf ?w"
    using cas(4) fenceUpdate_stamps by (auto simp: stampsKept_def) (metis snd_conv)+
  then have "stampsOf (wakeData t) (cc_chatId i) = Some (ch_lastUserTurnStartedAt r, ch_lastUserTurnTerminalAt r)"
    using r(1) by (simp add: stampsOf_def)
  then have "shown (wakeNow t) (lastMark (cc_chatId i) (wk_log t)) (ch_lastUserTurnStartedAt r) (ch_lastUserTurnTerminalAt r)"
    using shows_t assms(3) by (simp add: stampsShow_def)
  with r(2) show ?thesis
    by (auto simp: shown_def openShown_def turnIsOver_def casHolds_def split: option.splits user_mark.splits)
qed

definition oneTurn :: "nat \<Rightarrow> other_event list" where
  "oneTurn n = (if n = 0 then [Turn_starts ''c'', Time_passes 1, Turn_ends ''c'' True, Time_passes 2000] else [])"

lemma catch_up_waits_for_user_witness:
  "wk_log (snd (admitCatchUpAtBoundary wakeCandidate (wakeExample oneTurn))) = [(11, Ended ''c''), (10, Started ''c'')] \<and>
   turnIsOver (cc_chatId wakeCandidate) (snd (admitCatchUpAtBoundary wakeCandidate (wakeExample oneTurn)))"
proof
  let ?s = "wakeExample oneTurn"
  show log: "wk_log (snd (admitCatchUpAtBoundary wakeCandidate ?s)) = [(11, Ended ''c''), (10, Started ''c'')]" by code_simp
  have "stampsOf (wakeData ?s) d \<noteq> Some (st, Some e)" for d st e
    by (simp add: stampsOf_def chatRow_def wakeExample_def wakeChat_def)
  then have history: "wake_history ?s" by (intro wake_history.start) (simp add: wakeStart_def)
  have "fst (admitCatchUpAtBoundary wakeCandidate ?s) = Inr Gate_allowed" by code_simp
  then have call: "admitCatchUpAtBoundary wakeCandidate ?s = (Inr Gate_allowed, snd (admitCatchUpAtBoundary wakeCandidate ?s))"
    by (metis prod.collapse)
  show "turnIsOver (cc_chatId wakeCandidate) (snd (admitCatchUpAtBoundary wakeCandidate ?s))"
    by (rule catch_up_waits_for_user [OF history call]) (simp add: log lastMark_def)
qed

section \<open>Overlapping turns\<close>

definition openTurns :: "string \<Rightarrow> (int \<times> user_mark) list \<Rightarrow> int" where
  "openTurns c ms = sum_list (map (\<lambda>(_, m). case m of Started d \<Rightarrow> if d = c then 1 else 0 | Ended d \<Rightarrow> if d = c then -1 else 0) ms)"

text \<open>A message is sent, a second one while the first is answered, then the first answer ends; \<open>pause\<close> passes.\<close>

definition overlappingTurns :: "string \<Rightarrow> nat \<Rightarrow> other_event list" where
  "overlappingTurns c pause = [Turn_starts c, Time_passes 1, Turn_starts c, Time_passes 1, Turn_ends c True, Time_passes pause]"

definition noTurnElsewhere :: "catch_up_candidate \<Rightarrow> wake_data \<Rightarrow> bool" where
  "noTurnElsewhere i w \<longleftrightarrow> (\<forall>a \<in> set (wd_attempts w). wa_status a \<notin> {''accepted'', ''running''}) \<and>
     (\<forall>r \<in> set (wd_receipts w). tr_status r \<noteq> Rs_accepted)"

definition readsAs :: "(wake_state, 'a) oper \<Rightarrow> wake_state \<Rightarrow> 'a \<Rightarrow> bool" where
  "readsAs m s v \<longleftrightarrow> (\<exists>t. m s = (Inr v, t) \<and> quiet t \<and> wakeData t = wakeData s \<and> wakeNow t = wakeNow s)"

lemma readsAs_stmt: "quiet s \<Longrightarrow> g (wakeNow s) (wakeData s) = v \<Longrightarrow> readsAs (stmt (\<lambda>now w. (Inr (g now w), w))) s v"
  unfolding readsAs_def by (rule stmt_read)

lemma readsAs_return: "quiet s \<Longrightarrow> readsAs (returnS v) s v"
  by (simp add: readsAs_def)

lemma readsAs_bind:
  assumes "readsAs m s v" "\<And>t. quiet t \<Longrightarrow> wakeData t = wakeData s \<Longrightarrow> wakeNow t = wakeNow s \<Longrightarrow> readsAs (f v) t x"
  shows "readsAs (bindS m f) s x"
proof -
  obtain t where t: "m s = (Inr v, t)" "quiet t" "wakeData t = wakeData s" "wakeNow t = wakeNow s"
    using assms(1) unfolding readsAs_def by blast
  from assms(2) [OF t(2-4)] t show ?thesis by (simp add: readsAs_def)
qed

lemma readsAs_active:
  assumes "quiet s" "chatRow (cc_chatId i) (wd_async (wakeData s)) = Some r" "\<not> turnOpen r" "noTurnElsewhere i (wakeData s)"
  shows "readsAs (isUserTurnActive i) s False"
proof -
  have durable: "readsAs (isDurableUserTurnOpen (cc_chatId i)) s False"
    unfolding isDurableUserTurnOpen_def by (rule readsAs_stmt [OF assms(1)]) (use assms(2,3) in simp)
  have web: "readsAs (isWebUserTurnActive i) t False" if t: "quiet t" "wakeData t = wakeData s" for t
    unfolding isWebUserTurnActive_def by (rule readsAs_stmt [OF t(1)]) (use assms(4) t(2) in \<open>auto simp: noTurnElsewhere_def\<close>)
  have telegram: "readsAs (isTelegramUserTurnActive i) t False" if t: "quiet t" "wakeData t = wakeData s" for t
    unfolding isTelegramUserTurnActive_def
    by (cases "cc_surfaceThreadKey i")
      (use assms(4) t in \<open>auto simp: noTurnElsewhere_def intro!: readsAs_stmt readsAs_return\<close>)
  show ?thesis unfolding isUserTurnActive_def
  proof (rule readsAs_bind [OF durable], unfold if_False)
    fix t assume t: "quiet t" "wakeData t = wakeData s" "wakeNow t = wakeNow s"
    show "readsAs (bindS (isWebUserTurnActive i) (\<lambda>web. if web then returnS True else isTelegramUserTurnActive i)) t False"
      by (rule readsAs_bind [OF web [OF t(1,2)]]) (use telegram t(2) in simp)
  qed
qed

lemma readsAs_gate:
  assumes "quiet s" "chatRow (cc_chatId i) (wd_async (wakeData s)) = Some r" "casHolds (wakeNow s) r" "noTurnElsewhere i (wakeData s)"
  shows "readsAs (evaluateCatchUpGate i) s Gate_allowed"
proof -
  have closed: "\<not> turnOpen r" using assms(3) by (auto simp: casHolds_def turnOpen_def split: option.splits)
  have idle: "readsAs (\<lambda>s. isIdlePauseActive (cc_chatId i) (nowOfCall s) s) t False"
    if t: "quiet t" "wakeData t = wakeData s" "wakeNow t = wakeNow s" for t
  proof -
    have "readsAs (isIdlePauseActive (cc_chatId i) (wakeNow t)) t False"
      unfolding isIdlePauseActive_def
      by (rule readsAs_stmt [OF t(1)]) (use assms(2,3) t(2,3) in \<open>auto simp: casHolds_def split: option.splits\<close>)
    then show ?thesis by (simp add: readsAs_def nowOfCall_def)
  qed
  show ?thesis unfolding evaluateCatchUpGate_def
  proof (rule readsAs_bind [OF readsAs_active [OF assms(1,2) closed assms(4)]], unfold if_False)
    fix t assume t: "quiet t" "wakeData t = wakeData s" "wakeNow t = wakeNow s"
    show "readsAs (bindS (\<lambda>s. isIdlePauseActive (cc_chatId i) (nowOfCall s) s)
        (\<lambda>idle. returnS (if idle then Gate_idle_pause else Gate_allowed))) t Gate_allowed"
      by (rule readsAs_bind [OF idle [OF t]]) (simp add: readsAs_return)
  qed
qed

lemma admit_quiet:
  assumes "quiet s" "chatRow (cc_chatId i) (wd_async (wakeData s)) = Some r" "casHolds (wakeNow s) r" "noTurnElsewhere i (wakeData s)"
  shows "fst (admitCatchUpAtBoundary i s) = Inr Gate_allowed"
proof -
  obtain s2 where gate: "evaluateCatchUpGate i s = (Inr Gate_allowed, s2)" and s2: "quiet s2" "wakeData s2 = wakeData s" "wakeNow s2 = wakeNow s"
    using readsAs_gate [OF assms] unfolding readsAs_def by blast
  have "fst (stmt (fenceUpdate (cc_chatId i)) s2) = Inr True"
    using s2 assms(2,3) othersRun_quiet [OF s2(1)]
    by (simp add: stmt_def quiet_def tx_reliable transactionS_def fenceUpdate_def Let_def)
  then obtain t where "stmt (fenceUpdate (cc_chatId i)) s2 = (Inr True, t)" by (metis prod.collapse)
  then show ?thesis using gate by (simp add: admitCatchUpAtBoundary_def)
qed

definition sameService :: "wake_state \<Rightarrow> wake_state \<Rightarrow> bool" where
  "sameService s t \<longleftrightarrow> wk_others t = wk_others s \<and> dbFault (wk_db t) = dbFault (wk_db s) \<and> dbCount (wk_db t) = dbCount (wk_db s) \<and>
     wd_attempts (wakeData t) = wd_attempts (wakeData s) \<and> wd_receipts (wakeData t) = wd_receipts (wakeData s)"

lemma sameService_trans: "sameService s t \<Longrightarrow> sameService t u \<Longrightarrow> sameService s u"
  by (simp add: sameService_def)

lemma turn_starts:
  assumes "chatRow c (wd_async (wakeData s)) = Some r"
  shows "sameService s (other_step (Turn_starts c) s) \<and> wakeNow (other_step (Turn_starts c) s) = wakeNow s \<and>
    wk_log (other_step (Turn_starts c) s) = (wakeNow s, Started c) # wk_log s \<and>
    chatRow c (wd_async (wakeData (other_step (Turn_starts c) s))) = Some (r\<lparr>ch_lastUserTurnStartedAt := Some (wakeNow s)\<rparr>)"
proof -
  obtain w where w: "startStamp c (wakeNow s) (wakeData s) = (Inr (), w)" "wd_attempts w = wd_attempts (wakeData s)"
      "wd_receipts w = wd_receipts (wakeData s)"
    using assms by (simp add: startStamp_def chatUpdate_def)
  have "chatRow c (wd_async w) = Some (r\<lparr>ch_lastUserTurnStartedAt := Some (wakeNow s)\<rparr>)"
    using chatRow_update [OF _ w(1) [unfolded startStamp_def], of c] assms by simp
  then show ?thesis using w by (simp add: sameService_def Let_def)
qed

lemma turn_ends:
  assumes "chatRow c (wd_async (wakeData s)) = Some r"
  shows "sameService s (other_step (Turn_ends c True) s) \<and> wakeNow (other_step (Turn_ends c True) s) = wakeNow s \<and>
    wk_log (other_step (Turn_ends c True) s) = (wakeNow s, Ended c) # wk_log s \<and>
    chatRow c (wd_async (wakeData (other_step (Turn_ends c True) s))) = Some (r\<lparr>ch_lastUserTurnTerminalAt := Some (wakeNow s)\<rparr>)"
proof -
  obtain w where w: "terminalStamp c (wakeNow s) (wakeData s) = (Inr (), w)" "wd_attempts w = wd_attempts (wakeData s)"
      "wd_receipts w = wd_receipts (wakeData s)"
    using assms by (simp add: terminalStamp_def chatUpdate_def)
  have "chatRow c (wd_async w) = Some (r\<lparr>ch_lastUserTurnTerminalAt := Some (wakeNow s)\<rparr>)"
    using chatRow_update [OF _ w(1) [unfolded terminalStamp_def], of c] assms by simp
  then show ?thesis using w by (simp add: sameService_def Let_def)
qed

lemma time_passes:
  "sameService s (other_step (Time_passes n) s) \<and> wakeNow (other_step (Time_passes n) s) = wakeNow s + int n \<and>
   wk_log (other_step (Time_passes n) s) = wk_log s \<and> wakeData (other_step (Time_passes n) s) = wakeData s"
  by (simp add: sameService_def)

text \<open>C37: Overlapping turns open the gate. When a turn starts while another one runs and that one ends, the stamp of
  the end covers the stamp of the running turn: two seconds later a follow-up is admitted although a turn of the chat is open and
  nothing else stopped it, as long as neither an attempt nor a receipt shows that turn yet.\<close>

theorem overlapping_turn_is_overlooked:
  assumes "quiet s" "wk_log s = []" "chatRow (cc_chatId i) (wd_async (wakeData s)) = Some r" "noTurnElsewhere i (wakeData s)"
    and "CATCHUP_IDLE_PAUSE_MS \<le> int pause"
  shows "openTurns (cc_chatId i) (wk_log (fold other_step (overlappingTurns (cc_chatId i) pause) s)) = 1 \<and>
    fst (admitCatchUpAtBoundary i (fold other_step (overlappingTurns (cc_chatId i) pause) s)) = Inr Gate_allowed"
proof -
  let ?c = "cc_chatId i"
  let ?t = "fold other_step (overlappingTurns ?c pause) s"
  define s1 where "s1 = other_step (Time_passes 1) (other_step (Turn_starts ?c) s)"
  define s2 where "s2 = other_step (Time_passes 1) (other_step (Turn_starts ?c) s1)"
  define r2 where "r2 = r\<lparr>ch_lastUserTurnStartedAt := Some (wakeNow s + 1)\<rparr>"
  define r1 where "r1 = r2\<lparr>ch_lastUserTurnTerminalAt := Some (wakeNow s + 2)\<rparr>"
  have s1: "sameService s s1" "wakeNow s1 = wakeNow s + 1" "wk_log s1 = [(wakeNow s, Started ?c)]"
      "chatRow ?c (wd_async (wakeData s1)) = Some (r\<lparr>ch_lastUserTurnStartedAt := Some (wakeNow s)\<rparr>)"
    using turn_starts [OF assms(3)] time_passes [of "other_step (Turn_starts ?c) s" 1] sameService_trans assms(2)
    unfolding s1_def by (simp_all only: of_nat_1) blast
  have s2: "sameService s1 s2" "wakeNow s2 = wakeNow s + 2" "wk_log s2 = [(wakeNow s + 1, Started ?c), (wakeNow s, Started ?c)]"
      "chatRow ?c (wd_async (wakeData s2)) = Some r2"
    using turn_starts [OF s1(4)] time_passes [of "other_step (Turn_starts ?c) s1" 1] sameService_trans s1
    unfolding s2_def r2_def by simp_all blast
  have t: "sameService s2 ?t" "wakeNow ?t = wakeNow s + 2 + int pause" "chatRow ?c (wd_async (wakeData ?t)) = Some r1"
      "wk_log ?t = [(wakeNow s + 2, Ended ?c), (wakeNow s + 1, Started ?c), (wakeNow s, Started ?c)]"
  proof -
    have eq: "?t = other_step (Time_passes pause) (other_step (Turn_ends ?c True) s2)"
      by (simp only: overlappingTurns_def fold_simps s1_def s2_def comp_def id_def)
    show "sameService s2 ?t" "wakeNow ?t = wakeNow s + 2 + int pause" "chatRow ?c (wd_async (wakeData ?t)) = Some r1"
      "wk_log ?t = [(wakeNow s + 2, Ended ?c), (wakeNow s + 1, Started ?c), (wakeNow s, Started ?c)]"
      using turn_ends [OF s2(4)] time_passes [of "other_step (Turn_ends ?c True) s2" pause] sameService_trans s2
      unfolding eq r1_def by simp_all blast
  qed
  have "sameService s ?t" using sameService_trans s1(1) s2(1) t(1) by blast
  then have facts: "wk_log ?t = [(wakeNow s + 2, Ended ?c), (wakeNow s + 1, Started ?c), (wakeNow s, Started ?c)] \<and>
     wk_others ?t = wk_others s \<and> dbFault (wk_db ?t) = dbFault (wk_db s) \<and> dbCount (wk_db ?t) = dbCount (wk_db s) \<and>
     wakeNow ?t = wakeNow s + 2 + int pause \<and> wd_attempts (wakeData ?t) = wd_attempts (wakeData s) \<and>
     wd_receipts (wakeData ?t) = wd_receipts (wakeData s) \<and> chatRow ?c (wd_async (wakeData ?t)) = Some r1"
    using t by (simp add: sameService_def)
  have "fst (admitCatchUpAtBoundary i ?t) = Inr Gate_allowed"
  proof (rule admit_quiet)
    show "quiet ?t" using facts assms(1) by (simp add: quiet_def reliable_def)
    show "casHolds (wakeNow ?t) r1" using facts assms(5) by (simp add: casHolds_def r1_def r2_def)
    show "noTurnElsewhere i (wakeData ?t)" using facts assms(4) by (simp add: noTurnElsewhere_def)
  qed (use facts in simp)
  then show ?thesis using facts by (simp add: openTurns_def)
qed

lemma overlapping_turn_is_overlooked_witness:
  "openTurns ''c'' (wk_log (fold other_step (overlappingTurns ''c'' 2000) (wakeExample (\<lambda>_. [])))) = 1 \<and>
   fst (admitCatchUpAtBoundary wakeCandidate (fold other_step (overlappingTurns ''c'' 2000) (wakeExample (\<lambda>_. [])))) = Inr Gate_allowed"
  using overlapping_turn_is_overlooked [OF wakeExample_quiet, of wakeCandidate "wakeChat ''c'' None" 2000]
  by (simp add: wakeCandidate_def noTurnElsewhere_def CATCHUP_IDLE_PAUSE_MS_def)

section \<open>What a batch of claims holds\<close>

text \<open>Others only start and end turns and let time pass.\<close>

definition usersOnly :: "wake_state \<Rightarrow> bool" where
  "usersOnly s \<longleftrightarrow> (\<forall>n. \<forall>e \<in> set (wk_others s n). \<forall>f. e \<noteq> Others_write f)"

abbreviation leasesOf :: "wake_state \<Rightarrow> string \<Rightarrow> (string \<times> int) option" where
  "leasesOf s \<equiv> rowLease (wd_leases (wakeData s))"

abbreviation handlesOf :: "wake_state \<Rightarrow> async_handle list" where
  "handlesOf s \<equiv> handleTable (wd_async (wakeData s))"

definition calm :: "wake_state \<Rightarrow> wake_state \<Rightarrow> bool" where
  "calm s t \<longleftrightarrow> wk_others t = wk_others s \<and> leasesOf t = leasesOf s \<and> handlesOf t = handlesOf s \<and> wakeNow s \<le> wakeNow t"

lemma calm_refl [simp]: "calm s s"
  by (simp add: calm_def)

lemma calm_trans: "calm s t \<Longrightarrow> calm t u \<Longrightarrow> calm s u"
  by (simp add: calm_def)

lemma calm_usersOnly: "calm s t \<Longrightarrow> usersOnly s \<Longrightarrow> usersOnly t"
  by (simp add: calm_def usersOnly_def)

lemma chatUpdate_tables:
  "wd_leases (snd (chatUpdate c f w)) = wd_leases w \<and> handleTable (wd_async (snd (chatUpdate c f w))) = handleTable (wd_async w)"
  by (simp add: chatUpdate_def)

lemma calm_other:
  assumes "\<forall>f. e \<noteq> Others_write f"
  shows "calm s (other_step e s)"
proof (cases e)
  case (Turn_starts c)
  obtain r w where w: "startStamp c (wakeNow s) (wakeData s) = (r, w)" by fastforce
  then have "wd_leases w = wd_leases (wakeData s) \<and> handleTable (wd_async w) = handlesOf s"
    using chatUpdate_tables [of c _ "wakeData s"] unfolding startStamp_def by (metis snd_conv)
  with w Turn_starts show ?thesis by (simp add: calm_def Let_def split: sum.split)
qed (use assms in \<open>simp_all add: calm_def Let_def terminalStamp_def chatUpdate_tables\<close>)

lemma calm_others: "usersOnly s \<Longrightarrow> calm s (othersRun s)"
proof -
  have "calm s (fold other_step es s)" if "\<forall>e \<in> set es. \<forall>f. e \<noteq> Others_write f" for es
    using that
  proof (induction es arbitrary: s)
    case (Cons e es)
    then have "calm s (other_step e s)" "calm (other_step e s) (fold other_step es (other_step e s))"
      by (simp_all add: calm_other)
    then show ?case by (auto intro: calm_trans)
  qed simp
  then show "usersOnly s \<Longrightarrow> calm s (othersRun s)" by (simp add: usersOnly_def othersRun_def)
qed

definition calming :: "(wake_state, 'a) oper \<Rightarrow> bool" where
  "calming m \<longleftrightarrow> (\<forall>s. usersOnly s \<longrightarrow> calm s (snd (m s)))"

lemma calming_return: "calming (returnS a)"
  by (simp add: calming_def)

lemma calming_bind: "calming m \<Longrightarrow> (\<And>a. calming (f a)) \<Longrightarrow> calming (bindS m f)"
  unfolding calming_def bindS_def
  by (auto split: prod.splits sum.splits) (metis calm_trans calm_usersOnly snd_conv)+

lemma calming_if: "calming a \<Longrightarrow> calming b \<Longrightarrow> calming (if c then a else b)"
  by simp

lemma calming_stmt:
  assumes "\<And>n w. wd_leases (snd (f n w)) = wd_leases w \<and> handleTable (wd_async (snd (f n w))) = handleTable (wd_async w)"
  shows "calming (stmt f)"
  unfolding calming_def
proof (intro allI impI)
  fix s assume s: "usersOnly s"
  obtain r t where t: "stmt f s = (r, t)" by fastforce
  note res = stmt_result [OF t]
  have "wd_leases (wakeData t) = wd_leases (wakeData (othersRun s)) \<and> handlesOf t = handlesOf (othersRun s)"
    using res(4) assms by (metis snd_conv)
  with calm_others [OF s] res(1,3) t show "calm s (snd (stmt f s))" by (simp add: calm_def)
qed

lemma calming_reading: "(\<And>a. calming (m a)) \<Longrightarrow> calming (\<lambda>s. m (g s) s)"
  by (simp add: calming_def)

lemma calming_active: "calming (isUserTurnActive i)"
proof -
  have "calming (isTelegramUserTurnActive i)"
    unfolding isTelegramUserTurnActive_def
    by (cases "cc_surfaceThreadKey i") (auto intro!: calming_return calming_stmt)
  then show ?thesis
    unfolding isUserTurnActive_def isDurableUserTurnOpen_def isWebUserTurnActive_def
    by (intro calming_bind calming_if calming_return calming_stmt) simp_all
qed

lemma calming_gate: "calming (evaluateCatchUpGate i)"
proof -
  have "calming (\<lambda>s. isIdlePauseActive (cc_chatId i) (nowOfCall s) s)"
    by (rule calming_reading) (simp add: isIdlePauseActive_def calming_stmt)
  then show ?thesis
    unfolding evaluateCatchUpGate_def by (intro calming_bind calming_if calming_return calming_active)
qed

lemma calming_scan: "calming (\<lambda>s. recordCatchUpScan c (nowOfCall s) s)"
  unfolding recordCatchUpScan_def by (rule calming_reading, rule calming_stmt) (simp add: chatUpdate_tables)

lemma calming_result: "calming m \<Longrightarrow> usersOnly s \<Longrightarrow> m s = (r, t) \<Longrightarrow> calm s t"
  by (metis calming_def snd_conv)

lemma leaseCall_result:
  assumes "leaseCall m s = (r, t)"
  obtains ldb where
    "m (dbCount (wk_db (othersRun s))) \<lparr>dbNow = wakeNow (othersRun s), dbData = wd_leases (wakeData (othersRun s)),
       dbCount = dbCount (wk_db (othersRun s)), dbFault = dbFault (wk_db (othersRun s))\<rparr> = (r, ldb)"
    "wk_others t = wk_others (othersRun s)" "wakeNow t = wakeNow (othersRun s)" "handlesOf t = handlesOf (othersRun s)"
    "wd_leases (wakeData t) = dbData ldb"
  using assms by (auto simp: leaseCall_def Let_def split: prod.splits)

lemma rowLease_inserted: "insertMissing now keys tab = tab' \<Longrightarrow> rowLease tab' = rowLease tab"
  by (metis rowLease_insert)

text \<open>A free or expired lease.\<close>

definition freeAt :: "int \<Rightarrow> (string \<times> int) option \<Rightarrow> bool" where
  "freeAt now l \<longleftrightarrow> (\<forall>v e. l = Some (v, e) \<longrightarrow> e < now)"

lemma freeAt_later: "freeAt n l \<Longrightarrow> n \<le> n' \<Longrightarrow> freeAt n' l"
  by (auto simp: freeAt_def)

lemma acquire_answer:
  assumes "acquireCatchUpLock env c s = (Inr lock, t)" "usersOnly s" "we_holder env \<noteq> []"
  shows "wk_others t = wk_others s \<and> handlesOf t = handlesOf s \<and> wakeNow s \<le> wakeNow t \<and>
    (case lock of
       None \<Rightarrow> leasesOf t = leasesOf s
     | Some token \<Rightarrow> freeAt (wakeNow t) (leasesOf s (catchUpLockKey c)) \<and>
         leasesOf t = (leasesOf s)(catchUpLockKey c \<mapsto> (token, wakeNow t + LEASE_TTL_MS)))"
proof -
  note calm = calm_others [OF assms(2), unfolded calm_def]
  let ?u = "othersRun s"
  let ?db = "\<lparr>dbNow = wakeNow ?u, dbData = wd_leases (wakeData ?u), dbCount = dbCount (wk_db ?u), dbFault = dbFault (wk_db ?u)\<rparr>"
  from assms(1) [unfolded acquireCatchUpLock_def] show ?thesis
  proof (rule leaseCall_result)
    fix ldb assume ldb: "acquireOrCreate (we_holder env) (we_uuid env (dbCount (wk_db ?u))) (catchUpLockKey c) (Some LEASE_TTL_MS) ?db = (Inr lock, ldb)"
      and t: "wk_others t = wk_others ?u" "wakeNow t = wakeNow ?u" "handlesOf t = handlesOf ?u" "wd_leases (wakeData t) = dbData ldb"
    show ?thesis
    proof (cases lock)
      case None
      have "rowLease (dbData ldb) = rowLease (dbData ?db)"
        using ldb None by (auto simp: acquireOrCreate_def acquireKey_def bindS_eq_Inr_iff Let_def dest!: tx_Inr rowLease_inserted
            split: option.splits if_splits)
      then show ?thesis using None t calm by simp
    next
      case (Some token)
      have "token = we_uuid env (dbCount (wk_db ?u))"
        using ldb Some by (auto simp: acquireOrCreate_def acquireKey_def bindS_eq_Inr_iff Let_def dest!: tx_Inr
            split: option.splits if_splits)
      with acquireOrCreate_law [OF ldb assms(3)] show ?thesis using Some t calm by (auto simp: freeAt_def)
    qed
  qed
qed

lemma release_answer:
  assumes "releaseCatchUp c token s = (Inr u, t)" "usersOnly s" "leasesOf s (catchUpLockKey c) = Some (token, e)"
  shows "wk_others t = wk_others s \<and> handlesOf t = handlesOf s \<and> wakeNow s \<le> wakeNow t \<and>
    leasesOf t = (leasesOf s)(catchUpLockKey c := None)"
proof -
  note calm = calm_others [OF assms(2), unfolded calm_def]
  let ?u = "othersRun s"
  let ?db = "\<lparr>dbNow = wakeNow ?u, dbData = wd_leases (wakeData ?u), dbCount = dbCount (wk_db ?u), dbFault = dbFault (wk_db ?u)\<rparr>"
  from assms(1) [unfolded releaseCatchUp_def] show ?thesis
  proof (rule leaseCall_result)
    fix ldb assume ldb: "releaseKey (catchUpLockKey c) token ?db = (Inr u, ldb)"
      and t: "wk_others t = wk_others ?u" "wakeNow t = wakeNow ?u" "handlesOf t = handlesOf ?u" "wd_leases (wakeData t) = dbData ldb"
    have "leasesOf ?u (catchUpLockKey c) = Some (token, e)" using calm assms(3) by simp
    then obtain row where "wd_leases (wakeData ?u) (catchUpLockKey c) = Some row" "lr_leaseToken row = token"
      by (auto simp: rowLease_def split: option.splits if_splits)
    then have "dbData ldb = (wd_leases (wakeData ?u))(catchUpLockKey c \<mapsto> freeRow (wakeNow ?u))"
      using ldb by (auto simp: releaseKey_def dest!: tx_Inr)
    then have "rowLease (dbData ldb) = (leasesOf ?u)(catchUpLockKey c := None)"
      by (simp add: rowLease_def freeRow_def fun_eq_iff)
    then show ?thesis using t calm by simp
  qed
qed

definition claimedBy :: "catch_up_claim \<Rightarrow> async_handle \<Rightarrow> bool" where
  "claimedBy x h \<longleftrightarrow> ah_id h = cu_id x \<and> ah_chatId h = cu_chatId x \<and> ah_state h = H_claimed \<and> ah_claimToken h = Some (cu_claimToken x)"

definition claimsRow :: "string \<Rightarrow> async_handle list \<Rightarrow> async_handle list \<Rightarrow> bool" where
  "claimsRow i hs hs' \<longleftrightarrow> map ah_id hs' = map ah_id hs \<and>
     (\<exists>h \<in> set hs. ah_id h = i \<and> ah_state h = H_ready) \<and> (\<forall>h \<in> set hs. ah_id h \<noteq> i \<longrightarrow> h \<in> set hs')"

lemma claimHead_answer:
  assumes "claimHead env c ttl s = (Inr head, t)" "usersOnly s"
  shows "wk_others t = wk_others s \<and> leasesOf t = leasesOf s \<and> wakeNow s \<le> wakeNow t \<and>
    (case head of
       None \<Rightarrow> handlesOf t = handlesOf s
     | Some (i, token) \<Rightarrow> claimsRow i (handlesOf s) (handlesOf t) \<and>
         (\<exists>h \<in> set (handlesOf t). ah_id h = i \<and> ah_chatId h = c \<and> ah_state h = H_claimed \<and> ah_claimToken h = Some token))"
proof -
  note calm = calm_others [OF assms(2), unfolded calm_def]
  define n where "n = dbCount (wk_db s)"
  note res = stmt_result [OF assms(1) [unfolded claimHead_def Let_def]]
  let ?d = "wd_async (wakeData (othersRun s))"
  obtain d where d: "claimReadyHeadForChat (we_locked env n) (we_uuid env n) c ttl (wakeNow t) ?d = (Inr head, d)"
      "wakeData t = (wakeData (othersRun s))\<lparr>wd_async := d\<rparr>"
    using res(4) by (auto simp: n_def split: prod.splits)
  have rest: "wk_others t = wk_others s" "leasesOf t = leasesOf s" "wakeNow s \<le> wakeNow t" "handleTable ?d = handlesOf s"
    using res(1,3) calm d(2) by simp_all
  show ?thesis
  proof (cases "firstQueued (filter (\<lambda>h. claimable (wakeNow t) c h \<and> \<not> we_locked env n (ah_id h)) (handleTable ?d))")
    case None
    then have "head = None" "d = ?d" using d(1) by (simp_all add: claimReadyHeadForChat_def)
    then show ?thesis using rest d(2) by simp
  next
    case (Some row)
    then have row: "row \<in> set (handlesOf s)" "claimable (wakeNow t) c row"
      using firstQueued_in [OF Some] rest(4) by auto
    define upd where "upd h = (if ah_id h = ah_id row then h\<lparr>ah_state := H_claimed, ah_claimToken := Some (we_uuid env n),
        ah_claimedAt := Some (wakeNow t), ah_claimExpiresAt := Some (wakeNow t + ttl), ah_updatedAt := wakeNow t\<rparr> else h)" for h :: async_handle
    have head: "head = Some (ah_id row, we_uuid env n)" and hs: "handlesOf t = map upd (handlesOf s)"
      using d Some rest(4) by (auto simp: claimReadyHeadForChat_def updateRow_def updateHandles_def upd_def)
    have ids: "map ah_id (map upd (handlesOf s)) = map ah_id (handlesOf s)" by (simp add: upd_def)
    have others: "h \<in> set (map upd (handlesOf s))" if "h \<in> set (handlesOf s)" "ah_id h \<noteq> ah_id row" for h
      using that by (auto simp: upd_def intro!: image_eqI [of _ _ h])
    have "upd row \<in> set (map upd (handlesOf s))" using row(1) by simp
    moreover have "ah_id (upd row) = ah_id row \<and> ah_chatId (upd row) = c \<and> ah_state (upd row) = H_claimed \<and>
        ah_claimToken (upd row) = Some (we_uuid env n)"
      using row(2) by (simp add: upd_def claimable_def)
    ultimately have claimed: "\<exists>h \<in> set (map upd (handlesOf s)). ah_id h = ah_id row \<and> ah_chatId h = c \<and> ah_state h = H_claimed \<and>
        ah_claimToken h = Some (we_uuid env n)" by blast
    have "claimsRow (ah_id row) (handlesOf s) (map upd (handlesOf s))"
      unfolding claimsRow_def using ids others row by (auto simp: claimable_def simp del: set_map)
    then show ?thesis using rest claimed unfolding head hs by simp
  qed
qed

text \<open>What handling one candidate does.\<close>

definition handledCandidate :: "string \<Rightarrow> wake_state \<Rightarrow> catch_up_claim option \<Rightarrow> wake_state \<Rightarrow> bool" where
  "handledCandidate c s x t \<longleftrightarrow> wk_others t = wk_others s \<and> wakeNow s \<le> wakeNow t \<and>
     (\<forall>k. k \<noteq> catchUpLockKey c \<longrightarrow> leasesOf t k = leasesOf s k) \<and>
     (case x of
        None \<Rightarrow> handlesOf t = handlesOf s \<and> (leasesOf t (catchUpLockKey c) = leasesOf s (catchUpLockKey c) \<or>
          freeAt (wakeNow t) (leasesOf s (catchUpLockKey c)) \<and> leasesOf t (catchUpLockKey c) = None)
      | Some y \<Rightarrow> cu_chatId y = c \<and> claimsRow (cu_id y) (handlesOf s) (handlesOf t) \<and> (\<exists>h \<in> set (handlesOf t). claimedBy y h) \<and>
          (\<exists>e. leasesOf t (catchUpLockKey c) = Some (cu_lockToken y, e)))"

lemma handled_skip: "calm s t \<Longrightarrow> handledCandidate c s None t"
  by (simp add: calm_def handledCandidate_def)

text \<open>The part of the loop body that runs while the lock is held.\<close>

definition lockedPart :: "wake_env \<Rightarrow> int \<Rightarrow> catch_up_candidate \<Rightarrow> string \<Rightarrow> (wake_state, catch_up_claim option) oper" where
  "lockedPart env ttl c token =
     bindS (evaluateCatchUpGate c) (\<lambda>gate.
       if gate \<noteq> Gate_allowed then bindS (releaseCatchUp (cc_chatId c) token) (\<lambda>_. returnS None)
       else bindS (claimHead env (cc_chatId c) ttl) (\<lambda>head. case head of
           None \<Rightarrow> bindS (releaseCatchUp (cc_chatId c) token) (\<lambda>_. returnS None)
         | Some (i, t) \<Rightarrow> returnS (Some \<lparr>cu_id = i, cu_claimToken = t, cu_chatId = cc_chatId c, cu_lockToken = token\<rparr>)))"

lemma claimCandidate_locked:
  "claimCandidate env ttl c =
     bindS (\<lambda>s. recordCatchUpScan (cc_chatId c) (nowOfCall s) s) (\<lambda>_. bindS (evaluateCatchUpGate c) (\<lambda>g.
       if g \<noteq> Gate_allowed then returnS None
       else bindS (acquireCatchUpLock env (cc_chatId c)) (\<lambda>lock. case lock of None \<Rightarrow> returnS None | Some k \<Rightarrow> lockedPart env ttl c k)))"
  unfolding claimCandidate_def lockedPart_def ..

lemma lock_given_back:
  assumes "releaseCatchUp c token u = (Inr r, v)" "usersOnly u" "calm s u" "leasesOf s (catchUpLockKey c) = Some (token, e)"
  shows "wk_others v = wk_others s \<and> handlesOf v = handlesOf s \<and> wakeNow s \<le> wakeNow v \<and>
    leasesOf v = (leasesOf s)(catchUpLockKey c := None)"
proof -
  have "leasesOf u (catchUpLockKey c) = Some (token, e)" using assms(3,4) by (simp add: calm_def)
  from release_answer [OF assms(1,2) this] assms(3) show ?thesis by (auto simp: calm_def)
qed

lemma lockedPart_answer:
  assumes "lockedPart env ttl c token s = (Inr x, t)" "usersOnly s" "leasesOf s (catchUpLockKey (cc_chatId c)) = Some (token, e)"
  shows "wk_others t = wk_others s \<and> wakeNow s \<le> wakeNow t \<and>
     (case x of
        None \<Rightarrow> handlesOf t = handlesOf s \<and> leasesOf t = (leasesOf s)(catchUpLockKey (cc_chatId c) := None)
      | Some y \<Rightarrow> leasesOf t = leasesOf s \<and> cu_chatId y = cc_chatId c \<and> cu_lockToken y = token \<and>
          claimsRow (cu_id y) (handlesOf s) (handlesOf t) \<and> (\<exists>h \<in> set (handlesOf t). claimedBy y h))"
proof -
  obtain g s1 where gate: "evaluateCatchUpGate c s = (Inr g, s1)"
    and rest: "(if g \<noteq> Gate_allowed then bindS (releaseCatchUp (cc_chatId c) token) (\<lambda>_. returnS None)
       else bindS (claimHead env (cc_chatId c) ttl) (\<lambda>head. case head of
           None \<Rightarrow> bindS (releaseCatchUp (cc_chatId c) token) (\<lambda>_. returnS None)
         | Some (i, t) \<Rightarrow> returnS (Some \<lparr>cu_id = i, cu_claimToken = t, cu_chatId = cc_chatId c, cu_lockToken = token\<rparr>))) s1 = (Inr x, t)"
    using assms(1) unfolding lockedPart_def bindS_eq_Inr_iff by blast
  have c1: "calm s s1" using calming_result [OF calming_gate assms(2) gate] .
  have u1: "usersOnly s1" using calm_usersOnly [OF c1 assms(2)] .
  show ?thesis
  proof (cases "g = Gate_allowed")
    case False
    then show ?thesis using rest lock_given_back [OF _ u1 c1 assms(3)] by (auto simp: bindS_eq_Inr_iff)
  next
    case True
    then obtain head s2 where head: "claimHead env (cc_chatId c) ttl s1 = (Inr head, s2)"
      and rest: "(case head of None \<Rightarrow> bindS (releaseCatchUp (cc_chatId c) token) (\<lambda>_. returnS None)
         | Some (i, t) \<Rightarrow> returnS (Some \<lparr>cu_id = i, cu_claimToken = t, cu_chatId = cc_chatId c, cu_lockToken = token\<rparr>)) s2 = (Inr x, t)"
      using rest by (auto simp: bindS_eq_Inr_iff)
    note h = claimHead_answer [OF head u1]
    show ?thesis
    proof (cases head)
      case None
      then have c2: "calm s s2" using h c1 by (simp add: calm_def)
      then show ?thesis using rest None lock_given_back [OF _ calm_usersOnly [OF c2 assms(2)] c2 assms(3)]
        by (auto simp: bindS_eq_Inr_iff)
    next
      case (Some p)
      then obtain i tok where p: "head = Some (i, tok)" by (cases p) simp
      then have "t = s2" "x = Some \<lparr>cu_id = i, cu_claimToken = tok, cu_chatId = cc_chatId c, cu_lockToken = token\<rparr>"
        using rest by simp_all
      then show ?thesis using h p c1 by (auto simp: calm_def claimedBy_def)
    qed
  qed
qed

lemma claimCandidate_answer:
  assumes "claimCandidate env ttl c s = (Inr x, t)" "usersOnly s" "we_holder env \<noteq> []"
  shows "handledCandidate (cc_chatId c) s x t"
proof -
  obtain g s1 s2 where scan: "recordCatchUpScan (cc_chatId c) (nowOfCall s) s = (Inr (), s1)"
    and gate: "evaluateCatchUpGate c s1 = (Inr g, s2)"
    and rest: "(if g \<noteq> Gate_allowed then returnS None else bindS (acquireCatchUpLock env (cc_chatId c))
       (\<lambda>lock. case lock of None \<Rightarrow> returnS None | Some k \<Rightarrow> lockedPart env ttl c k)) s2 = (Inr x, t)"
    using assms(1) unfolding claimCandidate_locked bindS_eq_Inr_iff by auto
  have c1: "calm s s1" using calming_result [OF calming_scan assms(2)] scan by blast
  have c2: "calm s s2" using calm_trans [OF c1 calming_result [OF calming_gate calm_usersOnly [OF c1 assms(2)] gate]] .
  show ?thesis
  proof (cases "g = Gate_allowed")
    case False
    then show ?thesis using rest handled_skip [OF c2] by simp
  next
    case True
    then obtain lock s3 where lock: "acquireCatchUpLock env (cc_chatId c) s2 = (Inr lock, s3)"
      and rest: "(case lock of None \<Rightarrow> returnS None | Some k \<Rightarrow> lockedPart env ttl c k) s3 = (Inr x, t)"
      using rest by (auto simp: bindS_eq_Inr_iff)
    have u2: "usersOnly s2" using calm_usersOnly [OF c2 assms(2)] .
    note a = acquire_answer [OF lock u2 assms(3)]
    show ?thesis
    proof (cases lock)
      case None
      then have "calm s2 s3" using a by (simp add: calm_def)
      then show ?thesis using rest None handled_skip calm_trans [OF c2] by simp
    next
      case (Some token)
      have u3: "usersOnly s3" using a u2 by (simp add: usersOnly_def)
      have held: "leasesOf s3 (catchUpLockKey (cc_chatId c)) = Some (token, wakeNow s3 + LEASE_TTL_MS)" using a Some by simp
      have part: "lockedPart env ttl c token s3 = (Inr x, t)" using rest Some by simp
      note l = lockedPart_answer [OF part u3 held]
      have "freeAt (wakeNow t) (leasesOf s (catchUpLockKey (cc_chatId c)))"
        using a l c2 Some freeAt_later [of "wakeNow s3" _ "wakeNow t"] by (simp add: calm_def)
      then show ?thesis using a l c2 Some by (cases x) (auto simp: handledCandidate_def calm_def)
    qed
  qed
qed

text \<open>What a batch leaves behind, of which \<open>ys\<close> are the claims.\<close>

definition batchHeld :: "wake_state \<Rightarrow> catch_up_claim list \<Rightarrow> wake_state \<Rightarrow> bool" where
  "batchHeld s ys t \<longleftrightarrow>
     (\<forall>y \<in> set ys. (\<exists>e. leasesOf t (catchUpLockKey (cu_chatId y)) = Some (cu_lockToken y, e)) \<and>
        (\<exists>h \<in> set (handlesOf t). claimedBy y h)) \<and>
     (\<forall>k. k \<notin> catchUpLockKey ` cu_chatId ` set ys \<longrightarrow>
        leasesOf t k = leasesOf s k \<or> freeAt (wakeNow t) (leasesOf s k) \<and> leasesOf t k = None)"

lemma lockKey_inject [simp]: "catchUpLockKey c = catchUpLockKey d \<longleftrightarrow> c = d"
  by (simp add: catchUpLockKey_def)

lemma claimsRow_keeps:
  assumes "claimsRow i hs hs'" "distinct (map ah_id hs)" "h \<in> set hs" "ah_state h \<noteq> H_ready"
  shows "h \<in> set hs'"
proof -
  obtain g where "g \<in> set hs" "ah_id g = i" "ah_state g = H_ready" using assms(1) by (auto simp: claimsRow_def)
  then have "ah_id h \<noteq> i" using assms(2-4) by (auto simp: distinct_map dest: inj_onD)
  then show ?thesis using assms(1,3) by (simp add: claimsRow_def)
qed

definition batchStep :: "catch_up_candidate list \<Rightarrow> wake_state \<Rightarrow> catch_up_claim list \<Rightarrow> wake_state \<Rightarrow> bool" where
  "batchStep cs s ys t \<longleftrightarrow> wakeNow s \<le> wakeNow t \<and> cu_chatId ` set ys \<subseteq> cc_chatId ` set cs \<and> distinct (map cu_chatId ys) \<and>
     (\<forall>k. k \<notin> catchUpLockKey ` cc_chatId ` set cs \<longrightarrow> leasesOf t k = leasesOf s k) \<and> batchHeld s ys t \<and>
     (\<forall>h \<in> set (handlesOf s). ah_state h \<noteq> H_ready \<longrightarrow> h \<in> set (handlesOf t))"

lemma handled_facts:
  assumes "handledCandidate c s x u" "distinct (map ah_id (handlesOf s))"
  shows "distinct (map ah_id (handlesOf u))" "\<forall>h \<in> set (handlesOf s). ah_state h \<noteq> H_ready \<longrightarrow> h \<in> set (handlesOf u)"
    "wk_others u = wk_others s" "wakeNow s \<le> wakeNow u"
proof -
  show "wk_others u = wk_others s" "wakeNow s \<le> wakeNow u" using assms(1) by (simp_all add: handledCandidate_def)
  have "handlesOf u = handlesOf s \<or> (\<exists>i. claimsRow i (handlesOf s) (handlesOf u))"
    using assms(1) by (cases x) (auto simp: handledCandidate_def)
  then consider "handlesOf u = handlesOf s" | i where "claimsRow i (handlesOf s) (handlesOf u)" by blast
  then have "distinct (map ah_id (handlesOf u)) \<and> (\<forall>h \<in> set (handlesOf s). ah_state h \<noteq> H_ready \<longrightarrow> h \<in> set (handlesOf u))"
  proof cases
    case 1
    then show ?thesis using assms(2) by simp
  next
    case (2 i)
    have "map ah_id (handlesOf u) = map ah_id (handlesOf s)" using 2 unfolding claimsRow_def by (rule conjunct1)
    then have "distinct (map ah_id (handlesOf u))" using assms(2) by (simp only:)
    with claimsRow_keeps [OF 2 assms(2)] show ?thesis by blast
  qed
  then show "distinct (map ah_id (handlesOf u))" "\<forall>h \<in> set (handlesOf s). ah_state h \<noteq> H_ready \<longrightarrow> h \<in> set (handlesOf u)"
    by simp_all
qed

lemma batchStep_Cons:
  assumes step: "handledCandidate (cc_chatId c) s x u" and rest: "batchStep cs u ys t"
    and ids: "distinct (map ah_id (handlesOf s))" and new: "cc_chatId c \<notin> cc_chatId ` set cs"
  shows "batchStep (c # cs) s (case x of None \<Rightarrow> ys | Some y \<Rightarrow> y # ys) t"
proof -
  let ?k = "catchUpLockKey (cc_chatId c)"
  note facts = handled_facts [OF step ids]
  have others: "leasesOf u k = leasesOf s k" if "k \<noteq> ?k" for k using step that by (simp add: handledCandidate_def)
  have "?k \<notin> catchUpLockKey ` cc_chatId ` set cs" using new by auto
  then have own: "leasesOf t ?k = leasesOf u ?k" using rest by (simp add: batchStep_def)
  have kept: "h \<in> set (handlesOf t)" if "h \<in> set (handlesOf u)" "ah_state h \<noteq> H_ready" for h
    using rest that by (simp add: batchStep_def)
  have later: "wakeNow u \<le> wakeNow t" using rest by (simp add: batchStep_def)
  have chats: "cu_chatId ` set ys \<subseteq> cc_chatId ` set cs" using rest by (simp add: batchStep_def)
  have held: "batchHeld s (case x of None \<Rightarrow> ys | Some y \<Rightarrow> y # ys) t"
    unfolding batchHeld_def
  proof (intro conjI ballI allI impI)
    fix y assume y: "y \<in> set (case x of None \<Rightarrow> ys | Some y \<Rightarrow> y # ys)"
    show "\<exists>e. leasesOf t (catchUpLockKey (cu_chatId y)) = Some (cu_lockToken y, e)" "\<exists>h \<in> set (handlesOf t). claimedBy y h"
    proof (atomize (full), cases "x = Some y")
      case True
      then show "(\<exists>e. leasesOf t (catchUpLockKey (cu_chatId y)) = Some (cu_lockToken y, e)) \<and> (\<exists>h \<in> set (handlesOf t). claimedBy y h)"
        using step own kept by (auto simp: handledCandidate_def claimedBy_def)
    next
      case False
      then have "y \<in> set ys" using y by (cases x) auto
      then show "(\<exists>e. leasesOf t (catchUpLockKey (cu_chatId y)) = Some (cu_lockToken y, e)) \<and> (\<exists>h \<in> set (handlesOf t). claimedBy y h)"
        using rest by (simp add: batchStep_def batchHeld_def)
    qed
  next
    fix k assume k: "k \<notin> catchUpLockKey ` cu_chatId ` set (case x of None \<Rightarrow> ys | Some y \<Rightarrow> y # ys)"
    show "leasesOf t k = leasesOf s k \<or> freeAt (wakeNow t) (leasesOf s k) \<and> leasesOf t k = None"
    proof (cases "k = ?k")
      case True
      then have "x = None" using k step by (auto simp: handledCandidate_def split: option.splits)
      then show ?thesis using True step own freeAt_later [OF _ later] by (auto simp: handledCandidate_def)
    next
      case False
      have "k \<notin> catchUpLockKey ` cu_chatId ` set ys" using k by (cases x) auto
      then have "leasesOf t k = leasesOf u k \<or> freeAt (wakeNow t) (leasesOf u k) \<and> leasesOf t k = None"
        using rest unfolding batchStep_def batchHeld_def by blast
      then show ?thesis using others [OF False] by simp
    qed
  qed
  have "cu_chatId y = cc_chatId c" if "x = Some y" for y using step that by (simp add: handledCandidate_def)
  then show ?thesis
    unfolding batchStep_def using held rest others facts(2,4) later chats new kept by (cases x) (auto simp: batchStep_def)
qed

lemma claimLoop_result:
  assumes "claimLoop env limit ttl cs claimed s = (Inr out, t)" "usersOnly s" "we_holder env \<noteq> []"
    and "distinct (map ah_id (handlesOf s))" "distinct (map cc_chatId cs)" "length claimed \<le> limit"
  shows "\<exists>ys. out = claimed @ ys \<and> length out \<le> limit \<and> batchStep cs s ys t"
  using assms
proof (induction cs arbitrary: claimed s)
  case Nil
  then show ?case by (auto simp: batchStep_def batchHeld_def)
next
  case (Cons c cs)
  show ?case
  proof (cases "limit \<le> length claimed")
    case True
    then show ?thesis using Cons.prems by (auto simp: batchStep_def batchHeld_def)
  next
    case False
    then obtain x u where x: "claimCandidate env ttl c s = (Inr x, u)"
        "claimLoop env limit ttl cs (case x of None \<Rightarrow> claimed | Some y \<Rightarrow> claimed @ [y]) u = (Inr out, t)"
      using Cons.prems(1) by (auto simp: bindS_eq_Inr_iff)
    note step = claimCandidate_answer [OF x(1) Cons.prems(2,3)]
    note facts = handled_facts [OF step Cons.prems(4)]
    have "usersOnly u" using facts(3) Cons.prems(2) by (simp add: usersOnly_def)
    moreover have "length (case x of None \<Rightarrow> claimed | Some y \<Rightarrow> claimed @ [y]) \<le> limit" using False by (cases x) simp_all
    ultimately obtain ys where ys: "out = (case x of None \<Rightarrow> claimed | Some y \<Rightarrow> claimed @ [y]) @ ys" "length out \<le> limit" "batchStep cs u ys t"
      using Cons.IH [OF x(2) _ Cons.prems(3) facts(1)] Cons.prems(5) by auto
    have "batchStep (c # cs) s (case x of None \<Rightarrow> ys | Some y \<Rightarrow> y # ys) t"
      using batchStep_Cons [OF step ys(3) Cons.prems(4)] Cons.prems(5) by simp
    moreover have "out = claimed @ (case x of None \<Rightarrow> ys | Some y \<Rightarrow> y # ys)" using ys(1) by (cases x) simp_all
    ultimately show ?thesis using ys(2) by blast
  qed
qed

lemma addCandidates_distinct:
  "distinct (map cc_chatId cs) \<Longrightarrow> distinct (map cc_chatId (addCandidates page cs))"
  unfolding addCandidates_def by (induction page arbitrary: cs) auto

lemma scanPages_distinct:
  "scanPages scanCap k cursor cs s = (Inr out, t) \<Longrightarrow> distinct (map cc_chatId cs) \<Longrightarrow> distinct (map cc_chatId out)"
proof (induction scanCap k cursor cs arbitrary: s rule: scanPages.induct)
  case (1 scanCap k cursor cs)
  let ?n = "min CATCHUP_CANDIDATE_PAGE_SIZE (scanCap - k)"
  show ?case
  proof (cases "k < scanCap")
    case True
    then obtain page u where page: "(if page = [] then returnS cs else if length page < ?n then returnS (addCandidates page cs)
        else scanPages scanCap (k + length page) (Some (scanKey (last page))) (addCandidates page cs)) u = (Inr out, t)"
      using 1(2) unfolding scanPages_page [OF True] bindS_eq_Inr_iff by blast
    show ?thesis
    proof (cases "page = [] \<or> length page < ?n")
      case True
      then show ?thesis using page 1(3) addCandidates_distinct [OF 1(3)] by (auto split: if_splits)
    next
      case False
      then have "scanPages scanCap (k + length page) (Some (scanKey (last page))) (addCandidates page cs) u = (Inr out, t)"
        using page by (simp only: if_False de_Morgan_disj)
      from 1(1) [OF \<open>k < scanCap\<close> refl _ refl _ this addCandidates_distinct [OF 1(3)]] False show ?thesis by simp
    qed
  next
    case False
    then show ?thesis using 1 by (simp add: scanPages.simps)
  qed
qed

lemma calming_pages: "calming (scanPages scanCap k cursor cs)"
proof (induction scanCap k cursor cs rule: scanPages.induct)
  case (1 scanCap k cursor cs)
  let ?n = "min CATCHUP_CANDIDATE_PAGE_SIZE (scanCap - k)"
  show ?case
  proof (cases "k < scanCap")
    case True
    have page: "calming (stmt (candidatePage cursor ?n))"
      by (rule calming_stmt) (simp add: candidatePage_def)
    have rest: "calming (if page = [] then returnS cs else if length page < ?n then returnS (addCandidates page cs)
        else scanPages scanCap (k + length page) (Some (scanKey (last page))) (addCandidates page cs))" for page
      using 1 [OF True refl _ refl] by (simp add: calming_return)
    show ?thesis
      unfolding scanPages_page [OF True] by (rule calming_bind [OF page rest])
  next
    case False
    then show ?thesis by (subst scanPages.simps) (simp only: if_False calming_return)
  qed
qed



end
