(* ===== verification/ChatTodos.thy ===== *)
theory ChatTodos
  imports AsyncJobStore
begin

text \<open>
  The plan of a chat (\<open>assistant-chat-todos.service.ts\<close>): a forest of todo items that the model keeps through one tool,
  with the checks on parents, status and size, and the window of the plan that is shown.

  Every mutation is one transaction; rows of a chat are read in the order of \<open>sortOrder\<close> and \<open>createdAt\<close>. The ids of new
  rows are the argument \<open>newId\<close>. Deleting a row deletes the rows below it (\<open>onDelete: Cascade\<close>). A parent key and the root of the plan are
  an optional id, where the code uses the key \<open>__root__\<close>. \<open>typeof\<close> tests that the types make true are left out.
\<close>

section \<open>Rows and input\<close>

definition HARD_ACTIVE_CAP :: nat where
  "HARD_ACTIVE_CAP = 500"

definition SOFT_ACTIVE_CAP :: nat where
  "SOFT_ACTIVE_CAP = 200"

definition MAX_CONTENT_LENGTH :: nat where
  "MAX_CONTENT_LENGTH = 240"

definition MAX_ADD_ITEMS_PER_CALL :: nat where
  "MAX_ADD_ITEMS_PER_CALL = 50"

definition WEB_PLAN_RESPONSE_MAX :: nat where
  "WEB_PLAN_RESPONSE_MAX = 50"

definition RUNTIME_CHAT_PLAN_WINDOW_MAX :: nat where
  "RUNTIME_CHAT_PLAN_WINDOW_MAX = 12"

datatype todo_status = Todo_pending | Todo_in_progress | Todo_completed

record todo_row =
  td_id :: string
  td_chatId :: string
  td_assistantId :: string
  td_parentId :: "string option"
  td_content :: string
  td_status :: todo_status
  td_sortOrder :: int
  td_createdAt :: int
  td_updatedAt :: int
  td_completedAt :: "int option"

record todo_item =
  ti_id :: string
  ti_parentId :: "string option"
  ti_content :: string
  ti_status :: todo_status

record todo_data =
  todoTable :: "todo_row list"
  todoChats :: "chat_row list"

record todo_add_item =
  ai_content :: string
  ai_parentId :: "string option"
  ai_status :: "todo_status option"

text \<open>\<open>up_parentId\<close> is \<open>None\<close> for undefined, \<open>Some None\<close> for null.\<close>

record todo_update =
  up_id :: string
  up_content :: "string option"
  up_status :: "todo_status option"
  up_parentId :: "string option option"

datatype todo_action =
    Add_items "todo_add_item list"
  | Update_item todo_update
  | Complete_item string
  | Remove_item string
  | Clear_plan

datatype apply_outcome = Applied | Skipped

record todo_change =
  tc_action :: apply_outcome
  tc_reason :: "string option"
  tc_warning :: "string option"
  tc_finalRows :: "todo_row list"

record todo_result =
  tr_action :: apply_outcome
  tr_reason :: "string option"
  tr_warning :: "string option"
  tr_todos :: "todo_item list"
  tr_windowed :: bool
  tr_totalCount :: nat
  tr_chatId :: string

section \<open>Normalization\<close>

text \<open>\<open>replace(/\s+/g, " ")\<close>\<close>

fun collapseSpaces :: "bool \<Rightarrow> string \<Rightarrow> string" where
  "collapseSpaces inSpace [] = []"
| "collapseSpaces inSpace (c # cs) =
     (if js_white c then (if inSpace then collapseSpaces True cs else CHR '' '' # collapseSpaces True cs)
      else c # collapseSpaces False cs)"

definition normalizeContent :: "string \<Rightarrow> string outcome" where
  "normalizeContent v =
     (let trimmed = collapseSpaces False (js_trim v) in
      if trimmed = [] then Inl (BadRequestException ''content must be a non-empty string.'')
      else if length trimmed > MAX_CONTENT_LENGTH
      then Inl (BadRequestException (''content exceeds the '' @ showInt (int MAX_CONTENT_LENGTH) @ ''-char limit.''))
      else Inr trimmed)"

definition normalizeOptionalParentId :: "string option \<Rightarrow> string option" where
  "normalizeOptionalParentId v =
     (case v of None \<Rightarrow> None | Some s \<Rightarrow> (let trimmed = js_trim s in if trimmed = [] then None else Some trimmed))"

definition normalizeAddItem :: "todo_add_item \<Rightarrow> (string \<times> string option \<times> todo_status) outcome" where
  "normalizeAddItem i =
     (case normalizeContent (ai_content i) of
        Inl e \<Rightarrow> Inl e
      | Inr content \<Rightarrow>
          (let parentId = normalizeOptionalParentId (ai_parentId i) in
           case ai_status i of
             None \<Rightarrow> Inr (content, parentId, Todo_pending)
           | Some st \<Rightarrow>
               if st = Todo_completed then Inl (BadRequestException ''Cannot start a new todo with status=completed.'')
               else Inr (content, parentId, st)))"

fun mapOutcome :: "('a \<Rightarrow> 'b outcome) \<Rightarrow> 'a list \<Rightarrow> 'b list outcome" where
  "mapOutcome f [] = Inr []"
| "mapOutcome f (x # xs) =
     (case f x of Inl e \<Rightarrow> Inl e | Inr y \<Rightarrow> (case mapOutcome f xs of Inl e \<Rightarrow> Inl e | Inr ys \<Rightarrow> Inr (y # ys)))"

section \<open>Rows of a chat\<close>

definition planOrder :: "todo_row list \<Rightarrow> todo_row list" where
  "planOrder rows = sort_key td_sortOrder (sort_key td_createdAt rows)"

definition loadAllRows :: "string \<Rightarrow> todo_data \<Rightarrow> todo_row list" where
  "loadAllRows chatId d = planOrder (filter (\<lambda>r. td_chatId r = chatId) (todoTable d))"

definition findRow :: "string \<Rightarrow> todo_row list \<Rightarrow> todo_row option" where
  "findRow i rows = find (\<lambda>r. td_id r = i) rows"

definition parentOf :: "todo_row list \<Rightarrow> string \<Rightarrow> string option" where
  "parentOf rows i = (case findRow i rows of None \<Rightarrow> None | Some r \<Rightarrow> td_parentId r)"

section \<open>The check for cycles\<close>

definition childIds :: "todo_row list \<Rightarrow> string \<Rightarrow> string set \<Rightarrow> string list" where
  "childIds rows i known = remdups (map td_id (filter (\<lambda>r. td_parentId r = Some i \<and> td_id r \<notin> known) rows))"

lemma childIds_new: "set (childIds rows i known) \<subseteq> td_id ` set rows - known"
  by (auto simp: childIds_def)

function collectDescendants :: "todo_row list \<Rightarrow> string list \<Rightarrow> string set \<Rightarrow> string set" where
  "collectDescendants rows [] known = known"
| "collectDescendants rows (current # queue) known =
     collectDescendants rows (queue @ childIds rows current known) (known \<union> set (childIds rows current known))"
  by pat_completeness auto

termination
proof (relation "measure (\<lambda>(rows, queue, known). card (td_id ` set rows - known) + length queue)", goal_cases)
  case (2 rows current queue known)
  let ?new = "childIds rows current known" and ?ids = "td_id ` set rows"
  have diff: "?ids - (known \<union> set ?new) = (?ids - known) - set ?new" by blast
  have "card (?ids - (known \<union> set ?new)) = card (?ids - known) - card (set ?new)" "card (set ?new) \<le> card (?ids - known)"
    unfolding diff using childIds_new [of rows current known] by (auto intro: card_Diff_subset card_mono)
  moreover have "card (set ?new) = length ?new" by (rule distinct_card) (simp add: childIds_def)
  ultimately show ?case by simp
qed simp

lemma parentOf_Some: "parentOf rows i = Some p \<Longrightarrow> i \<in> td_id ` set rows \<and> (\<exists>r \<in> set rows. td_id r = i \<and> td_parentId r = Some p)"
  by (auto simp: parentOf_def findRow_def find_Some_iff split: option.splits)

text \<open>The walk from the candidate towards the root; a repeated row is a cycle that was there before.\<close>

function walkUp :: "todo_row list \<Rightarrow> string \<Rightarrow> string set \<Rightarrow> string option \<Rightarrow> string set \<Rightarrow> bool outcome" where
  "walkUp rows movingId descendants None seen = Inr False"
| "walkUp rows movingId descendants (Some cursor) seen =
     (if cursor = movingId then Inr True
      else if cursor \<in> descendants then Inr True
      else if cursor \<in> seen
      then Inl (ServiceUnavailableException (''Cycle detected in existing chat plan involving '' @ quoted cursor @ ''.''))
      else walkUp rows movingId descendants (parentOf rows cursor) (insert cursor seen))"
  by pat_completeness auto

termination
proof (relation "measure (\<lambda>(rows, m, ds, cursor, seen). 2 * card (td_id ` set rows - seen) +
    (case cursor of None \<Rightarrow> 0 | Some c \<Rightarrow> if c \<in> td_id ` set rows then 1 else 2))", goal_cases)
  case (2 rows m ds cursor seen)
  show ?case
  proof (cases "cursor \<in> td_id ` set rows")
    case True
    then have "card (td_id ` set rows - insert cursor seen) < card (td_id ` set rows - seen)"
      using 2(3) by (intro psubset_card_mono) auto
    then show ?thesis using True by (auto split: option.split)
  next
    case False
    then have "parentOf rows cursor = None" using parentOf_Some by (cases "parentOf rows cursor") blast+
    moreover have "td_id ` set rows - insert cursor seen = td_id ` set rows - seen" using False by blast
    ultimately show ?thesis using False by simp
  qed
qed simp

definition wouldCreateCycle :: "todo_row list \<Rightarrow> string \<Rightarrow> string \<Rightarrow> bool outcome" where
  "wouldCreateCycle rows movingId candidateParentId =
     (if movingId = candidateParentId then Inr True
      else walkUp rows movingId (collectDescendants rows [movingId] {}) (Some candidateParentId) {})"

section \<open>The window of the plan\<close>

text \<open>
  \<open>tryAdd\<close>: select a row together with the rows above it, if all fit. The set of selected ids is a list without
  repetitions.
\<close>

function tryAdd :: "todo_row list \<Rightarrow> string \<Rightarrow> string list \<Rightarrow> bool \<times> string list" where
  "tryAdd rows i selected =
     (if i \<in> set selected then (True, selected)
      else if length selected \<ge> RUNTIME_CHAT_PLAN_WINDOW_MAX then (False, selected)
      else
        let selected1 = i # selected in
        case parentOf rows i of
          None \<Rightarrow> (True, selected1)
        | Some p \<Rightarrow>
            if findRow p rows = None \<or> p \<in> set selected1 then (True, selected1)
            else if length selected1 \<ge> RUNTIME_CHAT_PLAN_WINDOW_MAX then (False, removeAll i selected1)
            else (case tryAdd rows p selected1 of
                    (True, selected2) \<Rightarrow> (True, selected2)
                  | (False, selected2) \<Rightarrow> (False, removeAll i selected2)))"
  by pat_completeness auto
termination
  by (relation "measure (\<lambda>(rows, i, selected). RUNTIME_CHAT_PLAN_WINDOW_MAX - length selected)") auto

declare tryAdd.simps [simp del]

text \<open>\<open>for (const id of ids) if (!tryAdd(id)) break;\<close>\<close>

fun addAll :: "todo_row list \<Rightarrow> string list \<Rightarrow> string list \<Rightarrow> string list" where
  "addAll rows [] selected = selected"
| "addAll rows (i # ids) selected =
     (case tryAdd rows i selected of (True, selected1) \<Rightarrow> addAll rows ids selected1 | (False, selected1) \<Rightarrow> selected1)"

text \<open>
  \<open>renderSubtree\<close> with its recursion as a list of calls to come: a row that is new is shown, then the selected rows
  below it, then what was to come.
\<close>

lemma findRow_Some: "findRow i rows = Some r \<Longrightarrow> r \<in> set rows \<and> td_id r = i"
  by (auto simp: findRow_def find_Some_iff)

function renderRows :: "todo_row list \<Rightarrow> string list \<Rightarrow> string list \<Rightarrow> string set \<Rightarrow> todo_row list" where
  "renderRows rows selected [] visited = []"
| "renderRows rows selected (i # calls) visited =
     (if i \<in> visited then renderRows rows selected calls visited
      else (case findRow i rows of
              None \<Rightarrow> renderRows rows selected calls visited
            | Some r \<Rightarrow> r # renderRows rows selected
                (map td_id (filter (\<lambda>c. td_parentId c = Some i \<and> td_id c \<in> set selected) rows) @ calls) (insert i visited)))"
  by pat_completeness auto

termination
proof (relation "measures [\<lambda>(rows, selected, calls, visited). card (td_id ` set rows - visited),
    \<lambda>(rows, selected, calls, visited). length calls]", goal_cases)
  case (4 rows selected i calls visited r)
  then have "i \<in> td_id ` set rows - visited" using findRow_Some by blast
  then have "card (td_id ` set rows - insert i visited) < card (td_id ` set rows - visited)"
    by (intro psubset_card_mono) auto
  then show ?case by simp
qed auto

definition todoItem :: "todo_row \<Rightarrow> todo_item" where
  "todoItem r = \<lparr>ti_id = td_id r, ti_parentId = td_parentId r, ti_content = td_content r, ti_status = td_status r\<rparr>"

definition idsWith :: "todo_status \<Rightarrow> todo_row list \<Rightarrow> string list" where
  "idsWith st rows = map td_id (filter (\<lambda>r. td_status r = st) rows)"

text \<open>The latest completed first.\<close>

definition completedMostRecent :: "todo_row list \<Rightarrow> string list" where
  "completedMostRecent rows =
     map td_id (sort_key (\<lambda>r. - (case td_completedAt r of Some t \<Rightarrow> t | None \<Rightarrow> td_updatedAt r))
       (filter (\<lambda>r. td_status r = Todo_completed) rows))"

definition selectedIds :: "todo_row list \<Rightarrow> string list" where
  "selectedIds ordered =
     addAll ordered (take 2 (completedMostRecent ordered))
       (addAll ordered (take 6 (idsWith Todo_pending ordered))
         (addAll ordered (idsWith Todo_in_progress ordered) []))"

definition selectChatPlanWindow :: "todo_row list \<Rightarrow> todo_item list \<times> bool" where
  "selectChatPlanWindow rows =
     (if rows = [] then ([], False)
      else
        let ordered = planOrder rows;
            selected = selectedIds ordered;
            topLevel = filter (\<lambda>r. td_id r \<in> set selected \<and>
              (case td_parentId r of None \<Rightarrow> True | Some p \<Rightarrow> p \<notin> set selected)) ordered;
            rendered = renderRows ordered selected
              (map td_id topLevel @ map td_id (filter (\<lambda>r. td_id r \<in> set selected) ordered)) {}
        in (map todoItem rendered, length rows > length rendered))"

section \<open>Operations\<close>

definition buildResult :: "string \<Rightarrow> todo_change \<Rightarrow> todo_result" where
  "buildResult chatId c =
     (let (todos, windowed) = selectChatPlanWindow (tc_finalRows c) in
      \<lparr>tr_action = tc_action c, tr_reason = tc_reason c, tr_warning = tc_warning c, tr_todos = todos, tr_windowed = windowed,
       tr_totalCount = length (tc_finalRows c), tr_chatId = chatId\<rparr>)"

definition skipped :: "string \<Rightarrow> todo_row list \<Rightarrow> todo_change" where
  "skipped reason rows = \<lparr>tc_action = Skipped, tc_reason = Some reason, tc_warning = None, tc_finalRows = rows\<rparr>"

definition applied :: "string option \<Rightarrow> todo_row list \<Rightarrow> todo_change" where
  "applied warning rows = \<lparr>tc_action = Applied, tc_reason = None, tc_warning = warning, tc_finalRows = rows\<rparr>"

text \<open>\<open>assistantChatTodo.create\<close>: the primary key must be new.\<close>

definition createTodo :: "todo_row \<Rightarrow> (todo_data, todo_row) oper" where
  "createTodo r d =
     (if td_id r \<in> td_id ` set (todoTable d) then (Inl uniqueViolation, d)
      else (Inr r, d\<lparr>todoTable := todoTable d @ [r]\<rparr>))"

text \<open>The highest order below a parent, at least 0, and whether a row there is in progress.\<close>

definition orderCursor :: "todo_row list \<Rightarrow> string option \<Rightarrow> int" where
  "orderCursor rows bucket =
     fold (\<lambda>r m. if td_parentId r = bucket \<and> td_sortOrder r > m then td_sortOrder r else m) rows 0"

definition anyInProgress :: "todo_row list \<Rightarrow> string option \<Rightarrow> bool" where
  "anyInProgress rows bucket \<longleftrightarrow> (\<exists>r \<in> set rows. td_parentId r = bucket \<and> td_status r = Todo_in_progress)"

text \<open>The loop over the new items; the two maps of the code are functions, \<open>coerced\<close> counts the items made pending.\<close>

fun addLoop ::
  "string \<Rightarrow> string \<Rightarrow> (nat \<Rightarrow> string) \<Rightarrow> int \<Rightarrow> (string option \<Rightarrow> int) \<Rightarrow> (string option \<Rightarrow> bool) \<Rightarrow> nat \<Rightarrow> todo_row list \<Rightarrow>
   (string \<times> string option \<times> todo_status) list \<Rightarrow> (todo_data, todo_row list \<times> nat) oper" where
  "addLoop chatId assistantId newId now orders busy coerced created [] = returnS (created, coerced)"
| "addLoop chatId assistantId newId now orders busy coerced created ((content, bucket, st) # items) =
     (let nextOrder = orders bucket + 1;
          refuse = (st = Todo_in_progress \<and> busy bucket);
          effective = (if refuse then Todo_pending else st)
      in bindS (createTodo \<lparr>td_id = newId (length created), td_chatId = chatId, td_assistantId = assistantId, td_parentId = bucket,
                 td_content = content, td_status = effective, td_sortOrder = nextOrder, td_createdAt = now, td_updatedAt = now,
                 td_completedAt = None\<rparr>) (\<lambda>row.
         addLoop chatId assistantId newId now (orders(bucket := nextOrder))
           (if effective = Todo_in_progress then busy(bucket := True) else busy)
           (if refuse then Suc coerced else coerced) (created @ [row]) items))"

fun checkParents :: "todo_row list \<Rightarrow> string option list \<Rightarrow> unit outcome" where
  "checkParents rows [] = Inr ()"
| "checkParents rows (None # ps) = checkParents rows ps"
| "checkParents rows (Some p # ps) =
     (case findRow p rows of
        None \<Rightarrow> Inl (BadRequestException (''parentId '' @ quoted p @ '' does not exist in this chat.''))
      | Some parent \<Rightarrow>
          if td_status parent = Todo_completed
          then Inl (BadRequestException (''parentId '' @ quoted p @ '' is completed; cannot attach new children.''))
          else checkParents rows ps)"

definition addWarning :: "nat \<Rightarrow> nat \<Rightarrow> string option" where
  "addWarning coerced count =
     (if coerced = 1 then Some ''1 new item was coerced to pending because another sibling is already in_progress.''
      else if coerced > 0
      then Some (showInt (int coerced) @ '' new items were coerced to pending because another sibling is already in_progress.'')
      else if count > SOFT_ACTIVE_CAP
      then Some (''Chat plan now has '' @ showInt (int count) @ '' active items, above the soft cap of '' @
             showInt (int SOFT_ACTIVE_CAP) @ ''. Older items will roll out of the visible window.'')
      else None)"

definition addTx ::
  "string \<Rightarrow> string \<Rightarrow> (nat \<Rightarrow> string) \<Rightarrow> (string \<times> string option \<times> todo_status) list \<Rightarrow> int \<Rightarrow> (todo_data, todo_change) oper" where
  "addTx chatId assistantId newId items now d =
     (let existing = loadAllRows chatId d in
      if length existing + length items > HARD_ACTIVE_CAP then (Inr (skipped ''cap_exceeded'' existing), d)
      else (case checkParents existing (map (fst \<circ> snd) items) of
              Inl e \<Rightarrow> (Inl e, d)
            | Inr _ \<Rightarrow>
                bindS (addLoop chatId assistantId newId now (orderCursor existing) (anyInProgress existing) 0 [] items)
                  (\<lambda>(created, coerced). returnS (applied (addWarning coerced (length existing + length created)) (existing @ created))) d))"

definition handleAdd ::
  "string \<Rightarrow> string \<Rightarrow> (nat \<Rightarrow> string) \<Rightarrow> todo_add_item list \<Rightarrow> (todo_data database, todo_result) oper" where
  "handleAdd chatId assistantId newId items =
     (if items = [] then throwS (BadRequestException ''add action requires at least one item.'')
      else if length items > MAX_ADD_ITEMS_PER_CALL
      then throwS (BadRequestException (''add action cannot exceed '' @ showInt (int MAX_ADD_ITEMS_PER_CALL) @ '' items per call.''))
      else (case mapOutcome normalizeAddItem items of
              Inl e \<Rightarrow> throwS e
            | Inr normalized \<Rightarrow>
                bindS (tx (addTx chatId assistantId newId normalized)) (\<lambda>c. returnS (buildResult chatId c))))"

definition updateTodo :: "string \<Rightarrow> (todo_row \<Rightarrow> todo_row) \<Rightarrow> todo_data \<Rightarrow> todo_data" where
  "updateTodo i f d = d\<lparr>todoTable := map (\<lambda>r. if td_id r = i then f r else r) (todoTable d)\<rparr>"

definition checkReparent :: "todo_row list \<Rightarrow> string \<Rightarrow> string option \<Rightarrow> unit outcome" where
  "checkReparent rows i parentId =
     (case parentId of
        None \<Rightarrow> Inr ()
      | Some p \<Rightarrow>
          (case findRow p rows of
             None \<Rightarrow> Inl (BadRequestException (''parentId '' @ quoted p @ '' does not exist in this chat.''))
           | Some parent \<Rightarrow>
               if td_status parent = Todo_completed
               then Inl (BadRequestException (''parentId '' @ quoted p @ '' is completed; cannot attach as parent.''))
               else (case wouldCreateCycle rows i p of
                       Inl e \<Rightarrow> Inl e
                     | Inr cyclic \<Rightarrow>
                         if cyclic then Inl (BadRequestException (''Reparenting '' @ quoted i @ '' under '' @ quoted p @ '' would create a cycle.''))
                         else Inr ())))"

text \<open>What forbids the new status: \<open>nextParentId\<close> is the parent after the update.\<close>

definition statusRefused :: "todo_row list \<Rightarrow> string \<Rightarrow> string option \<Rightarrow> todo_status option \<Rightarrow> string option" where
  "statusRefused rows i nextParentId st =
     (case st of
        Some Todo_completed \<Rightarrow>
          if \<exists>r \<in> set rows. td_parentId r = Some i \<and> td_status r \<noteq> Todo_completed then Some ''children_open'' else None
      | Some Todo_in_progress \<Rightarrow>
          if \<exists>r \<in> set rows. td_id r \<noteq> i \<and> td_parentId r = nextParentId \<and> td_status r = Todo_in_progress
          then Some ''sibling_in_progress'' else None
      | _ \<Rightarrow> None)"

definition updatedRow :: "int \<Rightarrow> string option \<Rightarrow> todo_status option \<Rightarrow> string option option \<Rightarrow> todo_row \<Rightarrow> todo_row" where
  "updatedRow now content st parent r =
     r\<lparr>td_content := (case content of None \<Rightarrow> td_content r | Some c \<Rightarrow> c),
       td_parentId := (case parent of None \<Rightarrow> td_parentId r | Some p \<Rightarrow> p),
       td_status := (case st of None \<Rightarrow> td_status r | Some x \<Rightarrow> x),
       td_completedAt := (if st = Some Todo_completed then Some now else td_completedAt r),
       td_updatedAt := now\<rparr>"

definition updateTx ::
  "string \<Rightarrow> string \<Rightarrow> string option \<Rightarrow> todo_status option \<Rightarrow> string option option \<Rightarrow> int \<Rightarrow> (todo_data, todo_change) oper" where
  "updateTx chatId i content st parent now d =
     (let existing = loadAllRows chatId d in
      case findRow i existing of
        None \<Rightarrow> (Inl (NotFoundException (''Todo '' @ quoted i @ '' not found in this chat.'')), d)
      | Some target \<Rightarrow>
          if td_status target = Todo_completed then (Inr (skipped ''completed_immutable'' existing), d)
          else (case (case parent of None \<Rightarrow> Inr () | Some p \<Rightarrow> checkReparent existing i p) of
                  Inl e \<Rightarrow> (Inl e, d)
                | Inr _ \<Rightarrow>
                    (let nextParentId = (case parent of None \<Rightarrow> td_parentId target | Some p \<Rightarrow> p) in
                     case statusRefused existing i nextParentId st of
                       Some reason \<Rightarrow> (Inr (skipped reason existing), d)
                     | None \<Rightarrow>
                         (Inr (applied None (map (\<lambda>r. if td_id r = i then updatedRow now content st parent r else r) existing)),
                          updateTodo i (updatedRow now content st parent) d))))"

definition handleUpdate :: "string \<Rightarrow> todo_update \<Rightarrow> (todo_data database, todo_result) oper" where
  "handleUpdate chatId u =
     (case (case up_content u of None \<Rightarrow> Inr None | Some c \<Rightarrow> (case normalizeContent c of Inl e \<Rightarrow> Inl e | Inr x \<Rightarrow> Inr (Some x))) of
        Inl e \<Rightarrow> throwS e
      | Inr content \<Rightarrow>
          (let parent = map_option normalizeOptionalParentId (up_parentId u) in
           if content = None \<and> up_status u = None \<and> parent = None
           then throwS (BadRequestException ''update action requires at least one of content, status, parentId.'')
           else bindS (tx (updateTx chatId (up_id u) content (up_status u) parent)) (\<lambda>c. returnS (buildResult chatId c))))"

definition handleComplete :: "string \<Rightarrow> string \<Rightarrow> (todo_data database, todo_result) oper" where
  "handleComplete chatId i =
     handleUpdate chatId \<lparr>up_id = i, up_content = None, up_status = Some Todo_completed, up_parentId = None\<rparr>"

text \<open>\<open>DELETE\<close> with the cascade of the foreign key on the parent.\<close>

function deleteCascade :: "string set \<Rightarrow> todo_row list \<Rightarrow> todo_row list" where
  "deleteCascade ids rows =
     (let rest = filter (\<lambda>r. td_id r \<notin> ids) rows;
          orphans = filter (\<lambda>r. \<exists>p \<in> ids. td_parentId r = Some p) rest
      in if orphans = [] then rest else deleteCascade (td_id ` set orphans) rest)"
  by pat_completeness auto

termination
proof (relation "measure (\<lambda>(ids, rows). 2 * length rows + (if \<exists>r \<in> set rows. td_id r \<in> ids then 0 else 1))", goal_cases)
  case (2 ids rows rest orphans)
  have sub: "set orphans \<subseteq> set rest" using 2(2) by auto
  have "hd orphans \<in> set orphans" using 2(3) by simp
  with sub obtain r where r: "r \<in> set rest" "td_id r \<in> td_id ` set orphans" by blast
  show ?case
  proof (cases "\<exists>r \<in> set rows. td_id r \<in> ids")
    case True
    then have "length rest < length rows" using 2(1) by (auto intro: length_filter_less)
    then show ?thesis using r by auto
  next
    case False
    have "length rest \<le> length rows" using 2(1) by simp
    moreover have "\<exists>r \<in> set rest. td_id r \<in> td_id ` set orphans" using r by blast
    ultimately show ?thesis using False by simp
  qed
qed simp

declare deleteCascade.simps [simp del]

text \<open>The ids below a removed row, as the code collects them: one pass over the rows, repeated while it grows.\<close>

definition growPass :: "todo_row list \<Rightarrow> string set \<Rightarrow> string set" where
  "growPass rows removed =
     fold (\<lambda>r ids. case td_parentId r of None \<Rightarrow> ids | Some p \<Rightarrow> if p \<in> ids \<and> td_id r \<notin> ids then insert (td_id r) ids else ids)
       rows removed"

lemma growPass_bounds: "removed \<subseteq> growPass rows removed \<and> growPass rows removed \<subseteq> removed \<union> td_id ` set rows"
  unfolding growPass_def
proof (induction rows arbitrary: removed)
  case (Cons r rows)
  show ?case using Cons.IH [of removed] Cons.IH [of "insert (td_id r) removed"] by (auto split: option.split)
qed simp

function growRemoved :: "todo_row list \<Rightarrow> string set \<Rightarrow> string set" where
  "growRemoved rows removed =
     (let next = growPass rows removed in if next = removed then removed else growRemoved rows next)"
  by pat_completeness auto

termination
proof (relation "measure (\<lambda>(rows, removed). card (td_id ` set rows - removed))", goal_cases)
  case (2 rows removed grown)
  then have "td_id ` set rows - grown \<subset> td_id ` set rows - removed" using growPass_bounds [of removed rows] by blast
  then show ?case by (simp add: psubset_card_mono)
qed simp

declare growRemoved.simps [simp del]

definition removeTx :: "string \<Rightarrow> string \<Rightarrow> int \<Rightarrow> (todo_data, todo_change) oper" where
  "removeTx chatId i now d =
     (let existing = loadAllRows chatId d in
      case findRow i existing of
        None \<Rightarrow> (Inl (NotFoundException (''Todo '' @ quoted i @ '' not found in this chat.'')), d)
      | Some target \<Rightarrow>
          (Inr (applied None (filter (\<lambda>r. td_id r \<notin> growRemoved existing {i}) existing)),
           d\<lparr>todoTable := deleteCascade {i} (todoTable d)\<rparr>))"

definition handleRemove :: "string \<Rightarrow> string \<Rightarrow> (todo_data database, todo_result) oper" where
  "handleRemove chatId i = bindS (tx (removeTx chatId i)) (\<lambda>c. returnS (buildResult chatId c))"

definition handleClear :: "string \<Rightarrow> (todo_data database, todo_result) oper" where
  "handleClear chatId =
     bindS (tx (\<lambda>_ d. (Inr (), d\<lparr>todoTable := deleteCascade (td_id ` {r \<in> set (todoTable d). td_chatId r = chatId}) (todoTable d)\<rparr>)))
       (\<lambda>_. returnS (buildResult chatId (applied None [])))"

definition applyActionForChat ::
  "string \<Rightarrow> string \<Rightarrow> (nat \<Rightarrow> string) \<Rightarrow> todo_action \<Rightarrow> (todo_data database, todo_result) oper" where
  "applyActionForChat chatId assistantId newId action =
     (case action of
        Add_items items \<Rightarrow> handleAdd chatId assistantId newId items
      | Update_item u \<Rightarrow> handleUpdate chatId u
      | Complete_item i \<Rightarrow> handleComplete chatId i
      | Remove_item i \<Rightarrow> handleRemove chatId i
      | Clear_plan \<Rightarrow> handleClear chatId)"

definition resolveChatIdFromSurfaceThread ::
  "string \<Rightarrow> chat_surface \<Rightarrow> string \<Rightarrow> (todo_data database, string \<times> string) oper" where
  "resolveChatIdFromSurfaceThread assistantId surface surfaceThreadKey =
     bindS (tx (\<lambda>_ d. (Inr (find (\<lambda>c. ch_assistantId c = assistantId \<and> ch_surface c = surface \<and>
        ch_surfaceThreadKey c = surfaceThreadKey) (todoChats d)), d))) (\<lambda>chat.
       case chat of
         None \<Rightarrow> throwS (NotFoundException (''Chat not found for assistant='' @ assistantId @ '' channel='' @
            (case surface of Web \<Rightarrow> ''web'' | Telegram_chat \<Rightarrow> ''telegram'') @ '' thread='' @ surfaceThreadKey))
       | Some c \<Rightarrow> returnS (ch_id c, ch_assistantId c))"

definition applyAction ::
  "string \<Rightarrow> chat_surface \<Rightarrow> string \<Rightarrow> (nat \<Rightarrow> string) \<Rightarrow> todo_action \<Rightarrow> (todo_data database, todo_result) oper" where
  "applyAction assistantId surface surfaceThreadKey newId action =
     bindS (resolveChatIdFromSurfaceThread assistantId surface surfaceThreadKey) (\<lambda>(chatId, assistantId).
       applyActionForChat chatId assistantId newId action)"

definition readWindow :: "string \<Rightarrow> (todo_data database, todo_item list \<times> bool \<times> nat) oper" where
  "readWindow chatId =
     bindS (tx (\<lambda>_ d. (Inr (loadAllRows chatId d), d))) (\<lambda>rows.
       returnS (let (todos, windowed) = selectChatPlanWindow rows in (todos, windowed, length rows)))"

definition readFullPlanForWeb :: "string \<Rightarrow> (todo_data database, todo_item list \<times> bool \<times> nat) oper" where
  "readFullPlanForWeb chatId =
     bindS (tx (\<lambda>_ d. (Inr (loadAllRows chatId d), d))) (\<lambda>rows.
       returnS (let ordered = planOrder rows; limited = take WEB_PLAN_RESPONSE_MAX ordered
         in (map todoItem limited, length ordered > length limited, length ordered)))"

definition readWindowForSurfaceThread ::
  "string \<Rightarrow> chat_surface \<Rightarrow> string \<Rightarrow> (todo_data database, (todo_item list \<times> bool \<times> nat) \<times> string) oper" where
  "readWindowForSurfaceThread assistantId surface surfaceThreadKey =
     bindS (resolveChatIdFromSurfaceThread assistantId surface surfaceThreadKey) (\<lambda>(chatId, _).
       bindS (readWindow chatId) (\<lambda>window. returnS (window, chatId)))"

end
