(* ===== verification/ChatTodoPlans.thy ===== *)
theory ChatTodoPlans
  imports ChatTodos
begin

text \<open>
  Plans as forests: the relation between a row and the row above it, what the checks for cycles and the deletions
  compute in terms of it, and the invariant of the table of todos.
\<close>

section \<open>The forest of a plan\<close>

definition parentRel :: "todo_row list \<Rightarrow> (string \<times> string) set" where
  "parentRel rows = {(td_id r, p) | r p. r \<in> set rows \<and> td_parentId r = Some p}"

text \<open>\<open>below rows i j\<close>: row \<open>i\<close> is \<open>j\<close> or below it.\<close>

definition below :: "todo_row list \<Rightarrow> string \<Rightarrow> string \<Rightarrow> bool" where
  "below rows i j \<longleftrightarrow> (i, j) \<in> (parentRel rows)\<^sup>*"

lemma parentRelI: "r \<in> set rows \<Longrightarrow> td_parentId r = Some p \<Longrightarrow> (td_id r, p) \<in> parentRel rows"
  by (auto simp: parentRel_def)

lemma parentRelE:
  assumes "(i, p) \<in> parentRel rows"
  obtains r where "r \<in> set rows" "td_id r = i" "td_parentId r = Some p"
  using assms by (auto simp: parentRel_def)

lemma parentRel_mono: "set rows \<subseteq> set rows' \<Longrightarrow> parentRel rows \<subseteq> parentRel rows'"
  by (auto simp: parentRel_def)

lemma below_refl [simp]: "below rows i i"
  by (simp add: below_def)

lemma below_mono: "set rows \<subseteq> set rows' \<Longrightarrow> below rows i j \<Longrightarrow> below rows' i j"
  using rtrancl_mono [OF parentRel_mono] by (auto simp: below_def)

lemma below_up: "(i, p) \<in> parentRel rows \<Longrightarrow> below rows p j \<Longrightarrow> below rows i j"
  by (simp add: below_def converse_rtrancl_into_rtrancl)

lemma below_induct [consumes 1, case_names self up]:
  assumes "below rows i j" "P j" "\<And>i p. (i, p) \<in> parentRel rows \<Longrightarrow> below rows p j \<Longrightarrow> P p \<Longrightarrow> P i"
  shows "P i"
  using assms(1) unfolding below_def
  by (induction rule: converse_rtrancl_induct) (use assms(2,3) in \<open>auto simp: below_def\<close>)

section \<open>The check for cycles is exact\<close>

lemma findRow_iff:
  assumes "distinct (map td_id rows)"
  shows "findRow i rows = Some r \<longleftrightarrow> r \<in> set rows \<and> td_id r = i"
proof
  assume "r \<in> set rows \<and> td_id r = i"
  then obtain q where "findRow i rows = Some q" by (cases "findRow i rows") (auto simp: findRow_def find_None_iff)
  with findRow_Some [OF this] \<open>r \<in> set rows \<and> td_id r = i\<close> assms show "findRow i rows = Some r"
    by (auto simp: distinct_map dest: inj_onD)
qed (rule findRow_Some)

lemma parentOf_rel:
  assumes "distinct (map td_id rows)"
  shows "(i, p) \<in> parentRel rows \<longleftrightarrow> parentOf rows i = Some p"
proof
  assume "(i, p) \<in> parentRel rows"
  then obtain r where "findRow i rows = Some r" "td_parentId r = Some p"
    by (elim parentRelE) (use findRow_iff [OF assms] in auto)
  then show "parentOf rows i = Some p" by (simp add: parentOf_def)
next
  assume "parentOf rows i = Some p"
  then obtain r where "r \<in> set rows" "td_id r = i" "td_parentId r = Some p" using parentOf_Some by blast
  then show "(i, p) \<in> parentRel rows" by (auto simp: parentRel_def)
qed

lemma collectDescendants_below:
  assumes "\<forall>x \<in> set queue \<union> known. below rows x m" "x \<in> collectDescendants rows queue known"
  shows "below rows x m"
  using assms
proof (induction rows queue known rule: collectDescendants.induct)
  case (2 rows current queue known)
  have "below rows y m" if "y \<in> set (childIds rows current known)" for y
  proof -
    from that have "(y, current) \<in> parentRel rows" by (auto simp: childIds_def parentRel_def)
    then show ?thesis using 2(2) by (auto intro: below_up)
  qed
  then show ?case using 2 by auto
qed auto

lemma walkUp_exact:
  assumes "distinct (map td_id rows)" "acyclic (parentRel rows)" "\<forall>x \<in> ds. below rows x m"
    and "\<forall>s \<in> seen. (s, c) \<in> (parentRel rows)\<^sup>+"
  shows "walkUp rows m ds (Some c) seen = Inr (below rows c m)"
  using assms
proof (induction rows m ds "Some c" seen arbitrary: c rule: walkUp.induct)
  case (2 rows m ds c seen)
  have fresh: "c \<notin> seen" using 2(3,5) by (auto simp: acyclic_def)
  show ?case
  proof (cases "c = m \<or> c \<in> ds")
    case True
    then show ?thesis using 2(4) by auto
  next
    case False
    show ?thesis
    proof (cases "parentOf rows c")
      case None
      then have "\<not> below rows c m"
        using False parentOf_rel [OF 2(2), of c] by (auto simp: below_def elim: converse_rtranclE)
      then show ?thesis using False fresh None by simp
    next
      case (Some p)
      then have edge: "(c, p) \<in> parentRel rows" using parentOf_rel [OF 2(2)] by simp
      have "\<forall>s \<in> insert c seen. (s, p) \<in> (parentRel rows)\<^sup>+" using 2(5) edge by (auto intro: trancl_into_trancl)
      then have "walkUp rows m ds (Some p) (insert c seen) = Inr (below rows p m)"
        using 2(1) [OF _ _ fresh Some] False 2(2-4) by simp
      moreover have "below rows c m \<longleftrightarrow> below rows p m"
        using edge False parentOf_rel [OF 2(2), of c] Some
        by (auto simp: below_def elim: converse_rtranclE intro: converse_rtrancl_into_rtrancl)
      ultimately show ?thesis using False fresh Some by simp
    qed
  qed
qed

lemma wouldCreateCycle_exact:
  assumes "distinct (map td_id rows)" "acyclic (parentRel rows)"
  shows "wouldCreateCycle rows m c = Inr (below rows c m)"
proof (cases "m = c")
  case False
  have "\<forall>x \<in> collectDescendants rows [m] {}. below rows x m" using collectDescendants_below [of "[m]" "{}"] by auto
  then show ?thesis using walkUp_exact [OF assms, of "collectDescendants rows [m] {}" m "{}" c] False
    by (simp add: wouldCreateCycle_def)
qed (simp add: wouldCreateCycle_def)

section \<open>Deleting a row and what is below it\<close>

lemma below_ids_or_orphan:
  assumes "below rows x i" "i \<in> ids"
  shows "x \<in> ids \<or> (\<exists>r. r \<in> set rows \<and> td_id r \<notin> ids \<and> (\<exists>p \<in> ids. td_parentId r = Some p) \<and>
    below (filter (\<lambda>r. td_id r \<notin> ids) rows) x (td_id r))"
  using assms(1)
proof (induction rule: below_induct)
  case self
  then show ?case using assms(2) by simp
next
  case (up x z)
  obtain r where r: "r \<in> set rows" "td_id r = x" "td_parentId r = Some z" using up(1) by (rule parentRelE)
  show ?case
  proof (cases "x \<in> ids \<or> z \<in> ids")
    case True
    then show ?thesis using r by (metis below_refl)
  next
    case False
    with up(3) obtain q where q: "q \<in> set rows" "td_id q \<notin> ids" "\<exists>p \<in> ids. td_parentId q = Some p"
        "below (filter (\<lambda>r. td_id r \<notin> ids) rows) z (td_id q)" by blast
    have "(x, z) \<in> parentRel (filter (\<lambda>r. td_id r \<notin> ids) rows)" using r False by (auto simp: parentRel_def)
    then show ?thesis using q below_up by blast
  qed
qed

lemma deleteCascade_exact:
  "deleteCascade ids rows = filter (\<lambda>r. \<forall>i \<in> ids. \<not> below rows (td_id r) i) rows"
proof (induction ids rows rule: deleteCascade.induct)
  case (1 ids rows)
  define rest where "rest = filter (\<lambda>r. td_id r \<notin> ids) rows"
  define orphans where "orphans = filter (\<lambda>r. \<exists>p \<in> ids. td_parentId r = Some p) rest"
  have rest: "deleteCascade ids rows = filter (\<lambda>r. \<forall>i \<in> td_id ` set orphans. \<not> below rest (td_id r) i) rest"
  proof (cases "orphans = []")
    case True
    then show ?thesis by (subst deleteCascade.simps) (simp add: Let_def orphans_def [symmetric] rest_def [symmetric])
  next
    case False
    then show ?thesis using 1 [OF rest_def orphans_def False]
      by (subst deleteCascade.simps) (simp add: Let_def orphans_def [symmetric] rest_def [symmetric])
  qed
  have same: "(\<forall>i \<in> ids. \<not> below rows (td_id r) i) \<longleftrightarrow>
      td_id r \<notin> ids \<and> (\<forall>i \<in> td_id ` set orphans. \<not> below rest (td_id r) i)" for r
  proof
    assume none: "\<forall>i \<in> ids. \<not> below rows (td_id r) i"
    have "\<not> below rest (td_id r) (td_id q)" if q: "q \<in> set orphans" for q
    proof
      assume "below rest (td_id r) (td_id q)"
      then have "below rows (td_id r) (td_id q)" by (rule below_mono [rotated]) (simp add: rest_def)
      moreover obtain p where p: "p \<in> ids" "(td_id q, p) \<in> parentRel rows"
        using q by (auto simp: orphans_def rest_def parentRel_def)
      ultimately have "below rows (td_id r) p" unfolding below_def by auto
      then show False using none p(1) by blast
    qed
    moreover have "td_id r \<notin> ids" using none below_refl by blast
    ultimately show "td_id r \<notin> ids \<and> (\<forall>i \<in> td_id ` set orphans. \<not> below rest (td_id r) i)" by blast
  next
    assume free: "td_id r \<notin> ids \<and> (\<forall>i \<in> td_id ` set orphans. \<not> below rest (td_id r) i)"
    show "\<forall>i \<in> ids. \<not> below rows (td_id r) i"
    proof (intro ballI notI)
      fix i assume "i \<in> ids" "below rows (td_id r) i"
      from below_ids_or_orphan [OF this(2,1)] free obtain q where q: "q \<in> set rows" "td_id q \<notin> ids"
          "\<exists>p \<in> ids. td_parentId q = Some p" "below rest (td_id r) (td_id q)"
        by (auto simp: rest_def)
      then have "q \<in> set orphans" by (simp add: orphans_def rest_def)
      then show False using free q(4) by blast
    qed
  qed
  have "filter P rest = filter (\<lambda>r. td_id r \<notin> ids \<and> P r) rows" for P by (simp add: rest_def conj_commute)
  then show ?case by (simp only: rest same)
qed

lemma growPass_fix:
  assumes "growPass rows removed = removed" "r \<in> set rows" "td_parentId r = Some p" "p \<in> removed"
  shows "td_id r \<in> removed"
proof (rule ccontr)
  assume new: "td_id r \<notin> removed"
  obtain xs ys where split: "rows = xs @ r # ys" using assms(2) by (meson split_list)
  have cut: "growPass (as @ bs) ids = growPass bs (growPass as ids)" for as bs ids by (simp add: growPass_def)
  have "p \<in> growPass xs removed" using assms(4) growPass_bounds [of removed xs] by blast
  then have "td_id r \<in> growPass [r] (growPass xs removed)" using assms(3) by (simp add: growPass_def)
  then have "td_id r \<in> growPass rows removed"
    using cut [of xs "r # ys" removed] cut [of "[r]" ys "growPass xs removed"] growPass_bounds [of "growPass [r] (growPass xs removed)" ys]
    by (auto simp: split)
  then show False using assms(1) new by simp
qed

lemma growPass_below:
  assumes "\<forall>x \<in> removed. below rows x i" "set rs \<subseteq> set rows" "x \<in> growPass rs removed"
  shows "below rows x i"
  using assms
proof (induction rs arbitrary: removed)
  case (Cons r rs)
  let ?removed = "growPass [r] removed"
  have "\<forall>y \<in> ?removed. below rows y i"
  proof
    fix y assume "y \<in> ?removed"
    then consider "y \<in> removed" | p where "td_parentId r = Some p" "p \<in> removed" "y = td_id r"
      by (auto simp: growPass_def split: option.splits if_splits)
    then show "below rows y i"
    proof cases
      case 2
      then have "(y, p) \<in> parentRel rows" using Cons.prems(2) by (auto simp: parentRel_def)
      then show ?thesis using below_up Cons.prems(1) 2 by blast
    qed (use Cons.prems(1) in blast)
  qed
  moreover have "x \<in> growPass rs ?removed" using Cons.prems(3) by (simp add: growPass_def)
  ultimately show ?case using Cons.IH [of ?removed] Cons.prems(2) by simp
qed (simp add: growPass_def)

lemma growRemoved_exact:
  assumes "\<forall>x \<in> removed. below rows x i" "i \<in> removed"
  shows "x \<in> growRemoved rows removed \<longleftrightarrow> below rows x i"
  using assms
proof (induction rows removed rule: growRemoved.induct)
  case (1 rows removed)
  show ?case
  proof (cases "growPass rows removed = removed")
    case True
    have "x \<in> removed" if "below rows x i"
      using that
    proof (induction rule: below_induct)
      case (up x p)
      from up(1) obtain r where "r \<in> set rows" "td_id r = x" "td_parentId r = Some p" by (rule parentRelE)
      then show ?case using growPass_fix [OF True] up(3) by blast
    qed (rule 1(3))
    then show ?thesis using True 1(2) by (subst growRemoved.simps) auto
  next
    case False
    have "\<forall>y \<in> growPass rows removed. below rows y i" using growPass_below [OF 1(2) subset_refl] by blast
    moreover have "i \<in> growPass rows removed" using 1(3) growPass_bounds by blast
    ultimately show ?thesis using 1(1) [OF refl False] False by (subst growRemoved.simps) (simp add: Let_def)
  qed
qed

section \<open>The invariant of the table\<close>

definition contentOk :: "todo_row \<Rightarrow> bool" where
  "contentOk r \<longleftrightarrow> td_content r \<noteq> [] \<and> length (td_content r) \<le> MAX_CONTENT_LENGTH"

text \<open>\<open>mayHold tab c p st\<close>: a row of chat \<open>c\<close> with status \<open>st\<close> may be below \<open>p\<close>.\<close>

definition mayHold :: "todo_row list \<Rightarrow> string \<Rightarrow> string \<Rightarrow> todo_status \<Rightarrow> bool" where
  "mayHold tab c p st \<longleftrightarrow> (\<exists>q \<in> set tab. td_id q = p \<and> td_chatId q = c \<and> (td_status q = Todo_completed \<longrightarrow> st = Todo_completed))"

definition parentsOk :: "todo_row list \<Rightarrow> bool" where
  "parentsOk tab \<longleftrightarrow> (\<forall>r \<in> set tab. \<forall>p. td_parentId r = Some p \<longrightarrow> mayHold tab (td_chatId r) p (td_status r))"

definition planOk :: "todo_row list \<Rightarrow> bool" where
  "planOk tab \<longleftrightarrow> distinct (map td_id tab) \<and> parentsOk tab \<and> acyclic (parentRel tab) \<and> (\<forall>r \<in> set tab. contentOk r) \<and>
     (\<forall>c. length (filter (\<lambda>r. td_chatId r = c) tab) \<le> HARD_ACTIVE_CAP)"

lemma planOkD:
  assumes "planOk tab"
  shows "distinct (map td_id tab)" "parentsOk tab" "acyclic (parentRel tab)" "\<forall>r \<in> set tab. contentOk r"
    "length (filter (\<lambda>r. td_chatId r = c) tab) \<le> HARD_ACTIVE_CAP"
  using assms by (simp_all add: planOk_def)

lemma planOk_Nil [simp]: "planOk []"
  by (simp add: planOk_def parentsOk_def parentRel_def acyclic_def)

lemma parentsOkD: "parentsOk tab \<Longrightarrow> r \<in> set tab \<Longrightarrow> td_parentId r = Some p \<Longrightarrow> mayHold tab (td_chatId r) p (td_status r)"
  by (simp add: parentsOk_def)

lemma planOrder_set [simp]: "set (planOrder rows) = set rows"
  by (simp add: planOrder_def)

lemma planOrder_length [simp]: "length (planOrder rows) = length rows"
  by (simp add: planOrder_def)

lemma planOrder_distinct [simp]: "distinct (map td_id (planOrder rows)) = distinct (map td_id rows)"
  by (simp add: planOrder_def distinct_map distinct_sort)

lemma loadAllRows_set: "set (loadAllRows c d) = {r \<in> set (todoTable d). td_chatId r = c}"
  by (auto simp: loadAllRows_def)

lemma loadAllRows_distinct: "distinct (map td_id (todoTable d)) \<Longrightarrow> distinct (map td_id (loadAllRows c d))"
  by (simp add: loadAllRows_def distinct_map_filter)

lemma loadAllRows_acyclic: "acyclic (parentRel (todoTable d)) \<Longrightarrow> acyclic (parentRel (loadAllRows c d))"
  by (erule acyclic_subset) (rule parentRel_mono, auto simp: loadAllRows_set)

lemma same_row: "distinct (map td_id tab) \<Longrightarrow> r \<in> set tab \<Longrightarrow> q \<in> set tab \<Longrightarrow> td_id r = td_id q \<Longrightarrow> r = q"
  by (auto simp: distinct_map dest: inj_onD)

text \<open>A path that starts in a chat stays in it.\<close>

lemma below_in_chat:
  assumes "distinct (map td_id (todoTable d))" "parentsOk (todoTable d)"
    and "below (todoTable d) i j" "\<forall>r \<in> set (todoTable d). td_id r = i \<longrightarrow> td_chatId r = c"
  shows "below (loadAllRows c d) i j"
  using assms(3,4)
proof (induction rule: below_induct)
  case (up i p)
  from up(1) obtain r where r: "r \<in> set (todoTable d)" "td_id r = i" "td_parentId r = Some p" by (rule parentRelE)
  then have chat: "td_chatId r = c" using up(4) by blast
  obtain q where q: "q \<in> set (todoTable d)" "td_id q = p" "td_chatId q = c"
    using parentsOkD [OF assms(2) r(1,3)] chat by (auto simp: mayHold_def)
  have there: "td_chatId x = c" if "x \<in> set (todoTable d)" "td_id x = p" for x
    using same_row [OF assms(1) that(1) q(1)] q(2,3) that(2) by simp
  have "below (loadAllRows c d) p j" by (rule up(3)) (use there in blast)
  moreover have "r \<in> set (loadAllRows c d)" using r(1) chat by (simp add: loadAllRows_set)
  then have "(i, p) \<in> parentRel (loadAllRows c d)" using parentRelI [of r] r(2,3) by simp
  ultimately show ?case by (rule below_up [rotated])
qed simp

lemma below_chat_iff:
  assumes "distinct (map td_id (todoTable d))" "parentsOk (todoTable d)" "r \<in> set (todoTable d)" "td_chatId r = c"
  shows "below (loadAllRows c d) (td_id r) j \<longleftrightarrow> below (todoTable d) (td_id r) j"
proof
  have "td_chatId x = c" if "x \<in> set (todoTable d)" "td_id x = td_id r" for x
    using same_row [OF assms(1) that(1) assms(3)] assms(4) that(2) by simp
  then show "below (loadAllRows c d) (td_id r) j" if "below (todoTable d) (td_id r) j"
    by (intro below_in_chat [OF assms(1,2) that]) blast
  show "below (todoTable d) (td_id r) j" if "below (loadAllRows c d) (td_id r) j"
    using that by (rule below_mono [rotated]) (auto simp: loadAllRows_set)
qed

text \<open>Dropping rows together with what is below them.\<close>

lemma planOk_filter:
  assumes "planOk tab" "\<And>r p. r \<in> set tab \<Longrightarrow> P r \<Longrightarrow> td_parentId r = Some p \<Longrightarrow> \<forall>q \<in> set tab. td_id q = p \<longrightarrow> P q"
  shows "planOk (filter P tab)"
  unfolding planOk_def
proof (intro conjI allI ballI)
  note ok = planOkD [OF assms(1)]
  show "distinct (map td_id (filter P tab))" using ok(1) by (rule distinct_map_filter)
  show "acyclic (parentRel (filter P tab))" using ok(3) by (rule acyclic_subset) (rule parentRel_mono, simp)
  show "parentsOk (filter P tab)"
    unfolding parentsOk_def
  proof (intro ballI allI impI)
    fix r p assume r: "r \<in> set (filter P tab)" "td_parentId r = Some p"
    then obtain q where "q \<in> set tab" "td_id q = p" "td_chatId q = td_chatId r" "td_status q = Todo_completed \<longrightarrow> td_status r = Todo_completed"
      using parentsOkD [OF ok(2), of r p] by (auto simp: mayHold_def)
    moreover have "P q" using assms(2) [of r p] r calculation by auto
    ultimately show "mayHold (filter P tab) (td_chatId r) p (td_status r)" by (auto simp: mayHold_def)
  qed
  show "contentOk r" if "r \<in> set (filter P tab)" for r using ok(4) that by simp
  show "length (filter (\<lambda>r. td_chatId r = c) (filter P tab)) \<le> HARD_ACTIVE_CAP" for c
    using ok(5) [of c] length_filter_le [of P "filter (\<lambda>r. td_chatId r = c) tab"]
    by (simp add: conj_commute)
qed

lemma planOk_deleteCascade: "planOk tab \<Longrightarrow> planOk (deleteCascade ids tab)"
  unfolding deleteCascade_exact
proof (rule planOk_filter)
  fix r p assume r: "r \<in> set tab" "\<forall>i \<in> ids. \<not> below tab (td_id r) i" "td_parentId r = Some p"
  then show "\<forall>q \<in> set tab. td_id q = p \<longrightarrow> (\<forall>i \<in> ids. \<not> below tab (td_id q) i)"
    using below_up [OF parentRelI [OF r(1,3)]] by blast
qed

text \<open>A new row at the end.\<close>

lemma mayHold_more: "mayHold tab c p st \<Longrightarrow> mayHold (tab @ new) c p st"
  by (auto simp: mayHold_def)

lemma planOk_append:
  assumes "planOk tab" "td_id r \<notin> td_id ` set tab" "contentOk r"
    and "\<And>p. td_parentId r = Some p \<Longrightarrow> mayHold tab (td_chatId r) p (td_status r)"
    and "length (filter (\<lambda>x. td_chatId x = td_chatId r) tab) < HARD_ACTIVE_CAP"
  shows "planOk (tab @ [r])"
  unfolding planOk_def
proof (intro conjI allI ballI)
  note ok = planOkD [OF assms(1)]
  show "distinct (map td_id (tab @ [r]))" using ok(1) assms(2) by simp
  show "parentsOk (tab @ [r])"
    using ok(2) assms(4) by (auto simp: parentsOk_def intro: mayHold_more)
  show "acyclic (parentRel (tab @ [r]))"
  proof (cases "td_parentId r")
    case None
    then have "parentRel (tab @ [r]) = parentRel tab" by (auto simp: parentRel_def)
    then show ?thesis using ok(3) by simp
  next
    case (Some p)
    then have rel: "parentRel (tab @ [r]) = insert (td_id r, p) (parentRel tab)" by (auto simp: parentRel_def)
    obtain q where q: "q \<in> set tab" "td_id q = p" using assms(4) [OF Some] by (auto simp: mayHold_def)
    then have "p \<in> td_id ` set tab" by (metis image_eqI)
    then have other: "p \<noteq> td_id r" using assms(2) by metis
    have "(x, td_id r) \<notin> parentRel tab" for x
    proof
      assume "(x, td_id r) \<in> parentRel tab"
      then obtain y where "y \<in> set tab" "td_parentId y = Some (td_id r)" by (rule parentRelE)
      then obtain q where q: "q \<in> set tab" "td_id q = td_id r" using parentsOkD [OF ok(2)] by (auto simp: mayHold_def)
      then have "td_id r \<in> td_id ` set tab" by (metis image_eqI)
      then show False using assms(2) by simp
    qed
    then have "(p, td_id r) \<notin> (parentRel tab)\<^sup>*" using other by (auto elim: rtranclE)
    then show ?thesis unfolding rel using ok(3) by (simp add: acyclic_insert)
  qed
  show "contentOk x" if "x \<in> set (tab @ [r])" for x using ok(4) assms(3) that by auto
  show "length (filter (\<lambda>r. td_chatId r = c) (tab @ [r])) \<le> HARD_ACTIVE_CAP" for c
    using ok(5) [of c] assms(5) by auto
qed

end
