(* ===== verification/ChatTodoHistory.thy ===== *)
theory ChatTodoHistory
  imports ChatTodoPlans
begin

text \<open>
  Every operation on the plans keeps the invariant of the table of todos; the histories of the service, in which
  chats come and go, time passes and the database fails.
\<close>

section \<open>One row changed\<close>

lemma updateTodo_table [simp]: "todoTable (updateTodo i f d) = map (\<lambda>x. if td_id x = i then f x else x) (todoTable d)"
  by (simp add: updateTodo_def)

lemma map_row_mem:
  assumes "distinct (map td_id tab)" "r \<in> set tab" "x \<in> set (map (\<lambda>x. if td_id x = td_id r then f x else x) tab)"
  shows "x = f r \<or> (x \<in> set tab \<and> td_id x \<noteq> td_id r)"
  using assms(3) same_row [OF assms(1) _ assms(2)] by (auto split: if_splits)

lemma map_row_other: "x \<in> set tab \<Longrightarrow> td_id x \<noteq> i \<Longrightarrow> x \<in> set (map (\<lambda>x. if td_id x = i then f x else x) tab)"
  unfolding set_map by (rule image_eqI [of _ _ x]) auto

lemma map_row_this: "r \<in> set tab \<Longrightarrow> f r \<in> set (map (\<lambda>x. if td_id x = td_id r then f x else x) tab)"
  unfolding set_map by (rule image_eqI [of _ _ r]) auto

lemma mayHold_update:
  assumes "distinct (map td_id tab)" "r \<in> set tab" "td_id (f r) = td_id r" "td_chatId (f r) = td_chatId r" "mayHold tab c p st"
    and "p = td_id r \<Longrightarrow> td_status (f r) = Todo_completed \<Longrightarrow> st = Todo_completed"
  shows "mayHold (map (\<lambda>x. if td_id x = td_id r then f x else x) tab) c p st"
proof -
  obtain q where q: "q \<in> set tab" "td_id q = p" "td_chatId q = c" "td_status q = Todo_completed \<longrightarrow> st = Todo_completed"
    using assms(5) by (auto simp: mayHold_def)
  show ?thesis
  proof (cases "p = td_id r")
    case True
    then have "q = r" using same_row [OF assms(1) q(1) assms(2)] q(2) by simp
    then show ?thesis unfolding mayHold_def
      by (intro bexI [OF _ map_row_this [OF assms(2), of f]]) (use assms(3,4,6) q True in auto)
  next
    case False
    then show ?thesis unfolding mayHold_def
      by (intro bexI [of _ q]) (use q map_row_other [OF q(1), of "td_id r" f] in auto)
  qed
qed

lemma planOk_update:
  assumes "planOk tab" "r \<in> set tab" and same: "\<And>x. td_id (f x) = td_id x" "\<And>x. td_chatId (f x) = td_chatId x" and "contentOk (f r)"
    and parent: "\<And>p. td_parentId (f r) = Some p \<Longrightarrow> mayHold tab (td_chatId r) p (td_status (f r)) \<and> \<not> below tab p (td_id r)"
    and children: "\<And>x. x \<in> set tab \<Longrightarrow> td_parentId x = Some (td_id r) \<Longrightarrow> td_status (f r) = Todo_completed \<Longrightarrow>
      td_status x = Todo_completed"
  shows "planOk (map (\<lambda>x. if td_id x = td_id r then f x else x) tab)"
    (is "planOk ?tab")
  unfolding planOk_def
proof (intro conjI allI ballI)
  note ok = planOkD [OF assms(1)]
  note mem = map_row_mem [OF ok(1) assms(2)]
  have ids: "map td_id ?tab = map td_id tab" using same(1) by auto
  show "distinct (map td_id ?tab)" unfolding ids by (rule ok(1))
  show "parentsOk ?tab"
    unfolding parentsOk_def
  proof (intro ballI allI impI)
    fix x p assume x: "x \<in> set ?tab" "td_parentId x = Some p"
    from mem [OF x(1)] show "mayHold ?tab (td_chatId x) p (td_status x)"
    proof
      assume x': "x = f r"
      then have p: "mayHold tab (td_chatId r) p (td_status (f r))" "\<not> below tab p (td_id r)" using parent x(2) by auto
      then have "p \<noteq> td_id r" by auto
      then show ?thesis using mayHold_update [where f = f, OF ok(1) assms(2) same p(1)] x' same(2) by simp
    next
      assume x': "x \<in> set tab \<and> td_id x \<noteq> td_id r"
      then have "mayHold tab (td_chatId x) p (td_status x)" using parentsOkD [OF ok(2)] x(2) by blast
      then show ?thesis by (rule mayHold_update [where f = f, OF ok(1) assms(2) same]) (use children x' x(2) in blast)
    qed
  qed
  show "contentOk x" if "x \<in> set ?tab" for x using mem [OF that] ok(4) assms(5) by blast
  show "length (filter (\<lambda>r. td_chatId r = c) ?tab) \<le> HARD_ACTIVE_CAP" for c
  proof -
    have "(\<lambda>r. td_chatId r = c) \<circ> (\<lambda>x. if td_id x = td_id r then f x else x) = (\<lambda>r. td_chatId r = c)"
      by (rule ext) (simp add: same(2))
    then show ?thesis using ok(5) [of c] by (simp add: filter_map)
  qed
  show "acyclic (parentRel ?tab)"
  proof (cases "td_parentId (f r)")
    case None
    have "parentRel ?tab \<subseteq> parentRel tab"
    proof
      fix e assume "e \<in> parentRel ?tab"
      then obtain x p where x: "x \<in> set ?tab" "td_parentId x = Some p" "e = (td_id x, p)" by (auto simp: parentRel_def)
      then show "e \<in> parentRel tab" using mem [OF x(1)] None parentRelI by auto
    qed
    then show ?thesis using ok(3) by (rule acyclic_subset [rotated])
  next
    case (Some p)
    have "parentRel ?tab \<subseteq> insert (td_id r, p) (parentRel tab)"
    proof
      fix e assume "e \<in> parentRel ?tab"
      then obtain x q where x: "x \<in> set ?tab" "td_parentId x = Some q" "e = (td_id x, q)" by (auto simp: parentRel_def)
      then show "e \<in> insert (td_id r, p) (parentRel tab)" using mem [OF x(1)] Some same(1) parentRelI by auto
    qed
    moreover have "acyclic (insert (td_id r, p) (parentRel tab))"
      using parent [OF Some] ok(3) by (simp add: acyclic_insert below_def)
    ultimately show ?thesis by (rule acyclic_subset [rotated])
  qed
qed

section \<open>Adding\<close>

definition itemOk :: "string \<times> string option \<times> todo_status \<Rightarrow> bool" where
  "itemOk i \<longleftrightarrow> (case i of (content, _, st) \<Rightarrow> content \<noteq> [] \<and> length content \<le> MAX_CONTENT_LENGTH \<and> st \<noteq> Todo_completed)"

lemma normalizeContent_ok: "normalizeContent v = Inr c \<Longrightarrow> c \<noteq> [] \<and> length c \<le> MAX_CONTENT_LENGTH"
  by (auto simp: normalizeContent_def Let_def split: if_splits)

lemma normalizeAddItem_ok: "normalizeAddItem i = Inr x \<Longrightarrow> itemOk x"
  by (auto simp: normalizeAddItem_def itemOk_def Let_def dest!: normalizeContent_ok split: sum.splits option.splits if_splits)

lemma mapOutcome_ok: "mapOutcome f xs = Inr ys \<Longrightarrow> (\<And>x y. f x = Inr y \<Longrightarrow> P y) \<Longrightarrow> list_all P ys"
  by (induction xs arbitrary: ys) (auto split: sum.splits)

text \<open>A row that new rows of the chat may be below.\<close>

definition openParent :: "todo_row list \<Rightarrow> string \<Rightarrow> string option \<Rightarrow> bool" where
  "openParent tab c bucket \<longleftrightarrow> (\<forall>p. bucket = Some p \<longrightarrow> mayHold tab c p Todo_pending)"

lemma openParent_more: "openParent tab c b \<Longrightarrow> openParent (tab @ new) c b"
  by (simp add: openParent_def mayHold_more)

lemma openParent_any: "openParent tab c (Some p) \<Longrightarrow> mayHold tab c p st"
  by (auto simp: openParent_def mayHold_def)

lemma checkReadParent:
  assumes "findRow p (loadAllRows c d) = Some q" "td_status q \<noteq> Todo_completed"
  shows "openParent (todoTable d) c (Some p)"
  using findRow_Some [OF assms(1)] assms(2) by (auto simp: openParent_def mayHold_def loadAllRows_set)

lemma checkParents_ok: "checkParents (loadAllRows c d) ps = Inr u \<Longrightarrow> list_all (openParent (todoTable d) c) ps"
proof (induction "loadAllRows c d" ps rule: checkParents.induct)
  case (2 ps)
  then show ?case by (simp add: openParent_def)
next
  case (3 p ps)
  then obtain q where q: "findRow p (loadAllRows c d) = Some q" "td_status q \<noteq> Todo_completed"
      "checkParents (loadAllRows c d) ps = Inr u"
    by (auto split: option.splits if_splits)
  show ?case using checkReadParent [OF q(1,2)] 3(1) [OF q(1,2,3)] by simp
qed simp

lemma createTodo_cases:
  assumes "createTodo r d = (res, d')"
  obtains (duplicate) e where "res = Inl e" "d' = d" "td_id r \<in> td_id ` set (todoTable d)"
  | (created) "res = Inr r" "d' = d\<lparr>todoTable := todoTable d @ [r]\<rparr>" "td_id r \<notin> td_id ` set (todoTable d)"
  using assms by (auto simp: createTodo_def split: if_splits)

lemma addLoop_planOk:
  assumes "addLoop chat assistant newId now orders busy coerced created items d = (res, d')" "planOk (todoTable d)"
    and "list_all itemOk items" "list_all (openParent (todoTable d) chat) (map (fst \<circ> snd) items)"
    and "length (filter (\<lambda>r. td_chatId r = chat) (todoTable d)) + length items \<le> HARD_ACTIVE_CAP"
  shows "planOk (todoTable d')"
  using assms
proof (induction items arbitrary: orders busy coerced created d)
  case (Cons item items)
  obtain content bucket st where item: "item = (content, bucket, st)" by (cases item)
  define effective where "effective = (if st = Todo_in_progress \<and> busy bucket then Todo_pending else st)"
  define row where "row = \<lparr>td_id = newId (length created), td_chatId = chat, td_assistantId = assistant, td_parentId = bucket,
    td_content = content, td_status = effective, td_sortOrder = orders bucket + 1, td_createdAt = now, td_updatedAt = now,
    td_completedAt = None\<rparr>"
  obtain r d1 where create: "createTodo row d = (r, d1)" by (cases "createTodo row d")
  from create show ?case
  proof (cases rule: createTodo_cases)
    case (duplicate e)
    then have "d' = d" using Cons.prems(1) create
      by (simp add: item row_def effective_def Let_def bindS_def)
    then show ?thesis using Cons.prems(2) by simp
  next
    case created
    then have table: "todoTable d1 = todoTable d @ [row]" by simp
    obtain orders' busy' coerced' created' where
      loop: "addLoop chat assistant newId now orders' busy' coerced' created' items d1 = (res, d')"
      using Cons.prems(1) create created(1) by (auto simp: item row_def effective_def Let_def bindS_def)
    show ?thesis
    proof (rule Cons.IH [OF loop], unfold table)
      show "planOk (todoTable d @ [row])"
      proof (rule planOk_append [OF Cons.prems(2) created(3)])
        show "contentOk row" using Cons.prems(3) by (simp add: contentOk_def itemOk_def item row_def)
        show "mayHold (todoTable d) (td_chatId row) p (td_status row)" if "td_parentId row = Some p" for p
          using Cons.prems(4) that by (simp add: item row_def openParent_any)
        show "length (filter (\<lambda>x. td_chatId x = td_chatId row) (todoTable d)) < HARD_ACTIVE_CAP"
          using Cons.prems(5) by (simp add: row_def)
      qed
      show "list_all (openParent (todoTable d @ [row]) chat) (map (fst \<circ> snd) items)"
        using Cons.prems(4) openParent_more by (auto simp: list_all_iff)
      show "length (filter (\<lambda>r. td_chatId r = chat) (todoTable d @ [row])) + length items \<le> HARD_ACTIVE_CAP"
        using Cons.prems(5) by (simp add: row_def)
      show "list_all itemOk items" using Cons.prems(3) by simp
    qed
  qed
qed (simp add: returnS_def)

lemma addTx_planOk:
  assumes "planOk (todoTable d)" "list_all itemOk items"
  shows "planOk (todoTable (snd (addTx chat assistant newId items now d)))"
proof (cases "length (loadAllRows chat d) + length items > HARD_ACTIVE_CAP")
  case False
  then have room: "length (filter (\<lambda>r. td_chatId r = chat) (todoTable d)) + length items \<le> HARD_ACTIVE_CAP"
    by (simp add: loadAllRows_def)
  show ?thesis
  proof (cases "checkParents (loadAllRows chat d) (map (fst \<circ> snd) items)")
    case (Inr u)
    let ?loop = "addLoop chat assistant newId now (orderCursor (loadAllRows chat d)) (anyInProgress (loadAllRows chat d)) 0 [] items"
    obtain res d' where loop: "?loop d = (res, d')" by (cases "?loop d")
    have "planOk (todoTable d')" by (rule addLoop_planOk [OF loop assms checkParents_ok [OF Inr] room])
    then show ?thesis using False Inr loop by (auto simp: addTx_def Let_def bindS_def split: sum.split)
  qed (use False assms(1) in \<open>simp add: addTx_def\<close>)
qed (use assms(1) in \<open>simp add: addTx_def\<close>)

section \<open>Updating\<close>

lemma checkReparent_ok:
  assumes "planOk (todoTable d)" "checkReparent (loadAllRows c d) i (Some p) = Inr u"
  shows "openParent (todoTable d) c (Some p) \<and> \<not> below (loadAllRows c d) p i"
proof -
  obtain q where q: "findRow p (loadAllRows c d) = Some q" "td_status q \<noteq> Todo_completed"
      "wouldCreateCycle (loadAllRows c d) i p = Inr False"
    using assms(2) by (auto simp: checkReparent_def split: option.splits if_splits sum.splits)
  have "\<not> below (loadAllRows c d) p i"
    using q(3) wouldCreateCycle_exact [OF loadAllRows_distinct loadAllRows_acyclic] planOkD(1,3) [OF assms(1)] by auto
  then show ?thesis using checkReadParent [OF q(1,2)] by simp
qed

lemma statusRefused_completed:
  assumes "statusRefused rows i next (Some Todo_completed) = None" "x \<in> set rows" "td_parentId x = Some i"
  shows "td_status x = Todo_completed"
  using assms by (auto simp: statusRefused_def split: if_splits)

lemma updateTx_cases:
  assumes "updateTx c i content st parent now d = (res, d')"
  obtains (unchanged) "d' = d"
  | (updated) r u where "r \<in> set (todoTable d)" "td_id r = i" "td_chatId r = c" "td_status r \<noteq> Todo_completed"
      "(case parent of None \<Rightarrow> Inr () | Some p \<Rightarrow> checkReparent (loadAllRows c d) i p) = Inr u"
      "statusRefused (loadAllRows c d) i (case parent of None \<Rightarrow> td_parentId r | Some p \<Rightarrow> p) st = None"
      "d' = updateTodo i (updatedRow now content st parent) d"
proof (cases "findRow i (loadAllRows c d)")
  case None
  then show ?thesis using assms by (intro unchanged) (simp add: updateTx_def)
next
  case (Some r)
  note r = findRow_Some [OF Some]
  show ?thesis
  proof (cases "td_status r = Todo_completed")
    case True
    then show ?thesis using assms Some by (intro unchanged) (simp add: updateTx_def)
  next
    case unfinished: False
    show ?thesis
    proof (cases "case parent of None \<Rightarrow> Inr () | Some p \<Rightarrow> checkReparent (loadAllRows c d) i p")
      case (Inl e)
      then show ?thesis using assms Some unfinished by (intro unchanged) (simp add: updateTx_def)
    next
      case (Inr u)
      show ?thesis
      proof (cases "statusRefused (loadAllRows c d) i (case parent of None \<Rightarrow> td_parentId r | Some p \<Rightarrow> p) st")
        case None
        show ?thesis
          by (rule updated [OF _ _ _ unfinished Inr None]) (use r assms Some unfinished Inr None in \<open>simp_all add: updateTx_def Let_def loadAllRows_set\<close>)
      next
        case (Some reason)
        then show ?thesis using assms \<open>findRow i (loadAllRows c d) = Some r\<close> unfinished Inr
          by (intro unchanged) (simp add: updateTx_def Let_def)
      qed
    qed
  qed
qed

lemma updatedRow_simps [simp]:
  "td_id (updatedRow now content st parent r) = td_id r" "td_chatId (updatedRow now content st parent r) = td_chatId r"
  "td_parentId (updatedRow now content st parent r) = (case parent of None \<Rightarrow> td_parentId r | Some p \<Rightarrow> p)"
  "td_status (updatedRow now content st parent r) = (case st of None \<Rightarrow> td_status r | Some x \<Rightarrow> x)"
  "td_content (updatedRow now content st parent r) = (case content of None \<Rightarrow> td_content r | Some c \<Rightarrow> c)"
  by (simp_all add: updatedRow_def)

lemma updateTx_planOk:
  assumes "planOk (todoTable d)" "\<And>x. content = Some x \<Longrightarrow> x \<noteq> [] \<and> length x \<le> MAX_CONTENT_LENGTH"
  shows "planOk (todoTable (snd (updateTx c i content st parent now d)))"
proof -
  note ok = planOkD [OF assms(1)]
  let ?f = "updatedRow now content st parent"
  obtain res d' where run: "updateTx c i content st parent now d = (res, d')" by (cases "updateTx c i content st parent now d")
  from run have "planOk (todoTable d')"
  proof (cases rule: updateTx_cases)
    case (updated r u)
    have "planOk (map (\<lambda>x. if td_id x = td_id r then ?f x else x) (todoTable d))"
    proof (rule planOk_update [OF assms(1) updated(1)])
      show "contentOk (?f r)" using assms(2) ok(4) updated(1) by (auto simp: contentOk_def split: option.split)
      fix p assume p: "td_parentId (?f r) = Some p"
      show "mayHold (todoTable d) (td_chatId r) p (td_status (?f r)) \<and> \<not> below (todoTable d) p (td_id r)"
      proof (cases parent)
        case None
        then have up: "td_parentId r = Some p" using p by simp
        then have "mayHold (todoTable d) (td_chatId r) p (td_status (?f r))"
          using parentsOkD [OF ok(2) updated(1)] updated(4) by (auto simp: mayHold_def)
        moreover have "\<not> below (todoTable d) p (td_id r)"
        proof
          assume "below (todoTable d) p (td_id r)"
          then have "(td_id r, td_id r) \<in> (parentRel (todoTable d))\<^sup>+"
            unfolding below_def using parentRelI [OF updated(1) up] by (rule rtrancl_into_trancl2 [rotated])
          then show False using ok(3) by (simp add: acyclic_def)
        qed
        ultimately show ?thesis by simp
      next
        case (Some q)
        then have q: "q = Some p" using p by simp
        have checked: "checkReparent (loadAllRows c d) i (Some p) = Inr u" using updated(5) Some q by simp
        note safe = checkReparent_ok [OF assms(1) checked]
        obtain s where s: "s \<in> set (todoTable d)" "td_id s = p" "td_chatId s = c"
          using safe by (auto simp: openParent_def mayHold_def)
        have "below (loadAllRows c d) p i \<longleftrightarrow> below (todoTable d) p i"
          using below_chat_iff [OF ok(1,2) s(1,3)] s(2) by simp
        then show ?thesis using safe openParent_any updated(2,3) by simp
      qed
    next
      fix x assume x: "x \<in> set (todoTable d)" "td_parentId x = Some (td_id r)" "td_status (?f r) = Todo_completed"
      then have st: "st = Some Todo_completed" using updated(4) by (simp split: option.splits)
      obtain s where s: "s \<in> set (todoTable d)" "td_id s = td_id r" "td_chatId s = td_chatId x"
        using parentsOkD [OF ok(2) x(1,2)] by (auto simp: mayHold_def)
      then have "td_chatId x = c" using same_row [OF ok(1) s(1) updated(1)] updated(3) by simp
      then show "td_status x = Todo_completed"
        using statusRefused_completed [of "loadAllRows c d" i _ x] updated(2,6) st x(1,2) by (simp add: loadAllRows_set)
    qed simp_all
    then show ?thesis using updated(2,7) by simp
  qed (use assms(1) in simp)
  then show ?thesis using run by simp
qed

section \<open>Every action\<close>

definition removes :: "todo_action \<Rightarrow> bool" where
  "removes action \<longleftrightarrow> (case action of Remove_item _ \<Rightarrow> True | Clear_plan \<Rightarrow> True | _ \<Rightarrow> False)"

text \<open>The status and the parent that an action asks for, when it updates a row.\<close>

definition asksUpdate :: "todo_action \<Rightarrow> todo_status option \<Rightarrow> string option option \<Rightarrow> bool" where
  "asksUpdate action st parent \<longleftrightarrow>
     (case action of
        Update_item u \<Rightarrow> st = up_status u \<and> parent = map_option normalizeOptionalParentId (up_parentId u)
      | Complete_item _ \<Rightarrow> st = Some Todo_completed \<and> parent = None
      | _ \<Rightarrow> False)"

lemma handleUpdate_preserves:
  assumes "\<And>content now. (\<And>x. content = Some x \<Longrightarrow> x \<noteq> [] \<and> length x \<le> MAX_CONTENT_LENGTH) \<Longrightarrow>
      preserves P (updateTx chat (up_id u) content (up_status u) (map_option normalizeOptionalParentId (up_parentId u)) now)"
  shows "preserves (\<lambda>s. P (dbData s)) (handleUpdate chat u)"
proof (cases "case up_content u of None \<Rightarrow> Inr None | Some c \<Rightarrow> (case normalizeContent c of Inl e \<Rightarrow> Inl e | Inr x \<Rightarrow> Inr (Some x))")
  case (Inr content)
  then have "x \<noteq> [] \<and> length x \<le> MAX_CONTENT_LENGTH" if "content = Some x" for x
    using that normalizeContent_ok by (auto split: option.splits sum.splits)
  then have "preserves (\<lambda>s. P (dbData s))
      (tx (updateTx chat (up_id u) content (up_status u) (map_option normalizeOptionalParentId (up_parentId u))))"
    by (intro preserves_tx assms)
  then show ?thesis by (auto simp: handleUpdate_def Inr Let_def)
qed (simp add: handleUpdate_def)

lemma handleAdd_preserves:
  assumes "\<And>normalized now. list_all itemOk normalized \<Longrightarrow> preserves P (addTx chat assistant newId normalized now)"
  shows "preserves (\<lambda>s. P (dbData s)) (handleAdd chat assistant newId items)"
proof (cases "mapOutcome normalizeAddItem items")
  case (Inr normalized)
  have "list_all itemOk normalized" using mapOutcome_ok [OF Inr] normalizeAddItem_ok by blast
  then have "preserves (\<lambda>s. P (dbData s)) (tx (addTx chat assistant newId normalized))" by (intro preserves_tx assms)
  then show ?thesis by (auto simp: handleAdd_def Inr)
qed (simp add: handleAdd_def)

lemma removeTx_cases:
  assumes "removeTx c i now d = (res, d')"
  obtains "d' = d" | "d' = d\<lparr>todoTable := deleteCascade {i} (todoTable d)\<rparr>"
  using assms by (auto simp: removeTx_def Let_def split: option.splits)

lemma applyActionForChat_preserves:
  assumes add: "\<And>items now d. P d \<Longrightarrow> list_all itemOk items \<Longrightarrow> P (snd (addTx chat assistant newId items now d))"
    and update: "\<And>i content st parent now d. P d \<Longrightarrow> (\<And>x. content = Some x \<Longrightarrow> x \<noteq> [] \<and> length x \<le> MAX_CONTENT_LENGTH) \<Longrightarrow>
      asksUpdate action st parent \<Longrightarrow> P (snd (updateTx chat i content st parent now d))"
    and del: "\<And>ids d. P d \<Longrightarrow> removes action \<Longrightarrow> P (d\<lparr>todoTable := deleteCascade ids (todoTable d)\<rparr>)"
  shows "preserves (\<lambda>s. P (dbData s)) (applyActionForChat chat assistant newId action)"
proof (cases action)
  case (Add_items items)
  have "preserves P (addTx chat assistant newId normalized now)" if "list_all itemOk normalized" for normalized now
    using add that by (simp add: preserves_def)
  then show ?thesis by (simp add: applyActionForChat_def Add_items handleAdd_preserves)
next
  case (Update_item u)
  have "preserves (\<lambda>s. P (dbData s)) (handleUpdate chat u)"
    by (rule handleUpdate_preserves) (use update in \<open>simp add: preserves_def asksUpdate_def Update_item\<close>)
  then show ?thesis by (simp add: applyActionForChat_def Update_item)
next
  case (Complete_item i)
  have "preserves (\<lambda>s. P (dbData s)) (handleComplete chat i)"
    unfolding handleComplete_def
    by (rule handleUpdate_preserves) (use update in \<open>simp add: preserves_def asksUpdate_def Complete_item\<close>)
  then show ?thesis by (simp add: applyActionForChat_def Complete_item)
next
  case (Remove_item i)
  have "preserves P (removeTx chat i now)" for now
    unfolding preserves_def
  proof (intro allI impI)
    fix d assume d: "P d"
    obtain res d' where run: "removeTx chat i now d = (res, d')" by (cases "removeTx chat i now d")
    then show "P (snd (removeTx chat i now d))"
      by (cases rule: removeTx_cases) (use run d del [OF d] in \<open>simp_all add: removes_def Remove_item\<close>)
  qed
  then have "preserves (\<lambda>s. P (dbData s)) (handleRemove chat i)"
    unfolding handleRemove_def by (intro preserves_bind preserves_tx preserves_return)
  then show ?thesis by (simp add: applyActionForChat_def Remove_item)
next
  case Clear_plan
  have "preserves P (\<lambda>d. (Inr (), d\<lparr>todoTable := deleteCascade (td_id ` {r \<in> set (todoTable d). td_chatId r = chat}) (todoTable d)\<rparr>))"
    using del by (simp add: preserves_def removes_def Clear_plan)
  then have "preserves (\<lambda>s. P (dbData s)) (handleClear chat)"
    unfolding handleClear_def by (intro preserves_bind preserves_tx preserves_return)
  then show ?thesis by (simp add: applyActionForChat_def Clear_plan)
qed

lemma resolveChat_preserves: "preserves (\<lambda>s. P (dbData s)) (resolveChatIdFromSurfaceThread a surface thread)"
  unfolding resolveChatIdFromSurfaceThread_def
  by (intro preserves_bind preserves_tx) (auto simp: preserves_def split: option.split)

lemma applyAction_preserves:
  assumes "\<And>chat assistant. preserves (\<lambda>s. P (dbData s)) (applyActionForChat chat assistant newId action)"
  shows "preserves (\<lambda>s. P (dbData s)) (applyAction a surface thread newId action)"
  unfolding applyAction_def using assms by (intro preserves_bind resolveChat_preserves) (auto split: prod.split)

section \<open>Histories\<close>

text \<open>
  The plans from an empty table on, by actions of the kind \<open>allowed\<close>; a chat that is deleted takes its rows with it, and
  the list of chats, the clock and the faults of the database change as they like.
\<close>

inductive todo_history :: "(todo_action \<Rightarrow> bool) \<Rightarrow> todo_data database \<Rightarrow> bool" for allowed where
  start: "todoTable (dbData s) = [] \<Longrightarrow> todo_history allowed s"
| for_chat: "todo_history allowed s \<Longrightarrow> allowed action \<Longrightarrow>
    todo_history allowed (snd (applyActionForChat chat assistant newId action s))"
| for_thread: "todo_history allowed s \<Longrightarrow> allowed action \<Longrightarrow>
    todo_history allowed (snd (applyAction assistant surface thread newId action s))"
| chat_deleted: "todo_history allowed s \<Longrightarrow>
    todo_history allowed (s\<lparr>dbData := (dbData s)\<lparr>todoTable := filter (\<lambda>r. td_chatId r \<noteq> chat) (todoTable (dbData s))\<rparr>\<rparr>)"
| elsewhere: "todo_history allowed s \<Longrightarrow> todoTable (dbData t) = todoTable (dbData s) \<Longrightarrow> todo_history allowed t"

lemma todo_history_invariant:
  assumes "todo_history allowed s"
    and start: "\<And>d. todoTable d = [] \<Longrightarrow> P d"
    and step: "\<And>action chat assistant newId. allowed action \<Longrightarrow>
      preserves (\<lambda>s. P (dbData s)) (applyActionForChat chat assistant newId action)"
    and gone: "\<And>d chat. P d \<Longrightarrow> P (d\<lparr>todoTable := filter (\<lambda>r. td_chatId r \<noteq> chat) (todoTable d)\<rparr>)"
    and same: "\<And>d d'. todoTable d' = todoTable d \<Longrightarrow> P d \<Longrightarrow> P d'"
  shows "P (dbData s)"
  using assms(1)
proof induction
  case (for_chat s action chat assistant newId)
  then show ?case using preservesD [OF step, of action s] by simp
next
  case (for_thread s action assistant surface thread newId)
  then show ?case using preservesD [OF applyAction_preserves [OF step], of action s] by simp
next
  case (chat_deleted s chat)
  then show ?case using gone by simp
next
  case (elsewhere s t)
  then show ?case using same by blast
qed (rule start)

lemma planOk_chat_gone: "planOk tab \<Longrightarrow> planOk (filter (\<lambda>r. td_chatId r \<noteq> c) tab)"
proof (rule planOk_filter)
  fix r p assume ok: "planOk tab" and r: "r \<in> set tab" "td_chatId r \<noteq> c" "td_parentId r = Some p"
  obtain q where q: "q \<in> set tab" "td_id q = p" "td_chatId q = td_chatId r"
    using parentsOkD [OF planOkD(2) [OF ok] r(1,3)] by (auto simp: mayHold_def)
  show "\<forall>x \<in> set tab. td_id x = p \<longrightarrow> td_chatId x \<noteq> c"
  proof (intro ballI impI)
    fix x assume "x \<in> set tab" "td_id x = p"
    then have "x = q" using same_row [OF planOkD(1) [OF ok] _ q(1)] q(2) by simp
    then show "td_chatId x \<noteq> c" using q(3) r(2) by simp
  qed
qed

lemma planOk_action:
  "preserves (\<lambda>s. planOk (todoTable (dbData s))) (applyActionForChat chat assistant newId action)"
  by (rule applyActionForChat_preserves [where P = "\<lambda>d. planOk (todoTable d)"])
    (simp_all add: addTx_planOk updateTx_planOk planOk_deleteCascade)

lemma todo_history_planOk: "todo_history allowed s \<Longrightarrow> planOk (todoTable (dbData s))"
  by (erule todo_history_invariant [where P = "\<lambda>d. planOk (todoTable d)"])
    (simp_all add: planOk_action planOk_chat_gone)

end
