(* ===== verification/ChatTodoSiblings.thy ===== *)
theory ChatTodoSiblings
  imports ChatTodoHistory
begin

text \<open>
  The rows in progress below one parent: at most one, as long as no update moves a row without stating its status.
\<close>

definition singleActive :: "todo_row list \<Rightarrow> bool" where
  "singleActive tab \<longleftrightarrow> (\<forall>r \<in> set tab. \<forall>q \<in> set tab. td_chatId r = td_chatId q \<longrightarrow> td_parentId r = td_parentId q \<longrightarrow>
     td_status r = Todo_in_progress \<longrightarrow> td_status q = Todo_in_progress \<longrightarrow> r = q)"

definition activeBelow :: "todo_row list \<Rightarrow> string \<Rightarrow> string option \<Rightarrow> bool" where
  "activeBelow tab c bucket \<longleftrightarrow> (\<exists>r \<in> set tab. td_chatId r = c \<and> td_parentId r = bucket \<and> td_status r = Todo_in_progress)"

lemma singleActiveD:
  "singleActive tab \<Longrightarrow> r \<in> set tab \<Longrightarrow> q \<in> set tab \<Longrightarrow> td_chatId r = td_chatId q \<Longrightarrow> td_parentId r = td_parentId q \<Longrightarrow>
    td_status r = Todo_in_progress \<Longrightarrow> td_status q = Todo_in_progress \<Longrightarrow> r = q"
  by (simp add: singleActive_def)

lemma singleActive_subset: "singleActive tab \<Longrightarrow> set tab' \<subseteq> set tab \<Longrightarrow> singleActive tab'"
  unfolding singleActive_def by (meson subsetD)

lemma singleActive_append:
  assumes "singleActive tab" "td_status r = Todo_in_progress \<Longrightarrow> \<not> activeBelow tab (td_chatId r) (td_parentId r)"
  shows "singleActive (tab @ [r])"
  unfolding singleActive_def
proof (intro ballI impI)
  fix x q assume "x \<in> set (tab @ [r])" "q \<in> set (tab @ [r])" and same: "td_chatId x = td_chatId q"
    "td_parentId x = td_parentId q" "td_status x = Todo_in_progress" "td_status q = Todo_in_progress"
  then consider "x = r" "q = r" | "x = r" "q \<in> set tab" | "x \<in> set tab" "q = r" | "x \<in> set tab" "q \<in> set tab" by auto
  then show "x = q"
  proof cases
    case 2
    then show ?thesis using assms(2) same by (auto simp: activeBelow_def)
  next
    case 3
    then show ?thesis using assms(2) same by (auto simp: activeBelow_def)
  next
    case 4
    then show ?thesis using singleActiveD [OF assms(1)] same by blast
  qed simp
qed

lemma singleActive_Nil [simp]: "singleActive []"
  by (simp add: singleActive_def)

lemma activeBelow_append:
  "activeBelow (tab @ [r]) c b \<longleftrightarrow>
    activeBelow tab c b \<or> (td_chatId r = c \<and> td_parentId r = b \<and> td_status r = Todo_in_progress)"
  by (auto simp: activeBelow_def)

lemma anyInProgress_loadAllRows: "anyInProgress (loadAllRows c d) = activeBelow (todoTable d) c"
  by (rule ext) (auto simp: anyInProgress_def activeBelow_def loadAllRows_set)

lemma addLoop_singleActive:
  assumes "addLoop chat assistant newId now orders busy coerced created items d = (res, d')" "singleActive (todoTable d)"
    and "busy = activeBelow (todoTable d) chat"
  shows "singleActive (todoTable d')"
  using assms
proof (induction items arbitrary: orders busy coerced created d)
  case (Cons item items)
  obtain content bucket st where item: "item = (content, bucket, st)" by (cases item)
  define effective where "effective = (if st = Todo_in_progress \<and> busy bucket then Todo_pending else st)"
  define row where "row = \<lparr>td_id = newId (length created), td_chatId = chat, td_assistantId = assistant, td_parentId = bucket,
    td_content = content, td_status = effective, td_sortOrder = orders bucket + 1, td_createdAt = now, td_updatedAt = now,
    td_completedAt = None\<rparr>"
  obtain r d1 where create: "createTodo row d = (r, d1)" by (cases "createTodo row d")
  from create show ?case
  proof (cases rule: createTodo_cases)
    case (duplicate e)
    then have "d' = d" using Cons.prems(1) create by (simp add: item row_def effective_def Let_def bindS_def)
    then show ?thesis using Cons.prems(2) by simp
  next
    case created
    then have table: "todoTable d1 = todoTable d @ [row]" by simp
    let ?busy = "if effective = Todo_in_progress then busy(bucket := True) else busy"
    obtain orders' coerced' created' where loop: "addLoop chat assistant newId now orders' ?busy coerced' created' items d1 = (res, d')"
      using Cons.prems(1) create created(1) by (auto simp: item row_def effective_def Let_def bindS_def)
    show ?thesis
    proof (rule Cons.IH [OF loop], unfold table)
      show "singleActive (todoTable d @ [row])"
        by (rule singleActive_append [OF Cons.prems(2)]) (auto simp: row_def effective_def Cons.prems(3) split: if_splits)
      show "?busy = activeBelow (todoTable d @ [row]) chat"
        by (rule ext) (simp add: activeBelow_append row_def Cons.prems(3))
    qed
  qed
qed (simp add: returnS_def)

lemma addTx_singleActive:
  assumes "singleActive (todoTable d)"
  shows "singleActive (todoTable (snd (addTx chat assistant newId items now d)))"
proof -
  let ?loop = "addLoop chat assistant newId now (orderCursor (loadAllRows chat d)) (anyInProgress (loadAllRows chat d)) 0 [] items"
  obtain res d' where loop: "?loop d = (res, d')" by (cases "?loop d")
  have "singleActive (todoTable d')" by (rule addLoop_singleActive [OF loop assms anyInProgress_loadAllRows])
  then show ?thesis using assms loop by (auto simp: addTx_def Let_def bindS_def split: sum.split)
qed

text \<open>An update that moves a row states its status.\<close>

definition statesStatus :: "todo_action \<Rightarrow> bool" where
  "statesStatus action \<longleftrightarrow> (case action of Update_item u \<Rightarrow> up_parentId u = None \<or> up_status u \<noteq> None | _ \<Rightarrow> True)"

lemma asksUpdate_statesStatus: "statesStatus action \<Longrightarrow> asksUpdate action st parent \<Longrightarrow> parent = None \<or> st \<noteq> None"
  by (auto simp: statesStatus_def asksUpdate_def split: todo_action.splits)

lemma updateTx_singleActive:
  assumes "planOk (todoTable d)" "singleActive (todoTable d)" "parent = None \<or> st \<noteq> None"
  shows "singleActive (todoTable (snd (updateTx c i content st parent now d)))"
proof -
  let ?f = "updatedRow now content st parent"
  obtain res d' where run: "updateTx c i content st parent now d = (res, d')" by (cases "updateTx c i content st parent now d")
  from run have "singleActive (todoTable d')"
  proof (cases rule: updateTx_cases)
    case (updated r u)
    let ?tab = "map (\<lambda>x. if td_id x = td_id r then ?f x else x) (todoTable d)"
    note mem = map_row_mem [OF planOkD(1) [OF assms(1)] updated(1), where f = ?f]
    have alone: False if q: "q \<in> set (todoTable d)" "td_id q \<noteq> td_id r" "td_chatId q = td_chatId r"
        "td_parentId q = td_parentId (?f r)" "td_status (?f r) = Todo_in_progress" "td_status q = Todo_in_progress" for q
    proof (cases st)
      case None
      then have "parent = None" using assms(3) by simp
      then have "q = r" using singleActiveD [OF assms(2) q(1) updated(1)] q(3-6) None by simp
      then show False using q(2) by simp
    next
      case (Some s)
      then have "st = Some Todo_in_progress" using q(5) by simp
      moreover have "q \<in> set (loadAllRows c d)" using q(1,3) updated(3) by (simp add: loadAllRows_set)
      ultimately show False using updated(2,6) q(2,4,6) by (auto simp: statusRefused_def split: if_splits)
    qed
    have "singleActive ?tab"
      unfolding singleActive_def
    proof (intro ballI impI)
      fix x q assume "x \<in> set ?tab" "q \<in> set ?tab" and same: "td_chatId x = td_chatId q" "td_parentId x = td_parentId q"
        "td_status x = Todo_in_progress" "td_status q = Todo_in_progress"
      then consider "x = ?f r" "q = ?f r" | "x = ?f r" "q \<in> set (todoTable d)" "td_id q \<noteq> td_id r"
        | "q = ?f r" "x \<in> set (todoTable d)" "td_id x \<noteq> td_id r" | "x \<in> set (todoTable d)" "q \<in> set (todoTable d)"
        using mem by meson
      then show "x = q"
      proof cases
        case 2
        then show ?thesis using alone [of q] same by simp
      next
        case 3
        then show ?thesis using alone [of x] same by simp
      next
        case 4
        then show ?thesis using singleActiveD [OF assms(2)] same by blast
      qed simp
    qed
    then show ?thesis using updated(2,7) by simp
  qed (use assms(2) in simp)
  then show ?thesis using run by simp
qed

lemma singleActive_action:
  assumes "statesStatus action"
  shows "preserves (\<lambda>s. planOk (todoTable (dbData s)) \<and> singleActive (todoTable (dbData s)))
    (applyActionForChat chat assistant newId action)"
proof (rule applyActionForChat_preserves [where P = "\<lambda>d. planOk (todoTable d) \<and> singleActive (todoTable d)"])
  fix ids :: "string set" and d :: todo_data
  assume "planOk (todoTable d) \<and> singleActive (todoTable d)"
  then show "planOk (todoTable (d\<lparr>todoTable := deleteCascade ids (todoTable d)\<rparr>)) \<and>
      singleActive (todoTable (d\<lparr>todoTable := deleteCascade ids (todoTable d)\<rparr>))"
    using planOk_deleteCascade [of "todoTable d" ids] singleActive_subset [of "todoTable d" "deleteCascade ids (todoTable d)"]
    by (auto simp: deleteCascade_exact)
qed (use asksUpdate_statesStatus [OF assms] in
    \<open>simp_all add: addTx_planOk addTx_singleActive updateTx_planOk updateTx_singleActive\<close>)

lemma todo_history_singleActive:
  assumes "todo_history statesStatus s"
  shows "planOk (todoTable (dbData s)) \<and> singleActive (todoTable (dbData s))"
  using assms
proof (rule todo_history_invariant [where P = "\<lambda>d. planOk (todoTable d) \<and> singleActive (todoTable d)"])
  fix d :: todo_data and chat assume "planOk (todoTable d) \<and> singleActive (todoTable d)"
  then show "planOk (todoTable (d\<lparr>todoTable := filter (\<lambda>r. td_chatId r \<noteq> chat) (todoTable d)\<rparr>)) \<and>
      singleActive (todoTable (d\<lparr>todoTable := filter (\<lambda>r. td_chatId r \<noteq> chat) (todoTable d)\<rparr>))"
    by (auto intro: planOk_chat_gone elim!: singleActive_subset)
qed (simp_all add: singleActive_action)

end
