(* ===== verification/ChatTodoWindow.thy ===== *)
theory ChatTodoWindow
  imports ChatTodoPlans
begin

text \<open>
  The window of a plan: what \<open>tryAdd\<close> selects is bounded and closed under parents, and the rows are shown from the
  roots down, each once.
\<close>

section \<open>Selecting rows\<close>

definition closedStep :: "todo_row list \<Rightarrow> string set \<Rightarrow> string set \<Rightarrow> bool" where
  "closedStep rows new sel \<longleftrightarrow> (\<forall>x \<in> new. \<forall>p. parentOf rows x = Some p \<longrightarrow> findRow p rows \<noteq> None \<longrightarrow> p \<in> sel)"

definition windowOk :: "todo_row list \<Rightarrow> string list \<Rightarrow> bool" where
  "windowOk rows sel \<longleftrightarrow> distinct sel \<and> length sel \<le> RUNTIME_CHAT_PLAN_WINDOW_MAX \<and> set sel \<subseteq> td_id ` set rows \<and>
     closedStep rows (set sel) (set sel)"

lemma windowOk_Nil [simp]: "windowOk rows []"
  by (simp add: windowOk_def closedStep_def)

lemma findRow_mem: "findRow p rows \<noteq> None \<longleftrightarrow> p \<in> td_id ` set rows"
  by (auto simp: findRow_def find_None_iff)

lemma closedStep_insert:
  "closedStep rows (b - insert i a) b \<Longrightarrow> parentOf rows i = Some p \<Longrightarrow> p \<in> b \<Longrightarrow> closedStep rows (b - a) b"
  unfolding closedStep_def by (metis Diff_iff insert_iff option.inject)

lemma tryAdd_spec:
  assumes "tryAdd rows i sel = (b, sel')" "distinct sel" "length sel \<le> RUNTIME_CHAT_PLAN_WINDOW_MAX"
    "set sel \<subseteq> td_id ` set rows" "i \<in> td_id ` set rows"
  shows "(if b then distinct sel' \<and> length sel' \<le> RUNTIME_CHAT_PLAN_WINDOW_MAX \<and> set sel' \<subseteq> td_id ` set rows \<and>
      set sel \<subseteq> set sel' \<and> i \<in> set sel' \<and> closedStep rows (set sel' - set sel) (set sel') else sel' = sel)"
  using assms
proof (induction rows i sel arbitrary: b sel' rule: tryAdd.induct)
  case (1 rows i sel)
  note def = tryAdd.simps [of rows i sel]
  show ?case
  proof (cases "i \<in> set sel \<or> length sel \<ge> RUNTIME_CHAT_PLAN_WINDOW_MAX")
    case True
    then have "(b, sel') = (i \<in> set sel, sel)" using 1(2) True by (cases "i \<in> set sel") (simp_all add: def)
    then show ?thesis using 1(3-6) by (auto simp: closedStep_def)
  next
    case False
    then have new: "i \<notin> set sel" and room: "length (i # sel) \<le> RUNTIME_CHAT_PLAN_WINDOW_MAX" by auto
    have undo: "removeAll i (i # sel) = sel" using new by simp
    show ?thesis
    proof (cases "parentOf rows i")
      case None
      then have "(b, sel') = (True, i # sel)" using 1(2) def False by (auto simp: Let_def)
      then show ?thesis using 1(3-6) new room None by (auto simp: closedStep_def)
    next
      case (Some p)
      show ?thesis
      proof (cases "findRow p rows = None \<or> p \<in> set (i # sel)")
        case True
        then have "(b, sel') = (True, i # sel)" using 1(2) def False Some by (auto simp: Let_def)
        then show ?thesis using 1(3-6) new room Some True by (auto simp: closedStep_def)
      next
        case up: False
        then obtain y where y: "findRow p rows = Some y" by auto
        have step: "tryAdd rows i sel = (if length (i # sel) \<ge> RUNTIME_CHAT_PLAN_WINDOW_MAX then (False, removeAll i (i # sel))
            else (case tryAdd rows p (i # sel) of (True, sel2) \<Rightarrow> (True, sel2) | (False, sel2) \<Rightarrow> (False, removeAll i sel2)))"
          unfolding def using False up y Some by (simp add: Let_def)
        show ?thesis
        proof (cases "length (i # sel) \<ge> RUNTIME_CHAT_PLAN_WINDOW_MAX")
          case True
          then have "(b, sel') = (False, sel)" using 1(2) step undo by simp
          then show ?thesis by simp
        next
          case small: False
          obtain c sel2 where rec: "tryAdd rows p (i # sel) = (c, sel2)" by (cases "tryAdd rows p (i # sel)")
          have sub: "distinct (i # sel)" "set (i # sel) \<subseteq> td_id ` set rows" "p \<in> td_id ` set rows"
            using 1(4,6) 1(3,5) new up findRow_mem by auto
          have got: "if c then distinct sel2 \<and> length sel2 \<le> RUNTIME_CHAT_PLAN_WINDOW_MAX \<and> set sel2 \<subseteq> td_id ` set rows \<and>
              set (i # sel) \<subseteq> set sel2 \<and> p \<in> set sel2 \<and> closedStep rows (set sel2 - set (i # sel)) (set sel2) else sel2 = i # sel"
            by (rule 1(1) [OF _ _ refl Some up small rec sub(1) room sub(2,3)]) (use False in auto)
          show ?thesis
          proof (cases c)
            case True
            then have "b = True" "sel' = sel2" using 1(2) step small rec by simp_all
            moreover have "closedStep rows (set sel2 - set sel) (set sel2)"
              using got True closedStep_insert [OF _ Some, of "set sel2" "set sel"] by simp
            ultimately show ?thesis using got True by simp
          next
            case False
            then have "b = False" "sel' = removeAll i sel2" using 1(2) step small rec by simp_all
            then show ?thesis using got False undo by simp
          qed
        qed
      qed
    qed
  qed
qed

lemma closedStep_Un: "closedStep rows a a \<Longrightarrow> a \<subseteq> b \<Longrightarrow> closedStep rows (b - a) b \<Longrightarrow> closedStep rows b b"
  unfolding closedStep_def by (metis Diff_iff subsetD)

lemma addAll_windowOk:
  assumes "windowOk rows sel" "set ids \<subseteq> td_id ` set rows"
  shows "windowOk rows (addAll rows ids sel)"
  using assms
proof (induction ids arbitrary: sel)
  case (Cons i ids)
  obtain b sel' where run: "tryAdd rows i sel = (b, sel')" by (cases "tryAdd rows i sel")
  have "if b then distinct sel' \<and> length sel' \<le> RUNTIME_CHAT_PLAN_WINDOW_MAX \<and> set sel' \<subseteq> td_id ` set rows \<and>
      set sel \<subseteq> set sel' \<and> i \<in> set sel' \<and> closedStep rows (set sel' - set sel) (set sel') else sel' = sel"
    by (rule tryAdd_spec [OF run]) (use Cons.prems in \<open>simp_all add: windowOk_def\<close>)
  then have "windowOk rows sel'" using Cons.prems(1) closedStep_Un [of rows "set sel" "set sel'"]
    by (cases b) (simp_all add: windowOk_def)
  then show ?case using Cons run by (cases b) simp_all
qed simp

lemma selectedIds_windowOk: "windowOk rows (selectedIds rows)"
proof -
  have ids: "set (idsWith st rows) \<subseteq> td_id ` set rows" for st by (auto simp: idsWith_def)
  have "set (completedMostRecent rows) \<subseteq> td_id ` set rows" by (auto simp: completedMostRecent_def)
  then show ?thesis unfolding selectedIds_def
    by (intro addAll_windowOk windowOk_Nil ids) (use ids set_take_subset in \<open>fastforce+\<close>)
qed

section \<open>Showing the selected rows\<close>

abbreviation idsOf :: "todo_row list \<Rightarrow> string set" where
  "idsOf rs \<equiv> td_id ` set rs"

lemma renderRows_skip: "i \<in> visited \<or> findRow i rows = None \<Longrightarrow> renderRows rows sel (i # calls) visited = renderRows rows sel calls visited"
  by auto

definition childCalls :: "todo_row list \<Rightarrow> string list \<Rightarrow> string \<Rightarrow> string list" where
  "childCalls rows sel i = map td_id (filter (\<lambda>c. td_parentId c = Some i \<and> td_id c \<in> set sel) rows)"

lemma renderRows_new:
  "i \<notin> visited \<Longrightarrow> findRow i rows = Some r \<Longrightarrow>
    renderRows rows sel (i # calls) visited = r # renderRows rows sel (childCalls rows sel i @ calls) (insert i visited)"
  by (simp add: childCalls_def)

declare renderRows.simps(2) [simp del]

text \<open>The cases of one call.\<close>

lemma renderRows_induct [case_names none skip new]:
  assumes "\<And>visited. P [] visited"
    and "\<And>i calls visited. i \<in> visited \<or> findRow i rows = None \<Longrightarrow> P calls visited \<Longrightarrow> P (i # calls) visited"
    and "\<And>i calls visited r. i \<notin> visited \<Longrightarrow> findRow i rows = Some r \<Longrightarrow> r \<in> set rows \<Longrightarrow> td_id r = i \<Longrightarrow>
      P (childCalls rows sel i @ calls) (insert i visited) \<Longrightarrow> P (i # calls) visited"
  shows "P calls visited"
  using assms
proof (induction rows sel calls visited rule: renderRows.induct)
  case (2 rows sel i calls visited)
  show ?case
  proof (cases "i \<in> visited \<or> findRow i rows = None")
    case True
    then show ?thesis using 2(1,2,4,5,6) by blast
  next
    case False
    then obtain r where r: "findRow i rows = Some r" by auto
    have "P (childCalls rows sel i @ calls) (insert i visited)"
      using 2(3) [OF _ r] False 2(4-6) unfolding childCalls_def by blast
    then show ?thesis using 2(6) [of i visited r calls] r False findRow_Some [OF r] by blast
  qed
qed blast

lemma childCalls_sel: "set (childCalls rows sel i) \<subseteq> set sel"
  by (auto simp: childCalls_def)

lemma renderRows_fresh: "r \<in> set (renderRows rows sel calls visited) \<Longrightarrow> r \<in> set rows \<and> td_id r \<notin> visited"
  by (induction calls visited rule: renderRows_induct [where rows = rows and sel = sel])
    (auto simp: renderRows_skip renderRows_new)

lemma renderRows_distinct: "distinct (map td_id (renderRows rows sel calls visited))"
  by (induction calls visited rule: renderRows_induct [where rows = rows and sel = sel])
    (auto simp: renderRows_skip renderRows_new dest: renderRows_fresh)

lemma renderRows_sel: "set calls \<subseteq> set sel \<Longrightarrow> idsOf (renderRows rows sel calls visited) \<subseteq> set sel"
  by (induction calls visited rule: renderRows_induct [where rows = rows and sel = sel])
    (use childCalls_sel in \<open>auto simp: renderRows_skip renderRows_new\<close>)

lemma renderRows_calls: "set calls \<inter> td_id ` set rows \<subseteq> visited \<union> idsOf (renderRows rows sel calls visited)"
proof (induction calls visited rule: renderRows_induct [where rows = rows and sel = sel])
  case (skip i calls visited)
  then have "i \<in> visited \<or> i \<notin> td_id ` set rows" using findRow_mem by blast
  then show ?case using skip by (auto simp: renderRows_skip)
next
  case (new i calls visited r)
  then show ?case by (auto simp: renderRows_new)
qed simp

text \<open>What is selected below a shown row is shown.\<close>

lemma renderRows_children:
  assumes "i \<in> idsOf (renderRows rows sel calls visited)"
  shows "set (childCalls rows sel i) \<subseteq> visited \<union> idsOf (renderRows rows sel calls visited)"
  using assms
proof (induction calls visited rule: renderRows_induct [where rows = rows and sel = sel])
  case (new j calls visited r)
  have "set (childCalls rows sel j) \<subseteq> td_id ` set rows" by (auto simp: childCalls_def)
  then show ?case using new renderRows_calls [of "childCalls rows sel j @ calls" rows "insert j visited" sel]
    by (auto simp: renderRows_new)
qed (auto simp: renderRows_skip)

lemma renderRows_append:
  "renderRows rows sel (as @ bs) visited =
    renderRows rows sel as visited @ renderRows rows sel bs (visited \<union> idsOf (renderRows rows sel as visited))"
  by (induction as visited rule: renderRows_induct [where rows = rows and sel = sel])
    (simp_all add: renderRows_skip renderRows_new)

lemma renderRows_visited: "set calls \<subseteq> visited \<Longrightarrow> renderRows rows sel calls visited = []"
  by (induction calls) (simp_all add: renderRows_skip)

text \<open>A row is shown after the row above it.\<close>

fun topDown :: "string set \<Rightarrow> string set \<Rightarrow> todo_row list \<Rightarrow> bool" where
  "topDown sel shown [] \<longleftrightarrow> True"
| "topDown sel shown (r # rs) \<longleftrightarrow>
     (\<forall>p. td_parentId r = Some p \<longrightarrow> p \<in> sel \<longrightarrow> p \<in> shown) \<and> topDown sel (insert (td_id r) shown) rs"

lemma topDown_nth:
  "topDown sel shown rs \<Longrightarrow> k < length rs \<Longrightarrow> td_parentId (rs ! k) = Some p \<Longrightarrow> p \<in> sel \<Longrightarrow> p \<in> shown \<union> idsOf (take k rs)"
proof (induction rs arbitrary: shown k)
  case (Cons r rs)
  then show ?case by (cases k) auto
qed simp

lemma parentOf_row:
  assumes "distinct (map td_id rows)" "r \<in> set rows"
  shows "parentOf rows (td_id r) = td_parentId r"
proof -
  have "findRow (td_id r) rows = Some r" using findRow_iff [OF assms(1)] assms(2) by blast
  then show ?thesis by (simp add: parentOf_def)
qed

lemma renderRows_topDown:
  assumes "distinct (map td_id rows)" "\<And>i p. i \<in> set calls \<Longrightarrow> parentOf rows i = Some p \<Longrightarrow> p \<in> set sel \<Longrightarrow> p \<in> visited"
  shows "topDown (set sel) visited (renderRows rows sel calls visited)"
  using assms(2)
proof (induction calls visited rule: renderRows_induct [where rows = rows and sel = sel])
  case (skip i calls visited)
  have "topDown (set sel) visited (renderRows rows sel calls visited)" by (rule skip.IH) (use skip.prems in auto)
  then show ?case using skip.hyps by (simp add: renderRows_skip)
next
  case (new i calls visited r)
  have "topDown (set sel) (insert i visited) (renderRows rows sel (childCalls rows sel i @ calls) (insert i visited))"
  proof (rule new.IH)
    fix j p assume j: "j \<in> set (childCalls rows sel i @ calls)" "parentOf rows j = Some p" "p \<in> set sel"
    show "p \<in> insert i visited"
    proof (cases "j \<in> set calls")
      case True
      then show ?thesis using new.prems [of j p] j by simp
    next
      case False
      then obtain c where "c \<in> set rows" "td_id c = j" "td_parentId c = Some i" using j(1) by (auto simp: childCalls_def)
      then have "parentOf rows j = Some i" using parentOf_row [OF assms(1)] by metis
      then show ?thesis using j(2) by simp
    qed
  qed
  moreover have "parentOf rows i = td_parentId r" using new.hyps(2) by (simp add: parentOf_def)
  ultimately show ?case using new.prems [of i] new.hyps by (simp add: renderRows_new)
qed simp

lemma finite_parentRel: "finite (parentRel rows)"
  by (rule finite_subset [of _ "(\<lambda>r. (td_id r, the (td_parentId r))) ` set rows"]) (auto simp: parentRel_def intro!: image_eqI)

text \<open>The calls on the topmost rows show everything that is selected.\<close>

definition topRows :: "todo_row list \<Rightarrow> string list \<Rightarrow> todo_row list" where
  "topRows rows sel = filter (\<lambda>r. td_id r \<in> set sel \<and> (case td_parentId r of None \<Rightarrow> True | Some p \<Rightarrow> p \<notin> set sel)) rows"

lemma renderRows_all:
  assumes "acyclic (parentRel rows)" "set sel \<subseteq> td_id ` set rows" "i \<in> set sel"
  shows "i \<in> idsOf (renderRows rows sel (map td_id (topRows rows sel)) {})"
proof -
  have "wf ((parentRel rows)\<inverse>)" using finite_parentRel assms(1) by (rule finite_acyclic_wf_converse)
  then show ?thesis using assms(3)
  proof (induction i rule: wf_induct_rule)
    case (less i)
    obtain c where c: "c \<in> set rows" "td_id c = i" using less.prems assms(2) by auto
    show ?case
    proof (cases "c \<in> set (topRows rows sel)")
      case True
      then have "i \<in> set (map td_id (topRows rows sel)) \<inter> td_id ` set rows" using c by auto
      then show ?thesis using renderRows_calls [of "map td_id (topRows rows sel)" rows "{}" sel] by blast
    next
      case False
      then obtain p where p: "td_parentId c = Some p" "p \<in> set sel"
        using c less.prems by (auto simp: topRows_def split: option.splits)
      then have "p \<in> idsOf (renderRows rows sel (map td_id (topRows rows sel)) {})"
        using less.IH [of p] parentRelI [OF c(1) p(1)] c(2) by simp
      moreover have "i \<in> set (childCalls rows sel p)" using c p less.prems by (auto simp: childCalls_def)
      ultimately show ?thesis using renderRows_children by blast
    qed
  qed
qed

lemma parentRel_planOrder [simp]: "parentRel (planOrder rows) = parentRel rows"
  by (simp add: parentRel_def)

text \<open>The window as a list of rows.\<close>

lemma selectChatPlanWindow_rows:
  assumes "distinct (map td_id rows)" "acyclic (parentRel rows)" "rows \<noteq> []"
  obtains L where "selectChatPlanWindow rows = (map todoItem L, length L < length rows)" "distinct (map td_id L)"
    "set L \<subseteq> set rows" "idsOf L = set (selectedIds (planOrder rows))" "topDown (set (selectedIds (planOrder rows))) {} L"
proof -
  define ordered where "ordered = planOrder rows"
  define sel where "sel = selectedIds ordered"
  define tops where "tops = map td_id (topRows ordered sel)"
  define rest where "rest = map td_id (filter (\<lambda>r. td_id r \<in> set sel) ordered)"
  define L where "L = renderRows ordered sel tops {}"
  have ord: "distinct (map td_id ordered)" "acyclic (parentRel ordered)" using assms by (simp_all add: ordered_def)
  have ids: "set sel \<subseteq> td_id ` set ordered"
    using selectedIds_windowOk [of ordered] by (simp add: windowOk_def sel_def)
  have tops: "set tops \<subseteq> set sel" by (auto simp: tops_def topRows_def)
  have all: "idsOf L = set sel"
    using renderRows_sel [OF tops] renderRows_all [OF ord(2) ids] by (auto simp: L_def tops_def)
  have "renderRows ordered sel (tops @ rest) {} = L"
    unfolding renderRows_append L_def [symmetric]
    by (simp add: all) (rule renderRows_visited, auto simp: rest_def)
  moreover have "selectChatPlanWindow rows =
      (map todoItem (renderRows ordered sel (tops @ rest) {}), length rows > length (renderRows ordered sel (tops @ rest) {}))"
    using assms(3) by (simp add: selectChatPlanWindow_def Let_def ordered_def sel_def tops_def rest_def topRows_def)
  moreover have "topDown (set sel) {} L"
    unfolding L_def
  proof (rule renderRows_topDown [OF ord(1)])
    fix i p assume i: "i \<in> set tops" "parentOf ordered i = Some p" "p \<in> set sel"
    then obtain r where r: "r \<in> set ordered" "td_id r = i" "case td_parentId r of None \<Rightarrow> True | Some p \<Rightarrow> p \<notin> set sel"
      by (auto simp: tops_def topRows_def)
    then have "td_parentId r = Some p" using parentOf_row [OF ord(1) r(1)] i(2) by simp
    then show "p \<in> {}" using r(3) i(3) by simp
  qed
  moreover have "set L \<subseteq> set rows" unfolding L_def using renderRows_fresh by (fastforce simp: ordered_def)
  moreover have "distinct (map td_id L)" unfolding L_def by (rule renderRows_distinct)
  ultimately show thesis using that [of L] all by (simp add: sel_def ordered_def)
qed

end
