(* ===== verification/ChatTodoProperties.thy ===== *)
theory ChatTodoProperties
  imports ChatTodoSiblings ChatTodoWindow
begin

text \<open>
  What the plans of chats promise: they stay forests of open items whose check for cycles is exact, a removal takes the row with
  all that is below it and answers what is left, the window shows parents before what is below them, and at most one row
  below a parent is in progress unless an update moves a row without stating its status.
\<close>

section \<open>An example\<close>

definition newPlans :: "todo_data database" where
  "newPlans = \<lparr>dbNow = 5, dbData = \<lparr>todoTable = [], todoChats = []\<rparr>, dbCount = 0, dbFault = (\<lambda>_. NoFault)\<rparr>"

definition addItem :: "string \<Rightarrow> string option \<Rightarrow> todo_status option \<Rightarrow> todo_add_item" where
  "addItem content parent st = \<lparr>ai_content = content, ai_parentId = parent, ai_status = st\<rparr>"

definition planOfTwo :: "todo_data database" where
  "planOfTwo = snd (applyActionForChat ''c'' ''a'' (\<lambda>n. if n = 0 then ''A'' else ''B'')
     (Add_items [addItem ''  build  it '' None (Some Todo_in_progress), addItem ''test'' None (Some Todo_in_progress)]) newPlans)"

text \<open>\<open>A\<close> in progress, \<open>B\<close> pending, and below \<open>B\<close> the row \<open>C\<close> in progress.\<close>

definition planOfThree :: "todo_data database" where
  "planOfThree = snd (applyActionForChat ''c'' ''a'' (\<lambda>_. ''C'') (Add_items [addItem ''cases'' (Some ''B'') (Some Todo_in_progress)]) planOfTwo)"

lemma newPlans_history: "todo_history allowed newPlans"
  by (rule todo_history.start) (simp add: newPlans_def)

lemma planOfThree_history:
  assumes "\<And>items. allowed (Add_items items)"
  shows "todo_history allowed planOfThree"
  unfolding planOfThree_def planOfTwo_def by (intro todo_history.for_chat newPlans_history assms)

lemma planOfThree_table:
  "map (\<lambda>r. (td_id r, td_parentId r, td_content r, td_status r)) (todoTable (dbData planOfThree)) =
    [(''A'', None, ''build it'', Todo_in_progress), (''B'', None, ''test'', Todo_pending),
     (''C'', Some ''B'', ''cases'', Todo_in_progress)]"
  by code_simp

lemma handleAdd_reliable: "preserves reliable (handleAdd chat assistant newId items)"
proof -
  have "preserves reliable (tx f)" for f :: "int \<Rightarrow> (todo_data, todo_change) oper"
    by (auto simp: preserves_def reliable_def tx_def Let_def split: fault.split)
  then show ?thesis by (auto simp: handleAdd_def split: sum.split)
qed

lemma planOfThree_reliable: "reliable planOfThree"
proof -
  have "reliable newPlans" by (simp add: reliable_def newPlans_def)
  then show ?thesis unfolding planOfThree_def planOfTwo_def
    by (simp add: applyActionForChat_def preservesD [OF handleAdd_reliable])
qed

section \<open>Properties\<close>

text \<open>C9: After any actions on any chats, refused and failed ones included, the table of todos is a forest inside each chat: ids are
  unique, every parent is a row of the same chat, a row below a completed one is completed, contents are normalized, a chat has at
  most \<open>HARD_ACTIVE_CAP\<close> rows, and no row is below itself; and the check for cycles never fails and answers whether the
  candidate is below the row that moves.\<close>

theorem plans_stay_forests:
  assumes "todo_history (\<lambda>_. True) s"
  shows "planOk (todoTable (dbData s)) \<and>
    wouldCreateCycle (loadAllRows c (dbData s)) m p = Inr (below (loadAllRows c (dbData s)) p m)"
  using todo_history_planOk [OF assms] wouldCreateCycle_exact [OF loadAllRows_distinct loadAllRows_acyclic] planOkD(1,3)
  by blast

theorem plans_stay_forests_witness:
  "planOk (todoTable (dbData planOfThree)) \<and>
    wouldCreateCycle (loadAllRows ''c'' (dbData planOfThree)) ''B'' ''C'' = Inr (below (loadAllRows ''c'' (dbData planOfThree)) ''C'' ''B'')"
  using plans_stay_forests [OF planOfThree_history, of "''c''" "''B''" "''C''"] by simp

text \<open>What the operation of a transaction answers when the database does not fail.\<close>

lemma handle_reliable:
  assumes "reliable s" "f (dbNow s) (dbData s) = (Inr change, d)"
  shows "\<exists>t. bindS (tx f) (\<lambda>x. returnS (g x)) s = (Inr (g change), t) \<and> dbData t = d"
  using assms by (simp add: bindS_def tx_reliable transactionS_def)

lemma loadAllRows_filter:
  "loadAllRows c (d\<lparr>todoTable := filter P (todoTable d)\<rparr>) = filter P (loadAllRows c d)"
  by (simp add: loadAllRows_def planOrder_def filter_sort conj_commute)

lemma removeTx_exact:
  assumes "planOk (todoTable d)" "findRow i (loadAllRows c d) = Some r"
  defines "d' \<equiv> d\<lparr>todoTable := filter (\<lambda>x. \<not> below (todoTable d) (td_id x) i) (todoTable d)\<rparr>"
  shows "removeTx c i now d = (Inr (applied None (loadAllRows c d')), d')"
proof -
  note ok = planOkD [OF assms(1)]
  have "td_id x \<in> growRemoved (loadAllRows c d) {i} \<longleftrightarrow> below (todoTable d) (td_id x) i" if "x \<in> set (loadAllRows c d)" for x
    using that growRemoved_exact [of "{i}" "loadAllRows c d" i "td_id x"] below_chat_iff [OF ok(1,2), of x c i]
    by (simp add: loadAllRows_set)
  then have "filter (\<lambda>x. td_id x \<notin> growRemoved (loadAllRows c d) {i}) (loadAllRows c d) = loadAllRows c d'"
    unfolding d'_def loadAllRows_filter by (intro filter_cong refl) simp
  moreover have "deleteCascade {i} (todoTable d) = filter (\<lambda>x. \<not> below (todoTable d) (td_id x) i) (todoTable d)"
    by (simp add: deleteCascade_exact)
  ultimately show ?thesis using assms(2) by (simp add: removeTx_def d'_def)
qed

text \<open>C22: Removing a row of a plan, by a database that does not fail, deletes the row and exactly the rows below it, at any depth and of
  no other chat or subtree; and the rows that the service keeps by its own computation, from which it answers, are the ones the table
  still has after the cascade of the database.\<close>

theorem removal_takes_subtree:
  assumes "todo_history (\<lambda>_. True) s" "reliable s" "findRow i (loadAllRows c (dbData s)) = Some r"
  shows "\<exists>t. applyActionForChat c a newId (Remove_item i) s = (Inr (buildResult c (applied None (loadAllRows c (dbData t)))), t) \<and>
    todoTable (dbData t) = filter (\<lambda>x. \<not> below (todoTable (dbData s)) (td_id x) i) (todoTable (dbData s))"
proof -
  note run = removeTx_exact [OF todo_history_planOk [OF assms(1)] assms(3), of "dbNow s"]
  from handle_reliable [where f = "removeTx c i", OF assms(2) run, of "buildResult c"] show ?thesis
    by (auto simp: applyActionForChat_def handleRemove_def)
qed

theorem removal_takes_subtree_witness:
  "\<exists>t. applyActionForChat ''c'' ''a'' (\<lambda>_. []) (Remove_item ''B'') planOfThree =
      (Inr (buildResult ''c'' (applied None (loadAllRows ''c'' (dbData t)))), t) \<and>
    todoTable (dbData t) =
      filter (\<lambda>x. \<not> below (todoTable (dbData planOfThree)) (td_id x) ''B'') (todoTable (dbData planOfThree))"
proof -
  have "findRow ''B'' (loadAllRows ''c'' (dbData planOfThree)) \<noteq> None" by code_simp
  then obtain r where r: "findRow ''B'' (loadAllRows ''c'' (dbData planOfThree)) = Some r" by auto
  then show ?thesis using removal_takes_subtree [OF planOfThree_history planOfThree_reliable, of "''B''" "''c''"] by simp
qed

lemma readWindow_rows:
  assumes "readWindow c s = (Inr (todos, windowed, count), t)"
  shows "selectChatPlanWindow (loadAllRows c (dbData s)) = (todos, windowed) \<and> count = length (loadAllRows c (dbData s))"
proof -
  obtain r u where run: "tx (\<lambda>_ d. (Inr (loadAllRows c d), d)) s = (r, u)" by (cases "tx (\<lambda>_ d. (Inr (loadAllRows c d), d)) s")
  with assms obtain rows where "r = Inr rows" by (cases r) (auto simp: readWindow_def bindS_def)
  with run have "rows = loadAllRows c (dbData s)" by (auto dest: tx_Inr)
  then show ?thesis using assms run \<open>r = Inr rows\<close>
    by (auto simp: readWindow_def bindS_def split: prod.splits)
qed

text \<open>C28: The window of a plan that the model is shown holds at most twelve items of the plan, each once, and says truly how many there are
  and whether some are missing; and whatever is selected, the parent of every shown item is shown before it, so the window reads
  as a plan of its own.\<close>

theorem window_shows_parents_first:
  assumes "todo_history (\<lambda>_. True) s" "readWindow c s = (Inr (todos, windowed, count), t)"
  shows "length todos \<le> RUNTIME_CHAT_PLAN_WINDOW_MAX \<and> distinct (map ti_id todos) \<and>
    set todos \<subseteq> todoItem ` set (loadAllRows c (dbData s)) \<and> count = length (loadAllRows c (dbData s)) \<and>
    windowed = (length todos < count) \<and>
    (\<forall>k p. k < length todos \<longrightarrow> ti_parentId (todos ! k) = Some p \<longrightarrow> p \<in> ti_id ` set (take k todos))"
proof (cases "loadAllRows c (dbData s) = []")
  case True
  then show ?thesis using readWindow_rows [OF assms(2)] by (auto simp: selectChatPlanWindow_def)
next
  case False
  note ok = planOkD [OF todo_history_planOk [OF assms(1)]]
  note chat = loadAllRows_distinct [OF ok(1), of c] loadAllRows_acyclic [OF ok(3), of c]
  define sel where "sel = selectedIds (planOrder (loadAllRows c (dbData s)))"
  obtain L where L: "selectChatPlanWindow (loadAllRows c (dbData s)) = (map todoItem L, length L < length (loadAllRows c (dbData s)))"
      "distinct (map td_id L)" "set L \<subseteq> set (loadAllRows c (dbData s))" "idsOf L = set sel" "topDown (set sel) {} L"
    unfolding sel_def by (rule selectChatPlanWindow_rows [OF chat False])
  have todos: "todos = map todoItem L" using L(1) readWindow_rows [OF assms(2)] by simp
  have ids: "ti_id \<circ> todoItem = td_id" by (simp add: todoItem_def fun_eq_iff)
  have sel: "windowOk (planOrder (loadAllRows c (dbData s))) sel" unfolding sel_def by (rule selectedIds_windowOk)
  have "length L = card (idsOf L)" using distinct_card [OF L(2)] by simp
  then have "length L \<le> RUNTIME_CHAT_PLAN_WINDOW_MAX"
    using sel L(4) distinct_card [of sel] by (simp add: windowOk_def)
  moreover have "p \<in> ti_id ` set (take k todos)" if k: "k < length todos" "ti_parentId (todos ! k) = Some p" for k p
  proof -
    have r: "td_parentId (L ! k) = Some p" "L ! k \<in> set (loadAllRows c (dbData s))" "k < length L"
      using k L(3) by (auto simp: todos todoItem_def)
    have "mayHold (todoTable (dbData s)) (td_chatId (L ! k)) p (td_status (L ! k))"
      using parentsOkD [OF ok(2)] r(1,2) by (auto simp: loadAllRows_set)
    then obtain q where q: "q \<in> set (loadAllRows c (dbData s))" "td_id q = p" using r(2) by (auto simp: mayHold_def loadAllRows_set)
    have "td_id (L ! k) \<in> set sel" using L(4) r(3) by (metis image_eqI nth_mem)
    moreover have "findRow p (planOrder (loadAllRows c (dbData s))) \<noteq> None" unfolding findRow_mem using q by auto
    moreover have "parentOf (planOrder (loadAllRows c (dbData s))) (td_id (L ! k)) = Some p"
      using parentOf_row [of "planOrder (loadAllRows c (dbData s))" "L ! k"] chat(1) r(1,2) by simp
    ultimately have "p \<in> set sel" using sel by (auto simp: windowOk_def closedStep_def)
    then have "p \<in> idsOf (take k L)" using topDown_nth [OF L(5) r(3,1)] by simp
    then show ?thesis by (simp add: todos take_map image_image todoItem_def)
  qed
  ultimately show ?thesis using L(1-3) readWindow_rows [OF assms(2)] by (auto simp: todos ids)
qed

theorem window_shows_parents_first_witness:
  "length (fst (selectChatPlanWindow (loadAllRows ''c'' (dbData planOfThree)))) = 3 \<and>
    (\<exists>todos windowed count t. readWindow ''c'' planOfThree = (Inr (todos, windowed, count), t) \<and>
      distinct (map ti_id todos) \<and> count = length (loadAllRows ''c'' (dbData planOfThree)))"
proof -
  have "isl (fst (readWindow ''c'' planOfThree)) = False" by code_simp
  then obtain todos windowed count t where run: "readWindow ''c'' planOfThree = (Inr (todos, windowed, count), t)"
    by (cases "readWindow ''c'' planOfThree"; cases "fst (readWindow ''c'' planOfThree)") auto
  have "length (fst (selectChatPlanWindow (loadAllRows ''c'' (dbData planOfThree)))) = 3" by code_simp
  moreover have "distinct (map ti_id todos) \<and> count = length (loadAllRows ''c'' (dbData planOfThree))"
    using window_shows_parents_first [OF planOfThree_history run] by simp
  ultimately show ?thesis using run by blast
qed

text \<open>C30: As long as no update moves a row without stating its status, a plan never has two rows in progress below one parent, nor two in
  progress at the root of a chat, whatever actions are sent: a second one is made pending when it is added and refused when it is
  updated.\<close>

theorem one_sibling_in_progress:
  assumes "todo_history statesStatus s"
  shows "singleActive (todoTable (dbData s))"
  using todo_history_singleActive [OF assms] by blast

theorem one_sibling_in_progress_witness: "singleActive (todoTable (dbData planOfThree))"
  by (rule one_sibling_in_progress [OF planOfThree_history]) (simp add: statesStatus_def)

text \<open>C38: An update that moves a row in progress to the root of its plan without stating its status is applied although another row
  at the root is in progress: the check of the siblings looks at the status in the request only, and the plan then has two
  rows in progress side by side.\<close>

theorem reparent_makes_two_in_progress:
  assumes "todo_history (\<lambda>_. True) s" "reliable s" "findRow i (loadAllRows c (dbData s)) = Some r"
    and "td_status r = Todo_in_progress" "td_parentId r = Some p"
    and "q \<in> set (loadAllRows c (dbData s))" "td_status q = Todo_in_progress" "td_parentId q = None"
  shows "\<exists>t change. applyActionForChat c a newId
      (Update_item \<lparr>up_id = i, up_content = None, up_status = None, up_parentId = Some None\<rparr>) s = (Inr (buildResult c change), t) \<and>
    tc_action change = Applied \<and> \<not> singleActive (todoTable (dbData t))"
proof -
  let ?f = "updatedRow (dbNow s) None None (Some None)"
  note ok = planOkD [OF todo_history_planOk [OF assms(1)]]
  note r = findRow_Some [OF assms(3)]
  define change where "change = applied None (map (\<lambda>x. if td_id x = i then ?f x else x) (loadAllRows c (dbData s)))"
  have run: "updateTx c i None None (Some None) (dbNow s) (dbData s) = (Inr change, updateTodo i ?f (dbData s))"
    using assms(3,4) by (simp add: updateTx_def checkReparent_def statusRefused_def change_def)
  from handle_reliable [where f = "updateTx c i None None (Some None)", OF assms(2) run, of "buildResult c"]
  obtain t where t: "applyActionForChat c a newId
      (Update_item \<lparr>up_id = i, up_content = None, up_status = None, up_parentId = Some None\<rparr>) s = (Inr (buildResult c change), t)"
      "dbData t = updateTodo i ?f (dbData s)"
    by (auto simp: applyActionForChat_def handleUpdate_def normalizeOptionalParentId_def)
  have table: "r \<in> set (todoTable (dbData s))" "td_chatId r = c" "q \<in> set (todoTable (dbData s))" "td_chatId q = c"
    using r assms(6) by (simp_all add: loadAllRows_set)
  have "q \<noteq> r" using assms(5,8) by auto
  then have other: "td_id q \<noteq> i" using same_row [OF ok(1) table(3,1)] r by auto
  have "?f r \<in> set (todoTable (dbData t))" "q \<in> set (todoTable (dbData t))"
    using map_row_this [OF table(1), of ?f] map_row_other [OF table(3) other, of ?f] r by (simp_all add: t(2))
  moreover have "?f r \<noteq> q" using other r by auto
  ultimately have "\<not> singleActive (todoTable (dbData t))"
    using singleActiveD [of "todoTable (dbData t)" "?f r" q] table(2,4) assms(4,7,8) by auto
  then show ?thesis using t(1) by (auto simp: change_def applied_def)
qed

theorem reparent_makes_two_in_progress_witness:
  "\<exists>t change. applyActionForChat ''c'' ''a'' (\<lambda>_. [])
      (Update_item \<lparr>up_id = ''C'', up_content = None, up_status = None, up_parentId = Some None\<rparr>) planOfThree =
        (Inr (buildResult ''c'' change), t) \<and>
    tc_action change = Applied \<and> \<not> singleActive (todoTable (dbData t))"
proof -
  let ?rows = "loadAllRows ''c'' (dbData planOfThree)"
  have C: "findRow ''C'' ?rows = Some (the (findRow ''C'' ?rows))" "td_status (the (findRow ''C'' ?rows)) = Todo_in_progress"
    "td_parentId (the (findRow ''C'' ?rows)) = Some ''B''"
    by code_simp+
  have A: "findRow ''A'' ?rows = Some (the (findRow ''A'' ?rows))" "td_status (the (findRow ''A'' ?rows)) = Todo_in_progress"
    "td_parentId (the (findRow ''A'' ?rows)) = None"
    by code_simp+
  have mem: "the (findRow ''A'' ?rows) \<in> set ?rows" using findRow_Some [OF A(1)] by blast
  show ?thesis by (rule reparent_makes_two_in_progress [OF planOfThree_history planOfThree_reliable C mem A(2,3)]) (rule TrueI)
qed

end
