(* ===== verification/Spec2Isabelle.thy ===== *)
theory Spec2Isabelle
  imports Admission ToolBudget SessionLease BundleMarkers Reconciliation TurnFinalization SchedulerLease MonthlyQuota UsageQuota
    BillingHistory BillingEffects CadenceWatchdog AbuseGuard BillingEvents AsyncJobProperties ChatWakeProperties ChatTodoProperties
begin

text \<open>
  A verification library for PersAI: the coordination core of the runtime service (\<open>apps/runtime\<close>) and of the
  workspace API (\<open>apps/api\<close>), that is the services that decide, for many concurrent requests and processes, who may run,
  who owns a turn, what is charged, what is limited, and who tells the user about a job that ended.

  \<^bold>\<open>The program.\<close> The API receives a message over web or Telegram, checks rate limits and quotas, and hands a turn to the
  runtime. The runtime admits it, leases the session, records a receipt, runs model and tools and finalizes the receipt. A
  tool may start a job (media, document, sandbox) that outlives the turn; the API keeps a handle of it and, when it
  ends after the turn, runs a follow-up turn in the chat. Payments reach the API as billing events and move the subscription and the Vcoin wallet.

  \<^bold>\<open>Shared theories.\<close>
  \<^item> \<open>PersaiPrelude\<close>: errors as values, service operations in state passing style with \<open>bindS\<close>, \<open>catchS\<close>,
    \<open>transactionS\<close>, the bounded retry loop, JSON values, strings and numbers of JavaScript.
  \<^item> \<open>Database\<close>, \<open>PgTransaction\<close>: a database as data, clock and an oracle of failing calls (before the commit or after
    it); a Postgres transaction that a failed statement aborts. \<open>JsDate\<close>: \<open>toISOString\<close> from 1970 on. Its search for the year goes
    down from an upper estimate with one step of fuel per year since 1970, which the lemmas there show to be enough.
  \<^item> Interfaces as locales, each interpreted on the code's models: \<open>LeaseProtocol\<close> (exclusive expiring leases; providers
    \<open>SessionLease\<close> and \<open>SchedulerLease\<close>), \<open>UsageCounter\<close> (capped counters; provider \<open>UsageQuota\<close>), \<open>WindowLimit\<close> (fixed
    windows; three interpretations in \<open>AbuseGuard\<close>).

  \<^bold>\<open>Runtime\<close> (\<open>apps/runtime/src/modules\<close>).
  \<^item> \<open>Admission\<close> (\<open>turns/runtime-execution-admission.service.ts\<close>): classes of work share slots. Step relation, invariant:
    capacity, reserved slots, order of arrival.
  \<^item> \<open>ToolBudget\<close> (\<open>turns/tool-budget-policy.ts\<close>, the API's \<open>tool-budgets-policy.ts\<close>): loop limit, caps per tool.
  \<^item> \<open>Keyspace\<close>, \<open>RedisState\<close>, \<open>BundleMarkers\<close>, \<open>SessionLease\<close> (\<open>runtime-state\<close>, \<open>sessions/session-lease.service.ts\<close>): names of keys,
    every Redis operation with its two Lua scripts, leases. SHA-256 is a parameter.
  \<^item> \<open>RuntimeStore\<close>, \<open>SessionStore\<close>, \<open>Idempotency\<close>, \<open>TurnAcceptance\<close>, \<open>TurnFinalization\<close>, \<open>Reconciliation\<close>: the Postgres tables of the
    runtime and the life of a turn: accepted once, owned while it runs, finalized before its lease is
    released, handed back only when its owner is gone.
  \<^item> \<open>MicroClear\<close> (\<open>turns/tool-observation-policy.ts\<close>): when old tool results are cleared.

  \<^bold>\<open>API\<close> (\<open>apps/api/src/modules/workspace-management\<close>).
  \<^item> \<open>SchedulerLease\<close>: one scheduler at a time. \<open>CadenceWatchdog\<close>: stalled streams.
  \<^item> \<open>AbuseGuard\<close>: rate limits per peer, user and assistant. \<open>QuotaStore\<close>, \<open>MonthlyQuota\<close>, \<open>UsageQuota\<close>: counters of paid
    units, storage and token budget; each refines or is a provider of an abstract counter. A transaction
    that fails to serialize is retried three times.
  \<^item> \<open>BillingStore\<close>, \<open>ModelPricing\<close>, \<open>VcoinWallet\<close>, \<open>SubscriptionLifecycle\<close>, \<open>BillingEvents\<close>: subscription, wallet, prices, events. \<open>BillingInvariants\<close> has the abstract
    steps every operation makes, \<open>BillingHistory\<close> what every history of calls keeps, \<open>BillingEffects\<close> what a call does when the database answers.
  \<^item> \<open>AsyncJobStore\<close>, \<open>AsyncJobHandles\<close> (\<open>assistant-async-job-handle-state.service.ts\<close> and the trigger that mints handles): all
    operations. \<open>AsyncJobMachine\<close> is the abstract state machine of one handle, \<open>AsyncJobRefinement\<close> and \<open>AsyncJobOperations\<close> show that every
    operation is a path of its moves, \<open>AsyncJobWaves\<close> the numbering of follow-ups, \<open>AsyncJobHistory\<close> any sequence of calls and
    of writes of other services, \<open>AsyncJobProperties\<close> what follows. Depth 4, 8 retries.
  \<^item> \<open>ChatWake\<close>, \<open>ChatWakeProperties\<close> (\<open>chat-wake-coordinator.service.ts\<close>): when a follow-up may run; works on the leases, the
    handles and the receipts of the other components, with other processes between any two statements.
  \<^item> \<open>ChatTodos\<close> (\<open>assistant-chat-todos.service.ts\<close>): the plan of todo items the model keeps in a chat. \<open>ChatTodoPlans\<close> states plans as forests and
    shows the check for cycles and the deletions exact, \<open>ChatTodoHistory\<close> that every action keeps the invariant, \<open>ChatTodoSiblings\<close> when one
    row below a parent is in progress, \<open>ChatTodoWindow\<close> what is shown; \<open>ChatTodoProperties\<close> has the theorems.

  \<^bold>\<open>Reading the models.\<close> A service method is a definition of its name; a table is a list of rows or a map from its unique
  key; an instant is its milliseconds; \<open>randomUUID\<close>, the order of unordered queries, and what other processes do are arguments.
  Loops over lists are structural; the retry loop, the paged scan and the walks over plans have measures; no result rests on fuel except in \<open>JsDate\<close>.
  Two kinds of concurrency are distinguished: where a method's statements are one transaction or a single-threaded
  handler, histories interleave whole calls; where they are not, other processes act between statements (admission, leases, receipts, quotas, chat wake).

  \<^bold>\<open>Bounds and assumptions.\<close> Clocks of processes and stores are one clock. JavaScript numbers are integers or exact
  rationals where the code's values are. SHA-256 does not collide where keys must differ. Histories of handles start from an empty
  table: rows that older releases left with the narrator \<open>legacy\<close> are handled by the operations but not covered by the invariants.
  A uuid that the code draws for a new wave names no wave yet. In \<open>ChatWake\<close> chats are neither created nor deleted.

  \<^bold>\<open>Not modelled.\<close> The loop over model and tools and the prompts (\<open>turn-execution.service.ts\<close>), provider and payment
  adapters, the services that run jobs and deliver files, notifications, knowledge, moderation, administration, HTTP controllers,
  the web application, the sandbox and the browser extension: they translate between formats or
  drive external systems, and reach the modelled components only through the operations defined here. Of the cost ledger only the
  calculation is modelled, not its queries; of media delivery and package purchases only what touches the wallet.
\<close>

end
